(* ===== verification/Rust_Prelude.thy ===== *)
theory Rust_Prelude
  imports Main "HOL-Library.Word" "HOL-Library.Sublist" "HOL-Library.Char_ord"
    "HOL-Library.List_Lexorder"
begin

text \<open>
  The part of Rust's core and standard library that the modelled sources use, and the
  generic facts every component shares.

  Text is \<open>string\<close>: a list of bytes. The model covers ASCII text, for which Rust's
  \<open>char\<close>, \<open>len\<close> and byte views coincide; ordering of strings is bytewise, as \<open>str::cmp\<close>.
  Machine integers are words of their width. The operations are those of \<open>str\<close>
  (\<open>lines\<close>, \<open>trim\<close>, \<open>split\<close>, \<open>split_whitespace\<close>, \<open>strip_prefix\<close>, \<open>find\<close>, \<open>rfind\<close>, \<open>contains\<close>),
  of integer parsing and printing, of \<open>Ipv4Addr\<close> and of \<open>[T]::binary_search\<close>.
\<close>

named_theorems str_simps \<open>evaluation of the string primitives\<close>

type_synonym u8 = "8 word"
type_synonym u16 = "16 word"
type_synonym u32 = "32 word"
type_synonym u64 = "64 word"

subsection \<open>Characters\<close>

abbreviation newline :: char where "newline \<equiv> CHR 0x0A"
abbreviation carriage_return :: char where "carriage_return \<equiv> CHR 0x0D"
abbreviation space :: char where "space \<equiv> CHR '' ''"
abbreviation tab :: char where "tab \<equiv> CHR 0x09"

definition is_ascii_digit :: "char \<Rightarrow> bool" where
  "is_ascii_digit c \<longleftrightarrow> 48 \<le> (of_char c :: nat) \<and> (of_char c :: nat) \<le> 57"

definition is_ascii_lowercase :: "char \<Rightarrow> bool" where
  "is_ascii_lowercase c \<longleftrightarrow> 97 \<le> (of_char c :: nat) \<and> (of_char c :: nat) \<le> 122"

definition is_whitespace :: "char \<Rightarrow> bool" where
  "is_whitespace c \<longleftrightarrow> (9 \<le> (of_char c :: nat) \<and> (of_char c :: nat) \<le> 13) \<or> (of_char c :: nat) = 32"

lemma digit_not_whitespace: "is_ascii_digit c \<Longrightarrow> \<not> is_whitespace c"
  by (auto simp: is_ascii_digit_def is_whitespace_def)

lemma lower_not_whitespace: "is_ascii_lowercase c \<Longrightarrow> \<not> is_whitespace c"
  by (auto simp: is_ascii_lowercase_def is_whitespace_def)

lemma whitespace_chars [simp]:
  "is_whitespace newline" "is_whitespace carriage_return" "is_whitespace space" "is_whitespace tab"
  by (simp_all add: is_whitespace_def)

subsection \<open>Slicing and searching\<close>

definition strip_prefix :: "string \<Rightarrow> string \<Rightarrow> string option" where
  "strip_prefix p s = (if prefix p s then Some (drop (length p) s) else None)"

definition ends_with_char :: "char \<Rightarrow> string \<Rightarrow> bool" where
  "ends_with_char c s \<longleftrightarrow> s \<noteq> [] \<and> last s = c"

text \<open>\<open>Path::has_root\<close> and \<open>Path::join\<close> on Unix: an absolute right operand replaces the left one.\<close>

definition slash :: char where "slash = CHR 0x2F"

definition has_root :: "string \<Rightarrow> bool" where
  "has_root p \<longleftrightarrow> (case p of [] \<Rightarrow> False | c # _ \<Rightarrow> c = slash)"

definition path_join :: "string \<Rightarrow> string \<Rightarrow> string" where
  "path_join base p = (if has_root p then p
     else if base = [] then p
     else if last base = slash then base @ p else base @ slash # p)"

fun str_contains :: "string \<Rightarrow> string \<Rightarrow> bool" where
  "str_contains p [] \<longleftrightarrow> p = []"
| "str_contains p (c # s) \<longleftrightarrow> prefix p (c # s) \<or> str_contains p s"

fun find_char :: "char \<Rightarrow> string \<Rightarrow> nat option" where
  "find_char c [] = None"
| "find_char c (x # xs) = (if x = c then Some 0 else map_option Suc (find_char c xs))"

fun rfind_char :: "char \<Rightarrow> string \<Rightarrow> nat option" where
  "rfind_char c [] = None"
| "rfind_char c (x # xs) =
     (case rfind_char c xs of Some i \<Rightarrow> Some (Suc i) | None \<Rightarrow> if x = c then Some 0 else None)"

fun find_position :: "('a \<Rightarrow> bool) \<Rightarrow> 'a list \<Rightarrow> nat option" where
  "find_position P [] = None"
| "find_position P (x # xs) = (if P x then Some 0 else map_option Suc (find_position P xs))"

definition split_once :: "char \<Rightarrow> string \<Rightarrow> (string \<times> string) option" where
  "split_once c s = (case find_char c s of None \<Rightarrow> None | Some i \<Rightarrow> Some (take i s, drop (Suc i) s))"

definition rsplit_once :: "char \<Rightarrow> string \<Rightarrow> (string \<times> string) option" where
  "rsplit_once c s = (case rfind_char c s of None \<Rightarrow> None | Some i \<Rightarrow> Some (take i s, drop (Suc i) s))"

definition trim_start :: "string \<Rightarrow> string" where
  "trim_start s = dropWhile is_whitespace s"

definition trim :: "string \<Rightarrow> string" where
  "trim s = rev (dropWhile is_whitespace (rev (dropWhile is_whitespace s)))"

lemma strip_prefix_append [simp]: "strip_prefix p (p @ s) = Some s"
  by (simp add: strip_prefix_def)

lemma strip_prefix_Some: "strip_prefix p s = Some r \<longleftrightarrow> s = p @ r"
  by (auto simp: strip_prefix_def prefix_def)

lemma strip_prefix_None: "strip_prefix p s = None \<longleftrightarrow> \<not> prefix p s"
  by (simp add: strip_prefix_def)

lemma ends_with_char_snoc [simp]: "ends_with_char c (s @ [d]) \<longleftrightarrow> d = c"
  by (simp add: ends_with_char_def)

lemma find_char_None: "find_char c s = None \<longleftrightarrow> c \<notin> set s"
  by (induction s) auto

lemma find_char_append: "c \<notin> set s \<Longrightarrow> find_char c (s @ c # t) = Some (length s)"
  by (induction s) auto

lemma rfind_char_None: "rfind_char c s = None \<longleftrightarrow> c \<notin> set s"
  by (induction s) (auto split: option.splits)

lemma rfind_char_append: "c \<notin> set t \<Longrightarrow> rfind_char c (s @ c # t) = Some (length s)"
  by (induction s) (auto simp: rfind_char_None split: option.splits)

lemma split_once_append: "c \<notin> set s \<Longrightarrow> split_once c (s @ c # t) = Some (s, t)"
  by (simp add: split_once_def find_char_append)

lemma split_once_None: "c \<notin> set s \<Longrightarrow> split_once c s = None"
  by (simp add: split_once_def find_char_None[symmetric])

lemma find_position_Some_iff:
  "find_position P xs = Some i \<longleftrightarrow>
     i < length xs \<and> P (xs ! i) \<and> (\<forall>j < i. \<not> P (xs ! j))"
proof (induction xs arbitrary: i)
  case Nil
  then show ?case by simp
next
  case (Cons x xs)
  show ?case
  proof (cases i)
    case 0
    then show ?thesis by auto
  next
    case (Suc k)
    then show ?thesis using Cons[of k] by (auto simp: less_Suc_eq_0_disj)
  qed
qed

lemma find_position_None_iff: "find_position P xs = None \<longleftrightarrow> (\<forall>x \<in> set xs. \<not> P x)"
  by (induction xs) auto

lemma str_contains_append: "str_contains p (s @ p @ t)"
proof (induction s)
  case Nil
  have "prefix p (p @ t)" by simp
  then show ?case by (cases "p @ t") auto
qed simp

lemma str_contains_infix: "str_contains p s \<longleftrightarrow> (\<exists>a b. s = a @ p @ b)"
proof (induction s)
  case Nil
  then show ?case by auto
next
  case (Cons c s)
  show ?case
  proof
    assume "str_contains p (c # s)"
    then consider "prefix p (c # s)" | "str_contains p s" by auto
    then show "\<exists>a b. c # s = a @ p @ b"
    proof cases
      case 1
      then show ?thesis by (metis append_Nil prefixE)
    next
      case 2
      then show ?thesis using Cons by (metis append_Cons)
    qed
  next
    assume "\<exists>a b. c # s = a @ p @ b"
    then show "str_contains p (c # s)" by (metis str_contains_append)
  qed
qed

subsection \<open>Lines and words\<close>

definition strip_cr :: "string \<Rightarrow> string" where
  "strip_cr l = (if ends_with_char carriage_return l then butlast l else l)"

text \<open>\<open>str::lines\<close>: split at each newline, drop one carriage return before it, and produce
  no line for an empty remainder.\<close>

function lines :: "string \<Rightarrow> string list" where
  "lines s =
     (if s = [] then []
      else let l = takeWhile (\<lambda>c. c \<noteq> newline) s; r = dropWhile (\<lambda>c. c \<noteq> newline) s
           in if r = [] then [l] else strip_cr l # lines (tl r))"
  by pat_completeness auto
termination
proof (relation "measure length", simp)
  fix s l r
  assume a: "s \<noteq> []" "l = takeWhile (\<lambda>c. c \<noteq> newline) s" "r = dropWhile (\<lambda>c. c \<noteq> newline) s" "r \<noteq> []"
  have "length r \<le> length s" unfolding a(3) by (rule length_dropWhile_le)
  then show "(tl r, s) \<in> measure length"
    using a(4) by (cases r) auto
qed

declare lines.simps [simp del]

lemma lines_Nil [simp]: "lines [] = []"
  by (simp add: lines.simps)

lemma lines_single: "newline \<notin> set l \<Longrightarrow> l \<noteq> [] \<Longrightarrow> lines l = [l]"
proof -
  assume a: "newline \<notin> set l" "l \<noteq> []"
  have d: "dropWhile (\<lambda>c. c \<noteq> newline) l = []"
    using a(1) by (simp add: dropWhile_eq_Nil_conv) metis
  have t: "takeWhile (\<lambda>c. c \<noteq> newline) l = l"
    using a(1) by (simp add: takeWhile_eq_all_conv) metis
  show ?thesis using a(2) by (simp add: lines.simps[of l] d t Let_def)
qed

lemma lines_Cons: "newline \<notin> set l \<Longrightarrow> lines (l @ newline # r) = strip_cr l # lines r"
proof -
  assume a: "newline \<notin> set l"
  have d: "dropWhile (\<lambda>c. c \<noteq> newline) (l @ newline # r) = newline # r"
    using a by (subst dropWhile_append2) auto
  have t: "takeWhile (\<lambda>c. c \<noteq> newline) (l @ newline # r) = l"
    using a by (subst takeWhile_append2) auto
  show ?thesis by (simp add: lines.simps[of "l @ newline # r"] d t Let_def)
qed

lemma strip_cr_id: "carriage_return \<notin> set l \<Longrightarrow> strip_cr l = l"
  using last_in_set by (fastforce simp: strip_cr_def ends_with_char_def)

lemma set_strip_cr: "set (strip_cr l) \<subseteq> set l"
  by (auto simp: strip_cr_def dest: in_set_butlastD)

text \<open>\<open>str::split_whitespace\<close>: the maximal runs of non-whitespace.\<close>

function split_whitespace :: "string \<Rightarrow> string list" where
  "split_whitespace s =
     (let t = dropWhile is_whitespace s
      in if t = [] then []
         else takeWhile (\<lambda>c. \<not> is_whitespace c) t
              # split_whitespace (dropWhile (\<lambda>c. \<not> is_whitespace c) t))"
  by pat_completeness auto
termination
proof (relation "measure length", simp)
  fix s t
  assume a: "t = dropWhile is_whitespace s" "t \<noteq> []"
  have le: "length t \<le> length s" unfolding a(1) by (rule length_dropWhile_le)
  have "\<not> is_whitespace (hd t)" using a by (metis hd_dropWhile)
  then obtain c t' where t: "t = c # t'" "\<not> is_whitespace c" using a(2) by (cases t) auto
  have "length (dropWhile (\<lambda>c. \<not> is_whitespace c) t) \<le> length t'"
    using t by (simp add: length_dropWhile_le)
  then show "(dropWhile (\<lambda>c. \<not> is_whitespace c) t, s) \<in> measure length"
    using t le by simp
qed

declare split_whitespace.simps [simp del]

lemma split_whitespace_Nil [simp]: "split_whitespace [] = []"
  by (simp add: split_whitespace.simps)

lemma split_whitespace_single:
  assumes "w \<noteq> []" and "\<forall>c \<in> set w. \<not> is_whitespace c"
  shows "split_whitespace w = [w]"
proof -
  have d: "dropWhile is_whitespace w = w" using assms by (cases w) auto
  have t: "takeWhile (\<lambda>c. \<not> is_whitespace c) w = w" using assms(2) by (simp add: takeWhile_eq_all_conv)
  have e: "dropWhile (\<lambda>c. \<not> is_whitespace c) w = []" using assms(2) by (simp add: dropWhile_eq_Nil_conv)
  show ?thesis using assms(1) by (simp add: split_whitespace.simps[of w] d t e Let_def)
qed

lemma split_whitespace_skip: "is_whitespace c \<Longrightarrow> split_whitespace (c # s) = split_whitespace s"
  by (simp add: split_whitespace.simps[of "c # s"] split_whitespace.simps[of s])

lemma split_whitespace_Cons:
  assumes "w \<noteq> []" and "\<forall>c \<in> set w. \<not> is_whitespace c" and "is_whitespace c"
  shows "split_whitespace (w @ c # s) = w # split_whitespace s"
proof -
  have d: "dropWhile is_whitespace (w @ c # s) = w @ c # s" using assms by (cases w) auto
  have t: "takeWhile (\<lambda>c. \<not> is_whitespace c) (w @ c # s) = w"
    using assms by (subst takeWhile_append2) auto
  have e: "dropWhile (\<lambda>c. \<not> is_whitespace c) (w @ c # s) = c # s"
    using assms by (subst dropWhile_append2) auto
  show ?thesis using assms(1)
    by (simp add: split_whitespace.simps[of "w @ c # s"] d t e Let_def split_whitespace_skip[OF assms(3)])
qed

lemma split_whitespace_words:
  "w \<in> set (split_whitespace s) \<Longrightarrow> w \<noteq> [] \<and> (\<forall>c \<in> set w. \<not> is_whitespace c)"
proof (induction s rule: split_whitespace.induct)
  case (1 s)
  let ?t = "dropWhile is_whitespace s"
  show ?case
  proof (cases "?t = []")
    case True
    with "1.prems" show ?thesis by (simp add: split_whitespace.simps[of s])
  next
    case False
    then have hd: "\<not> is_whitespace (hd ?t)" by (simp add: hd_dropWhile)
    from False have "split_whitespace s = takeWhile (\<lambda>c. \<not> is_whitespace c) ?t
        # split_whitespace (dropWhile (\<lambda>c. \<not> is_whitespace c) ?t)"
      by (subst split_whitespace.simps) (simp only: Let_def if_False)
    with "1.prems" consider
        "w = takeWhile (\<lambda>c. \<not> is_whitespace c) ?t"
      | "w \<in> set (split_whitespace (dropWhile (\<lambda>c. \<not> is_whitespace c) ?t))"
      by auto
    then show ?thesis
    proof cases
      case 1
      have "w \<noteq> []" using hd False 1 by (cases ?t) auto
      moreover have "\<forall>c \<in> set w. \<not> is_whitespace c" using 1 by (auto dest: set_takeWhileD)
      ultimately show ?thesis by simp
    next
      case 2
      then show ?thesis using "1.IH" False by blast
    qed
  qed
qed

text \<open>\<open>str::split\<close> on one character: every piece, empty ones included.\<close>

fun split_on :: "'a \<Rightarrow> 'a list \<Rightarrow> 'a list list" where
  "split_on c [] = [[]]"
| "split_on c (x # xs) =
     (if x = c then [] # split_on c xs
      else case split_on c xs of [] \<Rightarrow> [[x]] | p # ps \<Rightarrow> (x # p) # ps)"

definition join_with :: "'a \<Rightarrow> 'a list list \<Rightarrow> 'a list" where
  "join_with c ws = (case ws of [] \<Rightarrow> [] | w # rest \<Rightarrow> w @ concat (map (\<lambda>v. c # v) rest))"

lemma join_with_simps [simp]:
  "join_with c [] = []" "join_with c [w] = w"
  "join_with c (w # v # ws) = w @ c # join_with c (v # ws)"
  by (simp_all add: join_with_def)

lemma split_on_nonempty: "split_on c s \<noteq> []"
  by (induction s) (auto split: list.splits)

lemma split_on_atom: "c \<notin> set w \<Longrightarrow> split_on c w = [w]"
  by (induction w) auto

lemma split_on_Cons: "c \<notin> set w \<Longrightarrow> split_on c (w @ c # s) = w # split_on c s"
  by (induction w) auto

lemma split_on_join:
  assumes "ws \<noteq> []" and "\<forall>w \<in> set ws. c \<notin> set w"
  shows "split_on c (join_with c ws) = ws"
  using assms
proof (induction ws)
  case Nil
  then show ?case by simp
next
  case (Cons w ws)
  then show ?case by (cases ws) (auto simp: split_on_atom split_on_Cons)
qed

lemma join_split_on: "join_with c (split_on c s) = s"
proof (induction s)
  case Nil
  then show ?case by simp
next
  case (Cons x xs)
  obtain p ps where p: "split_on c xs = p # ps" using split_on_nonempty[of c xs] by (cases "split_on c xs") auto
  show ?case using Cons p by (cases ps) auto
qed

lemma split_on_pieces: "w \<in> set (split_on c s) \<Longrightarrow> c \<notin> set w"
  by (induction s arbitrary: w) (auto split: if_splits list.splits)

lemma set_join_with: "set (join_with c ws) \<subseteq> insert c (\<Union> (set ` set ws))"
proof (induction ws)
  case (Cons w ws)
  then show ?case by (cases ws) auto
qed simp

lemma split_whitespace_join:
  "(\<forall>w \<in> set ws. w \<noteq> [] \<and> (\<forall>c \<in> set w. \<not> is_whitespace c)) \<Longrightarrow> split_whitespace (join_with space ws) = ws"
proof (induction ws)
  case (Cons w ws)
  have sp: "is_whitespace space" by (simp add: is_whitespace_def)
  show ?case
  proof (cases ws)
    case Nil
    then show ?thesis using Cons.prems by (simp add: split_whitespace_single)
  next
    case (Cons v vs)
    then show ?thesis using Cons.prems Cons.IH by (simp add: split_whitespace_Cons sp)
  qed
qed simp

lemma whitespace_notin: "\<forall>c \<in> set w. \<not> is_whitespace c \<Longrightarrow>
    newline \<notin> set w \<and> carriage_return \<notin> set w \<and> space \<notin> set w"
  using whitespace_chars by blast

end
