(* ===== verification/Rust_Numbers.thy ===== *)
theory Rust_Numbers
  imports Rust_Prelude
begin

text \<open>
  Integer parsing and printing (\<open>str::parse\<close> for the unsigned types, \<open>to_string\<close>),
  \<open>std::net::Ipv4Addr\<close>, and binary search in a sorted slice. The round trips between printing
  and parsing carry every textual format of the program.
\<close>

subsection \<open>Decimal printing\<close>

definition digit_char :: "nat \<Rightarrow> char" where
  "digit_char d = (if d < 10 then ''0123456789'' ! d else CHR ''0'')"

fun show_nat :: "nat \<Rightarrow> string" where
  "show_nat n = (if n < 10 then [digit_char n] else show_nat (n div 10) @ [digit_char (n mod 10)])"

declare show_nat.simps [simp del]

abbreviation show_u8 :: "u8 \<Rightarrow> string" where "show_u8 w \<equiv> show_nat (unat w)"
abbreviation show_u32 :: "u32 \<Rightarrow> string" where "show_u32 w \<equiv> show_nat (unat w)"
abbreviation show_u64 :: "u64 \<Rightarrow> string" where "show_u64 w \<equiv> show_nat (unat w)"

definition show_int :: "int \<Rightarrow> string" where
  "show_int i = (if i < 0 then CHR ''-'' # show_nat (nat (- i)) else show_nat (nat i))"

lemma digit_char_cases: "d < 10 \<Longrightarrow> d = 0 \<or> d = 1 \<or> d = 2 \<or> d = 3 \<or> d = 4 \<or> d = 5 \<or> d = 6 \<or> d = 7 \<or> d = 8 \<or> d = (9::nat)"
  by arith

lemma of_char_digit_char: "d < 10 \<Longrightarrow> of_char (digit_char d) = (48 + d :: nat)"
  by (drule digit_char_cases) (auto simp: digit_char_def)

lemma is_ascii_digit_digit_char: "is_ascii_digit (digit_char d)"
proof (cases "d < 10")
  case True
  then show ?thesis by (simp add: is_ascii_digit_def of_char_digit_char)
next
  case False
  then show ?thesis by (simp add: is_ascii_digit_def digit_char_def)
qed

lemma show_nat_digits: "\<forall>c \<in> set (show_nat n). is_ascii_digit c"
proof (induction n rule: show_nat.induct)
  case (1 n)
  show ?case
  proof (cases "n < 10")
    case True
    then show ?thesis by (simp add: show_nat.simps[of n] is_ascii_digit_digit_char)
  next
    case False
    with 1 have "\<forall>c \<in> set (show_nat (n div 10)). is_ascii_digit c" by simp
    with False show ?thesis by (simp add: show_nat.simps[of n] is_ascii_digit_digit_char)
  qed
qed

lemma show_nat_nonempty [simp]: "show_nat n \<noteq> []"
  by (subst show_nat.simps) simp

lemma show_nat_no_whitespace: "\<forall>c \<in> set (show_nat n). \<not> is_whitespace c"
  using show_nat_digits digit_not_whitespace by blast

subsection \<open>Decimal parsing\<close>

definition digit_val :: "char \<Rightarrow> nat" where
  "digit_val c = of_char c - 48"

definition digits_val :: "string \<Rightarrow> nat" where
  "digits_val s = foldl (\<lambda>n c. 10 * n + digit_val c) 0 s"

text \<open>\<open>u*::from_str\<close>: an optional plus sign, then at least one digit, within the type's range.\<close>

definition parse_uint :: "nat \<Rightarrow> string \<Rightarrow> nat option" where
  "parse_uint max_value s =
     (let d = (case s of [] \<Rightarrow> [] | c # r \<Rightarrow> if c = CHR ''+'' then r else s)
      in if d \<noteq> [] \<and> list_all is_ascii_digit d \<and> digits_val d \<le> max_value
         then Some (digits_val d) else None)"

definition parse_u8 :: "string \<Rightarrow> u8 option" where
  "parse_u8 s = map_option of_nat (parse_uint 255 s)"

definition parse_u32 :: "string \<Rightarrow> u32 option" where
  "parse_u32 s = map_option of_nat (parse_uint (2 ^ 32 - 1) s)"

definition parse_u64 :: "string \<Rightarrow> u64 option" where
  "parse_u64 s = map_option of_nat (parse_uint (2 ^ 64 - 1) s)"

lemma digits_val_snoc: "digits_val (s @ [c]) = 10 * digits_val s + digit_val c"
  by (simp add: digits_val_def)

lemma digit_val_digit_char: "d < 10 \<Longrightarrow> digit_val (digit_char d) = d"
  by (simp add: digit_val_def of_char_digit_char)

lemma digits_val_show_nat [simp]: "digits_val (show_nat n) = n"
proof (induction n rule: show_nat.induct)
  case (1 n)
  show ?case
  proof (cases "n < 10")
    case True
    then show ?thesis by (simp add: show_nat.simps[of n] digits_val_def digit_val_digit_char)
  next
    case False
    with 1 show ?thesis
      by (simp add: show_nat.simps[of n] digits_val_snoc digit_val_digit_char)
  qed
qed

lemma show_nat_inj: "show_nat m = show_nat n \<Longrightarrow> m = n"
  by (metis digits_val_show_nat)

lemma plus_not_digit: "\<not> is_ascii_digit (CHR ''+'')"
  by (simp add: is_ascii_digit_def)

lemma parse_uint_show_nat: "parse_uint m (show_nat n) = (if n \<le> m then Some n else None)"
proof -
  obtain c r where s: "show_nat n = c # r" using show_nat_nonempty[of n] by (cases "show_nat n") auto
  have "is_ascii_digit c" using show_nat_digits[of n] s by simp
  then have "c \<noteq> CHR ''+''" using plus_not_digit by auto
  moreover have "list_all is_ascii_digit (c # r)" using show_nat_digits[of n] s by (auto simp: list_all_iff)
  ultimately show ?thesis using digits_val_show_nat[of n] by (simp add: parse_uint_def s)
qed

lemma parse_uint_bound: "parse_uint m s = Some n \<Longrightarrow> n \<le> m"
  by (auto simp: parse_uint_def Let_def split: if_splits)

lemma unat_u8_le: "unat (w :: u8) \<le> 255"
  using unsigned_less[of w, where ?'a = nat] by simp

lemma unat_u32_le: "unat (w :: u32) \<le> 2 ^ 32 - 1"
  using unsigned_less[of w, where ?'a = nat] by simp

lemma unat_u64_le: "unat (w :: u64) \<le> 2 ^ 64 - 1"
  using unsigned_less[of w, where ?'a = nat] by simp

lemma parse_show_u8 [simp]: "parse_u8 (show_u8 w) = Some w"
  using unat_u8_le[of w] by (simp add: parse_u8_def parse_uint_show_nat)

lemma parse_show_u32 [simp]: "parse_u32 (show_u32 w) = Some w"
  using unat_u32_le[of w] by (simp add: parse_u32_def parse_uint_show_nat)

lemma parse_show_u64 [simp]: "parse_u64 (show_u64 w) = Some w"
  using unat_u64_le[of w] by (simp add: parse_u64_def parse_uint_show_nat)

lemma show_u8_inj [simp]: "show_u8 v = show_u8 w \<longleftrightarrow> v = w"
  using show_nat_inj by (metis word_unat_eq_iff)

subsection \<open>IPv4 addresses\<close>

type_synonym ipv4 = "u8 \<times> u8 \<times> u8 \<times> u8"

definition ipv4_to_u32 :: "ipv4 \<Rightarrow> u32" where
  "ipv4_to_u32 a = (case a of (a, b, c, d) \<Rightarrow>
     of_nat (unat a * 2 ^ 24 + unat b * 2 ^ 16 + unat c * 2 ^ 8 + unat d))"

definition show_ipv4 :: "ipv4 \<Rightarrow> string" where
  "show_ipv4 ip = (case ip of (a, b, c, d) \<Rightarrow>
     join_with CHR ''.'' [show_u8 a, show_u8 b, show_u8 c, show_u8 d])"

text \<open>One octet of \<open>Ipv4Addr::from_str\<close>: one to three digits, no sign, no leading zero, at most 255.\<close>

definition parse_octet :: "string \<Rightarrow> u8 option" where
  "parse_octet s =
     (if s \<noteq> [] \<and> length s \<le> 3 \<and> list_all is_ascii_digit s
         \<and> (length s > 1 \<longrightarrow> hd s \<noteq> CHR ''0'') \<and> digits_val s \<le> 255
      then Some (of_nat (digits_val s)) else None)"

definition parse_ipv4 :: "string \<Rightarrow> ipv4 option" where
  "parse_ipv4 s =
     (case split_on CHR ''.'' s of
        [a, b, c, d] \<Rightarrow>
          (case (parse_octet a, parse_octet b, parse_octet c, parse_octet d) of
             (Some a, Some b, Some c, Some d) \<Rightarrow> Some (a, b, c, d)
           | _ \<Rightarrow> None)
      | _ \<Rightarrow> None)"

lemma digit_char_zero_iff: "d < 10 \<Longrightarrow> digit_char d = CHR ''0'' \<longleftrightarrow> d = 0"
  by (drule digit_char_cases) (auto simp: digit_char_def)

lemma hd_show_nat: "n > 0 \<Longrightarrow> hd (show_nat n) \<noteq> CHR ''0''"
proof (induction n rule: show_nat.induct)
  case (1 n)
  show ?case
  proof (cases "n < 10")
    case True
    with 1 show ?thesis by (simp add: show_nat.simps[of n] digit_char_zero_iff)
  next
    case False
    with 1 show ?thesis by (simp add: show_nat.simps[of n] hd_append)
  qed
qed

lemma length_show_nat_le3: "n \<le> 255 \<Longrightarrow> length (show_nat n) \<le> 3"
  by (simp add: show_nat.simps[of n] show_nat.simps[of "n div 10"] show_nat.simps[of "n div 10 div 10"])

lemma parse_octet_show [simp]: "parse_octet (show_u8 w) = Some w"
proof -
  have d: "list_all is_ascii_digit (show_u8 w)" using show_nat_digits by (auto simp: list_all_iff)
  have z: "length (show_u8 w) > 1 \<longrightarrow> hd (show_u8 w) \<noteq> CHR ''0''"
    by (cases "unat w = 0") (simp add: show_nat.simps[of 0], simp add: hd_show_nat)
  show ?thesis
    using d z length_show_nat_le3[OF unat_u8_le[of w]] unat_u8_le[of w] by (simp add: parse_octet_def)
qed

lemma dot_notin_show_nat: "CHR ''.'' \<notin> set (show_nat n)"
proof
  assume "CHR ''.'' \<in> set (show_nat n)"
  then have "is_ascii_digit (CHR ''.'')" using show_nat_digits by blast
  then show False by (simp add: is_ascii_digit_def)
qed

lemma parse_show_ipv4 [simp]: "parse_ipv4 (show_ipv4 ip) = Some ip"
proof -
  obtain a b c d where ip: "ip = (a, b, c, d)" by (cases ip)
  have "split_on CHR ''.'' (show_ipv4 ip) = [show_u8 a, show_u8 b, show_u8 c, show_u8 d]"
    unfolding show_ipv4_def ip prod.case by (rule split_on_join) (auto simp: dot_notin_show_nat)
  then show ?thesis by (simp add: parse_ipv4_def ip)
qed

subsection \<open>Binary search\<close>

text \<open>\<open>binary_search_by\<close> on a strictly sorted slice: \<open>Inr\<close> the position of the key, or \<open>Inl\<close>
  the position at which inserting it keeps the order.\<close>

definition binary_search :: "'a::linorder list \<Rightarrow> 'a \<Rightarrow> nat + nat" where
  "binary_search xs x =
     (let i = length (takeWhile (\<lambda>y. y < x) xs)
      in if i < length xs \<and> xs ! i = x then Inr i else Inl i)"

definition insert_at :: "nat \<Rightarrow> 'a \<Rightarrow> 'a list \<Rightarrow> 'a list" where
  "insert_at i x xs = take i xs @ x # drop i xs"

definition remove_at :: "nat \<Rightarrow> 'a list \<Rightarrow> 'a list" where
  "remove_at i xs = take i xs @ drop (Suc i) xs"

lemma binary_search_Inr: "binary_search xs x = Inr i \<Longrightarrow> i < length xs \<and> xs ! i = x"
  by (auto simp: binary_search_def Let_def split: if_splits)

lemma dropWhile_less_sorted:
  assumes "sorted_wrt (<) xs" and "y \<in> set (dropWhile (\<lambda>y. y < x) xs)"
  shows "x \<le> (y :: 'a :: linorder)"
  using assms by (induction xs) (force split: if_splits)+

lemma binary_search_member:
  assumes "sorted_wrt (<) xs"
  shows "(\<exists>i. binary_search xs x = Inr i) \<longleftrightarrow> x \<in> set xs"
proof
  assume "x \<in> set xs"
  let ?t = "takeWhile (\<lambda>y. y < x) xs" and ?d = "dropWhile (\<lambda>y. y < x) xs"
  have "x \<in> set ?d" using \<open>x \<in> set xs\<close>
    by (metis Un_iff less_irrefl set_append set_takeWhileD takeWhile_dropWhile_id)
  then obtain z zs where d: "?d = z # zs" by (cases ?d) auto
  have "\<not> z < x" using d by (metis hd_dropWhile list.distinct(1) list.sel(1))
  have "sorted_wrt (<) ?d" using assms by (metis sorted_wrt_append takeWhile_dropWhile_id)
  then have "z = x" using \<open>x \<in> set ?d\<close> \<open>\<not> z < x\<close> d by auto
  moreover have "xs = ?t @ z # zs" using d by (metis takeWhile_dropWhile_id)
  then have "length ?t < length xs \<and> xs ! length ?t = z"
    by (metis length_append length_Cons less_add_Suc1 nth_append_length add_Suc_right)
  ultimately show "\<exists>i. binary_search xs x = Inr i" by (simp add: binary_search_def)
qed (auto dest: binary_search_Inr)

lemma insert_at_binary_search:
  assumes "sorted_wrt (<) xs" and "binary_search xs x = Inl i"
  shows "sorted_wrt (<) (insert_at i x xs) \<and> set (insert_at i x xs) = insert x (set xs)
         \<and> length (insert_at i x xs) = Suc (length xs)"
proof -
  define t d where "t = takeWhile (\<lambda>y. y < x) xs" and "d = dropWhile (\<lambda>y. y < x) xs"
  have xs: "xs = t @ d" by (simp add: t_def d_def)
  have i: "i = length t" using assms(2) by (auto simp: binary_search_def Let_def t_def split: if_splits)
  have nx: "x \<notin> set xs" using assms binary_search_member[OF assms(1), of x] by auto
  have le: "\<forall>y \<in> set d. x \<le> y" using dropWhile_less_sorted[OF assms(1), of _ x] by (simp add: d_def)
  have gt: "\<forall>y \<in> set d. x < y"
  proof
    fix y assume "y \<in> set d"
    with le nx xs show "x < y" by (metis Un_iff order_le_less set_append)
  qed
  have lt: "\<forall>y \<in> set t. y < x" by (auto simp: t_def dest: set_takeWhileD)
  have "sorted_wrt (<) t" "sorted_wrt (<) d" "\<forall>a \<in> set t. \<forall>b \<in> set d. a < b"
    using assms(1) by (simp_all add: xs sorted_wrt_append)
  then show ?thesis using gt lt by (simp add: insert_at_def i xs sorted_wrt_append)
qed

lemma remove_at_binary_search:
  assumes "sorted_wrt (<) xs" and "binary_search xs x = Inr i"
  shows "sorted_wrt (<) (remove_at i xs) \<and> set (remove_at i xs) = set xs - {x}
         \<and> Suc (length (remove_at i xs)) = length xs"
proof -
  have i: "i < length xs" "xs ! i = x" using binary_search_Inr[OF assms(2)] by auto
  have split: "xs = take i xs @ x # drop (Suc i) xs" using i by (metis id_take_nth_drop)
  have s: "sorted_wrt (<) (take i xs @ x # drop (Suc i) xs)" using assms(1) split by simp
  then have "sorted_wrt (<) (remove_at i xs)" by (auto simp: remove_at_def sorted_wrt_append)
  moreover have "x \<notin> set (take i xs)" "x \<notin> set (drop (Suc i) xs)"
    using s by (auto simp: sorted_wrt_append)
  then have "set (remove_at i xs) = set (take i xs @ x # drop (Suc i) xs) - {x}"
    by (auto simp: remove_at_def)
  ultimately show ?thesis using split i by (simp add: remove_at_def)
qed

lemma unat_ipv4_to_u32:
  "unat (ipv4_to_u32 (a, b, c, d)) = ((unat a * 256 + unat b) * 256 + unat c) * 256 + unat d"
proof -
  have lt: "unat (x :: u8) < 256" for x using unsigned_less[of x, where ?'a = nat] by simp
  have "((unat a * 256 + unat b) * 256 + unat c) * 256 + unat d < 2 ^ 32"
    using lt[of a] lt[of b] lt[of c] lt[of d] by simp
  then have b: "unat a * 2 ^ 24 + unat b * 2 ^ 16 + unat c * 2 ^ 8 + unat d < 2 ^ LENGTH(32)" by simp
  show ?thesis
    unfolding ipv4_to_u32_def prod.case unat_of_nat mod_less[OF b] by simp
qed

lemma ipv4_to_u32_inj: "ipv4_to_u32 a = ipv4_to_u32 b \<longleftrightarrow> a = b"
proof -
  have "a = b" if e: "ipv4_to_u32 a = ipv4_to_u32 b"
  proof -
    obtain a1 a2 a3 a4 b1 b2 b3 b4 where ab: "a = (a1, a2, a3, a4)" "b = (b1, b2, b3, b4)" by (metis prod_cases4)
    have lt: "unat (x :: u8) < 256" for x using unsigned_less[of x, where ?'a = nat] by simp
    have "((unat a1 * 256 + unat a2) * 256 + unat a3) * 256 + unat a4 = ((unat b1 * 256 + unat b2) * 256 + unat b3) * 256 + unat b4"
      using e unfolding ab by (metis unat_ipv4_to_u32)
    moreover have digit: "x = y \<and> m = n" if "x * 256 + m = y * 256 + n" "m < 256" "n < 256" for x y m n :: nat
    proof -
      have "(x * 256 + m) div 256 = (y * 256 + n) div 256" "(x * 256 + m) mod 256 = (y * 256 + n) mod 256"
        using that(1) by simp_all
      then show ?thesis using that(2,3) by simp
    qed
    ultimately have "unat a1 = unat b1 \<and> unat a2 = unat b2 \<and> unat a3 = unat b3 \<and> unat a4 = unat b4"
      using lt by metis
    then show ?thesis by (simp add: ab word_unat_eq_iff)
  qed
  then show ?thesis by blast
qed

end
