(* ===== verification/Host_FS.thy ===== *)
theory Host_FS
  imports Rust_Numbers
begin

text \<open>
  The part of the host the program's state lives on: the directories and files below the
  state base (\<open>RoomsConfig::resolved_state_base\<close>), and the host resources the cleanup callbacks
  touch (taps, namespaces, firewall rules), which stay abstract as the type \<open>'h\<close>.

  Every filesystem primitive the sources call is one definition. A primitive fails when the
  operating system says so (\<open>io_env\<close>, quantified over in every theorem) or for the reason its
  manual page names: \<open>NotFound\<close> for an absent file, \<open>AlreadyExists\<close> for an exclusive create of a
  present one. A failing \<open>write_all\<close> leaves the strict prefix it had
  written (it returns as soon as the last byte is out, so an error means at least one is missing). The advisory lock of a pool is
  held for a whole critical section, so a critical section is one function on the world.
\<close>

datatype io_error = NotFound | AlreadyExists | InvalidInput string | InvalidData string | Other string

record 'h world =
  dirs :: "string \<Rightarrow> bool"
  files :: "string \<times> string \<Rightarrow> string option"
  host :: 'h

datatype fs_op =
    CreateDirAll string
  | OpenLock string
  | Flock string
  | CreateNew string string
  | WriteAll string string
  | ReadToString string string
  | RemoveFile string string
  | OpenTruncate string string
  | SyncAll string string
  | Rename string string string
  | SyncDir string
  | SymlinkMetadata string string
  | SetPermissions string string

record io_env =
  fault :: "fs_op \<Rightarrow> string option"
  short_write :: "fs_op \<Rightarrow> nat"
  proc_stat :: "u32 \<Rightarrow> io_error + string"

definition no_faults :: "io_env \<Rightarrow> bool" where
  "no_faults env \<longleftrightarrow> (\<forall>op. fault env op = None)"

definition check_fault :: "io_env \<Rightarrow> fs_op \<Rightarrow> io_error + unit" where
  "check_fault env op = (case fault env op of Some m \<Rightarrow> Inl (Other m) | None \<Rightarrow> Inr ())"

definition create_dir_all :: "io_env \<Rightarrow> string \<Rightarrow> 'h world \<Rightarrow> (io_error + unit) \<times> 'h world" where
  "create_dir_all env d w = (case check_fault env (CreateDirAll d) of
     Inl e \<Rightarrow> (Inl e, w) | Inr _ \<Rightarrow> (Inr (), w\<lparr>dirs := (dirs w)(d := True)\<rparr>))"

definition read_to_string :: "io_env \<Rightarrow> string \<Rightarrow> string \<Rightarrow> 'h world \<Rightarrow> io_error + string" where
  "read_to_string env d n w = (case files w (d, n) of
     None \<Rightarrow> Inl NotFound
   | Some c \<Rightarrow> (case check_fault env (ReadToString d n) of Inl e \<Rightarrow> Inl e | Inr _ \<Rightarrow> Inr c))"

definition create_new_file :: "io_env \<Rightarrow> string \<Rightarrow> string \<Rightarrow> 'h world \<Rightarrow> (io_error + unit) \<times> 'h world" where
  "create_new_file env d n w =
     (if \<not> dirs w d then (Inl NotFound, w)
      else if files w (d, n) \<noteq> None then (Inl AlreadyExists, w)
      else case check_fault env (CreateNew d n) of
             Inl e \<Rightarrow> (Inl e, w)
           | Inr _ \<Rightarrow> (Inr (), w\<lparr>files := (files w)((d, n) \<mapsto> [])\<rparr>))"

definition open_truncate :: "io_env \<Rightarrow> string \<Rightarrow> string \<Rightarrow> 'h world \<Rightarrow> (io_error + unit) \<times> 'h world" where
  "open_truncate env d n w =
     (if \<not> dirs w d then (Inl NotFound, w)
      else case check_fault env (OpenTruncate d n) of
             Inl e \<Rightarrow> (Inl e, w)
           | Inr _ \<Rightarrow> (Inr (), w\<lparr>files := (files w)((d, n) \<mapsto> [])\<rparr>))"

definition write_all :: "io_env \<Rightarrow> string \<Rightarrow> string \<Rightarrow> string \<Rightarrow> 'h world \<Rightarrow> (io_error + unit) \<times> 'h world" where
  "write_all env d n body w = (case check_fault env (WriteAll d n) of
     Inl e \<Rightarrow> (Inl e, w\<lparr>files := (files w)((d, n) \<mapsto> take (min (short_write env (WriteAll d n)) (length body - 1)) body)\<rparr>)
   | Inr _ \<Rightarrow> (Inr (), w\<lparr>files := (files w)((d, n) \<mapsto> body)\<rparr>))"

definition remove_file :: "io_env \<Rightarrow> string \<Rightarrow> string \<Rightarrow> 'h world \<Rightarrow> (io_error + unit) \<times> 'h world" where
  "remove_file env d n w = (case files w (d, n) of
     None \<Rightarrow> (Inl NotFound, w)
   | Some _ \<Rightarrow> (case check_fault env (RemoveFile d n) of
        Inl e \<Rightarrow> (Inl e, w)
      | Inr _ \<Rightarrow> (Inr (), w\<lparr>files := (files w)((d, n) := None)\<rparr>)))"

definition rename_file :: "io_env \<Rightarrow> string \<Rightarrow> string \<Rightarrow> string \<Rightarrow> 'h world \<Rightarrow> (io_error + unit) \<times> 'h world" where
  "rename_file env d src dst w = (case files w (d, src) of
     None \<Rightarrow> (Inl NotFound, w)
   | Some body \<Rightarrow> (case check_fault env (Rename d src dst) of
        Inl e \<Rightarrow> (Inl e, w)
      | Inr _ \<Rightarrow> (Inr (), w\<lparr>files := (files w)((d, src) := None, (d, dst) \<mapsto> body)\<rparr>)))"

text \<open>Chaining fallible steps: \<open>?\<close> in the source.\<close>

definition and_then :: "('e + 'a) \<times> 'w \<Rightarrow> ('a \<Rightarrow> 'w \<Rightarrow> ('e + 'b) \<times> 'w) \<Rightarrow> ('e + 'b) \<times> 'w" where
  "and_then r k = (case r of (Inl e, w) \<Rightarrow> (Inl e, w) | (Inr a, w) \<Rightarrow> k a w)"

lemma and_then_simps [simp]:
  "and_then (Inl e, w) k = (Inl e, w)" "and_then (Inr a, w) k = k a w"
  by (simp_all add: and_then_def)

lemma and_then_split:
  "P (and_then r k) \<longleftrightarrow> (\<forall>e w. r = (Inl e, w) \<longrightarrow> P (Inl e, w)) \<and> (\<forall>a w. r = (Inr a, w) \<longrightarrow> P (k a w))"
  by (auto simp: and_then_def split: prod.splits sum.splits)

lemma and_then_split_asm:
  "P (and_then r k) \<longleftrightarrow>
     \<not> ((\<exists>e w. r = (Inl e, w) \<and> \<not> P (Inl e, w)) \<or> (\<exists>a w. r = (Inr a, w) \<and> \<not> P (k a w)))"
  by (auto simp: and_then_def split: prod.splits sum.splits)

subsection \<open>Facts about the primitives\<close>

named_theorems fs_defs \<open>definitions of the filesystem primitives\<close>
declare create_dir_all_def [fs_defs] read_to_string_def [fs_defs] create_new_file_def [fs_defs]
  open_truncate_def [fs_defs] write_all_def [fs_defs] remove_file_def [fs_defs]
  rename_file_def [fs_defs]

lemma check_fault_none [simp]: "no_faults env \<Longrightarrow> check_fault env op = Inr ()"
  by (simp add: no_faults_def check_fault_def)

lemma check_fault_Inl: "check_fault env op = Inl e \<Longrightarrow> \<exists>m. e = Other m"
  by (auto simp: check_fault_def split: option.splits)

lemma check_fault_neq [simp]:
  "check_fault env op \<noteq> Inl NotFound" "check_fault env op \<noteq> Inl AlreadyExists"
  by (auto simp: check_fault_def split: option.splits)

lemma read_to_string_Inr: "read_to_string env d n w = Inr c \<Longrightarrow> files w (d, n) = Some c"
  by (auto simp: read_to_string_def split: option.splits sum.splits)

lemma read_to_string_NotFound [simp]:
  "read_to_string env d n w = Inl NotFound \<longleftrightarrow> files w (d, n) = None"
  by (auto simp: read_to_string_def split: option.splits sum.splits)

lemma read_to_string_ok [simp]:
  "no_faults env \<Longrightarrow> files w (d, n) = Some c \<Longrightarrow> read_to_string env d n w = Inr c"
  by (simp add: read_to_string_def)

lemma read_to_string_cong: "files w = files w' \<Longrightarrow> read_to_string env d n w = read_to_string env d n w'"
  by (simp add: read_to_string_def)

lemma remove_file_NotFound [simp]:
  "remove_file env d n w = (Inl NotFound, w') \<longleftrightarrow> files w (d, n) = None \<and> w' = w"
  by (auto simp: remove_file_def split: option.splits sum.splits)

lemma remove_file_ok:
  "remove_file env d n w = (Inr u, w') \<Longrightarrow> w' = w\<lparr>files := (files w)((d, n) := None)\<rparr>"
  by (auto simp: remove_file_def split: option.splits sum.splits)

lemma remove_file_err: "remove_file env d n w = (Inl e, w') \<Longrightarrow> w' = w"
  by (auto simp: remove_file_def split: option.splits sum.splits)

lemma remove_file_total [simp]:
  "no_faults env \<Longrightarrow> files w (d, n) = Some c \<Longrightarrow>
     remove_file env d n w = (Inr (), w\<lparr>files := (files w)((d, n) := None)\<rparr>)"
  by (simp add: remove_file_def)

lemma rename_file_ok:
  "rename_file env d a b w = (Inr u, w') \<Longrightarrow> files w' (d, b) = files w (d, a)"
  by (auto simp: rename_file_def split: option.splits sum.splits)

lemma rename_file_frame:
  "rename_file env d a b w = (r, w') \<Longrightarrow> p \<noteq> (d, a) \<Longrightarrow> p \<noteq> (d, b) \<Longrightarrow> files w' p = files w p"
  by (auto simp: rename_file_def split: option.splits sum.splits)

lemma rename_file_err: "rename_file env d a b w = (Inl e, w') \<Longrightarrow> w' = w"
  by (auto simp: rename_file_def split: option.splits sum.splits)

end
