(* ===== verification/Room.thy ===== *)
theory Room
  imports Host_FS
begin

text \<open>
  \<open>src/src/room.rs\<close>: a room's persisted metadata, the one-way provenance ladder that decides what
  a snapshot may freeze, and the liveness of a recorded process.

  JSON text is produced and read by the \<open>serde_json\<close> crate: its two functions are parameters of
  \<open>write_atomic\<close> and \<open>room_read\<close>.
\<close>

type_synonym datetime = int

definition ROOM_META_SCHEMA_VERSION :: u32 where "ROOM_META_SCHEMA_VERSION = 4"
definition ROOM_META_FILE :: string where "ROOM_META_FILE = ''room.json''"

subsection \<open>Data\<close>

record room_descriptor =
  rd_command :: "string option"
  rd_keep :: bool

record slot =
  slot_index :: u8
  slot_tap :: string
  slot_gateway :: ipv4
  slot_guest :: ipv4
  slot_prefix :: u8

datatype provenance = Provisioning | Neutral | Tainted

datatype illegal_seal = IllegalSeal "provenance option"

definition provenance_seal :: "provenance \<Rightarrow> illegal_seal + provenance" where
  "provenance_seal p = (case p of Provisioning \<Rightarrow> Inr Neutral | other \<Rightarrow> Inl (IllegalSeal (Some other)))"

definition provenance_is_snapshottable :: "provenance \<Rightarrow> bool" where
  "provenance_is_snapshottable p \<longleftrightarrow> p = Neutral"

record room_meta =
  rm_schema_version :: u32
  rm_id :: string
  rm_label :: "string option"
  rm_started_at :: datetime
  rm_pid :: "u32 option"
  rm_pid_starttime :: "u64 option"
  rm_keep :: bool
  rm_slot :: "slot option"
  rm_clone_net_index :: "u8 option"
  rm_provenance :: "provenance option"
  rm_snapshot_lineage :: "string option"
  rm_toolstore_sha256 :: "string option"
  rm_base_repo_sha :: "string option"

subsection \<open>Construction and the provenance ladder\<close>

definition room_meta_new ::
  "string \<Rightarrow> string option \<Rightarrow> u32 option \<Rightarrow> u64 option \<Rightarrow> bool \<Rightarrow> datetime \<Rightarrow> room_meta" where
  "room_meta_new i label pid pid_starttime keep started_at =
     \<lparr>rm_schema_version = ROOM_META_SCHEMA_VERSION, rm_id = i, rm_label = label,
      rm_started_at = started_at, rm_pid = pid, rm_pid_starttime = pid_starttime,
      rm_keep = keep, rm_slot = None, rm_clone_net_index = None, rm_provenance = None,
      rm_snapshot_lineage = None, rm_toolstore_sha256 = None, rm_base_repo_sha = None\<rparr>"

definition new_base ::
  "string \<Rightarrow> string option \<Rightarrow> u32 option \<Rightarrow> u64 option \<Rightarrow> bool \<Rightarrow> datetime \<Rightarrow> room_meta" where
  "new_base i label pid pid_starttime keep started_at =
     (room_meta_new i label pid pid_starttime keep started_at)\<lparr>rm_provenance := Some Provisioning\<rparr>"

definition seal :: "room_meta \<Rightarrow> (illegal_seal + unit) \<times> room_meta" where
  "seal m = (case rm_provenance m of
     None \<Rightarrow> (Inl (IllegalSeal None), m)
   | Some p \<Rightarrow> (case provenance_seal p of
        Inl e \<Rightarrow> (Inl e, m)
      | Inr sealed \<Rightarrow> (Inr (), m\<lparr>rm_provenance := Some sealed\<rparr>)))"

definition taint :: "room_meta \<Rightarrow> room_meta" where
  "taint m = (if rm_provenance m \<noteq> None then m\<lparr>rm_provenance := Some Tainted\<rparr> else m)"

definition is_snapshottable :: "room_meta \<Rightarrow> bool" where
  "is_snapshottable m \<longleftrightarrow> (case rm_provenance m of None \<Rightarrow> False | Some p \<Rightarrow> provenance_is_snapshottable p)"

subsection \<open>Persistence\<close>

definition ROOM_META_TMP :: string where "ROOM_META_TMP = ''.room.json.tmp''"

text \<open>\<open>std::fs::write\<close>: open for truncation, then write everything.\<close>

definition fs_write :: "io_env \<Rightarrow> string \<Rightarrow> string \<Rightarrow> string \<Rightarrow> 'h world \<Rightarrow> (io_error + unit) \<times> 'h world" where
  "fs_write env d n body w = and_then (open_truncate env d n w) (\<lambda>_ w. write_all env d n body w)"

definition write_atomic ::
  "(room_meta \<Rightarrow> string + string) \<Rightarrow> io_env \<Rightarrow> string \<Rightarrow> room_meta \<Rightarrow> 'h world
     \<Rightarrow> (io_error + unit) \<times> 'h world" where
  "write_atomic to_vec_pretty env room_dir m w = (case to_vec_pretty m of
     Inl e \<Rightarrow> (Inl (InvalidData e), w)
   | Inr json \<Rightarrow> and_then (fs_write env room_dir ROOM_META_TMP json w)
       (\<lambda>_ w. rename_file env room_dir ROOM_META_TMP ROOM_META_FILE w))"

definition room_read ::
  "(string \<Rightarrow> string + room_meta) \<Rightarrow> io_env \<Rightarrow> string \<Rightarrow> 'h world \<Rightarrow> io_error + room_meta option" where
  "room_read from_slice env room_dir w = (case read_to_string env room_dir ROOM_META_FILE w of
     Inr bytes \<Rightarrow> (case from_slice bytes of Inl e \<Rightarrow> Inl (InvalidData e) | Inr m \<Rightarrow> Inr (Some m))
   | Inl NotFound \<Rightarrow> Inr None
   | Inl e \<Rightarrow> Inl e)"

subsection \<open>Liveness\<close>

datatype liveness = Alive | Dead | Indeterminate

definition ROOM_PROC_NAMES :: "string list" where "ROOM_PROC_NAMES = [''firecracker'', ''jailer'']"

definition classify_comm :: "string \<Rightarrow> liveness" where
  "classify_comm comm = (if trim comm \<in> set ROOM_PROC_NAMES then Alive else Dead)"

definition first_char :: "string \<Rightarrow> char option" where
  "first_char s = (case s of [] \<Rightarrow> None | c # _ \<Rightarrow> Some c)"

definition is_dead_state :: "char option \<Rightarrow> bool" where
  "is_dead_state s \<longleftrightarrow> s = Some CHR ''Z'' \<or> s = Some CHR ''X'' \<or> s = Some CHR ''x''"

definition classify_stat :: "string \<Rightarrow> liveness" where
  "classify_stat stat = (case rfind_char CHR '')'' stat of
     None \<Rightarrow> Indeterminate
   | Some close \<Rightarrow> (case find_char CHR ''('' (take close stat) of
        None \<Rightarrow> Indeterminate
      | Some opening \<Rightarrow>
          let comm = take (close - Suc opening) (drop (Suc opening) stat);
              state = first_char (trim_start (drop (Suc close) stat))
          in if is_dead_state state then Dead else classify_comm comm))"

definition parse_starttime :: "string \<Rightarrow> u64 option" where
  "parse_starttime stat = (case rfind_char CHR '')'' stat of
     None \<Rightarrow> None
   | Some close \<Rightarrow>
       let fields = split_whitespace (drop (Suc close) stat)
       in if 19 < length fields then parse_u64 (fields ! 19) else None)"

definition classify_stat_with_identity :: "string \<Rightarrow> u64 option \<Rightarrow> liveness" where
  "classify_stat_with_identity stat expected_starttime =
     (let live = classify_stat stat
      in if live \<noteq> Alive then live
         else case expected_starttime of
                None \<Rightarrow> Alive
              | Some expected \<Rightarrow> (case parse_starttime stat of
                  Some actual \<Rightarrow> if actual = expected then Alive else Dead
                | None \<Rightarrow> Indeterminate))"

definition starttime_of :: "io_env \<Rightarrow> u32 \<Rightarrow> u64 option" where
  "starttime_of env pid = (case proc_stat env pid of Inl _ \<Rightarrow> None | Inr stat \<Rightarrow> parse_starttime stat)"

definition probe_pid :: "io_env \<Rightarrow> u32 \<Rightarrow> u64 option \<Rightarrow> liveness" where
  "probe_pid env pid expected_starttime = (case proc_stat env pid of
     Inr stat \<Rightarrow> classify_stat_with_identity stat expected_starttime
   | Inl NotFound \<Rightarrow> Dead
   | Inl _ \<Rightarrow> Indeterminate)"

definition probe :: "io_env \<Rightarrow> u32 option \<Rightarrow> u64 option \<Rightarrow> liveness" where
  "probe env pid expected_starttime = (case pid of
     None \<Rightarrow> Indeterminate | Some pid \<Rightarrow> probe_pid env pid expected_starttime)"

subsection \<open>Every history of a room's provenance\<close>

text \<open>The field is private: sealing and tainting are the only operations that write it.\<close>

datatype prov_op = OpSeal | OpTaint

fun prov_apply :: "room_meta \<Rightarrow> prov_op \<Rightarrow> room_meta" where
  "prov_apply m OpSeal = snd (seal m)"
| "prov_apply m OpTaint = taint m"

lemmas prov_defs = seal_def taint_def provenance_seal_def is_snapshottable_def
  provenance_is_snapshottable_def new_base_def room_meta_new_def

lemma prov_apply_Tainted: "rm_provenance m = Some Tainted \<Longrightarrow> rm_provenance (prov_apply m op) = Some Tainted"
  by (cases op) (simp_all add: prov_defs)

lemma prov_run_Tainted:
  "rm_provenance m = Some Tainted \<Longrightarrow> rm_provenance (foldl prov_apply m ops) = Some Tainted"
  by (induction ops arbitrary: m) (auto simp: prov_apply_Tainted)

lemma prov_apply_None: "rm_provenance m = None \<Longrightarrow> prov_apply m op = m"
  by (cases op) (simp_all add: prov_defs)

lemma prov_run_None: "rm_provenance m = None \<Longrightarrow> foldl prov_apply m ops = m"
  by (induction ops) (simp_all add: prov_apply_None)

lemma prov_run_taints:
  "rm_provenance m \<noteq> None \<Longrightarrow> OpTaint \<in> set ops \<Longrightarrow> rm_provenance (foldl prov_apply m ops) = Some Tainted"
proof (induction ops arbitrary: m)
  case Nil
  then show ?case by simp
next
  case (Cons op ops)
  show ?case
  proof (cases op)
    case OpTaint
    with Cons.prems have "rm_provenance (prov_apply m op) = Some Tainted" by (simp add: prov_defs)
    then show ?thesis by (simp add: prov_run_Tainted)
  next
    case OpSeal
    with Cons.prems have "rm_provenance (prov_apply m op) \<noteq> None"
      by (auto simp: prov_defs split: option.splits provenance.splits sum.splits)
    with Cons OpSeal show ?thesis by simp
  qed
qed

lemma prov_run_seals:
  "rm_provenance m = Some Provisioning \<Longrightarrow> OpTaint \<notin> set ops \<Longrightarrow>
     rm_provenance (foldl prov_apply m ops) = (if ops = [] then Some Provisioning else Some Neutral)"
proof (induction ops arbitrary: m rule: rev_induct)
  case Nil
  then show ?case by simp
next
  case (snoc op ops)
  then show ?case by (cases op) (auto simp: prov_defs split: if_splits)
qed

lemma base_snapshottable_iff:
  "is_snapshottable (foldl prov_apply (new_base i l p st k t) ops)
     \<longleftrightarrow> OpSeal \<in> set ops \<and> OpTaint \<notin> set ops"
proof -
  let ?m = "new_base i l p st k t"
  have prov: "rm_provenance ?m = Some Provisioning" by (simp add: prov_defs)
  show ?thesis
  proof (cases "OpTaint \<in> set ops")
    case True
    then have "rm_provenance (foldl prov_apply ?m ops) = Some Tainted" using prov by (simp add: prov_run_taints)
    with True show ?thesis by (simp add: is_snapshottable_def provenance_is_snapshottable_def)
  next
    case False
    then have "OpSeal \<in> set ops \<longleftrightarrow> ops \<noteq> []"
      by (cases ops) (auto, metis prov_op.exhaust)
    with prov_run_seals[OF prov False] False show ?thesis
      by (simp add: is_snapshottable_def provenance_is_snapshottable_def)
  qed
qed

text \<open>C9. A room is snapshottable exactly when it was built as a base, was sealed at least once and
  was never tainted, whatever sequence of seal and taint calls it went through; a plain workload
  room never becomes snapshottable.\<close>

theorem snapshottable_iff_sealed_untainted:
  "(is_snapshottable (foldl prov_apply (new_base i l p st k t) ops)
      \<longleftrightarrow> OpSeal \<in> set ops \<and> OpTaint \<notin> set ops)
   \<and> \<not> is_snapshottable (foldl prov_apply (room_meta_new i l p st k t) ops)"
proof
  show "is_snapshottable (foldl prov_apply (new_base i l p st k t) ops)
      \<longleftrightarrow> OpSeal \<in> set ops \<and> OpTaint \<notin> set ops"
    by (rule base_snapshottable_iff)
  show "\<not> is_snapshottable (foldl prov_apply (room_meta_new i l p st k t) ops)"
    by (simp add: prov_run_None room_meta_new_def is_snapshottable_def)
qed

subsection \<open>Liveness of a kernel-written stat line\<close>

lemma stat_close: "CHR '')'' \<notin> set tail \<Longrightarrow>
    rfind_char CHR '')'' (p @ CHR ''('' # comm @ CHR '')'' # tail) = Some (length p + Suc (length comm))"
  using rfind_char_append[of "CHR '')''" tail "p @ CHR ''('' # comm"] by simp

lemma parse_starttime_stat:
  assumes "CHR '')'' \<notin> set tail"
  shows "parse_starttime (p @ CHR ''('' # comm @ CHR '')'' # tail) =
    (let fields = split_whitespace tail in if 19 < length fields then parse_u64 (fields ! 19) else None)"
  by (simp add: parse_starttime_def stat_close[OF assms] Let_def)

lemma classify_stat_line:
  assumes "CHR ''('' \<notin> set p" and "CHR '')'' \<notin> set tail"
  shows "classify_stat (p @ CHR ''('' # comm @ CHR '')'' # tail) =
    (if is_dead_state (first_char (trim_start tail)) then Dead else classify_comm comm)"
  using find_char_append[OF assms(1), of comm]
  by (simp add: classify_stat_def stat_close[OF assms(2)] Let_def)

text \<open>For every line \<open>pid (comm) tail\<close> the kernel writes to \<open>/proc/<pid>/stat\<close>, with any bytes at
  all in the process name (parentheses and spaces included), the identity check reads the start
  time from field 22 of the real tail: the room is alive only for a firecracker or jailer process
  that is not a zombie and whose start time is the recorded one; a recycled pid reads dead and an
  unparseable tail reads indeterminate.\<close>

theorem identity_check_of_stat_line:
  assumes "CHR ''('' \<notin> set p" and "CHR '')'' \<notin> set tail"
  shows "classify_stat_with_identity (p @ CHR ''('' # comm @ CHR '')'' # tail) (Some st) =
    (if is_dead_state (first_char (trim_start tail)) \<or> trim comm \<notin> {''firecracker'', ''jailer''} then Dead
     else let fields = split_whitespace tail in
       if 19 < length fields
       then (case parse_u64 (fields ! 19) of
               None \<Rightarrow> Indeterminate | Some actual \<Rightarrow> if actual = st then Alive else Dead)
       else Indeterminate)"
  by (auto simp: classify_stat_with_identity_def classify_stat_line[OF assms]
      parse_starttime_stat[OF assms(2)] Let_def classify_comm_def ROOM_PROC_NAMES_def
      split: option.splits)

theorem identity_check_of_stat_line_witness:
  "classify_stat_with_identity ''7 (jailer) S 1 1 1 0 -1 4 0 0 0 0 0 0 0 0 20 0 1 0 99 0'' (Some 99) = Alive"
proof -
  have c: "CHR ''('' \<notin> set ''7 ''" "CHR '')'' \<notin> set '' S 1 1 1 0 -1 4 0 0 0 0 0 0 0 0 20 0 1 0 99 0''"
    by simp_all
  have f: "split_whitespace '' S 1 1 1 0 -1 4 0 0 0 0 0 0 0 0 20 0 1 0 99 0'' =
      [''S'',''1'',''1'',''1'',''0'',''-1'',''4'',''0'',''0'',''0'',''0'',''0'',''0'',''0'',''0'',''20'',''0'',''1'',''0'',''99'',''0'']"
    by (simp add: split_whitespace.simps is_whitespace_def)
  have t: "first_char (trim_start '' S 1 1 1 0 -1 4 0 0 0 0 0 0 0 0 20 0 1 0 99 0'') = Some CHR ''S''"
    by (simp add: trim_start_def first_char_def is_whitespace_def)
  have n: "trim ''jailer'' = ''jailer''" by (simp add: trim_def is_whitespace_def)
  have u: "parse_u64 ''99'' = Some 99"
    by (simp add: parse_u64_def parse_uint_def is_ascii_digit_def digits_val_def digit_val_def)
  show ?thesis
    using identity_check_of_stat_line[OF c, of "''jailer''" 99]
    by (simp add: f t n u is_dead_state_def Let_def)
qed

subsection \<open>Atomic persistence\<close>

lemma fs_write_frame:
  "fs_write env d n body w = (r, w') \<Longrightarrow> p \<noteq> (d, n) \<Longrightarrow> files w' p = files w p"
  by (auto simp: fs_write_def fs_defs split: if_splits sum.splits)

lemma fs_write_ok: "fs_write env d n body w = (Inr u, w') \<Longrightarrow> files w' (d, n) = Some body"
  by (auto simp: fs_write_def fs_defs split: if_splits sum.splits)

lemma meta_paths_differ [simp]: "ROOM_META_FILE \<noteq> ROOM_META_TMP" "ROOM_META_TMP \<noteq> ROOM_META_FILE"
  by (simp_all add: ROOM_META_FILE_def ROOM_META_TMP_def)

text \<open>Writing a room's metadata is all or nothing under every combination of filesystem
  failures: an error leaves the previous \<open>room.json\<close> byte for byte, a success leaves the new record,
  which a later read returns, and no other file of the state base but the temporary one changes.\<close>

theorem write_atomic_all_or_nothing:
  assumes "to_vec_pretty m = Inr json" and "from_slice json = Inr m" and "no_faults env'"
    and "write_atomic to_vec_pretty env d m w = (r, w')"
  shows "(case r of
      Inl _ \<Rightarrow> files w' (d, ROOM_META_FILE) = files w (d, ROOM_META_FILE)
    | Inr _ \<Rightarrow> room_read from_slice env' d w' = Inr (Some m))
    \<and> (\<forall>p. p \<noteq> (d, ROOM_META_TMP) \<and> p \<noteq> (d, ROOM_META_FILE) \<longrightarrow> files w' p = files w p)"
proof -
  obtain r1 w1 where w1: "fs_write env d ROOM_META_TMP json w = (r1, w1)"
    by (cases "fs_write env d ROOM_META_TMP json w")
  have frame1: "p \<noteq> (d, ROOM_META_TMP) \<Longrightarrow> files w1 p = files w p" for p
    by (rule fs_write_frame[OF w1])
  show ?thesis
  proof (cases r1)
    case (Inl e)
    then have "r = Inl e" "w' = w1" using assms(1,4) w1 by (simp_all add: write_atomic_def)
    then show ?thesis using frame1 by simp
  next
    case (Inr u)
    then have ren: "rename_file env d ROOM_META_TMP ROOM_META_FILE w1 = (r, w')"
      using assms(1,4) w1 by (simp add: write_atomic_def)
    show ?thesis
    proof (cases r)
      case (Inl e)
      then have "w' = w1" using rename_file_err ren by blast
      then show ?thesis using Inl frame1 by simp
    next
      case (Inr v)
      have "files w' (d, ROOM_META_FILE) = Some json"
        using rename_file_ok ren Inr fs_write_ok w1 \<open>r1 = Inr u\<close> by metis
      moreover have "\<forall>p. p \<noteq> (d, ROOM_META_TMP) \<and> p \<noteq> (d, ROOM_META_FILE) \<longrightarrow> files w' p = files w p"
        using rename_file_frame[OF ren] frame1 by metis
      ultimately show ?thesis using assms(2,3) Inr by (simp add: room_read_def)
    qed
  qed
qed

theorem write_atomic_all_or_nothing_witness:
  "let m = new_base ''a'' None None None True 0;
       env = \<lparr>fault = (\<lambda>_. None), short_write = (\<lambda>_. 0), proc_stat = (\<lambda>_. Inl NotFound)\<rparr>;
       w = \<lparr>dirs = (\<lambda>_. True), files = (\<lambda>_. None), host = ()\<rparr>
   in room_read (\<lambda>_. Inr m) env ''r'' (snd (write_atomic (\<lambda>_. Inr ''{}'') env ''r'' m w)) = Inr (Some m)"
proof -
  let ?m = "new_base ''a'' None None None True 0"
  let ?env = "\<lparr>fault = (\<lambda>_. None), short_write = (\<lambda>_. 0), proc_stat = (\<lambda>_. Inl NotFound)\<rparr>"
  let ?w = "\<lparr>dirs = (\<lambda>_. True), files = (\<lambda>_. None), host = ()\<rparr>"
  have n: "no_faults ?env" by (simp add: no_faults_def)
  have ok: "fst (write_atomic (\<lambda>_. Inr ''{}'') ?env ''r'' ?m ?w) = Inr ()"
    by (simp add: write_atomic_def fs_write_def fs_defs n)
  show ?thesis
    using write_atomic_all_or_nothing[of "\<lambda>_. Inr ''{}''" ?m "''{}''" "\<lambda>_. Inr ?m" ?env ?env "''r''" ?w
        "Inr ()" "snd (write_atomic (\<lambda>_. Inr ''{}'') ?env ''r'' ?m ?w)"] ok n
    by (simp add: prod_eq_iff Let_def)
qed

end
