(* ===== verification/Indexed_Claim.thy ===== *)
theory Indexed_Claim
  imports Room
begin

text \<open>
  \<open>src/src/indexed_claim.rs\<close>: crash-safe claims on a bounded pool of indexed host resources. One
  file per claimed index holds the owner's id and the claimer's process identity. The slot
  allocator (\<open>Slot\<close>) and the clone-network allocator (\<open>Clone_Net\<close>) are its two clients.

  Callbacks (\<open>select\<close>, \<open>cleanup\<close>) act on the abstract host state. Reconciliation reads a claim
  before it takes the lock, so \<open>interf\<close> stands for whatever other processes do to the state base
  between that read and the locked re-read.
\<close>

subsection \<open>Data\<close>

record claimer =
  cl_pid :: u32
  cl_starttime :: u64

record pool =
  dir_name :: string
  lock_name :: string
  max_index :: u8
  pool_label :: string

datatype claim_outcome =
    Claimed u8
  | PoolFull u8
  | InvalidIndex u8 u8
  | TargetTaken u8

datatype claim_decision = Accept | Skip

record claim_spec =
  cs_pool :: pool
  cs_owner_id :: string
  cs_me :: claimer
  cs_cap :: u8
  cs_target :: "u8 option"

datatype free_outcome = Removed | AlreadyFree | AlreadyReassigned

datatype release_error = ReleaseIo io_error | ReleaseCleanup string

record reclaimed =
  rec_index :: u8
  rec_owner_id :: string
  rec_removed :: bool

datatype reconcile_action = KeepClaim | RemoveClaim

record claim_token =
  ct_owner_id :: string
  ct_pid :: u32
  ct_starttime :: u64

definition claimer_current :: "io_env \<Rightarrow> u32 \<Rightarrow> claimer option" where
  "claimer_current env pid =
     map_option (\<lambda>st. \<lparr>cl_pid = pid, cl_starttime = st\<rparr>) (starttime_of env pid)"

subsection \<open>The claim token\<close>

definition is_id_shaped :: "string \<Rightarrow> bool" where
  "is_id_shaped s \<longleftrightarrow> length s = 26 \<and> list_all (\<lambda>b. is_ascii_digit b \<or> is_ascii_lowercase b) s"

definition claim_text :: "string \<Rightarrow> claimer \<Rightarrow> string" where
  "claim_text owner_id me =
     owner_id @ [newline] @ show_u32 (cl_pid me) @ [space] @ show_u64 (cl_starttime me) @ [newline]"

definition first_line :: "string \<Rightarrow> string option" where
  "first_line contents = (case lines contents of [] \<Rightarrow> None | l # _ \<Rightarrow> Some l)"

definition parse_claim :: "string \<Rightarrow> claim_token option" where
  "parse_claim contents =
     (if \<not> ends_with_char newline contents then None
      else case lines contents of
        [owner_id, second] \<Rightarrow>
          (if \<not> is_id_shaped owner_id then None
           else case split_whitespace second of
             [p, s] \<Rightarrow> (case (parse_u32 p, parse_u64 s) of
                 (Some pid, Some st) \<Rightarrow> Some \<lparr>ct_owner_id = owner_id, ct_pid = pid, ct_starttime = st\<rparr>
               | _ \<Rightarrow> None)
           | _ \<Rightarrow> None)
      | _ \<Rightarrow> None)"

definition valid_index :: "pool \<Rightarrow> u8 \<Rightarrow> bool" where
  "valid_index p i \<longleftrightarrow> 0 < i \<and> i \<le> max_index p"

definition index_of :: "pool \<Rightarrow> string \<Rightarrow> u8 option" where
  "index_of p name = (case parse_u8 name of
     None \<Rightarrow> None
   | Some i \<Rightarrow> if name \<noteq> show_u8 i \<or> \<not> valid_index p i then None else Some i)"

subsection \<open>Claiming\<close>

definition map_err :: "('e \<Rightarrow> 'f) \<Rightarrow> ('e + 'a) \<times> 'w \<Rightarrow> ('f + 'a) \<times> 'w" where
  "map_err f r = (case r of (Inl e, w) \<Rightarrow> (Inl (f e), w) | (Inr a, w) \<Rightarrow> (Inr a, w))"

definition lock_frees :: "io_env \<Rightarrow> pool \<Rightarrow> io_error + unit" where
  "lock_frees env p = (case check_fault env (OpenLock (lock_name p)) of
     Inl e \<Rightarrow> Inl e | Inr _ \<Rightarrow> check_fault env (Flock (lock_name p)))"

definition try_claim ::
  "io_env \<Rightarrow> string \<Rightarrow> u8 \<Rightarrow> string \<Rightarrow> claimer \<Rightarrow> 'h world \<Rightarrow> (io_error + bool) \<times> 'h world" where
  "try_claim env dir index owner_id me w =
     (case create_new_file env dir (show_u8 index) w of
        (Inl AlreadyExists, w) \<Rightarrow> (Inr False, w)
      | (Inl e, w) \<Rightarrow> (Inl e, w)
      | (Inr _, w) \<Rightarrow>
          (case write_all env dir (show_u8 index) (claim_text owner_id me) w of
             (Inl e, w) \<Rightarrow> (Inl e, snd (remove_file env dir (show_u8 index) w))
           | (Inr _, w) \<Rightarrow> (Inr True, w)))"

definition remove_rejected_claim :: "io_env \<Rightarrow> string \<Rightarrow> u8 \<Rightarrow> 'h world \<Rightarrow> 'h world" where
  "remove_rejected_claim env dir index w = snd (remove_file env dir (show_u8 index) w)"

type_synonym ('h, 'e) selector = "u8 \<Rightarrow> 'h \<Rightarrow> ('e + claim_decision) \<times> 'h"

definition select_claim ::
  "io_env \<Rightarrow> (io_error \<Rightarrow> 'e) \<Rightarrow> string \<Rightarrow> u8 \<Rightarrow> ('h, 'e) selector \<Rightarrow> 'h world
     \<Rightarrow> ('e + bool) \<times> 'h world" where
  "select_claim env from_io dir index select w =
     (case select index (host w) of
        (Inl e, h) \<Rightarrow> (Inl e, remove_rejected_claim env dir index (w\<lparr>host := h\<rparr>))
      | (Inr Accept, h) \<Rightarrow> (Inr True, w\<lparr>host := h\<rparr>)
      | (Inr Skip, h) \<Rightarrow>
          and_then (map_err from_io (remove_file env dir (show_u8 index) (w\<lparr>host := h\<rparr>)))
            (\<lambda>_ w. (Inr False, w)))"

text \<open>One attempt at an index: create, then ask the selector.\<close>

definition attempt_claim ::
  "io_env \<Rightarrow> (io_error \<Rightarrow> 'e) \<Rightarrow> string \<Rightarrow> string \<Rightarrow> claimer \<Rightarrow> ('h, 'e) selector \<Rightarrow> u8 \<Rightarrow> 'h world
     \<Rightarrow> ('e + bool) \<times> 'h world" where
  "attempt_claim env from_io dir owner_id me select index w =
     and_then (map_err from_io (try_claim env dir index owner_id me w))
       (\<lambda>created w. if created then select_claim env from_io dir index select w else (Inr False, w))"

definition claim_target ::
  "io_env \<Rightarrow> (io_error \<Rightarrow> 'e) \<Rightarrow> string \<Rightarrow> string \<Rightarrow> claimer \<Rightarrow> u8 \<Rightarrow> ('h, 'e) selector \<Rightarrow> 'h world
     \<Rightarrow> ('e + claim_outcome) \<times> 'h world" where
  "claim_target env from_io dir owner_id me index select w =
     and_then (attempt_claim env from_io dir owner_id me select index w)
       (\<lambda>won w. (Inr (if won then Claimed index else TargetTaken index), w))"

fun claim_walk ::
  "io_env \<Rightarrow> (io_error \<Rightarrow> 'e) \<Rightarrow> string \<Rightarrow> string \<Rightarrow> claimer \<Rightarrow> u8 \<Rightarrow> ('h, 'e) selector \<Rightarrow> u8 list \<Rightarrow> 'h world
     \<Rightarrow> ('e + claim_outcome) \<times> 'h world" where
  "claim_walk env from_io dir owner_id me cap select [] w = (Inr (PoolFull cap), w)"
| "claim_walk env from_io dir owner_id me cap select (index # rest) w =
     and_then (attempt_claim env from_io dir owner_id me select index w)
       (\<lambda>won w. if won then (Inr (Claimed index), w)
                else claim_walk env from_io dir owner_id me cap select rest w)"

definition upto_cap :: "u8 \<Rightarrow> u8 list" where
  "upto_cap cap = map of_nat [1..<Suc (unat cap)]"

definition claim_with ::
  "io_env \<Rightarrow> (io_error \<Rightarrow> 'e) \<Rightarrow> claim_spec \<Rightarrow> ('h, 'e) selector \<Rightarrow> 'h world
     \<Rightarrow> ('e + claim_outcome) \<times> 'h world" where
  "claim_with env from_io spec select w =
     (if \<not> is_id_shaped (cs_owner_id spec) then
        (Inl (from_io (InvalidInput (pool_label (cs_pool spec)
           @ '' owner ID must be 26 lowercase ASCII letters or digits''))), w)
      else if (case cs_target spec of None \<Rightarrow> False | Some i \<Rightarrow> \<not> valid_index (cs_pool spec) i) then
        (Inr (InvalidIndex (the (cs_target spec)) (max_index (cs_pool spec))), w)
      else
        let dir = dir_name (cs_pool spec) in
        and_then (map_err from_io (create_dir_all env dir w)) (\<lambda>_ w.
          case lock_frees env (cs_pool spec) of
            Inl e \<Rightarrow> (Inl (from_io e), w)
          | Inr _ \<Rightarrow>
              (case cs_target spec of
                 Some index \<Rightarrow> claim_target env from_io dir (cs_owner_id spec) (cs_me spec) index select w
               | None \<Rightarrow>
                   let cap = min (cs_cap spec) (max_index (cs_pool spec)) in
                   claim_walk env from_io dir (cs_owner_id spec) (cs_me spec) cap select (upto_cap cap) w)))"

definition accept_all :: "('h, io_error) selector" where
  "accept_all index h = (Inr Accept, h)"

definition indexed_claim ::
  "io_env \<Rightarrow> pool \<Rightarrow> string \<Rightarrow> claimer \<Rightarrow> u8 \<Rightarrow> u8 option \<Rightarrow> 'h world
     \<Rightarrow> (io_error + claim_outcome) \<times> 'h world" where
  "indexed_claim env p owner_id me cap target w =
     claim_with env (\<lambda>e. e)
       \<lparr>cs_pool = p, cs_owner_id = owner_id, cs_me = me, cs_cap = cap, cs_target = target\<rparr> accept_all w"

subsection \<open>Releasing\<close>

definition free_with ::
  "io_env \<Rightarrow> pool \<Rightarrow> u8 \<Rightarrow> string \<Rightarrow> ('h \<Rightarrow> (string + unit) \<times> 'h) \<Rightarrow> 'h world
     \<Rightarrow> (release_error + free_outcome) \<times> 'h world" where
  "free_with env p index expected_owner cleanup w =
     (case lock_frees env p of
        Inl e \<Rightarrow> (Inl (ReleaseIo e), w)
      | Inr _ \<Rightarrow>
          (case read_to_string env (dir_name p) (show_u8 index) w of
             Inl NotFound \<Rightarrow> (Inr AlreadyFree, w)
           | Inl e \<Rightarrow> (Inl (ReleaseIo e), w)
           | Inr contents \<Rightarrow>
               if first_line contents \<noteq> Some expected_owner then (Inr AlreadyReassigned, w)
               else (case cleanup (host w) of
                   (Inl detail, h) \<Rightarrow> (Inl (ReleaseCleanup detail), w\<lparr>host := h\<rparr>)
                 | (Inr _, h) \<Rightarrow>
                     (case remove_file env (dir_name p) (show_u8 index) (w\<lparr>host := h\<rparr>) of
                        (Inr _, w) \<Rightarrow> (Inr Removed, w)
                      | (Inl NotFound, w) \<Rightarrow> (Inr AlreadyFree, w)
                      | (Inl e, w) \<Rightarrow> (Inl (ReleaseIo e), w)))))"

definition indexed_free ::
  "io_env \<Rightarrow> pool \<Rightarrow> u8 \<Rightarrow> string \<Rightarrow> 'h world \<Rightarrow> (io_error + free_outcome) \<times> 'h world" where
  "indexed_free env p index expected_owner w =
     map_err (\<lambda>e. case e of ReleaseIo e \<Rightarrow> e | ReleaseCleanup detail \<Rightarrow> Other detail)
       (free_with env p index expected_owner (\<lambda>h. (Inr (), h)) w)"

definition owned_by :: "io_env \<Rightarrow> pool \<Rightarrow> u8 \<Rightarrow> string \<Rightarrow> 'h world \<Rightarrow> io_error + bool" where
  "owned_by env p index expected_owner w =
     (case lock_frees env p of
        Inl e \<Rightarrow> Inl e
      | Inr _ \<Rightarrow>
          (case read_to_string env (dir_name p) (show_u8 index) w of
             Inr contents \<Rightarrow> Inr (case parse_claim contents of
                 None \<Rightarrow> False | Some claim \<Rightarrow> ct_owner_id claim = expected_owner)
           | Inl NotFound \<Rightarrow> Inr False
           | Inl e \<Rightarrow> Inl e))"

subsection \<open>Atomic rewriting\<close>

definition tmp_name :: "u8 \<Rightarrow> string" where
  "tmp_name index = ''.'' @ show_u8 index @ ''.tmp''"

definition sync_dir :: "io_env \<Rightarrow> string \<Rightarrow> io_error + unit" where
  "sync_dir env d = check_fault env (SyncDir d)"

definition rewrite_atomic :: "io_env \<Rightarrow> string \<Rightarrow> u8 \<Rightarrow> string \<Rightarrow> 'h world \<Rightarrow> (io_error + unit) \<times> 'h world" where
  "rewrite_atomic env dir index body w =
     and_then (open_truncate env dir (tmp_name index) w) (\<lambda>_ w.
     and_then (write_all env dir (tmp_name index) body w) (\<lambda>_ w.
     and_then (check_fault env (SyncAll dir (tmp_name index)), w) (\<lambda>_ w.
     and_then (rename_file env dir (tmp_name index) (show_u8 index) w) (\<lambda>_ w.
     (sync_dir env dir, w)))))"

subsection \<open>Reconciliation\<close>

definition classify_claimer_stat :: "string \<Rightarrow> u64 \<Rightarrow> liveness" where
  "classify_claimer_stat stat expected_starttime = (case rfind_char CHR '')'' stat of
     None \<Rightarrow> Indeterminate
   | Some close \<Rightarrow>
       if is_dead_state (first_char (trim_start (drop (Suc close) stat))) then Dead
       else (case parse_starttime stat of
               Some actual \<Rightarrow> if actual = expected_starttime then Alive else Dead
             | None \<Rightarrow> Indeterminate))"

definition claimer_liveness :: "io_env \<Rightarrow> u32 \<Rightarrow> u64 \<Rightarrow> liveness" where
  "claimer_liveness env pid starttime = (case proc_stat env pid of
     Inr stat \<Rightarrow> classify_claimer_stat stat starttime
   | Inl NotFound \<Rightarrow> Dead
   | Inl _ \<Rightarrow> Indeterminate)"

definition discard_abandoned_partial ::
  "io_env \<Rightarrow> pool \<Rightarrow> string \<Rightarrow> string \<Rightarrow> 'h world \<Rightarrow> 'h world" where
  "discard_abandoned_partial env p name observed w =
     (case lock_frees env p of
        Inl _ \<Rightarrow> w
      | Inr _ \<Rightarrow>
          (case read_to_string env (dir_name p) name w of
             Inl _ \<Rightarrow> w
           | Inr now \<Rightarrow>
               if now \<noteq> observed \<or> parse_claim now \<noteq> None then w
               else snd (remove_file env (dir_name p) name w)))"

type_synonym 'h reclaimer = "u8 \<Rightarrow> string \<Rightarrow> 'h world \<Rightarrow> (string + reconcile_action) \<times> 'h"

record dead_claim =
  dc_name :: string
  dc_index :: u8
  dc_expected :: string
  dc_owner_id :: string

definition reconcile_dead ::
  "io_env \<Rightarrow> pool \<Rightarrow> dead_claim \<Rightarrow> 'h reclaimer \<Rightarrow> 'h world \<Rightarrow> reclaimed option \<times> 'h world" where
  "reconcile_dead env p dead cleanup w =
     (case lock_frees env p of
        Inl _ \<Rightarrow> (None, w)
      | Inr _ \<Rightarrow>
          (case read_to_string env (dir_name p) (dc_name dead) w of
             Inl _ \<Rightarrow> (None, w)
           | Inr now \<Rightarrow>
               if now \<noteq> dc_expected dead then (None, w)
               else (case cleanup (dc_index dead) (dc_owner_id dead) w of
                   (Inl _, h) \<Rightarrow> (None, w\<lparr>host := h\<rparr>)
                 | (Inr KeepClaim, h) \<Rightarrow>
                     (Some \<lparr>rec_index = dc_index dead, rec_owner_id = dc_owner_id dead, rec_removed = False\<rparr>,
                      w\<lparr>host := h\<rparr>)
                 | (Inr RemoveClaim, h) \<Rightarrow>
                     (case remove_file env (dir_name p) (dc_name dead) (w\<lparr>host := h\<rparr>) of
                        (Inl _, w) \<Rightarrow> (None, w)
                      | (Inr _, w) \<Rightarrow>
                          (Some \<lparr>rec_index = dc_index dead, rec_owner_id = dc_owner_id dead, rec_removed = True\<rparr>,
                           w)))))"

text \<open>\<open>reconcile_path\<close> after its first read: \<open>contents\<close> is what was observed, \<open>w\<close> the world when the lock
  is taken.\<close>

definition reconcile_observed ::
  "io_env \<Rightarrow> pool \<Rightarrow> string \<Rightarrow> u8 \<Rightarrow> string \<Rightarrow> 'h reclaimer \<Rightarrow> 'h world \<Rightarrow> reclaimed option \<times> 'h world" where
  "reconcile_observed env p name index contents cleanup w =
     (case parse_claim contents of
        None \<Rightarrow> if prefix ''@'' contents then (None, w)
                else (None, discard_abandoned_partial env p name contents w)
      | Some claim \<Rightarrow>
          if claimer_liveness env (ct_pid claim) (ct_starttime claim) \<noteq> Dead then (None, w)
          else reconcile_dead env p
                 \<lparr>dc_name = name, dc_index = index, dc_expected = contents,
                  dc_owner_id = ct_owner_id claim\<rparr> cleanup w)"

definition reconcile_path ::
  "io_env \<Rightarrow> pool \<Rightarrow> ('h world \<Rightarrow> 'h world) \<Rightarrow> string \<Rightarrow> u8 \<Rightarrow> 'h reclaimer \<Rightarrow> 'h world
     \<Rightarrow> reclaimed option \<times> 'h world" where
  "reconcile_path env p interf name index cleanup w =
     (case read_to_string env (dir_name p) name w of
        Inl _ \<Rightarrow> (None, w)
      | Inr contents \<Rightarrow> reconcile_observed env p name index contents cleanup (interf w))"

definition reconcile_entry ::
  "io_env \<Rightarrow> pool \<Rightarrow> ('h world \<Rightarrow> 'h world) \<Rightarrow> io_error + string \<Rightarrow> 'h reclaimer \<Rightarrow> 'h world
     \<Rightarrow> reclaimed option \<times> 'h world" where
  "reconcile_entry env p interf entry cleanup w =
     (case entry of
        Inl _ \<Rightarrow> (None, w)
      | Inr name \<Rightarrow> (case index_of p name of
          None \<Rightarrow> (None, w)
        | Some index \<Rightarrow> reconcile_path env p interf name index cleanup w))"

fun reconcile_entries ::
  "io_env \<Rightarrow> pool \<Rightarrow> ('h world \<Rightarrow> 'h world) \<Rightarrow> (io_error + string) list \<Rightarrow> 'h reclaimer \<Rightarrow> 'h world
     \<Rightarrow> reclaimed list \<times> 'h world" where
  "reconcile_entries env p interf [] cleanup w = ([], w)"
| "reconcile_entries env p interf (entry # rest) cleanup w =
     (case reconcile_entry env p interf entry cleanup w of
        (None, w) \<Rightarrow> reconcile_entries env p interf rest cleanup w
      | (Some item, w) \<Rightarrow>
          (case reconcile_entries env p interf rest cleanup w of (items, w) \<Rightarrow> (item # items, w)))"

definition indexed_reconcile ::
  "io_env \<Rightarrow> pool \<Rightarrow> ('h world \<Rightarrow> 'h world) \<Rightarrow> io_error + (io_error + string) list \<Rightarrow> 'h reclaimer \<Rightarrow> 'h world
     \<Rightarrow> reclaimed list \<times> 'h world" where
  "indexed_reconcile env p interf read_dir cleanup w =
     (case read_dir of
        Inl _ \<Rightarrow> ([], w)
      | Inr entries \<Rightarrow> reconcile_entries env p interf entries cleanup w)"


subsection \<open>Facts about the token\<close>

abbreviation claim_key :: "pool \<Rightarrow> u8 \<Rightarrow> string \<times> string" where
  "claim_key p i \<equiv> (dir_name p, show_u8 i)"

lemmas id_shaped_defs = is_id_shaped_def list_all_iff is_ascii_digit_def is_ascii_lowercase_def

lemma id_shaped_no_newline [simp]: "is_id_shaped s \<Longrightarrow> newline \<notin> set s"
  by (auto simp: id_shaped_defs)

lemma id_shaped_no_cr [simp]: "is_id_shaped s \<Longrightarrow> carriage_return \<notin> set s"
  by (auto simp: id_shaped_defs)

lemma id_shaped_no_space [simp]: "is_id_shaped s \<Longrightarrow> space \<notin> set s"
  by (auto simp: id_shaped_defs)

lemma id_shaped_no_at [simp]: "is_id_shaped s \<Longrightarrow> CHR ''@'' \<notin> set s"
  by (auto simp: id_shaped_defs)

lemma id_shaped_not_Nil [simp]: "\<not> is_id_shaped []"
  by (simp add: is_id_shaped_def)

lemma show_nat_line [simp]:
  "newline \<notin> set (show_nat n)" "carriage_return \<notin> set (show_nat n)" "space \<notin> set (show_nat n)"
  using show_nat_no_whitespace[of n] by (auto simp: is_whitespace_def)

text \<open>The second line of a claim.\<close>

abbreviation claimer_line :: "claimer \<Rightarrow> string" where
  "claimer_line me \<equiv> show_u32 (cl_pid me) @ [space] @ show_u64 (cl_starttime me)"

lemma claim_text_alt: "claim_text owner_id me = owner_id @ newline # claimer_line me @ [newline]"
  by (simp add: claim_text_def)

lemma claimer_line_words:
  "split_whitespace (claimer_line me) = [show_u32 (cl_pid me), show_u64 (cl_starttime me)]"
  using split_whitespace_Cons[of "show_u32 (cl_pid me)" space "show_u64 (cl_starttime me)"]
    split_whitespace_single[of "show_u64 (cl_starttime me)"] show_nat_no_whitespace
  by simp

lemma claim_text_lines:
  assumes "is_id_shaped owner_id"
  shows "lines (claim_text owner_id me) = [owner_id, claimer_line me]"
proof -
  have "lines (claimer_line me @ newline # []) = [strip_cr (claimer_line me)]"
    by (subst lines_Cons) auto
  moreover have "strip_cr (claimer_line me) = claimer_line me" by (rule strip_cr_id) simp
  ultimately show ?thesis
    using assms by (simp add: claim_text_def lines_Cons strip_cr_id)
qed

lemma parse_claim_text:
  assumes "is_id_shaped owner_id"
  shows "parse_claim (claim_text owner_id me) =
    Some \<lparr>ct_owner_id = owner_id, ct_pid = cl_pid me, ct_starttime = cl_starttime me\<rparr>"
proof -
  have "ends_with_char newline (claim_text owner_id me)"
    by (simp add: claim_text_def ends_with_char_def)
  then show ?thesis
    using claimer_line_words[of me] assms by (simp add: parse_claim_def claim_text_lines)
qed

lemma parse_claim_SomeD:
  assumes "parse_claim c = Some t"
  shows "is_id_shaped (ct_owner_id t)" and "first_line c = Some (ct_owner_id t)"
  using assms
  by (auto simp: parse_claim_def first_line_def split: if_splits list.splits option.splits prod.splits)

lemma first_line_claim_text: "is_id_shaped o' \<Longrightarrow> first_line (claim_text o' me) = Some o'"
  by (simp add: first_line_def claim_text_lines)

text \<open>A claimer that dies mid-write leaves a strict prefix of its token, and no strict prefix parses.\<close>

lemma ends_with_char_set: "ends_with_char c s \<Longrightarrow> c \<in> set s"
  by (auto simp: ends_with_char_def)

lemma torn_claim_not_parsed:
  assumes id: "is_id_shaped owner_id" and n: "n < length (claim_text owner_id me)"
  shows "parse_claim (take n (claim_text owner_id me)) = None"
proof (cases "n \<le> length owner_id")
  case True
  then have "take n (claim_text owner_id me) = take n owner_id" by (simp add: claim_text_def)
  moreover have "newline \<notin> set (take n owner_id)" using id in_set_takeD[of newline n owner_id] by auto
  ultimately have "\<not> ends_with_char newline (take n (claim_text owner_id me))"
    using ends_with_char_set by metis
  then show ?thesis by (simp add: parse_claim_def)
next
  case False
  let ?k = "n - Suc (length owner_id)" and ?l = "claimer_line me"
  have k: "?k \<le> length ?l" using n False by (simp add: claim_text_def)
  have t: "take n (claim_text owner_id me) = owner_id @ newline # take ?k ?l"
    using False k by (simp add: claim_text_alt take_Cons' del: append_assoc)
  have nl: "newline \<notin> set (take ?k ?l)" using in_set_takeD[of newline ?k ?l] by auto
  show ?thesis
  proof (cases "take ?k ?l = []")
    case True
    then have "lines (take n (claim_text owner_id me)) = [owner_id]"
      using id t by (simp add: lines_Cons strip_cr_id)
    then show ?thesis by (simp add: parse_claim_def)
  next
    case False
    then have "\<not> ends_with_char newline (take n (claim_text owner_id me))"
      using nl last_in_set[OF False] by (auto simp: t ends_with_char_def)
    then show ?thesis by (simp add: parse_claim_def)
  qed
qed

subsection \<open>What a claim does to the pool\<close>

text \<open>The worlds a failed claim may leave behind besides an unchanged one: at one index that was free,
  a prefix of this claimer's token stays because its removal failed as well.\<close>

definition residue_at :: "io_env \<Rightarrow> string \<Rightarrow> string \<Rightarrow> claimer \<Rightarrow> 'h world \<Rightarrow> 'h world \<Rightarrow> bool" where
  "residue_at env dir owner_id me w w' \<longleftrightarrow>
     (\<exists>i n. files w (dir, show_u8 i) = None \<and> fault env (RemoveFile dir (show_u8 i)) \<noteq> None
        \<and> files w' = (files w)((dir, show_u8 i) \<mapsto> take n (claim_text owner_id me)))"

lemma residue_atI:
  "files w (dir, show_u8 i) = None \<Longrightarrow> fault env (RemoveFile dir (show_u8 i)) \<noteq> None \<Longrightarrow>
   files w' = (files w)((dir, show_u8 i) \<mapsto> take n (claim_text owner_id me)) \<Longrightarrow>
   residue_at env dir owner_id me w w'"
  unfolding residue_at_def by blast

lemma residue_at_dirs [simp]: "residue_at env dir owner_id me (w\<lparr>dirs := D\<rparr>) w' = residue_at env dir owner_id me w w'"
  by (simp add: residue_at_def)

lemma fun_upd_None_same: "f k = None \<Longrightarrow> f(k := None) = f"
  by auto

lemma try_claim_won:
  "try_claim env dir i owner_id me w = (Inr True, w') \<Longrightarrow>
     files w (dir, show_u8 i) = None \<and> host w' = host w
     \<and> files w' = (files w)((dir, show_u8 i) \<mapsto> claim_text owner_id me)"
  by (auto simp: try_claim_def fs_defs split: if_splits sum.splits prod.splits io_error.splits)

lemma try_claim_lost:
  "try_claim env dir i owner_id me w = (Inr False, w') \<Longrightarrow> w' = w \<and> files w (dir, show_u8 i) \<noteq> None"
  by (auto simp: try_claim_def fs_defs split: if_splits sum.splits prod.splits io_error.splits)

lemma try_claim_failed:
  "try_claim env dir i owner_id me w = (Inl e, w') \<Longrightarrow>
     files w' = files w \<or> residue_at env dir owner_id me w w'"
  by (auto simp: try_claim_def fs_defs check_fault_def fun_upd_None_same
      split: if_splits sum.splits prod.splits io_error.splits option.splits intro: residue_atI)

lemma remove_file_snd:
  "files (snd (remove_file env d n w)) = (files w)((d, n) := None)
   \<or> files (snd (remove_file env d n w)) = files w \<and> fault env (RemoveFile d n) \<noteq> None"
  by (auto simp: remove_file_def check_fault_def fun_upd_None_same split: option.splits sum.splits)

lemma map_err_cases:
  "map_err f r = (Inr a, w) \<longleftrightarrow> r = (Inr a, w)"
  "map_err f r = (Inl e, w) \<longleftrightarrow> (\<exists>e'. r = (Inl e', w) \<and> e = f e')"
  by (auto simp: map_err_def split: prod.splits sum.splits)

lemma and_then_Inr: "and_then r k = (Inr b, w') \<longleftrightarrow> (\<exists>a w. r = (Inr a, w) \<and> k a w = (Inr b, w'))"
  by (auto simp: and_then_def split: prod.splits sum.splits)

lemma and_then_Inl:
  "and_then r k = (Inl e, w') \<longleftrightarrow> r = (Inl e, w') \<or> (\<exists>a w. r = (Inr a, w) \<and> k a w = (Inl e, w'))"
  by (auto simp: and_then_def split: prod.splits sum.splits)

lemmas chain_simps = and_then_Inr and_then_Inl map_err_cases

lemma attempt_claim_won:
  assumes "attempt_claim env from_io dir owner_id me select i w = (Inr True, w')"
  shows "files w (dir, show_u8 i) = None \<and> files w' = (files w)((dir, show_u8 i) \<mapsto> claim_text owner_id me)"
  using assms
  by (auto simp: attempt_claim_def chain_simps select_claim_def split: if_splits prod.splits sum.splits claim_decision.splits
      dest!: try_claim_won)

lemma select_claim_lost:
  assumes "select_claim env from_io dir i select w = (Inr False, w')"
  shows "files w' = (files w)((dir, show_u8 i) := None)"
proof -
  obtain h u where "remove_file env dir (show_u8 i) (w\<lparr>host := h\<rparr>) = (Inr u, w')"
    using assms by (auto simp: select_claim_def chain_simps split: prod.splits sum.splits claim_decision.splits)
  from remove_file_ok[OF this] show ?thesis by simp
qed

lemma attempt_claim_lost:
  assumes "attempt_claim env from_io dir owner_id me select i w = (Inr False, w')"
  shows "files w' = files w"
proof -
  consider "try_claim env dir i owner_id me w = (Inr False, w')"
    | v where "try_claim env dir i owner_id me w = (Inr True, v)"
        "select_claim env from_io dir i select v = (Inr False, w')"
    using assms by (auto simp: attempt_claim_def chain_simps split: if_splits)
  then show ?thesis
  proof cases
    case 1
    then show ?thesis using try_claim_lost by blast
  next
    case 2
    then show ?thesis using try_claim_won[OF 2(1)] select_claim_lost[OF 2(2)] by (simp add: fun_upd_None_same)
  qed
qed

lemma attempt_claim_failed:
  assumes a: "attempt_claim env from_io dir owner_id me select i w = (Inl e, w')"
  shows "files w' = files w \<or> residue_at env dir owner_id me w w'"
proof -
  consider e' where "try_claim env dir i owner_id me w = (Inl e', w')"
    | v where "try_claim env dir i owner_id me w = (Inr True, v)"
        "select_claim env from_io dir i select v = (Inl e, w')"
    using a by (auto simp: attempt_claim_def chain_simps split: if_splits)
  then show ?thesis
  proof cases
    case 1
    then show ?thesis by (rule try_claim_failed)
  next
    case 2
    note won = try_claim_won[OF 2(1)]
    obtain h where "w' = snd (remove_file env dir (show_u8 i) (v\<lparr>host := h\<rparr>))"
      using 2(2) by (auto simp: select_claim_def remove_rejected_claim_def chain_simps
          split: prod.splits sum.splits claim_decision.splits) (metis snd_conv)
    then consider "files w' = (files v)((dir, show_u8 i) := None)"
      | "files w' = files v" "fault env (RemoveFile dir (show_u8 i)) \<noteq> None"
      using remove_file_snd[of env dir "show_u8 i" "v\<lparr>host := h\<rparr>"] by auto
    then show ?thesis
    proof cases
      case 1
      then show ?thesis using won by (simp add: fun_upd_None_same)
    next
      case 2
      then show ?thesis
        using won residue_atI[of w dir i env w' "length (claim_text owner_id me)" owner_id me] by simp
    qed
  qed
qed

lemma claim_walk_claimed:
  "claim_walk env from_io dir owner_id me cap select is w = (Inr (Claimed i), w') \<Longrightarrow>
     i \<in> set is \<and> files w (dir, show_u8 i) = None
     \<and> files w' = (files w)((dir, show_u8 i) \<mapsto> claim_text owner_id me)"
proof (induction "is" arbitrary: w)
  case (Cons j "is")
  consider "i = j" "attempt_claim env from_io dir owner_id me select j w = (Inr True, w')"
    | v where "attempt_claim env from_io dir owner_id me select j w = (Inr False, v)"
        "claim_walk env from_io dir owner_id me cap select is v = (Inr (Claimed i), w')"
    using Cons.prems by (auto simp: chain_simps split: if_splits)
  then show ?case
  proof cases
    case 1
    then show ?thesis using attempt_claim_won by fastforce
  next
    case 2
    then show ?thesis using Cons.IH[OF 2(2)] attempt_claim_lost[OF 2(1)] by simp
  qed
qed simp

lemma claim_walk_other:
  "claim_walk env from_io dir owner_id me cap select is w = (Inr r, w') \<Longrightarrow>
     (\<exists>i. r = Claimed i) \<or> r = PoolFull cap \<and> files w' = files w"
  by (induction "is" arbitrary: w)
    (auto simp: chain_simps split: if_splits dest!: attempt_claim_lost)

lemma claim_walk_failed:
  "claim_walk env from_io dir owner_id me cap select is w = (Inl e, w') \<Longrightarrow>
     files w' = files w \<or> residue_at env dir owner_id me w w'"
proof (induction "is" arbitrary: w)
  case (Cons i "is")
  consider "attempt_claim env from_io dir owner_id me select i w = (Inl e, w')"
    | v where "attempt_claim env from_io dir owner_id me select i w = (Inr False, v)"
        "claim_walk env from_io dir owner_id me cap select is v = (Inl e, w')"
    using Cons.prems by (auto simp: chain_simps split: if_splits)
  then show ?case
  proof cases
    case 1
    then show ?thesis by (rule attempt_claim_failed)
  next
    case 2
    then show ?thesis using Cons.IH[OF 2(2)] attempt_claim_lost[OF 2(1)] by (auto simp: residue_at_def)
  qed
qed simp

lemma set_upto_cap: "i \<in> set (upto_cap cap) \<longleftrightarrow> 0 < i \<and> i \<le> cap"
proof
  assume "i \<in> set (upto_cap cap)"
  then obtain n where n: "i = of_nat n" "1 \<le> n" "n \<le> unat cap" by (auto simp: upto_cap_def)
  moreover have "unat cap < 256" using unsigned_less[of cap, where ?'a = nat] by simp
  ultimately have "unat i = n" by (simp add: unat_of_nat)
  then show "0 < i \<and> i \<le> cap" using n by (simp add: word_le_nat_alt word_less_nat_alt)
next
  assume "0 < i \<and> i \<le> cap"
  then have "1 \<le> unat i" "unat i \<le> unat cap" by (simp_all add: word_le_nat_alt word_less_nat_alt)
  then show "i \<in> set (upto_cap cap)"
    unfolding upto_cap_def set_map by (intro image_eqI[of _ _ "unat i"]) auto
qed

text \<open>The three results of a claim, for every selector and under every fault: a fresh index with this
  claimer's token and nothing else changed; a refusal that changes nothing; an error.\<close>

lemma claim_with_claimed:
  assumes "claim_with env from_io spec select w = (Inr (Claimed i), w')"
  shows "is_id_shaped (cs_owner_id spec) \<and> valid_index (cs_pool spec) i
     \<and> (\<forall>t. cs_target spec = Some t \<longrightarrow> i = t)
     \<and> files w (claim_key (cs_pool spec) i) = None
     \<and> files w' = (files w)(claim_key (cs_pool spec) i \<mapsto> claim_text (cs_owner_id spec) (cs_me spec))"
proof -
  have "\<exists>v. files v = files w \<and> create_dir_all env (dir_name (cs_pool spec)) w = (Inr (), v)"
    using assms by (auto simp: claim_with_def Let_def chain_simps create_dir_all_def split: if_splits sum.splits)
  then show ?thesis
    using assms
    by (auto simp: claim_with_def Let_def chain_simps claim_target_def valid_index_def set_upto_cap
        split: if_splits option.splits sum.splits dest!: attempt_claim_won claim_walk_claimed)
qed

lemma claim_with_refused:
  assumes "claim_with env from_io spec select w = (Inr r, w')" and "\<forall>i. r \<noteq> Claimed i"
  shows "files w' = files w"
  using assms
  by (auto simp: claim_with_def Let_def chain_simps claim_target_def create_dir_all_def
        split: if_splits option.splits sum.splits dest!: attempt_claim_lost claim_walk_other)

lemma claim_with_failed:
  assumes "claim_with env from_io spec select w = (Inl e, w')"
  shows "files w' = files w \<or> is_id_shaped (cs_owner_id spec)
    \<and> residue_at env (dir_name (cs_pool spec)) (cs_owner_id spec) (cs_me spec) w w'"
  using assms
  by (auto simp: claim_with_def Let_def chain_simps claim_target_def create_dir_all_def
      split: if_splits option.splits sum.splits dest!: attempt_claim_failed claim_walk_failed)

lemma accept_all_attempt:
  assumes "attempt_claim env from_io dir owner_id me accept_all i w = (Inr False, w')"
  shows "w' = w \<and> files w (dir, show_u8 i) \<noteq> None"
  using assms
  by (auto simp: attempt_claim_def chain_simps select_claim_def accept_all_def split: if_splits
      dest: try_claim_lost)

lemma accept_all_walk_lowest:
  "claim_walk env from_io dir owner_id me cap accept_all is w = (Inr (Claimed i), w') \<Longrightarrow>
     \<exists>xs ys. is = xs @ i # ys \<and> (\<forall>j \<in> set xs. files w (dir, show_u8 j) \<noteq> None)"
proof (induction "is" arbitrary: w)
  case (Cons j "is")
  consider "i = j"
    | v where "attempt_claim env from_io dir owner_id me accept_all j w = (Inr False, v)"
        "claim_walk env from_io dir owner_id me cap accept_all is v = (Inr (Claimed i), w')"
    using Cons.prems by (auto simp: chain_simps split: if_splits)
  then show ?case
  proof cases
    case 1
    then have "j # is = [] @ i # is" by simp
    then show ?thesis by fastforce
  next
    case 2
    from accept_all_attempt[OF 2(1)] Cons.IH[OF 2(2)]
    obtain xs ys where "is = xs @ i # ys" "\<forall>k \<in> set (j # xs). files w (dir, show_u8 k) \<noteq> None" by auto
    then have "j # is = (j # xs) @ i # ys \<and> (\<forall>k \<in> set (j # xs). files w (dir, show_u8 k) \<noteq> None)" by simp
    then show ?thesis by blast
  qed
qed simp

lemma accept_all_walk_full:
  "claim_walk env from_io dir owner_id me cap accept_all is w = (Inr (PoolFull c), w') \<Longrightarrow>
     \<forall>j \<in> set is. files w (dir, show_u8 j) \<noteq> None"
  by (induction "is" arbitrary: w)
    (fastforce simp: chain_simps split: if_splits dest: accept_all_attempt)+

lemma upto_cap_prefix:
  assumes "upto_cap cap = xs @ i # ys" and "0 < j" and "j < i"
  shows "j \<in> set xs"
proof -
  have i: "i \<in> set (upto_cap cap)" and "j \<in> set (upto_cap cap)"
    using assms set_upto_cap[of i cap] set_upto_cap[of j cap] by auto
  have "sorted_wrt (<) (upto_cap cap)"
    unfolding upto_cap_def sorted_wrt_map
  proof (rule sorted_wrt_mono_rel[where P = "(<)"])
    show "sorted_wrt (<) [1..<Suc (unat cap)]" by (rule sorted_wrt_upt)
  next
    fix a b assume "a \<in> set [1..<Suc (unat cap)]" "b \<in> set [1..<Suc (unat cap)]" "a < b"
    moreover have "unat cap < 256" using unsigned_less[of cap, where ?'a = nat] by simp
    ultimately show "(of_nat a :: u8) < of_nat b" by (auto simp: word_less_nat_alt unat_of_nat)
  qed
  then show ?thesis
    using assms \<open>j \<in> set (upto_cap cap)\<close> by (auto simp: sorted_wrt_append)
qed

text \<open>A claim never takes an index that anything else holds. For every selector and every
  combination of filesystem failures, a granted index is inside the pool, is the requested one when
  one was requested, had no claim file before, and afterwards holds exactly this owner's token, which
  parses back to the owner and the claiming process; no other file of the state base changes.\<close>

theorem claim_grants_fresh_index:
  assumes "claim_with env from_io spec select w = (Inr (Claimed i), w')"
  shows "valid_index (cs_pool spec) i \<and> (\<forall>t. cs_target spec = Some t \<longrightarrow> i = t)
     \<and> files w (claim_key (cs_pool spec) i) = None
     \<and> (\<exists>c. files w' = (files w)(claim_key (cs_pool spec) i \<mapsto> c)
          \<and> parse_claim c = Some \<lparr>ct_owner_id = cs_owner_id spec, ct_pid = cl_pid (cs_me spec),
                                 ct_starttime = cl_starttime (cs_me spec)\<rparr>)"
  using claim_with_claimed[OF assms] parse_claim_text by auto

definition demo_env :: io_env where
  "demo_env = \<lparr>fault = (\<lambda>_. None), short_write = (\<lambda>_. 0), proc_stat = (\<lambda>_. Inl NotFound)\<rparr>"

definition demo_pool :: pool where
  "demo_pool = \<lparr>dir_name = ''slots'', lock_name = ''slots.lock'', max_index = 3, pool_label = ''slot''\<rparr>"

definition demo_owner :: string where
  "demo_owner = ''01234567890123456789abcdef''"

definition demo_me :: claimer where
  "demo_me = \<lparr>cl_pid = 7, cl_starttime = 42\<rparr>"

definition demo_world :: "unit world" where
  "demo_world = \<lparr>dirs = (\<lambda>_. True),
     files = (\<lambda>p. if p = (''slots'', ''1'') then Some ''@reservation'' else None), host = ()\<rparr>"

lemma demo_no_faults [simp]: "no_faults demo_env"
  by (simp add: demo_env_def no_faults_def)

lemma demo_owner_shaped [simp]: "is_id_shaped demo_owner"
  by (simp add: id_shaped_defs demo_owner_def)

lemma show_nat_small [simp]:
  "show_nat 0 = ''0''" "show_nat (Suc 0) = ''1''" "show_nat 1 = ''1''" "show_nat 2 = ''2''" "show_nat 3 = ''3''"
  by (simp_all add: show_nat.simps digit_char_def)

lemma demo_claim:
  "indexed_claim demo_env demo_pool demo_owner demo_me 3 None demo_world =
     (Inr (Claimed 2),
      demo_world\<lparr>files := (files demo_world)((''slots'', ''2'') \<mapsto> claim_text demo_owner demo_me)\<rparr>)"
proof -
  have u: "upto_cap 3 = [1, 2, 3]" by (simp add: upto_cap_def upt_rec)
  show ?thesis
    by (simp add: indexed_claim_def claim_with_def Let_def demo_pool_def u create_dir_all_def lock_frees_def
        attempt_claim_def map_err_def try_claim_def create_new_file_def demo_world_def write_all_def
        select_claim_def accept_all_def fun_upd_idem)
qed

theorem claim_grants_fresh_index_witness:
  "\<exists>w'. indexed_claim demo_env demo_pool demo_owner demo_me 3 None demo_world = (Inr (Claimed 2), w')
      \<and> valid_index demo_pool 2 \<and> files demo_world (claim_key demo_pool 2) = None"
  using demo_claim claim_grants_fresh_index[of demo_env "\<lambda>e. e" _ accept_all demo_world 2] demo_claim
  unfolding indexed_claim_def by fastforce

text \<open>Untargeted claims fill the pool from the bottom and refuse only when it is full: the granted
  index is the lowest one without a claim file and within the caller's cap, and \<open>PoolFull\<close> is returned
  only when every index up to the cap has a claim file.\<close>

theorem claim_takes_lowest_free:
  assumes "indexed_claim env p owner_id me cap None w = (Inr r, w')"
  shows "(case r of
      Claimed i \<Rightarrow> i \<le> cap \<and> (\<forall>j. 0 < j \<and> j < i \<longrightarrow> files w (claim_key p j) \<noteq> None)
    | PoolFull c \<Rightarrow> c = min cap (max_index p) \<and> files w' = files w
        \<and> (\<forall>j. 0 < j \<and> j \<le> c \<longrightarrow> files w (claim_key p j) \<noteq> None)
    | _ \<Rightarrow> False)"
proof -
  let ?cap = "min cap (max_index p)"
  define v where "v = w\<lparr>dirs := (dirs w)(dir_name p := True)\<rparr>"
  have v: "files v = files w" by (simp add: v_def)
  have walk: "claim_walk env (\<lambda>e. e) (dir_name p) owner_id me ?cap accept_all (upto_cap ?cap) v = (Inr r, w')"
    using assms unfolding v_def
    by (auto simp: indexed_claim_def claim_with_def Let_def chain_simps create_dir_all_def
        split: if_splits sum.splits)
  consider i where "r = Claimed i" | "r = PoolFull ?cap" using claim_walk_other[OF walk] by blast
  then show ?thesis
  proof cases
    case (1 i)
    obtain xs ys where x: "upto_cap ?cap = xs @ i # ys" "\<forall>j \<in> set xs. files v (dir_name p, show_u8 j) \<noteq> None"
      using accept_all_walk_lowest walk 1 by blast
    have "i \<le> cap" using set_upto_cap[of i ?cap] x(1) by auto
    then show ?thesis using 1 x upto_cap_prefix[OF x(1)] v by auto
  next
    case 2
    have "\<forall>j \<in> set (upto_cap ?cap). files v (dir_name p, show_u8 j) \<noteq> None"
      using accept_all_walk_full[OF walk[unfolded 2]] .
    moreover have "files w' = files w" using claim_walk_other[OF walk] 2 v by simp
    ultimately show ?thesis using 2 v by (simp add: set_upto_cap)
  qed
qed

theorem claim_takes_lowest_free_witness:
  "\<exists>w'. indexed_claim demo_env demo_pool demo_owner demo_me 3 None demo_world = (Inr (Claimed 2), w')
      \<and> files demo_world (claim_key demo_pool 1) \<noteq> None"
proof -
  have "files demo_world (claim_key demo_pool 1) \<noteq> None"
    using claim_takes_lowest_free[OF demo_claim] by (auto simp: word_less_nat_alt dest: spec[of _ 1])
  then show ?thesis using demo_claim by simp
qed

text \<open>A claim that does not succeed leaves the pool as it was. Refusals change no file; an error changes
  no file either unless the removal of the half-made claim itself failed, and then the only change is a
  prefix of this claimer's token at an index that was free.\<close>

theorem claim_failure_leaves_pool:
  assumes "claim_with env from_io spec select w = (r, w')" and "\<forall>i. r \<noteq> Inr (Claimed i)"
  shows "files w' = files w \<or>
    (\<exists>e i n. r = Inl e \<and> files w (claim_key (cs_pool spec) i) = None
       \<and> fault env (RemoveFile (dir_name (cs_pool spec)) (show_u8 i)) \<noteq> None
       \<and> files w' = (files w)(claim_key (cs_pool spec) i \<mapsto> take n (claim_text (cs_owner_id spec) (cs_me spec))))"
proof (cases r)
  case (Inl e)
  then show ?thesis using claim_with_failed assms(1) by (fastforce simp: residue_at_def)
next
  case (Inr a)
  then show ?thesis using claim_with_refused assms by metis
qed

theorem claim_failure_leaves_pool_witness:
  "files (snd (indexed_claim demo_env demo_pool demo_owner demo_me 3 (Some 1) demo_world)) = files demo_world"
proof -
  have f: "fst (indexed_claim demo_env demo_pool demo_owner demo_me 3 (Some 1) demo_world) = Inr (TargetTaken 1)"
    by (simp add: indexed_claim_def claim_with_def Let_def demo_pool_def create_dir_all_def lock_frees_def
        claim_target_def attempt_claim_def map_err_def try_claim_def create_new_file_def demo_world_def
        valid_index_def word_le_nat_alt)
  let ?spec = "\<lparr>cs_pool = demo_pool, cs_owner_id = demo_owner, cs_me = demo_me, cs_cap = 3, cs_target = Some 1\<rparr>"
  obtain w' where w': "claim_with demo_env (\<lambda>e. e) ?spec accept_all demo_world = (Inr (TargetTaken 1), w')"
    using f unfolding indexed_claim_def by (cases "claim_with demo_env (\<lambda>e. e) ?spec accept_all demo_world") simp
  have "files w' = files demo_world"
    using claim_failure_leaves_pool[OF w'] by blast
  then show ?thesis unfolding indexed_claim_def w' by simp
qed

subsection \<open>What a release does to the pool\<close>

lemma free_with_result:
  assumes "free_with env p i o' cleanup w = (r, w')"
  shows "(case r of
      Inr Removed \<Rightarrow> (\<exists>c. files w (claim_key p i) = Some c \<and> first_line c = Some o')
        \<and> cleanup (host w) = (Inr (), host w') \<and> files w' = (files w)(claim_key p i := None)
    | Inr AlreadyFree \<Rightarrow> files w (claim_key p i) = None \<and> w' = w
    | Inr AlreadyReassigned \<Rightarrow> (\<exists>c. files w (claim_key p i) = Some c \<and> first_line c \<noteq> Some o') \<and> w' = w
    | Inl (ReleaseCleanup d) \<Rightarrow> fst (cleanup (host w)) = Inl d \<and> files w' = files w
    | Inl (ReleaseIo e) \<Rightarrow> files w' = files w)"
  using assms
  by (auto simp: free_with_def read_to_string_def remove_file_def
      split: sum.splits option.splits if_splits prod.splits io_error.splits)

text \<open>Only the recorded owner can release a claim, and only after its cleanup succeeded. \<open>Removed\<close>
  means the first line of the claim named the caller, the cleanup ran and returned success, and that one
  file is gone; a claim that was reassigned or is already free leaves files and host resources untouched
  (the cleanup does not run); on every error, a failing cleanup included, the claim file is kept.\<close>

theorem free_only_by_owner_after_cleanup:
  assumes "free_with env p i o' cleanup w = (r, w')"
  shows "(case r of
      Inr Removed \<Rightarrow> (\<exists>c. files w (claim_key p i) = Some c \<and> first_line c = Some o')
        \<and> cleanup (host w) = (Inr (), host w') \<and> files w' = (files w)(claim_key p i := None)
    | Inr AlreadyFree \<Rightarrow> files w (claim_key p i) = None \<and> w' = w
    | Inr AlreadyReassigned \<Rightarrow> (\<exists>c. files w (claim_key p i) = Some c \<and> first_line c \<noteq> Some o') \<and> w' = w
    | Inl (ReleaseCleanup d) \<Rightarrow> fst (cleanup (host w)) = Inl d \<and> files w' = files w
    | Inl (ReleaseIo e) \<Rightarrow> files w' = files w)"
  by (rule free_with_result[OF assms])

theorem free_only_by_owner_after_cleanup_witness:
  "snd (free_with demo_env demo_pool 1 demo_owner (\<lambda>h. (Inr (), h)) demo_world) = demo_world"
proof -
  have l: "lines ''@reservation'' = [''@reservation'']" by (rule lines_single) simp_all
  have "fst (free_with demo_env demo_pool 1 demo_owner (\<lambda>h. (Inr (), h)) demo_world) = Inr AlreadyReassigned"
    by (simp add: free_with_def lock_frees_def read_to_string_def demo_world_def demo_pool_def first_line_def l
        demo_owner_def)
  then show ?thesis
    using free_only_by_owner_after_cleanup[of demo_env demo_pool 1 demo_owner "\<lambda>h. (Inr (), h)" demo_world
        "Inr AlreadyReassigned" "snd (free_with demo_env demo_pool 1 demo_owner (\<lambda>h. (Inr (), h)) demo_world)"]
    by (auto simp: prod_eq_iff)
qed

subsection \<open>What reconciliation does to the pool\<close>

text \<open>What may be reclaimed: a well-formed claim whose claimer is dead, or malformed text that is not of
  the slot allocator's \<open>@\<close>-grammar.\<close>

definition reclaimable :: "io_env \<Rightarrow> string \<Rightarrow> bool" where
  "reclaimable env c \<longleftrightarrow> (case parse_claim c of
     None \<Rightarrow> \<not> prefix ''@'' c
   | Some t \<Rightarrow> claimer_liveness env (ct_pid t) (ct_starttime t) = Dead)"

lemma discard_effect:
  "files (discard_abandoned_partial env p name c w) = files w \<or>
   parse_claim c = None \<and> files w (dir_name p, name) = Some c
   \<and> files (discard_abandoned_partial env p name c w) = (files w)((dir_name p, name) := None)"
proof (cases "files (discard_abandoned_partial env p name c w) = files w")
  case False
  then have r: "read_to_string env (dir_name p) name w = Inr c" "parse_claim c = None"
    and e: "discard_abandoned_partial env p name c w = snd (remove_file env (dir_name p) name w)"
    by (auto simp: discard_abandoned_partial_def split: sum.splits if_splits)
  show ?thesis
    using False r(2) read_to_string_Inr[OF r(1)] remove_file_snd[of env "dir_name p" name w] e by auto
qed simp

lemma reconcile_dead_effect:
  assumes "reconcile_dead env p d cleanup w = (r, w')"
  shows "files w' = files w \<or>
     files w (dir_name p, dc_name d) = Some (dc_expected d) \<and> fst (cleanup (dc_index d) (dc_owner_id d) w) = Inr RemoveClaim
     \<and> files w' = (files w)((dir_name p, dc_name d) := None)
     \<and> r = Some \<lparr>rec_index = dc_index d, rec_owner_id = dc_owner_id d, rec_removed = True\<rparr>"
  using assms
  by (auto simp: reconcile_dead_def remove_file_def
      split: sum.splits if_splits prod.splits reconcile_action.splits option.splits dest: read_to_string_Inr)

lemma reconcile_observed_effect:
  assumes "reconcile_observed env p name i c cleanup w = (r, w')"
  shows "files w' = files w \<or>
    reclaimable env c \<and> files w (dir_name p, name) = Some c \<and> files w' = (files w)((dir_name p, name) := None)"
proof (cases "parse_claim c")
  case None
  then show ?thesis
    using assms discard_effect[of env p name c w]
    by (auto simp: reconcile_observed_def reclaimable_def split: if_splits)
next
  case (Some t)
  then show ?thesis
    using assms by (auto simp: reconcile_observed_def reclaimable_def split: if_splits dest!: reconcile_dead_effect)
qed

lemma reconcile_entry_keeps:
  assumes "\<And>w. files (interf w) k = files w k" and "files w k = Some c" and "\<not> reclaimable env c"
    and "reconcile_entry env p interf entry cleanup w = (r, w')"
  shows "files w' k = Some c"
proof (cases "r = None \<and> w' = w")
  case False
  then obtain name i c' where o: "reconcile_observed env p name i c' cleanup (interf w) = (r, w')"
    using assms(4) by (auto simp: reconcile_entry_def reconcile_path_def split: sum.splits option.splits)
  show ?thesis using reconcile_observed_effect[OF o] assms(1)[of w] assms(2,3) by auto
qed (use assms(2) in simp)

lemma reconcile_entries_keeps:
  assumes "\<And>w. files (interf w) k = files w k" and "files w k = Some c" and "\<not> reclaimable env c"
  shows "files (snd (reconcile_entries env p interf es cleanup w)) k = Some c"
  using assms(2)
proof (induction es arbitrary: w)
  case (Cons e es)
  obtain r v where e: "reconcile_entry env p interf e cleanup w = (r, v)" by (cases "reconcile_entry env p interf e cleanup w")
  have "files v k = Some c" using reconcile_entry_keeps[OF assms(1) Cons.prems assms(3) e] .
  then show ?case using Cons.IH[of v] e by (auto split: option.splits prod.splits)
qed simp

text \<open>C8. Reconciliation never takes a claim from a live or unverifiable owner. Whatever the directory
  listing, the failures and the cleanup policy, and whatever other processes do to the rest of the state
  base between the observation and the locked re-read, a claim file keeps its contents when its claimer is
  alive, when the claimer's liveness cannot be determined, and when it is a reservation or lease.\<close>

theorem reconcile_keeps_live_claims:
  assumes "\<And>w. files (interf w) (claim_key p i) = files w (claim_key p i)"
    and "files w (claim_key p i) = Some c"
    and "case parse_claim c of
           Some t \<Rightarrow> claimer_liveness env (ct_pid t) (ct_starttime t) \<noteq> Dead
         | None \<Rightarrow> prefix ''@'' c"
  shows "files (snd (indexed_reconcile env p interf read_dir cleanup w)) (claim_key p i) = Some c"
proof -
  have "\<not> reclaimable env c" using assms(3) by (auto simp: reclaimable_def split: option.splits)
  then show ?thesis
    using assms(2) reconcile_entries_keeps[OF assms(1,2)] by (auto simp: indexed_reconcile_def split: sum.splits)
qed

theorem reconcile_keeps_live_claims_witness:
  "files (snd (indexed_reconcile demo_env demo_pool (\<lambda>w. w) (Inr [Inr ''1'', Inr ''x'']) (\<lambda>i o' w. (Inr RemoveClaim, host w))
      demo_world)) (claim_key demo_pool 1) = Some ''@reservation''"
proof -
  have "files demo_world (claim_key demo_pool 1) = Some ''@reservation''"
    by (simp add: demo_world_def demo_pool_def)
  moreover have "parse_claim ''@reservation'' = None" by (simp add: parse_claim_def ends_with_char_def)
  ultimately show ?thesis
    using reconcile_keeps_live_claims[where interf = "\<lambda>w. w" and p = demo_pool and i = 1 and w = demo_world
        and c = "''@reservation''" and env = demo_env]
    by simp
qed

text \<open>Reclaiming is checked against the claim that was observed: a locked removal happens only if the
  file still holds, byte for byte, the contents that were read before the lock, so a claim that was
  released and re-issued in between is never removed, however the world changed meanwhile.\<close>

theorem reconcile_rechecks_under_lock:
  assumes "files w (claim_key p i) = Some observed" and "files (interf w) (claim_key p i) \<noteq> Some observed"
  shows "files (snd (reconcile_path env p interf (show_u8 i) i cleanup w)) =
      (if \<exists>e. read_to_string env (dir_name p) (show_u8 i) w = Inl e then files w else files (interf w))"
proof (cases "read_to_string env (dir_name p) (show_u8 i) w")
  case (Inl e)
  then show ?thesis by (simp add: reconcile_path_def)
next
  case (Inr c)
  then have "c = observed" using read_to_string_Inr[OF Inr] assms(1) by simp
  obtain r w' where o: "reconcile_observed env p (show_u8 i) i c cleanup (interf w) = (r, w')"
    by (cases "reconcile_observed env p (show_u8 i) i c cleanup (interf w)")
  then show ?thesis
    using reconcile_observed_effect[OF o] assms(2) Inr \<open>c = observed\<close> by (simp add: reconcile_path_def)
qed

theorem reconcile_rechecks_under_lock_witness:
  "let re = claim_text demo_owner demo_me;
       w = demo_world\<lparr>files := (files demo_world)((''slots'', ''1'') \<mapsto> ''torn'')\<rparr>;
       interf = (\<lambda>w. w\<lparr>files := (files w)((''slots'', ''1'') \<mapsto> re)\<rparr>)
   in files (snd (reconcile_path demo_env demo_pool interf ''1'' 1 (\<lambda>i o' w. (Inr RemoveClaim, host w)) w))
        (''slots'', ''1'') = Some re"
proof -
  let ?re = "claim_text demo_owner demo_me"
  let ?w = "demo_world\<lparr>files := (files demo_world)((''slots'', ''1'') \<mapsto> ''torn'')\<rparr>"
  let ?f = "\<lambda>w. w\<lparr>files := (files w)((''slots'', ''1'') \<mapsto> ?re)\<rparr>"
  have k: "claim_key demo_pool 1 = (''slots'', ''1'')" by (simp add: demo_pool_def)
  have ne: "?re \<noteq> ''torn''" by (simp add: claim_text_def demo_owner_def)
  have "read_to_string demo_env (dir_name demo_pool) (show_u8 1) ?w = Inr ''torn''"
    by (simp add: demo_pool_def)
  then show ?thesis
    using reconcile_rechecks_under_lock[of ?w demo_pool 1 "''torn''" ?f demo_env "\<lambda>i o' w. (Inr RemoveClaim, host w)"]
    unfolding k using ne by (simp add: Let_def)
qed

subsection \<open>Interleavings of the pool's critical sections\<close>

text \<open>The contract of anything that hands out exclusive holds, for clients that reason about whole histories
  of steps: a grant is of a key that is free or already this holder's, and a hold survives every
  well-formed step but the ones that end it.\<close>

locale exclusive_holder =
  fixes held :: "'w \<Rightarrow> 'i \<Rightarrow> 't option"
    and step :: "'e \<Rightarrow> 'w \<Rightarrow> 'w"
    and ok :: "'e \<Rightarrow> bool"
    and granted :: "'e \<Rightarrow> 'w \<Rightarrow> 'i option"
    and token :: "'e \<Rightarrow> 't"
    and ends :: "'e \<Rightarrow> 'i \<Rightarrow> 't \<Rightarrow> bool"
  assumes granted_free_or_own: "ok e \<Longrightarrow> granted e w = Some i \<Longrightarrow> held w i = None \<or> held w i = Some (token e)"
    and granted_held: "ok e \<Longrightarrow> granted e w = Some i \<Longrightarrow> held (step e w) i = Some (token e)"
    and held_kept: "ok e \<Longrightarrow> held w i = Some t \<Longrightarrow> \<not> ends e i t \<Longrightarrow> held (step e w) i = Some t"
begin

lemma hold_persists:
  "held w i = Some t \<Longrightarrow> \<forall>e \<in> set es. ok e \<and> \<not> ends e i t \<Longrightarrow> held (fold step es w) i = Some t"
  by (induction es arbitrary: w) (auto intro: held_kept)

lemma regrant_needs_end:
  assumes "ok a" and "ok b" and "\<forall>e \<in> set es. ok e"
    and "granted a w = Some i" and "granted b (fold step es (step a w)) = Some i"
  shows "token b = token a \<or> (\<exists>e \<in> set es. ends e i (token a))"
proof (rule disjCI)
  assume "\<not> (\<exists>e \<in> set es. ends e i (token a))"
  then have "held (fold step es (step a w)) i = Some (token a)"
    using hold_persists granted_held[OF assms(1,4)] assms(3) by blast
  then show "token b = token a" using granted_free_or_own[OF assms(2,5)] by simp
qed

end

text \<open>Allocators grant free keys only.\<close>

locale index_allocator = exclusive_holder +
  assumes granted_free: "ok e \<Longrightarrow> granted e w = Some i \<Longrightarrow> held w i = None"
begin

lemma reallocation_needs_end:
  assumes "ok a" and "ok b" and "\<forall>e \<in> set es. ok e"
    and "granted a w = Some i" and "granted b (fold step es (step a w)) = Some i"
  shows "\<exists>e \<in> set es. ends e i (token a)"
proof (rule ccontr)
  assume "\<not> ?thesis"
  then have "held (fold step es (step a w)) i = Some (token a)"
    using hold_persists granted_held[OF assms(1,4)] assms(3) by blast
  then show False using granted_free[OF assms(2,5)] by simp
qed

end

text \<open>One critical section of any process: a claim, a release, or the locked part of reconciling one
  observed entry. Every process has its own environment, so faults differ from step to step.\<close>

datatype ('h, 'e) pool_event =
    PoolClaim io_env "io_error \<Rightarrow> 'e" string claimer u8 "u8 option" "('h, 'e) selector"
  | PoolFree io_env u8 string "'h \<Rightarrow> (string + unit) \<times> 'h"
  | PoolReconcile io_env u8 string "'h reclaimer"

fun pool_claim_of :: "pool \<Rightarrow> ('h, 'e) pool_event \<Rightarrow> 'h world \<Rightarrow> (('e + claim_outcome) \<times> 'h world) option" where
  "pool_claim_of p (PoolClaim env from_io owner_id me cap target select) w =
     Some (claim_with env from_io
       \<lparr>cs_pool = p, cs_owner_id = owner_id, cs_me = me, cs_cap = cap, cs_target = target\<rparr> select w)"
| "pool_claim_of p _ w = None"

fun pool_step :: "pool \<Rightarrow> ('h, 'e) pool_event \<Rightarrow> 'h world \<Rightarrow> 'h world" where
  "pool_step p (PoolClaim env from_io owner_id me cap target select) w =
     snd (the (pool_claim_of p (PoolClaim env from_io owner_id me cap target select) w))"
| "pool_step p (PoolFree env i o' cleanup) w = snd (free_with env p i o' cleanup w)"
| "pool_step p (PoolReconcile env i observed cleanup) w =
     snd (reconcile_observed env p (show_u8 i) i observed cleanup w)"

definition pool_granted :: "pool \<Rightarrow> ('h, 'e) pool_event \<Rightarrow> 'h world \<Rightarrow> u8 option" where
  "pool_granted p e w = (case pool_claim_of p e w of
     Some (Inr (Claimed i), _) \<Rightarrow> Some i | _ \<Rightarrow> None)"

fun pool_token :: "('h, 'e) pool_event \<Rightarrow> claim_token" where
  "pool_token (PoolClaim env from_io owner_id me cap target select) =
     \<lparr>ct_owner_id = owner_id, ct_pid = cl_pid me, ct_starttime = cl_starttime me\<rparr>"
| "pool_token _ = \<lparr>ct_owner_id = [], ct_pid = 0, ct_starttime = 0\<rparr>"

text \<open>A claim ends by a release in its owner's name, or by reconciliation once its claimer is dead.\<close>

fun pool_ends :: "('h, 'e) pool_event \<Rightarrow> u8 \<Rightarrow> claim_token \<Rightarrow> bool" where
  "pool_ends (PoolFree env j o' cleanup) i t \<longleftrightarrow> j = i \<and> o' = ct_owner_id t"
| "pool_ends (PoolReconcile env j observed cleanup) i t \<longleftrightarrow>
     j = i \<and> parse_claim observed = Some t \<and> claimer_liveness env (ct_pid t) (ct_starttime t) = Dead"
| "pool_ends _ i t \<longleftrightarrow> False"

definition held :: "pool \<Rightarrow> 'h world \<Rightarrow> u8 \<Rightarrow> claim_token option" where
  "held p w i = Option.bind (files w (claim_key p i)) parse_claim"

lemma held_free: "files w (claim_key p i) = None \<Longrightarrow> held p w i = None"
  by (simp add: held_def)

lemma pool_granted_cases:
  assumes "pool_granted p e w = Some i"
  obtains env from_io owner_id me cap target select w' where
    "e = PoolClaim env from_io owner_id me cap target select"
    "claim_with env from_io
       \<lparr>cs_pool = p, cs_owner_id = owner_id, cs_me = me, cs_cap = cap, cs_target = target\<rparr> select w = (Inr (Claimed i), w')"
  using assms
  by (cases e) (auto simp: pool_granted_def split: prod.splits sum.splits claim_outcome.splits)

lemma claim_keeps_present:
  assumes "files w k = Some c"
  shows "files (snd (claim_with env from_io spec select w)) k = Some c"
proof -
  obtain r w' where r: "claim_with env from_io spec select w = (r, w')"
    by (cases "claim_with env from_io spec select w")
  then consider e where "r = Inl e" | i where "r = Inr (Claimed i)" | o' where "r = Inr o'" "\<forall>i. o' \<noteq> Claimed i"
    by (metis sum.exhaust)
  then show ?thesis
  proof cases
    case 1
    then show ?thesis using claim_with_failed r assms by (fastforce simp: residue_at_def)
  next
    case 2
    then show ?thesis using claim_with_claimed r assms by (fastforce)
  next
    case 3
    then show ?thesis using claim_with_refused r assms by (metis snd_conv)
  qed
qed

lemma free_keeps_others:
  assumes "files w (claim_key p i) = Some c" and "j \<noteq> i \<or> first_line c \<noteq> Some o'"
  shows "files (snd (free_with env p j o' cleanup w)) (claim_key p i) = Some c"
proof -
  obtain r w' where r: "free_with env p j o' cleanup w = (r, w')" by (cases "free_with env p j o' cleanup w")
  show ?thesis
    using free_with_result[OF r] assms r
    by (auto split: sum.splits free_outcome.splits release_error.splits)
qed

interpretation pool_alloc: index_allocator "held p" "pool_step p" "\<lambda>_. True" "pool_granted p" pool_token pool_ends for p
proof unfold_locales
  fix e :: "('h, 'e) pool_event" and w :: "'h world" and i
  assume g: "pool_granted p e w = Some i"
  then obtain env from_io owner_id me cap target select w' where
    e: "e = PoolClaim env from_io owner_id me cap target select"
    and c: "claim_with env from_io
       \<lparr>cs_pool = p, cs_owner_id = owner_id, cs_me = me, cs_cap = cap, cs_target = target\<rparr> select w = (Inr (Claimed i), w')"
    by (rule pool_granted_cases)
  show free: "held p w i = None" using claim_with_claimed[OF c] by (simp add: held_def)
  then show "held p w i = None \<or> held p w i = Some (pool_token e)" by simp
  show "held p (pool_step p e w) i = Some (pool_token e)"
    using claim_with_claimed[OF c] c by (simp add: e held_def parse_claim_text)
next
  fix w :: "'h world" and i t and e :: "('h, 'e) pool_event"
  assume h: "held p w i = Some t" and n: "\<not> pool_ends e i t"
  then obtain c where c: "files w (claim_key p i) = Some c" "parse_claim c = Some t"
    by (cases "files w (claim_key p i)") (auto simp: held_def)
  have "files (pool_step p e w) (claim_key p i) = Some c"
  proof (cases e)
    case (PoolClaim)
    then show ?thesis using claim_keeps_present[OF c(1)] by simp
  next
    case (PoolFree env j o' cleanup)
    then show ?thesis using free_keeps_others[OF c(1)] n parse_claim_SomeD(2)[OF c(2)] by auto
  next
    case (PoolReconcile env j observed cleanup)
    obtain r w' where r: "reconcile_observed env p (show_u8 j) j observed cleanup w = (r, w')"
      by (cases "reconcile_observed env p (show_u8 j) j observed cleanup w")
    show ?thesis
      using reconcile_observed_effect[OF r] n c r PoolReconcile by (auto simp: reclaimable_def)
  qed
  then show "held p (pool_step p e w) i = Some t" using c(2) by (simp add: held_def)
qed

text \<open>C2. No double allocation. In every interleaving of claims, releases and reconciliations by any number
  of processes, with any failures and any selectors, two grants of the same index are separated by a
  release in the first owner's name or by a reconciliation that found the first claimer dead.\<close>

theorem no_double_allocation:
  fixes a b :: "('h, 'e) pool_event" and es :: "('h, 'e) pool_event list"
  assumes "pool_granted p a w = Some i" and "pool_granted p b (fold (pool_step p) es (pool_step p a w)) = Some i"
  shows "\<exists>e \<in> set es.
     (\<exists>env cleanup. e = PoolFree env i (ct_owner_id (pool_token a)) cleanup) \<or>
     (\<exists>env observed cleanup. e = PoolReconcile env i observed cleanup \<and> parse_claim observed = Some (pool_token a)
        \<and> claimer_liveness env (ct_pid (pool_token a)) (ct_starttime (pool_token a)) = Dead)"
proof -
  obtain e where "e \<in> set es" "pool_ends e i (pool_token a)"
    using pool_alloc.reallocation_needs_end[OF _ _ _ assms] by blast
  then show ?thesis by (intro bexI[of _ e]) (cases e; auto)+
qed

theorem no_double_allocation_witness:
  "let claim = PoolClaim demo_env (\<lambda>e. e) demo_owner demo_me 3 None accept_all :: (unit, io_error) pool_event;
       free = PoolFree demo_env 2 demo_owner (\<lambda>h. (Inr (), h)) :: (unit, io_error) pool_event
   in pool_granted demo_pool claim demo_world = Some 2
      \<and> pool_granted demo_pool claim (fold (pool_step demo_pool) [free] (pool_step demo_pool claim demo_world)) = Some 2
      \<and> (\<exists>e \<in> set [free]. (\<exists>env cleanup. e = PoolFree env 2 (ct_owner_id (pool_token claim)) cleanup) \<or>
           (\<exists>env observed cleanup. e = PoolReconcile env 2 observed cleanup))"
proof -
  let ?claim = "PoolClaim demo_env (\<lambda>e. e) demo_owner demo_me 3 None accept_all :: (unit, io_error) pool_event"
  let ?free = "PoolFree demo_env 2 demo_owner (\<lambda>h. (Inr (), h)) :: (unit, io_error) pool_event"
  let ?w1 = "demo_world\<lparr>files := (files demo_world)((''slots'', ''2'') \<mapsto> claim_text demo_owner demo_me)\<rparr>"
  note demo = demo_claim[unfolded indexed_claim_def]
  have g: "pool_granted demo_pool ?claim demo_world = Some 2" by (simp add: pool_granted_def demo)
  have s: "pool_step demo_pool ?claim demo_world = ?w1" by (simp add: demo)
  have f: "pool_step demo_pool ?free ?w1 = demo_world"
    by (simp add: free_with_def lock_frees_def demo_pool_def first_line_claim_text)
      (simp add: demo_world_def fun_upd_idem)
  have h: "pool_granted demo_pool ?claim (fold (pool_step demo_pool) [?free] (pool_step demo_pool ?claim demo_world)) = Some 2"
    unfolding s fold.simps comp_def id_def f by (rule g)
  show ?thesis
    unfolding Let_def using g h no_double_allocation[OF g h] by blast
qed

text \<open>A claim token is unambiguous and torn writes are never evidence of ownership: the token of an
  id-shaped owner parses back to exactly that owner, pid and start time, and no strict prefix of it, which
  is what a crash or a full disk in the middle of the write leaves, parses at all.\<close>

theorem claim_token_roundtrip_and_torn:
  assumes "is_id_shaped owner_id"
  shows "parse_claim (claim_text owner_id me) =
      Some \<lparr>ct_owner_id = owner_id, ct_pid = cl_pid me, ct_starttime = cl_starttime me\<rparr>
    \<and> (\<forall>n < length (claim_text owner_id me). parse_claim (take n (claim_text owner_id me)) = None)"
  using parse_claim_text[OF assms] torn_claim_not_parsed[OF assms] by blast

theorem claim_token_roundtrip_and_torn_witness:
  "parse_claim (claim_text demo_owner demo_me) =
     Some \<lparr>ct_owner_id = demo_owner, ct_pid = 7, ct_starttime = 42\<rparr>
   \<and> parse_claim (take 30 (claim_text demo_owner demo_me)) = None"
proof -
  have "30 < length (claim_text demo_owner demo_me)"
  proof -
    have "length (show_nat 7) \<ge> 1" "length (show_nat 42) \<ge> 2"
      by (simp_all add: show_nat.simps)
    then show ?thesis by (simp add: claim_text_def demo_owner_def demo_me_def)
  qed
  then show ?thesis
    using claim_token_roundtrip_and_torn[OF demo_owner_shaped, of demo_me] by (simp add: demo_me_def)
qed

subsection \<open>Atomic rewriting of a claim\<close>

lemma tmp_name_not_index [simp]: "tmp_name i \<noteq> show_u8 j" "show_u8 j \<noteq> tmp_name i"
proof -
  have "\<not> is_ascii_digit (CHR ''.'')" by (simp add: is_ascii_digit_def)
  then have "CHR ''.'' \<notin> set (show_u8 j)" using show_nat_digits[of "unat j"] by metis
  moreover have "CHR ''.'' \<in> set (tmp_name i)" by (simp add: tmp_name_def)
  ultimately show "tmp_name i \<noteq> show_u8 j" "show_u8 j \<noteq> tmp_name i" by metis+
qed

lemma rewrite_atomic_effect:
  assumes "rewrite_atomic env dir i body w = (r, w')"
  shows "host w' = host w \<and> dirs w' = dirs w
     \<and> (\<forall>k. k \<noteq> (dir, tmp_name i) \<and> k \<noteq> (dir, show_u8 i) \<longrightarrow> files w' k = files w k)
     \<and> (files w' (dir, show_u8 i) = files w (dir, show_u8 i) \<and> r \<noteq> Inr () \<or> files w' (dir, show_u8 i) = Some body)"
  using assms
  by (auto simp: rewrite_atomic_def fs_defs and_then_def sync_dir_def split: if_splits sum.splits option.splits)

lemma rewrite_atomic_total:
  assumes "no_faults env" and "dirs w dir"
  shows "\<exists>w'. rewrite_atomic env dir i body w = (Inr (), w') \<and> files w' (dir, show_u8 i) = Some body"
  using assms by (auto simp: rewrite_atomic_def fs_defs and_then_def sync_dir_def split: if_splits sum.splits option.splits)

end
