(* ===== verification/Slot.thy ===== *)
theory Slot
  imports Indexed_Claim
begin

text \<open>
  \<open>src/src/slot.rs\<close>: the per-room network slots. A slot file holds one of four tokens: an ordinary
  claim, a snapshot's reservation, a reservation leased by one restored room, or a reservation leased
  by a bounded, sorted set of namespace-isolated clones. The operations move a file between them under
  the pool's lock. \<open>slot_state\<close> is the abstract machine; the lemmas show that every operation is one of
  its transitions, under every combination of failures.
\<close>

subsection \<open>Constants and data\<close>

definition SLOTS_DIR :: string where "SLOTS_DIR = ''slots''"
definition FREE_LOCK :: string where "FREE_LOCK = ''slots.lock''"
definition MAX_SLOT :: u8 where "MAX_SLOT = 63"
definition DEFAULT_MAX_POOL :: u8 where "DEFAULT_MAX_POOL = 8"
definition MAX_CLONE_LEASES :: nat where "MAX_CLONE_LEASES = 8"

definition SLOT_POOL :: pool where
  "SLOT_POOL = \<lparr>dir_name = SLOTS_DIR, lock_name = FREE_LOCK, max_index = MAX_SLOT, pool_label = ''slot''\<rparr>"

datatype slot_error =
    SlotPoolFull u8
  | SlotInvalidIndex u8 u8
  | SlotTargetTaken u8
  | SlotNotReserved u8
  | SlotLeaseHeld u8
  | SlotCleanup string
  | SlotIo io_error

datatype freed = FreedRemoved | FreedAlreadyFree | FreedAlreadyReassigned

datatype reserved = Transferred | AlreadyReserved | ReserveNotOwned

datatype released = Returned | AlreadyReturned | NotOurLease

datatype slot_token =
    InProgress
  | TokClaimed string u32 u64
  | TokReserved string
  | TokLeased string string
  | TokCloneLeases string "string list"

subsection \<open>Tokens\<close>

definition reservation_token :: "string \<Rightarrow> string" where
  "reservation_token snapshot_id = ''@reservation '' @ snapshot_id @ [newline]"

definition lease_token :: "string \<Rightarrow> string \<Rightarrow> string" where
  "lease_token snapshot_id lessee_room_id = ''@lease '' @ snapshot_id @ [space] @ lessee_room_id @ [newline]"

definition clone_leases_token :: "string \<Rightarrow> string list \<Rightarrow> string" where
  "clone_leases_token snapshot_id lessees =
     ''@clone-leases '' @ snapshot_id @ [space] @ join_with space lessees @ [newline]"

definition parse_lease :: "string \<Rightarrow> slot_token" where
  "parse_lease rest = (case split_on space rest of
     [snapshot_id, lessee] \<Rightarrow>
       if \<not> is_id_shaped snapshot_id \<or> \<not> is_id_shaped lessee then InProgress
       else TokLeased snapshot_id lessee
   | _ \<Rightarrow> InProgress)"

fun lessees_canonical :: "string option \<Rightarrow> string list \<Rightarrow> bool" where
  "lessees_canonical previous [] \<longleftrightarrow> True"
| "lessees_canonical previous (lessee # rest) \<longleftrightarrow>
     is_id_shaped lessee \<and> (case previous of None \<Rightarrow> True | Some prior \<Rightarrow> \<not> prior \<ge> lessee)
     \<and> lessees_canonical (Some lessee) rest"

definition parse_clone_leases :: "string \<Rightarrow> slot_token" where
  "parse_clone_leases rest = (case split_on space rest of
     [] \<Rightarrow> InProgress
   | snapshot_id # lessees \<Rightarrow>
       if \<not> is_id_shaped snapshot_id then InProgress
       else if lessees = [] \<or> length lessees > MAX_CLONE_LEASES then InProgress
       else if \<not> lessees_canonical None lessees then InProgress
       else TokCloneLeases snapshot_id lessees)"

definition parse_token :: "string \<Rightarrow> slot_token" where
  "parse_token contents =
     (if \<not> ends_with_char newline contents then InProgress
      else case lines contents of
        [] \<Rightarrow> InProgress
      | first # rest_lines \<Rightarrow>
          (case strip_prefix ''@reservation '' first of
             Some rest \<Rightarrow> if \<not> is_id_shaped rest \<or> rest_lines \<noteq> [] then InProgress else TokReserved rest
           | None \<Rightarrow>
          (case strip_prefix ''@lease '' first of
             Some rest \<Rightarrow> if rest_lines \<noteq> [] then InProgress else parse_lease rest
           | None \<Rightarrow>
          (case strip_prefix ''@clone-leases '' first of
             Some rest \<Rightarrow> if rest_lines \<noteq> [] then InProgress else parse_clone_leases rest
           | None \<Rightarrow>
          (case parse_claim contents of
             None \<Rightarrow> InProgress
           | Some claim \<Rightarrow> TokClaimed (ct_owner_id claim) (ct_pid claim) (ct_starttime claim))))))"

subsection \<open>Claim and release\<close>

definition ensure_pool_index :: "u8 \<Rightarrow> slot_error + unit" where
  "ensure_pool_index index =
     (if index = 0 \<or> index > MAX_SLOT then Inl (SlotInvalidIndex index MAX_SLOT) else Inr ())"

definition slot_lock_frees :: "io_env \<Rightarrow> slot_error + unit" where
  "slot_lock_frees env = (case lock_frees env SLOT_POOL of Inl e \<Rightarrow> Inl (SlotIo e) | Inr u \<Rightarrow> Inr u)"

definition derive :: "u8 \<Rightarrow> slot" where
  "derive index =
     (let base = 4 * index in
      \<lparr>slot_index = index, slot_tap = ''tap-fc'' @ show_u8 index,
       slot_gateway = (172, 16, 0, base + 1), slot_guest = (172, 16, 0, base + 2), slot_prefix = 30\<rparr>)"

definition slot_claim ::
  "io_env \<Rightarrow> string \<Rightarrow> claimer \<Rightarrow> u8 \<Rightarrow> u8 option \<Rightarrow> 'h world \<Rightarrow> (slot_error + slot) \<times> 'h world" where
  "slot_claim env room_id me cap target w =
     (case indexed_claim env SLOT_POOL room_id me cap target w of
        (Inl e, w) \<Rightarrow> (Inl (SlotIo e), w)
      | (Inr (Claimed index), w) \<Rightarrow> (Inr (derive index), w)
      | (Inr (PoolFull cap), w) \<Rightarrow> (Inl (SlotPoolFull cap), w)
      | (Inr (InvalidIndex index mx), w) \<Rightarrow> (Inl (SlotInvalidIndex index mx), w)
      | (Inr (TargetTaken index), w) \<Rightarrow> (Inl (SlotTargetTaken index), w))"

definition free_with_cleanup ::
  "io_env \<Rightarrow> u8 \<Rightarrow> string \<Rightarrow> ('h \<Rightarrow> (string + unit) \<times> 'h) \<Rightarrow> 'h world
     \<Rightarrow> (slot_error + freed) \<times> 'h world" where
  "free_with_cleanup env index expected_room_id cleanup w =
     (case ensure_pool_index index of
        Inl e \<Rightarrow> (Inl e, w)
      | Inr _ \<Rightarrow>
          (case free_with env SLOT_POOL index expected_room_id cleanup w of
             (Inl (ReleaseIo e), w) \<Rightarrow> (Inl (SlotIo e), w)
           | (Inl (ReleaseCleanup detail), w) \<Rightarrow> (Inl (SlotCleanup detail), w)
           | (Inr Removed, w) \<Rightarrow> (Inr FreedRemoved, w)
           | (Inr AlreadyFree, w) \<Rightarrow> (Inr FreedAlreadyFree, w)
           | (Inr AlreadyReassigned, w) \<Rightarrow> (Inr FreedAlreadyReassigned, w)))"

definition slot_free :: "io_env \<Rightarrow> u8 \<Rightarrow> string \<Rightarrow> 'h world \<Rightarrow> (slot_error + freed) \<times> 'h world" where
  "slot_free env index expected_room_id w = free_with_cleanup env index expected_room_id (\<lambda>h. (Inr (), h)) w"

definition cleanup_if_unclaimed ::
  "io_env \<Rightarrow> u8 \<Rightarrow> ('h \<Rightarrow> (string + unit) \<times> 'h) \<Rightarrow> 'h world \<Rightarrow> (slot_error + bool) \<times> 'h world" where
  "cleanup_if_unclaimed env index cleanup w =
     (case ensure_pool_index index of
        Inl e \<Rightarrow> (Inl e, w)
      | Inr _ \<Rightarrow>
          (case slot_lock_frees env of
             Inl e \<Rightarrow> (Inl e, w)
           | Inr _ \<Rightarrow>
               (case check_fault env (SymlinkMetadata SLOTS_DIR (show_u8 index)) of
                  Inl e \<Rightarrow> (Inl (SlotIo e), w)
                | Inr _ \<Rightarrow>
                    if files w (SLOTS_DIR, show_u8 index) \<noteq> None then (Inr False, w)
                    else (case cleanup (host w) of
                        (Inl detail, h) \<Rightarrow> (Inl (SlotCleanup detail), w\<lparr>host := h\<rparr>)
                      | (Inr _, h) \<Rightarrow> (Inr True, w\<lparr>host := h\<rparr>)))))"

text \<open>The opening every other operation shares: check the index, take the lock, read the slot file
  (\<open>None\<close> when there is none).\<close>

definition locked_slot :: "io_env \<Rightarrow> u8 \<Rightarrow> 'h world \<Rightarrow> slot_error + string option" where
  "locked_slot env index w =
     (case ensure_pool_index index of
        Inl e \<Rightarrow> Inl e
      | Inr _ \<Rightarrow>
          (case slot_lock_frees env of
             Inl e \<Rightarrow> Inl e
           | Inr _ \<Rightarrow>
               (case read_to_string env SLOTS_DIR (show_u8 index) w of
                  Inr contents \<Rightarrow> Inr (Some contents)
                | Inl NotFound \<Rightarrow> Inr None
                | Inl e \<Rightarrow> Inl (SlotIo e))))"

definition claimed_by :: "io_env \<Rightarrow> u8 \<Rightarrow> string \<Rightarrow> 'h world \<Rightarrow> slot_error + bool" where
  "claimed_by env index room_id w = (case locked_slot env index w of
     Inl e \<Rightarrow> Inl e
   | Inr None \<Rightarrow> Inr False
   | Inr (Some contents) \<Rightarrow> Inr (case parse_token contents of
        TokClaimed owner _ _ \<Rightarrow> owner = room_id | _ \<Rightarrow> False))"

definition leased_by :: "io_env \<Rightarrow> u8 \<Rightarrow> string \<Rightarrow> string \<Rightarrow> 'h world \<Rightarrow> slot_error + bool" where
  "leased_by env index snapshot_id room_id w = (case locked_slot env index w of
     Inl e \<Rightarrow> Inl e
   | Inr None \<Rightarrow> Inr False
   | Inr (Some contents) \<Rightarrow> Inr (case parse_token contents of
        TokLeased owner lessee \<Rightarrow> owner = snapshot_id \<and> lessee = room_id
      | TokCloneLeases owner lessees \<Rightarrow>
          owner = snapshot_id \<and> (case binary_search lessees room_id of Inr _ \<Rightarrow> True | Inl _ \<Rightarrow> False)
      | _ \<Rightarrow> False))"

definition rewrite_slot_atomic :: "io_env \<Rightarrow> u8 \<Rightarrow> string \<Rightarrow> 'h world \<Rightarrow> (slot_error + unit) \<times> 'h world" where
  "rewrite_slot_atomic env index body w = map_err SlotIo (rewrite_atomic env SLOTS_DIR index body w)"

definition slot_sync_dir :: "io_env \<Rightarrow> slot_error + unit" where
  "slot_sync_dir env = (case sync_dir env SLOTS_DIR of Inl e \<Rightarrow> Inl (SlotIo e) | Inr u \<Rightarrow> Inr u)"

subsection \<open>Reservations and leases\<close>

definition reserve ::
  "io_env \<Rightarrow> u8 \<Rightarrow> string \<Rightarrow> string \<Rightarrow> 'h world \<Rightarrow> (slot_error + reserved) \<times> 'h world" where
  "reserve env index snapshot_id expected_room_id w = (case locked_slot env index w of
     Inl e \<Rightarrow> (Inl e, w)
   | Inr None \<Rightarrow> (Inr ReserveNotOwned, w)
   | Inr (Some contents) \<Rightarrow>
       if parse_token contents = TokReserved snapshot_id then
         and_then (slot_sync_dir env, w) (\<lambda>_ w. (Inr AlreadyReserved, w))
       else if first_line contents \<noteq> Some expected_room_id then (Inr ReserveNotOwned, w)
       else and_then (rewrite_slot_atomic env index (reservation_token snapshot_id) w)
              (\<lambda>_ w. (Inr Transferred, w)))"

definition lease ::
  "io_env \<Rightarrow> u8 \<Rightarrow> string \<Rightarrow> string \<Rightarrow> 'h world \<Rightarrow> (slot_error + slot) \<times> 'h world" where
  "lease env index snapshot_id lessee_room_id w = (case locked_slot env index w of
     Inl e \<Rightarrow> (Inl e, w)
   | Inr None \<Rightarrow> (Inl (SlotNotReserved index), w)
   | Inr (Some contents) \<Rightarrow>
       (case parse_token contents of
          TokReserved owner \<Rightarrow>
            if owner = snapshot_id then
              and_then (rewrite_slot_atomic env index (lease_token snapshot_id lessee_room_id) w)
                (\<lambda>_ w. (Inr (derive index), w))
            else (Inl (SlotNotReserved index), w)
        | TokLeased owner lessee \<Rightarrow>
            if owner = snapshot_id \<and> lessee = lessee_room_id then
              and_then (slot_sync_dir env, w) (\<lambda>_ w. (Inr (derive index), w))
            else if owner = snapshot_id then (Inl (SlotLeaseHeld index), w)
            else (Inl (SlotNotReserved index), w)
        | TokCloneLeases owner _ \<Rightarrow>
            if owner = snapshot_id then (Inl (SlotLeaseHeld index), w)
            else (Inl (SlotNotReserved index), w)
        | _ \<Rightarrow> (Inl (SlotNotReserved index), w)))"

definition lease_clone ::
  "io_env \<Rightarrow> u8 \<Rightarrow> string \<Rightarrow> string \<Rightarrow> 'h world \<Rightarrow> (slot_error + slot) \<times> 'h world" where
  "lease_clone env index snapshot_id lessee_room_id w =
     (case ensure_pool_index index of
        Inl e \<Rightarrow> (Inl e, w)
      | Inr _ \<Rightarrow>
     if \<not> is_id_shaped snapshot_id \<or> \<not> is_id_shaped lessee_room_id then (Inl (SlotNotReserved index), w)
     else (case locked_slot env index w of
     Inl e \<Rightarrow> (Inl e, w)
   | Inr None \<Rightarrow> (Inl (SlotNotReserved index), w)
   | Inr (Some contents) \<Rightarrow>
       (case parse_token contents of
          TokReserved owner \<Rightarrow>
            if owner = snapshot_id then
              and_then (rewrite_slot_atomic env index (clone_leases_token snapshot_id [lessee_room_id]) w)
                (\<lambda>_ w. (Inr (derive index), w))
            else (Inl (SlotNotReserved index), w)
        | TokCloneLeases owner lessees \<Rightarrow>
            if owner = snapshot_id then
              (case binary_search lessees lessee_room_id of
                 Inr _ \<Rightarrow> and_then (slot_sync_dir env, w) (\<lambda>_ w. (Inr (derive index), w))
               | Inl position \<Rightarrow>
                   if length lessees = MAX_CLONE_LEASES then (Inl (SlotLeaseHeld index), w)
                   else and_then
                     (rewrite_slot_atomic env index
                       (clone_leases_token snapshot_id (insert_at position lessee_room_id lessees)) w)
                     (\<lambda>_ w. (Inr (derive index), w)))
            else (Inl (SlotNotReserved index), w)
        | TokLeased owner _ \<Rightarrow>
            if owner = snapshot_id then (Inl (SlotLeaseHeld index), w)
            else (Inl (SlotNotReserved index), w)
        | _ \<Rightarrow> (Inl (SlotNotReserved index), w))))"

definition clone_token_after_release :: "string \<Rightarrow> string list \<Rightarrow> string \<Rightarrow> string option" where
  "clone_token_after_release snapshot_id lessees room_id =
     (case binary_search lessees room_id of
        Inl _ \<Rightarrow> None
      | Inr position \<Rightarrow>
          let lessees = remove_at position lessees in
          if lessees = [] then Some (reservation_token snapshot_id)
          else Some (clone_leases_token snapshot_id lessees))"

record lease_hold =
  lh_index :: u8
  lh_post_cleanup_token :: string

definition return_to_reservation :: "io_env \<Rightarrow> lease_hold \<Rightarrow> 'h world \<Rightarrow> (slot_error + released) \<times> 'h world" where
  "return_to_reservation env hold w =
     and_then (rewrite_slot_atomic env (lh_index hold) (lh_post_cleanup_token hold) w)
       (\<lambda>_ w. (Inr Returned, w))"

definition hold_lease_for_teardown ::
  "io_env \<Rightarrow> u8 \<Rightarrow> string \<Rightarrow> string \<Rightarrow> 'h world \<Rightarrow> slot_error + lease_hold option" where
  "hold_lease_for_teardown env index snapshot_id room_id w = (case locked_slot env index w of
     Inl e \<Rightarrow> Inl e
   | Inr None \<Rightarrow> Inr None
   | Inr (Some contents) \<Rightarrow>
       (case parse_token contents of
          TokLeased owner lessee \<Rightarrow>
            if owner = snapshot_id \<and> lessee = room_id then
              Inr (Some \<lparr>lh_index = index, lh_post_cleanup_token = reservation_token snapshot_id\<rparr>)
            else Inr None
        | TokCloneLeases owner lessees \<Rightarrow>
            if owner = snapshot_id then
              (case clone_token_after_release snapshot_id lessees room_id of
                 None \<Rightarrow> Inr None
               | Some post \<Rightarrow> Inr (Some \<lparr>lh_index = index, lh_post_cleanup_token = post\<rparr>))
            else Inr None
        | _ \<Rightarrow> Inr None))"

definition release_lease ::
  "io_env \<Rightarrow> u8 \<Rightarrow> string \<Rightarrow> string \<Rightarrow> 'h world \<Rightarrow> (slot_error + released) \<times> 'h world" where
  "release_lease env index snapshot_id lessee_room_id w = (case locked_slot env index w of
     Inl e \<Rightarrow> (Inl e, w)
   | Inr None \<Rightarrow> (Inr NotOurLease, w)
   | Inr (Some contents) \<Rightarrow>
       (case parse_token contents of
          TokLeased owner lessee \<Rightarrow>
            if owner = snapshot_id \<and> lessee = lessee_room_id then
              and_then (rewrite_slot_atomic env index (reservation_token snapshot_id) w)
                (\<lambda>_ w. (Inr Returned, w))
            else (Inr NotOurLease, w)
        | TokCloneLeases owner lessees \<Rightarrow>
            if owner = snapshot_id then
              (case clone_token_after_release snapshot_id lessees lessee_room_id of
                 None \<Rightarrow> (Inr NotOurLease, w)
               | Some post \<Rightarrow> and_then (rewrite_slot_atomic env index post w) (\<lambda>_ w. (Inr Returned, w)))
            else (Inr NotOurLease, w)
        | TokReserved owner \<Rightarrow>
            if owner = snapshot_id then and_then (slot_sync_dir env, w) (\<lambda>_ w. (Inr AlreadyReturned, w))
            else (Inr NotOurLease, w)
        | _ \<Rightarrow> (Inr NotOurLease, w)))"

subsection \<open>Reconciliation\<close>

text \<open>The policy \<open>reconcile\<close> passes to the shared reconciler: a dead claimer's slot stays when the room's
  directory exists; otherwise it goes once the cleanup succeeded.\<close>

definition slot_reclaimer :: "(u8 \<Rightarrow> 'h \<Rightarrow> (string + unit) \<times> 'h) \<Rightarrow> 'h reclaimer" where
  "slot_reclaimer cleanup index room_id w =
     (if dirs w room_id then (Inr KeepClaim, host w)
      else (case cleanup index (host w) of
          (Inl e, h) \<Rightarrow> (Inl e, h) | (Inr _, h) \<Rightarrow> (Inr RemoveClaim, h)))"

definition slot_reconcile ::
  "io_env \<Rightarrow> ('h world \<Rightarrow> 'h world) \<Rightarrow> io_error + (io_error + string) list
     \<Rightarrow> (u8 \<Rightarrow> 'h \<Rightarrow> (string + unit) \<times> 'h) \<Rightarrow> 'h world \<Rightarrow> reclaimed list \<times> 'h world" where
  "slot_reconcile env interf read_dir cleanup w =
     indexed_reconcile env SLOT_POOL interf read_dir (slot_reclaimer cleanup) w"

subsection \<open>The token codec\<close>

definition canonical_lessees :: "string list \<Rightarrow> bool" where
  "canonical_lessees ls \<longleftrightarrow> ls \<noteq> [] \<and> length ls \<le> MAX_CLONE_LEASES \<and> list_all is_id_shaped ls \<and> sorted_wrt (<) ls"

lemma lessees_canonical_iff:
  "lessees_canonical prev ls \<longleftrightarrow> list_all is_id_shaped ls \<and> sorted_wrt (<) (case prev of None \<Rightarrow> ls | Some p \<Rightarrow> p # ls)"
proof (induction ls arbitrary: prev)
  case (Cons l ls)
  then show ?case by (cases prev) (auto simp: not_le intro: less_trans)
qed (auto split: option.splits)

lemma parse_clone_leases_Some:
  "parse_clone_leases (s @ space # join_with space ls) = TokCloneLeases s ls"
  if "is_id_shaped s" "canonical_lessees ls"
proof -
  have "\<forall>l \<in> set (s # ls). space \<notin> set l" using that by (auto simp: canonical_lessees_def list_all_iff)
  then have "split_on space (join_with space (s # ls)) = s # ls" by (intro split_on_join) auto
  moreover have "join_with space (s # ls) = s @ space # join_with space ls"
    using that(2) by (cases ls) (auto simp: canonical_lessees_def)
  ultimately show ?thesis
    using that by (auto simp: parse_clone_leases_def canonical_lessees_def lessees_canonical_iff)
qed

text \<open>A one-line token.\<close>

lemma lines_one_line:
  assumes "newline \<notin> set l" and "carriage_return \<notin> set l"
  shows "lines (l @ [newline]) = [l]"
  using assms lines_Cons[of l "[]"] by (simp add: strip_cr_id)

lemma parse_reservation_token:
  assumes "is_id_shaped s"
  shows "parse_token (reservation_token s) = TokReserved s"
proof -
  have "lines (reservation_token s) = [''@reservation '' @ s]"
    using assms lines_one_line[of "''@reservation '' @ s"] by (simp add: reservation_token_def)
  then show ?thesis
    using assms strip_prefix_append[of "''@reservation ''" s]
    by (simp add: parse_token_def reservation_token_def ends_with_char_def del: append_Cons append.simps)
qed

lemma parse_lease_token:
  assumes "is_id_shaped s" and "is_id_shaped r"
  shows "parse_token (lease_token s r) = TokLeased s r"
proof -
  let ?rest = "s @ space # r"
  have l: "lines (lease_token s r) = [''@lease '' @ ?rest]"
    using assms lines_one_line[of "''@lease '' @ ?rest"] by (simp add: lease_token_def)
  have p: "parse_lease ?rest = TokLeased s r"
    using assms split_on_Cons[of space s r] split_on_atom[of space r] by (simp add: parse_lease_def)
  have n: "strip_prefix ''@reservation '' (''@lease '' @ ?rest) = None" by (simp add: strip_prefix_def)
  have e: "ends_with_char newline (lease_token s r)" by (simp add: lease_token_def ends_with_char_def)
  show ?thesis
    unfolding parse_token_def l using n p e strip_prefix_append[of "''@lease ''" ?rest] by simp
qed

lemma parse_clone_leases_token:
  assumes "is_id_shaped s" and "canonical_lessees ls"
  shows "parse_token (clone_leases_token s ls) = TokCloneLeases s ls"
proof -
  let ?rest = "s @ space # join_with space ls"
  have "set (join_with space ls) \<subseteq> insert space (\<Union> (set ` set ls))" by (rule set_join_with)
  then have nl: "newline \<notin> set (join_with space ls)" "carriage_return \<notin> set (join_with space ls)"
    using assms(2) by (auto simp: canonical_lessees_def list_all_iff)
  have l: "lines (clone_leases_token s ls) = [''@clone-leases '' @ ?rest]"
    using assms(1) nl lines_one_line[of "''@clone-leases '' @ ?rest"] by (simp add: clone_leases_token_def)
  have n: "strip_prefix ''@reservation '' (''@clone-leases '' @ ?rest) = None"
    "strip_prefix ''@lease '' (''@clone-leases '' @ ?rest) = None"
    by (simp_all add: strip_prefix_def)
  have e: "ends_with_char newline (clone_leases_token s ls)"
    by (simp add: clone_leases_token_def ends_with_char_def)
  show ?thesis
    unfolding parse_token_def l
    using n e parse_clone_leases_Some[OF assms] strip_prefix_append[of "''@clone-leases ''" ?rest] by simp
qed

lemma strip_prefix_at: "\<not> prefix ''@'' s \<Longrightarrow> strip_prefix (CHR ''@'' # p) s = None"
  by (auto simp: strip_prefix_def prefix_def)

lemma id_shaped_not_at: "is_id_shaped r \<Longrightarrow> \<not> prefix ''@'' r"
  by (auto simp: prefix_def dest: id_shaped_no_at)

lemma parse_token_no_at:
  assumes "first_line c = Some l" and "\<not> prefix ''@'' l"
  shows "parse_token c = (case parse_claim c of
     None \<Rightarrow> InProgress | Some t \<Rightarrow> TokClaimed (ct_owner_id t) (ct_pid t) (ct_starttime t))"
proof -
  obtain ls where "lines c = l # ls" using assms(1) by (auto simp: first_line_def split: list.splits)
  then show ?thesis
    using assms(2) by (auto simp: parse_token_def strip_prefix_at parse_claim_def split: option.splits)
qed

lemma parse_token_claimed:
  "parse_token c = TokClaimed r p st \<longleftrightarrow> parse_claim c = Some \<lparr>ct_owner_id = r, ct_pid = p, ct_starttime = st\<rparr>"
proof
  assume "parse_token c = TokClaimed r p st"
  then show "parse_claim c = Some \<lparr>ct_owner_id = r, ct_pid = p, ct_starttime = st\<rparr>"
    by (auto simp: parse_token_def parse_lease_def parse_clone_leases_def Let_def
        split: if_splits list.splits option.splits)
next
  assume a: "parse_claim c = Some \<lparr>ct_owner_id = r, ct_pid = p, ct_starttime = st\<rparr>"
  then show "parse_token c = TokClaimed r p st"
    using parse_token_no_at[OF parse_claim_SomeD(2)[OF a]] id_shaped_not_at[OF parse_claim_SomeD(1)[OF a]] by simp
qed

lemma parse_token_clone_canonical:
  "parse_token c = TokCloneLeases s ls \<Longrightarrow> is_id_shaped s \<and> canonical_lessees ls"
  by (auto simp: parse_token_def parse_lease_def parse_clone_leases_def canonical_lessees_def
      lessees_canonical_iff not_less split: if_splits list.splits option.splits)

lemma parse_token_shapes:
  "parse_token c = TokReserved s \<Longrightarrow> is_id_shaped s"
  "parse_token c = TokLeased s r \<Longrightarrow> is_id_shaped s \<and> is_id_shaped r"
  by (auto simp: parse_token_def parse_lease_def parse_clone_leases_def
      split: if_splits list.splits option.splits)

text \<open>A file of the reservation grammar has a first line that starts with \<open>@\<close>, so it names no room.\<close>

lemma parse_token_id_first_line:
  assumes "first_line c = Some r" and "is_id_shaped r"
  shows "parse_token c = InProgress \<or> (\<exists>p st. parse_token c = TokClaimed r p st)"
proof (cases "parse_claim c")
  case None
  then show ?thesis using parse_token_no_at[OF assms(1) id_shaped_not_at[OF assms(2)]] by simp
next
  case (Some t)
  then have "ct_owner_id t = r" using parse_claim_SomeD(2) assms(1) by fastforce
  then show ?thesis using Some parse_token_no_at[OF assms(1) id_shaped_not_at[OF assms(2)]] by simp
qed

text \<open>The four slot tokens never read as one another: the printers of reservations, leases, clone lease
  sets and claims, applied to id-shaped ids (and a non-empty, strictly sorted set of at most eight
  lessees), are inverted by the one parser that every operation uses.\<close>

theorem slot_token_roundtrip:
  assumes "is_id_shaped s" and "is_id_shaped r"
    and "ls \<noteq> []" and "length ls \<le> MAX_CLONE_LEASES" and "list_all is_id_shaped ls" and "sorted_wrt (<) ls"
  shows "parse_token (reservation_token s) = TokReserved s
    \<and> parse_token (lease_token s r) = TokLeased s r
    \<and> parse_token (clone_leases_token s ls) = TokCloneLeases s ls
    \<and> parse_token (claim_text r me) = TokClaimed r (cl_pid me) (cl_starttime me)"
  using assms
  by (simp add: parse_reservation_token parse_lease_token parse_clone_leases_token canonical_lessees_def
      parse_token_claimed parse_claim_text)

theorem slot_token_roundtrip_witness:
  "parse_token (clone_leases_token demo_owner [demo_owner]) = TokCloneLeases demo_owner [demo_owner]"
  using slot_token_roundtrip[of demo_owner demo_owner "[demo_owner]"] by (simp add: MAX_CLONE_LEASES_def)

subsection \<open>The abstract slot machine\<close>

definition slot_state :: "'h world \<Rightarrow> u8 \<Rightarrow> slot_token option" where
  "slot_state w i = map_option parse_token (files w (SLOTS_DIR, show_u8 i))"

datatype slot_action =
    ActClaim string
  | ActFree string
  | ActReserve string string
  | ActLease string string
  | ActClone string string
  | ActRelease string string
  | ActReclaim
  | ActNone

text \<open>One change of one slot. \<open>InProgress\<close> is text nobody owns: a torn claim.\<close>

inductive slot_trans :: "slot_action \<Rightarrow> slot_token option \<Rightarrow> slot_token option \<Rightarrow> bool" where
  claim: "slot_trans (ActClaim r) None (Some (TokClaimed r p st))"
| claim_torn: "slot_trans (ActClaim r) None (Some InProgress)"
| free: "slot_trans (ActFree r) (Some (TokClaimed r p st)) None"
| free_torn: "slot_trans (ActFree r) (Some InProgress) None"
| reserve: "slot_trans (ActReserve s r) (Some (TokClaimed r p st)) (Some (TokReserved s))"
| reserve_torn: "slot_trans (ActReserve s r) (Some InProgress) (Some (TokReserved s))"
| lease: "slot_trans (ActLease s r) (Some (TokReserved s)) (Some (TokLeased s r))"
| clone_first: "slot_trans (ActClone s r) (Some (TokReserved s)) (Some (TokCloneLeases s [r]))"
| clone_more: "r \<notin> set ls \<Longrightarrow> set ls' = insert r (set ls) \<Longrightarrow> canonical_lessees ls' \<Longrightarrow>
    slot_trans (ActClone s r) (Some (TokCloneLeases s ls)) (Some (TokCloneLeases s ls'))"
| release: "slot_trans (ActRelease s r) (Some (TokLeased s r)) (Some (TokReserved s))"
| release_last: "slot_trans (ActRelease s r) (Some (TokCloneLeases s [r])) (Some (TokReserved s))"
| release_more: "r \<in> set ls \<Longrightarrow> set ls' = set ls - {r} \<Longrightarrow> canonical_lessees ls' \<Longrightarrow>
    slot_trans (ActRelease s r) (Some (TokCloneLeases s ls)) (Some (TokCloneLeases s ls'))"
| reclaim: "slot_trans ActReclaim (Some (TokClaimed r p st)) None"
| reclaim_torn: "slot_trans ActReclaim (Some InProgress) None"

inductive_cases trans_reservedE: "slot_trans a (Some (TokReserved s)) t"
inductive_cases trans_leasedE: "slot_trans a (Some (TokLeased s r)) t"
inductive_cases trans_clonesE: "slot_trans a (Some (TokCloneLeases s ls)) t"
inductive_cases trans_claimedE: "slot_trans a (Some (TokClaimed r p st)) t"
inductive_cases trans_freeE: "slot_trans a None t"

text \<open>The critical section of a restored room's teardown, as \<open>LeaseHold\<close> documents it: hold the lock, clean
  up the network resources, commit the post-cleanup token. A failed cleanup drops the hold.\<close>

definition teardown_lease ::
  "io_env \<Rightarrow> u8 \<Rightarrow> string \<Rightarrow> string \<Rightarrow> ('h \<Rightarrow> (string + unit) \<times> 'h) \<Rightarrow> 'h world
     \<Rightarrow> (slot_error + released) \<times> 'h world" where
  "teardown_lease env index snapshot_id room_id cleanup w =
     (case hold_lease_for_teardown env index snapshot_id room_id w of
        Inl e \<Rightarrow> (Inl e, w)
      | Inr None \<Rightarrow> (Inr NotOurLease, w)
      | Inr (Some hold) \<Rightarrow>
          (case cleanup (host w) of
             (Inl detail, h) \<Rightarrow> (Inl (SlotCleanup detail), w\<lparr>host := h\<rparr>)
           | (Inr _, h) \<Rightarrow> return_to_reservation env hold (w\<lparr>host := h\<rparr>)))"

text \<open>One critical section of any process.\<close>

datatype 'h slot_event =
    EvClaim io_env string claimer u8 "u8 option"
  | EvFree io_env u8 string "'h \<Rightarrow> (string + unit) \<times> 'h"
  | EvCleanupIfUnclaimed io_env u8 "'h \<Rightarrow> (string + unit) \<times> 'h"
  | EvReserve io_env u8 string string
  | EvLease io_env u8 string string
  | EvLeaseClone io_env u8 string string
  | EvTeardown io_env u8 string string "'h \<Rightarrow> (string + unit) \<times> 'h"
  | EvReleaseLease io_env u8 string string
  | EvReconcile io_env u8 string "u8 \<Rightarrow> 'h \<Rightarrow> (string + unit) \<times> 'h"

fun slot_step :: "'h slot_event \<Rightarrow> 'h world \<Rightarrow> 'h world" where
  "slot_step (EvClaim env r me cap target) w = snd (slot_claim env r me cap target w)"
| "slot_step (EvFree env i r cleanup) w = snd (free_with_cleanup env i r cleanup w)"
| "slot_step (EvCleanupIfUnclaimed env i cleanup) w = snd (cleanup_if_unclaimed env i cleanup w)"
| "slot_step (EvReserve env i s r) w = snd (reserve env i s r w)"
| "slot_step (EvLease env i s r) w = snd (lease env i s r w)"
| "slot_step (EvLeaseClone env i s r) w = snd (lease_clone env i s r w)"
| "slot_step (EvTeardown env i s r cleanup) w = snd (teardown_lease env i s r cleanup w)"
| "slot_step (EvReleaseLease env i s r) w = snd (release_lease env i s r w)"
| "slot_step (EvReconcile env i observed cleanup) w =
     snd (reconcile_observed env SLOT_POOL (show_u8 i) i observed (slot_reclaimer cleanup) w)"

fun slot_action_of :: "'h slot_event \<Rightarrow> slot_action" where
  "slot_action_of (EvClaim env r me cap target) = ActClaim r"
| "slot_action_of (EvFree env i r cleanup) = ActFree r"
| "slot_action_of (EvCleanupIfUnclaimed env i cleanup) = ActNone"
| "slot_action_of (EvReserve env i s r) = ActReserve s r"
| "slot_action_of (EvLease env i s r) = ActLease s r"
| "slot_action_of (EvLeaseClone env i s r) = ActClone s r"
| "slot_action_of (EvTeardown env i s r cleanup) = ActRelease s r"
| "slot_action_of (EvReleaseLease env i s r) = ActRelease s r"
| "slot_action_of (EvReconcile env i observed cleanup) = ActReclaim"

text \<open>The ids callers pass are minted or validated ids.\<close>

fun slot_event_ids :: "'h slot_event \<Rightarrow> string list" where
  "slot_event_ids (EvFree env i r cleanup) = [r]"
| "slot_event_ids (EvReserve env i s r) = [s, r]"
| "slot_event_ids (EvLease env i s r) = [s, r]"
| "slot_event_ids (EvTeardown env i s r cleanup) = [s]"
| "slot_event_ids (EvReleaseLease env i s r) = [s]"
| "slot_event_ids _ = []"

definition slot_event_ok :: "'h slot_event \<Rightarrow> bool" where
  "slot_event_ok e \<longleftrightarrow> list_all is_id_shaped (slot_event_ids e)"

text \<open>Only the file of one index can change the state of that index.\<close>

definition slot_changes :: "slot_action \<Rightarrow> 'h world \<Rightarrow> 'h world \<Rightarrow> bool" where
  "slot_changes a w w' \<longleftrightarrow> slot_state w' = slot_state w \<or>
     (\<exists>i t. slot_state w' = (slot_state w)(i := t) \<and> slot_trans a (slot_state w i) t)"

lemma slot_changesI_same: "files w' = files w \<Longrightarrow> slot_changes a w w'"
  unfolding slot_changes_def by (rule disjI1) (simp add: slot_state_def fun_eq_iff)

lemma slot_changesI:
  assumes "\<And>j. j \<noteq> i \<Longrightarrow> files w' (SLOTS_DIR, show_u8 j) = files w (SLOTS_DIR, show_u8 j)"
    and "slot_trans a (slot_state w i) (slot_state w' i)"
  shows "slot_changes a w w'"
proof -
  have "slot_state w' = (slot_state w)(i := slot_state w' i)" using assms(1) by (auto simp: slot_state_def)
  then show ?thesis using assms(2) unfolding slot_changes_def by blast
qed

lemma SLOT_POOL_dir [simp]: "dir_name SLOT_POOL = SLOTS_DIR"
  by (simp add: SLOT_POOL_def)

lemma slot_state_update:
  "files w' = (files w)((SLOTS_DIR, show_u8 i) := c) \<Longrightarrow>
     slot_state w' = (slot_state w)(i := map_option parse_token c)"
  by (auto simp: slot_state_def)

lemma locked_slot_Some: "locked_slot env i w = Inr (Some c) \<Longrightarrow> files w (SLOTS_DIR, show_u8 i) = Some c"
  by (auto simp: locked_slot_def split: sum.splits io_error.splits dest: read_to_string_Inr)

lemma rewrite_slot_changes:
  assumes "rewrite_slot_atomic env i body w = (r, w')"
    and "slot_trans a (slot_state w i) (Some (parse_token body))"
  shows "slot_changes a w w'"
proof -
  obtain r' where r: "rewrite_atomic env SLOTS_DIR i body w = (r', w')"
    using assms(1) by (auto simp: rewrite_slot_atomic_def map_err_def split: prod.splits sum.splits)
  note eff = rewrite_atomic_effect[OF r]
  then have others: "files w' (SLOTS_DIR, show_u8 j) = files w (SLOTS_DIR, show_u8 j)" if "j \<noteq> i" for j
    using that by simp
  show ?thesis
  proof (cases "files w' (SLOTS_DIR, show_u8 i) = Some body")
    case True
    then show ?thesis using others assms(2) by (intro slot_changesI[of i]) (auto simp: slot_state_def)
  next
    case False
    then have "files w' (SLOTS_DIR, show_u8 i) = files w (SLOTS_DIR, show_u8 i)" using eff by blast
    then have "slot_state w' j = slot_state w j" for j
      using others[of j] by (cases "j = i") (simp_all add: slot_state_def)
    then have "slot_state w' = slot_state w" by blast
    then show ?thesis by (simp add: slot_changes_def)
  qed
qed

text \<open>The shape every rewriting operation has: nothing, or one atomic rewrite of the slot it read.\<close>

lemma locked_op_changes:
  assumes "\<And>e. locked_slot env i w = Inl e \<Longrightarrow> w' = w" and "locked_slot env i w = Inr None \<Longrightarrow> w' = w"
    and "\<And>c. locked_slot env i w = Inr (Some c) \<Longrightarrow> w' = w \<or>
      (\<exists>body. w' = snd (rewrite_slot_atomic env i body w)
         \<and> slot_trans a (Some (parse_token c)) (Some (parse_token body)))"
  shows "slot_changes a w w'"
proof -
  have "w' = w \<or> (\<exists>body. w' = snd (rewrite_slot_atomic env i body w)
      \<and> slot_trans a (slot_state w i) (Some (parse_token body)))"
  proof (cases "locked_slot env i w")
    case (Inr c)
    then show ?thesis using assms(2,3) by (cases c) (auto simp: slot_state_def dest: locked_slot_Some)
  qed (use assms(1) in simp)
  then show ?thesis
    using rewrite_slot_changes[of env i _ w] slot_changesI_same by (metis prod.collapse)
qed

lemma snd_and_then_pure: "snd (and_then r (\<lambda>_ w. (Inr x, w))) = snd r"
  by (auto simp: and_then_def split: prod.splits sum.splits)

lemma snd_sync_then: "snd (and_then (slot_sync_dir env, w) (\<lambda>_ w. (x, w))) = w"
  by (auto simp: and_then_def split: sum.splits)


lemma reserve_changes:
  assumes "is_id_shaped s" and "is_id_shaped r"
  shows "slot_changes (ActReserve s r) w (snd (reserve env i s r w))"
proof (rule locked_op_changes[of env i])
  fix c assume c: "locked_slot env i w = Inr (Some c)"
  show "snd (reserve env i s r w) = w \<or> (\<exists>body. snd (reserve env i s r w) = snd (rewrite_slot_atomic env i body w)
      \<and> slot_trans (ActReserve s r) (Some (parse_token c)) (Some (parse_token body)))"
  proof (cases "parse_token c \<noteq> TokReserved s \<and> first_line c = Some r")
    case True
    then have "slot_trans (ActReserve s r) (Some (parse_token c)) (Some (TokReserved s))"
      using parse_token_id_first_line[OF _ assms(2)] by (metis slot_trans.reserve slot_trans.reserve_torn)
    then show ?thesis
      using True c parse_reservation_token[OF assms(1)]
      by (auto simp: reserve_def snd_and_then_pure intro!: exI[of _ "reservation_token s"])
  qed (use c in \<open>auto simp: reserve_def snd_sync_then\<close>)
qed (simp_all add: reserve_def)

lemma lease_changes:
  assumes "is_id_shaped s" and "is_id_shaped r"
  shows "slot_changes (ActLease s r) w (snd (lease env i s r w))"
proof (rule locked_op_changes[of env i])
  fix c assume c: "locked_slot env i w = Inr (Some c)"
  show "snd (lease env i s r w) = w \<or> (\<exists>body. snd (lease env i s r w) = snd (rewrite_slot_atomic env i body w)
      \<and> slot_trans (ActLease s r) (Some (parse_token c)) (Some (parse_token body)))"
  proof (cases "parse_token c = TokReserved s")
    case True
    then show ?thesis
      using c parse_lease_token[OF assms] slot_trans.lease
      by (auto simp: lease_def snd_and_then_pure intro!: exI[of _ "lease_token s r"])
  qed (use c in \<open>auto simp: lease_def snd_sync_then split: slot_token.splits\<close>)
qed (simp_all add: lease_def)

lemma canonical_insert:
  assumes "canonical_lessees ls" and "binary_search ls r = Inl k" and "length ls \<noteq> MAX_CLONE_LEASES" and "is_id_shaped r"
  shows "r \<notin> set ls" and "set (insert_at k r ls) = insert r (set ls)" and "canonical_lessees (insert_at k r ls)"
proof -
  have sorted: "sorted_wrt (<) ls" using assms(1) by (simp add: canonical_lessees_def)
  note ins = insert_at_binary_search[OF sorted assms(2)]
  show "r \<notin> set ls" using binary_search_member[OF sorted, of r] assms(2) by auto
  show "set (insert_at k r ls) = insert r (set ls)" using ins by blast
  show "canonical_lessees (insert_at k r ls)"
    using ins assms(1,3,4) by (auto simp: canonical_lessees_def list_all_iff)
qed

lemma lease_clone_changes: "slot_changes (ActClone s r) w (snd (lease_clone env i s r w))"
proof (cases "is_id_shaped s \<and> is_id_shaped r")
  case False
  then have "snd (lease_clone env i s r w) = w" by (auto simp: lease_clone_def split: sum.splits)
  then show ?thesis by (simp add: slot_changesI_same)
next
  case ids: True
  show ?thesis
  proof (rule locked_op_changes[of env i])
    fix c assume c: "locked_slot env i w = Inr (Some c)"
    then have idx: "ensure_pool_index i = Inr ()" by (auto simp: locked_slot_def split: sum.splits)
    show "snd (lease_clone env i s r w) = w \<or>
      (\<exists>body. snd (lease_clone env i s r w) = snd (rewrite_slot_atomic env i body w)
        \<and> slot_trans (ActClone s r) (Some (parse_token c)) (Some (parse_token body)))"
    proof (cases "parse_token c")
      case (TokReserved s')
      have "canonical_lessees [r]" using ids by (simp add: canonical_lessees_def MAX_CLONE_LEASES_def)
      then show ?thesis
        using c idx ids TokReserved parse_clone_leases_token[of s "[r]"] slot_trans.clone_first
        by (auto simp: lease_clone_def snd_and_then_pure intro!: exI[of _ "clone_leases_token s [r]"])
    next
      case (TokCloneLeases s' ls)
      note can = parse_token_clone_canonical[OF TokCloneLeases]
      show ?thesis
      proof (cases "binary_search ls r")
        case (Inl k)
        show ?thesis
        proof (cases "s' = s \<and> length ls \<noteq> MAX_CLONE_LEASES")
          case True
          then have ins: "r \<notin> set ls" "set (insert_at k r ls) = insert r (set ls)" "canonical_lessees (insert_at k r ls)"
            using canonical_insert Inl can ids by blast+
          show ?thesis
            using c idx ids TokCloneLeases Inl True parse_clone_leases_token[OF _ ins(3), of s] slot_trans.clone_more[OF ins, of s]
            by (auto simp: lease_clone_def snd_and_then_pure
                intro!: exI[of _ "clone_leases_token s (insert_at k r ls)"])
        qed (use c idx ids TokCloneLeases Inl in \<open>auto simp: lease_clone_def\<close>)
      qed (use c idx ids TokCloneLeases in \<open>auto simp: lease_clone_def snd_sync_then\<close>)
    qed (use c idx ids in \<open>auto simp: lease_clone_def\<close>)
  qed (use ids in \<open>auto simp: lease_clone_def split: sum.splits\<close>)
qed

lemma clone_token_after_release_trans:
  assumes "is_id_shaped s" and "canonical_lessees ls" and "clone_token_after_release s ls r = Some post"
  shows "slot_trans (ActRelease s r) (Some (TokCloneLeases s ls)) (Some (parse_token post))"
proof -
  have sorted: "sorted_wrt (<) ls" using assms(2) by (simp add: canonical_lessees_def)
  obtain k where k: "binary_search ls r = Inr k"
    using assms(3) by (auto simp: clone_token_after_release_def split: sum.splits)
  note del = remove_at_binary_search[OF sorted k]
  have r: "r \<in> set ls" using binary_search_member[OF sorted, of r] k by auto
  show ?thesis
  proof (cases "remove_at k ls = []")
    case True
    then have "length ls = 1" using del by simp
    then have "ls = [r]" using r by (auto simp: length_Suc_conv)
    moreover have "post = reservation_token s" using assms(3) k True by (simp add: clone_token_after_release_def)
    ultimately show ?thesis using parse_reservation_token[OF assms(1)] slot_trans.release_last by simp
  next
    case False
    then have can: "canonical_lessees (remove_at k ls)"
      using del assms(2) by (auto simp: canonical_lessees_def list_all_iff)
    have "post = clone_leases_token s (remove_at k ls)"
      using assms(3) k False by (simp add: clone_token_after_release_def)
    then show ?thesis
      using parse_clone_leases_token[OF assms(1) can] slot_trans.release_more[OF r _ can] del by simp
  qed
qed

lemma release_lease_changes:
  assumes "is_id_shaped s"
  shows "slot_changes (ActRelease s r) w (snd (release_lease env i s r w))"
proof (rule locked_op_changes[of env i])
  fix c assume c: "locked_slot env i w = Inr (Some c)"
  show "snd (release_lease env i s r w) = w \<or>
    (\<exists>body. snd (release_lease env i s r w) = snd (rewrite_slot_atomic env i body w)
      \<and> slot_trans (ActRelease s r) (Some (parse_token c)) (Some (parse_token body)))"
  proof (cases "parse_token c")
    case (TokLeased s' r')
    then show ?thesis
      using c parse_reservation_token[OF assms] slot_trans.release[of s r]
      by (auto simp: release_lease_def snd_and_then_pure intro!: exI[of _ "reservation_token s"])
  next
    case (TokCloneLeases s' ls)
    note can = parse_token_clone_canonical[OF TokCloneLeases]
    show ?thesis
    proof (cases "clone_token_after_release s ls r")
      case (Some post)
      then show ?thesis
        using c TokCloneLeases can clone_token_after_release_trans[of s ls r post]
        by (auto simp: release_lease_def snd_and_then_pure intro!: exI[of _ post])
    qed (use c TokCloneLeases in \<open>auto simp: release_lease_def\<close>)
  qed (use c in \<open>auto simp: release_lease_def snd_sync_then\<close>)
qed (simp_all add: release_lease_def)

text \<open>A lease can be held for teardown only by its own room, and the hold carries the token that releases it.\<close>

lemma hold_lease_trans:
  assumes "is_id_shaped s" and "hold_lease_for_teardown env i s r w = Inr (Some hold)"
  shows "lh_index hold = i
    \<and> slot_trans (ActRelease s r) (slot_state w i) (Some (parse_token (lh_post_cleanup_token hold)))"
proof -
  obtain c where c: "locked_slot env i w = Inr (Some c)"
    using assms(2) by (auto simp: hold_lease_for_teardown_def split: sum.splits option.splits)
  then have st: "slot_state w i = Some (parse_token c)" using locked_slot_Some[OF c] by (simp add: slot_state_def)
  show ?thesis
  proof (cases "parse_token c")
    case (TokLeased s' r')
    then show ?thesis
      using assms c st parse_reservation_token[OF assms(1)] slot_trans.release[of s r]
      by (auto simp: hold_lease_for_teardown_def split: if_splits)
  next
    case (TokCloneLeases s' ls)
    note can = parse_token_clone_canonical[OF TokCloneLeases]
    show ?thesis
      using assms c st TokCloneLeases can clone_token_after_release_trans[of s ls r]
      by (auto simp: hold_lease_for_teardown_def split: if_splits option.splits)
  qed (use assms(2) c in \<open>auto simp: hold_lease_for_teardown_def\<close>)
qed

lemma slot_state_host [simp]: "slot_state (w\<lparr>host := h\<rparr>) = slot_state w"
  by (simp add: slot_state_def fun_eq_iff)

lemma slot_changes_host: "slot_changes a (w\<lparr>host := h\<rparr>) w' \<longleftrightarrow> slot_changes a w w'"
  by (simp add: slot_changes_def)

lemma teardown_lease_changes:
  assumes "is_id_shaped s"
  shows "slot_changes (ActRelease s r) w (snd (teardown_lease env i s r cleanup w))"
proof (cases "\<exists>hold h. hold_lease_for_teardown env i s r w = Inr (Some hold) \<and> cleanup (host w) = (Inr (), h)")
  case True
  then obtain hold h where hold: "hold_lease_for_teardown env i s r w = Inr (Some hold)" "cleanup (host w) = (Inr (), h)"
    by blast
  note tr = hold_lease_trans[OF assms hold(1)]
  obtain x w' where x: "rewrite_slot_atomic env i (lh_post_cleanup_token hold) (w\<lparr>host := h\<rparr>) = (x, w')"
    by (cases "rewrite_slot_atomic env i (lh_post_cleanup_token hold) (w\<lparr>host := h\<rparr>)")
  have "snd (teardown_lease env i s r cleanup w) = w'"
    using hold x tr by (simp add: teardown_lease_def return_to_reservation_def snd_and_then_pure)
  moreover have "slot_changes (ActRelease s r) (w\<lparr>host := h\<rparr>) w'"
    using rewrite_slot_changes[OF x, of "ActRelease s r"] tr by simp
  ultimately show ?thesis by (simp add: slot_changes_host)
next
  case False
  have "files (snd (teardown_lease env i s r cleanup w)) = files w"
    using False by (auto simp: teardown_lease_def split: sum.splits option.splits prod.splits)
  then show ?thesis by (rule slot_changesI_same)
qed

lemma first_line_prefix: "first_line c = Some l \<Longrightarrow> prefix l c"
proof -
  assume "first_line c = Some l"
  then have "l = takeWhile (\<lambda>c. c \<noteq> newline) c \<or> l = strip_cr (takeWhile (\<lambda>c. c \<noteq> newline) c)"
    using lines.simps[of c] by (auto simp: first_line_def Let_def split: if_splits)
  moreover have "prefix (strip_cr x) x" for x
    by (simp add: strip_cr_def prefixeq_butlast)
  ultimately show ?thesis using takeWhile_is_prefix prefix_order.trans by metis
qed

lemma parse_token_not_at:
  assumes "\<not> prefix ''@'' c" and "parse_claim c = None"
  shows "parse_token c = InProgress"
proof (cases "first_line c")
  case None
  then show ?thesis by (auto simp: parse_token_def first_line_def split: list.splits)
next
  case (Some l)
  then have "\<not> prefix ''@'' l" using assms(1) first_line_prefix prefix_order.trans by blast
  then show ?thesis using parse_token_no_at[OF Some] assms(2) by simp
qed

lemma parse_token_torn:
  assumes "is_id_shaped r"
  shows "parse_token (take n (claim_text r me)) = InProgress \<or> (\<exists>p st. parse_token (take n (claim_text r me)) = TokClaimed r p st)"
proof (cases "n < length (claim_text r me)")
  case True
  have "CHR ''@'' \<notin> set (claim_text r me)"
    using assms show_nat_digits[of "unat (cl_pid me)"] show_nat_digits[of "unat (cl_starttime me)"]
    by (auto simp: claim_text_def is_ascii_digit_def)
  then have "CHR ''@'' \<notin> set (take n (claim_text r me))" using in_set_takeD by fast
  then have "\<not> prefix ''@'' (take n (claim_text r me))" by (auto simp: prefix_def)
  then show ?thesis using parse_token_not_at torn_claim_not_parsed[OF assms True] by blast
next
  case False
  then show ?thesis using parse_token_claimed parse_claim_text[OF assms] by simp
qed

lemma slot_claim_changes: "slot_changes (ActClaim r) w (snd (slot_claim env r me cap target w))"
proof -
  let ?spec = "\<lparr>cs_pool = SLOT_POOL, cs_owner_id = r, cs_me = me, cs_cap = cap, cs_target = target\<rparr>"
  obtain x w' where x: "claim_with env (\<lambda>e. e) ?spec accept_all w = (x, w')"
    by (cases "claim_with env (\<lambda>e. e) ?spec accept_all w")
  have s: "snd (slot_claim env r me cap target w) = w'"
    using x by (auto simp: slot_claim_def indexed_claim_def split: sum.splits claim_outcome.splits)
  consider "files w' = files w" | i c where "files w (SLOTS_DIR, show_u8 i) = None"
    "files w' = (files w)((SLOTS_DIR, show_u8 i) \<mapsto> c)"
    "parse_token c = InProgress \<or> (\<exists>p st. parse_token c = TokClaimed r p st)"
  proof (cases x)
    case (Inl e)
    then show ?thesis
      using claim_with_failed[OF x[unfolded Inl]] parse_token_torn[of r _ me] that
      unfolding residue_at_def by auto
  next
    case (Inr y)
    then show ?thesis
    proof (cases "\<exists>i. y = Claimed i")
      case True
      then obtain i where xi: "x = Inr (Claimed i)" using Inr by blast
      show ?thesis
        using that(2)[of i "claim_text r me"] claim_with_claimed[OF x[unfolded xi]]
          parse_token_torn[of r "length (claim_text r me)" me] by simp
    next
      case False
      then show ?thesis using that(1) claim_with_refused Inr x by blast
    qed
  qed
  then show ?thesis
  proof cases
    case 1
    then show ?thesis by (simp add: s slot_changesI_same)
  next
    case (2 i c)
    have "slot_trans (ActClaim r) None (Some (parse_token c))"
      using 2(3) slot_trans.claim slot_trans.claim_torn by metis
    then show ?thesis
      using 2(1,2) by (intro slot_changesI[of i]) (auto simp: s slot_state_def)
  qed
qed

lemma free_with_cleanup_changes:
  assumes "is_id_shaped r"
  shows "slot_changes (ActFree r) w (snd (free_with_cleanup env i r cleanup w))"
proof (cases "ensure_pool_index i")
  case (Inr u)
  obtain x w' where x: "free_with env SLOT_POOL i r cleanup w = (x, w')" by (cases "free_with env SLOT_POOL i r cleanup w")
  have s: "snd (free_with_cleanup env i r cleanup w) = w'"
    using x Inr by (auto simp: free_with_cleanup_def split: sum.splits release_error.splits free_outcome.splits)
  note res = free_with_result[OF x]
  show ?thesis
  proof (cases "x = Inr Removed")
    case True
    then obtain c where c: "files w (SLOTS_DIR, show_u8 i) = Some c" "first_line c = Some r"
      "files w' = (files w)((SLOTS_DIR, show_u8 i) := None)" using res by auto
    have "slot_trans (ActFree r) (Some (parse_token c)) None"
      using parse_token_id_first_line[OF c(2) assms] by (metis slot_trans.free slot_trans.free_torn)
    then show ?thesis using c by (intro slot_changesI[of i]) (auto simp: s slot_state_def)
  next
    case False
    then have "files w' = files w"
      using res by (auto split: sum.splits free_outcome.splits release_error.splits)
    then show ?thesis by (simp add: s slot_changesI_same)
  qed
qed (simp add: free_with_cleanup_def slot_changesI_same)

lemma cleanup_if_unclaimed_files: "files (snd (cleanup_if_unclaimed env i cleanup w)) = files w"
  by (auto simp: cleanup_if_unclaimed_def split: sum.splits prod.splits)

lemma reconcile_changes:
  "slot_changes ActReclaim w (snd (reconcile_observed env SLOT_POOL (show_u8 i) i observed cl w))"
proof -
  obtain x w' where x: "reconcile_observed env SLOT_POOL (show_u8 i) i observed cl w = (x, w')"
    by (cases "reconcile_observed env SLOT_POOL (show_u8 i) i observed cl w")
  consider "files w' = files w"
    | "reclaimable env observed" "files w (SLOTS_DIR, show_u8 i) = Some observed"
      "files w' = (files w)((SLOTS_DIR, show_u8 i) := None)"
    using reconcile_observed_effect[OF x] by auto
  then show ?thesis
  proof cases
    case 1
    then show ?thesis by (simp add: x slot_changesI_same)
  next
    case 2
    have "slot_trans ActReclaim (Some (parse_token observed)) None"
    proof (cases "parse_claim observed")
      case None
      then have "\<not> prefix ''@'' observed" using 2(1) by (simp add: reclaimable_def)
      then have "parse_token observed = InProgress" using None by (rule parse_token_not_at)
      then show ?thesis using slot_trans.reclaim_torn by simp
    next
      case (Some t)
      then have "parse_token observed = TokClaimed (ct_owner_id t) (ct_pid t) (ct_starttime t)"
        by (simp add: parse_token_claimed)
      then show ?thesis using slot_trans.reclaim by simp
    qed
    then show ?thesis using 2 by (intro slot_changesI[of i]) (auto simp: x slot_state_def)
  qed
qed

subsection \<open>Refinement and what follows from it\<close>

lemma slot_step_changes:
  assumes "slot_event_ok e"
  shows "slot_changes (slot_action_of e) w (slot_step e w)"
  using assms
  by (cases e) (simp_all add: slot_event_ok_def slot_claim_changes free_with_cleanup_changes
      cleanup_if_unclaimed_files slot_changesI_same reserve_changes lease_changes lease_clone_changes
      teardown_lease_changes release_lease_changes reconcile_changes)

lemma slot_step_trans:
  assumes "slot_event_ok e"
  shows "slot_state (slot_step e w) i = slot_state w i
    \<or> slot_trans (slot_action_of e) (slot_state w i) (slot_state (slot_step e w) i)"
  using slot_step_changes[OF assms, of w] by (auto simp: slot_changes_def)

text \<open>C1. The slot files refine the abstract slot machine. Every critical section of every process, under
  every combination of filesystem and cleanup failures, either leaves the parsed state of the pool as it
  was or changes exactly one slot, by the one transition of the abstract machine that the operation
  stands for.\<close>

theorem slot_steps_refine:
  assumes "slot_event_ok e"
  shows "slot_state (slot_step e w) = slot_state w \<or>
    (\<exists>i t. slot_state (slot_step e w) = (slot_state w)(i := t)
       \<and> slot_trans (slot_action_of e) (slot_state w i) t)"
  using slot_step_changes[OF assms] by (simp add: slot_changes_def)

theorem slot_steps_refine_witness:
  "let w = demo_world in
   slot_state (slot_step (EvFree demo_env 1 demo_owner (\<lambda>h. (Inr (), h))) w) = slot_state w \<or>
    (\<exists>i t. slot_state (slot_step (EvFree demo_env 1 demo_owner (\<lambda>h. (Inr (), h))) w) = (slot_state w)(i := t)
       \<and> slot_trans (ActFree demo_owner) (slot_state w i) t)"
  using slot_steps_refine[of "EvFree demo_env 1 demo_owner (\<lambda>h. (Inr (), h))" demo_world]
  by (simp add: slot_event_ok_def)

text \<open>A slot that belongs to a snapshot, leased or not.\<close>

fun reserved_for :: "string \<Rightarrow> slot_token option \<Rightarrow> bool" where
  "reserved_for s (Some (TokReserved s')) \<longleftrightarrow> s' = s"
| "reserved_for s (Some (TokLeased s' r)) \<longleftrightarrow> s' = s"
| "reserved_for s (Some (TokCloneLeases s' ls)) \<longleftrightarrow> s' = s"
| "reserved_for s _ \<longleftrightarrow> False"

lemma reserved_for_trans:
  assumes "slot_trans a st st'" and "reserved_for s st"
  shows "reserved_for s st'"
  using assms by (induction rule: slot_trans.induct) auto

lemma reserved_for_step:
  assumes "slot_event_ok e" and "reserved_for s (slot_state w i)"
  shows "reserved_for s (slot_state (slot_step e w) i)"
  using slot_step_trans[OF assms(1), of w i] assms(2) reserved_for_trans by metis

lemma reserved_for_run:
  assumes "\<forall>e \<in> set es. slot_event_ok e" and "reserved_for s (slot_state w i)"
  shows "reserved_for s (slot_state (fold slot_step es w) i)"
  using assms by (induction es arbitrary: w) (auto intro: reserved_for_step)

lemma reserved_for_taken: "reserved_for s (slot_state w i) \<Longrightarrow> files w (SLOTS_DIR, show_u8 i) \<noteq> None"
  by (cases "files w (SLOTS_DIR, show_u8 i)") (auto simp: slot_state_def)

text \<open>C3. A snapshot's slot never returns to the free pool (D8). Once a slot is reserved for a snapshot, it
  stays that snapshot's, leased or unleased, through every interleaving of claims, frees, reservations,
  leases, releases, teardowns and reconciliations by any processes with any failures, and no claim is
  ever granted its index.\<close>

theorem reservation_survives:
  assumes "\<forall>e \<in> set es. slot_event_ok e" and "reserved_for s (slot_state w i)"
    and "slot_claim env r me cap target (fold slot_step es w) = (Inr sl, w')"
  shows "reserved_for s (slot_state (fold slot_step es w) i) \<and> sl \<noteq> derive i"
proof -
  let ?v = "fold slot_step es w"
  have res: "reserved_for s (slot_state ?v i)" by (rule reserved_for_run[OF assms(1,2)])
  obtain k where k: "sl = derive k" "indexed_claim env SLOT_POOL r me cap target ?v = (Inr (Claimed k), w')"
    using assms(3) by (auto simp: slot_claim_def split: prod.splits sum.splits claim_outcome.splits)
  have "files ?v (SLOTS_DIR, show_u8 k) = None"
    using claim_with_claimed k(2) unfolding indexed_claim_def by fastforce
  then have "k \<noteq> i" using reserved_for_taken[OF res] by auto
  then have "slot_index sl \<noteq> slot_index (derive i)" using k(1) by (simp add: derive_def Let_def)
  then show ?thesis using res by auto
qed

definition demo_reserved :: "unit world" where
  "demo_reserved = \<lparr>dirs = (\<lambda>_. True),
     files = (\<lambda>p. if p = (''slots'', ''1'') then Some (reservation_token demo_owner) else None), host = ()\<rparr>"

lemma demo_reserved_state [simp]: "slot_state demo_reserved 1 = Some (TokReserved demo_owner)"
  by (simp add: slot_state_def demo_reserved_def SLOTS_DIR_def parse_reservation_token)

lemma demo_reserved_claim:
  "\<exists>w'. slot_claim demo_env demo_owner demo_me 3 None demo_reserved = (Inr (derive 2), w')"
proof -
  have u: "upto_cap (min 3 63) = [1, 2, 3]" by (simp add: upto_cap_def upt_rec)
  show ?thesis
    by (simp add: slot_claim_def indexed_claim_def claim_with_def Let_def SLOT_POOL_def MAX_SLOT_def u[simplified]
        create_dir_all_def lock_frees_def attempt_claim_def map_err_def try_claim_def create_new_file_def
        demo_reserved_def SLOTS_DIR_def write_all_def select_claim_def accept_all_def)
qed

theorem reservation_survives_witness:
  "\<exists>sl w'. slot_claim demo_env demo_owner demo_me 3 None
        (fold slot_step [EvFree demo_env 1 demo_owner (\<lambda>h. (Inr (), h))] demo_reserved) = (Inr sl, w') \<and> sl \<noteq> derive 1"
proof -
  have f: "first_line (reservation_token demo_owner) = Some (''@reservation '' @ demo_owner)"
    using lines_one_line[of "''@reservation '' @ demo_owner"]
    by (simp add: first_line_def reservation_token_def demo_owner_def)
  have "slot_step (EvFree demo_env 1 demo_owner (\<lambda>h. (Inr (), h))) demo_reserved = demo_reserved"
    by (simp add: free_with_cleanup_def ensure_pool_index_def MAX_SLOT_def word_less_nat_alt free_with_def lock_frees_def
        read_to_string_def demo_reserved_def SLOTS_DIR_def SLOT_POOL_def f)
  then obtain w' where c: "slot_claim demo_env demo_owner demo_me 3 None
      (fold slot_step [EvFree demo_env 1 demo_owner (\<lambda>h. (Inr (), h))] demo_reserved) = (Inr (derive 2), w')"
    using demo_reserved_claim by auto
  then show ?thesis
    using reservation_survives[OF _ _ c, of demo_owner 1] by (auto simp: slot_event_ok_def)
qed

subsection \<open>Exclusive leases\<close>

definition lessee_of :: "'h world \<Rightarrow> u8 \<times> string \<Rightarrow> string option" where
  "lessee_of w k = (case slot_state w (fst k) of
     Some (TokLeased s r) \<Rightarrow> if s = snd k then Some r else None | _ \<Rightarrow> None)"

fun lease_granted :: "'h slot_event \<Rightarrow> 'h world \<Rightarrow> (u8 \<times> string) option" where
  "lease_granted (EvLease env i s r) w = (case lease env i s r w of (Inr _, _) \<Rightarrow> Some (i, s) | _ \<Rightarrow> None)"
| "lease_granted _ w = None"

fun event_room :: "'h slot_event \<Rightarrow> string" where
  "event_room (EvLease env i s r) = r"
| "event_room _ = []"

definition ends_lease :: "'h slot_event \<Rightarrow> u8 \<times> string \<Rightarrow> string \<Rightarrow> bool" where
  "ends_lease e k r \<longleftrightarrow> slot_action_of e = ActRelease (snd k) r"

lemma lessee_of_Some: "lessee_of w (i, s) = Some r \<longleftrightarrow> slot_state w i = Some (TokLeased s r)"
  by (auto simp: lessee_of_def split: option.splits slot_token.splits if_splits)

lemma rewrite_slot_ok:
  assumes "rewrite_slot_atomic env i body w = (Inr u, w')"
  shows "slot_state w' i = Some (parse_token body)"
proof -
  have "rewrite_atomic env SLOTS_DIR i body w = (Inr u, w')"
    using assms by (simp add: rewrite_slot_atomic_def map_err_cases)
  then show ?thesis using rewrite_atomic_effect by (fastforce simp: slot_state_def)
qed

lemma locked_slot_state:
  "locked_slot env i w = Inr (Some c) \<Longrightarrow> slot_state w i = Some (parse_token c)"
  "locked_slot env i w = Inr None \<Longrightarrow> slot_state w i = None"
  by (auto simp: slot_state_def locked_slot_def split: sum.splits io_error.splits dest: read_to_string_Inr)

lemma lease_ok:
  assumes "lease env i s r w = (Inr sl, w')" and "is_id_shaped s" and "is_id_shaped r"
  shows "slot_state w' i = Some (TokLeased s r)
    \<and> (slot_state w i = Some (TokReserved s) \<or> slot_state w i = Some (TokLeased s r) \<and> w' = w)"
proof -
  obtain c where c: "locked_slot env i w = Inr (Some c)"
    using assms(1) by (auto simp: lease_def split: sum.splits option.splits)
  consider u where "parse_token c = TokReserved s" "rewrite_slot_atomic env i (lease_token s r) w = (Inr u, w')"
    | "parse_token c = TokLeased s r" "w' = w"
    using assms(1) c by (auto simp: lease_def chain_simps split: slot_token.splits if_splits)
  then show ?thesis
    using locked_slot_state(1)[OF c] rewrite_slot_ok[of env i "lease_token s r" w] parse_lease_token[OF assms(2,3)]
    by cases auto
qed

interpretation flat_lease: exclusive_holder lessee_of slot_step slot_event_ok lease_granted event_room ends_lease
proof unfold_locales
  fix e :: "'h slot_event" and w :: "'h world" and k
  assume ok: "slot_event_ok e" and g: "lease_granted e w = Some k"
  then obtain env i s r sl w' where e: "e = EvLease env i s r" "k = (i, s)" "lease env i s r w = (Inr sl, w')"
    by (cases e) (auto split: prod.splits sum.splits)
  then have ids: "is_id_shaped s" "is_id_shaped r" using ok by (simp_all add: slot_event_ok_def)
  note l = lease_ok[OF e(3) ids]
  show "lessee_of w k = None \<or> lessee_of w k = Some (event_room e)" using l e by (auto simp: lessee_of_def)
  show "lessee_of (slot_step e w) k = Some (event_room e)" using l e by (simp add: lessee_of_def)
next
  fix e :: "'h slot_event" and w :: "'h world" and k r
  assume ok: "slot_event_ok e" and h: "lessee_of w k = Some r" and n: "\<not> ends_lease e k r"
  obtain i s where k: "k = (i, s)" by (cases k)
  have st: "slot_state w i = Some (TokLeased s r)" using h k lessee_of_Some by metis
  have "slot_state (slot_step e w) i = Some (TokLeased s r)"
    using slot_step_trans[OF ok, of w i] n k unfolding st ends_lease_def by (auto elim: trans_leasedE)
  then show "lessee_of (slot_step e w) k = Some r" using k by (simp add: lessee_of_def)
qed

text \<open>C4. At most one live flat lease per snapshot slot. In every history, once a lease was granted to a
  room, a lease of the same slot and snapshot is granted to another room only after a release or teardown
  in the first room's name; and as long as none happened the slot file still names the first room.\<close>

theorem flat_lease_exclusive:
  fixes es :: "'h slot_event list"
  assumes "\<forall>e \<in> set es. slot_event_ok e" and "is_id_shaped s" and "is_id_shaped r" and "is_id_shaped r'"
    and "lease env i s r w = (Inr sl, w1)" and "\<forall>e \<in> set es. slot_action_of e \<noteq> ActRelease s r"
  shows "slot_state (fold slot_step es w1) i = Some (TokLeased s r)
    \<and> (\<forall>env' sl' w2. lease env' i s r' (fold slot_step es w1) = (Inr sl', w2) \<longrightarrow> r' = r)"
proof -
  let ?a = "EvLease env i s r"
  have oka: "slot_event_ok ?a" using assms(2,3) by (simp add: slot_event_ok_def)
  have ga: "lease_granted ?a w = Some (i, s)" and w1: "slot_step ?a w = w1" using assms(5) by simp_all
  have ne: "\<forall>e \<in> set es. slot_event_ok e \<and> \<not> ends_lease e (i, s) r"
    using assms(1,6) by (simp add: ends_lease_def)
  have "lessee_of w1 (i, s) = Some r" using flat_lease.granted_held[OF oka ga] w1 by simp
  then have st: "slot_state (fold slot_step es w1) i = Some (TokLeased s r)"
    using flat_lease.hold_persists[OF _ ne] lessee_of_Some by metis
  have "r' = r" if l: "lease env' i s r' (fold slot_step es w1) = (Inr sl', w2)" for env' sl' w2
  proof -
    let ?b = "EvLease env' i s r'"
    have okb: "slot_event_ok ?b" using assms(2,4) by (simp add: slot_event_ok_def)
    have gb: "lease_granted ?b (fold slot_step es (slot_step ?a w)) = Some (i, s)" using l w1 by simp
    show ?thesis
      using flat_lease.regrant_needs_end[OF oka okb assms(1) ga gb] ne by auto
  qed
  then show ?thesis using st by blast
qed

lemma demo_lease: "\<exists>w1. lease demo_env 1 demo_owner demo_owner demo_reserved = (Inr (derive 1), w1)"
proof -
  have "locked_slot demo_env 1 demo_reserved = Inr (Some (reservation_token demo_owner))"
    by (simp add: locked_slot_def ensure_pool_index_def MAX_SLOT_def word_less_nat_alt slot_lock_frees_def lock_frees_def
        demo_reserved_def SLOTS_DIR_def)
  moreover obtain w1 where "rewrite_atomic demo_env SLOTS_DIR 1 (lease_token demo_owner demo_owner) demo_reserved = (Inr (), w1)"
    using rewrite_atomic_total[OF demo_no_faults, of demo_reserved SLOTS_DIR] by (auto simp: demo_reserved_def)
  ultimately show ?thesis
    by (simp add: lease_def parse_reservation_token rewrite_slot_atomic_def map_err_def)
qed

theorem flat_lease_exclusive_witness:
  "\<exists>sl w1. lease demo_env 1 demo_owner demo_owner demo_reserved = (Inr sl, w1)
     \<and> slot_state (fold slot_step [EvReserve demo_env 1 demo_owner demo_owner] w1) 1 = Some (TokLeased demo_owner demo_owner)"
proof -
  obtain w1 where w1: "lease demo_env 1 demo_owner demo_owner demo_reserved = (Inr (derive 1), w1)"
    using demo_lease by blast
  then show ?thesis
    using flat_lease_exclusive[OF _ demo_owner_shaped demo_owner_shaped demo_owner_shaped w1,
        of "[EvReserve demo_env 1 demo_owner demo_owner]"]
    by (simp add: slot_event_ok_def)
qed

subsection \<open>Clone leases\<close>

definition clone_members :: "'h world \<Rightarrow> u8 \<Rightarrow> string \<Rightarrow> string set" where
  "clone_members w i s = (case slot_state w i of
     Some (TokCloneLeases s' ls) \<Rightarrow> if s' = s then set ls else {} | _ \<Rightarrow> {})"

lemma slot_state_clones:
  "slot_state w i = Some (TokCloneLeases s ls) \<Longrightarrow> is_id_shaped s \<and> canonical_lessees ls"
  using parse_token_clone_canonical by (auto simp: slot_state_def)

lemma clone_members_trans:
  assumes "slot_trans a st st'" and "st = Some (TokCloneLeases s ls)" and "r \<in> set ls" and "a \<noteq> ActRelease s r"
  shows "\<exists>ls'. st' = Some (TokCloneLeases s ls') \<and> r \<in> set ls'"
  using assms by (induction rule: slot_trans.induct) auto

lemma clone_members_step:
  assumes "slot_event_ok e" and "r \<in> clone_members w i s" and "slot_action_of e \<noteq> ActRelease s r"
  shows "r \<in> clone_members (slot_step e w) i s"
proof -
  obtain ls where ls: "slot_state w i = Some (TokCloneLeases s ls)" "r \<in> set ls"
    using assms(2) by (auto simp: clone_members_def split: option.splits slot_token.splits if_splits)
  show ?thesis
    using slot_step_trans[OF assms(1), of w i]
  proof
    assume "slot_trans (slot_action_of e) (slot_state w i) (slot_state (slot_step e w) i)"
    from clone_members_trans[OF this ls assms(3)] show ?thesis by (auto simp: clone_members_def)
  qed (use assms(2) in \<open>simp add: clone_members_def\<close>)
qed

text \<open>C5. The clone lease set is bounded, duplicate free and loses only the member that leaves. In every
  history the members of a clone lease set number at most eight, are all id-shaped, and a member is still
  in the set after every step that is not a release or teardown in its own name, whatever its siblings,
  other rooms and reconciliation do and whatever fails.\<close>

theorem clone_lease_membership:
  assumes "\<forall>e \<in> set es. slot_event_ok e \<and> slot_action_of e \<noteq> ActRelease s r"
    and "r \<in> clone_members w i s"
  shows "r \<in> clone_members (fold slot_step es w) i s
    \<and> card (clone_members (fold slot_step es w) i s) \<le> 8
    \<and> (\<forall>x \<in> clone_members (fold slot_step es w) i s. is_id_shaped x)"
proof -
  have m: "r \<in> clone_members (fold slot_step es w) i s"
    using assms by (induction es arbitrary: w) (auto intro: clone_members_step)
  moreover have "card (clone_members v i s) \<le> 8 \<and> (\<forall>x \<in> clone_members v i s. is_id_shaped x)" for v :: "'a world"
  proof (cases "\<exists>ls. slot_state v i = Some (TokCloneLeases s ls)")
    case True
    then obtain ls where "slot_state v i = Some (TokCloneLeases s ls)" by blast
    moreover from slot_state_clones[OF this] have "length ls \<le> 8" "\<forall>x \<in> set ls. is_id_shaped x"
      by (simp_all add: canonical_lessees_def MAX_CLONE_LEASES_def list_all_iff)
    ultimately show ?thesis using card_length[of ls] by (simp add: clone_members_def)
  next
    case False
    then have "clone_members v i s = {}" by (auto simp: clone_members_def split: option.splits slot_token.splits)
    then show ?thesis by simp
  qed
  ultimately show ?thesis by blast
qed

definition demo_clones :: "unit world" where
  "demo_clones = \<lparr>dirs = (\<lambda>_. True),
     files = (\<lambda>p. if p = (''slots'', ''1'') then Some (clone_leases_token demo_owner [demo_owner]) else None), host = ()\<rparr>"

lemma demo_clones_state: "slot_state demo_clones 1 = Some (TokCloneLeases demo_owner [demo_owner])"
  by (simp add: slot_state_def demo_clones_def SLOTS_DIR_def parse_clone_leases_token canonical_lessees_def
      MAX_CLONE_LEASES_def)

theorem clone_lease_membership_witness:
  "demo_owner \<in> clone_members (fold slot_step [EvLease demo_env 1 demo_owner demo_owner,
      EvFree demo_env 1 demo_owner (\<lambda>h. (Inr (), h))] demo_clones) 1 demo_owner"
  using clone_lease_membership[of "[EvLease demo_env 1 demo_owner demo_owner,
      EvFree demo_env 1 demo_owner (\<lambda>h. (Inr (), h))]" demo_owner demo_owner demo_clones 1]
  by (simp add: slot_event_ok_def clone_members_def demo_clones_state)

text \<open>With no failing system call, the outcome of every lease operation is a function of the abstract state.\<close>

definition slot_ready :: "io_env \<Rightarrow> u8 \<Rightarrow> 'h world \<Rightarrow> bool" where
  "slot_ready env i w \<longleftrightarrow> no_faults env \<and> 0 < i \<and> i \<le> MAX_SLOT \<and> dirs w SLOTS_DIR"

lemma slot_ready_index: "slot_ready env i w \<Longrightarrow> ensure_pool_index i = Inr ()"
  by (auto simp: slot_ready_def ensure_pool_index_def word_gt_0)

lemma slot_ready_lock: "slot_ready env i w \<Longrightarrow> slot_lock_frees env = Inr ()"
  by (simp add: slot_ready_def slot_lock_frees_def lock_frees_def)

lemma slot_ready_locked:
  assumes "slot_ready env i w"
  shows "locked_slot env i w = Inr (files w (SLOTS_DIR, show_u8 i))"
  using assms slot_ready_index[OF assms] slot_ready_lock[OF assms]
  by (cases "files w (SLOTS_DIR, show_u8 i)") (simp_all add: locked_slot_def slot_ready_def read_to_string_def)

lemma slot_ready_rewrite:
  assumes "slot_ready env i w"
  obtains w' where "rewrite_slot_atomic env i body w = (Inr (), w')" "slot_ready env i w'"
    "files w' (SLOTS_DIR, show_u8 i) = Some body"
proof -
  obtain w' where w': "rewrite_atomic env SLOTS_DIR i body w = (Inr (), w')" "files w' (SLOTS_DIR, show_u8 i) = Some body"
    using rewrite_atomic_total[of env w SLOTS_DIR i body] assms by (auto simp: slot_ready_def)
  have "slot_ready env i w'" using rewrite_atomic_effect[OF w'(1)] assms by (simp add: slot_ready_def)
  then show ?thesis using that w' by (simp add: rewrite_slot_atomic_def map_err_def)
qed

lemma slot_ready_sync: "slot_ready env i w \<Longrightarrow> slot_sync_dir env = Inr ()"
  by (simp add: slot_ready_def slot_sync_dir_def sync_dir_def)

text \<open>Leasing a clone, in full: without failing system calls and with id-shaped ids the result of
  \<open>lease_clone\<close> is determined by the slot's state. It joins (or finds itself in) the set of a plain
  reservation or a clone set of this snapshot with room left; a flat lease or a full set of eight is
  \<open>LeaseHeld\<close>; anything else is \<open>NotReserved\<close>. On success the set is the old one plus this room, on
  failure the slot is unchanged.\<close>

theorem lease_clone_decision:
  assumes "slot_ready env i w" and "is_id_shaped s" and "is_id_shaped r"
  shows "(let (res, w') = lease_clone env i s r w in
     (case slot_state w i of
        Some (TokReserved s') \<Rightarrow> if s' = s then res = Inr (derive i) else res = Inl (SlotNotReserved i)
      | Some (TokCloneLeases s' ls) \<Rightarrow>
          if s' \<noteq> s then res = Inl (SlotNotReserved i)
          else if r \<in> set ls \<or> length ls < 8 then res = Inr (derive i)
          else res = Inl (SlotLeaseHeld i)
      | Some (TokLeased s' _) \<Rightarrow> if s' = s then res = Inl (SlotLeaseHeld i) else res = Inl (SlotNotReserved i)
      | _ \<Rightarrow> res = Inl (SlotNotReserved i))
     \<and> (if res = Inr (derive i) then clone_members w' i s = insert r (clone_members w i s)
        else slot_state w' i = slot_state w i))"
proof -
  note pre = slot_ready_index[OF assms(1)] slot_ready_locked[OF assms(1)] slot_ready_sync[OF assms(1)]
  show ?thesis
  proof (cases "files w (SLOTS_DIR, show_u8 i)")
    case None
    then show ?thesis using assms(2,3) by (simp add: lease_clone_def pre slot_state_def)
  next
    case (Some c)
    then have st: "slot_state w i = Some (parse_token c)" by (simp add: slot_state_def)
    show ?thesis
    proof (cases "parse_token c")
      case (TokReserved s')
      obtain w' where w': "rewrite_slot_atomic env i (clone_leases_token s [r]) w = (Inr (), w')"
        using slot_ready_rewrite[OF assms(1)] by blast
      have "parse_token (clone_leases_token s [r]) = TokCloneLeases s [r]"
        using assms(2,3) by (simp add: parse_clone_leases_token canonical_lessees_def MAX_CLONE_LEASES_def)
      then show ?thesis
        using assms(2,3) TokReserved st w' rewrite_slot_ok[OF w']
        by (simp add: lease_clone_def pre Some clone_members_def)
    next
      case (TokCloneLeases s' ls)
      note can = parse_token_clone_canonical[OF TokCloneLeases]
      then have sorted: "sorted_wrt (<) ls" and len: "length ls \<le> 8"
        by (simp_all add: canonical_lessees_def MAX_CLONE_LEASES_def)
      show ?thesis
      proof (cases "binary_search ls r")
        case (Inr k)
        then have "r \<in> set ls" using binary_search_member[OF sorted, of r] by auto
        then show ?thesis
          using assms(2,3) TokCloneLeases st Inr by (auto simp: lease_clone_def pre Some clone_members_def insert_absorb)
      next
        case (Inl k)
        then have nr: "r \<notin> set ls" using binary_search_member[OF sorted, of r] by auto
        obtain w' where w': "rewrite_slot_atomic env i (clone_leases_token s (insert_at k r ls)) w = (Inr (), w')"
          using slot_ready_rewrite[OF assms(1)] by blast
        show ?thesis
        proof (cases "s' = s \<and> length ls \<noteq> MAX_CLONE_LEASES")
          case True
          then have ins: "set (insert_at k r ls) = insert r (set ls)" "canonical_lessees (insert_at k r ls)"
            using canonical_insert[OF _ Inl _ assms(3)] can by blast+
          show ?thesis
            using assms(2,3) TokCloneLeases st Inl True nr len ins w' rewrite_slot_ok[OF w']
              parse_clone_leases_token[OF assms(2) ins(2)]
            by (simp add: lease_clone_def pre Some clone_members_def MAX_CLONE_LEASES_def)
        qed (use assms(2,3) TokCloneLeases st Inl nr len in
            \<open>auto simp: lease_clone_def pre Some MAX_CLONE_LEASES_def\<close>)
      qed
    qed (use assms(2,3) st Some in \<open>auto simp: lease_clone_def pre\<close>)
  qed
qed

lemma demo_clones_ready: "slot_ready demo_env 1 demo_clones"
  by (simp add: slot_ready_def demo_clones_def MAX_SLOT_def word_le_nat_alt word_less_nat_alt)

theorem lease_clone_decision_witness:
  "fst (lease_clone demo_env 1 demo_owner demo_owner demo_clones) = Inr (derive 1)"
  using lease_clone_decision[OF demo_clones_ready demo_owner_shaped demo_owner_shaped]
  by (auto simp: demo_clones_state Let_def case_prod_unfold)

lemma sorted_set_unique: "sorted_wrt (<) xs \<Longrightarrow> sorted_wrt (<) ys \<Longrightarrow> set xs = set ys \<Longrightarrow> (xs :: 'a :: linorder list) = ys"
  using strict_sorted_equal by blast

lemma release_after_insert:
  assumes "is_id_shaped s" and "canonical_lessees ls" and "r \<notin> set ls" and "set ls' = insert r (set ls)" and "canonical_lessees ls'"
  shows "clone_token_after_release s ls' r = Some (clone_leases_token s ls)"
proof -
  have s: "sorted_wrt (<) ls" "sorted_wrt (<) ls'" using assms by (simp_all add: canonical_lessees_def)
  obtain k where k: "binary_search ls' r = Inr k" using binary_search_member[OF s(2), of r] assms(4) by auto
  have "remove_at k ls' = ls"
    using remove_at_binary_search[OF s(2) k] s(1) assms(3,4) by (intro sorted_set_unique) auto
  then show ?thesis using k assms(2) by (simp add: clone_token_after_release_def canonical_lessees_def)
qed

lemma release_lease_clones:
  assumes "slot_ready env i w" and "files w (SLOTS_DIR, show_u8 i) = Some c" and "parse_token c = TokCloneLeases s ls"
    and "clone_token_after_release s ls r = Some post"
  shows "\<exists>w'. release_lease env i s r w = (Inr Returned, w') \<and> files w' (SLOTS_DIR, show_u8 i) = Some post"
proof -
  obtain w' where "rewrite_slot_atomic env i post w = (Inr (), w')" "files w' (SLOTS_DIR, show_u8 i) = Some post"
    using slot_ready_rewrite[OF assms(1)] by metis
  then show ?thesis using assms by (simp add: release_lease_def slot_ready_locked)
qed

lemma clone_lease_then_release:
  assumes "slot_ready env i w" and "is_id_shaped s" and "is_id_shaped r"
    and "c = reservation_token s \<or> (\<exists>ls. canonical_lessees ls \<and> length ls < MAX_CLONE_LEASES \<and> r \<notin> set ls \<and> c = clone_leases_token s ls)"
    and "files w (SLOTS_DIR, show_u8 i) = Some c"
  shows "\<exists>w1 w2. lease_clone env i s r w = (Inr (derive i), w1) \<and> release_lease env i s r w1 = (Inr Returned, w2)
     \<and> files w2 (SLOTS_DIR, show_u8 i) = Some c"
proof -
  note pre = slot_ready_index[OF assms(1)] slot_ready_locked[OF assms(1)]
  define ls' where "ls' = (if c = reservation_token s then [r]
     else (case parse_token c of TokCloneLeases _ ls \<Rightarrow> (case binary_search ls r of Inl k \<Rightarrow> insert_at k r ls | Inr _ \<Rightarrow> []) | _ \<Rightarrow> []))"
  obtain w1 where w1: "rewrite_slot_atomic env i (clone_leases_token s ls') w = (Inr (), w1)" "slot_ready env i w1"
    "files w1 (SLOTS_DIR, show_u8 i) = Some (clone_leases_token s ls')"
    using slot_ready_rewrite[OF assms(1)] by blast
  have "canonical_lessees ls' \<and> clone_token_after_release s ls' r = Some c \<and> lease_clone env i s r w = (Inr (derive i), w1)"
  proof (cases "c = reservation_token s")
    case True
    have "binary_search [r] r = Inr 0" "remove_at 0 [r] = []" by (simp_all add: binary_search_def remove_at_def)
    then show ?thesis
      using True assms(2,3,5) w1(1) parse_reservation_token[OF assms(2)]
      by (simp add: ls'_def clone_token_after_release_def canonical_lessees_def MAX_CLONE_LEASES_def lease_clone_def pre)
  next
    case False
    then obtain ls where ls: "canonical_lessees ls" "length ls < MAX_CLONE_LEASES" "r \<notin> set ls" "c = clone_leases_token s ls"
      using assms(4) by blast
    have p: "parse_token c = TokCloneLeases s ls" using parse_clone_leases_token[OF assms(2) ls(1)] ls(4) by simp
    obtain k where k: "binary_search ls r = Inl k"
      using binary_search_member[of ls r] ls(1,3) by (cases "binary_search ls r") (auto simp: canonical_lessees_def)
    have l': "ls' = insert_at k r ls" using False p k by (simp add: ls'_def)
    note ins = canonical_insert[OF ls(1) k _ assms(3)]
    show ?thesis
      using ins ls(2) release_after_insert[OF assms(2) ls(1) ls(3), of ls'] w1(1) p k assms(2,3,5) ls(4)
      by (auto simp: l' lease_clone_def pre)
  qed
  then show ?thesis
    using release_lease_clones[OF w1(2,3) parse_clone_leases_token[OF assms(2)]] by blast
qed

lemma flat_lease_then_release:
  assumes "slot_ready env i w" and "is_id_shaped s" and "is_id_shaped r" and "files w (SLOTS_DIR, show_u8 i) = Some (reservation_token s)"
  shows "\<exists>w1 w2. lease env i s r w = (Inr (derive i), w1) \<and> slot_state w1 i = Some (TokLeased s r) \<and> release_lease env i s r w1 = (Inr Returned, w2)
     \<and> files w2 (SLOTS_DIR, show_u8 i) = Some (reservation_token s)"
proof -
  obtain w1 where w1: "rewrite_slot_atomic env i (lease_token s r) w = (Inr (), w1)" "slot_ready env i w1"
    "files w1 (SLOTS_DIR, show_u8 i) = Some (lease_token s r)" using slot_ready_rewrite[OF assms(1)] by blast
  obtain w2 where w2: "rewrite_slot_atomic env i (reservation_token s) w1 = (Inr (), w2)" "files w2 (SLOTS_DIR, show_u8 i) = Some (reservation_token s)"
    using slot_ready_rewrite[OF w1(2)] by metis
  have "lease env i s r w = (Inr (derive i), w1)"
    using assms(4) w1(1) by (simp add: lease_def slot_ready_locked[OF assms(1)] parse_reservation_token[OF assms(2)])
  moreover have "release_lease env i s r w1 = (Inr Returned, w2)"
    using w1(3) w2(1) by (simp add: release_lease_def slot_ready_locked[OF w1(2)] parse_lease_token[OF assms(2,3)])
  moreover have "slot_state w1 i = Some (TokLeased s r)" using w1(3) by (simp add: slot_state_def parse_lease_token[OF assms(2,3)])
  ultimately show ?thesis using w2(2) by blast
qed

lemma demo_reserved_ready: "slot_ready demo_env 1 demo_reserved"
  by (simp add: slot_ready_def demo_reserved_def MAX_SLOT_def word_le_nat_alt word_less_nat_alt)

text \<open>C6. Leasing and then releasing is a round trip on the slot file, for both kinds of lease.  From the reservation
  of a snapshot, or from a clone set with room in it of which the room is not yet a member, a clone lease succeeds
  with the addresses of the slot and its release leaves the file byte for byte as it was.  From the reservation, a
  flat lease records exactly that room as the lessee, and its release leaves the reservation byte for byte.  (A
  room that already holds its clone lease is excluded: leasing again is idempotent, and the release then removes
  the membership that was there before.)\<close>

theorem lease_then_release_restores:
  assumes "slot_ready env i w" and "is_id_shaped s" and "is_id_shaped r" and "files w (SLOTS_DIR, show_u8 i) = Some c"
  shows "(c = reservation_token s \<or> (\<exists>ls. canonical_lessees ls \<and> length ls < MAX_CLONE_LEASES \<and> r \<notin> set ls \<and> c = clone_leases_token s ls)
      \<longrightarrow> (\<exists>w1 w2. lease_clone env i s r w = (Inr (derive i), w1) \<and> release_lease env i s r w1 = (Inr Returned, w2)
         \<and> files w2 (SLOTS_DIR, show_u8 i) = Some c))
   \<and> (c = reservation_token s
      \<longrightarrow> (\<exists>w1 w2. lease env i s r w = (Inr (derive i), w1) \<and> slot_state w1 i = Some (TokLeased s r)
         \<and> release_lease env i s r w1 = (Inr Returned, w2) \<and> files w2 (SLOTS_DIR, show_u8 i) = Some c))"
  using clone_lease_then_release[OF assms(1-3) _ assms(4)] flat_lease_then_release[OF assms(1-3)] assms(4) by blast

theorem lease_then_release_restores_witness:
  "(\<exists>w1 w2. lease_clone demo_env 1 demo_owner demo_owner demo_reserved = (Inr (derive 1), w1)
     \<and> release_lease demo_env 1 demo_owner demo_owner w1 = (Inr Returned, w2)
     \<and> files w2 (SLOTS_DIR, show_u8 1) = Some (reservation_token demo_owner))
   \<and> (\<exists>w1 w2. lease demo_env 1 demo_owner demo_owner demo_reserved = (Inr (derive 1), w1)
     \<and> slot_state w1 1 = Some (TokLeased demo_owner demo_owner)
     \<and> release_lease demo_env 1 demo_owner demo_owner w1 = (Inr Returned, w2)
     \<and> files w2 (SLOTS_DIR, show_u8 1) = Some (reservation_token demo_owner))"
  using lease_then_release_restores[OF demo_reserved_ready demo_owner_shaped demo_owner_shaped,
      of "reservation_token demo_owner"]
  by (simp add: demo_reserved_def SLOTS_DIR_def)

subsection \<open>Addresses\<close>

lemma slot_octets:
  assumes "i \<le> MAX_SLOT"
  shows "unat (4 * i) = 4 * unat i" "unat (4 * i + 1) = 4 * unat i + 1" "unat (4 * i + 2) = 4 * unat i + 2"
proof -
  have "unat i \<le> 63" using assms by (simp add: MAX_SLOT_def word_le_nat_alt)
  then show "unat (4 * i) = 4 * unat i" "unat (4 * i + 1) = 4 * unat i + 1" "unat (4 * i + 2) = 4 * unat i + 2"
    by (simp_all add: unat_word_ariths)
qed

lemma ipv4_to_u32_slot: "unat (ipv4_to_u32 (172, 16, 0, d)) = 0xAC100000 + unat d"
proof -
  have "ipv4_to_u32 (172, 16, 0, d) = of_nat (0xAC100000 + unat d)" by (simp add: ipv4_to_u32_def)
  then show ?thesis using unat_u8_le[of d] by (simp only: unat_of_nat) simp
qed

text \<open>C7. Slots never share addresses: for every claimable index the octets do not overflow, the gateway and
  the guest both lie in the /30 number \<open>0x2B040000 + index\<close>, so distinct slots have distinct taps and
  disjoint networks, and none of them meets the legacy addresses of slot 0.\<close>

theorem slot_addresses_disjoint:
  assumes "0 < i" and "i \<le> MAX_SLOT" and "0 < j" and "j \<le> MAX_SLOT"
  shows "unat (4 * i) = 4 * unat i
    \<and> unat (ipv4_to_u32 (slot_gateway (derive i))) = 4 * (0x2B040000 + unat i) + 1
    \<and> unat (ipv4_to_u32 (slot_guest (derive i))) = 4 * (0x2B040000 + unat i) + 2
    \<and> (i \<noteq> j \<longrightarrow> slot_tap (derive i) \<noteq> slot_tap (derive j)
         \<and> {slot_gateway (derive i), slot_guest (derive i)} \<inter> {slot_gateway (derive j), slot_guest (derive j)} = {})
    \<and> {slot_gateway (derive i), slot_guest (derive i)} \<inter> {(172, 16, 0, 1), (172, 16, 0, 2)} = {}"
proof -
  note oi = slot_octets[OF assms(2)] and oj = slot_octets[OF assms(4)]
  have pos: "0 < unat i" using assms(1) by (simp add: word_less_nat_alt)
  have neq: "4 * i + a \<noteq> 4 * j + b" if "i \<noteq> j" "a = 1 \<or> a = 2" "b = 1 \<or> b = 2" for a b
  proof
    assume "4 * i + a = 4 * j + b"
    then have "unat (4 * i + a) = unat (4 * j + b)" by simp
    then have "unat i = unat j" using that(2,3) oi oj by auto
    then show False using that(1) by (simp add: word_unat_eq_iff)
  qed
  have zero: "4 * i + a \<noteq> b" if "a = 1 \<or> a = 2" "b = 1 \<or> b = 2" for a b
  proof
    assume "4 * i + a = b"
    then have "unat (4 * i + a) = unat b" by simp
    then show False using that oi pos by auto
  qed
  show ?thesis
    using oi neq[of 1 1] neq[of 1 2] neq[of 2 1] neq[of 2 2] zero[of 1 1] zero[of 1 2] zero[of 2 1] zero[of 2 2]
    by (auto simp: derive_def Let_def ipv4_to_u32_slot)
qed

theorem slot_addresses_disjoint_witness:
  "slot_gateway (derive 1) \<noteq> slot_gateway (derive 2)
   \<and> unat (ipv4_to_u32 (slot_guest (derive 63))) = 4 * (0x2B040000 + 63) + 2"
  using slot_addresses_disjoint[of 1 2] slot_addresses_disjoint[of 63 1]
  by (auto simp: MAX_SLOT_def word_le_nat_alt word_less_nat_alt)

subsection \<open>Reconciling slots\<close>

text \<open>A slot is reclaimed from a dead claimer only when no room directory remains and its network was
  cleaned up. If reconciling an observed entry takes a well-formed claim away, then the claimer was dead,
  the room recorded in the claim has no directory under the state base, and the cleanup of this very index
  ran and succeeded; if a directory remains the slot is left to the reap flow.\<close>

theorem slot_reclaim_conditions:
  assumes "slot_state w i = Some (TokClaimed r p st)"
    and "slot_state (slot_step (EvReconcile env i observed cleanup) w) i \<noteq> Some (TokClaimed r p st)"
  shows "claimer_liveness env p st = Dead \<and> \<not> dirs w r \<and> fst (cleanup i (host w)) = Inr ()
    \<and> host (slot_step (EvReconcile env i observed cleanup) w) = snd (cleanup i (host w))"
proof -
  obtain c where c: "files w (SLOTS_DIR, show_u8 i) = Some c"
    and pc: "parse_claim c = Some \<lparr>ct_owner_id = r, ct_pid = p, ct_starttime = st\<rparr>"
    using assms(1) parse_token_claimed by (auto simp: slot_state_def)
  let ?d = "\<lparr>dc_name = show_u8 i, dc_index = i, dc_expected = observed, dc_owner_id = r\<rparr>"
  obtain x w' where x: "reconcile_observed env SLOT_POOL (show_u8 i) i observed (slot_reclaimer cleanup) w = (x, w')"
    by (cases "reconcile_observed env SLOT_POOL (show_u8 i) i observed (slot_reclaimer cleanup) w")
  have changed: "files w' \<noteq> files w" using assms x by (auto simp: slot_state_def)
  then have o: "observed = c" "reclaimable env observed" using reconcile_observed_effect[OF x] c by auto
  then have dead: "claimer_liveness env p st = Dead" using pc by (simp add: reclaimable_def)
  then have d: "reconcile_dead env SLOT_POOL ?d (slot_reclaimer cleanup) w = (x, w')"
    using x o pc by (simp add: reconcile_observed_def)
  have rm: "fst (slot_reclaimer cleanup i r w) = Inr RemoveClaim"
    using reconcile_dead_effect[OF d] changed by auto
  then have cl: "\<not> dirs w r" "fst (cleanup i (host w)) = Inr ()" "snd (slot_reclaimer cleanup i r w) = snd (cleanup i (host w))"
    by (auto simp: slot_reclaimer_def split: if_splits prod.splits sum.splits)
  have "host w' = snd (slot_reclaimer cleanup i r w)"
    using d changed rm
    by (auto simp: reconcile_dead_def remove_file_def split: sum.splits if_splits prod.splits option.splits reconcile_action.splits)
  then show ?thesis using dead cl x by simp
qed

definition demo_dead :: "unit world" where
  "demo_dead = \<lparr>dirs = (\<lambda>d. d = ''slots''),
     files = (\<lambda>p. if p = (''slots'', ''1'') then Some (claim_text demo_owner demo_me) else None), host = ()\<rparr>"

theorem slot_reclaim_conditions_witness:
  "slot_state demo_dead 1 = Some (TokClaimed demo_owner 7 42)
   \<and> slot_state (slot_step (EvReconcile demo_env 1 (claim_text demo_owner demo_me) (\<lambda>i h. (Inr (), h))) demo_dead) 1 = None
   \<and> claimer_liveness demo_env 7 42 = Dead"
proof -
  have s: "slot_state demo_dead 1 = Some (TokClaimed demo_owner 7 42)"
    by (simp add: slot_state_def demo_dead_def SLOTS_DIR_def parse_token_claimed parse_claim_text) (simp add: demo_me_def)
  have l: "claimer_liveness demo_env 7 42 = Dead" by (simp add: claimer_liveness_def demo_env_def)
  have ne: "demo_owner \<noteq> ''slots''" by (simp add: demo_owner_def)
  have m: "cl_pid demo_me = 7" "cl_starttime demo_me = 42" by (simp_all add: demo_me_def)
  have f: "slot_state (slot_step (EvReconcile demo_env 1 (claim_text demo_owner demo_me) (\<lambda>i h. (Inr (), h))) demo_dead) 1 = None"
    by (simp add: reconcile_observed_def parse_claim_text m l reconcile_dead_def lock_frees_def read_to_string_def
        SLOTS_DIR_def slot_reclaimer_def demo_dead_def ne slot_state_def)
  show ?thesis
    using slot_reclaim_conditions[OF s, of demo_env "claim_text demo_owner demo_me" "\<lambda>i h. (Inr (), h)"] s f by simp
qed

end
