(* ===== verification/Snapshot.thy ===== *)
theory Snapshot
  imports Slot
begin

text \<open>
  \<open>src/src/snapshot.rs\<close>: the snapshot policy. \<open>plan\<close> decides, as pure data, whether a base may be
  frozen, the order of the Firecracker calls and the metadata; \<open>write_meta_atomic\<close> persists the
  metadata. Paths are strings; JSON text comes from \<open>serde_json\<close>, a parameter.
\<close>

definition SNAPSHOT_SCHEMA_VERSION :: u32 where "SNAPSHOT_SCHEMA_VERSION = 1"
definition TOOLSTORE_SNAPSHOT_SCHEMA_VERSION :: u32 where "TOOLSTORE_SNAPSHOT_SCHEMA_VERSION = 2"
definition SNAPSHOT_META_FILE :: string where "SNAPSHOT_META_FILE = ''snapshot.json''"
definition SNAPSHOT_VMSTATE_FILE :: string where "SNAPSHOT_VMSTATE_FILE = ''snapshot.vmstate''"
definition SNAPSHOT_MEM_FILE :: string where "SNAPSHOT_MEM_FILE = ''snapshot.mem''"

datatype snapshot_error = NotNeutral "provenance option" | ActiveVsock | MissingSlot

datatype fc_op = PauseVm | CreateFullSnapshot string string

record snapshot_meta =
  sm_schema_version :: u32
  sm_snapshot_id :: string
  sm_created_at :: datetime
  sm_fc_version :: string
  sm_rootfs_hash :: string
  sm_base_room_id :: string
  sm_slot_index :: "u8 option"
  sm_guest_ip :: "ipv4 option"
  sm_base_repo_sha :: "string option"
  sm_toolstore_sha256 :: "string option"
  sm_provenance :: provenance

record snapshot_request =
  sr_out_dir :: string
  sr_snapshot_id :: string
  sr_fc_version :: string
  sr_rootfs_hash :: string
  sr_base_repo_sha :: "string option"
  sr_toolstore_sha256 :: "string option"
  sr_active_vsock :: bool

record snapshot_plan =
  sp_ops :: "fc_op list"
  sp_meta :: snapshot_meta
  sp_host_vmstate :: string
  sp_host_mem :: string
  sp_meta_path :: string

definition plan :: "room_meta \<Rightarrow> snapshot_request \<Rightarrow> datetime \<Rightarrow> snapshot_error + snapshot_plan" where
  "plan base req now =
     (if \<not> is_snapshottable base then Inl (NotNeutral (rm_provenance base))
      else if sr_active_vsock req then Inl ActiveVsock
      else case rm_slot base of
        None \<Rightarrow> Inl MissingSlot
      | Some slot \<Rightarrow>
          Inr \<lparr>sp_ops = [PauseVm, CreateFullSnapshot (''/'' @ SNAPSHOT_VMSTATE_FILE) (''/'' @ SNAPSHOT_MEM_FILE)],
               sp_meta =
                 \<lparr>sm_schema_version = (case sr_toolstore_sha256 req of
                      Some _ \<Rightarrow> TOOLSTORE_SNAPSHOT_SCHEMA_VERSION | None \<Rightarrow> SNAPSHOT_SCHEMA_VERSION),
                  sm_snapshot_id = sr_snapshot_id req, sm_created_at = now,
                  sm_fc_version = sr_fc_version req, sm_rootfs_hash = sr_rootfs_hash req,
                  sm_base_room_id = rm_id base, sm_slot_index = Some (slot_index slot),
                  sm_guest_ip = Some (slot_guest slot), sm_base_repo_sha = sr_base_repo_sha req,
                  sm_toolstore_sha256 = sr_toolstore_sha256 req, sm_provenance = Neutral\<rparr>,
               sp_host_vmstate = path_join (sr_out_dir req) SNAPSHOT_VMSTATE_FILE,
               sp_host_mem = path_join (sr_out_dir req) SNAPSHOT_MEM_FILE,
               sp_meta_path = path_join (sr_out_dir req) SNAPSHOT_META_FILE\<rparr>)"

subsection \<open>Persisting the metadata\<close>

definition SNAPSHOT_META_TMP :: string where "SNAPSHOT_META_TMP = ''.snapshot.json.tmp''"

definition set_private_file :: "io_env \<Rightarrow> string \<Rightarrow> string \<Rightarrow> io_error + unit" where
  "set_private_file env d n = check_fault env (SetPermissions d n)"

text \<open>The target is its parent directory, if it has one, and its file name.\<close>

definition write_meta_atomic ::
  "(snapshot_meta \<Rightarrow> string + string) \<Rightarrow> io_env \<Rightarrow> string option \<times> string \<Rightarrow> snapshot_meta \<Rightarrow> 'h world
     \<Rightarrow> (io_error + unit) \<times> 'h world" where
  "write_meta_atomic to_vec_pretty env path m w = (case to_vec_pretty m of
     Inl e \<Rightarrow> (Inl (InvalidData e), w)
   | Inr json \<Rightarrow>
       (case fst path of
          None \<Rightarrow> (Inl (InvalidInput ''snapshot meta path has no parent dir''), w)
        | Some dir \<Rightarrow>
            and_then (open_truncate env dir SNAPSHOT_META_TMP w) (\<lambda>_ w.
            and_then (set_private_file env dir SNAPSHOT_META_TMP, w) (\<lambda>_ w.
            and_then (write_all env dir SNAPSHOT_META_TMP json w) (\<lambda>_ w.
            and_then (check_fault env (SyncAll dir SNAPSHOT_META_TMP), w) (\<lambda>_ w.
            and_then (rename_file env dir SNAPSHOT_META_TMP (snd path) w) (\<lambda>_ w.
            (sync_dir env dir, w))))))))"

subsection \<open>Facts\<close>

lemma plan_Inr:
  assumes "plan base req now = Inr p"
  obtains sl where "is_snapshottable base" "\<not> sr_active_vsock req" "rm_slot base = Some sl"
    "sm_slot_index (sp_meta p) = Some (slot_index sl)" "sm_guest_ip (sp_meta p) = Some (slot_guest sl)"
    "sm_provenance (sp_meta p) = Neutral" "sm_fc_version (sp_meta p) = sr_fc_version req"
    "sm_rootfs_hash (sp_meta p) = sr_rootfs_hash req" "sm_toolstore_sha256 (sp_meta p) = sr_toolstore_sha256 req"
    "sm_schema_version (sp_meta p) = (case sr_toolstore_sha256 req of
        Some _ \<Rightarrow> TOOLSTORE_SNAPSHOT_SCHEMA_VERSION | None \<Rightarrow> SNAPSHOT_SCHEMA_VERSION)"
    "sm_snapshot_id (sp_meta p) = sr_snapshot_id req" "sm_base_room_id (sp_meta p) = rm_id base"
  using assms by (auto simp: plan_def split: if_splits option.splits)

text \<open>Only a sealed, never tainted base with a slot and no open vsock connection is ever frozen. Over
  every history of seal and taint calls on a freshly built room, a plan exists exactly for a base that
  was sealed and never tainted, with the connection closed and a slot claimed; it pauses the VM before it
  creates the snapshot, hands the API chroot paths only, and records the frozen slot and guest address.\<close>

theorem plan_only_sealed_untainted_base:
  "(case plan ((foldl prov_apply (new_base i l pid st k t) ops)\<lparr>rm_slot := sl\<rparr>) req now of
      Inl _ \<Rightarrow> OpSeal \<notin> set ops \<or> OpTaint \<in> set ops \<or> sr_active_vsock req \<or> sl = None
    | Inr p \<Rightarrow> OpSeal \<in> set ops \<and> OpTaint \<notin> set ops \<and> \<not> sr_active_vsock req
        \<and> sm_slot_index (sp_meta p) = map_option slot_index sl \<and> sm_guest_ip (sp_meta p) = map_option slot_guest sl
        \<and> sl \<noteq> None
        \<and> sp_ops p = [PauseVm, CreateFullSnapshot ''/snapshot.vmstate'' ''/snapshot.mem''])"
proof -
  let ?m = "foldl prov_apply (new_base i l pid st k t) ops"
  have "is_snapshottable (?m\<lparr>rm_slot := sl\<rparr>) \<longleftrightarrow> OpSeal \<in> set ops \<and> OpTaint \<notin> set ops"
    using base_snapshottable_iff by (simp add: is_snapshottable_def)
  then show ?thesis
    by (auto simp: plan_def SNAPSHOT_VMSTATE_FILE_def SNAPSHOT_MEM_FILE_def split: option.splits)
qed

definition demo_base :: room_meta where
  "demo_base = (foldl prov_apply (new_base demo_owner None None None True 0) [OpSeal])\<lparr>rm_slot := Some (derive 1)\<rparr>"

definition demo_request :: snapshot_request where
  "demo_request = \<lparr>sr_out_dir = ''/r'', sr_snapshot_id = demo_owner, sr_fc_version = ''1.7'', sr_rootfs_hash = ''h'',
     sr_base_repo_sha = None, sr_toolstore_sha256 = Some ''t'', sr_active_vsock = False\<rparr>"

theorem plan_only_sealed_untainted_base_witness:
  "\<exists>p. plan demo_base demo_request 0 = Inr p \<and> sm_slot_index (sp_meta p) = Some 1
     \<and> sp_ops p = [PauseVm, CreateFullSnapshot ''/snapshot.vmstate'' ''/snapshot.mem'']"
proof -
  have v: "\<not> sr_active_vsock demo_request" "slot_index (derive 1) = 1" by (simp_all add: demo_request_def derive_def)
  show ?thesis
    using plan_only_sealed_untainted_base[where i = demo_owner and l = None and pid = None and st = None and k = True
        and t = 0 and ops = "[OpSeal]" and sl = "Some (derive 1)" and req = demo_request and now = 0]
    unfolding demo_base_def[symmetric] by (cases "plan demo_base demo_request 0") (simp_all add: v)
qed

subsection \<open>The metadata write\<close>

text \<open>Snapshot metadata is replaced all or nothing. Under every combination of failing system calls the
  previous \<open>snapshot.json\<close> survives an error byte for byte unless only the final directory sync failed, a
  success means the new bytes are in place, and no file but it and the temporary one changes.\<close>

theorem snapshot_meta_all_or_nothing:
  assumes "to_vec_pretty m = Inr json" and "n \<noteq> SNAPSHOT_META_TMP"
    and "write_meta_atomic to_vec_pretty env (Some d, n) m w = (r, w')"
  shows "(case r of
       Inr _ \<Rightarrow> files w' (d, n) = Some json
     | Inl _ \<Rightarrow> files w' (d, n) = files w (d, n)
         \<or> fault env (SyncDir d) \<noteq> None \<and> files w' (d, n) = Some json)
    \<and> (\<forall>k. k \<noteq> (d, n) \<and> k \<noteq> (d, SNAPSHOT_META_TMP) \<longrightarrow> files w' k = files w k)"
  using assms
  by (auto simp: write_meta_atomic_def set_private_file_def sync_dir_def check_fault_def fs_defs and_then_def
      split: if_splits sum.splits option.splits)

theorem snapshot_meta_all_or_nothing_witness:
  "let m = \<lparr>sm_schema_version = 1, sm_snapshot_id = demo_owner, sm_created_at = 0, sm_fc_version = ''v1'',
            sm_rootfs_hash = ''h'', sm_base_room_id = demo_owner, sm_slot_index = Some 1, sm_guest_ip = None,
            sm_base_repo_sha = None, sm_toolstore_sha256 = None, sm_provenance = Neutral\<rparr>
   in files (snd (write_meta_atomic (\<lambda>_. Inr ''{}'') demo_env (Some ''r'', SNAPSHOT_META_FILE) m demo_world))
        (''r'', SNAPSHOT_META_FILE) = Some ''{}''"
proof -
  let ?m = "\<lparr>sm_schema_version = 1, sm_snapshot_id = demo_owner, sm_created_at = 0, sm_fc_version = ''v1'',
            sm_rootfs_hash = ''h'', sm_base_room_id = demo_owner, sm_slot_index = Some 1, sm_guest_ip = None,
            sm_base_repo_sha = None, sm_toolstore_sha256 = None, sm_provenance = Neutral\<rparr>"
  let ?r = "write_meta_atomic (\<lambda>_. Inr ''{}'') demo_env (Some ''r'', SNAPSHOT_META_FILE) ?m demo_world"
  have ne: "SNAPSHOT_META_FILE \<noteq> SNAPSHOT_META_TMP" by (simp add: SNAPSHOT_META_FILE_def SNAPSHOT_META_TMP_def)
  have ok: "fst ?r = Inr ()"
    by (simp add: write_meta_atomic_def fs_defs demo_world_def set_private_file_def sync_dir_def)
  then obtain w' where r: "?r = (Inr (), w')" by (cases ?r) simp
  show ?thesis
    unfolding Let_def r using snapshot_meta_all_or_nothing[OF refl ne r] by simp
qed

end
