(* ===== verification/Restore.thy ===== *)
theory Restore
  imports Snapshot
begin

text \<open>
  \<open>src/src/restore.rs\<close>: the restore policy. The compatibility guard refuses a snapshot this host cannot
  load; the plan orders custody, load, resume and the hygiene nudge.
\<close>

datatype compat_field = FcVersion | RootfsHash

definition compat_field_as_str :: "compat_field \<Rightarrow> string" where
  "compat_field_as_str f = (case f of FcVersion \<Rightarrow> ''fc_version'' | RootfsHash \<Rightarrow> ''rootfs_hash'')"

datatype restore_error =
    UnsupportedSchema u32
  | ToolstoreSchemaMismatch u32
  | ToolstoreRequired
  | ToolstoreUnexpected
  | ToolstoreMismatch
  | SnapshotIncompatible compat_field
  | NotNeutralSnapshot provenance

datatype restore_op =
    InstallCustody
  | LoadSnapshot string string
  | ResumeVm
  | ApplyHygieneNudgeAndAwaitAck

record restore_plan =
  rp_ops :: "restore_op list"

fun is_load :: "restore_op \<Rightarrow> bool" where
  "is_load (LoadSnapshot _ _) = True"
| "is_load _ = False"

definition load_index :: "restore_plan \<Rightarrow> nat option" where
  "load_index p = find_position is_load (rp_ops p)"

definition resume_index :: "restore_plan \<Rightarrow> nat option" where
  "resume_index p = find_position (\<lambda>op. op = ResumeVm) (rp_ops p)"

definition custody_index :: "restore_plan \<Rightarrow> nat option" where
  "custody_index p = find_position (\<lambda>op. op = InstallCustody) (rp_ops p)"

definition check_schema :: "snapshot_meta \<Rightarrow> restore_error + unit" where
  "check_schema snap =
     (let has_toolstore = sm_toolstore_sha256 snap \<noteq> None; found = sm_schema_version snap in
      if found = SNAPSHOT_SCHEMA_VERSION \<and> \<not> has_toolstore then Inr ()
      else if found = TOOLSTORE_SNAPSHOT_SCHEMA_VERSION \<and> has_toolstore then Inr ()
      else if found = SNAPSHOT_SCHEMA_VERSION \<or> found = TOOLSTORE_SNAPSHOT_SCHEMA_VERSION
        then Inl (ToolstoreSchemaMismatch found)
      else Inl (UnsupportedSchema found))"

definition check_toolstore :: "string option \<Rightarrow> string option \<Rightarrow> restore_error + unit" where
  "check_toolstore frozen supplied = (case (frozen, supplied) of
     (None, None) \<Rightarrow> Inr ()
   | (Some _, None) \<Rightarrow> Inl ToolstoreRequired
   | (None, Some _) \<Rightarrow> Inl ToolstoreUnexpected
   | (Some f, Some s) \<Rightarrow> if f = s then Inr () else Inl ToolstoreMismatch)"

definition check_compat ::
  "snapshot_meta \<Rightarrow> string \<Rightarrow> string \<Rightarrow> string option \<Rightarrow> restore_error + unit" where
  "check_compat snap host_fc_version host_rootfs_hash host_toolstore_sha256 =
     (case check_schema snap of
        Inl e \<Rightarrow> Inl e
      | Inr _ \<Rightarrow>
          if sm_fc_version snap \<noteq> host_fc_version then Inl (SnapshotIncompatible FcVersion)
          else if sm_rootfs_hash snap \<noteq> host_rootfs_hash then Inl (SnapshotIncompatible RootfsHash)
          else check_toolstore (sm_toolstore_sha256 snap) host_toolstore_sha256)"

definition plan_restore ::
  "snapshot_meta \<Rightarrow> string \<Rightarrow> string \<Rightarrow> string option \<Rightarrow> restore_error + restore_plan" where
  "plan_restore snap host_fc_version host_rootfs_hash host_toolstore_sha256 =
     (case check_compat snap host_fc_version host_rootfs_hash host_toolstore_sha256 of
        Inl e \<Rightarrow> Inl e
      | Inr _ \<Rightarrow>
          if sm_provenance snap \<noteq> Neutral then Inl (NotNeutralSnapshot (sm_provenance snap))
          else Inr \<lparr>rp_ops =
            [InstallCustody,
             LoadSnapshot (''/'' @ SNAPSHOT_VMSTATE_FILE) (''/'' @ SNAPSHOT_MEM_FILE),
             ResumeVm,
             ApplyHygieneNudgeAndAwaitAck]\<rparr>)"

subsection \<open>Facts\<close>

lemmas schema_defs = SNAPSHOT_SCHEMA_VERSION_def TOOLSTORE_SNAPSHOT_SCHEMA_VERSION_def

lemma check_schema_ok:
  "check_schema snap = Inr () \<longleftrightarrow>
     sm_schema_version snap = (if sm_toolstore_sha256 snap = None then 1 else 2)"
  by (auto simp: check_schema_def Let_def schema_defs)

lemma check_toolstore_ok: "check_toolstore a b = Inr () \<longleftrightarrow> a = b"
  by (auto simp: check_toolstore_def split: option.splits)

lemma check_compat_ok:
  "check_compat snap fc root ts = Inr () \<longleftrightarrow>
     check_schema snap = Inr () \<and> sm_fc_version snap = fc \<and> sm_rootfs_hash snap = root \<and> sm_toolstore_sha256 snap = ts"
  using check_toolstore_ok by (auto simp: check_compat_def split: sum.splits if_splits)

lemma plan_restore_ok:
  "(\<exists>p. plan_restore snap fc root ts = Inr p) \<longleftrightarrow> check_compat snap fc root ts = Inr () \<and> sm_provenance snap = Neutral"
  by (auto simp: plan_restore_def split: sum.splits if_splits)

text \<open>C10. A restore is admitted exactly for a snapshot this host can load: the schema is 1 without and 2
  with a toolstore, Firecracker version, root file system hash and toolstore digest are all equal to the
  host's, and the metadata attests a neutral base. Every other snapshot is refused with no operation
  planned; and in every admitted plan custody is installed and the snapshot is loaded before the guest
  resumes, each exactly once, with the load the first configuration step.\<close>

theorem restore_admission_and_order:
  "(case plan_restore snap fc root ts of
      Inl _ \<Rightarrow> sm_schema_version snap \<noteq> (if sm_toolstore_sha256 snap = None then 1 else 2)
        \<or> sm_fc_version snap \<noteq> fc \<or> sm_rootfs_hash snap \<noteq> root \<or> sm_toolstore_sha256 snap \<noteq> ts
        \<or> sm_provenance snap \<noteq> Neutral
    | Inr p \<Rightarrow> sm_schema_version snap = (if sm_toolstore_sha256 snap = None then 1 else 2)
        \<and> sm_fc_version snap = fc \<and> sm_rootfs_hash snap = root \<and> sm_toolstore_sha256 snap = ts
        \<and> sm_provenance snap = Neutral
        \<and> (\<exists>c l r. custody_index p = Some c \<and> load_index p = Some l \<and> resume_index p = Some r
             \<and> c < r \<and> l < r \<and> distinct (rp_ops p)
             \<and> (\<forall>i < l. rp_ops p ! i = InstallCustody)))"
proof (cases "plan_restore snap fc root ts")
  case (Inl e)
  then have "\<not> (check_compat snap fc root ts = Inr () \<and> sm_provenance snap = Neutral)"
    using plan_restore_ok[of snap fc root ts] by simp
  then show ?thesis using Inl by (auto simp: check_compat_ok check_schema_ok)
next
  case (Inr p)
  then have adm: "check_compat snap fc root ts = Inr ()" "sm_provenance snap = Neutral"
    using plan_restore_ok[of snap fc root ts] by auto
  have ops: "rp_ops p = [InstallCustody, LoadSnapshot (''/'' @ SNAPSHOT_VMSTATE_FILE) (''/'' @ SNAPSHOT_MEM_FILE),
      ResumeVm, ApplyHygieneNudgeAndAwaitAck]"
    using Inr adm by (auto simp: plan_restore_def)
  have "custody_index p = Some 0" "load_index p = Some 1" "resume_index p = Some 2"
    by (simp_all add: custody_index_def load_index_def resume_index_def ops)
  then show ?thesis using Inr adm by (simp add: check_compat_ok check_schema_ok ops)
qed

theorem restore_admission_and_order_witness:
  "\<exists>c l r p. plan_restore (sp_meta (projr (plan demo_base demo_request 0))) ''1.7'' ''h'' (Some ''t'') = Inr p
     \<and> custody_index p = Some c \<and> load_index p = Some l \<and> resume_index p = Some r \<and> c < r \<and> l < r"
  using restore_admission_and_order[of "sp_meta (projr (plan demo_base demo_request 0))" "''1.7''" "''h''" "Some ''t''"]
  by (auto simp: plan_def demo_base_def demo_request_def prov_defs schema_defs split: sum.splits)

text \<open>What is frozen here restores here. For every base and request the snapshot policy accepts, the
  restore policy accepts the metadata it wrote on a host with the same Firecracker version, root file
  system and toolstore, and refuses it on a host where any of the three differs.\<close>

theorem planned_snapshot_restores:
  assumes "plan base req now = Inr sp"
  shows "(\<exists>p. plan_restore (sp_meta sp) fc root ts = Inr p)
    \<longleftrightarrow> fc = sr_fc_version req \<and> root = sr_rootfs_hash req \<and> ts = sr_toolstore_sha256 req"
proof -
  obtain sl where "sm_provenance (sp_meta sp) = Neutral" "sm_fc_version (sp_meta sp) = sr_fc_version req"
    "sm_rootfs_hash (sp_meta sp) = sr_rootfs_hash req" "sm_toolstore_sha256 (sp_meta sp) = sr_toolstore_sha256 req"
    "sm_schema_version (sp_meta sp) = (case sr_toolstore_sha256 req of
        Some _ \<Rightarrow> TOOLSTORE_SNAPSHOT_SCHEMA_VERSION | None \<Rightarrow> SNAPSHOT_SCHEMA_VERSION)"
    using plan_Inr[OF assms] by metis
  then show ?thesis
    by (auto simp: plan_restore_ok check_compat_ok check_schema_ok schema_defs split: option.splits)
qed

theorem planned_snapshot_restores_witness:
  "\<exists>sp. plan demo_base demo_request 0 = Inr sp \<and> (\<exists>p. plan_restore (sp_meta sp) ''1.7'' ''h'' (Some ''t'') = Inr p)
     \<and> \<not> (\<exists>p. plan_restore (sp_meta sp) ''1.7'' ''h'' None = Inr p)"
proof -
  obtain sp where sp: "plan demo_base demo_request 0 = Inr sp"
    by (simp add: plan_def demo_base_def demo_request_def prov_defs)
  have req: "sr_fc_version demo_request = ''1.7''" "sr_rootfs_hash demo_request = ''h''"
    "sr_toolstore_sha256 demo_request = Some ''t''" by (simp_all add: demo_request_def)
  show ?thesis
    using sp planned_snapshot_restores[OF sp, of "''1.7''" "''h''" "Some ''t''"]
      planned_snapshot_restores[OF sp, of "''1.7''" "''h''" None] by (auto simp: req)
qed

end
