(* ===== verification/Matrix.thy ===== *)
theory Matrix
  imports Host_FS
begin

text \<open>
  \<open>src/src/matrix.rs\<close>: strict admission of case manifests. The JSON reader and writer of \<open>serde_json\<close>
  and the \<open>sha2\<close> digest are parameters; everything the module decides is modelled.
\<close>

definition SCHEMA :: string where "SCHEMA = ''rooms.matrix.v1''"
definition MAX_MANIFEST_BYTES :: nat where "MAX_MANIFEST_BYTES = 128 * 1024"
definition MAX_CASES :: nat where "MAX_CASES = 8"
definition MAX_CASE_ID_BYTES :: nat where "MAX_CASE_ID_BYTES = 64"
definition MAX_COMMAND_BYTES :: nat where "MAX_COMMAND_BYTES = 16 * 1024"

record matrix_case =
  mc_id :: string
  mc_command :: string
  mc_command_sha256 :: string

record matrix_manifest =
  mm_sha256 :: string
  mm_cases :: "matrix_case list"

definition matrix_count :: "matrix_manifest \<Rightarrow> u8" where
  "matrix_count m = of_nat (length (mm_cases m))"

record wire_case =
  wc_id :: string
  wc_command :: string

record wire_manifest =
  wm_schema :: string
  wm_cases :: "wire_case list"

datatype matrix_error =
    MatrixRead io_error
  | MatrixTooLarge nat
  | MatrixParse string
  | MatrixSchema string
  | MatrixCaseCount nat
  | InvalidCaseId string
  | DuplicateCaseId string
  | EmptyCommand string
  | CommandTooLarge string nat
  | CommandContainsNul string
  | MatrixCanonicalize string

definition valid_case_id :: "string \<Rightarrow> bool" where
  "valid_case_id i =
     (if i = [] \<or> length i > MAX_CASE_ID_BYTES then False
      else case i of
        [] \<Rightarrow> False
      | first # rest \<Rightarrow>
          if \<not> is_ascii_lowercase first \<and> \<not> is_ascii_digit first then False
          else list_all (\<lambda>b. is_ascii_lowercase b \<or> is_ascii_digit b \<or> b = CHR ''_'' \<or> b = CHR ''-'') rest)"

definition validate_case :: "wire_case \<Rightarrow> string set \<Rightarrow> matrix_error + string set" where
  "validate_case c ids =
     (if \<not> valid_case_id (wc_id c) then Inl (InvalidCaseId (wc_id c))
      else if wc_id c \<in> ids then Inl (DuplicateCaseId (wc_id c))
      else if trim (wc_command c) = [] then Inl (EmptyCommand (wc_id c))
      else if length (wc_command c) > MAX_COMMAND_BYTES then Inl (CommandTooLarge (wc_id c) MAX_COMMAND_BYTES)
      else if CHR 0x00 \<in> set (wc_command c) then Inl (CommandContainsNul (wc_id c))
      else Inr (insert (wc_id c) ids))"

fun validate_cases :: "wire_case list \<Rightarrow> string set \<Rightarrow> matrix_error + unit" where
  "validate_cases [] ids = Inr ()"
| "validate_cases (c # cs) ids = (case validate_case c ids of
     Inl e \<Rightarrow> Inl e | Inr ids \<Rightarrow> validate_cases cs ids)"

definition validate :: "wire_manifest \<Rightarrow> matrix_error + unit" where
  "validate m =
     (if wm_schema m \<noteq> SCHEMA then Inl (MatrixSchema (wm_schema m))
      else if \<not> (1 \<le> length (wm_cases m) \<and> length (wm_cases m) \<le> MAX_CASES)
        then Inl (MatrixCaseCount (length (wm_cases m)))
      else validate_cases (wm_cases m) {})"

definition digest :: "(string \<Rightarrow> string) \<Rightarrow> string \<Rightarrow> string" where
  "digest sha256_hex bytes = ''sha256:'' @ sha256_hex bytes"

definition load ::
  "(string \<Rightarrow> string) \<Rightarrow> (string \<Rightarrow> string + wire_manifest) \<Rightarrow> (wire_manifest \<Rightarrow> string + string)
     \<Rightarrow> io_env \<Rightarrow> string \<times> string \<Rightarrow> 'h world \<Rightarrow> matrix_error + matrix_manifest" where
  "load sha256_hex deserialize to_vec env path w =
     (case read_to_string env (fst path) (snd path) w of
        Inl e \<Rightarrow> Inl (MatrixRead e)
      | Inr contents \<Rightarrow>
          let bytes = take (MAX_MANIFEST_BYTES + 1) contents in
          if length bytes > MAX_MANIFEST_BYTES then Inl (MatrixTooLarge MAX_MANIFEST_BYTES)
          else (case deserialize bytes of
             Inl e \<Rightarrow> Inl (MatrixParse e)
           | Inr wire \<Rightarrow>
               (case validate wire of
                  Inl e \<Rightarrow> Inl e
                | Inr _ \<Rightarrow>
                    (case to_vec wire of
                       Inl e \<Rightarrow> Inl (MatrixCanonicalize e)
                     | Inr canonical \<Rightarrow>
                         Inr \<lparr>mm_sha256 = digest sha256_hex canonical,
                              mm_cases = map (\<lambda>c. \<lparr>mc_id = wc_id c, mc_command = wc_command c,
                                 mc_command_sha256 = digest sha256_hex (wc_command c)\<rparr>) (wm_cases wire)\<rparr>))))"

subsection \<open>Facts\<close>

definition command_ok :: "string \<Rightarrow> bool" where
  "command_ok c \<longleftrightarrow> (\<exists>b \<in> set c. \<not> is_whitespace b) \<and> length c \<le> 16384 \<and> CHR 0x00 \<notin> set c"

lemma trim_Nil: "trim s = [] \<longleftrightarrow> (\<forall>b \<in> set s. is_whitespace b)"
proof
  assume "trim s = []"
  then have "\<forall>b \<in> set (dropWhile is_whitespace s). is_whitespace b" by (simp add: trim_def)
  then have "dropWhile is_whitespace s = []" using hd_dropWhile[of is_whitespace s] by force
  then show "\<forall>b \<in> set s. is_whitespace b" by simp
qed (auto simp: trim_def dest: set_dropWhileD)

lemma validate_case_ok:
  "validate_case c ids = Inr ids' \<longleftrightarrow>
     valid_case_id (wc_id c) \<and> wc_id c \<notin> ids \<and> command_ok (wc_command c) \<and> ids' = insert (wc_id c) ids"
  by (auto simp: validate_case_def command_ok_def trim_Nil MAX_COMMAND_BYTES_def)

lemma validate_cases_ok:
  "validate_cases cs ids = Inr () \<longleftrightarrow>
     (\<forall>c \<in> set cs. valid_case_id (wc_id c) \<and> command_ok (wc_command c))
     \<and> distinct (map wc_id cs) \<and> ids \<inter> wc_id ` set cs = {}"
proof (induction cs arbitrary: ids)
  case (Cons c cs)
  show ?case
  proof (cases "validate_case c ids")
    case (Inl e)
    then have "\<not> (valid_case_id (wc_id c) \<and> wc_id c \<notin> ids \<and> command_ok (wc_command c))"
      using validate_case_ok[of c ids "insert (wc_id c) ids"] by simp
    then show ?thesis using Inl by auto
  next
    case (Inr ids')
    then show ?thesis using validate_case_ok[of c ids ids'] Cons.IH[of ids'] by auto
  qed
qed simp

text \<open>Admission of a matrix manifest, in full. A manifest within the byte limit is admitted exactly when
  the schema is the supported one, it has one to eight cases, the case ids are pairwise distinct and well
  formed, and every command is non-blank, at most 16 KiB and free of NUL bytes; the admitted manifest
  carries every case in order with its digest, and its clone count is exact (no truncation to eight bits).\<close>

theorem matrix_admission:
  assumes "read_to_string env d n w = Inr contents" and "length contents \<le> MAX_MANIFEST_BYTES"
    and "deserialize contents = Inr wire" and "to_vec wire = Inr canonical"
  shows "(case load sha deserialize to_vec env (d, n) w of
      Inl _ \<Rightarrow> \<not> (wm_schema wire = ''rooms.matrix.v1'' \<and> 1 \<le> length (wm_cases wire) \<and> length (wm_cases wire) \<le> 8
        \<and> distinct (map wc_id (wm_cases wire))
        \<and> (\<forall>c \<in> set (wm_cases wire). valid_case_id (wc_id c) \<and> command_ok (wc_command c)))
    | Inr m \<Rightarrow> wm_schema wire = ''rooms.matrix.v1'' \<and> distinct (map wc_id (wm_cases wire))
        \<and> (\<forall>c \<in> set (wm_cases wire). valid_case_id (wc_id c) \<and> command_ok (wc_command c))
        \<and> 1 \<le> length (mm_cases m) \<and> length (mm_cases m) \<le> 8 \<and> unat (matrix_count m) = length (mm_cases m)
        \<and> map mc_id (mm_cases m) = map wc_id (wm_cases wire)
        \<and> map mc_command (mm_cases m) = map wc_command (wm_cases wire)
        \<and> (\<forall>c \<in> set (mm_cases m). mc_command_sha256 c = ''sha256:'' @ sha (mc_command c)))"
proof -
  have v: "validate wire = Inr () \<longleftrightarrow> wm_schema wire = ''rooms.matrix.v1'' \<and> 1 \<le> length (wm_cases wire)
      \<and> length (wm_cases wire) \<le> 8 \<and> distinct (map wc_id (wm_cases wire))
      \<and> (\<forall>c \<in> set (wm_cases wire). valid_case_id (wc_id c) \<and> command_ok (wc_command c))"
    using validate_cases_ok[of "wm_cases wire" "{}"] by (auto simp: validate_def SCHEMA_def MAX_CASES_def)
  have cnt: "unat (of_nat k :: u8) = k" if "k \<le> 8" for k using that by (simp add: unat_of_nat)
  show ?thesis
  proof (cases "validate wire")
    case (Inl e)
    then show ?thesis using assms v by (simp add: load_def Let_def)
  next
    case (Inr u)
    then show ?thesis using assms v cnt
      by (simp add: load_def Let_def digest_def matrix_count_def comp_def)
  qed
qed

definition demo_wire :: wire_manifest where
  "demo_wire = \<lparr>wm_schema = ''rooms.matrix.v1'', wm_cases = [\<lparr>wc_id = ''a'', wc_command = ''ls''\<rparr>]\<rparr>"

definition demo_matrix_env :: io_env where
  "demo_matrix_env = \<lparr>fault = (\<lambda>_. None), short_write = (\<lambda>_. 0), proc_stat = (\<lambda>_. Inl NotFound)\<rparr>"

definition demo_matrix_world :: "unit world" where
  "demo_matrix_world = \<lparr>dirs = (\<lambda>_. True), files = (\<lambda>_. Some ''{}''), host = ()\<rparr>"

theorem matrix_admission_witness:
  "\<exists>m. load (\<lambda>_. ''00'') (\<lambda>_. Inr demo_wire) (\<lambda>_. Inr ''{}'') demo_matrix_env (''d'', ''m'') demo_matrix_world = Inr m
     \<and> unat (matrix_count m) = length (mm_cases m) \<and> map mc_id (mm_cases m) = [''a'']"
proof -
  let ?l = "load (\<lambda>_. ''00'') (\<lambda>_. Inr demo_wire) (\<lambda>_. Inr ''{}'') demo_matrix_env (''d'', ''m'') demo_matrix_world"
  have r: "read_to_string demo_matrix_env ''d'' ''m'' demo_matrix_world = Inr ''{}''"
    by (simp add: read_to_string_def demo_matrix_world_def demo_matrix_env_def check_fault_def)
  have "valid_case_id ''a'' \<and> command_ok ''ls''"
    by (simp add: valid_case_id_def MAX_CASE_ID_BYTES_def is_ascii_lowercase_def command_ok_def is_whitespace_def)
  then show ?thesis
    using matrix_admission[OF r, of "\<lambda>_. Inr demo_wire" demo_wire "\<lambda>_. Inr ''{}''" "''{}''" "\<lambda>_. ''00''"]
    by (cases ?l) (simp_all add: MAX_MANIFEST_BYTES_def demo_wire_def)
qed

end
