(* ===== verification/Config.thy ===== *)
theory Config
  imports Slot
begin

text \<open>
  The configuration and the path layout (\<open>src/src/config.rs\<close>). A \<open>PathBuf\<close> is its text; \<open>join\<close>,
  \<open>parent\<close> and equality follow the component rules of \<open>std::path\<close>: repeated separators and inner
  \<open>.\<close> components do not count, an absolute right operand replaces the left one. Durations are milliseconds; the
  environment variable \<open>HOME\<close> is the argument \<open>home\<close>.
\<close>

subsection \<open>Paths\<close>

datatype path_component = RootDir | CurDir | ParentDir | NormalComponent string

definition component_of :: "string \<Rightarrow> path_component option" where
  "component_of s = (if s = [] \<or> s = ''.'' then None else if s = ''..'' then Some ParentDir else Some (NormalComponent s))"

text \<open>A leading \<open>.\<close> counts only when the path is relative.\<close>

definition components :: "string \<Rightarrow> path_component list" where
  "components p = (let parts = split_on slash p; body = List.map_filter component_of parts in
     if has_root p then RootDir # body else if hd parts = ''.'' then CurDir # body else body)"

definition path_parent :: "string \<Rightarrow> path_component list option" where
  "path_parent p = (case rev (components p) of
     [] \<Rightarrow> None | RootDir # _ \<Rightarrow> None | _ # rest \<Rightarrow> Some (rev rest))"

subsection \<open>The configuration\<close>

record rooms_config =
  api_timeout :: nat
  instance_start_timeout :: nat
  api_socket_timeout :: nat
  guest_reach_timeout :: nat
  guest_reach_poll_interval :: nat
  base_provisioning_timeout :: nat
  cleanup_grace :: nat
  firecracker_binary :: string
  jailer_binary :: string
  jailer_chroot_base :: "string option"
  state_base :: "string option"
  min_firecracker_version :: "u32 \<times> u32"
  min_rootfs_bytes :: u64
  max_pool :: u8

definition default_config :: rooms_config where
  "default_config =
     \<lparr>api_timeout = 30 * 1000, instance_start_timeout = 60 * 1000, api_socket_timeout = 30 * 1000,
      guest_reach_timeout = 120 * 1000, guest_reach_poll_interval = 2 * 1000,
      base_provisioning_timeout = 30 * 60 * 1000, cleanup_grace = 5 * 1000,
      firecracker_binary = ''firecracker'', jailer_binary = ''jailer'', jailer_chroot_base = None, state_base = None,
      min_firecracker_version = (1, 7), min_rootfs_bytes = 64 * 1024 * 1024, max_pool = DEFAULT_MAX_POOL\<rparr>"

definition SNAPSHOT_INTENTS_DIR :: string where "SNAPSHOT_INTENTS_DIR = ''snapshot-intents''"
definition RESTORE_INTENTS_DIR :: string where "RESTORE_INTENTS_DIR = ''restore-intents''"
definition SNAPSHOTS_DIR :: string where "SNAPSHOTS_DIR = ''snapshots''"
definition SNAPSHOT_ATTESTATIONS_DIR :: string where "SNAPSHOT_ATTESTATIONS_DIR = ''snapshot-attestations''"

definition resolved_state_base :: "string option \<Rightarrow> rooms_config \<Rightarrow> string option" where
  "resolved_state_base home c = (case state_base c of
     Some base \<Rightarrow> Some base
   | None \<Rightarrow> map_option (\<lambda>h. path_join h ''.local/state/rooms'') home)"

definition room_dir :: "string option \<Rightarrow> rooms_config \<Rightarrow> string \<Rightarrow> string option" where
  "room_dir home c room_id = map_option (\<lambda>b. path_join b room_id) (resolved_state_base home c)"

definition slots_dir :: "string option \<Rightarrow> rooms_config \<Rightarrow> string option" where
  "slots_dir home c = map_option (\<lambda>b. path_join b SLOTS_DIR) (resolved_state_base home c)"

definition snapshot_intents_dir :: "string option \<Rightarrow> rooms_config \<Rightarrow> string option" where
  "snapshot_intents_dir home c = map_option (\<lambda>b. path_join b SNAPSHOT_INTENTS_DIR) (resolved_state_base home c)"

definition restore_intents_dir :: "string option \<Rightarrow> rooms_config \<Rightarrow> string option" where
  "restore_intents_dir home c = map_option (\<lambda>b. path_join b RESTORE_INTENTS_DIR) (resolved_state_base home c)"

definition snapshot_attestations_dir :: "string option \<Rightarrow> rooms_config \<Rightarrow> string option" where
  "snapshot_attestations_dir home c = map_option (\<lambda>b. path_join b SNAPSHOT_ATTESTATIONS_DIR) (resolved_state_base home c)"

definition snapshots_dir :: "string option \<Rightarrow> rooms_config \<Rightarrow> string option" where
  "snapshots_dir home c = map_option (\<lambda>b. path_join b SNAPSHOTS_DIR) (resolved_state_base home c)"

definition effective_max_pool :: "rooms_config \<Rightarrow> u8 option \<Rightarrow> u8" where
  "effective_max_pool c flag = min (min (case flag of None \<Rightarrow> max_pool c | Some f \<Rightarrow> f) (max_pool c)) MAX_SLOT"

definition chroot_base :: "string option \<Rightarrow> rooms_config \<Rightarrow> string option" where
  "chroot_base home c = (case jailer_chroot_base c of
     Some base \<Rightarrow> Some base
   | None \<Rightarrow> map_option (\<lambda>b. path_join b ''jailer'') (resolved_state_base home c))"

definition jail_instance_dir :: "string option \<Rightarrow> rooms_config \<Rightarrow> string \<Rightarrow> string option" where
  "jail_instance_dir home c room_id = map_option (\<lambda>b. path_join (path_join b ''firecracker'') room_id) (chroot_base home c)"

definition jail_root_dir :: "string option \<Rightarrow> rooms_config \<Rightarrow> string \<Rightarrow> string option" where
  "jail_root_dir home c room_id = map_option (\<lambda>d. path_join d ''root'') (jail_instance_dir home c room_id)"

definition jail_socket :: "string option \<Rightarrow> rooms_config \<Rightarrow> string \<Rightarrow> string option" where
  "jail_socket home c room_id = map_option (\<lambda>d. path_join d ''api.sock'') (jail_root_dir home c room_id)"

definition timeout_for_endpoint :: "rooms_config \<Rightarrow> string \<Rightarrow> nat" where
  "timeout_for_endpoint c endpoint = (if endpoint = ''/actions'' then instance_start_timeout c else api_timeout c)"

subsection \<open>Joining and taking parents\<close>

lemma split_on_append: "split_on c (a @ c # b) = split_on c a @ split_on c b"
  by (induction c a rule: split_on.induct) (auto split: list.splits simp: split_on_nonempty)

lemma map_filter_append: "List.map_filter f (xs @ ys) = List.map_filter f xs @ List.map_filter f ys"
  by (simp add: List.map_filter_def)

lemma components_join:
  assumes "base \<noteq> []" "\<not> has_root p"
  shows "components (path_join base p) = components base @ List.map_filter component_of (split_on slash p)"
proof -
  have root: "has_root (base @ s) = has_root base" for s using assms(1) by (simp add: has_root_def split: list.splits)
  have hd: "hd (split_on slash base @ s) = hd (split_on slash base)" for s by (simp add: split_on_nonempty)
  show ?thesis
  proof (cases "last base = slash")
    case False
    then show ?thesis using assms
      by (simp add: path_join_def components_def Let_def split_on_append map_filter_append root hd)
  next
    case True
    then obtain b where b: "base = b @ [slash]" using assms(1) by (metis append_butlast_last_id)
    have h: "hd (split_on slash b @ s) = hd (split_on slash b)" for s by (simp add: split_on_nonempty)
    have "components base = (if has_root base then RootDir # List.map_filter component_of (split_on slash b)
        else if hd (split_on slash b) = ''.'' then CurDir # List.map_filter component_of (split_on slash b)
        else List.map_filter component_of (split_on slash b))"
      using split_on_append[of slash b "[]"] unfolding components_def Let_def b
      by (simp add: map_filter_append h component_of_def List.map_filter_def)
    moreover have "split_on slash (base @ p) = split_on slash b @ split_on slash p" by (simp add: b split_on_append)
    ultimately show ?thesis using True assms root[of p]
      by (simp add: path_join_def components_def Let_def map_filter_append h)
  qed
qed

lemma path_parent_join:
  assumes "base \<noteq> []" "\<not> has_root p"
  shows "path_parent (path_join base p) = Some (components base)
     \<longleftrightarrow> (\<exists>c. List.map_filter component_of (split_on slash p) = [c])"
proof -
  let ?cs = "List.map_filter component_of (split_on slash p)"
  have nr: "RootDir \<notin> set ?cs" by (auto simp: List.map_filter_def component_of_def split: if_splits)
  show ?thesis
  proof (cases ?cs rule: rev_cases)
    case Nil
    have "path_parent (path_join base p) \<noteq> Some (components base)"
    proof
      assume a: "path_parent (path_join base p) = Some (components base)"
      then show False
        unfolding path_parent_def components_join[OF assms] Nil
        by (cases "rev (components base)") (auto split: path_component.splits simp: rev_swap)
    qed
    then show ?thesis by (simp add: Nil)
  next
    case (snoc cs c)
    then have "path_parent (path_join base p) = Some (components base @ cs)"
      using nr by (cases c) (auto simp: path_parent_def components_join[OF assms])
    then show ?thesis by (simp add: snoc)
  qed
qed

definition plain_name :: "string \<Rightarrow> bool" where
  "plain_name s \<longleftrightarrow> s \<noteq> [] \<and> slash \<notin> set s \<and> s \<noteq> ''.'' \<and> s \<noteq> ''..''"

lemma plain_name_component:
  "plain_name s \<Longrightarrow> \<not> has_root s \<and> List.map_filter component_of (split_on slash s) = [NormalComponent s]"
  by (auto simp: plain_name_def has_root_def component_of_def List.map_filter_def split_on_atom split: list.splits)

lemma components_join_plain:
  "plain_name s \<Longrightarrow> components (path_join base s) = components base @ [NormalComponent s]"
  using plain_name_component[of s] components_join[of base s]
  by (cases base)
    (auto simp: path_join_def components_def Let_def plain_name_def split_on_atom has_root_def component_of_def List.map_filter_def split: list.splits)

lemma plain_names [simp]: "plain_name ''jailer''" "plain_name ''firecracker''" "plain_name ''root''" "plain_name ''api.sock''"
  by (simp_all add: plain_name_def slash_def)

lemma id_shaped_plain: "is_id_shaped s \<Longrightarrow> plain_name s"
  by (auto simp: plain_name_def id_shaped_defs slash_def)

text \<open>The directories the registry and the boot path agree on, as components.\<close>

lemma room_dir_components:
  "room_dir home c i = Some d \<Longrightarrow> plain_name i \<Longrightarrow>
     \<exists>b. resolved_state_base home c = Some b \<and> components d = components b @ [NormalComponent i]"
  by (auto simp: room_dir_def components_join_plain)

lemma jail_dir_components:
  "jail_instance_dir home c i = Some d \<Longrightarrow> plain_name i \<Longrightarrow>
     \<exists>b. chroot_base home c = Some b \<and> components d = components b @ [NormalComponent ''firecracker'', NormalComponent i]"
  by (auto simp: jail_instance_dir_def components_join_plain)

lemma socket_components:
  "jail_socket home c i = Some s \<Longrightarrow> plain_name i \<Longrightarrow>
     \<exists>d. jail_instance_dir home c i = Some d \<and> components s = components d @ [NormalComponent ''root'', NormalComponent ''api.sock'']"
  by (auto simp: jail_socket_def jail_root_dir_def components_join_plain)

lemma effective_max_pool_le:
  "effective_max_pool c flag \<le> max_pool c" "effective_max_pool c flag \<le> MAX_SLOT" "effective_max_pool c (Some f) \<le> f"
  by (auto simp: effective_max_pool_def min_def split: option.splits)

subsection \<open>Path components as text\<close>

definition component_text :: "path_component \<Rightarrow> string" where
  "component_text c = (case c of RootDir \<Rightarrow> [] | CurDir \<Rightarrow> ''.'' | ParentDir \<Rightarrow> ''..'' | NormalComponent s \<Rightarrow> s)"

definition path_text :: "path_component list \<Rightarrow> string" where
  "path_text cs = (case cs of
     [] \<Rightarrow> [] | [RootDir] \<Rightarrow> [slash] | RootDir # rest \<Rightarrow> slash # join_with slash (map component_text rest)
   | _ \<Rightarrow> join_with slash (map component_text cs))"

text \<open>\<open>Path::starts_with\<close>, \<open>Path::strip_prefix\<close> and equality of paths compare components.\<close>

definition path_starts_with :: "string \<Rightarrow> string \<Rightarrow> bool" where
  "path_starts_with p base \<longleftrightarrow> prefix (components base) (components p)"

definition path_strip_prefix :: "string \<Rightarrow> string \<Rightarrow> path_component list option" where
  "path_strip_prefix p base = (if path_starts_with p base then Some (drop (length (components base)) (components p)) else None)"

definition path_eq :: "string \<Rightarrow> string \<Rightarrow> bool" where
  "path_eq a b \<longleftrightarrow> components a = components b"

definition file_stem :: "string \<Rightarrow> string" where
  "file_stem name = (case rsplit_once CHR ''.'' name of None \<Rightarrow> name | Some (stem, _) \<Rightarrow> if stem = [] then name else stem)"

end
