(* ===== verification/Step_Frame.thy ===== *)
theory Step_Frame
  imports Indexed_Claim
begin

text \<open>
  Frames of stateful operations: a preorder that relates the state before a step to the state after it. The locale derives, once
  for every such preorder, that a chain of fallible steps (\<open>?\<close>), a branch and a mapped error stay in the frame when their parts do.
\<close>

text \<open>A frame is a preorder on worlds; a chain of steps stays in it when each step does.\<close>

locale step_frame =
  fixes R :: "'w \<Rightarrow> 'w \<Rightarrow> bool"
  assumes refl: "R w w" and trans: "R w v \<Longrightarrow> R v u \<Longrightarrow> R w u"
begin

lemma chain:
  assumes "R w (snd r)" and "\<And>a v. r = (Inr a, v) \<Longrightarrow> R v (snd (k a v))"
  shows "R w (snd (and_then r k))"
proof (cases r)
  case (Pair s v)
  then show ?thesis using assms trans[of w v] by (cases s) auto
qed

lemma mapped: "R w (snd r) \<Longrightarrow> R w (snd (map_err f r))"
  by (cases r; cases "fst r") (auto simp: map_err_def)

lemma branch:
  assumes "R w (snd r)" and "\<And>e v. r = (Inl e, v) \<Longrightarrow> R v (snd (f e v))" and "\<And>a v. r = (Inr a, v) \<Longrightarrow> R v (snd (g a v))"
  shows "R w (snd (case r of (s, v) \<Rightarrow> (case s of Inl e \<Rightarrow> f e v | Inr a \<Rightarrow> g a v)))"
proof (cases r)
  case (Pair s v)
  then show ?thesis using assms trans[of w v] by (cases s) auto
qed

lemma after: "R w (snd r) \<Longrightarrow> (\<And>a v. r = (a, v) \<Longrightarrow> R v (snd (f a v))) \<Longrightarrow> R w (snd (case r of (a, v) \<Rightarrow> f a v))"
  by (cases r) (auto intro: trans)

lemma cond: "(b \<Longrightarrow> R w (snd p)) \<Longrightarrow> (\<not> b \<Longrightarrow> R w (snd q)) \<Longrightarrow> R w (snd (if b then p else q))"
  by simp

lemma on_sum: "(\<And>e. s = Inl e \<Longrightarrow> R w (snd (f e))) \<Longrightarrow> (\<And>a. s = Inr a \<Longrightarrow> R w (snd (g a))) \<Longrightarrow> R w (snd (case s of Inl e \<Rightarrow> f e | Inr a \<Rightarrow> g a))"
  by (cases s) auto

lemma on_option: "(s = None \<Longrightarrow> R w (snd f)) \<Longrightarrow> (\<And>a. s = Some a \<Longrightarrow> R w (snd (g a))) \<Longrightarrow> R w (snd (case s of None \<Rightarrow> f | Some a \<Rightarrow> g a))"
  by (cases s) auto

lemma on_pair: "(\<And>a b. s = (a, b) \<Longrightarrow> R w (snd (f a b))) \<Longrightarrow> R w (snd (case s of (a, b) \<Rightarrow> f a b))"
  by (cases s) auto

end

end
