(* ===== verification/Isolation.thy ===== *)
theory Isolation
  imports Rust_Numbers
begin

text \<open>
  \<open>src/src/isolation.rs\<close> and \<open>src/src/veth_isolation.rs\<close>: predicates over \<open>iptables -S\<close> dumps that decide
  whether the host firewall keeps guests apart. The kernel's matching is not part of the sources: where a
  theorem speaks of packets, the match relation \<open>hit\<close> is a parameter and what is needed of it is a
  hypothesis.
\<close>

subsection \<open>The flat chain\<close>

definition SUPERNET :: string where "SUPERNET = ''172.16.0.0/24''"
definition ISOLATION_DROP :: string where
  "ISOLATION_DROP = ''-A ROOMS_FWD -s '' @ SUPERNET @ '' -d '' @ SUPERNET @ '' -j DROP''"
definition FORWARD_JUMP :: string where "FORWARD_JUMP = ''-A FORWARD -j ROOMS_FWD''"
definition MATCH_SRC :: string where "MATCH_SRC = ''-s '' @ SUPERNET"
definition MATCH_DST :: string where "MATCH_DST = ''-d '' @ SUPERNET"

definition forward_jump_is_first :: "string \<Rightarrow> bool" where
  "forward_jump_is_first forward_dump \<longleftrightarrow>
     map_option trim (find (prefix ''-A FORWARD '') (lines forward_dump)) = Some FORWARD_JUMP"

definition isolation_drop_line :: "string \<Rightarrow> nat option" where
  "isolation_drop_line rooms_fwd_dump = find_position (\<lambda>line. trim line = ISOLATION_DROP) (lines rooms_fwd_dump)"

definition has_isolation_drop :: "string \<Rightarrow> bool" where
  "has_isolation_drop rooms_fwd_dump \<longleftrightarrow> isolation_drop_line rooms_fwd_dump \<noteq> None"

definition dangerous_accept :: "string \<Rightarrow> bool" where
  "dangerous_accept line =
     (if \<not> str_contains ''-j ACCEPT'' line then False
      else let names_supernet = str_contains MATCH_SRC line \<or> str_contains MATCH_DST line;
               broad = \<not> str_contains ''-s '' line \<and> \<not> str_contains ''-d '' line
                       \<and> \<not> str_contains ''-i '' line \<and> \<not> str_contains ''-o '' line
           in names_supernet \<or> broad)"

definition no_accept_before_drop :: "string \<Rightarrow> bool" where
  "no_accept_before_drop rooms_fwd_dump =
     (case (isolation_drop_line rooms_fwd_dump, find_position dangerous_accept (lines rooms_fwd_dump)) of
        (Some d, Some a) \<Rightarrow> a > d
      | (Some _, None) \<Rightarrow> True
      | _ \<Rightarrow> False)"

definition egress_accept :: "string \<Rightarrow> bool" where
  "egress_accept line \<longleftrightarrow> str_contains MATCH_SRC line \<and> str_contains ''-o '' line \<and> str_contains ''-j ACCEPT'' line"

definition drop_precedes_egress :: "string \<Rightarrow> bool" where
  "drop_precedes_egress rooms_fwd_dump =
     (case (isolation_drop_line rooms_fwd_dump, find_position egress_accept (lines rooms_fwd_dump)) of
        (Some d, Some e) \<Rightarrow> d < e
      | (Some _, None) \<Rightarrow> True
      | _ \<Rightarrow> False)"

definition rooms_fwd_isolates :: "string \<Rightarrow> bool" where
  "rooms_fwd_isolates rooms_fwd_dump \<longleftrightarrow>
     has_isolation_drop rooms_fwd_dump \<and> no_accept_before_drop rooms_fwd_dump \<and> drop_precedes_egress rooms_fwd_dump"

subsection \<open>The clone-veth chain\<close>

definition VETH_SUPERNET :: string where "VETH_SUPERNET = ''172.17.0.0/24''"
definition VETH_ISOLATION_DROP :: string where
  "VETH_ISOLATION_DROP = ''-A ROOMS_VETH_FWD -s '' @ VETH_SUPERNET @ '' -d '' @ VETH_SUPERNET @ '' -j DROP''"
definition VETH_ANTISPOOF_DROP :: string where
  "VETH_ANTISPOOF_DROP = ''-A ROOMS_VETH_FWD ! -s '' @ VETH_SUPERNET @ '' -i veth-h+ -j DROP''"
definition FLAT_FORWARD_JUMP :: string where "FLAT_FORWARD_JUMP = ''-A FORWARD -j ROOMS_FWD''"
definition VETH_INGRESS_JUMP :: string where "VETH_INGRESS_JUMP = ''-A FORWARD -i veth-h+ -j ROOMS_VETH_FWD''"
definition VETH_EGRESS_JUMP :: string where "VETH_EGRESS_JUMP = ''-A FORWARD -o veth-h+ -j ROOMS_VETH_FWD''"
definition FLAT_SUPERNET :: string where "FLAT_SUPERNET = ''172.16.0.0/24''"
definition VETH_TAIL_DROP :: string where "VETH_TAIL_DROP = ''-A ROOMS_VETH_FWD -s '' @ VETH_SUPERNET @ '' -j DROP''"
definition CLONE_EGRESS_CHAIN_PREFIX :: string where "CLONE_EGRESS_CHAIN_PREFIX = ''ROOMS_CEG_''"
definition CLONE_VETH_PREFIX :: string where "CLONE_VETH_PREFIX = ''veth-h''"
definition MAX_CLONE_VETH_INDEX :: u8 where "MAX_CLONE_VETH_INDEX = 63"
definition PRIVATE_DROPS :: "string list" where
  "PRIVATE_DROPS =
     [''-A ROOMS_VETH_FWD -s '' @ VETH_SUPERNET @ '' -d 10.0.0.0/8 -j DROP'',
      ''-A ROOMS_VETH_FWD -s '' @ VETH_SUPERNET @ '' -d 192.168.0.0/16 -j DROP'',
      ''-A ROOMS_VETH_FWD -s '' @ VETH_SUPERNET @ '' -d 172.16.0.0/12 -j DROP'']"

fun token_pair_in :: "string \<Rightarrow> string \<Rightarrow> string list \<Rightarrow> bool" where
  "token_pair_in key val [] \<longleftrightarrow> False"
| "token_pair_in key val [t] \<longleftrightarrow> False"
| "token_pair_in key val (t # v # ts) \<longleftrightarrow>
     (if t = key then v = val \<or> token_pair_in key val ts else token_pair_in key val (v # ts))"

definition has_token_pair :: "string \<Rightarrow> string \<Rightarrow> string \<Rightarrow> bool" where
  "has_token_pair line key val \<longleftrightarrow> token_pair_in key val (split_whitespace line)"

definition jumps_to :: "string \<Rightarrow> string \<Rightarrow> bool" where
  "jumps_to line chain \<longleftrightarrow> has_token_pair line ''-j'' chain \<or> has_token_pair line ''-g'' chain"

definition forward_jumps_ordered :: "string \<Rightarrow> bool" where
  "forward_jumps_ordered forward_dump =
     (case map trim (filter (prefix ''-A FORWARD '') (lines forward_dump)) of
        a # b # c # rules \<Rightarrow> a = FLAT_FORWARD_JUMP \<and> b = VETH_INGRESS_JUMP \<and> c = VETH_EGRESS_JUMP
          \<and> list_all (\<lambda>rule. \<not> jumps_to rule ''ROOMS_FWD'' \<and> \<not> jumps_to rule ''ROOMS_VETH_FWD'') rules
      | _ \<Rightarrow> False)"

fun token_after :: "string list \<Rightarrow> string list \<Rightarrow> string option" where
  "token_after keys [] = None"
| "token_after keys (t # ts) = (if t \<in> set keys then (case ts of [] \<Rightarrow> None | v # _ \<Rightarrow> Some v) else token_after keys ts)"

definition rule_target :: "string \<Rightarrow> string option" where
  "rule_target line = token_after [''-j'', ''-g''] (split_whitespace line)"

definition input_interface :: "string \<Rightarrow> string option" where
  "input_interface line = token_after [''-i''] (split_whitespace line)"

definition is_exact_flat_tap :: "string \<Rightarrow> bool" where
  "is_exact_flat_tap interface = (case strip_prefix ''tap-fc'' interface of
     None \<Rightarrow> False | Some sfx \<Rightarrow> sfx \<noteq> [] \<and> list_all is_ascii_digit sfx)"

definition negated :: "string \<Rightarrow> bool" where
  "negated line \<longleftrightarrow> ''!'' \<in> set (split_whitespace line)"

definition flat_rule_is_disjoint_from_veth :: "string \<Rightarrow> bool" where
  "flat_rule_is_disjoint_from_veth line =
     (if negated line then False
      else if has_token_pair line ''-s'' FLAT_SUPERNET then True
      else if (case input_interface line of None \<Rightarrow> False | Some i \<Rightarrow> is_exact_flat_tap i) then True
      else has_token_pair line ''-d'' FLAT_SUPERNET
        \<and> (case input_interface line of None \<Rightarrow> False
           | Some i \<Rightarrow> CHR ''+'' \<notin> set i \<and> \<not> prefix ''veth-h'' i))"

fun flat_scan :: "bool \<Rightarrow> string list \<Rightarrow> bool" where
  "flat_scan seen [] = seen"
| "flat_scan seen (line # rest) = (if \<not> flat_rule_is_disjoint_from_veth line then False else flat_scan True rest)"

definition flat_chain_falls_through_for_veth :: "string \<Rightarrow> bool" where
  "flat_chain_falls_through_for_veth chain_dump =
     flat_scan False (filter (prefix ''-A ROOMS_FWD '') (map trim (lines chain_dump)))"

definition clone_veth_index :: "string \<Rightarrow> u8 option" where
  "clone_veth_index veth = (case strip_prefix CLONE_VETH_PREFIX veth of
     None \<Rightarrow> None
   | Some sfx \<Rightarrow>
       if sfx = [] \<or> \<not> list_all is_ascii_digit sfx then None
       else (case parse_u8 sfx of
          None \<Rightarrow> None
        | Some index \<Rightarrow>
            if \<not> (1 \<le> index \<and> index \<le> MAX_CLONE_VETH_INDEX) \<or> sfx \<noteq> show_u8 index then None else Some index))"

definition clone_egress_chain :: "u8 \<Rightarrow> string" where
  "clone_egress_chain index = CLONE_EGRESS_CHAIN_PREFIX @ show_u8 index"

definition per_veth_source_index :: "string \<Rightarrow> u8 option" where
  "per_veth_source_index line = (case split_whitespace line of
     [a, b, c, d, source, e, interface, f, g] \<Rightarrow>
       if [a, b, c, d, e, f, g] = [''-A'', ''ROOMS_VETH_FWD'', ''!'', ''-s'', ''-i'', ''-j'', ''DROP''] then
         (case clone_veth_index interface of
            None \<Rightarrow> None
          | Some index \<Rightarrow> if source = ''172.17.0.'' @ show_u8 (4 * index + 2) @ ''/32'' then Some index else None)
       else None
   | _ \<Rightarrow> None)"

definition clone_egress_jump_index :: "string \<Rightarrow> u8 option" where
  "clone_egress_jump_index line = (case split_whitespace line of
     [a, b, c, veth, d, chain] \<Rightarrow>
       if [a, b, c, d] = [''-A'', ''ROOMS_VETH_FWD'', ''-i'', ''-j''] then
         (case clone_veth_index veth of
            None \<Rightarrow> None
          | Some index \<Rightarrow> if chain = clone_egress_chain index then Some index else None)
       else None
   | _ \<Rightarrow> None)"

definition egress_interface :: "string \<Rightarrow> string option" where
  "egress_interface line = (case split_whitespace line of
     [a, b, c, d, e, interface, f, g] \<Rightarrow>
       if [a, b, c, d, e, f, g] = [''-A'', ''ROOMS_VETH_FWD'', ''-s'', VETH_SUPERNET, ''-o'', ''-j'', ''ACCEPT'']
          \<and> CHR ''+'' \<notin> set interface then Some interface else None
   | _ \<Rightarrow> None)"

definition return_interface :: "string \<Rightarrow> string option" where
  "return_interface line = (case split_whitespace line of
     [a, b, c, d, e, interface, f, g, h, i, j, k] \<Rightarrow>
       if [a, b, c, d, e, f, g, h, i, j, k] =
          [''-A'', ''ROOMS_VETH_FWD'', ''-d'', VETH_SUPERNET, ''-i'', ''-m'', ''state'', ''--state'',
           ''RELATED,ESTABLISHED'', ''-j'', ''ACCEPT'']
          \<and> CHR ''+'' \<notin> set interface then Some interface else None
   | _ \<Rightarrow> None)"

text \<open>The two peeking loops of \<open>rooms_veth_fwd_isolates\<close>: \<open>None\<close> is its early \<open>return false\<close>.\<close>

fun take_bindings :: "u8 list \<Rightarrow> string list \<Rightarrow> (u8 list \<times> string list) option" where
  "take_bindings bindings [] = Some (bindings, [])"
| "take_bindings bindings (line # rules) = (case per_veth_source_index line of
     None \<Rightarrow> Some (bindings, line # rules)
   | Some index \<Rightarrow> if index \<in> set bindings then None else take_bindings (bindings @ [index]) rules)"

fun take_clone_jumps :: "u8 list \<Rightarrow> u8 list \<Rightarrow> string list \<Rightarrow> (u8 list \<times> string list) option" where
  "take_clone_jumps bindings jumps [] = Some (jumps, [])"
| "take_clone_jumps bindings jumps (line # rules) = (case clone_egress_jump_index line of
     None \<Rightarrow> Some (jumps, line # rules)
   | Some index \<Rightarrow> if index \<in> set jumps \<or> index \<notin> set bindings then None
                   else take_clone_jumps bindings (jumps @ [index]) rules)"

definition veth_rules :: "string \<Rightarrow> string list" where
  "veth_rules chain_dump = filter (prefix ''-A ROOMS_VETH_FWD '') (map trim (lines chain_dump))"

definition fixed_prefix :: "string list" where
  "fixed_prefix = VETH_ANTISPOOF_DROP # VETH_ISOLATION_DROP # PRIVATE_DROPS"

definition veth_tail_ok :: "string list \<Rightarrow> bool" where
  "veth_tail_ok rules = (case rules of
     [egress, returned, tail] \<Rightarrow>
       (case (egress_interface egress, return_interface returned) of
          (Some out, Some input) \<Rightarrow> out = input | _ \<Rightarrow> False)
       \<and> tail = VETH_TAIL_DROP
   | _ \<Rightarrow> False)"

definition rooms_veth_fwd_isolates :: "string \<Rightarrow> bool" where
  "rooms_veth_fwd_isolates chain_dump = (case take_bindings [] (veth_rules chain_dump) of
     None \<Rightarrow> False
   | Some (bindings, rules) \<Rightarrow>
       take 5 rules = fixed_prefix
       \<and> (case take_clone_jumps bindings [] (drop 5 rules) of
            None \<Rightarrow> False
          | Some (clone_jumps, rules) \<Rightarrow> veth_tail_ok rules))"

definition clone_forwarding_substrate :: "string \<Rightarrow> string \<Rightarrow> string \<Rightarrow> bool" where
  "clone_forwarding_substrate forward_dump flat_dump veth_dump \<longleftrightarrow>
     forward_jumps_ordered forward_dump \<and> flat_chain_falls_through_for_veth flat_dump \<and> rooms_veth_fwd_isolates veth_dump"

definition clone_source_binding_present :: "string \<Rightarrow> string \<Rightarrow> bool" where
  "clone_source_binding_present chain_dump veth = (case clone_veth_index veth of
     None \<Rightarrow> False
   | Some index \<Rightarrow>
       length (filter (\<lambda>c. c = index) (List.map_filter per_veth_source_index (map trim (lines chain_dump)))) = 1)"

subsection \<open>The input boundary\<close>

definition is_ascii_whitespace :: "char \<Rightarrow> bool" where
  "is_ascii_whitespace c \<longleftrightarrow> c \<in> {space, tab, newline, CHR 0x0C, carriage_return}"

definition rule_is_disjoint_from_veth :: "string \<Rightarrow> string \<Rightarrow> bool" where
  "rule_is_disjoint_from_veth line veth =
     (if negated line then False
      else (case input_interface line of None \<Rightarrow> False | Some interface \<Rightarrow> interface \<noteq> veth \<and> CHR ''+'' \<notin> set interface))"

definition prior_rule_preserves_drop :: "string \<Rightarrow> string \<Rightarrow> bool" where
  "prior_rule_preserves_drop line veth =
     (if rule_is_disjoint_from_veth line veth then True
      else rule_target line \<in> {None, Some ''DROP'', Some ''REJECT'', Some ''LOG''})"

definition veth_input_drop_present :: "string \<Rightarrow> string \<Rightarrow> bool" where
  "veth_input_drop_present input_dump veth =
     (if veth = [] \<or> length veth > 15 \<or> list_ex is_ascii_whitespace veth then False
      else (case find_position (\<lambda>line. trim line = ''-A INPUT -i '' @ veth @ '' -j DROP'') (lines input_dump) of
         None \<Rightarrow> False
       | Some d \<Rightarrow> list_all (\<lambda>line. prior_rule_preserves_drop line veth) (take d (lines input_dump))))"

subsection \<open>Facts about the flat chain\<close>

lemma trim_chars: "x \<in> set s \<Longrightarrow> x \<in> set (trim s) \<or> is_whitespace x"
proof -
  have d: "x \<in> set t \<Longrightarrow> x \<in> set (dropWhile is_whitespace t) \<or> is_whitespace x" for t
    using set_takeWhileD[of x is_whitespace t] by (metis Un_iff set_append takeWhile_dropWhile_id)
  assume "x \<in> set s"
  from d[OF this] show ?thesis using d[of "rev (dropWhile is_whitespace s)"] by (auto simp: trim_def)
qed

lemma str_contains_chars: "str_contains p s \<Longrightarrow> x \<in> set p \<Longrightarrow> x \<in> set s"
  by (auto simp: str_contains_infix)

lemma drop_line_not_accept:
  assumes "trim line = ISOLATION_DROP"
  shows "\<not> dangerous_accept line"
proof
  assume "dangerous_accept line"
  then have "str_contains ''-j ACCEPT'' line" by (simp add: dangerous_accept_def split: if_splits)
  then have "CHR ''E'' \<in> set line" by (rule str_contains_chars) simp
  then have "CHR ''E'' \<in> set ISOLATION_DROP" using trim_chars[of "CHR ''E''" line] assms by (simp add: is_whitespace_def)
  then show False by (simp add: ISOLATION_DROP_def SUPERNET_def)
qed

lemma egress_accept_dangerous: "egress_accept line \<Longrightarrow> dangerous_accept line"
  by (simp add: egress_accept_def dangerous_accept_def)

lemma find_position_not_earlier:
  "find_position P xs = Some k \<Longrightarrow> (\<forall>j \<le> k. \<not> Q (xs ! j)) \<Longrightarrow>
     (case find_position Q xs of Some a \<Rightarrow> a > k | None \<Rightarrow> True)"
  by (auto simp: find_position_Some_iff split: option.splits) (metis not_le)

lemma rooms_fwd_isolates_iff:
  "rooms_fwd_isolates dump \<longleftrightarrow> (\<exists>k < length (lines dump). trim (lines dump ! k) = ISOLATION_DROP
     \<and> (\<forall>j < k. \<not> dangerous_accept (lines dump ! j)))"
proof
  assume "rooms_fwd_isolates dump"
  then obtain k where k: "isolation_drop_line dump = Some k" and n: "no_accept_before_drop dump"
    by (auto simp: rooms_fwd_isolates_def has_isolation_drop_def)
  have kk: "k < length (lines dump)" "trim (lines dump ! k) = ISOLATION_DROP"
    using k by (auto simp: isolation_drop_line_def find_position_Some_iff)
  have "\<not> dangerous_accept (lines dump ! j)" if "j < k" for j
  proof (cases "find_position dangerous_accept (lines dump)")
    case None
    then show ?thesis using that kk(1) by (simp add: find_position_None_iff)
  next
    case (Some a)
    then have "k < a" using n k by (simp add: no_accept_before_drop_def)
    then show ?thesis using Some that by (simp add: find_position_Some_iff)
  qed
  then show "\<exists>k < length (lines dump). trim (lines dump ! k) = ISOLATION_DROP
     \<and> (\<forall>j < k. \<not> dangerous_accept (lines dump ! j))" using kk by blast
next
  assume "\<exists>k < length (lines dump). trim (lines dump ! k) = ISOLATION_DROP
     \<and> (\<forall>j < k. \<not> dangerous_accept (lines dump ! j))"
  then obtain k where k: "k < length (lines dump)" "trim (lines dump ! k) = ISOLATION_DROP"
    "\<forall>j < k. \<not> dangerous_accept (lines dump ! j)" by blast
  have "\<exists>m. isolation_drop_line dump = Some m"
    using k(1,2) find_position_None_iff[of "\<lambda>line. trim line = ISOLATION_DROP" "lines dump"]
    unfolding isolation_drop_line_def by (metis nth_mem not_None_eq)
  then obtain m where m: "isolation_drop_line dump = Some m" by blast
  have mm: "trim (lines dump ! m) = ISOLATION_DROP" "\<forall>j < m. trim (lines dump ! j) \<noteq> ISOLATION_DROP"
    using m by (auto simp: isolation_drop_line_def find_position_Some_iff)
  then have "m \<le> k" using k(2) not_le by blast
  then have d: "\<forall>j \<le> m. \<not> dangerous_accept (lines dump ! j)"
    using k(3) drop_line_not_accept[OF mm(1)] by (metis le_less less_le_trans)
  then have e: "\<forall>j \<le> m. \<not> egress_accept (lines dump ! j)" using egress_accept_dangerous by blast
  note pos = find_position_not_earlier[OF m[unfolded isolation_drop_line_def]]
  show "rooms_fwd_isolates dump"
    using pos[OF d] pos[OF e] m
    by (auto simp: rooms_fwd_isolates_def has_isolation_drop_def no_accept_before_drop_def drop_precedes_egress_def
        split: option.splits)
qed

text \<open>What the isolation check of the flat chain establishes, exactly: it passes if and only if the
  guest-to-guest DROP is one of the rules and no rule above it is an ACCEPT that names the allocator
  supernet or has no address or interface constraint at all. (The separate egress-order test adds nothing:
  an egress ACCEPT above the DROP is already such a rule.)\<close>

theorem flat_isolation_exact:
  "rooms_fwd_isolates dump \<longleftrightarrow> (\<exists>k < length (lines dump). trim (lines dump ! k) = ISOLATION_DROP
     \<and> (\<forall>j < k. \<not> (str_contains ''-j ACCEPT'' (lines dump ! j)
          \<and> (str_contains MATCH_SRC (lines dump ! j) \<or> str_contains MATCH_DST (lines dump ! j)
             \<or> (\<forall>f \<in> {''-s '', ''-d '', ''-i '', ''-o ''}. \<not> str_contains f (lines dump ! j))))))"
proof -
  have "dangerous_accept l \<longleftrightarrow> str_contains ''-j ACCEPT'' l \<and> (str_contains MATCH_SRC l \<or> str_contains MATCH_DST l
      \<or> (\<forall>f \<in> {''-s '', ''-d '', ''-i '', ''-o ''}. \<not> str_contains f l))" for l
    by (auto simp: dangerous_accept_def Let_def)
  then show ?thesis unfolding rooms_fwd_isolates_iff by simp
qed

lemma drop_only_lines: "lines (ISOLATION_DROP @ [newline]) = [ISOLATION_DROP]"
  by (subst lines_Cons) (simp_all add: ISOLATION_DROP_def SUPERNET_def strip_cr_id)

lemma trim_drop: "trim ISOLATION_DROP = ISOLATION_DROP"
  by (simp add: trim_def ISOLATION_DROP_def SUPERNET_def is_whitespace_def)

theorem flat_isolation_exact_witness: "rooms_fwd_isolates (ISOLATION_DROP @ [newline])"
  unfolding flat_isolation_exact drop_only_lines by (simp add: trim_drop)

definition scoped_accept_dump :: string where
  "scoped_accept_dump = ''-A ROOMS_FWD -i tap-fc1 -j ACCEPT'' @ [newline] @ ISOLATION_DROP @ [newline]"

lemma scoped_accept_lines: "lines scoped_accept_dump = [''-A ROOMS_FWD -i tap-fc1 -j ACCEPT'', ISOLATION_DROP]"
  unfolding scoped_accept_dump_def
  using lines_Cons[of "''-A ROOMS_FWD -i tap-fc1 -j ACCEPT''" "ISOLATION_DROP @ [newline]"]
  by (simp add: strip_cr_id drop_only_lines)

text \<open>An ACCEPT above the DROP that is scoped to one guest's tap passes the check although it matches
  that guest's traffic to every other slot.\<close>

lemma tap_scoped_accept_passes: "rooms_fwd_isolates scoped_accept_dump"
  unfolding rooms_fwd_isolates_iff scoped_accept_lines
  by (intro exI[of _ 1]) (simp add: trim_drop dangerous_accept_def MATCH_SRC_def MATCH_DST_def SUPERNET_def)

subsection \<open>Facts about the clone-veth chain\<close>

definition veth_h :: "u8 \<Rightarrow> string" where "veth_h i = CLONE_VETH_PREFIX @ show_u8 i"

lemma clone_veth_index_veth_h: "1 \<le> i \<Longrightarrow> i \<le> MAX_CLONE_VETH_INDEX \<Longrightarrow> clone_veth_index (veth_h i) = Some i"
  using show_nat_digits[of "unat i"] by (simp add: clone_veth_index_def veth_h_def list_all_iff)

lemma clone_veth_indexD: "clone_veth_index v = Some i \<Longrightarrow> v = veth_h i \<and> 1 \<le> i \<and> i \<le> MAX_CLONE_VETH_INDEX"
  by (auto simp: clone_veth_index_def veth_h_def strip_prefix_Some split: option.splits if_splits)

definition binding_tokens :: "u8 \<Rightarrow> string list" where
  "binding_tokens i = [''-A'', ''ROOMS_VETH_FWD'', ''!'', ''-s'', ''172.17.0.'' @ show_u8 (4 * i + 2) @ ''/32'', ''-i'', veth_h i,
      ''-j'', ''DROP'']"

definition jump_tokens :: "u8 \<Rightarrow> string list" where
  "jump_tokens i = [''-A'', ''ROOMS_VETH_FWD'', ''-i'', veth_h i, ''-j'', clone_egress_chain i]"

lemma per_veth_source_indexD:
  "per_veth_source_index l = Some i \<Longrightarrow> split_whitespace l = binding_tokens i \<and> 1 \<le> i \<and> i \<le> MAX_CLONE_VETH_INDEX"
  by (auto simp: per_veth_source_index_def binding_tokens_def split: list.splits option.splits if_splits
      dest!: clone_veth_indexD)

lemma clone_egress_jump_indexD:
  "clone_egress_jump_index l = Some i \<Longrightarrow> split_whitespace l = jump_tokens i \<and> 1 \<le> i \<and> i \<le> MAX_CLONE_VETH_INDEX"
  by (auto simp: clone_egress_jump_index_def jump_tokens_def split: list.splits option.splits if_splits
      dest!: clone_veth_indexD)

lemma binding_target: "per_veth_source_index l = Some i \<Longrightarrow> rule_target l = Some ''DROP''"
  by (auto simp: rule_target_def binding_tokens_def veth_h_def CLONE_VETH_PREFIX_def dest!: per_veth_source_indexD)

lemma binding_length: "per_veth_source_index l = Some i \<Longrightarrow> length (split_whitespace l) = 9"
  by (auto simp: binding_tokens_def dest!: per_veth_source_indexD)

lemma take_bindings_split:
  "take_bindings bs rules = Some (bs', rest) \<Longrightarrow> distinct bs \<Longrightarrow>
     distinct bs' \<and> (\<exists>xs is. rules = xs @ rest \<and> bs' = bs @ is \<and> map per_veth_source_index xs = map Some is)"
proof (induction rules arbitrary: bs)
  case (Cons l rules)
  show ?case
  proof (cases "per_veth_source_index l")
    case None
    then show ?thesis using Cons.prems by simp
  next
    case (Some i)
    then have i: "i \<notin> set bs" "take_bindings (bs @ [i]) rules = Some (bs', rest)"
      using Cons.prems(1) by (auto split: if_splits)
    then have "distinct (bs @ [i])" using Cons.prems(2) by simp
    from Cons.IH[OF i(2) this] obtain xs "is" where "distinct bs'" "rules = xs @ rest" "bs' = bs @ i # is"
      "map per_veth_source_index xs = map Some is" by auto
    then show ?thesis using Some by (intro conjI exI[of _ "l # xs"] exI[of _ "i # is"]) auto
  qed
qed simp

lemma take_clone_jumps_split:
  "take_clone_jumps bs js rules = Some (js', rest) \<Longrightarrow> distinct js \<Longrightarrow> set js \<subseteq> set bs \<Longrightarrow>
     distinct js' \<and> set js' \<subseteq> set bs
     \<and> (\<exists>xs is. rules = xs @ rest \<and> js' = js @ is \<and> map clone_egress_jump_index xs = map Some is)"
proof (induction rules arbitrary: js)
  case (Cons l rules)
  show ?case
  proof (cases "clone_egress_jump_index l")
    case None
    then show ?thesis using Cons.prems by simp
  next
    case (Some i)
    then have i: "i \<notin> set js" "i \<in> set bs" "take_clone_jumps bs (js @ [i]) rules = Some (js', rest)"
      using Cons.prems(1) by (auto split: if_splits)
    then have "distinct (js @ [i])" "set (js @ [i]) \<subseteq> set bs" using Cons.prems(2,3) by simp_all
    from Cons.IH[OF i(3) this] obtain xs "is" where "distinct js'" "set js' \<subseteq> set bs" "rules = xs @ rest" "js' = js @ i # is"
      "map clone_egress_jump_index xs = map Some is" by auto
    then show ?thesis using Some by (intro conjI exI[of _ "l # xs"] exI[of _ "i # is"]) auto
  qed
qed simp

lemma veth_tail_ok_iff:
  "veth_tail_ok rules \<longleftrightarrow> (\<exists>egress returned i. rules = [egress, returned, VETH_TAIL_DROP]
     \<and> egress_interface egress = Some i \<and> return_interface returned = Some i)"
  by (auto simp: veth_tail_ok_def split: list.splits option.splits)

text \<open>The whole grammar of an accepted chain.\<close>

lemma veth_chain_shape:
  assumes "rooms_veth_fwd_isolates dump"
  obtains binds bs jumps js egress returned where
    "veth_rules dump = binds @ fixed_prefix @ jumps @ [egress, returned, VETH_TAIL_DROP]"
    "map per_veth_source_index binds = map Some bs" "distinct bs"
    "map clone_egress_jump_index jumps = map Some js" "distinct js" "set js \<subseteq> set bs"
    "egress_interface egress \<noteq> None" "egress_interface egress = return_interface returned"
proof -
  obtain bs rules js egress returned where
    b: "take_bindings [] (veth_rules dump) = Some (bs, rules)" and f: "take 5 rules = fixed_prefix"
    and j: "take_clone_jumps bs [] (drop 5 rules) = Some (js, [egress, returned, VETH_TAIL_DROP])"
    and e: "egress_interface egress \<noteq> None" "egress_interface egress = return_interface returned"
    using assms
    by (auto simp: rooms_veth_fwd_isolates_def veth_tail_ok_iff split: option.splits)
  have r: "rules = fixed_prefix @ drop 5 rules" using f by (metis append_take_drop_id)
  obtain binds where "veth_rules dump = binds @ rules" "map per_veth_source_index binds = map Some bs" "distinct bs"
    using take_bindings_split[OF b] by auto
  moreover obtain jumps where "drop 5 rules = jumps @ [egress, returned, VETH_TAIL_DROP]"
    "map clone_egress_jump_index jumps = map Some js" "distinct js" "set js \<subseteq> set bs"
    using take_clone_jumps_split[OF j] by auto
  ultimately show ?thesis using that r e by metis
qed

lemma veth_fixed_tokens: "rule_target VETH_ANTISPOOF_DROP = Some ''DROP''" "rule_target VETH_ISOLATION_DROP = Some ''DROP''"
  "d \<in> set PRIVATE_DROPS \<Longrightarrow> rule_target d = Some ''DROP''"
  by (auto simp: rule_target_def VETH_ANTISPOOF_DROP_def VETH_ISOLATION_DROP_def PRIVATE_DROPS_def VETH_SUPERNET_def
      split_whitespace.simps is_whitespace_def)

lemma fixed_prefix_target: "d \<in> set fixed_prefix \<Longrightarrow> rule_target d = Some ''DROP''"
  using veth_fixed_tokens by (auto simp: fixed_prefix_def)

lemma tail_tokens: "length (split_whitespace VETH_TAIL_DROP) = 6"
  by (simp add: VETH_TAIL_DROP_def VETH_SUPERNET_def split_whitespace.simps is_whitespace_def)

lemma egress_length: "egress_interface l \<noteq> None \<Longrightarrow> length (split_whitespace l) = 8"
  by (auto simp: egress_interface_def split: list.splits)

lemma return_length: "return_interface l \<noteq> None \<Longrightarrow> length (split_whitespace l) = 12"
  by (auto simp: return_interface_def split: list.splits)

lemma find_append_Some: "\<exists>x \<in> set xs. P x \<Longrightarrow> \<exists>x \<in> set xs. find P (xs @ ys) = Some x \<and> P x"
  by (induction xs) auto

text \<open>The clone chain drops what it must before anything else is decided. For every match relation, if a
  chain passes the check, then a packet that the anti-spoofing drop, the clone-to-clone drop, one of the
  private-network drops or any per-clone source binding in the chain matches has a DROP rule as its first
  matching rule.\<close>

theorem veth_chain_drops_first:
  assumes "rooms_veth_fwd_isolates dump"
    and "l \<in> set fixed_prefix \<or> per_veth_source_index l \<noteq> None" and "l \<in> set (veth_rules dump)" and "hit l p"
  shows "\<exists>r. find (\<lambda>r. hit r p) (veth_rules dump) = Some r \<and> hit r p \<and> rule_target r = Some ''DROP''"
proof -
  obtain binds bs jumps js egress returned where
    v: "veth_rules dump = binds @ fixed_prefix @ jumps @ [egress, returned, VETH_TAIL_DROP]"
    and b: "map per_veth_source_index binds = map Some bs"
    and j: "map clone_egress_jump_index jumps = map Some js"
    and e: "egress_interface egress \<noteq> None" "egress_interface egress = return_interface returned"
    by (rule veth_chain_shape[OF assms(1)])
  have jl: "length (split_whitespace x) = 6" if "x \<in> set jumps" for x
  proof -
    have "clone_egress_jump_index x \<in> set (map Some js)" using j that by (metis image_eqI list.set_map)
    then show ?thesis using clone_egress_jump_indexD by (force simp: jump_tokens_def)
  qed
  have "l \<in> set (binds @ fixed_prefix)"
  proof (cases "l \<in> set fixed_prefix")
    case False
    then obtain i where "per_veth_source_index l = Some i" using assms(2) by auto
    then have "length (split_whitespace l) = 9" by (rule binding_length)
    then show ?thesis
      using assms(3) v jl[of l] tail_tokens egress_length[OF e(1)] return_length[of returned] e by auto
  qed simp
  then have "\<exists>x \<in> set (binds @ fixed_prefix). hit x p" using assms(4) by blast
  from find_append_Some[OF this, of "jumps @ [egress, returned, VETH_TAIL_DROP]"]
  obtain r where r: "r \<in> set (binds @ fixed_prefix)" "find (\<lambda>r. hit r p) (veth_rules dump) = Some r" "hit r p"
    using v by auto
  have "rule_target r = Some ''DROP''"
  proof (cases "r \<in> set fixed_prefix")
    case False
    then have "r \<in> set binds" using r(1) by simp
    then have "per_veth_source_index r \<in> set (map Some bs)" using b by (metis image_eqI list.set_map)
    then show ?thesis using binding_target by auto
  qed (rule fixed_prefix_target)
  then show ?thesis using r by blast
qed

lemma lines_concat:
  assumes "\<forall>l \<in> set ls. newline \<notin> set l \<and> carriage_return \<notin> set l"
  shows "lines (concat (map (\<lambda>l. l @ [newline]) ls)) = ls"
  using assms
proof (induction ls)
  case (Cons l ls)
  then show ?case using lines_Cons[of l "concat (map (\<lambda>l. l @ [newline]) ls)"] by (simp add: strip_cr_id)
qed simp

definition demo_veth_rules :: "string list" where
  "demo_veth_rules =
     ''-A ROOMS_VETH_FWD ! -s 172.17.0.6/32 -i veth-h1 -j DROP'' # fixed_prefix @
     [''-A ROOMS_VETH_FWD -i veth-h1 -j ROOMS_CEG_1'',
      ''-A ROOMS_VETH_FWD -s 172.17.0.0/24 -o eth0 -j ACCEPT'',
      ''-A ROOMS_VETH_FWD -d 172.17.0.0/24 -i eth0 -m state --state RELATED,ESTABLISHED -j ACCEPT'',
      VETH_TAIL_DROP]"

definition demo_veth_dump :: string where
  "demo_veth_dump = concat (map (\<lambda>l. l @ [newline]) demo_veth_rules)"

lemmas veth_string_defs = fixed_prefix_def VETH_ANTISPOOF_DROP_def VETH_ISOLATION_DROP_def PRIVATE_DROPS_def
  VETH_SUPERNET_def VETH_TAIL_DROP_def

lemma demo_veth_rules_of: "veth_rules demo_veth_dump = demo_veth_rules"
proof -
  have "lines demo_veth_dump = demo_veth_rules"
    unfolding demo_veth_dump_def by (rule lines_concat) (simp add: demo_veth_rules_def veth_string_defs)
  moreover have "map trim demo_veth_rules = demo_veth_rules"
    by (simp add: demo_veth_rules_def veth_string_defs trim_def is_whitespace_def)
  moreover have "filter (prefix ''-A ROOMS_VETH_FWD '') demo_veth_rules = demo_veth_rules"
    by (simp add: demo_veth_rules_def veth_string_defs)
  ultimately show ?thesis by (simp add: veth_rules_def)
qed

lemma small_u8: "show_nat 6 = ''6''" "show_nat (Suc 0) = ''1''"
  by (simp_all add: show_nat.simps digit_char_def)

lemma veth_h1: "clone_veth_index ''veth-h1'' = Some 1"
  using clone_veth_index_veth_h[of 1] by (simp add: veth_h_def CLONE_VETH_PREFIX_def MAX_CLONE_VETH_INDEX_def word_le_nat_alt small_u8)

definition demo_binding :: string where "demo_binding = ''-A ROOMS_VETH_FWD ! -s 172.17.0.6/32 -i veth-h1 -j DROP''"
definition demo_jump :: string where "demo_jump = ''-A ROOMS_VETH_FWD -i veth-h1 -j ROOMS_CEG_1''"
definition demo_egress :: string where "demo_egress = ''-A ROOMS_VETH_FWD -s 172.17.0.0/24 -o eth0 -j ACCEPT''"
definition demo_return :: string where
  "demo_return = ''-A ROOMS_VETH_FWD -d 172.17.0.0/24 -i eth0 -m state --state RELATED,ESTABLISHED -j ACCEPT''"

lemma demo_line_classes:
  "per_veth_source_index demo_binding = Some 1" "clone_egress_jump_index demo_jump = Some 1"
  "egress_interface demo_egress = Some ''eth0''" "return_interface demo_return = Some ''eth0''"
  "clone_egress_jump_index demo_egress = None"
  by (simp_all add: demo_binding_def demo_jump_def demo_egress_def demo_return_def per_veth_source_index_def
      clone_egress_jump_index_def egress_interface_def return_interface_def split_whitespace.simps is_whitespace_def veth_h1
      small_u8 clone_egress_chain_def CLONE_EGRESS_CHAIN_PREFIX_def VETH_SUPERNET_def)

lemma demo_veth_rules_alt:
  "demo_veth_rules = demo_binding # fixed_prefix @ [demo_jump, demo_egress, demo_return, VETH_TAIL_DROP]"
  by (simp add: demo_veth_rules_def demo_binding_def demo_jump_def demo_egress_def demo_return_def)

lemma demo_veth_isolates: "rooms_veth_fwd_isolates demo_veth_dump"
proof -
  have nb: "per_veth_source_index VETH_ANTISPOOF_DROP = None"
    by (simp add: per_veth_source_index_def VETH_ANTISPOOF_DROP_def VETH_SUPERNET_def split_whitespace.simps is_whitespace_def
        clone_veth_index_def CLONE_VETH_PREFIX_def strip_prefix_def is_ascii_digit_def)
  have f: "length fixed_prefix = 5" "fixed_prefix \<noteq> []" "hd fixed_prefix = VETH_ANTISPOOF_DROP"
    by (simp_all add: fixed_prefix_def PRIVATE_DROPS_def)
  then obtain ys where ys: "fixed_prefix = VETH_ANTISPOOF_DROP # ys" using list.collapse by metis
  have tb: "take_bindings [] demo_veth_rules = Some ([1], tl demo_veth_rules)"
    unfolding demo_veth_rules_alt by (simp add: demo_line_classes ys nb)
  show ?thesis
    unfolding rooms_veth_fwd_isolates_def demo_veth_rules_of tb
    by (simp add: demo_veth_rules_alt f demo_line_classes veth_tail_ok_iff)
qed

theorem veth_chain_drops_first_witness:
  "\<exists>r. find (\<lambda>r. r = VETH_ISOLATION_DROP) (veth_rules demo_veth_dump) = Some r \<and> rule_target r = Some ''DROP''"
proof -
  have "VETH_ISOLATION_DROP \<in> set fixed_prefix" by (simp add: fixed_prefix_def)
  moreover have "VETH_ISOLATION_DROP \<in> set (veth_rules demo_veth_dump)"
    by (simp add: demo_veth_rules_of demo_veth_rules_def fixed_prefix_def)
  ultimately show ?thesis
    using veth_chain_drops_first[OF demo_veth_isolates, of VETH_ISOLATION_DROP "\<lambda>r _. r = VETH_ISOLATION_DROP" "()"] by blast
qed

subsection \<open>The path around the chain\<close>

lemma flat_scan_all: "flat_scan seen rules \<Longrightarrow> r \<in> set rules \<Longrightarrow> flat_rule_is_disjoint_from_veth r"
  by (induction rules arbitrary: seen) (auto split: if_splits)

lemma exact_tap: "is_exact_flat_tap i \<Longrightarrow> prefix ''tap-fc'' i \<and> CHR ''+'' \<notin> set i"
proof -
  assume "is_exact_flat_tap i"
  then obtain r where r: "i = ''tap-fc'' @ r" "list_all is_ascii_digit r"
    by (auto simp: is_exact_flat_tap_def strip_prefix_Some split: option.splits)
  then have "CHR ''+'' \<notin> set r" by (auto simp: list_all_iff is_ascii_digit_def)
  then show ?thesis using r(1) by simp
qed

text \<open>Clone traffic passes the flat chain untouched. If the flat chain passes its check and the kernel
  honours \<open>-s\<close>, \<open>-d\<close> and exact \<open>-i\<close> matches of un-negated rules, then no rule of the flat chain matches a
  packet that comes in on a clone veth from outside the flat supernet, nor one that comes in on any other
  non-tap interface with neither address in the flat supernet.\<close>

theorem flat_chain_ignores_clones:
  assumes "flat_chain_falls_through_for_veth dump"
    and "r \<in> set (filter (prefix ''-A ROOMS_FWD '') (map trim (lines dump)))"
    and source_match: "\<And>l. \<not> negated l \<Longrightarrow> has_token_pair l ''-s'' FLAT_SUPERNET \<Longrightarrow> hit l p \<Longrightarrow> src_flat p"
    and dest_match: "\<And>l. \<not> negated l \<Longrightarrow> has_token_pair l ''-d'' FLAT_SUPERNET \<Longrightarrow> hit l p \<Longrightarrow> dst_flat p"
    and input_match: "\<And>l i. \<not> negated l \<Longrightarrow> input_interface l = Some i \<Longrightarrow> CHR ''+'' \<notin> set i \<Longrightarrow> hit l p \<Longrightarrow> in_if p = i"
    and "\<not> src_flat p"
    and "prefix ''veth-h'' (in_if p) \<or> \<not> prefix ''tap-fc'' (in_if p) \<and> \<not> dst_flat p"
  shows "\<not> hit r p"
proof
  assume h: "hit r p"
  have d: "flat_rule_is_disjoint_from_veth r"
    using assms(1,2) flat_scan_all unfolding flat_chain_falls_through_for_veth_def by blast
  then have n: "\<not> negated r" and ns: "\<not> has_token_pair r ''-s'' FLAT_SUPERNET"
    using source_match[OF _ _ h] assms(6) by (auto simp: flat_rule_is_disjoint_from_veth_def split: if_splits)
  consider i where "input_interface r = Some i" "is_exact_flat_tap i"
    | i where "input_interface r = Some i" "has_token_pair r ''-d'' FLAT_SUPERNET" "CHR ''+'' \<notin> set i" "\<not> prefix ''veth-h'' i"
    using d n ns by (auto simp: flat_rule_is_disjoint_from_veth_def split: if_splits option.splits)
  then show False
  proof cases
    case (1 i)
    then have "in_if p = i" "prefix ''tap-fc'' i" using input_match[OF n 1(1) _ h] exact_tap by blast+
    then show False using assms(7) by (auto simp: prefix_def)
  next
    case (2 i)
    then have "in_if p = i" "dst_flat p" using input_match[OF n 2(1,3) h] dest_match[OF n 2(2) h] by blast+
    then show False using assms(7) 2(4) by auto
  qed
qed

definition demo_flat_rule :: string where
  "demo_flat_rule = ''-A ROOMS_FWD -s 172.16.0.0/24 -d 172.16.0.0/24 -j DROP''"

theorem flat_chain_ignores_clones_witness:
  "\<not> (\<lambda>l p. l = demo_flat_rule \<and> p = (''tap-fc1'', True)) demo_flat_rule (''veth-h1'', False)"
proof -
  have t: "split_whitespace demo_flat_rule = [''-A'', ''ROOMS_FWD'', ''-s'', ''172.16.0.0/24'', ''-d'', ''172.16.0.0/24'', ''-j'', ''DROP'']"
    by (simp add: demo_flat_rule_def split_whitespace.simps is_whitespace_def)
  have l: "lines (demo_flat_rule @ [newline]) = [demo_flat_rule]"
    by (subst lines_Cons) (simp_all add: demo_flat_rule_def strip_cr_id)
  have tr: "trim demo_flat_rule = demo_flat_rule" by (simp add: trim_def demo_flat_rule_def is_whitespace_def)
  have pre: "prefix ''-A ROOMS_FWD '' demo_flat_rule" by (simp add: demo_flat_rule_def)
  have ok: "flat_chain_falls_through_for_veth (demo_flat_rule @ [newline])"
    unfolding flat_chain_falls_through_for_veth_def l
    by (simp add: tr pre flat_rule_is_disjoint_from_veth_def negated_def has_token_pair_def t FLAT_SUPERNET_def)
  show ?thesis
    by (rule flat_chain_ignores_clones[OF ok, where src_flat = snd and dst_flat = "\<lambda>_. False" and in_if = fst])
      (auto simp: l tr pre input_interface_def t has_token_pair_def)
qed

text \<open>The guest-to-host boundary of a closed clone. If the check passes for an interface, then the DROP for
  exactly that interface is in the chain and, for a kernel that honours exact un-negated \<open>-i\<close> matches, every
  rule above it that matches a packet from this interface can only drop, reject or log it: nothing accepts
  it or jumps elsewhere before the DROP.\<close>

theorem veth_input_boundary:
  assumes "veth_input_drop_present dump veth" and "in_if p = veth"
    and input_match: "\<And>l i. \<not> negated l \<Longrightarrow> input_interface l = Some i \<Longrightarrow> CHR ''+'' \<notin> set i \<Longrightarrow> hit l p \<Longrightarrow> in_if p = i"
  shows "\<exists>k < length (lines dump). trim (lines dump ! k) = ''-A INPUT -i '' @ veth @ '' -j DROP''
    \<and> (\<forall>j < k. hit (lines dump ! j) p \<longrightarrow>
         rule_target (lines dump ! j) \<in> {None, Some ''DROP'', Some ''REJECT'', Some ''LOG''})"
proof -
  obtain k where k: "find_position (\<lambda>line. trim line = ''-A INPUT -i '' @ veth @ '' -j DROP'') (lines dump) = Some k"
    and all: "list_all (\<lambda>line. prior_rule_preserves_drop line veth) (take k (lines dump))"
    using assms(1) by (auto simp: veth_input_drop_present_def split: if_splits option.splits)
  have kl: "k < length (lines dump)" "trim (lines dump ! k) = ''-A INPUT -i '' @ veth @ '' -j DROP''"
    using k by (auto simp: find_position_Some_iff)
  have "rule_target (lines dump ! j) \<in> {None, Some ''DROP'', Some ''REJECT'', Some ''LOG''}"
    if j: "j < k" and h: "hit (lines dump ! j) p" for j
  proof -
    have "lines dump ! j \<in> set (take k (lines dump))" using j kl(1) by (metis in_set_conv_nth length_take min.absorb4 nth_take)
    then have pr: "prior_rule_preserves_drop (lines dump ! j) veth" using all by (simp add: list_all_iff)
    moreover have "\<not> rule_is_disjoint_from_veth (lines dump ! j) veth"
      using input_match[OF _ _ _ h] assms(2) by (auto simp: rule_is_disjoint_from_veth_def split: option.splits if_splits)
    ultimately show ?thesis by (simp add: prior_rule_preserves_drop_def)
  qed
  then show ?thesis using kl by blast
qed

theorem veth_input_boundary_witness:
  "\<exists>k < length (lines (''-A INPUT -i veth-h1 -j DROP'' @ [newline])).
     trim (lines (''-A INPUT -i veth-h1 -j DROP'' @ [newline]) ! k) = ''-A INPUT -i veth-h1 -j DROP''"
proof -
  let ?l = "''-A INPUT -i veth-h1 -j DROP''"
  have l: "lines (?l @ [newline]) = [?l]" by (subst lines_Cons) (simp_all add: strip_cr_id)
  have tr: "trim ?l = ?l" by (simp add: trim_def is_whitespace_def)
  have ok: "veth_input_drop_present (?l @ [newline]) ''veth-h1''"
    unfolding veth_input_drop_present_def l by (simp add: tr is_ascii_whitespace_def)
  have "\<exists>k < length (lines (?l @ [newline])). trim (lines (?l @ [newline]) ! k) = ''-A INPUT -i '' @ ''veth-h1'' @ '' -j DROP''
    \<and> (\<forall>j < k. (\<lambda>_ _. False) (lines (?l @ [newline]) ! j) ''veth-h1'' \<longrightarrow>
         rule_target (lines (?l @ [newline]) ! j) \<in> {None, Some ''DROP'', Some ''REJECT'', Some ''LOG''})"
    by (rule veth_input_boundary[OF ok, where in_if = "\<lambda>p. p" and hit = "\<lambda>_ _. False"]) auto
  then show ?thesis by auto
qed

end
