(* ===== verification/Artifacts.thy ===== *)
theory Artifacts
  imports Rust_Numbers "HOL-Library.Product_Lexorder"
begin

text \<open>
  \<open>src/src/artifacts.rs\<close>, the parsers of untrusted bytes: the overlay change set, the host-side witness
  summary of a packet capture, and the egress policy fold. Bytes are \<open>u8\<close> lists. \<open>BTreeMap\<close> and \<open>BTreeSet\<close>
  are lists in strictly increasing key order. Loading the artifact directory of a run is not modelled
  here (files, symbolic links and JSON).
\<close>

unbundle bit_operations_syntax

type_synonym bytes = "u8 list"

subsection \<open>Slices and text\<close>

definition slice :: "nat \<Rightarrow> nat \<Rightarrow> 'a list \<Rightarrow> 'a list option" where
  "slice a b xs = (if a \<le> b \<and> b \<le> length xs then Some (take (b - a) (drop a xs)) else None)"

definition slice_from :: "nat \<Rightarrow> 'a list \<Rightarrow> 'a list option" where
  "slice_from a xs = (if a \<le> length xs then Some (drop a xs) else None)"

definition byte_at :: "nat \<Rightarrow> 'a list \<Rightarrow> 'a option" where
  "byte_at i xs = (if i < length xs then Some (xs ! i) else None)"

definition u16_from_be :: "bytes \<Rightarrow> u16" where
  "u16_from_be b = of_nat (256 * unat (b ! 0) + unat (b ! 1))"

definition char_of_byte :: "u8 \<Rightarrow> char" where
  "char_of_byte b = char_of (unat b)"

text \<open>\<open>String::from_utf8_lossy\<close>: every maximal ill-formed part becomes U+FFFD. \<open>utf8_step\<close> reads one
  character of a non-empty slice: whether it is well formed, and how many bytes it takes.\<close>

definition is_cont :: "u8 \<Rightarrow> bool" where "is_cont b \<longleftrightarrow> 0x80 \<le> b \<and> b \<le> 0xBF"

definition utf8_second_ok :: "u8 \<Rightarrow> u8 \<Rightarrow> bool" where
  "utf8_second_ok a b =
     (if a = 0xE0 then 0xA0 \<le> b \<and> b \<le> 0xBF
      else if a = 0xED then 0x80 \<le> b \<and> b \<le> 0x9F
      else if a = 0xF0 then 0x90 \<le> b \<and> b \<le> 0xBF
      else if a = 0xF4 then 0x80 \<le> b \<and> b \<le> 0x8F
      else is_cont b)"

definition utf8_width :: "u8 \<Rightarrow> nat" where
  "utf8_width a =
     (if a < 0x80 then 1 else if a < 0xC2 then 0 else if a < 0xE0 then 2 else if a < 0xF0 then 3
      else if a < 0xF5 then 4 else 0)"

fun cont_run :: "nat \<Rightarrow> bytes \<Rightarrow> nat" where
  "cont_run (Suc n) (b # bs) = (if is_cont b then Suc (cont_run n bs) else 0)"
| "cont_run _ _ = 0"

definition utf8_step :: "u8 \<Rightarrow> bytes \<Rightarrow> bool \<times> nat" where
  "utf8_step a rest =
     (let w = utf8_width a in
      if w = 0 then (False, 1)
      else if w = 1 then (True, 1)
      else case rest of
        [] \<Rightarrow> (False, 1)
      | b # bs \<Rightarrow> if \<not> utf8_second_ok a b then (False, 1)
                  else let k = cont_run (w - 2) bs in (k = w - 2, 2 + k))"

function from_utf8_lossy :: "bytes \<Rightarrow> string" where
  "from_utf8_lossy [] = []"
| "from_utf8_lossy (a # rest) =
     (case utf8_step a rest of (ok, n) \<Rightarrow>
        (if ok then map char_of_byte (take n (a # rest)) else [CHR 0xEF, CHR 0xBF, CHR 0xBD])
        @ from_utf8_lossy (drop (n - 1) rest))"
  by pat_completeness auto
termination by (relation "measure length") auto

subsection \<open>The change set\<close>

definition CHANGESET_SCHEMA_VERSION :: u32 where "CHANGESET_SCHEMA_VERSION = 1"
definition WORKSPACE_PREFIX :: string where "WORKSPACE_PREFIX = ''workspace/''"
definition EPHEMERAL_PREFIXES :: "string list" where
  "EPHEMERAL_PREFIXES = [''run/'', ''var/run/'', ''var/log/'', ''var/cache/'', ''var/tmp/'', ''tmp/'', ''dev/'', ''proc/'', ''sys/'']"

definition is_lane_escape :: "string \<Rightarrow> bool" where
  "is_lane_escape path =
     (if prefix WORKSPACE_PREFIX path then False else \<not> list_ex (\<lambda>p. prefix p path) EPHEMERAL_PREFIXES)"

record changeset =
  ch_schema_version :: u32
  ch_overlay_active :: bool
  ch_added :: "string list"
  ch_modified :: "string list"
  ch_deleted :: "string list"

definition changeset_inactive :: changeset where
  "changeset_inactive = \<lparr>ch_schema_version = CHANGESET_SCHEMA_VERSION, ch_overlay_active = False,
     ch_added = [], ch_modified = [], ch_deleted = []\<rparr>"

definition changeset_is_empty :: "changeset \<Rightarrow> bool" where
  "changeset_is_empty c \<longleftrightarrow> ch_added c = [] \<and> ch_modified c = [] \<and> ch_deleted c = []"

definition lane_escapes :: "changeset \<Rightarrow> string list" where
  "lane_escapes c = filter is_lane_escape (ch_added c @ ch_modified c @ ch_deleted c)"

definition ephemeral_count :: "changeset \<Rightarrow> nat" where
  "ephemeral_count c = length (filter (\<lambda>p. \<not> prefix WORKSPACE_PREFIX p \<and> \<not> is_lane_escape p)
     (ch_added c @ ch_modified c @ ch_deleted c))"

definition workspace_counts :: "changeset \<Rightarrow> nat \<times> nat \<times> nat" where
  "workspace_counts c =
     (let under = (\<lambda>ps. length (filter (prefix WORKSPACE_PREFIX) ps))
      in (under (ch_added c), under (ch_modified c), under (ch_deleted c)))"

definition changeset_record :: "changeset \<Rightarrow> bytes \<Rightarrow> changeset" where
  "changeset_record c record = (case record of
     [] \<Rightarrow> c
   | op # rest \<Rightarrow> (case rest of
        [] \<Rightarrow> c
      | t # path_bytes \<Rightarrow>
          if t \<noteq> 9 then c
          else let path = from_utf8_lossy path_bytes in
            if path = [] then c
            else if op = 65 then c\<lparr>ch_added := ch_added c @ [path]\<rparr>
            else if op = 77 then c\<lparr>ch_modified := ch_modified c @ [path]\<rparr>
            else if op = 68 then c\<lparr>ch_deleted := ch_deleted c @ [path]\<rparr>
            else c))"

definition NOOVERLAY :: bytes where
  "NOOVERLAY = [78, 79, 79, 86, 69, 82, 76, 65, 89]"

definition parse_changeset_stream :: "bytes \<Rightarrow> changeset" where
  "parse_changeset_stream raw =
     (if prefix NOOVERLAY raw then changeset_inactive
      else let c = foldl changeset_record
                 \<lparr>ch_schema_version = CHANGESET_SCHEMA_VERSION, ch_overlay_active = True,
                  ch_added = [], ch_modified = [], ch_deleted = []\<rparr> (split_on 0 raw)
           in c\<lparr>ch_added := sort (ch_added c), ch_modified := sort (ch_modified c), ch_deleted := sort (ch_deleted c)\<rparr>)"

subsection \<open>The witness and the egress policy\<close>

definition WITNESS_SCHEMA_VERSION :: u32 where "WITNESS_SCHEMA_VERSION = 2"

datatype egress_policy = EgressObserve | EgressNone | EgressAllowlist

record destination =
  de_ip :: string
  de_port :: u16
  de_proto :: string
  de_packets :: u64

record witness =
  wi_schema_version :: u32
  wi_tap :: string
  wi_capture_complete :: bool
  wi_egress_policy :: egress_policy
  wi_permitted :: "string list"
  wi_destinations :: "destination list"
  wi_blocked :: "destination list"
  wi_dns_queries :: "string list"

definition witness_empty :: "string \<Rightarrow> bool \<Rightarrow> witness" where
  "witness_empty tap capture_complete =
     \<lparr>wi_schema_version = WITNESS_SCHEMA_VERSION, wi_tap = tap, wi_capture_complete = capture_complete,
      wi_egress_policy = EgressObserve, wi_permitted = [], wi_destinations = [], wi_blocked = [], wi_dns_queries = []\<rparr>"

definition cidr_contains :: "string \<Rightarrow> string \<Rightarrow> ipv4 \<Rightarrow> bool" where
  "cidr_contains net pfx addr = (case parse_ipv4 net of
     None \<Rightarrow> False
   | Some base \<Rightarrow> (case parse_u8 pfx of
        None \<Rightarrow> False
      | Some bits \<Rightarrow>
          if bits > 32 then False
          else let mask = (if bits = 0 then 0 else push_bit (32 - unat bits) (- 1 :: u32))
               in and (ipv4_to_u32 base) mask = and (ipv4_to_u32 addr) mask))"

definition entry_matches :: "ipv4 \<Rightarrow> string \<Rightarrow> bool" where
  "entry_matches addr entry = (case split_once CHR ''/'' entry of
     Some (net, pfx) \<Rightarrow> cidr_contains net pfx addr
   | None \<Rightarrow> parse_ipv4 entry = Some addr)"

definition ip_permitted :: "string \<Rightarrow> string list \<Rightarrow> bool" where
  "ip_permitted ip permitted = (case parse_ipv4 ip of
     None \<Rightarrow> False | Some addr \<Rightarrow> list_ex (entry_matches addr) permitted)"

definition record_egress :: "witness \<Rightarrow> egress_policy \<Rightarrow> string list \<Rightarrow> witness" where
  "record_egress w policy permitted =
     w\<lparr>wi_blocked := (case policy of
          EgressObserve \<Rightarrow> []
        | _ \<Rightarrow> filter (\<lambda>d. \<not> ip_permitted (de_ip d) permitted) (wi_destinations w)),
       wi_egress_policy := policy, wi_permitted := permitted\<rparr>"

subsection \<open>Reading a capture\<close>

record gateway_local =
  gl_gateway :: ipv4
  gl_guest :: ipv4

datatype byte_order = Little | Big

definition byte_order_u32 :: "byte_order \<Rightarrow> bytes \<Rightarrow> u32" where
  "byte_order_u32 order b =
     (let be = (\<lambda>a b c d :: u8. of_nat (unat a * 2 ^ 24 + unat b * 2 ^ 16 + unat c * 2 ^ 8 + unat d) :: u32)
      in case order of Little \<Rightarrow> be (b ! 3) (b ! 2) (b ! 1) (b ! 0) | Big \<Rightarrow> be (b ! 0) (b ! 1) (b ! 2) (b ! 3))"

definition PCAP_GLOBAL_HEADER_LEN :: nat where "PCAP_GLOBAL_HEADER_LEN = 24"
definition PCAP_RECORD_HEADER_LEN :: nat where "PCAP_RECORD_HEADER_LEN = 16"
definition DLT_ETHERNET :: u32 where "DLT_ETHERNET = 1"
definition ETHERNET_HEADER_LEN :: nat where "ETHERNET_HEADER_LEN = 14"
definition ETHERTYPE_IPV4 :: u16 where "ETHERTYPE_IPV4 = 0x0800"
definition IP_PROTO_TCP :: u8 where "IP_PROTO_TCP = 6"
definition IP_PROTO_UDP :: u8 where "IP_PROTO_UDP = 17"
definition PORT_DNS :: u16 where "PORT_DNS = 53"
definition PORT_DHCP_SERVER :: u16 where "PORT_DHCP_SERVER = 67"
definition PORT_DHCP_CLIENT :: u16 where "PORT_DHCP_CLIENT = 68"

definition pcap_byte_order :: "bytes \<Rightarrow> byte_order option" where
  "pcap_byte_order magic =
     (if magic = [0xa1, 0xb2, 0xc3, 0xd4] \<or> magic = [0xa1, 0xb2, 0x3c, 0x4d] then Some Big
      else if magic = [0xd4, 0xc3, 0xb2, 0xa1] \<or> magic = [0x4d, 0x3c, 0xb2, 0xa1] then Some Little
      else None)"

definition parse_pcap_global_header :: "bytes \<Rightarrow> (byte_order \<times> bytes) option" where
  "parse_pcap_global_header raw = (case slice 0 PCAP_GLOBAL_HEADER_LEN raw of
     None \<Rightarrow> None
   | Some header \<Rightarrow> (case pcap_byte_order (take 4 header) of
        None \<Rightarrow> None
      | Some order \<Rightarrow>
          if byte_order_u32 order (take 4 (drop 20 header)) \<noteq> DLT_ETHERNET then None
          else map_option (Pair order) (slice_from PCAP_GLOBAL_HEADER_LEN raw)))"

definition next_packet :: "bytes \<Rightarrow> byte_order \<Rightarrow> (bytes \<times> bytes) option" where
  "next_packet rest order = (case slice 0 PCAP_RECORD_HEADER_LEN rest of
     None \<Rightarrow> None
   | Some header \<Rightarrow>
       let incl_len = unat (byte_order_u32 order (take 4 (drop 8 header)));
           start = PCAP_RECORD_HEADER_LEN; e = start + incl_len
       in case slice start e rest of
            None \<Rightarrow> None
          | Some packet \<Rightarrow> map_option (Pair packet) (slice_from e rest))"

lemma next_packet_shorter: "next_packet rest order = Some (p, tail) \<Longrightarrow> length tail < length rest"
  by (auto simp: next_packet_def slice_def slice_from_def PCAP_RECORD_HEADER_LEN_def Let_def split: option.splits if_splits)

definition octets :: "bytes \<Rightarrow> ipv4 option" where
  "octets b = (case b of [a, b, c, d] \<Rightarrow> Some (a, b, c, d) | _ \<Rightarrow> None)"

definition parse_ipv4_packet :: "bytes \<Rightarrow> (ipv4 \<times> ipv4 \<times> u8 \<times> bytes) option" where
  "parse_ipv4_packet ip = (case byte_at 0 ip of
     None \<Rightarrow> None
   | Some version_ihl \<Rightarrow>
       if drop_bit 4 version_ihl \<noteq> 4 then None
       else let ihl = unat (and version_ihl 0x0f) * 4 in
         if ihl < 20 then None
         else case slice 6 8 ip of
           None \<Rightarrow> None
         | Some frag \<Rightarrow>
             if and (u16_from_be frag) 0x1fff \<noteq> 0 then None
             else (case (byte_at 9 ip, Option.bind (slice 12 16 ip) octets, Option.bind (slice 16 20 ip) octets,
                         slice_from ihl ip) of
                (Some proto, Some src, Some dst, Some l4) \<Rightarrow> Some (src, dst, proto, l4)
              | _ \<Rightarrow> None))"

definition parse_l4 :: "u8 \<Rightarrow> bytes \<Rightarrow> (u16 \<times> bytes \<times> string) option" where
  "parse_l4 proto l4 =
     (if proto = IP_PROTO_TCP then
        (case slice 2 4 l4 of
           None \<Rightarrow> None
         | Some port \<Rightarrow>
             let payload = (case byte_at 12 l4 of
                   None \<Rightarrow> []
                 | Some b \<Rightarrow> (case slice_from (unat (drop_bit 4 b) * 4) l4 of None \<Rightarrow> [] | Some p \<Rightarrow> p))
             in Some (u16_from_be port, payload, ''tcp''))
      else if proto = IP_PROTO_UDP then
        (case slice 2 4 l4 of
           None \<Rightarrow> None
         | Some port \<Rightarrow>
             Some (u16_from_be port, (case slice_from 8 l4 of None \<Rightarrow> [] | Some p \<Rightarrow> p), ''udp''))
      else None)"

function dns_labels :: "bytes \<Rightarrow> nat \<Rightarrow> string list \<Rightarrow> string list option" where
  "dns_labels payload pos labels =
     (if pos < length payload then
        let len = payload ! pos in
        if len = 0 then Some labels
        else if and len 0xc0 \<noteq> 0 then None
        else (case slice (pos + 1) (pos + 1 + unat len) payload of
           None \<Rightarrow> None
         | Some label \<Rightarrow> dns_labels payload (pos + 1 + unat len) (labels @ [from_utf8_lossy label]))
      else None)"
  by pat_completeness auto
termination by (relation "measure (\<lambda>(payload, pos, _). length payload - pos)") auto

declare dns_labels.simps [simp del]

definition parse_dns_qname :: "bytes \<Rightarrow> string option" where
  "parse_dns_qname payload = (case slice 4 6 payload of
     None \<Rightarrow> None
   | Some q \<Rightarrow>
       if u16_from_be q = 0 then None
       else (case dns_labels payload 12 [] of
          None \<Rightarrow> None
        | Some labels \<Rightarrow> if labels = [] then None else Some (join_with CHR ''.'' labels)))"

record flow =
  fl_dst_ip :: ipv4
  fl_dst_port :: u16
  fl_proto :: string
  fl_dns_name :: "string option"

definition parse_guest_flow :: "bytes \<Rightarrow> gateway_local \<Rightarrow> flow option" where
  "parse_guest_flow frame local = (case slice 12 14 frame of
     None \<Rightarrow> None
   | Some et \<Rightarrow>
       if u16_from_be et \<noteq> ETHERTYPE_IPV4 then None
       else (case slice_from ETHERNET_HEADER_LEN frame of
          None \<Rightarrow> None
        | Some ip \<Rightarrow> (case parse_ipv4_packet ip of
             None \<Rightarrow> None
           | Some (_, dst_ip, proto, l4) \<Rightarrow>
               if dst_ip = gl_gateway local \<or> dst_ip = gl_guest local then None
               else (case parse_l4 proto l4 of
                  None \<Rightarrow> None
                | Some (dst_port, payload, proto_str) \<Rightarrow>
                    if dst_port = PORT_DHCP_SERVER \<or> dst_port = PORT_DHCP_CLIENT then None
                    else Some \<lparr>fl_dst_ip = dst_ip, fl_dst_port = dst_port, fl_proto = proto_str,
                         fl_dns_name = (if dst_port = PORT_DNS then parse_dns_qname payload else None)\<rparr>))))"

type_synonym flow_key = "ipv4 \<times> u16 \<times> string"

text \<open>\<open>*map.entry(k).or_insert(0) += 1\<close> and \<open>set.insert(x)\<close> on sorted lists.\<close>

fun bump :: "flow_key \<Rightarrow> (flow_key \<times> u64) list \<Rightarrow> (flow_key \<times> u64) list" where
  "bump k [] = [(k, 1)]"
| "bump k ((k', n) # m) =
     (if k = k' then (k', n + 1) # m else if k < k' then (k, 1) # (k', n) # m else (k', n) # bump k m)"

fun set_insert :: "'a::linorder \<Rightarrow> 'a list \<Rightarrow> 'a list" where
  "set_insert x [] = [x]"
| "set_insert x (y # ys) = (if x = y then y # ys else if x < y then x # y # ys else y # set_insert x ys)"

record flow_accumulator =
  fa_local :: gateway_local
  fa_counts :: "(flow_key \<times> u64) list"
  fa_dns :: "string list"

definition accumulator_new :: "gateway_local \<Rightarrow> flow_accumulator" where
  "accumulator_new local = \<lparr>fa_local = local, fa_counts = [], fa_dns = []\<rparr>"

definition observe :: "flow_accumulator \<Rightarrow> bytes \<Rightarrow> flow_accumulator" where
  "observe acc frame = (case parse_guest_flow frame (fa_local acc) of
     None \<Rightarrow> acc
   | Some flow \<Rightarrow>
       acc\<lparr>fa_dns := (case fl_dns_name flow of None \<Rightarrow> fa_dns acc | Some name \<Rightarrow> set_insert name (fa_dns acc)),
           fa_counts := bump (fl_dst_ip flow, fl_dst_port flow, fl_proto flow) (fa_counts acc)\<rparr>)"

definition into_witness :: "flow_accumulator \<Rightarrow> string \<Rightarrow> bool \<Rightarrow> witness" where
  "into_witness acc tap capture_complete =
     \<lparr>wi_schema_version = WITNESS_SCHEMA_VERSION, wi_tap = tap, wi_capture_complete = capture_complete,
      wi_egress_policy = EgressObserve, wi_permitted = [],
      wi_destinations = map (\<lambda>((ip, port, proto), packets).
        \<lparr>de_ip = show_ipv4 ip, de_port = port, de_proto = proto, de_packets = packets\<rparr>) (fa_counts acc),
      wi_blocked = [], wi_dns_queries = fa_dns acc\<rparr>"

function observe_packets :: "byte_order \<Rightarrow> bytes \<Rightarrow> flow_accumulator \<Rightarrow> flow_accumulator" where
  "observe_packets order rest acc = (case next_packet rest order of
     None \<Rightarrow> acc
   | Some (packet, tail) \<Rightarrow> observe_packets order tail (observe acc packet))"
  by pat_completeness auto
termination by (relation "measure (\<lambda>(_, rest, _). length rest)") (auto dest: next_packet_shorter)

declare observe_packets.simps [simp del]

definition summarize_pcap :: "bytes \<Rightarrow> string \<Rightarrow> gateway_local \<Rightarrow> bool \<Rightarrow> witness" where
  "summarize_pcap raw tap local complete = (case parse_pcap_global_header raw of
     None \<Rightarrow> witness_empty tap complete
   | Some (order, rest) \<Rightarrow> into_witness (observe_packets order rest (accumulator_new local)) tap complete)"

subsection \<open>Prefix membership\<close>

lemma mask_eq_iff:
  assumes "n \<le> 32"
  shows "and (x :: u32) (push_bit n (- 1)) = and y (push_bit n (- 1)) \<longleftrightarrow> drop_bit n x = drop_bit n y"
proof
  assume a: "and x (push_bit n (- 1)) = and y (push_bit n (- 1))"
  show "drop_bit n x = drop_bit n y"
  proof (rule bit_word_eqI)
    fix k assume k: "k < LENGTH(32)"
    have "bit (and x (push_bit n (- 1))) (n + k) = bit (and y (push_bit n (- 1))) (n + k)" using a by simp
    then show "bit (drop_bit n x) k = bit (drop_bit n y) k"
      using k by (cases "n + k < 32") (auto simp: bit_simps dest: bit_imp_le_length)
  qed
next
  assume a: "drop_bit n x = drop_bit n y"
  show "and x (push_bit n (- 1)) = and y (push_bit n (- 1))"
  proof (rule bit_word_eqI)
    fix k assume k: "k < LENGTH(32)"
    have "bit (drop_bit n x) (k - n) = bit (drop_bit n y) (k - n)" using a by simp
    then show "bit (and x (push_bit n (- 1))) k = bit (and y (push_bit n (- 1))) k"
      using k by (auto simp: bit_simps)
  qed
qed

lemma unat_drop_bit: "unat (drop_bit n (x :: u32)) = unat x div 2 ^ n"
proof -
  have "unat (drop_bit n x) = drop_bit n (unat x)"
    using unsigned_less[of x, where ?'a = nat] by (simp only: unsigned_drop_bit_eq) (simp add: take_bit_nat_eq_self)
  then show ?thesis by (simp add: drop_bit_eq_div)
qed

lemma cidr_contains_show:
  assumes "bits \<le> 32"
  shows "cidr_contains (show_ipv4 net) (show_u8 bits) addr \<longleftrightarrow>
    unat (ipv4_to_u32 net) div 2 ^ (32 - unat bits) = unat (ipv4_to_u32 addr) div 2 ^ (32 - unat bits)"
proof (cases "bits = 0")
  case True
  have "unat (x :: u32) div 2 ^ 32 = 0" for x using unsigned_less[of x, where ?'a = nat] by simp
  moreover have "parse_u8 (show_nat 0) = Some 0" using parse_show_u8[of 0] by simp
  ultimately show ?thesis using True by (simp add: cidr_contains_def)
next
  case False
  have nb: "\<not> bits > 32" using assms by simp
  have "and (ipv4_to_u32 net) (push_bit (32 - unat bits) (- 1)) = and (ipv4_to_u32 addr) (push_bit (32 - unat bits) (- 1))
     \<longleftrightarrow> drop_bit (32 - unat bits) (ipv4_to_u32 net) = drop_bit (32 - unat bits) (ipv4_to_u32 addr)"
    by (rule mask_eq_iff) simp
  also have "\<dots> \<longleftrightarrow> unat (drop_bit (32 - unat bits) (ipv4_to_u32 net)) = unat (drop_bit (32 - unat bits) (ipv4_to_u32 addr))"
    by (simp add: word_unat_eq_iff)
  finally show ?thesis using False nb by (simp add: cidr_contains_def unat_drop_bit)
qed

lemma slash_notin_show_ipv4: "CHR ''/'' \<notin> set (show_ipv4 ip)"
proof -
  have d: "CHR ''/'' \<notin> set (show_nat n)" for n using show_nat_digits[of n] by (auto simp: is_ascii_digit_def)
  obtain a b c e where ip: "ip = (a, b, c, e)" by (cases ip)
  show ?thesis
    using set_join_with[of "CHR ''.''" "[show_u8 a, show_u8 b, show_u8 c, show_u8 e]"] d
    by (auto simp: show_ipv4_def ip)
qed

text \<open>What a permitted entry permits, exactly: a plain address permits that address only; a CIDR
  entry \<open>net/bits\<close> with at most 32 bits permits exactly the addresses with the same leading bits as the
  network (all of them for \<open>/0\<close>, where the shift would overflow), and one with more than 32 bits permits
  nothing.\<close>

theorem permitted_entry_exact:
  "(entry_matches addr (show_ipv4 host) \<longleftrightarrow> addr = host)
   \<and> (entry_matches addr (show_ipv4 net @ ''/'' @ show_u8 bits) \<longleftrightarrow>
        unat bits \<le> 32 \<and> unat (ipv4_to_u32 net) div 2 ^ (32 - unat bits) = unat (ipv4_to_u32 addr) div 2 ^ (32 - unat bits))"
proof -
  have s: "split_once CHR ''/'' (show_ipv4 net @ CHR ''/'' # show_u8 bits) = Some (show_ipv4 net, show_u8 bits)"
    by (rule split_once_append[OF slash_notin_show_ipv4])
  have n: "split_once CHR ''/'' (show_ipv4 host) = None" by (rule split_once_None[OF slash_notin_show_ipv4])
  have c: "cidr_contains (show_ipv4 net) (show_u8 bits) addr \<longleftrightarrow>
      unat bits \<le> 32 \<and> unat (ipv4_to_u32 net) div 2 ^ (32 - unat bits) = unat (ipv4_to_u32 addr) div 2 ^ (32 - unat bits)"
  proof (cases "bits \<le> 32")
    case True
    then show ?thesis using cidr_contains_show[OF True] by (simp add: word_le_nat_alt)
  next
    case False
    then show ?thesis by (simp add: cidr_contains_def word_le_nat_alt not_le word_less_nat_alt)
  qed
  show ?thesis using s n c by (auto simp: entry_matches_def)
qed

subsection \<open>The change set\<close>

lemma utf8_ascii: "\<forall>b \<in> set bs. b < 0x80 \<Longrightarrow> from_utf8_lossy bs = map char_of_byte bs"
  by (induction bs) (simp_all add: utf8_step_def utf8_width_def)

definition encode_record :: "u8 \<times> bytes \<Rightarrow> bytes" where
  "encode_record r = fst r # 9 # snd r"

lemma split_on_records:
  assumes "\<forall>r \<in> set rs. 0 \<notin> set (encode_record r)"
  shows "split_on 0 (concat (map (\<lambda>r. encode_record r @ [0]) rs)) = map encode_record rs @ [[]]"
  using assms by (induction rs) (simp_all add: split_on_Cons)

lemma changeset_fold:
  assumes "\<forall>r \<in> set rs. snd r \<noteq> [] \<and> (\<forall>b \<in> set (snd r). b < 0x80)"
  shows "foldl changeset_record c (map encode_record rs) =
     c\<lparr>ch_added := ch_added c @ map (\<lambda>r. map char_of_byte (snd r)) (filter (\<lambda>r. fst r = 65) rs),
       ch_modified := ch_modified c @ map (\<lambda>r. map char_of_byte (snd r)) (filter (\<lambda>r. fst r = 77) rs),
       ch_deleted := ch_deleted c @ map (\<lambda>r. map char_of_byte (snd r)) (filter (\<lambda>r. fst r = 68) rs)\<rparr>"
  using assms
proof (induction rs arbitrary: c)
  case (Cons r rs)
  then have u: "from_utf8_lossy (snd r) = map char_of_byte (snd r)" "snd r \<noteq> []" using utf8_ascii by auto
  then have e: "changeset_record c (encode_record r) =
      (if fst r = 65 then c\<lparr>ch_added := ch_added c @ [map char_of_byte (snd r)]\<rparr>
       else if fst r = 77 then c\<lparr>ch_modified := ch_modified c @ [map char_of_byte (snd r)]\<rparr>
       else if fst r = 68 then c\<lparr>ch_deleted := ch_deleted c @ [map char_of_byte (snd r)]\<rparr> else c)"
    by (simp add: changeset_record_def encode_record_def)
  show ?case using Cons.IH[of "changeset_record c (encode_record r)"] Cons.prems by (simp add: e)
qed simp

text \<open>C39. The change-set reader loses nothing and invents nothing. For every stream of records \<open>op TAB path NUL\<close>
  with ASCII paths, the three lists are the sorted paths of exactly the records with that operation
  letter, whatever other letters a hostile guest mixes in; and for every change set the lane escapes, the
  filtered operating-system churn and the workspace changes partition all changes.\<close>

theorem changeset_stream_roundtrip:
  assumes "\<forall>r \<in> set rs. fst r \<noteq> 0 \<and> fst r \<noteq> 78 \<and> snd r \<noteq> [] \<and> (\<forall>b \<in> set (snd r). 0 < b \<and> b < 0x80)"
  shows "(let c = parse_changeset_stream (concat (map (\<lambda>r. encode_record r @ [0]) rs));
              paths = (\<lambda>op. sort (map (\<lambda>r. map char_of_byte (snd r)) (filter (\<lambda>r. fst r = op) rs)))
     in ch_overlay_active c \<and> ch_added c = paths 65 \<and> ch_modified c = paths 77 \<and> ch_deleted c = paths 68
        \<and> (case workspace_counts c of (a, m, d) \<Rightarrow>
             length (lane_escapes c) + ephemeral_count c + (a + m + d)
             = length (ch_added c) + length (ch_modified c) + length (ch_deleted c)))"
proof -
  let ?raw = "concat (map (\<lambda>r. encode_record r @ [0]) rs)"
  have z: "\<forall>r \<in> set rs. 0 \<notin> set (encode_record r)" using assms by (fastforce simp: encode_record_def)
  have n: "\<not> prefix NOOVERLAY ?raw"
    using assms by (cases rs) (auto simp: NOOVERLAY_def encode_record_def)
  have f: "\<forall>r \<in> set rs. snd r \<noteq> [] \<and> (\<forall>b \<in> set (snd r). b < 0x80)" using assms by blast
  have last: "changeset_record c [] = c" for c by (simp add: changeset_record_def)
  have part: "length (filter is_lane_escape ps) + length (filter (\<lambda>p. \<not> prefix WORKSPACE_PREFIX p \<and> \<not> is_lane_escape p) ps)
      + length (filter (prefix WORKSPACE_PREFIX) ps) = length ps" for ps
    by (induction ps) (auto simp: is_lane_escape_def)
  show ?thesis
    using part[of "map (\<lambda>r. map char_of_byte (snd r)) (filter (\<lambda>r. fst r = 65) rs)"]
    by (simp add: Let_def parse_changeset_stream_def n split_on_records[OF z] changeset_fold[OF f] last
        workspace_counts_def lane_escapes_def ephemeral_count_def)
      (use part[of "sort (map (\<lambda>r. map char_of_byte (snd r)) (filter (\<lambda>r. fst r = 65) rs))"]
           part[of "sort (map (\<lambda>r. map char_of_byte (snd r)) (filter (\<lambda>r. fst r = 77) rs))"]
           part[of "sort (map (\<lambda>r. map char_of_byte (snd r)) (filter (\<lambda>r. fst r = 68) rs))"] in simp)
qed

theorem changeset_stream_roundtrip_witness:
  "ch_added (parse_changeset_stream (concat (map (\<lambda>r. encode_record r @ [0]) [(65, [101, 116, 99])])))
     = [map char_of_byte [101, 116, 99]]"
proof -
  have "\<forall>r \<in> set [(65 :: u8, [101, 116, 99 :: u8])]. fst r \<noteq> 0 \<and> fst r \<noteq> 78 \<and> snd r \<noteq> [] \<and> (\<forall>b \<in> set (snd r). 0 < b \<and> b < 0x80)"
    by (simp add: word_less_nat_alt)
  from changeset_stream_roundtrip[OF this] show ?thesis by (simp add: Let_def)
qed

subsection \<open>The capture summary\<close>

lemma bump_keys:
  "sorted_wrt (<) (map fst m) \<Longrightarrow> sorted_wrt (<) (map fst (bump k m)) \<and> set (map fst (bump k m)) = insert k (set (map fst m))"
proof (induction m)
  case (Cons p m)
  obtain k' n where p: "p = (k', n)" by (cases p)
  have m: "sorted_wrt (<) (map fst m)" "\<forall>x \<in> set (map fst m). k' < x" using Cons.prems p by auto
  note ih = Cons.IH[OF m(1)]
  show ?case
  proof (cases "k = k' \<or> k < k'")
    case True
    then show ?thesis using m p by (auto intro: less_trans)
  next
    case False
    then have "k' < k" by auto
    then have "\<forall>x \<in> set (map fst (bump k m)). k' < x" using ih m(2) by auto
    then show ?thesis using False p ih m(2) by auto
  qed
qed simp

lemma bump_lookup:
  "sorted_wrt (<) (map fst m) \<Longrightarrow>
     map_of (bump k m) x = (if x = k then Some (case map_of m k of None \<Rightarrow> 1 | Some n \<Rightarrow> n + 1) else map_of m x)"
proof (induction m)
  case (Cons p m)
  obtain k' n where p: "p = (k', n)" by (cases p)
  have m: "sorted_wrt (<) (map fst m)" "\<forall>x \<in> set (map fst m). k' < x" using Cons.prems p by auto
  have "map_of m k = None" if "k < k'" using m(2) that by (force simp: map_of_eq_None_iff)
  then show ?case using Cons.IH[OF m(1)] p by auto
qed simp

definition counts_ok :: "(flow_key \<times> u64) list \<Rightarrow> flow_key list \<Rightarrow> bool" where
  "counts_ok m keys \<longleftrightarrow> sorted_wrt (<) (map fst m)
     \<and> (\<forall>k. map_of m k = (if k \<in> set keys then Some (of_nat (count_list keys k)) else None))"

lemma counts_ok_bump:
  assumes "counts_ok m keys"
  shows "counts_ok (bump k m) (keys @ [k])"
proof -
  have s: "sorted_wrt (<) (map fst m)" using assms by (simp add: counts_ok_def)
  have l: "map_of m x = (if x \<in> set keys then Some (of_nat (count_list keys x)) else None)" for x
    using assms unfolding counts_ok_def by blast
  show ?thesis
    unfolding counts_ok_def
    using bump_keys[OF s, of k] by (auto simp: bump_lookup[OF s] l count_notin)
qed

text \<open>The frames of a capture, and the flows the summary counts.\<close>

function capture_frames :: "byte_order \<Rightarrow> bytes \<Rightarrow> bytes list" where
  "capture_frames order rest = (case next_packet rest order of
     None \<Rightarrow> [] | Some (packet, tail) \<Rightarrow> packet # capture_frames order tail)"
  by pat_completeness auto
termination by (relation "measure (\<lambda>(_, rest). length rest)") (auto dest: next_packet_shorter)

declare capture_frames.simps [simp del]

definition flow_keys :: "gateway_local \<Rightarrow> bytes list \<Rightarrow> flow_key list" where
  "flow_keys local frames = map (\<lambda>f. (fl_dst_ip f, fl_dst_port f, fl_proto f))
     (List.map_filter (\<lambda>f. parse_guest_flow f local) frames)"

lemma observe_packets_fold: "observe_packets order rest acc = foldl observe acc (capture_frames order rest)"
proof (induction order rest acc rule: observe_packets.induct)
  case (1 order rest acc)
  then show ?case
    by (simp add: observe_packets.simps[of order rest] capture_frames.simps[of order rest] split: option.splits prod.splits)
qed

lemma observe_local [simp]: "fa_local (observe acc f) = fa_local acc"
  by (simp add: observe_def split: option.splits)

lemma observe_counts:
  assumes "counts_ok (fa_counts acc) keys"
  shows "counts_ok (fa_counts (foldl observe acc frames)) (keys @ flow_keys (fa_local acc) frames)"
  using assms
proof (induction frames arbitrary: acc keys)
  case (Cons f frames)
  show ?case
  proof (cases "parse_guest_flow f (fa_local acc)")
    case None
    then have "observe acc f = acc" by (simp add: observe_def)
    then show ?thesis using Cons None by (simp add: flow_keys_def List.map_filter_simps)
  next
    case (Some fl)
    let ?k = "(fl_dst_ip fl, fl_dst_port fl, fl_proto fl)"
    have "fa_counts (observe acc f) = bump ?k (fa_counts acc)" using Some by (simp add: observe_def)
    then have "counts_ok (fa_counts (observe acc f)) (keys @ [?k])" using counts_ok_bump[OF Cons.prems] by simp
    from Cons.IH[OF this] show ?thesis using Some by (simp add: flow_keys_def List.map_filter_simps)
  qed
qed (simp add: flow_keys_def List.map_filter_simps)

text \<open>The witness summary counts every egress frame, once. For a capture with a valid Ethernet header the
  destinations are the distinct (address, port, protocol) keys of all frames that leave the room, in
  ascending order, each with the number of frames that carry it (modulo 2^64); a truncated or malformed
  record only ends the walk, and the reader returns on every input.\<close>

theorem summary_counts_every_flow:
  assumes "parse_pcap_global_header raw = Some (order, rest)"
  shows "\<exists>m. sorted_wrt (<) (map fst m)
    \<and> (\<forall>k. map_of m k = (let keys = flow_keys local (capture_frames order rest)
           in if k \<in> set keys then Some (of_nat (count_list keys k)) else None))
    \<and> wi_destinations (summarize_pcap raw tap local complete) =
        map (\<lambda>((ip, port, proto), n). \<lparr>de_ip = show_ipv4 ip, de_port = port, de_proto = proto, de_packets = n\<rparr>) m"
proof -
  let ?acc = "observe_packets order rest (accumulator_new local)"
  have "counts_ok (fa_counts (accumulator_new local)) []" by (simp add: counts_ok_def accumulator_new_def)
  then have "counts_ok (fa_counts ?acc) (flow_keys local (capture_frames order rest))"
    using observe_counts[of "accumulator_new local" "[]" "capture_frames order rest"]
    by (simp add: observe_packets_fold accumulator_new_def)
  then show ?thesis
    unfolding counts_ok_def
    by (intro exI[of _ "fa_counts ?acc"]) (simp add: assms summarize_pcap_def into_witness_def Let_def)
qed

definition demo_capture :: bytes where
  "demo_capture = [0xd4, 0xc3, 0xb2, 0xa1] @ [0, 0, 0, 0, 0, 0, 0, 0, 0, 0, 0, 0, 0, 0, 0, 0] @ [1, 0, 0, 0]"

theorem summary_counts_every_flow_witness:
  "wi_destinations (summarize_pcap demo_capture ''tap-fc1'' \<lparr>gl_gateway = (172, 16, 0, 5), gl_guest = (172, 16, 0, 6)\<rparr> True) = []"
proof -
  let ?local = "\<lparr>gl_gateway = (172, 16, 0, 5), gl_guest = (172, 16, 0, 6)\<rparr> :: gateway_local"
  have h: "parse_pcap_global_header demo_capture = Some (Little, [])"
    by (simp add: parse_pcap_global_header_def demo_capture_def slice_def slice_from_def PCAP_GLOBAL_HEADER_LEN_def
        pcap_byte_order_def byte_order_u32_def DLT_ETHERNET_def)
  have "capture_frames Little [] = []"
    by (simp add: capture_frames.simps next_packet_def slice_def PCAP_RECORD_HEADER_LEN_def)
  then have k: "flow_keys ?local (capture_frames Little []) = []" by (simp add: flow_keys_def List.map_filter_simps)
  from summary_counts_every_flow[OF h, of ?local "''tap-fc1''" True]
  obtain m where m: "\<forall>x. map_of m x = None"
    "wi_destinations (summarize_pcap demo_capture ''tap-fc1'' ?local True) =
      map (\<lambda>((ip, port, proto), n). \<lparr>de_ip = show_ipv4 ip, de_port = port, de_proto = proto, de_packets = n\<rparr>) m"
    unfolding k by (auto simp: Let_def)
  have "m = []"
  proof (rule ccontr)
    assume "m \<noteq> []"
    then have "map_of m (fst (hd m)) = Some (snd (hd m))" by (cases m) auto
    then show False using m(1) by simp
  qed
  then show ?thesis using m(2) by simp
qed

subsection \<open>Source addresses do not matter\<close>

lemma slice_alt: "slice a b xs = (if a \<le> b \<and> b \<le> length xs then Some (drop a (take b xs)) else None)"
  by (simp add: slice_def take_drop)

lemma slice_keep_front: "b \<le> n \<Longrightarrow> n \<le> length xs \<Longrightarrow> slice a b (take n xs @ ys) = slice a b xs"
  by (simp add: slice_alt min_def)

lemma slice_keep_back: "length zs = n \<Longrightarrow> n \<le> a \<Longrightarrow> n \<le> length xs \<Longrightarrow> slice a b (zs @ drop n xs) = slice a b xs"
  by (simp add: slice_def)

lemma slice_from_keep_back: "length zs = n \<Longrightarrow> n \<le> a \<Longrightarrow> n \<le> length xs \<Longrightarrow> slice_from a (zs @ drop n xs) = slice_from a xs"
  by (simp add: slice_from_def)

lemma byte_at_keep_front: "i < n \<Longrightarrow> n \<le> length xs \<Longrightarrow> byte_at i (take n xs @ ys) = byte_at i xs"
  by (simp add: byte_at_def nth_append)

lemma spoofed_packet:
  assumes "length spoof = 4" and "20 \<le> length ip"
  shows "map_option snd (parse_ipv4_packet (take 12 ip @ spoof @ drop 16 ip)) = map_option snd (parse_ipv4_packet ip)"
proof -
  let ?ip = "take 12 ip @ spoof @ drop 16 ip"
  have z: "length (take 12 ip @ spoof) = 16" using assms by simp
  have b: "byte_at 0 ?ip = byte_at 0 ip" "byte_at 9 ?ip = byte_at 9 ip" "slice 6 8 ?ip = slice 6 8 ip"
    using assms by (simp_all add: byte_at_keep_front slice_keep_front)
  have d: "slice 16 20 ?ip = slice 16 20 ip" using slice_keep_back[OF z, of 16 ip 20] assms(2) by simp
  have l: "slice_from n ?ip = slice_from n ip" if "20 \<le> n" for n
    using slice_from_keep_back[OF z, of n ip] assms(2) that by simp
  have s: "\<exists>x. Option.bind (slice 12 16 ip) octets = Some x" "\<exists>x. Option.bind (slice 12 16 ?ip) octets = Some x"
  proof -
    have o: "\<exists>x. octets ys = Some x" if "length ys = 4" for ys
      using that by (auto simp: octets_def length_Suc_conv eval_nat_numeral split: list.splits)
    show "\<exists>x. Option.bind (slice 12 16 ip) octets = Some x" "\<exists>x. Option.bind (slice 12 16 ?ip) octets = Some x"
      using assms o by (auto simp: slice_def)
  qed
  then obtain x y where "Option.bind (slice 12 16 ip) octets = Some x" "Option.bind (slice 12 16 ?ip) octets = Some y" by blast
  then show ?thesis
    using l by (auto simp: parse_ipv4_packet_def b d Let_def not_less split: option.splits)
qed

lemma spoofed_flow:
  assumes "length spoof = 4" and "34 \<le> length frame"
  shows "parse_guest_flow (take 26 frame @ spoof @ drop 30 frame) local = parse_guest_flow frame local"
proof -
  let ?f = "take 26 frame @ spoof @ drop 30 frame" and ?ip = "drop 14 frame"
  have et: "slice 12 14 ?f = slice 12 14 frame" using assms by (simp add: slice_keep_front)
  have ip: "drop 14 ?f = take 12 ?ip @ spoof @ drop 16 ?ip" using assms by (simp add: drop_take)
  have len: "length ?f = length frame" using assms by simp
  have "map_option snd (parse_ipv4_packet (drop 14 ?f)) = map_option snd (parse_ipv4_packet ?ip)"
    unfolding ip using spoofed_packet[OF assms(1), of ?ip] assms(2) by simp
  then show ?thesis
    using assms(2) len
    by (cases "parse_ipv4_packet (drop 14 ?f)"; cases "parse_ipv4_packet ?ip")
      (auto simp: parse_guest_flow_def et slice_from_def ETHERNET_HEADER_LEN_def split: option.splits)
qed

text \<open>A guest cannot hide its egress by forging the source address: rewriting the source-address bytes
  of any frame of at least 34 bytes to anything changes neither whether the frame counts as egress nor
  under which destination, port, protocol and name it is recorded.\<close>

theorem spoofed_source_is_still_witnessed:
  assumes "length spoof = 4" and "34 \<le> length frame"
  shows "observe acc (take 26 frame @ spoof @ drop 30 frame) = observe acc frame"
  using spoofed_flow[OF assms] by (simp add: observe_def)

theorem spoofed_source_is_still_witnessed_witness:
  "observe (accumulator_new \<lparr>gl_gateway = (172, 16, 0, 5), gl_guest = (172, 16, 0, 6)\<rparr>)
     (take 26 (replicate 40 8) @ [1, 2, 3, 4] @ drop 30 (replicate 40 8)) =
   observe (accumulator_new \<lparr>gl_gateway = (172, 16, 0, 5), gl_guest = (172, 16, 0, 6)\<rparr>) (replicate 40 8)"
  by (rule spoofed_source_is_still_witnessed) simp_all

end
