(* ===== verification/Egress.thy ===== *)
theory Egress
  imports Isolation Artifacts Host_FS
begin

text \<open>
  \<open>src/src/egress.rs\<close>: the \<open>--egress\<close> policy (parsing, resolution), the synthesis of the per-room and
  per-clone filter chains, the predicates over \<open>iptables -S\<close> dumps that decide whether a policy is
  enforced, and the install, verify and remove transactions. The \<open>iptables\<close> program is a parameter
  (\<open>ipt\<close>, from an argument list to an exit status and its output), DNS resolution another
  (\<open>to_socket_addrs\<close>); \<open>poisoned\<close> is the state of the process-wide transaction lock.
\<close>

unbundle bit_operations_syntax

definition FWD_CHAIN :: string where "FWD_CHAIN = ''ROOMS_FWD''"
definition INPUT_CHAIN :: string where "INPUT_CHAIN = ''INPUT''"
definition TAP_PREFIX :: string where "TAP_PREFIX = ''tap-fc''"
definition EG_CHAIN_PREFIX :: string where "EG_CHAIN_PREFIX = ''ROOMS_EG_''"
definition VETH_FWD_CHAIN :: string where "VETH_FWD_CHAIN = ''ROOMS_VETH_FWD''"
definition HOST_FWD_CHAIN :: string where "HOST_FWD_CHAIN = ''FORWARD''"
definition XTABLES_WAIT_SECONDS :: string where "XTABLES_WAIT_SECONDS = ''2''"

subsection \<open>Policies\<close>

definition quoted :: "string \<Rightarrow> string" where "quoted s = CHR 0x27 # s @ [CHR 0x27]"

datatype dest = Host string | Cidr string
datatype policy = PolicyObserve | PolicyNone | PolicyAllowlist "dest list"
datatype egress_plan = PlanObserve | PlanNone | PlanAllowlist "string list"

definition plan_enforces :: "egress_plan \<Rightarrow> bool" where
  "plan_enforces plan \<longleftrightarrow> plan \<noteq> PlanObserve"

fun plan_permitted :: "egress_plan \<Rightarrow> string list" where
  "plan_permitted (PlanAllowlist dests) = dests"
| "plan_permitted PlanObserve = []"
| "plan_permitted PlanNone = []"

definition validate_cidr :: "string \<Rightarrow> string + unit" where
  "validate_cidr entry = (case split_once CHR ''/'' entry of
     None \<Rightarrow> Inl (''invalid --egress CIDR '' @ quoted entry @ '': missing '' @ quoted ''/'')
   | Some (addr, pfx) \<Rightarrow>
       if parse_ipv4 addr = None then Inl (''invalid --egress CIDR '' @ quoted entry @ '': bad address'')
       else if (case parse_u8 pfx of None \<Rightarrow> False | Some p \<Rightarrow> p \<le> 32) then Inr ()
       else Inl (''invalid --egress CIDR '' @ quoted entry @ '': prefix must be 0..=32''))"

definition parse_dest :: "string \<Rightarrow> string + dest" where
  "parse_dest entry =
     (if CHR ''/'' \<in> set entry then
        (case validate_cidr entry of Inl e \<Rightarrow> Inl e | Inr _ \<Rightarrow> Inr (Cidr entry))
      else if parse_ipv4 entry \<noteq> None then Inr (Cidr entry)
      else Inr (Host entry))"

fun parse_entries :: "string list \<Rightarrow> string + dest list" where
  "parse_entries [] = Inr []"
| "parse_entries (e # es) =
     (let entry = trim e in
      if entry = [] then Inl ''invalid --egress allowlist: an empty destination in the list''
      else (case parse_dest entry of
          Inl err \<Rightarrow> Inl err
        | Inr d \<Rightarrow> (case parse_entries es of Inl err \<Rightarrow> Inl err | Inr ds \<Rightarrow> Inr (d # ds))))"

definition parse_allowlist :: "string \<Rightarrow> string + policy" where
  "parse_allowlist rest = (case parse_entries (split_on CHR '','' rest) of
     Inl e \<Rightarrow> Inl e | Inr dests \<Rightarrow> Inr (PolicyAllowlist dests))"

definition egress_parse :: "string \<Rightarrow> string + policy" where
  "egress_parse v =
     (let v = trim v in
      if v = ''none'' then Inr PolicyNone
      else (case strip_prefix ''allowlist:'' v of
          Some rest \<Rightarrow> parse_allowlist rest
        | None \<Rightarrow> Inl (''invalid --egress '' @ quoted v @ '': want '' @ quoted ''none'' @ '' or '' @ quoted ''allowlist:<host-or-cidr>[,...]'')))"

text \<open>What a name resolves to: the resolver yields addresses of both families.\<close>

datatype ip_addr = V4 ipv4 | V6 string

definition resolve_host :: "(string \<Rightarrow> string + ip_addr list) \<Rightarrow> string \<Rightarrow> string + string list" where
  "resolve_host to_socket_addrs host_name = (case to_socket_addrs host_name of
     Inl e \<Rightarrow> Inl (''--egress: cannot resolve host '' @ quoted host_name @ '': '' @ e)
   | Inr addrs \<Rightarrow>
       let ips = remdups_adj (sort (List.map_filter (\<lambda>a. case a of V4 ip \<Rightarrow> Some (show_ipv4 ip) | V6 _ \<Rightarrow> None) addrs))
       in if ips = [] then Inl (''--egress: host '' @ quoted host_name @ '' resolved to no IPv4 address'') else Inr ips)"

fun resolve_allowlist :: "(string \<Rightarrow> string + ip_addr list) \<Rightarrow> dest list \<Rightarrow> string + string list" where
  "resolve_allowlist to_socket_addrs [] = Inr []"
| "resolve_allowlist to_socket_addrs (d # ds) =
     (case (case d of Cidr literal \<Rightarrow> Inr [literal] | Host h \<Rightarrow> resolve_host to_socket_addrs h) of
        Inl e \<Rightarrow> Inl e
      | Inr ips \<Rightarrow> (case resolve_allowlist to_socket_addrs ds of Inl e \<Rightarrow> Inl e | Inr rest \<Rightarrow> Inr (ips @ rest)))"

definition egress_resolve :: "(string \<Rightarrow> string + ip_addr list) \<Rightarrow> policy \<Rightarrow> string + egress_plan" where
  "egress_resolve to_socket_addrs p = (case p of
     PolicyObserve \<Rightarrow> Inr PlanObserve
   | PolicyNone \<Rightarrow> Inr PlanNone
   | PolicyAllowlist dests \<Rightarrow> (case resolve_allowlist to_socket_addrs dests of
        Inl e \<Rightarrow> Inl e | Inr ips \<Rightarrow> Inr (PlanAllowlist ips)))"

subsection \<open>Chain synthesis\<close>

definition chain_for_tap :: "string \<Rightarrow> string option" where
  "chain_for_tap tap = (case strip_prefix TAP_PREFIX tap of
     None \<Rightarrow> None
   | Some sfx \<Rightarrow> if sfx = [] \<or> \<not> list_all is_ascii_digit sfx then None else Some (EG_CHAIN_PREFIX @ sfx))"

definition clone_chain_for_veth :: "string \<Rightarrow> string option" where
  "clone_chain_for_veth veth = map_option clone_egress_chain (clone_veth_index veth)"

definition drop_log_prefix :: "string \<Rightarrow> string" where
  "drop_log_prefix chain =
     (let k = (case strip_prefix EG_CHAIN_PREFIX chain of
                 Some k \<Rightarrow> k
               | None \<Rightarrow> (case strip_prefix ''ROOMS_CEG_'' chain of Some k \<Rightarrow> k | None \<Rightarrow> chain))
      in ''rooms-egress-drop:'' @ k @ '' '')"

definition subchain_rules :: "string \<Rightarrow> string \<Rightarrow> string list \<Rightarrow> string list list" where
  "subchain_rules chain out_if permitted =
     map (\<lambda>d. [''-A'', chain, ''-d'', d, ''-o'', out_if, ''-j'', ''ACCEPT'']) permitted
     @ [[''-A'', chain, ''-o'', out_if, ''-j'', ''LOG'', ''--log-prefix'', drop_log_prefix chain],
        [''-A'', chain, ''-o'', out_if, ''-j'', ''DROP'']]"

definition jump_rule :: "nat \<Rightarrow> string \<Rightarrow> string \<Rightarrow> string list" where
  "jump_rule pos tap chain = [''-I'', FWD_CHAIN, show_nat pos, ''-i'', tap, ''-j'', chain]"

definition input_drop_rule :: "string \<Rightarrow> string \<Rightarrow> string list" where
  "input_drop_rule op tap = [op, INPUT_CHAIN, ''-i'', tap, ''-j'', ''DROP'']"

definition input_drop_insert_rule :: "string \<Rightarrow> string list" where
  "input_drop_insert_rule tap = [''-I'', INPUT_CHAIN, ''1'', ''-i'', tap, ''-j'', ''DROP'']"

definition clone_jump_rule :: "nat \<Rightarrow> string \<Rightarrow> string list option" where
  "clone_jump_rule pos veth =
     (if pos = 0 then None
      else case clone_chain_for_veth veth of
        None \<Rightarrow> None
      | Some chain \<Rightarrow> Some [''-I'', VETH_FWD_CHAIN, show_nat pos, ''-i'', veth, ''-j'', chain])"

definition veth_egress_interface :: "string \<Rightarrow> string option" where
  "veth_egress_interface line = (case split_whitespace line of
     [a, b, c, d, e, interface, f, g] \<Rightarrow>
       if [a, b, c, d, e, f, g] = [''-A'', VETH_FWD_CHAIN, ''-s'', VETH_SUPERNET, ''-o'', ''-j'', ''ACCEPT'']
          \<and> CHR ''+'' \<notin> set interface then Some interface else None
   | _ \<Rightarrow> None)"

text \<open>The ranked scans of \<open>clone_insert_position\<close> and \<open>insert_position\<close>: the 1-based rank among the chain's
  rules of the first that satisfies \<open>P\<close>.\<close>

fun rank_of :: "string \<Rightarrow> (string \<Rightarrow> bool) \<Rightarrow> nat \<Rightarrow> string list \<Rightarrow> nat option" where
  "rank_of stem P rank [] = None"
| "rank_of stem P rank (line # rest) =
     (let line = trim line in
      if \<not> prefix stem line then rank_of stem P rank rest
      else if P line then Some (rank + 1) else rank_of stem P (rank + 1) rest)"

definition clone_insert_position :: "string \<Rightarrow> nat option" where
  "clone_insert_position veth_dump =
     (if \<not> rooms_veth_fwd_isolates veth_dump then None
      else rank_of ''-A ROOMS_VETH_FWD ''
             (\<lambda>line. clone_egress_jump_index line \<noteq> None \<or> veth_egress_interface line \<noteq> None) 0 (lines veth_dump))"

fun find_map :: "('a \<Rightarrow> 'b option) \<Rightarrow> 'a list \<Rightarrow> 'b option" where
  "find_map f [] = None"
| "find_map f (x # xs) = (case f x of None \<Rightarrow> find_map f xs | Some y \<Rightarrow> Some y)"

definition clone_out_iface :: "string \<Rightarrow> string option" where
  "clone_out_iface veth_dump =
     (if \<not> rooms_veth_fwd_isolates veth_dump then None
      else find_map veth_egress_interface (map trim (lines veth_dump)))"

definition is_supernet_egress_accept :: "string \<Rightarrow> bool" where
  "is_supernet_egress_accept line \<longleftrightarrow>
     str_contains (''-s '' @ SUPERNET) line \<and> str_contains ''-o '' line \<and> str_contains ''-j ACCEPT'' line"

definition insert_position :: "string \<Rightarrow> nat option" where
  "insert_position forward_dump = rank_of ''-A ROOMS_FWD'' is_supernet_egress_accept 0 (lines forward_dump)"

definition iface_after_o :: "string \<Rightarrow> string option" where
  "iface_after_o line = token_after [''-o''] (split_whitespace line)"

definition out_iface :: "string \<Rightarrow> string option" where
  "out_iface forward_dump = find_map iface_after_o (filter is_supernet_egress_accept (map trim (lines forward_dump)))"

subsection \<open>Enforcement\<close>

definition jump_line :: "string \<Rightarrow> string \<Rightarrow> string \<Rightarrow> nat option" where
  "jump_line forward_dump tap chain =
     find_position (\<lambda>line. let padded = trim line @ '' '' in
        str_contains (''-i '' @ tap @ '' '') padded \<and> str_contains (''-j '' @ chain @ '' '') padded) (lines forward_dump)"

definition is_isolation_drop :: "string \<Rightarrow> bool" where
  "is_isolation_drop line \<longleftrightarrow>
     str_contains (''-s '' @ SUPERNET) line \<and> str_contains (''-d '' @ SUPERNET) line \<and> str_contains ''-j DROP'' line"

definition line_of :: "string \<Rightarrow> (string \<Rightarrow> bool) \<Rightarrow> nat option" where
  "line_of dump P = find_position (\<lambda>line. P (trim line)) (lines dump)"

definition subchain_terminates_in_drop :: "string \<Rightarrow> string \<Rightarrow> bool" where
  "subchain_terminates_in_drop eg_dump out_if =
     (case find (prefix ''-A '') (rev (map trim (lines eg_dump))) of
        None \<Rightarrow> False
      | Some line \<Rightarrow> str_contains (''-o '' @ out_if) line \<and> str_contains ''-j DROP'' line)"

definition room_egress_enforced :: "string \<Rightarrow> string \<Rightarrow> string \<Rightarrow> string \<Rightarrow> bool" where
  "room_egress_enforced tap out_if forward_dump eg_dump =
     (case chain_for_tap tap of
        None \<Rightarrow> False
      | Some chain \<Rightarrow>
     (case jump_line forward_dump tap chain of
        None \<Rightarrow> False
      | Some jump \<Rightarrow>
     (case line_of forward_dump is_supernet_egress_accept of
        None \<Rightarrow> False
      | Some accept \<Rightarrow>
     (case line_of forward_dump is_isolation_drop of
        None \<Rightarrow> False
      | Some isolation_drop \<Rightarrow>
          jump < accept \<and> jump > isolation_drop \<and> subchain_terminates_in_drop eg_dump out_if))))"

definition ipv4_network :: "string \<Rightarrow> (u32 \<times> u8) option" where
  "ipv4_network destination =
     (let parts = (case split_once CHR ''/'' destination of
                     Some (address, pfx) \<Rightarrow> map_option (\<lambda>p. (address, p)) (parse_u8 pfx)
                   | None \<Rightarrow> Some (destination, 32))
      in case parts of
           None \<Rightarrow> None
         | Some (address, pfx) \<Rightarrow>
             if pfx > 32 then None
             else (case parse_ipv4 address of
                None \<Rightarrow> None
              | Some ip \<Rightarrow>
                  let shift = unat (32 - pfx);
                      mask = (if shift < 32 then push_bit shift (- 1 :: u32) else 0)
                  in Some (and (ipv4_to_u32 ip) mask, pfx)))"

definition destinations_equivalent :: "string \<Rightarrow> string \<Rightarrow> bool" where
  "destinations_equivalent expected live \<longleftrightarrow>
     expected = live
     \<or> (case ipv4_network expected of None \<Rightarrow> False | Some network \<Rightarrow> Some network = ipv4_network live)"

definition clone_accept_matches :: "string \<Rightarrow> string \<Rightarrow> string \<Rightarrow> string \<Rightarrow> bool" where
  "clone_accept_matches line chain out_if destination = (case split_whitespace line of
     [a, live_chain, b, live_destination, c, live_iface, d, e] \<Rightarrow>
       if [a, b, c, d, e] = [''-A'', ''-d'', ''-o'', ''-j'', ''ACCEPT''] \<and> live_chain = chain \<and> live_iface = out_if
       then destinations_equivalent destination live_destination else False
   | _ \<Rightarrow> False)"

definition trim_matches :: "char \<Rightarrow> string \<Rightarrow> string" where
  "trim_matches c s = rev (dropWhile (\<lambda>x. x = c) (rev (dropWhile (\<lambda>x. x = c) s)))"

definition clone_log_matches :: "string \<Rightarrow> string \<Rightarrow> string \<Rightarrow> bool" where
  "clone_log_matches line chain out_if =
     (case strip_prefix (''-A '' @ chain @ '' -o '' @ out_if @ '' -j LOG --log-prefix '') line of
        None \<Rightarrow> False
      | Some pfx \<Rightarrow> trim (trim_matches CHR 0x22 (trim pfx)) = trim (drop_log_prefix chain))"

text \<open>The body of \<open>clone_subchain_matches_plan\<close> after the header line.\<close>

fun subchain_lines_match :: "string \<Rightarrow> string \<Rightarrow> string list \<Rightarrow> string list \<Rightarrow> bool" where
  "subchain_lines_match chain out_if (destination # rest) ls =
     (case ls of
        [] \<Rightarrow> False
      | line # tail_lines \<Rightarrow>
          if \<not> clone_accept_matches line chain out_if destination then False
          else subchain_lines_match chain out_if rest tail_lines)"
| "subchain_lines_match chain out_if [] ls =
     (case ls of
        [log_line, drop_line] \<Rightarrow>
          clone_log_matches log_line chain out_if \<and> drop_line = ''-A '' @ chain @ '' -o '' @ out_if @ '' -j DROP''
      | _ \<Rightarrow> False)"

definition subchain_lines :: "string \<Rightarrow> string list" where
  "subchain_lines dump = filter (\<lambda>line. line \<noteq> []) (map trim (lines dump))"

definition clone_subchain_matches_plan :: "string \<Rightarrow> string \<Rightarrow> string \<Rightarrow> egress_plan \<Rightarrow> bool" where
  "clone_subchain_matches_plan chain out_if dump plan =
     (if plan = PlanObserve then False
      else (case subchain_lines dump of
         [] \<Rightarrow> False
       | first # rest \<Rightarrow>
           if first \<noteq> ''-N '' @ chain then False
           else subchain_lines_match chain out_if (plan_permitted plan) rest))"

definition clone_jump_count :: "string \<Rightarrow> u8 \<Rightarrow> nat" where
  "clone_jump_count veth_dump index =
     length (filter (\<lambda>c. c = index) (List.map_filter clone_egress_jump_index (map trim (lines veth_dump))))"

definition clone_egress_enforced ::
  "string \<Rightarrow> string \<Rightarrow> string \<Rightarrow> string \<Rightarrow> string \<Rightarrow> egress_plan \<Rightarrow> bool" where
  "clone_egress_enforced veth out_if veth_dump eg_dump input_dump plan =
     (if \<not> plan_enforces plan \<or> \<not> rooms_veth_fwd_isolates veth_dump then False
      else (case clone_veth_index veth of
         None \<Rightarrow> False
       | Some index \<Rightarrow>
           if clone_out_iface veth_dump \<noteq> Some out_if then False
           else if clone_jump_count veth_dump index \<noteq> 1
                   \<or> \<not> clone_subchain_matches_plan (clone_egress_chain index) out_if eg_dump plan then False
           else plan \<noteq> PlanNone \<or> veth_input_drop_present input_dump veth))"

definition clone_observe_unenforced :: "string \<Rightarrow> string \<Rightarrow> string \<Rightarrow> bool" where
  "clone_observe_unenforced veth veth_dump input_dump = (case clone_veth_index veth of
     None \<Rightarrow> False
   | Some index \<Rightarrow>
       \<not> list_ex (\<lambda>c. c = index) (List.map_filter clone_egress_jump_index (map trim (lines veth_dump)))
       \<and> \<not> list_ex (\<lambda>line. line = join_with space (input_drop_rule ''-A'' veth)) (map trim (lines input_dump)))"
subsection \<open>Driving iptables\<close>

record cmd_output =
  out_success :: bool
  out_stdout :: string
  out_stderr :: string

type_synonym 'n iptables = "string list \<Rightarrow> 'n \<Rightarrow> (string + cmd_output) \<times> 'n"

definition iptables_command_args :: "string list \<Rightarrow> string list" where
  "iptables_command_args args = [''-w'', XTABLES_WAIT_SECONDS] @ args"

definition iptables_output :: "'n iptables \<Rightarrow> 'n iptables" where
  "iptables_output ipt args n = ipt (iptables_command_args args) n"

definition iptables_rule_is_absent :: "string \<Rightarrow> bool" where
  "iptables_rule_is_absent stderr \<longleftrightarrow>
     str_contains ''Bad rule'' stderr
     \<or> str_contains ''No chain/target/match'' stderr
     \<or> str_contains ''No rule exists at that position'' stderr
     \<or> (str_contains ''rule in chain'' stderr \<and> str_contains ''not found'' stderr)
     \<or> (str_contains ''Chain'' stderr \<and> str_contains ''does not exist'' stderr)"

definition run_iptables :: "'n iptables \<Rightarrow> string list \<Rightarrow> 'n \<Rightarrow> (string + unit) \<times> 'n" where
  "run_iptables ipt args n = (case iptables_output ipt args n of
     (Inl e, n) \<Rightarrow> (Inl (''iptables '' @ join_with space args @ '': '' @ e), n)
   | (Inr out, n) \<Rightarrow>
       if out_success out then (Inr (), n)
       else (Inl (''iptables '' @ join_with space args @ '' failed: '' @ trim (out_stderr out)), n))"

definition iptables_exists :: "'n iptables \<Rightarrow> string list \<Rightarrow> 'n \<Rightarrow> (string + bool) \<times> 'n" where
  "iptables_exists ipt args n = (case iptables_output ipt args n of
     (Inl e, n) \<Rightarrow> (Inl (''iptables '' @ join_with space args @ '': '' @ e), n)
   | (Inr out, n) \<Rightarrow>
       if out_success out then (Inr True, n)
       else if iptables_rule_is_absent (out_stderr out) then (Inr False, n)
       else (Inl (''iptables '' @ join_with space args @ '' probe failed: '' @ trim (out_stderr out)), n))"

definition dump_named_chain :: "'n iptables \<Rightarrow> string \<Rightarrow> 'n \<Rightarrow> (string + string) \<times> 'n" where
  "dump_named_chain ipt chain n = (case iptables_output ipt [''-S'', chain] n of
     (Inl e, n) \<Rightarrow> (Inl (''iptables -S '' @ chain @ '': '' @ e), n)
   | (Inr out, n) \<Rightarrow>
       if \<not> out_success out then (Inl (''iptables -S '' @ chain @ '' failed: '' @ trim (out_stderr out)), n)
       else (Inr (out_stdout out), n))"

definition dump_forward :: "'n iptables \<Rightarrow> 'n \<Rightarrow> (string + string) \<times> 'n" where
  "dump_forward ipt n = dump_named_chain ipt FWD_CHAIN n"

definition dump_clone_forward :: "'n iptables \<Rightarrow> 'n \<Rightarrow> (string + string) \<times> 'n" where
  "dump_clone_forward ipt n = dump_named_chain ipt VETH_FWD_CHAIN n"

definition dump_input :: "'n iptables \<Rightarrow> 'n \<Rightarrow> (string + string) \<times> 'n" where
  "dump_input ipt n = dump_named_chain ipt INPUT_CHAIN n"

definition dump_clone_substrate :: "'n iptables \<Rightarrow> 'n \<Rightarrow> (string + string \<times> string \<times> string) \<times> 'n" where
  "dump_clone_substrate ipt n =
     and_then (dump_named_chain ipt HOST_FWD_CHAIN n) (\<lambda>forward_dump n.
     and_then (dump_forward ipt n) (\<lambda>flat_dump n.
     and_then (dump_clone_forward ipt n) (\<lambda>veth_dump n.
     (Inr (forward_dump, flat_dump, veth_dump), n))))"

definition dump_verified_clone_substrate ::
  "'n iptables \<Rightarrow> 'n \<Rightarrow> (string + string \<times> string \<times> string) \<times> 'n" where
  "dump_verified_clone_substrate ipt n =
     and_then (dump_clone_substrate ipt n) (\<lambda>(forward_dump, flat_dump, veth_dump) n.
       if clone_forwarding_substrate forward_dump flat_dump veth_dump
       then (Inr (forward_dump, flat_dump, veth_dump), n)
       else (Inl (''clone forwarding substrate is not the exact FORWARD -> ROOMS_FWD fallthrough -> ROOMS_VETH_FWD path''), n))"

definition jump_args :: "string \<Rightarrow> string \<Rightarrow> string \<Rightarrow> string list" where
  "jump_args op tap chain = [op, FWD_CHAIN, ''-i'', tap, ''-j'', chain]"

definition clone_jump_args :: "string \<Rightarrow> string \<Rightarrow> string list option" where
  "clone_jump_args op veth = (case clone_chain_for_veth veth of
     None \<Rightarrow> None | Some chain \<Rightarrow> Some [op, VETH_FWD_CHAIN, ''-i'', veth, ''-j'', chain])"

subsection \<open>Removal\<close>

text \<open>\<open>while iptables_exists(check)? { run_iptables(delete)? }\<close>: whether it ends depends on the firewall, so not
  ending is the value \<open>None\<close>; the functions that run it inherit it.\<close>

partial_function (option) delete_while ::
  "'n iptables \<Rightarrow> string list \<Rightarrow> string list \<Rightarrow> 'n \<Rightarrow> ((string + unit) \<times> 'n) option" where
  "delete_while ipt chk del n =
     (case iptables_exists ipt chk n of
        (r, n) \<Rightarrow>
     (case r of
        Inl e \<Rightarrow> Some (Inl e, n)
      | Inr present \<Rightarrow>
          if \<not> present then Some (Inr (), n)
          else (case run_iptables ipt del n of
             (r, n) \<Rightarrow> (case r of Inl e \<Rightarrow> Some (Inl e, n) | Inr _ \<Rightarrow> delete_while ipt chk del n))))"

definition then_run ::
  "(('e + 'a) \<times> 'n) option \<Rightarrow> ('a \<Rightarrow> 'n \<Rightarrow> (('e + 'b) \<times> 'n) option) \<Rightarrow> (('e + 'b) \<times> 'n) option" where
  "then_run r f = (case r of
     None \<Rightarrow> None
   | Some (Inl e, n) \<Rightarrow> Some (Inl e, n)
   | Some (Inr a, n) \<Rightarrow> f a n)"

definition remove_checked_locked :: "'n iptables \<Rightarrow> string \<Rightarrow> 'n \<Rightarrow> ((string + unit) \<times> 'n) option" where
  "remove_checked_locked ipt tap n = (case chain_for_tap tap of
     None \<Rightarrow> Some (Inr (), n)
   | Some chain \<Rightarrow>
       then_run (delete_while ipt (input_drop_rule ''-C'' tap) (input_drop_rule ''-D'' tap) n) (\<lambda>_ n.
       then_run (Some (iptables_exists ipt [''-S'', chain] n)) (\<lambda>present n.
         if present then
           then_run (delete_while ipt (jump_args ''-C'' tap chain) (jump_args ''-D'' tap chain) n) (\<lambda>_ n.
           then_run (Some (run_iptables ipt [''-F'', chain] n)) (\<lambda>_ n.
           Some (run_iptables ipt [''-X'', chain] n)))
         else Some (Inr (), n))))"

definition not_canonical :: "string \<Rightarrow> string" where
  "not_canonical veth = ''not a canonical clone veth: '' @ quoted veth"

definition remove_clone_checked_locked :: "'n iptables \<Rightarrow> string \<Rightarrow> 'n \<Rightarrow> ((string + unit) \<times> 'n) option" where
  "remove_clone_checked_locked ipt veth n = (case clone_chain_for_veth veth of
     None \<Rightarrow> Some (Inl (not_canonical veth), n)
   | Some chain \<Rightarrow>
       then_run (delete_while ipt (input_drop_rule ''-C'' veth) (input_drop_rule ''-D'' veth) n) (\<lambda>_ n.
       then_run (Some (iptables_exists ipt [''-S'', chain] n)) (\<lambda>present n.
         if \<not> present then Some (Inr (), n)
         else (case (clone_jump_args ''-C'' veth, clone_jump_args ''-D'' veth) of
             (Some jump_check, Some jump_delete) \<Rightarrow>
               then_run (delete_while ipt jump_check jump_delete n) (\<lambda>_ n.
               then_run (Some (run_iptables ipt [''-F'', chain] n)) (\<lambda>_ n.
               Some (run_iptables ipt [''-X'', chain] n)))
           | _ \<Rightarrow> Some (Inl (not_canonical veth), n)))))"

definition lock_iptables_transaction :: "bool \<Rightarrow> string + unit" where
  "lock_iptables_transaction poisoned =
     (if poisoned then Inl ''iptables transaction lock is poisoned; refusing a partial firewall transaction'' else Inr ())"

definition in_transaction :: "bool \<Rightarrow> ('n \<Rightarrow> ((string + unit) \<times> 'n) option) \<Rightarrow> 'n \<Rightarrow> ((string + unit) \<times> 'n) option" where
  "in_transaction poisoned body n = (case lock_iptables_transaction poisoned of
     Inl e \<Rightarrow> Some (Inl e, n) | Inr _ \<Rightarrow> body n)"

definition remove_checked :: "bool \<Rightarrow> 'n iptables \<Rightarrow> string \<Rightarrow> 'n \<Rightarrow> ((string + unit) \<times> 'n) option" where
  "remove_checked poisoned ipt tap = in_transaction poisoned (remove_checked_locked ipt tap)"

definition remove_clone_checked :: "bool \<Rightarrow> 'n iptables \<Rightarrow> string \<Rightarrow> 'n \<Rightarrow> ((string + unit) \<times> 'n) option" where
  "remove_clone_checked poisoned ipt veth = in_transaction poisoned (remove_clone_checked_locked ipt veth)"

subsection \<open>Installation and verification\<close>

fun run_all :: "'n iptables \<Rightarrow> string list list \<Rightarrow> 'n \<Rightarrow> (string + unit) \<times> 'n" where
  "run_all ipt [] n = (Inr (), n)"
| "run_all ipt (rule # rules) n = and_then (run_iptables ipt rule n) (\<lambda>_ n. run_all ipt rules n)"

text \<open>The pre-cleanup of \<open>install_locked\<close> only warns when it fails.\<close>

definition install_locked :: "'n iptables \<Rightarrow> string \<Rightarrow> egress_plan \<Rightarrow> 'n \<Rightarrow> ((string + unit) \<times> 'n) option" where
  "install_locked ipt tap plan n =
     (if \<not> plan_enforces plan then Some (Inr (), n)
      else case chain_for_tap tap of
        None \<Rightarrow> Some (Inl (''not a pool tap: '' @ quoted tap), n)
      | Some chain \<Rightarrow>
          (case remove_checked_locked ipt tap n of
             None \<Rightarrow> None
           | Some (_, n) \<Rightarrow> Some (
               and_then (dump_forward ipt n) (\<lambda>dump n.
               case out_iface dump of
                 None \<Rightarrow> (Inl (FWD_CHAIN @ '' has no supernet egress ACCEPT; run setup-tap.sh --host''), n)
               | Some out_if \<Rightarrow>
               (case insert_position dump of
                 None \<Rightarrow> (Inl (FWD_CHAIN @ '': cannot locate the egress ACCEPT to place the jump''), n)
               | Some pos \<Rightarrow>
                   and_then (run_iptables ipt [''-N'', chain] n) (\<lambda>_ n.
                   and_then (run_all ipt (subchain_rules chain out_if (plan_permitted plan)) n) (\<lambda>_ n.
                   and_then (run_iptables ipt (jump_rule pos tap chain) n) (\<lambda>_ n.
                   if plan = PlanNone then run_iptables ipt (input_drop_insert_rule tap) n
                   else (Inr (), n)))))))))"

definition install :: "bool \<Rightarrow> 'n iptables \<Rightarrow> string \<Rightarrow> egress_plan \<Rightarrow> 'n \<Rightarrow> ((string + unit) \<times> 'n) option" where
  "install poisoned ipt tap plan = in_transaction poisoned (install_locked ipt tap plan)"

definition verify_clone_locked :: "'n iptables \<Rightarrow> string \<Rightarrow> egress_plan \<Rightarrow> 'n \<Rightarrow> (string + unit) \<times> 'n" where
  "verify_clone_locked ipt veth plan n = (case clone_chain_for_veth veth of
     None \<Rightarrow> (Inl (not_canonical veth), n)
   | Some chain \<Rightarrow>
       and_then (dump_verified_clone_substrate ipt n) (\<lambda>(_, _, veth_dump) n.
       if \<not> clone_source_binding_present veth_dump veth then
         (Inl (''clone forwarding substrate lacks the exact source binding for '' @ veth), n)
       else if \<not> plan_enforces plan then
         and_then (dump_input ipt n) (\<lambda>input_dump n.
           if \<not> clone_observe_unenforced veth veth_dump input_dump
           then (Inl (''observe-mode clone '' @ veth @ '' still has stale enforcing firewall state''), n)
           else (Inr (), n))
       else (case clone_out_iface veth_dump of
          None \<Rightarrow> (Inl (VETH_FWD_CHAIN @ '' is malformed or lacks its upstream egress ACCEPT''), n)
        | Some out_if \<Rightarrow>
            and_then (dump_named_chain ipt chain n) (\<lambda>eg_dump n.
            and_then (dump_input ipt n) (\<lambda>input_dump n.
              if clone_egress_enforced veth out_if veth_dump eg_dump input_dump plan then (Inr (), n)
              else (Inl (''clone egress for '' @ veth @ '' is not enforced by the live iptables state''), n))))))"

definition install_clone_fresh ::
  "'n iptables \<Rightarrow> string \<Rightarrow> string \<Rightarrow> egress_plan \<Rightarrow> 'n \<Rightarrow> (string + unit) \<times> 'n" where
  "install_clone_fresh ipt veth chain plan n =
     and_then (dump_verified_clone_substrate ipt n) (\<lambda>(_, _, veth_dump) n.
     if \<not> clone_source_binding_present veth_dump veth then
       (Inl (''clone forwarding substrate lacks the exact source binding for '' @ veth), n)
     else (case clone_out_iface veth_dump of
        None \<Rightarrow> (Inl (VETH_FWD_CHAIN @ '' is malformed or lacks its upstream egress ACCEPT''), n)
      | Some out_if \<Rightarrow>
     (case clone_insert_position veth_dump of
        None \<Rightarrow> (Inl (VETH_FWD_CHAIN @ '': cannot locate the clone-egress insertion point''), n)
      | Some position \<Rightarrow>
          and_then (run_iptables ipt [''-N'', chain] n) (\<lambda>_ n.
          and_then (run_all ipt (subchain_rules chain out_if (plan_permitted plan)) n) (\<lambda>_ n.
          (case clone_jump_rule position veth of
             None \<Rightarrow> (Inl (''invalid clone jump identity for '' @ quoted veth), n)
           | Some jump \<Rightarrow>
               and_then (run_iptables ipt jump n) (\<lambda>_ n.
               and_then (if plan = PlanNone then run_iptables ipt (input_drop_insert_rule veth) n else (Inr (), n)) (\<lambda>_ n.
               verify_clone_locked ipt veth plan n))))))))"

definition install_clone_locked :: "'n iptables \<Rightarrow> string \<Rightarrow> egress_plan \<Rightarrow> 'n \<Rightarrow> ((string + unit) \<times> 'n) option" where
  "install_clone_locked ipt veth plan n = (case clone_chain_for_veth veth of
     None \<Rightarrow> Some (Inl (not_canonical veth), n)
   | Some chain \<Rightarrow>
       then_run (remove_clone_checked_locked ipt veth n) (\<lambda>_ n.
       if \<not> plan_enforces plan then Some (verify_clone_locked ipt veth plan n)
       else (case install_clone_fresh ipt veth chain plan n of
          (Inr _, n) \<Rightarrow> Some (Inr (), n)
        | (Inl install_error, n) \<Rightarrow>
            (case remove_clone_checked_locked ipt veth n of
               None \<Rightarrow> None
             | Some (Inr _, n) \<Rightarrow> Some (Inl install_error, n)
             | Some (Inl cleanup_error, n) \<Rightarrow>
                 Some (Inl (install_error @ ''; exact clone-egress cleanup also failed: '' @ cleanup_error), n)))))"

definition install_clone :: "bool \<Rightarrow> 'n iptables \<Rightarrow> string \<Rightarrow> egress_plan \<Rightarrow> 'n \<Rightarrow> ((string + unit) \<times> 'n) option" where
  "install_clone poisoned ipt veth plan = in_transaction poisoned (install_clone_locked ipt veth plan)"

definition verify_clone :: "bool \<Rightarrow> 'n iptables \<Rightarrow> string \<Rightarrow> egress_plan \<Rightarrow> 'n \<Rightarrow> ((string + unit) \<times> 'n) option" where
  "verify_clone poisoned ipt veth plan = in_transaction poisoned (\<lambda>n. Some (verify_clone_locked ipt veth plan n))"

definition remove_egress :: "bool \<Rightarrow> 'n iptables \<Rightarrow> string \<Rightarrow> 'n \<Rightarrow> 'n option" where
  "remove_egress poisoned ipt tap n = map_option snd (remove_checked poisoned ipt tap n)"

definition remove_clone :: "bool \<Rightarrow> 'n iptables \<Rightarrow> string \<Rightarrow> 'n \<Rightarrow> 'n option" where
  "remove_clone poisoned ipt veth n = map_option snd (remove_clone_checked poisoned ipt veth n)"

end
