(* ===== verification/Egress_Enforcement.thy ===== *)
theory Egress_Enforcement
  imports Egress
begin

text \<open>
  What the chain synthesis and the enforcement predicates of \<open>Egress\<close> guarantee: splicing a jump in at the
  computed rank enforces the policy and leaves the siblings alone, an enforced policy lets through exactly
  the permitted destinations, and removal ends and is exact. The kernel's packet matching and the
  behaviour of \<open>iptables\<close> are parameters; the theorems name what they use of them.
\<close>

unbundle bit_operations_syntax

subsection \<open>Splicing a clone's jump\<close>

text \<open>What \<open>iptables -I chain rank rule\<close> does to the printed chain: the new rule is printed above the rule that
  had the rank.\<close>

fun insert_before_rank :: "string \<Rightarrow> nat \<Rightarrow> string \<Rightarrow> string list \<Rightarrow> string list" where
  "insert_before_rank stem k j [] = [j]"
| "insert_before_rank stem k j (l # ls) =
     (if prefix stem l then (case k of 0 \<Rightarrow> j # l # ls | Suc k \<Rightarrow> l # insert_before_rank stem k j ls)
      else l # insert_before_rank stem k j ls)"

lemma insert_before_rank_rules:
  "prefix stem j \<Longrightarrow> k \<le> length (filter (prefix stem) ls) \<Longrightarrow>
   filter (prefix stem) (insert_before_rank stem k j ls) =
     take k (filter (prefix stem) ls) @ j # drop k (filter (prefix stem) ls)"
  by (induction stem k j ls rule: insert_before_rank.induct) (auto split: nat.splits)

lemma insert_before_rank_count:
  "length (filter Q (insert_before_rank stem k j ls)) = length (filter Q ls) + (if Q j then 1 else 0)"
  by (induction stem k j ls rule: insert_before_rank.induct) (auto split: nat.splits)

lemma insert_before_rank_find_map:
  "f j = None \<Longrightarrow> find_map f (insert_before_rank stem k j ls) = find_map f ls"
  by (induction stem k j ls rule: insert_before_rank.induct) (auto split: nat.splits option.splits)

lemma rank_of_rules:
  "rank_of stem P r ls = map_option (\<lambda>k. Suc (r + k)) (find_position P (filter (prefix stem) (map trim ls)))"
  by (induction ls arbitrary: r) (auto simp: Let_def option.map_comp comp_def)

lemma length_map_filter_eq:
  "length (filter (\<lambda>c. c = i) (List.map_filter f xs)) = length (filter (\<lambda>x. f x = Some i) xs)"
  by (induction xs) (auto simp: List.map_filter_def)

lemma take_bindings_build:
  "map per_veth_source_index binds = map Some bs \<Longrightarrow> distinct (acc @ bs) \<Longrightarrow>
   (case rest of [] \<Rightarrow> True | l # _ \<Rightarrow> per_veth_source_index l = None) \<Longrightarrow>
   take_bindings acc (binds @ rest) = Some (acc @ bs, rest)"
proof (induction binds arbitrary: acc bs)
  case Nil
  then show ?case by (cases rest) auto
next
  case (Cons l binds)
  then obtain i bs' where "bs = i # bs'" by auto
  then show ?case using Cons by simp
qed

lemma take_clone_jumps_build:
  "map clone_egress_jump_index jumps = map Some js \<Longrightarrow> distinct (acc @ js) \<Longrightarrow> set js \<subseteq> set bs \<Longrightarrow>
   (case rest of [] \<Rightarrow> True | l # _ \<Rightarrow> clone_egress_jump_index l = None) \<Longrightarrow>
   take_clone_jumps bs acc (jumps @ rest) = Some (acc @ js, rest)"
proof (induction jumps arbitrary: acc js)
  case Nil
  then show ?case by (cases rest) auto
next
  case (Cons l jumps)
  then obtain i js' where "js = i # js'" by auto
  then show ?case using Cons by simp
qed

lemma fixed_prefix_tokens:
  "l \<in> set fixed_prefix \<Longrightarrow>
     split_whitespace l = [''-A'', ''ROOMS_VETH_FWD'', ''!'', ''-s'', VETH_SUPERNET, ''-i'', ''veth-h+'', ''-j'', ''DROP'']
     \<or> (\<exists>d. split_whitespace l = [''-A'', ''ROOMS_VETH_FWD'', ''-s'', VETH_SUPERNET, ''-d'', d, ''-j'', ''DROP''])"
  by (auto simp: fixed_prefix_def VETH_ANTISPOOF_DROP_def VETH_ISOLATION_DROP_def PRIVATE_DROPS_def VETH_SUPERNET_def
      split_whitespace.simps is_whitespace_def)

lemma veth_wildcard_index: "clone_veth_index ''veth-h+'' = None"
  by (simp add: clone_veth_index_def CLONE_VETH_PREFIX_def is_ascii_digit_def strip_prefix_def)

lemma fixed_prefix_plain:
  assumes "l \<in> set fixed_prefix"
  shows "per_veth_source_index l = None \<and> clone_egress_jump_index l = None \<and> veth_egress_interface l = None"
  using fixed_prefix_tokens[OF assms]
  by (auto simp: per_veth_source_index_def clone_egress_jump_index_def veth_egress_interface_def veth_wildcard_index)

lemma egress_interface_eq: "veth_egress_interface l = egress_interface l"
  unfolding veth_egress_interface_def egress_interface_def VETH_FWD_CHAIN_def by (rule refl)

lemma jump_length: "clone_egress_jump_index l \<noteq> None \<Longrightarrow> length (split_whitespace l) = 6"
  by (auto simp: jump_tokens_def dest!: clone_egress_jump_indexD)

lemma jump_not_egress: "clone_egress_jump_index l \<noteq> None \<Longrightarrow> egress_interface l = None \<and> per_veth_source_index l = None"
  using jump_length[of l] egress_length[of l] binding_length[of l] by fastforce

lemma tail_plain: "clone_egress_jump_index VETH_TAIL_DROP = None"
  by (simp add: VETH_TAIL_DROP_def VETH_SUPERNET_def split_whitespace.simps is_whitespace_def clone_egress_jump_index_def)

lemma fixed_prefix_length: "length fixed_prefix = 5"
  by (simp add: fixed_prefix_def PRIVATE_DROPS_def)

text \<open>An accepted chain stays accepted when a bound clone that has no jump gets one at the insertion rank.\<close>

lemma veth_chain_build:
  assumes "veth_rules dump = binds @ fixed_prefix @ jumps @ [egress, returned, VETH_TAIL_DROP]"
    "map per_veth_source_index binds = map Some bs" "distinct bs"
    "map clone_egress_jump_index jumps = map Some js" "distinct js" "set js \<subseteq> set bs"
    "egress_interface egress \<noteq> None" "egress_interface egress = return_interface returned"
  shows "rooms_veth_fwd_isolates dump"
proof -
  have "per_veth_source_index VETH_ANTISPOOF_DROP = None"
    using fixed_prefix_plain[of VETH_ANTISPOOF_DROP] by (simp add: fixed_prefix_def)
  then have b: "take_bindings [] (veth_rules dump) = Some (bs, fixed_prefix @ jumps @ [egress, returned, VETH_TAIL_DROP])"
    using take_bindings_build[OF assms(2), of "[]" "fixed_prefix @ jumps @ [egress, returned, VETH_TAIL_DROP]"] assms(1,3)
    by (simp add: fixed_prefix_def)
  have "clone_egress_jump_index egress = None" using assms(7) jump_not_egress by metis
  then have "take_clone_jumps bs [] (jumps @ [egress, returned, VETH_TAIL_DROP]) = Some (js, [egress, returned, VETH_TAIL_DROP])"
    using take_clone_jumps_build[OF assms(4), of "[]" bs "[egress, returned, VETH_TAIL_DROP]"] assms(5,6) by simp
  then show ?thesis using assms(7,8) b
    by (auto simp: rooms_veth_fwd_isolates_def fixed_prefix_length veth_tail_ok_def)
qed

lemma clone_insert_position_shape:
  assumes v: "veth_rules dump = binds @ fixed_prefix @ jumps @ [egress, returned, VETH_TAIL_DROP]"
    and b: "map per_veth_source_index binds = map Some bs"
    and j: "map clone_egress_jump_index jumps = map Some js"
    and e: "egress_interface egress \<noteq> None" and ok: "rooms_veth_fwd_isolates dump"
  shows "clone_insert_position dump = Some (Suc (length binds + 5))"
proof -
  let ?P = "\<lambda>line. clone_egress_jump_index line \<noteq> None \<or> veth_egress_interface line \<noteq> None"
  have nb: "\<not> ?P l" if "l \<in> set binds" for l
  proof -
    have "per_veth_source_index l \<in> set (map Some bs)" using b that by (metis image_eqI list.set_map)
    then have "length (split_whitespace l) = 9" using binding_length by auto
    then show ?thesis using jump_length[of l] egress_length[of l]
      by (cases "clone_egress_jump_index l"; cases "egress_interface l") (simp_all add: egress_interface_eq)
  qed
  have nf: "\<not> ?P l" if "l \<in> set fixed_prefix" for l using fixed_prefix_plain[OF that] by simp
  have first: "?P ((jumps @ [egress, returned, VETH_TAIL_DROP]) ! 0)"
  proof (cases jumps)
    case Nil
    then show ?thesis using e by (simp add: egress_interface_eq)
  next
    case (Cons l ls)
    then obtain i where "clone_egress_jump_index l = Some i" using j by auto
    then show ?thesis using Cons by simp
  qed
  have "find_position ?P (veth_rules dump) = Some (length binds + 5)"
    unfolding find_position_Some_iff v append_assoc[symmetric]
    using nb nf first by (auto simp: nth_append fixed_prefix_length)
  then show ?thesis using ok by (simp add: clone_insert_position_def rank_of_rules veth_rules_def)
qed

text \<open>The rule \<open>clone_jump_rule\<close> inserts, as \<open>iptables -S\<close> prints it. A dump is canonical when its binding rules
  start with the chain's own prefix, as every line \<open>iptables -S\<close> prints does.\<close>

definition printed_insert :: "string list \<Rightarrow> string" where
  "printed_insert rule = join_with space (''-A'' # rule ! 1 # drop 3 rule)"

definition canonical_veth_dump :: "string \<Rightarrow> bool" where
  "canonical_veth_dump dump \<longleftrightarrow>
     list_all (\<lambda>l. per_veth_source_index l \<noteq> None \<longrightarrow> prefix ''-A ROOMS_VETH_FWD '' l) (map trim (lines dump))"

lemma printed_jump:
  assumes "clone_jump_rule pos veth = Some jump"
  obtains i where "clone_veth_index veth = Some i" "printed_insert jump = join_with space (jump_tokens i)"
    "veth = veth_h i" "1 \<le> i" "i \<le> MAX_CLONE_VETH_INDEX"
proof -
  obtain i where i: "clone_veth_index veth = Some i" and
    j: "jump = [''-I'', VETH_FWD_CHAIN, show_nat pos, ''-i'', veth, ''-j'', clone_egress_chain i]"
    using assms by (auto simp: clone_jump_rule_def clone_chain_for_veth_def split: if_splits option.splits)
  moreover have "veth = veth_h i" using clone_veth_indexD[OF i] by simp
  moreover have "printed_insert jump = join_with space (jump_tokens i)"
    by (simp add: printed_insert_def j jump_tokens_def VETH_FWD_CHAIN_def \<open>veth = veth_h i\<close>)
  ultimately show ?thesis using that clone_veth_indexD[OF i] by blast
qed

lemma jump_line_index:
  assumes "1 \<le> i" "i \<le> MAX_CLONE_VETH_INDEX"
  shows "clone_egress_jump_index (join_with space (jump_tokens i)) = Some i"
    and "prefix ''-A ROOMS_VETH_FWD '' (join_with space (jump_tokens i))"
proof -
  have "split_whitespace (join_with space (jump_tokens i)) = jump_tokens i"
  proof (rule split_whitespace_join)
    have w: "\<not> is_whitespace c" if "c \<in> set (show_u8 i)" for c using that show_nat_no_whitespace by blast
    show "\<forall>w \<in> set (jump_tokens i). w \<noteq> [] \<and> (\<forall>c \<in> set w. \<not> is_whitespace c)"
      using w by (auto simp: jump_tokens_def veth_h_def clone_egress_chain_def CLONE_VETH_PREFIX_def
          CLONE_EGRESS_CHAIN_PREFIX_def) (simp_all add: is_whitespace_def)
  qed
  then show "clone_egress_jump_index (join_with space (jump_tokens i)) = Some i"
    using clone_veth_index_veth_h[OF assms] by (simp add: clone_egress_jump_index_def jump_tokens_def)
  show "prefix ''-A ROOMS_VETH_FWD '' (join_with space (jump_tokens i))" by (simp add: jump_tokens_def)
qed

lemma binding_in_chain:
  assumes v: "veth_rules dump = binds @ fixed_prefix @ jumps @ [egress, returned, VETH_TAIL_DROP]"
    and b: "map per_veth_source_index binds = map Some bs" and j: "map clone_egress_jump_index jumps = map Some js"
    and e: "egress_interface egress \<noteq> None" "egress_interface egress = return_interface returned"
    and l: "l \<in> set (veth_rules dump)" "per_veth_source_index l = Some i"
  shows "i \<in> set bs"
proof -
  have n: "length (split_whitespace l) = 9" by (rule binding_length[OF l(2)])
  have "l \<notin> set fixed_prefix" using fixed_prefix_plain[of l] l(2) by auto
  moreover have "l \<notin> set jumps"
  proof
    assume "l \<in> set jumps"
    then have "clone_egress_jump_index l \<in> set (map Some js)" using j by (metis image_eqI list.set_map)
    then show False using jump_length[of l] n by auto
  qed
  moreover have "l \<noteq> egress" "l \<noteq> returned" "l \<noteq> VETH_TAIL_DROP"
    using n egress_length[OF e(1)] return_length[of returned] e tail_tokens by auto
  ultimately have "l \<in> set binds" using l(1) v by auto
  then have "per_veth_source_index l \<in> set (map Some bs)" using b by (metis image_eqI list.set_map)
  then show ?thesis using l(2) by auto
qed

lemma jump_in_count:
  assumes "map clone_egress_jump_index jumps = map Some js" and "set jumps \<subseteq> set (map trim (lines dump))"
    and "clone_jump_count dump i = 0"
  shows "i \<notin> set js"
proof
  assume "i \<in> set js"
  then have "Some i \<in> set (map clone_egress_jump_index jumps)" using assms(1) by simp
  then obtain l where "l \<in> set jumps" "clone_egress_jump_index l = Some i" by auto
  then have "filter (\<lambda>l. clone_egress_jump_index l = Some i) (map trim (lines dump)) \<noteq> []"
    using assms(2) by (auto simp: filter_empty_conv)
  then show False using assms(3) by (simp only: clone_jump_count_def length_map_filter_eq length_0_conv)
qed

lemma clone_splice_isolates:
  assumes pos: "clone_insert_position dump = Some pos" and bound: "clone_source_binding_present dump veth"
    and canon: "canonical_veth_dump dump" and fresh: "clone_veth_index veth = Some i" "clone_jump_count dump i = 0"
    and ji: "clone_egress_jump_index jl = Some i" and pre: "prefix ''-A ROOMS_VETH_FWD '' jl"
    and spliced: "map trim (lines dump') = insert_before_rank ''-A ROOMS_VETH_FWD '' (pos - 1) jl (map trim (lines dump))"
  shows "rooms_veth_fwd_isolates dump'"
proof -
  have iso: "rooms_veth_fwd_isolates dump" using pos by (simp add: clone_insert_position_def split: if_splits)
  obtain binds bs jumps js egress returned where
    v: "veth_rules dump = binds @ fixed_prefix @ jumps @ [egress, returned, VETH_TAIL_DROP]"
    and b: "map per_veth_source_index binds = map Some bs" "distinct bs"
    and j: "map clone_egress_jump_index jumps = map Some js" "distinct js" "set js \<subseteq> set bs"
    and e: "egress_interface egress \<noteq> None" "egress_interface egress = return_interface returned"
    by (rule veth_chain_shape[OF iso])
  let ?ls = "map trim (lines dump)"
  have p: "pos = Suc (length binds + 5)" using pos clone_insert_position_shape[OF v b(1) j(1) e(1) iso] by simp
  have ls: "filter (prefix ''-A ROOMS_VETH_FWD '') ?ls = veth_rules dump" by (simp add: veth_rules_def)
  have "veth_rules dump' = take (length binds + 5) (veth_rules dump) @ jl # drop (length binds + 5) (veth_rules dump)"
    unfolding veth_rules_def[of dump'] spliced p diff_Suc_1
    using insert_before_rank_rules[OF pre, of "length binds + 5" ?ls] by (simp add: ls v fixed_prefix_length)
  then have v': "veth_rules dump' = binds @ fixed_prefix @ (jl # jumps) @ [egress, returned, VETH_TAIL_DROP]"
    by (simp add: v fixed_prefix_length)
  have "\<exists>l \<in> set ?ls. per_veth_source_index l = Some i"
  proof -
    have "length (filter (\<lambda>l. per_veth_source_index l = Some i) ?ls) = 1"
      using bound fresh(1) unfolding clone_source_binding_present_def length_map_filter_eq by simp
    then show ?thesis by (metis (mono_tags, lifting) filter_False length_0_conv zero_neq_one)
  qed
  then have "\<exists>l \<in> set (veth_rules dump). per_veth_source_index l = Some i"
    using canon by (auto simp: canonical_veth_dump_def list_all_iff veth_rules_def)
  then have ib: "i \<in> set bs" using binding_in_chain[OF v b(1) j(1) e] by blast
  have "set jumps \<subseteq> set ?ls" using ls v by (metis Un_subset_iff filter_is_subset set_append)
  then have "i \<notin> set js" using jump_in_count[OF j(1) _ fresh(2)] by blast
  then show ?thesis
    using veth_chain_build[OF v' b, of "i # js"] j ib e ji by simp
qed

lemma clone_splice_counts:
  assumes "clone_egress_jump_index jl = Some i"
    and "map trim (lines dump') = insert_before_rank stem k jl (map trim (lines dump))"
  shows "clone_jump_count dump' c = clone_jump_count dump c + (if c = i then 1 else 0)"
    and "clone_source_binding_present dump' v = clone_source_binding_present dump v"
    and "find_map veth_egress_interface (map trim (lines dump')) = find_map veth_egress_interface (map trim (lines dump))"
  unfolding clone_jump_count_def clone_source_binding_present_def length_map_filter_eq assms(2) insert_before_rank_count
  using assms(1) jump_not_egress[of jl] insert_before_rank_find_map[of veth_egress_interface jl stem k "map trim (lines dump)"]
  by (auto simp: egress_interface_eq split: option.splits)

text \<open>C12. Installing one clone's policy enforces it and touches no sibling. Let the clone chain pass the check, let it
  bind the clone's source and hold no jump of the clone yet, and splice the rule of \<open>clone_jump_rule\<close> in at
  the rank \<open>clone_insert_position\<close> computes. Then the chain still passes the check; every source binding and
  the enforcement of every other clone are unchanged; and the clone itself is enforced as soon as its
  subchain matches the plan (and, for \<open>none\<close>, the INPUT drop is there).\<close>

theorem clone_install_enforces:
  assumes pos: "clone_insert_position dump = Some pos" and jump: "clone_jump_rule pos veth = Some jump"
    and bound: "clone_source_binding_present dump veth" and canon: "canonical_veth_dump dump"
    and fresh: "clone_veth_index veth = Some i" "clone_jump_count dump i = 0"
    and spliced: "map trim (lines dump') =
      insert_before_rank ''-A ROOMS_VETH_FWD '' (pos - 1) (printed_insert jump) (map trim (lines dump))"
  shows "rooms_veth_fwd_isolates dump'
    \<and> (\<forall>v. clone_source_binding_present dump' v = clone_source_binding_present dump v)
    \<and> (\<forall>v out eg inp plan. v \<noteq> veth \<longrightarrow>
         clone_egress_enforced v out dump' eg inp plan = clone_egress_enforced v out dump eg inp plan)
    \<and> (\<forall>out eg inp plan. clone_out_iface dump = Some out \<and> plan \<noteq> PlanObserve
         \<and> clone_subchain_matches_plan (clone_egress_chain i) out eg plan
         \<and> (plan = PlanNone \<longrightarrow> veth_input_drop_present inp veth)
         \<longrightarrow> clone_egress_enforced veth out dump' eg inp plan)"
proof -
  have iso: "rooms_veth_fwd_isolates dump" using pos by (simp add: clone_insert_position_def split: if_splits)
  obtain k where "clone_veth_index veth = Some k" "printed_insert jump = join_with space (jump_tokens k)"
    "1 \<le> k" "k \<le> MAX_CLONE_VETH_INDEX" by (rule printed_jump[OF jump])
  then have ji: "clone_egress_jump_index (printed_insert jump) = Some i" and
    pre: "prefix ''-A ROOMS_VETH_FWD '' (printed_insert jump)"
    using fresh(1) jump_line_index[of k] by simp_all
  have iso': "rooms_veth_fwd_isolates dump'" by (rule clone_splice_isolates[OF pos bound canon fresh ji pre spliced])
  note counts = clone_splice_counts[OF ji spliced]
  have out: "clone_out_iface dump' = clone_out_iface dump" using iso iso' counts(3) by (simp add: clone_out_iface_def)
  have other: "clone_egress_enforced v out dump' eg inp plan = clone_egress_enforced v out dump eg inp plan"
    if "v \<noteq> veth" for v out eg inp plan
  proof (cases "clone_veth_index v")
    case (Some c)
    then have "c \<noteq> i" using that clone_veth_indexD fresh(1) by metis
    then show ?thesis using Some iso iso' out counts(1)[of c] by (simp add: clone_egress_enforced_def)
  qed (simp add: clone_egress_enforced_def iso iso')
  show ?thesis
    using iso' counts(2) other counts(1)[of i] fresh out by (simp add: clone_egress_enforced_def plan_enforces_def)
qed

subsection \<open>What an enforced policy lets through\<close>

text \<open>Membership in a network by its leading bits, the meaning of \<open>-d net/bits\<close>.\<close>

definition in_network :: "u32 \<times> u8 \<Rightarrow> ipv4 \<Rightarrow> bool" where
  "in_network n ip \<longleftrightarrow>
     unat (fst n) div 2 ^ (32 - unat (snd n)) = unat (ipv4_to_u32 ip) div 2 ^ (32 - unat (snd n))"

lemma masked_prefix:
  assumes "n < 32"
  shows "drop_bit n (and (x :: u32) (push_bit n (- 1))) = drop_bit n x"
  by (rule bit_word_eqI) (auto simp: bit_simps dest: bit_imp_le_length)

lemma network_of_entry:
  assumes "ipv4_network e = Some n"
  shows "entry_matches ip e \<longleftrightarrow> in_network n ip"
proof (cases "split_once CHR ''/'' e")
  case None
  then obtain a where a: "parse_ipv4 e = Some a" "n = (ipv4_to_u32 a, 32)"
    using assms by (auto simp: ipv4_network_def Let_def split: option.splits if_splits)
  then show ?thesis using None by (auto simp: entry_matches_def in_network_def word_unat_eq_iff[symmetric] ipv4_to_u32_inj)
next
  case (Some p)
  then obtain addr pfx bits a where p: "p = (addr, pfx)" "parse_u8 pfx = Some bits" "\<not> bits > 32" "parse_ipv4 addr = Some a"
    and n: "n = (and (ipv4_to_u32 a) (if unat (32 - bits) < 32 then push_bit (unat (32 - bits)) (- 1) else 0), bits)"
    using assms by (cases p) (auto simp: ipv4_network_def Let_def split: option.splits if_splits)
  have b: "unat (32 - bits) = 32 - unat bits" "unat bits \<le> 32" using p(3) by (simp_all add: unat_sub word_le_nat_alt not_less)
  show ?thesis
  proof (cases "bits = 0")
    case True
    have "unat (x :: u32) div 2 ^ 32 = 0" for x using unsigned_less[of x, where ?'a = nat] by simp
    then show ?thesis using True Some p by (simp add: entry_matches_def cidr_contains_def in_network_def n)
  next
    case False
    then have lt: "32 - unat bits < 32" by (simp add: word_unat_eq_iff)
    have "entry_matches ip e \<longleftrightarrow> drop_bit (32 - unat bits) (ipv4_to_u32 a) = drop_bit (32 - unat bits) (ipv4_to_u32 ip)"
      using Some p False mask_eq_iff[of "32 - unat bits"] by (simp add: entry_matches_def cidr_contains_def)
    also have "\<dots> \<longleftrightarrow> unat (drop_bit (32 - unat bits) (fst n)) = unat (drop_bit (32 - unat bits) (ipv4_to_u32 ip))"
      using lt b(1) masked_prefix[OF lt, of "ipv4_to_u32 a"] by (simp add: n word_unat_eq_iff)
    finally show ?thesis by (simp only: in_network_def unat_drop_bit n snd_conv)
  qed
qed

lemma ipv4_network_literal:
  "parse_dest e = Inr (Cidr l) \<Longrightarrow> ipv4_network l \<noteq> None"
  by (auto simp: parse_dest_def validate_cidr_def ipv4_network_def Let_def split_once_None split: if_splits option.splits sum.splits)

lemma ipv4_network_show: "ipv4_network (show_ipv4 ip) \<noteq> None"
  using split_once_None[OF slash_notin_show_ipv4[of ip]] by (simp add: ipv4_network_def)

lemma parsed_entries_literal:
  "parse_entries es = Inr ds \<Longrightarrow> Cidr l \<in> set ds \<Longrightarrow> ipv4_network l \<noteq> None"
proof (induction es arbitrary: ds)
  case (Cons a es)
  then obtain d ds' where "ds = d # ds'" "parse_dest (trim a) = Inr d" "parse_entries es = Inr ds'"
    by (auto simp: Let_def split: if_splits sum.splits)
  then show ?case using Cons ipv4_network_literal by auto
qed simp

lemma resolved_entries_network:
  "resolve_allowlist dns ds = Inr ips \<Longrightarrow> \<forall>l. Cidr l \<in> set ds \<longrightarrow> ipv4_network l \<noteq> None \<Longrightarrow>
     e \<in> set ips \<Longrightarrow> ipv4_network e \<noteq> None"
proof (induction ds arbitrary: ips)
  case (Cons d ds)
  then obtain xs rest where s: "ips = xs @ rest" "resolve_allowlist dns ds = Inr rest"
    and x: "(case d of Cidr literal \<Rightarrow> Inr [literal] | Host h \<Rightarrow> resolve_host dns h) = Inr xs"
    by (auto split: sum.splits)
  have "ipv4_network e \<noteq> None" if "e \<in> set xs"
  proof (cases d)
    case (Host h)
    then obtain addrs where
      "xs = remdups_adj (sort (List.map_filter (\<lambda>a. case a of V4 ip \<Rightarrow> Some (show_ipv4 ip) | V6 _ \<Rightarrow> None) addrs))"
      using x by (auto simp: resolve_host_def Let_def split: sum.splits if_splits)
    then have "\<exists>ip. e = show_ipv4 ip" using that unfolding List.map_filter_def
      by (auto split: ip_addr.splits simp del: split_paired_Ex)
    then show ?thesis using ipv4_network_show by blast
  qed (use x that Cons.prems(2) in auto)
  then show ?case using Cons s by auto
qed simp

text \<open>Every destination of a launch-ready plan is an IPv4 network.\<close>

lemma plan_networks:
  assumes "egress_parse flag = Inr pol" and "egress_resolve dns pol = Inr plan" and "e \<in> set (plan_permitted plan)"
  shows "ipv4_network e \<noteq> None"
proof -
  obtain ds ips where d: "pol = PolicyAllowlist ds" "plan = PlanAllowlist ips" "resolve_allowlist dns ds = Inr ips"
    using assms(2,3) by (cases pol) (auto simp: egress_resolve_def split: sum.splits)
  then obtain es where "parse_entries es = Inr ds"
    using assms(1) by (auto simp: egress_parse_def parse_allowlist_def Let_def split: if_splits option.splits sum.splits)
  then show ?thesis using resolved_entries_network[OF d(3)] parsed_entries_literal assms(3) d(2) by auto
qed

text \<open>The verdict of a chain on a packet: the target of the first matching terminating rule.\<close>

definition chain_verdict :: "(string \<Rightarrow> 'p \<Rightarrow> bool) \<Rightarrow> string list \<Rightarrow> 'p \<Rightarrow> string option" where
  "chain_verdict hit rules p =
     Option.bind (find (\<lambda>l. hit l p \<and> rule_target l \<in> {Some ''ACCEPT'', Some ''DROP''}) rules) rule_target"

lemma chain_verdict_Cons:
  "chain_verdict hit (l # ls) p =
     (if hit l p \<and> rule_target l \<in> {Some ''ACCEPT'', Some ''DROP''} then rule_target l else chain_verdict hit ls p)"
  by (auto simp: chain_verdict_def)

lemma split_whitespace_join_append:
  "(\<forall>w \<in> set ws. w \<noteq> [] \<and> (\<forall>c \<in> set w. \<not> is_whitespace c)) \<Longrightarrow> ws \<noteq> [] \<Longrightarrow>
     split_whitespace (join_with space ws @ space # s) = ws @ split_whitespace s"
proof (induction ws)
  case (Cons w ws)
  have sp: "is_whitespace space" by (simp add: is_whitespace_def)
  show ?case
  proof (cases ws)
    case Nil
    then show ?thesis using Cons.prems by (simp add: split_whitespace_Cons sp)
  next
    case (Cons v vs)
    then show ?thesis using Cons.prems Cons.IH by (simp add: split_whitespace_Cons sp)
  qed
qed simp

definition word_like :: "string \<Rightarrow> bool" where
  "word_like w \<longleftrightarrow> w \<noteq> [] \<and> (\<forall>c \<in> set w. \<not> is_whitespace c) \<and> w \<notin> {''-j'', ''-g''}"

lemma accept_line:
  assumes "clone_accept_matches l chain out_if d" and n: "ipv4_network d = Some n" and "word_like chain" "word_like out_if"
  obtains live where "split_whitespace l = [''-A'', chain, ''-d'', live, ''-o'', out_if, ''-j'', ''ACCEPT'']"
    "ipv4_network live = Some n" "rule_target l = Some ''ACCEPT''"
proof -
  obtain live where t: "split_whitespace l = [''-A'', chain, ''-d'', live, ''-o'', out_if, ''-j'', ''ACCEPT'']"
    and "destinations_equivalent d live"
    using assms(1) by (auto simp: clone_accept_matches_def split: list.splits if_splits)
  then have live: "ipv4_network live = Some n" using n by (auto simp: destinations_equivalent_def)
  have "ipv4_network ''-j'' = None" "ipv4_network ''-g'' = None"
    by (simp_all add: ipv4_network_def split_once_None parse_ipv4_def)
  then have "live \<notin> {''-j'', ''-g''}" using live by auto
  then have "rule_target l = Some ''ACCEPT''" using assms(3,4) by (simp add: rule_target_def t word_like_def)
  then show ?thesis using that t live by blast
qed

lemma tail_lines:
  assumes "word_like chain" "word_like out_if"
  shows "split_whitespace (''-A '' @ chain @ '' -o '' @ out_if @ '' -j DROP'') = [''-A'', chain, ''-o'', out_if, ''-j'', ''DROP'']"
    and "rule_target (''-A '' @ chain @ '' -o '' @ out_if @ '' -j DROP'') = Some ''DROP''"
    and "clone_log_matches l chain out_if \<Longrightarrow> rule_target l = Some ''LOG''"
proof -
  let ?w = "[''-A'', chain, ''-o'', out_if, ''-j'', ''DROP'']"
  let ?g = "[''-A'', chain, ''-o'', out_if, ''-j'', ''LOG'', ''--log-prefix'']"
  have w: "\<forall>w \<in> set ?w. w \<noteq> [] \<and> (\<forall>c \<in> set w. \<not> is_whitespace c)" "\<forall>w \<in> set ?g. w \<noteq> [] \<and> (\<forall>c \<in> set w. \<not> is_whitespace c)"
    using assms by (simp_all add: word_like_def) (simp_all add: is_whitespace_def)
  show t: "split_whitespace (''-A '' @ chain @ '' -o '' @ out_if @ '' -j DROP'') = ?w"
    using split_whitespace_join[OF w(1)] by simp
  show "rule_target (''-A '' @ chain @ '' -o '' @ out_if @ '' -j DROP'') = Some ''DROP''"
    unfolding rule_target_def t using assms by (simp add: word_like_def)
  assume "clone_log_matches l chain out_if"
  then obtain pfx where "l = join_with space ?g @ space # pfx"
    by (auto simp: clone_log_matches_def strip_prefix_Some split: option.splits)
  then have "split_whitespace l = ?g @ split_whitespace pfx" using split_whitespace_join_append[OF w(2)] by simp
  then show "rule_target l = Some ''LOG''" using assms by (simp add: rule_target_def word_like_def)
qed

lemma subchain_verdict:
  assumes m: "subchain_lines_match chain out_if permitted ls" and w: "word_like chain" "word_like out_if"
    and nets: "\<forall>e \<in> set permitted. ipv4_network e \<noteq> None"
    and accept_match: "\<And>l d n. split_whitespace l = [''-A'', chain, ''-d'', d, ''-o'', out_if, ''-j'', ''ACCEPT''] \<Longrightarrow>
      ipv4_network d = Some n \<Longrightarrow> hit l p \<longleftrightarrow> in_network n (dst p)"
    and drop_match: "\<And>l. split_whitespace l = [''-A'', chain, ''-o'', out_if, ''-j'', ''DROP''] \<Longrightarrow> hit l p"
  shows "chain_verdict hit ls p =
    Some (if \<exists>e \<in> set permitted. entry_matches (dst p) e then ''ACCEPT'' else ''DROP'')"
  using m nets
proof (induction permitted arbitrary: ls)
  case Nil
  then obtain log_line where ls: "ls = [log_line, ''-A '' @ chain @ '' -o '' @ out_if @ '' -j DROP'']"
    and "clone_log_matches log_line chain out_if"
    by (auto split: list.splits)
  then have "rule_target log_line = Some ''LOG''" using tail_lines(3)[OF w] by blast
  then show ?case
    using tail_lines(2)[OF w] drop_match[OF tail_lines(1)[OF w]] unfolding ls chain_verdict_Cons by simp
next
  case (Cons d permitted)
  then obtain l more_lines where ls: "ls = l # more_lines" and a: "clone_accept_matches l chain out_if d"
    and rest: "subchain_lines_match chain out_if permitted more_lines"
    by (auto split: list.splits if_splits)
  obtain n where n: "ipv4_network d = Some n" using Cons.prems(2) by auto
  obtain live where live: "split_whitespace l = [''-A'', chain, ''-d'', live, ''-o'', out_if, ''-j'', ''ACCEPT'']"
    "ipv4_network live = Some n" "rule_target l = Some ''ACCEPT''" by (rule accept_line[OF a n w])
  have "hit l p \<longleftrightarrow> entry_matches (dst p) d" using accept_match[OF live(1,2)] network_of_entry[OF n] by simp
  then show ?case
    using Cons.IH[OF rest] Cons.prems(2) live(3) unfolding ls chain_verdict_Cons by simp
qed

lemma find_map_Some: "find_map f xs = Some y \<Longrightarrow> \<exists>x \<in> set xs. f x = Some y"
  by (induction xs) (auto split: option.splits)

lemma out_iface_word:
  assumes "clone_out_iface dump = Some out_if"
  shows "out_if \<noteq> [] \<and> (\<forall>c \<in> set out_if. \<not> is_whitespace c)"
proof -
  obtain l where "veth_egress_interface l = Some out_if"
    using assms find_map_Some by (fastforce simp: clone_out_iface_def split: if_splits)
  then have "out_if \<in> set (split_whitespace l)"
    by (auto simp: veth_egress_interface_def split: list.splits if_splits)
  then show ?thesis by (rule split_whitespace_words)
qed

lemma clone_chain_word: "word_like (clone_egress_chain i)"
proof -
  have w: "\<not> is_whitespace c" if "c \<in> set (show_u8 i)" for c using that show_nat_no_whitespace by blast
  show ?thesis unfolding word_like_def clone_egress_chain_def CLONE_EGRESS_CHAIN_PREFIX_def
    using w by (auto simp: is_whitespace_def)
qed

text \<open>C13. What an enforced clone policy lets through, exactly. Take a policy as the flag parser and the resolver
  made it, and dumps on which \<open>clone_egress_enforced\<close> answers true. Let \<open>hit\<close> be the kernel's matching, of
  which only the documented meaning of \<open>-d net -o interface\<close> and \<open>-o interface\<close> is used. Then a packet
  leaving on the upstream interface is accepted by the clone's chain if the witness recorder's own test
  (\<open>entry_matches\<close>) calls its destination permitted, and dropped otherwise: the firewall enforces precisely
  what the audit reports as permitted.\<close>

theorem enforced_policy_is_exact:
  assumes policy: "egress_parse flag = Inr pol" "egress_resolve dns pol = Inr plan"
    and enforced: "clone_egress_enforced veth out_if veth_dump eg_dump input_dump plan"
    and iface: "out_if \<notin> {''-j'', ''-g''}" "oif p = out_if"
    and accept_match: "\<And>l chain d n. split_whitespace l = [''-A'', chain, ''-d'', d, ''-o'', out_if, ''-j'', ''ACCEPT''] \<Longrightarrow>
      ipv4_network d = Some n \<Longrightarrow> hit l p \<longleftrightarrow> oif p = out_if \<and> in_network n (dst p)"
    and drop_match: "\<And>l chain. split_whitespace l = [''-A'', chain, ''-o'', out_if, ''-j'', ''DROP''] \<Longrightarrow>
      hit l p \<longleftrightarrow> oif p = out_if"
  shows "chain_verdict hit (tl (subchain_lines eg_dump)) p =
    Some (if \<exists>e \<in> set (plan_permitted plan). entry_matches (dst p) e then ''ACCEPT'' else ''DROP'')"
proof -
  obtain i where i: "clone_veth_index veth = Some i" "clone_out_iface veth_dump = Some out_if"
    and m: "clone_subchain_matches_plan (clone_egress_chain i) out_if eg_dump plan"
    using enforced by (auto simp: clone_egress_enforced_def split: if_splits option.splits)
  have w: "word_like out_if" using out_iface_word[OF i(2)] iface(1) by (simp add: word_like_def)
  have "subchain_lines_match (clone_egress_chain i) out_if (plan_permitted plan) (tl (subchain_lines eg_dump))"
    using m by (auto simp: clone_subchain_matches_plan_def split: list.splits if_splits)
  then show ?thesis
    using plan_networks[OF policy] accept_match drop_match iface(2)
    by (intro subchain_verdict[OF _ clone_chain_word w]) auto
qed

definition demo_eg_lines :: "string list" where
  "demo_eg_lines = [''-N ROOMS_CEG_1'', ''-A ROOMS_CEG_1 -d 1.2.3.4/32 -o eth0 -j ACCEPT'',
     ''-A ROOMS_CEG_1 -o eth0 -j LOG --log-prefix '' @ CHR 0x22 # ''rooms-egress-drop:1 '' @ [CHR 0x22],
     ''-A ROOMS_CEG_1 -o eth0 -j DROP'']"

definition demo_eg_dump :: string where
  "demo_eg_dump = concat (map (\<lambda>l. l @ [newline]) demo_eg_lines)"

lemma demo_eg_subchain: "subchain_lines demo_eg_dump = demo_eg_lines"
proof -
  have "lines demo_eg_dump = demo_eg_lines"
    unfolding demo_eg_dump_def by (rule lines_concat) (simp add: demo_eg_lines_def)
  then show ?thesis by (simp add: subchain_lines_def demo_eg_lines_def trim_def is_whitespace_def)
qed

lemma demo_parse_ip: "parse_ipv4 ''1.2.3.4'' = Some (1, 2, 3, 4)"
  using parse_show_ipv4[of "(1, 2, 3, 4)"] by (simp add: show_ipv4_def show_nat.simps digit_char_def)

lemma demo_networks: "ipv4_network ''1.2.3.4'' = Some (0x01020304, 32)" "ipv4_network ''1.2.3.4/32'' = Some (0x01020304, 32)"
proof -
  have "parse_u8 ''32'' = Some 32" using parse_show_u8[of 32] by (simp add: show_nat.simps digit_char_def)
  then show "ipv4_network ''1.2.3.4'' = Some (0x01020304, 32)" "ipv4_network ''1.2.3.4/32'' = Some (0x01020304, 32)"
    by (simp_all add: ipv4_network_def demo_parse_ip split_once_def ipv4_to_u32_def)
qed

lemma demo_policy: "egress_parse ''allowlist:1.2.3.4'' = Inr (PolicyAllowlist [Cidr ''1.2.3.4''])"
  by (simp add: egress_parse_def trim_def is_whitespace_def strip_prefix_def parse_allowlist_def parse_dest_def
      validate_cidr_def demo_parse_ip)

lemma demo_subchain_ok: "clone_subchain_matches_plan ''ROOMS_CEG_1'' ''eth0'' demo_eg_dump (PlanAllowlist [''1.2.3.4''])"
  by (simp add: clone_subchain_matches_plan_def demo_eg_subchain demo_eg_lines_def clone_accept_matches_def
      split_whitespace.simps is_whitespace_def destinations_equivalent_def demo_networks clone_log_matches_def strip_prefix_def
      trim_def trim_matches_def drop_log_prefix_def EG_CHAIN_PREFIX_def)

definition demo_base_rules :: "string list" where
  "demo_base_rules = demo_binding # fixed_prefix @ [demo_egress, demo_return, VETH_TAIL_DROP]"

definition demo_base_dump :: string where
  "demo_base_dump = concat (map (\<lambda>l. l @ [newline]) demo_base_rules)"

lemma demo_lines_of:
  "map trim (lines demo_veth_dump) = demo_veth_rules" "map trim (lines demo_base_dump) = demo_base_rules"
proof -
  have t: "map trim demo_veth_rules = demo_veth_rules"
    by (simp add: demo_veth_rules_def veth_string_defs trim_def is_whitespace_def)
  have n: "\<forall>l \<in> set demo_veth_rules. newline \<notin> set l \<and> carriage_return \<notin> set l"
    by (simp add: demo_veth_rules_def veth_string_defs)
  show "map trim (lines demo_veth_dump) = demo_veth_rules"
    using t lines_concat[OF n] by (simp add: demo_veth_dump_def)
  have sub: "set demo_base_rules \<subseteq> set demo_veth_rules" by (auto simp: demo_base_rules_def demo_veth_rules_alt)
  then have "lines demo_base_dump = demo_base_rules"
    unfolding demo_base_dump_def using n by (intro lines_concat) blast
  moreover have "trim l = l" if "l \<in> set demo_veth_rules" for l using that t by (metis in_set_conv_nth nth_map)
  then have "map trim demo_base_rules = demo_base_rules" using sub by (intro map_idI) blast
  ultimately show "map trim (lines demo_base_dump) = demo_base_rules" by simp
qed

lemma short_line_classes:
  "length (split_whitespace l) \<noteq> 9 \<Longrightarrow> per_veth_source_index l = None"
  "length (split_whitespace l) \<noteq> 6 \<Longrightarrow> clone_egress_jump_index l = None"
  "length (split_whitespace l) \<noteq> 8 \<Longrightarrow> egress_interface l = None"
  using binding_length[of l] jump_length[of l] egress_length[of l] by (metis option.exhaust)+

lemma demo_no_binding:
  "per_veth_source_index demo_egress = None" "per_veth_source_index demo_return = None" "per_veth_source_index VETH_TAIL_DROP = None"
  "per_veth_source_index demo_jump = None" "clone_egress_jump_index demo_return = None" "clone_egress_jump_index demo_binding = None"
  "egress_interface demo_binding = None" "egress_interface demo_jump = None"
proof -
  have "length (split_whitespace demo_egress) = 8" "length (split_whitespace demo_return) = 12"
    "length (split_whitespace demo_jump) = 6" "length (split_whitespace demo_binding) = 9"
    using egress_length[of demo_egress] return_length[of demo_return] jump_length[of demo_jump] binding_length[of demo_binding 1]
    by (simp_all add: demo_line_classes)
  then show "per_veth_source_index demo_egress = None" "per_veth_source_index demo_return = None"
    "per_veth_source_index VETH_TAIL_DROP = None" "per_veth_source_index demo_jump = None"
    "clone_egress_jump_index demo_return = None" "clone_egress_jump_index demo_binding = None"
    "egress_interface demo_binding = None" "egress_interface demo_jump = None"
    by (simp_all add: short_line_classes tail_tokens)
qed

lemma demo_rules_prefix: "\<forall>l \<in> set demo_veth_rules. prefix ''-A ROOMS_VETH_FWD '' l"
  by (simp add: demo_veth_rules_def veth_string_defs)

lemma demo_filters:
  "filter (\<lambda>l. per_veth_source_index l = Some 1) demo_base_rules = [demo_binding]"
  "filter (\<lambda>l. clone_egress_jump_index l = Some 1) demo_base_rules = []"
  "filter (\<lambda>l. clone_egress_jump_index l = Some 1) demo_veth_rules = [demo_jump]"
proof -
  have f: "filter (\<lambda>l. per_veth_source_index l = Some 1) fixed_prefix = []"
    "filter (\<lambda>l. clone_egress_jump_index l = Some 1) fixed_prefix = []"
    using fixed_prefix_plain by (auto simp: filter_empty_conv)
  then show "filter (\<lambda>l. per_veth_source_index l = Some 1) demo_base_rules = [demo_binding]"
    "filter (\<lambda>l. clone_egress_jump_index l = Some 1) demo_base_rules = []"
    "filter (\<lambda>l. clone_egress_jump_index l = Some 1) demo_veth_rules = [demo_jump]"
    by (simp_all add: demo_base_rules_def demo_veth_rules_alt demo_line_classes demo_no_binding tail_plain)
qed

lemma demo_base_position: "clone_insert_position demo_base_dump = Some 7" and demo_base_isolates: "rooms_veth_fwd_isolates demo_base_dump"
proof -
  have v: "veth_rules demo_base_dump = [demo_binding] @ fixed_prefix @ [] @ [demo_egress, demo_return, VETH_TAIL_DROP]"
    using demo_rules_prefix unfolding veth_rules_def demo_lines_of
    by (simp add: demo_base_rules_def demo_veth_rules_alt filter_id_conv)
  have b: "map per_veth_source_index [demo_binding] = map Some [1]" by (simp add: demo_line_classes)
  show iso: "rooms_veth_fwd_isolates demo_base_dump"
    by (rule veth_chain_build[OF v b, of "[]"]) (simp_all add: demo_line_classes)
  show "clone_insert_position demo_base_dump = Some 7"
    using clone_insert_position_shape[OF v b, of "[]"] iso by (simp add: demo_line_classes)
qed

lemma demo_out_iface: "clone_out_iface demo_veth_dump = Some ''eth0''" "clone_out_iface demo_base_dump = Some ''eth0''"
proof -
  have f: "find_map veth_egress_interface (fixed_prefix @ xs) = find_map veth_egress_interface xs" for xs
  proof -
    have "find_map g (ys @ xs) = find_map g xs" if "\<forall>y \<in> set ys. g y = None" for ys and g :: "string \<Rightarrow> string option"
      using that by (induction ys) auto
    then show ?thesis using fixed_prefix_plain by blast
  qed
  show "clone_out_iface demo_veth_dump = Some ''eth0''"
    unfolding clone_out_iface_def demo_lines_of(1) demo_veth_rules_alt
    by (simp add: demo_veth_isolates f egress_interface_eq demo_no_binding demo_line_classes)
  show "clone_out_iface demo_base_dump = Some ''eth0''"
    unfolding clone_out_iface_def demo_lines_of(2) demo_base_rules_def
    by (simp add: demo_base_isolates f egress_interface_eq demo_no_binding demo_line_classes)
qed

lemma demo_chain_name: "clone_egress_chain 1 = ''ROOMS_CEG_1''"
  by (simp add: clone_egress_chain_def CLONE_EGRESS_CHAIN_PREFIX_def small_u8)

theorem clone_install_enforces_witness:
  "clone_insert_position demo_base_dump = Some 7
   \<and> clone_egress_enforced ''veth-h1'' ''eth0'' demo_veth_dump demo_eg_dump [] (PlanAllowlist [''1.2.3.4''])"
proof -
  let ?j = "[''-I'', VETH_FWD_CHAIN, show_nat 7, ''-i'', ''veth-h1'', ''-j'', ''ROOMS_CEG_1'']"
  have jump: "clone_jump_rule 7 ''veth-h1'' = Some ?j"
    by (simp add: clone_jump_rule_def clone_chain_for_veth_def veth_h1 demo_chain_name)
  have line: "printed_insert ?j = demo_jump" by (simp add: printed_insert_def VETH_FWD_CHAIN_def demo_jump_def)
  have "map trim (lines demo_veth_dump) = insert_before_rank ''-A ROOMS_VETH_FWD '' (7 - 1) demo_jump (map trim (lines demo_base_dump))"
  proof -
    have "insert_before_rank stem (length xs) j (xs @ y # ys) = xs @ j # y # ys" if "\<forall>l \<in> set (xs @ [y]). prefix stem l"
      for stem xs j y ys using that by (induction xs) auto
    from this[of "demo_binding # fixed_prefix" demo_egress "''-A ROOMS_VETH_FWD ''" demo_jump "[demo_return, VETH_TAIL_DROP]"]
    show ?thesis using demo_rules_prefix unfolding demo_lines_of
      by (simp add: demo_base_rules_def demo_veth_rules_alt fixed_prefix_length)
  qed
  moreover have "clone_source_binding_present demo_base_dump ''veth-h1''"
    unfolding clone_source_binding_present_def length_map_filter_eq demo_lines_of veth_h1 by (simp add: demo_filters)
  moreover have "canonical_veth_dump demo_base_dump"
    using demo_rules_prefix unfolding canonical_veth_dump_def demo_lines_of
    by (auto simp: list_all_iff demo_base_rules_def demo_veth_rules_alt)
  moreover have "clone_jump_count demo_base_dump 1 = 0"
    unfolding clone_jump_count_def length_map_filter_eq demo_lines_of by (simp add: demo_filters)
  ultimately show ?thesis
    using clone_install_enforces[OF demo_base_position jump _ _ veth_h1, of demo_veth_dump] demo_base_position demo_out_iface(2)
      demo_subchain_ok unfolding line demo_chain_name by blast
qed

lemma demo_enforced:
  "clone_egress_enforced ''veth-h1'' ''eth0'' demo_veth_dump demo_eg_dump [] (PlanAllowlist [''1.2.3.4''])"
  unfolding clone_egress_enforced_def clone_jump_count_def length_map_filter_eq demo_lines_of veth_h1
  by (simp add: plan_enforces_def demo_veth_isolates demo_out_iface demo_filters demo_chain_name demo_subchain_ok)

text \<open>A packet matcher with the documented meaning, over packets given by destination and outgoing interface.\<close>

definition demo_hit :: "string \<Rightarrow> ipv4 \<times> string \<Rightarrow> bool" where
  "demo_hit l p = (case split_whitespace l of
     [a, chain, b, d, c, i, e, f] \<Rightarrow> [a, b, c, e, f] = [''-A'', ''-d'', ''-o'', ''-j'', ''ACCEPT''] \<and> i = snd p
       \<and> (case ipv4_network d of None \<Rightarrow> False | Some n \<Rightarrow> in_network n (fst p))
   | [a, chain, c, i, e, f] \<Rightarrow> [a, c, e, f] = [''-A'', ''-o'', ''-j'', ''DROP''] \<and> i = snd p
   | _ \<Rightarrow> False)"

theorem enforced_policy_is_exact_witness:
  "chain_verdict demo_hit (tl (subchain_lines demo_eg_dump)) ((1, 2, 3, 4), ''eth0'') = Some ''ACCEPT''
   \<and> chain_verdict demo_hit (tl (subchain_lines demo_eg_dump)) ((2, 2, 3, 4), ''eth0'') = Some ''DROP''"
proof -
  have r: "egress_resolve (\<lambda>_. Inl []) (PolicyAllowlist [Cidr ''1.2.3.4'']) = Inr (PlanAllowlist [''1.2.3.4''])"
    by (simp add: egress_resolve_def)
  have m: "entry_matches ip ''1.2.3.4'' \<longleftrightarrow> ip = (1, 2, 3, 4)" for ip
    by (auto simp: entry_matches_def split_once_None demo_parse_ip)
  have "chain_verdict demo_hit (tl (subchain_lines demo_eg_dump)) (ip, ''eth0'') =
      Some (if \<exists>e \<in> set (plan_permitted (PlanAllowlist [''1.2.3.4''])). entry_matches (fst (ip, ''eth0'')) e then ''ACCEPT'' else ''DROP'')" for ip
    by (rule enforced_policy_is_exact[OF demo_policy r demo_enforced, where oif = snd]) (auto simp: demo_hit_def)
  then show ?thesis by (simp add: m)
qed

subsection \<open>Removal ends and is exact\<close>

text \<open>The documented behaviour of \<open>iptables\<close> that removal relies on, over a view \<open>fw\<close> of the filter table that
  lists each chain's rule specifications: \<open>-C\<close> and \<open>-S\<close> report presence, \<open>-D\<close> deletes the first copy, \<open>-F\<close>
  empties a chain, and \<open>-X\<close> deletes an empty chain unless some rule still targets it.\<close>

definition reports_success :: "string + cmd_output \<Rightarrow> bool" where
  "reports_success r \<longleftrightarrow> (\<exists>out. r = Inr out \<and> out_success out)"

definition reports_failure :: "string + cmd_output \<Rightarrow> bool" where
  "reports_failure r \<longleftrightarrow> (\<exists>out. r = Inr out \<and> \<not> out_success out)"

definition reports_absent :: "string + cmd_output \<Rightarrow> bool" where
  "reports_absent r \<longleftrightarrow> (\<exists>out. r = Inr out \<and> \<not> out_success out \<and> iptables_rule_is_absent (out_stderr out))"

type_synonym filter_table = "string \<rightharpoonup> string list list"

definition chain_rules :: "filter_table \<Rightarrow> string \<Rightarrow> string list list" where
  "chain_rules t chain = (case t chain of None \<Rightarrow> [] | Some rs \<Rightarrow> rs)"

definition referenced :: "filter_table \<Rightarrow> string \<Rightarrow> bool" where
  "referenced t chain \<longleftrightarrow> (\<exists>c. \<exists>r \<in> set (chain_rules t c). token_after [''-j'', ''-g''] r = Some chain)"

definition iptables_behaves :: "'n iptables \<Rightarrow> ('n \<Rightarrow> filter_table) \<Rightarrow> bool" where
  "iptables_behaves ipt fw \<longleftrightarrow>
     (\<forall>n chain spec r n'. iptables_output ipt (''-C'' # chain # spec) n = (r, n') \<longrightarrow>
        fw n' = fw n \<and> (if spec \<in> set (chain_rules (fw n) chain) then reports_success r else reports_absent r))
   \<and> (\<forall>n chain spec r n'. iptables_output ipt (''-D'' # chain # spec) n = (r, n') \<longrightarrow>
        spec \<in> set (chain_rules (fw n) chain) \<longrightarrow>
        reports_success r \<and> fw n' = (fw n)(chain \<mapsto> remove1 spec (chain_rules (fw n) chain)))
   \<and> (\<forall>n chain r n'. iptables_output ipt [''-S'', chain] n = (r, n') \<longrightarrow>
        fw n' = fw n \<and> (if fw n chain = None then reports_absent r else reports_success r))
   \<and> (\<forall>n chain r n'. iptables_output ipt [''-F'', chain] n = (r, n') \<longrightarrow> fw n chain \<noteq> None \<longrightarrow>
        reports_success r \<and> fw n' = (fw n)(chain \<mapsto> []))
   \<and> (\<forall>n chain r n'. iptables_output ipt [''-X'', chain] n = (r, n') \<longrightarrow> fw n chain = Some [] \<longrightarrow>
        (if referenced (fw n) chain then reports_failure r \<and> fw n' = fw n
         else reports_success r \<and> fw n' = (fw n)(chain := None)))"

lemma iptables_laws:
  assumes "iptables_behaves ipt fw"
  shows "iptables_output ipt (''-C'' # chain # spec) n = (r, n') \<Longrightarrow>
      fw n' = fw n \<and> (if spec \<in> set (chain_rules (fw n) chain) then reports_success r else reports_absent r)"
    and "iptables_output ipt (''-D'' # chain # spec) n = (r, n') \<Longrightarrow> spec \<in> set (chain_rules (fw n) chain) \<Longrightarrow>
      reports_success r \<and> fw n' = (fw n)(chain \<mapsto> remove1 spec (chain_rules (fw n) chain))"
    and "iptables_output ipt [''-S'', chain] n = (r, n') \<Longrightarrow>
      fw n' = fw n \<and> (if fw n chain = None then reports_absent r else reports_success r)"
    and "iptables_output ipt [''-F'', chain] n = (r, n') \<Longrightarrow> fw n chain \<noteq> None \<Longrightarrow>
      reports_success r \<and> fw n' = (fw n)(chain \<mapsto> [])"
    and "iptables_output ipt [''-X'', chain] n = (r, n') \<Longrightarrow> fw n chain = Some [] \<Longrightarrow>
      (if referenced (fw n) chain then reports_failure r \<and> fw n' = fw n
       else reports_success r \<and> fw n' = (fw n)(chain := None))"
proof -
  note laws = assms[unfolded iptables_behaves_def]
  show "iptables_output ipt (''-C'' # chain # spec) n = (r, n') \<Longrightarrow>
      fw n' = fw n \<and> (if spec \<in> set (chain_rules (fw n) chain) then reports_success r else reports_absent r)"
    by (rule laws[THEN conjunct1, rule_format])
  show "iptables_output ipt (''-D'' # chain # spec) n = (r, n') \<Longrightarrow> spec \<in> set (chain_rules (fw n) chain) \<Longrightarrow>
      reports_success r \<and> fw n' = (fw n)(chain \<mapsto> remove1 spec (chain_rules (fw n) chain))"
    by (rule laws[THEN conjunct2, THEN conjunct1, rule_format])
  show "iptables_output ipt [''-S'', chain] n = (r, n') \<Longrightarrow>
      fw n' = fw n \<and> (if fw n chain = None then reports_absent r else reports_success r)"
    by (rule laws[THEN conjunct2, THEN conjunct2, THEN conjunct1, rule_format])
  show "iptables_output ipt [''-F'', chain] n = (r, n') \<Longrightarrow> fw n chain \<noteq> None \<Longrightarrow>
      reports_success r \<and> fw n' = (fw n)(chain \<mapsto> [])"
    by (rule laws[THEN conjunct2, THEN conjunct2, THEN conjunct2, THEN conjunct1, rule_format])
  show "iptables_output ipt [''-X'', chain] n = (r, n') \<Longrightarrow> fw n chain = Some [] \<Longrightarrow>
      (if referenced (fw n) chain then reports_failure r \<and> fw n' = fw n
       else reports_success r \<and> fw n' = (fw n)(chain := None))"
    by (rule laws[THEN conjunct2, THEN conjunct2, THEN conjunct2, THEN conjunct2, rule_format])
qed

lemma run_iptables_success: "iptables_output ipt args n = (r, n') \<Longrightarrow> reports_success r \<Longrightarrow> run_iptables ipt args n = (Inr (), n')"
  by (auto simp: run_iptables_def reports_success_def)

lemma iptables_exists_reports:
  "iptables_output ipt args n = (r, n') \<Longrightarrow> reports_success r \<Longrightarrow> iptables_exists ipt args n = (Inr True, n')"
  "iptables_output ipt args n = (r, n') \<Longrightarrow> reports_absent r \<Longrightarrow> iptables_exists ipt args n = (Inr False, n')"
  by (auto simp: iptables_exists_def reports_success_def reports_absent_def)

lemma behaves_check:
  assumes "iptables_behaves ipt fw"
  obtains n' where "iptables_exists ipt (''-C'' # chain # spec) n = (Inr (spec \<in> set (chain_rules (fw n) chain)), n')" "fw n' = fw n"
proof -
  obtain r n' where o: "iptables_output ipt (''-C'' # chain # spec) n = (r, n')" by fastforce
  then have "fw n' = fw n" "if spec \<in> set (chain_rules (fw n) chain) then reports_success r else reports_absent r"
    using iptables_laws(1)[OF assms o] by simp_all
  then show ?thesis using that iptables_exists_reports[OF o] by (simp split: if_splits)
qed

lemma behaves_delete:
  assumes "iptables_behaves ipt fw" and "spec \<in> set (chain_rules (fw n) chain)"
  obtains n' where "run_iptables ipt (''-D'' # chain # spec) n = (Inr (), n')"
    "fw n' = (fw n)(chain \<mapsto> remove1 spec (chain_rules (fw n) chain))"
proof -
  obtain r n' where o: "iptables_output ipt (''-D'' # chain # spec) n = (r, n')" by fastforce
  then have "reports_success r" "fw n' = (fw n)(chain \<mapsto> remove1 spec (chain_rules (fw n) chain))"
    using iptables_laws(2)[OF assms(1) o assms(2)] by simp_all
  then show ?thesis using that run_iptables_success[OF o] by blast
qed

lemma delete_while_ends:
  assumes "iptables_behaves ipt fw" and "fw n chain = Some rs"
  shows "\<exists>n'. delete_while ipt (''-C'' # chain # spec) (''-D'' # chain # spec) n = Some (Inr (), n')
    \<and> fw n' = (fw n)(chain \<mapsto> removeAll spec rs)"
  using assms(2)
proof (induction "count_list rs spec" arbitrary: n rs)
  case 0
  then have "spec \<notin> set (chain_rules (fw n) chain)" "removeAll spec rs = rs" by (simp_all add: chain_rules_def count_list_0_iff)
  moreover obtain n' where "iptables_exists ipt (''-C'' # chain # spec) n = (Inr (spec \<in> set (chain_rules (fw n) chain)), n')" "fw n' = fw n"
    by (rule behaves_check[OF assms(1)])
  ultimately show ?case using 0 by (subst delete_while.simps) (simp add: fun_upd_idem)
next
  case (Suc k)
  then have mem: "spec \<in> set (chain_rules (fw n) chain)" by (metis chain_rules_def count_list_0_iff nat.distinct(1) option.simps(5))
  obtain n1 where n1: "iptables_exists ipt (''-C'' # chain # spec) n = (Inr (spec \<in> set (chain_rules (fw n) chain)), n1)" "fw n1 = fw n"
    by (rule behaves_check[OF assms(1)])
  obtain n2 where n2: "run_iptables ipt (''-D'' # chain # spec) n1 = (Inr (), n2)"
    "fw n2 = (fw n1)(chain \<mapsto> remove1 spec (chain_rules (fw n1) chain))"
    using behaves_delete[OF assms(1)] mem n1(2) by metis
  have "fw n2 chain = Some (remove1 spec rs)" using n1 n2 Suc.prems by (simp add: chain_rules_def)
  moreover have "k = count_list (remove1 spec rs) spec"
    using Suc.hyps(2) mem Suc.prems by (simp add: chain_rules_def count_list_remove1)
  ultimately obtain n' where "delete_while ipt (''-C'' # chain # spec) (''-D'' # chain # spec) n2 = Some (Inr (), n')"
    "fw n' = (fw n2)(chain \<mapsto> removeAll spec (remove1 spec rs))" using Suc.hyps(1) by blast
  moreover have "removeAll spec (remove1 spec rs) = removeAll spec rs" by (induction rs) auto
  ultimately show ?case using n1 n2 mem by (subst delete_while.simps) simp
qed

text \<open>A reference to a clone's chain that is not one of the clone's own jumps.\<close>

definition foreign_reference :: "filter_table \<Rightarrow> string \<Rightarrow> string list \<Rightarrow> bool" where
  "foreign_reference t chain jump \<longleftrightarrow> (\<exists>c rule. rule \<in> set (chain_rules t c) \<and> token_after [''-j'', ''-g''] rule = Some chain
     \<and> c \<noteq> chain \<and> (c, rule) \<noteq> (VETH_FWD_CHAIN, jump))"

lemma clone_chain_names: "clone_egress_chain i \<noteq> INPUT_CHAIN" "clone_egress_chain i \<noteq> VETH_FWD_CHAIN"
  "clone_egress_chain i \<noteq> ''DROP''"
  by (simp_all add: clone_egress_chain_def CLONE_EGRESS_CHAIN_PREFIX_def INPUT_CHAIN_def VETH_FWD_CHAIN_def)

lemma shared_chain_names [simp]: "INPUT_CHAIN \<noteq> VETH_FWD_CHAIN" "VETH_FWD_CHAIN \<noteq> INPUT_CHAIN"
  by (simp_all add: INPUT_CHAIN_def VETH_FWD_CHAIN_def)

lemma veth_h_word: "veth_h i \<notin> {''-j'', ''-g''}"
  by (simp add: veth_h_def CLONE_VETH_PREFIX_def)

lemma referenced_after_removal:
  assumes "t INPUT_CHAIN = Some inp" "t VETH_FWD_CHAIN = Some vf" and ch: "ch \<noteq> INPUT_CHAIN" "ch \<noteq> VETH_FWD_CHAIN"
    and d: "token_after [''-j'', ''-g''] d \<noteq> Some ch"
  shows "referenced (t(INPUT_CHAIN \<mapsto> removeAll d inp, VETH_FWD_CHAIN \<mapsto> removeAll j vf, ch \<mapsto> [])) ch
    \<longleftrightarrow> foreign_reference t ch j"
proof -
  let ?t = "t(INPUT_CHAIN \<mapsto> removeAll d inp, VETH_FWD_CHAIN \<mapsto> removeAll j vf, ch \<mapsto> [])"
  have "rule \<in> set (chain_rules ?t c) \<longleftrightarrow> rule \<in> set (chain_rules t c) \<and> c \<noteq> ch \<and> (c, rule) \<noteq> (VETH_FWD_CHAIN, j)"
    if r: "token_after [''-j'', ''-g''] rule = Some ch" for c rule
  proof -
    have "rule \<noteq> d" using r d by blast
    then show ?thesis using assms by (simp add: chain_rules_def)
  qed
  then show ?thesis unfolding referenced_def foreign_reference_def by blast
qed

lemma drop_rule_target: "token_after [''-j'', ''-g''] [''-i'', veth_h i, ''-j'', ''DROP''] \<noteq> Some (clone_egress_chain i)"
  using veth_h_word[of i] clone_chain_names(3)[of i] by auto

lemma delete_chain_result:
  assumes behaves: "iptables_behaves ipt fw" and "fw n ch \<noteq> None"
  shows "\<exists>r n'. then_run (Some (run_iptables ipt [''-F'', ch] n)) (\<lambda>_ n. Some (run_iptables ipt [''-X'', ch] n)) = Some (r, n')
    \<and> (r = Inr () \<longleftrightarrow> \<not> referenced ((fw n)(ch \<mapsto> [])) ch)
    \<and> fw n' = (fw n)(ch := (if r = Inr () then None else Some []))"
proof -
  obtain n1 where n1: "run_iptables ipt [''-F'', ch] n = (Inr (), n1)" "fw n1 = (fw n)(ch \<mapsto> [])"
    using iptables_laws(4)[OF behaves] run_iptables_success assms(2) by (metis surj_pair)
  obtain r2 n2 where o2: "iptables_output ipt [''-X'', ch] n1 = (r2, n2)" by fastforce
  have x: "if referenced (fw n1) ch then reports_failure r2 \<and> fw n2 = fw n1
      else reports_success r2 \<and> fw n2 = (fw n1)(ch := None)"
    using iptables_laws(5)[OF behaves o2] n1(2) by simp
  then obtain r where "run_iptables ipt [''-X'', ch] n1 = (r, n2)" "r = Inr () \<longleftrightarrow> \<not> referenced (fw n1) ch"
    using o2 by (auto simp: run_iptables_def reports_failure_def reports_success_def split: if_splits)
  then show ?thesis using x n1 by (intro exI[of _ r] exI[of _ n2]) (auto simp: then_run_def split: if_splits)
qed

text \<open>C14. Removing a clone's policy ends and is exact, under the documented behaviour of \<open>iptables\<close>. However many copies
  of the clone's INPUT drop and of its jump there are, the loops end; afterwards exactly those rules are gone
  from the two shared chains and no other chain has changed; and success is reported, with the clone's chain
  deleted, exactly when no foreign rule still refers to that chain.\<close>

theorem remove_clone_ends_exactly:
  assumes behaves: "iptables_behaves ipt fw" and i: "clone_veth_index veth = Some i"
    and present: "fw n INPUT_CHAIN = Some inp" "fw n VETH_FWD_CHAIN = Some vf"
    and dangling: "fw n (clone_egress_chain i) = None \<Longrightarrow> \<not> referenced (fw n) (clone_egress_chain i)"
  shows "\<exists>r n'. remove_clone_checked_locked ipt veth n = Some (r, n')
    \<and> (r = Inr () \<longleftrightarrow> \<not> foreign_reference (fw n) (clone_egress_chain i) [''-i'', veth, ''-j'', clone_egress_chain i])
    \<and> fw n' = (fw n)(INPUT_CHAIN \<mapsto> removeAll [''-i'', veth, ''-j'', ''DROP''] inp,
        VETH_FWD_CHAIN \<mapsto> removeAll [''-i'', veth, ''-j'', clone_egress_chain i] vf,
        clone_egress_chain i := (if r = Inr () then None else Some []))"
proof -
  let ?c = "clone_egress_chain i" and ?d = "[''-i'', veth, ''-j'', ''DROP'']" and ?j = "[''-i'', veth, ''-j'', clone_egress_chain i]"
  have veth: "veth = veth_h i" using clone_veth_indexD[OF i] by simp
  have jt: "token_after [''-j'', ''-g''] ?j = Some ?c" using veth_h_word[of i] veth by simp
  obtain n1 where n1: "delete_while ipt (input_drop_rule ''-C'' veth) (input_drop_rule ''-D'' veth) n = Some (Inr (), n1)"
    "fw n1 = (fw n)(INPUT_CHAIN \<mapsto> removeAll ?d inp)"
    using delete_while_ends[OF behaves present(1), of ?d] unfolding input_drop_rule_def by blast
  obtain r2 n2 where o2: "iptables_output ipt [''-S'', ?c] n1 = (r2, n2)" by fastforce
  have n2: "fw n2 = fw n1" "iptables_exists ipt [''-S'', ?c] n1 = (Inr (fw n ?c \<noteq> None), n2)"
    using iptables_laws(3)[OF behaves o2] iptables_exists_reports[OF o2] n1(2) clone_chain_names by (auto split: if_splits)
  show ?thesis
  proof (cases "fw n ?c = None")
    case True
    then have nr: "\<not> referenced (fw n) ?c" by (rule dangling)
    have "?j \<notin> set vf"
    proof
      assume "?j \<in> set vf"
      then have "?j \<in> set (chain_rules (fw n) VETH_FWD_CHAIN)" by (simp add: chain_rules_def present)
      then show False using nr jt unfolding referenced_def by blast
    qed
    moreover have "\<not> foreign_reference (fw n) ?c ?j" using nr by (auto simp: foreign_reference_def referenced_def)
    ultimately show ?thesis
      using True n1 n2 present clone_chain_names[of i]
      by (intro exI[of _ "Inr ()"] exI[of _ n2]) (auto simp: remove_clone_checked_locked_def clone_chain_for_veth_def i then_run_def)
  next
    case False
    have "fw n2 VETH_FWD_CHAIN = Some vf" using n1 n2 present clone_chain_names by simp
    then obtain n3 where n3: "delete_while ipt (''-C'' # VETH_FWD_CHAIN # ?j) (''-D'' # VETH_FWD_CHAIN # ?j) n2 = Some (Inr (), n3)"
      "fw n3 = (fw n2)(VETH_FWD_CHAIN \<mapsto> removeAll ?j vf)" using delete_while_ends[OF behaves] by blast
    have f3: "fw n3 = (fw n)(INPUT_CHAIN \<mapsto> removeAll ?d inp, VETH_FWD_CHAIN \<mapsto> removeAll ?j vf)" using n1 n2 n3 by simp
    then have "fw n3 ?c \<noteq> None" using False clone_chain_names[of i] by simp
    then obtain r n4 where n4: "then_run (Some (run_iptables ipt [''-F'', ?c] n3)) (\<lambda>_ n. Some (run_iptables ipt [''-X'', ?c] n)) = Some (r, n4)"
      and r: "r = Inr () \<longleftrightarrow> \<not> referenced ((fw n3)(?c \<mapsto> [])) ?c" "fw n4 = (fw n3)(?c := (if r = Inr () then None else Some []))"
      using delete_chain_result[OF behaves] by blast
    have "referenced ((fw n3)(?c \<mapsto> [])) ?c \<longleftrightarrow> foreign_reference (fw n) ?c ?j"
      using referenced_after_removal[of "fw n" inp vf ?c ?d ?j] present drop_rule_target[of i] clone_chain_names[of i]
      unfolding f3 veth by simp
    moreover have "remove_clone_checked_locked ipt veth n = Some (r, n4)"
      using False n1 n2 n3(1) n4
      by (simp add: remove_clone_checked_locked_def clone_chain_for_veth_def clone_jump_args_def i then_run_def)
    ultimately show ?thesis using r unfolding f3 by blast
  qed
qed

text \<open>A filter table that behaves as documented.\<close>

definition demo_ok :: cmd_output where "demo_ok = \<lparr>out_success = True, out_stdout = [], out_stderr = []\<rparr>"
definition demo_absent :: cmd_output where "demo_absent = \<lparr>out_success = False, out_stdout = [], out_stderr = ''Bad rule''\<rparr>"

definition demo_referenced :: "(string \<times> string list list) list \<Rightarrow> string \<Rightarrow> bool" where
  "demo_referenced t chain = list_ex (\<lambda>(c, _). list_ex (\<lambda>r. token_after [''-j'', ''-g''] r = Some chain) (chain_rules (map_of t) c)) t"

fun demo_iptables :: "(string \<times> string list list) list iptables" where
  "demo_iptables (_ # _ # op # chain # spec) t =
     (let rs = chain_rules (map_of t) chain in
      if op = ''-C'' then (Inr (if spec \<in> set rs then demo_ok else demo_absent), t)
      else if op = ''-D'' then
        (if spec \<in> set rs then (Inr demo_ok, (chain, remove1 spec rs) # t) else (Inr demo_absent, t))
      else if op = ''-S'' then (Inr (if map_of t chain = None then demo_absent else demo_ok), t)
      else if op = ''-F'' then (Inr demo_ok, (chain, []) # t)
      else if op = ''-X'' then
        (if demo_referenced t chain then (Inr demo_absent, t)
         else (Inr demo_ok, filter (\<lambda>(c, _). c \<noteq> chain) t))
      else (Inl [], t))"
| "demo_iptables _ t = (Inl [], t)"

lemma demo_referenced_iff: "demo_referenced t chain \<longleftrightarrow> referenced (map_of t) chain"
proof -
  have "c \<in> fst ` set t" if "r \<in> set (chain_rules (map_of t) c)" for c r
    using that by (cases "map_of t c") (auto simp: chain_rules_def dest: map_of_SomeD intro: rev_image_eqI)
  then show ?thesis unfolding demo_referenced_def referenced_def
    by (fastforce simp: list_ex_iff)
qed

lemma map_of_filter_key: "map_of (filter (\<lambda>(c, _). c \<noteq> k) t) = (map_of t)(k := None)"
  by (induction t) auto

lemma demo_behaves: "iptables_behaves demo_iptables map_of"
  unfolding iptables_behaves_def
  by (auto simp: iptables_output_def iptables_command_args_def reports_success_def reports_failure_def reports_absent_def
      demo_ok_def demo_absent_def iptables_rule_is_absent_def demo_referenced_iff map_of_filter_key Let_def split: if_splits)

theorem remove_clone_ends_exactly_witness:
  "\<exists>r n'. remove_clone_checked_locked demo_iptables ''veth-h1''
      [(INPUT_CHAIN, [[''-i'', ''veth-h1'', ''-j'', ''DROP''], [''-i'', ''veth-h1'', ''-j'', ''DROP'']]),
       (VETH_FWD_CHAIN, [[''-i'', ''veth-h1'', ''-j'', ''ROOMS_CEG_1'']]), (''ROOMS_CEG_1'', [])] = Some (r, n')
    \<and> map_of n' INPUT_CHAIN = Some []"
proof -
  let ?t = "[(INPUT_CHAIN, [[''-i'', ''veth-h1'', ''-j'', ''DROP''], [''-i'', ''veth-h1'', ''-j'', ''DROP'']]),
       (VETH_FWD_CHAIN, [[''-i'', ''veth-h1'', ''-j'', ''ROOMS_CEG_1'']]), (''ROOMS_CEG_1'', [])]"
  have "map_of ?t ''ROOMS_CEG_1'' \<noteq> None" by simp
  then show ?thesis
    using remove_clone_ends_exactly[OF demo_behaves veth_h1, of ?t] unfolding demo_chain_name
    by (fastforce simp: INPUT_CHAIN_def VETH_FWD_CHAIN_def)
qed

subsection \<open>Splicing a room's jump\<close>

lemma find_position_insert:
  "\<not> P j \<Longrightarrow> k \<le> length xs \<Longrightarrow>
   find_position P (take k xs @ j # drop k xs) = map_option (\<lambda>i. if i < k then i else Suc i) (find_position P xs)"
proof (induction xs arbitrary: k)
  case (Cons x xs)
  show ?case
  proof (cases k)
    case 0
    then show ?thesis using Cons.prems by (auto simp: option.map_comp comp_def)
  next
    case (Suc m)
    then have "find_position P (take m xs @ j # drop m xs) = map_option (\<lambda>i. if i < m then i else Suc i) (find_position P xs)"
      using Cons by simp
    then show ?thesis using Suc by (auto simp: option.map_comp comp_def intro!: option.map_cong)
  qed
qed simp

lemma insert_before_rank_split:
  assumes "find_position P (filter (prefix stem) ls) = Some r" and "\<forall>l \<in> set ls. P l \<longrightarrow> prefix stem l"
  shows "\<exists>k. find_position P ls = Some k \<and> insert_before_rank stem r j ls = take k ls @ j # drop k ls"
  using assms
proof (induction ls arbitrary: r)
  case (Cons l ls)
  show ?case
  proof (cases "P l")
    case True
    then show ?thesis using Cons.prems by auto
  next
    case False
    then obtain r' where "find_position P (filter (prefix stem) ls) = Some r'" "r = (if prefix stem l then Suc r' else r')"
      using Cons.prems(1) by (auto split: if_splits)
    moreover from this Cons.IH[of r'] Cons.prems(2) obtain k where
      "find_position P ls = Some k" "insert_before_rank stem r' j ls = take k ls @ j # drop k ls" by auto
    ultimately show ?thesis using False by (intro exI[of _ "Suc k"]) auto
  qed
qed simp

lemma find_position_map: "find_position P (map f xs) = find_position (\<lambda>x. P (f x)) xs"
  by (induction xs) auto

lemma line_of_trimmed: "line_of dump P = find_position P (map trim (lines dump))"
  by (simp add: line_of_def find_position_map)

lemma jump_line_trimmed: "jump_line dump tap chain = find_position (\<lambda>l. str_contains (''-i '' @ tap @ '' '') (l @ '' '')
    \<and> str_contains (''-j '' @ chain @ '' '') (l @ '' '')) (map trim (lines dump))"
  by (simp add: jump_line_def find_position_map Let_def)

definition room_jump :: "string \<Rightarrow> string \<Rightarrow> string" where
  "room_jump tap chain = printed_insert (jump_rule 1 tap chain)"

lemma room_jump_line:
  assumes "chain_for_tap tap = Some chain"
  shows "\<not> is_supernet_egress_accept (room_jump tap chain)" "\<not> is_isolation_drop (room_jump tap chain)"
    "str_contains (''-i '' @ tap @ '' '') (room_jump tap chain @ '' '')" "str_contains (''-j '' @ chain @ '' '') (room_jump tap chain @ '' '')"
proof -
  obtain k where k: "tap = TAP_PREFIX @ k" "chain = EG_CHAIN_PREFIX @ k" "list_all is_ascii_digit k"
    using assms by (auto simp: chain_for_tap_def strip_prefix_Some split: option.splits if_splits)
  have l: "room_jump tap chain = ''-A ROOMS_FWD -i '' @ tap @ '' -j '' @ chain"
    by (simp add: room_jump_def printed_insert_def jump_rule_def FWD_CHAIN_def)
  have nd: "c \<notin> set k" if "\<not> is_ascii_digit c" for c using that k(3) by (auto simp: list_all_iff)
  have "CHR ''T'' \<notin> set (room_jump tap chain)" "CHR ''/'' \<notin> set (room_jump tap chain)"
    unfolding l using nd[of "CHR ''T''"] nd[of "CHR ''/''"] by (auto simp: k TAP_PREFIX_def EG_CHAIN_PREFIX_def is_ascii_digit_def)
  then show "\<not> is_supernet_egress_accept (room_jump tap chain)" "\<not> is_isolation_drop (room_jump tap chain)"
    using str_contains_chars[of "''-j ACCEPT''" "room_jump tap chain" "CHR ''T''"]
      str_contains_chars[of "''-s '' @ SUPERNET" "room_jump tap chain" "CHR ''/''"]
    by (auto simp: is_supernet_egress_accept_def is_isolation_drop_def SUPERNET_def)
  show "str_contains (''-i '' @ tap @ '' '') (room_jump tap chain @ '' '')"
    using str_contains_append[of "''-i '' @ tap @ '' ''" "''-A ROOMS_FWD ''" "''-j '' @ chain @ '' ''"] by (simp add: l)
  show "str_contains (''-j '' @ chain @ '' '') (room_jump tap chain @ '' '')"
    using str_contains_append[of "''-j '' @ chain @ '' ''" "''-A ROOMS_FWD -i '' @ tap @ '' ''" "[]"] by (simp add: l)
qed

lemma isolates_orders:
  assumes "rooms_fwd_isolates dump" and "line_of dump is_supernet_egress_accept = Some a"
  shows "\<exists>d. line_of dump is_isolation_drop = Some d \<and> d < a"
proof -
  obtain k where k: "k < length (lines dump)" "trim (lines dump ! k) = ISOLATION_DROP"
    "\<forall>j < k. \<not> dangerous_accept (lines dump ! j)" using assms(1) unfolding rooms_fwd_isolates_iff by blast
  have a: "a < length (lines dump)" "is_supernet_egress_accept (trim (lines dump ! a))"
    using assms(2) by (auto simp: line_of_def find_position_Some_iff)
  have tr: "str_contains p (trim s) \<Longrightarrow> str_contains p s" for p s
  proof -
    have "\<exists>b c. s = b @ trim s @ c"
      unfolding trim_def by (metis append_assoc rev_append rev_rev_ident takeWhile_dropWhile_id)
    then show "str_contains p (trim s) \<Longrightarrow> str_contains p s" unfolding str_contains_infix by (metis append_assoc)
  qed
  have "dangerous_accept (lines dump ! a)"
    using a(2) tr by (auto simp: is_supernet_egress_accept_def dangerous_accept_def MATCH_SRC_def)
  moreover from this have "a \<noteq> k" using drop_line_not_accept[OF k(2)] by blast
  ultimately have "k < a" using k(3) by (metis linorder_neqE_nat)
  moreover have "str_contains ''-j DROP'' ISOLATION_DROP" "str_contains (''-s '' @ SUPERNET) ISOLATION_DROP"
    "str_contains (''-d '' @ SUPERNET) ISOLATION_DROP"
    by (simp_all add: ISOLATION_DROP_def SUPERNET_def)
  then have "is_isolation_drop (trim (lines dump ! k))" by (simp add: is_isolation_drop_def k(2))
  then obtain d where "line_of dump is_isolation_drop = Some d" "d \<le> k"
    using k(1) unfolding line_of_def
    by (metis find_position_None_iff find_position_Some_iff not_le nth_mem option.exhaust)
  ultimately show ?thesis by auto
qed

text \<open>Installing a flat room's policy enforces it. Let the flat chain isolate guests, hold no jump of the room, and print
  every upstream ACCEPT as one of its own rules, and splice the room's jump in at the rank \<open>insert_position\<close>
  computes. Then the room's egress is enforced exactly when its subchain ends in a catch-all drop: the jump
  is above the permissive ACCEPT and below the guest isolation drop.\<close>

theorem flat_install_enforces:
  assumes pos: "insert_position dump = Some pos" and chain: "chain_for_tap tap = Some chain"
    and iso: "rooms_fwd_isolates dump" and fresh: "jump_line dump tap chain = None"
    and own: "\<forall>l \<in> set (map trim (lines dump)). is_supernet_egress_accept l \<longrightarrow> prefix ''-A ROOMS_FWD'' l"
    and spliced: "map trim (lines dump') =
      insert_before_rank ''-A ROOMS_FWD'' (pos - 1) (printed_insert (jump_rule pos tap chain)) (map trim (lines dump))"
  shows "room_egress_enforced tap out_if dump' eg_dump \<longleftrightarrow> subchain_terminates_in_drop eg_dump out_if"
proof -
  let ?ls = "map trim (lines dump)" and ?j = "room_jump tap chain"
  note j = room_jump_line[OF chain]
  have "find_position is_supernet_egress_accept (filter (prefix ''-A ROOMS_FWD'') ?ls) = Some (pos - 1)"
    using pos by (auto simp: insert_position_def rank_of_rules)
  from insert_before_rank_split[OF this own, of ?j] obtain a where
    a: "find_position is_supernet_egress_accept ?ls = Some a" and
    s: "map trim (lines dump') = take a ?ls @ ?j # drop a ?ls"
    using spliced by (auto simp: room_jump_def printed_insert_def jump_rule_def)
  have al: "a \<le> length ?ls" using a by (simp add: find_position_Some_iff)
  obtain d where d: "find_position is_isolation_drop ?ls = Some d" "d < a"
    using isolates_orders[OF iso] a by (auto simp: line_of_trimmed)
  have acc: "line_of dump' is_supernet_egress_accept = Some (Suc a)"
    unfolding line_of_trimmed s using find_position_insert[of is_supernet_egress_accept ?j a ?ls] j(1) al a by simp
  have drp: "line_of dump' is_isolation_drop = Some d"
    unfolding line_of_trimmed s using find_position_insert[of is_isolation_drop ?j a ?ls] j(2) al d by simp
  have "jump_line dump' tap chain = Some a"
    unfolding jump_line_trimmed s find_position_Some_iff
    using fresh[unfolded jump_line_trimmed find_position_None_iff] j(3,4) al
    by (auto simp: nth_append dest: nth_mem)
  then show ?thesis using chain acc drp d(2) by (simp add: room_egress_enforced_def)
qed

definition demo_flat_rules :: "string list" where
  "demo_flat_rules = [ISOLATION_DROP, ''-A ROOMS_FWD -s 172.16.0.0/24 -o eth0 -j ACCEPT'']"

definition demo_flat_dump :: "string list \<Rightarrow> string" where
  "demo_flat_dump ls = concat (map (\<lambda>l. l @ [newline]) ls)"

theorem flat_install_enforces_witness:
  "room_egress_enforced ''tap-fc1'' ''eth0''
     (demo_flat_dump [ISOLATION_DROP, ''-A ROOMS_FWD -i tap-fc1 -j ROOMS_EG_1'', ''-A ROOMS_FWD -s 172.16.0.0/24 -o eth0 -j ACCEPT''])
     (demo_flat_dump [''-A ROOMS_EG_1 -o eth0 -j DROP''])"
proof -
  let ?a = "''-A ROOMS_FWD -s 172.16.0.0/24 -o eth0 -j ACCEPT''" and ?j = "''-A ROOMS_FWD -i tap-fc1 -j ROOMS_EG_1''"
  let ?d = "demo_flat_dump demo_flat_rules" and ?d' = "demo_flat_dump [ISOLATION_DROP, ?j, ?a]"
  have l: "lines ?d = [ISOLATION_DROP, ?a]" "lines ?d' = [ISOLATION_DROP, ?j, ?a]"
    "lines (demo_flat_dump [''-A ROOMS_EG_1 -o eth0 -j DROP'']) = [''-A ROOMS_EG_1 -o eth0 -j DROP'']"
    unfolding demo_flat_dump_def demo_flat_rules_def
    by (rule lines_concat, simp add: ISOLATION_DROP_def SUPERNET_def)+
  have t: "map trim [ISOLATION_DROP, ?j, ?a] = [ISOLATION_DROP, ?j, ?a]" "trim ''-A ROOMS_EG_1 -o eth0 -j DROP'' = ''-A ROOMS_EG_1 -o eth0 -j DROP''"
    by (simp_all add: ISOLATION_DROP_def SUPERNET_def trim_def is_whitespace_def)
  have chain: "chain_for_tap ''tap-fc1'' = Some ''ROOMS_EG_1''"
    by (simp add: chain_for_tap_def TAP_PREFIX_def EG_CHAIN_PREFIX_def strip_prefix_def is_ascii_digit_def)
  have c: "is_supernet_egress_accept ?a" "\<not> is_supernet_egress_accept ISOLATION_DROP"
    by (simp_all add: is_supernet_egress_accept_def ISOLATION_DROP_def SUPERNET_def)
  have pos: "insert_position ?d = Some 2"
    using t c by (simp add: insert_position_def l rank_of_rules ISOLATION_DROP_def)
  have iso: "rooms_fwd_isolates ?d"
    unfolding rooms_fwd_isolates_iff l using t by (intro exI[of _ 0]) simp
  have fresh: "jump_line ?d ''tap-fc1'' ''ROOMS_EG_1'' = None"
    using t by (simp add: jump_line_trimmed l ISOLATION_DROP_def SUPERNET_def)
  have drop_end: "subchain_terminates_in_drop (demo_flat_dump [''-A ROOMS_EG_1 -o eth0 -j DROP'']) ''eth0''"
    by (simp add: subchain_terminates_in_drop_def l t)
  have own: "\<forall>l \<in> set (map trim (lines ?d)). is_supernet_egress_accept l \<longrightarrow> prefix ''-A ROOMS_FWD'' l"
    unfolding l using t by (simp add: ISOLATION_DROP_def)
  have spl: "map trim (lines ?d') = insert_before_rank ''-A ROOMS_FWD'' (2 - 1)
      (printed_insert (jump_rule 2 ''tap-fc1'' ''ROOMS_EG_1'')) (map trim (lines ?d))"
    unfolding l using t by (simp add: ISOLATION_DROP_def printed_insert_def jump_rule_def FWD_CHAIN_def)
  show ?thesis using flat_install_enforces[OF pos chain iso fresh own spl] drop_end by blast
qed

end
