(* ===== verification/Clone_Net.thy ===== *)
theory Clone_Net
  imports Step_Frame Egress_Enforcement "HOL-Library.Multiset"
begin

text \<open>
  \<open>src/src/clonenet.rs\<close>: one network namespace and one veth pair per live clone. The claim files are those of
  \<open>Indexed_Claim\<close>; on top of them a host-global owner marker, the creation plan with its rollback, teardown,
  reconciliation, the routing preflight and the all-or-nothing batch. External programs are a parameter
  (\<open>run\<close>, from a command to its exit status and output, on an abstract network state \<open>'n\<close>), the text of an
  operating-system error another (\<open>io_text\<close>). Owner markers are symbolic links in one directory; a failing
  system call on them is a fault of the environment, as for every other file.
\<close>

unbundle bit_operations_syntax

definition CLONENETS_DIR :: string where "CLONENETS_DIR = ''clonenets''"
definition CLONENETS_LOCK :: string where "CLONENETS_LOCK = ''clonenets.lock''"
definition MAX_CLONENET :: u8 where "MAX_CLONENET = 63"
definition CLONENET_DEFAULT_MAX_POOL :: u8 where "CLONENET_DEFAULT_MAX_POOL = 8"

definition CLONENET_POOL :: pool where
  "CLONENET_POOL = \<lparr>dir_name = CLONENETS_DIR, lock_name = CLONENETS_LOCK, max_index = MAX_CLONENET, pool_label = ''clone network''\<rparr>"

datatype clone_net_error =
    CnPoolFull u8
  | CnInvalidIndex u8 u8
  | CnTargetTaken u8
  | CnNotOwned u8 string
  | CnRouteOverlap string
  | CnPolicyRouting string
  | CnUnsupportedPlatform
  | CnCommand string string
  | CnRollback string string
  | CnIo io_error

record clone_net =
  cn_index :: u8
  cn_netns :: string
  cn_veth_host :: string
  cn_veth_guest :: string
  cn_host_ip :: ipv4
  cn_netns_ip :: ipv4
  cn_prefix :: u8

definition clone_net_derive :: "u8 \<Rightarrow> clone_net_error + clone_net" where
  "clone_net_derive index =
     (if \<not> valid_index CLONENET_POOL index then Inl (CnInvalidIndex index MAX_CLONENET)
      else let base = 4 * index in
        Inr \<lparr>cn_index = index, cn_netns = ''rooms-c'' @ show_u8 index, cn_veth_host = ''veth-h'' @ show_u8 index,
             cn_veth_guest = ''veth-g'' @ show_u8 index, cn_host_ip = (172, 17, 0, base + 1),
             cn_netns_ip = (172, 17, 0, base + 2), cn_prefix = 30\<rparr>)"

text \<open>The display text of an error (\<open>src/src/error.rs\<close>).\<close>

fun clone_net_error_text :: "(io_error \<Rightarrow> string) \<Rightarrow> clone_net_error \<Rightarrow> string" where
  "clone_net_error_text io_text (CnPoolFull cap) = ''clone network pool full: all '' @ show_u8 cap @ '' allocations claimed''"
| "clone_net_error_text io_text (CnInvalidIndex index mx) =
     ''invalid clone network index '' @ show_u8 index @ '': valid allocations are 1..='' @ show_u8 mx"
| "clone_net_error_text io_text (CnTargetTaken index) = ''target clone network '' @ show_u8 index @ '' already claimed''"
| "clone_net_error_text io_text (CnNotOwned index owner_id) =
     ''clone network '' @ show_u8 index @ '' is not claimed by room '' @ owner_id"
| "clone_net_error_text io_text (CnRouteOverlap route) =
     ''clone network 172.17.0.0/24 overlaps host route '' @ CHR 0x60 # route @ [CHR 0x60]"
| "clone_net_error_text io_text (CnPolicyRouting rule) =
     ''clone networking refuses non-default IPv4 policy rule '' @ CHR 0x60 # rule @ [CHR 0x60]"
| "clone_net_error_text io_text CnUnsupportedPlatform = ''clone networking is supported only on Linux hosts''"
| "clone_net_error_text io_text (CnCommand command detail) =
     ''clone network command '' @ CHR 0x60 # command @ CHR 0x60 # '' failed: '' @ detail"
| "clone_net_error_text io_text (CnRollback setup rollback) =
     ''clone network setup failed: '' @ setup @ ''; rollback failed: '' @ rollback"
| "clone_net_error_text io_text (CnIo e) = ''io error: '' @ io_text e"

subsection \<open>The network operations\<close>

datatype creation_stage = StageNone | StageOwnerMarker | StageNamespace | StageVeth | StageSourceRule

fun stage_rank :: "creation_stage \<Rightarrow> nat" where
  "stage_rank StageNone = 0"
| "stage_rank StageOwnerMarker = 1"
| "stage_rank StageNamespace = 2"
| "stage_rank StageVeth = 3"
| "stage_rank StageSourceRule = 4"

instantiation creation_stage :: linorder
begin

definition less_eq_creation_stage :: "creation_stage \<Rightarrow> creation_stage \<Rightarrow> bool" where
  "less_eq_creation_stage a b \<longleftrightarrow> stage_rank a \<le> stage_rank b"

definition less_creation_stage :: "creation_stage \<Rightarrow> creation_stage \<Rightarrow> bool" where
  "less_creation_stage a b \<longleftrightarrow> stage_rank a < stage_rank b"

instance
proof
  fix a b :: creation_stage
  assume "a \<le> b" "b \<le> a"
  then show "a = b" by (cases a; cases b) (simp_all add: less_eq_creation_stage_def)
qed (auto simp: less_eq_creation_stage_def less_creation_stage_def)

end

record create_failure =
  cf_error :: clone_net_error
  cf_stage :: creation_stage

record 'h network_ops =
  op_preflight :: "'h \<Rightarrow> (clone_net_error + unit) \<times> 'h"
  op_claim_global :: "u8 \<Rightarrow> string \<Rightarrow> 'h \<Rightarrow> (clone_net_error + claim_decision) \<times> 'h"
  op_create :: "clone_net \<Rightarrow> string \<Rightarrow> 'h \<Rightarrow> (create_failure + unit) \<times> 'h"
  op_rollback :: "clone_net \<Rightarrow> string \<Rightarrow> creation_stage \<Rightarrow> 'h \<Rightarrow> (clone_net_error + unit) \<times> 'h"
  op_teardown :: "clone_net \<Rightarrow> string \<Rightarrow> 'h \<Rightarrow> (clone_net_error + reconcile_action) \<times> 'h"

subsection \<open>Claiming, allocating and releasing\<close>

definition map_claim :: "claim_outcome \<Rightarrow> clone_net_error + clone_net" where
  "map_claim outcome = (case outcome of
     Claimed index \<Rightarrow> clone_net_derive index
   | PoolFull cap \<Rightarrow> Inl (CnPoolFull cap)
   | InvalidIndex index mx \<Rightarrow> Inl (CnInvalidIndex index mx)
   | TargetTaken index \<Rightarrow> Inl (CnTargetTaken index))"

record claim_request =
  cr_owner_id :: string
  cr_me :: claimer
  cr_cap :: u8
  cr_target :: "u8 option"

definition claim_host_identity ::
  "io_env \<Rightarrow> claim_request \<Rightarrow> 'h network_ops \<Rightarrow> 'h world \<Rightarrow> (clone_net_error + clone_net) \<times> 'h world" where
  "claim_host_identity env request ops w =
     (let spec = \<lparr>cs_pool = CLONENET_POOL, cs_owner_id = cr_owner_id request, cs_me = cr_me request,
                  cs_cap = cr_cap request, cs_target = cr_target request\<rparr>
      in and_then (claim_with env CnIo spec (\<lambda>index. op_claim_global ops index (cr_owner_id request)) w)
           (\<lambda>outcome w. (map_claim outcome, w)))"

definition release_claim :: "io_env \<Rightarrow> u8 \<Rightarrow> string \<Rightarrow> 'h world \<Rightarrow> (clone_net_error + free_outcome) \<times> 'h world" where
  "release_claim env index expected_owner w =
     (if \<not> valid_index CLONENET_POOL index then (Inl (CnInvalidIndex index MAX_CLONENET), w)
      else map_err CnIo (indexed_free env CLONENET_POOL index expected_owner w))"

definition rollback_failed_create ::
  "(io_error \<Rightarrow> string) \<Rightarrow> io_env \<Rightarrow> string \<Rightarrow> clone_net \<Rightarrow> 'h network_ops \<Rightarrow> create_failure \<Rightarrow> 'h world
     \<Rightarrow> (clone_net_error + clone_net) \<times> 'h world" where
  "rollback_failed_create io_text env owner_id net ops failure w =
     (case op_rollback ops net owner_id (cf_stage failure) (host w) of
        (Inl rollback, h) \<Rightarrow>
          (Inl (CnRollback (clone_net_error_text io_text (cf_error failure)) (clone_net_error_text io_text rollback)), w\<lparr>host := h\<rparr>)
      | (Inr _, h) \<Rightarrow>
          and_then (release_claim env (cn_index net) owner_id (w\<lparr>host := h\<rparr>)) (\<lambda>_ w. (Inl (cf_error failure), w)))"

definition allocate_with ::
  "(io_error \<Rightarrow> string) \<Rightarrow> io_env \<Rightarrow> claim_request \<Rightarrow> 'h network_ops \<Rightarrow> 'h world
     \<Rightarrow> (clone_net_error + clone_net) \<times> 'h world" where
  "allocate_with io_text env request ops w =
     (case op_preflight ops (host w) of
        (Inl e, h) \<Rightarrow> (Inl e, w\<lparr>host := h\<rparr>)
      | (Inr _, h) \<Rightarrow>
          and_then (claim_host_identity env request ops (w\<lparr>host := h\<rparr>)) (\<lambda>net w.
            case op_create ops net (cr_owner_id request) (host w) of
              (Inr _, h) \<Rightarrow> (Inr net, w\<lparr>host := h\<rparr>)
            | (Inl failure, h) \<Rightarrow>
                rollback_failed_create io_text env (cr_owner_id request) net ops failure (w\<lparr>host := h\<rparr>)))"

definition map_release :: "(release_error + free_outcome) \<Rightarrow> clone_net_error + free_outcome" where
  "map_release r = (case r of
     Inr out \<Rightarrow> Inr out
   | Inl (ReleaseIo e) \<Rightarrow> Inl (CnIo e)
   | Inl (ReleaseCleanup detail) \<Rightarrow> Inl (CnCommand ''clone network teardown'' detail))"

definition cleanup_detail :: "(io_error \<Rightarrow> string) \<Rightarrow> clone_net_error \<Rightarrow> string" where
  "cleanup_detail io_text e = (case e of
     CnCommand command detail \<Rightarrow> command @ '': '' @ detail
   | other \<Rightarrow> clone_net_error_text io_text other)"

text \<open>The closure \<open>free_with_cleanup\<close> runs under the lock: the caller's cleanup, then the teardown.\<close>

definition teardown_under_lock ::
  "(io_error \<Rightarrow> string) \<Rightarrow> 'h network_ops \<Rightarrow> clone_net \<Rightarrow> string \<Rightarrow> (clone_net \<Rightarrow> 'h \<Rightarrow> (string + unit) \<times> 'h)
     \<Rightarrow> 'h \<Rightarrow> (string + unit) \<times> 'h" where
  "teardown_under_lock io_text ops net expected_owner cleanup h =
     and_then (cleanup net h) (\<lambda>_ h.
     and_then (map_err (cleanup_detail io_text) (op_teardown ops net expected_owner h)) (\<lambda>action h.
       case action of
         RemoveClaim \<Rightarrow> (Inr (), h)
       | KeepClaim \<Rightarrow> (Inl ''host resources are owned by another claim'', h)))"

definition clone_free_with_cleanup ::
  "(io_error \<Rightarrow> string) \<Rightarrow> io_env \<Rightarrow> 'h network_ops \<Rightarrow> u8 \<Rightarrow> string \<Rightarrow> (clone_net \<Rightarrow> 'h \<Rightarrow> (string + unit) \<times> 'h)
     \<Rightarrow> 'h world \<Rightarrow> (clone_net_error + free_outcome) \<times> 'h world" where
  "clone_free_with_cleanup io_text env ops index expected_owner cleanup w =
     (case clone_net_derive index of
        Inl e \<Rightarrow> (Inl e, w)
      | Inr net \<Rightarrow>
          (case free_with env CLONENET_POOL index expected_owner
                  (teardown_under_lock io_text ops net expected_owner cleanup) w of
             (r, w) \<Rightarrow> (map_release r, w)))"

definition clone_free ::
  "(io_error \<Rightarrow> string) \<Rightarrow> io_env \<Rightarrow> 'h network_ops \<Rightarrow> u8 \<Rightarrow> string \<Rightarrow> 'h world
     \<Rightarrow> (clone_net_error + free_outcome) \<times> 'h world" where
  "clone_free io_text env ops index expected_owner w =
     clone_free_with_cleanup io_text env ops index expected_owner (\<lambda>_ h. (Inr (), h)) w"

definition verify_owned :: "io_env \<Rightarrow> clone_net \<Rightarrow> string \<Rightarrow> 'h world \<Rightarrow> clone_net_error + unit" where
  "verify_owned env net expected_owner w = (case owned_by env CLONENET_POOL (cn_index net) expected_owner w of
     Inl e \<Rightarrow> Inl (CnIo e)
   | Inr True \<Rightarrow> Inr ()
   | Inr False \<Rightarrow> Inl (CnNotOwned (cn_index net) expected_owner))"

subsection \<open>Reconciliation\<close>

definition clone_reclaimer :: "(io_error \<Rightarrow> string) \<Rightarrow> 'h network_ops \<Rightarrow> 'h reclaimer" where
  "clone_reclaimer io_text ops index owner w =
     (if dirs w owner then (Inr KeepClaim, host w)
      else (case clone_net_derive index of
         Inl e \<Rightarrow> (Inl (clone_net_error_text io_text e), host w)
       | Inr net \<Rightarrow> map_err (clone_net_error_text io_text) (op_teardown ops net owner (host w))))"

definition clone_reconcile_with ::
  "(io_error \<Rightarrow> string) \<Rightarrow> io_env \<Rightarrow> ('h world \<Rightarrow> 'h world) \<Rightarrow> io_error + (io_error + string) list \<Rightarrow> 'h network_ops
     \<Rightarrow> 'h world \<Rightarrow> reclaimed list \<times> 'h world" where
  "clone_reconcile_with io_text env interf entries ops w =
     indexed_reconcile env CLONENET_POOL interf entries (clone_reclaimer io_text ops) w"

subsection \<open>Commands\<close>

record command_spec =
  cmd_program :: string
  cmd_args :: "string list"

definition command_display :: "command_spec \<Rightarrow> string" where
  "command_display c = cmd_program c @ '' '' @ join_with space (cmd_args c)"

abbreviation ip_cmd :: "string list \<Rightarrow> command_spec" where
  "ip_cmd args \<equiv> \<lparr>cmd_program = ''ip'', cmd_args = args\<rparr>"

definition source_binding_command :: "string \<Rightarrow> clone_net \<Rightarrow> command_spec" where
  "source_binding_command operation net =
     \<lparr>cmd_program = ''iptables'', cmd_args =
        [''-w'', XTABLES_WAIT_SECONDS, operation]
        @ (if operation = ''-I'' then [''ROOMS_VETH_FWD'', ''1''] else [''ROOMS_VETH_FWD''])
        @ [''-i'', cn_veth_host net, ''!'', ''-s'', show_ipv4 (cn_netns_ip net) @ ''/32'', ''-j'', ''DROP'']\<rparr>"

definition host_create_plan :: "clone_net \<Rightarrow> command_spec list" where
  "host_create_plan net =
     (let host_cidr = show_ipv4 (cn_host_ip net) @ ''/'' @ show_u8 (cn_prefix net);
          route_cidr = ''172.17.0.'' @ show_u8 (4 * cn_index net) @ ''/'' @ show_u8 (cn_prefix net)
      in [ip_cmd [''netns'', ''add'', cn_netns net],
          ip_cmd [''link'', ''add'', cn_veth_host net, ''type'', ''veth'', ''peer'', ''name'', cn_veth_guest net],
          ip_cmd [''link'', ''set'', cn_veth_guest net, ''netns'', cn_netns net],
          ip_cmd [''addr'', ''add'', host_cidr, ''dev'', cn_veth_host net],
          ip_cmd [''link'', ''set'', cn_veth_host net, ''up''],
          ip_cmd [''route'', ''replace'', route_cidr, ''dev'', cn_veth_host net, ''src'', show_ipv4 (cn_host_ip net)],
          \<lparr>cmd_program = ''sysctl'', cmd_args = [''-w'', ''net.ipv4.conf.'' @ cn_veth_host net @ ''.forwarding=1'']\<rparr>,
          source_binding_command ''-I'' net])"

definition ip_in_namespace :: "string list \<Rightarrow> string list \<Rightarrow> command_spec" where
  "ip_in_namespace pfx args = ip_cmd (pfx @ args)"

definition exec_in_namespace :: "clone_net \<Rightarrow> string \<Rightarrow> string list \<Rightarrow> command_spec" where
  "exec_in_namespace net program args = ip_cmd ([''netns'', ''exec'', cn_netns net] @ [program] @ args)"

definition namespace_create_plan :: "clone_net \<Rightarrow> command_spec list" where
  "namespace_create_plan net =
     (let address = show_ipv4 (cn_netns_ip net) @ ''/'' @ show_u8 (cn_prefix net);
          gateway = show_ipv4 (cn_host_ip net);
          pfx = [''-n'', cn_netns net]
      in [ip_in_namespace pfx [''addr'', ''add'', address, ''dev'', cn_veth_guest net],
          ip_in_namespace pfx [''link'', ''set'', cn_veth_guest net, ''up''],
          ip_in_namespace pfx [''link'', ''set'', ''lo'', ''up''],
          ip_in_namespace pfx [''route'', ''replace'', ''default'', ''via'', gateway],
          exec_in_namespace net ''sysctl'' [''-w'', ''net.ipv4.ip_forward=1''],
          exec_in_namespace net ''sysctl'' [''-w'', ''net.ipv4.conf.'' @ cn_veth_guest net @ ''.forwarding=1''],
          exec_in_namespace net ''iptables''
            [''-w'', XTABLES_WAIT_SECONDS, ''-t'', ''nat'', ''-A'', ''POSTROUTING'', ''-s'', ''172.16.0.0/24'',
             ''-o'', cn_veth_guest net, ''-j'', ''MASQUERADE'']])"

definition create_plan :: "clone_net \<Rightarrow> command_spec list" where
  "create_plan net = host_create_plan net @ namespace_create_plan net"

definition teardown_plan :: "clone_net \<Rightarrow> command_spec list" where
  "teardown_plan net =
     [ip_cmd [''netns'', ''del'', cn_netns net],
      ip_cmd [''link'', ''del'', cn_veth_host net],
      ip_cmd [''link'', ''del'', cn_veth_guest net],
      source_binding_command ''-D'' net]"

definition rollback_plan :: "clone_net \<Rightarrow> creation_stage \<Rightarrow> command_spec list" where
  "rollback_plan net stage =
     (if stage \<ge> StageNamespace then [ip_cmd [''netns'', ''del'', cn_netns net]] else [])
     @ (if stage \<ge> StageVeth then [ip_cmd [''link'', ''del'', cn_veth_host net], ip_cmd [''link'', ''del'', cn_veth_guest net]] else [])
     @ (if stage \<ge> StageSourceRule then [source_binding_command ''-D'' net] else [])"

subsection \<open>Running commands\<close>

type_synonym 'n runner = "command_spec \<Rightarrow> 'n \<Rightarrow> (io_error + cmd_output) \<times> 'n"

definition absent_resource :: "string \<Rightarrow> bool" where
  "absent_resource stderr \<longleftrightarrow>
     list_ex (\<lambda>needle. str_contains needle stderr)
       [''Cannot find device'', ''RTNETLINK answers: No such device'', ''No such file or directory'',
        ''Bad rule (does a matching rule exist in that chain?)'', ''No chain/target/match by that name.'']
     \<or> (str_contains (''Device '' @ [CHR 0x22]) stderr \<and> str_contains (CHR 0x22 # '' does not exist'') stderr)"

definition command_error :: "command_spec \<Rightarrow> string \<Rightarrow> clone_net_error" where
  "command_error c stderr = CnCommand (command_display c) (trim stderr)"

definition run_command :: "'n runner \<Rightarrow> command_spec \<Rightarrow> 'n \<Rightarrow> (clone_net_error + unit) \<times> 'n" where
  "run_command run c n = (case run c n of
     (Inl e, n) \<Rightarrow> (Inl (CnIo e), n)
   | (Inr out, n) \<Rightarrow> if out_success out then (Inr (), n) else (Inl (command_error c (out_stderr out)), n))"

definition run_allow_absent :: "'n runner \<Rightarrow> command_spec \<Rightarrow> 'n \<Rightarrow> (clone_net_error + unit) \<times> 'n" where
  "run_allow_absent run c n = (case run c n of
     (Inl e, n) \<Rightarrow> (Inl (CnIo e), n)
   | (Inr out, n) \<Rightarrow>
       if out_success out \<or> absent_resource (out_stderr out) then (Inr (), n)
       else (Inl (command_error c (out_stderr out)), n))"

fun run_all_allow_absent :: "'n runner \<Rightarrow> command_spec list \<Rightarrow> 'n \<Rightarrow> (clone_net_error + unit) \<times> 'n" where
  "run_all_allow_absent run [] n = (Inr (), n)"
| "run_all_allow_absent run (c # cs) n = and_then (run_allow_absent run c n) (\<lambda>_ n. run_all_allow_absent run cs n)"

definition verify_host_veth :: "'n runner \<Rightarrow> clone_net \<Rightarrow> 'n \<Rightarrow> (clone_net_error + unit) \<times> 'n" where
  "verify_host_veth run net n = run_command run (ip_cmd [''link'', ''show'', cn_veth_host net]) n"

fun probe_resources :: "'n runner \<Rightarrow> command_spec list \<Rightarrow> 'n \<Rightarrow> (clone_net_error + bool) \<times> 'n" where
  "probe_resources run [] n = (Inr False, n)"
| "probe_resources run (p # probes) n = (case run p n of
     (Inl e, n) \<Rightarrow> (Inl (CnIo e), n)
   | (Inr out, n) \<Rightarrow>
       if out_success out then (Inr True, n)
       else if \<not> absent_resource (out_stderr out) then (Inl (command_error p (out_stderr out)), n)
       else probe_resources run probes n)"

definition resources_exist :: "'n runner \<Rightarrow> clone_net \<Rightarrow> 'n \<Rightarrow> (clone_net_error + bool) \<times> 'n" where
  "resources_exist run net n =
     probe_resources run
       [ip_cmd [''netns'', ''exec'', cn_netns net, ''true''], ip_cmd [''link'', ''show'', cn_veth_host net],
        ip_cmd [''link'', ''show'', cn_veth_guest net]] n"

subsection \<open>Owner markers\<close>

record 'n clone_host =
  markers :: "string \<Rightarrow> string option"
  net_state :: 'n

definition HOST_OWNER_DIR :: string where "HOST_OWNER_DIR = ''/run/rooms/clonenet-owners''"

definition on_net :: "('n \<Rightarrow> ('e + 'a) \<times> 'n) \<Rightarrow> 'n clone_host \<Rightarrow> ('e + 'a) \<times> 'n clone_host" where
  "on_net f h = (case f (net_state h) of (r, n) \<Rightarrow> (r, h\<lparr>net_state := n\<rparr>))"

definition claim_owner_marker ::
  "(io_error \<Rightarrow> string) \<Rightarrow> io_env \<Rightarrow> u8 \<Rightarrow> string \<Rightarrow> 'n clone_host \<Rightarrow> (clone_net_error + claim_decision) \<times> 'n clone_host" where
  "claim_owner_marker io_text env index owner h =
     (case check_fault env (CreateDirAll HOST_OWNER_DIR) of
        Inl e \<Rightarrow> (Inl (CnIo e), h)
      | Inr _ \<Rightarrow>
          if markers h (show_u8 index) \<noteq> None then (Inr Skip, h)
          else (case check_fault env (CreateNew HOST_OWNER_DIR (show_u8 index)) of
             Inl e \<Rightarrow> (Inl (CnCommand (''claim host-global clone network '' @ show_u8 index) (io_text e)), h)
           | Inr _ \<Rightarrow> (Inr Accept, h\<lparr>markers := (markers h)(show_u8 index \<mapsto> owner)\<rparr>)))"

definition marker_owner :: "io_env \<Rightarrow> u8 \<Rightarrow> 'n clone_host \<Rightarrow> clone_net_error + string option" where
  "marker_owner env index h = (case markers h (show_u8 index) of
     None \<Rightarrow> Inr None
   | Some target \<Rightarrow> (case check_fault env (ReadToString HOST_OWNER_DIR (show_u8 index)) of
        Inl e \<Rightarrow> Inl (CnIo e) | Inr _ \<Rightarrow> Inr (Some target)))"

definition release_owner_marker :: "io_env \<Rightarrow> u8 \<Rightarrow> string \<Rightarrow> 'n clone_host \<Rightarrow> (clone_net_error + unit) \<times> 'n clone_host" where
  "release_owner_marker env index owner h = (case marker_owner env index h of
     Inl e \<Rightarrow> (Inl e, h)
   | Inr actual \<Rightarrow>
       if actual \<noteq> Some owner then (Inr (), h)
       else (case check_fault env (RemoveFile HOST_OWNER_DIR (show_u8 index)) of
          Inl e \<Rightarrow> (Inl (CnIo e), h)
        | Inr _ \<Rightarrow> (Inr (), h\<lparr>markers := (markers h)(show_u8 index := None)\<rparr>)))"

datatype teardown_ownership = ExistingMarker | ReservedMarker | ForeignMarker

definition teardown_ownership ::
  "(io_error \<Rightarrow> string) \<Rightarrow> io_env \<Rightarrow> u8 \<Rightarrow> string \<Rightarrow> 'n clone_host \<Rightarrow> (clone_net_error + teardown_ownership) \<times> 'n clone_host" where
  "teardown_ownership io_text env index owner h = (case marker_owner env index h of
     Inl e \<Rightarrow> (Inl e, h)
   | Inr (Some actual) \<Rightarrow> (Inr (if actual = owner then ExistingMarker else ForeignMarker), h)
   | Inr None \<Rightarrow>
       and_then (claim_owner_marker io_text env index owner h) (\<lambda>d h.
         (Inr (case d of Accept \<Rightarrow> ReservedMarker | Skip \<Rightarrow> ForeignMarker), h)))"

definition reserved_resources_exist ::
  "io_env \<Rightarrow> 'n runner \<Rightarrow> clone_net \<Rightarrow> string \<Rightarrow> 'n clone_host \<Rightarrow> (clone_net_error + bool) \<times> 'n clone_host" where
  "reserved_resources_exist env run net owner h = (case on_net (resources_exist run net) h of
     (Inr exists, h) \<Rightarrow> (Inr exists, h)
   | (Inl e, h) \<Rightarrow> and_then (release_owner_marker env (cn_index net) owner h) (\<lambda>_ h. (Inl e, h)))"

subsection \<open>The routing preflight\<close>

definition DEFAULT_POLICY_RULES :: "string list" where
  "DEFAULT_POLICY_RULES = [''0: from all lookup local'', ''32766: from all lookup main'', ''32767: from all lookup default'']"

definition default_policy_rule_index :: "string \<Rightarrow> nat option" where
  "default_policy_rule_index rule =
     find_position (\<lambda>expected. split_whitespace expected = split_whitespace rule) DEFAULT_POLICY_RULES"

fun count_rules :: "nat list \<Rightarrow> string list \<Rightarrow> clone_net_error + nat list" where
  "count_rules seen [] = Inr seen"
| "count_rules seen (rule # rules) = (case default_policy_rule_index rule of
     Some index \<Rightarrow> if index < length seen then count_rules (seen[index := Suc (seen ! index)]) rules
                   else Inl (CnPolicyRouting rule)
   | None \<Rightarrow> Inl (CnPolicyRouting rule))"

definition validate_policy_rules :: "string \<Rightarrow> clone_net_error + unit" where
  "validate_policy_rules rules =
     (case count_rules (replicate (length DEFAULT_POLICY_RULES) 0) (filter (\<lambda>l. l \<noteq> []) (map trim (lines rules))) of
        Inl e \<Rightarrow> Inl e
      | Inr seen \<Rightarrow> (case find (\<lambda>(found, _). found \<noteq> 1) (zip seen DEFAULT_POLICY_RULES) of
           None \<Rightarrow> Inr ()
         | Some (found, expected) \<Rightarrow>
             Inl (CnPolicyRouting (''expected exactly one '' @ CHR 0x60 # expected @ CHR 0x60 # '', found '' @ show_nat found))))"

datatype route_kind = RkUnicast | RkLocal | RkBroadcast | RkThrow | RkForeignSpecial

record route_cidr =
  rc_kind :: route_kind
  rc_network :: u32
  rc_prefix :: u8

datatype route_class = RouteDisjoint | RouteRooms u8 | RouteForeign

definition is_ascii_alphabetic :: "char \<Rightarrow> bool" where
  "is_ascii_alphabetic c \<longleftrightarrow> is_ascii_lowercase c \<or> (65 \<le> (of_char c :: nat) \<and> (of_char c :: nat) \<le> 90)"

definition top_level_routes :: "string \<Rightarrow> string list" where
  "top_level_routes routes = List.map_filter (\<lambda>line.
     let route = trim line in
     if route = [] \<or> (case line of [] \<Rightarrow> False | c # _ \<Rightarrow> is_ascii_whitespace c) then None else Some route) (lines routes)"

definition route_pair :: "string \<Rightarrow> string \<Rightarrow> string option" where
  "route_pair route key = token_after [key] (split_whitespace route)"

definition in_local_table :: "string \<Rightarrow> bool" where
  "in_local_table route \<longleftrightarrow> route_pair route ''table'' \<in> {Some ''local'', Some ''255''}"

definition cidr_mask :: "u8 \<Rightarrow> u32" where
  "cidr_mask pfx = (if pfx = 0 then 0 else push_bit (32 - unat pfx) (- 1))"

text \<open>The type keyword and the destination token of a route line.\<close>

definition route_destination :: "string list \<Rightarrow> (route_kind \<times> string) option" where
  "route_destination tokens = (case tokens of
     [] \<Rightarrow> None
   | first # rest \<Rightarrow>
       if first = ''default'' then Some (RkUnicast, first)
       else let special = (\<lambda>k. case rest of [] \<Rightarrow> None | d # _ \<Rightarrow> Some (k, d)) in
         if first = ''local'' then special RkLocal
         else if first = ''broadcast'' then special RkBroadcast
         else if first = ''throw'' then special RkThrow
         else if first \<in> {''anycast'', ''multicast'', ''blackhole'', ''unreachable'', ''prohibit'', ''nat''}
         then special RkForeignSpecial
         else if (case first of [] \<Rightarrow> False | c # _ \<Rightarrow> is_ascii_alphabetic c) then special RkForeignSpecial
         else Some (RkUnicast, first))"

definition route_cidr :: "string \<Rightarrow> route_cidr option" where
  "route_cidr route = (case route_destination (split_whitespace route) of
     None \<Rightarrow> None
   | Some (kind, destination) \<Rightarrow>
       if destination = ''default'' then Some \<lparr>rc_kind = kind, rc_network = 0, rc_prefix = 0\<rparr>
       else (case (case split_once CHR ''/'' destination of
                 Some (address, pfx) \<Rightarrow> map_option (\<lambda>p. (address, p)) (parse_u8 pfx)
               | None \<Rightarrow> Some (destination, 32)) of
          None \<Rightarrow> None
        | Some (address, pfx) \<Rightarrow>
            if pfx > 32 then None
            else (case parse_ipv4 address of
               None \<Rightarrow> None
             | Some ip \<Rightarrow> Some \<lparr>rc_kind = kind, rc_network = and (ipv4_to_u32 ip) (cidr_mask pfx), rc_prefix = pfx\<rparr>)))"

definition overlaps_clone_supernet :: "u32 \<Rightarrow> u8 \<Rightarrow> bool" where
  "overlaps_clone_supernet network pfx =
     (let route_end = or network (not (cidr_mask pfx));
          clone_start = ipv4_to_u32 (172, 17, 0, 0);
          clone_end = ipv4_to_u32 (172, 17, 0, 255)
      in network \<le> clone_end \<and> clone_start \<le> route_end)"

definition rooms_route_index :: "string \<Rightarrow> route_cidr \<Rightarrow> u8 option" where
  "rooms_route_index route cidr =
     (if rc_kind cidr \<in> {RkThrow, RkForeignSpecial} \<or> ''via'' \<in> set (split_whitespace route) then None
      else (case route_pair route ''dev'' of
         None \<Rightarrow> None
       | Some interface \<Rightarrow> (case Option.bind (strip_prefix ''veth-h'' interface) parse_u8 of
          None \<Rightarrow> None
        | Some index \<Rightarrow>
            if \<not> (1 \<le> index \<and> index \<le> MAX_CLONENET) then None
            else (case clone_net_derive index of
               Inl _ \<Rightarrow> None
             | Inr net \<Rightarrow>
                 let base = ipv4_to_u32 (cn_host_ip net) - 1;
                     expected_shape = (case rc_kind cidr of
                        RkUnicast \<Rightarrow> rc_prefix cidr = 30 \<and> rc_network cidr = base
                      | RkLocal \<Rightarrow> rc_prefix cidr = 32 \<and> rc_network cidr = ipv4_to_u32 (cn_host_ip net)
                      | RkBroadcast \<Rightarrow> rc_prefix cidr = 32 \<and> (rc_network cidr = base \<or> rc_network cidr = base + 3)
                      | _ \<Rightarrow> False)
                 in if expected_shape \<and> route_pair route ''src'' = Some (show_ipv4 (cn_host_ip net))
                    then Some index else None))))"

definition classify_route :: "string \<Rightarrow> route_class" where
  "classify_route route = (case route_cidr route of
     None \<Rightarrow> RouteForeign
   | Some cidr \<Rightarrow>
       if \<not> overlaps_clone_supernet (rc_network cidr) (rc_prefix cidr) then RouteDisjoint
       else if rc_kind cidr = RkThrow \<and> in_local_table route then RouteDisjoint
       else if rc_prefix cidr \<le> 1 \<and> \<not> in_local_table route then RouteDisjoint
       else (case rooms_route_index route cidr of Some index \<Rightarrow> RouteRooms index | None \<Rightarrow> RouteForeign))"

definition check_default_policy_rules :: "'n runner \<Rightarrow> 'n \<Rightarrow> (clone_net_error + unit) \<times> 'n" where
  "check_default_policy_rules run n =
     (let c = ip_cmd [''-4'', ''rule'', ''show''] in
      case run c n of
        (Inl e, n) \<Rightarrow> (Inl (CnIo e), n)
      | (Inr out, n) \<Rightarrow>
          if \<not> out_success out then (Inl (command_error c (out_stderr out)), n)
          else (validate_policy_rules (out_stdout out), n))"

fun check_routes :: "io_env \<Rightarrow> string list \<Rightarrow> 'n clone_host \<Rightarrow> clone_net_error + unit" where
  "check_routes env [] h = Inr ()"
| "check_routes env (route # routes) h = (case classify_route route of
     RouteDisjoint \<Rightarrow> check_routes env routes h
   | RouteRooms index \<Rightarrow> (case marker_owner env index h of
        Inl e \<Rightarrow> Inl e
      | Inr owner \<Rightarrow> if owner \<noteq> None then check_routes env routes h else Inl (CnRouteOverlap route))
   | RouteForeign \<Rightarrow> Inl (CnRouteOverlap route))"

definition check_clone_subnet_available ::
  "io_env \<Rightarrow> 'n runner \<Rightarrow> 'n clone_host \<Rightarrow> (clone_net_error + unit) \<times> 'n clone_host" where
  "check_clone_subnet_available env run h =
     and_then (on_net (check_default_policy_rules run) h) (\<lambda>_ h.
       let c = ip_cmd [''-4'', ''route'', ''show'', ''table'', ''all''] in
       case on_net (run c) h of
         (Inl e, h) \<Rightarrow> (Inl (CnIo e), h)
       | (Inr out, h) \<Rightarrow>
           if \<not> out_success out then (Inl (command_error c (out_stderr out)), h)
           else (check_routes env (top_level_routes (out_stdout out)) h, h))"

subsection \<open>The system's operations\<close>

text \<open>The creation loop: the stage advances after the first, the second and the eighth command.\<close>

definition next_stage :: "nat \<Rightarrow> creation_stage \<Rightarrow> creation_stage" where
  "next_stage step stage = (if step = 0 then StageNamespace else if step = 1 then StageVeth
     else if step = 7 then StageSourceRule else stage)"

fun create_steps :: "'n runner \<Rightarrow> nat \<Rightarrow> creation_stage \<Rightarrow> command_spec list \<Rightarrow> 'n \<Rightarrow> (create_failure + unit) \<times> 'n" where
  "create_steps run step stage [] n = (Inr (), n)"
| "create_steps run step stage (c # cs) n = (case run_command run c n of
     (Inl e, n) \<Rightarrow> (Inl \<lparr>cf_error = e, cf_stage = stage\<rparr>, n)
   | (Inr _, n) \<Rightarrow> create_steps run (Suc step) (next_stage step stage) cs n)"

definition system_create :: "'n runner \<Rightarrow> clone_net \<Rightarrow> string \<Rightarrow> 'n clone_host \<Rightarrow> (create_failure + unit) \<times> 'n clone_host" where
  "system_create run net owner h = on_net (create_steps run 0 StageOwnerMarker (create_plan net)) h"

definition system_rollback ::
  "io_env \<Rightarrow> 'n runner \<Rightarrow> clone_net \<Rightarrow> string \<Rightarrow> creation_stage \<Rightarrow> 'n clone_host \<Rightarrow> (clone_net_error + unit) \<times> 'n clone_host" where
  "system_rollback env run net owner stage h =
     and_then (on_net (run_all_allow_absent run (rollback_plan net stage)) h) (\<lambda>_ h.
       if stage \<ge> StageOwnerMarker then release_owner_marker env (cn_index net) owner h else (Inr (), h))"

text \<open>\<open>egress::remove_clone_checked\<close> through the same external programs. Its loops end on every firewall that
  behaves as documented (\<open>remove_clone_ends_exactly\<close>); one that does not end is an error here.\<close>

definition runner_iptables :: "(io_error \<Rightarrow> string) \<Rightarrow> 'n runner \<Rightarrow> 'n iptables" where
  "runner_iptables io_text run args n = (case run \<lparr>cmd_program = ''iptables'', cmd_args = args\<rparr> n of
     (Inl e, n) \<Rightarrow> (Inl (io_text e), n) | (Inr out, n) \<Rightarrow> (Inr out, n))"

definition remove_clone_egress :: "(io_error \<Rightarrow> string) \<Rightarrow> bool \<Rightarrow> 'n runner \<Rightarrow> string \<Rightarrow> 'n \<Rightarrow> (string + unit) \<times> 'n" where
  "remove_clone_egress io_text poisoned run veth n =
     (case remove_clone_checked poisoned (runner_iptables io_text run) veth n of
        Some r \<Rightarrow> r | None \<Rightarrow> (Inl ''clone egress removal does not end'', n))"

definition system_teardown ::
  "(io_error \<Rightarrow> string) \<Rightarrow> io_env \<Rightarrow> bool \<Rightarrow> 'n runner \<Rightarrow> clone_net \<Rightarrow> string \<Rightarrow> 'n clone_host
     \<Rightarrow> (clone_net_error + reconcile_action) \<times> 'n clone_host" where
  "system_teardown io_text env poisoned run net owner h =
     and_then (teardown_ownership io_text env (cn_index net) owner h) (\<lambda>ownership h.
     if ownership = ForeignMarker then (Inr KeepClaim, h)
     else and_then (if ownership = ReservedMarker then reserved_resources_exist env run net owner h else (Inr False, h)) (\<lambda>exists h.
     if exists then and_then (release_owner_marker env (cn_index net) owner h) (\<lambda>_ h. (Inr KeepClaim, h))
     else and_then (map_err (\<lambda>detail. CnCommand (''remove clone egress for '' @ cn_veth_host net) detail)
                     (on_net (remove_clone_egress io_text poisoned run (cn_veth_host net)) h)) (\<lambda>_ h.
          and_then (on_net (run_all_allow_absent run (teardown_plan net)) h) (\<lambda>_ h.
          and_then (release_owner_marker env (cn_index net) owner h) (\<lambda>_ h. (Inr RemoveClaim, h))))))"

definition system_network_ops ::
  "(io_error \<Rightarrow> string) \<Rightarrow> io_env \<Rightarrow> bool \<Rightarrow> 'n runner \<Rightarrow> 'n clone_host network_ops" where
  "system_network_ops io_text env poisoned run =
     \<lparr>op_preflight = check_clone_subnet_available env run,
      op_claim_global = claim_owner_marker io_text env,
      op_create = system_create run,
      op_rollback = system_rollback env run,
      op_teardown = system_teardown io_text env poisoned run\<rparr>"

definition allocate ::
  "(io_error \<Rightarrow> string) \<Rightarrow> io_env \<Rightarrow> bool \<Rightarrow> 'n runner \<Rightarrow> claim_request \<Rightarrow> 'n clone_host world
     \<Rightarrow> (clone_net_error + clone_net) \<times> 'n clone_host world" where
  "allocate io_text env poisoned run request w =
     allocate_with io_text env request (system_network_ops io_text env poisoned run) w"

subsection \<open>Batches\<close>

text \<open>The workers of a batch run concurrently and are all joined; what one returned, or that it panicked, is the
  value \<open>joined\<close>. The closures are given by what they return for each member, under whatever interleaving
  their critical sections had.\<close>

datatype 'a joined = Joined 'a | WorkerPanicked

record batch_allocation =
  ba_ordinal :: nat
  ba_owner_id :: string
  ba_network :: clone_net

record batch_failure =
  bf_ordinal :: nat
  bf_owner_id :: string
  bf_detail :: string
  bf_pool_full_cap :: "u8 option"

record batch_allocation_error =
  bae_failures :: "batch_failure list"
  bae_rollback_failures :: "batch_failure list"

record batch_worker_error =
  bwe_detail :: string
  bwe_pool_full_cap :: "u8 option"

definition worker_error_of :: "(io_error \<Rightarrow> string) \<Rightarrow> clone_net_error \<Rightarrow> batch_worker_error" where
  "worker_error_of io_text e =
     \<lparr>bwe_detail = clone_net_error_text io_text e, bwe_pool_full_cap = (case e of CnPoolFull cap \<Rightarrow> Some cap | _ \<Rightarrow> None)\<rparr>"

definition batch_pool_full_cap :: "batch_allocation_error \<Rightarrow> u8 option" where
  "batch_pool_full_cap e =
     (if bae_failures e = [] \<or> bae_rollback_failures e \<noteq> [] then None
      else (case bf_pool_full_cap (hd (bae_failures e)) of
         None \<Rightarrow> None
       | Some cap \<Rightarrow> if list_all (\<lambda>f. bf_pool_full_cap f = Some cap) (bae_failures e) then Some cap else None))"

definition batch_failure_evidence :: "batch_failure list \<Rightarrow> string" where
  "batch_failure_evidence failures =
     (let texts = map (\<lambda>f. ''#'' @ show_nat (bf_ordinal f) @ '' room '' @ bf_owner_id f @ '': '' @ bf_detail f) failures
      in case texts of [] \<Rightarrow> [] | t # ts \<Rightarrow> t @ concat (map (\<lambda>u. ''; '' @ u) ts))"

definition batch_error_text :: "batch_allocation_error \<Rightarrow> string" where
  "batch_error_text e =
     (let allocations = batch_failure_evidence (bae_failures e) in
      if bae_rollback_failures e = [] then ''clone network batch failed: '' @ allocations
      else ''clone network batch failed: '' @ allocations @ ''; exact rollback incomplete: ''
           @ batch_failure_evidence (bae_rollback_failures e))"

fun collect_allocation_workers ::
  "(nat \<times> string \<times> (batch_worker_error + clone_net) joined) list \<Rightarrow> batch_allocation list \<times> batch_failure list" where
  "collect_allocation_workers [] = ([], [])"
| "collect_allocation_workers ((ordinal, owner_id, worker) # workers) =
     (case collect_allocation_workers workers of (allocations, failures) \<Rightarrow>
        (case worker of
           Joined (Inr network) \<Rightarrow>
             (\<lparr>ba_ordinal = ordinal, ba_owner_id = owner_id, ba_network = network\<rparr> # allocations, failures)
         | Joined (Inl e) \<Rightarrow>
             (allocations, \<lparr>bf_ordinal = ordinal, bf_owner_id = owner_id, bf_detail = bwe_detail e,
                             bf_pool_full_cap = bwe_pool_full_cap e\<rparr> # failures)
         | WorkerPanicked \<Rightarrow>
             (allocations, \<lparr>bf_ordinal = ordinal, bf_owner_id = owner_id, bf_detail = ''allocator worker panicked'',
                             bf_pool_full_cap = None\<rparr> # failures)))"

definition run_allocation_workers ::
  "string list \<Rightarrow> (nat \<Rightarrow> string \<Rightarrow> (batch_worker_error + clone_net) joined) \<Rightarrow> batch_allocation list \<times> batch_failure list" where
  "run_allocation_workers owner_ids allocate_one =
     collect_allocation_workers (map (\<lambda>(ordinal, owner_id). (ordinal, owner_id, allocate_one ordinal owner_id)) (enumerate 0 owner_ids))"

definition batch_failure_of :: "batch_allocation \<Rightarrow> string \<Rightarrow> batch_failure" where
  "batch_failure_of a detail =
     \<lparr>bf_ordinal = ba_ordinal a, bf_owner_id = ba_owner_id a, bf_detail = detail, bf_pool_full_cap = None\<rparr>"

definition run_rollback_workers ::
  "batch_allocation list \<Rightarrow> (batch_allocation \<Rightarrow> (string + unit) joined) \<Rightarrow> batch_failure list" where
  "run_rollback_workers allocations rollback_one =
     List.map_filter (\<lambda>a. case rollback_one a of
         Joined (Inr _) \<Rightarrow> None
       | Joined (Inl detail) \<Rightarrow> Some (batch_failure_of a detail)
       | WorkerPanicked \<Rightarrow> Some (batch_failure_of a ''rollback worker panicked'')) allocations"

definition allocate_batch_with ::
  "string list \<Rightarrow> (nat \<Rightarrow> string \<Rightarrow> (batch_worker_error + clone_net) joined) \<Rightarrow> (batch_allocation \<Rightarrow> (string + unit) joined)
     \<Rightarrow> batch_allocation_error + batch_allocation list" where
  "allocate_batch_with owner_ids allocate_one rollback_one =
     (case run_allocation_workers owner_ids allocate_one of (allocations, failures) \<Rightarrow>
        let allocations = sort_key ba_ordinal allocations;
            failures = sort_key bf_ordinal failures
        in if failures = [] then Inr allocations
           else Inl \<lparr>bae_failures = failures,
                     bae_rollback_failures = sort_key bf_ordinal (run_rollback_workers allocations rollback_one)\<rparr>)"

definition rollback_result :: "(io_error \<Rightarrow> string) \<Rightarrow> u8 \<Rightarrow> clone_net_error + free_outcome \<Rightarrow> string + unit" where
  "rollback_result io_text index r = (case r of
     Inr Removed \<Rightarrow> Inr ()
   | Inr AlreadyFree \<Rightarrow> Inr ()
   | Inr AlreadyReassigned \<Rightarrow> Inl (''clone network '' @ show_u8 index @ '' was reassigned before rollback'')
   | Inl e \<Rightarrow> Inl (clone_net_error_text io_text e))"

fun map_joined :: "('a \<Rightarrow> 'b) \<Rightarrow> 'a joined \<Rightarrow> 'b joined" where
  "map_joined f (Joined a) = Joined (f a)"
| "map_joined f WorkerPanicked = WorkerPanicked"

definition allocate_batch ::
  "(io_error \<Rightarrow> string) \<Rightarrow> string list \<Rightarrow> (nat \<Rightarrow> string \<Rightarrow> (clone_net_error + clone_net) joined)
     \<Rightarrow> (nat \<Rightarrow> u8 \<Rightarrow> string \<Rightarrow> (clone_net_error + free_outcome) joined) \<Rightarrow> batch_allocation_error + batch_allocation list" where
  "allocate_batch io_text owner_ids allocated freed =
     allocate_batch_with owner_ids
       (\<lambda>ordinal owner_id. map_joined (\<lambda>r. case r of Inl e \<Rightarrow> Inl (worker_error_of io_text e) | Inr net \<Rightarrow> Inr net)
          (allocated ordinal owner_id))
       (\<lambda>a. map_joined (rollback_result io_text (cn_index (ba_network a)))
          (freed (ba_ordinal a) (cn_index (ba_network a)) (ba_owner_id a)))"

subsection \<open>Batches are all or nothing\<close>

definition allocated_network :: "(batch_worker_error + clone_net) joined \<Rightarrow> clone_net option" where
  "allocated_network r = (case r of Joined (Inr net) \<Rightarrow> Some net | _ \<Rightarrow> None)"

definition rollback_failed :: "(string + unit) joined \<Rightarrow> bool" where
  "rollback_failed r \<longleftrightarrow> r \<noteq> Joined (Inr ())"

definition worker_failure :: "nat \<Rightarrow> string \<Rightarrow> (batch_worker_error + clone_net) joined \<Rightarrow> batch_failure" where
  "worker_failure i o' r = (case r of
     Joined (Inl e) \<Rightarrow> \<lparr>bf_ordinal = i, bf_owner_id = o', bf_detail = bwe_detail e, bf_pool_full_cap = bwe_pool_full_cap e\<rparr>
   | _ \<Rightarrow> \<lparr>bf_ordinal = i, bf_owner_id = o', bf_detail = ''allocator worker panicked'', bf_pool_full_cap = None\<rparr>)"

lemma collect_split:
  "collect_allocation_workers ws =
     (map (\<lambda>(i, o', r). \<lparr>ba_ordinal = i, ba_owner_id = o', ba_network = the (allocated_network r)\<rparr>)
        (filter (\<lambda>(i, o', r). allocated_network r \<noteq> None) ws),
      map (\<lambda>(i, o', r). worker_failure i o' r) (filter (\<lambda>(i, o', r). allocated_network r = None) ws))"
  by (induction ws rule: collect_allocation_workers.induct)
    (auto simp: allocated_network_def worker_failure_def split: joined.splits sum.splits)

lemma sort_key_id: "sorted (map f xs) \<Longrightarrow> sort_key f xs = xs"
  by (induction xs) (auto simp: insort_is_Cons)

lemma enumerate_upt: "enumerate 0 xs = map (\<lambda>i. (i, xs ! i)) [0..<length xs]"
  by (rule nth_equalityI) (simp_all add: nth_enumerate_eq)

lemma batch_workers:
  fixes ids :: "string list"
  defines "ok \<equiv> \<lambda>alloc i. allocated_network (alloc i (ids ! i)) \<noteq> None"
  shows "run_allocation_workers ids alloc =
    (map (\<lambda>i. \<lparr>ba_ordinal = i, ba_owner_id = ids ! i, ba_network = the (allocated_network (alloc i (ids ! i)))\<rparr>)
       (filter (ok alloc) [0..<length ids]),
     map (\<lambda>i. worker_failure i (ids ! i) (alloc i (ids ! i))) (filter (\<lambda>i. \<not> ok alloc i) [0..<length ids]))"
  unfolding run_allocation_workers_def collect_split ok_def enumerate_upt
  by (simp add: filter_map comp_def)

lemma rollback_ordinals:
  "map bf_ordinal (run_rollback_workers as rollback) = map ba_ordinal (filter (\<lambda>a. rollback_failed (rollback a)) as)"
  by (induction as)
    (auto simp: run_rollback_workers_def List.map_filter_def batch_failure_of_def rollback_failed_def split: joined.splits sum.splits)

text \<open>A batch of clone networks is all or nothing. It succeeds exactly when every worker did, and then lists one
  network per member in caller order. Otherwise the error names, in caller order, exactly the members whose
  worker failed or panicked; every member that did get a network was rolled back, and exactly the ones whose
  rollback did not succeed are listed as such.\<close>

theorem batch_all_or_nothing:
  "(case allocate_batch_with ids alloc rollback of
      Inr as \<Rightarrow> length as = length ids
        \<and> (\<forall>i < length ids. ba_ordinal (as ! i) = i \<and> ba_owner_id (as ! i) = ids ! i
             \<and> alloc i (ids ! i) = Joined (Inr (ba_network (as ! i))))
    | Inl e \<Rightarrow> bae_failures e \<noteq> []
        \<and> map bf_ordinal (bae_failures e) = filter (\<lambda>i. allocated_network (alloc i (ids ! i)) = None) [0..<length ids]
        \<and> map bf_ordinal (bae_rollback_failures e) =
            filter (\<lambda>i. \<exists>net. alloc i (ids ! i) = Joined (Inr net)
                \<and> rollback_failed (rollback \<lparr>ba_ordinal = i, ba_owner_id = ids ! i, ba_network = net\<rparr>)) [0..<length ids])"
proof -
  let ?ok = "\<lambda>i. allocated_network (alloc i (ids ! i)) \<noteq> None"
  let ?mk = "\<lambda>i. \<lparr>ba_ordinal = i, ba_owner_id = ids ! i, ba_network = the (allocated_network (alloc i (ids ! i)))\<rparr>"
  let ?as = "map ?mk (filter ?ok [0..<length ids])"
  let ?fs = "map (\<lambda>i. worker_failure i (ids ! i) (alloc i (ids ! i))) (filter (\<lambda>i. \<not> ?ok i) [0..<length ids])"
  have of: "map bf_ordinal ?fs = filter (\<lambda>i. \<not> ?ok i) [0..<length ids]"
    by (simp add: worker_failure_def comp_def map_idI split: joined.splits sum.splits)
  have oa: "map ba_ordinal ?as = filter ?ok [0..<length ids]" by (simp add: comp_def)
  have sorted: "sort_key ba_ordinal ?as = ?as" "sort_key bf_ordinal ?fs = ?fs"
    using of oa by (simp_all add: sort_key_id sorted_wrt_filter)
  have net: "alloc i (ids ! i) = Joined (Inr net) \<longleftrightarrow> allocated_network (alloc i (ids ! i)) = Some net" for i net
    by (auto simp: allocated_network_def split: joined.splits sum.splits)
  let ?rb = "run_rollback_workers ?as rollback"
  have rb: "map bf_ordinal ?rb = filter (\<lambda>i. ?ok i \<and> rollback_failed (rollback (?mk i))) [0..<length ids]"
    unfolding rollback_ordinals by (simp add: filter_map comp_def)
  have srb: "sort_key bf_ordinal ?rb = ?rb" using rb by (simp add: sort_key_id sorted_wrt_filter)
  have result: "allocate_batch_with ids alloc rollback =
      (if filter (\<lambda>i. \<not> ?ok i) [0..<length ids] = [] then Inr ?as else Inl \<lparr>bae_failures = ?fs, bae_rollback_failures = ?rb\<rparr>)"
    unfolding allocate_batch_with_def batch_workers prod.case Let_def sorted srb by simp
  show ?thesis
  proof (cases "filter (\<lambda>i. \<not> ?ok i) [0..<length ids] = []")
    case True
    then have all: "?ok i" if "i < length ids" for i using that by (auto simp: filter_empty_conv)
    then have "filter ?ok [0..<length ids] = [0..<length ids]" by simp
    then show ?thesis unfolding result using True all net by auto
  next
    case False
    have "(\<exists>net. alloc i (ids ! i) = Joined (Inr net) \<and> rollback_failed (rollback \<lparr>ba_ordinal = i, ba_owner_id = ids ! i, ba_network = net\<rparr>))
        \<longleftrightarrow> ?ok i \<and> rollback_failed (rollback (?mk i))" for i unfolding net by auto
    then show ?thesis unfolding result using False of rb by simp
  qed
qed

definition demo_batch :: "nat \<Rightarrow> string \<Rightarrow> (batch_worker_error + clone_net) joined" where
  "demo_batch i _ = (if i = 0 then Joined (Inr (projr (clone_net_derive 1))) else WorkerPanicked)"

theorem batch_all_or_nothing_witness:
  "\<exists>e. allocate_batch_with [''a'', ''b''] demo_batch (\<lambda>_. Joined (Inr ())) = Inl e
     \<and> map bf_ordinal (bae_failures e) = [1] \<and> bae_rollback_failures e = []"
  using batch_all_or_nothing[where ids = "[''a'', ''b'']" and alloc = demo_batch and rollback = "\<lambda>_. Joined (Inr ())"]
  by (auto simp: demo_batch_def allocated_network_def rollback_failed_def upt_conv_Cons split: sum.splits)

subsection \<open>Identities\<close>

lemma valid_clone_index: "valid_index CLONENET_POOL i \<longleftrightarrow> 1 \<le> unat i \<and> unat i \<le> 63"
  by (auto simp: valid_index_def CLONENET_POOL_def MAX_CLONENET_def word_less_nat_alt word_le_nat_alt)

lemma derive_Inr:
  "clone_net_derive i = Inr net \<longleftrightarrow> 1 \<le> unat i \<and> unat i \<le> 63 \<and>
     net = \<lparr>cn_index = i, cn_netns = ''rooms-c'' @ show_u8 i, cn_veth_host = ''veth-h'' @ show_u8 i,
             cn_veth_guest = ''veth-g'' @ show_u8 i, cn_host_ip = (172, 17, 0, 4 * i + 1),
             cn_netns_ip = (172, 17, 0, 4 * i + 2), cn_prefix = 30\<rparr>"
  by (auto simp: clone_net_derive_def valid_clone_index Let_def)

lemma clone_octets:
  fixes i :: u8
  assumes "unat i \<le> 63"
  shows "unat (4 * i) = 4 * unat i" "unat (4 * i + 1) = 4 * unat i + 1" "unat (4 * i + 2) = 4 * unat i + 2"
proof -
  show a: "unat (4 * i) = 4 * unat i" using assms by (simp add: unat_word_ariths)
  show "unat (4 * i + 1) = 4 * unat i + 1" "unat (4 * i + 2) = 4 * unat i + 2"
    using assms a by (simp_all add: unat_word_ariths(1))
qed

lemma clone_u32: "unat (ipv4_to_u32 (172, 17, 0, d)) = 0xAC110000 + unat d"
  by (simp add: unat_ipv4_to_u32)

text \<open>The rule the binding command inserts, as \<open>iptables -S\<close> prints it: the source match comes before the interface.\<close>

definition printed_binding :: "string list \<Rightarrow> string" where
  "printed_binding args = join_with space ([''-A'', args ! 3] @ take 3 (drop 7 args) @ take 2 (drop 5 args) @ drop 10 args)"

lemma show_octet_no_whitespace: "\<forall>c \<in> set (show_ipv4 ip). \<not> is_whitespace c"
proof -
  obtain a b c d where ip: "ip = (a, b, c, d)" by (cases ip)
  have "\<not> is_whitespace x" if "x \<in> set (join_with CHR ''.'' [show_u8 a, show_u8 b, show_u8 c, show_u8 d])" for x
  proof -
    have "x = CHR ''.'' \<or> (\<exists>w \<in> {show_u8 a, show_u8 b, show_u8 c, show_u8 d}. x \<in> set w)" using that by auto
    then show ?thesis using show_nat_no_whitespace by (auto simp: is_whitespace_def)
  qed
  then show ?thesis by (simp add: ip show_ipv4_def)
qed

lemma printed_binding_index:
  assumes "clone_net_derive i = Inr net"
  shows "per_veth_source_index (printed_binding (cmd_args (source_binding_command ''-I'' net))) = Some i"
    and "clone_veth_index (cn_veth_host net) = Some i"
proof -
  have i: "1 \<le> unat i" "unat i \<le> 63" and net: "cn_veth_host net = ''veth-h'' @ show_u8 i" "cn_netns_ip net = (172, 17, 0, 4 * i + 2)"
    using assms by (auto simp: derive_Inr)
  have v: "cn_veth_host net = veth_h i" by (simp add: net veth_h_def CLONE_VETH_PREFIX_def)
  have idx: "clone_veth_index (veth_h i) = Some i"
    using i by (intro clone_veth_index_veth_h) (simp_all add: MAX_CLONE_VETH_INDEX_def word_le_nat_alt)
  then show "clone_veth_index (cn_veth_host net) = Some i" by (simp add: v)
  have src: "show_ipv4 (cn_netns_ip net) @ ''/32'' = ''172.17.0.'' @ show_u8 (4 * i + 2) @ ''/32''"
    by (simp add: net show_ipv4_def show_nat.simps digit_char_def)
  have p: "printed_binding (cmd_args (source_binding_command ''-I'' net)) = join_with space (binding_tokens i)"
    unfolding binding_tokens_def src[symmetric] v[symmetric] by (simp add: printed_binding_def source_binding_command_def)
  have w: "\<not> is_whitespace c" if "c \<in> set (show_u8 k)" for c k using that show_nat_no_whitespace by blast
  have "split_whitespace (join_with space (binding_tokens i)) = binding_tokens i"
    using w by (intro split_whitespace_join) (auto simp: binding_tokens_def veth_h_def CLONE_VETH_PREFIX_def is_whitespace_def)
  then show "per_veth_source_index (printed_binding (cmd_args (source_binding_command ''-I'' net))) = Some i"
    unfolding p per_veth_source_index_def by (simp add: binding_tokens_def idx)
qed

text \<open>Clone identities are distinct, and the firewall check recognises them. For every claimable index the host
  and namespace addresses are the second and third of one \<open>/30\<close> of 172.17.0.0/24, without overflow; two
  clones share no name and no \<open>/30\<close>; and the source binding that creation installs is, as printed by
  iptables, the one the veth isolation check accepts for exactly that index.\<close>

theorem clone_identities:
  assumes "clone_net_derive i = Inr n" and "clone_net_derive j = Inr m"
  shows "unat (ipv4_to_u32 (cn_host_ip n)) = 4 * (0x2B044000 + unat i) + 1
    \<and> unat (ipv4_to_u32 (cn_netns_ip n)) = 4 * (0x2B044000 + unat i) + 2
    \<and> unat (ipv4_to_u32 (cn_netns_ip n)) div 256 = 0xAC1100
    \<and> per_veth_source_index (printed_binding (cmd_args (source_binding_command ''-I'' n))) = Some i
    \<and> clone_veth_index (cn_veth_host n) = Some i
    \<and> (i \<noteq> j \<longrightarrow> cn_netns n \<noteq> cn_netns m \<and> cn_veth_host n \<noteq> cn_veth_host m \<and> cn_veth_guest n \<noteq> cn_veth_guest m
        \<and> unat (ipv4_to_u32 (cn_host_ip n)) div 4 \<noteq> unat (ipv4_to_u32 (cn_host_ip m)) div 4)"
proof -
  have i: "unat i \<le> 63" "unat j \<le> 63" and
    n: "cn_host_ip n = (172, 17, 0, 4 * i + 1)" "cn_netns_ip n = (172, 17, 0, 4 * i + 2)" "cn_host_ip m = (172, 17, 0, 4 * j + 1)"
    using assms by (auto simp: derive_Inr)
  have names: "i \<noteq> j \<longrightarrow> cn_netns n \<noteq> cn_netns m \<and> cn_veth_host n \<noteq> cn_veth_host m \<and> cn_veth_guest n \<noteq> cn_veth_guest m"
    using assms by (auto simp: derive_Inr)
  have h: "unat (ipv4_to_u32 (cn_host_ip n)) = 4 * (0x2B044000 + unat i) + 1" "unat (ipv4_to_u32 (cn_netns_ip n)) = 4 * (0x2B044000 + unat i) + 2"
    "unat (ipv4_to_u32 (cn_host_ip m)) = 4 * (0x2B044000 + unat j) + 1"
    unfolding n clone_u32 using clone_octets[OF i(1)] clone_octets[OF i(2)] by simp_all
  have "i \<noteq> j \<longrightarrow> unat (ipv4_to_u32 (cn_host_ip n)) div 4 \<noteq> unat (ipv4_to_u32 (cn_host_ip m)) div 4"
    unfolding h by (simp add: word_unat_eq_iff)
  moreover have "unat (ipv4_to_u32 (cn_netns_ip n)) div 256 = 0xAC1100" unfolding h using i(1) by simp
  ultimately show ?thesis using h names printed_binding_index[OF assms(1)] by blast
qed

theorem clone_identities_witness:
  "per_veth_source_index (printed_binding (cmd_args (source_binding_command ''-I'' (projr (clone_net_derive 1))))) = Some 1
   \<and> cn_netns (projr (clone_net_derive 1)) \<noteq> cn_netns (projr (clone_net_derive 63))"
proof -
  have d: "clone_net_derive 1 = Inr (projr (clone_net_derive 1))" "clone_net_derive 63 = Inr (projr (clone_net_derive 63))"
    by (simp_all add: clone_net_derive_def valid_clone_index Let_def)
  show ?thesis using clone_identities[OF d] by simp
qed

subsection \<open>Rollback mirrors creation\<close>

text \<open>What a host command creates or deletes. Addresses, routes and sysctls belong to a device and everything done
  inside the namespace belongs to the namespace, so they disappear with it.\<close>

datatype net_resource = Namespace string | Link string | HostRule "string list"

definition created_by :: "command_spec \<Rightarrow> net_resource list" where
  "created_by c =
     (let args = cmd_args c in
      if cmd_program c = ''ip'' then
        (if take 2 args = [''netns'', ''add''] then [Namespace (args ! 2)]
         else if take 2 args = [''link'', ''add''] then [Link (args ! 2), Link (args ! 7)] else [])
      else if cmd_program c = ''iptables'' \<and> args ! 2 = ''-I'' then [HostRule (args ! 3 # drop 5 args)]
      else [])"

definition deleted_by :: "command_spec \<Rightarrow> net_resource list" where
  "deleted_by c =
     (let args = cmd_args c in
      if cmd_program c = ''ip'' then
        (if take 2 args = [''netns'', ''del''] then [Namespace (args ! 2)]
         else if take 2 args = [''link'', ''del''] then [Link (args ! 2)] else [])
      else if cmd_program c = ''iptables'' \<and> args ! 2 = ''-D'' then [HostRule (drop 3 args)]
      else [])"

definition stage_after :: "nat \<Rightarrow> creation_stage" where
  "stage_after k = (if k = 0 then StageOwnerMarker else if k = 1 then StageNamespace
     else if k \<le> 7 then StageVeth else StageSourceRule)"

lemma stage_after_next: "next_stage k (stage_after k) = stage_after (Suc k)"
  by (auto simp: next_stage_def stage_after_def)

lemmas stage_less_eq = less_eq_creation_stage_def

lemma create_plan_resources:
  "map created_by (create_plan net) =
     [[Namespace (cn_netns net)], [Link (cn_veth_host net), Link (cn_veth_guest net)], [], [], [], [], [],
      [HostRule ([''ROOMS_VETH_FWD'', ''-i'', cn_veth_host net, ''!'', ''-s'', show_ipv4 (cn_netns_ip net) @ ''/32'', ''-j'', ''DROP''])],
      [], [], [], [], [], [], []]"
  by (simp add: create_plan_def host_create_plan_def namespace_create_plan_def created_by_def source_binding_command_def
      ip_in_namespace_def exec_in_namespace_def Let_def)

lemma rollback_mirrors:
  "concat (map deleted_by (rollback_plan net (stage_after k))) = concat (map created_by (take k (create_plan net)))"
proof -
  let ?cs = "map created_by (create_plan net)"
  have "concat (take k ?cs) = concat (map deleted_by (rollback_plan net (stage_after k)))"
  proof (cases "k \<le> 7")
    case True
    then have "k = 0 \<or> k = 1 \<or> k = 2 \<or> k = 3 \<or> k = 4 \<or> k = 5 \<or> k = 6 \<or> k = 7" by presburger
    then show ?thesis unfolding create_plan_resources
      by (elim disjE) (simp_all add: rollback_plan_def stage_after_def stage_less_eq deleted_by_def)
  next
    case False
    have d: "drop 8 ?cs = replicate 7 []" unfolding create_plan_resources by (simp add: numeral_eq_Suc)
    obtain m where m: "k = 8 + m" using False le_Suc_ex[of 8 k] by auto
    have "concat (take k ?cs) = concat (take 8 ?cs) @ concat (take m (drop 8 ?cs))" unfolding m take_add by simp
    then have "concat (take k ?cs) = concat (take 8 ?cs)" unfolding d by simp
    then show ?thesis using False unfolding create_plan_resources
      by (simp add: rollback_plan_def stage_after_def stage_less_eq deleted_by_def source_binding_command_def)
  qed
  then show ?thesis by (simp add: take_map)
qed

lemma create_steps_failed:
  "create_steps run step (stage_after step) cs n = (Inl f, n') \<Longrightarrow>
     \<exists>k n1. k < length cs \<and> create_steps run step (stage_after step) (take k cs) n = (Inr (), n1)
       \<and> run_command run (cs ! k) n1 = (Inl (cf_error f), n') \<and> cf_stage f = stage_after (step + k)"
proof (induction cs arbitrary: step n)
  case (Cons c cs)
  show ?case
  proof (cases "run_command run c n")
    case (Pair r n1)
    show ?thesis
    proof (cases r)
      case (Inl e)
      then have "f = \<lparr>cf_error = e, cf_stage = stage_after step\<rparr>" "n' = n1" using Cons.prems Pair by simp_all
      then show ?thesis using Pair Inl by (intro exI[of _ 0]) simp
    next
      case (Inr u)
      then have "create_steps run (Suc step) (stage_after (Suc step)) cs n1 = (Inl f, n')"
        using Cons.prems Pair by (simp add: stage_after_next)
      from Cons.IH[OF this] obtain k n2 where "k < length cs" "create_steps run (Suc step) (stage_after (Suc step)) (take k cs) n1 = (Inr (), n2)"
        "run_command run (cs ! k) n2 = (Inl (cf_error f), n')" "cf_stage f = stage_after (Suc step + k)" by blast
      then show ?thesis using Pair Inr by (intro exI[of _ "Suc k"] exI[of _ n2]) (simp add: stage_after_next)
    qed
  qed
qed simp

text \<open>A failed creation is rolled back exactly. When creating a clone's network fails, the commands before the
  failing one, and no others, had succeeded; and the rollback plan for the recorded stage deletes exactly the
  namespaces, links and firewall rules those commands created, in the order of their creation. Teardown of a
  complete network deletes exactly what a complete creation makes.\<close>

theorem rollback_undoes_creation:
  "(\<forall>f h'. system_create run net owner h = (Inl f, h') \<longrightarrow>
      (\<exists>k n1. k < length (create_plan net)
        \<and> create_steps run 0 StageOwnerMarker (take k (create_plan net)) (net_state h) = (Inr (), n1)
        \<and> run_command run (create_plan net ! k) n1 = (Inl (cf_error f), net_state h') \<and> markers h' = markers h
        \<and> concat (map deleted_by (rollback_plan net (cf_stage f))) = concat (map created_by (take k (create_plan net)))))
   \<and> concat (map deleted_by (teardown_plan net)) = concat (map created_by (create_plan net))"
proof (intro conjI allI impI)
  fix f h'
  assume "system_create run net owner h = (Inl f, h')"
  then obtain n' where c: "create_steps run 0 (stage_after 0) (create_plan net) (net_state h) = (Inl f, n')" "h' = h\<lparr>net_state := n'\<rparr>"
    by (auto simp: system_create_def on_net_def stage_after_def split: prod.splits)
  show "\<exists>k n1. k < length (create_plan net)
        \<and> create_steps run 0 StageOwnerMarker (take k (create_plan net)) (net_state h) = (Inr (), n1)
        \<and> run_command run (create_plan net ! k) n1 = (Inl (cf_error f), net_state h') \<and> markers h' = markers h
        \<and> concat (map deleted_by (rollback_plan net (cf_stage f))) = concat (map created_by (take k (create_plan net)))"
    using create_steps_failed[OF c(1)] rollback_mirrors[of net] c(2) by (fastforce simp: stage_after_def)
next
  show "concat (map deleted_by (teardown_plan net)) = concat (map created_by (create_plan net))"
    unfolding create_plan_resources by (simp add: teardown_plan_def deleted_by_def source_binding_command_def)
qed

definition demo_clone :: clone_net where "demo_clone = projr (clone_net_derive 1)"

text \<open>A host on which only the namespace can be created.\<close>

definition demo_run :: "unit runner" where
  "demo_run c n = (Inr \<lparr>out_success = (take 2 (cmd_args c) = [''netns'', ''add'']), out_stdout = [], out_stderr = ''no''\<rparr>, n)"

definition demo_clone_host :: "unit clone_host" where
  "demo_clone_host = \<lparr>markers = Map.empty, net_state = ()\<rparr>"

theorem rollback_undoes_creation_witness:
  "\<exists>f h'. system_create demo_run demo_clone demo_owner demo_clone_host = (Inl f, h') \<and> cf_stage f = StageNamespace
     \<and> (\<exists>k. concat (map deleted_by (rollback_plan demo_clone (cf_stage f))) = concat (map created_by (take k (create_plan demo_clone))))"
proof -
  have "\<exists>f h'. system_create demo_run demo_clone demo_owner demo_clone_host = (Inl f, h') \<and> cf_stage f = StageNamespace"
    by (simp add: system_create_def on_net_def create_plan_def host_create_plan_def run_command_def demo_run_def next_stage_def Let_def)
  then obtain f h' where f: "system_create demo_run demo_clone demo_owner demo_clone_host = (Inl f, h')" "cf_stage f = StageNamespace" by blast
  then show ?thesis
    using rollback_undoes_creation[of demo_run demo_clone demo_owner demo_clone_host] by blast
qed

subsection \<open>Allocation\<close>

lemma release_own_claim:
  assumes "release_claim env i o' w = (r, w')" and "valid_index CLONENET_POOL i"
    and c: "files w (claim_key CLONENET_POOL i) = Some c" "first_line c = Some o'"
  shows "files w' = (files w)(claim_key CLONENET_POOL i := None) \<or> files w' = files w \<and> \<not> no_faults env"
proof -
  obtain fr where fr: "free_with env CLONENET_POOL i o' (\<lambda>h. (Inr (), h)) w = (fr, w')"
    using assms(1,2) by (auto simp: release_claim_def indexed_free_def map_err_def split: prod.splits sum.splits)
  have nf: "no_faults env \<Longrightarrow> fr = Inr Removed"
    using fr c by (auto simp: free_with_def lock_frees_def check_fault_def no_faults_def read_to_string_def remove_file_def)
  show ?thesis using free_with_result[OF fr] nf c
    by (cases fr) (auto split: release_error.splits free_outcome.splits)
qed

lemma claim_host_identity_result:
  assumes "claim_host_identity env request ops w = (r, w')"
  shows "(case r of
      Inr net \<Rightarrow> \<exists>i. clone_net_derive i = Inr net \<and> is_id_shaped (cr_owner_id request) \<and> files w (claim_key CLONENET_POOL i) = None
        \<and> files w' = (files w)(claim_key CLONENET_POOL i \<mapsto> claim_text (cr_owner_id request) (cr_me request))
    | Inl e \<Rightarrow> files w' = files w \<or> residue_at env CLONENETS_DIR (cr_owner_id request) (cr_me request) w w')"
proof -
  let ?spec = "\<lparr>cs_pool = CLONENET_POOL, cs_owner_id = cr_owner_id request, cs_me = cr_me request,
                  cs_cap = cr_cap request, cs_target = cr_target request\<rparr>"
  obtain o' where o: "claim_with env CnIo ?spec (\<lambda>index. op_claim_global ops index (cr_owner_id request)) w = (o', w')"
    using assms by (auto simp: claim_host_identity_def Let_def and_then_def split: prod.splits sum.splits)
  show ?thesis
  proof (cases o')
    case (Inl e)
    then have "r = Inl e" using assms o by (auto simp: claim_host_identity_def Let_def and_then_def)
    then show ?thesis using claim_with_failed[OF o[unfolded Inl]] by (auto simp: CLONENET_POOL_def)
  next
    case (Inr out)
    then have r: "r = map_claim out" using assms o by (auto simp: claim_host_identity_def Let_def and_then_def)
    show ?thesis
    proof (cases "\<exists>i. out = Claimed i")
      case True
      then obtain i where i: "out = Claimed i" by blast
      have cl: "valid_index CLONENET_POOL i" using claim_with_claimed[OF o[unfolded Inr i]] by simp
      then obtain net where "clone_net_derive i = Inr net" by (simp add: clone_net_derive_def Let_def)
      then show ?thesis using r i claim_with_claimed[OF o[unfolded Inr i]] by (auto simp: map_claim_def)
    next
      case False
      then have "files w' = files w" using claim_with_refused[OF o[unfolded Inr]] by blast
      moreover have "\<exists>e. r = Inl e" using False r by (cases out) (auto simp: map_claim_def)
      ultimately show ?thesis by auto
    qed
  qed
qed

lemma residue_at_claim:
  "residue_at env CLONENETS_DIR o' me w w' \<Longrightarrow> \<exists>i n. files w (claim_key CLONENET_POOL i) = None
     \<and> files w' = (files w)(claim_key CLONENET_POOL i \<mapsto> take n (claim_text o' me)) \<and> \<not> no_faults env"
  unfolding residue_at_def by (auto simp: CLONENET_POOL_def no_faults_def)

lemma free_with_host:
  assumes "free_with env p i o' cleanup w = (r, w')"
  shows "host w' = host w \<or> host w' = snd (cleanup (host w))"
  using assms
  by (auto simp: free_with_def read_to_string_def remove_file_def split: sum.splits option.splits if_splits prod.splits io_error.splits)

lemma rollback_failed_create_exact:
  assumes "rollback_failed_create io_text env o' net ops f w = (r, w')" and d: "clone_net_derive i = Inr net"
    and c: "fs (claim_key CLONENET_POOL i) = Some c" "first_line c = Some o'" and fs: "files w = fs"
  shows "\<exists>e rb. r = Inl e \<and> op_rollback ops net o' (cf_stage f) (host w) = (rb, host w')
    \<and> (case rb of
         Inl x \<Rightarrow> files w' = fs \<and> e = CnRollback (clone_net_error_text io_text (cf_error f)) (clone_net_error_text io_text x)
       | Inr _ \<Rightarrow> if no_faults env then files w' = fs(claim_key CLONENET_POOL i := None) \<and> e = cf_error f
           else files w' \<in> {fs(claim_key CLONENET_POOL i := None), fs})"
proof (cases "op_rollback ops net o' (cf_stage f) (host w)")
  case (Pair rb h)
  have v: "valid_index CLONENET_POOL i" and ix: "cn_index net = i"
    using d by (auto simp: derive_Inr valid_clone_index)
  show ?thesis
  proof (cases rb)
    case (Inl e)
    then show ?thesis using assms(1) fs Pair by (auto simp: rollback_failed_create_def)
  next
    case (Inr u)
    obtain q w1 where q: "release_claim env i o' (w\<lparr>host := h\<rparr>) = (q, w1)" by fastforce
    obtain fr where fr: "free_with env CLONENET_POOL i o' (\<lambda>h. (Inr (), h)) (w\<lparr>host := h\<rparr>) = (fr, w1)"
      using q v by (auto simp: release_claim_def indexed_free_def map_err_def split: prod.splits sum.splits)
    have hw: "host w1 = h" using free_with_host[OF fr] by simp
    have nf: "q = Inr Removed" if "no_faults env"
      using q v c fs that by (auto simp: release_claim_def indexed_free_def map_err_def free_with_def lock_frees_def check_fault_def no_faults_def read_to_string_def remove_file_def)
    have "files w1 = (files w)(claim_key CLONENET_POOL i := None) \<or> files w1 = files w \<and> \<not> no_faults env"
      using release_own_claim[OF q v] c fs by simp
    moreover have "w' = w1" "\<exists>e. r = Inl e" "q = Inr Removed \<Longrightarrow> r = Inl (cf_error f)"
      using assms(1) fs Pair Inr q ix by (auto simp: rollback_failed_create_def and_then_def split: sum.splits)
    ultimately show ?thesis using Pair Inr hw nf fs by auto
  qed
qed

text \<open>C15. What an allocation can leave behind, with every outcome exact. A success holds a fresh index, with exactly
  the owner's claim text in its claim file and its resources created. A failure happened at one of three points. The
  preflight failed: no file changed. The claim was refused or failed: no file changed, unless an input/output fault
  left a prefix of the claim text. The creation of the claimed network failed with \<open>f\<close>: then the rollback of
  exactly that network from the stage \<open>f\<close> reached was run, last of all; when the rollback failed the whole claim
  is kept and the error reports both failures; when it succeeded the claim file is released and the error is the one of
  the creation (only an input/output fault in that release can leave the claim in place).\<close>

theorem allocation_outcome:
  assumes "allocate_with io_text env request ops w = (r, w')"
  shows "case r of
      Inr net \<Rightarrow> \<exists>i. clone_net_derive i = Inr net \<and> files w (claim_key CLONENET_POOL i) = None
        \<and> files w' = (files w)(claim_key CLONENET_POOL i \<mapsto> claim_text (cr_owner_id request) (cr_me request))
        \<and> (\<exists>h. op_create ops net (cr_owner_id request) h = (Inr (), host w'))
    | Inl e \<Rightarrow>
        op_preflight ops (host w) = (Inl e, host w') \<and> files w' = files w
      \<or> (\<exists>h0. op_preflight ops (host w) = (Inr (), h0) \<and> claim_host_identity env request ops (w\<lparr>host := h0\<rparr>) = (Inl e, w')
          \<and> (files w' = files w \<or> \<not> no_faults env \<and> (\<exists>i n. files w (claim_key CLONENET_POOL i) = None
                 \<and> files w' = (files w)(claim_key CLONENET_POOL i \<mapsto> take n (claim_text (cr_owner_id request) (cr_me request))))))
      \<or> (\<exists>i net h1 f h2 rb. clone_net_derive i = Inr net \<and> files w (claim_key CLONENET_POOL i) = None
          \<and> op_create ops net (cr_owner_id request) h1 = (Inl f, h2)
          \<and> op_rollback ops net (cr_owner_id request) (cf_stage f) h2 = (rb, host w')
          \<and> (case rb of
               Inl x \<Rightarrow> files w' = (files w)(claim_key CLONENET_POOL i \<mapsto> claim_text (cr_owner_id request) (cr_me request))
                 \<and> e = CnRollback (clone_net_error_text io_text (cf_error f)) (clone_net_error_text io_text x)
             | Inr _ \<Rightarrow> if no_faults env then files w' = files w \<and> e = cf_error f
                 else files w' \<in> {files w, (files w)(claim_key CLONENET_POOL i \<mapsto> claim_text (cr_owner_id request) (cr_me request))}))"
proof -
  let ?o = "cr_owner_id request" and ?me = "cr_me request"
  obtain p h0 where pre: "op_preflight ops (host w) = (p, h0)" by fastforce
  obtain q w1 where q: "claim_host_identity env request ops (w\<lparr>host := h0\<rparr>) = (q, w1)" by fastforce
  note claimed = claim_host_identity_result[OF q]
  show ?thesis
  proof (cases p)
    case (Inl e)
    then show ?thesis using assms(1) pre by (auto simp: allocate_with_def)
  next
    case p: (Inr u)
    show ?thesis
    proof (cases q)
      case (Inl e)
      then have "r = Inl e" "w' = w1" using assms(1) pre p q by (auto simp: allocate_with_def and_then_def)
      then show ?thesis using claimed Inl residue_at_claim[of env ?o ?me "w\<lparr>host := h0\<rparr>" w1] pre p q by auto
    next
      case (Inr net)
      then obtain i where i: "clone_net_derive i = Inr net" "is_id_shaped ?o" "files w (claim_key CLONENET_POOL i) = None"
          "files w1 = (files w)(claim_key CLONENET_POOL i \<mapsto> claim_text ?o ?me)" using claimed by auto
      obtain cr h where cr: "op_create ops net ?o (host w1) = (cr, h)" by fastforce
      show ?thesis
      proof (cases cr)
        case (Inr u)
        then have "r = Inr net" "w' = w1\<lparr>host := h\<rparr>"
          using assms(1) pre p q \<open>q = Inr net\<close> cr by (auto simp: allocate_with_def and_then_def)
        then show ?thesis using i cr Inr by auto
      next
        case (Inl f)
        then have rb: "rollback_failed_create io_text env ?o net ops f (w1\<lparr>host := h\<rparr>) = (r, w')"
          using assms(1) pre p q \<open>q = Inr net\<close> cr by (auto simp: allocate_with_def and_then_def)
        have restored: "(files w1)(claim_key CLONENET_POOL i := None) = files w"
          and own: "files w1 (claim_key CLONENET_POOL i) = Some (claim_text ?o ?me)" using i(3,4) by (simp_all add: fun_upd_idem)
        obtain e rb where e: "r = Inl e" "op_rollback ops net ?o (cf_stage f) h = (rb, host w')"
          "case rb of
             Inl x \<Rightarrow> files w' = files w1 \<and> e = CnRollback (clone_net_error_text io_text (cf_error f)) (clone_net_error_text io_text x)
           | Inr _ \<Rightarrow> if no_faults env then files w' = files w \<and> e = cf_error f else files w' \<in> {files w, files w1}"
          using rollback_failed_create_exact[where fs = "files w1", OF rb i(1) own first_line_claim_text[OF i(2)], unfolded restored] by auto
        then show ?thesis using i(1,3,4) cr Inl by (simp only: sum.case) blast
      qed
    qed
  qed
qed

definition demo_ops :: "unit network_ops" where
  "demo_ops = \<lparr>op_preflight = (\<lambda>h. (Inr (), h)), op_claim_global = (\<lambda>_ _ h. (Inr Accept, h)),
     op_create = (\<lambda>_ _ h. (Inl \<lparr>cf_error = CnPolicyRouting ''rule'', cf_stage = StageNamespace\<rparr>, h)),
     op_rollback = (\<lambda>_ _ _ h. (Inl (CnPolicyRouting ''busy''), h)), op_teardown = (\<lambda>_ _ h. (Inr RemoveClaim, h))\<rparr>"

definition demo_claim_request :: claim_request where
  "demo_claim_request = \<lparr>cr_owner_id = demo_owner, cr_me = demo_me, cr_cap = 3, cr_target = None\<rparr>"

theorem allocation_outcome_witness:
  "\<exists>w' i. allocate_with (\<lambda>_. []) demo_env demo_claim_request demo_ops demo_world
       = (Inl (CnRollback (clone_net_error_text (\<lambda>_. []) (CnPolicyRouting ''rule'')) (clone_net_error_text (\<lambda>_. []) (CnPolicyRouting ''busy''))), w')
     \<and> files demo_world (claim_key CLONENET_POOL i) = None
     \<and> files w' = (files demo_world)(claim_key CLONENET_POOL i \<mapsto> claim_text demo_owner demo_me)"
proof -
  obtain r w' where a: "allocate_with (\<lambda>_. []) demo_env demo_claim_request demo_ops demo_world = (r, w')" by fastforce
  have "\<exists>setup rollback. fst (allocate_with (\<lambda>_. []) demo_env demo_claim_request demo_ops demo_world) = Inl (CnRollback setup rollback)"
       "\<exists>w1 net. claim_host_identity demo_env demo_claim_request demo_ops demo_world = (Inr net, w1)"
  proof -
    have u: "upto_cap 3 = [1, 2, 3]" by (simp add: upto_cap_def upt_rec)
    show "\<exists>w1 net. claim_host_identity demo_env demo_claim_request demo_ops demo_world = (Inr net, w1)"
      "\<exists>setup rollback. fst (allocate_with (\<lambda>_. []) demo_env demo_claim_request demo_ops demo_world) = Inl (CnRollback setup rollback)"
      by (simp_all add: allocate_with_def demo_ops_def demo_claim_request_def claim_host_identity_def claim_with_def Let_def
          CLONENET_POOL_def MAX_CLONENET_def CLONENETS_DIR_def u create_dir_all_def lock_frees_def attempt_claim_def map_err_def
          try_claim_def create_new_file_def demo_world_def write_all_def select_claim_def fun_upd_idem and_then_def
          map_claim_def clone_net_derive_def valid_index_def rollback_failed_create_def)
  qed
  moreover have "claim_host_identity demo_env demo_claim_request demo_ops (demo_world\<lparr>host := h\<rparr>) =
      claim_host_identity demo_env demo_claim_request demo_ops demo_world" for h by (simp add: demo_world_def)
  moreover have "op_preflight demo_ops h = (Inr (), h)" "op_rollback demo_ops net owner stage h = (Inl (CnPolicyRouting ''busy''), h)"
      "op_create demo_ops net owner h = (Inl \<lparr>cf_error = CnPolicyRouting ''rule'', cf_stage = StageNamespace\<rparr>, h)" for net owner stage h
    by (simp_all add: demo_ops_def)
  ultimately obtain s rb i where "r = Inl (CnRollback s rb)" "files demo_world (claim_key CLONENET_POOL i) = None"
      "files w' = (files demo_world)(claim_key CLONENET_POOL i \<mapsto> claim_text demo_owner demo_me)"
      "CnRollback s rb = CnRollback (clone_net_error_text (\<lambda>_. []) (CnPolicyRouting ''rule'')) (clone_net_error_text (\<lambda>_. []) (CnPolicyRouting ''busy''))"
    using a allocation_outcome[OF a] by (auto simp: demo_claim_request_def simp del: clone_net_error_text.simps)
  then show ?thesis using a by (simp del: clone_net_error_text.simps) blast
qed

subsection \<open>What the routing preflight admits\<close>

lemma cidr_mask_alt: "p \<le> 32 \<Longrightarrow> cidr_mask p = not (mask (32 - unat p))"
  by (rule bit_word_eqI) (auto simp: cidr_mask_def bit_simps word_le_nat_alt)

lemma unat_network:
  fixes x :: u32
  shows "unat (and x (not (mask k))) = unat x - unat x mod 2 ^ k"
proof -
  have "and x (not (mask k)) + take_bit k x = or (and x (not (mask k))) (take_bit k x)"
    by (rule disjunctive_add_eq_or) (rule bit_word_eqI, simp add: bit_simps)
  also have "\<dots> = x" by (rule bit_word_eqI) (auto simp: bit_simps)
  finally have "and x (not (mask k)) = x - take_bit k x" by (metis add_diff_cancel_right')
  moreover have t: "unat (take_bit k x) = unat x mod 2 ^ k" by (subst unsigned_take_bit_eq) (simp add: take_bit_eq_mod)
  moreover have "take_bit k x \<le> x" using t by (simp add: word_le_nat_alt)
  ultimately show ?thesis by (simp add: unat_sub)
qed

lemma unsigned_mask_u32: "k \<le> 32 \<Longrightarrow> unat (mask k :: u32) = 2 ^ k - 1"
  using unsigned_of_nat[of "mask k :: nat", where ?'b = 32 and ?'a = nat]
  by (simp add: of_nat_mask_eq min_def) (simp add: mask_eq_exp_minus_1)

lemma unat_network_end:
  fixes x :: u32
  assumes "k \<le> 32"
  shows "unat (or (and x (not (mask k))) (mask k)) = unat x - unat x mod 2 ^ k + (2 ^ k - 1)"
proof -
  let ?n = "and x (not (mask k))"
  have "?n + mask k = or ?n (mask k)"
    by (rule disjunctive_add_eq_or) (rule bit_word_eqI, simp add: bit_simps)
  moreover have m: "unat (mask k :: u32) = 2 ^ k - 1"
    using assms by (simp add: unsigned_mask_u32)
  moreover have "unat ?n + unat (mask k :: u32) < 2 ^ LENGTH(32)"
  proof -
    have "unat x div 2 ^ k < 2 ^ (32 - k)"
      using assms unsigned_less[of x, where ?'a = nat] by (simp add: less_mult_imp_div_less flip: power_add)
    then have "(unat x div 2 ^ k + 1) * 2 ^ k \<le> 2 ^ (32 - k) * 2 ^ k" by (intro mult_right_mono) auto
    then have "unat x div 2 ^ k * 2 ^ k + 2 ^ k \<le> 2 ^ 32" using assms by (simp add: algebra_simps flip: power_add)
    moreover have "unat ?n = unat x div 2 ^ k * 2 ^ k" by (simp add: unat_network minus_mod_eq_div_mult)
    moreover have "(0::nat) < 2 ^ k" by simp
    ultimately show ?thesis unfolding m by simp
  qed
  ultimately show ?thesis by (metis unat_add_lem unat_network)
qed

text \<open>The addresses a route covers.\<close>

definition route_covers :: "route_cidr \<Rightarrow> ipv4 \<Rightarrow> bool" where
  "route_covers cidr ip \<longleftrightarrow> and (ipv4_to_u32 ip) (cidr_mask (rc_prefix cidr)) = rc_network cidr"

lemma same_block_iff:
  "(a - a mod m = b - b mod m) = (b - b mod m \<le> a \<and> a \<le> b - b mod m + (m - 1))" if "0 < (m::nat)"
proof
  assume e: "a - a mod m = b - b mod m"
  have "a mod m \<le> a" "a mod m < m" using that by auto
  then show "b - b mod m \<le> a \<and> a \<le> b - b mod m + (m - 1)" using e by linarith
next
  assume a: "b - b mod m \<le> a \<and> a \<le> b - b mod m + (m - 1)"
  let ?q = "b div m"
  have "?q * m \<le> a" "a < (?q + 1) * m" using a that by (auto simp: minus_mod_eq_div_mult)
  then have "a div m = ?q" by (metis Suc_eq_plus1 div_nat_eqI mult.commute)
  then show "a - a mod m = b - b mod m" by (simp add: minus_mod_eq_div_mult)
qed

lemma intervals_meet:
  "(n :: nat) \<le> 0xAC1100FF \<and> 0xAC110000 \<le> n + j \<longleftrightarrow> (\<exists>d < 256. n \<le> 0xAC110000 + d \<and> 0xAC110000 + d \<le> n + j)"
  (is "?l \<longleftrightarrow> ?r")
proof
  assume ?l
  then show ?r by (intro exI[of _ "max n 0xAC110000 - 0xAC110000"]) (auto simp: max_def)
qed auto

lemma ex_u8: "(\<exists>d < 256. P d) \<longleftrightarrow> (\<exists>d :: u8. P (unat d))"
proof
  assume "\<exists>d < 256. P d"
  then obtain d where "d < 256" "P d" by blast
  moreover have "unat (of_nat d :: u8) = d" using \<open>d < 256\<close> by (simp add: unsigned_of_nat take_bit_eq_mod)
  ultimately show "\<exists>d :: u8. P (unat d)" by metis
next
  assume "\<exists>d :: u8. P (unat d)"
  then obtain d :: u8 where "P (unat d)" by blast
  moreover have "unat d < 256" using unsigned_less[of d, where ?'a = nat] by simp
  ultimately show "\<exists>d < 256. P d" by blast
qed

lemma overlaps_iff:
  assumes "route_cidr route = Some cidr"
  shows "overlaps_clone_supernet (rc_network cidr) (rc_prefix cidr) \<longleftrightarrow> (\<exists>d. route_covers cidr (172, 17, 0, d))"
proof -
  obtain b where p: "rc_prefix cidr \<le> 32" and n: "rc_network cidr = and b (cidr_mask (rc_prefix cidr))"
    using assms by (auto simp: route_cidr_def cidr_mask_def not_less split: option.splits if_splits prod.splits)
  let ?k = "32 - unat (rc_prefix cidr)" and ?m = "2 ^ (32 - unat (rc_prefix cidr)) :: nat"
  let ?n = "unat b - unat b mod ?m"
  have n': "unat (rc_network cidr) = ?n" "unat (or (rc_network cidr) (not (cidr_mask (rc_prefix cidr)))) = ?n + (?m - 1)"
    by (simp_all add: n cidr_mask_alt[OF p] unat_network unat_network_end)
  have cov: "route_covers cidr (172, 17, 0, d) \<longleftrightarrow> ?n \<le> 0xAC110000 + unat d \<and> 0xAC110000 + unat d \<le> ?n + (?m - 1)" for d
  proof -
    have "route_covers cidr (172, 17, 0, d) \<longleftrightarrow> unat (and (ipv4_to_u32 (172, 17, 0, d)) (not (mask ?k))) = ?n"
      by (simp add: route_covers_def word_unat_eq_iff n' cidr_mask_alt[OF p])
    then show ?thesis by (simp add: unat_network clone_u32 same_block_iff)
  qed
  have "overlaps_clone_supernet (rc_network cidr) (rc_prefix cidr) \<longleftrightarrow> ?n \<le> 0xAC1100FF \<and> 0xAC110000 \<le> ?n + (?m - 1)"
    by (simp add: overlaps_clone_supernet_def Let_def word_le_nat_alt n' clone_u32)
  also have "\<dots> \<longleftrightarrow> (\<exists>d::nat. d < 256 \<and> ?n \<le> 0xAC110000 + d \<and> 0xAC110000 + d \<le> ?n + (?m - 1))"
    by (rule intervals_meet)
  also have "\<dots> \<longleftrightarrow> (\<exists>d. route_covers cidr (172, 17, 0, d))"
    unfolding cov by (rule ex_u8)
  finally show ?thesis .
qed

lemma count_rules_Inr:
  "count_rules seen rs = Inr seen' \<longleftrightarrow> (\<forall>r \<in> set rs. \<exists>i < length seen. default_policy_rule_index r = Some i)
     \<and> seen' = map (\<lambda>i. seen ! i + count_list (map default_policy_rule_index rs) (Some i)) [0..<length seen]"
proof (induction seen rs rule: count_rules.induct)
  case (1 seen)
  then show ?case by (auto intro: nth_equalityI)
next
  case (2 seen r rs)
  show ?case
  proof (cases "default_policy_rule_index r")
    case None
    then show ?thesis by simp
  next
    case (Some j)
    show ?thesis
    proof (cases "j < length seen")
      case True
      then show ?thesis using 2[OF Some True] Some
        by (auto simp: nth_list_update intro!: nth_equalityI)
    qed (use Some in auto)
  qed
qed

definition policy_tokens :: "string list list" where "policy_tokens = map split_whitespace DEFAULT_POLICY_RULES"

lemma policy_tokens: "distinct policy_tokens" "length policy_tokens = 3"
  by (simp_all add: policy_tokens_def DEFAULT_POLICY_RULES_def split_whitespace.simps is_whitespace_def)

lemma default_policy_rule_index_iff:
  "default_policy_rule_index r = Some i \<longleftrightarrow> i < 3 \<and> split_whitespace r = policy_tokens ! i"
proof -
  have l: "length DEFAULT_POLICY_RULES = 3" by (simp add: DEFAULT_POLICY_RULES_def)
  then have n: "i < 3 \<Longrightarrow> split_whitespace (DEFAULT_POLICY_RULES ! i) = policy_tokens ! i" for i
    by (simp add: policy_tokens_def)
  show ?thesis unfolding default_policy_rule_index_def find_position_Some_iff l
    using n policy_tokens by (auto simp: nth_eq_iff_index_eq)
qed

lemma mset_eq_distinct_iff:
  assumes "distinct ts"
  shows "mset xs = mset ts \<longleftrightarrow> set xs \<subseteq> set ts \<and> (\<forall>i < length ts. count_list xs (ts ! i) = 1)"
proof -
  have c: "count (mset ts) x = of_bool (x \<in> set ts)" for x
    using assms by (simp add: distinct_count_atmost_1)
  show ?thesis (is "_ \<longleftrightarrow> ?r")
  proof
    assume "mset xs = mset ts"
    then show ?r using c by (metis count_mset mset_eq_setD nth_mem of_bool_eq(2) order_refl)
  next
    assume r: ?r
    show "mset xs = mset ts"
    proof (rule multiset_eqI)
      fix x
      show "count (mset xs) x = count (mset ts) x"
        using r by (cases "x \<in> set ts") (force simp: c in_set_conv_nth simp flip: count_mset,
            metis c count_mset_0_iff of_bool_eq(1) subsetD)
    qed
  qed
qed

lemma validate_policy_rules_iff:
  "validate_policy_rules rules = Inr () \<longleftrightarrow>
     mset (map split_whitespace (filter (\<lambda>l. l \<noteq> []) (map trim (lines rules)))) = mset policy_tokens"
proof -
  define rs where "rs = filter (\<lambda>l. l \<noteq> []) (map trim (lines rules))"
  have d: "length DEFAULT_POLICY_RULES = 3" by (simp add: DEFAULT_POLICY_RULES_def)
  have c: "count_list (map default_policy_rule_index rs) (Some i) = count_list (map split_whitespace rs) (policy_tokens ! i)"
    if "i < 3" for i using that by (induction rs) (auto simp: default_policy_rule_index_iff)
  have "validate_policy_rules rules = Inr () \<longleftrightarrow>
      (\<exists>seen. count_rules (replicate 3 0) rs = Inr seen \<and> (\<forall>p \<in> set (zip seen DEFAULT_POLICY_RULES). fst p = 1))"
  proof (cases "count_rules (replicate 3 0) rs")
    case (Inr seen)
    then have "validate_policy_rules rules = Inr () \<longleftrightarrow> find (\<lambda>(found, _). found \<noteq> 1) (zip seen DEFAULT_POLICY_RULES) = None"
      by (auto simp: validate_policy_rules_def rs_def[symmetric] d split: option.splits)
    then show ?thesis by (auto simp: Inr find_None_iff)
  qed (simp add: validate_policy_rules_def rs_def[symmetric] d)
  also have "\<dots> \<longleftrightarrow> (\<forall>r \<in> set rs. \<exists>i < 3. default_policy_rule_index r = Some i)
      \<and> (\<forall>i < 3. count_list (map default_policy_rule_index rs) (Some i) = 1)"
    by (auto simp: count_rules_Inr set_zip d)
  also have "\<dots> \<longleftrightarrow> set (map split_whitespace rs) \<subseteq> set policy_tokens
      \<and> (\<forall>i < length policy_tokens. count_list (map split_whitespace rs) (policy_tokens ! i) = 1)"
  proof -
    have "(\<exists>i < 3. default_policy_rule_index r = Some i) \<longleftrightarrow> split_whitespace r \<in> set policy_tokens" for r
      by (auto simp: default_policy_rule_index_iff in_set_conv_nth policy_tokens(2))
    then show ?thesis using c by (simp add: policy_tokens(2) image_subset_iff)
  qed
  also have "\<dots> \<longleftrightarrow> mset (map split_whitespace rs) = mset policy_tokens"
    by (rule mset_eq_distinct_iff[OF policy_tokens(1), symmetric])
  finally show ?thesis unfolding rs_def .
qed

text \<open>A route the preflight lets pass, given the owner markers of the host.\<close>

definition admitted_route :: "(string \<Rightarrow> string option) \<Rightarrow> string \<Rightarrow> bool" where
  "admitted_route ms route \<longleftrightarrow> (\<exists>cidr. route_cidr route = Some cidr \<and>
        ((\<forall>d. \<not> route_covers cidr (172, 17, 0, d)) \<or> rc_kind cidr = RkThrow \<and> in_local_table route
         \<or> rc_prefix cidr \<le> 1 \<and> \<not> in_local_table route
         \<or> (\<exists>i. rooms_route_index route cidr = Some i \<and> ms (show_u8 i) \<noteq> None)))"

lemma classify_admitted:
  "classify_route route = RouteDisjoint \<Longrightarrow> admitted_route ms route"
  "classify_route route = RouteRooms i \<Longrightarrow> ms (show_u8 i) \<noteq> None \<Longrightarrow> admitted_route ms route"
  unfolding classify_route_def admitted_route_def
  by (auto simp: overlaps_iff split: option.splits if_splits)

lemma check_routes_admitted:
  "check_routes env rs h = Inr () \<Longrightarrow> \<forall>route \<in> set rs. admitted_route (markers h) route"
proof (induction rs)
  case (Cons route rs)
  then show ?case
    using classify_admitted[where route = route and ms = "markers h"]
    by (auto simp: marker_owner_def split: route_class.splits sum.splits option.splits if_splits)
qed simp

text \<open>The routing preflight admits a host only when its policy rules are exactly the three defaults, each once and in
  any order, and every route the kernel lists parses and is harmless: it covers no address of the clone
  supernet, or is a throw of the local table, or a catch-all outside the local table, or has the exact shape of a Rooms clone
  network whose host-global owner marker exists.\<close>

theorem preflight_admission:
  assumes "check_clone_subnet_available env run h = (Inr (), h')"
  shows "\<exists>rules routes n. run (ip_cmd [''-4'', ''rule'', ''show'']) (net_state h) = (Inr rules, n)
    \<and> run (ip_cmd [''-4'', ''route'', ''show'', ''table'', ''all'']) n = (Inr routes, net_state h') \<and> markers h' = markers h
    \<and> mset (map split_whitespace (filter (\<lambda>l. l \<noteq> []) (map trim (lines (out_stdout rules))))) = mset policy_tokens
    \<and> (\<forall>route \<in> set (top_level_routes (out_stdout routes)). admitted_route (markers h) route)"
  using assms validate_policy_rules_iff check_routes_admitted
  by (fastforce simp: check_clone_subnet_available_def check_default_policy_rules_def and_then_def on_net_def Let_def
      split: prod.splits sum.splits if_splits)

text \<open>A host with the default rules in another order and one default route.\<close>

definition demo_router :: "unit runner" where
  "demo_router c n = (Inr \<lparr>out_success = True,
     out_stdout = (if ''rule'' \<in> set (cmd_args c) then concat (map (\<lambda>l. l @ [newline]) (rev DEFAULT_POLICY_RULES))
                   else concat (map (\<lambda>l. l @ [newline]) [''default''])), out_stderr = []\<rparr>, n)"

theorem preflight_admission_witness:
  "check_clone_subnet_available demo_env demo_router demo_clone_host = (Inr (), demo_clone_host)
     \<and> admitted_route (markers demo_clone_host) ''default''"
proof -
  have l: "lines (concat (map (\<lambda>l. l @ [newline]) (rev DEFAULT_POLICY_RULES))) = rev DEFAULT_POLICY_RULES"
    "lines (concat (map (\<lambda>l. l @ [newline]) [''default''])) = [''default'']"
    by (rule lines_concat; simp add: DEFAULT_POLICY_RULES_def)+
  have "filter (\<lambda>l. l \<noteq> []) (map trim (rev DEFAULT_POLICY_RULES)) = rev DEFAULT_POLICY_RULES"
    by (simp add: DEFAULT_POLICY_RULES_def trim_def is_whitespace_def)
  then have v: "validate_policy_rules (concat (map (\<lambda>l. l @ [newline]) (rev DEFAULT_POLICY_RULES))) = Inr ()"
    unfolding validate_policy_rules_iff l policy_tokens_def by (simp add: rev_map[symmetric])
  have t: "top_level_routes (concat (map (\<lambda>l. l @ [newline]) [''default''])) = [''default'']"
    unfolding top_level_routes_def l by (simp add: List.map_filter_def trim_def is_whitespace_def is_ascii_whitespace_def Let_def)
  have w: "split_whitespace ''default'' = [''default'']" by (rule split_whitespace_single) (simp_all add: is_whitespace_def)
  have c: "classify_route ''default'' = RouteDisjoint"
    by (simp add: classify_route_def route_cidr_def route_destination_def w overlaps_clone_supernet_def cidr_mask_def
        in_local_table_def route_pair_def Let_def)
  have ok: "check_clone_subnet_available demo_env demo_router demo_clone_host = (Inr (), demo_clone_host)"
    unfolding check_clone_subnet_available_def check_default_policy_rules_def on_net_def and_then_def Let_def
    by (simp add: demo_router_def demo_clone_host_def v t c del: concat.simps list.map)
  show ?thesis using ok preflight_admission[OF ok]
    by (auto simp: demo_router_def demo_clone_host_def t simp del: concat.simps list.map)
qed

subsection \<open>Releasing a network\<close>

lemmas ownership_defs = system_teardown_def teardown_ownership_def marker_owner_def claim_owner_marker_def
  reserved_resources_exist_def release_owner_marker_def and_then_def on_net_def map_err_def check_fault_def

lemma teardown_foreign:
  assumes "system_teardown io_text env poisoned run net owner h = (r, h')"
    and "markers h (show_u8 (cn_index net)) = Some other" "other \<noteq> owner"
  shows "h' = h \<and> r \<noteq> Inr RemoveClaim"
  using assms by (auto simp: ownership_defs split: option.splits)

lemma release_owner_marker_result:
  assumes "release_owner_marker env i owner h = (r, h')"
  shows "net_state h' = net_state h \<and> (\<forall>j. j \<noteq> show_u8 i \<longrightarrow> markers h' j = markers h j)
    \<and> (r = Inr () \<and> markers h (show_u8 i) \<in> {None, Some owner} \<longrightarrow> markers h' (show_u8 i) = None)"
  using assms by (auto simp: release_owner_marker_def marker_owner_def check_fault_def split: option.splits if_splits)

lemma teardown_removed:
  assumes "system_teardown io_text env poisoned run net owner h = (Inr RemoveClaim, h')"
  shows "markers h' (show_u8 (cn_index net)) = None \<and>
    (markers h (show_u8 (cn_index net)) = Some owner \<or> markers h (show_u8 (cn_index net)) = None
       \<and> fst (resources_exist run net (net_state h)) = Inr False)"
  using assms
  by (auto simp: system_teardown_def teardown_ownership_def marker_owner_def claim_owner_marker_def reserved_resources_exist_def
      and_then_def on_net_def map_err_def check_fault_def split: option.splits prod.splits sum.splits if_splits
      dest!: release_owner_marker_result)

lemma teardown_other_markers:
  assumes "system_teardown io_text env poisoned run net owner h = (r, h')" and "j \<noteq> show_u8 (cn_index net)"
  shows "markers h' j = markers h j"
  using assms
  by (auto simp: system_teardown_def teardown_ownership_def marker_owner_def claim_owner_marker_def reserved_resources_exist_def
      and_then_def on_net_def map_err_def check_fault_def split: option.splits prod.splits sum.splits if_splits
      dest!: release_owner_marker_result)

subsection \<open>Which commands reach the network\<close>

text \<open>\<open>reached_by run C n m\<close>: the network \<open>m\<close> was reached from \<open>n\<close> by running commands of \<open>C\<close> only.\<close>

inductive reached_by :: "'n runner \<Rightarrow> command_spec set \<Rightarrow> 'n \<Rightarrow> 'n \<Rightarrow> bool" for run :: "'n runner" and C :: "command_spec set" where
  unmoved: "reached_by run C n n"
| moved: "reached_by run C n m \<Longrightarrow> c \<in> C \<Longrightarrow> reached_by run C n (snd (run c m))"

lemma reached_by_trans: "reached_by run C n m \<Longrightarrow> reached_by run C m k \<Longrightarrow> reached_by run C n k"
  by (rotate_tac, induction rule: reached_by.induct) (auto intro: reached_by.moved)

lemma reached_by_mono: "reached_by run C n m \<Longrightarrow> C \<subseteq> D \<Longrightarrow> reached_by run D n m"
  by (induction rule: reached_by.induct) (auto intro: reached_by.intros)

lemma reached_run: "c \<in> C \<Longrightarrow> reached_by run C n (snd (run c n))"
  using reached_by.moved[OF reached_by.unmoved] .

interpretation reached: step_frame "reached_by run C" for run :: "'n runner" and C
  by unfold_locales (fact reached_by.unmoved, fact reached_by_trans)

lemma reached_allow_absent: "c \<in> C \<Longrightarrow> reached_by run C n (snd (run_allow_absent run c n))"
  using reached_run[of c C run n] by (auto simp: run_allow_absent_def split: prod.splits sum.splits)

lemma reached_all_allow_absent: "set cs \<subseteq> C \<Longrightarrow> reached_by run C n (snd (run_all_allow_absent run cs n))"
  by (induction cs arbitrary: n) (auto intro: reached.refl intro!: reached.chain reached_allow_absent)

lemma reached_probe: "set cs \<subseteq> C \<Longrightarrow> reached_by run C n (snd (probe_resources run cs n))"
proof (induction cs arbitrary: n)
  case (Cons c cs)
  obtain a m where a: "run c n = (a, m)" by fastforce
  have "reached_by run C n m" using reached_run[of c C run n] Cons.prems a by simp
  then show ?case using Cons a by (auto split: sum.splits intro: reached.trans)
qed (simp add: reached.refl)

abbreviation iptables_spec :: "string list \<Rightarrow> command_spec" where
  "iptables_spec args \<equiv> \<lparr>cmd_program = ''iptables'', cmd_args = iptables_command_args args\<rparr>"

lemma reached_iptables:
  assumes "iptables_spec args \<in> C"
  shows "reached_by run C n (snd (run_iptables (runner_iptables io_text run) args n))"
    and "reached_by run C n (snd (iptables_exists (runner_iptables io_text run) args n))"
  using reached_run[OF assms, of run n]
  by (auto simp: run_iptables_def iptables_exists_def iptables_output_def runner_iptables_def split: prod.splits sum.splits)


declare reached_by.unmoved [simp]

text \<open>The same frame for computations that may not end.\<close>

definition ends_reached :: "'n runner \<Rightarrow> command_spec set \<Rightarrow> 'n \<Rightarrow> ('r \<times> 'n) option \<Rightarrow> bool" where
  "ends_reached run C n x \<longleftrightarrow> (\<forall>r m. x = Some (r, m) \<longrightarrow> reached_by run C n m)"

lemma ends_Some: "reached_by run C n (snd y) \<Longrightarrow> ends_reached run C n (Some y)"
  by (cases y) (auto simp: ends_reached_def)

lemma ends_then_run:
  assumes "ends_reached run C n x" and "\<And>a m. ends_reached run C m (f a m)"
  shows "ends_reached run C n (then_run x f)"
proof (cases x)
  case (Some p)
  then obtain r m where p: "x = Some (r, m)" by (cases p) auto
  then have "reached_by run C n m" using assms(1) by (simp add: ends_reached_def)
  then show ?thesis using p assms(2) by (cases r) (auto simp: then_run_def ends_reached_def intro: reached.trans)
qed (simp add: then_run_def ends_reached_def)

lemma ends_delete_while:
  assumes chk: "iptables_spec chk \<in> C" and del: "iptables_spec del \<in> C"
  shows "ends_reached run C n (delete_while (runner_iptables io_text run) chk del n)"
proof -
  let ?ipt = "runner_iptables io_text run"
  have "reached_by run C n (snd y)" if "delete_while ?ipt chk del n = Some y" for y
  proof -
    have "ipt = ?ipt \<and> c = chk \<and> d = del \<longrightarrow> reached_by run C n (snd y)" if "delete_while ipt c d n = Some y" for ipt c d
      using that
    proof (rule delete_while.raw_induct[rotated], goal_cases)
      case (1 f ipt c d n y)
      obtain a m where a: "iptables_exists ipt c n = (a, m)" by fastforce
      obtain b k where b: "run_iptables ipt d m = (b, k)" by fastforce
      show ?case
      proof (intro impI, elim conjE)
        assume e: "ipt = ?ipt" "c = chk" "d = del"
        have m: "reached_by run C n m" "reached_by run C m k"
          using reached_iptables(2)[OF chk, of run n io_text] reached_iptables(1)[OF del, of run m io_text] a b e by simp_all
        consider (again) u where "a = Inr True" "b = Inr u" "f ipt c d k = Some y" | (stop) "snd y = m \<or> snd y = k"
          using 1(2) a b by (cases a; cases b) (auto split: if_splits, metis snd_conv)
        then show "reached_by run C n (snd y)"
          using m 1(1) e reached.trans[of run C] by cases metis+
      qed
    qed
    then show ?thesis using that by blast
  qed
  then show ?thesis by (auto simp: ends_reached_def)
qed

text \<open>The commands of \<open>remove_clone_checked\<close> for one veth, and of a whole release: the probes of the reserved case, the egress
  rules of the host veth, the teardown plan.\<close>

definition clone_egress_commands :: "string \<Rightarrow> command_spec list" where
  "clone_egress_commands veth = map iptables_spec
     ([input_drop_rule ''-C'' veth, input_drop_rule ''-D'' veth]
      @ (case clone_chain_for_veth veth of
           None \<Rightarrow> []
         | Some chain \<Rightarrow> [[''-S'', chain], [''-C'', VETH_FWD_CHAIN, ''-i'', veth, ''-j'', chain],
             [''-D'', VETH_FWD_CHAIN, ''-i'', veth, ''-j'', chain], [''-F'', chain], [''-X'', chain]]))"

definition release_commands :: "clone_net \<Rightarrow> command_spec list" where
  "release_commands net =
     [ip_cmd [''netns'', ''exec'', cn_netns net, ''true''], ip_cmd [''link'', ''show'', cn_veth_host net],
      ip_cmd [''link'', ''show'', cn_veth_guest net]]
     @ clone_egress_commands (cn_veth_host net) @ teardown_plan net"

definition net_names :: "clone_net \<Rightarrow> string list" where
  "net_names net = [cn_netns net, cn_veth_host net, cn_veth_guest net, clone_egress_chain (cn_index net)]"

lemma reached_clone_egress:
  assumes "set (clone_egress_commands veth) \<subseteq> C"
  shows "reached_by run C n (snd (remove_clone_egress io_text poisoned run veth n))"
proof -
  let ?ipt = "runner_iptables io_text run"
  have "ends_reached run C n (remove_clone_checked_locked ?ipt veth n)"
  proof (cases "clone_chain_for_veth veth")
    case (Some chain)
    then have C: "iptables_spec (input_drop_rule ''-C'' veth) \<in> C" "iptables_spec (input_drop_rule ''-D'' veth) \<in> C" "iptables_spec [''-S'', chain] \<in> C"
      "iptables_spec [''-C'', VETH_FWD_CHAIN, ''-i'', veth, ''-j'', chain] \<in> C" "iptables_spec [''-D'', VETH_FWD_CHAIN, ''-i'', veth, ''-j'', chain] \<in> C"
      "iptables_spec [''-F'', chain] \<in> C" "iptables_spec [''-X'', chain] \<in> C"
      using assms by (simp_all add: clone_egress_commands_def)
    have jump: "clone_jump_args op veth = Some [op, VETH_FWD_CHAIN, ''-i'', veth, ''-j'', chain]" for op
      by (simp add: clone_jump_args_def Some)
    have rest: "ends_reached run C m (if \<not> present then Some (Inr (), m)
        else then_run (delete_while ?ipt [''-C'', VETH_FWD_CHAIN, ''-i'', veth, ''-j'', chain] [''-D'', VETH_FWD_CHAIN, ''-i'', veth, ''-j'', chain] m)
          (\<lambda>_ n. then_run (Some (run_iptables ?ipt [''-F'', chain] n)) (\<lambda>_ n. Some (run_iptables ?ipt [''-X'', chain] n))))" for present m
      by (cases present) (auto intro!: ends_then_run ends_delete_while ends_Some reached_iptables C)
    show ?thesis unfolding remove_clone_checked_locked_def Some option.case jump prod.case
      by (intro ends_then_run ends_delete_while ends_Some reached_iptables C rest)
  qed (simp add: remove_clone_checked_locked_def ends_reached_def)
  then show ?thesis
    by (cases poisoned) (auto simp: remove_clone_egress_def remove_clone_checked_def in_transaction_def lock_iptables_transaction_def
        ends_reached_def split: option.splits)
qed

interpretation net_reached: step_frame "\<lambda>h h'. reached_by run C (net_state h) (net_state h')" for run :: "'n runner" and C
  by unfold_locales (auto intro: reached.trans)

lemma system_teardown_reaches:
  "reached_by run (set (release_commands net)) (net_state h) (net_state (snd (system_teardown io_text env poisoned run net owner h)))"
proof -
  let ?C = "set (release_commands net)"
  have egr: "set (clone_egress_commands (cn_veth_host net)) \<subseteq> ?C" and tdp: "set (teardown_plan net) \<subseteq> ?C"
    by (auto simp: release_commands_def)
  have marker: "net_state (snd (claim_owner_marker io_text env j o' h)) = net_state h" "net_state (snd (release_owner_marker env j o' h)) = net_state h" for j o' h
    by (auto simp: claim_owner_marker_def release_owner_marker_def split: sum.splits option.splits if_splits)
  have own: "net_state (snd (teardown_ownership io_text env j o' h)) = net_state h" for j o' h
    using marker(1)[of j o' h]
    by (auto simp: teardown_ownership_def and_then_def split: sum.splits option.splits prod.splits)
  have exist: "reached_by run ?C (net_state h) (net_state (snd (reserved_resources_exist env run net owner h)))" for h
  proof -
    obtain x m where x: "resources_exist run net (net_state h) = (x, m)" by fastforce
    have "reached_by run ?C (net_state h) (snd (resources_exist run net (net_state h)))"
      unfolding resources_exist_def by (rule reached_probe) (simp add: release_commands_def)
    then have "reached_by run ?C (net_state h) m" by (simp add: x)
    then show ?thesis using marker(2)[of "cn_index net" owner "h\<lparr>net_state := m\<rparr>"]
      by (auto simp: reserved_resources_exist_def on_net_def x and_then_def split: sum.splits prod.splits)
  qed
  have egress: "reached_by run ?C (net_state h) (net_state (snd (on_net (remove_clone_egress io_text poisoned run (cn_veth_host net)) h)))" for h
    using reached_clone_egress[OF egr, of run "net_state h" io_text poisoned] by (auto simp: on_net_def split: prod.splits)
  have plan: "reached_by run ?C (net_state h) (net_state (snd (on_net (run_all_allow_absent run (teardown_plan net)) h)))" for h
    using reached_all_allow_absent[OF tdp, of run "net_state h"] by (auto simp: on_net_def split: prod.splits)
  show ?thesis unfolding system_teardown_def
    by (rule net_reached.chain net_reached.cond net_reached.mapped net_reached.refl | simp add: own exist egress plan marker)+
qed

lemma clone_chain_of: "clone_net_derive i = Inr net \<Longrightarrow> clone_chain_for_veth (cn_veth_host net) = Some (clone_egress_chain i)"
  using printed_binding_index(2)[of i net] by (simp add: clone_chain_for_veth_def)

lemma net_names_derive:
  "clone_net_derive i = Inr net \<Longrightarrow> net_names net = [''rooms-c'' @ show_u8 i, ''veth-h'' @ show_u8 i, ''veth-g'' @ show_u8 i, ''ROOMS_CEG_'' @ show_u8 i]"
  by (auto simp: net_names_def derive_Inr clone_egress_chain_def CLONE_EGRESS_CHAIN_PREFIX_def)

lemma release_args:
  assumes "clone_net_derive i = Inr net"
  shows "map cmd_args (release_commands net) =
    (let ns = ''rooms-c'' @ show_u8 i; vh = ''veth-h'' @ show_u8 i; vg = ''veth-g'' @ show_u8 i; ch = ''ROOMS_CEG_'' @ show_u8 i in
    [[''netns'', ''exec'', ns, ''true''], [''link'', ''show'', vh], [''link'', ''show'', vg],
     [''-w'', ''2'', ''-C'', ''INPUT'', ''-i'', vh, ''-j'', ''DROP''], [''-w'', ''2'', ''-D'', ''INPUT'', ''-i'', vh, ''-j'', ''DROP''],
     [''-w'', ''2'', ''-S'', ch], [''-w'', ''2'', ''-C'', ''ROOMS_VETH_FWD'', ''-i'', vh, ''-j'', ch],
     [''-w'', ''2'', ''-D'', ''ROOMS_VETH_FWD'', ''-i'', vh, ''-j'', ch], [''-w'', ''2'', ''-F'', ch], [''-w'', ''2'', ''-X'', ch],
     [''netns'', ''del'', ns], [''link'', ''del'', vh], [''link'', ''del'', vg],
     [''-w'', ''2'', ''-D'', ''ROOMS_VETH_FWD'', ''-i'', vh, ''!'', ''-s'', ''172.17.0.'' @ show_u8 (4 * i + 2) @ ''/32'', ''-j'', ''DROP'']])"
proof -
  have net: "cn_netns net = ''rooms-c'' @ show_u8 i" "cn_veth_host net = ''veth-h'' @ show_u8 i" "cn_veth_guest net = ''veth-g'' @ show_u8 i"
    "cn_netns_ip net = (172, 17, 0, 4 * i + 2)" using assms by (auto simp: derive_Inr)
  have src: "show_ipv4 (172, 17, 0, 4 * i + 2) = ''172.17.0.'' @ show_u8 (4 * i + 2)"
    by (simp add: show_ipv4_def show_nat.simps digit_char_def)
  have "clone_chain_for_veth (''veth-h'' @ show_u8 i) = Some (clone_egress_chain i)" using clone_chain_of[OF assms] net by simp
  then show ?thesis
    by (simp add: Let_def release_commands_def clone_egress_commands_def net src teardown_plan_def source_binding_command_def
        iptables_command_args_def input_drop_rule_def clone_egress_chain_def XTABLES_WAIT_SECONDS_def VETH_FWD_CHAIN_def INPUT_CHAIN_def
        CLONE_EGRESS_CHAIN_PREFIX_def)
qed

lemma release_commands_own_names:
  assumes "clone_net_derive i = Inr net" and "clone_net_derive j = Inr other" and "i \<noteq> j" and "c \<in> set (release_commands net)"
  shows "set (cmd_args c) \<inter> set (net_names net) \<noteq> {}" and "set (cmd_args c) \<inter> set (net_names other) = {}"
proof -
  have c: "cmd_args c \<in> set (map cmd_args (release_commands net))" using assms(4) by simp
  have "list_all (\<lambda>args. set args \<inter> set (net_names net) \<noteq> {} \<and> set args \<inter> set (net_names other) = {}) (map cmd_args (release_commands net))"
    unfolding release_args[OF assms(1)] net_names_derive[OF assms(1)] net_names_derive[OF assms(2)] Let_def using assms(3) by simp
  then show "set (cmd_args c) \<inter> set (net_names net) \<noteq> {}" "set (cmd_args c) \<inter> set (net_names other) = {}"
    using c unfolding list_all_iff by blast+
qed

text \<open>C16. Releasing a clone network touches nothing of another owner. A successful release removed exactly the claim
  file of that index, which named the caller, and left no owner marker for it; the marker had been the
  caller's, or there was none and no host resource of that index existed. When the marker
  names another room the host is left as it was and the claim is kept; on every other outcome the claim
  files are unchanged. Markers of other indexes never change. And whatever the outcome, the network is reached only by
  the release commands of that index (its probes, the removal of its egress rules, its teardown plan), each of which names
  a namespace, device or chain of that index and none of any other index; an index outside the pool changes nothing at all.\<close>

theorem clone_release_spares_others:
  assumes "clone_free io_text env (system_network_ops io_text env poisoned run) i owner w = (r, w')"
  shows "(r = Inr Removed \<longrightarrow> (\<exists>c. files w (claim_key CLONENET_POOL i) = Some c \<and> first_line c = Some owner)
      \<and> files w' = (files w)(claim_key CLONENET_POOL i := None) \<and> markers (host w') (show_u8 i) = None
      \<and> (markers (host w) (show_u8 i) = Some owner \<or> markers (host w) (show_u8 i) = None
         \<and> (\<exists>net. clone_net_derive i = Inr net \<and> fst (resources_exist run net (net_state (host w))) = Inr False)))
    \<and> (r \<noteq> Inr Removed \<longrightarrow> files w' = files w)
    \<and> (\<forall>other. markers (host w) (show_u8 i) = Some other \<and> other \<noteq> owner \<longrightarrow> host w' = host w \<and> r \<noteq> Inr Removed)
    \<and> (\<forall>j. j \<noteq> show_u8 i \<longrightarrow> markers (host w') j = markers (host w) j)
    \<and> (case clone_net_derive i of
         Inl _ \<Rightarrow> w' = w
       | Inr net \<Rightarrow> reached_by run (set (release_commands net)) (net_state (host w)) (net_state (host w'))
           \<and> (\<forall>c \<in> set (release_commands net). \<forall>j other. j \<noteq> i \<and> clone_net_derive j = Inr other
                \<longrightarrow> set (cmd_args c) \<inter> set (net_names net) \<noteq> {} \<and> set (cmd_args c) \<inter> set (net_names other) = {}))"
proof (cases "clone_net_derive i")
  case (Inl e)
  then show ?thesis using assms by (auto simp: clone_free_def clone_free_with_cleanup_def)
next
  case (Inr net)
  let ?td = "system_teardown io_text env poisoned run net owner (host w)"
  let ?cleanup = "teardown_under_lock io_text (system_network_ops io_text env poisoned run) net owner (\<lambda>_ h. (Inr (), h))"
  have ix: "cn_index net = i" using Inr by (simp add: derive_Inr)
  obtain q where q: "free_with env CLONENET_POOL i owner ?cleanup w = (q, w')" and r: "r = map_release q"
    using assms Inr by (auto simp: clone_free_def clone_free_with_cleanup_def split: prod.splits)
  obtain t h' where t: "?td = (t, h')" by fastforce
  have cl: "?cleanup (host w) = (case t of Inr RemoveClaim \<Rightarrow> (Inr (), h')
      | Inr KeepClaim \<Rightarrow> (Inl ''host resources are owned by another claim'', h') | Inl e \<Rightarrow> (Inl (cleanup_detail io_text e), h'))"
    by (auto simp: teardown_under_lock_def system_network_ops_def t map_err_def split: sum.splits reconcile_action.splits)
  have h: "host w' = host w \<or> host w' = h'"
    using free_with_host[OF q] unfolding cl by (auto split: sum.splits reconcile_action.splits)
  have removed: "r = Inr Removed \<longleftrightarrow> q = Inr Removed"
    unfolding r map_release_def by (auto split: sum.splits release_error.splits)
  have kept: "files w' = files w" if "q \<noteq> Inr Removed"
    using free_with_result[OF q] that by (cases q) (auto split: release_error.splits free_outcome.splits)
  have finished: "t = Inr RemoveClaim" "host w' = h'" if "q = Inr Removed"
    using free_with_result[OF q] that cl by (auto split: sum.splits reconcile_action.splits)
  have foreign: "host w' = host w \<and> q \<noteq> Inr Removed" if "markers (host w) (show_u8 i) = Some other" "other \<noteq> owner" for other
    using teardown_foreign[OF t] that ix h finished(1) by auto
  have reached: "reached_by run (set (release_commands net)) (net_state (host w)) (net_state (host w'))"
    using h system_teardown_reaches[of run net "host w" io_text env poisoned owner] by (auto simp: t)
  have names: "\<forall>c \<in> set (release_commands net). \<forall>j other. j \<noteq> i \<and> clone_net_derive j = Inr other
      \<longrightarrow> set (cmd_args c) \<inter> set (net_names net) \<noteq> {} \<and> set (cmd_args c) \<inter> set (net_names other) = {}"
    using release_commands_own_names[OF Inr] by blast
  have gone: "q = Inr Removed \<longrightarrow> (\<exists>c. files w (claim_key CLONENET_POOL i) = Some c \<and> first_line c = Some owner)
      \<and> files w' = (files w)(claim_key CLONENET_POOL i := None) \<and> markers (host w') (show_u8 i) = None
      \<and> (markers (host w) (show_u8 i) = Some owner \<or> markers (host w) (show_u8 i) = None
         \<and> (\<exists>net. clone_net_derive i = Inr net \<and> fst (resources_exist run net (net_state (host w))) = Inr False))"
    using free_with_result[OF q] finished t teardown_removed[of io_text env poisoned run net owner "host w" h'] Inr ix by auto
  have others: "\<forall>j. j \<noteq> show_u8 i \<longrightarrow> markers (host w') j = markers (host w) j"
    using teardown_other_markers[OF t] h ix by auto
  have only: "case clone_net_derive i of
         Inl _ \<Rightarrow> w' = w
       | Inr net \<Rightarrow> reached_by run (set (release_commands net)) (net_state (host w)) (net_state (host w'))
           \<and> (\<forall>c \<in> set (release_commands net). \<forall>j other. j \<noteq> i \<and> clone_net_derive j = Inr other
                \<longrightarrow> set (cmd_args c) \<inter> set (net_names net) \<noteq> {} \<and> set (cmd_args c) \<inter> set (net_names other) = {})"
    unfolding Inr sum.case by (rule conjI[OF reached names])
  show ?thesis unfolding removed by (intro conjI gone others only) (use kept foreign in blast)+
qed

definition demo_clone_world :: "unit clone_host world" where
  "demo_clone_world = \<lparr>dirs = (\<lambda>_. True),
     files = (\<lambda>p. if p = (''clonenets'', ''1'') then Some (claim_text demo_owner demo_me) else None),
     host = \<lparr>markers = (\<lambda>m. if m = ''1'' then Some ''other'' else None), net_state = ()\<rparr>\<rparr>"

theorem clone_release_spares_others_witness:
  "\<exists>r w'. clone_free (\<lambda>_. []) demo_env (system_network_ops (\<lambda>_. []) demo_env False demo_run) 1 demo_owner demo_clone_world = (r, w')
     \<and> r = Inl (CnCommand ''clone network teardown'' ''host resources are owned by another claim'')
     \<and> host w' = host demo_clone_world \<and> files w' = files demo_clone_world"
proof -
  obtain r w' where e: "clone_free (\<lambda>_. []) demo_env (system_network_ops (\<lambda>_. []) demo_env False demo_run) 1 demo_owner demo_clone_world = (r, w')"
    by fastforce
  have o: "''other'' \<noteq> demo_owner" by (simp add: demo_owner_def)
  have "fst (clone_free (\<lambda>_. []) demo_env (system_network_ops (\<lambda>_. []) demo_env False demo_run) 1 demo_owner demo_clone_world)
      = Inl (CnCommand ''clone network teardown'' ''host resources are owned by another claim'')"
    by (simp add: clone_free_def clone_free_with_cleanup_def clone_net_derive_def valid_clone_index Let_def free_with_def lock_frees_def
        read_to_string_def CLONENET_POOL_def CLONENETS_DIR_def demo_clone_world_def first_line_claim_text teardown_under_lock_def
        system_network_ops_def system_teardown_def teardown_ownership_def marker_owner_def map_err_def map_release_def valid_index_def
        MAX_CLONENET_def check_fault_def demo_env_def o)
  then have r: "r = Inl (CnCommand ''clone network teardown'' ''host resources are owned by another claim'')" by (simp only: e fst_conv)
  have m: "markers (host demo_clone_world) (show_u8 1) = Some ''other''" by (simp add: demo_clone_world_def)
  have "host w' = host demo_clone_world" "files w' = files demo_clone_world"
    using clone_release_spares_others[OF e] m o r by (blast, simp)
  then show ?thesis using e r by blast
qed

end
