(* ===== verification/Teardown.thy ===== *)
theory Teardown
  imports Config Clone_Net Snapshot
begin

text \<open>
  Tearing a room down (the process, jail and network cleanup of \<open>src/src/firecracker.rs\<close>): the room guard, the
  plan of its network release, the reaping of orphans, and the identity-guarded termination behind \<open>rooms kill\<close>.

  The room directory is a directory of the world, named by the room id. The jail instance directories live
  outside the state base: \<open>jails\<close> maps the path of an instance directory to the names in its root. Whether a
  recursive removal fails, and which names it leaves behind, is the environment's choice (a bind mount that is
  still busy makes it fail). A query of existence is taken to succeed.
\<close>

subsection \<open>Errors\<close>

datatype firecracker_error =
    FcKvmUnavailable
  | FcBinaryNotFound string
  | FcJailerNotFound string
  | FcFirecrackerUserMissing string
  | FcRootRequired
  | FcJailPrepareFailed string
  | FcApiSocketNeverAppeared u64
  | FcApiCallFailed string string int string
  | FcApiCallTimedOut string u64
  | FcGuestUnreachable string
  | FcProcessExitedEarly int string
  | FcHomeUnset
  | FcInternal string
  | FcIo io_error

fun firecracker_error_text :: "(io_error \<Rightarrow> string) \<Rightarrow> firecracker_error \<Rightarrow> string" where
  "firecracker_error_text io_text FcKvmUnavailable = ''/dev/kvm missing or permission denied''"
| "firecracker_error_text io_text (FcBinaryNotFound path) = ''firecracker binary not found at '' @ path"
| "firecracker_error_text io_text (FcJailerNotFound path) = ''jailer binary not found at '' @ path"
| "firecracker_error_text io_text (FcFirecrackerUserMissing user) =
     ''system user '' @ user @ '' missing; run scripts/setup-rooms-host.sh''"
| "firecracker_error_text io_text FcRootRequired =
     ''jailer requires root; run rooms via sudo (e.g. '' @ CHR 0x60 # ''sudo -E rooms run ...'' @ CHR 0x60 # '')''"
| "firecracker_error_text io_text (FcJailPrepareFailed reason) = ''jail staging failed: '' @ reason"
| "firecracker_error_text io_text (FcApiSocketNeverAppeared ms) =
     ''firecracker api socket did not appear within '' @ show_nat (unat ms) @ '' ms''"
| "firecracker_error_text io_text (FcApiCallFailed m endpoint code body) =
     ''firecracker api '' @ m @ space # endpoint @ '' failed (curl exit '' @ show_int code @ ''): '' @ body"
| "firecracker_error_text io_text (FcApiCallTimedOut endpoint ms) =
     ''firecracker api PUT '' @ endpoint @ '' timed out after '' @ show_nat (unat ms) @ '' ms''"
| "firecracker_error_text io_text (FcGuestUnreachable reason) = ''guest unreachable: '' @ reason"
| "firecracker_error_text io_text (FcProcessExitedEarly code tail) =
     ''firecracker exited early with code '' @ show_int code @ '': '' @ tail"
| "firecracker_error_text io_text FcHomeUnset = ''home env var unset''"
| "firecracker_error_text io_text (FcInternal detail) = detail"
| "firecracker_error_text io_text (FcIo e) = ''io error: '' @ io_text e"

fun slot_error_text :: "(io_error \<Rightarrow> string) \<Rightarrow> slot_error \<Rightarrow> string" where
  "slot_error_text io_text (SlotPoolFull cap) = ''pool full: all '' @ show_u8 cap @ '' slots claimed''"
| "slot_error_text io_text (SlotInvalidIndex index mx) =
     ''invalid slot index '' @ show_u8 index @ '': valid pool slots are 1..='' @ show_u8 mx"
| "slot_error_text io_text (SlotTargetTaken index) = ''target slot '' @ show_u8 index @ '' already claimed''"
| "slot_error_text io_text (SlotNotReserved index) =
     ''slot '' @ show_u8 index @ '' holds no reservation for this snapshot''"
| "slot_error_text io_text (SlotLeaseHeld index) = ''slot '' @ show_u8 index @ '' reservation is already leased''"
| "slot_error_text io_text (SlotCleanup detail) = ''checked slot cleanup failed: '' @ detail"
| "slot_error_text io_text (SlotIo e) = ''io error: '' @ io_text e"

subsection \<open>The host side of a room\<close>

definition JAIL_API_SOCK :: string where "JAIL_API_SOCK = ''api.sock''"
definition JAIL_KERNEL :: string where "JAIL_KERNEL = ''kernel''"
definition JAIL_ROOTFS :: string where "JAIL_ROOTFS = ''rootfs''"
definition JAIL_TOOLSTORE :: string where "JAIL_TOOLSTORE = ''toolstore.sqfs''"

record 'n room_host =
  jails :: "string \<Rightarrow> string list option"
  clone_side :: "'n clone_host"

text \<open>What the operating system answers: its programs, the removals that fail with the names they leave,
  \<open>/proc/<pid>/stat\<close> as it reads at a moment, what happens while the program sleeps, and how often a wait of the
  given length polls before its deadline.\<close>

record 'n reap_env =
  re_io :: io_env
  re_text :: "io_error \<Rightarrow> string"
  re_poisoned :: bool
  re_run :: "'n runner"
  re_jail_left :: "string \<Rightarrow> 'n \<Rightarrow> string list option"
  re_room_left :: "string \<Rightarrow> string list option"
  re_stat :: "'n \<Rightarrow> u32 \<Rightarrow> io_error + string"
  re_sleep :: "'n \<Rightarrow> 'n"
  re_polls :: "nat \<Rightarrow> nat"

definition on_programs :: "('n \<Rightarrow> 'a \<times> 'n) \<Rightarrow> 'n room_host \<Rightarrow> 'a \<times> 'n room_host" where
  "on_programs f h = (case f (net_state (clone_side h)) of
     (r, n) \<Rightarrow> (r, h\<lparr>clone_side := (clone_side h)\<lparr>net_state := n\<rparr>\<rparr>))"

definition on_host :: "('h \<Rightarrow> 'a \<times> 'h) \<Rightarrow> 'h world \<Rightarrow> 'a \<times> 'h world" where
  "on_host f w = (case f (host w) of (r, h) \<Rightarrow> (r, w\<lparr>host := h\<rparr>))"

text \<open>\<open>remove_dir_all\<close> of a room directory: the files below it go with it.\<close>

definition remove_room_dir :: "'n reap_env \<Rightarrow> string \<Rightarrow> 'h world \<Rightarrow> (io_error + unit) \<times> 'h world" where
  "remove_room_dir env d w =
     (if \<not> dirs w d then (Inl NotFound, w)
      else case re_room_left env d of
        Some left \<Rightarrow> (Inl (Other ''remove_dir_all''), w\<lparr>files := (\<lambda>p. if fst p = d \<and> snd p \<notin> set left then None else files w p)\<rparr>)
      | None \<Rightarrow> (Inr (), w\<lparr>dirs := (dirs w)(d := False), files := (\<lambda>p. if fst p = d then None else files w p)\<rparr>))"

subsection \<open>The jail\<close>

definition UNMOUNT_RETRIES :: nat where "UNMOUNT_RETRIES = 5"

definition unmount :: "'n reap_env \<Rightarrow> string \<Rightarrow> 'n \<Rightarrow> (string + unit) \<times> 'n" where
  "unmount env target n = (case re_run env \<lparr>cmd_program = ''umount'', cmd_args = [target]\<rparr> n of
     (Inl e, n) \<Rightarrow> (Inl (re_text env e), n)
   | (Inr out, n) \<Rightarrow> if out_success out then (Inr (), n) else (Inl (trim (out_stderr out)), n))"

fun unmount_retry :: "'n reap_env \<Rightarrow> string \<Rightarrow> nat \<Rightarrow> (string + unit) \<times> 'n \<Rightarrow> (string + unit) \<times> 'n" where
  "unmount_retry env target k (Inr u, n) = (Inr u, n)"
| "unmount_retry env target 0 (Inl reason, n) = (Inl reason, n)"
| "unmount_retry env target (Suc k) (Inl reason, n) =
     (if \<not> str_contains ''busy'' reason then (Inl reason, n) else unmount_retry env target k (unmount env target n))"

definition unmount_settled :: "'n reap_env \<Rightarrow> string \<Rightarrow> 'n \<Rightarrow> (string + unit) \<times> 'n" where
  "unmount_settled env target n = unmount_retry env target UNMOUNT_RETRIES (unmount env target n)"

definition unmount_present :: "'n reap_env \<Rightarrow> string \<Rightarrow> string \<Rightarrow> 'n room_host \<Rightarrow> 'n room_host" where
  "unmount_present env instance_dir name h = (case jails h instance_dir of
     None \<Rightarrow> h
   | Some names \<Rightarrow> if name \<in> set names
       then snd (on_programs (unmount_settled env (path_join (path_join instance_dir ''root'') name)) h) else h)"

definition teardown_jail_sync :: "'n reap_env \<Rightarrow> string \<Rightarrow> 'n room_host \<Rightarrow> bool \<times> 'n room_host" where
  "teardown_jail_sync env instance_dir h =
     (let h = fold (unmount_present env instance_dir) [JAIL_KERNEL, JAIL_ROOTFS, SNAPSHOT_MEM_FILE, JAIL_TOOLSTORE] h;
          h = (case jails h instance_dir of
                 None \<Rightarrow> h
               | Some names \<Rightarrow> (case re_jail_left env instance_dir (net_state (clone_side h)) of
                    Some left \<Rightarrow> h\<lparr>jails := (jails h)(instance_dir \<mapsto> filter (\<lambda>x. x \<in> set left) names)\<rparr>
                  | None \<Rightarrow> h\<lparr>jails := (jails h)(instance_dir := None)\<rparr>))
      in (jails h instance_dir = None, h))"

definition remove_socket :: "'n reap_env \<Rightarrow> string \<Rightarrow> 'n room_host \<Rightarrow> 'n room_host" where
  "remove_socket env instance_dir h = (case jails h instance_dir of
     None \<Rightarrow> h
   | Some names \<Rightarrow> (case check_fault (re_io env) (RemoveFile instance_dir JAIL_API_SOCK) of
        Inl _ \<Rightarrow> h
      | Inr _ \<Rightarrow> h\<lparr>jails := (jails h)(instance_dir \<mapsto> filter (\<lambda>x. x \<noteq> JAIL_API_SOCK) names)\<rparr>))"

subsection \<open>The network of a slot\<close>

definition pool_tap_index :: "string \<Rightarrow> u8 option" where
  "pool_tap_index tap = (case strip_prefix ''tap-fc'' tap of
     None \<Rightarrow> None
   | Some rest \<Rightarrow> (case parse_u8 rest of
        None \<Rightarrow> None
      | Some index \<Rightarrow> if index = 0 \<or> index > MAX_SLOT \<or> rest \<noteq> show_u8 index then None else Some index))"

definition absent_device :: "string \<Rightarrow> bool" where
  "absent_device stderr \<longleftrightarrow> str_contains ''does not exist'' stderr \<or> str_contains ''Cannot find device'' stderr"

definition delete_tap_checked :: "'n reap_env \<Rightarrow> string \<Rightarrow> 'n \<Rightarrow> (firecracker_error + unit) \<times> 'n" where
  "delete_tap_checked env tap n = (case re_run env (ip_cmd [''link'', ''show'', ''dev'', tap]) n of
     (Inl e, n) \<Rightarrow> (Inl (FcIo e), n)
   | (Inr shown, n) \<Rightarrow>
       if \<not> out_success shown then
         (if absent_device (out_stderr shown) then (Inr (), n)
          else (Inl (FcInternal (''inspect TAP '' @ tap @ '': '' @ trim (out_stderr shown))), n))
       else (case re_run env (ip_cmd [''tuntap'', ''del'', ''dev'', tap, ''mode'', ''tap'']) n of
          (Inl e, n) \<Rightarrow> (Inl (FcIo e), n)
        | (Inr deleted, n) \<Rightarrow>
            if out_success deleted \<or> absent_device (out_stderr deleted) then (Inr (), n)
            else (Inl (FcInternal (''delete TAP '' @ tap @ '': '' @ trim (out_stderr deleted))), n)))"

text \<open>\<open>egress::remove_checked\<close> through the same programs; its loops end on every firewall that behaves as documented.\<close>

definition remove_flat_egress :: "'n reap_env \<Rightarrow> string \<Rightarrow> 'n \<Rightarrow> (string + unit) \<times> 'n" where
  "remove_flat_egress env tap n =
     (case remove_checked (re_poisoned env) (runner_iptables (re_text env) (re_run env)) tap n of
        Some r \<Rightarrow> r | None \<Rightarrow> (Inl ''egress removal does not end'', n))"

definition remove_egress_and_tap :: "'n reap_env \<Rightarrow> string \<Rightarrow> 'n \<Rightarrow> (firecracker_error + unit) \<times> 'n" where
  "remove_egress_and_tap env tap n =
     and_then (map_err FcInternal (remove_flat_egress env tap n)) (\<lambda>_ n. delete_tap_checked env tap n)"

record slot_release =
  sr_index :: u8
  sr_tap :: string
  sr_room_id :: string

datatype release_plan = SlotBound u8 string string

definition plan_release :: "string option \<Rightarrow> bool \<Rightarrow> slot_release option \<Rightarrow> release_plan option" where
  "plan_release tap tap_owned sl = (case sl of
     Some s \<Rightarrow>
       if \<not> tap_owned \<or> Option.bind tap pool_tap_index \<noteq> Some (sr_index s) then None
       else map_option (\<lambda>t. SlotBound (sr_index s) t (sr_room_id s)) tap
   | None \<Rightarrow> None)"

subsection \<open>The room guard\<close>

text \<open>The socket is \<open>api.sock\<close> in the root of the jail whose instance directory \<open>rg_socket\<close> names.\<close>

record room_guard =
  rg_room_dir :: string
  rg_socket :: string
  rg_child_pid :: "u32 option"
  rg_tap_name :: "string option"
  rg_tap_owned :: bool
  rg_slot_release :: "slot_release option"
  rg_suppress_cleanup :: bool
  rg_dismiss :: bool
  rg_cleanup_grace :: nat
  rg_jail_instance_dir :: "string option"

definition guard_new :: "string \<Rightarrow> string \<Rightarrow> rooms_config \<Rightarrow> room_guard" where
  "guard_new room_dir' socket c =
     \<lparr>rg_room_dir = room_dir', rg_socket = socket, rg_child_pid = None, rg_tap_name = None, rg_tap_owned = False,
      rg_slot_release = None, rg_suppress_cleanup = False, rg_dismiss = False, rg_cleanup_grace = cleanup_grace c,
      rg_jail_instance_dir = None\<rparr>"

definition for_orphan :: "string \<Rightarrow> string \<Rightarrow> string \<Rightarrow> rooms_config \<Rightarrow> room_guard" where
  "for_orphan room_dir' socket jail_dir c = (guard_new room_dir' socket c)\<lparr>rg_jail_instance_dir := Some jail_dir\<rparr>"

definition set_slot :: "slot_release \<Rightarrow> room_guard \<Rightarrow> room_guard" where
  "set_slot release g = g\<lparr>rg_tap_name := Some (sr_tap release), rg_tap_owned := True, rg_slot_release := Some release\<rparr>"

definition kill_cmd :: "string \<Rightarrow> u32 \<Rightarrow> command_spec" where
  "kill_cmd flag pid = \<lparr>cmd_program = ''kill'', cmd_args = [CHR ''-'' # flag, show_u32 pid]\<rparr>"

definition pid_exists :: "'n reap_env \<Rightarrow> u32 \<Rightarrow> 'n \<Rightarrow> bool \<times> 'n" where
  "pid_exists env pid n = (case re_run env (kill_cmd ''0'' pid) n of
     (Inl _, n) \<Rightarrow> (False, n) | (Inr out, n) \<Rightarrow> (out_success out, n))"

fun wait_gone :: "'n reap_env \<Rightarrow> u32 \<Rightarrow> nat \<Rightarrow> 'n \<Rightarrow> bool \<times> 'n" where
  "wait_gone env pid 0 n = (False, n)"
| "wait_gone env pid (Suc polls) n = (case pid_exists env pid n of
     (False, n) \<Rightarrow> (True, n) | (True, n) \<Rightarrow> wait_gone env pid polls n)"

definition kill_child_gracefully :: "'n reap_env \<Rightarrow> u32 option \<Rightarrow> nat \<Rightarrow> 'n \<Rightarrow> 'n" where
  "kill_child_gracefully env pid grace n = (case pid of
     None \<Rightarrow> n
   | Some pid \<Rightarrow>
       let n = snd (re_run env (kill_cmd ''TERM'' pid) n) in
       (case wait_gone env pid (re_polls env (min grace 5000)) n of
          (True, n) \<Rightarrow> n
        | (False, n) \<Rightarrow> (case pid_exists env pid n of
             (True, n) \<Rightarrow> snd (re_run env (kill_cmd ''KILL'' pid) n) | (False, n) \<Rightarrow> n)))"

definition release_network_with ::
  "'n reap_env \<Rightarrow> (string \<Rightarrow> 'n room_host \<Rightarrow> (firecracker_error + unit) \<times> 'n room_host) \<Rightarrow> room_guard
     \<Rightarrow> 'n room_host world \<Rightarrow> 'n room_host world" where
  "release_network_with env cleanup g w =
     (case plan_release (rg_tap_name g) (rg_tap_owned g) (rg_slot_release g) of
        None \<Rightarrow> w
      | Some (SlotBound index tap room_id) \<Rightarrow>
          snd (free_with_cleanup (re_io env) index room_id
                 (\<lambda>h. map_err (firecracker_error_text (re_text env)) (cleanup tap h)) w))"

definition release_network :: "'n reap_env \<Rightarrow> room_guard \<Rightarrow> 'n room_host world \<Rightarrow> 'n room_host world" where
  "release_network env g w = release_network_with env (\<lambda>tap. on_programs (remove_egress_and_tap env tap)) g w"

definition cleanup_sync :: "'n reap_env \<Rightarrow> room_guard \<Rightarrow> 'n room_host world \<Rightarrow> room_guard \<times> 'n room_host world" where
  "cleanup_sync env g w =
     (if rg_suppress_cleanup g then (g, w)
      else
        let w = w\<lparr>host := snd (on_programs (\<lambda>n. ((), kill_child_gracefully env (rg_child_pid g) (rg_cleanup_grace g) n)) (host w))\<rparr>;
            w = w\<lparr>host := remove_socket env (rg_socket g) (host w)\<rparr>;
            g' = g\<lparr>rg_child_pid := None, rg_jail_instance_dir := None\<rparr>;
            (torn_down, w) = (case rg_jail_instance_dir g of
               None \<Rightarrow> (True, w) | Some jail_dir \<Rightarrow> on_host (teardown_jail_sync env jail_dir) w)
        in if \<not> torn_down then (g', w)
           else (case remove_room_dir env (rg_room_dir g) w of
               (Inr _, w) \<Rightarrow> (g', release_network env g' w)
             | (Inl NotFound, w) \<Rightarrow> (g', release_network env g' w)
             | (Inl _, w) \<Rightarrow> (g', w)))"

definition guard_cleanup :: "'n reap_env \<Rightarrow> room_guard \<Rightarrow> 'n room_host world \<Rightarrow> room_guard \<times> 'n room_host world" where
  "guard_cleanup env g w = (if rg_suppress_cleanup g \<or> rg_dismiss g then (g, w) else cleanup_sync env g w)"

definition guard_drop :: "'n reap_env \<Rightarrow> room_guard \<Rightarrow> 'n room_host world \<Rightarrow> 'n room_host world" where
  "guard_drop env g w = (if rg_dismiss g \<or> rg_suppress_cleanup g then w else snd (cleanup_sync env g w))"

subsection \<open>Reaping\<close>

definition reap_orphan ::
  "'n reap_env \<Rightarrow> string \<Rightarrow> string \<Rightarrow> string \<Rightarrow> slot_release option \<Rightarrow> rooms_config \<Rightarrow> 'n room_host world
     \<Rightarrow> (firecracker_error + unit) \<times> 'n room_host world" where
  "reap_orphan env room_dir' jail_dir socket sl c w =
     (let g = for_orphan room_dir' socket jail_dir c;
          g = (case sl of None \<Rightarrow> g | Some release \<Rightarrow> set_slot release g);
          w = snd (guard_cleanup env g w)
      in if jails (host w) jail_dir \<noteq> None then
           (Inl (FcInternal (''jail instance dir survived reap (stranded mount?): '' @ jail_dir)), w)
         else if dirs w room_dir' then (Inl (FcInternal (''room dir survived reap: '' @ room_dir')), w)
         else (case sl of
             None \<Rightarrow> (Inr (), w)
           | Some release \<Rightarrow> (case claimed_by (re_io env) (sr_index release) (sr_room_id release) w of
                Inl e \<Rightarrow> (Inl (FcInternal (''inspect slot '' @ show_u8 (sr_index release) @ '' after orphan reap for ''
                               @ sr_room_id release @ '': '' @ slot_error_text (re_text env) e)), w)
              | Inr retained \<Rightarrow>
                  if retained then (Inl (FcInternal (''slot '' @ show_u8 (sr_index release) @ '' survived orphan reap for ''
                               @ sr_room_id release @ ''; checked network cleanup will retry'')), w)
                  else (Inr (), w))))"

definition reap_room_only ::
  "'n reap_env \<Rightarrow> string \<Rightarrow> string \<Rightarrow> string \<Rightarrow> rooms_config \<Rightarrow> 'n room_host world
     \<Rightarrow> (firecracker_error + unit) \<times> 'n room_host world" where
  "reap_room_only env room_dir' jail_dir socket c w =
     (let w = snd (guard_cleanup env (for_orphan room_dir' socket jail_dir c) w)
      in if jails (host w) jail_dir \<noteq> None \<or> dirs w room_dir'
         then (Inl (FcInternal ''room directories survived reap''), w) else (Inr (), w))"

definition reap_reserved_base ::
  "'n reap_env \<Rightarrow> string \<Rightarrow> string \<Rightarrow> string \<Rightarrow> string \<Rightarrow> rooms_config \<Rightarrow> 'n room_host world
     \<Rightarrow> (firecracker_error + unit) \<times> 'n room_host world" where
  "reap_reserved_base env room_dir' jail_dir socket tap c w =
     and_then (reap_room_only env room_dir' jail_dir socket c w)
       (\<lambda>_ w. on_host (on_programs (remove_egress_and_tap env tap)) w)"

subsection \<open>Terminating by identity\<close>

datatype kill_signal_outcome = KillSignaled | KillAlreadyExited | KillSurvived | KillIndeterminate

definition probe_now :: "'n reap_env \<Rightarrow> u32 \<Rightarrow> u64 option \<Rightarrow> 'n \<Rightarrow> liveness" where
  "probe_now env pid starttime n = probe ((re_io env)\<lparr>proc_stat := re_stat env n\<rparr>) (Some pid) starttime"

definition send_signal :: "'n reap_env \<Rightarrow> u32 \<Rightarrow> string \<Rightarrow> 'n \<Rightarrow> 'n" where
  "send_signal env pid signal n = snd (re_run env (kill_cmd signal pid) n)"

fun poll_until_dead :: "'n reap_env \<Rightarrow> u32 \<Rightarrow> u64 option \<Rightarrow> nat \<Rightarrow> 'n \<Rightarrow> liveness \<times> 'n" where
  "poll_until_dead env pid starttime polls n =
     (let live = probe_now env pid starttime n in
      if live = Dead then (live, n)
      else case polls of 0 \<Rightarrow> (live, n) | Suc k \<Rightarrow> poll_until_dead env pid starttime k (re_sleep env n))"

definition sigkill_and_confirm :: "'n reap_env \<Rightarrow> u32 \<Rightarrow> u64 option \<Rightarrow> 'n \<Rightarrow> kill_signal_outcome \<times> 'n" where
  "sigkill_and_confirm env pid starttime n = (case probe_now env pid starttime n of
     Dead \<Rightarrow> (KillSignaled, n)
   | Indeterminate \<Rightarrow> (KillIndeterminate, n)
   | Alive \<Rightarrow> (case poll_until_dead env pid starttime (re_polls env 1000) (send_signal env pid ''KILL'' n) of
        (Dead, n) \<Rightarrow> (KillSignaled, n)
      | (Alive, n) \<Rightarrow> (KillSurvived, n)
      | (Indeterminate, n) \<Rightarrow> (KillIndeterminate, n)))"

definition terminate_by_identity :: "'n reap_env \<Rightarrow> u32 \<Rightarrow> u64 option \<Rightarrow> nat \<Rightarrow> 'n \<Rightarrow> kill_signal_outcome \<times> 'n" where
  "terminate_by_identity env pid starttime grace n = (case probe_now env pid starttime n of
     Dead \<Rightarrow> (KillAlreadyExited, n)
   | Indeterminate \<Rightarrow> (KillIndeterminate, n)
   | Alive \<Rightarrow> (case poll_until_dead env pid starttime (re_polls env (min grace 5000)) (send_signal env pid ''TERM'' n) of
        (Dead, n) \<Rightarrow> (KillSignaled, n)
      | (Indeterminate, n) \<Rightarrow> (KillIndeterminate, n)
      | (Alive, n) \<Rightarrow> sigkill_and_confirm env pid starttime n))"

declare poll_until_dead.simps [simp del]

subsection \<open>Frames\<close>

lemma on_programs_frame:
  assumes "on_programs f h = (r, h')"
  shows "jails h' = jails h" "markers (clone_side h') = markers (clone_side h)"
  using assms by (auto simp: on_programs_def split: prod.splits)

lemma unmount_present_frame:
  "jails (unmount_present env d name h) = jails h" "markers (clone_side (unmount_present env d name h)) = markers (clone_side h)"
  by (auto simp: unmount_present_def on_programs_def split: option.splits prod.splits)

lemma teardown_jail_result:
  assumes "teardown_jail_sync env d h = (gone, h')"
  shows "gone \<longleftrightarrow> jails h' d = None" "\<And>j. j \<noteq> d \<Longrightarrow> jails h' j = jails h j" "markers (clone_side h') = markers (clone_side h)"
    "jails h d = None \<Longrightarrow> gone"
  using assms by (auto simp: teardown_jail_sync_def Let_def unmount_present_frame split: option.splits)

lemma remove_socket_frame:
  "j \<noteq> d \<Longrightarrow> jails (remove_socket env d h) j = jails h j" "jails (remove_socket env d h) d = None \<longleftrightarrow> jails h d = None"
  "clone_side (remove_socket env d h) = clone_side h"
  by (auto simp: remove_socket_def split: option.splits sum.splits)

lemma remove_room_dir_result:
  assumes "remove_room_dir env d w = (r, w')"
  shows "host w' = host w" "\<And>x. x \<noteq> d \<Longrightarrow> dirs w' x = dirs w x" "\<And>p. fst p \<noteq> d \<Longrightarrow> files w' p = files w p"
    "r \<in> {Inr (), Inl NotFound} \<longleftrightarrow> \<not> dirs w' d" "r \<in> {Inr (), Inl NotFound} \<or> (\<exists>m. r = Inl (Other m))"
  using assms by (auto simp: remove_room_dir_def split: if_splits option.splits)

lemma free_with_dirs:
  assumes "free_with env p i o' cleanup w = (r, w')"
  shows "dirs w' = dirs w"
  using assms by (auto simp: free_with_def remove_file_def split: sum.splits option.splits if_splits prod.splits io_error.splits)

lemma free_with_cleanup_change:
  assumes "free_with_cleanup env i o' cleanup w = (r, w')"
  shows "dirs w' = dirs w" "host w' = host w \<or> host w' = snd (cleanup (host w))"
    "files w' = files w \<or> (\<exists>c. files w (SLOTS_DIR, show_u8 i) = Some c \<and> first_line c = Some o')
       \<and> cleanup (host w) = (Inr (), host w') \<and> files w' = (files w)((SLOTS_DIR, show_u8 i) := None)"
proof -
  have *: "w' = w \<or> (\<exists>q. free_with env SLOT_POOL i o' cleanup w = (q, w'))"
    using assms by (auto simp: free_with_cleanup_def split: sum.splits prod.splits release_error.splits free_outcome.splits)
  show "dirs w' = dirs w" using * free_with_dirs by blast
  show "host w' = host w \<or> host w' = snd (cleanup (host w))" using * free_with_host by blast
  show "files w' = files w \<or> (\<exists>c. files w (SLOTS_DIR, show_u8 i) = Some c \<and> first_line c = Some o')
       \<and> cleanup (host w) = (Inr (), host w') \<and> files w' = (files w)((SLOTS_DIR, show_u8 i) := None)"
    using *
  proof
    assume "\<exists>q. free_with env SLOT_POOL i o' cleanup w = (q, w')"
    then obtain q where "free_with env SLOT_POOL i o' cleanup w = (q, w')" by blast
    from free_with_result[OF this] show ?thesis
      by (cases q) (auto simp: SLOT_POOL_def split: release_error.splits free_outcome.splits)
  qed simp
qed

lemma release_network_change:
  assumes "release_network env g w = w'"
  shows "dirs w' = dirs w" "jails (host w') = jails (host w)" "markers (clone_side (host w')) = markers (clone_side (host w))"
    "files w' = files w \<or> (\<exists>s tap c. rg_slot_release g = Some s \<and> rg_tap_name g = Some tap \<and> rg_tap_owned g
       \<and> pool_tap_index tap = Some (sr_index s) \<and> files w (SLOTS_DIR, show_u8 (sr_index s)) = Some c
       \<and> first_line c = Some (sr_room_id s) \<and> files w' = (files w)((SLOTS_DIR, show_u8 (sr_index s)) := None)
       \<and> remove_egress_and_tap env tap (net_state (clone_side (host w))) = (Inr (), net_state (clone_side (host w'))))"
proof -
  have net: "jails (snd (map_err f (on_programs k h))) = jails h"
    "markers (clone_side (snd (map_err f (on_programs k h)))) = markers (clone_side h)"
    "map_err f (on_programs k h) = (Inr (), h') \<Longrightarrow> k (net_state (clone_side h)) = (Inr (), net_state (clone_side h'))"
    for f k and h h' :: "'a room_host"
    by (auto simp: map_err_def on_programs_def split: prod.splits sum.splits)
  consider "w' = w" | s tap r where "rg_slot_release g = Some s" "rg_tap_name g = Some tap" "rg_tap_owned g"
      "pool_tap_index tap = Some (sr_index s)" "free_with_cleanup (re_io env) (sr_index s) (sr_room_id s)
        (\<lambda>h. map_err (firecracker_error_text (re_text env)) (on_programs (remove_egress_and_tap env tap) h)) w = (r, w')"
    using assms
    by (auto simp: release_network_def release_network_with_def plan_release_def split: option.splits if_splits)
      (metis surjective_pairing)
  then have "dirs w' = dirs w \<and> jails (host w') = jails (host w) \<and> markers (clone_side (host w')) = markers (clone_side (host w))
    \<and> (files w' = files w \<or> (\<exists>s tap c. rg_slot_release g = Some s \<and> rg_tap_name g = Some tap \<and> rg_tap_owned g
       \<and> pool_tap_index tap = Some (sr_index s) \<and> files w (SLOTS_DIR, show_u8 (sr_index s)) = Some c
       \<and> first_line c = Some (sr_room_id s) \<and> files w' = (files w)((SLOTS_DIR, show_u8 (sr_index s)) := None)
       \<and> remove_egress_and_tap env tap (net_state (clone_side (host w))) = (Inr (), net_state (clone_side (host w')))))"
  proof cases
    case (2 s tap r)
    note ch = free_with_cleanup_change[OF 2(5)]
    from ch(2) have "jails (host w') = jails (host w)" "markers (clone_side (host w')) = markers (clone_side (host w))"
      using net(1,2) by auto
    moreover from ch(3) have "files w' = files w \<or> (\<exists>c. files w (SLOTS_DIR, show_u8 (sr_index s)) = Some c
       \<and> first_line c = Some (sr_room_id s) \<and> files w' = (files w)((SLOTS_DIR, show_u8 (sr_index s)) := None)
       \<and> remove_egress_and_tap env tap (net_state (clone_side (host w))) = (Inr (), net_state (clone_side (host w'))))"
      using net(3) by blast
    ultimately show ?thesis using 2(1-4) ch(1) by blast
  qed simp
  then show "dirs w' = dirs w" "jails (host w') = jails (host w)" "markers (clone_side (host w')) = markers (clone_side (host w))"
    "files w' = files w \<or> (\<exists>s tap c. rg_slot_release g = Some s \<and> rg_tap_name g = Some tap \<and> rg_tap_owned g
       \<and> pool_tap_index tap = Some (sr_index s) \<and> files w (SLOTS_DIR, show_u8 (sr_index s)) = Some c
       \<and> first_line c = Some (sr_room_id s) \<and> files w' = (files w)((SLOTS_DIR, show_u8 (sr_index s)) := None)
       \<and> remove_egress_and_tap env tap (net_state (clone_side (host w))) = (Inr (), net_state (clone_side (host w'))))"
    by blast+
qed

text \<open>The commands that act on processes and mounts; everything else a cleanup runs acts on the network.\<close>

definition process_commands :: "command_spec set" where
  "process_commands = {c. cmd_program c \<in> {''kill'', ''umount''}}"

lemma kill_is_process [simp]: "kill_cmd flag pid \<in> process_commands"
  by (simp add: kill_cmd_def process_commands_def)

lemma reached_pid_exists: "reached_by (re_run env) process_commands n (snd (pid_exists env pid n))"
  using reached_run[OF kill_is_process, of "re_run env" n "''0''" pid] by (auto simp: pid_exists_def split: prod.splits sum.splits)

lemma reached_wait_gone: "reached_by (re_run env) process_commands n (snd (wait_gone env pid k n))"
proof (induction k arbitrary: n)
  case (Suc k)
  then show ?case using reached_pid_exists[of env n pid] by (auto split: prod.splits bool.splits intro: reached.trans)
qed simp

lemma reached_kill: "reached_by (re_run env) process_commands n (kill_child_gracefully env pid grace n)"
proof (cases pid)
  case (Some p)
  let ?n = "snd (re_run env (kill_cmd ''TERM'' p) n)"
  obtain gone m where m: "wait_gone env p (re_polls env (min grace 5000)) ?n = (gone, m)" by fastforce
  obtain ex k where k: "pid_exists env p m = (ex, k)" by fastforce
  have "reached_by (re_run env) process_commands n m" "reached_by (re_run env) process_commands m k"
    using reached_run[OF kill_is_process, of "re_run env" n "''TERM''" p] reached_wait_gone[of env ?n p "re_polls env (min grace 5000)"]
      reached_pid_exists[of env m p] m k by (auto intro: reached.trans)
  moreover have "reached_by (re_run env) process_commands k (snd (re_run env (kill_cmd ''KILL'' p) k))" by (rule reached_run) simp
  ultimately show ?thesis using Some m k
    by (auto simp: kill_child_gracefully_def Let_def split: bool.splits intro: reached.trans)
qed (simp add: kill_child_gracefully_def)

lemma reached_unmount: "reached_by (re_run env) process_commands n (snd (unmount env target n))"
  using reached_run[of "\<lparr>cmd_program = ''umount'', cmd_args = [target]\<rparr>" process_commands "re_run env" n]
  by (auto simp: unmount_def process_commands_def split: prod.splits sum.splits)

lemma reached_unmount_retry: "reached_by (re_run env) process_commands (snd r) (snd (unmount_retry env target k r))"
proof (induction env target k r rule: unmount_retry.induct)
  case (3 env target k reason n)
  then show ?case using reached_unmount[of env n target] by (auto intro: reached.trans)
qed simp_all

lemma reached_unmount_present:
  "reached_by (re_run env) process_commands (net_state (clone_side h)) (net_state (clone_side (unmount_present env d name h)))"
proof -
  have "reached_by (re_run env) process_commands n (snd (unmount_settled env t n))" for t n
    unfolding unmount_settled_def by (rule reached.trans[OF reached_unmount reached_unmount_retry])
  then show ?thesis by (auto simp: unmount_present_def on_programs_def split: option.splits prod.splits) (metis snd_conv)
qed

lemma reached_teardown_jail:
  "reached_by (re_run env) process_commands (net_state (clone_side h)) (net_state (clone_side (snd (teardown_jail_sync env d h))))"
proof -
  have "reached_by (re_run env) process_commands (net_state (clone_side h)) (net_state (clone_side (fold (unmount_present env d) names h)))" for names
    by (induction names arbitrary: h) (auto intro: reached.trans[OF reached_unmount_present])
  from this[of "[JAIL_KERNEL, JAIL_ROOTFS, SNAPSHOT_MEM_FILE, JAIL_TOOLSTORE]"] show ?thesis
    by (auto simp: teardown_jail_sync_def Let_def split: option.splits)
qed

text \<open>The network is released only under the guard's own claim, and then by removing exactly its tap and egress rules.\<close>

lemma release_network_net:
  assumes "release_network env g w = w'"
  shows "net_state (clone_side (host w')) = net_state (clone_side (host w))
    \<or> (\<exists>s tap c. rg_slot_release g = Some s \<and> rg_tap_name g = Some tap \<and> pool_tap_index tap = Some (sr_index s)
        \<and> files w (SLOTS_DIR, show_u8 (sr_index s)) = Some c \<and> first_line c = Some (sr_room_id s)
        \<and> net_state (clone_side (host w')) = snd (remove_egress_and_tap env tap (net_state (clone_side (host w)))))"
proof -
  have owned: "host v' = host v \<or> (\<exists>c. files v (SLOTS_DIR, show_u8 i) = Some c \<and> first_line c = Some o') \<and> host v' = snd (cleanup (host v))"
    if "free_with_cleanup io i o' cleanup v = (r, v')" for io i o' cleanup r and v v' :: "'a room_host world"
    using that by (auto simp: free_with_cleanup_def free_with_def read_to_string_def remove_file_def SLOT_POOL_def
        split: sum.splits option.splits if_splits prod.splits io_error.splits release_error.splits free_outcome.splits)
  have net: "net_state (clone_side (snd (map_err f (on_programs k h)))) = snd (k (net_state (clone_side h)))" for f k and h :: "'a room_host"
    by (auto simp: map_err_def on_programs_def split: prod.splits sum.splits)
  consider "w' = w" | s tap r where "rg_slot_release g = Some s" "rg_tap_name g = Some tap"
      "pool_tap_index tap = Some (sr_index s)" "free_with_cleanup (re_io env) (sr_index s) (sr_room_id s)
        (\<lambda>h. map_err (firecracker_error_text (re_text env)) (on_programs (remove_egress_and_tap env tap) h)) w = (r, w')"
    using assms
    by (auto simp: release_network_def release_network_with_def plan_release_def split: option.splits if_splits)
      (metis surjective_pairing)
  then show ?thesis
  proof cases
    case 2
    then show ?thesis using owned[OF 2(4)] by (auto simp: net)
  qed simp
qed

subsection \<open>The reap-clean gate\<close>

lemma id_not_slots: "is_id_shaped d \<Longrightarrow> d \<noteq> SLOTS_DIR"
  by (auto simp: is_id_shaped_def SLOTS_DIR_def)

lemma cleanup_sync_steps:
  assumes "cleanup_sync env g w = (g', w')" "\<not> rg_suppress_cleanup g"
  obtains w2 where "dirs w2 = dirs w" "files w2 = files w" "markers (clone_side (host w2)) = markers (clone_side (host w))"
      "\<And>j. j \<noteq> rg_socket g \<Longrightarrow> rg_jail_instance_dir g \<noteq> Some j \<Longrightarrow> jails (host w2) j = jails (host w) j"
      "w' = w2 \<or> (\<forall>j. rg_jail_instance_dir g = Some j \<longrightarrow> jails (host w2) j = None) \<and>
         (\<exists>r w3. remove_room_dir env (rg_room_dir g) w2 = (r, w3) \<and>
            (w' = w3 \<or> \<not> dirs w3 (rg_room_dir g) \<and>
               w' = release_network env (g\<lparr>rg_child_pid := None, rg_jail_instance_dir := None\<rparr>) w3))"
      "reached_by (re_run env) process_commands (net_state (clone_side (host w))) (net_state (clone_side (host w2)))"
proof -
  define h1 where "h1 = remove_socket env (rg_socket g)
      (snd (on_programs (\<lambda>n. ((), kill_child_gracefully env (rg_child_pid g) (rg_cleanup_grace g) n)) (host w)))"
  define td where "td = (case rg_jail_instance_dir g of
      None \<Rightarrow> (True, w\<lparr>host := h1\<rparr>) | Some j \<Rightarrow> on_host (teardown_jail_sync env j) (w\<lparr>host := h1\<rparr>))"
  obtain gone w2 where td2: "td = (gone, w2)" by fastforce
  have h1: "markers (clone_side h1) = markers (clone_side (host w))" "j \<noteq> rg_socket g \<Longrightarrow> jails h1 j = jails (host w) j" for j
    unfolding h1_def by (auto simp: remove_socket_frame on_programs_def)
  have n1: "reached_by (re_run env) process_commands (net_state (clone_side (host w))) (net_state (clone_side h1))"
    unfolding h1_def using reached_kill by (simp add: remove_socket_frame on_programs_def)
  have frame: "dirs w2 = dirs w \<and> files w2 = files w \<and> markers (clone_side (host w2)) = markers (clone_side (host w))
      \<and> (\<forall>j. j \<noteq> rg_socket g \<and> rg_jail_instance_dir g \<noteq> Some j \<longrightarrow> jails (host w2) j = jails (host w) j)
      \<and> (gone \<longrightarrow> (\<forall>j. rg_jail_instance_dir g = Some j \<longrightarrow> jails (host w2) j = None))"
  proof (cases "rg_jail_instance_dir g")
    case None
    then show ?thesis using td2 h1 by (auto simp: td_def)
  next
    case (Some j)
    then obtain h2 where h2: "teardown_jail_sync env j h1 = (gone, h2)" "w2 = w\<lparr>host := h2\<rparr>"
      using td2 by (auto simp: td_def on_host_def split: prod.splits)
    show ?thesis using teardown_jail_result[OF h2(1)] h2(2) h1 Some by auto
  qed
  obtain r w3 where r: "remove_room_dir env (rg_room_dir g) w2 = (r, w3)" by fastforce
  have rr: "r \<in> {Inr (), Inl NotFound} \<longleftrightarrow> \<not> dirs w3 (rg_room_dir g)" using remove_room_dir_result(4)[OF r] .
  have eq: "cleanup_sync env g w = (case td of (torn_down, w) \<Rightarrow>
      if \<not> torn_down then (g\<lparr>rg_child_pid := None, rg_jail_instance_dir := None\<rparr>, w)
      else (case remove_room_dir env (rg_room_dir g) w of
          (Inr _, w) \<Rightarrow> (g\<lparr>rg_child_pid := None, rg_jail_instance_dir := None\<rparr>,
             release_network env (g\<lparr>rg_child_pid := None, rg_jail_instance_dir := None\<rparr>) w)
        | (Inl NotFound, w) \<Rightarrow> (g\<lparr>rg_child_pid := None, rg_jail_instance_dir := None\<rparr>,
             release_network env (g\<lparr>rg_child_pid := None, rg_jail_instance_dir := None\<rparr>) w)
        | (Inl _, w) \<Rightarrow> (g\<lparr>rg_child_pid := None, rg_jail_instance_dir := None\<rparr>, w)))"
    using assms(2) by (cases "rg_jail_instance_dir g") (simp_all add: cleanup_sync_def td_def h1_def Let_def)
  have "w' = w2 \<and> \<not> gone \<or> gone \<and> (w' = w3 \<or> \<not> dirs w3 (rg_room_dir g) \<and>
      w' = release_network env (g\<lparr>rg_child_pid := None, rg_jail_instance_dir := None\<rparr>) w3)"
    using assms(1) rr remove_room_dir_result(5)[OF r] unfolding eq td2 by (auto simp: r split: if_splits)
  moreover have "reached_by (re_run env) process_commands (net_state (clone_side (host w))) (net_state (clone_side (host w2)))"
    using td2 n1 reached_teardown_jail[of env h1] unfolding td_def on_host_def
    by (auto split: option.splits prod.splits intro: reached.trans) (metis reached.trans snd_conv)
  ultimately show thesis using that[of w2] frame r by blast
qed

lemma guard_cleanup_frame:
  assumes "guard_cleanup env g w = (g', w')"
  shows "d \<noteq> rg_room_dir g \<Longrightarrow> dirs w' d = dirs w d"
    "fst p \<notin> {rg_room_dir g, SLOTS_DIR} \<Longrightarrow> files w' p = files w p"
    "j \<noteq> rg_socket g \<Longrightarrow> rg_jail_instance_dir g \<noteq> Some j \<Longrightarrow> jails (host w') j = jails (host w) j"
    "markers (clone_side (host w')) = markers (clone_side (host w))"
proof -
  have "(d \<noteq> rg_room_dir g \<longrightarrow> dirs w' d = dirs w d) \<and> (fst p \<notin> {rg_room_dir g, SLOTS_DIR} \<longrightarrow> files w' p = files w p)
    \<and> (j \<noteq> rg_socket g \<and> rg_jail_instance_dir g \<noteq> Some j \<longrightarrow> jails (host w') j = jails (host w) j)
    \<and> markers (clone_side (host w')) = markers (clone_side (host w))"
  proof (cases "rg_suppress_cleanup g \<or> rg_dismiss g")
    case True
    then show ?thesis using assms(1) by (auto simp: guard_cleanup_def)
  next
    case False
    then have cs: "cleanup_sync env g w = (g', w')" "\<not> rg_suppress_cleanup g" using assms(1) by (auto simp: guard_cleanup_def)
    show ?thesis
    proof (rule cleanup_sync_steps[OF cs], goal_cases)
      case (1 w2)
      then show ?case
      proof (cases "w' = w2")
        case False
        then obtain r w3 where r: "remove_room_dir env (rg_room_dir g) w2 = (r, w3)"
          and rel: "w' = w3 \<or> w' = release_network env (g\<lparr>rg_child_pid := None, rg_jail_instance_dir := None\<rparr>) w3"
          using 1(5) by blast
        show ?thesis using rel
        proof
          assume "w' = release_network env (g\<lparr>rg_child_pid := None, rg_jail_instance_dir := None\<rparr>) w3"
          from release_network_change[OF this[symmetric]] show ?thesis
            using 1(1-4) remove_room_dir_result(1-3)[OF r] by (cases p) auto
        qed (use 1(1-4) remove_room_dir_result(1-3)[OF r] in \<open>cases p, auto\<close>)
      qed simp
    qed
  qed
  then show "d \<noteq> rg_room_dir g \<Longrightarrow> dirs w' d = dirs w d"
    "fst p \<notin> {rg_room_dir g, SLOTS_DIR} \<Longrightarrow> files w' p = files w p"
    "j \<noteq> rg_socket g \<Longrightarrow> rg_jail_instance_dir g \<noteq> Some j \<Longrightarrow> jails (host w') j = jails (host w) j"
    "markers (clone_side (host w')) = markers (clone_side (host w))" by auto
qed

lemma guard_cleanup_claim:
  assumes "guard_cleanup env g w = (g', w')" and "is_id_shaped (rg_room_dir g)"
    and ch: "files w' (SLOTS_DIR, k) \<noteq> files w (SLOTS_DIR, k)"
  shows "\<exists>s tap c n. rg_slot_release g = Some s \<and> k = show_u8 (sr_index s) \<and> files w (SLOTS_DIR, k) = Some c
         \<and> first_line c = Some (sr_room_id s) \<and> files w' (SLOTS_DIR, k) = None
         \<and> rg_tap_name g = Some tap \<and> pool_tap_index tap = Some (sr_index s)
         \<and> remove_egress_and_tap env tap n = (Inr (), net_state (clone_side (host w')))
         \<and> \<not> dirs w' (rg_room_dir g) \<and> (\<forall>j. rg_jail_instance_dir g = Some j \<longrightarrow> jails (host w') j = None)"
proof -
  have cs: "cleanup_sync env g w = (g', w')" "\<not> rg_suppress_cleanup g"
    using assms(1) ch by (auto simp: guard_cleanup_def split: if_splits)
  obtain w2 r w3 where w2: "files w2 = files w" "\<forall>j. rg_jail_instance_dir g = Some j \<longrightarrow> jails (host w2) j = None"
    and r: "remove_room_dir env (rg_room_dir g) w2 = (r, w3)"
    and rel: "w' = w3 \<or> \<not> dirs w3 (rg_room_dir g) \<and> w' = release_network env (g\<lparr>rg_child_pid := None, rg_jail_instance_dir := None\<rparr>) w3"
    by (rule cleanup_sync_steps[OF cs]) (use ch in auto)
  note w3 = remove_room_dir_result(1-3)[OF r]
  have slots: "files w3 (SLOTS_DIR, k) = files w (SLOTS_DIR, k)" for k using w3(3) w2(1) id_not_slots[OF assms(2)] by simp
  then have rn: "release_network env (g\<lparr>rg_child_pid := None, rg_jail_instance_dir := None\<rparr>) w3 = w'"
    and nd: "\<not> dirs w3 (rg_room_dir g)" using rel ch by auto
  show ?thesis using release_network_change[OF rn] w2 w3 slots nd ch by (auto split: if_splits; blast)
qed

lemma guard_cleanup_order:
  assumes "guard_cleanup env g w = (g', w')" and "is_id_shaped (rg_room_dir g)"
  shows "dirs w' (rg_room_dir g) \<noteq> dirs w (rg_room_dir g) \<or> files w' (rg_room_dir g, name) \<noteq> files w (rg_room_dir g, name)
      \<Longrightarrow> rg_jail_instance_dir g = Some j \<Longrightarrow> jails (host w') j = None"
    and "\<exists>m. reached_by (re_run env) process_commands (net_state (clone_side (host w))) m
      \<and> (net_state (clone_side (host w')) = m
        \<or> \<not> dirs w' (rg_room_dir g) \<and> (\<forall>j. rg_jail_instance_dir g = Some j \<longrightarrow> jails (host w') j = None)
          \<and> (\<exists>s tap c. rg_slot_release g = Some s \<and> rg_tap_name g = Some tap \<and> pool_tap_index tap = Some (sr_index s)
               \<and> files w (SLOTS_DIR, show_u8 (sr_index s)) = Some c \<and> first_line c = Some (sr_room_id s)
               \<and> net_state (clone_side (host w')) = snd (remove_egress_and_tap env tap m)))"
proof -
  let ?jail = "\<forall>j. rg_jail_instance_dir g = Some j \<longrightarrow> jails (host w') j = None"
  have "((dirs w' (rg_room_dir g) \<noteq> dirs w (rg_room_dir g) \<or> files w' (rg_room_dir g, name) \<noteq> files w (rg_room_dir g, name)) \<longrightarrow> ?jail)
    \<and> (\<exists>m. reached_by (re_run env) process_commands (net_state (clone_side (host w))) m
      \<and> (net_state (clone_side (host w')) = m
        \<or> \<not> dirs w' (rg_room_dir g) \<and> ?jail
          \<and> (\<exists>s tap c. rg_slot_release g = Some s \<and> rg_tap_name g = Some tap \<and> pool_tap_index tap = Some (sr_index s)
               \<and> files w (SLOTS_DIR, show_u8 (sr_index s)) = Some c \<and> first_line c = Some (sr_room_id s)
               \<and> net_state (clone_side (host w')) = snd (remove_egress_and_tap env tap m))))"
  proof (cases "rg_suppress_cleanup g \<or> rg_dismiss g")
    case True
    then have "w' = w" using assms(1) by (auto simp: guard_cleanup_def)
    then show ?thesis using reached.refl[of "re_run env" process_commands] by blast
  next
    case False
    then have cs: "cleanup_sync env g w = (g', w')" "\<not> rg_suppress_cleanup g" using assms(1) by (auto simp: guard_cleanup_def)
    show ?thesis
    proof (rule cleanup_sync_steps[OF cs], goal_cases)
      case (1 w2)
      show ?case
      proof (cases "w' = w2")
        case False
        then obtain r w3 where jail: "\<forall>j. rg_jail_instance_dir g = Some j \<longrightarrow> jails (host w2) j = None"
          and r: "remove_room_dir env (rg_room_dir g) w2 = (r, w3)"
          and rel: "w' = w3 \<or> \<not> dirs w3 (rg_room_dir g) \<and> w' = release_network env (g\<lparr>rg_child_pid := None, rg_jail_instance_dir := None\<rparr>) w3"
          using 1(5) by blast
        note w3 = remove_room_dir_result(1,3)[OF r]
        have slots: "files w3 (SLOTS_DIR, k) = files w (SLOTS_DIR, k)" for k using w3(2) 1(2) id_not_slots[OF assms(2)] by simp
        show ?thesis using rel
        proof
          assume rn: "\<not> dirs w3 (rg_room_dir g) \<and> w' = release_network env (g\<lparr>rg_child_pid := None, rg_jail_instance_dir := None\<rparr>) w3"
          then have eq: "release_network env (g\<lparr>rg_child_pid := None, rg_jail_instance_dir := None\<rparr>) w3 = w'" by simp
          have "?jail" "\<not> dirs w' (rg_room_dir g)" using release_network_change(1,2)[OF eq] rn jail w3(1) by auto
          then show ?thesis using release_network_net[OF eq] 1(6) w3(1) slots by auto
        qed (use jail w3(1) 1(6) in auto)
      qed (use 1 in auto)
    qed
  qed
  then show "dirs w' (rg_room_dir g) \<noteq> dirs w (rg_room_dir g) \<or> files w' (rg_room_dir g, name) \<noteq> files w (rg_room_dir g, name)
      \<Longrightarrow> rg_jail_instance_dir g = Some j \<Longrightarrow> jails (host w') j = None"
    "\<exists>m. reached_by (re_run env) process_commands (net_state (clone_side (host w))) m
      \<and> (net_state (clone_side (host w')) = m
        \<or> \<not> dirs w' (rg_room_dir g) \<and> ?jail
          \<and> (\<exists>s tap c. rg_slot_release g = Some s \<and> rg_tap_name g = Some tap \<and> pool_tap_index tap = Some (sr_index s)
               \<and> files w (SLOTS_DIR, show_u8 (sr_index s)) = Some c \<and> first_line c = Some (sr_room_id s)
               \<and> net_state (clone_side (host w')) = snd (remove_egress_and_tap env tap m)))" by blast+
qed

text \<open>C27. Cleaning up a room takes the jail, the room directory, the network and the slot in this order, whatever fails. The room
  directory or a file in it changes only when the jail is gone. The network is first reached only by commands that signal
  processes or unmount; anything more is the removal of exactly the guard's own tap and egress rules, done only when the jail
  and the room directory are gone and while the claim of the guard's slot names the guard's room. A slot file changes only by
  removing that claim, after the tap and its egress rules were removed with success, and the tap's name and the slot index agree.
  Directories and files of other rooms, other slots, other jails and all owner markers stay as they were.\<close>

theorem cleanup_releases_slot_last:
  assumes "guard_cleanup env g w = (g', w')" and "is_id_shaped (rg_room_dir g)"
  shows "(\<forall>k. files w' (SLOTS_DIR, k) \<noteq> files w (SLOTS_DIR, k) \<longrightarrow>
      (\<exists>s tap c n. rg_slot_release g = Some s \<and> k = show_u8 (sr_index s) \<and> files w (SLOTS_DIR, k) = Some c
         \<and> first_line c = Some (sr_room_id s) \<and> files w' (SLOTS_DIR, k) = None
         \<and> rg_tap_name g = Some tap \<and> pool_tap_index tap = Some (sr_index s)
         \<and> remove_egress_and_tap env tap n = (Inr (), net_state (clone_side (host w')))
         \<and> \<not> dirs w' (rg_room_dir g) \<and> (\<forall>j. rg_jail_instance_dir g = Some j \<longrightarrow> jails (host w') j = None)))
    \<and> (\<forall>name j. (dirs w' (rg_room_dir g) \<noteq> dirs w (rg_room_dir g) \<or> files w' (rg_room_dir g, name) \<noteq> files w (rg_room_dir g, name))
         \<and> rg_jail_instance_dir g = Some j \<longrightarrow> jails (host w') j = None)
    \<and> (\<exists>m. reached_by (re_run env) process_commands (net_state (clone_side (host w))) m
        \<and> (net_state (clone_side (host w')) = m
          \<or> \<not> dirs w' (rg_room_dir g) \<and> (\<forall>j. rg_jail_instance_dir g = Some j \<longrightarrow> jails (host w') j = None)
            \<and> (\<exists>s tap c. rg_slot_release g = Some s \<and> rg_tap_name g = Some tap \<and> pool_tap_index tap = Some (sr_index s)
                 \<and> files w (SLOTS_DIR, show_u8 (sr_index s)) = Some c \<and> first_line c = Some (sr_room_id s)
                 \<and> net_state (clone_side (host w')) = snd (remove_egress_and_tap env tap m))))
    \<and> (\<forall>d. d \<noteq> rg_room_dir g \<longrightarrow> dirs w' d = dirs w d)
    \<and> (\<forall>p. fst p \<notin> {rg_room_dir g, SLOTS_DIR} \<longrightarrow> files w' p = files w p)
    \<and> (\<forall>j. j \<noteq> rg_socket g \<and> rg_jail_instance_dir g \<noteq> Some j \<longrightarrow> jails (host w') j = jails (host w) j)
    \<and> markers (clone_side (host w')) = markers (clone_side (host w))"
proof (intro conjI)
  show "\<forall>k. files w' (SLOTS_DIR, k) \<noteq> files w (SLOTS_DIR, k) \<longrightarrow>
      (\<exists>s tap c n. rg_slot_release g = Some s \<and> k = show_u8 (sr_index s) \<and> files w (SLOTS_DIR, k) = Some c
         \<and> first_line c = Some (sr_room_id s) \<and> files w' (SLOTS_DIR, k) = None
         \<and> rg_tap_name g = Some tap \<and> pool_tap_index tap = Some (sr_index s)
         \<and> remove_egress_and_tap env tap n = (Inr (), net_state (clone_side (host w')))
         \<and> \<not> dirs w' (rg_room_dir g) \<and> (\<forall>j. rg_jail_instance_dir g = Some j \<longrightarrow> jails (host w') j = None))"
    using guard_cleanup_claim[OF assms] by blast
qed (use guard_cleanup_order[OF assms] guard_cleanup_frame[OF assms(1)] in blast)+

subsection \<open>Signals only reach the recorded process\<close>

text \<open>The environment that also records, at every program it runs, what the identity check says at that moment.\<close>

definition recording :: "'n reap_env \<Rightarrow> u32 \<Rightarrow> u64 option \<Rightarrow> ('n \<times> (command_spec \<times> liveness) list) reap_env" where
  "recording env pid starttime =
     \<lparr>re_io = re_io env, re_text = re_text env, re_poisoned = re_poisoned env,
      re_run = (\<lambda>c (n, log). case re_run env c n of (r, n') \<Rightarrow> (r, (n', log @ [(c, probe_now env pid starttime n)]))),
      re_jail_left = (\<lambda>d (n, _). re_jail_left env d n), re_room_left = re_room_left env,
      re_stat = (\<lambda>(n, _). re_stat env n), re_sleep = (\<lambda>(n, log). (re_sleep env n, log)), re_polls = re_polls env\<rparr>"

lemma recording_probe [simp]: "probe_now (recording env p s) pid starttime (n, log) = probe_now env pid starttime n"
  by (simp add: probe_now_def recording_def)

lemma recording_signal [simp]:
  "send_signal (recording env p s) pid sig (n, log) = (send_signal env pid sig n, log @ [(kill_cmd sig pid, probe_now env p s n)])"
  by (auto simp: send_signal_def recording_def split: prod.splits)

lemma recording_polls [simp]: "re_polls (recording env p s) = re_polls env" by (simp add: recording_def)

lemma recording_poll:
  "poll_until_dead (recording env p s) pid starttime k (n, log) =
     (case poll_until_dead env pid starttime k n of (l, n') \<Rightarrow> (l, (n', log)))"
proof (induction k arbitrary: n)
  case 0
  then show ?case by (simp add: poll_until_dead.simps[where polls = 0] Let_def split: prod.splits)
next
  case (Suc k)
  then show ?case
    by (simp add: poll_until_dead.simps[where polls = "Suc k"] Let_def) (simp add: recording_def)
qed

lemma poll_result: "poll_until_dead env pid starttime k n = (l, n') \<Longrightarrow> probe_now env pid starttime n' = l"
proof (induction k arbitrary: n)
  case 0
  then show ?case by (auto simp: poll_until_dead.simps[where polls = 0] Let_def split: if_splits)
next
  case (Suc k)
  then show ?case by (auto simp: poll_until_dead.simps[where polls = "Suc k"] Let_def split: if_splits)
qed

text \<open>C28. \<open>rooms kill\<close> signals only the process it recorded. Whatever happens to the pid in between, every signal is sent at a moment
  at which the identity check reads the recorded process as alive: at most one SIGTERM and then at most one SIGKILL. The room may be
  reaped exactly on the outcomes \<open>Signaled\<close> and \<open>AlreadyExited\<close>, and then the check reads it as dead; recording changes nothing.\<close>

theorem signals_only_the_recorded_process:
  assumes "terminate_by_identity (recording env pid starttime) pid starttime grace (n, []) = (out, (n', log))"
  shows "terminate_by_identity env pid starttime grace n = (out, n')
    \<and> log \<in> {[], [(kill_cmd ''TERM'' pid, Alive)], [(kill_cmd ''TERM'' pid, Alive), (kill_cmd ''KILL'' pid, Alive)]}
    \<and> (out = KillAlreadyExited \<longrightarrow> log = []) \<and> (out = KillSignaled \<or> out = KillSurvived \<longrightarrow> log \<noteq> [])
    \<and> probe_now env pid starttime n' = (case out of KillSignaled \<Rightarrow> Dead | KillAlreadyExited \<Rightarrow> Dead
        | KillSurvived \<Rightarrow> Alive | KillIndeterminate \<Rightarrow> Indeterminate)"
  using assms
  by (auto simp: terminate_by_identity_def sigkill_and_confirm_def recording_poll poll_result
      split: liveness.splits prod.splits dest: poll_result)

text \<open>A host on which one room process runs until it is signalled.\<close>

definition demo_reap_env :: "bool reap_env" where
  "demo_reap_env = \<lparr>re_io = demo_env, re_text = (\<lambda>_. []), re_poisoned = False,
     re_run = (\<lambda>c n. (Inr \<lparr>out_success = n, out_stdout = [], out_stderr = ''Chain does not exist''\<rparr>, n \<and> cmd_program c \<noteq> ''kill'')),
     re_jail_left = (\<lambda>_ _. None), re_room_left = (\<lambda>_. None),
     re_stat = (\<lambda>n _. if n then Inr ''7 (jailer) S 1 1 1 0 -1 4 0 0 0 0 0 0 0 0 20 0 1 0 99 0'' else Inl NotFound),
     re_sleep = (\<lambda>n. n), re_polls = (\<lambda>_. 3)\<rparr>"

lemma demo_probe_now: "probe_now demo_reap_env 7 (Some 99) n = (if n then Alive else Dead)"
  by (simp add: probe_now_def demo_reap_env_def probe_def probe_pid_def identity_check_of_stat_line_witness)

theorem signals_only_the_recorded_process_witness:
  "\<exists>n' log. terminate_by_identity (recording demo_reap_env 7 (Some 99)) 7 (Some 99) 5000 (True, []) = (KillSignaled, (n', log))
     \<and> log \<noteq> [] \<and> probe_now demo_reap_env 7 (Some 99) n' = Dead"
proof -
  obtain out n' log where t: "terminate_by_identity (recording demo_reap_env 7 (Some 99)) 7 (Some 99) 5000 (True, []) = (out, (n', log))"
    by (metis surj_pair)
  have "fst (terminate_by_identity (recording demo_reap_env 7 (Some 99)) 7 (Some 99) 5000 (True, [])) = KillSignaled"
    by (simp add: terminate_by_identity_def demo_probe_now poll_until_dead.simps Let_def)
      (simp add: send_signal_def demo_reap_env_def kill_cmd_def)
  then have "out = KillSignaled" using t by simp
  then show ?thesis using t signals_only_the_recorded_process[OF t] by auto
qed

subsection \<open>A cleaned room\<close>

definition demo_room_world :: "bool room_host world" where
  "demo_room_world = \<lparr>dirs = (\<lambda>_. True),
     files = (\<lambda>p. if p = (''slots'', ''1'') then Some (claim_text demo_owner demo_me) else None),
     host = \<lparr>jails = (\<lambda>d. if d = ''/j'' then Some [JAIL_KERNEL] else None),
       clone_side = \<lparr>markers = Map.empty, net_state = False\<rparr>\<rparr>\<rparr>"

definition demo_guard :: room_guard where
  "demo_guard = set_slot \<lparr>sr_index = 1, sr_tap = ''tap-fc1'', sr_room_id = demo_owner\<rparr> (for_orphan demo_owner ''/j'' ''/j'' default_config)"

lemma demo_run_fails: "re_run demo_reap_env c False = (Inr \<lparr>out_success = False, out_stdout = [], out_stderr = ''Chain does not exist''\<rparr>, False)"
  by (simp add: demo_reap_env_def)

lemma demo_reap_parts: "re_poisoned demo_reap_env = False" "re_io demo_reap_env = demo_env" "re_text demo_reap_env = (\<lambda>_. [])"
  "re_jail_left demo_reap_env d n = None" "re_room_left demo_reap_env d = None"
  by (simp_all add: demo_reap_env_def)

lemma demo_remove: "remove_egress_and_tap demo_reap_env ''tap-fc1'' False = (Inr (), False)"
proof -
  have d: "delete_while (runner_iptables (re_text demo_reap_env) (re_run demo_reap_env)) a b False = Some (Inr (), False)" for a b
    by (subst delete_while.simps) (simp add: iptables_exists_def iptables_output_def runner_iptables_def demo_run_fails iptables_rule_is_absent_def)
  have e: "iptables_exists (runner_iptables (re_text demo_reap_env) (re_run demo_reap_env)) a False = (Inr False, False)" for a
    by (simp add: iptables_exists_def iptables_output_def runner_iptables_def demo_run_fails iptables_rule_is_absent_def)
  have c: "chain_for_tap ''tap-fc1'' = Some ''ROOMS_EG_1''"
    by (simp add: chain_for_tap_def TAP_PREFIX_def EG_CHAIN_PREFIX_def strip_prefix_def is_ascii_digit_def)
  have "remove_checked False (runner_iptables (re_text demo_reap_env) (re_run demo_reap_env)) ''tap-fc1'' False = Some (Inr (), False)"
    by (simp add: remove_checked_def in_transaction_def lock_iptables_transaction_def remove_checked_locked_def c then_run_def d e)
  then have "remove_flat_egress demo_reap_env ''tap-fc1'' False = (Inr (), False)"
    by (simp add: remove_flat_egress_def demo_reap_parts(1))
  moreover have "delete_tap_checked demo_reap_env ''tap-fc1'' False = (Inr (), False)"
    by (simp add: delete_tap_checked_def demo_run_fails absent_device_def)
  ultimately show ?thesis by (simp add: remove_egress_and_tap_def map_err_def)
qed

lemma demo_guard_sel:
  "rg_suppress_cleanup demo_guard = False" "rg_dismiss demo_guard = False" "rg_child_pid demo_guard = None"
  "rg_jail_instance_dir demo_guard = Some ''/j''" "rg_room_dir demo_guard = demo_owner" "rg_socket demo_guard = ''/j''"
  by (simp_all add: demo_guard_def set_slot_def for_orphan_def guard_new_def)

lemma demo_release:
  assumes "net_state (clone_side (host w)) = False" "files w (SLOTS_DIR, ''1'') = Some (claim_text demo_owner demo_me)"
  shows "files (release_network demo_reap_env (demo_guard\<lparr>rg_child_pid := None, rg_jail_instance_dir := None\<rparr>) w) (SLOTS_DIR, ''1'') = None"
proof -
  have p: "pool_tap_index ''tap-fc1'' = Some 1"
    by (simp add: pool_tap_index_def strip_prefix_def parse_u8_def parse_uint_def is_ascii_digit_def digits_val_def digit_val_def MAX_SLOT_def)
  have "plan_release (rg_tap_name demo_guard) (rg_tap_owned demo_guard) (rg_slot_release demo_guard) = Some (SlotBound 1 ''tap-fc1'' demo_owner)"
    by (simp add: demo_guard_def set_slot_def plan_release_def p)
  then show ?thesis using assms
    by (simp add: release_network_def release_network_with_def free_with_cleanup_def ensure_pool_index_def MAX_SLOT_def free_with_def
        lock_frees_def SLOT_POOL_def first_line_claim_text demo_reap_parts on_programs_def demo_remove map_err_def)
qed

theorem cleanup_releases_slot_last_witness:
  "\<exists>w'. guard_cleanup demo_reap_env demo_guard demo_room_world
       = (demo_guard\<lparr>rg_child_pid := None, rg_jail_instance_dir := None\<rparr>, w')
     \<and> files w' (SLOTS_DIR, ''1'') = None \<and> \<not> dirs w' demo_owner \<and> jails (host w') ''/j'' = None \<and> dirs w' ''other''"
proof -
  obtain g' w' where c: "guard_cleanup demo_reap_env demo_guard demo_room_world = (g', w')" by fastforce
  have "fst (guard_cleanup demo_reap_env demo_guard demo_room_world) = demo_guard\<lparr>rg_child_pid := None, rg_jail_instance_dir := None\<rparr>
      \<and> files (snd (guard_cleanup demo_reap_env demo_guard demo_room_world)) (SLOTS_DIR, ''1'') = None"
  proof -
    have u: "unmount_present demo_reap_env ''/j'' name h = h" if "net_state (clone_side h) = False" for name h
    proof -
      have "h\<lparr>clone_side := (clone_side h)\<lparr>net_state := False\<rparr>\<rparr> = h" using that by (cases h, cases "clone_side h") simp
      moreover have "\<exists>r. unmount_settled demo_reap_env t False = (r, False)" for t
        by (simp add: unmount_settled_def unmount_def demo_run_fails UNMOUNT_RETRIES_def numeral_eq_Suc trim_def is_whitespace_def)
      then obtain r where "\<And>t. unmount_settled demo_reap_env t False = (r t, False)" by metis
      ultimately show ?thesis using that by (simp add: unmount_present_def on_programs_def split: option.split)
    qed
    define h1 where "h1 = remove_socket demo_reap_env ''/j'' (host demo_room_world)"
    have k: "snd (on_programs (\<lambda>n. ((), kill_child_gracefully demo_reap_env None grace n)) (host demo_room_world)) = host demo_room_world" for grace
      by (simp add: kill_child_gracefully_def on_programs_def demo_room_world_def)
    have h1: "net_state (clone_side h1) = False" "jails h1 ''/j'' \<noteq> None"
      unfolding h1_def by (simp_all add: remove_socket_frame) (simp_all add: demo_room_world_def)
    then have t: "teardown_jail_sync demo_reap_env ''/j'' h1 = (True, h1\<lparr>jails := (jails h1)(''/j'' := None)\<rparr>)"
      by (auto simp: teardown_jail_sync_def Let_def u demo_reap_parts split: option.split)
    have d: "dirs demo_room_world demo_owner" "files demo_room_world (SLOTS_DIR, ''1'') = Some (claim_text demo_owner demo_me)"
      by (simp_all add: demo_room_world_def SLOTS_DIR_def)
    show ?thesis
      by (simp add: guard_cleanup_def cleanup_sync_def Let_def demo_guard_sel k h1_def[symmetric] on_host_def t
          remove_room_dir_def d demo_reap_parts demo_release h1 id_not_slots[symmetric])
  qed
  then have gw: "g' = demo_guard\<lparr>rg_child_pid := None, rg_jail_instance_dir := None\<rparr>" "files w' (SLOTS_DIR, ''1'') = None" using c by auto
  have i: "is_id_shaped (rg_room_dir demo_guard)" by (simp add: demo_guard_def set_slot_def for_orphan_def guard_new_def)
  have j: "rg_jail_instance_dir demo_guard = Some ''/j''" "rg_room_dir demo_guard = demo_owner"
    by (simp_all add: demo_guard_def set_slot_def for_orphan_def guard_new_def)
  have "files w' (SLOTS_DIR, ''1'') \<noteq> files demo_room_world (SLOTS_DIR, ''1'')" using gw by (simp add: demo_room_world_def SLOTS_DIR_def)
  moreover have "dirs demo_room_world ''other''" "''other'' \<noteq> demo_owner" by (simp_all add: demo_room_world_def demo_owner_def)
  ultimately show ?thesis using cleanup_releases_slot_last[OF c i] c gw(1) gw(2) j by (metis (no_types, lifting))
qed

end
