(* ===== verification/Restore_Exec.thy ===== *)
theory Restore_Exec
  imports Teardown Restore
begin

text \<open>
  The durable side of a restore (\<open>src/src/restore_exec.rs\<close>): the intent index that survives a crash, the terminal
  teardown that returns a lease, and the sweep \<open>rooms gc\<close> runs over dead restores. JSON and the directory listing are
  arguments; an \<open>anyhow\<close> error is its text. The launch itself is in \<open>Restore_Launch\<close> and \<open>Restore_Drive\<close>.
\<close>

subsection \<open>Intents\<close>

definition INTENT_SCHEMA_VERSION :: u32 where "INTENT_SCHEMA_VERSION = 1"

datatype restore_boundary = PreSpawn | Spawned | Leased

record restore_intent =
  ri_schema_version :: u32
  ri_room_id :: string
  ri_snapshot_id :: string
  ri_slot_index :: u8
  ri_tap :: string
  ri_snapshot_dir :: string
  ri_image :: string
  ri_clone_net_index :: "u8 option"
  ri_pid :: "u32 option"
  ri_pid_starttime :: "u64 option"
  ri_boundary :: restore_boundary

definition is_valid_room_id :: "string \<Rightarrow> bool" where
  "is_valid_room_id s \<longleftrightarrow> length s = 26 \<and> list_all (\<lambda>b. is_ascii_digit b \<or> is_ascii_lowercase b) s"

definition restore_intent_name :: "string \<Rightarrow> string" where
  "restore_intent_name room_id = room_id @ ''.json''"

definition restore_intent_tmp :: "string \<Rightarrow> string" where
  "restore_intent_tmp room_id = CHR ''.'' # room_id @ ''.tmp''"

definition create_intent_exclusive ::
  "(restore_intent \<Rightarrow> string) \<Rightarrow> io_env \<Rightarrow> restore_intent \<Rightarrow> 'h world \<Rightarrow> (io_error + unit) \<times> 'h world" where
  "create_intent_exclusive to_json env i w =
     (let name = restore_intent_name (ri_room_id i) in
      and_then (create_dir_all env RESTORE_INTENTS_DIR w) (\<lambda>_ w.
      and_then (create_new_file env RESTORE_INTENTS_DIR name w) (\<lambda>_ w.
      and_then (write_all env RESTORE_INTENTS_DIR name (to_json i) w) (\<lambda>_ w.
        (case check_fault env (SyncAll RESTORE_INTENTS_DIR name) of
           Inl e \<Rightarrow> (Inl e, w)
         | Inr _ \<Rightarrow> (sync_dir env RESTORE_INTENTS_DIR, w))))))"

definition write_intent_atomic ::
  "(restore_intent \<Rightarrow> string) \<Rightarrow> io_env \<Rightarrow> restore_intent \<Rightarrow> 'h world \<Rightarrow> (io_error + unit) \<times> 'h world" where
  "write_intent_atomic to_json env i w =
     (let tmp = restore_intent_tmp (ri_room_id i) in
      and_then (open_truncate env RESTORE_INTENTS_DIR tmp w) (\<lambda>_ w.
      and_then (write_all env RESTORE_INTENTS_DIR tmp (to_json i) w) (\<lambda>_ w.
        (case check_fault env (SyncAll RESTORE_INTENTS_DIR tmp) of
           Inl e \<Rightarrow> (Inl e, w)
         | Inr _ \<Rightarrow> and_then (rename_file env RESTORE_INTENTS_DIR tmp (restore_intent_name (ri_room_id i)) w)
             (\<lambda>_ w. (sync_dir env RESTORE_INTENTS_DIR, w))))))"

definition finish_index :: "io_env \<Rightarrow> string \<Rightarrow> 'h world \<Rightarrow> (io_error + unit) \<times> 'h world" where
  "finish_index env room_id w = (case remove_file env RESTORE_INTENTS_DIR (restore_intent_name room_id) w of
     (Inr _, w) \<Rightarrow> (sync_dir env RESTORE_INTENTS_DIR, w)
   | (Inl NotFound, w) \<Rightarrow> (Inr (), w)
   | (Inl e, w) \<Rightarrow> (Inl e, w))"

definition path_extension :: "string \<Rightarrow> string option" where
  "path_extension name = (case rsplit_once CHR ''.'' name of
     None \<Rightarrow> None | Some (stem, ext) \<Rightarrow> if stem = [] then None else Some ext)"

definition validate_restore_intent :: "(io_error \<Rightarrow> string) \<Rightarrow> restore_intent \<Rightarrow> string + unit" where
  "validate_restore_intent io_text i =
     (if ri_schema_version i \<noteq> INTENT_SCHEMA_VERSION then Inl (''unsupported restore intent schema '' @ show_u32 (ri_schema_version i))
      else if \<not> is_valid_room_id (ri_room_id i) \<or> \<not> is_valid_room_id (ri_snapshot_id i)
      then Inl ''restore intent contains an invalid id''
      else (case ri_clone_net_index i of
          None \<Rightarrow> Inr ()
        | Some index \<Rightarrow> (case clone_net_derive index of
             Inl e \<Rightarrow> Inl (''restore intent carries invalid clone network: '' @ clone_net_error_text io_text e)
           | Inr _ \<Rightarrow> Inr ())))"

fun read_intent_entries ::
  "(io_error \<Rightarrow> string) \<Rightarrow> (string \<Rightarrow> string + restore_intent) \<Rightarrow> io_env \<Rightarrow> (io_error + string) list \<Rightarrow> 'h world
     \<Rightarrow> string + restore_intent list" where
  "read_intent_entries io_text from_json env [] w = Inr []"
| "read_intent_entries io_text from_json env (Inl e # rest) w = Inl (io_text e)"
| "read_intent_entries io_text from_json env (Inr name # rest) w =
     (if path_extension name \<noteq> Some ''json'' then read_intent_entries io_text from_json env rest w
      else (case read_to_string env RESTORE_INTENTS_DIR name w of
          Inl e \<Rightarrow> Inl (io_text e)
        | Inr bytes \<Rightarrow> (case from_json bytes of
             Inl e \<Rightarrow> Inl e
           | Inr i \<Rightarrow> (case validate_restore_intent io_text i of
                Inl e \<Rightarrow> Inl e
              | Inr _ \<Rightarrow> map_sum id (\<lambda>is. i # is) (read_intent_entries io_text from_json env rest w)))))"

definition read_intents ::
  "(io_error \<Rightarrow> string) \<Rightarrow> (string \<Rightarrow> string + restore_intent) \<Rightarrow> io_env \<Rightarrow> io_error + (io_error + string) list \<Rightarrow> 'h world
     \<Rightarrow> string + restore_intent list" where
  "read_intents io_text from_json env read_dir w = (case read_dir of
     Inl NotFound \<Rightarrow> Inr []
   | Inl e \<Rightarrow> Inl (io_text e)
   | Inr entries \<Rightarrow> map_sum id (sort_key ri_room_id) (read_intent_entries io_text from_json env entries w))"

subsection \<open>The terminal teardown\<close>

definition on_clones :: "('n clone_host \<Rightarrow> 'a \<times> 'n clone_host) \<Rightarrow> 'n room_host \<Rightarrow> 'a \<times> 'n room_host" where
  "on_clones f h = (case f (clone_side h) of (r, c) \<Rightarrow> (r, h\<lparr>clone_side := c\<rparr>))"

definition room_network_ops :: "'n reap_env \<Rightarrow> 'n room_host network_ops" where
  "room_network_ops env = (let ops = system_network_ops (re_text env) (re_io env) (re_poisoned env) (re_run env) in
     \<lparr>op_preflight = on_clones (op_preflight ops),
      op_claim_global = (\<lambda>index owner. on_clones (op_claim_global ops index owner)),
      op_create = (\<lambda>net owner. on_clones (op_create ops net owner)),
      op_rollback = (\<lambda>net owner stage. on_clones (op_rollback ops net owner stage)),
      op_teardown = (\<lambda>net owner. on_clones (op_teardown ops net owner))\<rparr>)"

text \<open>The part under the slot's lease: the clone network, or the tap of a flat room, and then the lease itself.\<close>

definition release_under_lease ::
  "'n reap_env \<Rightarrow> string \<Rightarrow> u8 \<Rightarrow> u8 option \<Rightarrow> lease_hold option \<Rightarrow> 'n room_host world \<Rightarrow> (string + unit) \<times> 'n room_host world" where
  "release_under_lease env room_id sidx clone_net_index lease' w =
     and_then (case clone_net_index of
         None \<Rightarrow> (Inr (), w)
       | Some index \<Rightarrow> and_then (map_err (clone_net_error_text (re_text env))
            (clone_free (re_text env) (re_io env) (room_network_ops env) index room_id w)) (\<lambda>_ w. (Inr (), w)))
       (\<lambda>_ w. case lease' of
         None \<Rightarrow> (Inr (), w)
       | Some hold \<Rightarrow>
           and_then (if clone_net_index = None
                     then map_err (firecracker_error_text (re_text env))
                       (on_host (on_programs (remove_egress_and_tap env (''tap-fc'' @ show_u8 sidx))) w)
                     else (Inr (), w))
             (\<lambda>_ w. and_then (map_err (slot_error_text (re_text env)) (return_to_reservation (re_io env) hold w))
               (\<lambda>_ w. (Inr (), w))))"

definition finish_teardown ::
  "'n reap_env \<Rightarrow> string option \<Rightarrow> rooms_config \<Rightarrow> string \<Rightarrow> string \<Rightarrow> u8 \<Rightarrow> u8 option \<Rightarrow> 'n room_host world
     \<Rightarrow> (string + unit) \<times> 'n room_host world" where
  "finish_teardown env home c room_id snapshot_id sidx clone_net_index w =
     (case room_dir home c room_id of
        None \<Rightarrow> (Inl ''cannot resolve room dir'', w)
      | Some _ \<Rightarrow> (case jail_instance_dir home c room_id of
          None \<Rightarrow> (Inl ''cannot resolve jail dir'', w)
        | Some jail_dir \<Rightarrow>
            and_then (map_err (firecracker_error_text (re_text env)) (reap_room_only env room_id jail_dir jail_dir c w)) (\<lambda>_ w.
            case hold_lease_for_teardown (re_io env) sidx snapshot_id room_id w of
              Inl e \<Rightarrow> (Inl (slot_error_text (re_text env) e), w)
            | Inr lease' \<Rightarrow>
                and_then (release_under_lease env room_id sidx clone_net_index lease' w) (\<lambda>_ w.
                  map_err (re_text env) (finish_index (re_io env) room_id w)))))"

subsection \<open>The sweep\<close>

record pending_restore =
  pr_room_id :: string
  pr_snapshot_id :: string
  pr_boundary :: string
  pr_slot :: u8
  pr_clone_net_index :: "u8 option"

definition boundary_label :: "restore_boundary \<Rightarrow> string" where
  "boundary_label b = (case b of PreSpawn \<Rightarrow> ''pre_spawn'' | Spawned \<Rightarrow> ''spawned'' | Leased \<Rightarrow> ''leased'')"

definition restore_pending_all :: "string + restore_intent list \<Rightarrow> string + pending_restore list" where
  "restore_pending_all intents = map_sum id (map (\<lambda>i.
     \<lparr>pr_room_id = ri_room_id i, pr_snapshot_id = ri_snapshot_id i, pr_boundary = boundary_label (ri_boundary i),
      pr_slot = ri_slot_index i, pr_clone_net_index = ri_clone_net_index i\<rparr>)) intents"

record reconciled_restore =
  rr_room_id :: string
  rr_reaped :: bool
  rr_reason :: string

definition reconcile_one ::
  "'n reap_env \<Rightarrow> string option \<Rightarrow> rooms_config \<Rightarrow> restore_intent \<Rightarrow> 'n room_host world
     \<Rightarrow> (string + string option) \<times> 'n room_host world" where
  "reconcile_one env home c i w =
     (let finish = finish_teardown env home c (ri_room_id i) (ri_snapshot_id i) (ri_slot_index i) (ri_clone_net_index i) in
      case ri_pid i of
        None \<Rightarrow> and_then (finish w) (\<lambda>_ w. (Inr (Some (''restore '' @ ri_room_id i @ '': cleared pre-spawn intent'')), w))
      | Some pid \<Rightarrow> (case probe (re_io env) (Some pid) (ri_pid_starttime i) of
          Dead \<Rightarrow> and_then (finish w) (\<lambda>_ w. (Inr (Some (''restore '' @ ri_room_id i
                     @ '': reaped dead restore, lease returned to snapshot '' @ ri_snapshot_id i)), w))
        | _ \<Rightarrow> (Inr None, w)))"

fun reconcile_intents ::
  "'n reap_env \<Rightarrow> string option \<Rightarrow> rooms_config \<Rightarrow> string option \<Rightarrow> restore_intent list \<Rightarrow> 'n room_host world
     \<Rightarrow> reconciled_restore list \<times> 'n room_host world" where
  "reconcile_intents env home c scope [] w = ([], w)"
| "reconcile_intents env home c scope (i # is) w =
     (if (case scope of None \<Rightarrow> False | Some s \<Rightarrow> s \<noteq> ri_room_id i) then reconcile_intents env home c scope is w
      else (case reconcile_one env home c i w of
          (Inr (Some line), w) \<Rightarrow> (case reconcile_intents env home c scope is w of
             (rs, w) \<Rightarrow> (\<lparr>rr_room_id = ri_room_id i, rr_reaped = True, rr_reason = line\<rparr> # rs, w))
        | (Inr None, w) \<Rightarrow> reconcile_intents env home c scope is w
        | (Inl e, w) \<Rightarrow> (case reconcile_intents env home c scope is w of
             (rs, w) \<Rightarrow> (\<lparr>rr_room_id = ri_room_id i, rr_reaped = False,
                          rr_reason = ''restore intent reconcile failed (kept for retry): '' @ e\<rparr> # rs, w))))"

definition gc_reconcile ::
  "'n reap_env \<Rightarrow> string option \<Rightarrow> rooms_config \<Rightarrow> string option \<Rightarrow> string + restore_intent list \<Rightarrow> 'n room_host world
     \<Rightarrow> reconciled_restore list \<times> 'n room_host world" where
  "gc_reconcile env home c scope intents w = (case intents of
     Inl _ \<Rightarrow> ([], w) | Inr is \<Rightarrow> reconcile_intents env home c scope is w)"

definition canonical_clone_net ::
  "(io_error \<Rightarrow> string) \<Rightarrow> io_env \<Rightarrow> string \<Rightarrow> clone_net option \<Rightarrow> 'h world \<Rightarrow> string + clone_net option" where
  "canonical_clone_net io_text env room_id requested w = (case requested of
     None \<Rightarrow> Inr None
   | Some req \<Rightarrow> (case clone_net_derive (cn_index req) of
       Inl e \<Rightarrow> Inl (clone_net_error_text io_text e)
     | Inr derived \<Rightarrow>
         if derived \<noteq> req then
           Inl (''clone network '' @ show_u8 (cn_index req) @ '' does not match its canonical derived identity'')
         else (case verify_owned env derived room_id w of
             Inl e \<Rightarrow> Inl (clone_net_error_text io_text e)
           | Inr _ \<Rightarrow> Inr (Some derived))))"

definition record_slot_on_room ::
  "(io_error \<Rightarrow> string) \<Rightarrow> (string \<Rightarrow> string + room_meta) \<Rightarrow> (room_meta \<Rightarrow> string + string) \<Rightarrow> io_env \<Rightarrow> string \<Rightarrow> slot
     \<Rightarrow> clone_net option \<Rightarrow> 'h world \<Rightarrow> (string + unit) \<times> 'h world" where
  "record_slot_on_room io_text from_slice to_vec_pretty env room_id sl net w = (case room_read from_slice env room_id w of
     Inl e \<Rightarrow> (Inl (io_text e), w)
   | Inr None \<Rightarrow> (Inl ''restore room.json disappeared before lease'', w)
   | Inr (Some m) \<Rightarrow>
       map_err io_text (write_atomic to_vec_pretty env room_id
         (m\<lparr>rm_slot := Some sl, rm_clone_net_index := map_option cn_index net\<rparr>) w))"

subsection \<open>What the terminal teardown touches\<close>

lemma valid_room_id: "is_valid_room_id s \<longleftrightarrow> is_id_shaped s"
  by (simp add: is_valid_room_id_def is_id_shaped_def)

lemma reap_room_only_result:
  assumes "reap_room_only env d j j c w = (r, w')"
  shows "\<And>p. fst p \<noteq> d \<Longrightarrow> files w' p = files w p" "\<And>x. x \<noteq> d \<Longrightarrow> dirs w' x = dirs w x"
    "\<And>x. x \<noteq> j \<Longrightarrow> jails (host w') x = jails (host w) x" "r = Inr () \<longleftrightarrow> jails (host w') j = None \<and> \<not> dirs w' d"
    "reached_by (re_run env) process_commands (net_state (clone_side (host w))) (net_state (clone_side (host w')))"
proof -
  have sel: "\<not> rg_suppress_cleanup (for_orphan d j j c)" "\<not> rg_dismiss (for_orphan d j j c)" "rg_socket (for_orphan d j j c) = j"
    "rg_jail_instance_dir (for_orphan d j j c) = Some j" "rg_room_dir (for_orphan d j j c) = d" "rg_slot_release (for_orphan d j j c) = None"
    by (simp_all add: for_orphan_def guard_new_def)
  obtain g' where g': "cleanup_sync env (for_orphan d j j c) w = (g', w')"
    using assms sel by (auto simp: reap_room_only_def guard_cleanup_def Let_def split: if_splits) (metis prod.collapse)+
  have rel: "release_network env (for_orphan d j j c\<lparr>rg_child_pid := None, rg_jail_instance_dir := None\<rparr>) x = x" for x
    by (simp add: release_network_def release_network_with_def plan_release_def sel)
  obtain w2 where w2: "dirs w2 = dirs w" "files w2 = files w"
      "\<And>x. x \<noteq> j \<Longrightarrow> jails (host w2) x = jails (host w) x"
    and st: "w' = w2 \<or> (\<exists>r w3. remove_room_dir env d w2 = (r, w3) \<and> w' = w3)"
    and n2: "reached_by (re_run env) process_commands (net_state (clone_side (host w))) (net_state (clone_side (host w2)))"
    by (rule cleanup_sync_steps[OF g' sel(1)]) (auto simp: sel rel)
  show "\<And>p. fst p \<noteq> d \<Longrightarrow> files w' p = files w p" "\<And>x. x \<noteq> d \<Longrightarrow> dirs w' x = dirs w x"
    "\<And>x. x \<noteq> j \<Longrightarrow> jails (host w') x = jails (host w) x"
    using st w2 remove_room_dir_result(1-3) by fastforce+
  show "reached_by (re_run env) process_commands (net_state (clone_side (host w))) (net_state (clone_side (host w')))"
    using st n2 remove_room_dir_result(1) by fastforce
  show "r = Inr () \<longleftrightarrow> jails (host w') j = None \<and> \<not> dirs w' d"
    using assms g' sel by (auto simp: reap_room_only_def guard_cleanup_def Let_def split: if_splits)
qed

lemma clone_free_frame:
  assumes "clone_free (re_text env) (re_io env) (room_network_ops env) i o' w = (r, w')"
  shows "dirs w' = dirs w" "\<And>p. fst p \<noteq> CLONENETS_DIR \<Longrightarrow> files w' p = files w p" "jails (host w') = jails (host w)"
proof -
  have *: "w' = w \<or> (\<exists>net q. free_with (re_io env) CLONENET_POOL i o'
      (teardown_under_lock (re_text env) (room_network_ops env) net o' (\<lambda>_ h. (Inr (), h))) w = (q, w'))"
    using assms by (auto simp: clone_free_def clone_free_with_cleanup_def split: sum.splits prod.splits)
  have j: "jails (snd (teardown_under_lock (re_text env) (room_network_ops env) net o' (\<lambda>_ h. (Inr (), h)) h)) = jails h" for net h
    by (auto simp: teardown_under_lock_def room_network_ops_def Let_def on_clones_def map_err_def and_then_def
        split: prod.splits sum.splits reconcile_action.splits)
  show "dirs w' = dirs w" using * free_with_dirs by blast
  show "jails (host w') = jails (host w)" using * free_with_host j by metis
  show "files w' p = files w p" if "fst p \<noteq> CLONENETS_DIR" for p
    using *
  proof
    assume "\<exists>net q. free_with (re_io env) CLONENET_POOL i o'
      (teardown_under_lock (re_text env) (room_network_ops env) net o' (\<lambda>_ h. (Inr (), h))) w = (q, w')"
    then obtain net q where "free_with (re_io env) CLONENET_POOL i o'
      (teardown_under_lock (re_text env) (room_network_ops env) net o' (\<lambda>_ h. (Inr (), h))) w = (q, w')" by blast
    from free_with_result[OF this] that show ?thesis
      by (cases q) (auto simp: CLONENET_POOL_def split: release_error.splits free_outcome.splits)
  qed simp
qed

definition holds_lease :: "'h world \<Rightarrow> u8 \<Rightarrow> string \<Rightarrow> string \<Rightarrow> bool" where
  "holds_lease w i s r \<longleftrightarrow> slot_state w i = Some (TokLeased s r) \<or> (\<exists>ls. slot_state w i = Some (TokCloneLeases s ls) \<and> r \<in> set ls)"

lemma release_ends_lease:
  "slot_trans (ActRelease s r) a b \<Longrightarrow> b \<noteq> Some (TokLeased s r) \<and> (\<forall>ls. b = Some (TokCloneLeases s ls) \<longrightarrow> r \<notin> set ls)"
  by (erule slot_trans.cases) auto

lemma no_hold_no_lease:
  assumes "hold_lease_for_teardown env i s r w = Inr None"
  shows "\<not> holds_lease w i s r"
proof (cases "locked_slot env i w")
  case (Inr c)
  then show ?thesis
  proof (cases c)
    case (Some t)
    have st: "slot_state w i = Some (parse_token t)" using locked_slot_state(1) Inr Some by blast
    show ?thesis
    proof (cases "parse_token t")
      case (TokCloneLeases s' ls)
      then have "sorted_wrt (<) ls" using parse_token_clone_canonical by (auto simp: canonical_lessees_def)
      then show ?thesis using assms Inr Some TokCloneLeases st binary_search_member[of ls r]
        by (auto simp: hold_lease_for_teardown_def holds_lease_def clone_token_after_release_def Let_def split: if_splits option.splits sum.splits)
    qed (use assms Inr Some st in \<open>auto simp: hold_lease_for_teardown_def holds_lease_def split: if_splits\<close>)
  qed (use Inr locked_slot_state(2)[of env i w] in \<open>auto simp: holds_lease_def\<close>)
qed (use assms in \<open>auto simp: hold_lease_for_teardown_def\<close>)

lemma release_under_lease_result:
  assumes rel: "release_under_lease env room i cn lease' w = (r, w')" and s: "is_id_shaped s"
    and hold: "hold_lease_for_teardown (re_io env) i s room w = Inr lease'"
  shows "dirs w' = dirs w \<and> jails (host w') = jails (host w) \<and> slot_changes (ActRelease s room) w w'
    \<and> (\<forall>p. fst p \<notin> {CLONENETS_DIR, SLOTS_DIR} \<longrightarrow> files w' p = files w p) \<and> (r = Inr () \<longrightarrow> \<not> holds_lease w' i s room)"
proof -
  obtain q w1 where q: "(case cn of None \<Rightarrow> (Inr (), w)
       | Some index \<Rightarrow> and_then (map_err (clone_net_error_text (re_text env))
            (clone_free (re_text env) (re_io env) (room_network_ops env) index room w)) (\<lambda>_ w. (Inr (), w))) = (q, w1)" by fastforce
  have w1: "dirs w1 = dirs w" "jails (host w1) = jails (host w)" "\<And>p. fst p \<noteq> CLONENETS_DIR \<Longrightarrow> files w1 p = files w p"
    using q clone_free_frame by (auto simp: map_err_def and_then_def split: option.splits prod.splits sum.splits)
  have st: "slot_state w1 = slot_state w"
    using w1(3) by (auto simp: slot_state_def SLOTS_DIR_def CLONENETS_DIR_def)
  have same: ?thesis if "w' = w1" "r = Inr () \<longrightarrow> lease' = None"
    using that w1 st no_hold_no_lease[of "re_io env" i s room w] hold by (auto simp: slot_changes_def holds_lease_def)
  show ?thesis
  proof (cases "q = Inr () \<and> lease' \<noteq> None")
    case False
    then show ?thesis using rel q by (intro same) (auto simp: release_under_lease_def and_then_def split: sum.splits option.splits)
  next
    case True
    then obtain h where h: "lease' = Some h" by blast
    obtain t w2 where t: "(if cn = None then map_err (firecracker_error_text (re_text env))
          (on_host (on_programs (remove_egress_and_tap env (''tap-fc'' @ show_u8 i))) w1) else (Inr (), w1)) = (t, w2)" by fastforce
    have w2: "dirs w2 = dirs w1" "files w2 = files w1" "jails (host w2) = jails (host w1)"
      using t by (auto simp: map_err_def on_host_def on_programs_def split: if_splits prod.splits sum.splits)
    then have st2: "slot_state w2 = slot_state w" using st by (simp add: slot_state_def fun_eq_iff)
    show ?thesis
    proof (cases t)
      case (Inl e)
      then have "r = Inl e" "w' = w2" using rel q True h t by (auto simp: release_under_lease_def)
      then show ?thesis using w1 w2 st2 by (auto simp: slot_changes_def)
    next
      case (Inr u)
      note tr = hold_lease_trans[OF s hold[unfolded h]]
      obtain x where x: "rewrite_slot_atomic (re_io env) i (lh_post_cleanup_token h) w2 = (x, w')" "r = Inr () \<longleftrightarrow> x = Inr ()"
        using rel q True h t Inr tr
        by (auto simp: release_under_lease_def return_to_reservation_def and_then_def map_err_def split: prod.splits sum.splits)
      obtain y where y: "rewrite_atomic (re_io env) SLOTS_DIR i (lh_post_cleanup_token h) w2 = (y, w')"
        using x(1) by (auto simp: rewrite_slot_atomic_def map_err_def split: prod.splits sum.splits)
      have ch: "slot_changes (ActRelease s room) w2 w'" using rewrite_slot_changes[OF x(1), of "ActRelease s room"] tr st2 by simp
      have "r = Inr () \<longrightarrow> \<not> holds_lease w' i s room"
        using rewrite_slot_ok[of "re_io env" i "lh_post_cleanup_token h" w2 "()" w'] x release_ends_lease tr by (auto simp: holds_lease_def)
      then show ?thesis using rewrite_atomic_effect[OF y] ch w1 w2 st2 by (auto simp: slot_changes_def)
    qed
  qed
qed

lemma finish_index_result:
  assumes "finish_index env room w = (r, w')"
  shows "dirs w' = dirs w" "host w' = host w" "\<And>p. p \<noteq> (RESTORE_INTENTS_DIR, restore_intent_name room) \<Longrightarrow> files w' p = files w p"
    "r = Inr () \<Longrightarrow> files w' (RESTORE_INTENTS_DIR, restore_intent_name room) = None"
  using assms by (auto simp: finish_index_def remove_file_def split: option.splits sum.splits io_error.splits if_splits)

lemma intent_dir_names: "is_id_shaped d \<Longrightarrow> RESTORE_INTENTS_DIR \<noteq> d \<and> SLOTS_DIR \<noteq> d"
  "RESTORE_INTENTS_DIR \<notin> {CLONENETS_DIR, SLOTS_DIR}"
  by (auto simp: RESTORE_INTENTS_DIR_def CLONENETS_DIR_def SLOTS_DIR_def is_id_shaped_def)

lemma finish_teardown_result:
  assumes ft: "finish_teardown env home c room snap i cn w = (r, w')"
    and ids: "is_id_shaped room" "is_id_shaped snap" and j: "jail_instance_dir home c room = Some j"
  shows "slot_changes (ActRelease snap room) w w'
    \<and> (slot_state w' \<noteq> slot_state w \<longrightarrow> jails (host w') j = None \<and> \<not> dirs w' room)
    \<and> (r = Inr () \<or> files w' (RESTORE_INTENTS_DIR, restore_intent_name room) \<noteq> files w (RESTORE_INTENTS_DIR, restore_intent_name room)
        \<longrightarrow> jails (host w') j = None \<and> \<not> dirs w' room \<and> \<not> holds_lease w' i snap room)
    \<and> (r = Inr () \<longrightarrow> files w' (RESTORE_INTENTS_DIR, restore_intent_name room) = None)"
proof (cases "room_dir home c room")
  case None
  then show ?thesis using ft by (auto simp: finish_teardown_def slot_changesI_same)
next
  case (Some d)
  let ?p = "(RESTORE_INTENTS_DIR, restore_intent_name room)"
  obtain rr w1 where reap: "reap_room_only env room j j c w = (rr, w1)" by fastforce
  note R = reap_room_only_result[OF reap]
  have w1: "slot_state w1 = slot_state w" "files w1 ?p = files w ?p"
    using R(1) intent_dir_names(1)[OF ids(1)] by (auto simp: slot_state_def)
  show ?thesis
  proof (cases "\<exists>u lease'. rr = Inr u \<and> hold_lease_for_teardown (re_io env) i snap room w1 = Inr lease'")
    case False
    then have "w' = w1" "r \<noteq> Inr ()"
      using ft Some j reap by (auto simp: finish_teardown_def map_err_def split: sum.splits)
    then show ?thesis using w1 by (simp add: slot_changes_def)
  next
    case True
    then obtain u lease' where u: "rr = Inr u" and hold: "hold_lease_for_teardown (re_io env) i snap room w1 = Inr lease'" by blast
    have gone: "jails (host w1) j = None" "\<not> dirs w1 room" using R(4) u by auto
    obtain q w2 where q: "release_under_lease env room i cn lease' w1 = (q, w2)" by fastforce
    note L = release_under_lease_result[OF q ids(2) hold]
    have w2: "slot_changes (ActRelease snap room) w w2" "files w2 ?p = files w ?p"
      using L w1 intent_dir_names(2) by (auto simp: slot_changes_def)
    show ?thesis
    proof (cases q)
      case (Inl e)
      then have "w' = w2" "r \<noteq> Inr ()" using ft Some j reap u hold q by (auto simp: finish_teardown_def map_err_def)
      then show ?thesis using w2 L gone by simp
    next
      case (Inr v)
      then obtain x where x: "finish_index (re_io env) room w2 = (x, w')" "r = Inr () \<longleftrightarrow> x = Inr ()"
        using ft Some j reap u hold q by (auto simp: finish_teardown_def map_err_def split: prod.splits sum.splits)
      note F = finish_index_result[OF x(1)]
      have "slot_state w' = slot_state w2" using F(3) intent_dir_names(2) by (auto simp: slot_state_def)
      then show ?thesis using F w2 L gone Inr x(2) by (auto simp: slot_changes_def holds_lease_def)
    qed
  qed
qed

text \<open>What the teardown does to the network: after the processes and mounts, only under the room's own lease (its tap) or its own
  clone claim (that clone's release commands).\<close>

lemma hold_has_lease:
  assumes "hold_lease_for_teardown env i s r w = Inr (Some h)" and "is_id_shaped s"
  shows "holds_lease w i s r"
proof -
  have "slot_trans (ActRelease s r) (slot_state w i) (Some (parse_token (lh_post_cleanup_token h)))"
    using hold_lease_trans[OF assms(2,1)] by auto
  then show ?thesis by (cases rule: slot_trans.cases) (auto simp: holds_lease_def)
qed

lemma clone_free_net:
  assumes "clone_free (re_text env) (re_io env) (room_network_ops env) k room w = (r, w')"
  shows "net_state (clone_side (host w')) = net_state (clone_side (host w))
    \<or> (\<exists>net c. clone_net_derive k = Inr net \<and> files w (claim_key CLONENET_POOL k) = Some c \<and> first_line c = Some room
        \<and> reached_by (re_run env) (set (release_commands net)) (net_state (clone_side (host w))) (net_state (clone_side (host w'))))"
proof (cases "clone_net_derive k")
  case (Inr net)
  let ?cleanup = "teardown_under_lock (re_text env) (room_network_ops env) net room (\<lambda>_ h. (Inr (), h))"
  obtain q where q: "free_with (re_io env) CLONENET_POOL k room ?cleanup w = (q, w')"
    using assms Inr by (auto simp: clone_free_def clone_free_with_cleanup_def split: prod.splits)
  have own: "host w' = host w \<or> (\<exists>c. files w (claim_key CLONENET_POOL k) = Some c \<and> first_line c = Some room) \<and> host w' = snd (?cleanup (host w))"
    using q by (auto simp: free_with_def read_to_string_def remove_file_def
        split: sum.splits option.splits if_splits prod.splits io_error.splits)
  have "clone_side (snd (?cleanup h)) = snd (system_teardown (re_text env) (re_io env) (re_poisoned env) (re_run env) net room (clone_side h))" for h
    by (auto simp: teardown_under_lock_def room_network_ops_def system_network_ops_def Let_def on_clones_def map_err_def and_then_def
        split: prod.splits sum.splits reconcile_action.splits)
  then show ?thesis using own Inr system_teardown_reaches by metis
qed (use assms in \<open>auto simp: clone_free_def clone_free_with_cleanup_def\<close>)

lemma release_under_lease_net:
  assumes "release_under_lease env room i cn lease' w = (r, w')"
  shows "net_state (clone_side (host w')) = net_state (clone_side (host w))
    \<or> (case cn of
         None \<Rightarrow> lease' \<noteq> None \<and> net_state (clone_side (host w')) = snd (remove_egress_and_tap env (''tap-fc'' @ show_u8 i) (net_state (clone_side (host w))))
       | Some k \<Rightarrow> \<exists>net c. clone_net_derive k = Inr net \<and> files w (claim_key CLONENET_POOL k) = Some c \<and> first_line c = Some room
           \<and> reached_by (re_run env) (set (release_commands net)) (net_state (clone_side (host w))) (net_state (clone_side (host w'))))"
proof -
  have same: "host u = host v" if r: "return_to_reservation (re_io env) h v = (x, u)" for h x and u v :: "'a room_host world"
  proof -
    obtain y v' where y: "rewrite_atomic (re_io env) SLOTS_DIR (lh_index h) (lh_post_cleanup_token h) v = (y, v')" by fastforce
    then have "host v' = host v" using rewrite_atomic_effect[OF y] by simp
    then show ?thesis using y r by (auto simp: return_to_reservation_def rewrite_slot_atomic_def map_err_def and_then_def split: sum.splits)
  qed
  show ?thesis
  proof (cases cn)
    case None
    then show ?thesis using assms
      by (auto simp: release_under_lease_def map_err_def on_host_def on_programs_def and_then_def split: option.splits prod.splits sum.splits dest!: same)
  next
    case (Some k)
    obtain q w1 where q: "clone_free (re_text env) (re_io env) (room_network_ops env) k room w = (q, w1)" by fastforce
    have "host w' = host w1" using assms Some q
      by (auto simp: release_under_lease_def map_err_def and_then_def split: option.splits prod.splits sum.splits dest!: same)
    then show ?thesis using clone_free_net[OF q] Some by auto
  qed
qed

lemma finish_teardown_net:
  assumes ft: "finish_teardown env home c room snap i cn w = (r, w')"
    and ids: "is_id_shaped room" "is_id_shaped snap" and j: "jail_instance_dir home c room = Some j"
  shows "\<exists>m. reached_by (re_run env) process_commands (net_state (clone_side (host w))) m
     \<and> (net_state (clone_side (host w')) = m
       \<or> jails (host w') j = None \<and> \<not> dirs w' room
         \<and> (case cn of
              None \<Rightarrow> holds_lease w i snap room
                \<and> net_state (clone_side (host w')) = snd (remove_egress_and_tap env (''tap-fc'' @ show_u8 i) m)
            | Some k \<Rightarrow> \<exists>net t. clone_net_derive k = Inr net \<and> files w (claim_key CLONENET_POOL k) = Some t
                \<and> first_line t = Some room \<and> reached_by (re_run env) (set (release_commands net)) m (net_state (clone_side (host w')))))"
proof (cases "room_dir home c room")
  case None
  then have "w' = w" using ft by (auto simp: finish_teardown_def)
  then show ?thesis using reached.refl[of "re_run env" process_commands] by blast
next
  case (Some d)
  obtain rr w1 where reap: "reap_room_only env room j j c w = (rr, w1)" by fastforce
  note R = reap_room_only_result[OF reap]
  have clonenets: "CLONENETS_DIR \<noteq> room" using ids(1) by (auto simp: CLONENETS_DIR_def is_id_shaped_def)
  have w1: "slot_state w1 = slot_state w" "\<And>k. files w1 (claim_key CLONENET_POOL k) = files w (claim_key CLONENET_POOL k)"
    using R(1) intent_dir_names(1)[OF ids(1)] clonenets by (auto simp: slot_state_def CLONENET_POOL_def)
  show ?thesis
  proof (cases "\<exists>u lease'. rr = Inr u \<and> hold_lease_for_teardown (re_io env) i snap room w1 = Inr lease'")
    case False
    then have "w' = w1" using ft Some j reap by (auto simp: finish_teardown_def map_err_def split: sum.splits)
    then show ?thesis using R(5) by blast
  next
    case True
    then obtain u lease' where u: "rr = Inr u" and hold: "hold_lease_for_teardown (re_io env) i snap room w1 = Inr lease'" by blast
    have gone: "jails (host w1) j = None" "\<not> dirs w1 room" using R(4) u by auto
    obtain q w2 where q: "release_under_lease env room i cn lease' w1 = (q, w2)" by fastforce
    note L = release_under_lease_result[OF q ids(2) hold]
    have fi: "dirs v' = dirs v" "host v' = host v" if "finish_index (re_io env) room v = (x, v')" for v v' :: "'a room_host world" and x
      using finish_index_result[OF that] by auto
    have "dirs w' = dirs w2" "host w' = host w2"
      using ft Some j reap u hold q fi by (auto simp: finish_teardown_def map_err_def and_then_def split: prod.splits sum.splits)
    moreover have "lease' \<noteq> None \<Longrightarrow> holds_lease w i snap room" using hold_has_lease[OF _ ids(2), of "re_io env" i room w1] hold w1(1) by (auto simp: holds_lease_def)
    ultimately show ?thesis using R(5) release_under_lease_net[OF q] gone L w1(2) by (cases cn) auto
  qed
qed

text \<open>C37. The terminal teardown of a restored room. It releases at most this room's lease of this snapshot, as one step of the
  abstract slot machine, whatever fails. The lease is given up only after the jail and the room directory are gone;
  the tombstone of the restore goes, and success is reported, only after that and when the room no longer holds the lease.
  The network is first reached only by commands that signal processes or unmount. What is done to it beyond that happens only when
  the jail and the room directory are gone: for a flat room the removal of exactly the slot's tap and its egress rules, and only
  while the room holds the lease; for a clone only release commands of the recorded clone network, and only while its claim
  names the room.\<close>

theorem restore_teardown_gate:
  assumes ft: "finish_teardown env home c room snap i cn w = (r, w')"
    and ids: "is_id_shaped room" "is_id_shaped snap" and j: "jail_instance_dir home c room = Some j"
  shows "slot_changes (ActRelease snap room) w w'
    \<and> (slot_state w' \<noteq> slot_state w \<longrightarrow> jails (host w') j = None \<and> \<not> dirs w' room)
    \<and> (r = Inr () \<or> files w' (RESTORE_INTENTS_DIR, restore_intent_name room) \<noteq> files w (RESTORE_INTENTS_DIR, restore_intent_name room)
        \<longrightarrow> jails (host w') j = None \<and> \<not> dirs w' room \<and> \<not> holds_lease w' i snap room)
    \<and> (r = Inr () \<longrightarrow> files w' (RESTORE_INTENTS_DIR, restore_intent_name room) = None)
    \<and> (\<exists>m. reached_by (re_run env) process_commands (net_state (clone_side (host w))) m
     \<and> (net_state (clone_side (host w')) = m
       \<or> jails (host w') j = None \<and> \<not> dirs w' room
         \<and> (case cn of
              None \<Rightarrow> holds_lease w i snap room
                \<and> net_state (clone_side (host w')) = snd (remove_egress_and_tap env (''tap-fc'' @ show_u8 i) m)
            | Some k \<Rightarrow> \<exists>net t. clone_net_derive k = Inr net \<and> files w (claim_key CLONENET_POOL k) = Some t
                \<and> first_line t = Some room \<and> reached_by (re_run env) (set (release_commands net)) m (net_state (clone_side (host w'))))))"
  using finish_teardown_result[OF assms] finish_teardown_net[OF assms] by blast

definition demo_restored :: "bool room_host world" where
  "demo_restored = \<lparr>dirs = (\<lambda>d. d = ''slots''),
     files = (\<lambda>p. if p = (''slots'', ''1'') then Some (lease_token demo_owner demo_owner) else None),
     host = \<lparr>jails = Map.empty, clone_side = \<lparr>markers = Map.empty, net_state = False\<rparr>\<rparr>\<rparr>"

definition demo_config :: rooms_config where "demo_config = default_config\<lparr>state_base := Some ''/s''\<rparr>"

theorem restore_teardown_gate_witness:
  "\<exists>w'. finish_teardown demo_reap_env None demo_config demo_owner demo_owner 1 None demo_restored = (Inr (), w')
     \<and> holds_lease demo_restored 1 demo_owner demo_owner \<and> \<not> holds_lease w' 1 demo_owner demo_owner"
proof -
  obtain j where j: "jail_instance_dir None demo_config demo_owner = Some j"
    by (simp add: jail_instance_dir_def chroot_base_def resolved_state_base_def demo_config_def default_config_def)
  have reap: "reap_room_only demo_reap_env demo_owner j j demo_config demo_restored = (Inr (), demo_restored)"
    by (simp add: reap_room_only_def guard_cleanup_def cleanup_sync_def for_orphan_def guard_new_def Let_def kill_child_gracefully_def
        on_programs_def remove_socket_def on_host_def teardown_jail_sync_def unmount_present_def remove_room_dir_def release_network_def
        release_network_with_def plan_release_def demo_restored_def demo_owner_def)
  have ready: "slot_ready demo_env 1 demo_restored"
    by (simp add: slot_ready_def demo_restored_def MAX_SLOT_def SLOTS_DIR_def word_le_nat_alt word_less_nat_alt)
  have hold: "hold_lease_for_teardown demo_env 1 demo_owner demo_owner demo_restored
      = Inr (Some \<lparr>lh_index = 1, lh_post_cleanup_token = reservation_token demo_owner\<rparr>)"
    using slot_ready_locked[OF ready]
    by (simp add: hold_lease_for_teardown_def demo_restored_def SLOTS_DIR_def parse_lease_token)
  obtain w2 where w2: "rewrite_slot_atomic demo_env 1 (reservation_token demo_owner) demo_restored = (Inr (), w2)"
    using slot_ready_rewrite[OF ready] by blast
  have rel: "release_under_lease demo_reap_env demo_owner 1 None
      (Some \<lparr>lh_index = 1, lh_post_cleanup_token = reservation_token demo_owner\<rparr>) demo_restored = (Inr (), w2)"
  proof -
    have "on_host (on_programs (remove_egress_and_tap demo_reap_env ''tap-fc1'')) demo_restored = (Inr (), demo_restored)"
      by (simp add: on_host_def on_programs_def demo_restored_def demo_remove)
    then show ?thesis by (simp add: release_under_lease_def map_err_def return_to_reservation_def demo_reap_parts w2)
  qed
  obtain r w' where f: "finish_teardown demo_reap_env None demo_config demo_owner demo_owner 1 None demo_restored = (r, w')" by fastforce
  have rd: "room_dir None demo_config demo_owner \<noteq> None" by (simp add: room_dir_def resolved_state_base_def demo_config_def)
  have "fst (finish_index demo_env demo_owner w) = Inr ()" for w :: "bool room_host world"
    by (auto simp: finish_index_def remove_file_def sync_dir_def split: option.splits)
  then have "fst (finish_teardown demo_reap_env None demo_config demo_owner demo_owner 1 None demo_restored) = Inr ()"
    using rd j by (auto simp: finish_teardown_def reap map_err_def demo_reap_parts hold rel split: option.splits prod.splits sum.splits)
      (metis fst_conv sum.distinct(1))
  moreover have "holds_lease demo_restored 1 demo_owner demo_owner"
    by (simp add: holds_lease_def slot_state_def demo_restored_def SLOTS_DIR_def parse_lease_token)
  ultimately show ?thesis using f restore_teardown_gate[OF f _ _ j] by auto
qed

end
