(* ===== verification/Snapshot_Index.thy ===== *)
theory Snapshot_Index
  imports Restore_Exec
begin

text \<open>
  The durable index of snapshot transactions (\<open>src/src/snapshot_exec.rs\<close>): intents and their validation, where an output
  directory may lie, the per-base lock, and the summaries that \<open>rooms gc\<close> and \<open>rooms kill\<close> use as a fence. What the
  kernel says about paths (existence, canonical form), the directory listing, JSON and the state of the advisory locks are
  the record \<open>intent_index\<close>.
\<close>

subsection \<open>Intents\<close>

definition SNAPSHOT_INTENT_SCHEMA_VERSION :: u32 where "SNAPSHOT_INTENT_SCHEMA_VERSION = 1"

datatype snapshot_boundary = BPending | BTargetsStaged | BPaused | BCollected | BReserved | BReaped | BPublished

definition snapshot_boundary_label :: "snapshot_boundary \<Rightarrow> string" where
  "snapshot_boundary_label b = (case b of BPending \<Rightarrow> ''pending'' | BTargetsStaged \<Rightarrow> ''targets_staged'' | BPaused \<Rightarrow> ''paused''
     | BCollected \<Rightarrow> ''collected'' | BReserved \<Rightarrow> ''reserved'' | BReaped \<Rightarrow> ''reaped'' | BPublished \<Rightarrow> ''published'')"

text \<open>The derived order of the enum is the order of its variants.\<close>

fun boundary_rank :: "snapshot_boundary \<Rightarrow> nat" where
  "boundary_rank BPending = 0" | "boundary_rank BTargetsStaged = 1" | "boundary_rank BPaused = 2" | "boundary_rank BCollected = 3"
| "boundary_rank BReserved = 4" | "boundary_rank BReaped = 5" | "boundary_rank BPublished = 6"

lemma boundary_rank_inj: "boundary_rank a = boundary_rank b \<Longrightarrow> a = b"
  by (cases a; cases b) simp_all

instantiation snapshot_boundary :: linorder
begin

definition less_eq_snapshot_boundary :: "snapshot_boundary \<Rightarrow> snapshot_boundary \<Rightarrow> bool" where
  "less_eq_snapshot_boundary a b \<longleftrightarrow> boundary_rank a \<le> boundary_rank b"

definition less_snapshot_boundary :: "snapshot_boundary \<Rightarrow> snapshot_boundary \<Rightarrow> bool" where
  "less_snapshot_boundary a b \<longleftrightarrow> boundary_rank a < boundary_rank b"

instance
  by intro_classes (auto simp: less_eq_snapshot_boundary_def less_snapshot_boundary_def boundary_rank_inj)

end

lemmas boundary_order = less_eq_snapshot_boundary_def less_snapshot_boundary_def

record file_identity =
  fi_device :: u64
  fi_inode :: u64
  fi_len :: u64
  fi_mode :: u32
  fi_mtime :: int
  fi_mtime_nsec :: int
  fi_ctime :: int
  fi_ctime_nsec :: int

record snapshot_intent =
  si_schema_version :: u32
  si_snapshot_id :: string
  si_base_room_id :: string
  si_meta :: snapshot_meta
  si_rootfs_source :: "file_identity option"
  si_out_dir :: string
  si_host_vmstate :: string
  si_host_mem :: string
  si_jail_vmstate :: string
  si_jail_mem :: string
  si_boundary :: snapshot_boundary
  si_aborted :: bool

record pending_snapshot =
  ps_snapshot_id :: string
  ps_base_room :: string
  ps_boundary :: string
  ps_next_action :: string

record intent_index =
  ix_exists :: "string \<Rightarrow> bool"
  ix_canonicalize :: "string \<Rightarrow> io_error + string"
  ix_cwd :: "io_error + string"
  ix_entries :: "io_error + (io_error + string \<times> (io_error + bool)) list"
  ix_from_json :: "string \<Rightarrow> string + snapshot_intent"
  ix_try_lock :: "string \<Rightarrow> io_error + bool"
  ix_text :: "io_error \<Rightarrow> string"

subsection \<open>Where an output may lie\<close>

fun canonical_loop :: "intent_index \<Rightarrow> string \<Rightarrow> path_component list \<Rightarrow> string list \<Rightarrow> string + string" where
  "canonical_loop ix path rev_cs missing =
     (if ix_exists ix (path_text (rev rev_cs)) then
        (case ix_canonicalize ix (path_text (rev rev_cs)) of
           Inl e \<Rightarrow> Inl (ix_text ix e)
         | Inr resolved \<Rightarrow> Inr (foldl path_join resolved missing))
      else (case rev_cs of
          NormalComponent name # rest \<Rightarrow> canonical_loop ix path rest (name # missing)
        | _ \<Rightarrow> Inl (''path has no existing ancestor: '' @ path)))"

declare canonical_loop.simps [simp del]

definition canonical_candidate :: "intent_index \<Rightarrow> string \<Rightarrow> string + string" where
  "canonical_candidate ix path =
     (if has_root path then canonical_loop ix path (rev (components path)) []
      else (case ix_cwd ix of
          Inl e \<Rightarrow> Inl (ix_text ix e)
        | Inr cwd \<Rightarrow> canonical_loop ix path (rev (components (path_join cwd path))) []))"

definition overlaps :: "string \<Rightarrow> string \<Rightarrow> bool" where
  "overlaps left right \<longleftrightarrow> path_starts_with left right \<or> path_starts_with right left"

definition managed_id_root :: "string \<Rightarrow> string \<Rightarrow> string option" where
  "managed_id_root candidate parent = (case path_strip_prefix candidate parent of
     Some (c # _) \<Rightarrow> (if is_valid_room_id (case c of RootDir \<Rightarrow> [slash] | _ \<Rightarrow> component_text c)
                     then Some (path_join parent (component_text c)) else None)
   | _ \<Rightarrow> None)"

definition under_cleanup_root :: "intent_index \<Rightarrow> string \<Rightarrow> string option \<Rightarrow> string + string option" where
  "under_cleanup_root ix candidate path = (case path of
     None \<Rightarrow> Inl ''cannot resolve managed cleanup root''
   | Some p \<Rightarrow> (case canonical_candidate ix p of
        Inl e \<Rightarrow> Inl e
      | Inr q \<Rightarrow> Inr (if path_starts_with candidate q then Some q else None)))"

definition or_else_root :: "string + string option \<Rightarrow> string + string option \<Rightarrow> string + string option" where
  "or_else_root a b = (case a of Inl e \<Rightarrow> Inl e | Inr (Some r) \<Rightarrow> Inr (Some r) | Inr None \<Rightarrow> b)"

definition managed_cleanup_root ::
  "intent_index \<Rightarrow> string option \<Rightarrow> rooms_config \<Rightarrow> string \<Rightarrow> string \<Rightarrow> string \<Rightarrow> string + string option" where
  "managed_cleanup_root ix home c state base_id candidate =
     or_else_root (map_sum id (managed_id_root candidate) (canonical_candidate ix state))
    (or_else_root (case chroot_base home c of
        None \<Rightarrow> Inl ''cannot resolve jailer chroot base''
      | Some chroot \<Rightarrow> map_sum id (managed_id_root candidate) (canonical_candidate ix (path_join chroot ''firecracker'')))
    (or_else_root (under_cleanup_root ix candidate (room_dir home c base_id))
                  (under_cleanup_root ix candidate (jail_instance_dir home c base_id))))"

fun first_overlap :: "string \<Rightarrow> string list \<Rightarrow> string option" where
  "first_overlap resolved [] = None"
| "first_overlap resolved (i # is) = (if overlaps resolved i then Some i else first_overlap resolved is)"

definition resolve_output ::
  "intent_index \<Rightarrow> string option \<Rightarrow> rooms_config \<Rightarrow> string \<Rightarrow> string \<Rightarrow> string \<Rightarrow> string option \<Rightarrow> string + string" where
  "resolve_output ix home c state base_id snapshot_id explicit =
     (let candidate = (case explicit of None \<Rightarrow> path_join (path_join state SNAPSHOTS_DIR) snapshot_id | Some p \<Rightarrow> p) in
      case canonical_candidate ix candidate of Inl e \<Rightarrow> Inl e | Inr resolved \<Rightarrow>
      (case canonical_candidate ix (path_join state SNAPSHOT_INTENTS_DIR) of Inl e \<Rightarrow> Inl e | Inr snapshot_index \<Rightarrow>
      (case canonical_candidate ix (path_join state RESTORE_INTENTS_DIR) of Inl e \<Rightarrow> Inl e | Inr restore_index \<Rightarrow>
      (case canonical_candidate ix (path_join state SNAPSHOT_ATTESTATIONS_DIR) of Inl e \<Rightarrow> Inl e | Inr attestation_index \<Rightarrow>
      (case first_overlap resolved [snapshot_index, restore_index, attestation_index] of
         Some index \<Rightarrow> Inl (''snapshot output overlaps transaction index '' @ index)
       | None \<Rightarrow> (case managed_cleanup_root ix home c state base_id resolved of
            Inl e \<Rightarrow> Inl e
          | Inr (Some managed) \<Rightarrow> Inl (''snapshot output is under managed cleanup tree '' @ managed)
          | Inr None \<Rightarrow> Inr resolved))))))"

subsection \<open>The index\<close>

definition snapshot_intent_name :: "string \<Rightarrow> string" where
  "snapshot_intent_name base_id = base_id @ ''.json''"

definition validate_intent ::
  "intent_index \<Rightarrow> string option \<Rightarrow> rooms_config \<Rightarrow> snapshot_intent \<Rightarrow> string \<Rightarrow> string + unit" where
  "validate_intent ix home c i name =
     (if si_schema_version i \<noteq> SNAPSHOT_INTENT_SCHEMA_VERSION
      then Inl (''unsupported snapshot intent schema '' @ show_u32 (si_schema_version i))
      else if \<not> is_valid_room_id (si_base_room_id i) \<or> \<not> is_valid_room_id (si_snapshot_id i)
      then Inl ''snapshot intent contains an invalid id''
      else if file_stem name \<noteq> si_base_room_id i \<or> sm_base_room_id (si_meta i) \<noteq> si_base_room_id i
           \<or> sm_snapshot_id (si_meta i) \<noteq> si_snapshot_id i
      then Inl ''snapshot intent identity fields disagree''
      else (case resolved_state_base home c of
          None \<Rightarrow> Inl ''HOME unset; cannot locate rooms state''
        | Some state \<Rightarrow> (case resolve_output ix home c state (si_base_room_id i) (si_snapshot_id i) (Some (si_out_dir i)) of
            Inl e \<Rightarrow> Inl e
          | Inr safe_out \<Rightarrow>
              if \<not> path_eq safe_out (si_out_dir i) then Inl ''snapshot intent output is no longer canonical''
              else (case jail_root_dir home c (si_base_room_id i) of
                  None \<Rightarrow> Inl ''cannot resolve intent jail root''
                | Some jail_root \<Rightarrow>
                    if \<not> path_eq (si_host_vmstate i) (path_join (si_out_dir i) SNAPSHOT_VMSTATE_FILE)
                     \<or> \<not> path_eq (si_host_mem i) (path_join (si_out_dir i) SNAPSHOT_MEM_FILE)
                     \<or> \<not> path_eq (si_jail_vmstate i) (path_join jail_root SNAPSHOT_VMSTATE_FILE)
                     \<or> \<not> path_eq (si_jail_mem i) (path_join jail_root SNAPSHOT_MEM_FILE)
                    then Inl ''snapshot intent artifact paths disagree with their roots'' else Inr ()))))"

fun read_snapshot_entries ::
  "intent_index \<Rightarrow> string option \<Rightarrow> rooms_config \<Rightarrow> io_env \<Rightarrow> (io_error + string \<times> (io_error + bool)) list \<Rightarrow> 'h world
     \<Rightarrow> string + snapshot_intent list" where
  "read_snapshot_entries ix home c env [] w = Inr []"
| "read_snapshot_entries ix home c env (Inl e # rest) w = Inl (ix_text ix e)"
| "read_snapshot_entries ix home c env (Inr (name, file_type) # rest) w =
     (if path_extension name \<noteq> Some ''json'' then read_snapshot_entries ix home c env rest w
      else (case file_type of
          Inl e \<Rightarrow> Inl (ix_text ix e)
        | Inr False \<Rightarrow> Inl (''snapshot intent is not a regular file: '' @ name)
        | Inr True \<Rightarrow> (case read_to_string env SNAPSHOT_INTENTS_DIR name w of
            Inl e \<Rightarrow> Inl (ix_text ix e)
          | Inr bytes \<Rightarrow> (case ix_from_json ix bytes of
              Inl e \<Rightarrow> Inl e
            | Inr i \<Rightarrow> (case validate_intent ix home c i name of
                Inl e \<Rightarrow> Inl e
              | Inr _ \<Rightarrow> map_sum id (\<lambda>is. i # is) (read_snapshot_entries ix home c env rest w))))))"

definition read_snapshot_intents ::
  "intent_index \<Rightarrow> string option \<Rightarrow> rooms_config \<Rightarrow> io_env \<Rightarrow> 'h world \<Rightarrow> string + snapshot_intent list" where
  "read_snapshot_intents ix home c env w = (case snapshot_intents_dir home c of
     None \<Rightarrow> Inl ''cannot resolve snapshot intent directory''
   | Some _ \<Rightarrow> (case ix_entries ix of
        Inl NotFound \<Rightarrow> Inr []
      | Inl e \<Rightarrow> Inl (ix_text ix e)
      | Inr entries \<Rightarrow> map_sum id (sort_key si_snapshot_id) (read_snapshot_entries ix home c env entries w)))"

definition pending_summary :: "snapshot_intent \<Rightarrow> pending_snapshot" where
  "pending_summary i =
     \<lparr>ps_snapshot_id = si_snapshot_id i, ps_base_room = si_base_room_id i, ps_boundary = snapshot_boundary_label (si_boundary i),
      ps_next_action = ''run '' @ CHR 0x60 # ''rooms snapshot-recover '' @ si_snapshot_id i @ CHR 0x60 # '' to resume safely''\<rparr>"

definition pending_for_base ::
  "intent_index \<Rightarrow> string option \<Rightarrow> rooms_config \<Rightarrow> io_env \<Rightarrow> string \<Rightarrow> 'h world \<Rightarrow> string + pending_snapshot option" where
  "pending_for_base ix home c env base_id w = map_sum id
     (\<lambda>is. map_option pending_summary (find (\<lambda>i. si_base_room_id i = base_id) is)) (read_snapshot_intents ix home c env w)"

definition has_pending :: "intent_index \<Rightarrow> string option \<Rightarrow> rooms_config \<Rightarrow> io_env \<Rightarrow> 'h world \<Rightarrow> string + bool" where
  "has_pending ix home c env w = map_sum id (\<lambda>is. is \<noteq> []) (read_snapshot_intents ix home c env w)"

definition pending_all ::
  "intent_index \<Rightarrow> string option \<Rightarrow> rooms_config \<Rightarrow> io_env \<Rightarrow> 'h world \<Rightarrow> string + pending_snapshot list" where
  "pending_all ix home c env w = map_sum id (map pending_summary) (read_snapshot_intents ix home c env w)"

definition pending_output_dirs ::
  "intent_index \<Rightarrow> string option \<Rightarrow> rooms_config \<Rightarrow> io_env \<Rightarrow> 'h world \<Rightarrow> string + string list" where
  "pending_output_dirs ix home c env w = map_sum id (map si_out_dir) (read_snapshot_intents ix home c env w)"

subsection \<open>Locks\<close>

text \<open>\<open>Some ()\<close> stands for the lock held until the caller returns.\<close>

definition try_lock_named ::
  "intent_index \<Rightarrow> string option \<Rightarrow> rooms_config \<Rightarrow> io_env \<Rightarrow> string \<Rightarrow> 'h world \<Rightarrow> (string + unit option) \<times> 'h world" where
  "try_lock_named ix home c env name w = (case snapshot_intents_dir home c of
     None \<Rightarrow> (Inl ''cannot resolve snapshot intent directory'', w)
   | Some _ \<Rightarrow> map_err (ix_text ix)
       (and_then (create_dir_all env SNAPSHOT_INTENTS_DIR w) (\<lambda>_ w.
        case check_fault env (SetPermissions SNAPSHOT_INTENTS_DIR []) of
          Inl e \<Rightarrow> (Inl e, w)
        | Inr _ \<Rightarrow> (case check_fault env (OpenLock (name @ ''.lock'')) of
            Inl e \<Rightarrow> (Inl e, w)
          | Inr _ \<Rightarrow>
              let w = (if files w (SNAPSHOT_INTENTS_DIR, name @ ''.lock'') = None
                       then w\<lparr>files := (files w)((SNAPSHOT_INTENTS_DIR, name @ ''.lock'') \<mapsto> [])\<rparr> else w) in
              (case ix_try_lock ix name of
                 Inl e \<Rightarrow> (Inl e, w)
               | Inr False \<Rightarrow> (Inr None, w)
               | Inr True \<Rightarrow> (case check_fault env (SyncAll SNAPSHOT_INTENTS_DIR (name @ ''.lock'')) of
                   Inl e \<Rightarrow> (Inl e, w)
                 | Inr _ \<Rightarrow> (case sync_dir env SNAPSHOT_INTENTS_DIR of Inl e \<Rightarrow> (Inl e, w) | Inr _ \<Rightarrow> (Inr (Some ()), w))))))))"

definition try_acquire_lock ::
  "intent_index \<Rightarrow> string option \<Rightarrow> rooms_config \<Rightarrow> io_env \<Rightarrow> string \<Rightarrow> 'h world \<Rightarrow> (string + unit option) \<times> 'h world" where
  "try_acquire_lock ix home c env base_id w = try_lock_named ix home c env base_id w"

definition acquire_lock ::
  "intent_index \<Rightarrow> string option \<Rightarrow> rooms_config \<Rightarrow> io_env \<Rightarrow> string \<Rightarrow> 'h world \<Rightarrow> (string + unit) \<times> 'h world" where
  "acquire_lock ix home c env base_id w = and_then (try_acquire_lock ix home c env base_id w) (\<lambda>l w. case l of
     Some _ \<Rightarrow> (Inr (), w) | None \<Rightarrow> (Inl (''snapshot transaction for base '' @ base_id @ '' is busy''), w))"

subsection \<open>What reading and locking depend on\<close>

text \<open>Only lock files were created.\<close>

definition only_locks :: "'h world \<Rightarrow> 'h world \<Rightarrow> bool" where
  "only_locks w w' \<longleftrightarrow> host w' = host w \<and> (\<forall>d. d \<noteq> SNAPSHOT_INTENTS_DIR \<longrightarrow> dirs w' d = dirs w d)
     \<and> (\<forall>p. fst p \<noteq> SNAPSHOT_INTENTS_DIR \<or> path_extension (snd p) = Some ''json'' \<longrightarrow> files w' p = files w p)"

lemma only_locks_refl [simp]: "only_locks w w" by (simp add: only_locks_def)

lemma only_locks_trans: "only_locks w v \<Longrightarrow> only_locks v u \<Longrightarrow> only_locks w u" unfolding only_locks_def by metis

lemma lock_extension: "path_extension (name @ ''.lock'') \<noteq> Some ''json''"
proof -
  have "rsplit_once CHR ''.'' (name @ CHR ''.'' # ''lock'') = Some (name, ''lock'')"
    using rfind_char_append[of "CHR ''.''" "''lock''" name] by (simp add: rsplit_once_def)
  then show ?thesis by (simp add: path_extension_def)
qed

lemma try_acquire_lock_effect:
  assumes "try_acquire_lock ix home c env base_id w = (r, w')"
  shows "only_locks w w'" "r = Inr (Some ()) \<Longrightarrow> ix_try_lock ix base_id = Inr True"
  using assms lock_extension[of base_id]
  by (auto simp: try_acquire_lock_def try_lock_named_def map_err_def and_then_def create_dir_all_def only_locks_def Let_def
      split: option.splits sum.splits prod.splits if_splits bool.splits)

lemma read_snapshot_intents_cong:
  assumes "\<And>n. path_extension n = Some ''json'' \<Longrightarrow> files w' (SNAPSHOT_INTENTS_DIR, n) = files w (SNAPSHOT_INTENTS_DIR, n)"
  shows "read_snapshot_intents ix home c env w' = read_snapshot_intents ix home c env w"
proof -
  have "read_snapshot_entries ix home c env es w' = read_snapshot_entries ix home c env es w" for es
  proof (induction es)
    case (Cons e es)
    then show ?case using assms by (cases e) (auto simp: read_to_string_def split: sum.splits bool.splits)
  qed simp
  then show ?thesis by (simp add: read_snapshot_intents_def split: option.splits sum.splits io_error.splits)
qed

lemma pending_for_base_cong:
  assumes "\<And>n. path_extension n = Some ''json'' \<Longrightarrow> files w' (SNAPSHOT_INTENTS_DIR, n) = files w (SNAPSHOT_INTENTS_DIR, n)"
  shows "pending_for_base ix home c env base w' = pending_for_base ix home c env base w"
  using read_snapshot_intents_cong[OF assms] by (simp add: pending_for_base_def)

end
