(* ===== verification/Registry.thy ===== *)
theory Registry
  imports Snapshot_Index "HOL-Library.Option_ord"
begin

text \<open>
  The room registry (\<open>src/src/registry.rs\<close>): listing and classifying rooms, garbage collection and \<open>rooms kill\<close>.
  The snapshot transactions that fence a room are read from their index (\<open>Snapshot_Index\<close>). Directory listings, JSON,
  the state of advisory locks and the sample of unclaimed taps are given by the environment; what other processes do between an observation and a
  lock is \<open>interf\<close>, as for the pools.
\<close>

subsection \<open>Rooms and their state\<close>

definition REGISTRY_SCHEMA_VERSION :: u32 where "REGISTRY_SCHEMA_VERSION = 1"

datatype room_state = RoomRunning | RoomKept | RoomOrphanedDead | RoomUnknown

definition state_label :: "room_state \<Rightarrow> string" where
  "state_label s = (case s of RoomRunning \<Rightarrow> ''running'' | RoomKept \<Rightarrow> ''kept'' | RoomOrphanedDead \<Rightarrow> ''orphaned-dead''
     | RoomUnknown \<Rightarrow> ''unknown'')"

definition is_reapable :: "room_state \<Rightarrow> bool" where
  "is_reapable s \<longleftrightarrow> s = RoomOrphanedDead"

record room_entry =
  en_id :: string
  en_state :: room_state
  en_label :: "string option"
  en_pid :: "u32 option"
  en_pid_starttime :: "u64 option"
  en_started_at :: "datetime option"
  en_keep :: bool
  en_slot :: "slot option"
  en_snapshot_lineage :: "string option"
  en_clone_net_index :: "u8 option"

record list_report =
  lr_schema_version :: u32
  lr_rooms :: "room_entry list"

definition list_report_new :: "room_entry list \<Rightarrow> list_report" where
  "list_report_new rooms = \<lparr>lr_schema_version = REGISTRY_SCHEMA_VERSION, lr_rooms = rooms\<rparr>"

definition report_is_clean :: "list_report \<Rightarrow> bool" where "report_is_clean r \<longleftrightarrow> lr_rooms r = []"

definition parse_ls_report :: "(string \<Rightarrow> string + list_report) \<Rightarrow> string \<Rightarrow> string + list_report" where
  "parse_ls_report from_str json = (case from_str json of
     Inl e \<Rightarrow> Inl (''parse ls --json: '' @ e)
   | Inr report \<Rightarrow>
       if lr_schema_version report \<noteq> REGISTRY_SCHEMA_VERSION
       then Inl (''ls --json schema_version '' @ show_u32 (lr_schema_version report) @ '' != supported ''
              @ show_u32 REGISTRY_SCHEMA_VERSION @ ''; regenerate with this rooms build'')
       else Inr report)"

definition registry_classify :: "bool \<Rightarrow> liveness \<Rightarrow> room_state" where
  "registry_classify keep live = (case live of
     Alive \<Rightarrow> if keep then RoomKept else RoomRunning | Dead \<Rightarrow> RoomOrphanedDead | Indeterminate \<Rightarrow> RoomUnknown)"

datatype registry_error =
    RegInvalidRoomId string
  | RegPathEscape string
  | RegHomeUnset
  | RegFirecracker firecracker_error
  | RegIo io_error

fun registry_error_text :: "(io_error \<Rightarrow> string) \<Rightarrow> registry_error \<Rightarrow> string" where
  "registry_error_text io_text (RegInvalidRoomId room) = ''invalid room id: '' @ room"
| "registry_error_text io_text (RegPathEscape path) = ''refusing to remove a path outside the state base: '' @ path"
| "registry_error_text io_text RegHomeUnset = ''home env var unset; cannot locate the rooms state base''"
| "registry_error_text io_text (RegFirecracker e) = firecracker_error_text io_text e"
| "registry_error_text io_text (RegIo e) = ''io error: '' @ io_text e"

subsection \<open>The environment\<close>

record 'n registry_env =
  ge_reap :: "'n reap_env"
  ge_home :: "string option"
  ge_config :: rooms_config
  ge_from_slice :: "string \<Rightarrow> string + room_meta"
  ge_from_json :: "string \<Rightarrow> string + restore_intent"
  ge_interf :: "'n room_host world \<Rightarrow> 'n room_host world"
  ge_rooms_dir :: "io_error + (io_error + string) list"
  ge_slots_dir :: "io_error + (io_error + string) list"
  ge_intents_dir :: "io_error + (io_error + string) list"
  ge_clonenets_dir :: "io_error + (io_error + string) list"
  ge_orphaned_taps :: "u8 list"
  ge_index :: intent_index

abbreviation ge_io :: "'n registry_env \<Rightarrow> io_env" where "ge_io env \<equiv> re_io (ge_reap env)"
abbreviation ge_lock :: "'n registry_env \<Rightarrow> string \<Rightarrow> 'h world \<Rightarrow> (string + unit option) \<times> 'h world" where
  "ge_lock env \<equiv> try_acquire_lock (ge_index env) (ge_home env) (ge_config env) (re_io (ge_reap env))"
abbreviation ge_pending :: "'n registry_env \<Rightarrow> string \<Rightarrow> 'h world \<Rightarrow> string + pending_snapshot option" where
  "ge_pending env \<equiv> pending_for_base (ge_index env) (ge_home env) (ge_config env) (re_io (ge_reap env))"
abbreviation ge_text :: "'n registry_env \<Rightarrow> io_error \<Rightarrow> string" where "ge_text env \<equiv> re_text (ge_reap env)"

definition fence_error :: "string \<Rightarrow> registry_error" where
  "fence_error e = RegIo (Other (''snapshot intent index: '' @ e))"

subsection \<open>Listing\<close>

definition load_meta_soft :: "'n registry_env \<Rightarrow> string \<Rightarrow> 'h world \<Rightarrow> room_meta option" where
  "load_meta_soft env room_id w = (case room_read (ge_from_slice env) (ge_io env) room_id w of Inr m \<Rightarrow> m | Inl _ \<Rightarrow> None)"

definition entry_for :: "'n registry_env \<Rightarrow> string \<Rightarrow> 'h world \<Rightarrow> room_entry" where
  "entry_for env room_id w =
     (let m = Option.bind (room_dir (ge_home env) (ge_config env) room_id) (\<lambda>_. load_meta_soft env room_id w);
          pid = Option.bind m rm_pid; starttime = Option.bind m rm_pid_starttime;
          keep = (case m of None \<Rightarrow> False | Some m \<Rightarrow> rm_keep m)
      in \<lparr>en_id = room_id, en_state = registry_classify keep (probe (ge_io env) pid starttime),
          en_label = Option.bind m rm_label, en_pid = pid, en_pid_starttime = starttime,
          en_started_at = map_option rm_started_at m, en_keep = keep, en_slot = Option.bind m rm_slot,
          en_snapshot_lineage = Option.bind m rm_snapshot_lineage, en_clone_net_index = Option.bind m rm_clone_net_index\<rparr>)"

fun list_entries :: "'n registry_env \<Rightarrow> (io_error + string) list \<Rightarrow> 'h world \<Rightarrow> registry_error + room_entry list" where
  "list_entries env [] w = Inr []"
| "list_entries env (Inl e # rest) w = Inl (RegIo e)"
| "list_entries env (Inr name # rest) w =
     (if \<not> is_valid_room_id name \<or> \<not> dirs w name then list_entries env rest w
      else map_sum id (\<lambda>es. entry_for env name w # es) (list_entries env rest w))"

definition list_rooms :: "'n registry_env \<Rightarrow> 'h world \<Rightarrow> registry_error + room_entry list" where
  "list_rooms env w = (case resolved_state_base (ge_home env) (ge_config env) of
     None \<Rightarrow> Inl RegHomeUnset
   | Some _ \<Rightarrow> (case ge_rooms_dir env of
        Inl NotFound \<Rightarrow> Inr []
      | Inl e \<Rightarrow> Inl (RegIo e)
      | Inr entries \<Rightarrow> map_sum id (\<lambda>es. sort_key en_started_at (sort_key en_id es)) (list_entries env entries w)))"

subsection \<open>Reaping one room\<close>

definition ensure_child :: "string \<Rightarrow> string \<Rightarrow> registry_error + unit" where
  "ensure_child path expected_parent =
     (if path_parent path = Some (components expected_parent) then Inr () else Inl (RegPathEscape path))"

definition or_home_unset :: "'a option \<Rightarrow> registry_error + 'a" where
  "or_home_unset x = (case x of None \<Rightarrow> Inl RegHomeUnset | Some a \<Rightarrow> Inr a)"

definition reap_paths :: "string option \<Rightarrow> rooms_config \<Rightarrow> string \<Rightarrow> registry_error + string \<times> string \<times> string" where
  "reap_paths home c room_id =
     (case (resolved_state_base home c, chroot_base home c, room_dir home c room_id, jail_instance_dir home c room_id, jail_socket home c room_id) of
        (Some base, Some chroot, Some rdir, Some jdir, Some socket) \<Rightarrow>
          (case ensure_child rdir base of
             Inl e \<Rightarrow> Inl e
           | Inr _ \<Rightarrow> (case ensure_child jdir (path_join chroot ''firecracker'') of
                Inl e \<Rightarrow> Inl e
              | Inr _ \<Rightarrow> Inr (rdir, jdir, socket)))
      | _ \<Rightarrow> Inl RegHomeUnset)"

definition slot_release_for :: "string option \<Rightarrow> rooms_config \<Rightarrow> room_entry \<Rightarrow> registry_error + slot_release option" where
  "slot_release_for home c entry = (case en_slot entry of
     None \<Rightarrow> Inr None
   | Some sl \<Rightarrow> (case resolved_state_base home c of
        None \<Rightarrow> Inl RegHomeUnset
      | Some _ \<Rightarrow> Inr (Some \<lparr>sr_index = slot_index sl, sr_tap = slot_tap sl, sr_room_id = en_id entry\<rparr>)))"

definition reap_room :: "'n registry_env \<Rightarrow> room_entry \<Rightarrow> 'n room_host world \<Rightarrow> (registry_error + unit) \<times> 'n room_host world" where
  "reap_room env entry w = (case (en_snapshot_lineage entry, en_slot entry) of
     (Some snapshot_id, Some sl) \<Rightarrow>
       map_err (\<lambda>e. RegFirecracker (FcInternal e))
         (finish_teardown (ge_reap env) (ge_home env) (ge_config env) (en_id entry) snapshot_id (slot_index sl) (en_clone_net_index entry) w)
   | _ \<Rightarrow> (case reap_paths (ge_home env) (ge_config env) (en_id entry) of
        Inl e \<Rightarrow> (Inl e, w)
      | Inr (rdir, jdir, socket) \<Rightarrow> (case slot_release_for (ge_home env) (ge_config env) entry of
          Inl e \<Rightarrow> (Inl e, w)
        | Inr sl \<Rightarrow> map_err RegFirecracker (reap_orphan (ge_reap env) (en_id entry) jdir jdir sl (ge_config env) w))))"

subsection \<open>Garbage collection\<close>

record gc_options =
  go_dry_run :: bool
  go_only :: "string option"

record gc_outcome =
  gc_id :: string
  gc_state :: room_state
  gc_reaped :: bool
  gc_reason :: string

record gc_report =
  gr_schema_version :: u32
  gr_dry_run :: bool
  gr_outcomes :: "gc_outcome list"

definition outcome :: "room_entry \<Rightarrow> bool \<Rightarrow> string \<Rightarrow> gc_outcome" where
  "outcome entry reaped reason = \<lparr>gc_id = en_id entry, gc_state = en_state entry, gc_reaped = reaped, gc_reason = reason\<rparr>"

definition skip_outcome :: "room_entry \<Rightarrow> gc_outcome" where
  "skip_outcome entry = outcome entry False (''skipped: '' @ state_label (en_state entry))"

definition error_outcome :: "(io_error \<Rightarrow> string) \<Rightarrow> room_entry \<Rightarrow> registry_error \<Rightarrow> gc_outcome" where
  "error_outcome io_text entry e = outcome entry False (''error: '' @ registry_error_text io_text e)"

definition should_reconcile_global_allocators :: "gc_options \<Rightarrow> bool" where
  "should_reconcile_global_allocators opts \<longleftrightarrow> \<not> go_dry_run opts \<and> go_only opts = None"

definition protected_reason :: "string \<Rightarrow> string" where
  "protected_reason snapshot_id = ''protected pending snapshot '' @ snapshot_id @ ''; run '' @ CHR 0x60 # ''rooms snapshot-recover ''
     @ snapshot_id @ [CHR 0x60]"

definition pending_snapshot_for :: "'n registry_env \<Rightarrow> string \<Rightarrow> 'h world \<Rightarrow> registry_error + pending_snapshot option" where
  "pending_snapshot_for env room_id w = (case ge_pending env room_id w of Inl e \<Rightarrow> Inl (fence_error e) | Inr p \<Rightarrow> Inr p)"

definition reap_entry ::
  "'n registry_env \<Rightarrow> room_entry \<Rightarrow> bool \<Rightarrow> 'n room_host world \<Rightarrow> (registry_error + gc_outcome) \<times> 'n room_host world" where
  "reap_entry env entry dry_run w = (case ge_lock env (en_id entry) w of
     (Inl e, w) \<Rightarrow> (Inl (fence_error e), w)
   | (Inr None, w) \<Rightarrow> (Inr (outcome entry False ''snapshot transaction is starting or active; refusing concurrent reap''), w)
   | (Inr (Some _), w) \<Rightarrow> (case pending_snapshot_for env (en_id entry) w of
        Inl e \<Rightarrow> (Inl e, w)
      | Inr (Some p) \<Rightarrow> (Inr (outcome entry False (protected_reason (ps_snapshot_id p))), w)
      | Inr None \<Rightarrow>
          if \<not> is_reapable (en_state entry) then (Inr (skip_outcome entry), w)
          else (case reap_paths (ge_home env) (ge_config env) (en_id entry) of
              Inl e \<Rightarrow> (Inl e, w)
            | Inr _ \<Rightarrow>
                if dry_run then (Inr (outcome entry False ''would reap (dry-run)''), w)
                else and_then (reap_room env entry w) (\<lambda>_ w. (Inr (outcome entry True ''reaped''), w)))))"

fun reap_all ::
  "'n registry_env \<Rightarrow> bool \<Rightarrow> room_entry list \<Rightarrow> 'n room_host world \<Rightarrow> gc_outcome list \<times> 'n room_host world" where
  "reap_all env dry_run [] w = ([], w)"
| "reap_all env dry_run (e # es) w = (case reap_entry env e dry_run w of
     (r, w) \<Rightarrow> (case reap_all env dry_run es w of
       (os, w) \<Rightarrow> ((case r of Inr out \<Rightarrow> out | Inl err \<Rightarrow> error_outcome (ge_text env) e err) # os, w)))"

definition slot_cleanup :: "'n registry_env \<Rightarrow> u8 \<Rightarrow> 'n room_host \<Rightarrow> (string + unit) \<times> 'n room_host" where
  "slot_cleanup env index h = map_err (firecracker_error_text (ge_text env))
     (on_programs (remove_egress_and_tap (ge_reap env) (''tap-fc'' @ show_u8 index)) h)"

definition reconcile_leaked_slots_with ::
  "'n registry_env \<Rightarrow> u8 list \<Rightarrow> (u8 \<Rightarrow> 'n room_host \<Rightarrow> (string + unit) \<times> 'n room_host) \<Rightarrow> 'n room_host world \<Rightarrow> 'n room_host world" where
  "reconcile_leaked_slots_with env orphaned_taps cleanup w = (case resolved_state_base (ge_home env) (ge_config env) of
     None \<Rightarrow> w
   | Some _ \<Rightarrow>
       fold (\<lambda>index w. snd (cleanup_if_unclaimed (ge_io env) index (cleanup index) w)) orphaned_taps
         (snd (slot_reconcile (ge_io env) (ge_interf env) (ge_slots_dir env) cleanup w)))"

definition reconcile_leaked_slots :: "'n registry_env \<Rightarrow> 'n room_host world \<Rightarrow> 'n room_host world" where
  "reconcile_leaked_slots env w = reconcile_leaked_slots_with env (ge_orphaned_taps env) (slot_cleanup env) w"

definition reconcile_leaked_clonenets :: "'n registry_env \<Rightarrow> 'n room_host world \<Rightarrow> 'n room_host world" where
  "reconcile_leaked_clonenets env w = (case resolved_state_base (ge_home env) (ge_config env) of
     None \<Rightarrow> w
   | Some _ \<Rightarrow> snd (clone_reconcile_with (ge_text env) (ge_io env) (ge_interf env) (ge_clonenets_dir env)
       (room_network_ops (ge_reap env)) w))"

definition in_scope :: "gc_options \<Rightarrow> string \<Rightarrow> bool" where
  "in_scope opts room_id \<longleftrightarrow> (case go_only opts of None \<Rightarrow> True | Some only \<Rightarrow> only = room_id)"

definition unknown_outcome :: "string \<Rightarrow> bool \<Rightarrow> string \<Rightarrow> gc_outcome" where
  "unknown_outcome room_id reaped reason = \<lparr>gc_id = room_id, gc_state = RoomUnknown, gc_reaped = reaped, gc_reason = reason\<rparr>"

definition absent_base_outcomes :: "gc_options \<Rightarrow> room_entry list \<Rightarrow> pending_snapshot list \<Rightarrow> gc_outcome list" where
  "absent_base_outcomes opts rooms pending = List.map_filter (\<lambda>p.
     if in_scope opts (ps_base_room p) \<and> ps_base_room p \<notin> en_id ` set rooms
     then Some (unknown_outcome (ps_base_room p) False (protected_reason (ps_snapshot_id p))) else None) pending"

definition restore_intents_now :: "'n registry_env \<Rightarrow> 'n room_host world \<Rightarrow> string + restore_intent list" where
  "restore_intents_now env w =
     (case restore_intents_dir (ge_home env) (ge_config env) of
        None \<Rightarrow> Inl ''cannot resolve restore intent directory''
      | Some _ \<Rightarrow> read_intents (ge_text env) (ge_from_json env) (ge_io env) (ge_intents_dir env) w)"

definition restore_outcomes ::
  "'n registry_env \<Rightarrow> gc_options \<Rightarrow> 'n room_host world \<Rightarrow> (registry_error + gc_outcome list) \<times> 'n room_host world" where
  "restore_outcomes env opts w =
     (if go_dry_run opts then
        (case restore_pending_all (restore_intents_now env w) of
           Inl e \<Rightarrow> (Inl (fence_error e), w)
         | Inr ps \<Rightarrow> (Inr (map (\<lambda>p. unknown_outcome (pr_room_id p) False
              (''pending restore of snapshot '' @ pr_snapshot_id p @ '' at boundary '' @ pr_boundary p))
              (filter (\<lambda>p. in_scope opts (pr_room_id p)) ps)), w))
      else (case gc_reconcile (ge_reap env) (ge_home env) (ge_config env) (go_only opts) (restore_intents_now env w) w of
          (rs, w) \<Rightarrow> (Inr (map (\<lambda>r. unknown_outcome (rr_room_id r) (rr_reaped r) (rr_reason r)) rs), w)))"

definition gc :: "'n registry_env \<Rightarrow> gc_options \<Rightarrow> 'n room_host world \<Rightarrow> (registry_error + gc_report) \<times> 'n room_host world" where
  "gc env opts w =
     (if (case go_only opts of None \<Rightarrow> False | Some room_id \<Rightarrow> \<not> is_valid_room_id room_id)
      then (Inl (RegInvalidRoomId (the (go_only opts))), w)
      else (case pending_all (ge_index env) (ge_home env) (ge_config env) (ge_io env) w of
          Inl e \<Rightarrow> (Inl (fence_error e), w)
        | Inr pending \<Rightarrow>
            let w = (if should_reconcile_global_allocators opts \<and> pending = [] then reconcile_leaked_slots env w else w) in
            (case list_rooms env w of
               Inl e \<Rightarrow> (Inl e, w)
             | Inr rooms \<Rightarrow>
                 let rooms = filter (\<lambda>e. in_scope opts (en_id e)) rooms in
                 (case reap_all env (go_dry_run opts) rooms w of
                    (reaped, w) \<Rightarrow> and_then (restore_outcomes env opts w) (\<lambda>restored w.
                      let w = (if should_reconcile_global_allocators opts then reconcile_leaked_clonenets env w else w) in
                      (Inr \<lparr>gr_schema_version = REGISTRY_SCHEMA_VERSION, gr_dry_run = go_dry_run opts,
                            gr_outcomes = reaped @ absent_base_outcomes opts rooms pending @ restored\<rparr>, w))))))"

subsection \<open>Killing\<close>

datatype kill_disposition = Killed | AlreadyDead | Refused | KillFailed

definition disposition_exit_code :: "kill_disposition \<Rightarrow> u8" where
  "disposition_exit_code d = (case d of Killed \<Rightarrow> 0 | AlreadyDead \<Rightarrow> 0 | KillFailed \<Rightarrow> 1 | Refused \<Rightarrow> 2)"

record kill_outcome =
  ko_id :: string
  ko_state :: room_state
  ko_disposition :: kill_disposition
  ko_reason :: string

record kill_report =
  kr_schema_version :: u32
  kr_outcomes :: "kill_outcome list"

definition report_exit_code :: "kill_report \<Rightarrow> u8" where
  "report_exit_code r = fold max (map (\<lambda>o'. disposition_exit_code (ko_disposition o')) (kr_outcomes r)) 0"

definition kill_outcome_of :: "room_entry \<Rightarrow> kill_disposition \<Rightarrow> string \<Rightarrow> kill_outcome" where
  "kill_outcome_of entry d reason = \<lparr>ko_id = en_id entry, ko_state = en_state entry, ko_disposition = d, ko_reason = reason\<rparr>"

definition unknown_entry :: "string \<Rightarrow> room_entry" where
  "unknown_entry room_id = \<lparr>en_id = room_id, en_state = RoomUnknown, en_label = None, en_pid = None, en_pid_starttime = None,
     en_started_at = None, en_keep = False, en_slot = None, en_snapshot_lineage = None, en_clone_net_index = None\<rparr>"

definition find_entry :: "'n registry_env \<Rightarrow> string \<Rightarrow> 'h world \<Rightarrow> room_entry option" where
  "find_entry env room_id w = (case room_dir (ge_home env) (ge_config env) room_id of
     None \<Rightarrow> None | Some _ \<Rightarrow> if dirs w room_id then Some (entry_for env room_id w) else None)"

definition reap_after_kill ::
  "'n registry_env \<Rightarrow> room_entry \<Rightarrow> string \<Rightarrow> 'n room_host world \<Rightarrow> (registry_error + kill_outcome) \<times> 'n room_host world" where
  "reap_after_kill env entry ok_reason w = (case reap_paths (ge_home env) (ge_config env) (en_id entry) of
     Inl e \<Rightarrow> (Inl e, w)
   | Inr _ \<Rightarrow> (case reap_room env entry w of
        (Inr _, w) \<Rightarrow> (Inr (kill_outcome_of entry Killed ok_reason), w)
      | (Inl e, w) \<Rightarrow> (Inr (kill_outcome_of entry KillFailed (''terminated but reap failed: '' @ registry_error_text (ge_text env) e)), w)))"

definition kill_live :: "'n registry_env \<Rightarrow> room_entry \<Rightarrow> 'n room_host world \<Rightarrow> (registry_error + kill_outcome) \<times> 'n room_host world" where
  "kill_live env entry w = (case en_pid entry of
     None \<Rightarrow> (Inr (kill_outcome_of entry Refused ''alive but no pid recorded; refusing to kill''), w)
   | Some pid \<Rightarrow> (case en_pid_starttime entry of
       None \<Rightarrow> (Inr (kill_outcome_of entry Refused
          ''cannot verify process identity (room predates starttime pinning); refusing to signal''), w)
     | Some starttime \<Rightarrow>
         (case on_host (on_programs (terminate_by_identity (ge_reap env) pid (Some starttime) (cleanup_grace (ge_config env)))) w of
            (KillSignaled, w) \<Rightarrow> reap_after_kill env entry ''killed'' w
          | (KillAlreadyExited, w) \<Rightarrow> reap_after_kill env entry ''already exited; reaped'' w
          | (KillSurvived, w) \<Rightarrow> (Inr (kill_outcome_of entry KillFailed
               ''firecracker survived SIGKILL; still alive, not reaped''), w)
          | (KillIndeterminate, w) \<Rightarrow> (Inr (kill_outcome_of entry Refused
               ''liveness indeterminate at signal time; could not confirm death (not reaped)''), w))))"

definition kill_entry :: "'n registry_env \<Rightarrow> room_entry \<Rightarrow> 'n room_host world \<Rightarrow> (registry_error + kill_outcome) \<times> 'n room_host world" where
  "kill_entry env entry w = (case en_state entry of
     RoomOrphanedDead \<Rightarrow> (Inr (kill_outcome_of entry AlreadyDead
        (''nothing live to kill; run '' @ CHR 0x60 # ''rooms gc'' @ CHR 0x60 # '' to reap it'')), w)
   | RoomUnknown \<Rightarrow> (Inr (kill_outcome_of entry Refused ''liveness unknown (no pid / unreadable /proc); refusing to kill''), w)
   | _ \<Rightarrow> kill_live env entry w)"

definition kill_report_of :: "kill_outcome list \<Rightarrow> kill_report" where
  "kill_report_of os = \<lparr>kr_schema_version = REGISTRY_SCHEMA_VERSION, kr_outcomes = os\<rparr>"

definition found_or_unknown :: "'n registry_env \<Rightarrow> string \<Rightarrow> 'h world \<Rightarrow> room_entry" where
  "found_or_unknown env room_id w = (case find_entry env room_id w of None \<Rightarrow> unknown_entry room_id | Some e \<Rightarrow> e)"

definition room_kill :: "'n registry_env \<Rightarrow> string \<Rightarrow> 'n room_host world \<Rightarrow> (registry_error + kill_report) \<times> 'n room_host world" where
  "room_kill env room_id w =
     (if \<not> is_valid_room_id room_id then (Inl (RegInvalidRoomId room_id), w)
      else if resolved_state_base (ge_home env) (ge_config env) = None then (Inl RegHomeUnset, w)
      else (case ge_lock env room_id w of
           (Inl e, w) \<Rightarrow> (Inl (fence_error e), w)
         | (Inr None, w) \<Rightarrow> (Inr (kill_report_of [kill_outcome_of (found_or_unknown env room_id w) Refused
              ''snapshot transaction is starting or active; refusing concurrent kill'']), w)
         | (Inr (Some _), w) \<Rightarrow> (case pending_snapshot_for env room_id w of
              Inl e \<Rightarrow> (Inl e, w)
            | Inr (Some p) \<Rightarrow> (Inr (kill_report_of [kill_outcome_of (found_or_unknown env room_id w) Refused
                 (''snapshot transaction '' @ ps_snapshot_id p
                 @ '' is pending; run '' @ CHR 0x60 # ''rooms snapshot-recover '' @ ps_snapshot_id p @ [CHR 0x60])]), w)
            | Inr None \<Rightarrow> (case find_entry env room_id w of
                 None \<Rightarrow> (Inr (kill_report_of []), w)
               | Some entry \<Rightarrow> and_then (kill_entry env entry w) (\<lambda>o' w. (Inr (kill_report_of [o']), w))))))"

subsection \<open>Paths\<close>

lemma ensure_child_plain: "plain_name s \<Longrightarrow> ensure_child (path_join b s) b = Inr ()"
  by (simp add: ensure_child_def path_parent_def components_join_plain)

text \<open>C38. The directories garbage collection removes. For a syntactically valid room id all path checks succeed, and the room directory
  and the jail instance directory are the direct children named by the id of the state base and of the jailer's directory; no other
  id shares them. For any other relative name the check of the parent accepts exactly the names that consist of
  one component, and the name \<open>..\<close> is one of these: only the syntactic gate keeps it out.\<close>

theorem reap_paths_contained:
  assumes "is_valid_room_id room" and "resolved_state_base home c = Some b" and "chroot_base home c = Some cb"
  shows "(\<exists>r j s. reap_paths home c room = Inr (r, j, s) \<and> room_dir home c room = Some r \<and> jail_instance_dir home c room = Some j
      \<and> components r = components b @ [NormalComponent room]
      \<and> components j = components cb @ [NormalComponent ''firecracker'', NormalComponent room]
      \<and> components s = components j @ [NormalComponent ''root'', NormalComponent ''api.sock'']
      \<and> (\<forall>other. is_valid_room_id other \<and> other \<noteq> room \<longrightarrow>
           room_dir home c other \<noteq> Some r \<and> jail_instance_dir home c other \<noteq> Some j))
    \<and> (\<forall>base name. base \<noteq> [] \<and> \<not> has_root name \<longrightarrow>
        (ensure_child (path_join base name) base = Inr () \<longleftrightarrow> (\<exists>comp. List.map_filter component_of (split_on slash name) = [comp])))
    \<and> ensure_child (path_join ''/s'' ''..'') ''/s'' = Inr ()"
proof -
  have p: "plain_name x" if "is_valid_room_id x" for x using that by (simp add: valid_room_id id_shaped_plain)
  obtain r j s where d: "room_dir home c room = Some r" "jail_instance_dir home c room = Some j" "jail_socket home c room = Some s"
    using assms by (simp add: room_dir_def jail_instance_dir_def jail_socket_def jail_root_dir_def)
  have r: "components r = components b @ [NormalComponent room]" using room_dir_components[OF d(1) p[OF assms(1)]] assms(2) by simp
  have j: "components j = components cb @ [NormalComponent ''firecracker'', NormalComponent room]"
    using jail_dir_components[OF d(2) p[OF assms(1)]] assms(3) by simp
  have s: "components s = components j @ [NormalComponent ''root'', NormalComponent ''api.sock'']"
    using socket_components[OF d(3) p[OF assms(1)]] d(2) by simp
  have "reap_paths home c room = Inr (r, j, s)"
    using d assms ensure_child_plain[OF p[OF assms(1)]] by (auto simp: reap_paths_def room_dir_def jail_instance_dir_def)
  moreover have "room_dir home c other \<noteq> Some r \<and> jail_instance_dir home c other \<noteq> Some j"
    if "is_valid_room_id other" "other \<noteq> room" for other
    using that r j room_dir_components[of home c other r] jail_dir_components[of home c other j] p[OF that(1)] assms by auto
  moreover have "ensure_child (path_join ''/s'' ''..'') ''/s'' = Inr ()"
    by (simp add: ensure_child_def path_parent_join has_root_def slash_def component_of_def List.map_filter_def)
  moreover have "ensure_child (path_join base name) base = Inr () \<longleftrightarrow> (\<exists>comp. List.map_filter component_of (split_on slash name) = [comp])"
    if "base \<noteq> []" "\<not> has_root name" for base name
    using path_parent_join[OF that] by (simp add: ensure_child_def)
  ultimately show ?thesis using d r j s by blast
qed

theorem reap_paths_contained_witness:
  "\<exists>r j s. reap_paths None demo_config demo_owner = Inr (r, j, s)
     \<and> components r = [RootDir, NormalComponent ''s'', NormalComponent demo_owner]"
proof -
  have v: "is_valid_room_id demo_owner" by (simp add: valid_room_id)
  have b: "resolved_state_base None demo_config = Some ''/s''" "chroot_base None demo_config = Some (path_join ''/s'' ''jailer'')"
    by (simp_all add: resolved_state_base_def chroot_base_def demo_config_def default_config_def)
  have "components ''/s'' = [RootDir, NormalComponent ''s'']"
    by (simp add: components_def Let_def has_root_def slash_def component_of_def List.map_filter_def)
  then show ?thesis using reap_paths_contained[OF v b] by auto
qed

subsection \<open>What a pass over the allocators leaves alone\<close>

lemma snd_map_err [simp]: "snd (map_err f r) = snd r"
  by (simp add: map_err_def split: prod.splits sum.splits)

text \<open>A frame is a preorder on worlds that the elementary effects of a sweep respect: removing a claim file of one of the two
  pools, and running host programs, which touch no jail.\<close>

locale sweep_frame =
  fixes R :: "'n room_host world \<Rightarrow> 'n room_host world \<Rightarrow> bool"
  assumes frame_refl: "R w w"
    and frame_trans: "R w v \<Longrightarrow> R v u \<Longrightarrow> R w u"
    and frame_claim: "d \<in> {SLOTS_DIR, CLONENETS_DIR} \<Longrightarrow> R w (w\<lparr>files := (files w)((d, n) := None)\<rparr>)"
    and frame_host: "jails h = jails (host w) \<Longrightarrow> R w (w\<lparr>host := h\<rparr>)"
begin

lemma frame_then: "R w (snd r) \<Longrightarrow> (\<And>a v. R v (snd (k a v))) \<Longrightarrow> R w (snd (and_then r k))"
  using frame_trans by (auto simp: and_then_def split: prod.splits sum.splits)

lemma frame_remove_file: "d \<in> {SLOTS_DIR, CLONENETS_DIR} \<Longrightarrow> R w (snd (remove_file env d n w))"
  using frame_refl frame_claim by (auto simp: remove_file_def split: option.splits sum.splits)

lemma frame_discard: "dir_name p \<in> {SLOTS_DIR, CLONENETS_DIR} \<Longrightarrow> R w (discard_abandoned_partial env p name c w)"
  using frame_refl frame_remove_file by (auto simp: discard_abandoned_partial_def split: sum.splits)

lemma frame_dead:
  assumes p: "dir_name p \<in> {SLOTS_DIR, CLONENETS_DIR}" and c: "\<And>i o' w. jails (snd (cleanup i o' w)) = jails (host w)"
  shows "R w (snd (reconcile_dead env p d cleanup w))"
proof -
  obtain r h where r: "cleanup (dc_index d) (dc_owner_id d) w = (r, h)" by fastforce
  have h: "R w (w\<lparr>host := h\<rparr>)" using frame_host c[of "dc_index d" "dc_owner_id d" w] r by simp
  have "R w (snd (remove_file env (dir_name p) (dc_name d) (w\<lparr>host := h\<rparr>)))" using frame_trans[OF h frame_remove_file[OF p]] .
  then show ?thesis using frame_refl h r
    by (auto simp: reconcile_dead_def split: sum.splits reconcile_action.splits prod.splits)
qed

lemma frame_entry:
  assumes p: "dir_name p \<in> {SLOTS_DIR, CLONENETS_DIR}" and c: "\<And>i o' w. jails (snd (cleanup i o' w)) = jails (host w)"
    and i: "\<And>w. R w (interf w)"
  shows "R w (snd (reconcile_entry env p interf entry cleanup w))"
proof -
  have "R v (snd (reconcile_observed env p name i t cleanup v))" for name i t v
    using frame_refl frame_discard[OF p] frame_dead[OF p c] by (simp add: reconcile_observed_def split: option.splits)
  from frame_trans[OF i this] show ?thesis
    using frame_refl by (simp add: reconcile_entry_def reconcile_path_def split: sum.splits option.splits)
qed

lemma frame_sweep:
  assumes p: "dir_name p \<in> {SLOTS_DIR, CLONENETS_DIR}" and c: "\<And>i o' w. jails (snd (cleanup i o' w)) = jails (host w)"
    and i: "\<And>w. R w (interf w)"
  shows "R w (snd (indexed_reconcile env p interf read_dir cleanup w))"
proof -
  have "R w (snd (reconcile_entries env p interf es cleanup w))" for es
  proof (induction es arbitrary: w)
    case (Cons e es)
    obtain r v where e: "reconcile_entry env p interf e cleanup w = (r, v)" by fastforce
    have "R w v" using frame_entry[where cleanup = cleanup, OF p c i, of w env e] e by simp
    then show ?case using Cons.IH[of v] frame_trans e by (auto split: option.splits prod.splits)
  qed (simp add: frame_refl)
  then show ?thesis using frame_refl by (simp add: indexed_reconcile_def split: sum.splits)
qed

lemma frame_fold: "(\<And>x w. R w (f x w)) \<Longrightarrow> R w (fold f xs w)"
  by (induction xs arbitrary: w) (auto intro: frame_refl frame_trans)

lemma frame_leaked_slots:
  assumes "\<And>w. R w (ge_interf env w)"
  shows "R w (reconcile_leaked_slots env w)"
proof -
  have j: "jails (snd (slot_cleanup env i h)) = jails h" for i h
    by (auto simp: slot_cleanup_def map_err_def on_programs_def split: prod.splits sum.splits)
  have "jails (snd (slot_reclaimer (slot_cleanup env) i o' w)) = jails (host w)" for i o' and w :: "'n room_host world"
    using j[of i "host w"] by (auto simp: slot_reclaimer_def split: prod.splits sum.splits)
  then have sweep: "R w (snd (slot_reconcile (ge_io env) (ge_interf env) (ge_slots_dir env) (slot_cleanup env) w))" for w
    unfolding slot_reconcile_def by (intro frame_sweep assms) (auto simp: SLOT_POOL_def)
  have "R w (snd (cleanup_if_unclaimed (ge_io env) i (slot_cleanup env i) w))" for i w
    using frame_refl frame_host j[of i "host w"]
    by (auto simp: cleanup_if_unclaimed_def split: sum.splits prod.splits)
  from frame_trans[OF sweep frame_fold[OF this]] show ?thesis
    using frame_refl by (auto simp: reconcile_leaked_slots_def reconcile_leaked_slots_with_def split: option.splits)
qed

lemma frame_leaked_clonenets:
  assumes "\<And>w. R w (ge_interf env w)"
  shows "R w (reconcile_leaked_clonenets env w)"
proof -
  have "jails (snd (clone_reclaimer (ge_text env) (room_network_ops (ge_reap env)) i o' w)) = jails (host w)"
    for i o' and w :: "'n room_host world"
    by (auto simp: clone_reclaimer_def room_network_ops_def Let_def on_clones_def map_err_def split: sum.splits prod.splits)
  then show ?thesis using frame_refl unfolding reconcile_leaked_clonenets_def clone_reconcile_with_def
    by (auto split: option.splits intro!: frame_sweep assms simp: CLONENET_POOL_def)
qed

end

subsection \<open>What a reap of another room leaves alone\<close>

text \<open>The room \<open>room\<close> with the jail at \<open>jail\<close> is as it was, the index of snapshot transactions too, and the index of restores has at most lost entries.\<close>

definition spares :: "string \<Rightarrow> string \<Rightarrow> 'n room_host world \<Rightarrow> 'n room_host world \<Rightarrow> bool" where
  "spares room jail w w' \<longleftrightarrow> is_id_shaped room \<longrightarrow>
     dirs w' room = dirs w room \<and> (\<forall>n. files w' (room, n) = files w (room, n)) \<and> jails (host w') jail = jails (host w) jail
     \<and> (\<forall>n. files w' (RESTORE_INTENTS_DIR, n) = None \<or> files w' (RESTORE_INTENTS_DIR, n) = files w (RESTORE_INTENTS_DIR, n))
     \<and> (\<forall>n. path_extension n = Some ''json'' \<longrightarrow> files w' (SNAPSHOT_INTENTS_DIR, n) = files w (SNAPSHOT_INTENTS_DIR, n))"

lemma state_dirs_not_rooms: "is_id_shaped d \<Longrightarrow> d \<notin> {SLOTS_DIR, CLONENETS_DIR, RESTORE_INTENTS_DIR, SNAPSHOT_INTENTS_DIR}"
  "RESTORE_INTENTS_DIR \<notin> {SLOTS_DIR, CLONENETS_DIR, SNAPSHOT_INTENTS_DIR}" "SNAPSHOT_INTENTS_DIR \<notin> {SLOTS_DIR, CLONENETS_DIR}"
  by (auto simp: SNAPSHOT_INTENTS_DIR_def RESTORE_INTENTS_DIR_def CLONENETS_DIR_def SLOTS_DIR_def is_id_shaped_def)

interpretation spared: sweep_frame "spares room jail" for room jail
proof unfold_locales
  show "spares room jail w v \<Longrightarrow> spares room jail v u \<Longrightarrow> spares room jail w u" for w v u :: "'n room_host world"
    unfolding spares_def by metis
  show "d \<in> {SLOTS_DIR, CLONENETS_DIR} \<Longrightarrow> spares room jail w (w\<lparr>files := (files w)((d, n) := None)\<rparr>)"
    for d n and w :: "'n room_host world"
    using state_dirs_not_rooms unfolding spares_def by fastforce
qed (auto simp: spares_def)

lemma spared_step:
  assumes "dirs w' room = dirs w room" "jails (host w') jail = jails (host w) jail"
    and "\<And>p. fst p \<in> {room, RESTORE_INTENTS_DIR, SNAPSHOT_INTENTS_DIR} \<Longrightarrow> files w' p = files w p"
  shows "spares room jail w w'"
  using assms by (auto simp: spares_def)

lemma spared_reap_room_only:
  assumes "d \<noteq> room" "j \<noteq> jail" "is_id_shaped d"
  shows "spares room jail w (snd (reap_room_only env d j j c w))"
proof -
  obtain r w' where r: "reap_room_only env d j j c w = (r, w')" by fastforce
  show ?thesis using reap_room_only_result[OF r] assms state_dirs_not_rooms(1)[OF assms(3)] unfolding r
    by (intro spared_step) auto
qed

lemma spared_release_under_lease: "is_id_shaped room \<Longrightarrow> spares room jail w (snd (release_under_lease env d i cn lease' w))"
proof -
  assume room: "is_id_shaped room"
  have clone: "spares room jail w (snd (clone_free (re_text env) (re_io env) (room_network_ops env) k o' w))" for k o' w
  proof -
    obtain r w' where r: "clone_free (re_text env) (re_io env) (room_network_ops env) k o' w = (r, w')" by fastforce
    show ?thesis using clone_free_frame[OF r] state_dirs_not_rooms room unfolding r by (intro spared_step) auto
  qed
  have progs: "spares room jail w (snd (on_host (on_programs f) w))" for f :: "'n \<Rightarrow> 'x \<times> 'n" and w
    by (intro spared_step) (auto simp: on_host_def on_programs_def split: prod.splits)
  have returned: "spares room jail w (snd (return_to_reservation (re_io env) h w))" for h w
  proof -
    obtain r w' where r: "rewrite_atomic (re_io env) SLOTS_DIR (lh_index h) (lh_post_cleanup_token h) w = (r, w')" by fastforce
    have "snd (return_to_reservation (re_io env) h w) = w'"
      using r by (auto simp: return_to_reservation_def rewrite_slot_atomic_def and_then_def map_err_def split: prod.splits sum.splits)
    then show ?thesis using rewrite_atomic_effect[OF r] state_dirs_not_rooms room by (intro spared_step) auto
  qed
  show ?thesis unfolding release_under_lease_def
    by (auto intro!: spared.frame_then spared.frame_refl clone progs returned simp: snd_map_err split: option.splits)
qed

lemma jail_dirs_differ:
  assumes "jail_instance_dir home c a = Some ja" "jail_instance_dir home c b = Some jb" "is_id_shaped a" "is_id_shaped b" "a \<noteq> b"
  shows "ja \<noteq> jb"
  using jail_dir_components[OF assms(1) id_shaped_plain[OF assms(3)]] jail_dir_components[OF assms(2) id_shaped_plain[OF assms(4)]] assms(5)
  by auto

lemma spared_finish_index: "is_id_shaped room \<Longrightarrow> spares room jail w (snd (finish_index env d w))"
  using state_dirs_not_rooms(1)[of room] state_dirs_not_rooms(2)
  by (auto simp: finish_index_def remove_file_def spares_def split: option.splits sum.splits io_error.splits)

lemma spared_finish_teardown:
  assumes "is_id_shaped room" "is_id_shaped d" "d \<noteq> room" "jail_instance_dir home c room = Some jail"
  shows "spares room jail w (snd (finish_teardown env home c d snap i cn w))"
proof -
  have idx: "spares room jail v (snd (finish_index (re_io env) d v))" for v by (rule spared_finish_index[OF assms(1)])
  show ?thesis
  proof (cases "jail_instance_dir home c d")
    case (Some j)
    then have j: "j \<noteq> jail" using jail_dirs_differ[OF Some assms(4,2,1,3)] by simp
    have tail: "spares room jail v (snd (case hold_lease_for_teardown (re_io env) i snap d v of
              Inl e \<Rightarrow> (Inl (slot_error_text (re_text env) e), v)
            | Inr lease' \<Rightarrow>
                and_then (release_under_lease env d i cn lease' v) (\<lambda>_ w.
                  map_err (re_text env) (finish_index (re_io env) d w))))" for v
      using spared.frame_refl idx
      by (auto intro!: spared.frame_then spared_release_under_lease assms split: sum.splits)
    show ?thesis using Some tail spared.frame_refl unfolding finish_teardown_def
      by (auto intro!: spared.frame_then spared_reap_room_only assms j split: option.splits)
  qed (auto simp: finish_teardown_def spared.frame_refl split: option.splits)
qed

lemma spared_reap_orphan:
  assumes "is_id_shaped room" "is_id_shaped d" "d \<noteq> room" "j \<noteq> jail"
  shows "spares room jail w (snd (reap_orphan env d j j sl c w))"
proof -
  define g where "g = (case sl of None \<Rightarrow> for_orphan d j j c | Some release \<Rightarrow> set_slot release (for_orphan d j j c))"
  have sel: "rg_room_dir g = d" "rg_socket g = j" "rg_jail_instance_dir g = Some j"
    by (simp_all add: g_def for_orphan_def guard_new_def set_slot_def split: option.splits)
  obtain g' w' where g': "guard_cleanup env g w = (g', w')" by fastforce
  have "snd (reap_orphan env d j j sl c w) = w'"
    using g' unfolding g_def by (cases sl) (simp_all add: reap_orphan_def Let_def split: sum.splits)
  then show ?thesis
    using guard_cleanup_frame[OF g'] assms state_dirs_not_rooms(1)[OF assms(1)] state_dirs_not_rooms(1)[OF assms(2)] state_dirs_not_rooms(2,3)
    by (intro spared_step) (auto simp: sel)
qed

lemma spared_reap_room:
  assumes "is_id_shaped room" "is_id_shaped (en_id e)" "en_id e \<noteq> room" "jail_instance_dir (ge_home env) (ge_config env) room = Some jail"
  shows "spares room jail w (snd (reap_room env e w))"
proof -
  have orphan: "spares room jail w (snd (reap_orphan (ge_reap env) (en_id e) j j sl (ge_config env) w))"
    if "reap_paths (ge_home env) (ge_config env) (en_id e) = Inr (rd, j, s)" for rd j s sl
  proof -
    have "jail_instance_dir (ge_home env) (ge_config env) (en_id e) = Some j"
      using that by (auto simp: reap_paths_def split: option.splits sum.splits)
    from jail_dirs_differ[OF this assms(4,2,1,3)] show ?thesis by (intro spared_reap_orphan assms(1-3))
  qed
  show ?thesis unfolding reap_room_def
    by (auto intro!: spared_finish_teardown assms orphan spared.frame_refl split: option.splits sum.splits)
qed

subsection \<open>Garbage collection and a room in use\<close>

text \<open>No snapshot transaction holds this room: its lock is free and no intent names it.\<close>

definition unfenced :: "'n registry_env \<Rightarrow> string \<Rightarrow> 'h world \<Rightarrow> bool" where
  "unfenced env room w \<longleftrightarrow> ix_try_lock (ge_index env) room = Inr True \<and> ge_pending env room w = Inr None"

text \<open>No reap of this room is due: it is not classified as dead, or a snapshot transaction protects it.\<close>

definition protected :: "'n registry_env \<Rightarrow> string \<Rightarrow> 'h world \<Rightarrow> bool" where
  "protected env room w \<longleftrightarrow> en_state (entry_for env room w) \<noteq> RoomOrphanedDead \<or> \<not> unfenced env room w"

text \<open>Every restore recorded for this room has a child that is not known to be dead.\<close>

definition restoring_alive :: "'n registry_env \<Rightarrow> string \<Rightarrow> 'h world \<Rightarrow> bool" where
  "restoring_alive env room w \<longleftrightarrow> (\<forall>n b i. files w (RESTORE_INTENTS_DIR, n) = Some b \<and> ge_from_json env b = Inr i \<and> ri_room_id i = room
     \<longrightarrow> (\<exists>pid. ri_pid i = Some pid \<and> probe (ge_io env) (Some pid) (ri_pid_starttime i) \<noteq> Dead))"

lemma entry_for_id [simp]: "en_id (entry_for env room w) = room"
  by (simp add: entry_for_def Let_def)

lemma entry_for_spared:
  assumes "is_id_shaped room" "spares room jail w v"
  shows "entry_for env room v = entry_for env room w"
proof -
  have "files v (room, n) = files w (room, n)" for n using assms by (simp add: spares_def)
  then have "load_meta_soft env room v = load_meta_soft env room w"
    by (simp add: load_meta_soft_def room_read_def read_to_string_def)
  then show ?thesis by (simp add: entry_for_def)
qed

lemma restoring_alive_spared: "is_id_shaped room \<Longrightarrow> spares room jail w v \<Longrightarrow> restoring_alive env room w \<Longrightarrow> restoring_alive env room v"
  unfolding restoring_alive_def spares_def by (metis option.distinct(1))

lemma list_entries_listed:
  "list_entries env names w = Inr es \<Longrightarrow> e \<in> set es \<Longrightarrow> is_id_shaped (en_id e) \<and> e = entry_for env (en_id e) w"
proof (induction env names w arbitrary: es rule: list_entries.induct)
  case (3 env name rest w)
  then show ?case by (auto simp: map_sum_def valid_room_id split: if_splits sum.splits)
qed auto

lemma list_rooms_listed: "list_rooms env w = Inr es \<Longrightarrow> e \<in> set es \<Longrightarrow> is_id_shaped (en_id e) \<and> e = entry_for env (en_id e) w"
  using list_entries_listed[of env _ w] by (force simp: list_rooms_def map_sum_def split: option.splits sum.splits io_error.splits)

lemma unfenced_spared: "is_id_shaped room \<Longrightarrow> spares room jail w v \<Longrightarrow> unfenced env room v = unfenced env room w"
  using pending_for_base_cong[of v w] by (auto simp: unfenced_def spares_def)

lemma spared_lock: "spares room jail w (snd (ge_lock env d w))"
proof -
  obtain r w' where r: "ge_lock env d w = (r, w')" by fastforce
  show ?thesis using try_acquire_lock_effect(1)[OF r] state_dirs_not_rooms unfolding r spares_def only_locks_def by auto
qed

lemma reap_entry_cases:
  obtains w1 where "only_locks w w1" "snd (reap_entry env e dry w) = w1"
  | w1 where "only_locks w w1" "unfenced env (en_id e) w" "en_state e = RoomOrphanedDead" "\<not> dry"
      "reap_entry env e dry w = and_then (reap_room env e w1) (\<lambda>_ w. (Inr (outcome e True ''reaped''), w))"
proof -
  obtain l w1 where l: "ge_lock env (en_id e) w = (l, w1)" by fastforce
  note ol = try_acquire_lock_effect[OF l]
  have p: "ge_pending env (en_id e) w1 = ge_pending env (en_id e) w"
    using ol(1) by (intro pending_for_base_cong) (simp add: only_locks_def)
  show thesis
  proof (cases "l = Inr (Some ()) \<and> ge_pending env (en_id e) w = Inr None \<and> en_state e = RoomOrphanedDead \<and> \<not> dry
      \<and> (\<exists>x. reap_paths (ge_home env) (ge_config env) (en_id e) = Inr x)")
    case True
    then show thesis using that(2)[OF ol(1)] ol(2) l p
      by (auto simp: unfenced_def reap_entry_def pending_snapshot_for_def is_reapable_def)
  next
    case False
    have "snd (reap_entry env e dry w) = w1"
    proof (cases l)
      case (Inr x)
      then show ?thesis using False l p
        by (cases x; cases "ge_pending env (en_id e) w")
          (auto simp: reap_entry_def pending_snapshot_for_def is_reapable_def split: sum.splits option.splits)
    qed (use l in \<open>simp add: reap_entry_def\<close>)
    then show thesis using that(1)[OF ol(1)] by blast
  qed
qed

lemma only_locks_spares: "only_locks w v \<Longrightarrow> spares room jail w v"
  using state_dirs_not_rooms by (auto simp: only_locks_def spares_def)

lemma spared_reap_entry:
  assumes "is_id_shaped room" "jail_instance_dir (ge_home env) (ge_config env) room = Some jail" "is_id_shaped (en_id e)"
    and "dry \<or> en_id e \<noteq> room \<or> en_state e \<noteq> RoomOrphanedDead \<or> \<not> unfenced env room w"
  shows "spares room jail w (snd (reap_entry env e dry w))"
proof (cases rule: reap_entry_cases[of w env e dry])
  case (1 w1)
  then show ?thesis using only_locks_spares by auto
next
  case (2 w1)
  then have "en_id e \<noteq> room" using assms(4) by auto
  from spared_reap_room[OF assms(1,3) this assms(2)] show ?thesis
    unfolding 2(5) by (auto intro!: spared.frame_trans[OF only_locks_spares[OF 2(1)]] spared.frame_then simp: spared.frame_refl)
qed

lemma spared_reap_all:
  assumes "is_id_shaped room" "jail_instance_dir (ge_home env) (ge_config env) room = Some jail"
    and "\<And>e. e \<in> set es \<Longrightarrow> is_id_shaped (en_id e) \<and>
      (dry \<or> en_id e \<noteq> room \<or> en_state e \<noteq> RoomOrphanedDead \<or> \<not> unfenced env room w)"
  shows "spares room jail w (snd (reap_all env dry es w))"
  using assms(3)
proof (induction es arbitrary: w)
  case (Cons e es)
  obtain r v where e: "reap_entry env e dry w = (r, v)" by fastforce
  have wv: "spares room jail w v" using spared_reap_entry[OF assms(1,2), of e dry w] Cons.prems[of e] e by simp
  moreover have "spares room jail v (snd (reap_all env dry es v))"
    using Cons.prems[OF list.set_intros(2)] unfolding unfenced_spared[OF assms(1) wv, symmetric] by (rule Cons.IH)
  ultimately show ?case using spared.frame_trans e by (auto split: prod.splits)
qed (simp add: spared.frame_refl)

lemma spared_reconcile_intents:
  assumes "is_id_shaped room" "jail_instance_dir home c room = Some jail"
    and "\<And>i. i \<in> set is \<Longrightarrow> is_id_shaped (ri_room_id i) \<and>
      (ri_room_id i = room \<longrightarrow> (\<exists>s. scope = Some s \<and> s \<noteq> room) \<or> (\<exists>pid. ri_pid i = Some pid \<and> probe (re_io env) (Some pid) (ri_pid_starttime i) \<noteq> Dead))"
  shows "spares room jail w (snd (reconcile_intents env home c scope is w))"
  using assms(3)
proof (induction "is" arbitrary: w)
  case (Cons i "is")
  show ?case
  proof (cases "\<exists>s. scope = Some s \<and> s \<noteq> ri_room_id i")
    case True
    then show ?thesis using Cons by auto
  next
    case False
    obtain r v where v: "reconcile_one env home c i w = (r, v)" by fastforce
    have "spares room jail w v"
    proof (cases "ri_room_id i = room")
      case True
      then have "v = w" using Cons.prems[of i] False v by (auto simp: reconcile_one_def Let_def split: liveness.splits)
      then show ?thesis by (simp add: spared.frame_refl)
    next
      case False
      have "spares room jail w (snd (reconcile_one env home c i w))"
        unfolding reconcile_one_def Let_def using spared.frame_refl Cons.prems[of i] assms False
        by (auto intro!: spared.frame_then spared_finish_teardown split: option.splits liveness.splits)
      then show ?thesis using v by simp
    qed
    moreover have "spares room jail v (snd (reconcile_intents env home c scope is v))" using Cons.prems by (intro Cons.IH) simp
    moreover have "\<not> (case scope of None \<Rightarrow> False | Some s \<Rightarrow> s \<noteq> ri_room_id i)" using False by (simp split: option.splits)
    ultimately show ?thesis using spared.frame_trans v by (auto split: sum.splits option.splits prod.splits)
  qed
qed (simp add: spared.frame_refl)

lemma read_intents_listed:
  assumes "read_intents io_text from_json env read_dir w = Inr is" "i \<in> set is"
  shows "is_id_shaped (ri_room_id i) \<and> (\<exists>n b. files w (RESTORE_INTENTS_DIR, n) = Some b \<and> from_json b = Inr i)"
proof -
  have "is_id_shaped (ri_room_id i) \<and> (\<exists>n b. files w (RESTORE_INTENTS_DIR, n) = Some b \<and> from_json b = Inr i)"
    if "read_intent_entries io_text from_json env names w = Inr is'" "i \<in> set is'" for names is'
    using that
  proof (induction names arbitrary: is')
    case (Cons nm names)
    show ?case
    proof (cases nm)
      case (Inr name)
      show ?thesis
      proof (cases "path_extension name = Some ''json''")
        case True
        then obtain b j rest where b: "read_to_string env RESTORE_INTENTS_DIR name w = Inr b" "from_json b = Inr j"
            "validate_restore_intent io_text j = Inr ()" "read_intent_entries io_text from_json env names w = Inr rest" "is' = j # rest"
          using Cons.prems(1) Inr by (auto simp: map_sum_def split: sum.splits)
        have "is_id_shaped (ri_room_id j)" using b(3) by (auto simp: validate_restore_intent_def valid_room_id split: if_splits)
        then show ?thesis using b Cons read_to_string_Inr[OF b(1)] by auto
      qed (use Cons Inr in auto)
    qed (use Cons in auto)
  qed simp
  then show ?thesis using assms
    by (auto simp: read_intents_def map_sum_def split: sum.splits io_error.splits)
qed

lemma spared_restore_outcomes:
  assumes "is_id_shaped room" "jail_instance_dir (ge_home env) (ge_config env) room = Some jail"
    and "go_dry_run opts \<or> \<not> in_scope opts room \<or> restoring_alive env room w"
  shows "spares room jail w (snd (restore_outcomes env opts w))"
proof (cases "go_dry_run opts")
  case True
  then show ?thesis by (simp add: restore_outcomes_def spared.frame_refl split: sum.splits)
next
  case False
  show ?thesis
  proof (cases "restore_intents_now env w")
    case (Inr "is")
    have "is_id_shaped (ri_room_id i) \<and> (ri_room_id i = room \<longrightarrow> (\<exists>s. go_only opts = Some s \<and> s \<noteq> room)
        \<or> (\<exists>pid. ri_pid i = Some pid \<and> probe (ge_io env) (Some pid) (ri_pid_starttime i) \<noteq> Dead))" if "i \<in> set is" for i
      using read_intents_listed[of "ge_text env" "ge_from_json env" "ge_io env" "ge_intents_dir env" w "is" i] Inr that assms(3) False
      by (auto simp: restore_intents_now_def restoring_alive_def in_scope_def split: option.splits)
    then have "spares room jail w (snd (reconcile_intents (ge_reap env) (ge_home env) (ge_config env) (go_only opts) is w))"
      by (rule spared_reconcile_intents[OF assms(1,2)])
    then show ?thesis using False Inr by (auto simp: restore_outcomes_def gc_reconcile_def split: prod.splits)
  qed (use False in \<open>simp add: restore_outcomes_def gc_reconcile_def spared.frame_refl\<close>)
qed

lemma reap_all_dry: "only_locks w (snd (reap_all env True es w))"
proof (induction es arbitrary: w)
  case (Cons e es)
  obtain r v where e: "reap_entry env e True w = (r, v)" by fastforce
  have "only_locks w v" using e by (cases rule: reap_entry_cases[of w env e True]) auto
  then show ?case using Cons[of v] only_locks_trans e by (auto split: prod.splits)
qed simp

lemma gc_dry_run: "go_dry_run opts \<Longrightarrow> only_locks w (snd (gc env opts w))"
  using reap_all_dry[of w env]
  by (auto simp: gc_def Let_def should_reconcile_global_allocators_def restore_outcomes_def and_then_def split: sum.splits prod.splits)
    (metis snd_conv)+

text \<open>C25. Garbage collection and a room in use. A room that is not classified as dead, or that a snapshot transaction protects, or
  that is out of scope, keeps its directory, every file in it and its jail through a whole collection, whatever
  fails and whatever other rooms are reaped, provided each restore recorded for it has a child that is not known to be dead
  and other processes do not touch the room in between. A dry run creates lock files at most.\<close>

theorem gc_spares_rooms_in_use:
  assumes room: "is_id_shaped room" and jail: "jail_instance_dir (ge_home env) (ge_config env) room = Some jail"
    and others: "\<And>w. spares room jail w (ge_interf env w)"
    and prot: "\<not> in_scope opts room \<or> protected env room w \<and> restoring_alive env room w"
  shows "spares room jail w (snd (gc env opts w)) \<and> (go_dry_run opts \<longrightarrow> only_locks w (snd (gc env opts w)))"
proof -
  let ?slots = "\<lambda>pending. if should_reconcile_global_allocators opts \<and> pending = [] then reconcile_leaked_slots env w else w"
  have slots: "spares room jail w (?slots pending)" for pending :: "pending_snapshot list"
    by (simp add: spared.frame_refl spared.frame_leaked_slots[OF others])
  have reaped: "spares room jail v (snd (reap_all env (go_dry_run opts) (filter (\<lambda>e. in_scope opts (en_id e)) es) v))"
    if v: "spares room jail w v" and es: "list_rooms env v = Inr es" for v es
  proof (rule spared_reap_all[OF room jail])
    fix e assume "e \<in> set (filter (\<lambda>e. in_scope opts (en_id e)) es)"
    then have e: "e \<in> set es" "in_scope opts (en_id e)" by auto
    show "is_id_shaped (en_id e) \<and> (go_dry_run opts \<or> en_id e \<noteq> room \<or> en_state e \<noteq> RoomOrphanedDead \<or> \<not> unfenced env room v)"
      using list_rooms_listed[OF es e(1)] entry_for_spared[OF room v] unfenced_spared[OF room v] prot e(2) unfolding protected_def by metis
  qed
  have restored: "spares room jail v (snd (restore_outcomes env opts v))" if "spares room jail w v" for v
    using spared_restore_outcomes[OF room jail] restoring_alive_spared[OF room that] prot by blast
  define after where "after v = (case list_rooms env v of
       Inl e \<Rightarrow> (Inl e, v)
     | Inr rooms \<Rightarrow> (case reap_all env (go_dry_run opts) (filter (\<lambda>e. in_scope opts (en_id e)) rooms) v of
          (reaped, u) \<Rightarrow> and_then (restore_outcomes env opts u) (\<lambda>restored u. (Inr (reaped, rooms, restored),
             if should_reconcile_global_allocators opts then reconcile_leaked_clonenets env u else u))))" for v
  have after: "spares room jail w (snd (after v))" if v: "spares room jail w v" for v
  proof (cases "list_rooms env v")
    case (Inr es)
    obtain rs u where u: "reap_all env (go_dry_run opts) (filter (\<lambda>e. in_scope opts (en_id e)) es) v = (rs, u)" by fastforce
    have wu: "spares room jail w u" using spared.frame_trans[OF v reaped[OF v Inr]] u by simp
    show ?thesis using Inr u by (auto simp: after_def spared.frame_refl spared.frame_leaked_clonenets[OF others]
        intro!: spared.frame_trans[OF wu] spared.frame_then restored wu)
  qed (use v in \<open>simp add: after_def\<close>)
  have snd_gc: "snd (gc env opts w) = w \<or> (\<exists>pending. snd (gc env opts w) = snd (after (?slots pending)))"
    by (auto simp: gc_def after_def Let_def and_then_def split: sum.splits prod.splits)
  then have "spares room jail w (snd (gc env opts w))" using after[OF slots] spared.frame_refl[of room jail w] by metis
  then show ?thesis using gc_dry_run by blast
qed

subsection \<open>Killing a room\<close>

lemma terminate_confirmed:
  assumes "terminate_by_identity env pid starttime grace n = (out, n')" "out \<in> {KillSignaled, KillAlreadyExited}"
  shows "probe_now env pid starttime n' = Dead"
  using assms by (auto simp: terminate_by_identity_def sigkill_and_confirm_def split: liveness.splits prod.splits dest: poll_result)

lemma reap_orphan_gone:
  assumes "reap_orphan env d j s sl c w = (Inr (), w')"
  shows "jails (host w') j = None \<and> \<not> dirs w' d"
  using assms by (auto simp: reap_orphan_def Let_def split: if_splits option.splits sum.splits)

lemma finish_teardown_gone:
  assumes "finish_teardown env home c room snap i cn w = (Inr (), w')" "is_id_shaped room" "jail_instance_dir home c room = Some jail"
  shows "jails (host w') jail = None \<and> \<not> dirs w' room"
proof -
  obtain w1 lease' where w1: "reap_room_only env room jail jail c w = (Inr (), w1)"
      "hold_lease_for_teardown (re_io env) i snap room w1 = Inr lease'"
    using assms(1,3) by (auto simp: finish_teardown_def map_err_def and_then_def split: option.splits prod.splits sum.splits)
  have "spares room jail w1 w'"
  proof -
    obtain u w2 where "release_under_lease env room i cn lease' w1 = (Inr u, w2)" "finish_index (re_io env) room w2 = (Inr (), w')"
      using assms(1,3) w1 by (auto simp: finish_teardown_def map_err_def and_then_def split: option.splits prod.splits sum.splits)
    then show ?thesis
      using spared_release_under_lease[OF assms(2), of jail w1 env room i cn lease'] spared.frame_trans spared_finish_index[OF assms(2), of jail w2 "re_io env" room]
      by (metis snd_conv)
  qed
  then show ?thesis using reap_room_only_result(4)[OF w1(1)] assms(2) by (simp add: spares_def)
qed

lemma reap_room_gone:
  assumes "reap_room env e w = (Inr (), w')" "is_id_shaped (en_id e)" "jail_instance_dir (ge_home env) (ge_config env) (en_id e) = Some jail"
  shows "jails (host w') jail = None \<and> \<not> dirs w' (en_id e)"
proof (cases "en_snapshot_lineage e \<noteq> None \<and> en_slot e \<noteq> None")
  case True
  then obtain s sl where s: "en_snapshot_lineage e = Some s" "en_slot e = Some sl" by blast
  then have ft: "finish_teardown (ge_reap env) (ge_home env) (ge_config env) (en_id e) s (slot_index sl) (en_clone_net_index e) w = (Inr (), w')"
    using assms(1) by (auto simp: reap_room_def map_err_def split: prod.splits sum.splits)
  show ?thesis using finish_teardown_gone[OF ft assms(2,3)] .
next
  case False
  then have "reap_room env e w = (case reap_paths (ge_home env) (ge_config env) (en_id e) of
        Inl e \<Rightarrow> (Inl e, w)
      | Inr (rdir, jdir, socket) \<Rightarrow> (case slot_release_for (ge_home env) (ge_config env) e of
          Inl e \<Rightarrow> (Inl e, w)
        | Inr sl \<Rightarrow> map_err RegFirecracker (reap_orphan (ge_reap env) (en_id e) jdir jdir sl (ge_config env) w)))"
    by (auto simp: reap_room_def split: option.splits)
  then obtain rd j s sl where j: "reap_paths (ge_home env) (ge_config env) (en_id e) = Inr (rd, j, s)"
      "reap_orphan (ge_reap env) (en_id e) j j sl (ge_config env) w = (Inr (), w')"
    using assms(1) by (auto simp: map_err_def split: sum.splits prod.splits)
  have "j = jail" using j(1) assms(3) by (auto simp: reap_paths_def split: option.splits sum.splits)
  then show ?thesis using reap_orphan_gone[OF j(2)] by simp
qed

lemma programs_keep: "on_host (on_programs f) w = (r, w') \<Longrightarrow> dirs w' = dirs w \<and> files w' = files w \<and> jails (host w') = jails (host w)
    \<and> f (net_state (clone_side (host w))) = (r, net_state (clone_side (host w')))"
  by (auto simp: on_host_def on_programs_def split: prod.splits)

text \<open>What a kill may do to this entry: signal the process whose identity is recorded, and reap only after the identity check read it as dead.\<close>

definition kill_authorised :: "'n registry_env \<Rightarrow> room_entry \<Rightarrow> 'n \<Rightarrow> kill_signal_outcome \<Rightarrow> 'n \<Rightarrow> bool" where
  "kill_authorised env e n out n' \<longleftrightarrow> en_state e \<in> {RoomRunning, RoomKept} \<and>
     (\<exists>pid st. en_pid e = Some pid \<and> en_pid_starttime e = Some st
        \<and> terminate_by_identity (ge_reap env) pid (Some st) (cleanup_grace (ge_config env)) n = (out, n')
        \<and> (out \<in> {KillSignaled, KillAlreadyExited} \<longrightarrow> probe_now (ge_reap env) pid (Some st) n' = Dead))"

lemma kill_entry_effect:
  assumes "kill_entry env e w = (r, w')"
  shows "w' = w \<and> (\<forall>k. r = Inr k \<longrightarrow> ko_disposition k \<in> {Refused, AlreadyDead}) \<or>
    (\<exists>out v. kill_authorised env e (net_state (clone_side (host w))) out (net_state (clone_side (host v)))
      \<and> dirs v = dirs w \<and> files v = files w \<and> jails (host v) = jails (host w)
      \<and> (w' = v \<and> (out \<in> {KillSurvived, KillIndeterminate} \<longrightarrow> (\<exists>k. r = Inr k \<and> ko_disposition k \<in> {Refused, KillFailed}))
          \<and> (\<forall>k. r = Inr k \<longrightarrow> ko_disposition k \<noteq> Killed)
         \<or> out \<in> {KillSignaled, KillAlreadyExited} \<and> (\<exists>q. reap_room env e v = (q, w') \<and>
              (\<exists>k. r = Inr k \<and> ko_disposition k = (if q = Inr () then Killed else KillFailed)))))"
proof (cases "en_state e \<in> {RoomRunning, RoomKept} \<and> en_pid e \<noteq> None \<and> en_pid_starttime e \<noteq> None")
  case False
  then show ?thesis using assms
    by (cases "en_state e"; cases "en_pid e"; cases "en_pid_starttime e") (auto simp: kill_entry_def kill_live_def kill_outcome_of_def)
next
  case True
  then obtain pid st where p: "en_pid e = Some pid" "en_pid_starttime e = Some st" and live: "kill_entry env e w = kill_live env e w"
    by (auto simp: kill_entry_def)
  obtain out v where t: "on_host (on_programs (terminate_by_identity (ge_reap env) pid (Some st) (cleanup_grace (ge_config env)))) w = (out, v)"
    by fastforce
  note keep = programs_keep[OF t]
  have auth: "kill_authorised env e (net_state (clone_side (host w))) out (net_state (clone_side (host v)))"
    using True p keep terminate_confirmed[of "ge_reap env" pid "Some st" "cleanup_grace (ge_config env)"] by (auto simp: kill_authorised_def)
  have reap: "reap_after_kill env e m v = (r, w') \<Longrightarrow> (\<exists>q. reap_room env e v = (q, w') \<and>
      (\<exists>k. r = Inr k \<and> ko_disposition k = (if q = Inr () then Killed else KillFailed))) \<or> w' = v \<and> (\<exists>x. r = Inl x)" for m
    by (cases "reap_paths (ge_home env) (ge_config env) (en_id e)"; cases "reap_room env e v")
      (auto simp: reap_after_kill_def kill_outcome_of_def split: sum.splits)
  show ?thesis
  proof (cases "out \<in> {KillSignaled, KillAlreadyExited}")
    case True
    then obtain m where m: "reap_after_kill env e m v = (r, w')"
      using assms live p t by (cases out) (auto simp: kill_live_def)
    from reap[OF this] show ?thesis
    proof
      assume "w' = v \<and> (\<exists>x. r = Inl x)"
      then show ?thesis using auth keep True by (intro disjI2 exI[of _ out] exI[of _ v]) auto
    qed (use auth keep True in \<open>intro disjI2 exI[of _ out] exI[of _ v], simp\<close>)
  next
    case False
    then have "w' = v \<and> (\<exists>k. r = Inr k \<and> ko_disposition k \<in> {Refused, KillFailed})"
      using assms live p t by (cases out) (auto simp: kill_live_def kill_outcome_of_def)
    then show ?thesis using auth keep False by (intro disjI2 exI[of _ out] exI[of _ v]) auto
  qed
qed

lemma room_kill_effect:
  assumes "room_kill env room w = (r, w')"
  shows "only_locks w w' \<and> (\<forall>rep. r = Inr rep \<longrightarrow> (\<forall>k \<in> set (kr_outcomes rep). ko_disposition k \<noteq> Killed)) \<or>
    is_id_shaped room \<and> dirs w room \<and> unfenced env room w \<and>
    (\<exists>q w1. only_locks w w1 \<and> kill_entry env (entry_for env room w) w1 = (q, w')
       \<and> (\<forall>rep. r = Inr rep \<longrightarrow> (\<exists>k. q = Inr k \<and> kr_outcomes rep = [k])))"
proof (cases "is_id_shaped room \<and> resolved_state_base (ge_home env) (ge_config env) \<noteq> None")
  case True
  obtain l w1 where l: "ge_lock env room w = (l, w1)" by fastforce
  note ol = try_acquire_lock_effect[OF l]
  have p: "ge_pending env room w1 = ge_pending env room w" using ol(1) by (intro pending_for_base_cong) (simp add: only_locks_def)
  have d: "dirs w1 room = dirs w room" "entry_for env room w1 = entry_for env room w"
    using ol(1) True state_dirs_not_rooms(1)[of room] entry_for_spared[OF _ only_locks_spares[OF ol(1)]] by (auto simp: only_locks_def)
  show ?thesis
  proof (cases "l = Inr (Some ()) \<and> ge_pending env room w = Inr None \<and> dirs w room")
    case act: True
    obtain q v where q: "kill_entry env (entry_for env room w) w1 = (q, v)" by fastforce
    have "(r, w') = and_then (q, v) (\<lambda>o' w. (Inr (kill_report_of [o']), w))"
      using assms True act l p d q by (auto simp: room_kill_def valid_room_id find_entry_def room_dir_def pending_snapshot_for_def)
    then show ?thesis using True act ol q by (cases q) (auto simp: kill_report_of_def unfenced_def)
  next
    case False
    have "w' = w1 \<and> (\<forall>rep. r = Inr rep \<longrightarrow> (\<forall>k \<in> set (kr_outcomes rep). ko_disposition k \<noteq> Killed))"
      using assms False True l p d
      by (cases l; cases "ge_pending env room w")
        (auto simp: room_kill_def valid_room_id find_entry_def pending_snapshot_for_def kill_report_of_def kill_outcome_of_def and_then_def
          split: option.splits)
    then show ?thesis using ol(1) by blast
  qed
qed (use assms in \<open>auto simp: room_kill_def valid_room_id split: if_splits\<close>)

text \<open>Everything but the programs' own state is as it was, up to lock files.\<close>

definition same_state :: "'n room_host world \<Rightarrow> 'n room_host world \<Rightarrow> bool" where
  "same_state w w' \<longleftrightarrow> only_locks w (w'\<lparr>host := host w\<rparr>) \<and> jails (host w') = jails (host w)"

lemma room_kill_cases:
  assumes kill: "room_kill env room w = (r, w')"
  obtains (refused) "only_locks w w'" "\<forall>rep k. r = Inr rep \<and> k \<in> set (kr_outcomes rep) \<longrightarrow> ko_disposition k \<noteq> Killed"
  | (acted) out v where "is_id_shaped room" "dirs w room" "unfenced env room w"
      "kill_authorised env (entry_for env room w) (net_state (clone_side (host w))) out (net_state (clone_side (host v)))"
      "same_state w v"
      "w' = v \<and> (\<forall>rep k. r = Inr rep \<and> k \<in> set (kr_outcomes rep) \<longrightarrow> ko_disposition k \<noteq> Killed)
       \<or> out \<in> {KillSignaled, KillAlreadyExited} \<and> (\<exists>x. reap_room env (entry_for env room w) v = (x, w')
           \<and> (\<forall>rep k. r = Inr rep \<and> k \<in> set (kr_outcomes rep) \<and> ko_disposition k = Killed \<longrightarrow> x = Inr ()))"
proof (cases "only_locks w w' \<and> (\<forall>rep. r = Inr rep \<longrightarrow> (\<forall>k \<in> set (kr_outcomes rep). ko_disposition k \<noteq> Killed))")
  case False
  from room_kill_effect[OF kill, unfolded disj_imp, THEN mp, OF False] obtain q w1 where g: "is_id_shaped room" "dirs w room" "unfenced env room w"
      and ol: "only_locks w w1"
      and q: "kill_entry env (entry_for env room w) w1 = (q, w')" "\<forall>rep. r = Inr rep \<longrightarrow> (\<exists>k. q = Inr k \<and> kr_outcomes rep = [k])"
    by (elim conjE exE) simp_all
  have one: "\<exists>k'. q = Inr k' \<and> k' = k" if "r = Inr rep" "k \<in> set (kr_outcomes rep)" for rep k using q(2) that by fastforce
  have moved: "\<not> (w' = w1 \<and> (\<forall>k. q = Inr k \<longrightarrow> ko_disposition k \<in> {Refused, AlreadyDead}))" using False one ol by fastforce
  have h: "host w1 = host w" using ol by (simp add: only_locks_def)
  from kill_entry_effect[OF q(1)] moved obtain out v where
      a: "kill_authorised env (entry_for env room w) (net_state (clone_side (host w))) out (net_state (clone_side (host v)))"
      and v: "dirs v = dirs w1" "files v = files w1" "jails (host v) = jails (host w1)"
      and alt: "w' = v \<and> (\<forall>k. q = Inr k \<longrightarrow> ko_disposition k \<noteq> Killed) \<or> out \<in> {KillSignaled, KillAlreadyExited}
         \<and> (\<exists>x k. reap_room env (entry_for env room w) v = (x, w') \<and> q = Inr k \<and> ko_disposition k = (if x = Inr () then Killed else KillFailed))"
    unfolding h by blast
  have same: "same_state w v" using ol v h by (simp add: same_state_def only_locks_def)
  have "w' = v \<and> (\<forall>rep k. r = Inr rep \<and> k \<in> set (kr_outcomes rep) \<longrightarrow> ko_disposition k \<noteq> Killed)
       \<or> out \<in> {KillSignaled, KillAlreadyExited} \<and> (\<exists>x. reap_room env (entry_for env room w) v = (x, w')
           \<and> (\<forall>rep k. r = Inr rep \<and> k \<in> set (kr_outcomes rep) \<and> ko_disposition k = Killed \<longrightarrow> x = Inr ()))"
    using alt one by (fastforce split: if_splits)
  then show thesis using acted[OF g a same] by blast
qed (use refused in blast)

text \<open>C26. \<open>rooms kill\<close> acts only on a verified process. It creates a lock file at most, unless the id is well formed, the room exists, its snapshot lock
  was taken and no snapshot of it is pending, and the room is running or kept with a recorded process identity; then it runs
  \<open>terminate_by_identity\<close> on that identity. Files, directories and jails change only after the identity check read the process
  as dead. A room reported as killed has neither jail nor directory any more, and every other room is as it was.\<close>

theorem kill_acts_on_verified_process:
  assumes kill: "room_kill env room w = (r, w')" and jail: "jail_instance_dir (ge_home env) (ge_config env) room = Some jail"
  shows "(\<not> only_locks w w' \<longrightarrow> is_id_shaped room \<and> dirs w room \<and> unfenced env room w
        \<and> (\<exists>out n'. kill_authorised env (entry_for env room w) (net_state (clone_side (host w))) out n'
            \<and> (\<not> same_state w w' \<longrightarrow> out \<in> {KillSignaled, KillAlreadyExited})))
    \<and> (\<forall>rep k. r = Inr rep \<and> k \<in> set (kr_outcomes rep) \<and> ko_disposition k = Killed \<longrightarrow> jails (host w') jail = None \<and> \<not> dirs w' room)
    \<and> (\<forall>other oj. is_id_shaped other \<and> other \<noteq> room \<and> jail_instance_dir (ge_home env) (ge_config env) other = Some oj \<longrightarrow> spares other oj w w')"
  using kill
proof (cases rule: room_kill_cases)
  case refused
  then show ?thesis using only_locks_spares by blast
next
  case (acted out v)
  have sp: "spares o' oj w v" for o' oj
    using acted(5) only_locks_spares[of w "v\<lparr>host := host w\<rparr>" o' oj] by (simp add: same_state_def spares_def)
  from acted(6) show ?thesis
  proof
    assume "w' = v \<and> (\<forall>rep k. r = Inr rep \<and> k \<in> set (kr_outcomes rep) \<longrightarrow> ko_disposition k \<noteq> Killed)"
    then show ?thesis using acted(1-5) sp by blast
  next
    assume "out \<in> {KillSignaled, KillAlreadyExited} \<and> (\<exists>x. reap_room env (entry_for env room w) v = (x, w')
      \<and> (\<forall>rep k. r = Inr rep \<and> k \<in> set (kr_outcomes rep) \<and> ko_disposition k = Killed \<longrightarrow> x = Inr ()))"
    then obtain x where out: "out \<in> {KillSignaled, KillAlreadyExited}" and x: "reap_room env (entry_for env room w) v = (x, w')"
      and k: "\<forall>rep k. r = Inr rep \<and> k \<in> set (kr_outcomes rep) \<and> ko_disposition k = Killed \<longrightarrow> x = Inr ()" by blast
    have "x = Inr () \<Longrightarrow> jails (host w') jail = None \<and> \<not> dirs w' room"
      using reap_room_gone[of env "entry_for env room w" v w' jail] x acted(1) jail by simp
    moreover have "spares other oj w w'" if "is_id_shaped other" "other \<noteq> room"
        "jail_instance_dir (ge_home env) (ge_config env) other = Some oj" for other oj
      using spared.frame_trans[OF sp spared_reap_room[of other "entry_for env room w" env oj v]] that acted(1) x by simp
    ultimately show ?thesis using acted(1-4) out k by blast
  qed
qed

subsection \<open>A host with a running room\<close>

definition demo_live :: string where "demo_live = ''7 (jailer) S 1 1 1 0 -1 4 0 0 0 0 0 0 0 0 20 0 1 0 99 0''"

definition demo_registry :: "bool registry_env" where
  "demo_registry = \<lparr>ge_reap = demo_reap_env\<lparr>re_io := demo_env\<lparr>proc_stat := (\<lambda>p. if p = 7 then Inr demo_live else Inl NotFound)\<rparr>\<rparr>,
     ge_home = None, ge_config = demo_config, ge_from_slice = (\<lambda>_. Inr (room_meta_new demo_owner None (Some 7) (Some 99) False 0)),
     ge_from_json = (\<lambda>_. Inl []), ge_interf = (\<lambda>w. w), ge_rooms_dir = Inr [Inr demo_owner], ge_slots_dir = Inr [],
     ge_intents_dir = Inl NotFound, ge_clonenets_dir = Inr [], ge_orphaned_taps = [2], 
     ge_index = \<lparr>ix_exists = (\<lambda>_. False), ix_canonicalize = (\<lambda>_. Inl NotFound), ix_cwd = Inl NotFound, ix_entries = Inl NotFound,
       ix_from_json = (\<lambda>_. Inl []), ix_try_lock = (\<lambda>_. Inr True), ix_text = (\<lambda>_. [])\<rparr>\<rparr>"

definition demo_running :: "bool \<Rightarrow> bool room_host world" where
  "demo_running alive = \<lparr>dirs = (\<lambda>d. d = demo_owner \<or> d = SNAPSHOT_INTENTS_DIR),
     files = (\<lambda>p. if p = (demo_owner, ROOM_META_FILE) then Some ''{}''
       else if p = (SNAPSHOT_INTENTS_DIR, demo_owner @ ''.lock'') then Some [] else None),
     host = \<lparr>jails = Map.empty, clone_side = \<lparr>markers = Map.empty, net_state = alive\<rparr>\<rparr>\<rparr>"

lemma demo_jail: "\<exists>j. jail_instance_dir (ge_home demo_registry) (ge_config demo_registry) demo_owner = Some j"
  by (simp add: jail_instance_dir_def chroot_base_def resolved_state_base_def demo_registry_def demo_config_def default_config_def)

lemma demo_entry: "en_state (entry_for demo_registry demo_owner (demo_running b)) = RoomRunning"
  "en_pid (entry_for demo_registry demo_owner (demo_running b)) = Some 7"
  "en_pid_starttime (entry_for demo_registry demo_owner (demo_running b)) = Some 99"
proof -
  have "room_dir (ge_home demo_registry) (ge_config demo_registry) demo_owner \<noteq> None"
    by (simp add: room_dir_def resolved_state_base_def demo_registry_def demo_config_def default_config_def)
  moreover have "load_meta_soft demo_registry demo_owner (demo_running b) = Some (room_meta_new demo_owner None (Some 7) (Some 99) False 0)"
    by (simp add: load_meta_soft_def room_read_def read_to_string_def demo_running_def demo_registry_def check_fault_def demo_env_def)
  moreover have "probe (ge_io demo_registry) (Some 7) (Some 99) = Alive"
    by (simp add: probe_def probe_pid_def demo_registry_def demo_live_def identity_check_of_stat_line_witness)
  ultimately show "en_state (entry_for demo_registry demo_owner (demo_running b)) = RoomRunning"
    "en_pid (entry_for demo_registry demo_owner (demo_running b)) = Some 7"
    "en_pid_starttime (entry_for demo_registry demo_owner (demo_running b)) = Some 99"
    by (auto simp: entry_for_def Let_def room_meta_new_def registry_classify_def)
qed

theorem gc_spares_rooms_in_use_witness:
  "let w' = snd (gc demo_registry \<lparr>go_dry_run = False, go_only = None\<rparr> (demo_running False))
   in dirs w' demo_owner \<and> files w' (demo_owner, ROOM_META_FILE) = Some ''{}''"
proof -
  obtain j where j: "jail_instance_dir (ge_home demo_registry) (ge_config demo_registry) demo_owner = Some j" using demo_jail by blast
  have i: "spares demo_owner j w (ge_interf demo_registry w)" for w by (simp add: demo_registry_def spared.frame_refl)
  have "protected demo_registry demo_owner (demo_running False)" by (simp add: protected_def demo_entry)
  moreover have "restoring_alive demo_registry demo_owner (demo_running False)" by (simp add: restoring_alive_def demo_registry_def)
  ultimately have "spares demo_owner j (demo_running False) (snd (gc demo_registry \<lparr>go_dry_run = False, go_only = None\<rparr> (demo_running False)))"
    using gc_spares_rooms_in_use[OF demo_owner_shaped j i] by blast
  then show ?thesis by (simp add: Let_def spares_def demo_running_def)
qed

lemma demo_lock: "ge_lock demo_registry demo_owner (demo_running b) = (Inr (Some ()), demo_running b)"
proof -
  have "snapshot_intents_dir (ge_home demo_registry) (ge_config demo_registry) \<noteq> None"
    by (simp add: snapshot_intents_dir_def resolved_state_base_def demo_registry_def demo_config_def default_config_def)
  moreover have "(dirs (demo_running b))(SNAPSHOT_INTENTS_DIR := True) = dirs (demo_running b)" by (auto simp: demo_running_def)
  then have "(demo_running b)\<lparr>dirs := (dirs (demo_running b))(SNAPSHOT_INTENTS_DIR := True)\<rparr> = demo_running b" by simp
  moreover have "files (demo_running b) (SNAPSHOT_INTENTS_DIR, demo_owner @ ''.lock'') \<noteq> None" by (simp add: demo_running_def)
  ultimately show ?thesis
    by (auto simp: try_acquire_lock_def try_lock_named_def create_dir_all_def check_fault_def sync_dir_def map_err_def
        demo_registry_def demo_env_def)
qed

lemma demo_unfenced: "ge_pending demo_registry demo_owner (demo_running b) = Inr None"
  by (simp add: pending_for_base_def read_snapshot_intents_def snapshot_intents_dir_def resolved_state_base_def demo_registry_def
      demo_config_def default_config_def)

lemma reap_without_jail:
  assumes "jails (host w) j = None" "dirs w d" "re_room_left env d = None"
  shows "\<not> dirs (snd (reap_orphan env d j j None c w)) d"
proof -
  let ?g = "for_orphan d j j c"
  have sel: "rg_room_dir ?g = d" "rg_socket ?g = j" "rg_jail_instance_dir ?g = Some j" "rg_child_pid ?g = None" "rg_slot_release ?g = None"
    "\<not> rg_suppress_cleanup ?g" "\<not> rg_dismiss ?g" by (simp_all add: for_orphan_def guard_new_def)
  have k: "snd (on_programs (\<lambda>n. ((), kill_child_gracefully env None grace n)) h) = h" for h and grace
    by (simp add: on_programs_def kill_child_gracefully_def)
  have s: "remove_socket env j (host w) = host w" "teardown_jail_sync env j (host w) = (True, host w)"
    using assms(1) by (simp_all add: remove_socket_def teardown_jail_sync_def unmount_present_def)
  obtain v where v: "remove_room_dir env d w = (Inr (), v)" "\<not> dirs v d" using assms(2,3) by (simp add: remove_room_dir_def)
  have "snd (guard_cleanup env ?g w) = v"
    by (simp add: guard_cleanup_def cleanup_sync_def sel Let_def k s on_host_def v release_network_def release_network_with_def plan_release_def)
  then show ?thesis using v(2) by (simp add: reap_orphan_def Let_def)
qed

lemma demo_kill: "\<not> dirs (snd (room_kill demo_registry demo_owner (demo_running True))) demo_owner"
proof -
  let ?e = "entry_for demo_registry demo_owner (demo_running True)"
  have v: "is_valid_room_id demo_owner" by (simp add: valid_room_id)
  have base: "resolved_state_base (ge_home demo_registry) (ge_config demo_registry) = Some ''/s''"
    "chroot_base (ge_home demo_registry) (ge_config demo_registry) = Some (path_join ''/s'' ''jailer'')"
    by (simp_all add: resolved_state_base_def chroot_base_def demo_registry_def demo_config_def default_config_def)
  obtain rd j s where p: "reap_paths (ge_home demo_registry) (ge_config demo_registry) demo_owner = Inr (rd, j, s)"
    using ensure_child_plain[OF id_shaped_plain[OF demo_owner_shaped]] base
    by (auto simp: reap_paths_def room_dir_def jail_instance_dir_def jail_socket_def jail_root_dir_def)
  have e: "en_slot ?e = None"
    by (simp add: entry_for_def Let_def load_meta_soft_def room_read_def read_to_string_def demo_running_def demo_registry_def
        check_fault_def demo_env_def room_meta_new_def room_dir_def resolved_state_base_def demo_config_def default_config_def)
  have probe': "probe_now (ge_reap demo_registry) 7 (Some 99) n = (if n then Alive else Dead)" for n
    using demo_probe_now[of n] by (simp add: probe_now_def demo_registry_def demo_reap_env_def probe_def probe_pid_def)
  have "terminate_by_identity (ge_reap demo_registry) 7 (Some 99) g True = (KillSignaled, False)" for g
    by (simp add: terminate_by_identity_def probe' poll_until_dead.simps Let_def)
      (simp add: send_signal_def demo_registry_def demo_reap_env_def kill_cmd_def)
  then have t: "on_host (on_programs (terminate_by_identity (ge_reap demo_registry) 7 (Some 99) g)) (demo_running True) = (KillSignaled, demo_running False)" for g
    by (simp add: on_host_def on_programs_def demo_running_def)
  have "\<not> dirs (snd (reap_orphan (ge_reap demo_registry) demo_owner j j None (ge_config demo_registry) (demo_running False))) demo_owner"
    by (rule reap_without_jail) (simp_all add: demo_running_def demo_registry_def demo_reap_env_def)
  then have "\<not> dirs (snd (reap_room demo_registry ?e (demo_running False))) demo_owner"
    using p e by (simp add: reap_room_def slot_release_for_def split: option.splits)
  then have "\<not> dirs (snd (reap_after_kill demo_registry ?e ''killed'' (demo_running False))) demo_owner"
    using p by (auto simp: reap_after_kill_def split: prod.splits sum.splits)
  moreover have "kill_entry demo_registry ?e (demo_running True) = reap_after_kill demo_registry ?e ''killed'' (demo_running False)"
    by (simp add: kill_entry_def kill_live_def demo_entry t)
  moreover have "dirs (demo_running True) demo_owner" by (simp add: demo_running_def)
  ultimately show ?thesis using v base
    by (auto simp: demo_lock demo_unfenced room_kill_def find_entry_def room_dir_def pending_snapshot_for_def and_then_def split: prod.splits sum.splits)
qed

theorem kill_acts_on_verified_process_witness:
  "\<exists>r w'. room_kill demo_registry demo_owner (demo_running True) = (r, w') \<and> unfenced demo_registry demo_owner (demo_running True)
     \<and> \<not> dirs w' demo_owner \<and> (\<exists>out n'. kill_authorised demo_registry (entry_for demo_registry demo_owner (demo_running True)) True out n')"
proof -
  obtain j where j: "jail_instance_dir (ge_home demo_registry) (ge_config demo_registry) demo_owner = Some j" using demo_jail by blast
  obtain r w' where k: "room_kill demo_registry demo_owner (demo_running True) = (r, w')" by fastforce
  have "\<not> dirs w' demo_owner" using k demo_kill by simp
  moreover have "SNAPSHOT_INTENTS_DIR \<noteq> demo_owner" using state_dirs_not_rooms(1)[OF demo_owner_shaped] by auto
  ultimately have "\<not> only_locks (demo_running True) w'" by (simp add: only_locks_def demo_running_def) metis
  then show ?thesis using k \<open>\<not> dirs w' demo_owner\<close> kill_acts_on_verified_process[OF k j] by (auto simp: demo_running_def)
qed

end
