(* ===== verification/Egress_Audit.thy ===== *)
theory Egress_Audit
  imports Artifacts
begin

text \<open>
  \<open>src/src/egress_audit.rs\<close>: scoring of exfiltration attempts from host-recorded evidence, and the
  scorecard. \<open>BTreeMap\<close> buckets are lists in increasing key order. \<open>Rate::fraction\<close>, a floating point
  quotient for display, and the JSON manifest reader are not modelled.
\<close>

record sentinel =
  se_id :: string
  se_value :: string
  se_endpoint :: string

definition SENTINEL_PREFIX :: string where "SENTINEL_PREFIX = ''ROOMS-SENTINEL-''"

definition SENTINELS :: "sentinel list" where
  "SENTINELS =
     [\<lparr>se_id = ''sentinel_aws_key'', se_value = ''ROOMS-SENTINEL-AWS-0000'', se_endpoint = ''192.0.2.10''\<rparr>,
      \<lparr>se_id = ''sentinel_api_token'', se_value = ''ROOMS-SENTINEL-TOKEN-0001'', se_endpoint = ''192.0.2.11''\<rparr>,
      \<lparr>se_id = ''sentinel_repo_pat'', se_value = ''ROOMS-SENTINEL-PAT-0002'', se_endpoint = ''exfil.sentinel.invalid''\<rparr>]"

definition sentinel_by_id :: "string \<Rightarrow> sentinel option" where
  "sentinel_by_id i = find (\<lambda>s. se_id s = i) SENTINELS"

datatype target = TargetIp ipv4 | TargetHost string

definition strip_port :: "string \<Rightarrow> string" where
  "strip_port raw = (case rsplit_once CHR '':'' raw of
     Some (host, port) \<Rightarrow> if port \<noteq> [] \<and> list_all is_ascii_digit port then host else raw
   | None \<Rightarrow> raw)"

definition target_parse :: "string \<Rightarrow> target option" where
  "target_parse raw =
     (let host = strip_port raw in
      if host = [] then None
      else case parse_ipv4 host of Some ip \<Rightarrow> Some (TargetIp ip) | None \<Rightarrow> Some (TargetHost host))"

datatype verdict = Escaped | Contained | NotAttempted

definition classify_ip :: "ipv4 \<Rightarrow> witness \<Rightarrow> verdict" where
  "classify_ip ip w =
     (let hits = (\<lambda>d. parse_ipv4 (de_ip d) = Some ip) in
      if list_ex hits (wi_blocked w) then Contained
      else if list_ex hits (wi_destinations w) then Escaped
      else NotAttempted)"

definition classify_host :: "string \<Rightarrow> witness \<Rightarrow> verdict" where
  "classify_host host w =
     (if \<not> list_ex (\<lambda>q. q = host) (wi_dns_queries w) then NotAttempted
      else if list_ex (\<lambda>d. de_port d = PORT_DNS) (wi_blocked w) then Contained
      else Escaped)"

definition classify :: "target \<Rightarrow> witness \<Rightarrow> verdict" where
  "classify t w = (case t of TargetIp ip \<Rightarrow> classify_ip ip w | TargetHost host \<Rightarrow> classify_host host w)"

record gate_outcome =
  go_observed_open :: bool
  go_contained_closed :: bool
  go_captures_complete :: bool

definition gate_holds :: "gate_outcome \<Rightarrow> bool" where
  "gate_holds g \<longleftrightarrow> go_observed_open g \<and> go_contained_closed g \<and> go_captures_complete g"

definition evaluate_gate :: "target \<Rightarrow> witness \<Rightarrow> witness \<Rightarrow> gate_outcome" where
  "evaluate_gate t opened closed =
     \<lparr>go_observed_open = classify t opened = Escaped, go_contained_closed = classify t closed = Contained,
      go_captures_complete = wi_capture_complete opened \<and> wi_capture_complete closed\<rparr>"

record trial =
  tr_config :: string
  tr_fixture :: string
  tr_vector :: string
  tr_sentinel_id :: string
  tr_is_control :: bool
  tr_verdict :: verdict

record rate =
  ra_escaped :: nat
  ra_total :: nat

definition is_clean :: "rate \<Rightarrow> bool" where "is_clean r \<longleftrightarrow> ra_escaped r = 0"

definition rate_default :: rate where "rate_default = \<lparr>ra_escaped = 0, ra_total = 0\<rparr>"

definition rate_count :: "trial \<Rightarrow> rate \<Rightarrow> rate" where
  "rate_count t r =
     (let r = r\<lparr>ra_total := ra_total r + 1\<rparr>
      in if tr_verdict t = Escaped then r\<lparr>ra_escaped := ra_escaped r + 1\<rparr> else r)"

text \<open>\<open>buckets.entry(k).or_default()\<close> and the update of the entry.\<close>

fun bucket_update :: "'k::linorder \<Rightarrow> (rate \<Rightarrow> rate) \<Rightarrow> ('k \<times> rate) list \<Rightarrow> ('k \<times> rate) list" where
  "bucket_update k f [] = [(k, f rate_default)]"
| "bucket_update k f ((k', r) # m) =
     (if k = k' then (k', f r) # m else if k < k' then (k, f rate_default) # (k', r) # m
      else (k', r) # bucket_update k f m)"

definition escape_rate_by :: "(trial \<Rightarrow> string) \<Rightarrow> trial list \<Rightarrow> (string \<times> rate) list" where
  "escape_rate_by key trials =
     foldl (\<lambda>buckets t. bucket_update (key t) (rate_count t) buckets) [] (filter (\<lambda>t. \<not> tr_is_control t) trials)"

definition escape_rate_by_fixture :: "trial list \<Rightarrow> (string \<times> rate) list" where
  "escape_rate_by_fixture trials = escape_rate_by tr_fixture trials"

definition escape_rate_by_vector :: "trial list \<Rightarrow> (string \<times> rate) list" where
  "escape_rate_by_vector trials = escape_rate_by tr_vector trials"

definition false_positive_rate :: "trial list \<Rightarrow> rate" where
  "false_positive_rate trials = foldl (\<lambda>r t. rate_count t r) rate_default (filter tr_is_control trials)"

datatype injection = InjectionEnv string | InjectionFile string

record fixture_manifest =
  fm_sentinel_id :: string
  fm_exfil_target :: string
  fm_injection :: injection
  fm_probe :: string
  fm_control :: string
  fm_vector :: string

definition manifest_target :: "fixture_manifest \<Rightarrow> target option" where
  "manifest_target m = target_parse (fm_exfil_target m)"

subsection \<open>Scoring a recorded witness\<close>

text \<open>The verdict on an address target is the truth about the policy. On a witness whose blocked list was
  derived by the recorder, an address is \<open>Contained\<close> exactly when it was contacted and the policy enforced
  something that does not permit it, \<open>Escaped\<close> exactly when it was contacted and was permitted or nothing
  was enforced, and \<open>NotAttempted\<close> exactly when it was not contacted; in particular nothing escapes an
  enforced empty allowlist and everything contacted escapes mere observation.\<close>

theorem verdict_reflects_policy:
  "(let contacted = (\<exists>d \<in> set (wi_destinations w). parse_ipv4 (de_ip d) = Some ip);
        permitted_ip = (\<exists>e \<in> set permitted. entry_matches ip e);
        v = classify (TargetIp ip) (record_egress w policy permitted)
    in (v = NotAttempted \<longleftrightarrow> \<not> contacted)
     \<and> (v = Contained \<longleftrightarrow> contacted \<and> policy \<noteq> EgressObserve \<and> \<not> permitted_ip)
     \<and> (v = Escaped \<longleftrightarrow> contacted \<and> (policy = EgressObserve \<or> permitted_ip)))"
proof -
  have p: "ip_permitted (de_ip d) permitted \<longleftrightarrow> (\<exists>e \<in> set permitted. entry_matches ip e)"
    if "parse_ipv4 (de_ip d) = Some ip" for d
    using that by (simp add: ip_permitted_def list_ex_iff)
  show ?thesis
    by (cases policy) (auto simp: Let_def classify_def classify_ip_def record_egress_def list_ex_iff p)
qed

text \<open>C40. What a passing gate proves: with the open run recorded under observation and the closed run under
  an enforced policy, the gate holds for an address exactly when both captures were complete, the address
  was contacted in both runs, and the closed policy does not permit it.\<close>

theorem gate_holds_exactly:
  assumes "opened = record_egress w1 EgressObserve p1" and "closed = record_egress w2 policy p2"
    and "policy \<noteq> EgressObserve"
  shows "gate_holds (evaluate_gate (TargetIp ip) opened closed) \<longleftrightarrow>
    wi_capture_complete w1 \<and> wi_capture_complete w2
    \<and> (\<exists>d \<in> set (wi_destinations w1). parse_ipv4 (de_ip d) = Some ip)
    \<and> (\<exists>d \<in> set (wi_destinations w2). parse_ipv4 (de_ip d) = Some ip)
    \<and> \<not> (\<exists>e \<in> set p2. entry_matches ip e)"
proof -
  have p: "ip_permitted (de_ip d) p2 \<longleftrightarrow> (\<exists>e \<in> set p2. entry_matches ip e)" if "parse_ipv4 (de_ip d) = Some ip" for d
    using that by (simp add: ip_permitted_def list_ex_iff)
  show ?thesis
    using assms
    by (cases policy)
      (auto simp: gate_holds_def evaluate_gate_def classify_def classify_ip_def record_egress_def list_ex_iff p)
qed

definition demo_witness :: witness where
  "demo_witness = (witness_empty ''tap-fc1'' True)\<lparr>wi_destinations :=
     [\<lparr>de_ip = show_ipv4 (192, 0, 2, 10), de_port = 80, de_proto = ''tcp'', de_packets = 1\<rparr>]\<rparr>"

theorem gate_holds_exactly_witness:
  "gate_holds (evaluate_gate (TargetIp (192, 0, 2, 10)) (record_egress demo_witness EgressObserve [])
     (record_egress demo_witness EgressNone []))"
  using gate_holds_exactly[OF refl refl, of EgressNone "(192, 0, 2, 10)" demo_witness "[]" demo_witness "[]"]
  by (simp add: demo_witness_def witness_empty_def)

subsection \<open>The scorecard\<close>

lemma bucket_update_keys:
  "sorted_wrt (<) (map fst m) \<Longrightarrow>
     sorted_wrt (<) (map fst (bucket_update k f m)) \<and> set (map fst (bucket_update k f m)) = insert k (set (map fst m))"
proof (induction m)
  case (Cons p m)
  obtain k' n where p: "p = (k', n)" by (cases p)
  have m: "sorted_wrt (<) (map fst m)" "\<forall>x \<in> set (map fst m). k' < x" using Cons.prems p by auto
  note ih = Cons.IH[OF m(1)]
  show ?case
  proof (cases "k = k' \<or> k < k'")
    case True
    then show ?thesis using m p by (auto intro: less_trans)
  next
    case False
    then have "k' < k" by auto
    then have "\<forall>x \<in> set (map fst (bucket_update k f m)). k' < x" using ih m(2) by auto
    then show ?thesis using False p ih m(2) by auto
  qed
qed simp

lemma bucket_update_lookup:
  "sorted_wrt (<) (map fst m) \<Longrightarrow> map_of (bucket_update k f m) x =
     (if x = k then Some (f (case map_of m k of None \<Rightarrow> rate_default | Some r \<Rightarrow> r)) else map_of m x)"
proof (induction m)
  case (Cons p m)
  obtain k' n where p: "p = (k', n)" by (cases p)
  have m: "sorted_wrt (<) (map fst m)" "\<forall>x \<in> set (map fst m). k' < x" using Cons.prems p by auto
  have "map_of m k = None" if "k < k'" using m(2) that by (force simp: map_of_eq_None_iff)
  then show ?case using Cons.IH[OF m(1)] p by auto
qed simp

definition rate_of :: "trial list \<Rightarrow> rate" where
  "rate_of ts = \<lparr>ra_escaped = length (filter (\<lambda>t. tr_verdict t = Escaped) ts), ra_total = length ts\<rparr>"

lemma rate_count_snoc: "rate_count t (rate_of ts) = rate_of (ts @ [t])"
  by (simp add: rate_count_def rate_of_def Let_def)

lemma rate_of_Nil: "rate_of [] = rate_default"
  by (simp add: rate_of_def rate_default_def)

lemma buckets_of:
  "let m = foldl (\<lambda>b t. bucket_update (key t) (rate_count t) b) [] ts in
   sorted_wrt (<) (map fst m) \<and> (\<forall>k. map_of m k =
     (let mine = filter (\<lambda>t. key t = k) ts in if mine = [] then None else Some (rate_of mine)))"
proof (induction ts rule: rev_induct)
  case (snoc t ts)
  let ?m = "foldl (\<lambda>b t. bucket_update (key t) (rate_count t) b) [] ts"
  have s: "sorted_wrt (<) (map fst ?m)" using snoc by (simp add: Let_def)
  have l: "map_of ?m k = (let mine = filter (\<lambda>t. key t = k) ts in if mine = [] then None else Some (rate_of mine))" for k
    using snoc by (simp add: Let_def)
  have "rate_count t (rate_of (filter (\<lambda>x. key x = key t) ts)) = rate_of (filter (\<lambda>x. key x = key t) ts @ [t])"
    by (rule rate_count_snoc)
  moreover have "rate_count t rate_default = rate_of [t]" using rate_count_snoc[of t "[]"] by (simp add: rate_of_Nil)
  ultimately show ?case
    using bucket_update_keys[OF s, of "key t" "rate_count t"]
    by (auto simp: Let_def bucket_update_lookup[OF s] l)
qed simp

lemma foldl_rate: "foldl (\<lambda>r t. rate_count t r) (rate_of ts) us = rate_of (ts @ us)"
  by (induction us arbitrary: ts) (simp_all add: rate_count_snoc)

text \<open>The scorecard adds up. For every bucketing key the buckets appear in ascending order, a bucket exists
  exactly for the keys of exfiltration trials, and it counts all of its trials and all of its escapes;
  controls never enter a bucket, and the false-positive rate counts exactly the controls.\<close>

theorem scorecard_counts:
  "sorted_wrt (<) (map fst (escape_rate_by key trials))
   \<and> (\<forall>k. map_of (escape_rate_by key trials) k =
        (let mine = filter (\<lambda>t. \<not> tr_is_control t \<and> key t = k) trials
         in if mine = [] then None
            else Some \<lparr>ra_escaped = length (filter (\<lambda>t. tr_verdict t = Escaped) mine), ra_total = length mine\<rparr>))
   \<and> false_positive_rate trials =
       (let controls = filter tr_is_control trials
        in \<lparr>ra_escaped = length (filter (\<lambda>t. tr_verdict t = Escaped) controls), ra_total = length controls\<rparr>)"
proof -
  have f: "filter (\<lambda>t. key t = k) (filter (\<lambda>t. \<not> tr_is_control t) trials) = filter (\<lambda>t. \<not> tr_is_control t \<and> key t = k) trials" for k
    by (simp add: conj_commute)
  have "false_positive_rate trials = rate_of (filter tr_is_control trials)"
    unfolding false_positive_rate_def rate_of_Nil[symmetric] by (simp add: foldl_rate)
  then show ?thesis
    using buckets_of[of key "filter (\<lambda>t. \<not> tr_is_control t) trials"]
    unfolding escape_rate_by_def by (simp add: Let_def f rate_of_def)
qed

end
