(* ===== verification/Inode_Seal.thy ===== *)
theory Inode_Seal
  imports Indexed_Claim
begin

text \<open>
  Sealing of inodes against writes (\<open>src/src/inode_seal.rs\<close>, Linux build). The trait \<open>InodeFlagOps\<close> is the record
  \<open>flag_ops\<close>; each operation acts on a state \<open>'f\<close> and may fail. Opening a path and its metadata come from the
  environment. The locale \<open>inode_flags\<close> is what the callers rely on: reading the flags and syncing do not change
  them. Setting flags is trusted with nothing, as the code verifies it by reading back.
\<close>

unbundle bit_operations_syntax

subsection \<open>Flags of an open inode\<close>

record 'f flag_ops =
  fo_immutable :: u32
  fo_get :: "'f \<Rightarrow> (string + u32) \<times> 'f"
  fo_set :: "u32 \<Rightarrow> 'f \<Rightarrow> (string + unit) \<times> 'f"
  fo_sync :: "'f \<Rightarrow> (string + unit) \<times> 'f"

definition hex_digit :: "nat \<Rightarrow> char" where
  "hex_digit d = (if d < 16 then ''0123456789abcdef'' ! d else CHR ''0'')"

fun show_hex :: "nat \<Rightarrow> string" where
  "show_hex n = (if n < 16 then [hex_digit n] else show_hex (n div 16) @ [hex_digit (n mod 16)])"

declare show_hex.simps [simp del]

definition inspect_flags :: "'f flag_ops \<Rightarrow> string \<Rightarrow> string \<Rightarrow> 'f \<Rightarrow> (string + u32) \<times> 'f" where
  "inspect_flags ops path label f =
     map_err (\<lambda>e. ''inspect immutable flag for '' @ label @ '' '' @ path @ '': '' @ e) (fo_get ops f)"

definition require_with_ops :: "'f flag_ops \<Rightarrow> string \<Rightarrow> string \<Rightarrow> 'f \<Rightarrow> (string + unit) \<times> 'f" where
  "require_with_ops ops path label f = and_then (inspect_flags ops path label f) (\<lambda>flags f.
     if flags AND fo_immutable ops = 0
     then (Inl (label @ '' '' @ path @ '' is not kernel-immutable; snapshot inputs must be sealed against writes''), f)
     else (Inr (), f))"

definition seal_with_ops :: "'f flag_ops \<Rightarrow> string \<Rightarrow> string \<Rightarrow> 'f \<Rightarrow> (string + unit) \<times> 'f" where
  "seal_with_ops ops path label f = and_then (inspect_flags ops path label f) (\<lambda>flags f.
     and_then (if flags AND fo_immutable ops = 0
               then map_err (\<lambda>e. ''seal '' @ label @ '' '' @ path @ '' immutable: '' @ e) (fo_set ops (flags OR fo_immutable ops) f)
               else (Inr (), f)) (\<lambda>_ f.
     and_then (map_err (\<lambda>e. ''sync sealed '' @ label @ '' '' @ path @ '': '' @ e) (fo_sync ops f)) (\<lambda>_ f.
       require_with_ops ops path label f)))"

text \<open>Every recovery step runs even if an earlier one fails.\<close>

definition restore_baseline :: "'f flag_ops \<Rightarrow> u32 \<Rightarrow> string \<Rightarrow> 'f \<Rightarrow> (string + unit) \<times> 'f" where
  "restore_baseline ops baseline directory f =
     (let (set_result, f) = fo_set ops baseline f;
          (restored, f) = fo_get ops f;
          (synced, f) = fo_sync ops f;
          failures =
            (case set_result of Inl e \<Rightarrow> [''set baseline flags: '' @ e] | Inr _ \<Rightarrow> [])
            @ (case restored of
                 Inr r \<Rightarrow> if r = baseline then [] else [''inode flags are 0x'' @ show_hex (unat r) @ '', expected baseline 0x'' @ show_hex (unat baseline)]
               | Inl e \<Rightarrow> [''verify baseline flags: '' @ e])
            @ (case synced of Inl e \<Rightarrow> [''sync restored inode: '' @ e] | Inr _ \<Rightarrow> [])
      in if failures = [] then (Inr (), f)
         else (Inl (''restore snapshot output mutability at '' @ directory @ '': ''
                @ concat (map (\<lambda>(i, m). (if i = 0 then [] else ''; '') @ m) (enumerate 0 failures))), f))"

definition with_preflight_cleanup :: "string \<Rightarrow> 'f flag_ops \<Rightarrow> u32 \<Rightarrow> string \<Rightarrow> 'f \<Rightarrow> string \<times> 'f" where
  "with_preflight_cleanup primary ops baseline directory f = (case restore_baseline ops baseline directory f of
     (Inr _, f) \<Rightarrow> (primary, f)
   | (Inl cleanup, f) \<Rightarrow> (primary @ ''; cleanup also failed: '' @ cleanup, f))"

definition preflight_output_with_ops :: "'f flag_ops \<Rightarrow> string \<Rightarrow> 'f \<Rightarrow> (string + unit) \<times> 'f" where
  "preflight_output_with_ops ops directory f =
     and_then (map_err (\<lambda>e. ''snapshot output filesystem cannot report immutable flags for '' @ directory @ '': '' @ e) (fo_get ops f)) (\<lambda>observed f.
     let immutable = fo_immutable ops; baseline = observed AND NOT immutable;
         fail = (\<lambda>primary f. case with_preflight_cleanup primary ops baseline directory f of (e, f) \<Rightarrow> (Inl e, f))
     in and_then (if observed \<noteq> baseline
                  then map_err (\<lambda>e. ''clear interrupted immutable preflight on '' @ directory @ '': '' @ e) (restore_baseline ops baseline directory f)
                  else (Inr (), f)) (\<lambda>_ f.
        case fo_set ops (baseline OR immutable) f of
          (Inl e, f) \<Rightarrow> fail (''snapshot output filesystem cannot seal immutable inodes at '' @ directory @ '': '' @ e) f
        | (Inr _, f) \<Rightarrow> (case fo_get ops f of
            (Inl e, f) \<Rightarrow> fail (''verify immutable preflight on '' @ directory @ '': '' @ e) f
          | (Inr sealed, f) \<Rightarrow>
              if sealed AND immutable = 0 then fail (''snapshot output filesystem ignored immutable sealing at '' @ directory) f
              else restore_baseline ops baseline directory f)))"

subsection \<open>Paths\<close>

datatype file_kind = RegularFile | Directory | OtherKind

record 'f inode_env =
  ie_text :: "io_error \<Rightarrow> string"
  ie_open :: "string \<Rightarrow> 'f \<Rightarrow> io_error + unit"
  ie_metadata :: "string \<Rightarrow> 'f \<Rightarrow> io_error + file_kind \<times> u64"
  ie_ops :: "string \<Rightarrow> 'f flag_ops"

definition open_inode :: "'f inode_env \<Rightarrow> string \<Rightarrow> string \<Rightarrow> 'f \<Rightarrow> string + unit" where
  "open_inode env path label f = (case ie_open env path f of
     Inl e \<Rightarrow> Inl (''open '' @ label @ '' '' @ path @ '': '' @ ie_text env e) | Inr _ \<Rightarrow> Inr ())"

definition inode_metadata :: "'f inode_env \<Rightarrow> string \<Rightarrow> string \<Rightarrow> 'f \<Rightarrow> string + file_kind \<times> u64" where
  "inode_metadata env path label f = (case ie_metadata env path f of
     Inl e \<Rightarrow> Inl (''inspect '' @ label @ '' '' @ path @ '': '' @ ie_text env e) | Inr m \<Rightarrow> Inr m)"

definition inode_require :: "'f inode_env \<Rightarrow> string \<Rightarrow> string \<Rightarrow> 'f \<Rightarrow> (string + unit) \<times> 'f" where
  "inode_require env path label f = (case open_inode env path label f of
     Inl e \<Rightarrow> (Inl e, f)
   | Inr _ \<Rightarrow> (case inode_metadata env path label f of
       Inl e \<Rightarrow> (Inl e, f)
     | Inr (kind, _) \<Rightarrow>
         if kind \<noteq> RegularFile \<and> kind \<noteq> Directory then (Inl (label @ '' '' @ path @ '' is not a regular file or directory''), f)
         else require_with_ops (ie_ops env path) path label f))"

definition require_file :: "'f inode_env \<Rightarrow> string \<Rightarrow> string \<Rightarrow> 'f \<Rightarrow> (string + unit) \<times> 'f" where
  "require_file env path label f = require_with_ops (ie_ops env path) path label f"

definition open_regular :: "'f inode_env \<Rightarrow> string \<Rightarrow> string \<Rightarrow> 'f \<Rightarrow> (string + unit) \<times> 'f" where
  "open_regular env path label f = (case open_inode env path label f of
     Inl e \<Rightarrow> (Inl e, f)
   | Inr _ \<Rightarrow> (case inode_metadata env path label f of
       Inl e \<Rightarrow> (Inl e, f)
     | Inr (kind, len) \<Rightarrow>
         if kind \<noteq> RegularFile \<or> len = 0 then (Inl (label @ '' '' @ path @ '' is empty or not a regular file''), f)
         else require_file env path label f))"

definition inode_seal :: "'f inode_env \<Rightarrow> string \<Rightarrow> string \<Rightarrow> 'f \<Rightarrow> (string + unit) \<times> 'f" where
  "inode_seal env path label f = (case open_inode env path label f of
     Inl e \<Rightarrow> (Inl e, f) | Inr _ \<Rightarrow> seal_with_ops (ie_ops env path) path label f)"

definition preflight_output :: "'f inode_env \<Rightarrow> string \<Rightarrow> 'f \<Rightarrow> (string + unit) \<times> 'f" where
  "preflight_output env directory f = (case ie_open env directory f of
     Inl e \<Rightarrow> (Inl (''open snapshot output '' @ directory @ '' for immutable preflight: '' @ ie_text env e), f)
   | Inr _ \<Rightarrow> preflight_output_with_ops (ie_ops env directory) directory f)"

subsection \<open>What a caller may rely on\<close>

locale inode_flags =
  fixes ops :: "'f flag_ops" and flags_of :: "'f \<Rightarrow> u32"
  assumes get_reads: "fo_get ops f = (r, f') \<Longrightarrow> flags_of f' = flags_of f \<and> (\<forall>x. r = Inr x \<longrightarrow> x = flags_of f)"
    and sync_keeps: "flags_of (snd (fo_sync ops f)) = flags_of f"
begin

lemma inspect_reads: "inspect_flags ops path label f = (r, f') \<Longrightarrow> flags_of f' = flags_of f \<and> (\<forall>x. r = Inr x \<longrightarrow> x = flags_of f)"
  using get_reads[of f] by (auto simp: inspect_flags_def map_err_def split: prod.splits sum.splits)

lemma require_immutable:
  assumes "require_with_ops ops path label f = (r, f')"
  shows "flags_of f' = flags_of f" "r = Inr () \<Longrightarrow> flags_of f AND fo_immutable ops \<noteq> 0"
proof -
  obtain x g where g: "inspect_flags ops path label f = (x, g)" by fastforce
  show "flags_of f' = flags_of f" "r = Inr () \<Longrightarrow> flags_of f AND fo_immutable ops \<noteq> 0"
    using assms inspect_reads[OF g] g by (auto simp: require_with_ops_def and_then_def split: sum.splits if_splits)
qed

lemma seal_immutable:
  assumes "seal_with_ops ops path label f = (Inr (), f')"
  shows "flags_of f' AND fo_immutable ops \<noteq> 0"
proof -
  obtain g where "require_with_ops ops path label g = (Inr (), f')"
    using assms by (auto simp: seal_with_ops_def chain_simps)
  from require_immutable[OF this] show ?thesis by simp
qed

lemma restored_baseline:
  assumes "restore_baseline ops b d f = (Inr (), f')"
  shows "flags_of f' = b"
proof -
  obtain r1 f1 where 1: "fo_set ops b f = (r1, f1)" by fastforce
  obtain r2 f2 where 2: "fo_get ops f1 = (r2, f2)" by fastforce
  obtain r3 f3 where 3: "fo_sync ops f2 = (r3, f3)" by fastforce
  have "r2 = Inr b \<and> f' = f3"
    using assms 1 2 3 by (auto simp: restore_baseline_def split: if_splits sum.splits)
  then show ?thesis using get_reads[OF 2] sync_keeps[of f2] 3 by simp
qed

lemma preflight_restores:
  assumes "preflight_output_with_ops ops d f = (Inr (), f')"
  shows "flags_of f' = flags_of f AND NOT (fo_immutable ops)"
proof -
  obtain g where o: "fo_get ops f = (Inr (flags_of f), g)"
    using assms get_reads[of f] by (cases "fo_get ops f") (auto simp: preflight_output_with_ops_def map_err_def split: sum.splits)
  obtain h where "restore_baseline ops (flags_of f AND NOT (fo_immutable ops)) d h = (Inr (), f')"
    using assms o
    by (auto simp: preflight_output_with_ops_def map_err_def Let_def and_then_def with_preflight_cleanup_def
        split: sum.splits prod.splits if_splits)
  then show ?thesis by (rule restored_baseline)
qed

end

subsection \<open>The preflight leaves no seal behind\<close>

context inode_flags
begin

lemma cleared_baseline:
  assumes "\<And>b g. b AND fo_immutable ops = 0 \<Longrightarrow> flags_of (snd (fo_set ops b g)) = b" and "b AND fo_immutable ops = 0"
  shows "flags_of (snd (restore_baseline ops b d f)) = b"
proof -
  obtain r1 f1 where 1: "fo_set ops b f = (r1, f1)" by fastforce
  obtain r2 f2 where 2: "fo_get ops f1 = (r2, f2)" by fastforce
  obtain r3 f3 where 3: "fo_sync ops f2 = (r3, f3)" by fastforce
  have "snd (restore_baseline ops b d f) = f3" using 1 2 3 by (simp add: restore_baseline_def)
  then show ?thesis using assms(1)[OF assms(2), of f] 1 get_reads[OF 2] sync_keeps[of f2] 3 by simp
qed

lemma preflight_unsealed:
  assumes clear: "\<And>b g. b AND fo_immutable ops = 0 \<Longrightarrow> flags_of (snd (fo_set ops b g)) = b"
  shows "flags_of (snd (preflight_output_with_ops ops d f)) =
    (case fst (fo_get ops f) of Inl _ \<Rightarrow> flags_of f | Inr _ \<Rightarrow> flags_of f AND NOT (fo_immutable ops))"
proof -
  let ?b = "flags_of f AND NOT (fo_immutable ops)"
  obtain x g where g: "fo_get ops f = (x, g)" by fastforce
  note gr = get_reads[OF g]
  have b: "?b AND fo_immutable ops = 0" by (simp add: bit_eq_iff bit_simps)
  note cl = cleared_baseline[OF clear b]
  have wc: "flags_of (snd (with_preflight_cleanup m ops ?b d h)) = ?b" for m h
    using cl[of d h] by (auto simp: with_preflight_cleanup_def split: prod.splits sum.splits)
  define rest where "rest h = (case fo_set ops (?b OR fo_immutable ops) h of
          (Inl e, f) \<Rightarrow> (case with_preflight_cleanup (''snapshot output filesystem cannot seal immutable inodes at '' @ d @ '': '' @ e) ops ?b d f of (e, f) \<Rightarrow> (Inl e, f))
        | (Inr _, f) \<Rightarrow> (case fo_get ops f of
            (Inl e, f) \<Rightarrow> (case with_preflight_cleanup (''verify immutable preflight on '' @ d @ '': '' @ e) ops ?b d f of (e, f) \<Rightarrow> (Inl e, f))
          | (Inr sealed, f) \<Rightarrow>
              if sealed AND fo_immutable ops = 0 then (case with_preflight_cleanup (''snapshot output filesystem ignored immutable sealing at '' @ d) ops ?b d f of (e, f) \<Rightarrow> (Inl e, f))
              else restore_baseline ops ?b d f))" for h
  have rest: "flags_of (snd (rest h)) = ?b" for h
    unfolding rest_def using wc cl by (auto split: prod.splits sum.splits) (metis snd_conv)+
  show ?thesis
  proof (cases x)
    case (Inl e)
    then show ?thesis using g gr by (simp add: preflight_output_with_ops_def map_err_def)
  next
    case (Inr y)
    have pre: "preflight_output_with_ops ops d f = and_then (if flags_of f \<noteq> ?b
        then map_err (\<lambda>e. ''clear interrupted immutable preflight on '' @ d @ '': '' @ e) (restore_baseline ops ?b d g) else (Inr (), g)) (\<lambda>_. rest)"
      using g gr Inr by (simp add: preflight_output_with_ops_def map_err_def Let_def rest_def[abs_def])
    obtain z k where k: "restore_baseline ops ?b d g = (z, k)" by fastforce
    have "flags_of k = ?b" using cl[of d g] k by simp
    then have "flags_of (snd (preflight_output_with_ops ops d f)) = ?b"
      unfolding pre using rest k by (auto simp: map_err_def and_then_def split: sum.splits)
    then show ?thesis using g Inr by simp
  qed
qed

end

text \<open>Sealing is verified, and its preflight leaves no seal behind. A successful seal means the inode reads back as immutable, a successful
  preflight that it reads back without the flag. When clearing the flag works, then whatever else fails in the preflight (setting, reading
  back, syncing, a filesystem that ignores the flag) the output is never left immutable, unless its flags could not even be
  read, in which case they are as before.\<close>

theorem sealing_is_verified:
  assumes "inode_flags ops flags_of"
  shows "(\<forall>path label f f'. seal_with_ops ops path label f = (Inr (), f') \<longrightarrow> flags_of f' AND fo_immutable ops \<noteq> 0)
    \<and> (\<forall>d f f'. preflight_output_with_ops ops d f = (Inr (), f') \<longrightarrow> flags_of f' = flags_of f AND NOT (fo_immutable ops))
    \<and> ((\<forall>b g. b AND fo_immutable ops = 0 \<longrightarrow> flags_of (snd (fo_set ops b g)) = b) \<longrightarrow>
        (\<forall>d f. flags_of (snd (preflight_output_with_ops ops d f)) =
          (case fst (fo_get ops f) of Inl _ \<Rightarrow> flags_of f | Inr _ \<Rightarrow> flags_of f AND NOT (fo_immutable ops))))"
  using inode_flags.seal_immutable[OF assms] inode_flags.preflight_restores[OF assms] inode_flags.preflight_unsealed[OF assms] by blast

text \<open>An inode on a filesystem that ignores the flag.\<close>

definition stubborn_inode :: "u32 flag_ops" where
  "stubborn_inode = \<lparr>fo_immutable = 16, fo_get = (\<lambda>f. (Inr f, f)), fo_set = (\<lambda>x f. (Inr (), x AND NOT 16)), fo_sync = (\<lambda>f. (Inr (), f))\<rparr>"

theorem sealing_is_verified_witness:
  "\<exists>e. preflight_output_with_ops stubborn_inode ''/o'' 32 = (Inl e, 32) \<and> fst (seal_with_ops stubborn_inode ''/o'' ''x'' 32) \<noteq> Inr ()"
proof -
  have i: "inode_flags stubborn_inode (\<lambda>f. f)" by unfold_locales (auto simp: stubborn_inode_def)
  have c: "\<forall>b g. b AND fo_immutable stubborn_inode = 0 \<longrightarrow> snd (fo_set stubborn_inode b g) = b"
    by (auto simp: stubborn_inode_def bit_eq_iff bit_simps)
  have "snd (preflight_output_with_ops stubborn_inode ''/o'' 32) = 32"
  proof -
    have v: "fst (fo_get stubborn_inode 32) = Inr 32" "fo_immutable stubborn_inode = 16" by (simp_all add: stubborn_inode_def)
    have "\<forall>d f. snd (preflight_output_with_ops stubborn_inode d f) =
        (case fst (fo_get stubborn_inode f) of Inl _ \<Rightarrow> f | Inr _ \<Rightarrow> f AND NOT (fo_immutable stubborn_inode))"
      using sealing_is_verified[OF i] c by blast
    from this[rule_format, of "''/o''" 32] show ?thesis unfolding v by simp
  qed
  moreover have "\<exists>e. fst (preflight_output_with_ops stubborn_inode ''/o'' 32) = Inl e"
    by (simp add: preflight_output_with_ops_def stubborn_inode_def map_err_def Let_def split: prod.splits)
  moreover have "fst (seal_with_ops stubborn_inode ''/o'' ''x'' 32) \<noteq> Inr ()"
    by (simp add: seal_with_ops_def require_with_ops_def inspect_flags_def stubborn_inode_def map_err_def)
  ultimately show ?thesis by (metis prod.collapse)
qed

end
