(* ===== verification/Vsock.thy ===== *)
theory Vsock
  imports Step_Frame Artifacts
begin

text \<open>
  The host side of the vsock endpoints of a room (\<open>src/src/vsock.rs\<close>, Unix build): one-shot delivery of secrets, provisioning of a base with
  its terminal beacon, and the hygiene handshake of a restored clone.

  The peer is the untrusted guest: what it sends may depend on everything it was sent before, so accepting, reading and writing are
  functions of an abstract peer state. A read that never returns, or not before the deadline around it, is \<open>NoAnswer\<close>; a protocol that
  waits without a deadline then ends in \<open>Silent\<close>. The link keeps which socket paths are bound and what happened on them, in order.
  Bytes are characters; logging is left out.
\<close>

subsection \<open>Text\<close>

definition byte_of_char :: "char \<Rightarrow> u8" where "byte_of_char c = of_nat (of_char c)"

function utf8_valid :: "bytes \<Rightarrow> bool" where
  "utf8_valid [] = True"
| "utf8_valid (a # rest) = (case utf8_step a rest of (ok, n) \<Rightarrow> ok \<and> utf8_valid (drop (n - 1) rest))"
  by pat_completeness auto
termination by (relation "measure length") auto

text \<open>\<open>{:?}\<close> of a string: exact for ASCII; a well-formed multi-byte character is kept as it is.\<close>

definition escape_digit :: "nat \<Rightarrow> char" where
  "escape_digit n = (if n < 10 then char_of (48 + n) else char_of (87 + n))"

definition debug_char :: "char \<Rightarrow> string" where
  "debug_char c = (let n = (of_char c :: nat) in
     if c = CHR 0x22 \<or> c = CHR 0x5C then [CHR 0x5C, c]
     else if c = newline then [CHR 0x5C, CHR ''n'']
     else if c = carriage_return then [CHR 0x5C, CHR ''r'']
     else if c = tab then [CHR 0x5C, CHR ''t'']
     else if n = 0 then [CHR 0x5C, CHR ''0'']
     else if n < 32 \<or> n = 127 then
       CHR 0x5C # ''u{'' @ (if n < 16 then [escape_digit n] else [escape_digit (n div 16), escape_digit (n mod 16)]) @ ''}''
     else [c])"

definition debug_str :: "string \<Rightarrow> string" where
  "debug_str s = CHR 0x22 # concat (map debug_char s) @ [CHR 0x22]"

definition debug_lossy :: "string \<Rightarrow> string" where
  "debug_lossy s = debug_str (from_utf8_lossy (map byte_of_char s))"

subsection \<open>Endpoints and payloads\<close>

definition SECRETS_PORT :: u32 where "SECRETS_PORT = 5000"
definition PROVISION_PORT :: u32 where "PROVISION_PORT = 5001"
definition QUIESCED_PORT :: u32 where "QUIESCED_PORT = 5002"
definition RESUME_PORT :: u32 where "RESUME_PORT = 5003"
definition RESUME_PREFACE :: string where "RESUME_PREFACE = ''ROOMS-RESUME/2''"
definition RESUME_PREFACE_MAX_CANDIDATES :: nat where "RESUME_PREFACE_MAX_CANDIDATES = 8"
definition RESUME_CLOCK_APPLY_MAX :: nat where "RESUME_CLOCK_APPLY_MAX = 4000"
definition GUEST_CID :: u32 where "GUEST_CID = 3"
definition UDS_NAME :: string where "UDS_NAME = ''v.sock''"

definition listener_path_for :: "string \<Rightarrow> u32 \<Rightarrow> string" where
  "listener_path_for jail_root port = path_join jail_root (UDS_NAME @ ''_'' @ show_u32 port)"

definition listener_path :: "string \<Rightarrow> string" where
  "listener_path jail_root = listener_path_for jail_root SECRETS_PORT"

definition secrets_encode :: "(string \<times> string) list \<Rightarrow> string" where
  "secrets_encode pairs = concat (map (\<lambda>(name, val). name @ CHR ''='' # val @ [newline]) pairs)"

text \<open>Dropping a payload overwrites its bytes.\<close>

definition secrets_drop :: "string \<Rightarrow> string" where
  "secrets_drop payload = replicate (length payload) (CHR 0x00)"

record provisioning_payload =
  pp_bundle :: string
  pp_warm :: string
  pp_base_repo_sha :: "string option"

definition provisioning_new :: "string \<Rightarrow> string option \<Rightarrow> provisioning_payload" where
  "provisioning_new bundle warm =
     \<lparr>pp_bundle = bundle, pp_warm = (case warm of None \<Rightarrow> [] | Some s \<Rightarrow> s), pp_base_repo_sha = None\<rparr>"

definition pinned_to :: "string \<Rightarrow> provisioning_payload \<Rightarrow> provisioning_payload" where
  "pinned_to commit p = p\<lparr>pp_base_repo_sha := Some commit\<rparr>"

record resume_payload =
  rp_room_id :: string
  rp_entropy :: string
  rp_secrets :: string
  rp_clock_challenge :: string
  rp_continue_challenge :: string

text \<open>The two challenges are fresh ULIDs in lower case.\<close>

definition resume_payload_new :: "string \<Rightarrow> string \<Rightarrow> string \<Rightarrow> string \<Rightarrow> string \<Rightarrow> resume_payload" where
  "resume_payload_new ulid1 ulid2 room_id entropy secrets =
     \<lparr>rp_room_id = room_id, rp_entropy = entropy, rp_secrets = secrets, rp_clock_challenge = ulid1, rp_continue_challenge = ulid2\<rparr>"

subsection \<open>The link to the guest\<close>

datatype link_event =
    Accepted string
  | Retired string
  | Wrote string
  | Got char
  | GotEof
  | SampledClock int
  | SampledElapsed nat

datatype accept_answer = Connection | AcceptFailed io_error | NoConnection
datatype read_answer = Answer char | EndOfFile | ReadFailed io_error | NoAnswer

datatype socket_op = BindSocket string | ChownSocket string | UnlinkSocket string

record 's link =
  lk_peer :: 's
  lk_bound :: "string \<Rightarrow> bool"
  lk_log :: "link_event list"
  lk_progress :: "string option"

record 's link_env =
  le_text :: "io_error \<Rightarrow> string"
  le_eof_text :: string
  le_utf8_text :: "string \<Rightarrow> string"
  le_fault :: "socket_op \<Rightarrow> io_error option"
  le_accept :: "string \<Rightarrow> 's \<Rightarrow> accept_answer \<times> 's"
  le_read :: "'s \<Rightarrow> read_answer \<times> 's"
  le_write :: "string \<Rightarrow> 's \<Rightarrow> io_error option \<times> 's"
  le_now :: "'s \<Rightarrow> int"
  le_clock_elapsed :: "'s \<Rightarrow> nat"

datatype stop = Refused string | Silent

definition happened :: "link_event \<Rightarrow> 's link \<Rightarrow> 's link" where
  "happened ev l = l\<lparr>lk_log := lk_log l @ [ev]\<rparr>"

definition accept_on :: "'s link_env \<Rightarrow> string \<Rightarrow> 's link \<Rightarrow> accept_answer \<times> 's link" where
  "accept_on env path l = (case le_accept env path (lk_peer l) of
     (Connection, s) \<Rightarrow> (Connection, happened (Accepted path) (l\<lparr>lk_peer := s\<rparr>))
   | (a, s) \<Rightarrow> (a, l\<lparr>lk_peer := s\<rparr>))"

definition read_u8 :: "'s link_env \<Rightarrow> 's link \<Rightarrow> read_answer \<times> 's link" where
  "read_u8 env l = (case le_read env (lk_peer l) of
     (Answer c, s) \<Rightarrow> (Answer c, happened (Got c) (l\<lparr>lk_peer := s\<rparr>))
   | (EndOfFile, s) \<Rightarrow> (EndOfFile, happened GotEof (l\<lparr>lk_peer := s\<rparr>))
   | (a, s) \<Rightarrow> (a, l\<lparr>lk_peer := s\<rparr>))"

definition write_stream :: "'s link_env \<Rightarrow> string \<Rightarrow> string \<Rightarrow> 's link \<Rightarrow> (stop + unit) \<times> 's link" where
  "write_stream env label msg l = (case le_write env msg (lk_peer l) of
     (e, s) \<Rightarrow> (case e of None \<Rightarrow> Inr () | Some e \<Rightarrow> Inl (Refused (label @ '': '' @ le_text env e)), happened (Wrote msg) (l\<lparr>lk_peer := s\<rparr>)))"

definition unlink_socket :: "'s link_env \<Rightarrow> string \<Rightarrow> 's link \<Rightarrow> (io_error + unit) \<times> 's link" where
  "unlink_socket env path l =
     (if \<not> lk_bound l path then (Inl NotFound, l)
      else case le_fault env (UnlinkSocket path) of
        Some e \<Rightarrow> (Inl e, l)
      | None \<Rightarrow> (Inr (), happened (Retired path) (l\<lparr>lk_bound := (lk_bound l)(path := False)\<rparr>)))"

definition bind_socket :: "'s link_env \<Rightarrow> string \<Rightarrow> 's link \<Rightarrow> (io_error + unit) \<times> 's link" where
  "bind_socket env path l =
     (if lk_bound l path then (Inl (Other ''Address already in use''), l)
      else case le_fault env (BindSocket path) of
        Some e \<Rightarrow> (Inl e, l) | None \<Rightarrow> (Inr (), l\<lparr>lk_bound := (lk_bound l)(path := True)\<rparr>))"

definition chown_socket :: "'s link_env \<Rightarrow> string \<Rightarrow> 's link \<Rightarrow> (io_error + unit) \<times> 's link" where
  "chown_socket env path l = (case le_fault env (ChownSocket path) of Some e \<Rightarrow> (Inl e, l) | None \<Rightarrow> (Inr (), l))"

text \<open>The wall clock in seconds, and the monotonic time in milliseconds since the last sample of it.\<close>

definition sample_clock :: "'s link_env \<Rightarrow> 's link \<Rightarrow> int \<times> 's link" where
  "sample_clock env l = (le_now env (lk_peer l), happened (SampledClock (le_now env (lk_peer l))) l)"

definition sample_elapsed :: "'s link_env \<Rightarrow> 's link \<Rightarrow> nat \<times> 's link" where
  "sample_elapsed env l = (le_clock_elapsed env (lk_peer l), happened (SampledElapsed (le_clock_elapsed env (lk_peer l))) l)"

text \<open>A deadline around a wait.\<close>

definition on_silent :: "string \<Rightarrow> (stop + 'a) \<times> 's link \<Rightarrow> (stop + 'a) \<times> 's link" where
  "on_silent msg r = (case r of (Inl Silent, l) \<Rightarrow> (Inl (Refused msg), l) | _ \<Rightarrow> r)"

fun stop_text :: "(string \<Rightarrow> string) \<Rightarrow> stop \<Rightarrow> stop" where
  "stop_text f (Refused e) = Refused (f e)"
| "stop_text f Silent = Silent"

subsection \<open>Frames and lines\<close>

definition frame_header :: "string \<Rightarrow> string \<Rightarrow> string" where
  "frame_header kind body = kind @ space # show_nat (length body) @ [newline]"

definition write_typed_frame :: "'s link_env \<Rightarrow> string \<Rightarrow> string \<Rightarrow> 's link \<Rightarrow> (stop + unit) \<times> 's link" where
  "write_typed_frame env kind body l =
     and_then (write_stream env (''write '' @ kind @ '' header'') (frame_header kind body) l)
       (\<lambda>_ l. write_stream env (''write '' @ kind @ '' body'') body l)"

function protocol_line :: "'s link_env \<Rightarrow> string \<Rightarrow> 's link \<Rightarrow> (stop + string) \<times> 's link" where
  "protocol_line env acc l = (case read_u8 env l of
     (NoAnswer, l) \<Rightarrow> (Inl Silent, l)
   | (EndOfFile, l) \<Rightarrow> (Inl (Refused (''read protocol line: '' @ le_eof_text env)), l)
   | (ReadFailed e, l) \<Rightarrow> (Inl (Refused (''read protocol line: '' @ le_text env e)), l)
   | (Answer b, l) \<Rightarrow>
       if b = newline then (Inr acc, l)
       else if length acc + 1 > 64 then (Inl (Refused ''protocol line exceeds 64 bytes''), l)
       else protocol_line env (acc @ [b]) l)"
  by pat_completeness auto
termination by (relation "measure (\<lambda>(_, acc, _). 65 - length acc)") auto

definition read_bounded_line :: "'s link_env \<Rightarrow> 's link \<Rightarrow> (stop + string) \<times> 's link" where
  "read_bounded_line env l = and_then (protocol_line env [] l) (\<lambda>bytes l.
     if utf8_valid (map byte_of_char bytes) then (Inr bytes, l)
     else (Inl (Refused (''protocol line is not utf-8: '' @ le_utf8_text env bytes)), l))"

subsection \<open>The resume handshake\<close>

datatype resume_preface = RetiredPrefix nat | PrefaceLine string

function preface_bytes :: "'s link_env \<Rightarrow> string \<Rightarrow> 's link \<Rightarrow> (stop + resume_preface) \<times> 's link" where
  "preface_bytes env acc l = (case read_u8 env l of
     (NoAnswer, l) \<Rightarrow> (Inl Silent, l)
   | (EndOfFile, l) \<Rightarrow>
       if prefix acc RESUME_PREFACE then (Inr (RetiredPrefix (length acc)), l)
       else (Inl (Refused (''resume preface diverged before EOF: '' @ debug_lossy acc)), l)
   | (ReadFailed e, l) \<Rightarrow> (Inl (Refused (''read resume preface: '' @ le_text env e)), l)
   | (Answer b, l) \<Rightarrow>
       if b = newline then
         (if utf8_valid (map byte_of_char acc) then (Inr (PrefaceLine acc), l)
          else (Inl (Refused (''resume preface is not utf-8: '' @ le_utf8_text env acc)), l))
       else if length acc + 1 > 64 then (Inl (Refused ''resume preface exceeds 64 bytes''), l)
       else preface_bytes env (acc @ [b]) l)"
  by pat_completeness auto
termination by (relation "measure (\<lambda>(_, acc, _). 65 - length acc)") auto

definition read_resume_preface :: "'s link_env \<Rightarrow> 's link \<Rightarrow> (stop + resume_preface) \<times> 's link" where
  "read_resume_preface env l = preface_bytes env [] l"

definition resume_label :: "string \<Rightarrow> string" where
  "resume_label room_id = ''resume protocol for room '' @ room_id"

text \<open>The loop over the candidates that remain; \<open>deadline\<close> says whether the retry window has been opened.\<close>

fun resume_candidates :: "'s link_env \<Rightarrow> string \<Rightarrow> string \<Rightarrow> nat list \<Rightarrow> bool \<Rightarrow> 's link \<Rightarrow> (stop + unit) \<times> 's link" where
  "resume_candidates env path room_id [] deadline l =
     (Inl (Refused (resume_label room_id @ '': '' @ show_nat RESUME_PREFACE_MAX_CANDIDATES
        @ '' agent candidates retired before a complete preface'')), l)"
| "resume_candidates env path room_id (candidate # rest) deadline l = (case accept_on env path l of
     (NoConnection, l) \<Rightarrow>
       if deadline then (Inl (Refused (resume_label room_id @ '': preface retry deadline expired after ''
                           @ show_nat (candidate - 1) @ '' candidate(s)'')), l)
       else (Inl Silent, l)
   | (AcceptFailed e, l) \<Rightarrow> (Inl (Refused (resume_label room_id @ '': accept agent: '' @ le_text env e)), l)
   | (Connection, l) \<Rightarrow>
       and_then (on_silent (resume_label room_id @ '': candidate '' @ show_nat candidate
                   @ '' sent no preface before the retry deadline'') (read_resume_preface env l))
         (\<lambda>p l. case p of
            PrefaceLine line \<Rightarrow>
              if line = RESUME_PREFACE then (Inr (), l)
              else (Inl (Refused (resume_label room_id @ '': candidate '' @ show_nat candidate
                      @ '' preface malformed: '' @ debug_str line)), l)
          | RetiredPrefix _ \<Rightarrow> resume_candidates env path room_id rest True l))"

definition accept_resume_agent :: "'s link_env \<Rightarrow> string \<Rightarrow> string \<Rightarrow> 's link \<Rightarrow> (stop + unit) \<times> 's link" where
  "accept_resume_agent env path room_id l =
     resume_candidates env path room_id [1..<RESUME_PREFACE_MAX_CANDIDATES + 1] False l"

definition step_name :: "string option \<Rightarrow> string" where
  "step_name last_step = (case last_step of None \<Rightarrow> ''none'' | Some s \<Rightarrow> s)"

definition read_resume_record :: "'s link_env \<Rightarrow> string \<Rightarrow> string option \<Rightarrow> 's link \<Rightarrow> (stop + string) \<times> 's link" where
  "read_resume_record env room_id last_step l =
     and_then (map_err (stop_text (\<lambda>error. resume_label room_id @ '' ended after last successful STEP ''
                 @ step_name last_step @ '': '' @ error)) (read_bounded_line env l))
       (\<lambda>line l. case strip_prefix ''ERR '' line of
          None \<Rightarrow> (Inr line, l)
        | Some error \<Rightarrow>
            if error = [] then (Inr line, l)
            else (Inl (Refused (''resume guest error for room '' @ room_id @ '' after last successful STEP ''
                    @ step_name last_step @ '': '' @ error)), l))"

definition expect_resume_record :: "'s link_env \<Rightarrow> string \<Rightarrow> string option \<Rightarrow> string \<Rightarrow> 's link \<Rightarrow> (stop + unit) \<times> 's link" where
  "expect_resume_record env room_id last_step expected l =
     and_then (read_resume_record env room_id last_step l) (\<lambda>line l.
       if line \<noteq> expected then
         (Inl (Refused (resume_label room_id @ '': expected '' @ debug_str expected @ '', got '' @ debug_str line
            @ '' after last successful STEP '' @ step_name last_step)), l)
       else (Inr (), l))"

definition record_resume_step :: "string \<Rightarrow> 's link \<Rightarrow> string option \<times> 's link" where
  "record_resume_step step l = (Some step, l\<lparr>lk_progress := Some step\<rparr>)"

definition expect_resume_step ::
  "'s link_env \<Rightarrow> string \<Rightarrow> string option \<Rightarrow> string \<Rightarrow> 's link \<Rightarrow> (stop + string option) \<times> 's link" where
  "expect_resume_step env room_id last_step expected_step l =
     and_then (expect_resume_record env room_id last_step (''STEP '' @ expected_step) l) (\<lambda>_ l.
       case record_resume_step expected_step l of (last_step, l) \<Rightarrow> (Inr last_step, l))"

fun expect_resume_steps ::
  "'s link_env \<Rightarrow> string \<Rightarrow> string option \<Rightarrow> string list \<Rightarrow> 's link \<Rightarrow> (stop + string option) \<times> 's link" where
  "expect_resume_steps env room_id last_step [] l = (Inr last_step, l)"
| "expect_resume_steps env room_id last_step (step # steps) l =
     and_then (expect_resume_step env room_id last_step step l)
       (\<lambda>last_step l. expect_resume_steps env room_id last_step steps l)"

definition validate_clock_application_elapsed :: "string \<Rightarrow> string option \<Rightarrow> nat \<Rightarrow> string + unit" where
  "validate_clock_application_elapsed room_id last_step elapsed =
     (if elapsed < RESUME_CLOCK_APPLY_MAX then Inr ()
      else Inl (resume_label room_id @ '': CLOCK application took '' @ show_nat elapsed
        @ ''ms, exceeding the strict <'' @ show_nat (RESUME_CLOCK_APPLY_MAX div 1000)
        @ ''s freshness budget after last successful STEP '' @ step_name last_step))"

definition send_initial_resume_payload :: "'s link_env \<Rightarrow> string \<Rightarrow> resume_payload \<Rightarrow> 's link \<Rightarrow> (stop + unit) \<times> 's link" where
  "send_initial_resume_payload env room_id p l =
     (let labelled = map_err (stop_text (\<lambda>error. resume_label room_id @ '': '' @ error)) in
      and_then (labelled (write_typed_frame env ''ENTROPY'' (rp_entropy p) l)) (\<lambda>_ l.
      and_then (write_stream env (resume_label room_id @ '': write identity'') (''IDENTITY '' @ rp_room_id p @ [newline]) l) (\<lambda>_ l.
      and_then (labelled (write_typed_frame env ''SECRETS'' (rp_secrets p) l)) (\<lambda>_ l.
        labelled (write_typed_frame env ''END'' [] l)))))"

text \<open>The three parts of the ordered exchange: hygiene, the clock barrier and the release of ingress.\<close>

definition release_ingress :: "'s link_env \<Rightarrow> string \<Rightarrow> string option \<Rightarrow> resume_payload \<Rightarrow> 's link \<Rightarrow> (stop + unit) \<times> 's link" where
  "release_ingress env room_id last_step p l =
     and_then (write_stream env (resume_label room_id @ '': write clock continuation'')
         (''CONTINUE clock '' @ rp_continue_challenge p @ [newline]) l) (\<lambda>_ l.
     and_then (expect_resume_record env room_id last_step (''STEP clock '' @ rp_continue_challenge p) l) (\<lambda>_ l.
     case record_resume_step ''clock'' l of (last_step, l) \<Rightarrow>
     and_then (expect_resume_step env room_id last_step ''sshd'' l) (\<lambda>last_step l.
       expect_resume_record env room_id last_step ''ACK resume'' l)))"

definition clock_barrier :: "'s link_env \<Rightarrow> string \<Rightarrow> string option \<Rightarrow> resume_payload \<Rightarrow> 's link \<Rightarrow> (stop + unit) \<times> 's link" where
  "clock_barrier env room_id last_step p l =
     (case sample_clock env l of (epoch_secs, l) \<Rightarrow>
      and_then (write_stream env (resume_label room_id @ '': write clock'')
          (''CLOCK '' @ show_int epoch_secs @ space # rp_clock_challenge p @ [newline]) l) (\<lambda>_ l.
      and_then (on_silent (resume_label room_id @ '': CLOCK was not applied within the '' @ show_nat (RESUME_CLOCK_APPLY_MAX div 1000)
            @ ''s freshness budget after last successful STEP '' @ step_name last_step)
          (expect_resume_record env room_id last_step (''APPLIED clock '' @ rp_clock_challenge p) l)) (\<lambda>_ l.
      case sample_elapsed env l of (elapsed, l) \<Rightarrow>
      and_then (map_err Refused (validate_clock_application_elapsed room_id last_step elapsed, l)) (\<lambda>_ l.
        release_ingress env room_id last_step p l))))"

definition complete_resume_protocol :: "'s link_env \<Rightarrow> string \<Rightarrow> resume_payload \<Rightarrow> 's link \<Rightarrow> (stop + unit) \<times> 's link" where
  "complete_resume_protocol env room_id p l =
     and_then (expect_resume_steps env room_id None [''reseeded'', ''identity'', ''hostkeys'', ''privilege''] l) (\<lambda>last_step l.
     and_then (expect_resume_record env room_id last_step ''READY clock'' l) (\<lambda>_ l.
       clock_barrier env room_id last_step p l))"

definition serve_resume_inner :: "'s link_env \<Rightarrow> string \<Rightarrow> resume_payload \<Rightarrow> 's link \<Rightarrow> (stop + unit) \<times> 's link" where
  "serve_resume_inner env path p l =
     (let room_id = rp_room_id p in
      and_then (accept_resume_agent env path room_id l) (\<lambda>_ l.
      and_then (map_err (\<lambda>e. Refused (resume_label room_id @ '': retire endpoint: '' @ le_text env e)) (unlink_socket env path l)) (\<lambda>_ l.
      and_then (send_initial_resume_payload env room_id p l) (\<lambda>_ l.
        complete_resume_protocol env room_id p l))))"

subsection \<open>Secrets\<close>

function ack_bytes :: "'s link_env \<Rightarrow> string \<Rightarrow> 's link \<Rightarrow> (stop + string) \<times> 's link" where
  "ack_bytes env ack l = (case read_u8 env l of
     (NoAnswer, l) \<Rightarrow> (Inl Silent, l)
   | (EndOfFile, l) \<Rightarrow> (Inl (Refused (''read ack: '' @ le_eof_text env)), l)
   | (ReadFailed e, l) \<Rightarrow> (Inl (Refused (''read ack: '' @ le_text env e)), l)
   | (Answer b, l) \<Rightarrow>
       if b = newline then (Inr ack, l)
       else if length ack + 1 > 8 then (Inr (ack @ [b]), l)
       else ack_bytes env (ack @ [b]) l)"
  by pat_completeness auto
termination by (relation "measure (\<lambda>(_, ack, _). 9 - length ack)") auto

definition serve_stream :: "'s link_env \<Rightarrow> string \<Rightarrow> 's link \<Rightarrow> (stop + unit) \<times> 's link" where
  "serve_stream env payload l =
     and_then (write_stream env ''write header'' (show_nat (length payload) @ [newline]) l) (\<lambda>_ l.
     and_then (write_stream env ''write blob'' payload l) (\<lambda>_ l.
     and_then (ack_bytes env [] l) (\<lambda>ack l.
       if ack = ''OK'' then (Inr (), l) else (Inl (Refused (''guest ack malformed: '' @ debug_lossy ack)), l))))"

definition serve :: "'s link_env \<Rightarrow> string \<Rightarrow> string \<Rightarrow> 's link \<Rightarrow> (stop + unit) \<times> 's link" where
  "serve env path payload l = (case accept_on env path l of
     (NoConnection, l) \<Rightarrow> (Inl Silent, l)
   | (AcceptFailed e, l) \<Rightarrow> (Inl (Refused (''accept: '' @ le_text env e)), l)
   | (Connection, l) \<Rightarrow> serve_stream env payload (snd (unlink_socket env path l)))"

subsection \<open>Provisioning\<close>

fun provisioning_acks :: "'s link_env \<Rightarrow> string list \<Rightarrow> 's link \<Rightarrow> (stop + unit) \<times> 's link" where
  "provisioning_acks env [] l = (Inr (), l)"
| "provisioning_acks env (phase # phases) l =
     and_then (read_bounded_line env l) (\<lambda>ack l.
       if ack \<noteq> ''ACK '' @ phase
       then (Inl (Refused (''provisioning '' @ phase @ '' ack malformed: '' @ debug_str ack)), l)
       else provisioning_acks env phases l)"

text \<open>\<open>read_to_end\<close> of the beacon: how many bytes the guest sends before it closes is its own choice, so the loop may never
  end; then it has no value.\<close>

partial_function (option) read_to_end :: "'s link_env \<Rightarrow> string \<Rightarrow> 's link \<Rightarrow> ((stop + string) \<times> 's link) option" where
  "read_to_end env acc l = (case read_u8 env l of
     (NoAnswer, l) \<Rightarrow> Some (Inl Silent, l)
   | (EndOfFile, l) \<Rightarrow> Some (Inr acc, l)
   | (ReadFailed e, l) \<Rightarrow> Some (Inl (Refused (''read quiesced beacon: '' @ le_text env e)), l)
   | (Answer b, l) \<Rightarrow> read_to_end env (acc @ [b]) l)"

definition serve_beacon :: "'s link_env \<Rightarrow> string \<Rightarrow> 's link \<Rightarrow> (stop + unit) \<times> 's link" where
  "serve_beacon env quiesced_path l = (case accept_on env quiesced_path l of
     (NoConnection, l) \<Rightarrow> (Inl Silent, l)
   | (AcceptFailed e, l) \<Rightarrow> (Inl (Refused (''accept quiesced beacon: '' @ le_text env e)), l)
   | (Connection, l) \<Rightarrow>
       and_then (map_err (\<lambda>e. Refused (''retire beacon endpoint: '' @ le_text env e)) (unlink_socket env quiesced_path l)) (\<lambda>_ l.
       case read_to_end env [] l of
         None \<Rightarrow> (Inl Silent, l)
       | Some r \<Rightarrow> and_then r (\<lambda>bytes l.
           if bytes \<noteq> ''quiesced'' @ [newline] then (Inl (Refused (''quiesced beacon malformed: '' @ debug_lossy bytes)), l)
           else (Inr (), l))))"

definition serve_provisioning_inner ::
  "'s link_env \<Rightarrow> string \<Rightarrow> string \<Rightarrow> provisioning_payload \<Rightarrow> 's link \<Rightarrow> (stop + unit) \<times> 's link" where
  "serve_provisioning_inner env provision_path quiesced_path p l = (case accept_on env provision_path l of
     (NoConnection, l) \<Rightarrow> (Inl Silent, l)
   | (AcceptFailed e, l) \<Rightarrow> (Inl (Refused (''accept provisioning agent: '' @ le_text env e)), l)
   | (Connection, l) \<Rightarrow>
       and_then (map_err (\<lambda>e. Refused (''retire provisioning endpoint: '' @ le_text env e)) (unlink_socket env provision_path l)) (\<lambda>_ l.
       and_then (write_stream env ''write provisioning preface'' (''ROOMS-PROVISION/1'' @ [newline]) l) (\<lambda>_ l.
       and_then (write_typed_frame env ''BUNDLE'' (pp_bundle p) l) (\<lambda>_ l.
       and_then (write_typed_frame env ''WARM'' (pp_warm p) l) (\<lambda>_ l.
       and_then (write_typed_frame env ''END'' [] l) (\<lambda>_ l.
       and_then (provisioning_acks env [''stage'', ''clone'', ''warm''] l) (\<lambda>_ l.
       case read_u8 env l of
         (NoAnswer, l) \<Rightarrow> (Inl Silent, l)
       | (ReadFailed e, l) \<Rightarrow> (Inl (Refused (''wait for provisioning connection close: '' @ le_text env e)), l)
       | (Answer _, l) \<Rightarrow> (Inl (Refused ''provisioning connection carried trailing bytes''), l)
       | (EndOfFile, l) \<Rightarrow> serve_beacon env quiesced_path l)))))))"

subsection \<open>Binding, waiting and dropping\<close>

definition bind_owned :: "'s link_env \<Rightarrow> bool \<Rightarrow> string \<Rightarrow> 's link \<Rightarrow> (io_error + unit) \<times> 's link" where
  "bind_owned env owned path l =
     and_then (bind_socket env path (snd (unlink_socket env path l)))
       (\<lambda>_ l. if owned then chown_socket env path l else (Inr (), l))"

definition serve_one_shot :: "'s link_env \<Rightarrow> bool \<Rightarrow> string \<Rightarrow> 's link \<Rightarrow> (io_error + unit) \<times> 's link" where
  "serve_one_shot env owned listen l = bind_owned env owned listen l"

definition serve_resume :: "'s link_env \<Rightarrow> bool \<Rightarrow> string \<Rightarrow> 's link \<Rightarrow> (io_error + unit) \<times> 's link" where
  "serve_resume env owned jail_root l = bind_owned env owned (listener_path_for jail_root RESUME_PORT) l"

definition serve_provisioning :: "'s link_env \<Rightarrow> bool \<Rightarrow> string \<Rightarrow> 's link \<Rightarrow> (io_error + unit) \<times> 's link" where
  "serve_provisioning env owned jail_root l =
     (let provision_path = listener_path_for jail_root PROVISION_PORT; quiesced_path = listener_path_for jail_root QUIESCED_PORT;
          l = snd (unlink_socket env provision_path l); l = snd (unlink_socket env quiesced_path l) in
      and_then (bind_socket env provision_path l) (\<lambda>_ l.
      case bind_socket env quiesced_path l of
        (Inl e, l) \<Rightarrow> (Inl e, snd (unlink_socket env provision_path l))
      | (Inr _, l) \<Rightarrow>
          if owned then and_then (chown_socket env provision_path l) (\<lambda>_ l. chown_socket env quiesced_path l)
          else (Inr (), l)))"

text \<open>What the awaiting side sees: the task's result, a task that ended without one, or the deadline.\<close>

datatype task_answer = TaskResult "string + unit" | TaskLost | DeadlinePassed

definition task_outcome :: "stop + unit \<Rightarrow> task_answer" where
  "task_outcome r = (case r of Inr _ \<Rightarrow> TaskResult (Inr ()) | Inl (Refused e) \<Rightarrow> TaskResult (Inl e) | Inl Silent \<Rightarrow> DeadlinePassed)"

definition await_delivered :: "nat \<Rightarrow> task_answer \<Rightarrow> string + unit" where
  "await_delivered secs a = (case a of
     TaskResult r \<Rightarrow> r
   | TaskLost \<Rightarrow> Inl ''delivery task ended without a result''
   | DeadlinePassed \<Rightarrow> Inl (''no guest ack within '' @ show_nat secs
       @ ''s (image predates vsock secrets, or the guest fetch hook failed)''))"

definition await_quiesced :: "nat \<Rightarrow> task_answer \<Rightarrow> string + unit" where
  "await_quiesced secs a = (case a of
     TaskResult r \<Rightarrow> r
   | TaskLost \<Rightarrow> Inl ''provisioning task ended without a result''
   | DeadlinePassed \<Rightarrow> Inl (''no quiesced beacon within '' @ show_nat secs @ ''s''))"

definition await_acked :: "string \<Rightarrow> nat \<Rightarrow> 's link \<Rightarrow> task_answer \<Rightarrow> string + unit" where
  "await_acked room_id secs l a = (case a of
     TaskResult r \<Rightarrow> r
   | TaskLost \<Rightarrow> Inl ''resume nudge task ended without a result''
   | DeadlinePassed \<Rightarrow> Inl (''no resume ack for room '' @ room_id @ '' within '' @ show_nat secs
       @ ''s after last successful STEP '' @ step_name (lk_progress l)
       @ '' (image predates the resume agent, or hygiene failed in-guest)''))"

definition delivery_drop :: "'s link_env \<Rightarrow> string list \<Rightarrow> 's link \<Rightarrow> 's link" where
  "delivery_drop env paths l = fold (\<lambda>p l. snd (unlink_socket env p l)) paths l"

declare protocol_line.simps [simp del] preface_bytes.simps [simp del] ack_bytes.simps [simp del]

subsection \<open>Following a transcript\<close>

text \<open>An event by which the host gives nothing away: what the guest sent, or a look at a clock.\<close>

definition silent_event :: "link_event \<Rightarrow> bool" where
  "silent_event ev = (case ev of Accepted _ \<Rightarrow> False | Retired _ \<Rightarrow> False | Wrote _ \<Rightarrow> False | _ \<Rightarrow> True)"

text \<open>A step follows a segment of the transcript when success logs exactly the segment, and failure a part of it and then only
  silent events.\<close>

definition follows :: "link_event list \<Rightarrow> 's link \<Rightarrow> (stop + 'a) \<times> 's link \<Rightarrow> bool" where
  "follows seg l r = (case r of
     (Inr _, l') \<Rightarrow> lk_log l' = lk_log l @ seg
   | (Inl _, l') \<Rightarrow> (\<exists>k u. lk_log l' = lk_log l @ take k seg @ u \<and> list_all silent_event u))"

lemma follows_ok [simp]: "follows seg l (Inr a, l') \<longleftrightarrow> lk_log l' = lk_log l @ seg"
  by (simp add: follows_def)

lemma follows_stop:
  "follows seg l (Inl e, l') \<longleftrightarrow> (\<exists>k u. lk_log l' = lk_log l @ take k seg @ u \<and> list_all silent_event u)"
  by (simp add: follows_def)

lemma silent_simps [simp]:
  "silent_event (Got c)" "silent_event GotEof" "silent_event (SampledClock i)" "silent_event (SampledElapsed n)"
  "\<not> silent_event (Accepted p)" "\<not> silent_event (Retired p)" "\<not> silent_event (Wrote m)"
  by (simp_all add: silent_event_def)

lemma happened_simps [simp]:
  "lk_log (happened ev l) = lk_log l @ [ev]" "lk_peer (happened ev l) = lk_peer l" "lk_bound (happened ev l) = lk_bound l"
  "lk_progress (happened ev l) = lk_progress l"
  by (simp_all add: happened_def)

lemma follows_fail: "follows A l (Inl e, l') \<Longrightarrow> follows (A @ B) l (Inl e, l')"
proof -
  assume "follows A l (Inl e, l')"
  then obtain k u where ku: "lk_log l' = lk_log l @ take k A @ u" "list_all silent_event u" unfolding follows_stop by blast
  have "take k A = take (min k (length A)) (A @ B)" by (simp add: min_def)
  then have "lk_log l' = lk_log l @ take (min k (length A)) (A @ B) @ u" using ku(1) by simp
  then show ?thesis using ku(2) unfolding follows_stop by blast
qed

lemma follows_more:
  assumes "lk_log l1 = lk_log l @ A" "follows B l1 r"
  shows "follows (A @ B) l r"
proof (cases r)
  case (Pair s l')
  show ?thesis
  proof (cases s)
    case (Inl e)
    then obtain k u where "lk_log l' = lk_log l1 @ take k B @ u" "list_all silent_event u" using assms(2) unfolding Pair Inl follows_stop by blast
    then have "lk_log l' = lk_log l @ take (length A + k) (A @ B) @ u" using assms(1) by simp
    then show ?thesis using \<open>list_all silent_event u\<close> unfolding Pair Inl follows_stop by blast
  qed (use assms Pair in simp)
qed

lemma follows_chain:
  assumes "follows A l r" and "\<And>a l1. r = (Inr a, l1) \<Longrightarrow> follows B l1 (k a l1)"
  shows "follows (A @ B) l (and_then r k)"
proof (cases r)
  case (Pair s l')
  show ?thesis
  proof (cases s)
    case (Inl e)
    then show ?thesis using assms(1) Pair follows_fail[of A l e l' B] by simp
  next
    case (Inr a)
    then show ?thesis using assms Pair follows_more[of l' l A B "k a l'"] by simp
  qed
qed

lemma follows_mapped [simp]: "follows A l (map_err f r) \<longleftrightarrow> follows A l r"
  by (cases r; cases "fst r") (auto simp: map_err_def follows_stop)

lemma follows_on_silent [simp]: "follows A l (on_silent msg r) \<longleftrightarrow> follows A l r"
  by (auto simp: on_silent_def follows_def split: prod.splits sum.splits stop.splits)

lemma follows_write: "follows [Wrote msg] l (write_stream env label msg l)"
  by (auto simp: write_stream_def follows_def split: prod.splits option.splits sum.splits intro!: exI[of _ 1])

lemma follows_unlink: "follows [Retired path] l (map_err f (unlink_socket env path l))"
  by (auto simp: unlink_socket_def map_err_def follows_stop split: prod.splits option.splits intro: exI[of _ 0])

lemma read_u8_log:
  assumes "read_u8 env l = (a, l')"
  shows "lk_log l' = lk_log l @ (case a of Answer c \<Rightarrow> [Got c] | EndOfFile \<Rightarrow> [GotEof] | _ \<Rightarrow> [])" "lk_bound l' = lk_bound l"
  using assms by (auto simp: read_u8_def split: prod.splits read_answer.splits)

lemma protocol_line_log:
  assumes "protocol_line env acc l = (r, l')"
  shows "\<exists>u. lk_log l' = lk_log l @ u \<and> list_all silent_event u
     \<and> (\<forall>line. r = Inr line \<longrightarrow> (\<exists>w. line = acc @ w \<and> u = map Got (w @ [newline])))"
  using assms
proof (induction env acc l arbitrary: r l' rule: protocol_line.induct)
  case (1 env acc l)
  obtain a l1 where a: "read_u8 env l = (a, l1)" by fastforce
  note log = read_u8_log(1)[OF a]
  show ?case
  proof (cases "\<exists>b. a = Answer b \<and> b \<noteq> newline \<and> length acc + 1 \<le> 64")
    case True
    then obtain b where b: "a = Answer b" "b \<noteq> newline" "length acc + 1 \<le> 64" by blast
    have "protocol_line env (acc @ [b]) l1 = (r, l')"
      using "1.prems" b by (subst (asm) protocol_line.simps) (simp add: a)
    from "1.IH"[OF a[symmetric] b(1) b(2) _ this] b(3) obtain u where
      u: "lk_log l' = lk_log l1 @ u" "list_all silent_event u"
        "\<forall>line. r = Inr line \<longrightarrow> (\<exists>w. line = acc @ b # w \<and> u = map Got (w @ [newline]))" by auto
    then show ?thesis using log b(1) by (intro exI[of _ "Got b # u"]) auto
  next
    case False
    then show ?thesis using "1.prems" log
      by (subst (asm) protocol_line.simps) (auto simp: a split: read_answer.splits if_splits)
  qed
qed

lemma read_bounded_line_log:
  assumes "read_bounded_line env l = (r, l')"
  shows "\<exists>u. lk_log l' = lk_log l @ u \<and> list_all silent_event u \<and> (\<forall>line. r = Inr line \<longrightarrow> u = map Got (line @ [newline]))"
proof -
  obtain q l1 where q: "protocol_line env [] l = (q, l1)" by fastforce
  show ?thesis using assms protocol_line_log[OF q] by (cases q) (auto simp: read_bounded_line_def q split: if_splits)
qed

lemma follows_record: "follows (map Got (expected @ [newline])) l (expect_resume_record env room_id last_step expected l)"
proof -
  obtain q l1 where q: "read_bounded_line env l = (q, l1)" by fastforce
  from read_bounded_line_log[OF q] obtain u where u: "lk_log l1 = lk_log l @ u" "list_all silent_event u"
    "\<And>line. q = Inr line \<Longrightarrow> u = map Got (line @ [newline])" by blast
  have fails: "follows seg l (Inl x, l1)" for seg and x :: stop
    using u(1,2) unfolding follows_stop by (intro exI[of _ 0] exI[of _ u]) simp
  show ?thesis
  proof (cases q)
    case (Inl x)
    then show ?thesis using fails by (simp add: expect_resume_record_def read_resume_record_def q map_err_def)
  next
    case (Inr line)
    then show ?thesis using fails u(1) u(3)[OF Inr]
      by (auto simp: expect_resume_record_def read_resume_record_def q map_err_def and_then_def split: option.split)
  qed
qed

lemma follows_step: "follows (map Got (''STEP '' @ step @ [newline])) l (expect_resume_step env room_id last_step step l)"
  using follows_chain[OF follows_record[of "''STEP '' @ step" l env room_id last_step], of "[]"
      "\<lambda>_ l. case record_resume_step step l of (last_step, l) \<Rightarrow> (Inr last_step, l)"]
  by (simp add: expect_resume_step_def record_resume_step_def)

lemma follows_steps:
  "follows (concat (map (\<lambda>step. map Got (''STEP '' @ step @ [newline])) steps)) l (expect_resume_steps env room_id last_step steps l)"
proof (induction steps arbitrary: last_step l)
  case (Cons step steps)
  show ?case using follows_chain[OF follows_step Cons.IH] by simp
qed simp

lemma follows_frame: "follows [Wrote (frame_header kind body), Wrote body] l (write_typed_frame env kind body l)"
  using follows_chain[OF follows_write follows_write] unfolding write_typed_frame_def by fastforce

subsection \<open>The transcript of a resume\<close>

definition guest_line :: "string \<Rightarrow> link_event list" where
  "guest_line s = map Got (s @ [newline])"

definition frame_events :: "string \<Rightarrow> string \<Rightarrow> link_event list" where
  "frame_events kind body = [Wrote (frame_header kind body), Wrote body]"

definition payload_transcript :: "resume_payload \<Rightarrow> link_event list" where
  "payload_transcript p = frame_events ''ENTROPY'' (rp_entropy p) @ [Wrote (''IDENTITY '' @ rp_room_id p @ [newline])]
     @ frame_events ''SECRETS'' (rp_secrets p) @ frame_events ''END'' []"

definition hygiene_transcript :: "link_event list" where
  "hygiene_transcript = concat (map (\<lambda>s. guest_line (''STEP '' @ s)) [''reseeded'', ''identity'', ''hostkeys'', ''privilege''])
     @ guest_line ''READY clock''"

definition ingress_transcript :: "resume_payload \<Rightarrow> link_event list" where
  "ingress_transcript p = Wrote (''CONTINUE clock '' @ rp_continue_challenge p @ [newline])
     # guest_line (''STEP clock '' @ rp_continue_challenge p) @ guest_line ''STEP sshd'' @ guest_line ''ACK resume''"

definition clock_transcript :: "resume_payload \<Rightarrow> int \<Rightarrow> nat \<Rightarrow> link_event list" where
  "clock_transcript p epoch elapsed =
     SampledClock epoch # Wrote (''CLOCK '' @ show_int epoch @ space # rp_clock_challenge p @ [newline])
     # guest_line (''APPLIED clock '' @ rp_clock_challenge p) @ [SampledElapsed elapsed]"

definition resume_transcript :: "string \<Rightarrow> resume_payload \<Rightarrow> int \<Rightarrow> nat \<Rightarrow> link_event list" where
  "resume_transcript path p epoch elapsed = (Accepted path # guest_line RESUME_PREFACE) @ [Retired path] @ payload_transcript p
     @ hygiene_transcript @ clock_transcript p epoch elapsed @ ingress_transcript p"

lemma follows_payload: "follows (payload_transcript p) l (send_initial_resume_payload env room_id p l)"
  unfolding payload_transcript_def send_initial_resume_payload_def Let_def frame_events_def
  by (intro follows_chain) (simp_all add: follows_frame follows_write)

lemma follows_chain_ex:
  assumes "follows A l r" and "P x0" and "\<And>a l1. r = (Inr a, l1) \<Longrightarrow> \<exists>x. P x \<and> follows (B x) l1 (k a l1)"
  shows "\<exists>x. P x \<and> follows (A @ B x) l (and_then r k)"
proof (cases r)
  case (Pair s l')
  show ?thesis
  proof (cases s)
    case (Inl e)
    then show ?thesis using assms(1,2) Pair follows_fail[of A l e l' "B x0"] by auto
  next
    case (Inr a)
    then obtain x where "P x" "follows (B x) l' (k a l')" using assms(3)[of a l'] Pair by auto
    moreover have "follows (A @ B x) l (k a l')" using assms(1) Inr Pair calculation follows_more[of l' l A "B x" "k a l'"] by simp
    ultimately show ?thesis using Inr Pair by auto
  qed
qed

lemma follows_event: "follows B (happened ev l) r \<Longrightarrow> follows (ev # B) l r"
  using follows_more[of "happened ev l" l "[ev]" B r] by simp

lemmas follows_guest_line = follows_record[folded guest_line_def]


lemma follows_progress: "follows B (l\<lparr>lk_progress := x\<rparr>) r \<Longrightarrow> follows B l r"
  using follows_more[of "l\<lparr>lk_progress := x\<rparr>" l "[]" B r] by simp

lemma follows_ingress: "follows (ingress_transcript p) l (release_ingress env room_id last_step p l)"
proof -
  have s: "follows (guest_line ''STEP sshd'') m (expect_resume_step env room_id st ''sshd'' m)" for st and m :: "'a link"
    using follows_step[of "''sshd''"] by (simp add: guest_line_def)
  have "follows (guest_line ''STEP sshd'' @ guest_line ''ACK resume'') (m\<lparr>lk_progress := Some ''clock''\<rparr>)
      (and_then (expect_resume_step env room_id (Some ''clock'') ''sshd'' (m\<lparr>lk_progress := Some ''clock''\<rparr>))
         (\<lambda>last_step l. expect_resume_record env room_id last_step ''ACK resume'' l))" for m :: "'a link"
    by (intro follows_chain s follows_guest_line)
  then have rec: "follows (guest_line ''STEP sshd'' @ guest_line ''ACK resume'') m
      (case record_resume_step ''clock'' m of (last_step, l) \<Rightarrow>
        and_then (expect_resume_step env room_id last_step ''sshd'' l)
          (\<lambda>last_step l. expect_resume_record env room_id last_step ''ACK resume'' l))" for m :: "'a link"
    unfolding record_resume_step_def prod.case by (rule follows_progress)
  have "follows ([Wrote (''CONTINUE clock '' @ rp_continue_challenge p @ [newline])]
     @ guest_line (''STEP clock '' @ rp_continue_challenge p) @ guest_line ''STEP sshd'' @ guest_line ''ACK resume'') l
     (release_ingress env room_id last_step p l)"
    unfolding release_ingress_def by (intro follows_chain follows_write follows_guest_line rec)
  then show ?thesis by (simp add: ingress_transcript_def)
qed

lemma follows_checked:
  "\<exists>ms. ms < RESUME_CLOCK_APPLY_MAX \<and> follows ([SampledElapsed ms] @ ingress_transcript p) l
      (case sample_elapsed env l of (elapsed, l) \<Rightarrow>
        and_then (map_err Refused (validate_clock_application_elapsed room_id last_step elapsed, l)) (\<lambda>_ l.
          release_ingress env room_id last_step p l))"
proof (cases "le_clock_elapsed env (lk_peer l) < RESUME_CLOCK_APPLY_MAX")
  case True
  then show ?thesis
    by (intro exI[of _ "le_clock_elapsed env (lk_peer l)"])
      (simp add: sample_elapsed_def validate_clock_application_elapsed_def map_err_def follows_event follows_ingress)
next
  case False
  then show ?thesis
    by (auto simp: sample_elapsed_def validate_clock_application_elapsed_def map_err_def follows_stop RESUME_CLOCK_APPLY_MAX_def
        intro!: exI[of _ 0])
qed

lemma follows_clock:
  "\<exists>x. snd x < RESUME_CLOCK_APPLY_MAX \<and> follows (clock_transcript p (fst x) (snd x) @ ingress_transcript p) l
     (clock_barrier env room_id last_step p l)"
proof -
  let ?e = "le_now env (lk_peer l)"
  have pos: "0 < RESUME_CLOCK_APPLY_MAX" by (simp add: RESUME_CLOCK_APPLY_MAX_def)
  have "\<exists>ms. ms < RESUME_CLOCK_APPLY_MAX \<and> follows ([Wrote (''CLOCK '' @ show_int ?e @ space # rp_clock_challenge p @ [newline])]
      @ guest_line (''APPLIED clock '' @ rp_clock_challenge p) @ [SampledElapsed ms] @ ingress_transcript p) (happened (SampledClock ?e) l)
     (clock_barrier env room_id last_step p l)"
    unfolding clock_barrier_def sample_clock_def prod.case
    by (intro follows_chain_ex[where P = "\<lambda>ms. ms < RESUME_CLOCK_APPLY_MAX", OF _ pos] follows_write follows_checked)
      (simp add: follows_guest_line)
  then obtain ms where ms: "ms < RESUME_CLOCK_APPLY_MAX" "follows ([Wrote (''CLOCK '' @ show_int ?e @ space # rp_clock_challenge p @ [newline])]
      @ guest_line (''APPLIED clock '' @ rp_clock_challenge p) @ [SampledElapsed ms] @ ingress_transcript p) (happened (SampledClock ?e) l)
     (clock_barrier env room_id last_step p l)" by blast
  show ?thesis using follows_event[OF ms(2)] ms(1) by (intro exI[of _ "(?e, ms)"]) (simp add: clock_transcript_def)
qed

lemma follows_complete:
  "\<exists>x. snd x < RESUME_CLOCK_APPLY_MAX \<and> follows (hygiene_transcript @ clock_transcript p (fst x) (snd x) @ ingress_transcript p) l
     (complete_resume_protocol env room_id p l)"
proof -
  have pos: "snd (0 :: int, 0 :: nat) < RESUME_CLOCK_APPLY_MAX" by (simp add: RESUME_CLOCK_APPLY_MAX_def)
  have hyg: "follows (concat (map (\<lambda>s. guest_line (''STEP '' @ s)) [''reseeded'', ''identity'', ''hostkeys'', ''privilege''])) l
      (expect_resume_steps env room_id None [''reseeded'', ''identity'', ''hostkeys'', ''privilege''] l)"
    using follows_steps[of "[''reseeded'', ''identity'', ''hostkeys'', ''privilege'']" l env room_id None]
    by (simp add: guest_line_def)
  show ?thesis
    unfolding complete_resume_protocol_def hygiene_transcript_def append_assoc
    by (intro follows_chain_ex[where P = "\<lambda>x. snd x < RESUME_CLOCK_APPLY_MAX", OF _ pos] hyg follows_guest_line follows_clock)
qed

lemma preface_bytes_log:
  assumes "preface_bytes env acc l = (r, l')"
  shows "\<exists>w u. lk_log l' = lk_log l @ map Got w @ u \<and> list_all silent_event u
     \<and> (\<forall>line. r = Inr (PrefaceLine line) \<longrightarrow> line = acc @ w \<and> u = [Got newline])
     \<and> (\<forall>n. r = Inr (RetiredPrefix n) \<longrightarrow> prefix (acc @ w) RESUME_PREFACE \<and> u = [GotEof])"
  using assms
proof (induction env acc l arbitrary: r l' rule: preface_bytes.induct)
  case (1 env acc l)
  obtain a l1 where a: "read_u8 env l = (a, l1)" by fastforce
  note log = read_u8_log(1)[OF a]
  show ?case
  proof (cases "\<exists>b. a = Answer b \<and> b \<noteq> newline \<and> length acc + 1 \<le> 64")
    case True
    then obtain b where b: "a = Answer b" "b \<noteq> newline" "length acc + 1 \<le> 64" by blast
    have "preface_bytes env (acc @ [b]) l1 = (r, l')"
      using "1.prems" b by (subst (asm) preface_bytes.simps) (simp add: a)
    from "1.IH"[OF a[symmetric] b(1) b(2) _ this] b(3) obtain w u where
      u: "lk_log l' = lk_log l1 @ map Got w @ u" "list_all silent_event u"
        "\<forall>line. r = Inr (PrefaceLine line) \<longrightarrow> line = acc @ b # w \<and> u = [Got newline]"
        "\<forall>n. r = Inr (RetiredPrefix n) \<longrightarrow> prefix (acc @ b # w) RESUME_PREFACE \<and> u = [GotEof]" by auto
    then show ?thesis using log b(1) by (intro exI[of _ "b # w"] exI[of _ u]) auto
  next
    case False
    then show ?thesis using "1.prems" log
      by (intro exI[of _ "[]"] exI[of _ "case a of Answer c \<Rightarrow> [Got c] | EndOfFile \<Rightarrow> [GotEof] | _ \<Rightarrow> []"])
        (subst (asm) preface_bytes.simps, auto simp: a split: read_answer.splits if_splits)
  qed
qed

definition retired_candidate :: "string \<Rightarrow> nat \<Rightarrow> link_event list" where
  "retired_candidate path n = Accepted path # map Got (take n RESUME_PREFACE) @ [GotEof]"

lemma accept_on_log:
  "accept_on env path l = (a, l') \<Longrightarrow> lk_log l' = lk_log l @ (if a = Connection then [Accepted path] else [])"
  by (auto simp: accept_on_def split: prod.splits accept_answer.splits)

lemma candidates_log:
  assumes "resume_candidates env path room_id cs deadline l = (r, l')"
  shows "\<exists>ns l1. lk_log l1 = lk_log l @ concat (map (retired_candidate path) ns) \<and> length ns \<le> length cs
     \<and> (r = Inr () \<longrightarrow> length ns < length cs) \<and> follows (Accepted path # guest_line RESUME_PREFACE) l1 (r, l')"
  using assms
proof (induction cs arbitrary: deadline l)
  case Nil
  then show ?case by (intro exI[of _ "[]"] exI[of _ l]) (auto simp: follows_stop intro: exI[of _ 0])
next
  case (Cons c cs)
  obtain a l1 where a: "accept_on env path l = (a, l1)" by fastforce
  note log1 = accept_on_log[OF a]
  show ?case
  proof (cases "a = Connection")
    case False
    have "\<exists>e. r = Inl e" "l' = l1" using Cons.prems False
      by (auto simp: a split: accept_answer.splits if_splits)
    then have "follows (Accepted path # guest_line RESUME_PREFACE) l (r, l')"
      using log1 False by (auto simp: follows_stop intro: exI[of _ 0])
    then show ?thesis using \<open>\<exists>e. r = Inl e\<close> by (intro exI[of _ "[]"] exI[of _ l]) auto
  next
    case True
    obtain q l2 where q: "read_resume_preface env l1 = (q, l2)" by fastforce
    obtain w u where w: "lk_log l2 = lk_log l1 @ map Got w @ u" "list_all silent_event u"
      "\<And>line. q = Inr (PrefaceLine line) \<Longrightarrow> line = w \<and> u = [Got newline]"
      "\<And>n. q = Inr (RetiredPrefix n) \<Longrightarrow> prefix w RESUME_PREFACE \<and> u = [GotEof]"
      using preface_bytes_log[of env "[]" l1 q l2] q by (auto simp: read_resume_preface_def)
    have stopped: "follows (Accepted path # guest_line RESUME_PREFACE) l (Inl e, l2)" for e :: stop
      unfolding follows_stop using log1 True w(1,2)
      by (intro exI[of _ 1] exI[of _ "map Got w @ u"]) (auto simp: list_all_iff)
    have last: ?thesis if "follows (Accepted path # guest_line RESUME_PREFACE) l (r, l')"
      using that by (intro exI[of _ "[]"] exI[of _ l]) simp
    show ?thesis
    proof (cases "\<exists>n. q = Inr (RetiredPrefix n)")
      case True
      then obtain n where n: "q = Inr (RetiredPrefix n)" by blast
      have "resume_candidates env path room_id cs True l2 = (r, l')"
        using Cons.prems \<open>a = Connection\<close> by (simp add: a q n on_silent_def)
      from Cons.IH[OF this] obtain ns l3 where
        ih: "lk_log l3 = lk_log l2 @ concat (map (retired_candidate path) ns)" "length ns \<le> length cs"
          "r = Inr () \<longrightarrow> length ns < length cs" "follows (Accepted path # guest_line RESUME_PREFACE) l3 (r, l')" by blast
      have "w = take (length w) RESUME_PREFACE" using w(4)[OF n] by (metis append_eq_conv_conj prefix_def)
      then have "lk_log l2 = lk_log l @ retired_candidate path (length w)"
        using w(1) w(4)[OF n] log1 \<open>a = Connection\<close> by (simp add: retired_candidate_def)
      then show ?thesis using ih by (intro exI[of _ "length w # ns"] exI[of _ l3]) auto
    next
      case False
      show ?thesis
      proof (cases "q = Inr (PrefaceLine RESUME_PREFACE)")
        case True
        then have "r = Inr ()" "l' = l2" using Cons.prems \<open>a = Connection\<close> by (auto simp: a q on_silent_def)
        then show ?thesis using last w(1) w(3)[OF True] log1 \<open>a = Connection\<close> by (auto simp: guest_line_def)
      next
        case bad: False
        then have "l' = l2 \<and> (\<exists>e. r = Inl e)" using Cons.prems False \<open>a = Connection\<close>
          by (auto simp: a q on_silent_def split: sum.splits stop.splits resume_preface.splits if_splits)
        then show ?thesis using last stopped by auto
      qed
    qed
  qed
qed

text \<open>C22. The handshake with a restored clone follows one transcript, whatever the guest sends. Candidates that close before a complete
  preface are dropped (at most eight, each after a proper part of the preface). With the next one the host does exactly what the
  transcript says, in its order, and after the first deviation it writes and accepts nothing more: so the endpoint is retired
  before entropy, identity or secrets leave the host, the clock challenge is disclosed only after the four hygiene steps, and the
  continuation only after the guest has returned that challenge and less than four seconds have passed. Success means that the whole
  transcript was exchanged.\<close>

theorem resume_follows_transcript:
  assumes "serve_resume_inner env path p l = (r, l')"
  shows "\<exists>ns epoch elapsed k u.
      lk_log l' = lk_log l @ concat (map (retired_candidate path) ns) @ take k (resume_transcript path p epoch elapsed) @ u
    \<and> elapsed < RESUME_CLOCK_APPLY_MAX \<and> length ns \<le> RESUME_PREFACE_MAX_CANDIDATES \<and> list_all silent_event u
    \<and> (r = Inr () \<longrightarrow> length ns < RESUME_PREFACE_MAX_CANDIDATES \<and> u = [] \<and> k = length (resume_transcript path p epoch elapsed))"
proof -
  let ?pre = "Accepted path # guest_line RESUME_PREFACE"
  have pos: "snd (0 :: int, 0 :: nat) < RESUME_CLOCK_APPLY_MAX" by (simp add: RESUME_CLOCK_APPLY_MAX_def)
  obtain q l2 where q: "accept_resume_agent env path (rp_room_id p) l = (q, l2)" by fastforce
  obtain ns l1 where ns: "lk_log l1 = lk_log l @ concat (map (retired_candidate path) ns)" "length ns \<le> RESUME_PREFACE_MAX_CANDIDATES"
      "q = Inr () \<longrightarrow> length ns < RESUME_PREFACE_MAX_CANDIDATES" "follows ?pre l1 (q, l2)"
    using candidates_log[OF q[unfolded accept_resume_agent_def]] by (auto simp: RESUME_PREFACE_MAX_CANDIDATES_def)
  have "\<exists>x. snd x < RESUME_CLOCK_APPLY_MAX \<and> follows (?pre @ [Retired path] @ payload_transcript p
      @ hygiene_transcript @ clock_transcript p (fst x) (snd x) @ ingress_transcript p) l1 (r, l')"
    unfolding assms[symmetric] serve_resume_inner_def Let_def q
    by (intro follows_chain_ex[where P = "\<lambda>x. snd x < RESUME_CLOCK_APPLY_MAX", OF _ pos] ns(4) follows_unlink follows_payload follows_complete)
  then obtain e ms where f: "ms < RESUME_CLOCK_APPLY_MAX" "follows (resume_transcript path p e ms) l1 (r, l')"
    by (auto simp: resume_transcript_def)
  have "r = Inr () \<Longrightarrow> q = Inr ()" using assms q by (cases q) (auto simp: serve_resume_inner_def)
  moreover have "\<exists>k u. lk_log l' = lk_log l1 @ take k (resume_transcript path p e ms) @ u \<and> list_all silent_event u
      \<and> (r = Inr () \<longrightarrow> u = [] \<and> k = length (resume_transcript path p e ms))"
    using f(2) by (cases r) (auto simp: follows_stop intro: exI[of _ "length (resume_transcript path p e ms)"])
  ultimately show ?thesis using f(1) ns(1-3) by (metis append_assoc)
qed

subsection \<open>A guest that plays its part\<close>

text \<open>A guest whose bytes are fixed in advance, on a link that does not fail.\<close>

definition scripted :: "string link_env \<Rightarrow> bool" where
  "scripted env \<longleftrightarrow> (\<forall>p s. le_accept env p s = (Connection, s)) \<and> (\<forall>m s. le_write env m s = (None, s))
     \<and> (\<forall>c cs. le_read env (c # cs) = (Answer c, cs)) \<and> (\<forall>op. le_fault env op = None)
     \<and> (\<forall>s. le_clock_elapsed env s < RESUME_CLOCK_APPLY_MAX)"

definition line_text :: "string \<Rightarrow> bool" where
  "line_text s \<longleftrightarrow> length s \<le> 64 \<and> list_all (\<lambda>c. (of_char c :: nat) < 128 \<and> c \<noteq> newline) s"

lemma utf8_valid_ascii: "list_all (\<lambda>c. (of_char c :: nat) < 128) s \<Longrightarrow> utf8_valid (map byte_of_char s)"
proof (induction s)
  case (Cons c s)
  then have "byte_of_char c < 0x80" by (simp add: byte_of_char_def word_less_nat_alt unat_of_nat take_bit_nat_eq_self)
  then show ?case using Cons by (simp add: utf8_step_def utf8_width_def)
qed simp

lemma scripted_read: "scripted env \<Longrightarrow> lk_peer l = c # cs \<Longrightarrow> read_u8 env l = (Answer c, happened (Got c) (l\<lparr>lk_peer := cs\<rparr>))"
  by (simp add: scripted_def read_u8_def)

lemma scripted_write: "scripted env \<Longrightarrow> write_stream env label m l = (Inr (), happened (Wrote m) l)"
  by (simp add: scripted_def write_stream_def)

lemma scripted_line:
  assumes "scripted env" "length acc + length line \<le> 64" "newline \<notin> set line" "lk_peer l = line @ newline # rest"
  shows "\<exists>l'. protocol_line env acc l = (Inr (acc @ line), l') \<and> lk_peer l' = rest \<and> lk_bound l' = lk_bound l"
  using assms(2-4)
proof (induction line arbitrary: acc l)
  case Nil
  then show ?case by (subst protocol_line.simps) (simp add: scripted_read[OF assms(1)])
next
  case (Cons c line)
  let ?l = "happened (Got c) (l\<lparr>lk_peer := line @ newline # rest\<rparr>)"
  obtain l' where "protocol_line env (acc @ [c]) ?l = (Inr ((acc @ [c]) @ line), l') \<and> lk_peer l' = rest \<and> lk_bound l' = lk_bound ?l"
    using Cons.IH[of "acc @ [c]" ?l] Cons.prems by auto
  then show ?case using Cons.prems by (subst protocol_line.simps) (auto simp: scripted_read[OF assms(1)])
qed

lemma scripted_preface:
  assumes "scripted env" "length acc + length line \<le> 64" "newline \<notin> set line" "lk_peer l = line @ newline # rest"
    "list_all (\<lambda>c. (of_char c :: nat) < 128) (acc @ line)"
  shows "\<exists>l'. preface_bytes env acc l = (Inr (PrefaceLine (acc @ line)), l') \<and> lk_peer l' = rest \<and> lk_bound l' = lk_bound l"
  using assms(2-5)
proof (induction line arbitrary: acc l)
  case Nil
  then show ?case by (subst preface_bytes.simps) (simp add: scripted_read[OF assms(1)] utf8_valid_ascii)
next
  case (Cons c line)
  let ?l = "happened (Got c) (l\<lparr>lk_peer := line @ newline # rest\<rparr>)"
  obtain l' where "preface_bytes env (acc @ [c]) ?l = (Inr (PrefaceLine ((acc @ [c]) @ line)), l') \<and> lk_peer l' = rest \<and> lk_bound l' = lk_bound ?l"
    using Cons.IH[of "acc @ [c]" ?l] Cons.prems by auto
  then show ?case using Cons.prems by (subst preface_bytes.simps) (auto simp: scripted_read[OF assms(1)])
qed

lemma scripted_record:
  assumes "scripted env" "line_text e" "\<not> prefix ''ERR '' e" "lk_peer l = e @ newline # rest"
  shows "\<exists>l'. expect_resume_record env room_id st e l = (Inr (), l') \<and> lk_peer l' = rest \<and> lk_bound l' = lk_bound l"
proof -
  have e: "length e \<le> 64" "newline \<notin> set e" "utf8_valid (map byte_of_char e)"
    using assms(2) utf8_valid_ascii[of e] by (auto simp: line_text_def list_all_iff)
  obtain l' where "protocol_line env [] l = (Inr e, l') \<and> lk_peer l' = rest \<and> lk_bound l' = lk_bound l"
    using scripted_line[OF assms(1), of "[]" e l rest] e assms(4) by auto
  then show ?thesis using assms(3) e(3)
    by (simp add: expect_resume_record_def read_resume_record_def read_bounded_line_def map_err_def strip_prefix_def)
qed

lemma scripted_steps:
  assumes "scripted env" "list_all (\<lambda>s. line_text (''STEP '' @ s)) steps"
    "lk_peer l = concat (map (\<lambda>s. ''STEP '' @ s @ [newline]) steps) @ rest"
  shows "\<exists>st' l'. expect_resume_steps env room_id st steps l = (Inr st', l') \<and> lk_peer l' = rest \<and> lk_bound l' = lk_bound l"
  using assms(2,3)
proof (induction steps arbitrary: st l)
  case (Cons s steps)
  let ?rest = "concat (map (\<lambda>s. ''STEP '' @ s @ [newline]) steps) @ rest"
  have p: "lk_peer l = (''STEP '' @ s) @ newline # ?rest" using Cons.prems(2) by simp
  obtain l1 where l1: "expect_resume_record env room_id st (''STEP '' @ s) l = (Inr (), l1)" "lk_peer l1 = ?rest" "lk_bound l1 = lk_bound l"
    using scripted_record[OF assms(1) _ _ p, of room_id st] Cons.prems(1) by auto
  obtain st' l' where "expect_resume_steps env room_id (Some s) steps (l1\<lparr>lk_progress := Some s\<rparr>) = (Inr st', l') \<and> lk_peer l' = rest \<and> lk_bound l' = lk_bound l1"
    using Cons.IH[of "l1\<lparr>lk_progress := Some s\<rparr>" "Some s"] Cons.prems(1) l1(2) by auto
  then show ?case using l1 by (simp add: expect_resume_step_def record_resume_step_def)
qed simp

definition resume_answers :: "resume_payload \<Rightarrow> string" where
  "resume_answers p = RESUME_PREFACE @ newline # concat (map (\<lambda>s. ''STEP '' @ s @ [newline]) [''reseeded'', ''identity'', ''hostkeys'', ''privilege''])
     @ ''READY clock'' @ newline # (''APPLIED clock '' @ rp_clock_challenge p) @ newline # (''STEP clock '' @ rp_continue_challenge p)
     @ newline # ''STEP sshd'' @ newline # ''ACK resume'' @ [newline]"

lemma obedient_guest_resumes:
  assumes "scripted env" "lk_bound l path" "lk_peer l = resume_answers p"
    and "line_text (''APPLIED clock '' @ rp_clock_challenge p)" "line_text (''STEP clock '' @ rp_continue_challenge p)"
  shows "fst (serve_resume_inner env path p l) = Inr ()"
proof -
  let ?room = "rp_room_id p"
  have texts: "line_text RESUME_PREFACE" "line_text ''READY clock''" "line_text ''STEP sshd''" "line_text ''ACK resume''"
    "list_all (\<lambda>s. line_text (''STEP '' @ s)) [''reseeded'', ''identity'', ''hostkeys'', ''privilege'']"
    by (simp_all add: line_text_def RESUME_PREFACE_def)
  obtain r1 where r1: "lk_peer l = RESUME_PREFACE @ newline # r1" "resume_answers p = RESUME_PREFACE @ newline # r1"
    using assms(3) by (simp add: resume_answers_def)
  have acc: "accept_on env path l = (Connection, happened (Accepted path) l)"
    using assms(1) by (simp add: accept_on_def scripted_def)
  obtain l1 where l1: "read_resume_preface env (happened (Accepted path) l) = (Inr (PrefaceLine RESUME_PREFACE), l1)"
      "lk_peer l1 = r1" "lk_bound l1 = lk_bound l"
    using scripted_preface[OF assms(1), of "[]" RESUME_PREFACE "happened (Accepted path) l" r1] texts(1) r1(1)
    by (auto simp: read_resume_preface_def line_text_def list_all_iff)
  have "accept_resume_agent env path ?room l = (Inr (), l1)"
    by (simp add: accept_resume_agent_def RESUME_PREFACE_MAX_CANDIDATES_def upt_rec acc l1(1) on_silent_def)
  moreover obtain l2 where l2: "unlink_socket env path l1 = (Inr (), l2)" "lk_peer l2 = r1"
    using assms(1,2) l1(2,3) by (auto simp: unlink_socket_def scripted_def)
  moreover obtain l3 where l3: "send_initial_resume_payload env ?room p l2 = (Inr (), l3)" "lk_peer l3 = r1"
    using l2(2) by (auto simp: send_initial_resume_payload_def Let_def write_typed_frame_def scripted_write[OF assms(1)] map_err_def)
  moreover have "fst (complete_resume_protocol env ?room p l3) = Inr ()"
  proof -
    let ?tail = "''READY clock'' @ newline # (''APPLIED clock '' @ rp_clock_challenge p) @ newline # (''STEP clock '' @ rp_continue_challenge p)
       @ newline # ''STEP sshd'' @ newline # ''ACK resume'' @ newline # []"
    have "lk_peer l3 = concat (map (\<lambda>s. ''STEP '' @ s @ [newline]) [''reseeded'', ''identity'', ''hostkeys'', ''privilege'']) @ ?tail"
      using r1(2) l3(2) by (simp add: resume_answers_def)
    from scripted_steps[OF assms(1) texts(5) this] obtain st m where
      m: "expect_resume_steps env ?room None [''reseeded'', ''identity'', ''hostkeys'', ''privilege''] l3 = (Inr st, m)" "lk_peer m = ?tail" by metis
    have noerr: "\<not> prefix ''ERR '' ''READY clock''" "\<not> prefix ''ERR '' (''APPLIED clock '' @ c)" "\<not> prefix ''ERR '' (''STEP clock '' @ c)"
      "\<not> prefix ''ERR '' ''STEP sshd''" "\<not> prefix ''ERR '' ''ACK resume''" for c by simp_all
    obtain m1 where m1: "expect_resume_record env ?room st ''READY clock'' m = (Inr (), m1)"
        "lk_peer m1 = (''APPLIED clock '' @ rp_clock_challenge p) @ newline # (''STEP clock '' @ rp_continue_challenge p)
           @ newline # ''STEP sshd'' @ newline # ''ACK resume'' @ newline # []"
      using scripted_record[OF assms(1) texts(2) noerr(1) m(2), of ?room st] by blast
    let ?m1 = "happened (Wrote (''CLOCK '' @ show_int (le_now env (lk_peer m1)) @ space # rp_clock_challenge p @ [newline]))
       (happened (SampledClock (le_now env (lk_peer m1))) m1)"
    obtain m2 where m2: "expect_resume_record env ?room st (''APPLIED clock '' @ rp_clock_challenge p) ?m1 = (Inr (), m2)"
        "lk_peer m2 = (''STEP clock '' @ rp_continue_challenge p) @ newline # ''STEP sshd'' @ newline # ''ACK resume'' @ newline # []"
      using scripted_record[OF assms(1,4) noerr(2), of ?m1 _ ?room st] m1(2) unfolding happened_simps by blast
    let ?m2 = "happened (Wrote (''CONTINUE clock '' @ rp_continue_challenge p @ [newline])) (happened (SampledElapsed (le_clock_elapsed env (lk_peer m2))) m2)"
    obtain m3 where m3: "expect_resume_record env ?room st (''STEP clock '' @ rp_continue_challenge p) ?m2 = (Inr (), m3)"
        "lk_peer m3 = ''STEP sshd'' @ newline # ''ACK resume'' @ newline # []"
      using scripted_record[OF assms(1,5) noerr(3), of ?m2 _ ?room st] m2(2) unfolding happened_simps by blast
    let ?m3 = "m3\<lparr>lk_progress := Some ''clock''\<rparr>"
    obtain m4 where m4: "expect_resume_record env ?room (Some ''clock'') ''STEP sshd'' ?m3 = (Inr (), m4)" "lk_peer m4 = ''ACK resume'' @ newline # []"
      using scripted_record[OF assms(1) texts(3) noerr(4), of ?m3 _ ?room "Some ''clock''"] m3(2) by auto
    obtain m5 where m5: "expect_resume_record env ?room (Some ''sshd'') ''ACK resume'' (m4\<lparr>lk_progress := Some ''sshd''\<rparr>) = (Inr (), m5)"
      using scripted_record[OF assms(1) texts(4) noerr(5), of "m4\<lparr>lk_progress := Some ''sshd''\<rparr>" "[]" ?room "Some ''sshd''"] m4(2) by auto
    have "le_clock_elapsed env (lk_peer m2) < RESUME_CLOCK_APPLY_MAX" using assms(1) by (simp add: scripted_def)
    then show ?thesis
      using m(1) m1(1) m2(1) m3(1) m4(1) m5
      by (simp add: complete_resume_protocol_def clock_barrier_def sample_clock_def scripted_write[OF assms(1)] on_silent_def sample_elapsed_def
          validate_clock_application_elapsed_def map_err_def release_ingress_def record_resume_step_def expect_resume_step_def)
  qed
  ultimately show ?thesis by (simp add: serve_resume_inner_def map_err_def)
qed

text \<open>C24. A guest that answers as the protocol asks is acknowledged, for every payload whose challenges fit in a line (a ULID has 26
  characters), on a link that does not fail and a host that checks the clock in time.\<close>

theorem obedient_guest_is_acknowledged:
  assumes "scripted env" "lk_bound l path" "lk_peer l = resume_answers p"
    and "line_text (''APPLIED clock '' @ rp_clock_challenge p)" "line_text (''STEP clock '' @ rp_continue_challenge p)"
  shows "fst (serve_resume_inner env path p l) = Inr ()"
  by (rule obedient_guest_resumes[OF assms])

definition demo_link_env :: "string link_env" where
  "demo_link_env = \<lparr>le_text = (\<lambda>_. []), le_eof_text = ''early eof'', le_utf8_text = (\<lambda>_. []), le_fault = (\<lambda>_. None),
     le_accept = (\<lambda>_ s. (Connection, s)), le_read = (\<lambda>s. case s of [] \<Rightarrow> (EndOfFile, []) | c # cs \<Rightarrow> (Answer c, cs)),
     le_write = (\<lambda>_ s. (None, s)), le_now = (\<lambda>_. 1700000000), le_clock_elapsed = (\<lambda>_. 12)\<rparr>"

definition demo_resume_payload :: resume_payload where
  "demo_resume_payload = resume_payload_new ''c1'' ''c2'' ''r'' ''e'' (secrets_encode [(''A'', ''b'')])"

definition demo_link :: "string link" where
  "demo_link = \<lparr>lk_peer = resume_answers demo_resume_payload, lk_bound = (\<lambda>_. True), lk_log = [], lk_progress = None\<rparr>"

lemma demo_scripted: "scripted demo_link_env"
  by (simp add: scripted_def demo_link_env_def RESUME_CLOCK_APPLY_MAX_def)

lemma demo_link_ready:
  "lk_bound demo_link ''/v.sock_5003''" "lk_peer demo_link = resume_answers demo_resume_payload"
  "line_text (''APPLIED clock '' @ rp_clock_challenge demo_resume_payload)"
  "line_text (''STEP clock '' @ rp_continue_challenge demo_resume_payload)"
  by (simp_all add: demo_link_def demo_resume_payload_def resume_payload_new_def line_text_def)

theorem obedient_guest_is_acknowledged_witness:
  "fst (serve_resume_inner demo_link_env ''/v.sock_5003'' demo_resume_payload demo_link) = Inr ()"
  by (rule obedient_guest_is_acknowledged[OF demo_scripted demo_link_ready])

theorem resume_follows_transcript_witness:
  "\<exists>l' epoch elapsed. serve_resume_inner demo_link_env ''/v.sock_5003'' demo_resume_payload demo_link = (Inr (), l')
     \<and> Retired ''/v.sock_5003'' \<in> set (lk_log l') \<and> SampledElapsed elapsed \<in> set (lk_log l') \<and> elapsed < 4000
     \<and> Wrote (''CLOCK '' @ show_int epoch @ '' c1'' @ [newline]) \<in> set (lk_log l')"
proof -
  obtain l' where s: "serve_resume_inner demo_link_env ''/v.sock_5003'' demo_resume_payload demo_link = (Inr (), l')"
    using obedient_guest_resumes[OF demo_scripted demo_link_ready] by (cases "serve_resume_inner demo_link_env ''/v.sock_5003'' demo_resume_payload demo_link") auto
  from resume_follows_transcript[OF s] obtain ns epoch elapsed where
      log: "lk_log l' = lk_log demo_link @ concat (map (retired_candidate ''/v.sock_5003'') ns)
        @ resume_transcript ''/v.sock_5003'' demo_resume_payload epoch elapsed" and e: "elapsed < RESUME_CLOCK_APPLY_MAX" by auto
  have "SampledElapsed elapsed \<in> set (lk_log l')" "Retired ''/v.sock_5003'' \<in> set (lk_log l')"
      "Wrote (''CLOCK '' @ show_int epoch @ '' c1'' @ [newline]) \<in> set (lk_log l')"
    unfolding log resume_transcript_def clock_transcript_def by (simp_all add: demo_resume_payload_def resume_payload_new_def)
  then show ?thesis using s e unfolding RESUME_CLOCK_APPLY_MAX_def by blast
qed

subsection \<open>Secrets and provisioning\<close>

lemma ack_bytes_log:
  assumes "ack_bytes env acc l = (r, l')"
  shows "\<exists>u. lk_log l' = lk_log l @ u \<and> list_all silent_event u
     \<and> (\<forall>a. r = Inr a \<longrightarrow> (\<exists>w. a = acc @ w \<and> (u = map Got (w @ [newline]) \<or> length a > 8)))"
  using assms
proof (induction env acc l arbitrary: r l' rule: ack_bytes.induct)
  case (1 env acc l)
  obtain a l1 where a: "read_u8 env l = (a, l1)" by fastforce
  note log = read_u8_log(1)[OF a]
  show ?case
  proof (cases "\<exists>b. a = Answer b \<and> b \<noteq> newline \<and> length acc + 1 \<le> 8")
    case True
    then obtain b where b: "a = Answer b" "b \<noteq> newline" "length acc + 1 \<le> 8" by blast
    have "ack_bytes env (acc @ [b]) l1 = (r, l')"
      using "1.prems" b by (subst (asm) ack_bytes.simps) (simp add: a)
    from "1.IH"[OF a[symmetric] b(1) b(2) _ this] b(3) obtain u where
      u: "lk_log l' = lk_log l1 @ u" "list_all silent_event u"
        "\<forall>a. r = Inr a \<longrightarrow> (\<exists>w. a = acc @ b # w \<and> (u = map Got (w @ [newline]) \<or> length a > 8))" by auto
    then show ?thesis using log b(1) by (intro exI[of _ "Got b # u"]) fastforce
  next
    case False
    then show ?thesis using "1.prems" log
      by (subst (asm) ack_bytes.simps) (auto simp: a split: read_answer.splits if_splits)
  qed
qed

definition secrets_transcript :: "string \<Rightarrow> bool \<Rightarrow> string \<Rightarrow> link_event list" where
  "secrets_transcript path unlinked payload = Accepted path # (if unlinked then [Retired path] else [])
     @ [Wrote (show_nat (length payload) @ [newline])] @ [Wrote payload] @ guest_line ''OK''"

lemma follows_ack:
  "follows (guest_line ''OK'') l (and_then (ack_bytes env [] l) (\<lambda>ack l.
     if ack = ''OK'' then (Inr (), l) else (Inl (Refused (''guest ack malformed: '' @ debug_lossy ack)), l)))"
proof -
  obtain q l1 where q: "ack_bytes env [] l = (q, l1)" by fastforce
  from ack_bytes_log[OF q] obtain u where u: "lk_log l1 = lk_log l @ u" "list_all silent_event u"
    "\<And>a. q = Inr a \<Longrightarrow> u = map Got (a @ [newline]) \<or> length a > 8" by auto
  have stopped: "follows seg l (Inl x, l1)" for seg and x :: stop
    using u(1,2) unfolding follows_stop by (intro exI[of _ 0] exI[of _ u]) simp
  show ?thesis
  proof (cases "q = Inr ''OK''")
    case True
    then show ?thesis using u(1) u(3)[OF True] by (simp add: q guest_line_def)
  next
    case False
    then show ?thesis using stopped by (cases q) (auto simp: q)
  qed
qed

lemma scripted_ack:
  assumes "scripted env" "newline \<notin> set line" "lk_peer l = line @ newline # rest" "length acc \<le> 8"
  shows "\<exists>a. fst (ack_bytes env acc l) = Inr a \<and> (a = ''OK'' \<longleftrightarrow> acc @ line = ''OK'')"
  using assms(2-4)
proof (induction line arbitrary: acc l)
  case Nil
  then show ?case by (subst ack_bytes.simps) (simp add: scripted_read[OF assms(1)])
next
  case (Cons c cs)
  show ?case
  proof (cases "length acc + 1 > 8")
    case True
    then have "length (acc @ [c]) > length ''OK''" "length (acc @ c # cs) > length ''OK''" by simp_all
    then have "acc @ [c] \<noteq> ''OK''" "acc @ c # cs \<noteq> ''OK''" by (metis less_irrefl)+
    then show ?thesis using Cons.prems True by (subst ack_bytes.simps) (auto simp: scripted_read[OF assms(1)])
  next
    case False
    then show ?thesis using Cons.prems Cons.IH[of "happened (Got c) (l\<lparr>lk_peer := cs @ newline # rest\<rparr>)" "acc @ [c]"]
      by (subst ack_bytes.simps) (auto simp: scripted_read[OF assms(1)])
  qed
qed

lemma scripted_serve:
  assumes "scripted env" "newline \<notin> set line" "lk_peer l = line @ newline # rest"
  shows "fst (serve env path payload l) = Inr () \<longleftrightarrow> line = ''OK''"
proof -
  define l2 where "l2 = happened (Wrote payload) (happened (Wrote (show_nat (length payload) @ [newline]))
     (snd (unlink_socket env path (happened (Accepted path) l))))"
  have "lk_peer l2 = lk_peer l" by (simp add: l2_def unlink_socket_def split: option.splits)
  then obtain a where a: "fst (ack_bytes env [] l2) = Inr a" "a = ''OK'' \<longleftrightarrow> line = ''OK''"
    using scripted_ack[OF assms(1,2), of l2 rest "[]"] assms(3) by auto
  then obtain m where m: "ack_bytes env [] l2 = (Inr a, m)" by (cases "ack_bytes env [] l2") auto
  have acc: "accept_on env path l = (Connection, happened (Accepted path) l)"
    using assms(1) by (simp add: accept_on_def scripted_def)
  show ?thesis using m a(2)
    by (simp add: serve_def acc serve_stream_def scripted_write[OF assms(1)] l2_def[symmetric])
qed

lemma serve_follows:
  "follows (secrets_transcript path (lk_bound l path \<and> le_fault env (UnlinkSocket path) = None) payload) l (serve env path payload l)"
proof -
  obtain a l1 where a: "accept_on env path l = (a, l1)" by fastforce
  note log1 = accept_on_log[OF a]
  show ?thesis
  proof (cases "a = Connection")
    case False
    then show ?thesis using log1 by (auto simp: serve_def a follows_stop split: accept_answer.split intro: exI[of _ 0])
  next
    case True
    let ?un = "lk_bound l path \<and> le_fault env (UnlinkSocket path) = None"
    define l2 where "l2 = snd (unlink_socket env path l1)"
    have "lk_bound l1 = lk_bound l" using a by (auto simp: accept_on_def split: prod.splits accept_answer.splits)
    then have log2: "lk_log l2 = lk_log l @ (Accepted path # (if ?un then [Retired path] else []))"
      using log1 True by (auto simp: l2_def unlink_socket_def split: option.splits)
    have "follows ([Wrote (show_nat (length payload) @ [newline])] @ [Wrote payload] @ guest_line ''OK'') l2 (serve_stream env payload l2)"
      unfolding serve_stream_def by (intro follows_chain follows_write follows_ack)
    from follows_more[OF log2 this] show ?thesis
      using True by (simp add: serve_def a l2_def secrets_transcript_def)
  qed
qed

text \<open>C23. Secrets leave the host once, on one connection. Whatever the guest does, the host accepts a single connection, retires the
  endpoint (unless the endpoint is not bound or the unlink itself fails), and only then writes the length and the blob, once; the delivery succeeds
  only when the guest then answers \<open>OK\<close> on a line of its own, and after any other answer nothing more is written.  Conversely, on a
  link that does not fail, to a guest whose answer begins with a line, the delivery succeeds exactly when that line is \<open>OK\<close>.\<close>

theorem secrets_delivered_once:
  "follows (secrets_transcript path (lk_bound l path \<and> le_fault env (UnlinkSocket path) = None) payload) l (serve env path payload l)
   \<and> (scripted env' \<and> lk_peer l' = line @ newline # rest \<and> newline \<notin> set line
      \<longrightarrow> (fst (serve env' path payload l') = Inr () \<longleftrightarrow> line = ''OK''))"
  using serve_follows scripted_serve by blast

theorem secrets_delivered_once_witness:
  "fst (serve demo_link_env ''/v.sock_5001'' ''k=v'' (demo_link\<lparr>lk_peer := ''OK'' @ [newline]\<rparr>)) = Inr ()
   \<and> fst (serve demo_link_env ''/v.sock_5001'' ''k=v'' (demo_link\<lparr>lk_peer := ''OKAY'' @ [newline]\<rparr>)) \<noteq> Inr ()"
  using secrets_delivered_once[of "''/v.sock_5001''" demo_link demo_link_env "''k=v''" demo_link_env "demo_link\<lparr>lk_peer := ''OK'' @ [newline]\<rparr>" "''OK''" "[]"]
    secrets_delivered_once[of "''/v.sock_5001''" demo_link demo_link_env "''k=v''" demo_link_env "demo_link\<lparr>lk_peer := ''OKAY'' @ [newline]\<rparr>" "''OKAY''" "[]"]
    demo_scripted by simp

lemma follows_bounded_line:
  assumes "\<And>line l1. line \<noteq> expected \<Longrightarrow> \<exists>e. k line l1 = (Inl e, l1)" and "\<And>l1. follows B l1 (k expected l1)"
  shows "follows (guest_line expected @ B) l (and_then (read_bounded_line env l) k)"
proof -
  obtain q l1 where q: "read_bounded_line env l = (q, l1)" by fastforce
  from read_bounded_line_log[OF q] obtain u where u: "lk_log l1 = lk_log l @ u" "list_all silent_event u"
    "\<And>line. q = Inr line \<Longrightarrow> u = map Got (line @ [newline])" by blast
  have stopped: "follows seg l (Inl x, l1)" for seg and x :: stop
    using u(1,2) unfolding follows_stop by (intro exI[of _ 0] exI[of _ u]) simp
  show ?thesis
  proof (cases "q = Inr expected")
    case True
    then have "lk_log l1 = lk_log l @ guest_line expected" using u(1) u(3)[OF True] by (simp add: guest_line_def)
    from follows_more[OF this assms(2)] show ?thesis by (simp add: q True)
  next
    case False
    show ?thesis
    proof (cases q)
      case (Inr line)
      then obtain e where "k line l1 = (Inl e, l1)" using False assms(1)[of line l1] by auto
      then show ?thesis using stopped by (simp add: q Inr)
    qed (use stopped q in simp)
  qed
qed

lemma follows_acks: "follows (concat (map (\<lambda>ph. guest_line (''ACK '' @ ph)) phases)) l (provisioning_acks env phases l)"
proof (induction phases arbitrary: l)
  case (Cons ph phases)
  have "follows (guest_line (''ACK '' @ ph) @ concat (map (\<lambda>ph. guest_line (''ACK '' @ ph)) phases)) l (provisioning_acks env (ph # phases) l)"
    unfolding provisioning_acks.simps by (rule follows_bounded_line) (use Cons in auto)
  then show ?case by simp
qed simp

lemma read_to_end_log:
  assumes "read_to_end env acc l = Some (r, l')"
  shows "\<exists>u. lk_log l' = lk_log l @ u \<and> list_all silent_event u
     \<and> (\<forall>bytes. r = Inr bytes \<longrightarrow> (\<exists>w. bytes = acc @ w \<and> u = map Got w @ [GotEof]))"
proof -
  have "(\<lambda>(r, l'). \<exists>u. lk_log l' = lk_log l @ u \<and> list_all silent_event u
     \<and> (\<forall>bytes. r = Inr bytes \<longrightarrow> (\<exists>w. bytes = acc @ w \<and> u = map Got w @ [GotEof]))) (r, l')"
  proof (rule read_to_end.raw_induct[OF _ assms, rotated], goal_cases)
    case (1 f env acc l y)
    obtain a l1 where a: "read_u8 env l = (a, l1)" by fastforce
    note log = read_u8_log(1)[OF a]
    show ?case
    proof (cases "\<exists>b. a = Answer b")
      case True
      then obtain b where b: "a = Answer b" by blast
      then have "f env (acc @ [b]) l1 = Some y" using 1(2) by (simp add: a)
      from 1(1)[OF this] obtain r l' u where "y = (r, l')" "lk_log l' = lk_log l1 @ u" "list_all silent_event u"
        "\<forall>bytes. r = Inr bytes \<longrightarrow> (\<exists>w. bytes = acc @ b # w \<and> u = map Got w @ [GotEof])" by auto
      then show ?thesis using log b by (auto intro!: exI[of _ "Got b # u"])
    next
      case False
      then show ?thesis using 1(2) log by (auto simp: a split: read_answer.splits)
    qed
  qed
  then show ?thesis by simp
qed

definition provisioning_transcript :: "string \<Rightarrow> string \<Rightarrow> provisioning_payload \<Rightarrow> link_event list" where
  "provisioning_transcript provision_path quiesced_path p = [Accepted provision_path] @ [Retired provision_path]
     @ [Wrote (''ROOMS-PROVISION/1'' @ [newline])]
     @ frame_events ''BUNDLE'' (pp_bundle p) @ frame_events ''WARM'' (pp_warm p) @ frame_events ''END'' []
     @ concat (map (\<lambda>ph. guest_line (''ACK '' @ ph)) [''stage'', ''clone'', ''warm'']) @ [GotEof]
     @ [Accepted quiesced_path] @ [Retired quiesced_path] @ guest_line ''quiesced'' @ [GotEof]"

lemma follows_accept:
  assumes "\<And>l1. follows B l1 (k l1)" and "\<And>x l1. \<exists>e. f x l1 = (Inl e, l1)"
  shows "follows ([Accepted path] @ B) l (case accept_on env path l of
     (NoConnection, l) \<Rightarrow> (Inl Silent, l) | (AcceptFailed x, l) \<Rightarrow> f x l | (Connection, l) \<Rightarrow> k l)"
proof -
  obtain a l1 where a: "accept_on env path l = (a, l1)" by fastforce
  note log1 = accept_on_log[OF a]
  show ?thesis
  proof (cases a)
    case Connection
    then show ?thesis using follows_more[of l1 l "[Accepted path]" B "k l1"] assms(1) log1 by (simp add: a)
  next
    case (AcceptFailed x)
    then obtain e where "f x l1 = (Inl e, l1)" using assms(2) by blast
    then show ?thesis using log1 AcceptFailed by (auto simp: a follows_stop intro: exI[of _ 0])
  qed (use log1 in \<open>auto simp: a follows_stop intro: exI[of _ 0]\<close>)
qed

lemma follows_beacon: "follows ([Accepted q] @ [Retired q] @ guest_line ''quiesced'' @ [GotEof]) l (serve_beacon env q l)"
proof -
  have rest: "follows (guest_line ''quiesced'' @ [GotEof]) m (case read_to_end env [] m of
      None \<Rightarrow> (Inl Silent, m)
    | Some r \<Rightarrow> and_then r (\<lambda>bytes l.
        if bytes \<noteq> ''quiesced'' @ [newline] then (Inl (Refused (''quiesced beacon malformed: '' @ debug_lossy bytes)), l)
        else (Inr (), l)))" for m :: "'a link"
  proof (cases "read_to_end env [] m")
    case None
    then show ?thesis by (auto simp: follows_stop intro: exI[of _ 0])
  next
    case (Some y)
    then obtain r l' where y: "read_to_end env [] m = Some (r, l')" by (cases y) auto
    from read_to_end_log[OF y] obtain u where u: "lk_log l' = lk_log m @ u" "list_all silent_event u"
      "\<And>bytes. r = Inr bytes \<Longrightarrow> u = map Got bytes @ [GotEof]" by auto
    have stopped: "follows seg m (Inl x, l')" for seg and x :: stop
      using u(1,2) unfolding follows_stop by (intro exI[of _ 0] exI[of _ u]) simp
    show ?thesis
    proof (cases "r = Inr (''quiesced'' @ [newline])")
      case True
      then show ?thesis using u(1) u(3)[OF True] by (simp add: y guest_line_def)
    next
      case False
      then show ?thesis using stopped by (cases r) (auto simp: y)
    qed
  qed
  show ?thesis unfolding serve_beacon_def
    by (intro follows_accept follows_chain follows_unlink rest) auto
qed

text \<open>A base counts as quiesced only after the whole provisioning exchange: one agent connection whose endpoint is retired before the
  bundle is sent, the acknowledgements of all three phases in order, the close of that connection, and then on the second
  endpoint, retired as well, exactly the one beacon and its end. After any deviation the host writes and accepts nothing more.\<close>

theorem provisioning_follows_transcript:
  "follows (provisioning_transcript provision_path quiesced_path p) l (serve_provisioning_inner env provision_path quiesced_path p l)"
proof -
  have closed: "follows ([GotEof] @ [Accepted quiesced_path] @ [Retired quiesced_path] @ guest_line ''quiesced'' @ [GotEof]) m
      (case read_u8 env m of
         (NoAnswer, l) \<Rightarrow> (Inl Silent, l)
       | (ReadFailed e, l) \<Rightarrow> (Inl (Refused (''wait for provisioning connection close: '' @ le_text env e)), l)
       | (Answer _, l) \<Rightarrow> (Inl (Refused ''provisioning connection carried trailing bytes''), l)
       | (EndOfFile, l) \<Rightarrow> serve_beacon env quiesced_path l)" for m :: "'a link"
  proof -
    obtain a l1 where a: "read_u8 env m = (a, l1)" by fastforce
    note log = read_u8_log(1)[OF a]
    show ?thesis
    proof (cases "a = EndOfFile")
      case True
      then show ?thesis using follows_more[OF _ follows_beacon[of quiesced_path l1 env], of m "[GotEof]"] log by (simp add: a)
    next
      case False
      then show ?thesis using log by (auto simp: a follows_stop split: read_answer.splits intro: exI[of _ 0])
    qed
  qed
  show ?thesis
    unfolding serve_provisioning_inner_def provisioning_transcript_def frame_events_def
    by (intro follows_accept follows_chain follows_unlink follows_write follows_frame follows_acks closed) auto
qed

subsection \<open>The wire formats\<close>

text \<open>The reader the formats are meant for: a header line with a kind and a length, and that many bytes; and the secrets file,
  one \<open>NAME=value\<close> per line.\<close>

definition read_frame :: "string \<Rightarrow> ((string \<times> string) \<times> string) option" where
  "read_frame s = (case split_once newline s of
     None \<Rightarrow> None
   | Some (header, rest) \<Rightarrow> (case split_once space header of
       None \<Rightarrow> None
     | Some (kind, len) \<Rightarrow> (case parse_uint (2 ^ 64) len of
         None \<Rightarrow> None
       | Some n \<Rightarrow> if n \<le> length rest then Some ((kind, take n rest), drop n rest) else None)))"

definition read_secrets :: "string \<Rightarrow> (string \<times> string) option list" where
  "read_secrets s = map (split_once (CHR ''='')) (butlast (split_on newline s))"

lemma digits_plain: "newline \<notin> set (show_nat n)" "space \<notin> set (show_nat n)"
  using whitespace_notin[OF show_nat_no_whitespace] by blast+

lemma read_frame_header:
  assumes "space \<notin> set kind" "newline \<notin> set kind" "length body < 2 ^ 64"
  shows "read_frame (frame_header kind body @ body @ rest) = Some ((kind, body), rest)"
proof -
  have "split_once newline (frame_header kind body @ body @ rest) = Some (kind @ space # show_nat (length body), body @ rest)"
    using split_once_append[of newline "kind @ space # show_nat (length body)" "body @ rest"] assms(2) digits_plain(1)
    by (simp add: frame_header_def)
  then show ?thesis using assms(3) by (simp add: read_frame_def split_once_append[OF assms(1)] parse_uint_show_nat)
qed

lemma split_on_secrets:
  assumes "list_all (\<lambda>(n, v). newline \<notin> set n \<and> newline \<notin> set v) pairs"
  shows "split_on newline (secrets_encode pairs) = map (\<lambda>(n, v). n @ CHR ''='' # v) pairs @ [[]]"
  using assms
proof (induction pairs)
  case Nil
  then show ?case by (simp add: secrets_encode_def)
next
  case (Cons p pairs)
  obtain n v where p: "p = (n, v)" by fastforce
  have "split_on newline ((n @ CHR ''='' # v) @ newline # secrets_encode pairs) = (n @ CHR ''='' # v) # split_on newline (secrets_encode pairs)"
    by (rule split_on_Cons) (use Cons.prems p in simp)
  then show ?case using Cons p by (simp add: secrets_encode_def)
qed

text \<open>The wire formats lose nothing. A typed frame reads back as its kind and its body, whatever bytes the body holds and whatever
  follows it, and the secrets blob reads back as the admitted pairs (names without an equals sign, nothing with a newline).\<close>

theorem wire_formats_read_back:
  assumes "space \<notin> set kind" "newline \<notin> set kind" "length body < 2 ^ 64"
    and "list_all (\<lambda>(n, v). CHR ''='' \<notin> set n \<and> newline \<notin> set n \<and> newline \<notin> set v) pairs"
  shows "read_frame (frame_header kind body @ body @ rest) = Some ((kind, body), rest)
    \<and> read_secrets (secrets_encode pairs) = map Some pairs"
proof -
  have nl: "list_all (\<lambda>(n, v). newline \<notin> set n \<and> newline \<notin> set v) pairs"
    using assms(4) by (auto simp: list_all_iff)
  have "map (split_once (CHR ''='')) (map (\<lambda>(n, v). n @ CHR ''='' # v) pairs) = map Some pairs"
    using assms(4) by (auto simp: list_all_iff split_once_append)
  then show ?thesis using read_frame_header[OF assms(1-3)] by (simp add: read_secrets_def split_on_secrets[OF nl])
qed

theorem wire_formats_read_back_witness:
  "read_frame (frame_header ''SECRETS'' [newline, CHR ''x''] @ [newline, CHR ''x''] @ ''END 0'') = Some ((''SECRETS'', [newline, CHR ''x'']), ''END 0'')
    \<and> read_secrets (secrets_encode [(''A'', ''b=c''), (''B'', [])]) = [Some (''A'', ''b=c''), Some (''B'', [])]"
  using wire_formats_read_back[of "''SECRETS''" "[newline, CHR ''x'']" "[(''A'', ''b=c''), (''B'', [])]" "''END 0''"] by simp

end
