(* ===== verification/Snapshot_Exec.thy ===== *)
theory Snapshot_Exec
  imports Snapshot_Index Inode_Seal Vsock
begin

text \<open>
  Recoverable execution of the snapshot policy (\<open>src/src/snapshot_exec.rs\<close>): the transaction \<open>drive\<close> over its durable boundaries,
  its creation, its recovery after a crash or failure, and the abort of a transaction whose base died.

  The world is the state base with the jails and host programs (\<open>room_host world\<close>) and the inode flags by path. A file is the pair of its
  directory and its name (\<open>path_key\<close>); the files of an output directory and of a jail root live in the same map as those of the
  state base. Firecracker's API, the contents it leaves in the two targets, JSON, hashing, inode identities, the kernel's answer to
  the flag ioctls and the clock are the environment. A sealed file is never written again by this code, so the model does not give
  write errors for sealed files.
\<close>

subsection \<open>World and environment\<close>

record 'n snap_world =
  sw :: "'n room_host world"
  sw_flags :: "string \<Rightarrow> u32"

datatype api_body = VmState string | FullSnapshot string string

record snapshot_attestation =
  at_schema_version :: u32
  at_snapshot_dir :: string
  at_snapshot_dir_source :: file_identity
  at_snapshot_meta_source :: file_identity
  at_rootfs_source :: file_identity
  at_meta :: snapshot_meta

record 'n snap_env =
  xe_reap :: "'n reap_env"
  xe_home :: "string option"
  xe_config :: rooms_config
  xe_index :: intent_index
  xe_from_slice :: "string \<Rightarrow> string + room_meta"
  xe_to_json :: "snapshot_intent \<Rightarrow> string + string"
  xe_meta_to_json :: "snapshot_meta \<Rightarrow> string + string"
  xe_meta_from_json :: "string \<Rightarrow> string + snapshot_meta"
  xe_attestation_to_json :: "snapshot_attestation \<Rightarrow> string + string"
  xe_attestation_from_json :: "string \<Rightarrow> string + snapshot_attestation"
  xe_irregular :: "string \<times> string \<Rightarrow> bool"
  xe_ids :: "string + u32 \<times> u32"
  xe_api :: "string \<Rightarrow> string \<Rightarrow> string \<Rightarrow> api_body \<Rightarrow> 'n \<Rightarrow> (string + unit) \<times> 'n"
  xe_created :: "'n \<Rightarrow> string option \<times> string option"
  xe_flag_get :: "string \<Rightarrow> u32 \<Rightarrow> string option"
  xe_flag_set :: "string \<Rightarrow> u32 \<Rightarrow> u32 \<Rightarrow> string option \<times> u32"
  xe_flag_sync :: "string \<Rightarrow> u32 \<Rightarrow> string option"
  xe_identity :: "bool \<Rightarrow> string \<Rightarrow> io_error + file_identity"
  xe_sha256 :: "string \<Rightarrow> io_error + string"
  xe_jail_entries :: "string \<Rightarrow> io_error + (io_error + string) list"
  xe_attestation_entries :: "io_error + (io_error + string) list"
  xe_occupied :: "string \<Rightarrow> io_error + bool"
  xe_out_key :: "string \<Rightarrow> string"
  xe_new_id :: string
  xe_fresh_id :: string
  xe_now :: datetime

abbreviation xe_io :: "'n snap_env \<Rightarrow> io_env" where "xe_io env \<equiv> re_io (xe_reap env)"
abbreviation xe_text :: "'n snap_env \<Rightarrow> io_error \<Rightarrow> string" where "xe_text env \<equiv> re_text (xe_reap env)"

definition ATTESTATION_SCHEMA_VERSION :: u32 where "ATTESTATION_SCHEMA_VERSION = 1"
definition MAX_ATTESTATION_BYTES :: nat where "MAX_ATTESTATION_BYTES = 1024 * 1024"
definition IMMUTABLE_FLAG :: u32 where "IMMUTABLE_FLAG = 0x10"

definition on_state :: "('n room_host world \<Rightarrow> 'a \<times> 'n room_host world) \<Rightarrow> 'n snap_world \<Rightarrow> 'a \<times> 'n snap_world" where
  "on_state f x = (case f (sw x) of (r, w) \<Rightarrow> (r, x\<lparr>sw := w\<rparr>))"

definition in_state :: "'n snap_env \<Rightarrow> ('n room_host world \<Rightarrow> (io_error + 'a) \<times> 'n room_host world) \<Rightarrow> 'n snap_world \<Rightarrow> (string + 'a) \<times> 'n snap_world" where
  "in_state env f x = map_err (xe_text env) (on_state f x)"

definition pure_io :: "'n snap_env \<Rightarrow> io_error + 'a \<Rightarrow> 'n snap_world \<Rightarrow> (string + 'a) \<times> 'n snap_world" where
  "pure_io env r x = (map_sum (xe_text env) id r, x)"

definition path_key :: "string \<Rightarrow> string \<times> string" where
  "path_key p = (case rsplit_once slash p of None \<Rightarrow> ([], p) | Some (d, n) \<Rightarrow> (d, n))"

text \<open>The ioctls on the inode of a path.\<close>

definition linux_flag_ops :: "'n snap_env \<Rightarrow> string \<Rightarrow> 'n snap_world flag_ops" where
  "linux_flag_ops env p =
     \<lparr>fo_immutable = IMMUTABLE_FLAG,
      fo_get = (\<lambda>x. (case xe_flag_get env p (sw_flags x p) of Some e \<Rightarrow> Inl e | None \<Rightarrow> Inr (sw_flags x p), x)),
      fo_set = (\<lambda>b x. (case fst (xe_flag_set env p b (sw_flags x p)) of Some e \<Rightarrow> Inl e | None \<Rightarrow> Inr (),
                      x\<lparr>sw_flags := (sw_flags x)(p := snd (xe_flag_set env p b (sw_flags x p)))\<rparr>)),
      fo_sync = (\<lambda>x. (case xe_flag_sync env p (sw_flags x p) of Some e \<Rightarrow> Inl e | None \<Rightarrow> Inr (), x))\<rparr>"

interpretation snap_inode: inode_flags "linux_flag_ops env p" "\<lambda>x. sw_flags x p" for env p
  by unfold_locales (auto simp: linux_flag_ops_def split: option.splits)

definition snap_inodes :: "'n snap_env \<Rightarrow> 'n snap_world inode_env" where
  "snap_inodes env =
     \<lparr>ie_text = xe_text env,
      ie_open = (\<lambda>p x. if files (sw x) (path_key p) = None \<and> \<not> dirs (sw x) p then Inl NotFound
                       else check_fault (xe_io env) (ReadToString (fst (path_key p)) (snd (path_key p)))),
      ie_metadata = (\<lambda>p x. case files (sw x) (path_key p) of
          Some c \<Rightarrow> Inr (if xe_irregular env (path_key p) then OtherKind else RegularFile, of_nat (length c))
        | None \<Rightarrow> Inr (Directory, 0)),
      ie_ops = linux_flag_ops env\<rparr>"

subsection \<open>The index\<close>

definition snapshot_intent_tmp :: "string \<Rightarrow> string" where
  "snapshot_intent_tmp base_id = CHR ''.'' # base_id @ ''.tmp''"

definition write_snapshot_intent :: "'n snap_env \<Rightarrow> snapshot_intent \<Rightarrow> 'n snap_world \<Rightarrow> (string + unit) \<times> 'n snap_world" where
  "write_snapshot_intent env i x = (case snapshot_intents_dir (xe_home env) (xe_config env) of
     None \<Rightarrow> (Inl ''cannot resolve snapshot intent directory'', x)
   | Some _ \<Rightarrow> (case xe_to_json env i of
       Inl e \<Rightarrow> (Inl e, x)
     | Inr bytes \<Rightarrow> in_state env (\<lambda>w.
         let tmp = snapshot_intent_tmp (si_base_room_id i) in
         and_then (open_truncate (xe_io env) SNAPSHOT_INTENTS_DIR tmp w) (\<lambda>_ w.
         and_then (write_all (xe_io env) SNAPSHOT_INTENTS_DIR tmp bytes w) (\<lambda>_ w.
         case check_fault (xe_io env) (SyncAll SNAPSHOT_INTENTS_DIR tmp) of
           Inl e \<Rightarrow> (Inl e, w)
         | Inr _ \<Rightarrow> and_then (rename_file (xe_io env) SNAPSHOT_INTENTS_DIR tmp (snapshot_intent_name (si_base_room_id i)) w)
             (\<lambda>_ w. (sync_dir (xe_io env) SNAPSHOT_INTENTS_DIR, w))))) x))"

definition advance :: "'n snap_env \<Rightarrow> snapshot_intent \<Rightarrow> snapshot_boundary \<Rightarrow> 'n snap_world \<Rightarrow> (string + snapshot_intent) \<times> 'n snap_world" where
  "advance env i b x = and_then (write_snapshot_intent env (i\<lparr>si_boundary := b\<rparr>) x) (\<lambda>_ x. (Inr (i\<lparr>si_boundary := b\<rparr>), x))"

definition finish_snapshot_index :: "'n snap_env \<Rightarrow> snapshot_intent \<Rightarrow> 'n snap_world \<Rightarrow> (string + unit) \<times> 'n snap_world" where
  "finish_snapshot_index env i x = in_state env (\<lambda>w.
     case remove_file (xe_io env) SNAPSHOT_INTENTS_DIR (snapshot_intent_name (si_base_room_id i)) w of
       (Inr _, w) \<Rightarrow> (sync_dir (xe_io env) SNAPSHOT_INTENTS_DIR, w)
     | (Inl NotFound, w) \<Rightarrow> (Inr (), w)
     | (Inl e, w) \<Rightarrow> (Inl e, w)) x"

text \<open>Publication by hard link: the target must not exist; the temporary name is removed again.\<close>

definition create_snapshot_intent :: "'n snap_env \<Rightarrow> snapshot_intent \<Rightarrow> 'n snap_world \<Rightarrow> (string + unit) \<times> 'n snap_world" where
  "create_snapshot_intent env i x =
     (let tmp = CHR ''.'' # si_base_room_id i @ ''.'' @ xe_fresh_id env @ ''.tmp''; name = snapshot_intent_name (si_base_room_id i); io = xe_io env in
      and_then (in_state env (\<lambda>w. and_then (create_dir_all io SNAPSHOT_INTENTS_DIR w)
          (\<lambda>_ w. (check_fault io (SetPermissions SNAPSHOT_INTENTS_DIR []), w))) x) (\<lambda>_ x.
      case xe_to_json env i of
        Inl e \<Rightarrow> (Inl e, x)
      | Inr bytes \<Rightarrow>
          and_then (in_state env (\<lambda>w. and_then (create_new_file io SNAPSHOT_INTENTS_DIR tmp w) (\<lambda>_ w.
            and_then (write_all io SNAPSHOT_INTENTS_DIR tmp bytes w) (\<lambda>_ w. (check_fault io (SyncAll SNAPSHOT_INTENTS_DIR tmp), w)))) x) (\<lambda>_ x.
          if files (sw x) (SNAPSHOT_INTENTS_DIR, name) \<noteq> None
          then (Inl (''snapshot transaction already pending for base '' @ si_base_room_id i),
                snd (in_state env (remove_file io SNAPSHOT_INTENTS_DIR tmp) x))
          else (case check_fault io (Rename SNAPSHOT_INTENTS_DIR tmp name) of
              Inl e \<Rightarrow> (Inl (xe_text env e), snd (in_state env (remove_file io SNAPSHOT_INTENTS_DIR tmp) x))
            | Inr _ \<Rightarrow> in_state env (\<lambda>w.
                let w = w\<lparr>files := (files w)((SNAPSHOT_INTENTS_DIR, name) := files w (SNAPSHOT_INTENTS_DIR, tmp))\<rparr> in
                and_then (sync_dir io SNAPSHOT_INTENTS_DIR, w) (\<lambda>_ w.
                and_then (remove_file io SNAPSHOT_INTENTS_DIR tmp w) (\<lambda>_ w. (sync_dir io SNAPSHOT_INTENTS_DIR, w)))) x))))"

subsection \<open>Artifacts\<close>

definition artifact_meta :: "'n snap_env \<Rightarrow> string \<Rightarrow> 'n snap_world \<Rightarrow> io_error + bool \<times> nat" where
  "artifact_meta env p x = (case files (sw x) (path_key p) of
     None \<Rightarrow> Inl NotFound
   | Some c \<Rightarrow> (case check_fault (xe_io env) (SymlinkMetadata (fst (path_key p)) (snd (path_key p))) of
        Inl e \<Rightarrow> Inl e | Inr _ \<Rightarrow> Inr (\<not> xe_irregular env (path_key p), length c)))"

definition ensure_regular_nonempty :: "'n snap_env \<Rightarrow> string \<Rightarrow> 'n snap_world \<Rightarrow> string + unit" where
  "ensure_regular_nonempty env p x = (case artifact_meta env p x of
     Inl e \<Rightarrow> Inl (xe_text env e)
   | Inr (regular, len) \<Rightarrow> if \<not> regular \<or> len = 0
       then Inl (''snapshot artifact is missing, empty, or not regular: '' @ p) else Inr ())"

definition validate_collected :: "'n snap_env \<Rightarrow> snapshot_intent \<Rightarrow> 'n snap_world \<Rightarrow> string + unit" where
  "validate_collected env i x = (case ensure_regular_nonempty env (si_host_vmstate i) x of
     Inl e \<Rightarrow> Inl e | Inr _ \<Rightarrow> ensure_regular_nonempty env (si_host_mem i) x)"

fun ensure_absent :: "'n snap_env \<Rightarrow> string list \<Rightarrow> 'n snap_world \<Rightarrow> string + unit" where
  "ensure_absent env [] x = Inr ()"
| "ensure_absent env (p # ps) x = (case artifact_meta env p x of
     Inl NotFound \<Rightarrow> ensure_absent env ps x
   | Inl e \<Rightarrow> Inl (xe_text env e)
   | Inr _ \<Rightarrow> Inl (''refusing pre-existing snapshot jail target '' @ p))"

definition ensure_targets_absent :: "'n snap_env \<Rightarrow> snapshot_intent \<Rightarrow> 'n snap_world \<Rightarrow> string + unit" where
  "ensure_targets_absent env i x = ensure_absent env [si_jail_vmstate i, si_jail_mem i] x"

fun validate_targets :: "'n snap_env \<Rightarrow> snapshot_boundary \<Rightarrow> string list \<Rightarrow> 'n snap_world \<Rightarrow> string + unit" where
  "validate_targets env b [] x = Inr ()"
| "validate_targets env b (p # ps) x = (case artifact_meta env p x of
     Inl e \<Rightarrow> Inl (xe_text env e)
   | Inr (regular, len) \<Rightarrow>
       if \<not> regular then Inl ''snapshot jail target is no longer a regular file''
       else if b = BTargetsStaged \<and> len \<noteq> 0 then Inl ''snapshot jail target changed before the create request''
       else validate_targets env b ps x)"

definition validate_staged_targets :: "'n snap_env \<Rightarrow> snapshot_intent \<Rightarrow> 'n snap_world \<Rightarrow> string + unit" where
  "validate_staged_targets env i x = validate_targets env (si_boundary i) [si_jail_vmstate i, si_jail_mem i] x"

definition set_owner_private :: "'n snap_env \<Rightarrow> string \<Rightarrow> io_error + unit" where
  "set_owner_private env p = check_fault (xe_io env) (SetPermissions (fst (path_key p)) (snd (path_key p)))"

fun stage_each :: "'n snap_env \<Rightarrow> string list \<Rightarrow> 'n snap_world \<Rightarrow> (string + unit) \<times> 'n snap_world" where
  "stage_each env [] x = (Inr (), x)"
| "stage_each env (p # ps) x =
     and_then (case artifact_meta env p x of
         Inr (regular, len) \<Rightarrow> if regular \<and> len = 0 then (Inr (), x)
           else (Inl (''refusing non-empty or non-regular snapshot jail target '' @ p), x)
       | Inl NotFound \<Rightarrow> in_state env (\<lambda>w. and_then (create_new_file (xe_io env) (fst (path_key p)) (snd (path_key p)) w)
             (\<lambda>_ w. (check_fault (xe_io env) (SyncAll (fst (path_key p)) (snd (path_key p))), w))) x
       | Inl e \<Rightarrow> (Inl (xe_text env e), x))
     (\<lambda>_ x. and_then (pure_io env (set_owner_private env p) x) (\<lambda>_ x. stage_each env ps x))"

definition stage_targets :: "'n snap_env \<Rightarrow> snapshot_intent \<Rightarrow> 'n snap_world \<Rightarrow> (string + unit) \<times> 'n snap_world" where
  "stage_targets env i x = (case xe_ids env of
     Inl e \<Rightarrow> (Inl e, x)
   | Inr _ \<Rightarrow> and_then (stage_each env [si_jail_vmstate i, si_jail_mem i] x)
       (\<lambda>_ x. if path_parent (si_jail_vmstate i) = None then (Inl ''jail target has no parent'', x)
               else pure_io env (sync_dir (xe_io env) (fst (path_key (si_jail_vmstate i)))) x))"

definition copy_private :: "'n snap_env \<Rightarrow> string \<Rightarrow> string \<Rightarrow> 'n snap_world \<Rightarrow> (string + unit) \<times> 'n snap_world" where
  "copy_private env source target x =
     (let (d, n) = path_key target; tmp = CHR ''.'' # n @ ''.tmp''; io = xe_io env in
      case ensure_regular_nonempty env source x of
        Inl e \<Rightarrow> (Inl e, x)
      | Inr _ \<Rightarrow> in_state env (\<lambda>w.
          case read_to_string io (fst (path_key source)) (snd (path_key source)) w of
            Inl e \<Rightarrow> (Inl e, w)
          | Inr bytes \<Rightarrow>
              and_then (open_truncate io d tmp w) (\<lambda>_ w.
              and_then (write_all io d tmp bytes w) (\<lambda>_ w.
              case check_fault io (SetPermissions d tmp) of Inl e \<Rightarrow> (Inl e, w) | Inr _ \<Rightarrow>
              (case check_fault io (SyncAll d tmp) of Inl e \<Rightarrow> (Inl e, w) | Inr _ \<Rightarrow>
              and_then (rename_file io d tmp n w) (\<lambda>_ w. (sync_dir io d, w)))))) x)"

definition collect_pair :: "'n snap_env \<Rightarrow> snapshot_intent \<Rightarrow> 'n snap_world \<Rightarrow> (string + unit) \<times> 'n snap_world" where
  "collect_pair env i x = (case xe_ids env of
     Inl e \<Rightarrow> (Inl e, x)
   | Inr _ \<Rightarrow>
       and_then (copy_private env (si_jail_vmstate i) (si_host_vmstate i) x) (\<lambda>_ x.
       and_then (copy_private env (si_jail_mem i) (si_host_mem i) x) (\<lambda>_ x.
       and_then (validate_collected env i x, x) (\<lambda>_ x.
         pure_io env (sync_dir (xe_io env) (si_out_dir i)) x))))"

subsection \<open>The calls to Firecracker\<close>

definition snapshot_ops :: "fc_op \<times> fc_op" where
  "snapshot_ops = (PauseVm, CreateFullSnapshot (slash # SNAPSHOT_VMSTATE_FILE) (slash # SNAPSHOT_MEM_FILE))"

definition op_request :: "fc_op \<Rightarrow> string \<times> string \<times> api_body" where
  "op_request op = (case op of
     PauseVm \<Rightarrow> (''PATCH'', ''/vm'', VmState ''Paused'')
   | CreateFullSnapshot vmstate mem \<Rightarrow> (''PUT'', ''/snapshot/create'', FullSnapshot vmstate mem))"

definition call_api :: "'n snap_env \<Rightarrow> string \<Rightarrow> string \<Rightarrow> string \<Rightarrow> api_body \<Rightarrow> 'n snap_world \<Rightarrow> (string + unit) \<times> 'n snap_world" where
  "call_api env socket verb endpoint body x = on_state (on_host (on_programs (xe_api env socket verb endpoint body))) x"

definition execute_op :: "'n snap_env \<Rightarrow> string \<Rightarrow> fc_op \<Rightarrow> 'n snap_world \<Rightarrow> (string + unit) \<times> 'n snap_world" where
  "execute_op env socket op x = (case op_request op of (verb, endpoint, body) \<Rightarrow> call_api env socket verb endpoint body x)"

definition resume_vm :: "'n snap_env \<Rightarrow> string \<Rightarrow> 'n snap_world \<Rightarrow> (string + unit) \<times> 'n snap_world" where
  "resume_vm env socket x = call_api env socket ''PATCH'' ''/vm'' (VmState ''Resumed'') x"

text \<open>What the create request leaves in the two targets in the jail, also when it fails.\<close>

definition put_artifact :: "string \<Rightarrow> string option \<Rightarrow> 'n snap_world \<Rightarrow> 'n snap_world" where
  "put_artifact p c x = (case c of None \<Rightarrow> x | Some bytes \<Rightarrow> x\<lparr>sw := (sw x)\<lparr>files := (files (sw x))(path_key p \<mapsto> bytes)\<rparr>\<rparr>)"

definition execute_create :: "'n snap_env \<Rightarrow> string \<Rightarrow> snapshot_intent \<Rightarrow> 'n snap_world \<Rightarrow> (string + unit) \<times> 'n snap_world" where
  "execute_create env socket i x = (case execute_op env socket (snd snapshot_ops) x of
     (r, x) \<Rightarrow> (case xe_created env (net_state (clone_side (host (sw x)))) of
        (vmstate, mem) \<Rightarrow> (r, put_artifact (si_jail_mem i) mem (put_artifact (si_jail_vmstate i) vmstate x))))"

definition execute_and_collect ::
  "'n snap_env \<Rightarrow> snapshot_intent \<Rightarrow> 'n snap_world \<Rightarrow> (string + snapshot_intent) \<times> 'n snap_world" where
  "execute_and_collect env i x = (case validate_staged_targets env i x of
     Inl e \<Rightarrow> (Inl e, x)
   | Inr _ \<Rightarrow> (case jail_socket (xe_home env) (xe_config env) (si_base_room_id i) of
       None \<Rightarrow> (Inl ''cannot resolve Firecracker socket'', x)
     | Some socket \<Rightarrow>
         and_then (if si_boundary i < BPaused then
                     (case execute_op env socket (fst snapshot_ops) x of
                        (Inl e, x) \<Rightarrow> (Inl e, snd (resume_vm env socket x))
                      | (Inr _, x) \<Rightarrow> advance env i BPaused x)
                   else (Inr i, x)) (\<lambda>i x.
         and_then (execute_create env socket i x) (\<lambda>_ x.
         and_then (collect_pair env i x) (\<lambda>_ x.
           advance env i BCollected x)))))"

subsection \<open>The slot and the base\<close>

definition reserve_slot :: "'n snap_env \<Rightarrow> snapshot_intent \<Rightarrow> 'n snap_world \<Rightarrow> (string + unit) \<times> 'n snap_world" where
  "reserve_slot env i x = (case resolved_state_base (xe_home env) (xe_config env) of
     None \<Rightarrow> (Inl ''HOME unset; cannot locate rooms state'', x)
   | Some _ \<Rightarrow> (case sm_slot_index (si_meta i) of
       None \<Rightarrow> (Inl ''snapshot plan lost its slot'', x)
     | Some index \<Rightarrow>
         and_then (map_err (slot_error_text (xe_text env)) (on_state (reserve (xe_io env) index (si_snapshot_id i) (si_base_room_id i)) x))
           (\<lambda>r x. if r = ReserveNotOwned then (Inl (''base no longer owns slot '' @ show_u8 index @ ''; preserving snapshot intent''), x)
                  else (Inr (), x))))"

definition pinned_process_identity :: "room_meta \<Rightarrow> string + u32 \<times> u64" where
  "pinned_process_identity m = (case rm_pid m of
     None \<Rightarrow> Inl ''base has no recorded process id; refusing to signal''
   | Some pid \<Rightarrow> (case rm_pid_starttime m of
       None \<Rightarrow> Inl ''base process has no pinned start time; refusing to signal a potentially reused pid''
     | Some starttime \<Rightarrow> Inr (pid, starttime)))"

text \<open>The files in a jail root go with the jail's instance directory.\<close>

definition purge_jail :: "string \<Rightarrow> string \<Rightarrow> 'n snap_world \<Rightarrow> 'n snap_world" where
  "purge_jail jail_dir jail_root x = (if jails (host (sw x)) jail_dir = None
     then x\<lparr>sw := (sw x)\<lparr>files := (\<lambda>p. if fst p = jail_root then None else files (sw x) p)\<rparr>\<rparr> else x)"

definition terminate_base ::
  "'n snap_env \<Rightarrow> string \<Rightarrow> string \<Rightarrow> room_meta \<Rightarrow> 'n snap_world \<Rightarrow> (string + unit) \<times> 'n snap_world" where
  "terminate_base env indeterminate survived m x = (case pinned_process_identity m of
     Inl e \<Rightarrow> (Inl e, x)
   | Inr (pid, starttime) \<Rightarrow>
       (case on_state (on_host (on_programs (terminate_by_identity (xe_reap env) pid (Some starttime) (cleanup_grace (xe_config env))))) x of
          (KillIndeterminate, x) \<Rightarrow> (Inl indeterminate, x)
        | (KillSurvived, x) \<Rightarrow> (Inl survived, x)
        | (_, x) \<Rightarrow> (Inr (), x)))"

definition reap_base_dirs ::
  "'n snap_env \<Rightarrow> string \<Rightarrow> string \<Rightarrow> string \<Rightarrow> 'n snap_world \<Rightarrow> (string + unit) \<times> 'n snap_world" where
  "reap_base_dirs env base_id jail_dir tap x =
     (case map_err (firecracker_error_text (xe_text env))
             (on_state (reap_reserved_base (xe_reap env) base_id jail_dir jail_dir tap (xe_config env)) x) of
        (r, x) \<Rightarrow> (r, purge_jail jail_dir (path_join jail_dir ''root'') x))"

definition reap_base :: "'n snap_env \<Rightarrow> snapshot_intent \<Rightarrow> 'n snap_world \<Rightarrow> (string + unit) \<times> 'n snap_world" where
  "reap_base env i x = (case room_dir (xe_home env) (xe_config env) (si_base_room_id i) of
     None \<Rightarrow> (Inl ''cannot resolve room directory'', x)
   | Some _ \<Rightarrow> (case jail_instance_dir (xe_home env) (xe_config env) (si_base_room_id i) of
       None \<Rightarrow> (Inl ''cannot resolve jail directory'', x)
     | Some jail_dir \<Rightarrow> (case jail_socket (xe_home env) (xe_config env) (si_base_room_id i) of
         None \<Rightarrow> (Inl ''cannot resolve socket'', x)
       | Some _ \<Rightarrow>
           and_then (case room_read (xe_from_slice env) (xe_io env) (si_base_room_id i) (sw x) of
               Inl e \<Rightarrow> (Inl (xe_text env e), x)
             | Inr None \<Rightarrow> (Inr (), x)
             | Inr (Some m) \<Rightarrow> terminate_base env ''base process identity became uncertain; preserving reservation''
                   ''base process survived termination; preserving reservation'' m x) (\<lambda>_ x.
           case sm_slot_index (si_meta i) of
             None \<Rightarrow> (Inl ''snapshot plan lost its slot'', x)
           | Some index \<Rightarrow> reap_base_dirs env (si_base_room_id i) jail_dir (''tap-fc'' @ show_u8 index) x))))"

subsection \<open>Publication\<close>

definition snapshot_meta_path :: "snapshot_intent \<Rightarrow> string" where
  "snapshot_meta_path i = path_join (si_out_dir i) SNAPSHOT_META_FILE"

definition ensure_snapshot_metadata :: "'n snap_env \<Rightarrow> snapshot_intent \<Rightarrow> 'n snap_world \<Rightarrow> (string + unit) \<times> 'n snap_world" where
  "ensure_snapshot_metadata env i x = (let (d, n) = path_key (snapshot_meta_path i) in
     case read_to_string (xe_io env) d n (sw x) of
       Inr bytes \<Rightarrow> (case xe_meta_from_json env bytes of
           Inl e \<Rightarrow> (Inl e, x)
         | Inr observed \<Rightarrow> if observed \<noteq> si_meta i
             then (Inl (''published snapshot metadata '' @ snapshot_meta_path i @ '' disagrees with its transaction''), x) else (Inr (), x))
     | Inl NotFound \<Rightarrow> in_state env (write_meta_atomic (xe_meta_to_json env) (xe_io env) (Some d, n) (si_meta i)) x
     | Inl e \<Rightarrow> (Inl (xe_text env e), x))"

fun seal_each :: "'n snap_env \<Rightarrow> (string \<times> string) list \<Rightarrow> 'n snap_world \<Rightarrow> (string + unit) \<times> 'n snap_world" where
  "seal_each env [] x = (Inr (), x)"
| "seal_each env ((p, label) # rest) x = and_then (inode_seal (snap_inodes env) p label x) (\<lambda>_ x. seal_each env rest x)"

definition seal_snapshot :: "'n snap_env \<Rightarrow> snapshot_intent \<Rightarrow> 'n snap_world \<Rightarrow> (string + unit) \<times> 'n snap_world" where
  "seal_snapshot env i x =
     and_then (ensure_regular_nonempty env (snapshot_meta_path i) x, x) (\<lambda>_ x.
     and_then (seal_each env [(si_host_vmstate i, ''snapshot vmstate''), (si_host_mem i, ''snapshot memory''),
                              (snapshot_meta_path i, ''snapshot metadata'')] x) (\<lambda>_ x.
       inode_seal (snap_inodes env) (si_out_dir i) ''snapshot directory'' x))"

subsection \<open>The attestation\<close>

text \<open>Paths of the attestation index are relative to the state base.\<close>

definition attestation_path :: "'n snap_env \<Rightarrow> string \<Rightarrow> string + string" where
  "attestation_path env snapshot_id =
     (if \<not> is_valid_room_id snapshot_id then Inl ''invalid snapshot id for local attestation''
      else case snapshot_attestations_dir (xe_home env) (xe_config env) of
        None \<Rightarrow> Inl ''cannot resolve snapshot attestation directory''
      | Some _ \<Rightarrow> Inr (path_join SNAPSHOT_ATTESTATIONS_DIR (snapshot_id @ ''.json'')))"

definition read_attestation :: "'n snap_env \<Rightarrow> string \<Rightarrow> 'n snap_world \<Rightarrow> string + snapshot_attestation option" where
  "read_attestation env p x = (case artifact_meta env p x of
     Inl NotFound \<Rightarrow> Inr None
   | Inl e \<Rightarrow> Inl (xe_text env e)
   | Inr (regular, len) \<Rightarrow>
       if \<not> regular \<or> len = 0 then Inl (''snapshot attestation is empty, symlinked, or not regular: '' @ p)
       else (case read_to_string (xe_io env) (fst (path_key p)) (snd (path_key p)) (sw x) of
           Inl e \<Rightarrow> Inl (xe_text env e)
         | Inr bytes \<Rightarrow> (case xe_attestation_from_json env bytes of Inl e \<Rightarrow> Inl e | Inr a \<Rightarrow> Inr (Some a))))"

fun remove_attestation_temps ::
  "'n snap_env \<Rightarrow> string \<Rightarrow> bool \<Rightarrow> (io_error + string) list \<Rightarrow> 'n snap_world \<Rightarrow> (string + bool) \<times> 'n snap_world" where
  "remove_attestation_temps env snapshot_id removed [] x = (Inr removed, x)"
| "remove_attestation_temps env snapshot_id removed (Inl e # rest) x = (Inl (xe_text env e), x)"
| "remove_attestation_temps env snapshot_id removed (Inr name # rest) x =
     (if suffix ''.tmp'' name \<and> prefix (CHR ''.'' # snapshot_id @ ''.'') (take (length name - 4) name)
      then (case on_state (remove_file (xe_io env) SNAPSHOT_ATTESTATIONS_DIR name) x of
          (Inl e, x) \<Rightarrow> (Inl (''remove abandoned snapshot attestation temp '' @ path_join SNAPSHOT_ATTESTATIONS_DIR name @ '': ''
                              @ xe_text env e), x)
        | (Inr _, x) \<Rightarrow> remove_attestation_temps env snapshot_id True rest x)
      else remove_attestation_temps env snapshot_id removed rest x)"

definition remove_abandoned_attestation_temps ::
  "'n snap_env \<Rightarrow> string \<Rightarrow> 'n snap_world \<Rightarrow> (string + unit) \<times> 'n snap_world" where
  "remove_abandoned_attestation_temps env snapshot_id x = (case xe_attestation_entries env of
     Inl e \<Rightarrow> (Inl (xe_text env e), x)
   | Inr entries \<Rightarrow> and_then (remove_attestation_temps env snapshot_id False entries x) (\<lambda>removed x.
       if removed then pure_io env (sync_dir (xe_io env) SNAPSHOT_ATTESTATIONS_DIR) x else (Inr (), x)))"

definition attestation_disagrees :: "string \<Rightarrow> string" where
  "attestation_disagrees p = ''snapshot attestation '' @ p @ '' disagrees with its publication transaction''"

text \<open>The last step of the publication: the losing path still owns the temporary name and removes it.\<close>

definition remove_own_temp :: "'n snap_env \<Rightarrow> string \<Rightarrow> 'n snap_world \<Rightarrow> (string + unit) \<times> 'n snap_world" where
  "remove_own_temp env tmp x = (case on_state (remove_file (xe_io env) SNAPSHOT_ATTESTATIONS_DIR tmp) x of
     (Inr _, x) \<Rightarrow> pure_io env (sync_dir (xe_io env) SNAPSHOT_ATTESTATIONS_DIR) x
   | (Inl NotFound, x) \<Rightarrow> (Inr (), x)
   | (Inl e, x) \<Rightarrow> (Inl (xe_text env e), x))"

definition ensure_attestation_file ::
  "'n snap_env \<Rightarrow> string \<Rightarrow> snapshot_attestation \<Rightarrow> 'n snap_world \<Rightarrow> (string + unit) \<times> 'n snap_world" where
  "ensure_attestation_file env p expected x = (case read_attestation env p x of
     Inl e \<Rightarrow> (Inl e, x)
   | Inr (Some observed) \<Rightarrow> if observed \<noteq> expected then (Inl (attestation_disagrees p), x) else (Inr (), x)
   | Inr None \<Rightarrow>
       (let sid = sm_snapshot_id (at_meta expected); tmp = CHR ''.'' # sid @ ''.'' @ xe_fresh_id env @ ''.tmp''; io = xe_io env;
            d = SNAPSHOT_ATTESTATIONS_DIR in
        and_then (remove_abandoned_attestation_temps env sid x) (\<lambda>_ x.
        case xe_attestation_to_json env expected of
          Inl e \<Rightarrow> (Inl e, x)
        | Inr bytes \<Rightarrow>
            and_then (in_state env (\<lambda>w. and_then (create_new_file io d tmp w) (\<lambda>_ w. and_then (write_all io d tmp bytes w)
              (\<lambda>_ w. (check_fault io (SyncAll d tmp), w)))) x) (\<lambda>_ x.
            and_then (if files (sw x) (path_key p) \<noteq> None then
                (case read_attestation env p x of
                   Inl e \<Rightarrow> (Inl e, x)
                 | Inr None \<Rightarrow> (Inl (''snapshot attestation '' @ p @ '' disappeared during publication''), x)
                 | Inr (Some observed) \<Rightarrow> if observed \<noteq> expected
                     then (Inl (attestation_disagrees p), snd (on_state (remove_file io d tmp) x)) else (Inr (), x))
              else (case on_state (rename_file io d tmp (snd (path_key p))) x of
                  (Inl e, x) \<Rightarrow> (Inl (xe_text env e), snd (on_state (remove_file io d tmp) x))
                | (Inr _, x) \<Rightarrow> pure_io env (sync_dir io d) x)) (\<lambda>_ x.
              remove_own_temp env tmp x)))))"

definition open_attestation_index :: "'n snap_env \<Rightarrow> 'n snap_world \<Rightarrow> (string + unit) \<times> 'n snap_world" where
  "open_attestation_index env x = (let io = xe_io env; d = SNAPSHOT_ATTESTATIONS_DIR in
     case snapshot_attestations_dir (xe_home env) (xe_config env) of
       None \<Rightarrow> (Inl ''cannot resolve snapshot attestation directory'', x)
     | Some _ \<Rightarrow>
         and_then (in_state env (create_dir_all io d) x) (\<lambda>_ x.
         and_then (pure_io env (check_fault io (SymlinkMetadata d [])) x) (\<lambda>_ x.
         if xe_irregular env (d, []) then (Inl (''snapshot attestation index is not a real directory: '' @ d), x)
         else and_then (pure_io env (check_fault io (SetPermissions d [])) x) (\<lambda>_ x.
           pure_io env (sync_dir io []) x))))"

definition ensure_snapshot_attestation :: "'n snap_env \<Rightarrow> snapshot_intent \<Rightarrow> 'n snap_world \<Rightarrow> (string + unit) \<times> 'n snap_world" where
  "ensure_snapshot_attestation env i x = (case si_rootfs_source i of
     None \<Rightarrow> (Inr (), x)
   | Some rootfs_source \<Rightarrow>
       and_then (pure_io env (xe_identity env False (si_out_dir i)) x) (\<lambda>dir_source x.
       and_then (pure_io env (xe_identity env False (snapshot_meta_path i)) x) (\<lambda>meta_source x.
       and_then (open_attestation_index env x) (\<lambda>_ x.
       case attestation_path env (si_snapshot_id i) of
         Inl e \<Rightarrow> (Inl e, x)
       | Inr p \<Rightarrow>
           and_then (ensure_attestation_file env p
              \<lparr>at_schema_version = ATTESTATION_SCHEMA_VERSION, at_snapshot_dir = si_out_dir i, at_snapshot_dir_source = dir_source,
               at_snapshot_meta_source = meta_source, at_rootfs_source = rootfs_source, at_meta = si_meta i\<rparr> x) (\<lambda>_ x.
           and_then (inode_seal (snap_inodes env) p ''snapshot attestation'' x) (\<lambda>_ x.
             pure_io env (sync_dir (xe_io env) SNAPSHOT_ATTESTATIONS_DIR) x))))))"

definition stage_attestation_probe :: "'n snap_env \<Rightarrow> string \<Rightarrow> 'n snap_world \<Rightarrow> (string + unit) \<times> 'n snap_world" where
  "stage_attestation_probe env name x = (let io = xe_io env; d = SNAPSHOT_ATTESTATIONS_DIR; p = path_join d name in
     case artifact_meta env p x of
       Inr (regular, _) \<Rightarrow> if regular then (Inr (), x) else (Inl (''snapshot attestation preflight is not a regular file: '' @ p), x)
     | Inl NotFound \<Rightarrow> in_state env (\<lambda>w. and_then (create_new_file io d name w) (\<lambda>_ w.
           and_then (write_all io d name (''rooms snapshot attestation preflight'' @ [CHR 0x0A]) w) (\<lambda>_ w.
           and_then (check_fault io (SyncAll d name), w) (\<lambda>_ w. (sync_dir io d, w))))) x
     | Inl e \<Rightarrow> (Inl (xe_text env e), x))"

definition preflight_attestation_index :: "'n snap_env \<Rightarrow> snapshot_intent \<Rightarrow> 'n snap_world \<Rightarrow> (string + unit) \<times> 'n snap_world" where
  "preflight_attestation_index env i x = (if si_rootfs_source i = None then (Inr (), x) else
     (let name = CHR ''.'' # si_snapshot_id i @ ''.preflight''; p = path_join SNAPSHOT_ATTESTATIONS_DIR name in
      and_then (open_attestation_index env x) (\<lambda>_ x.
      case attestation_path env (si_snapshot_id i) of
        Inl e \<Rightarrow> (Inl e, x)
      | Inr final \<Rightarrow> (case artifact_meta env final x of
          Inr _ \<Rightarrow> (Inl (''snapshot attestation already exists for '' @ si_snapshot_id i), x)
        | Inl NotFound \<Rightarrow>
            and_then (stage_attestation_probe env name x) (\<lambda>_ x.
            and_then (preflight_output (snap_inodes env) p x) (\<lambda>_ x.
            and_then (in_state env (remove_file (xe_io env) SNAPSHOT_ATTESTATIONS_DIR name) x) (\<lambda>_ x.
              pure_io env (sync_dir (xe_io env) SNAPSHOT_ATTESTATIONS_DIR) x)))
        | Inl e \<Rightarrow> (Inl (xe_text env e), x)))))"

definition attestation_matches ::
  "snapshot_attestation \<Rightarrow> string \<Rightarrow> snapshot_meta \<Rightarrow> file_identity \<Rightarrow> file_identity \<Rightarrow> file_identity \<Rightarrow> bool" where
  "attestation_matches a snapshot_dir m dir_source meta_source rootfs_source =
     (if at_schema_version a \<noteq> ATTESTATION_SCHEMA_VERSION \<or> \<not> path_eq (at_snapshot_dir a) snapshot_dir \<or> at_meta a \<noteq> m then False
      else at_snapshot_dir_source a = dir_source \<and> at_snapshot_meta_source a = meta_source \<and> at_rootfs_source a = rootfs_source)"

definition attested_rootfs_hash ::
  "'n snap_env \<Rightarrow> string \<Rightarrow> snapshot_meta \<Rightarrow> file_identity \<Rightarrow> file_identity \<Rightarrow> file_identity \<Rightarrow> 'n snap_world
     \<Rightarrow> (string + string option) \<times> 'n snap_world" where
  "attested_rootfs_hash env snapshot_dir m dir_source meta_source rootfs_source x =
     (let d = SNAPSHOT_ATTESTATIONS_DIR; io = xe_io env in
      case snapshot_attestations_dir (xe_home env) (xe_config env) of
        None \<Rightarrow> (Inl ''cannot resolve snapshot attestation directory'', x)
      | Some _ \<Rightarrow>
          if \<not> dirs (sw x) d then (Inr None, x)
          else (case check_fault io (SymlinkMetadata d []) of
              Inl e \<Rightarrow> (Inl (xe_text env e), x)
            | Inr _ \<Rightarrow>
                if xe_irregular env (d, []) then (Inr None, x)
                else (case attestation_path env (sm_snapshot_id m) of
                    Inl e \<Rightarrow> (Inl e, x)
                  | Inr p \<Rightarrow> (case open_regular (snap_inodes env) p ''snapshot attestation'' x of
                      (Inl _, x) \<Rightarrow> (Inr None, x)
                    | (Inr _, x) \<Rightarrow> (case ie_metadata (snap_inodes env) p x of
                        Inl e \<Rightarrow> (Inl (xe_text env e), x)
                      | Inr (_, len) \<Rightarrow>
                          if MAX_ATTESTATION_BYTES < unat len then (Inr None, x)
                          else (case read_to_string io (fst (path_key p)) (snd (path_key p)) (sw x) of
                              Inl e \<Rightarrow> (Inl (xe_text env e), x)
                            | Inr bytes \<Rightarrow> and_then (require_file (snap_inodes env) p ''snapshot attestation'' x) (\<lambda>_ x.
                                case xe_attestation_from_json env bytes of
                                  Inl _ \<Rightarrow> (Inr None, x)
                                | Inr a \<Rightarrow> (Inr (if attestation_matches a snapshot_dir m dir_source meta_source rootfs_source
                                                then Some (sm_rootfs_hash (at_meta a)) else None), x))))))))"

subsection \<open>The transaction\<close>

record snapshot_result =
  sres_snapshot_id :: string
  sres_directory :: string
  sres_base_room :: string
  sres_slot :: u8
  sres_guest_ip :: ipv4
  sres_provenance :: provenance
  sres_toolstore_sha256 :: "string option"
  sres_base_repo_sha :: "string option"

definition result_from :: "snapshot_intent \<Rightarrow> string + snapshot_result" where
  "result_from i = (case sm_slot_index (si_meta i) of
     None \<Rightarrow> Inl ''snapshot metadata lost slot''
   | Some index \<Rightarrow> (case sm_guest_ip (si_meta i) of
       None \<Rightarrow> Inl ''snapshot metadata lost guest ip''
     | Some guest \<Rightarrow> Inr \<lparr>sres_snapshot_id = si_snapshot_id i, sres_directory = si_out_dir i, sres_base_room = si_base_room_id i,
         sres_slot = index, sres_guest_ip = guest, sres_provenance = sm_provenance (si_meta i),
         sres_toolstore_sha256 = sm_toolstore_sha256 (si_meta i), sres_base_repo_sha = sm_base_repo_sha (si_meta i)\<rparr>))"

text \<open>The four stages of \<open>drive\<close> before publication: each runs only from a boundary below its own.\<close>

definition drive_stage :: "'n snap_env \<Rightarrow> snapshot_intent \<Rightarrow> 'n snap_world \<Rightarrow> (string + snapshot_intent) \<times> 'n snap_world" where
  "drive_stage env i x = (if \<not> si_boundary i < BTargetsStaged then (Inr i, x) else
     and_then (preflight_output (snap_inodes env) (si_out_dir i) x) (\<lambda>_ x.
     and_then (preflight_attestation_index env i x) (\<lambda>_ x.
     and_then (stage_targets env i x) (\<lambda>_ x. advance env i BTargetsStaged x))))"

definition drive_collect :: "'n snap_env \<Rightarrow> snapshot_intent \<Rightarrow> 'n snap_world \<Rightarrow> (string + snapshot_intent) \<times> 'n snap_world" where
  "drive_collect env i x = (if si_boundary i < BCollected then execute_and_collect env i x else (Inr i, x))"

definition drive_reserve :: "'n snap_env \<Rightarrow> snapshot_intent \<Rightarrow> 'n snap_world \<Rightarrow> (string + snapshot_intent) \<times> 'n snap_world" where
  "drive_reserve env i x = (if si_boundary i < BReserved
     then and_then (reserve_slot env i x) (\<lambda>_ x. advance env i BReserved x) else (Inr i, x))"

definition drive_reap :: "'n snap_env \<Rightarrow> snapshot_intent \<Rightarrow> 'n snap_world \<Rightarrow> (string + snapshot_intent) \<times> 'n snap_world" where
  "drive_reap env i x = (if si_boundary i < BReaped
     then and_then (reap_base env i x) (\<lambda>_ x. advance env i BReaped x) else (Inr i, x))"

definition drive_publish :: "'n snap_env \<Rightarrow> snapshot_intent \<Rightarrow> 'n snap_world \<Rightarrow> (string + snapshot_result) \<times> 'n snap_world" where
  "drive_publish env i x =
     and_then (validate_collected env i x, x) (\<lambda>_ x.
     and_then (ensure_snapshot_metadata env i x) (\<lambda>_ x.
     and_then (seal_snapshot env i x) (\<lambda>_ x.
     and_then (ensure_snapshot_attestation env i x) (\<lambda>_ x.
     and_then (advance env i BPublished x) (\<lambda>i x.
     and_then (finish_snapshot_index env i x) (\<lambda>_ x. (result_from i, x)))))))"

definition drive :: "'n snap_env \<Rightarrow> snapshot_intent \<Rightarrow> 'n snap_world \<Rightarrow> (string + snapshot_result) \<times> 'n snap_world" where
  "drive env i x = (if si_boundary i = BPublished then
       and_then (ensure_snapshot_attestation env i x) (\<lambda>_ x.
       and_then (finish_snapshot_index env i x) (\<lambda>_ x. (result_from i, x)))
     else
       and_then (drive_stage env i x) (\<lambda>i x.
       and_then (drive_collect env i x) (\<lambda>i x.
       and_then (drive_reserve env i x) (\<lambda>i x.
       and_then (drive_reap env i x) (\<lambda>i x.
         drive_publish env i x)))))"

subsection \<open>Recovery and abort\<close>

definition artifact_nonempty :: "string \<Rightarrow> 'n snap_world \<Rightarrow> bool" where
  "artifact_nonempty p x = (case files (sw x) (path_key p) of None \<Rightarrow> False | Some c \<Rightarrow> c \<noteq> [])"

definition any_artifact_nonempty :: "snapshot_intent \<Rightarrow> 'n snap_world \<Rightarrow> bool" where
  "any_artifact_nonempty i x =
     list_ex (\<lambda>p. artifact_nonempty p x) [si_host_vmstate i, si_host_mem i, si_jail_vmstate i, si_jail_mem i]"

definition base_is_conclusively_dead :: "'n snap_env \<Rightarrow> snapshot_intent \<Rightarrow> 'n snap_world \<Rightarrow> string + bool" where
  "base_is_conclusively_dead env i x = (case room_dir (xe_home env) (xe_config env) (si_base_room_id i) of
     None \<Rightarrow> Inl ''cannot resolve room dir''
   | Some _ \<Rightarrow> (case room_read (xe_from_slice env) (xe_io env) (si_base_room_id i) (sw x) of
       Inl e \<Rightarrow> Inl (xe_text env e)
     | Inr None \<Rightarrow> Inr True
     | Inr (Some m) \<Rightarrow> Inr (probe ((xe_io env)\<lparr>proc_stat := re_stat (xe_reap env) (net_state (clone_side (host (sw x))))\<rparr>)
                              (rm_pid m) (rm_pid_starttime m) = Dead)))"

definition terminate_partial_base :: "'n snap_env \<Rightarrow> snapshot_intent \<Rightarrow> 'n snap_world \<Rightarrow> (string + unit) \<times> 'n snap_world" where
  "terminate_partial_base env i x = (case room_dir (xe_home env) (xe_config env) (si_base_room_id i) of
     None \<Rightarrow> (Inl ''cannot resolve room dir'', x)
   | Some _ \<Rightarrow> (case room_read (xe_from_slice env) (xe_io env) (si_base_room_id i) (sw x) of
       Inl e \<Rightarrow> (Inl (xe_text env e), x)
     | Inr None \<Rightarrow> (Inr (), x)
     | Inr (Some m) \<Rightarrow> terminate_base env ''partial snapshot base identity is indeterminate''
           ''partial snapshot base survived termination'' m x))"

definition record_abort :: "'n snap_env \<Rightarrow> snapshot_intent \<Rightarrow> 'n snap_world \<Rightarrow> (string + unit) \<times> 'n snap_world" where
  "record_abort env i x = (if si_aborted i then (Inr (), x) else write_snapshot_intent env (i\<lparr>si_aborted := True\<rparr>) x)"

definition release_aborted_slot :: "'n snap_env \<Rightarrow> snapshot_intent \<Rightarrow> u8 \<Rightarrow> 'n snap_world \<Rightarrow> (string + unit) \<times> 'n snap_world" where
  "release_aborted_slot env i index x =
     and_then (map_err (slot_error_text (xe_text env)) (on_state (slot_free (xe_io env) index (si_base_room_id i)) x)) (\<lambda>r x.
       if r = FreedAlreadyReassigned \<and> \<not> si_aborted i
       then (Inl (''slot '' @ show_u8 index @ '' changed owner during partial-snapshot abort''), x) else (Inr (), x))"

definition abort_reap :: "'n snap_env \<Rightarrow> snapshot_intent \<Rightarrow> u8 \<Rightarrow> 'n snap_world \<Rightarrow> (string + unit) \<times> 'n snap_world" where
  "abort_reap env i index x = (case room_dir (xe_home env) (xe_config env) (si_base_room_id i) of
     None \<Rightarrow> (Inl ''cannot resolve room dir'', x)
   | Some _ \<Rightarrow> (case jail_instance_dir (xe_home env) (xe_config env) (si_base_room_id i) of
       None \<Rightarrow> (Inl ''cannot resolve jail dir'', x)
     | Some jail_dir \<Rightarrow> (case jail_socket (xe_home env) (xe_config env) (si_base_room_id i) of
         None \<Rightarrow> (Inl ''cannot resolve socket'', x)
       | Some _ \<Rightarrow>
           and_then (reap_base_dirs env (si_base_room_id i) jail_dir (''tap-fc'' @ show_u8 index) x) (\<lambda>_ x.
           and_then (record_abort env i x) (\<lambda>_ x.
           case resolved_state_base (xe_home env) (xe_config env) of
             None \<Rightarrow> (Inl ''HOME unset; cannot locate rooms state'', x)
           | Some _ \<Rightarrow> release_aborted_slot env i index x)))))"

fun remove_outputs :: "'n snap_env \<Rightarrow> (string \<times> string) list \<Rightarrow> 'n snap_world \<Rightarrow> (string + unit) \<times> 'n snap_world" where
  "remove_outputs env [] x = (Inr (), x)"
| "remove_outputs env ((d, n) # rest) x = (case on_state (remove_file (xe_io env) d n) x of
     (Inr _, x) \<Rightarrow> remove_outputs env rest x
   | (Inl NotFound, x) \<Rightarrow> remove_outputs env rest x
   | (Inl e, x) \<Rightarrow> (Inl (xe_text env e), x))"

definition remove_partial_outputs :: "'n snap_env \<Rightarrow> snapshot_intent \<Rightarrow> 'n snap_world \<Rightarrow> (string + unit) \<times> 'n snap_world" where
  "remove_partial_outputs env i x =
     and_then (remove_outputs env
       [path_key (si_host_vmstate i), path_key (si_host_mem i), path_key (si_jail_vmstate i), path_key (si_jail_mem i),
        (fst (path_key (si_host_vmstate i)), CHR ''.'' # SNAPSHOT_VMSTATE_FILE @ ''.tmp''),
        (fst (path_key (si_host_mem i)), CHR ''.'' # SNAPSHOT_MEM_FILE @ ''.tmp'')] x) (\<lambda>_ x.
     and_then (pure_io env (sync_dir (xe_io env) (si_out_dir i)) x) (\<lambda>_ x.
     if path_parent (si_jail_vmstate i) = None then (Inl ''snapshot jail target has no parent'', x)
     else pure_io env (sync_dir (xe_io env) (fst (path_key (si_jail_vmstate i)))) x))"

definition abort_dead_partial :: "'n snap_env \<Rightarrow> snapshot_intent \<Rightarrow> 'n snap_world \<Rightarrow> (string + unit) \<times> 'n snap_world" where
  "abort_dead_partial env i x =
     (if BReserved \<le> si_boundary i then (Inl ''a reserved snapshot transaction is not abortable'', x)
      else if files (sw x) (path_key (snapshot_meta_path i)) \<noteq> None
      then (Inl ''refusing abort: snapshot metadata is already published'', x)
      else (case resolved_state_base (xe_home env) (xe_config env) of
          None \<Rightarrow> (Inl ''HOME unset; cannot locate rooms state'', x)
        | Some _ \<Rightarrow> (case sm_slot_index (si_meta i) of
            None \<Rightarrow> (Inl ''snapshot plan lost its slot'', x)
          | Some index \<Rightarrow> (case (if si_aborted i then Inr True else claimed_by (xe_io env) index (si_base_room_id i) (sw x)) of
              Inl e \<Rightarrow> (Inl (slot_error_text (xe_text env) e), x)
            | Inr exact \<Rightarrow>
                if \<not> exact then (Inl (''refusing abort: slot '' @ show_u8 index @ '' no longer holds the exact base claim''), x)
                else and_then (remove_partial_outputs env i x) (\<lambda>_ x.
                  and_then (abort_reap env i index x) (\<lambda>_ x. finish_snapshot_index env i x))))))"

record recovery_report =
  rrep_pending :: "pending_snapshot list"
  rrep_completed :: "snapshot_result option"

definition recover_intent :: "'n snap_env \<Rightarrow> snapshot_intent \<Rightarrow> 'n snap_world \<Rightarrow> (string + snapshot_result) \<times> 'n snap_world" where
  "recover_intent env i x =
     and_then (if si_boundary i = BPending then preflight_output (snap_inodes env) (si_out_dir i) x else (Inr (), x)) (\<lambda>_ x.
     and_then (if si_boundary i < BCollected then
         (let ambiguous_create = si_boundary i = BPaused \<and> any_artifact_nonempty i x in
          and_then (if ambiguous_create then terminate_partial_base env i x else (Inr (), x)) (\<lambda>_ x.
          and_then (if ambiguous_create then Inr True else base_is_conclusively_dead env i x, x) (\<lambda>dead x.
          if dead then and_then (abort_dead_partial env i x) (\<lambda>_ x.
            (Inl (''aborted unrecoverable partial snapshot '' @ si_snapshot_id i
                  @ ''; no complete artifact pair was durably recorded''), x))
          else (Inr (), x))))
       else (Inr (), x)) (\<lambda>_ x. drive env i x))"

definition recover :: "'n snap_env \<Rightarrow> string option \<Rightarrow> 'n snap_world \<Rightarrow> (string + recovery_report) \<times> 'n snap_world" where
  "recover env snapshot_id x = (case read_snapshot_intents (xe_index env) (xe_home env) (xe_config env) (xe_io env) (sw x) of
     Inl e \<Rightarrow> (Inl e, x)
   | Inr intents \<Rightarrow> (case snapshot_id of
       None \<Rightarrow> (Inr \<lparr>rrep_pending = map pending_summary intents, rrep_completed = None\<rparr>, x)
     | Some sid \<Rightarrow> (case find (\<lambda>i. si_snapshot_id i = sid) intents of
         None \<Rightarrow> (Inl (''no pending snapshot transaction '' @ sid), x)
       | Some i \<Rightarrow>
           and_then (on_state (acquire_lock (xe_index env) (xe_home env) (xe_config env) (xe_io env) (si_base_room_id i)) x) (\<lambda>_ x.
           and_then (recover_intent env i x) (\<lambda>completed x.
             (Inr \<lparr>rrep_pending = [], rrep_completed = Some completed\<rparr>, x))))))"

subsection \<open>Creation\<close>


fun any_vsock_entry :: "(io_error \<Rightarrow> string) \<Rightarrow> (io_error + string) list \<Rightarrow> string + bool" where
  "any_vsock_entry text [] = Inr False"
| "any_vsock_entry text (Inl e # rest) = Inl (text e)"
| "any_vsock_entry text (Inr name # rest) = (if prefix (UDS_NAME @ ''_'') name then Inr True else any_vsock_entry text rest)"

definition active_vsock :: "'n snap_env \<Rightarrow> string \<Rightarrow> string + bool" where
  "active_vsock env jail_root = (case xe_jail_entries env jail_root of
     Inl e \<Rightarrow> Inl (xe_text env e) | Inr entries \<Rightarrow> any_vsock_entry (xe_text env) entries)"

definition version_line :: "string \<Rightarrow> string" where
  "version_line stdout = (case find (\<lambda>l. l \<noteq> []) (map trim (lines stdout)) of None \<Rightarrow> [] | Some l \<Rightarrow> l)"

definition firecracker_version :: "'n snap_env \<Rightarrow> 'n snap_world \<Rightarrow> (string + string) \<times> 'n snap_world" where
  "firecracker_version env x =
     (case on_state (on_host (on_programs (re_run (xe_reap env) \<lparr>cmd_program = firecracker_binary (xe_config env), cmd_args = [''--version'']\<rparr>))) x of
        (Inl e, x) \<Rightarrow> (Inl (xe_text env e), x)
      | (Inr out, x) \<Rightarrow>
          if \<not> out_success out then (Inl (''firecracker --version failed: '' @ trim (out_stderr out)), x)
          else if version_line (out_stdout out) = [] then (Inl ''firecracker --version produced no output'', x)
          else (Inr (version_line (out_stdout out)), x))"

text \<open>One sealed inode hashed: its identity before and after the hash, and its flag again at the end.\<close>

definition hash_sealed_inode ::
  "'n snap_env \<Rightarrow> string \<Rightarrow> string \<Rightarrow> string \<Rightarrow> 'n snap_world \<Rightarrow> (string + file_identity \<times> string) \<times> 'n snap_world" where
  "hash_sealed_inode env p label what x =
     and_then (pure_io env (xe_identity env False p) x) (\<lambda>before x.
     and_then (pure_io env (xe_sha256 env p) x) (\<lambda>digest x.
     and_then (pure_io env (xe_identity env True p) x) (\<lambda>after x.
     if before \<noteq> after then (Inl (what @ '' '' @ p @ '' changed while being hashed''), x)
     else and_then (require_file (snap_inodes env) p label x) (\<lambda>_ x. (Inr (before, digest), x)))))"

definition hash_sealed_toolstore :: "'n snap_env \<Rightarrow> string \<Rightarrow> 'n snap_world \<Rightarrow> (string + string) \<times> 'n snap_world" where
  "hash_sealed_toolstore env p x =
     and_then (open_regular (snap_inodes env) p ''attached toolstore'' x) (\<lambda>_ x.
     and_then (hash_sealed_inode env p ''attached toolstore'' ''attached toolstore'' x) (\<lambda>(_, digest) x.
     case strip_prefix ''sha256:'' digest of
       None \<Rightarrow> (Inl ''unexpected toolstore digest format'', x) | Some hex \<Rightarrow> (Inr hex, x)))"

definition attached_toolstore ::
  "'n snap_env \<Rightarrow> string \<Rightarrow> string option \<Rightarrow> 'n snap_world \<Rightarrow> (string + string option) \<times> 'n snap_world" where
  "attached_toolstore env jail_root recorded x = (let p = path_join jail_root JAIL_TOOLSTORE in
     case artifact_meta env p x of
       Inl NotFound \<Rightarrow> (case recorded of
           None \<Rightarrow> (Inr None, x)
         | Some _ \<Rightarrow> (Inl ''base records an admitted toolstore but its jail has no toolstore attachment'', x))
     | Inl e \<Rightarrow> (Inl (xe_text env e), x)
     | Inr _ \<Rightarrow> (case recorded of
           None \<Rightarrow> (Inl (''base jail has a toolstore attachment its room record never admitted: '' @ p), x)
         | Some expected \<Rightarrow> and_then (hash_sealed_toolstore env p x) (\<lambda>digest x.
             if digest \<noteq> expected then (Inl (''attached toolstore '' @ p @ '' differs from the digest base-create admitted''), x)
             else (Inr (Some digest), x))))"

definition show_provenance :: "provenance option \<Rightarrow> string" where
  "show_provenance p = (case p of
     None \<Rightarrow> ''None'' | Some Provisioning \<Rightarrow> ''Some(Provisioning)'' | Some Neutral \<Rightarrow> ''Some(Neutral)'' | Some Tainted \<Rightarrow> ''Some(Tainted)'')"

fun snapshot_error_text :: "snapshot_error \<Rightarrow> string" where
  "snapshot_error_text (NotNeutral found) =
     ''refusing to snapshot a non-neutral room (provenance: '' @ show_provenance found @ ''); only a sealed neutral base may be frozen''"
| "snapshot_error_text ActiveVsock = ''refusing to snapshot with an active vsock connection; it would be severed on restore''"
| "snapshot_error_text MissingSlot = ''refusing to snapshot a base with no claimed slot; restore needs the frozen slot/IP''"

definition intent_of_plan :: "string \<Rightarrow> room_meta \<Rightarrow> string \<Rightarrow> file_identity \<Rightarrow> string \<Rightarrow> snapshot_plan \<Rightarrow> snapshot_intent" where
  "intent_of_plan jail_root base snapshot_id source out_dir pl =
     \<lparr>si_schema_version = SNAPSHOT_INTENT_SCHEMA_VERSION, si_snapshot_id = snapshot_id, si_base_room_id = rm_id base,
      si_meta = sp_meta pl, si_rootfs_source = Some source, si_out_dir = out_dir, si_host_vmstate = sp_host_vmstate pl,
      si_host_mem = sp_host_mem pl, si_jail_vmstate = path_join jail_root SNAPSHOT_VMSTATE_FILE,
      si_jail_mem = path_join jail_root SNAPSHOT_MEM_FILE, si_boundary = BPending, si_aborted = False\<rparr>"

definition build_intent ::
  "'n snap_env \<Rightarrow> room_meta \<Rightarrow> string \<Rightarrow> string \<Rightarrow> 'n snap_world \<Rightarrow> (string + snapshot_intent) \<times> 'n snap_world" where
  "build_intent env base snapshot_id out_dir x = (case jail_root_dir (xe_home env) (xe_config env) (rm_id base) of
     None \<Rightarrow> (Inl ''cannot resolve jail root'', x)
   | Some jail_root \<Rightarrow> (let rootfs = path_join jail_root JAIL_ROOTFS; label = ''snapshot backing image'' in
       and_then (open_regular (snap_inodes env) rootfs label x) (\<lambda>_ x.
       and_then (active_vsock env jail_root, x) (\<lambda>active x.
       and_then (hash_sealed_inode env rootfs label ''snapshot backing inode'' x) (\<lambda>(source, digest) x.
       and_then (attached_toolstore env jail_root (rm_toolstore_sha256 base) x) (\<lambda>toolstore x.
       and_then (firecracker_version env x) (\<lambda>version x.
       case plan base \<lparr>sr_out_dir = out_dir, sr_snapshot_id = snapshot_id, sr_fc_version = version, sr_rootfs_hash = digest,
                       sr_base_repo_sha = rm_base_repo_sha base, sr_toolstore_sha256 = toolstore, sr_active_vsock = active\<rparr> (xe_now env) of
         Inl e \<Rightarrow> (Inl (snapshot_error_text e), x)
       | Inr pl \<Rightarrow> (Inr (intent_of_plan jail_root base snapshot_id source out_dir pl), x))))))))"

definition validate_resume_output :: "'n snap_env \<Rightarrow> snapshot_intent \<Rightarrow> string option \<Rightarrow> string + unit" where
  "validate_resume_output env i explicit = (case explicit of
     None \<Rightarrow> Inr ()
   | Some p \<Rightarrow> (case canonical_candidate (xe_index env) p of
       Inl e \<Rightarrow> Inl e
     | Inr resolved \<Rightarrow> if path_eq resolved (si_out_dir i) then Inr ()
         else Inl (''base already has snapshot transaction '' @ si_snapshot_id i @ '' at '' @ si_out_dir i @ ''; requested output differs'')))"

definition acquire_output_lock :: "'n snap_env \<Rightarrow> string \<Rightarrow> 'n snap_world \<Rightarrow> (string + unit) \<times> 'n snap_world" where
  "acquire_output_lock env out_dir x =
     and_then (on_state (try_lock_named (xe_index env) (xe_home env) (xe_config env) (xe_io env) (''out-'' @ xe_out_key env out_dir)) x)
       (\<lambda>l x. case l of Some _ \<Rightarrow> (Inr (), x) | None \<Rightarrow> (Inl (''snapshot output '' @ out_dir @ '' is busy in another transaction''), x))"

definition ensure_output_unclaimed :: "'n snap_env \<Rightarrow> string \<Rightarrow> string \<Rightarrow> 'n snap_world \<Rightarrow> string + unit" where
  "ensure_output_unclaimed env out_dir base_id x =
     (case read_snapshot_intents (xe_index env) (xe_home env) (xe_config env) (xe_io env) (sw x) of
        Inl e \<Rightarrow> Inl e
      | Inr intents \<Rightarrow> (case find (\<lambda>i. path_eq (si_out_dir i) out_dir \<and> si_base_room_id i \<noteq> base_id) intents of
          None \<Rightarrow> Inr ()
        | Some i \<Rightarrow> Inl (''snapshot output '' @ out_dir @ '' is already claimed by transaction '' @ si_snapshot_id i
                        @ '' for base '' @ si_base_room_id i)))"

definition path_exists :: "string \<Rightarrow> 'n snap_world \<Rightarrow> bool" where
  "path_exists p x \<longleftrightarrow> dirs (sw x) p \<or> files (sw x) (path_key p) \<noteq> None"

text \<open>The missing ancestors of the output, innermost first.\<close>

fun missing_ancestors :: "path_component list \<Rightarrow> 'n snap_world \<Rightarrow> string + string list" where
  "missing_ancestors rev_cs x =
     (if path_exists (path_text (rev rev_cs)) x then Inr []
      else (case rev_cs of
          [] \<Rightarrow> Inl ''snapshot output has no existing ancestor''
        | RootDir # _ \<Rightarrow> Inl ''snapshot output has no existing ancestor''
        | _ # rest \<Rightarrow> map_sum id (\<lambda>ps. path_text (rev rev_cs) # ps) (missing_ancestors rest x)))"

declare missing_ancestors.simps [simp del]

fun create_each_dir :: "'n snap_env \<Rightarrow> string list \<Rightarrow> 'n snap_world \<Rightarrow> (string + unit) \<times> 'n snap_world" where
  "create_each_dir env [] x = (Inr (), x)"
| "create_each_dir env (d # ds) x = and_then (in_state env (create_dir_all (xe_io env) d) x) (\<lambda>_ x. create_each_dir env ds x)"

fun sync_parents :: "'n snap_env \<Rightarrow> string list \<Rightarrow> string + unit" where
  "sync_parents env [] = Inr ()"
| "sync_parents env (d # ds) = (case path_parent d of
     None \<Rightarrow> Inl ''snapshot output ancestor has no parent''
   | Some parent \<Rightarrow> (case sync_dir (xe_io env) (path_text parent) of Inl e \<Rightarrow> Inl (xe_text env e) | Inr _ \<Rightarrow> sync_parents env ds))"

definition create_output_tree :: "'n snap_env \<Rightarrow> string \<Rightarrow> 'n snap_world \<Rightarrow> (string + unit) \<times> 'n snap_world" where
  "create_output_tree env p x = (case missing_ancestors (rev (components p)) x of
     Inl e \<Rightarrow> (Inl e, x)
   | Inr missing \<Rightarrow>
       and_then (create_each_dir env (rev missing) x) (\<lambda>_ x.
       and_then (pure_io env (check_fault (xe_io env) (SetPermissions p [])) x) (\<lambda>_ x.
       and_then (sync_parents env missing, x) (\<lambda>_ x. pure_io env (sync_dir (xe_io env) p) x))))"

definition prepare_output :: "'n snap_env \<Rightarrow> string \<Rightarrow> 'n snap_world \<Rightarrow> (string + unit) \<times> 'n snap_world" where
  "prepare_output env p x = (if \<not> path_exists p x then create_output_tree env p x else
     and_then (pure_io env (check_fault (xe_io env) (SymlinkMetadata p [])) x) (\<lambda>_ x.
     if \<not> dirs (sw x) p \<or> xe_irregular env (path_key p) then (Inl (''snapshot output is not a directory: '' @ p), x)
     else and_then (pure_io env (xe_occupied env p) x) (\<lambda>occupied x.
       if occupied then (Inl (''refusing unrelated non-empty snapshot output '' @ p), x)
       else pure_io env (check_fault (xe_io env) (SetPermissions p [])) x)))"

definition create_fresh ::
  "'n snap_env \<Rightarrow> string \<Rightarrow> string option \<Rightarrow> string \<Rightarrow> 'n snap_world \<Rightarrow> (string + snapshot_result) \<times> 'n snap_world" where
  "create_fresh env base_id explicit state x = (case room_dir (xe_home env) (xe_config env) base_id of
     None \<Rightarrow> (Inl ''cannot resolve room directory'', x)
   | Some _ \<Rightarrow> (case room_read (xe_from_slice env) (xe_io env) base_id (sw x) of
       Inl e \<Rightarrow> (Inl (xe_text env e), x)
     | Inr None \<Rightarrow> (Inl (''no live room with id '' @ base_id), x)
     | Inr (Some base) \<Rightarrow>
         if \<not> is_snapshottable base
         then (Inl (''room '' @ base_id @ '' is not a sealed neutral base (provenance: '' @ show_provenance (rm_provenance base) @ '')''), x)
         else
           and_then (resolve_output (xe_index env) (xe_home env) (xe_config env) state base_id (xe_new_id env) explicit, x) (\<lambda>out_dir x.
           and_then (acquire_output_lock env out_dir x) (\<lambda>_ x.
           and_then (ensure_output_unclaimed env out_dir base_id x, x) (\<lambda>_ x.
           and_then (prepare_output env out_dir x) (\<lambda>_ x.
           and_then (pure_io env (ix_canonicalize (xe_index env) out_dir) x) (\<lambda>canonical x.
           if \<not> path_eq canonical out_dir then (Inl ''snapshot output changed while it was being prepared'', x)
           else
             and_then (build_intent env base (xe_new_id env) out_dir x) (\<lambda>i x.
             and_then (ensure_targets_absent env i x, x) (\<lambda>_ x.
             and_then (create_snapshot_intent env i x) (\<lambda>_ x. drive env i x))))))))))"

definition snapshot_create ::
  "'n snap_env \<Rightarrow> string \<Rightarrow> string option \<Rightarrow> 'n snap_world \<Rightarrow> (string + snapshot_result) \<times> 'n snap_world" where
  "snapshot_create env base_id explicit x =
     (if \<not> is_valid_room_id base_id then (Inl (''invalid room id: '' @ base_id), x)
      else (case resolved_state_base (xe_home env) (xe_config env) of
          None \<Rightarrow> (Inl ''HOME unset; cannot locate rooms state'', x)
        | Some state \<Rightarrow>
            and_then (on_state (acquire_lock (xe_index env) (xe_home env) (xe_config env) (xe_io env) base_id) x) (\<lambda>_ x.
            and_then (read_snapshot_intents (xe_index env) (xe_home env) (xe_config env) (xe_io env) (sw x), x) (\<lambda>intents x.
            case find (\<lambda>i. si_base_room_id i = base_id) intents of
              None \<Rightarrow> create_fresh env base_id explicit state x
            | Some i \<Rightarrow>
                and_then (validate_resume_output env i explicit, x) (\<lambda>_ x.
                if si_aborted i \<or> si_boundary i = BPaused \<and> any_artifact_nonempty i x
                then (Inl (''snapshot transaction '' @ si_snapshot_id i @ '' for base '' @ base_id @ '' needs recovery; run ''
                           @ CHR 0x60 # ''rooms snapshot-recover '' @ si_snapshot_id i @ [CHR 0x60]), x)
                else drive env i x)))))"

end
