(* ===== verification/Host_Frame.thy ===== *)
theory Host_Frame
  imports Teardown Step_Frame
begin

text \<open>
  The frame of an operation on the state base and the host: which files, directories and jails it may change. The file operations and
  the programs get their frames here; the snapshot transaction and the boot build theirs on them.
\<close>

named_theorems frames \<open>what the operations may change\<close>

text \<open>Files only at the keys \<open>K\<close>, directories only in \<open>D\<close>, jails only in \<open>J\<close>; programs and inode flags freely.\<close>

definition touched ::
  "(string \<times> string) set \<Rightarrow> string set \<Rightarrow> string set \<Rightarrow> 'n room_host world \<Rightarrow> 'n room_host world \<Rightarrow> bool" where
  "touched K D J w w' \<longleftrightarrow> (\<forall>p. p \<notin> K \<longrightarrow> files w' p = files w p) \<and> (\<forall>d. d \<notin> D \<longrightarrow> dirs w' d = dirs w d)
     \<and> (\<forall>j. j \<notin> J \<longrightarrow> jails (host w') j = jails (host w) j)"

interpretation world_frame: step_frame "touched K D J" for K D J
  by unfold_locales (auto simp: touched_def)

declare world_frame.refl [simp]

lemma touched_mono: "touched K D J w w' \<Longrightarrow> K \<subseteq> K' \<Longrightarrow> D \<subseteq> D' \<Longrightarrow> J \<subseteq> J' \<Longrightarrow> touched K' D' J' w w'"
  unfolding touched_def by blast

lemma primitive_frames [frames]:
  "d \<in> D \<Longrightarrow> touched K D J w (snd (create_dir_all io d w))"
  "(d, n) \<in> K \<Longrightarrow> touched K D J w (snd (open_truncate io d n w))"
  "(d, n) \<in> K \<Longrightarrow> touched K D J w (snd (create_new_file io d n w))"
  "(d, n) \<in> K \<Longrightarrow> touched K D J w (snd (write_all io d n c w))"
  "(d, n) \<in> K \<Longrightarrow> touched K D J w (snd (remove_file io d n w))"
  "(d, n) \<in> K \<Longrightarrow> (d, m) \<in> K \<Longrightarrow> touched K D J w (snd (rename_file io d n m w))"
  by (auto simp: touched_def fs_defs split: sum.splits option.splits)

lemma program_frames [frames]:
  "touched K D J w (snd (on_host (on_programs f) w))"
  by (auto simp: touched_def on_host_def on_programs_def split: prod.splits)

end
