(* ===== verification/Snapshot_Safety.thy ===== *)
theory Snapshot_Safety
  imports Snapshot_Exec Host_Frame
begin

text \<open>
  What the snapshot transaction (\<open>Snapshot_Exec\<close>) guarantees: the base is reaped only once the artifact pair is collected and the slot is
  reserved, a published snapshot is complete and sealed, an abort is recorded before its slot is released, and the durable intent only
  moves forward. The first section gives every operation its frame: the files, directories and jails it may change.
\<close>

subsection \<open>What a step may change\<close>

definition within :: "(string \<times> string) set \<Rightarrow> string set \<Rightarrow> string set \<Rightarrow> 'n snap_world \<Rightarrow> 'n snap_world \<Rightarrow> bool" where
  "within K D J x x' \<longleftrightarrow> touched K D J (sw x) (sw x')"

interpretation snap_frame: step_frame "within K D J" for K D J
  by unfold_locales (auto simp: within_def intro: world_frame.refl world_frame.trans)

declare snap_frame.refl [simp]

lemma within_mono: "within K D J w w' \<Longrightarrow> K \<subseteq> K' \<Longrightarrow> D \<subseteq> D' \<Longrightarrow> J \<subseteq> J' \<Longrightarrow> within K' D' J' w w'"
  unfolding within_def by (rule touched_mono)

lemma lift_frames [frames]:
  "touched K D J (sw x) (snd (f (sw x))) \<Longrightarrow> within K D J x (snd (on_state f x))"
  "touched K D J (sw x) (snd (g (sw x))) \<Longrightarrow> within K D J x (snd (in_state env g x))"
  "within K D J x (snd (pure_io env r x))"
  "within K D J x y \<Longrightarrow> within K D J x (snd (q, y))" "touched K D J w v \<Longrightarrow> touched K D J w (snd (s, v))"
  "within K D J x x" "touched K D J w w"
  by (auto simp: within_def on_state_def in_state_def pure_io_def map_err_def intro: world_frame.refl split: prod.splits sum.splits)

lemmas chain_frames = snap_frame.chain world_frame.chain snap_frame.mapped world_frame.mapped
lemmas case_frames = snap_frame.branch snap_frame.cond snap_frame.on_sum snap_frame.on_option snap_frame.on_pair
  world_frame.cond world_frame.on_sum world_frame.on_option world_frame.on_pair

lemma flag_frames [frames]:
  "within K D J x (snd (fo_get (linux_flag_ops env p) x))"
  "within K D J x (snd (fo_set (linux_flag_ops env p) b x))"
  "within K D J x (snd (fo_sync (linux_flag_ops env p) x))"
  by (auto simp: linux_flag_ops_def within_def intro: world_frame.refl)

lemma restore_baseline_frame [frames]: "within K D J x (snd (restore_baseline (linux_flag_ops env p) b d x))"
  by (auto simp: restore_baseline_def linux_flag_ops_def within_def Let_def intro: world_frame.refl split: prod.splits)

lemma inode_frames [frames]:
  "within K D J x (snd (require_file (snap_inodes env) p label x))"
  "within K D J x (snd (open_regular (snap_inodes env) p label x))"
  "within K D J x (snd (inode_seal (snap_inodes env) p label x))"
proof -
  have r: "within K D J x (snd (require_with_ops (linux_flag_ops env p) p label x))" for x
    unfolding require_with_ops_def inspect_flags_def
    by (intro chain_frames frames) (auto intro: frames)
  have s: "within K D J x (snd (seal_with_ops (linux_flag_ops env p) p label x))"
    unfolding seal_with_ops_def inspect_flags_def
    by (intro chain_frames frames r) (auto intro: chain_frames frames)
  show "within K D J x (snd (require_file (snap_inodes env) p label x))"
    "within K D J x (snd (open_regular (snap_inodes env) p label x))"
    "within K D J x (snd (inode_seal (snap_inodes env) p label x))"
    using r s by (auto simp: require_file_def open_regular_def inode_seal_def snap_inodes_def intro: snap_frame.refl split: sum.splits prod.splits)
qed

lemma preflight_frame [frames]: "within K D J x (snd (preflight_output (snap_inodes env) p x))"
proof -
  have w: "within K D J x (snd (case with_preflight_cleanup m (linux_flag_ops env p) b d x of (e, f) \<Rightarrow> (Inl e, f)))" for m b d x
    using restore_baseline_frame[of K D J x env p b d] by (auto simp: with_preflight_cleanup_def split: prod.splits sum.splits)
  have o: "within K D J x (snd (preflight_output_with_ops (linux_flag_ops env p) p x))"
    unfolding preflight_output_with_ops_def Let_def by (intro snap_frame.chain snap_frame.mapped w frames snap_frame.branch snap_frame.cond)
  show ?thesis using o by (auto simp: preflight_output_def snap_inodes_def split: sum.splits)
qed

lemma write_intent_frame [frames]:
  assumes "\<And>n. (SNAPSHOT_INTENTS_DIR, n) \<in> K"
  shows "within K D J x (snd (write_snapshot_intent env i x))" "within K D J x (snd (advance env i b x))"
    "within K D J x (snd (finish_snapshot_index env i x))"
proof -
  show w: "within K D J x (snd (write_snapshot_intent env i x))" for i
    unfolding write_snapshot_intent_def Let_def by (intro case_frames chain_frames frames assms)
  show "within K D J x (snd (advance env i b x))" unfolding advance_def by (intro chain_frames frames w)
  show "within K D J x (snd (finish_snapshot_index env i x))" unfolding finish_snapshot_index_def
    by (intro frames) (auto simp: touched_def assms remove_file_def split: prod.splits sum.splits io_error.splits option.splits)
qed

lemma index_frame [frames]: "SNAPSHOT_ATTESTATIONS_DIR \<in> D \<Longrightarrow> within K D J x (snd (open_attestation_index env x))"
  unfolding open_attestation_index_def Let_def by (intro case_frames chain_frames frames)

lemma error_frame [frames]:
  "(e = NotFound \<Longrightarrow> within K D J x (snd f)) \<Longrightarrow> within K D J x (snd g1) \<Longrightarrow> (\<And>m. within K D J x (snd (g2 m))) \<Longrightarrow>
   (\<And>m. within K D J x (snd (g3 m))) \<Longrightarrow> (\<And>m. within K D J x (snd (g4 m))) \<Longrightarrow> within K D J x (snd (case_io_error f g1 g2 g3 g4 e))"
  by (cases e) auto

definition attestation_keys :: "(string \<times> string) set" where "attestation_keys = {SNAPSHOT_ATTESTATIONS_DIR} \<times> UNIV"

lemma attestation_keysI [frames]: "(SNAPSHOT_ATTESTATIONS_DIR, n) \<in> attestation_keys" by (simp add: attestation_keys_def)

lemma path_key_join: "slash \<notin> set n \<Longrightarrow> d \<noteq> [] \<Longrightarrow> last d \<noteq> slash \<Longrightarrow> path_key (path_join d n) = (d, n)"
  by (cases n) (auto simp: path_key_def path_join_def has_root_def rsplit_once_def rfind_char_append)

lemma id_no_slash: "is_valid_room_id s \<Longrightarrow> slash \<notin> set s"
  by (auto simp: is_valid_room_id_def list_all_iff slash_def is_ascii_digit_def is_ascii_lowercase_def)

lemma attestation_name: "attestation_path env sid = Inr p \<Longrightarrow> \<exists>n. path_key p = (SNAPSHOT_ATTESTATIONS_DIR, n)"
proof -
  assume a: "attestation_path env sid = Inr p"
  then have "is_valid_room_id sid" "p = path_join SNAPSHOT_ATTESTATIONS_DIR (sid @ ''.json'')"
    by (auto simp: attestation_path_def split: if_splits option.splits)
  moreover have "path_key (path_join SNAPSHOT_ATTESTATIONS_DIR (sid @ ''.json'')) = (SNAPSHOT_ATTESTATIONS_DIR, sid @ ''.json'')"
    using id_no_slash[OF calculation(1)] by (intro path_key_join) (auto simp: SNAPSHOT_ATTESTATIONS_DIR_def slash_def)
  ultimately show ?thesis by simp
qed

lemma temps_frame [frames]:
  "within attestation_keys D J x (snd (remove_attestation_temps env sid removed es x))"
proof (induction env sid removed es x rule: remove_attestation_temps.induct)
  case (3 env sid removed name rest x)
  then show ?case unfolding remove_attestation_temps.simps by (intro snap_frame.cond snap_frame.branch frames) auto
qed simp_all

lemma attestation_file_frame [frames]:
  assumes "attestation_path env sid = Inr p"
  shows "within attestation_keys D J x (snd (ensure_attestation_file env p a x))"
proof -
  obtain n where n: "path_key p = (SNAPSHOT_ATTESTATIONS_DIR, n)" using attestation_name[OF assms] by blast
  have r: "within attestation_keys D J x (snd (remove_abandoned_attestation_temps env sid x))" for sid x
    unfolding remove_abandoned_attestation_temps_def by (intro case_frames chain_frames frames)
  have o: "within attestation_keys D J x (snd (remove_own_temp env tmp x))" for tmp x
    unfolding remove_own_temp_def by (intro case_frames chain_frames frames)
  show ?thesis unfolding ensure_attestation_file_def Let_def n snd_conv
    by (intro case_frames chain_frames frames r o)
qed

lemma attestation_frame [frames]:
  "SNAPSHOT_ATTESTATIONS_DIR \<in> D \<Longrightarrow> within attestation_keys D J x (snd (ensure_snapshot_attestation env i x))"
  "SNAPSHOT_ATTESTATIONS_DIR \<in> D \<Longrightarrow> within attestation_keys D J x (snd (preflight_attestation_index env i x))"
  unfolding ensure_snapshot_attestation_def preflight_attestation_index_def stage_attestation_probe_def Let_def
  by (intro case_frames chain_frames frames; assumption)+

subsection \<open>The stages\<close>

text \<open>Where \<open>build_intent\<close> places a transaction: its artifacts in the output directory and in the root of the base's jail.\<close>

definition transaction_placed :: "'n snap_env \<Rightarrow> snapshot_intent \<Rightarrow> string \<Rightarrow> bool" where
  "transaction_placed env i jail_dir \<longleftrightarrow>
     is_valid_room_id (si_base_room_id i) \<and> is_valid_room_id (si_snapshot_id i)
     \<and> jail_instance_dir (xe_home env) (xe_config env) (si_base_room_id i) = Some jail_dir
     \<and> has_root (si_out_dir i) \<and> last (si_out_dir i) \<noteq> slash \<and> has_root jail_dir \<and> si_out_dir i \<noteq> path_join jail_dir ''root''
     \<and> si_host_vmstate i = path_join (si_out_dir i) SNAPSHOT_VMSTATE_FILE \<and> si_host_mem i = path_join (si_out_dir i) SNAPSHOT_MEM_FILE
     \<and> si_jail_vmstate i = path_join (path_join jail_dir ''root'') SNAPSHOT_VMSTATE_FILE
     \<and> si_jail_mem i = path_join (path_join jail_dir ''root'') SNAPSHOT_MEM_FILE"

lemma placed_boundary [simp]: "transaction_placed env (i\<lparr>si_boundary := b\<rparr>) j = transaction_placed env i j"
  "transaction_placed env (i\<lparr>si_aborted := a\<rparr>) j = transaction_placed env i j"
  by (simp_all add: transaction_placed_def)

lemma placed_keys:
  assumes "transaction_placed env i j"
  shows "path_key (si_host_vmstate i) = (si_out_dir i, SNAPSHOT_VMSTATE_FILE)" "path_key (si_host_mem i) = (si_out_dir i, SNAPSHOT_MEM_FILE)"
    "path_key (si_jail_vmstate i) = (path_join j ''root'', SNAPSHOT_VMSTATE_FILE)" "path_key (si_jail_mem i) = (path_join j ''root'', SNAPSHOT_MEM_FILE)"
    "path_key (snapshot_meta_path i) = (si_out_dir i, SNAPSHOT_META_FILE)"
proof -
  have o: "si_out_dir i \<noteq> []" "last (si_out_dir i) \<noteq> slash" using assms by (auto simp: transaction_placed_def has_root_def)
  have r: "path_join j ''root'' \<noteq> []" "last (path_join j ''root'') \<noteq> slash" by (auto simp: path_join_def has_root_def slash_def)
  show "path_key (si_host_vmstate i) = (si_out_dir i, SNAPSHOT_VMSTATE_FILE)" "path_key (si_host_mem i) = (si_out_dir i, SNAPSHOT_MEM_FILE)"
    "path_key (si_jail_vmstate i) = (path_join j ''root'', SNAPSHOT_VMSTATE_FILE)" "path_key (si_jail_mem i) = (path_join j ''root'', SNAPSHOT_MEM_FILE)"
    "path_key (snapshot_meta_path i) = (si_out_dir i, SNAPSHOT_META_FILE)"
    using assms o r
    by (auto simp: transaction_placed_def snapshot_meta_path_def SNAPSHOT_VMSTATE_FILE_def SNAPSHOT_MEM_FILE_def SNAPSHOT_META_FILE_def slash_def intro!: path_key_join)
qed

text \<open>The directories a transaction works in are different.\<close>

lemma placed_dirs:
  assumes "transaction_placed env i j"
  shows "distinct [si_base_room_id i, si_out_dir i, path_join j ''root'', SLOTS_DIR, SNAPSHOT_INTENTS_DIR, SNAPSHOT_ATTESTATIONS_DIR]"
proof -
  have b: "\<not> has_root (si_base_room_id i)" "length (si_base_room_id i) = 26"
  proof -
    have v: "is_valid_room_id (si_base_room_id i)" using assms by (simp add: transaction_placed_def)
    show "\<not> has_root (si_base_room_id i)" using id_no_slash[OF v] by (auto simp: has_root_def split: list.splits)
    show "length (si_base_room_id i) = 26" using v by (simp add: is_valid_room_id_def)
  qed
  have r: "has_root (path_join j ''root'')" "has_root (si_out_dir i)" "si_out_dir i \<noteq> path_join j ''root''"
    using assms by (cases j; auto simp: transaction_placed_def has_root_def path_join_def slash_def)+
  have n: "\<not> has_root SLOTS_DIR" "\<not> has_root SNAPSHOT_INTENTS_DIR" "\<not> has_root SNAPSHOT_ATTESTATIONS_DIR"
    "length SLOTS_DIR = 5" "length SNAPSHOT_INTENTS_DIR = 16" "length SNAPSHOT_ATTESTATIONS_DIR = 21"
    by (simp_all add: has_root_def SLOTS_DIR_def SNAPSHOT_INTENTS_DIR_def SNAPSHOT_ATTESTATIONS_DIR_def slash_def)
  show ?thesis using b r n by auto
qed

definition dir_keys :: "string set \<Rightarrow> (string \<times> string) set" where "dir_keys ds = ds \<times> UNIV"

lemma dir_keysI [frames]: "d \<in> ds \<Longrightarrow> (d, n) \<in> dir_keys ds" by (simp add: dir_keys_def)

lemma stage_each_frame: "(\<And>p. p \<in> set ps \<Longrightarrow> path_key p \<in> K) \<Longrightarrow> within K D J x (snd (stage_each env ps x))"
proof (induction ps arbitrary: x)
  case (Cons p ps)
  have k: "(fst (path_key p), snd (path_key p)) \<in> K" using Cons.prems by simp
  show ?case unfolding stage_each.simps using Cons k
    by (intro case_frames chain_frames frames) auto
qed simp

lemma copy_private_frame:
  assumes "path_key target = (d, n)" and "\<And>m. (d, m) \<in> K"
  shows "within K D J x (snd (copy_private env source target x))"
  unfolding copy_private_def assms(1) Let_def prod.case by (intro case_frames chain_frames frames assms(2))

lemma put_artifact_frame: "path_key p \<in> K \<Longrightarrow> within K D J x (put_artifact p c x)"
  by (auto simp: put_artifact_def within_def touched_def split: option.splits)

lemma api_frame [frames]: "within K D J x (snd (call_api env s v e b x))"
  unfolding call_api_def by (intro frames)

lemma execute_create_frame:
  assumes "path_key (si_jail_vmstate i) \<in> K" "path_key (si_jail_mem i) \<in> K"
  shows "within K D J x (snd (execute_create env socket i x))"
proof -
  have a: "within K D J x (snd (execute_op env socket op x))" for op by (auto simp: execute_op_def intro: frames split: prod.splits)
  show ?thesis unfolding execute_create_def
    using a[of "snd snapshot_ops"] snap_frame.trans[OF _ snap_frame.trans[OF put_artifact_frame[OF assms(1)] put_artifact_frame[OF assms(2)]]]
    by (auto split: prod.splits)
qed

lemma stage_frame:
  assumes "transaction_placed env i j"
  shows "within (dir_keys {path_join j ''root'', SNAPSHOT_INTENTS_DIR, SNAPSHOT_ATTESTATIONS_DIR}) {SNAPSHOT_ATTESTATIONS_DIR} {} x (snd (drive_stage env i x))"
proof -
  have s: "within (dir_keys {path_join j ''root'', SNAPSHOT_INTENTS_DIR, SNAPSHOT_ATTESTATIONS_DIR}) D J y (snd (stage_targets env i y))" for D J y
    unfolding stage_targets_def using placed_keys[OF assms] by (intro case_frames chain_frames frames stage_each_frame) (auto simp: dir_keys_def)
  have a: "within (dir_keys {path_join j ''root'', SNAPSHOT_INTENTS_DIR, SNAPSHOT_ATTESTATIONS_DIR}) {SNAPSHOT_ATTESTATIONS_DIR} J y (snd (preflight_attestation_index env i y))" for J y
    by (rule within_mono[OF attestation_frame(2)]) (auto simp: dir_keys_def attestation_keys_def)
  show ?thesis unfolding drive_stage_def by (intro snap_frame.cond chain_frames s a frames) simp_all
qed

text \<open>The intents of one transaction differ in their boundary only.\<close>

definition same_transaction :: "snapshot_intent \<Rightarrow> snapshot_intent \<Rightarrow> bool" where
  "same_transaction i i' \<longleftrightarrow> i' = i\<lparr>si_boundary := si_boundary i'\<rparr>"

lemma same_transaction_refl [simp]: "same_transaction i i" by (simp add: same_transaction_def)

lemma same_transaction_trans: "same_transaction i j \<Longrightarrow> same_transaction j k \<Longrightarrow> same_transaction i k"
  unfolding same_transaction_def by (metis snapshot_intent.surjective snapshot_intent.update_convs(11))

lemma same_transaction_fields:
  assumes "same_transaction i i'"
  shows "si_out_dir i' = si_out_dir i" "si_base_room_id i' = si_base_room_id i" "si_snapshot_id i' = si_snapshot_id i" "si_meta i' = si_meta i"
    "si_host_vmstate i' = si_host_vmstate i" "si_host_mem i' = si_host_mem i" "si_rootfs_source i' = si_rootfs_source i" "si_aborted i' = si_aborted i"
    "si_jail_vmstate i' = si_jail_vmstate i" "si_jail_mem i' = si_jail_mem i"
    "transaction_placed env i' j = transaction_placed env i j" "snapshot_meta_path i' = snapshot_meta_path i"
proof -
  obtain b where i: "i' = i\<lparr>si_boundary := b\<rparr>" using assms unfolding same_transaction_def by blast
  show "si_out_dir i' = si_out_dir i" "si_base_room_id i' = si_base_room_id i" "si_snapshot_id i' = si_snapshot_id i" "si_meta i' = si_meta i"
    "si_host_vmstate i' = si_host_vmstate i" "si_host_mem i' = si_host_mem i" "si_rootfs_source i' = si_rootfs_source i" "si_aborted i' = si_aborted i"
    "si_jail_vmstate i' = si_jail_vmstate i" "si_jail_mem i' = si_jail_mem i"
    "transaction_placed env i' j = transaction_placed env i j" "snapshot_meta_path i' = snapshot_meta_path i"
    by (simp_all add: i snapshot_meta_path_def)
qed

lemma advance_same: "advance env i b x = (Inr i', y) \<Longrightarrow> same_transaction i i' \<and> si_boundary i' = b"
  by (auto simp: advance_def chain_simps same_transaction_def)

lemma collect_frame:
  assumes "transaction_placed env i j"
  shows "within (dir_keys {path_join j ''root'', SNAPSHOT_INTENTS_DIR, si_out_dir i}) D J x (snd (drive_collect env i x))"
proof -
  let ?K = "dir_keys {path_join j ''root'', SNAPSHOT_INTENTS_DIR, si_out_dir i}"
  have o: "within ?K D J y (snd (execute_op env s op y))" for s op y by (auto simp: execute_op_def intro: frames split: prod.splits)
  have r: "within ?K D J y (snd (resume_vm env s y))" for s y by (simp add: resume_vm_def frames)
  have e: "within ?K D J y (snd (execute_create env s i' y))" and c: "within ?K D J y (snd (collect_pair env i' y))"
    if "same_transaction i i'" for s i' y
  proof -
    have p: "transaction_placed env i' j" using assms by (simp add: same_transaction_fields[OF that])
    show "within ?K D J y (snd (execute_create env s i' y))"
      by (rule execute_create_frame) (simp_all add: placed_keys[OF p] dir_keys_def)
    show "within ?K D J y (snd (collect_pair env i' y))"
      unfolding collect_pair_def using placed_keys[OF p] same_transaction_fields[OF that]
      by (intro case_frames chain_frames frames copy_private_frame) (auto simp: dir_keys_def)
  qed
  have s: "same_transaction i i'" if "(if b then (case r of (Inl e, x) \<Rightarrow> (Inl e, f x) | (Inr u, x) \<Rightarrow> advance env i q x) else (Inr i, x)) = (Inr i', z)"
    for b r f q i' z x
    using that by (auto split: if_splits prod.splits sum.splits dest: advance_same)
  show ?thesis unfolding drive_collect_def execute_and_collect_def
    by (intro case_frames chain_frames o r e c frames) (auto intro: frames dest: s simp: dir_keys_def)
qed

lemma reserve_frame:
  "within (dir_keys {SLOTS_DIR, SNAPSHOT_INTENTS_DIR}) D J x (snd (drive_reserve env i x))"
proof -
  let ?K = "dir_keys {SLOTS_DIR, SNAPSHOT_INTENTS_DIR}"
  have w: "touched ?K D J w (snd (reserve io index s r w))" for io index s r w
    unfolding reserve_def rewrite_slot_atomic_def rewrite_atomic_def slot_sync_dir_def
    by (intro case_frames chain_frames frames) (auto simp: dir_keys_def)
  have r: "within ?K D J y (snd (reserve_slot env i y))" for y
    unfolding reserve_slot_def by (intro case_frames chain_frames frames w)
  show ?thesis unfolding drive_reserve_def by (intro case_frames chain_frames r frames) (auto simp: dir_keys_def)
qed

lemma reserve_slot_reserves:
  assumes "reserve_slot env i x = (Inr u, y)" and "sm_slot_index (si_meta i) = Some s" and "is_valid_room_id (si_snapshot_id i)"
  shows "slot_state (sw y) s = Some (TokReserved (si_snapshot_id i))"
proof -
  let ?s = "si_snapshot_id i"
  have id: "is_id_shaped ?s" using assms(3) by (simp add: valid_room_id)
  obtain r where r: "reserve (xe_io env) s ?s (si_base_room_id i) (sw x) = (Inr r, sw y)" "r \<noteq> ReserveNotOwned"
    using assms(1,2) by (auto simp: reserve_slot_def chain_simps on_state_def split: option.splits prod.splits if_splits)
  then consider c where "locked_slot (xe_io env) s (sw x) = Inr (Some c)" "parse_token c = TokReserved ?s" "sw y = sw x"
    | "rewrite_slot_atomic (xe_io env) s (reservation_token ?s) (sw x) = (Inr (), sw y)"
    by (auto simp: reserve_def chain_simps split: sum.splits option.splits if_splits)
  then show ?thesis
  proof cases
    case 1
    then show ?thesis using locked_slot_state(1)[OF 1(1)] by simp
  next
    case 2
    then show ?thesis using rewrite_slot_ok[OF 2] parse_reservation_token[OF id] by simp
  qed
qed

lemma terminate_frame [frames]: "within K D J x (snd (terminate_base env a b m x))"
proof (cases "pinned_process_identity m")
  case (Inr q)
  obtain pid st where q: "q = (pid, st)" by fastforce
  have "within K D J x (snd (on_state (on_host (on_programs (terminate_by_identity (xe_reap env) pid (Some st) (cleanup_grace (xe_config env))))) x))"
    by (intro frames)
  then show ?thesis unfolding terminate_base_def Inr q by (auto split: prod.splits kill_signal_outcome.splits)
qed (simp add: terminate_base_def)

lemma reap_frame:
  assumes "transaction_placed env i j"
  shows "within (dir_keys {si_base_room_id i, path_join j ''root'', SNAPSHOT_INTENTS_DIR}) {si_base_room_id i} {j} x (snd (drive_reap env i x))"
proof -
  let ?b = "si_base_room_id i" and ?root = "path_join j ''root''"
  let ?K = "dir_keys {?b, ?root, SNAPSHOT_INTENTS_DIR}" and ?D = "{?b}" and ?J = "{j}"
  have j: "jail_instance_dir (xe_home env) (xe_config env) ?b = Some j" using assms by (simp add: transaction_placed_def)
  have room: "touched ?K ?D ?J w (snd (reap_room_only (xe_reap env) ?b j j c w))" for c w
    using reap_room_only_result[of "xe_reap env" ?b j c w "fst (reap_room_only (xe_reap env) ?b j j c w)" "snd (reap_room_only (xe_reap env) ?b j j c w)"]
    by (auto simp: touched_def dir_keys_def)
  have purge: "within ?K ?D ?J y (purge_jail j ?root y)" for y :: "'a snap_world"
    by (auto simp: purge_jail_def within_def touched_def dir_keys_def)
  have r: "touched ?K ?D ?J w (snd (reap_reserved_base (xe_reap env) ?b j j tap c w))" for tap c w
    unfolding reap_reserved_base_def by (intro chain_frames room frames)
  have dirs: "within ?K ?D ?J y (snd (reap_base_dirs env ?b j tap y))" for tap y
    unfolding reap_base_dirs_def by (intro snap_frame.after chain_frames frames r purge)
  have "within ?K ?D ?J y (snd (reap_base env i y))" for y
    unfolding reap_base_def j option.case by (intro case_frames chain_frames frames dirs)
  then show ?thesis unfolding drive_reap_def by (intro case_frames chain_frames frames) (auto simp: dir_keys_def)
qed

definition publish_keys :: "snapshot_intent \<Rightarrow> (string \<times> string) set" where
  "publish_keys i = dir_keys {SNAPSHOT_INTENTS_DIR, SNAPSHOT_ATTESTATIONS_DIR} \<union> {(si_out_dir i, SNAPSHOT_META_FILE), (si_out_dir i, SNAPSHOT_META_TMP)}"

lemma seal_each_frame [frames]: "within K D J x (snd (seal_each env ps x))"
proof (induction ps arbitrary: x)
  case (Cons p ps)
  obtain q label where p: "p = (q, label)" by fastforce
  show ?case unfolding p seal_each.simps by (intro chain_frames frames Cons)
qed simp

lemma seal_snapshot_frame [frames]: "within K D J x (snd (seal_snapshot env i x))"
  unfolding seal_snapshot_def by (intro chain_frames frames)

lemma metadata_file_frame:
  assumes "transaction_placed env i j"
  shows "within {(si_out_dir i, SNAPSHOT_META_FILE), (si_out_dir i, SNAPSHOT_META_TMP)} D J x (snd (ensure_snapshot_metadata env i x))"
  unfolding ensure_snapshot_metadata_def placed_keys[OF assms] Let_def prod.case write_meta_atomic_def fst_conv snd_conv option.case
  by (intro case_frames chain_frames frames) simp_all

lemma metadata_frame:
  assumes "transaction_placed env i j"
  shows "within (publish_keys i) D J x (snd (ensure_snapshot_metadata env i x))"
  by (rule within_mono[OF metadata_file_frame[OF assms]]) (auto simp: publish_keys_def)

lemma publish_frame:
  assumes "transaction_placed env i j"
  shows "within (publish_keys i) {SNAPSHOT_ATTESTATIONS_DIR} J x (snd (drive_publish env i x))"
proof -
  have a: "within (publish_keys i) {SNAPSHOT_ATTESTATIONS_DIR} J y (snd (ensure_snapshot_attestation env i y))" for y
    by (rule within_mono[OF attestation_frame(1)]) (auto simp: publish_keys_def dir_keys_def attestation_keys_def)
  show ?thesis unfolding drive_publish_def
    by (intro chain_frames frames metadata_frame[OF assms] a) (auto simp: publish_keys_def dir_keys_def)
qed

subsection \<open>The order of the stages\<close>

definition collected :: "snapshot_intent \<Rightarrow> 'n snap_world \<Rightarrow> bool" where
  "collected i x \<longleftrightarrow> artifact_nonempty (si_host_vmstate i) x \<and> artifact_nonempty (si_host_mem i) x"

definition immutable :: "'n snap_world \<Rightarrow> string \<Rightarrow> bool" where
  "immutable x p \<longleftrightarrow> sw_flags x p AND IMMUTABLE_FLAG \<noteq> 0"

definition sealed_set :: "snapshot_intent \<Rightarrow> 'n snap_world \<Rightarrow> bool" where
  "sealed_set i x \<longleftrightarrow> list_all (immutable x) [si_host_vmstate i, si_host_mem i, snapshot_meta_path i, si_out_dir i]"

definition metadata_recorded :: "'n snap_env \<Rightarrow> snapshot_intent \<Rightarrow> 'n snap_world \<Rightarrow> bool" where
  "metadata_recorded env i x \<longleftrightarrow> (case files (sw x) (path_key (snapshot_meta_path i)) of
     None \<Rightarrow> False | Some t \<Rightarrow> xe_meta_from_json env t = Inr (si_meta i))"

text \<open>What the recorded boundary of a transaction says of the world: the pair is collected, the slot reserved, the base gone, the set
  published. Below \<open>BCollected\<close> it says nothing.\<close>

definition boundary_true :: "'n snap_env \<Rightarrow> u8 \<Rightarrow> string \<Rightarrow> snapshot_intent \<Rightarrow> 'n snap_world \<Rightarrow> bool" where
  "boundary_true env s j i x \<longleftrightarrow>
     (BCollected \<le> si_boundary i \<longrightarrow> collected i x)
   \<and> (BReserved \<le> si_boundary i \<longrightarrow> slot_state (sw x) s = Some (TokReserved (si_snapshot_id i)))
   \<and> (BReaped \<le> si_boundary i \<longrightarrow> \<not> dirs (sw x) (si_base_room_id i) \<and> jails (host (sw x)) j = None)
   \<and> (BPublished \<le> si_boundary i \<longrightarrow> sealed_set i x \<and> metadata_recorded env i x)"

lemma regular_nonempty: "ensure_regular_nonempty env p x = Inr u \<Longrightarrow> artifact_nonempty p x \<and> \<not> xe_irregular env (path_key p)"
  by (auto simp: ensure_regular_nonempty_def artifact_meta_def artifact_nonempty_def split: sum.splits option.splits if_splits)

lemma validated_collected:
  "validate_collected env i x = Inr u \<Longrightarrow> collected i x \<and> \<not> xe_irregular env (path_key (si_host_vmstate i)) \<and> \<not> xe_irregular env (path_key (si_host_mem i))"
  using regular_nonempty by (fastforce simp: validate_collected_def collected_def split: sum.splits)

lemma collected_cong:
  "files (sw y) (path_key (si_host_vmstate i)) = files (sw x) (path_key (si_host_vmstate i)) \<Longrightarrow>
   files (sw y) (path_key (si_host_mem i)) = files (sw x) (path_key (si_host_mem i)) \<Longrightarrow> collected i y = collected i x"
  by (simp add: collected_def artifact_nonempty_def)

lemma collected_within:
  assumes "within K D J x y" "path_key (si_host_vmstate i) \<notin> K" "path_key (si_host_mem i) \<notin> K"
  shows "collected i y = collected i x"
  using assms unfolding within_def touched_def by (intro collected_cong) blast+

lemma slot_within: "within K D J x y \<Longrightarrow> (SLOTS_DIR, show_u8 s) \<notin> K \<Longrightarrow> slot_state (sw y) s = slot_state (sw x) s"
  by (simp add: within_def touched_def slot_state_def)

lemma advance_frame: "advance env i b x = (r, y) \<Longrightarrow> within (dir_keys {SNAPSHOT_INTENTS_DIR}) {} {} x y"
  using write_intent_frame(2)[of "dir_keys {SNAPSHOT_INTENTS_DIR}" "{}" "{}" x env i b] by (simp add: dir_keys_def)

lemma drive_stage_ok: "drive_stage env i x = (Inr i', y) \<Longrightarrow> same_transaction i i' \<and> (si_boundary i < BCollected \<longrightarrow> si_boundary i' < BCollected)"
  by (auto simp: drive_stage_def chain_simps boundary_order split: if_splits dest!: advance_same)

lemma drive_collect_ok:
  assumes "drive_collect env i x = (Inr i', y)" and "si_boundary i < BCollected" and "transaction_placed env i j"
  shows "same_transaction i i'" "si_boundary i' = BCollected" "collected i' y"
proof -
  obtain i1 x1 x2 where i1: "same_transaction i i1" and c: "collect_pair env i1 x1 = (Inr (), x2)" and a: "advance env i1 BCollected x2 = (Inr i', y)"
    using assms(1,2) by (auto simp: drive_collect_def execute_and_collect_def chain_simps split: sum.splits option.splits if_splits prod.splits dest: advance_same)
       (blast intro: same_transaction_refl)
  have s: "same_transaction i1 i'" "si_boundary i' = BCollected" using advance_same[OF a] by auto
  then show st: "same_transaction i i'" "si_boundary i' = BCollected" using i1 same_transaction_trans by blast+
  have p: "transaction_placed env i' j" using assms(3) by (simp add: same_transaction_fields[OF st(1)])
  obtain x3 where v: "validate_collected env i1 x3 = Inr ()" and x3: "x2 = x3"
    using c by (auto simp: collect_pair_def chain_simps pure_io_def split: sum.splits)
  have "collected i' x2" using validated_collected[OF v] x3 same_transaction_fields[OF s(1)] by (simp add: collected_def)
  moreover have "collected i' y = collected i' x2"
    using placed_dirs[OF p] by (intro collected_within[OF advance_frame[OF a]]) (auto simp: placed_keys[OF p] dir_keys_def)
  ultimately show "collected i' y" by simp
qed

lemma drive_reserve_ok:
  assumes "drive_reserve env i x = (Inr i', y)" and "si_boundary i < BReserved" and "sm_slot_index (si_meta i) = Some s" and "transaction_placed env i j"
  shows "same_transaction i i'" "si_boundary i' = BReserved" "slot_state (sw y) s = Some (TokReserved (si_snapshot_id i))"
proof -
  obtain x1 u where r: "reserve_slot env i x = (Inr u, x1)" and a: "advance env i BReserved x1 = (Inr i', y)"
    using assms(1,2) by (auto simp: drive_reserve_def chain_simps)
  show "same_transaction i i'" "si_boundary i' = BReserved" using advance_same[OF a] by auto
  have "slot_state (sw x1) s = Some (TokReserved (si_snapshot_id i))"
    using reserve_slot_reserves[OF r assms(3)] assms(4) by (simp add: transaction_placed_def)
  then show "slot_state (sw y) s = Some (TokReserved (si_snapshot_id i))"
    using slot_within[OF advance_frame[OF a], of s] placed_dirs[OF assms(4)] by (auto simp: dir_keys_def)
qed

definition prepare_keys :: "snapshot_intent \<Rightarrow> string \<Rightarrow> (string \<times> string) set" where
  "prepare_keys i j = dir_keys {path_join j ''root'', si_out_dir i, SLOTS_DIR, SNAPSHOT_INTENTS_DIR, SNAPSHOT_ATTESTATIONS_DIR}"

lemma early_true: "si_boundary i < BCollected \<Longrightarrow> boundary_true env s j i x"
  by (auto simp: boundary_true_def boundary_order)

text \<open>A stage that returns an intent leaves the world as the boundary of that intent says, so a record never runs ahead of the facts.\<close>

lemma true_stage:
  assumes "drive_stage env i x = (Inr i', y)" and "boundary_true env s j i x"
  shows "same_transaction i i'" "boundary_true env s j i' y" "si_boundary i' = BPublished \<longleftrightarrow> si_boundary i = BPublished"
proof -
  have "i' = i \<and> y = x \<or> same_transaction i i' \<and> si_boundary i' = BTargetsStaged \<and> si_boundary i < BTargetsStaged"
    using assms(1) by (auto simp: drive_stage_def chain_simps split: if_splits dest!: advance_same)
  then show "same_transaction i i'" "boundary_true env s j i' y" "si_boundary i' = BPublished \<longleftrightarrow> si_boundary i = BPublished"
    using assms(2) by (auto simp: boundary_true_def boundary_order)
qed

lemma true_collect:
  assumes "drive_collect env i x = (Inr i', y)" and "boundary_true env s j i x" and "transaction_placed env i j"
  shows "same_transaction i i'" "boundary_true env s j i' y" "BCollected \<le> si_boundary i'" "si_boundary i' = BPublished \<longleftrightarrow> si_boundary i = BPublished"
proof -
  have "same_transaction i i' \<and> boundary_true env s j i' y \<and> BCollected \<le> si_boundary i' \<and> (si_boundary i' = BPublished \<longleftrightarrow> si_boundary i = BPublished)"
  proof (cases "si_boundary i < BCollected")
    case True
    then show ?thesis using drive_collect_ok[OF assms(1) True assms(3)] by (auto simp: boundary_true_def boundary_order)
  next
    case False
    then show ?thesis using assms(1,2) by (auto simp: drive_collect_def)
  qed
  then show "same_transaction i i'" "boundary_true env s j i' y" "BCollected \<le> si_boundary i'" "si_boundary i' = BPublished \<longleftrightarrow> si_boundary i = BPublished"
    by blast+
qed

lemma true_reserve:
  assumes "drive_reserve env i x = (Inr i', y)" and "boundary_true env s j i x" and "transaction_placed env i j" and "BCollected \<le> si_boundary i"
    and "sm_slot_index (si_meta i) = Some s"
  shows "same_transaction i i'" "boundary_true env s j i' y" "BReserved \<le> si_boundary i'" "si_boundary i' = BPublished \<longleftrightarrow> si_boundary i = BPublished"
proof -
  have "same_transaction i i' \<and> boundary_true env s j i' y \<and> BReserved \<le> si_boundary i' \<and> (si_boundary i' = BPublished \<longleftrightarrow> si_boundary i = BPublished)"
  proof (cases "si_boundary i < BReserved")
    case True
    note r = drive_reserve_ok[OF assms(1) True assms(5,3)] and f = same_transaction_fields[OF drive_reserve_ok(1)[OF assms(1) True assms(5,3)]]
    have w: "within (dir_keys {SLOTS_DIR, SNAPSHOT_INTENTS_DIR}) {} {} x y" using reserve_frame[of "{}" "{}" x env i] assms(1) by simp
    have "collected i y" using assms(2,4) collected_within[OF w, of i] placed_dirs[OF assms(3)]
      by (auto simp: boundary_true_def placed_keys[OF assms(3)] dir_keys_def)
    then show ?thesis using r True by (auto simp: boundary_true_def boundary_order f collected_def)
  next
    case False
    then show ?thesis using assms(1,2) by (auto simp: drive_reserve_def)
  qed
  then show "same_transaction i i'" "boundary_true env s j i' y" "BReserved \<le> si_boundary i'" "si_boundary i' = BPublished \<longleftrightarrow> si_boundary i = BPublished"
    by blast+
qed

text \<open>A drive stops with the base untouched, or goes on to the reap with the pair collected and the slot reserved.\<close>

lemma drive_cases:
  assumes d: "drive env i x = (r, x')" and np: "si_boundary i \<noteq> BPublished" and p: "transaction_placed env i j" and s: "sm_slot_index (si_meta i) = Some s"
    and b: "boundary_true env s j i x"
  obtains (stopped) "within (prepare_keys i j) {SNAPSHOT_ATTESTATIONS_DIR} {} x x'" "isl r"
    | (reserved) i3 x3 where "same_transaction i i3" "BReserved \<le> si_boundary i3" "si_boundary i3 \<noteq> BPublished" "boundary_true env s j i3 x3"
        "and_then (drive_reap env i3 x3) (drive_publish env) = (r, x')"
proof -
  let ?W = "within (prepare_keys i j) {SNAPSHOT_ATTESTATIONS_DIR} {}"
  have rest: "and_then (drive_stage env i x) (\<lambda>i x. and_then (drive_collect env i x) (\<lambda>i x. and_then (drive_reserve env i x)
      (\<lambda>i x. and_then (drive_reap env i x) (drive_publish env)))) = (r, x')"
    using d np by (simp add: drive_def)
  obtain r1 x1 where 1: "drive_stage env i x = (r1, x1)" by fastforce
  have f1: "?W x x1" using stage_frame[OF p, of x] unfolding 1 snd_conv by (rule within_mono) (auto simp: prepare_keys_def dir_keys_def)
  show ?thesis
  proof (cases r1)
    case (Inl e)
    then show ?thesis using stopped f1 rest 1 by auto
  next
    case (Inr i1)
    note s1 = true_stage[OF 1[unfolded Inr] b]
    have p1: "transaction_placed env i1 j" using p by (simp add: same_transaction_fields[OF s1(1)])
    obtain r2 x2 where 2: "drive_collect env i1 x1 = (r2, x2)" by fastforce
    have "?W x1 x2" using collect_frame[OF p1, of "{}" "{}" x1] unfolding 2 snd_conv
      by (rule within_mono) (auto simp: prepare_keys_def dir_keys_def same_transaction_fields[OF s1(1)])
    then have f2: "?W x x2" using f1 snap_frame.trans by blast
    show ?thesis
    proof (cases r2)
      case (Inl e)
      then show ?thesis using stopped f2 rest 1 2 Inr by auto
    next
      case i2: (Inr i2)
      note s2 = true_collect[OF 2[unfolded i2] s1(2) p1]
      have st2: "same_transaction i i2" using s1(1) s2(1) same_transaction_trans by blast
      have p2: "transaction_placed env i2 j" and ss: "sm_slot_index (si_meta i2) = Some s"
        using p s by (simp_all add: same_transaction_fields[OF st2])
      obtain r3 x3 where 3: "drive_reserve env i2 x2 = (r3, x3)" by fastforce
      have w3: "within (dir_keys {SLOTS_DIR, SNAPSHOT_INTENTS_DIR}) {} {} x2 x3" using reserve_frame[of "{}" "{}" x2 env i2] 3 by simp
      then have "?W x2 x3" by (rule within_mono) (auto simp: prepare_keys_def dir_keys_def)
      then have f3: "?W x x3" using f2 snap_frame.trans by blast
      show ?thesis
      proof (cases r3)
        case (Inl e)
        then show ?thesis using stopped f3 rest 1 2 3 Inr i2 by auto
      next
        case i3: (Inr i3)
        note s3 = true_reserve[OF 3[unfolded i3] s2(2) p2 s2(3) ss]
        show ?thesis
          using reserved[OF same_transaction_trans[OF st2 s3(1)] s3(3) _ s3(2)] rest 1 2 3 Inr i2 i3 np s1(3) s2(4) s3(4) by simp
      qed
    qed
  qed
qed

lemma drive_published_frame:
  assumes "drive env i x = (r, x')" and "si_boundary i = BPublished"
  shows "within (dir_keys {SNAPSHOT_INTENTS_DIR, SNAPSHOT_ATTESTATIONS_DIR}) {SNAPSHOT_ATTESTATIONS_DIR} {} x x'"
proof -
  let ?K = "dir_keys {SNAPSHOT_INTENTS_DIR, SNAPSHOT_ATTESTATIONS_DIR}"
  have a: "within ?K {SNAPSHOT_ATTESTATIONS_DIR} {} y (snd (ensure_snapshot_attestation env i y))" for y
    by (rule within_mono[OF attestation_frame(1)]) (auto simp: dir_keys_def attestation_keys_def)
  have f: "within ?K {SNAPSHOT_ATTESTATIONS_DIR} {} y (snd (finish_snapshot_index env i y))" for y
    using write_intent_frame(3)[of ?K "{SNAPSHOT_ATTESTATIONS_DIR}" "{}" y env i] by (simp add: dir_keys_def)
  have "within ?K {SNAPSHOT_ATTESTATIONS_DIR} {} x (snd (drive env i x))"
    unfolding drive_def using assms(2) by (simp, intro chain_frames a f) simp
  then show ?thesis using assms(1) by simp
qed

text \<open>C17. The base is consumed only when its snapshot is safe. Drive a transaction from any boundary whose record is true of the world (the
  pair is collected if it says collected, and so on; before the collection nothing is assumed). Whenever that has changed the
  base's room directory or any jail, whatever failed on the way, both artifacts of the pair lie non-empty in the output directory
  and the base's slot is reserved for the snapshot.\<close>

theorem base_reaped_only_when_safe:
  assumes "drive env i x = (r, x')" and "boundary_true env s j i x" and "transaction_placed env i j" and "sm_slot_index (si_meta i) = Some s"
    and "dirs (sw x') (si_base_room_id i) \<noteq> dirs (sw x) (si_base_room_id i) \<or> jails (host (sw x')) \<noteq> jails (host (sw x))"
  shows "slot_state (sw x') s = Some (TokReserved (si_snapshot_id i)) \<and> collected i x'"
proof (cases "si_boundary i = BPublished")
  case True
  then have "dirs (sw x') (si_base_room_id i) = dirs (sw x) (si_base_room_id i)" "jails (host (sw x')) = jails (host (sw x))"
    using drive_published_frame[OF assms(1)] placed_dirs[OF assms(3)] by (auto simp: within_def touched_def)
  then show ?thesis using assms(5) by blast
next
  case False
  show ?thesis
    using assms(1) False assms(3,4,2)
  proof (cases rule: drive_cases)
    case stopped
    then have "dirs (sw x') (si_base_room_id i) = dirs (sw x) (si_base_room_id i)" "jails (host (sw x')) = jails (host (sw x))"
      using placed_dirs[OF assms(3)] by (auto simp: within_def touched_def)
    then show ?thesis using assms(5) by blast
  next
    case (reserved i3 x3)
    note f = same_transaction_fields[OF reserved(1)]
    have p3: "transaction_placed env i3 j" using assms(3) by (simp add: f)
    note d = placed_dirs[OF assms(3)] and k = placed_keys[OF assms(3)]
    have a3: "slot_state (sw x3) s = Some (TokReserved (si_snapshot_id i))" "collected i x3"
      using reserved(2,4) by (auto simp: boundary_true_def f collected_def boundary_order)
    obtain r4 x4 where 4: "drive_reap env i3 x3 = (r4, x4)" by fastforce
    have w4: "within (dir_keys {si_base_room_id i, path_join j ''root'', SNAPSHOT_INTENTS_DIR}) {si_base_room_id i} {j} x3 x4"
      using reap_frame[OF p3, of x3] 4 by (simp add: f)
    have a4: "slot_state (sw x4) s = Some (TokReserved (si_snapshot_id i)) \<and> collected i x4"
      using slot_within[OF w4, of s] collected_within[OF w4, of i] a3 d by (auto simp: dir_keys_def k)
    show ?thesis
    proof (cases r4)
      case (Inl e)
      then show ?thesis using a4 reserved(5) 4 by simp
    next
      case (Inr i4)
      have st: "same_transaction i i4"
        using 4 reserved(1) same_transaction_trans by (auto simp: Inr drive_reap_def chain_simps split: if_splits dest!: advance_same)
      have p4: "transaction_placed env i4 j" using assms(3) by (simp add: same_transaction_fields[OF st])
      have "within (publish_keys i4) {SNAPSHOT_ATTESTATIONS_DIR} {} x4 x'"
        using publish_frame[OF p4, of "{}" x4] reserved(5) 4 Inr by simp
      then have "slot_state (sw x') s = slot_state (sw x4) s" "collected i x' = collected i x4"
        using slot_within[of "publish_keys i4" _ _ x4 x' s] collected_within[of "publish_keys i4" _ _ x4 x' i] d
        by (auto simp: publish_keys_def dir_keys_def k same_transaction_fields[OF st] SNAPSHOT_META_FILE_def SNAPSHOT_META_TMP_def
            SNAPSHOT_VMSTATE_FILE_def SNAPSHOT_MEM_FILE_def)
      then show ?thesis using a4 by simp
    qed
  qed
qed

subsection \<open>Publication\<close>

lemma seal_marks:
  assumes "inode_seal (snap_inodes env) p label x = (Inr u, y)"
  shows "immutable y p" "immutable x q \<Longrightarrow> immutable y q"
proof -
  have s: "seal_with_ops (linux_flag_ops env p) p label x = (Inr (), y)"
    using assms by (auto simp: inode_seal_def snap_inodes_def split: sum.splits)
  show p: "immutable y p" using snap_inode.seal_immutable[OF s] by (simp add: immutable_def linux_flag_ops_def)
  have "sw_flags y q = sw_flags x q" if "q \<noteq> p"
    using s that by (auto simp: seal_with_ops_def require_with_ops_def inspect_flags_def chain_simps linux_flag_ops_def split: if_splits)
  then show "immutable x q \<Longrightarrow> immutable y q" using p by (cases "q = p") (auto simp: immutable_def)
qed

lemma seal_each_marks:
  "seal_each env ps x = (Inr u, y) \<Longrightarrow> (\<forall>p \<in> fst ` set ps. immutable y p) \<and> (\<forall>q. immutable x q \<longrightarrow> immutable y q)"
proof (induction ps arbitrary: x)
  case (Cons a ps)
  obtain p label where a: "a = (p, label)" by fastforce
  obtain z v where z: "inode_seal (snap_inodes env) p label x = (Inr v, z)" and r: "seal_each env ps z = (Inr u, y)"
    using Cons.prems by (auto simp: a chain_simps)
  show ?case using Cons.IH[OF r] seal_marks[OF z] by (auto simp: a)
qed simp

lemma seal_snapshot_marks:
  assumes "seal_snapshot env i x = (Inr u, y)"
  shows "sealed_set i y" "\<not> xe_irregular env (path_key (snapshot_meta_path i))"
proof -
  obtain z where r: "ensure_regular_nonempty env (snapshot_meta_path i) x = Inr ()"
    and z: "seal_each env [(si_host_vmstate i, ''snapshot vmstate''), (si_host_mem i, ''snapshot memory''), (snapshot_meta_path i, ''snapshot metadata'')] x = (Inr (), z)"
    and y: "inode_seal (snap_inodes env) (si_out_dir i) ''snapshot directory'' z = (Inr (), y)"
    using assms unfolding seal_snapshot_def by (auto simp: chain_simps simp del: seal_each.simps)
  show "sealed_set i y" using seal_each_marks[OF z] seal_marks[OF y] by (simp add: sealed_set_def)
  show "\<not> xe_irregular env (path_key (snapshot_meta_path i))" using regular_nonempty[OF r] by simp
qed

interpretation flag_frame: step_frame "\<lambda>x y. sw_flags y = sw_flags x"
  by unfold_locales simp_all

lemma flags_kept:
  "sw_flags (snd (on_state f x)) = sw_flags x" "sw_flags (snd (in_state env g x)) = sw_flags x" "sw_flags (snd (pure_io env r x)) = sw_flags x"
  by (auto simp: on_state_def in_state_def pure_io_def map_err_def split: prod.splits sum.splits)

lemma advance_flags: "sw_flags (snd (advance env i b x)) = sw_flags x" "sw_flags (snd (finish_snapshot_index env i x)) = sw_flags x"
proof -
  have w: "sw_flags (snd (write_snapshot_intent env i x)) = sw_flags x" for i
    unfolding write_snapshot_intent_def by (intro flag_frame.on_option flag_frame.on_sum flags_kept) simp_all
  show "sw_flags (snd (advance env i b x)) = sw_flags x" unfolding advance_def by (intro flag_frame.chain w) simp
  show "sw_flags (snd (finish_snapshot_index env i x)) = sw_flags x" unfolding finish_snapshot_index_def by (rule flags_kept)
qed

lemma temps_flags: "sw_flags (snd (remove_attestation_temps env sid removed es x)) = sw_flags x"
proof (induction env sid removed es x rule: remove_attestation_temps.induct)
  case (3 env sid removed name rest x)
  show ?case unfolding remove_attestation_temps.simps
    by (intro flag_frame.cond flag_frame.branch flags_kept) (use 3 in auto)
qed simp_all

lemma attestation_file_flags: "sw_flags (snd (ensure_attestation_file env p a x)) = sw_flags x"
proof -
  have r: "sw_flags (snd (remove_abandoned_attestation_temps env sid x)) = sw_flags x" for sid x
    unfolding remove_abandoned_attestation_temps_def
    by (intro flag_frame.on_sum flag_frame.chain flag_frame.cond temps_flags flags_kept) simp_all
  have o: "sw_flags (snd (remove_own_temp env tmp x)) = sw_flags x" for tmp x
    using flags_kept(1)[of "remove_file (xe_io env) SNAPSHOT_ATTESTATIONS_DIR tmp" x] unfolding remove_own_temp_def
    by (auto simp: pure_io_def split: prod.splits sum.splits io_error.splits)
  show ?thesis unfolding ensure_attestation_file_def Let_def
    by (intro flag_frame.on_sum flag_frame.on_option flag_frame.chain flag_frame.cond flag_frame.branch flags_kept r o) (simp_all add: flags_kept)
qed

text \<open>The attestation of a transaction that records its rootfs is immutable.\<close>

definition attestation_sealed :: "'n snap_env \<Rightarrow> snapshot_intent \<Rightarrow> 'n snap_world \<Rightarrow> bool" where
  "attestation_sealed env i x \<longleftrightarrow> (case si_rootfs_source i of
     None \<Rightarrow> True
   | Some _ \<Rightarrow> (case attestation_path env (si_snapshot_id i) of Inl _ \<Rightarrow> False | Inr p \<Rightarrow> immutable x p))"

lemma attestation_marks:
  assumes "ensure_snapshot_attestation env i x = (Inr u, y)"
  shows "attestation_sealed env i y" "immutable x q \<Longrightarrow> immutable y q"
proof -
  have "attestation_sealed env i y \<and> (immutable x q \<longrightarrow> immutable y q)"
  proof (cases "si_rootfs_source i")
    case (Some src)
    obtain p a x1 x2 x3 where p: "attestation_path env (si_snapshot_id i) = Inr p" and 1: "open_attestation_index env x = (Inr (), x1)" and 2: "ensure_attestation_file env p a x1 = (Inr (), x2)"
      and 3: "inode_seal (snap_inodes env) p ''snapshot attestation'' x2 = (Inr (), x3)" and y: "y = x3"
      using assms(1) by (cases "attestation_path env (si_snapshot_id i)") (auto simp: ensure_snapshot_attestation_def Some chain_simps pure_io_def)
    have "sw_flags (snd (open_attestation_index env x)) = sw_flags x"
      unfolding open_attestation_index_def Let_def
      by (intro flag_frame.on_option flag_frame.chain flag_frame.cond flags_kept) simp_all
    then have "sw_flags x2 = sw_flags x" using attestation_file_flags[of env p a x1] 1 2 by simp
    then have "immutable x q \<longrightarrow> immutable y q" using seal_marks(2)[OF 3, of q] y by (simp add: immutable_def)
    then show ?thesis using seal_marks(1)[OF 3] y p Some by (simp add: attestation_sealed_def)
  qed (use assms in \<open>simp_all add: ensure_snapshot_attestation_def attestation_sealed_def\<close>)
  then show "attestation_sealed env i y" "immutable x q \<Longrightarrow> immutable y q" by blast+
qed

lemma same_attested:
  assumes "same_transaction i i'"
  shows "attestation_sealed env i' x = attestation_sealed env i x"
  unfolding attestation_sealed_def same_transaction_fields(3,7)[OF assms] by (rule refl)

lemma metadata_agrees:
  assumes "ensure_snapshot_metadata env i x = (Inr u, y)" and "\<And>t. xe_meta_to_json env (si_meta i) = Inr t \<Longrightarrow> xe_meta_from_json env t = Inr (si_meta i)"
  shows "\<exists>t. files (sw y) (path_key (snapshot_meta_path i)) = Some t \<and> xe_meta_from_json env t = Inr (si_meta i)"
proof -
  obtain d n where k: "path_key (snapshot_meta_path i) = (d, n)" by fastforce
  show ?thesis
  proof (cases "read_to_string (xe_io env) d n (sw x)")
    case (Inr bytes)
    then have "files (sw x) (d, n) = Some bytes" by (rule read_to_string_Inr)
    then show ?thesis using assms(1) Inr by (auto simp: ensure_snapshot_metadata_def k split: sum.splits if_splits)
  next
    case (Inl e)
    then have w: "in_state env (write_meta_atomic (xe_meta_to_json env) (xe_io env) (Some d, n) (si_meta i)) x = (Inr u, y)"
      using assms(1) by (auto simp: ensure_snapshot_metadata_def k split: io_error.splits)
    have w: "write_meta_atomic (xe_meta_to_json env) (xe_io env) (Some d, n) (si_meta i) (sw x) = (Inr u, sw y)"
      using w by (auto simp: in_state_def on_state_def map_err_cases split: prod.splits)
    then obtain t w1 w2 where t: "xe_meta_to_json env (si_meta i) = Inr t" and 1: "write_all (xe_io env) d SNAPSHOT_META_TMP t w1 = (Inr (), w2)"
      and 2: "rename_file (xe_io env) d SNAPSHOT_META_TMP n w2 = (Inr (), sw y)"
      by (auto simp: write_meta_atomic_def chain_simps split: sum.splits)
    have "files w2 (d, SNAPSHOT_META_TMP) = Some t" using 1 by (auto simp: write_all_def split: sum.splits)
    then have t: "xe_meta_to_json env (si_meta i) = Inr t" "files (sw y) (d, n) = Some t" using t rename_file_ok[OF 2] by simp_all
    then show ?thesis using assms(2)[OF t(1)] by (simp add: k)
  qed
qed

lemma finish_removes:
  assumes "finish_snapshot_index env i x = (Inr u, y)"
  shows "files (sw y) (SNAPSHOT_INTENTS_DIR, snapshot_intent_name (si_base_room_id i)) = None"
  using assms by (auto simp: finish_snapshot_index_def in_state_def on_state_def map_err_def remove_file_def split: prod.splits sum.splits io_error.splits option.splits)

lemma publish_ok:
  assumes d: "drive_publish env i x = (Inr res, x')" and p: "transaction_placed env i j"
    and json: "\<And>t. xe_meta_to_json env (si_meta i) = Inr t \<Longrightarrow> xe_meta_from_json env t = Inr (si_meta i)"
  shows "collected i x'" "sealed_set i x'" "attestation_sealed env i x'"
    "\<exists>t. files (sw x') (path_key (snapshot_meta_path i)) = Some t \<and> xe_meta_from_json env t = Inr (si_meta i)"
    "files (sw x') (SNAPSHOT_INTENTS_DIR, snapshot_intent_name (si_base_room_id i)) = None" "result_from i = Inr res"
proof -
  obtain x1 x2 x3 x4 i4 where v: "validate_collected env i x = Inr ()" and 1: "ensure_snapshot_metadata env i x = (Inr (), x1)"
    and 2: "seal_snapshot env i x1 = (Inr (), x2)" and 3: "ensure_snapshot_attestation env i x2 = (Inr (), x3)"
    and 4: "advance env i BPublished x3 = (Inr i4, x4)" and 5: "finish_snapshot_index env i4 x4 = (Inr (), x')" and r: "result_from i4 = Inr res"
    using d by (auto simp: drive_publish_def chain_simps)
  note s = advance_same[OF 4, THEN conjunct1]
  note f = same_transaction_fields[OF s] and k = placed_keys[OF p] and dist = placed_dirs[OF p]
  let ?K = "dir_keys {SNAPSHOT_INTENTS_DIR, SNAPSHOT_ATTESTATIONS_DIR}"
  have w1: "within (publish_keys i) {} {} x x1" using metadata_frame[OF p, of "{}" "{}" x] 1 by simp
  have "within ?K {SNAPSHOT_ATTESTATIONS_DIR} {} x1 x2" using seal_snapshot_frame[of ?K _ _ x1 env i] 2 by simp
  moreover have "within ?K {SNAPSHOT_ATTESTATIONS_DIR} {} x2 x3"
    using attestation_frame(1)[of "{SNAPSHOT_ATTESTATIONS_DIR}" "{}" x2 env i] 3 within_mono[of attestation_keys]
    by (auto simp: attestation_keys_def dir_keys_def intro: within_mono)
  moreover have "within ?K {SNAPSHOT_ATTESTATIONS_DIR} {} x3 x4" using advance_frame[OF 4] by (rule within_mono) (auto simp: dir_keys_def)
  moreover have "within ?K {SNAPSHOT_ATTESTATIONS_DIR} {} x4 x'"
    using write_intent_frame(3)[of ?K "{SNAPSHOT_ATTESTATIONS_DIR}" "{}" x4 env i4] 5 by (simp add: dir_keys_def)
  ultimately have w: "within ?K {SNAPSHOT_ATTESTATIONS_DIR} {} x1 x'" using snap_frame.trans by blast
  have "collected i x" using validated_collected[OF v] by simp
  then have "collected i x1" using collected_within[OF w1, of i] dist
    by (auto simp: k publish_keys_def dir_keys_def SNAPSHOT_META_FILE_def SNAPSHOT_META_TMP_def SNAPSHOT_VMSTATE_FILE_def SNAPSHOT_MEM_FILE_def)
  then show "collected i x'" using collected_within[OF w, of i] dist by (auto simp: k dir_keys_def)
  have "files (sw x') (path_key (snapshot_meta_path i)) = files (sw x1) (path_key (snapshot_meta_path i))"
    using w dist by (auto simp: within_def touched_def k dir_keys_def)
  then show "\<exists>t. files (sw x') (path_key (snapshot_meta_path i)) = Some t \<and> xe_meta_from_json env t = Inr (si_meta i)"
    using metadata_agrees[OF 1 json] by simp
  have "sw_flags x' = sw_flags x3" using advance_flags(1)[of env i BPublished x3] advance_flags(2)[of env i4 x4] 4 5 by simp
  then show "sealed_set i x'" "attestation_sealed env i x'"
    using seal_snapshot_marks(1)[OF 2] attestation_marks[OF 3]
    by (simp_all add: sealed_set_def immutable_def attestation_sealed_def split: option.splits sum.splits)
  show "files (sw x') (SNAPSHOT_INTENTS_DIR, snapshot_intent_name (si_base_room_id i)) = None" using finish_removes[OF 5] f by simp
  show "result_from i = Inr res" using r unfolding result_from_def f .
qed

lemma reap_base_reaps:
  assumes "reap_base env i x = (Inr u, y)" and "transaction_placed env i j"
  shows "\<not> dirs (sw y) (si_base_room_id i)" "jails (host (sw y)) j = None"
proof -
  have j: "jail_instance_dir (xe_home env) (xe_config env) (si_base_room_id i) = Some j" using assms(2) by (simp add: transaction_placed_def)
  obtain tap z where d: "reap_base_dirs env (si_base_room_id i) j tap z = (Inr (), y)"
    using assms(1) by (auto simp: reap_base_def j chain_simps split: option.splits)
  obtain w1 v w2 where r: "reap_room_only (xe_reap env) (si_base_room_id i) j j (xe_config env) (sw z) = (Inr v, w1)"
    and p: "on_host (on_programs (remove_egress_and_tap (xe_reap env) tap)) w1 = (Inr (), w2)" and y: "y = purge_jail j (path_join j ''root'') (z\<lparr>sw := w2\<rparr>)"
    using d by (auto simp: reap_base_dirs_def reap_reserved_base_def on_state_def map_err_def chain_simps split: prod.splits sum.splits)
  have w1: "jails (host w1) j = None \<and> \<not> dirs w1 (si_base_room_id i)" using reap_room_only_result(4)[OF r] by simp
  have "touched {} {} {} w1 w2" using program_frames[of "{}" "{}" "{}" w1 "remove_egress_and_tap (xe_reap env) tap"] p by simp
  then show "\<not> dirs (sw y) (si_base_room_id i)" "jails (host (sw y)) j = None"
    using w1 by (auto simp: y purge_jail_def touched_def)
qed

lemma true_reap:
  assumes "drive_reap env i x = (Inr i', y)" and "boundary_true env s j i x" and "transaction_placed env i j" and "BReserved \<le> si_boundary i"
  shows "same_transaction i i'" "boundary_true env s j i' y" "BReaped \<le> si_boundary i'"
proof -
  have "same_transaction i i' \<and> boundary_true env s j i' y \<and> BReaped \<le> si_boundary i'"
  proof (cases "si_boundary i < BReaped")
    case True
    obtain z u where r: "reap_base env i x = (Inr u, z)" and a: "advance env i BReaped z = (Inr i', y)"
      using assms(1) True by (auto simp: drive_reap_def chain_simps)
    note st = advance_same[OF a] and dist = placed_dirs[OF assms(3)] and k = placed_keys[OF assms(3)]
    have w: "within (dir_keys {si_base_room_id i, path_join j ''root'', SNAPSHOT_INTENTS_DIR}) {si_base_room_id i} {j} x y"
      using reap_frame[OF assms(3), of x] assms(1) by simp
    have "slot_state (sw y) s = Some (TokReserved (si_snapshot_id i))" "collected i y"
      using slot_within[OF w, of s] collected_within[OF w, of i] assms(2,4) dist by (auto simp: boundary_true_def dir_keys_def k boundary_order)
    moreover have "\<not> dirs (sw y) (si_base_room_id i)" "jails (host (sw y)) j = None"
      using reap_base_reaps[OF r assms(3)] advance_frame[OF a] by (auto simp: within_def touched_def)
    ultimately show ?thesis using st same_transaction_fields[of i i'] by (auto simp: boundary_true_def collected_def boundary_order)
  next
    case False
    then show ?thesis using assms(1,2) by (auto simp: drive_reap_def)
  qed
  then show "same_transaction i i'" "boundary_true env s j i' y" "BReaped \<le> si_boundary i'" by blast+
qed

text \<open>C18. A published snapshot is complete. When driving a transaction succeeds, from any boundary whose record is true of the world, both artifacts are
  non-empty, the metadata file reads back as the transaction's metadata, all three files and the directory are immutable, and so is the
  attestation when the transaction recorded its rootfs; the slot is reserved for the snapshot, the base's room directory and jail are gone, and the
  intent is gone.\<close>

theorem published_snapshot_complete:
  assumes "drive env i x = (Inr res, x')" and "boundary_true env s j i x" and "transaction_placed env i j" and "sm_slot_index (si_meta i) = Some s"
    and "\<And>t. xe_meta_to_json env (si_meta i) = Inr t \<Longrightarrow> xe_meta_from_json env t = Inr (si_meta i)"
  shows "collected i x' \<and> sealed_set i x' \<and> attestation_sealed env i x' \<and> result_from i = Inr res \<and> metadata_recorded env i x'
    \<and> files (sw x') (SNAPSHOT_INTENTS_DIR, snapshot_intent_name (si_base_room_id i)) = None
    \<and> slot_state (sw x') s = Some (TokReserved (si_snapshot_id i))
    \<and> \<not> dirs (sw x') (si_base_room_id i) \<and> jails (host (sw x')) j = None"
proof (cases "si_boundary i = BPublished")
  case True
  obtain x1 where a: "ensure_snapshot_attestation env i x = (Inr (), x1)" and f: "finish_snapshot_index env i x1 = (Inr (), x')" and r: "result_from i = Inr res"
    using assms(1) True by (auto simp: drive_def chain_simps)
  note dist = placed_dirs[OF assms(3)] and k = placed_keys[OF assms(3)] and w = drive_published_frame[OF assms(1) True]
  have fl: "sw_flags x' = sw_flags x1" using advance_flags(2)[of env i x1] f by simp
  have T: "collected i x" "slot_state (sw x) s = Some (TokReserved (si_snapshot_id i))" "\<not> dirs (sw x) (si_base_room_id i)" "jails (host (sw x)) j = None"
    "sealed_set i x" "metadata_recorded env i x" using assms(2) True by (auto simp: boundary_true_def boundary_order)
  have "sealed_set i x'" "attestation_sealed env i x'"
    using T(5) attestation_marks[OF a] fl
    by (simp_all add: sealed_set_def immutable_def attestation_sealed_def split: option.splits sum.splits)
  moreover have "collected i x'" "slot_state (sw x') s = Some (TokReserved (si_snapshot_id i))"
    using T(1,2) collected_within[OF w, of i] slot_within[OF w, of s] dist by (auto simp: dir_keys_def k)
  moreover have "metadata_recorded env i x'" using T(6) w dist by (auto simp: metadata_recorded_def within_def touched_def dir_keys_def k)
  moreover have "\<not> dirs (sw x') (si_base_room_id i)" "jails (host (sw x')) j = None" using T(3,4) w dist by (auto simp: within_def touched_def)
  ultimately show ?thesis using r finish_removes[OF f] by blast
next
  case False
  show ?thesis
    using assms(1) False assms(3,4,2)
  proof (cases rule: drive_cases)
    case (reserved i3 x3)
    have p3: "transaction_placed env i3 j" using assms(3) by (simp add: same_transaction_fields[OF reserved(1)])
    obtain i4 x4 where 4: "drive_reap env i3 x3 = (Inr i4, x4)" and 5: "drive_publish env i4 x4 = (Inr res, x')"
      using reserved(5) by (auto simp: chain_simps)
    note r = true_reap[OF 4 reserved(4) p3 reserved(2)]
    have st: "same_transaction i i4" using reserved(1) r(1) same_transaction_trans by blast
    note f4 = same_transaction_fields[OF st]
    have p4: "transaction_placed env i4 j" using assms(3) by (simp add: f4)
    note pub = publish_ok[OF 5 p4, unfolded f4, OF assms(5)] and dist = placed_dirs[OF assms(3)]
    have wp: "within (publish_keys i4) {SNAPSHOT_ATTESTATIONS_DIR} {} x4 x'" using publish_frame[OF p4, of "{}" x4] 5 by simp
    have "slot_state (sw x4) s = Some (TokReserved (si_snapshot_id i))" "\<not> dirs (sw x4) (si_base_room_id i)" "jails (host (sw x4)) j = None"
      using r(2,3) by (auto simp: boundary_true_def f4 boundary_order)
    then have "slot_state (sw x') s = Some (TokReserved (si_snapshot_id i))" "\<not> dirs (sw x') (si_base_room_id i)" "jails (host (sw x')) j = None"
      using slot_within[OF wp, of s] wp dist by (auto simp: publish_keys_def dir_keys_def f4 within_def touched_def)
    moreover have "metadata_recorded env i x'" using pub(4) by (auto simp: metadata_recorded_def)
    moreover have "attestation_sealed env i x'" using pub(3) same_attested[OF st] by blast
    moreover have "collected i x'" "sealed_set i x'" "result_from i = Inr res"
      using pub(1,2,6) unfolding collected_def sealed_set_def result_from_def f4 by simp_all
    ultimately show ?thesis using pub(5) by simp
  qed simp
qed

subsection \<open>Abort\<close>

abbreviation intent_file :: "snapshot_intent \<Rightarrow> string \<times> string" where
  "intent_file i \<equiv> (SNAPSHOT_INTENTS_DIR, snapshot_intent_name (si_base_room_id i))"

lemma write_intent_file:
  assumes "write_snapshot_intent env i x = (Inr u, y)"
  shows "\<exists>t. xe_to_json env i = Inr t \<and> files (sw y) (intent_file i) = Some t"
proof -
  obtain t w1 w2 where t: "xe_to_json env i = Inr t" and 1: "write_all (xe_io env) SNAPSHOT_INTENTS_DIR (snapshot_intent_tmp (si_base_room_id i)) t w1 = (Inr (), w2)"
    and 2: "rename_file (xe_io env) SNAPSHOT_INTENTS_DIR (snapshot_intent_tmp (si_base_room_id i)) (snapshot_intent_name (si_base_room_id i)) w2 = (Inr (), sw y)"
    using assms by (cases "check_fault (xe_io env) (SyncAll SNAPSHOT_INTENTS_DIR (snapshot_intent_tmp (si_base_room_id i)))")
      (auto simp: write_snapshot_intent_def Let_def in_state_def on_state_def chain_simps split: option.splits sum.splits prod.splits)
  have "files w2 (SNAPSHOT_INTENTS_DIR, snapshot_intent_tmp (si_base_room_id i)) = Some t" using 1 by (auto simp: write_all_def split: sum.splits)
  then show ?thesis using t rename_file_ok[OF 2] by simp
qed

lemma partial_outputs_frame:
  assumes "transaction_placed env i j"
  shows "within (dir_keys {path_join j ''root'', si_out_dir i}) {} {} x (snd (remove_partial_outputs env i x))"
proof -
  have o: "within K {} {} x (snd (remove_outputs env ks x))" if "set ks \<subseteq> K" for ks K x
    using that
  proof (induction ks arbitrary: x)
    case (Cons k ks)
    obtain d n where k: "k = (d, n)" by fastforce
    show ?case unfolding k remove_outputs.simps using Cons k
      by (intro snap_frame.branch frames error_frame) auto
  qed simp
  show ?thesis unfolding remove_partial_outputs_def using placed_keys[OF assms]
    by (intro snap_frame.chain snap_frame.cond frames o) (auto simp: dir_keys_def)
qed

lemma reap_dirs_ok:
  assumes "reap_base_dirs env b j tap x = (r, y)"
  shows "within (dir_keys {b, path_join j ''root''}) {b} {j} x y" "r = Inr u \<Longrightarrow> \<not> dirs (sw y) b \<and> jails (host (sw y)) j = None"
proof -
  obtain r1 w1 where 1: "reap_room_only (xe_reap env) b j j (xe_config env) (sw x) = (r1, w1)" by fastforce
  obtain r2 w2 where 2: "on_host (on_programs (remove_egress_and_tap (xe_reap env) tap)) w1 = (r2, w2)" by fastforce
  note R = reap_room_only_result[OF 1]
  have t: "touched {} {} {} w1 w2" using program_frames[of "{}" "{}" "{}" w1 "remove_egress_and_tap (xe_reap env) tap"] 2 by simp
  have y: "y = purge_jail j (path_join j ''root'') (x\<lparr>sw := (case r1 of Inl _ \<Rightarrow> w1 | Inr _ \<Rightarrow> w2)\<rparr>)"
    and r: "r = Inr u \<Longrightarrow> \<exists>v. r1 = Inr v"
    using assms 1 2 by (auto simp: reap_base_dirs_def reap_reserved_base_def on_state_def map_err_def and_then_def split: prod.splits sum.splits)
  show "within (dir_keys {b, path_join j ''root''}) {b} {j} x y"
    using R(1-3) t by (auto simp: y purge_jail_def within_def touched_def dir_keys_def split: sum.splits)
  show "r = Inr u \<Longrightarrow> \<not> dirs (sw y) b \<and> jails (host (sw y)) j = None"
    using r R(4) t by (auto simp: y purge_jail_def touched_def)
qed

lemma slot_free_files:
  assumes "slot_free io s o' w = (r, w')"
  shows "dirs w' = dirs w" "host w' = host w" "files w' = files w \<or> (\<exists>c. files w (SLOTS_DIR, show_u8 s) = Some c \<and> first_line c = Some o')
    \<and> files w' = (files w)((SLOTS_DIR, show_u8 s) := None)"
  using free_with_cleanup_change[OF assms[unfolded slot_free_def]] by auto

text \<open>What one run of \<open>abort_reap\<close> leaves, relative to the slot file.\<close>

lemma abort_reap_order:
  assumes a: "abort_reap env i s x = (r, y)" and p: "transaction_placed env i j"
    and "files (sw y) (SLOTS_DIR, show_u8 s) \<noteq> files (sw x) (SLOTS_DIR, show_u8 s)"
  shows "(\<exists>c. files (sw x) (SLOTS_DIR, show_u8 s) = Some c \<and> first_line c = Some (si_base_room_id i)) \<and> files (sw y) (SLOTS_DIR, show_u8 s) = None
    \<and> \<not> dirs (sw y) (si_base_room_id i) \<and> jails (host (sw y)) j = None
    \<and> (if si_aborted i then files (sw y) (intent_file i) = files (sw x) (intent_file i)
       else \<exists>t. xe_to_json env (i\<lparr>si_aborted := True\<rparr>) = Inr t \<and> files (sw y) (intent_file i) = Some t)"
proof -
  let ?k = "(SLOTS_DIR, show_u8 s)"
  have j: "jail_instance_dir (xe_home env) (xe_config env) (si_base_room_id i) = Some j" using p by (simp add: transaction_placed_def)
  note dist = placed_dirs[OF p]
  obtain r1 x1 where 1: "reap_base_dirs env (si_base_room_id i) j (''tap-fc'' @ show_u8 s) x = (r1, x1)" by fastforce
  obtain r2 x2 where 2: "record_abort env i x1 = (r2, x2)" by fastforce
  obtain r3 w3 where 3: "slot_free (xe_io env) s (si_base_room_id i) (sw x2) = (r3, w3)" by fastforce
  note R = reap_dirs_ok[OF 1]
  have w1: "files (sw x1) ?k = files (sw x) ?k" "files (sw x1) (intent_file i) = files (sw x) (intent_file i)"
    using R(1) dist by (auto simp: within_def touched_def dir_keys_def)
  have f2: "within (dir_keys {SNAPSHOT_INTENTS_DIR}) {} {} x1 x2"
    using 2 write_intent_frame(1)[of "dir_keys {SNAPSHOT_INTENTS_DIR}" "{}" "{}" x1 env "i\<lparr>si_aborted := True\<rparr>"]
    by (auto simp: record_abort_def dir_keys_def split: if_splits)
  then have w2: "files (sw x2) ?k = files (sw x) ?k" using w1(1) dist by (auto simp: within_def touched_def dir_keys_def)
  have "y \<noteq> x" "y \<noteq> x1" "y \<noteq> x2" using assms(3) w1 w2 by auto
  then have ok: "r1 = Inr ()" "r2 = Inr ()" and y: "y = x2\<lparr>sw := w3\<rparr>"
    using a 1 2 3
    by (auto simp: abort_reap_def j release_aborted_slot_def on_state_def map_err_def and_then_def split: option.splits sum.splits if_splits)
  note F = slot_free_files[OF 3]
  have fr: "(\<exists>c. files (sw x2) ?k = Some c \<and> first_line c = Some (si_base_room_id i)) \<and> files w3 = (files (sw x2))(?k := None)"
    using F(3) assms(3) w2 y by auto
  have gone: "\<not> dirs (sw y) (si_base_room_id i)" "jails (host (sw y)) j = None"
    using R(2)[OF ok(1)] f2 F(1,2) y by (auto simp: within_def touched_def)
  have "files (sw y) (intent_file i) = files (sw x2) (intent_file i)" using fr dist y by auto
  moreover have "if si_aborted i then files (sw x2) (intent_file i) = files (sw x) (intent_file i)
     else \<exists>t. xe_to_json env (i\<lparr>si_aborted := True\<rparr>) = Inr t \<and> files (sw x2) (intent_file i) = Some t"
    using 2 ok w1(2) write_intent_file[of env "i\<lparr>si_aborted := True\<rparr>" x1 "()" x2] by (auto simp: record_abort_def)
  ultimately show ?thesis using fr gone w2 y by auto
qed

text \<open>C19. An abort releases the base's slot last. Whenever aborting a partial snapshot has changed the slot file, the slot held the exact claim
  of the base and is free now, the base's room directory and jail are gone, no snapshot had been published, the slot was not yet
  reserved, and the intent is either finished or still in the index with its abort recorded, so that a later recovery
  can finish.\<close>

theorem abort_recorded_before_release:
  assumes "abort_dead_partial env i x = (r, x')" and "transaction_placed env i j" and "sm_slot_index (si_meta i) = Some s"
    and "files (sw x') (SLOTS_DIR, show_u8 s) \<noteq> files (sw x) (SLOTS_DIR, show_u8 s)"
  shows "(\<exists>c. files (sw x) (SLOTS_DIR, show_u8 s) = Some c \<and> first_line c = Some (si_base_room_id i)) \<and> files (sw x') (SLOTS_DIR, show_u8 s) = None
    \<and> \<not> dirs (sw x') (si_base_room_id i) \<and> jails (host (sw x')) j = None
    \<and> si_boundary i < BReserved \<and> files (sw x) (path_key (snapshot_meta_path i)) = None
    \<and> (files (sw x') (intent_file i) = None
       \<or> (if si_aborted i then files (sw x') (intent_file i) = files (sw x) (intent_file i)
          else \<exists>t. xe_to_json env (i\<lparr>si_aborted := True\<rparr>) = Inr t \<and> files (sw x') (intent_file i) = Some t))"
proof -
  let ?k = "(SLOTS_DIR, show_u8 s)"
  note dist = placed_dirs[OF assms(2)]
  obtain r1 x1 where 1: "remove_partial_outputs env i x = (r1, x1)" by fastforce
  obtain r2 x2 where 2: "abort_reap env i s x1 = (r2, x2)" by fastforce
  obtain r3 x3 where 3: "finish_snapshot_index env i x2 = (r3, x3)" by fastforce
  have w1: "within (dir_keys {path_join j ''root'', si_out_dir i}) {} {} x x1" using partial_outputs_frame[OF assms(2), of x] 1 by simp
  then have f1: "files (sw x1) ?k = files (sw x) ?k" "files (sw x1) (intent_file i) = files (sw x) (intent_file i)"
    using dist by (auto simp: within_def touched_def dir_keys_def)
  have w3: "touched (dir_keys {SNAPSHOT_INTENTS_DIR}) {} {} (sw x2) (sw x3)"
    using write_intent_frame(3)[of "dir_keys {SNAPSHOT_INTENTS_DIR}" "{}" "{}" x2 env i] 3 by (simp add: dir_keys_def within_def)
  have i3: "files (sw x3) (intent_file i) = None \<or> files (sw x3) (intent_file i) = files (sw x2) (intent_file i)"
    using 3 by (auto simp: finish_snapshot_index_def in_state_def on_state_def map_err_def remove_file_def split: prod.splits sum.splits io_error.splits option.splits)
  have run: "x' = x3 \<or> x' = x2" and b: "si_boundary i < BReserved" "files (sw x) (path_key (snapshot_meta_path i)) = None"
    using assms(1,3,4) f1 1 2 3
    by (auto simp: abort_dead_partial_def and_then_def split: if_splits option.splits sum.splits)
  have k3: "files (sw x3) ?k = files (sw x2) ?k" using w3 dist by (auto simp: touched_def dir_keys_def)
  then have "files (sw x2) ?k \<noteq> files (sw x1) ?k" using run assms(4) f1 by auto
  note A = abort_reap_order[OF 2 assms(2) this]
  have "dirs (sw x') = dirs (sw x2)" "jails (host (sw x')) = jails (host (sw x2))" using run w3 by (auto simp: touched_def)
  moreover have "files (sw x') ?k = files (sw x2) ?k" using run k3 by auto
  moreover have "files (sw x') (intent_file i) = None \<or> files (sw x') (intent_file i) = files (sw x2) (intent_file i)" using run i3 by auto
  ultimately show ?thesis using A b f1 by (auto split: if_splits)
qed

subsection \<open>The durable intent\<close>

text \<open>The intent on disk after a step of transaction \<open>i\<close>: as before, or the same transaction at a boundary no earlier.\<close>

definition intent_moves :: "'n snap_env \<Rightarrow> snapshot_intent \<Rightarrow> 'n snap_world \<Rightarrow> 'n snap_world \<Rightarrow> bool" where
  "intent_moves env i x y \<longleftrightarrow> files (sw y) (intent_file i) = files (sw x) (intent_file i)
     \<or> (\<exists>i' t. same_transaction i i' \<and> si_boundary i \<le> si_boundary i' \<and> xe_to_json env i' = Inr t \<and> files (sw y) (intent_file i) = Some t)"

interpretation intent_frame: step_frame "intent_moves env i" for env i
  by unfold_locales (auto simp: intent_moves_def)

lemma intent_moves_within: "within K D J x y \<Longrightarrow> intent_file i \<notin> K \<Longrightarrow> intent_moves env i x y"
  by (simp add: intent_moves_def within_def touched_def)

lemma intent_moves_same:
  "same_transaction i i' \<Longrightarrow> si_boundary i \<le> si_boundary i' \<Longrightarrow> intent_moves env i' x y \<Longrightarrow> intent_moves env i x y"
  unfolding intent_moves_def using same_transaction_trans same_transaction_fields(2) order_trans by (metis (no_types, lifting))

lemma tmp_not_intent: "snapshot_intent_tmp b \<noteq> snapshot_intent_name b"
proof
  assume "snapshot_intent_tmp b = snapshot_intent_name b"
  then have "CHR ''.'' # b @ ''.tmp'' = b @ ''.json''" by (simp add: snapshot_intent_tmp_def snapshot_intent_name_def)
  from arg_cong[OF this, of last] show False by simp
qed

lemma write_intent_moves:
  assumes "write_snapshot_intent env i' x = (r, y)" and "same_transaction i i'" and "si_boundary i \<le> si_boundary i'"
  shows "intent_moves env i x y"
proof -
  let ?b = "si_base_room_id i" and ?d = SNAPSHOT_INTENTS_DIR
  have b: "si_base_room_id i' = ?b" using same_transaction_fields(2)[OF assms(2)] .
  have "files (sw y) (intent_file i) = files (sw x) (intent_file i) \<or> (\<exists>t. xe_to_json env i' = Inr t \<and> files (sw y) (intent_file i) = Some t)"
    using assms(1) tmp_not_intent[of ?b] not_sym[OF tmp_not_intent[of ?b]]
    by (auto simp: write_snapshot_intent_def Let_def in_state_def on_state_def map_err_def and_then_def fs_defs b
        split: option.splits sum.splits prod.splits if_splits)
  then show ?thesis using assms(2,3) unfolding intent_moves_def by blast
qed

lemma advance_moves:
  assumes "advance env i b x = (r, y)" and "si_boundary i \<le> b"
  shows "intent_moves env i x y"
proof -
  have w: "write_snapshot_intent env (i\<lparr>si_boundary := b\<rparr>) x = (fst (write_snapshot_intent env (i\<lparr>si_boundary := b\<rparr>) x), y)"
    using assms(1) by (auto simp: advance_def and_then_def split: prod.splits sum.splits)
  show ?thesis by (rule write_intent_moves[OF w]) (simp_all add: same_transaction_def assms(2))
qed

lemma stage_moves:
  assumes "transaction_placed env i j"
  shows "intent_moves env i x (snd (drive_stage env i x))"
proof -
  note dist = placed_dirs[OF assms]
  have s: "intent_moves env i y (snd (stage_targets env i y))" for y
  proof -
    have "within (dir_keys {path_join j ''root''}) {} {} y (snd (stage_targets env i y))"
      unfolding stage_targets_def using placed_keys[OF assms] by (intro case_frames chain_frames frames stage_each_frame) (auto simp: dir_keys_def)
    then show ?thesis by (rule intent_moves_within) (use dist in \<open>auto simp: dir_keys_def\<close>)
  qed
  have a: "intent_moves env i y (snd (preflight_attestation_index env i y))" for y
    by (rule intent_moves_within[OF attestation_frame(2)[OF insertI1]]) (use dist in \<open>auto simp: attestation_keys_def\<close>)
  have o: "intent_moves env i y (snd (preflight_output (snap_inodes env) p y))" for p y
    by (rule intent_moves_within[OF preflight_frame[of "{}"]]) simp
  have adv: "intent_moves env i y (snd (advance env i BTargetsStaged y))" if "si_boundary i < BTargetsStaged" for y
    using advance_moves[of env i BTargetsStaged y "fst (advance env i BTargetsStaged y)"] that by (simp add: less_imp_le)
  show ?thesis unfolding drive_stage_def
    by (intro intent_frame.cond intent_frame.chain o a s adv) (simp_all add: intent_frame.refl)
qed

lemma collect_moves:
  assumes "transaction_placed env i j"
  shows "intent_moves env i x (snd (drive_collect env i x))"
proof -
  have p: "transaction_placed env i' j" if "same_transaction i i'" for i' using assms by (simp add: same_transaction_fields[OF that])
  note dist = placed_dirs[OF assms]
  have e: "intent_moves env i y (snd (execute_create env s i' y))" and c: "intent_moves env i y (snd (collect_pair env i' y))"
    if "same_transaction i i'" for s i' y
  proof -
    have "within (dir_keys {path_join j ''root'', si_out_dir i}) {} {} y (snd (execute_create env s i' y))"
      by (rule execute_create_frame) (simp_all add: placed_keys[OF p[OF that]] dir_keys_def)
    then show "intent_moves env i y (snd (execute_create env s i' y))" by (rule intent_moves_within) (use dist in \<open>auto simp: dir_keys_def\<close>)
    have "within (dir_keys {path_join j ''root'', si_out_dir i}) {} {} y (snd (collect_pair env i' y))"
      unfolding collect_pair_def using placed_keys[OF p[OF that]] same_transaction_fields[OF that]
      by (intro case_frames chain_frames frames copy_private_frame) (auto simp: dir_keys_def)
    then show "intent_moves env i y (snd (collect_pair env i' y))" by (rule intent_moves_within) (use dist in \<open>auto simp: dir_keys_def\<close>)
  qed
  have o: "intent_moves env i y (snd (execute_op env s op y))" "intent_moves env i y (snd (resume_vm env s y))" for s op y
    by (auto simp: execute_op_def resume_vm_def intro!: intent_moves_within[OF api_frame[of "{}"]] split: prod.splits)
  have adv: "intent_moves env i y (snd (advance env i' b y))" if "same_transaction i i'" "si_boundary i \<le> si_boundary i'" "si_boundary i' \<le> b" for i' b y
    using intent_moves_same[OF that(1,2) advance_moves[of env i' b y "fst (advance env i' b y)", OF _ that(3)]] by simp
  have s: "same_transaction i i' \<and> si_boundary i \<le> si_boundary i' \<and> si_boundary i' \<le> BCollected"
    if "(if si_boundary i < BPaused then (case r of (Inl e, x) \<Rightarrow> (Inl e, f x) | (Inr u, x) \<Rightarrow> advance env i BPaused x) else (Inr i, x)) = (Inr i', z)"
      and "si_boundary i < BCollected" for r f i' z x
    using that by (auto simp: boundary_order split: if_splits prod.splits sum.splits dest: advance_same)
  show ?thesis unfolding drive_collect_def execute_and_collect_def
    by (intro intent_frame.cond intent_frame.on_sum intent_frame.on_option intent_frame.chain intent_frame.branch o e c adv)
       (auto simp: intent_frame.refl less_imp_le o(2) dest: s)
qed

lemma reserve_reap_moves:
  assumes "transaction_placed env i j"
  shows "intent_moves env i x (snd (drive_reserve env i x))" "intent_moves env i x (snd (drive_reap env i x))"
proof -
  note dist = placed_dirs[OF assms]
  have adv: "intent_moves env i y (snd (advance env i b y))" if "si_boundary i < b" for y b
    using advance_moves[of env i b y "fst (advance env i b y)"] that by (simp add: less_imp_le)
  have r: "intent_moves env i y (snd (reserve_slot env i y))" for y
  proof -
    have "within (dir_keys {SLOTS_DIR}) {} {} y (snd (reserve_slot env i y))"
      unfolding reserve_slot_def reserve_def rewrite_slot_atomic_def rewrite_atomic_def slot_sync_dir_def
      by (intro case_frames chain_frames frames) (auto simp: dir_keys_def)
    then show ?thesis by (rule intent_moves_within) (use dist in \<open>auto simp: dir_keys_def\<close>)
  qed
  have j: "jail_instance_dir (xe_home env) (xe_config env) (si_base_room_id i) = Some j" using assms by (simp add: transaction_placed_def)
  have b: "intent_moves env i y (snd (reap_base env i y))" for y
  proof -
    have d: "within (dir_keys {si_base_room_id i, path_join j ''root''}) {si_base_room_id i} {j} z (snd (reap_base_dirs env (si_base_room_id i) j tap z))" for tap z
      using reap_dirs_ok(1)[of env "si_base_room_id i" j tap z "fst (reap_base_dirs env (si_base_room_id i) j tap z)"] by simp
    have "within (dir_keys {si_base_room_id i, path_join j ''root''}) {si_base_room_id i} {j} y (snd (reap_base env i y))"
      unfolding reap_base_def j option.case by (intro case_frames chain_frames frames d)
    then show ?thesis by (rule intent_moves_within) (use dist in \<open>auto simp: dir_keys_def\<close>)
  qed
  show "intent_moves env i x (snd (drive_reserve env i x))" "intent_moves env i x (snd (drive_reap env i x))"
    unfolding drive_reserve_def drive_reap_def by (intro intent_frame.cond intent_frame.chain r b adv; simp add: intent_frame.refl)+
qed

lemma publish_moves:
  assumes d: "drive_publish env i x = (r, x')" and p: "transaction_placed env i j"
  shows "intent_moves env i x x' \<or> sealed_set i x' \<and> attestation_sealed env i x' \<and> files (sw x') (intent_file i) = None"
proof -
  note dist = placed_dirs[OF p]
  have b: "si_boundary i \<le> BPublished" by (cases "si_boundary i") (auto simp: boundary_order)
  have m: "intent_moves env i y (snd (ensure_snapshot_metadata env i y))" "intent_moves env i y (snd (seal_snapshot env i y))"
    "intent_moves env i y (snd (ensure_snapshot_attestation env i y))" for y
    using dist
    by (auto intro!: intent_moves_within[OF metadata_file_frame[OF p]] intent_moves_within[OF seal_snapshot_frame[of "{}"]]
        intent_moves_within[OF attestation_frame(1)[OF insertI1]] simp: attestation_keys_def)
  have adv: "intent_moves env i y (snd (advance env i BPublished y))" for y
    using advance_moves[of env i BPublished y "fst (advance env i BPublished y)"] b by simp
  have "intent_moves env i x (snd (and_then (validate_collected env i x, x) (\<lambda>_ x. and_then (ensure_snapshot_metadata env i x) (\<lambda>_ x.
     and_then (seal_snapshot env i x) (\<lambda>_ x. and_then (ensure_snapshot_attestation env i x) (\<lambda>_ x. advance env i BPublished x))))))"
    by (intro intent_frame.chain m adv) (simp add: intent_frame.refl)
  note pre = this
  show ?thesis
  proof (cases "\<exists>x1 x2 x3 i4 x4. seal_snapshot env i x1 = (Inr (), x2) \<and> ensure_snapshot_attestation env i x2 = (Inr (), x3)
      \<and> advance env i BPublished x3 = (Inr i4, x4) \<and> snd (finish_snapshot_index env i4 x4) = x' \<and> intent_moves env i x x4")
    case True
    then obtain x1 x2 x3 i4 x4 where 2: "seal_snapshot env i x1 = (Inr (), x2)" and 3: "ensure_snapshot_attestation env i x2 = (Inr (), x3)"
      and 4: "advance env i BPublished x3 = (Inr i4, x4)" and 5: "snd (finish_snapshot_index env i4 x4) = x'" and mv: "intent_moves env i x x4" by blast
    have "si_base_room_id i4 = si_base_room_id i" using same_transaction_fields(2) advance_same[OF 4] by blast
    then have "files (sw x') (intent_file i) = None \<or> files (sw x') (intent_file i) = files (sw x4) (intent_file i)"
      using 5 by (auto simp: finish_snapshot_index_def in_state_def on_state_def map_err_def remove_file_def split: prod.splits sum.splits io_error.splits option.splits)
    moreover have "sw_flags x' = sw_flags x3" using advance_flags(1)[of env i BPublished x3] advance_flags(2)[of env i4 x4] 4 5 by simp
    then have "sealed_set i x'" "attestation_sealed env i x'" using seal_snapshot_marks(1)[OF 2] attestation_marks[OF 3]
      by (simp_all add: sealed_set_def immutable_def attestation_sealed_def split: option.splits sum.splits)
    ultimately show ?thesis using mv by (auto simp: intent_moves_def)
  next
    case False
    then show ?thesis using d pre
      by (auto simp: drive_publish_def and_then_def split: prod.splits sum.splits) (metis snd_conv)+
  qed
qed

definition forward :: "'n snap_env \<Rightarrow> snapshot_intent \<Rightarrow> 'n snap_world \<Rightarrow> 'n snap_world \<Rightarrow> bool" where
  "forward env i x y \<longleftrightarrow> intent_moves env i x y \<or> sealed_set i y \<and> attestation_sealed env i y \<and> files (sw y) (intent_file i) = None"

lemma forward_chain:
  assumes m: "intent_moves env i x (snd r)"
    and n: "\<And>i' y. r = (Inr i', y) \<Longrightarrow> same_transaction i i' \<and> si_boundary i \<le> si_boundary i' \<and> forward env i' y (snd (k i' y))"
  shows "forward env i x (snd (and_then r k))"
proof (cases "fst r")
  case (Inl e)
  then show ?thesis using m by (cases r) (simp add: forward_def)
next
  case (Inr i')
  obtain y where r: "r = (Inr i', y)" using Inr by (cases r) auto
  note N = n[OF r]
  note f = same_transaction_fields[OF N[THEN conjunct1]]
  have "forward env i y (snd (k i' y))"
    using N intent_moves_same[of i i' env y] same_attested[of i i' env] unfolding forward_def sealed_set_def f by blast
  then show ?thesis using m intent_frame.trans[of env i x y] r by (auto simp: forward_def)
qed

text \<open>C20. The durable intent only moves forward. After any run of a transaction, completed or broken off at any step, its file in the index
  is as before, or holds the same transaction at its boundary or a later one; it is removed only once the artifacts, the metadata and the
  directory of the snapshot are immutable, and the attestation too when the transaction recorded its rootfs. (A run that starts at the boundary
  \<open>BPublished\<close> does not seal again: there the files and the directory are assumed to be sealed as that boundary says.)\<close>

theorem intent_only_moves_forward:
  assumes "drive env i x = (r, x')" and "transaction_placed env i j" and "si_boundary i = BPublished \<Longrightarrow> sealed_set i x"
  shows "files (sw x') (intent_file i) = files (sw x) (intent_file i)
    \<or> (\<exists>i' t. same_transaction i i' \<and> si_boundary i \<le> si_boundary i' \<and> xe_to_json env i' = Inr t \<and> files (sw x') (intent_file i) = Some t)
    \<or> sealed_set i x' \<and> attestation_sealed env i x' \<and> files (sw x') (intent_file i) = None"
proof (cases "si_boundary i = BPublished")
  case True
  note dist = placed_dirs[OF assms(2)]
  obtain q x1 where a: "ensure_snapshot_attestation env i x = (q, x1)" by fastforce
  have w: "within attestation_keys {SNAPSHOT_ATTESTATIONS_DIR} {} x x1" using attestation_frame(1)[OF insertI1, of "{}" "{}" x env i] a by simp
  then have f1: "files (sw x1) (intent_file i) = files (sw x) (intent_file i)" using dist by (auto simp: within_def touched_def attestation_keys_def)
  show ?thesis
  proof (cases q)
    case (Inl e)
    then show ?thesis using assms(1) True a f1 by (simp add: drive_def)
  next
    case (Inr u)
    obtain z x2 where f: "finish_snapshot_index env i x1 = (z, x2)" by fastforce
    have x': "x' = x2" using assms(1) True a Inr f by (cases z) (auto simp: drive_def)
    have "sw_flags x' = sw_flags x1" using advance_flags(2)[of env i x1] f x' by simp
    then have "sealed_set i x'" "attestation_sealed env i x'" using assms(3)[OF True] attestation_marks[OF a[unfolded Inr]]
      by (simp_all add: sealed_set_def immutable_def attestation_sealed_def split: option.splits sum.splits)
    moreover have "files (sw x') (intent_file i) = None \<or> files (sw x') (intent_file i) = files (sw x1) (intent_file i)"
      using f x' by (auto simp: finish_snapshot_index_def in_state_def on_state_def map_err_def remove_file_def
          split: prod.splits sum.splits io_error.splits option.splits)
    ultimately show ?thesis using f1 by auto
  qed
next
  case False
  have p: "transaction_placed env i' j" if "same_transaction i i'" for i' using assms(2) by (simp add: same_transaction_fields[OF that])
  have s1: "same_transaction i i' \<and> si_boundary i \<le> si_boundary i'" if "drive_stage env i y = (Inr i', z)" for i' y z
    using that by (auto simp: drive_stage_def chain_simps boundary_order split: if_splits dest!: advance_same)
  have s2: "same_transaction k i' \<and> si_boundary k \<le> si_boundary i'" if "drive_collect env k y = (Inr i', z)" for k i' y z
    using that by (auto simp: drive_collect_def execute_and_collect_def chain_simps boundary_order split: sum.splits option.splits if_splits prod.splits
        dest!: advance_same intro: same_transaction_trans)
  have s3: "same_transaction k i' \<and> si_boundary k \<le> si_boundary i'" if "drive_reserve env k y = (Inr i', z)" for k i' y z
    using that by (auto simp: drive_reserve_def chain_simps boundary_order split: if_splits dest!: advance_same)
  have s4: "same_transaction k i' \<and> si_boundary k \<le> si_boundary i'" if "drive_reap env k y = (Inr i', z)" for k i' y z
    using that by (auto simp: drive_reap_def chain_simps boundary_order split: if_splits dest!: advance_same)
  have f4: "forward env k y (snd (and_then (drive_reap env k y) (drive_publish env)))" if k: "same_transaction i k" for k y
    using publish_moves[OF prod.collapse[symmetric] p] s4 same_transaction_trans[OF k]
    by (intro forward_chain reserve_reap_moves(2)[OF p[OF k]]) (auto simp: forward_def)
  have f3: "forward env k y (snd (and_then (drive_reserve env k y) (\<lambda>i x. and_then (drive_reap env i x) (drive_publish env))))" if k: "same_transaction i k" for k y
    using f4 s3 same_transaction_trans[OF k] by (intro forward_chain reserve_reap_moves(1)[OF p[OF k]]) blast
  have f2: "forward env k y (snd (and_then (drive_collect env k y) (\<lambda>i x. and_then (drive_reserve env i x) (\<lambda>i x. and_then (drive_reap env i x) (drive_publish env)))))"
    if k: "same_transaction i k" for k y
    using f3 s2 same_transaction_trans[OF k] by (intro forward_chain collect_moves[OF p[OF k]]) blast
  have "forward env i x (snd (drive env i x))"
    using f2 s1 False by (simp add: drive_def) (intro forward_chain stage_moves[OF assms(2)]; blast)
  then show ?thesis using assms(1) by (auto simp: forward_def intent_moves_def)
qed

subsection \<open>The attestation\<close>

text \<open>A restore trusts a recorded digest only for the exact publication. When \<open>attested_rootfs_hash\<close> returns a digest, an immutable
  attestation lies under the snapshot's id whose schema, directory, metadata and three inode identities are those the restore observed,
  and the digest is the one in the snapshot's metadata.\<close>

theorem attested_hash_is_bound:
  assumes "attested_rootfs_hash env dir m dir_source meta_source rootfs_source x = (Inr (Some h), y)"
  shows "h = sm_rootfs_hash m \<and> (\<exists>p bytes a. attestation_path env (sm_snapshot_id m) = Inr p \<and> immutable x p
    \<and> files (sw x) (path_key p) = Some bytes \<and> \<not> xe_irregular env (path_key p) \<and> xe_attestation_from_json env bytes = Inr a
    \<and> at_schema_version a = ATTESTATION_SCHEMA_VERSION \<and> path_eq (at_snapshot_dir a) dir \<and> at_meta a = m
    \<and> at_snapshot_dir_source a = dir_source \<and> at_snapshot_meta_source a = meta_source \<and> at_rootfs_source a = rootfs_source)"
proof -
  obtain p x1 bytes a where p: "attestation_path env (sm_snapshot_id m) = Inr p"
    and o: "open_regular (snap_inodes env) p ''snapshot attestation'' x = (Inr (), x1)"
    and b: "read_to_string (xe_io env) (fst (path_key p)) (snd (path_key p)) (sw x1) = Inr bytes"
    and a: "xe_attestation_from_json env bytes = Inr a" "attestation_matches a dir m dir_source meta_source rootfs_source" "h = sm_rootfs_hash (at_meta a)"
    using assms
    by (auto simp: attested_rootfs_hash_def Let_def and_then_def split: option.splits sum.splits if_splits prod.splits)
  have r: "require_with_ops (linux_flag_ops env p) p ''snapshot attestation'' x = (Inr (), x1)"
    using o by (auto simp: open_regular_def require_file_def snap_inodes_def split: sum.splits prod.splits if_splits)
  have k: "files (sw x) (path_key p) \<noteq> None \<and> \<not> xe_irregular env (path_key p)"
    using o by (auto simp: open_regular_def inode_metadata_def snap_inodes_def split: sum.splits prod.splits if_splits option.splits)
  have "sw x1 = sw x"
    using r by (auto simp: require_with_ops_def inspect_flags_def chain_simps linux_flag_ops_def split: if_splits option.splits)
  then have "files (sw x) (path_key p) = Some bytes" using read_to_string_Inr[OF b] by simp
  moreover have "immutable x p" using snap_inode.require_immutable(2)[OF r] by (simp add: immutable_def linux_flag_ops_def)
  ultimately show ?thesis using p k a by (auto simp: attestation_matches_def split: if_splits)
qed

subsection \<open>Completion\<close>

text \<open>A host that does not fail: no I/O errors, serialisation works, and the kernel sets the flags it is asked to set.\<close>

definition host_serves :: "'n snap_env \<Rightarrow> bool" where
  "host_serves env \<longleftrightarrow> no_faults (xe_io env) \<and> resolved_state_base (xe_home env) (xe_config env) \<noteq> None
     \<and> (\<forall>p b. xe_flag_get env p b = None \<and> xe_flag_sync env p b = None) \<and> (\<forall>p b f. xe_flag_set env p b f = (None, b))
     \<and> (\<forall>i. \<not> isl (xe_to_json env i)) \<and> (\<forall>m. xe_meta_to_json env m \<noteq> Inr [] \<and> \<not> isl (xe_meta_to_json env m))
     \<and> (\<forall>a. \<not> isl (xe_attestation_to_json env a)) \<and> (\<forall>k. \<not> xe_irregular env k)
     \<and> (\<forall>b p. \<not> isl (xe_identity env b p))"

text \<open>The listing of the attestation directory names each of its files once: abandoned temporary files and other attestations included.\<close>

definition attestations_listed :: "'n snap_env \<Rightarrow> 'n snap_world \<Rightarrow> bool" where
  "attestations_listed env x \<longleftrightarrow> (\<exists>names. xe_attestation_entries env = Inr (map Inr names) \<and> distinct names
     \<and> (\<forall>n. n \<in> set names \<longleftrightarrow> files (sw x) (SNAPSHOT_ATTESTATIONS_DIR, n) \<noteq> None))"

abbreviation attestation_temp :: "string \<Rightarrow> string \<Rightarrow> bool" where
  "attestation_temp sid name \<equiv> suffix ''.tmp'' name \<and> prefix (CHR ''.'' # sid @ ''.'') (take (length name - 4) name)"

lemma serves_io:
  assumes "host_serves env"
  shows "check_fault (xe_io env) op = Inr ()" "sync_dir (xe_io env) d = Inr ()" "pure_io env (Inr a) x = (Inr a, x)"
  using assms by (simp_all add: host_serves_def sync_dir_def pure_io_def)

lemma serves_seal:
  assumes "host_serves env" and "files (sw x) (path_key p) \<noteq> None \<or> dirs (sw x) p"
  shows "\<exists>y. inode_seal (snap_inodes env) p label x = (Inr (), y) \<and> sw y = sw x"
proof -
  have f: "xe_flag_get env p b = None" "xe_flag_sync env p b = None" "xe_flag_set env p b f = (None, b)" for b f
    using assms(1) by (simp_all add: host_serves_def)
  have "open_inode (snap_inodes env) p label x = Inr ()"
    using assms by (auto simp: open_inode_def snap_inodes_def serves_io[OF assms(1)])
  moreover have "(b OR IMMUTABLE_FLAG) AND IMMUTABLE_FLAG \<noteq> 0" for b
  proof
    assume "(b OR IMMUTABLE_FLAG) AND IMMUTABLE_FLAG = 0"
    then have "bit ((b OR IMMUTABLE_FLAG) AND IMMUTABLE_FLAG) 4 = bit (0 :: u32) 4" by simp
    then show False by (simp add: bit_simps IMMUTABLE_FLAG_def)
  qed
  ultimately show ?thesis
    by (simp add: inode_seal_def snap_inodes_def seal_with_ops_def require_with_ops_def inspect_flags_def linux_flag_ops_def f map_err_def)
qed

lemma serves_regular: "host_serves env \<Longrightarrow> \<not> xe_irregular env k"
  unfolding host_serves_def by blast

lemma serves_artifact:
  assumes "host_serves env" and "files (sw x) (path_key p) = Some c"
  shows "artifact_meta env p x = Inr (True, length c)" "c \<noteq> [] \<Longrightarrow> ensure_regular_nonempty env p x = Inr ()"
  using assms(2) by (simp_all add: artifact_meta_def ensure_regular_nonempty_def serves_io[OF assms(1)] serves_regular[OF assms(1)])

lemma serves_collected: "host_serves env \<Longrightarrow> collected i x \<Longrightarrow> validate_collected env i x = Inr ()"
  using serves_artifact(2) by (fastforce simp: validate_collected_def collected_def artifact_nonempty_def split: option.splits)

lemma serves_write:
  assumes "host_serves env" and "dirs (sw x) SNAPSHOT_INTENTS_DIR"
  shows "\<exists>y. write_snapshot_intent env i x = (Inr (), y) \<and> dirs (sw y) = dirs (sw x) \<and> host (sw y) = host (sw x)"
proof -
  obtain t where t: "xe_to_json env i = Inr t" using assms(1) unfolding host_serves_def by (metis isl_def sum.exhaust)
  obtain d where d: "snapshot_intents_dir (xe_home env) (xe_config env) = Some d"
    using assms(1) by (auto simp: host_serves_def snapshot_intents_dir_def)
  show ?thesis
    by (simp add: write_snapshot_intent_def d t Let_def in_state_def on_state_def open_truncate_def write_all_def rename_file_def
        assms(2) serves_io[OF assms(1)] map_err_def)
qed

lemma serves_advance:
  assumes "host_serves env" and "dirs (sw x) SNAPSHOT_INTENTS_DIR"
  shows "\<exists>y. advance env i b x = (Inr (i\<lparr>si_boundary := b\<rparr>), y) \<and> dirs (sw y) = dirs (sw x) \<and> host (sw y) = host (sw x)"
  using serves_write[OF assms, of "i\<lparr>si_boundary := b\<rparr>"] by (auto simp: advance_def)

lemma serves_finish: "host_serves env \<Longrightarrow> \<exists>y. finish_snapshot_index env i x = (Inr (), y)"
  by (simp add: finish_snapshot_index_def in_state_def on_state_def remove_file_def serves_io map_err_def split: option.split)

lemma serves_metadata:
  assumes "host_serves env" and "path_key (snapshot_meta_path i) = (d, n)" and "dirs (sw x) d"
    and "\<And>t. files (sw x) (d, n) = Some t \<Longrightarrow> t \<noteq> [] \<and> xe_meta_from_json env t = Inr (si_meta i)"
  shows "\<exists>y t. ensure_snapshot_metadata env i x = (Inr (), y) \<and> dirs (sw y) = dirs (sw x) \<and> files (sw y) (d, n) = Some t \<and> t \<noteq> []"
proof (cases "files (sw x) (d, n)")
  case None
  obtain t where t: "xe_meta_to_json env (si_meta i) = Inr t" "t \<noteq> []"
    using assms(1) unfolding host_serves_def by (metis isl_def sum.exhaust)
  show ?thesis
    using t None
    by (simp add: ensure_snapshot_metadata_def assms(2,3) read_to_string_def write_meta_atomic_def open_truncate_def write_all_def rename_file_def
        set_private_file_def in_state_def on_state_def map_err_def serves_io[OF assms(1)])
next
  case (Some t)
  then show ?thesis using assms(4)[OF Some] by (simp add: ensure_snapshot_metadata_def assms(2) read_to_string_def serves_io[OF assms(1)])
qed

definition expected_attestation :: "snapshot_intent \<Rightarrow> file_identity \<Rightarrow> file_identity \<Rightarrow> file_identity \<Rightarrow> snapshot_attestation" where
  "expected_attestation i dir_source meta_source rootfs_source =
     \<lparr>at_schema_version = ATTESTATION_SCHEMA_VERSION, at_snapshot_dir = si_out_dir i, at_snapshot_dir_source = dir_source,
      at_snapshot_meta_source = meta_source, at_rootfs_source = rootfs_source, at_meta = si_meta i\<rparr>"

text \<open>No attestation is recorded yet, or the one an earlier attempt of the same transaction recorded.\<close>

definition attestation_fits :: "'n snap_env \<Rightarrow> snapshot_intent \<Rightarrow> 'n snap_world \<Rightarrow> bool" where
  "attestation_fits env i x \<longleftrightarrow> (case files (sw x) (SNAPSHOT_ATTESTATIONS_DIR, si_snapshot_id i @ ''.json'') of
     None \<Rightarrow> True
   | Some t \<Rightarrow> t \<noteq> [] \<and> (\<forall>ds ms rs. xe_identity env False (si_out_dir i) = Inr ds \<and> xe_identity env False (snapshot_meta_path i) = Inr ms
       \<and> si_rootfs_source i = Some rs \<longrightarrow> xe_attestation_from_json env t = Inr (expected_attestation i ds ms rs)))"

lemma attestation_path_valid:
  assumes "host_serves env" and "is_valid_room_id sid"
  shows "attestation_path env sid = Inr (path_join SNAPSHOT_ATTESTATIONS_DIR (sid @ ''.json''))"
    "path_key (path_join SNAPSHOT_ATTESTATIONS_DIR (sid @ ''.json'')) = (SNAPSHOT_ATTESTATIONS_DIR, sid @ ''.json'')"
proof -
  show "attestation_path env sid = Inr (path_join SNAPSHOT_ATTESTATIONS_DIR (sid @ ''.json''))"
    using assms by (auto simp: attestation_path_def host_serves_def snapshot_attestations_dir_def)
  show "path_key (path_join SNAPSHOT_ATTESTATIONS_DIR (sid @ ''.json'')) = (SNAPSHOT_ATTESTATIONS_DIR, sid @ ''.json'')"
    using id_no_slash[OF assms(2)] by (intro path_key_join) (auto simp: SNAPSHOT_ATTESTATIONS_DIR_def slash_def)
qed

lemma serves_temps:
  assumes h: "host_serves env" and "distinct names" and "\<forall>n \<in> set names. files (sw x) (SNAPSHOT_ATTESTATIONS_DIR, n) \<noteq> None"
  shows "\<exists>b y. remove_attestation_temps env sid removed (map Inr names) x = (Inr b, y) \<and> dirs (sw y) = dirs (sw x)
    \<and> (\<forall>n. files (sw y) (SNAPSHOT_ATTESTATIONS_DIR, n) =
         (if n \<in> set names \<and> attestation_temp sid n then None else files (sw x) (SNAPSHOT_ATTESTATIONS_DIR, n)))"
  using assms(2,3)
proof (induction names arbitrary: removed x)
  case (Cons n names)
  show ?case
  proof (cases "attestation_temp sid n")
    case True
    define x1 where "x1 = x\<lparr>sw := (sw x)\<lparr>files := (files (sw x))((SNAPSHOT_ATTESTATIONS_DIR, n) := None)\<rparr>\<rparr>"
    have r: "on_state (remove_file (xe_io env) SNAPSHOT_ATTESTATIONS_DIR n) x = (Inr (), x1)"
      using Cons.prems by (auto simp: on_state_def remove_file_def serves_io[OF h] x1_def)
    obtain b y where y: "remove_attestation_temps env sid True (map Inr names) x1 = (Inr b, y)" "dirs (sw y) = dirs (sw x1)"
      "\<forall>m. files (sw y) (SNAPSHOT_ATTESTATIONS_DIR, m) =
         (if m \<in> set names \<and> attestation_temp sid m then None else files (sw x1) (SNAPSHOT_ATTESTATIONS_DIR, m))"
    proof -
      have "\<forall>m \<in> set names. files (sw x1) (SNAPSHOT_ATTESTATIONS_DIR, m) \<noteq> None" using Cons.prems by (auto simp: x1_def)
      then show thesis using Cons.IH[of x1 True] Cons.prems(1) that by auto
    qed
    have "remove_attestation_temps env sid removed (map Inr (n # names)) x = (Inr b, y)" using True r y(1) by simp
    then show ?thesis using y(2,3) True by (intro exI[of _ b] exI[of _ y]) (auto simp: x1_def)
  next
    case False
    then have "remove_attestation_temps env sid removed (map Inr (n # names)) x = remove_attestation_temps env sid removed (map Inr names) x" by auto
    moreover obtain b y where "remove_attestation_temps env sid removed (map Inr names) x = (Inr b, y)" "dirs (sw y) = dirs (sw x)"
      "\<forall>m. files (sw y) (SNAPSHOT_ATTESTATIONS_DIR, m) =
         (if m \<in> set names \<and> attestation_temp sid m then None else files (sw x) (SNAPSHOT_ATTESTATIONS_DIR, m))"
      using Cons.IH[of x removed] Cons.prems by auto
    ultimately show ?thesis using False by (intro exI[of _ b] exI[of _ y]) auto
  qed
qed simp

lemma serves_abandoned:
  assumes h: "host_serves env" and "attestations_listed env x"
  shows "\<exists>y. remove_abandoned_attestation_temps env sid x = (Inr (), y) \<and> dirs (sw y) = dirs (sw x)
    \<and> (\<forall>n. files (sw y) (SNAPSHOT_ATTESTATIONS_DIR, n) = (if attestation_temp sid n then None else files (sw x) (SNAPSHOT_ATTESTATIONS_DIR, n)))"
proof -
  obtain names where e: "xe_attestation_entries env = Inr (map Inr names)" "distinct names"
    and l: "\<And>n. n \<in> set names \<longleftrightarrow> files (sw x) (SNAPSHOT_ATTESTATIONS_DIR, n) \<noteq> None"
    using assms(2) by (auto simp: attestations_listed_def)
  obtain b y where y: "remove_attestation_temps env sid False (map Inr names) x = (Inr b, y)" "dirs (sw y) = dirs (sw x)"
    "\<forall>n. files (sw y) (SNAPSHOT_ATTESTATIONS_DIR, n) =
       (if n \<in> set names \<and> attestation_temp sid n then None else files (sw x) (SNAPSHOT_ATTESTATIONS_DIR, n))"
    using serves_temps[OF h e(2), of x sid False] l by blast
  then show ?thesis using l by (auto simp: remove_abandoned_attestation_temps_def e(1) serves_io[OF h])
qed

lemma serves_attestation_file:
  assumes h: "host_serves env" and k: "path_key p = (SNAPSHOT_ATTESTATIONS_DIR, n)" and "dirs (sw x) SNAPSHOT_ATTESTATIONS_DIR"
    and "files (sw x) (path_key p) = None \<or> (\<exists>t. files (sw x) (path_key p) = Some t \<and> t \<noteq> [] \<and> xe_attestation_from_json env t = Inr a)"
    and l: "attestations_listed env x" and n: "\<not> suffix ''.tmp'' n"
  shows "\<exists>y. ensure_attestation_file env p a x = (Inr (), y) \<and> dirs (sw y) = dirs (sw x) \<and> files (sw y) (path_key p) \<noteq> None"
proof (cases "files (sw x) (path_key p)")
  case None
  obtain t where t: "xe_attestation_to_json env a = Inr t" using h unfolding host_serves_def by (metis isl_def sum.exhaust)
  let ?sid = "sm_snapshot_id (at_meta a)" and ?tmp = "CHR ''.'' # sm_snapshot_id (at_meta a) @ ''.'' @ xe_fresh_id env @ ''.tmp''"
  have tmp: "attestation_temp ?sid ?tmp" "?tmp \<noteq> n" using n by (auto simp: suffix_def prefix_def)
  obtain y where y: "remove_abandoned_attestation_temps env ?sid x = (Inr (), y)" "dirs (sw y) = dirs (sw x)"
    "\<And>m. files (sw y) (SNAPSHOT_ATTESTATIONS_DIR, m) = (if attestation_temp ?sid m then None else files (sw x) (SNAPSHOT_ATTESTATIONS_DIR, m))"
    using serves_abandoned[OF h l, of ?sid] by blast
  have f: "files (sw y) (SNAPSHOT_ATTESTATIONS_DIR, ?tmp) = None" "files (sw y) (SNAPSHOT_ATTESTATIONS_DIR, n) = None"
    using y(3) tmp None k n by auto
  have r: "read_attestation env p x = Inr None" using None by (simp add: read_attestation_def artifact_meta_def)
  show ?thesis using assms(3) y(2) f tmp(2) not_sym[OF tmp(2)]
    by (simp add: ensure_attestation_file_def r Let_def y(1) t in_state_def on_state_def map_err_def
        create_new_file_def write_all_def rename_file_def remove_file_def remove_own_temp_def k serves_io[OF h])
next
  case (Some t)
  then have "read_attestation env p x = Inr (Some a)"
    using assms(4) serves_artifact(1)[OF h Some] by (simp add: read_attestation_def read_to_string_def serves_io[OF h])
  then show ?thesis using Some by (simp add: ensure_attestation_file_def)
qed

lemma serves_attestation:
  assumes h: "host_serves env" and v: "is_valid_room_id (si_snapshot_id i)" and "sm_snapshot_id (si_meta i) = si_snapshot_id i"
    and fits: "attestation_fits env i x"
    and l: "attestations_listed env x"
  shows "\<exists>y. ensure_snapshot_attestation env i x = (Inr (), y) \<and> (\<forall>d. dirs (sw x) d \<longrightarrow> dirs (sw y) d)"
proof (cases "si_rootfs_source i")
  case (Some src)
  let ?p = "path_join SNAPSHOT_ATTESTATIONS_DIR (si_snapshot_id i @ ''.json'')" and ?d = SNAPSHOT_ATTESTATIONS_DIR
  note P = attestation_path_valid[OF h v]
  obtain ds ms where id: "xe_identity env False (si_out_dir i) = Inr ds" "xe_identity env False (snapshot_meta_path i) = Inr ms"
    using h unfolding host_serves_def by (metis isl_def sum.exhaust)
  define a where "a = expected_attestation i ds ms src"
  define x1 where "x1 = x\<lparr>sw := (sw x)\<lparr>dirs := (dirs (sw x))(?d := True)\<rparr>\<rparr>"
  have x1: "open_attestation_index env x = (Inr (), x1)"
    using h by (auto simp: open_attestation_index_def host_serves_def snapshot_attestations_dir_def in_state_def on_state_def create_dir_all_def
        map_err_def serves_io[OF h] x1_def pure_io_def)
  have n: "\<not> suffix ''.tmp'' (si_snapshot_id i @ ''.json'')" by (auto simp: suffix_def dest: arg_cong[of _ _ last])
  have l1: "attestations_listed env x1" using l by (simp add: attestations_listed_def x1_def)
  have c: "files (sw x1) (path_key ?p) = None \<or> (\<exists>t. files (sw x1) (path_key ?p) = Some t \<and> t \<noteq> [] \<and> xe_attestation_from_json env t = Inr a)"
    using fits id Some by (auto simp: attestation_fits_def P(2) x1_def a_def split: option.splits)
  obtain x2 where x2: "ensure_attestation_file env ?p a x1 = (Inr (), x2)" "dirs (sw x2) = dirs (sw x1)" "files (sw x2) (path_key ?p) \<noteq> None"
    using serves_attestation_file[OF h P(2) _ c l1 n] by (auto simp: x1_def)
  obtain x3 where x3: "inode_seal (snap_inodes env) ?p ''snapshot attestation'' x2 = (Inr (), x3)" "sw x3 = sw x2"
    using serves_seal[OF h, of x2 ?p] x2(3) by blast
  have "ensure_snapshot_attestation env i x = (Inr (), x3)"
    using x1 x2(1) x3(1) by (simp add: ensure_snapshot_attestation_def Some id serves_io[OF h] P(1) a_def expected_attestation_def)
  then show ?thesis using x2(2) x3(2) by (auto simp: x1_def)
qed (simp add: ensure_snapshot_attestation_def)

lemma serves_seal_snapshot:
  assumes h: "host_serves env" and "collected i x" and "files (sw x) (path_key (snapshot_meta_path i)) = Some t" "t \<noteq> []" and "dirs (sw x) (si_out_dir i)"
  shows "\<exists>y. seal_snapshot env i x = (Inr (), y) \<and> sw y = sw x"
proof -
  have f: "files (sw x) (path_key (si_host_vmstate i)) \<noteq> None" "files (sw x) (path_key (si_host_mem i)) \<noteq> None"
    using assms(2) by (auto simp: collected_def artifact_nonempty_def split: option.splits)
  obtain x1 where 1: "inode_seal (snap_inodes env) (si_host_vmstate i) ''snapshot vmstate'' x = (Inr (), x1)" "sw x1 = sw x"
    using serves_seal[OF h, of x "si_host_vmstate i"] f by blast
  obtain x2 where 2: "inode_seal (snap_inodes env) (si_host_mem i) ''snapshot memory'' x1 = (Inr (), x2)" "sw x2 = sw x"
    using serves_seal[OF h, of x1 "si_host_mem i"] f 1(2) by metis
  obtain x3 where 3: "inode_seal (snap_inodes env) (snapshot_meta_path i) ''snapshot metadata'' x2 = (Inr (), x3)" "sw x3 = sw x"
    using serves_seal[OF h, of x2 "snapshot_meta_path i"] assms(3) 2(2) by (metis option.distinct(1))
  obtain x4 where 4: "inode_seal (snap_inodes env) (si_out_dir i) ''snapshot directory'' x3 = (Inr (), x4)" "sw x4 = sw x"
    using serves_seal[OF h, of x3 "si_out_dir i"] assms(5) 3(2) by metis
  show ?thesis using serves_artifact(2)[OF h assms(3,4)] 1 2 3 4 by (simp add: seal_snapshot_def)
qed

text \<open>What a transaction past its reap needs in the world: the collected pair, its directories, and no foreign file in its place, with the
  attestation directory listed as it is.\<close>

definition reaped_ready :: "'n snap_env \<Rightarrow> snapshot_intent \<Rightarrow> 'n snap_world \<Rightarrow> bool" where
  "reaped_ready env i x \<longleftrightarrow> BReaped \<le> si_boundary i \<and> collected i x \<and> dirs (sw x) (si_out_dir i) \<and> dirs (sw x) SNAPSHOT_INTENTS_DIR
     \<and> sm_snapshot_id (si_meta i) = si_snapshot_id i \<and> sm_slot_index (si_meta i) \<noteq> None \<and> sm_guest_ip (si_meta i) \<noteq> None
     \<and> (case files (sw x) (path_key (snapshot_meta_path i)) of None \<Rightarrow> True | Some t \<Rightarrow> t \<noteq> [] \<and> xe_meta_from_json env t = Inr (si_meta i))
     \<and> attestation_fits env i x \<and> attestations_listed env x"

lemma reaped_completes:
  assumes h: "host_serves env" and p: "transaction_placed env i j" and r: "reaped_ready env i x"
  shows "\<exists>res x'. drive env i x = (Inr res, x') \<and> result_from i = Inr res \<and> files (sw x') (intent_file i) = None"
proof -
  have v: "is_valid_room_id (si_snapshot_id i)" using p by (simp add: transaction_placed_def)
  note k = placed_keys[OF p] and dist = placed_dirs[OF p]
  have sid: "sm_snapshot_id (si_meta i) = si_snapshot_id i" and fits: "attestation_fits env i x"
    and l: "attestations_listed env x"
    using r by (simp_all add: reaped_ready_def)
  obtain res where res: "result_from i = Inr res" using r by (auto simp: reaped_ready_def result_from_def)
  show ?thesis
  proof (cases "si_boundary i = BPublished")
    case True
    obtain x1 where "ensure_snapshot_attestation env i x = (Inr (), x1)" using serves_attestation[OF h v sid fits l] by blast
    moreover obtain x2 where "finish_snapshot_index env i x1 = (Inr (), x2)" using serves_finish[OF h] by blast
    ultimately show ?thesis using True res finish_removes[of env i x1 "()" x2] by (simp add: drive_def)
  next
    case False
    then have b: "si_boundary i = BReaped" using r by (cases "si_boundary i") (auto simp: reaped_ready_def boundary_order)
    obtain x1 t where 1: "ensure_snapshot_metadata env i x = (Inr (), x1)" "dirs (sw x1) = dirs (sw x)"
      "files (sw x1) (path_key (snapshot_meta_path i)) = Some t" "t \<noteq> []"
      using serves_metadata[OF h k(5), of x] r k(5) by (auto simp: reaped_ready_def split: option.splits)
    have w1: "within {(si_out_dir i, SNAPSHOT_META_FILE), (si_out_dir i, SNAPSHOT_META_TMP)} {} {} x x1"
      using metadata_file_frame[OF p, of "{}" "{}" x] 1(1) by simp
    have c1: "collected i x1" using collected_within[OF w1, of i] r
      by (simp add: reaped_ready_def k SNAPSHOT_META_FILE_def SNAPSHOT_META_TMP_def SNAPSHOT_VMSTATE_FILE_def SNAPSHOT_MEM_FILE_def)
    obtain x2 where 2: "seal_snapshot env i x1 = (Inr (), x2)" "sw x2 = sw x1"
      using serves_seal_snapshot[OF h c1 1(3,4)] r 1(2) by (auto simp: reaped_ready_def)
    have a: "files (sw x2) (SNAPSHOT_ATTESTATIONS_DIR, m) = files (sw x) (SNAPSHOT_ATTESTATIONS_DIR, m)" for m
      using w1 2(2) dist by (auto simp: within_def touched_def)
    obtain x3 where 3: "ensure_snapshot_attestation env i x2 = (Inr (), x3)" "\<And>d. dirs (sw x2) d \<Longrightarrow> dirs (sw x3) d"
      using serves_attestation[OF h v sid, of x2] fits l a by (auto simp: attestation_fits_def attestations_listed_def)
    obtain x4 where 4: "advance env i BPublished x3 = (Inr (i\<lparr>si_boundary := BPublished\<rparr>), x4)"
      using serves_advance[OF h, of x3 i BPublished] 3(2) r 1(2) 2(2) by (auto simp: reaped_ready_def)
    obtain x5 where 5: "finish_snapshot_index env (i\<lparr>si_boundary := BPublished\<rparr>) x4 = (Inr (), x5)" using serves_finish[OF h] by blast
    have "result_from (i\<lparr>si_boundary := BPublished\<rparr>) = Inr res" using res by (auto simp: result_from_def split: option.splits)
    then have "drive_publish env i x = (Inr res, x5)"
      using serves_collected[OF h, of i x] r 1(1) 2(1) 3(1) 4 5 by (simp add: drive_publish_def reaped_ready_def)
    then have "drive env i x = (Inr res, x5)" using b
      by (simp add: drive_def drive_stage_def drive_collect_def drive_reserve_def drive_reap_def boundary_order)
    then show ?thesis using res finish_removes[OF 5] by simp
  qed
qed

text \<open>C21. A transaction past its reap completes. Once the base is gone, driving the transaction on a host that does not fail returns the
  snapshot and removes the intent, from both remaining boundaries and whatever part of the publication (metadata, seals,
  attestation, abandoned temporary files of the attestation) an earlier attempt had already done, and whatever other attestations the host holds; the
  listing of the attestation directory is assumed to name its files.\<close>

theorem reaped_transaction_completes:
  assumes "host_serves env" and "transaction_placed env i j" and "reaped_ready env i x"
  shows "\<exists>res x'. drive env i x = (Inr res, x') \<and> result_from i = Inr res \<and> files (sw x') (intent_file i) = None"
  by (rule reaped_completes[OF assms])

subsection \<open>A small host\<close>

definition demo_ident :: file_identity where
  "demo_ident = \<lparr>fi_device = 1, fi_inode = 2, fi_len = 3, fi_mode = 4, fi_mtime = 5, fi_mtime_nsec = 6, fi_ctime = 7, fi_ctime_nsec = 8\<rparr>"

definition demo_snap_meta :: snapshot_meta where
  "demo_snap_meta = \<lparr>sm_schema_version = 1, sm_snapshot_id = demo_owner, sm_created_at = 0, sm_fc_version = ''v1'', sm_rootfs_hash = ''sha256:0'',
     sm_base_room_id = demo_owner, sm_slot_index = Some 1, sm_guest_ip = Some (172, 16, 0, 6), sm_base_repo_sha = None,
     sm_toolstore_sha256 = None, sm_provenance = Neutral\<rparr>"

definition demo_attested :: snapshot_attestation where
  "demo_attested = \<lparr>at_schema_version = 1, at_snapshot_dir = ''/o'', at_snapshot_dir_source = demo_ident, at_snapshot_meta_source = demo_ident,
     at_rootfs_source = demo_ident, at_meta = demo_snap_meta\<rparr>"

definition demo_snap :: "bool snap_env" where
  "demo_snap = \<lparr>xe_reap = demo_reap_env, xe_home = None, xe_config = default_config\<lparr>state_base := Some ''/s'', jailer_chroot_base := Some ''/c''\<rparr>,
     xe_index = \<lparr>ix_exists = (\<lambda>_. True), ix_canonicalize = Inr, ix_cwd = Inr ''/'', ix_entries = Inr [], ix_from_json = (\<lambda>_. Inl []),
       ix_try_lock = (\<lambda>_. Inr True), ix_text = (\<lambda>_. [])\<rparr>,
     xe_from_slice = (\<lambda>_. Inl []), xe_to_json = (\<lambda>i. Inr (if si_aborted i then ''aborted'' else snapshot_boundary_label (si_boundary i))),
     xe_meta_to_json = (\<lambda>m. Inr (if m = demo_snap_meta then ''demo'' else ''other'')),
     xe_meta_from_json = (\<lambda>t. if t = ''demo'' then Inr demo_snap_meta else Inl ''bad''),
     xe_attestation_to_json = (\<lambda>_. Inr ''att''), xe_attestation_from_json = (\<lambda>t. if t = ''att'' then Inr demo_attested else Inl ''bad''),
     xe_irregular = (\<lambda>_. False), xe_ids = Inr (0, 0), xe_api = (\<lambda>_ _ _ _ n. (Inr (), n)), xe_created = (\<lambda>_. (Some ''v'', Some ''m'')),
     xe_flag_get = (\<lambda>_ _. None), xe_flag_set = (\<lambda>_ b _. (None, b)), xe_flag_sync = (\<lambda>_ _. None), xe_identity = (\<lambda>_ _. Inr demo_ident),
     xe_sha256 = (\<lambda>_. Inr ''sha256:0''), xe_jail_entries = (\<lambda>_. Inr []), xe_attestation_entries = Inr [], xe_occupied = (\<lambda>_. Inr False),
     xe_out_key = (\<lambda>_. []), xe_new_id = demo_owner, xe_fresh_id = ''0'', xe_now = 0\<rparr>"

definition demo_jail_dir :: string where "demo_jail_dir = ''/c/firecracker/'' @ demo_owner"

definition demo_intent :: "snapshot_boundary \<Rightarrow> snapshot_intent" where
  "demo_intent b = \<lparr>si_schema_version = 1, si_snapshot_id = demo_owner, si_base_room_id = demo_owner, si_meta = demo_snap_meta,
     si_rootfs_source = Some demo_ident, si_out_dir = ''/o'', si_host_vmstate = ''/o/snapshot.vmstate'', si_host_mem = ''/o/snapshot.mem'',
     si_jail_vmstate = path_join (path_join demo_jail_dir ''root'') SNAPSHOT_VMSTATE_FILE,
     si_jail_mem = path_join (path_join demo_jail_dir ''root'') SNAPSHOT_MEM_FILE, si_boundary = b, si_aborted = False\<rparr>"

definition demo_snap_world :: "bool \<Rightarrow> (string \<times> string) list \<Rightarrow> bool snap_world" where
  "demo_snap_world base fs = \<lparr>sw = \<lparr>dirs = (\<lambda>d. d \<in> {''/o'', SNAPSHOT_INTENTS_DIR, SLOTS_DIR, path_join demo_jail_dir ''root''} \<or> d = demo_owner \<and> base),
       files = (\<lambda>p. if p = (SLOTS_DIR, ''1'') then Some (claim_text demo_owner demo_me)
                    else if p = (SNAPSHOT_INTENTS_DIR, demo_owner @ ''.json'') then Some ''intent''
                    else if fst p = ''/o'' then map_of fs (snd p)
                    else if fst p = path_join demo_jail_dir ''root'' then map_of [(SNAPSHOT_VMSTATE_FILE, []), (SNAPSHOT_MEM_FILE, [])] (snd p)
                    else None),
       host = \<lparr>jails = (\<lambda>_. None), clone_side = \<lparr>markers = Map.empty, net_state = False\<rparr>\<rparr>\<rparr>, sw_flags = (\<lambda>_. 0)\<rparr>"

lemma demo_placed: "transaction_placed demo_snap (demo_intent b) demo_jail_dir"
  by (simp add: transaction_placed_def demo_intent_def demo_snap_def is_valid_room_id_def demo_owner_def is_ascii_digit_def is_ascii_lowercase_def
      jail_instance_dir_def chroot_base_def default_config_def path_join_def has_root_def slash_def demo_jail_dir_def
      SNAPSHOT_VMSTATE_FILE_def SNAPSHOT_MEM_FILE_def)

lemma demo_intent_sel:
  "si_boundary (demo_intent b) = b" "si_meta (demo_intent b) = demo_snap_meta" "sm_slot_index demo_snap_meta = Some 1" "si_base_room_id (demo_intent b) = demo_owner"
  "si_snapshot_id (demo_intent b) = demo_owner" "si_aborted (demo_intent b) = False"
  "xe_meta_to_json demo_snap demo_snap_meta = Inr ''demo''" "xe_meta_from_json demo_snap ''demo'' = Inr demo_snap_meta"
  by (simp_all add: demo_intent_def demo_snap_def, simp add: demo_snap_meta_def)

lemma demo_serves: "host_serves demo_snap"
  by (simp add: host_serves_def demo_snap_def demo_reap_env_def demo_env_def no_faults_def resolved_state_base_def)

definition demo_pair :: "(string \<times> string) list" where "demo_pair = [(''snapshot.vmstate'', ''v''), (''snapshot.mem'', ''m'')]"

lemma demo_files:
  "files (sw (demo_snap_world b fs)) (SNAPSHOT_ATTESTATIONS_DIR, n) = None"
  "files (sw (demo_snap_world b fs)) (''/o'', n) = map_of fs n"
  "files (sw (demo_snap_world b fs)) (SLOTS_DIR, ''1'') = Some (claim_text demo_owner demo_me)"
  "files (sw (demo_snap_world b fs)) (demo_owner, n) = None"
  using placed_dirs[OF demo_placed[of BReaped]] by (auto simp: demo_snap_world_def demo_intent_def)

lemma demo_ready: "reaped_ready demo_snap (demo_intent BReaped) (demo_snap_world False demo_pair)"
proof -
  note k = placed_keys[OF demo_placed[of BReaped]]
  have o: "si_out_dir (demo_intent b) = ''/o''" "sm_snapshot_id demo_snap_meta = demo_owner" "sm_guest_ip demo_snap_meta \<noteq> None" for b
    by (simp_all add: demo_intent_def demo_snap_meta_def)
  have c: "collected (demo_intent BReaped) (demo_snap_world False demo_pair)"
    by (simp add: collected_def artifact_nonempty_def k o demo_files) (simp add: demo_pair_def SNAPSHOT_VMSTATE_FILE_def SNAPSHOT_MEM_FILE_def)
  have "map_of demo_pair SNAPSHOT_META_FILE = None" by (simp add: demo_pair_def SNAPSHOT_META_FILE_def)
  moreover have "dirs (sw (demo_snap_world False demo_pair)) ''/o''" "dirs (sw (demo_snap_world False demo_pair)) SNAPSHOT_INTENTS_DIR"
    by (simp_all add: demo_snap_world_def)
  moreover have "attestations_listed demo_snap (demo_snap_world False demo_pair)"
    unfolding attestations_listed_def by (rule exI[of _ "[]"]) (simp add: demo_files, simp add: demo_snap_def)
  ultimately show ?thesis using c by (simp add: reaped_ready_def k o demo_files demo_intent_sel attestation_fits_def)
qed

theorem reaped_transaction_completes_witness:
  "\<exists>res x'. drive demo_snap (demo_intent BReaped) (demo_snap_world False demo_pair) = (Inr res, x')
     \<and> files (sw x') (SNAPSHOT_INTENTS_DIR, demo_owner @ ''.json'') = None"
  using reaped_transaction_completes[OF demo_serves demo_placed demo_ready] by (simp add: demo_intent_def snapshot_intent_name_def) blast

text \<open>The same host with the slot reserved, as the boundary after the reap says.\<close>

definition demo_reaped_world :: "bool snap_world" where
  "demo_reaped_world = (demo_snap_world False demo_pair)\<lparr>sw := (sw (demo_snap_world False demo_pair))
     \<lparr>files := (files (sw (demo_snap_world False demo_pair)))((SLOTS_DIR, ''1'') \<mapsto> reservation_token demo_owner)\<rparr>\<rparr>"

lemma demo_reaped:
  "reaped_ready demo_snap (demo_intent BReaped) demo_reaped_world" "boundary_true demo_snap 1 demo_jail_dir (demo_intent BReaped) demo_reaped_world"
proof -
  let ?x = "demo_snap_world False demo_pair" and ?i = "demo_intent BReaped"
  note k = placed_keys[OF demo_placed[of BReaped]] and dist = placed_dirs[OF demo_placed[of BReaped]]
  have o: "si_out_dir ?i \<noteq> SLOTS_DIR" "SNAPSHOT_ATTESTATIONS_DIR \<noteq> SLOTS_DIR" using dist by auto
  have w: "dirs (sw demo_reaped_world) = dirs (sw ?x)" "host (sw demo_reaped_world) = host (sw ?x)"
    "d \<noteq> SLOTS_DIR \<Longrightarrow> files (sw demo_reaped_world) (d, n) = files (sw ?x) (d, n)" for d n by (simp_all add: demo_reaped_world_def)
  have c: "collected ?i demo_reaped_world = collected ?i ?x" using o w(3) by (simp add: collected_def artifact_nonempty_def k)
  show r: "reaped_ready demo_snap ?i demo_reaped_world"
    using demo_ready o w unfolding reaped_ready_def c by (simp add: k attestation_fits_def attestations_listed_def)
  have "slot_state (sw demo_reaped_world) 1 = Some (TokReserved demo_owner)"
    by (simp add: slot_state_def demo_reaped_world_def parse_reservation_token)
  moreover have "\<not> dirs (sw ?x) demo_owner" "jails (host (sw ?x)) demo_jail_dir = None"
    using dist by (auto simp: demo_snap_world_def demo_intent_def)
  ultimately show "boundary_true demo_snap 1 demo_jail_dir ?i demo_reaped_world"
    using r w by (simp add: boundary_true_def reaped_ready_def demo_intent_sel boundary_order)
qed

theorem published_snapshot_complete_witness:
  "\<exists>res x'. drive demo_snap (demo_intent BReaped) demo_reaped_world = (Inr res, x') \<and> sealed_set (demo_intent BReaped) x'
     \<and> metadata_recorded demo_snap (demo_intent BReaped) x' \<and> slot_state (sw x') 1 = Some (TokReserved demo_owner)"
proof -
  obtain res x' where d: "drive demo_snap (demo_intent BReaped) demo_reaped_world = (Inr res, x')"
    using reaped_completes[OF demo_serves demo_placed demo_reaped(1)] by blast
  show ?thesis
    using published_snapshot_complete[OF d demo_reaped(2) demo_placed] d by (simp add: demo_intent_sel)
qed

theorem intent_only_moves_forward_witness:
  "\<exists>r x'. drive demo_snap (demo_intent BReaped) (demo_snap_world False demo_pair) = (r, x') \<and> (sealed_set (demo_intent BReaped) x'
     \<or> files (sw x') (SNAPSHOT_INTENTS_DIR, demo_owner @ ''.json'') \<noteq> None)"
proof -
  obtain r x' where d: "drive demo_snap (demo_intent BReaped) (demo_snap_world False demo_pair) = (r, x')" by fastforce
  have "files (sw (demo_snap_world False demo_pair)) (SNAPSHOT_INTENTS_DIR, demo_owner @ ''.json'') \<noteq> None" by (simp add: demo_snap_world_def)
  then show ?thesis using intent_only_moves_forward[OF d demo_placed] d by (auto simp: demo_intent_sel snapshot_intent_name_def)
qed

definition demo_attested_world :: "bool snap_world" where
  "demo_attested_world = \<lparr>sw = \<lparr>dirs = (\<lambda>_. True), files = (\<lambda>p. if p = (SNAPSHOT_ATTESTATIONS_DIR, demo_owner @ ''.json'') then Some ''att'' else None),
     host = \<lparr>jails = (\<lambda>_. None), clone_side = \<lparr>markers = Map.empty, net_state = False\<rparr>\<rparr>\<rparr>, sw_flags = (\<lambda>_. IMMUTABLE_FLAG)\<rparr>"

theorem attested_hash_is_bound_witness:
  "\<exists>y. attested_rootfs_hash demo_snap ''/o'' demo_snap_meta demo_ident demo_ident demo_ident demo_attested_world = (Inr (Some ''sha256:0''), y)
     \<and> immutable demo_attested_world (path_join SNAPSHOT_ATTESTATIONS_DIR (demo_owner @ ''.json''))"
proof -
  let ?p = "path_join SNAPSHOT_ATTESTATIONS_DIR (demo_owner @ ''.json'')"
  have v: "is_valid_room_id demo_owner" using demo_placed[of BPaused] by (simp add: transaction_placed_def demo_intent_sel)
  note P = attestation_path_valid[OF demo_serves v]
  have s: "sm_snapshot_id demo_snap_meta = demo_owner" "sm_rootfs_hash demo_snap_meta = ''sha256:0''" by (simp_all add: demo_snap_meta_def)
  have ad: "snapshot_attestations_dir (xe_home demo_snap) (xe_config demo_snap) \<noteq> None"
    using demo_serves by (simp add: host_serves_def snapshot_attestations_dir_def)
  have w: "dirs (sw demo_attested_world) d" "files (sw demo_attested_world) (path_key ?p) = Some ''att''" "sw_flags demo_attested_world q = IMMUTABLE_FLAG" for d q
    by (simp_all add: demo_attested_world_def P(2))
  have f: "xe_flag_get demo_snap p b = None" for p b by (simp add: demo_snap_def)
  have rq: "require_with_ops (linux_flag_ops demo_snap ?p) ?p l demo_attested_world = (Inr (), demo_attested_world)" for l
    by (simp add: require_with_ops_def inspect_flags_def linux_flag_ops_def f w map_err_def) (simp add: IMMUTABLE_FLAG_def)
  have o: "open_regular (snap_inodes demo_snap) ?p l demo_attested_world = (Inr (), demo_attested_world)" for l
    by (simp add: open_regular_def open_inode_def inode_metadata_def require_file_def snap_inodes_def w serves_io[OF demo_serves] serves_regular[OF demo_serves] rq)
  have m: "ie_metadata (snap_inodes demo_snap) ?p demo_attested_world = Inr (RegularFile, 3)"
    by (simp add: snap_inodes_def w serves_regular[OF demo_serves])
  have q: "require_file (snap_inodes demo_snap) ?p l demo_attested_world = (Inr (), demo_attested_world)" for l
    by (simp add: require_file_def snap_inodes_def rq)
  have r: "read_to_string (xe_io demo_snap) (fst (path_key ?p)) (snd (path_key ?p)) (sw demo_attested_world) = Inr ''att''"
    using w(2) by (simp add: read_to_string_def serves_io[OF demo_serves])
  have a: "xe_attestation_from_json demo_snap ''att'' = Inr demo_attested" "at_meta demo_attested = demo_snap_meta" by (simp_all add: demo_snap_def demo_attested_def)
  have ma: "attestation_matches demo_attested ''/o'' demo_snap_meta demo_ident demo_ident demo_ident"
    by (simp add: attestation_matches_def demo_attested_def ATTESTATION_SCHEMA_VERSION_def path_eq_def)
  have "attested_rootfs_hash demo_snap ''/o'' demo_snap_meta demo_ident demo_ident demo_ident demo_attested_world = (Inr (Some ''sha256:0''), demo_attested_world)"
    using ad by (auto simp: attested_rootfs_hash_def w serves_io[OF demo_serves] serves_regular[OF demo_serves] s P(1) o m q r a ma MAX_ATTESTATION_BYTES_def)
  then show ?thesis using attested_hash_is_bound[of demo_snap "''/o''" demo_snap_meta demo_ident demo_ident demo_ident demo_attested_world]
    by (simp add: s P(1))
qed

lemma demo_reap:
  assumes "net_state (clone_side (host (sw x))) = False" and "jails (host (sw x)) demo_jail_dir = None"
  shows "\<exists>y. reap_base_dirs demo_snap demo_owner demo_jail_dir ''tap-fc1'' x = (Inr (), y)"
proof -
  have x: "xe_reap demo_snap = demo_reap_env" by (simp add: demo_snap_def)
  define h where "h = host (sw x)"
  have h: "net_state (clone_side h) = False" "jails h demo_jail_dir = None" using assms by (simp_all add: h_def)
  have k: "snd (on_programs (\<lambda>n. ((), kill_child_gracefully demo_reap_env None g n)) h) = h" for g
    by (cases h, cases "clone_side h") (simp add: on_programs_def kill_child_gracefully_def)
  have s: "remove_socket demo_reap_env demo_jail_dir h = h" by (simp add: remove_socket_def h)
  have t: "teardown_jail_sync demo_reap_env demo_jail_dir h = (True, h)"
    by (simp add: teardown_jail_sync_def unmount_present_def h Let_def)
  have sel: "rg_child_pid (for_orphan d j j c) = None" "rg_suppress_cleanup (for_orphan d j j c) = False" "rg_dismiss (for_orphan d j j c) = False"
    "rg_socket (for_orphan d j j c) = j" "rg_jail_instance_dir (for_orphan d j j c) = Some j" "rg_room_dir (for_orphan d j j c) = d"
    "release_network demo_reap_env (for_orphan d j j c\<lparr>rg_child_pid := None, rg_jail_instance_dir := None\<rparr>) w = w" for d j c w
    by (simp_all add: for_orphan_def guard_new_def release_network_def release_network_with_def plan_release_def)
  have "\<exists>w1. reap_room_only demo_reap_env demo_owner demo_jail_dir demo_jail_dir (xe_config demo_snap) (sw x) = (Inr (), w1) \<and> host w1 = h"
    by (cases "dirs (sw x) demo_owner")
      (simp_all add: reap_room_only_def guard_cleanup_def cleanup_sync_def sel Let_def k s t on_host_def h_def[symmetric] remove_room_dir_def demo_reap_parts h)
  then obtain w1 where r: "reap_room_only demo_reap_env demo_owner demo_jail_dir demo_jail_dir (xe_config demo_snap) (sw x) = (Inr (), w1)" "host w1 = h" by blast
  have "on_host (on_programs (remove_egress_and_tap demo_reap_env ''tap-fc1'')) w1 = (Inr (), w1\<lparr>host := h\<lparr>clone_side := (clone_side h)\<lparr>net_state := False\<rparr>\<rparr>\<rparr>)"
    using h by (simp add: on_host_def on_programs_def r(2) demo_remove)
  then show ?thesis by (simp add: reap_base_dirs_def reap_reserved_base_def on_state_def x r(1) map_err_def)
qed

lemma serves_outputs:
  assumes h: "host_serves env"
  shows "\<exists>y. remove_outputs env ks x = (Inr (), y) \<and> host (sw y) = host (sw x)"
proof (induction ks arbitrary: x)
  case (Cons k ks)
  obtain d n where k: "k = (d, n)" by fastforce
  show ?case
  proof (cases "files (sw x) (d, n)")
    case None
    then show ?thesis using Cons.IH[of "x\<lparr>sw := sw x\<rparr>"] by (simp add: k on_state_def remove_file_def)
  next
    case (Some c)
    obtain y where "remove_outputs env ks (x\<lparr>sw := (sw x)\<lparr>files := (files (sw x))((d, n) := None)\<rparr>\<rparr>) = (Inr (), y)" "host (sw y) = host (sw x)"
      using Cons.IH[of "x\<lparr>sw := (sw x)\<lparr>files := (files (sw x))((d, n) := None)\<rparr>\<rparr>"] by auto
    then show ?thesis using Some by (simp add: k on_state_def remove_file_def serves_io[OF h])
  qed
qed simp

lemma serves_partial:
  assumes h: "host_serves env" and "path_parent (si_jail_vmstate i) \<noteq> None"
  shows "\<exists>y. remove_partial_outputs env i x = (Inr (), y) \<and> host (sw y) = host (sw x)"
proof -
  have "\<exists>y. and_then (remove_outputs env ks x) f = (Inr (), y) \<and> host (sw y) = host (sw x)" if "\<And>y. f () y = (Inr (), y)" for ks f
    using serves_outputs[OF h, of ks x] that by auto
  then show ?thesis unfolding remove_partial_outputs_def using assms(2) by (simp add: serves_io[OF h])
qed

theorem abort_recorded_before_release_witness:
  "\<exists>r x'. abort_dead_partial demo_snap (demo_intent BPending) (demo_snap_world True []) = (r, x')
     \<and> files (sw x') (SLOTS_DIR, ''1'') = None \<and> \<not> dirs (sw x') demo_owner
     \<and> (files (sw x') (SNAPSHOT_INTENTS_DIR, demo_owner @ ''.json'') = None \<or> files (sw x') (SNAPSHOT_INTENTS_DIR, demo_owner @ ''.json'') = Some ''aborted'')"
proof -
  let ?i = "demo_intent BPending" and ?x = "demo_snap_world True []" and ?k = "(SLOTS_DIR, ''1'')"
  note h = demo_serves and p = demo_placed[of BPending]
  note k = placed_keys[OF p] and dist = placed_dirs[OF p]
  have o: "si_out_dir ?i = ''/o''" by (simp add: demo_intent_def)
  obtain r x' where a: "abort_dead_partial demo_snap ?i ?x = (r, x')" by fastforce
  have sb: "resolved_state_base (xe_home demo_snap) (xe_config demo_snap) \<noteq> None" using h by (simp add: host_serves_def)
  have id: "is_id_shaped demo_owner" using p by (simp add: transaction_placed_def demo_intent_sel valid_room_id)
  have tok: "parse_token (claim_text demo_owner demo_me) = TokClaimed demo_owner (cl_pid demo_me) (cl_starttime demo_me)"
    using parse_claim_text[OF id, of demo_me] by (simp add: parse_token_claimed)
  have cl: "claimed_by (xe_io demo_snap) 1 demo_owner (sw ?x) = Inr True"
    by (simp add: tok claimed_by_def locked_slot_def ensure_pool_index_def MAX_SLOT_def slot_lock_frees_def lock_frees_def read_to_string_def demo_files serves_io[OF h])
  have pp: "path_parent (si_jail_vmstate ?i) \<noteq> None"
    by (simp add: demo_intent_def path_join_def demo_jail_dir_def has_root_def slash_def SNAPSHOT_VMSTATE_FILE_def path_parent_def components_def
        component_of_def map_filter_simps demo_owner_def)
  obtain x1 where 1: "remove_partial_outputs demo_snap ?i ?x = (Inr (), x1)" "host (sw x1) = host (sw ?x)"
    using serves_partial[OF h pp] by blast
  obtain x2 where 2: "reap_base_dirs demo_snap demo_owner demo_jail_dir ''tap-fc1'' x1 = (Inr (), x2)"
    using demo_reap[of x1] 1(2) by (auto simp: demo_snap_world_def)
  have w1: "within (dir_keys {path_join demo_jail_dir ''root'', ''/o''}) {} {} ?x x1" using partial_outputs_frame[OF p, of ?x] 1 o by simp
  note w2 = reap_dirs_ok(1)[OF 2]
  have d2: "dirs (sw x2) SNAPSHOT_INTENTS_DIR" "files (sw x2) ?k = Some (claim_text demo_owner demo_me)"
    using w1 w2 dist demo_files(3)[of True "[]"] by (auto simp: within_def touched_def dir_keys_def o demo_intent_sel) (simp add: demo_snap_world_def)
  have "\<exists>x3. record_abort demo_snap ?i x2 = (Inr (), x3)"
    using serves_write[OF h d2(1)] by (auto simp: record_abort_def demo_intent_sel)
  then obtain x3 where 3: "record_abort demo_snap ?i x2 = (Inr (), x3)" by blast
  have "within (dir_keys {SNAPSHOT_INTENTS_DIR}) {} {} x2 x3"
    using 3 write_intent_frame(1)[of "dir_keys {SNAPSHOT_INTENTS_DIR}" "{}" "{}" x2 demo_snap "?i\<lparr>si_aborted := True\<rparr>"]
    by (auto simp: record_abort_def dir_keys_def demo_intent_sel)
  then have f3: "files (sw x3) ?k = Some (claim_text demo_owner demo_me)" using d2(2) dist by (auto simp: within_def touched_def dir_keys_def)
  obtain w4 where 4: "slot_free (xe_io demo_snap) 1 demo_owner (sw x3) = (Inr FreedRemoved, w4)" "files w4 ?k = None"
    using f3 first_line_claim_text[OF id]
    by (simp add: slot_free_def free_with_cleanup_def ensure_pool_index_def MAX_SLOT_def free_with_def lock_frees_def SLOT_POOL_def
        read_to_string_def remove_file_def serves_io[OF h])
  have ar: "abort_reap demo_snap ?i 1 x1 = (Inr (), x3\<lparr>sw := w4\<rparr>)"
  proof -
    have c: "room_dir (xe_home demo_snap) (xe_config demo_snap) demo_owner \<noteq> None" "jail_instance_dir (xe_home demo_snap) (xe_config demo_snap) demo_owner = Some demo_jail_dir"
      using sb p by (simp_all add: room_dir_def transaction_placed_def demo_intent_sel)
    then have s: "jail_socket (xe_home demo_snap) (xe_config demo_snap) demo_owner \<noteq> None" by (simp add: jail_socket_def jail_root_dir_def)
    show ?thesis using c s sb 2 3 4 by (auto simp: abort_reap_def demo_intent_sel release_aborted_slot_def on_state_def map_err_def)
  qed
  have "files (sw x') ?k = None"
  proof -
    have m: "files (sw ?x) (path_key (snapshot_meta_path ?i)) = None" by (simp add: k o demo_files)
    have "x' = snd (finish_snapshot_index demo_snap ?i (x3\<lparr>sw := w4\<rparr>))"
      using a m sb cl 1(1) ar by (auto simp: abort_dead_partial_def demo_intent_sel boundary_order)
    then have "within (dir_keys {SNAPSHOT_INTENTS_DIR}) {} {} (x3\<lparr>sw := w4\<rparr>) x'"
      using write_intent_frame(3)[of "dir_keys {SNAPSHOT_INTENTS_DIR}"] by (simp add: dir_keys_def)
    then show ?thesis using 4(2) dist by (auto simp: within_def touched_def dir_keys_def)
  qed
  then have ne: "files (sw x') (SLOTS_DIR, show_u8 1) \<noteq> files (sw ?x) (SLOTS_DIR, show_u8 1)" by (simp add: demo_files)
  have j: "xe_to_json demo_snap (?i\<lparr>si_aborted := True\<rparr>) = Inr ''aborted''" by (simp add: demo_snap_def)
  show ?thesis using abort_recorded_before_release[OF a p _ ne] a j by (auto simp: demo_intent_sel snapshot_intent_name_def)
qed

lemma serves_copy:
  assumes h: "host_serves env" and "files (sw x) (path_key source) = Some c" "c \<noteq> []" and k: "path_key target = (d, n)" and "dirs (sw x) d"
  shows "\<exists>y. copy_private env source target x = (Inr (), y) \<and> files (sw y) (d, n) = Some c \<and> dirs (sw y) = dirs (sw x) \<and> host (sw y) = host (sw x)
    \<and> (\<forall>q. q \<noteq> (d, n) \<and> q \<noteq> (d, CHR ''.'' # n @ ''.tmp'') \<longrightarrow> files (sw y) q = files (sw x) q)"
  using assms(2,3,5) serves_artifact(2)[OF h assms(2,3)]
  by (simp add: copy_private_def k Let_def in_state_def on_state_def read_to_string_def open_truncate_def write_all_def rename_file_def
      serves_io[OF h] map_err_def)

lemma serves_api:
  assumes "\<And>a b c d n. xe_api env a b c d n = (Inr (), n)" and "xe_created env (net_state (clone_side (host (sw x)))) = (Some v, Some m)"
    and "path_key (si_jail_vmstate i) = (r, a)" "path_key (si_jail_mem i) = (r, b)" "a \<noteq> b"
  shows "\<exists>y. execute_create env s i x = (Inr (), y) \<and> host (sw y) = host (sw x) \<and> dirs (sw y) = dirs (sw x)
    \<and> files (sw y) = (files (sw x))((r, a) \<mapsto> v, (r, b) \<mapsto> m)"
proof -
  have "execute_op env s op x = (Inr (), x)" for op
    by (auto simp: execute_op_def call_api_def on_state_def on_host_def on_programs_def assms(1) split: prod.splits)
  then show ?thesis using assms(2-5) by (simp add: execute_create_def put_artifact_def)
qed

lemma demo_collect:
  "\<exists>y. drive_collect demo_snap (demo_intent BPaused) (demo_snap_world True []) = (Inr (demo_intent BCollected), y)
     \<and> host (sw y) = host (sw (demo_snap_world True [])) \<and> dirs (sw y) = dirs (sw (demo_snap_world True []))"
proof -
  let ?i = "demo_intent BPaused" and ?x = "demo_snap_world True []" and ?root = "path_join demo_jail_dir ''root''"
  note h = demo_serves and p = demo_placed[of BPaused]
  note k = placed_keys[OF p] and dist = placed_dirs[OF p]
  have o: "si_out_dir ?i = ''/o''" by (simp add: demo_intent_def)
  have ne: "SNAPSHOT_VMSTATE_FILE \<noteq> SNAPSHOT_MEM_FILE" by (simp add: SNAPSHOT_VMSTATE_FILE_def SNAPSHOT_MEM_FILE_def)
  have j: "files (sw ?x) (?root, SNAPSHOT_VMSTATE_FILE) = Some []" "files (sw ?x) (?root, SNAPSHOT_MEM_FILE) = Some []"
    using dist ne by (auto simp: demo_snap_world_def o)
  have v: "validate_staged_targets demo_snap ?i ?x = Inr ()"
    using serves_artifact(1)[OF h, of ?x "si_jail_vmstate ?i"] serves_artifact(1)[OF h, of ?x "si_jail_mem ?i"] j
    by (simp add: validate_staged_targets_def k demo_intent_sel)
  obtain s where s: "jail_socket (xe_home demo_snap) (xe_config demo_snap) demo_owner = Some s"
    using p by (auto simp: jail_socket_def jail_root_dir_def transaction_placed_def demo_intent_sel)
  have x: "xe_api demo_snap a b c d n = (Inr (), n)" "xe_created demo_snap n = (Some ''v'', Some ''m'')" "xe_ids demo_snap = Inr (0, 0)" for a b c d n
    by (simp_all add: demo_snap_def)
  obtain x1 where 1: "execute_create demo_snap s ?i ?x = (Inr (), x1)" "host (sw x1) = host (sw ?x)" "dirs (sw x1) = dirs (sw ?x)"
    "files (sw x1) = (files (sw ?x))((?root, SNAPSHOT_VMSTATE_FILE) \<mapsto> ''v'', (?root, SNAPSHOT_MEM_FILE) \<mapsto> ''m'')"
    using serves_api[OF x(1) x(2) k(3,4) ne] by blast
  have d: "dirs (sw ?x) ''/o''" "dirs (sw ?x) SNAPSHOT_INTENTS_DIR" by (simp_all add: demo_snap_world_def)
  have jr: "''/o'' \<noteq> ?root" using dist o by auto
  obtain x2 where 2: "copy_private demo_snap (si_jail_vmstate ?i) (si_host_vmstate ?i) x1 = (Inr (), x2)" "files (sw x2) (''/o'', SNAPSHOT_VMSTATE_FILE) = Some ''v''"
    "dirs (sw x2) = dirs (sw ?x)" "host (sw x2) = host (sw ?x)" "files (sw x2) (?root, SNAPSHOT_MEM_FILE) = Some ''m''"
    using serves_copy[OF h, of x1 "si_jail_vmstate ?i" "''v''" "si_host_vmstate ?i" "''/o''" SNAPSHOT_VMSTATE_FILE] k o 1 d(1) ne jr by auto
  obtain x3 where 3: "copy_private demo_snap (si_jail_mem ?i) (si_host_mem ?i) x2 = (Inr (), x3)" "files (sw x3) (''/o'', SNAPSHOT_MEM_FILE) = Some ''m''"
    "dirs (sw x3) = dirs (sw ?x)" "host (sw x3) = host (sw ?x)" "files (sw x3) (''/o'', SNAPSHOT_VMSTATE_FILE) = Some ''v''"
    using serves_copy[OF h, of x2 "si_jail_mem ?i" "''m''" "si_host_mem ?i" "''/o''" SNAPSHOT_MEM_FILE] k o 2 d(1) ne
    by (auto simp: SNAPSHOT_VMSTATE_FILE_def SNAPSHOT_MEM_FILE_def)
  have c: "collected ?i x3" using 3 by (simp add: collected_def artifact_nonempty_def k o)
  obtain x4 where 4: "advance demo_snap ?i BCollected x3 = (Inr (?i\<lparr>si_boundary := BCollected\<rparr>), x4)" "dirs (sw x4) = dirs (sw ?x)" "host (sw x4) = host (sw ?x)"
    using serves_advance[OF h, of x3 ?i BCollected] 3 d(2) by auto
  have up: "?i\<lparr>si_boundary := BCollected\<rparr> = demo_intent BCollected" by (simp add: demo_intent_def)
  show ?thesis
    using v s 1(1) 2(1) 3(1) 4 serves_collected[OF h c]
    by (simp add: drive_collect_def execute_and_collect_def demo_intent_sel boundary_order collect_pair_def x serves_io[OF h] up)
qed

lemma demo_reserve:
  assumes "files (sw x) (SLOTS_DIR, ''1'') = Some (claim_text demo_owner demo_me)" and "dirs (sw x) SLOTS_DIR"
  shows "\<exists>y. reserve_slot demo_snap (demo_intent b) x = (Inr (), y) \<and> host (sw y) = host (sw x) \<and> dirs (sw y) = dirs (sw x)"
proof -
  note h = demo_serves
  have sb: "resolved_state_base (xe_home demo_snap) (xe_config demo_snap) \<noteq> None" using h by (simp add: host_serves_def)
  have id: "is_id_shaped demo_owner" using demo_placed[of b] by (simp add: transaction_placed_def demo_intent_sel valid_room_id)
  have tok: "parse_token (claim_text demo_owner demo_me) = TokClaimed demo_owner (cl_pid demo_me) (cl_starttime demo_me)"
    using parse_claim_text[OF id, of demo_me] by (simp add: parse_token_claimed)
  have l: "locked_slot (xe_io demo_snap) 1 (sw x) = Inr (Some (claim_text demo_owner demo_me))"
    using assms(1) by (simp add: locked_slot_def ensure_pool_index_def MAX_SLOT_def slot_lock_frees_def lock_frees_def read_to_string_def serves_io[OF h])
  have "\<exists>w. rewrite_slot_atomic (xe_io demo_snap) 1 body (sw x) = (Inr (), w) \<and> host w = host (sw x) \<and> dirs w = dirs (sw x)" for body
    using assms(2) by (simp add: rewrite_slot_atomic_def rewrite_atomic_def open_truncate_def write_all_def rename_file_def serves_io[OF h] map_err_def)
  then obtain w where "rewrite_slot_atomic (xe_io demo_snap) 1 (reservation_token demo_owner) (sw x) = (Inr (), w)" "host w = host (sw x)" "dirs w = dirs (sw x)"
    by blast
  then show ?thesis using sb l tok first_line_claim_text[OF id, of demo_me]
    by (auto simp: reserve_slot_def demo_intent_sel reserve_def on_state_def map_err_def)
qed

theorem base_reaped_only_when_safe_witness:
  "\<exists>r x'. drive demo_snap (demo_intent BPaused) (demo_snap_world True []) = (r, x')
     \<and> \<not> dirs (sw x') demo_owner \<and> slot_state (sw x') 1 = Some (TokReserved demo_owner) \<and> collected (demo_intent BPaused) x'"
proof -
  let ?i = "demo_intent BPaused" and ?x = "demo_snap_world True []" and ?k = "(SLOTS_DIR, ''1'')"
  note h = demo_serves and p = demo_placed
  note dist = placed_dirs[OF p[of BPaused], unfolded demo_intent_sel]
  have o: "si_out_dir (demo_intent b) = ''/o''" and up: "demo_intent b\<lparr>si_boundary := c\<rparr> = demo_intent c" for b c by (simp_all add: demo_intent_def)
  have sb: "resolved_state_base (xe_home demo_snap) (xe_config demo_snap) \<noteq> None" using h by (simp add: host_serves_def)
  obtain x1 where 1: "drive_collect demo_snap ?i ?x = (Inr (demo_intent BCollected), x1)" "host (sw x1) = host (sw ?x)" "dirs (sw x1) = dirs (sw ?x)"
    using demo_collect by blast
  have w1: "within (dir_keys {path_join demo_jail_dir ''root'', SNAPSHOT_INTENTS_DIR, ''/o''}) {} {} ?x x1" using collect_frame[OF p[of BPaused], of "{}" "{}" ?x] 1 o by simp
  have f1: "files (sw x1) ?k = Some (claim_text demo_owner demo_me)" using w1 dist demo_files(3)[of True "[]"] o by (auto simp: within_def touched_def dir_keys_def)
  have d1: "dirs (sw x1) SLOTS_DIR" "dirs (sw x1) SNAPSHOT_INTENTS_DIR" by (simp_all add: 1 demo_snap_world_def)
  obtain x2 where 2: "reserve_slot demo_snap (demo_intent BCollected) x1 = (Inr (), x2)" "host (sw x2) = host (sw ?x)" "dirs (sw x2) = dirs (sw ?x)"
    using demo_reserve[OF f1 d1(1)] 1 by auto
  obtain x3 where 3: "advance demo_snap (demo_intent BCollected) BReserved x2 = (Inr (demo_intent BReserved), x3)" "host (sw x3) = host (sw ?x)" "dirs (sw x3) = dirs (sw ?x)"
    using serves_advance[OF h, of x2 "demo_intent BCollected" BReserved] 2 d1(2) 1(3) by (auto simp: up)
  have r3: "drive_reserve demo_snap (demo_intent BCollected) x1 = (Inr (demo_intent BReserved), x3)"
    using 2(1) 3(1) by (simp add: drive_reserve_def demo_intent_sel boundary_order)
  have w3: "within (dir_keys {SLOTS_DIR, SNAPSHOT_INTENTS_DIR}) {} {} x1 x3" using reserve_frame[of "{}" "{}" x1 demo_snap "demo_intent BCollected"] r3 by simp
  have nf: "files (sw x3) (demo_owner, ROOM_META_FILE) = None"
    using w1 w3 dist demo_files(4)[of True "[]" ROOM_META_FILE] o by (auto simp: within_def touched_def dir_keys_def)
  obtain x4 where 4: "reap_base_dirs demo_snap demo_owner demo_jail_dir ''tap-fc1'' x3 = (Inr (), x4)"
    using demo_reap[of x3] 3(2) by (auto simp: demo_snap_world_def)
  have r4: "reap_base demo_snap (demo_intent BReserved) x3 = (Inr (), x4)"
    using sb p[of BReserved] 4 nf
    by (auto simp: reap_base_def demo_intent_sel room_dir_def transaction_placed_def jail_socket_def jail_root_dir_def room_read_def read_to_string_def)
  have g4: "\<not> dirs (sw x4) demo_owner" using reap_dirs_ok(2)[OF 4] by simp
  obtain r5 x5 where 5: "drive_reap demo_snap (demo_intent BReserved) x3 = (r5, x5)" by fastforce
  have a5: "advance demo_snap (demo_intent BReserved) BReaped x4 = (r5, x5)" using 5 r4 by (simp add: drive_reap_def demo_intent_sel boundary_order)
  have g5: "\<not> dirs (sw x5) demo_owner" using advance_frame[OF a5] g4 by (auto simp: within_def touched_def)
  obtain r x' where dr: "drive demo_snap ?i ?x = (r, x')" by fastforce
  have rest: "and_then (r5, x5) (drive_publish demo_snap) = (r, x')"
    using dr 1(1) r3 5 by (simp add: drive_def drive_stage_def demo_intent_sel boundary_order)
  have "\<not> dirs (sw x') demo_owner"
  proof (cases r5)
    case (Inr i5)
    then have "i5 = demo_intent BReaped" using advance_same[of demo_snap "demo_intent BReserved" BReaped x4 i5 x5] a5 by (metis same_transaction_def up)
    then show ?thesis using publish_frame[OF p[of BReaped], of "{}" x5] rest Inr g5 dist by (auto simp: within_def touched_def)
  qed (use rest g5 in simp)
  moreover have "dirs (sw ?x) demo_owner" by (simp add: demo_snap_world_def)
  ultimately show ?thesis using base_reaped_only_when_safe[OF dr early_true p[of BPaused], of 1] dr by (simp add: demo_intent_sel boundary_order)
qed

end
