(* ===== verification/Images.thy ===== *)
theory Images
  imports Teardown Inode_Seal
begin

text \<open>
  Admission of the files a room boots from: root file systems and kernels (\<open>src/src/rootfs.rs\<close>) and toolchain disks
  (\<open>src/src/toolstore.rs\<close>, Linux build). The state \<open>'n\<close> is the machine: \<open>debugfs\<close> and \<open>mount\<close> run on it, and it holds the contents,
  identities and inode flags of files. JSON, SHA-256 and the architecture of the build are parameters. A held descriptor is named by
  its path below \<open>/proc/<pid>/fd\<close>, which stays bound to one inode.
\<close>

subsection \<open>Text\<close>

fun split_once_str :: "string \<Rightarrow> string \<Rightarrow> (string \<times> string) option" where
  "split_once_str pat s = (if prefix pat s then Some ([], drop (length pat) s)
     else case s of [] \<Rightarrow> None | c # cs \<Rightarrow> map_option (\<lambda>(a, b). (c # a, b)) (split_once_str pat cs))"

definition is_octal :: "char \<Rightarrow> bool" where "is_octal c \<longleftrightarrow> is_ascii_digit c \<and> digit_val c < 8"

definition octal_val :: "string \<Rightarrow> nat" where "octal_val s = foldl (\<lambda>a c. 8 * a + digit_val c) 0 s"

text \<open>\<open>u32::from_str_radix\<close> with radix 8.\<close>

definition parse_octal_u32 :: "string \<Rightarrow> u32 option" where
  "parse_octal_u32 s = (let d = (case s of c # cs \<Rightarrow> if c = CHR ''+'' then cs else s | [] \<Rightarrow> s) in
     if d \<noteq> [] \<and> list_all is_octal d \<and> octal_val d < 2 ^ 32 then Some (of_nat (octal_val d)) else None)"

definition ascii_lower :: "char \<Rightarrow> char" where
  "ascii_lower c = (let n = (of_char c :: nat) in if 65 \<le> n \<and> n \<le> 90 then char_of (n + 32) else c)"

fun split_any :: "char list \<Rightarrow> string \<Rightarrow> string list" where
  "split_any cs [] = [[]]"
| "split_any cs (x # xs) = (if x \<in> set cs then [] # split_any cs xs
     else case split_any cs xs of [] \<Rightarrow> [[x]] | p # ps \<Rightarrow> (x # p) # ps)"

text \<open>\<open>Path::extension\<close> of a name without separators.\<close>

definition name_extension :: "string \<Rightarrow> string option" where
  "name_extension name = (case rsplit_once (CHR ''.'') name of
     None \<Rightarrow> None | Some (stem, ext) \<Rightarrow> if stem = [] then None else Some ext)"

subsection \<open>The machine\<close>

record toolstore_manifest =
  tm_schema_version :: u32
  tm_system :: string
  tm_sha256 :: string

datatype host_arch = X86_64 | Aarch64 | OtherArch string

definition arch_text :: "host_arch \<Rightarrow> string" where
  "arch_text a = (case a of X86_64 \<Rightarrow> ''x86_64'' | Aarch64 \<Rightarrow> ''aarch64'' | OtherArch s \<Rightarrow> s)"

record 'n image_env =
  ig_reap :: "'n reap_env"
  ig_inode :: "'n inode_env"
  ig_exists :: "string \<Rightarrow> 'n \<Rightarrow> bool"
  ig_len :: "string \<Rightarrow> 'n \<Rightarrow> io_error + nat"
  ig_bytes :: "string \<Rightarrow> 'n \<Rightarrow> io_error + bytes"
  ig_identity :: "string \<Rightarrow> 'n \<Rightarrow> io_error + u64 \<times> u64"
  ig_manifest_file :: "string \<Rightarrow> 'n \<Rightarrow> io_error + (io_error + bytes)"
  ig_manifest :: "bytes \<Rightarrow> toolstore_manifest option"
  ig_sha256 :: "bytes \<Rightarrow> string"
  ig_held :: "string \<Rightarrow> 'n \<Rightarrow> string"
  ig_dup_fails :: "io_error option"
  ig_arch :: host_arch

abbreviation ig_text :: "'n image_env \<Rightarrow> io_error \<Rightarrow> string" where "ig_text env \<equiv> re_text (ig_reap env)"

subsection \<open>Root file systems and kernels\<close>

datatype rootfs_error =
    RootfsNotFound string
  | RootfsNotExt4 string u16
  | RootfsTooSmall string nat nat
  | KernelNotFound string
  | KernelBadFormat string
  | RootfsIo io_error

definition SUPERBLOCK_OFFSET :: nat where "SUPERBLOCK_OFFSET = 1024"
definition EXT4_MAGIC :: u16 where "EXT4_MAGIC = 0xEF53"

definition read_exact :: "nat \<Rightarrow> nat \<Rightarrow> bytes \<Rightarrow> bytes option" where
  "read_exact offset n b = (if offset + n \<le> length b then Some (take n (drop offset b)) else None)"

definition unexpected_eof :: io_error where "unexpected_eof = Other ''failed to fill whole buffer''"

definition u16_from_le :: "bytes \<Rightarrow> u16" where "u16_from_le b = of_nat (unat (b ! 0) + 256 * unat (b ! 1))"

definition read_ext4_magic :: "'n image_env \<Rightarrow> string \<Rightarrow> 'n \<Rightarrow> rootfs_error + u16" where
  "read_ext4_magic env path n = (case ig_bytes env path n of
     Inl e \<Rightarrow> Inl (RootfsIo e)
   | Inr b \<Rightarrow> (case read_exact (SUPERBLOCK_OFFSET + 56) 2 b of
       None \<Rightarrow> Inl (RootfsIo unexpected_eof)
     | Some m \<Rightarrow> Inr (u16_from_le m)))"

definition validate_rootfs :: "'n image_env \<Rightarrow> string \<Rightarrow> nat \<Rightarrow> 'n \<Rightarrow> rootfs_error + unit" where
  "validate_rootfs env path min_bytes n =
     (if \<not> ig_exists env path n then Inl (RootfsNotFound path)
      else case ig_len env path n of
        Inl e \<Rightarrow> Inl (RootfsIo e)
      | Inr len \<Rightarrow>
          if len < min_bytes then Inl (RootfsTooSmall path len min_bytes)
          else (case read_ext4_magic env path n of
              Inl e \<Rightarrow> Inl e
            | Inr magic \<Rightarrow> if magic \<noteq> EXT4_MAGIC then Inl (RootfsNotExt4 path magic) else Inr ()))"

definition kernel_matches_host_arch :: "host_arch \<Rightarrow> bytes \<Rightarrow> bool" where
  "kernel_matches_host_arch arch header =
     (let elf = take 4 header = [0x7F, 0x45, 0x4C, 0x46]; arm64_image = take 4 (drop 56 header) = [0x41, 0x52, 0x4D, 0x64] in
      case arch of X86_64 \<Rightarrow> elf | Aarch64 \<Rightarrow> arm64_image | OtherArch _ \<Rightarrow> elf \<or> arm64_image)"

definition validate_kernel :: "'n image_env \<Rightarrow> string \<Rightarrow> 'n \<Rightarrow> rootfs_error + unit" where
  "validate_kernel env path n =
     (if \<not> ig_exists env path n then Inl (KernelNotFound path)
      else case ig_bytes env path n of
        Inl e \<Rightarrow> Inl (RootfsIo e)
      | Inr b \<Rightarrow> (case read_exact 0 60 b of
          None \<Rightarrow> Inl (KernelBadFormat path)
        | Some header \<Rightarrow> if kernel_matches_host_arch (ig_arch env) header then Inr () else Inl (KernelBadFormat path)))"

definition kernel_sibling :: "string \<Rightarrow> string option" where
  "kernel_sibling rootfs = (case path_parent rootfs of
     None \<Rightarrow> None | Some p \<Rightarrow> Some (path_join (path_text p) ''vmlinux.bin''))"

definition debugfs_spawn_error :: "'n image_env \<Rightarrow> io_error \<Rightarrow> string" where
  "debugfs_spawn_error env e =
     (if e = NotFound then ''image admission requires debugfs; install e2fsprogs (for example: apt install e2fsprogs)''
      else ''inspect image with debugfs: '' @ ig_text env e)"

definition debugfs :: "'n image_env \<Rightarrow> string \<Rightarrow> string \<Rightarrow> 'n \<Rightarrow> (string + string) \<times> 'n" where
  "debugfs env path request n = (case re_run (ig_reap env) \<lparr>cmd_program = ''debugfs'', cmd_args = [''-R'', request, path]\<rparr> n of
     (Inl e, n) \<Rightarrow> (Inl (debugfs_spawn_error env e), n)
   | (Inr out, n) \<Rightarrow>
       if \<not> out_success out then (Inl (''inspect image '' @ path @ '' ('' @ request @ ''): '' @ trim (out_stderr out)), n)
       else (Inr (out_stdout out), n))"

definition executable_regular_inode :: "string \<Rightarrow> bool" where
  "executable_regular_inode stat =
     (if \<not> str_contains ''Inode:'' stat \<or> \<not> str_contains ''Type: regular'' stat then False
      else case split_once_str ''Mode:'' stat of
        None \<Rightarrow> False
      | Some (_, rest) \<Rightarrow> (case split_whitespace rest of
          [] \<Rightarrow> False
        | mode # _ \<Rightarrow> (case parse_octal_u32 mode of None \<Rightarrow> False | Some m \<Rightarrow> m AND 0x49 \<noteq> 0)))"

definition validate_overlay_image :: "'n image_env \<Rightarrow> string \<Rightarrow> 'n \<Rightarrow> (string + unit) \<times> 'n" where
  "validate_overlay_image env path n =
     and_then (debugfs env path ''stat /sbin/overlay-init'' n) (\<lambda>overlay n.
       if \<not> executable_regular_inode overlay then (Inl (''image '' @ path @ '' lacks executable regular /sbin/overlay-init''), n)
       else (Inr (), n))"

definition validate_scratch_image :: "'n image_env \<Rightarrow> string \<Rightarrow> 'n \<Rightarrow> (string + unit) \<times> 'n" where
  "validate_scratch_image env path n =
     and_then (validate_overlay_image env path n) (\<lambda>_ n.
     and_then (debugfs env path ''cat /sbin/overlay-init'' n) (\<lambda>init n.
       if \<not> str_contains ''rooms.scratch=1'' init
       then (Inl ''--disk requires an image rebuilt with the current scripts/build-rootfs-alpine.sh'', n) else (Inr (), n)))"

definition has_toolstore_hook :: "string \<Rightarrow> bool" where
  "has_toolstore_hook init = list_ex (\<lambda>line. line = ''# rooms-toolstore-v1'') (lines init)"

definition validate_toolstore_image :: "'n image_env \<Rightarrow> string \<Rightarrow> 'n \<Rightarrow> (string + unit) \<times> 'n" where
  "validate_toolstore_image env path n =
     and_then (validate_overlay_image env path n) (\<lambda>_ n.
     and_then (debugfs env path ''cat /sbin/overlay-init'' n) (\<lambda>init n.
       if \<not> has_toolstore_hook init
       then (Inl ''--toolstore requires an image rebuilt with the current scripts/build-rootfs-alpine.sh'', n) else (Inr (), n)))"

definition is_private_host_key :: "string \<Rightarrow> bool" where
  "is_private_host_key entry \<longleftrightarrow> prefix ''ssh_host_'' entry
     \<and> \<not> (case name_extension entry of None \<Rightarrow> False | Some ext \<Rightarrow> map ascii_lower ext = ''pub'')"

definition baked_host_private_key :: "string \<Rightarrow> string option" where
  "baked_host_private_key listing = find is_private_host_key (map trim (split_any [slash, newline] listing))"

definition validate_snapshot_base_image :: "'n image_env \<Rightarrow> string \<Rightarrow> 'n \<Rightarrow> (string + unit) \<times> 'n" where
  "validate_snapshot_base_image env path n =
     and_then (inode_require (ig_inode env) path ''snapshot base image'' n) (\<lambda>_ n.
     and_then (validate_overlay_image env path n) (\<lambda>_ n.
     and_then (debugfs env path ''ls -p /etc/ssh'' n) (\<lambda>ssh_dir n.
       case baked_host_private_key ssh_dir of
         Some key \<Rightarrow> (Inl (''snapshot base image '' @ path @ '' contains baked SSH host private key /etc/ssh/'' @ key), n)
       | None \<Rightarrow> (Inr (), n))))"

subsection \<open>Toolchain disks\<close>

definition manifest_validate :: "string \<Rightarrow> toolstore_manifest \<Rightarrow> string + unit" where
  "manifest_validate system m =
     (if tm_schema_version m \<noteq> 1 then Inl ''unsupported toolstore manifest version''
      else if tm_system m \<noteq> system then Inl (''toolstore architecture mismatch: expected '' @ system @ '', found '' @ tm_system m)
      else if \<not> (length (tm_sha256 m) = 64 \<and> list_all (\<lambda>c. is_ascii_digit c \<or> c \<in> set ''abcdef'') (tm_sha256 m))
      then Inl ''invalid toolstore SHA-256'' else Inr ())"

record toolstore =
  ts_fd :: string
  ts_digest :: string

definition toolstore_open :: "'n image_env \<Rightarrow> string \<Rightarrow> 'n \<Rightarrow> (string + toolstore) \<times> 'n" where
  "toolstore_open env directory n =
     (let manifest_path = path_join directory ''meta.json''; path = path_join directory ''toolstore.sqfs'' in
      case ig_manifest_file env manifest_path n of
        Inl _ \<Rightarrow> (Inl (''open toolstore manifest '' @ manifest_path), n)
      | Inr (Inl e) \<Rightarrow> (Inl (ig_text env e), n)
      | Inr (Inr bytes) \<Rightarrow>
          if length bytes > 1048576 then (Inl ''toolstore manifest exceeds 1 MiB'', n)
          else (case ig_manifest env bytes of
            None \<Rightarrow> (Inl ''parse toolstore manifest'', n)
          | Some m \<Rightarrow> (case manifest_validate (arch_text (ig_arch env) @ ''-linux'') m of
              Inl e \<Rightarrow> (Inl e, n)
            | Inr _ \<Rightarrow>
                and_then (open_regular (ig_inode env) path ''toolstore'' n) (\<lambda>_ n.
                case ig_bytes env path n of
                  Inl e \<Rightarrow> (Inl (ig_text env e), n)
                | Inr content \<Rightarrow> (case read_exact 0 4 content of
                    None \<Rightarrow> (Inl (ig_text env unexpected_eof), n)
                  | Some magic \<Rightarrow>
                      if magic \<noteq> [0x68, 0x73, 0x71, 0x73] then (Inl ''toolstore is not a little-endian squashfs image'', n)
                      else if ig_sha256 env content \<noteq> tm_sha256 m then (Inl ''toolstore hash mismatch'', n)
                      else and_then (require_file (ig_inode env) path ''toolstore'' n) (\<lambda>_ n.
                        (Inr \<lparr>ts_fd = ig_held env path n, ts_digest = tm_sha256 m\<rparr>, n)))))))"

definition toolstore_try_clone :: "'n image_env \<Rightarrow> toolstore \<Rightarrow> io_error + toolstore" where
  "toolstore_try_clone env t = (case ig_dup_fails env of Some e \<Rightarrow> Inl e | None \<Rightarrow> Inr t)"

definition mount_source :: "'n image_env \<Rightarrow> toolstore \<Rightarrow> 'n \<Rightarrow> (string + string) \<times> 'n" where
  "mount_source env t n = and_then (require_file (ig_inode env) (ts_fd t) ''toolstore'' n) (\<lambda>_ n. (Inr (ts_fd t), n))"

definition require_sealed :: "'n image_env \<Rightarrow> toolstore \<Rightarrow> 'n \<Rightarrow> (string + unit) \<times> 'n" where
  "require_sealed env t n = and_then (mount_source env t n) (\<lambda>_ n. (Inr (), n))"

definition verify_attachment :: "'n image_env \<Rightarrow> toolstore \<Rightarrow> string \<Rightarrow> 'n \<Rightarrow> (string + unit) \<times> 'n" where
  "verify_attachment env t target n = (case ig_identity env target n of
     Inl e \<Rightarrow> (Inl (ig_text env e), n)
   | Inr mounted \<Rightarrow> (case ig_identity env (ts_fd t) n of
       Inl e \<Rightarrow> (Inl (ig_text env e), n)
     | Inr admitted \<Rightarrow>
         if mounted \<noteq> admitted then (Inl ''mounted toolstore differs from verified inode'', n)
         else inode_require (ig_inode env) target ''attached toolstore'' n))"

definition bind_into :: "'n image_env \<Rightarrow> toolstore \<Rightarrow> string \<Rightarrow> 'n \<Rightarrow> (string + unit) \<times> 'n" where
  "bind_into env t target n =
     and_then (mount_source env t n) (\<lambda>source n.
     case re_run (ig_reap env) \<lparr>cmd_program = ''mount'', cmd_args = [''--no-canonicalize'', ''--bind'', source, target]\<rparr> n of
       (Inl e, n) \<Rightarrow> (Inl ''bind verified toolstore descriptor'', n)
     | (Inr out, n) \<Rightarrow>
         if \<not> out_success out then (Inl (''bind toolstore failed: '' @ out_stderr out), n)
         else verify_attachment env t target n)"

declare split_once_str.simps [simp del]

subsection \<open>What admission establishes\<close>

lemma magic_bytes: "u16_from_le [x, y] = EXT4_MAGIC \<longleftrightarrow> x = 0x53 \<and> y = 0xEF"
proof -
  define a b where ab: "a = unat x" "b = unat y"
  have lt: "a < 256" "b < 256" using unat_u8_le[of x] unat_u8_le[of y] by (auto simp: ab)
  have "unat (of_nat (a + 256 * b) :: u16) = a + 256 * b" unfolding unat_of_nat using lt by simp
  then have "u16_from_le [x, y] = EXT4_MAGIC \<longleftrightarrow> a + 256 * b = 0xEF53"
    by (simp add: u16_from_le_def EXT4_MAGIC_def word_unat_eq_iff ab[symmetric])
  also have "\<dots> \<longleftrightarrow> a = 0x53 \<and> b = 0xEF"
  proof
    assume e: "a + 256 * b = 0xEF53"
    then have "b = 239" using lt(1) by presburger
    then show "a = 0x53 \<and> b = 0xEF" using e by simp
  qed simp
  finally show ?thesis by (simp add: ab word_unat_eq_iff)
qed

text \<open>An image is accepted as a root file system exactly when it exists, is large enough, and its two bytes at offset 1080 are the ext4
  magic in little-endian order.\<close>

theorem rootfs_accepted_exactly:
  "validate_rootfs env path min_bytes n = Inr () \<longleftrightarrow>
     ig_exists env path n \<and> (\<exists>len. ig_len env path n = Inr len \<and> min_bytes \<le> len)
     \<and> (\<exists>b. ig_bytes env path n = Inr b \<and> 1082 \<le> length b \<and> b ! 1080 = 0x53 \<and> b ! 1081 = 0xEF)"
proof -
  have read: "read_exact (SUPERBLOCK_OFFSET + 56) 2 b = (if 1082 \<le> length b then Some [b ! 1080, b ! 1081] else None)" for b
    by (auto simp: read_exact_def SUPERBLOCK_OFFSET_def numeral_2_eq_2 take_Suc_conv_app_nth)
  show ?thesis
    by (auto simp: validate_rootfs_def read_ext4_magic_def read magic_bytes split: sum.splits if_splits)
qed

lemma find_None_all: "find P xs = None \<longleftrightarrow> list_all (\<lambda>x. \<not> P x) xs"
  by (induction xs) auto

text \<open>A toolchain disk is admitted only if its manifest names this architecture and a well-formed digest, the file is a sealed
  squashfs image, and the digest of its whole content is the one the room then records.\<close>

theorem toolstore_admission:
  assumes "toolstore_open env directory n = (Inr t, n')"
  shows "\<exists>bytes m content n1. ig_manifest_file env (path_join directory ''meta.json'') n = Inr (Inr bytes) \<and> length bytes \<le> 1048576
     \<and> ig_manifest env bytes = Some m \<and> tm_schema_version m = 1 \<and> tm_system m = arch_text (ig_arch env) @ ''-linux''
     \<and> length (ts_digest t) = 64 \<and> list_all (\<lambda>c. is_ascii_digit c \<or> c \<in> set ''abcdef'') (ts_digest t)
     \<and> open_regular (ig_inode env) (path_join directory ''toolstore.sqfs'') ''toolstore'' n = (Inr (), n1)
     \<and> ig_bytes env (path_join directory ''toolstore.sqfs'') n1 = Inr content \<and> take 4 content = [0x68, 0x73, 0x71, 0x73]
     \<and> ig_sha256 env content = ts_digest t \<and> tm_sha256 m = ts_digest t
     \<and> require_file (ig_inode env) (path_join directory ''toolstore.sqfs'') ''toolstore'' n1 = (Inr (), n')"
  using assms
  by (auto simp: toolstore_open_def Let_def manifest_validate_def and_then_def read_exact_def
      split: sum.splits option.splits if_splits prod.splits)

lemma debugfs_result:
  "debugfs env path request n = (Inr s, n') \<Longrightarrow>
     \<exists>out. re_run (ig_reap env) \<lparr>cmd_program = ''debugfs'', cmd_args = [''-R'', request, path]\<rparr> n = (Inr out, n')
       \<and> out_success out \<and> out_stdout out = s"
  by (auto simp: debugfs_def split: prod.splits sum.splits if_splits)

text \<open>A base image is admitted only sealed, with an executable regular entry point, and when no name in the listing of
  \<open>/etc/ssh\<close> is a host key without the extension of a public one.\<close>

theorem snapshot_base_admission:
  assumes "validate_snapshot_base_image env path n = (Inr (), n')"
  shows "\<exists>n1 n2 stat listing. inode_require (ig_inode env) path ''snapshot base image'' n = (Inr (), n1)
     \<and> debugfs env path ''stat /sbin/overlay-init'' n1 = (Inr stat, n2) \<and> executable_regular_inode stat
     \<and> debugfs env path ''ls -p /etc/ssh'' n2 = (Inr listing, n')
     \<and> list_all (\<lambda>entry. \<not> is_private_host_key (trim entry)) (split_any [slash, newline] listing)"
  using assms
  by (auto simp: validate_snapshot_base_image_def validate_overlay_image_def baked_host_private_key_def find_None_all and_then_def list_all_iff
      split: sum.splits option.splits if_splits prod.splits)

text \<open>An attached toolchain disk is the held inode: the mount command succeeded on the held descriptor, and afterwards the target has
  its identity and is immutable.\<close>

theorem attached_toolstore_is_admitted_inode:
  assumes "bind_into env t target n = (Inr (), n')"
  shows "\<exists>n1 n2 out i. require_file (ig_inode env) (ts_fd t) ''toolstore'' n = (Inr (), n1)
     \<and> re_run (ig_reap env) \<lparr>cmd_program = ''mount'', cmd_args = [''--no-canonicalize'', ''--bind'', ts_fd t, target]\<rparr> n1 = (Inr out, n2)
     \<and> out_success out \<and> ig_identity env target n2 = Inr i \<and> ig_identity env (ts_fd t) n2 = Inr i
     \<and> inode_require (ig_inode env) target ''attached toolstore'' n2 = (Inr (), n')"
  using assms
  by (auto simp: bind_into_def mount_source_def verify_attachment_def and_then_def
      split: sum.splits option.splits if_splits prod.splits)

end
