(* ===== verification/Capture.thy ===== *)
theory Capture
  imports Teardown
begin

text \<open>
  The host-side capture of a room's traffic (\<open>src/src/witness.rs\<close>, Unix build): starting \<open>tcpdump\<close> on the room's tap, the watcher of its
  size cap, stopping and dropping. Child processes are given by the environment: spawning, a non-blocking wait, the kill a
  dropped handle sends, and what happens while the program waits.
\<close>

subsection \<open>Child processes\<close>

record exit_status =
  es_code :: "int option"
  es_text :: string

definition exit_success :: "exit_status \<Rightarrow> bool" where "exit_success s \<longleftrightarrow> es_code s = Some 0"

record 'n proc_env =
  pe_reap :: "'n reap_env"
  pe_spawn :: "command_spec \<Rightarrow> 'n \<Rightarrow> (io_error + u32) \<times> 'n"
  pe_try_wait :: "u32 \<Rightarrow> 'n \<Rightarrow> io_error + exit_status option"
  pe_wait :: "u32 \<Rightarrow> 'n \<Rightarrow> (io_error + exit_status) option \<times> 'n"
  pe_child_id :: "u32 \<Rightarrow> 'n \<Rightarrow> u32 option"
  pe_kill :: "u32 \<Rightarrow> 'n \<Rightarrow> 'n"
  pe_settle :: "'n \<Rightarrow> 'n"
  pe_unlink :: "string \<Rightarrow> 'n \<Rightarrow> 'n"
  pe_len :: "string \<Rightarrow> 'n \<Rightarrow> nat option"
  pe_path_var :: "string option"
  pe_executable :: "string \<Rightarrow> bool"

subsection \<open>Commands\<close>

definition TCPDUMP :: string where "TCPDUMP = ''tcpdump''"
definition STAGED_PCAP_PREFIX :: string where "STAGED_PCAP_PREFIX = ''rooms-witness-''"
definition CAPTURE_CAP_BYTES :: nat where "CAPTURE_CAP_BYTES = 64 * 1024 * 1024"

definition which_tcpdump :: "'n proc_env \<Rightarrow> string option" where
  "which_tcpdump env = (case pe_path_var env of
     None \<Rightarrow> None
   | Some p \<Rightarrow> find (pe_executable env) (map (\<lambda>dir. path_join dir TCPDUMP) (split_on (CHR '':'') p)))"

definition ensure_tcpdump_available :: "'n proc_env \<Rightarrow> string + unit" where
  "ensure_tcpdump_available env = (case which_tcpdump env of
     Some _ \<Rightarrow> Inr ()
   | None \<Rightarrow> Inl (''--witness requested but no executable '' @ CHR 0x60 # TCPDUMP @ CHR 0x60
       # '' was found on PATH; install it or drop --witness''))"

datatype capture_target = HostTarget | NamespaceTarget string

definition capture_command :: "capture_target \<Rightarrow> string \<Rightarrow> string \<Rightarrow> command_spec" where
  "capture_command target tap pcap_path =
     (let tcpdump_args = [''-i'', tap, ''-w'', pcap_path, ''-U'', ''-s'', ''0'', ''-n''] in
      case target of
        HostTarget \<Rightarrow> \<lparr>cmd_program = TCPDUMP, cmd_args = tcpdump_args\<rparr>
      | NamespaceTarget namespace \<Rightarrow> \<lparr>cmd_program = ''ip'', cmd_args = [''netns'', ''exec'', namespace, TCPDUMP] @ tcpdump_args\<rparr>)"

definition spawn_error :: "'n proc_env \<Rightarrow> capture_target \<Rightarrow> string \<Rightarrow> io_error \<Rightarrow> string" where
  "spawn_error env target tap e = (case target of
     HostTarget \<Rightarrow> ''spawn '' @ TCPDUMP @ '' on '' @ tap @ '': '' @ re_text (pe_reap env) e
   | NamespaceTarget namespace \<Rightarrow> ''spawn '' @ TCPDUMP @ '' on '' @ tap @ '' in network namespace '' @ namespace @ '': '' @ re_text (pe_reap env) e)"

definition staging_pcap_path :: "string \<Rightarrow> string" where
  "staging_pcap_path room_dir' =
     (let id = (case rev (components room_dir') of NormalComponent name # _ \<Rightarrow> name | _ \<Rightarrow> ''room'')
      in path_join ''/tmp'' (STAGED_PCAP_PREFIX @ id @ ''.pcap''))"

subsection \<open>A capture\<close>

record capture =
  cap_tap :: string
  cap_pcap_path :: string
  cap_child :: u32
  cap_capped :: bool
  cap_remove_pcap_on_drop :: bool

definition spawn_tcpdump :: "'n proc_env \<Rightarrow> capture_target \<Rightarrow> string \<Rightarrow> string \<Rightarrow> 'n \<Rightarrow> (string + u32) \<times> 'n" where
  "spawn_tcpdump env target tap pcap_path n = map_err (spawn_error env target tap) (pe_spawn env (capture_command target tap pcap_path) n)"

text \<open>A child that dies in the settling window is a failed start; its handle is dropped, which kills what is left of it.\<close>

definition start_for :: "'n proc_env \<Rightarrow> capture_target \<Rightarrow> string \<Rightarrow> string \<Rightarrow> 'n \<Rightarrow> (string + capture) \<times> 'n" where
  "start_for env target tap room_dir' n =
     (let pcap_path = staging_pcap_path room_dir' in
      and_then (spawn_tcpdump env target tap pcap_path n) (\<lambda>child n.
      let n = pe_settle env n in
      case pe_try_wait env child n of
        Inl e \<Rightarrow> (Inl (''probe tcpdump liveness: '' @ re_text (pe_reap env) e), pe_kill env child (pe_unlink env pcap_path n))
      | Inr (Some status) \<Rightarrow>
          (Inl (''tcpdump exited immediately ('' @ es_text status @ '') capturing '' @ tap @ ''; capture did not start''), pe_unlink env pcap_path n)
      | Inr None \<Rightarrow>
          (Inr \<lparr>cap_tap = tap, cap_pcap_path = pcap_path, cap_child = child, cap_capped = False, cap_remove_pcap_on_drop = True\<rparr>, n)))"

definition capture_start :: "'n proc_env \<Rightarrow> string \<Rightarrow> string \<Rightarrow> 'n \<Rightarrow> (string + capture) \<times> 'n" where
  "capture_start env tap room_dir' n = start_for env HostTarget tap room_dir' n"

definition start_in_namespace :: "'n proc_env \<Rightarrow> string \<Rightarrow> string \<Rightarrow> string \<Rightarrow> 'n \<Rightarrow> (string + capture) \<times> 'n" where
  "start_in_namespace env namespace tap room_dir' n = start_for env (NamespaceTarget namespace) tap room_dir' n"

definition send_sigterm :: "'n proc_env \<Rightarrow> u32 \<Rightarrow> 'n \<Rightarrow> 'n" where
  "send_sigterm env pid n = snd (re_run (pe_reap env) (kill_cmd ''TERM'' pid) n)"

text \<open>One tick of the watcher: \<open>None\<close> means that it goes on.\<close>

definition watch_tick :: "'n proc_env \<Rightarrow> u32 option \<Rightarrow> capture \<Rightarrow> 'n \<Rightarrow> capture \<times> 'n \<times> bool" where
  "watch_tick env pid c n = (case pid of
     None \<Rightarrow> (c, n, True)
   | Some pid \<Rightarrow>
       if (case pe_len env (cap_pcap_path c) n of None \<Rightarrow> 0 | Some len \<Rightarrow> len) < CAPTURE_CAP_BYTES then (c, n, False)
       else (c\<lparr>cap_capped := True\<rparr>, send_sigterm env pid n, True))"

definition capture_drop :: "'n proc_env \<Rightarrow> capture \<Rightarrow> 'n \<Rightarrow> 'n" where
  "capture_drop env c n =
     (let n = pe_kill env (cap_child c) n in if cap_remove_pcap_on_drop c then pe_unlink env (cap_pcap_path c) n else n)"

definition capture_stop :: "'n proc_env \<Rightarrow> capture \<Rightarrow> 'n \<Rightarrow> bool \<times> 'n" where
  "capture_stop env c n =
     (let c = c\<lparr>cap_remove_pcap_on_drop := False\<rparr>;
          over_cap = (case pe_len env (cap_pcap_path c) n of None \<Rightarrow> False | Some len \<Rightarrow> CAPTURE_CAP_BYTES \<le> len);
          capped = (cap_capped c \<or> over_cap);
          (complete, n) =
            (case pe_try_wait env (cap_child c) n of
               Inl _ \<Rightarrow> (False, n)
             | Inr (Some _) \<Rightarrow> (False, n)
             | Inr None \<Rightarrow> (case pe_child_id env (cap_child c) n of
                 None \<Rightarrow> (False, n)
               | Some pid \<Rightarrow> (case pe_wait env (cap_child c) (send_sigterm env pid n) of
                   (Some (Inr status), n) \<Rightarrow> (exit_success status \<and> \<not> capped, n)
                 | (Some (Inl _), n) \<Rightarrow> (False, n)
                 | (None, n) \<Rightarrow> (False, pe_kill env (cap_child c) n))))
      in (complete, capture_drop env c n))"

subsection \<open>What a capture says about itself\<close>

text \<open>A capture is reported complete exactly when it never reached its size cap (neither at a tick of the watcher nor when it was
  stopped), the process was still running when it was asked to stop, and it then exited cleanly in time.\<close>

theorem capture_complete_exactly:
  "fst (capture_stop env c n) \<longleftrightarrow>
     \<not> cap_capped c \<and> \<not> (\<exists>len. pe_len env (cap_pcap_path c) n = Some len \<and> CAPTURE_CAP_BYTES \<le> len)
     \<and> pe_try_wait env (cap_child c) n = Inr None
     \<and> (\<exists>pid status n'. pe_child_id env (cap_child c) n = Some pid
         \<and> pe_wait env (cap_child c) (send_sigterm env pid n) = (Some (Inr status), n') \<and> exit_success status)"
  by (auto simp: capture_stop_def Let_def not_le split: sum.splits option.splits prod.splits)

text \<open>A start that fails leaves neither a staged file nor, after the settling window, a child that was not killed or seen dead.\<close>

lemma failed_start_cleans_up:
  assumes "start_for env target tap d n = (Inl e, n')"
  shows "(\<exists>child n1. pe_spawn env (capture_command target tap (staging_pcap_path d)) n = (Inr child, n1)
        \<and> (n' = pe_kill env child (pe_unlink env (staging_pcap_path d) (pe_settle env n1))
         \<or> n' = pe_unlink env (staging_pcap_path d) (pe_settle env n1) \<and> (\<exists>s. pe_try_wait env child (pe_settle env n1) = Inr (Some s))))
     \<or> (\<exists>x. pe_spawn env (capture_command target tap (staging_pcap_path d)) n = (Inl x, n'))"
  using assms
  by (auto simp: start_for_def Let_def spawn_tcpdump_def map_err_def and_then_def split: sum.splits option.splits prod.splits)

end
