(* ===== verification/Boot.thy ===== *)
theory Boot
  imports Images Capture Vsock Host_Frame
begin

text \<open>
  Booting a room (\<open>src/src/firecracker.rs\<close>, Unix build, and the API transport \<open>src/src/transport.rs\<close>): custody of the slot claim
  until a guard owns it, staging of the jail, the tap, the capture, the egress chain and the vsock listeners, the launch of the VMM
  and its configuration, and the unwinding of all of it on failure or cancellation.

  The boot runs on a record that holds the state base with the host, the vsock link and the resources the function owns at the moment: its
  guard, the child, the capture and the listeners. An error drops them in the order of the source. Cancellation is polled at every
  wait of the boot block: the environment says at which wait it arrives and whether the operation waited for has
  taken effect by then. Times are milliseconds; how often a wait polls before its deadline is given by the environment.
\<close>

subsection \<open>Network and resources\<close>

definition FIRECRACKER_USER :: string where "FIRECRACKER_USER = ''firecracker''"
definition NETWORK_NAMESPACE_DIR :: string where "NETWORK_NAMESPACE_DIR = ''/run/netns''"
definition OVERLAY_INIT :: string where "OVERLAY_INIT = ''/sbin/overlay-init''"

record network_config =
  nc_tap_name :: string
  nc_guest_ip :: string
  nc_gateway_ip :: string
  nc_prefix :: u8

definition ipv4_of_u32 :: "u32 \<Rightarrow> ipv4" where
  "ipv4_of_u32 w = (ucast (drop_bit 24 w), ucast (drop_bit 16 w), ucast (drop_bit 8 w), ucast w)"

definition prefix_mask :: "u8 \<Rightarrow> u32" where
  "prefix_mask pre = (let p = min (unat pre) 32 in if p = 0 then 0 else push_bit (32 - p) (-1))"

definition prefix_to_netmask :: "u8 \<Rightarrow> string" where
  "prefix_to_netmask pre = show_ipv4 (ipv4_of_u32 (prefix_mask pre))"

record resources =
  rs_cpus :: u8
  rs_memory_mib :: u32
  rs_disk_gib :: "u32 option"

definition default_resources :: resources where
  "default_resources = \<lparr>rs_cpus = 1, rs_memory_mib = 256, rs_disk_gib = None\<rparr>"

definition resources_validate :: "resources \<Rightarrow> bool \<Rightarrow> bool \<Rightarrow> firecracker_error + unit" where
  "resources_validate r readonly base =
     (if \<not> (1 \<le> rs_cpus r \<and> rs_cpus r \<le> 32) \<or> (1 < rs_cpus r \<and> rs_cpus r mod 2 \<noteq> 0)
         \<or> \<not> (128 \<le> rs_memory_mib r \<and> rs_memory_mib r \<le> 65536)
         \<or> (case rs_disk_gib r of None \<Rightarrow> False | Some gib \<Rightarrow> \<not> (1 \<le> gib \<and> gib \<le> 1024))
      then Inl (FcInternal ''invalid room resources'')
      else if rs_disk_gib r \<noteq> None \<and> (\<not> readonly \<or> base) then Inl (FcInternal ''scratch requires a read-only cold room'')
      else Inr ())"

record boot_request =
  br_toolstore :: "toolstore option"
  br_resources :: resources
  br_kernel :: string
  br_rootfs :: string
  br_network :: "network_config option"
  br_slot :: "slot option"
  br_room_id :: string
  br_readonly_rootfs :: bool
  br_descriptor :: room_descriptor
  br_witness :: bool
  br_secrets :: "string option"
  br_provisioning :: "provisioning_payload option"
  br_egress :: egress_plan
  br_base :: bool

subsection \<open>The environment and the state\<close>

datatype json = JStr string | JNum nat | JBool bool | JObj "(string \<times> json) list"

record curl_output =
  co_code :: "int option"
  co_stdout :: string
  co_stderr :: string

datatype boot_wait = AtDependencies | AtScratch | AtWitness | AtLog | AtSocket nat | AtApi string
datatype cancel = CancelBefore | CancelAfter

record ('n, 's) boot_env =
  be_images :: "'n image_env"
  be_procs :: "'n proc_env"
  be_link :: "'s link_env"
  be_home :: "string option"
  be_config :: rooms_config
  be_kvm_opens :: "'n \<Rightarrow> bool"
  be_is_file :: "string \<Rightarrow> 'n \<Rightarrow> bool"
  be_canonicalize :: "string \<Rightarrow> 'n \<Rightarrow> io_error + string"
  be_json :: "json \<Rightarrow> string + string"
  be_secs_text :: "nat \<Rightarrow> string"
  be_curl :: "command_spec \<Rightarrow> 'n \<Rightarrow> (io_error + curl_output) \<times> 'n"
  be_connects :: "string \<Rightarrow> 'n \<Rightarrow> bool"
  be_log :: "'n \<Rightarrow> string"
  be_meta_to_json :: "room_meta \<Rightarrow> string + string"
  be_meta_from_json :: "string \<Rightarrow> string + room_meta"
  be_now :: datetime
  be_scratch_file :: "io_error option"
  be_lost_worker :: "string \<Rightarrow> string option"
  be_cancel :: "boot_wait \<Rightarrow> cancel option"

abbreviation be_reap :: "('n, 's) boot_env \<Rightarrow> 'n reap_env" where "be_reap env \<equiv> ig_reap (be_images env)"
abbreviation be_io :: "('n, 's) boot_env \<Rightarrow> io_env" where "be_io env \<equiv> re_io (be_reap env)"
abbreviation be_text :: "('n, 's) boot_env \<Rightarrow> io_error \<Rightarrow> string" where "be_text env \<equiv> re_text (be_reap env)"
abbreviation be_run :: "('n, 's) boot_env \<Rightarrow> 'n runner" where "be_run env \<equiv> re_run (be_reap env)"

record ('n, 's) boot_state =
  bw_world :: "'n room_host world"
  bw_link :: "'s link"
  bw_guard :: room_guard
  bw_child :: "u32 option"
  bw_witness :: "capture option"
  bw_secrets :: "string list"
  bw_provisioning :: "string list"

definition on_bw :: "('n room_host world \<Rightarrow> 'a \<times> 'n room_host world) \<Rightarrow> ('n, 's) boot_state \<Rightarrow> 'a \<times> ('n, 's) boot_state" where
  "on_bw f b = (case f (bw_world b) of (r, w) \<Rightarrow> (r, b\<lparr>bw_world := w\<rparr>))"

definition on_machine :: "('n \<Rightarrow> 'a \<times> 'n) \<Rightarrow> ('n, 's) boot_state \<Rightarrow> 'a \<times> ('n, 's) boot_state" where
  "on_machine f b = on_bw (on_host (on_programs f)) b"

definition on_link :: "('s link \<Rightarrow> 'a \<times> 's link) \<Rightarrow> ('n, 's) boot_state \<Rightarrow> 'a \<times> ('n, 's) boot_state" where
  "on_link f b = (case f (bw_link b) of (r, l) \<Rightarrow> (r, b\<lparr>bw_link := l\<rparr>))"

abbreviation world_machine :: "'n room_host world \<Rightarrow> 'n" where "world_machine w \<equiv> net_state (clone_side (host w))"
abbreviation machine :: "('n, 's) boot_state \<Rightarrow> 'n" where "machine b \<equiv> world_machine (bw_world b)"

definition boot_cancelled :: firecracker_error where
  "boot_cancelled = FcInternal ''boot cancelled before handoff''"

definition await_boot ::
  "('n, 's) boot_env \<Rightarrow> boot_wait \<Rightarrow> ('b \<Rightarrow> (firecracker_error + 'a) \<times> 'b) \<Rightarrow> 'b \<Rightarrow> (firecracker_error + 'a) \<times> 'b" where
  "await_boot env pt f b = (case be_cancel env pt of
     None \<Rightarrow> f b
   | Some CancelBefore \<Rightarrow> (Inl boot_cancelled, b)
   | Some CancelAfter \<Rightarrow> (Inl boot_cancelled, snd (f b)))"

subsection \<open>Dependencies\<close>

definition ensure_root :: "('n, 's) boot_env \<Rightarrow> 'n \<Rightarrow> (firecracker_error + unit) \<times> 'n" where
  "ensure_root env n = (case be_run env \<lparr>cmd_program = ''id'', cmd_args = [''-u'']\<rparr> n of
     (Inl e, n) \<Rightarrow> (Inl (FcIo e), n)
   | (Inr out, n) \<Rightarrow> if trim (out_stdout out) = ''0'' then (Inr (), n) else (Inl FcRootRequired, n))"

definition check_kvm :: "('n, 's) boot_env \<Rightarrow> 'n \<Rightarrow> firecracker_error + unit" where
  "check_kvm env n = (if \<not> ig_exists (be_images env) ''/dev/kvm'' n then Inl FcKvmUnavailable
     else if be_kvm_opens env n then Inr () else Inl FcKvmUnavailable)"

definition resolve_binary_on_path ::
  "('n, 's) boot_env \<Rightarrow> string \<Rightarrow> (string \<Rightarrow> firecracker_error) \<Rightarrow> 'n \<Rightarrow> firecracker_error + string" where
  "resolve_binary_on_path env binary not_found n =
     (if has_root binary \<or> length (components binary) > 1
      then (if ig_exists (be_images env) binary n then Inr binary else Inl (not_found binary))
      else case pe_path_var (be_procs env) of
        None \<Rightarrow> Inl (FcJailPrepareFailed ''PATH unset'')
      | Some p \<Rightarrow> (case find (\<lambda>candidate. be_is_file env candidate n) (map (\<lambda>dir. path_join dir binary) (split_on (CHR '':'') p)) of
          None \<Rightarrow> Inl (not_found binary) | Some found \<Rightarrow> Inr found))"

definition resolve_firecracker_binary :: "('n, 's) boot_env \<Rightarrow> 'n \<Rightarrow> firecracker_error + string" where
  "resolve_firecracker_binary env n = resolve_binary_on_path env (firecracker_binary (be_config env)) FcBinaryNotFound n"

definition resolve_jailer_binary :: "('n, 's) boot_env \<Rightarrow> 'n \<Rightarrow> firecracker_error + string" where
  "resolve_jailer_binary env n = resolve_binary_on_path env (jailer_binary (be_config env)) FcJailerNotFound n"

definition parse_getent_passwd :: "string \<Rightarrow> (u32 \<times> u32) option" where
  "parse_getent_passwd text = (case lines text of
     [] \<Rightarrow> None
   | line # _ \<Rightarrow>
       if trim line = [] then None
       else (case split_on (CHR '':'') (trim line) of
           _ # _ # uid # gid # _ \<Rightarrow> (case parse_u32 uid of
               None \<Rightarrow> None
             | Some u \<Rightarrow> (case parse_u32 gid of None \<Rightarrow> None | Some g \<Rightarrow> Some (u, g)))
         | _ \<Rightarrow> None))"

definition lookup_firecracker_ids :: "('n, 's) boot_env \<Rightarrow> 'n \<Rightarrow> (firecracker_error + u32 \<times> u32) \<times> 'n" where
  "lookup_firecracker_ids env n = (case be_run env \<lparr>cmd_program = ''getent'', cmd_args = [''passwd'', FIRECRACKER_USER]\<rparr> n of
     (Inl e, n) \<Rightarrow> (Inl (FcIo e), n)
   | (Inr out, n) \<Rightarrow>
       if \<not> out_success out then (Inl (FcFirecrackerUserMissing FIRECRACKER_USER), n)
       else (case parse_getent_passwd (out_stdout out) of
           None \<Rightarrow> (Inl (FcFirecrackerUserMissing FIRECRACKER_USER), n) | Some ids \<Rightarrow> (Inr ids, n)))"

definition resolve_boot_dependencies :: "('n, 's) boot_env \<Rightarrow> 'n \<Rightarrow> (firecracker_error + string \<times> string \<times> u32 \<times> u32) \<times> 'n" where
  "resolve_boot_dependencies env n =
     and_then (ensure_root env n) (\<lambda>_ n.
     case check_kvm env n of Inl e \<Rightarrow> (Inl e, n) | Inr _ \<Rightarrow>
     (case resolve_firecracker_binary env n of Inl e \<Rightarrow> (Inl e, n) | Inr fc \<Rightarrow>
     (case resolve_jailer_binary env n of Inl e \<Rightarrow> (Inl e, n) | Inr jailer \<Rightarrow>
     and_then (lookup_firecracker_ids env n) (\<lambda>(uid, gid) n. (Inr (fc, jailer, uid, gid), n)))))"

subsection \<open>The tap\<close>

definition slot_tap_plan :: "slot \<Rightarrow> string option \<Rightarrow> command_spec list" where
  "slot_tap_plan s namespace =
     (let commands =
        [ip_cmd [''tuntap'', ''add'', slot_tap s, ''mode'', ''tap'', ''user'', FIRECRACKER_USER],
         ip_cmd [''addr'', ''add'', show_ipv4 (slot_gateway s) @ slash # show_u8 (slot_prefix s), ''dev'', slot_tap s],
         ip_cmd [''link'', ''set'', slot_tap s, ''up''],
         \<lparr>cmd_program = ''sysctl'', cmd_args = [''-w'', ''net.ipv4.conf.'' @ slot_tap s @ ''.forwarding=1'']\<rparr>]
      in case namespace of
        None \<Rightarrow> commands
      | Some ns \<Rightarrow> map (\<lambda>c. ip_cmd ([''netns'', ''exec'', ns, cmd_program c] @ cmd_args c)) commands)"

definition run_tap_command :: "('n, 's) boot_env \<Rightarrow> command_spec \<Rightarrow> 'n \<Rightarrow> (firecracker_error + unit) \<times> 'n" where
  "run_tap_command env c n = (case be_run env c n of
     (Inl e, n) \<Rightarrow> (Inl (FcIo e), n)
   | (Inr out, n) \<Rightarrow> if out_success out then (Inr (), n)
       else (Inl (FcInternal (command_display c @ '' failed: '' @ trim (out_stderr out))), n))"

fun run_tap_commands :: "('n, 's) boot_env \<Rightarrow> command_spec list \<Rightarrow> 'n \<Rightarrow> (firecracker_error + unit) \<times> 'n" where
  "run_tap_commands env [] n = (Inr (), n)"
| "run_tap_commands env (c # cs) n = and_then (run_tap_command env c n) (\<lambda>_ n. run_tap_commands env cs n)"

definition create_slot_tap :: "('n, 's) boot_env \<Rightarrow> slot \<Rightarrow> string option \<Rightarrow> 'n \<Rightarrow> (firecracker_error + unit) \<times> 'n" where
  "create_slot_tap env s namespace n = run_tap_commands env (slot_tap_plan s namespace) n"

definition tap_namespace_probe :: "string \<Rightarrow> string \<Rightarrow> command_spec" where
  "tap_namespace_probe namespace tap = ip_cmd [''-n'', namespace, ''link'', ''show'', ''dev'', tap]"

definition verify_tap_in_namespace :: "('n, 's) boot_env \<Rightarrow> string \<Rightarrow> string \<Rightarrow> 'n \<Rightarrow> (firecracker_error + unit) \<times> 'n" where
  "verify_tap_in_namespace env namespace tap n = run_tap_command env (tap_namespace_probe namespace tap) n"

definition network_namespace_path :: "string \<Rightarrow> string" where
  "network_namespace_path namespace = NETWORK_NAMESPACE_DIR @ slash # namespace"

definition process_network_namespace_path :: "u32 \<Rightarrow> string" where
  "process_network_namespace_path pid = ''/proc/'' @ show_u32 pid @ ''/ns/net''"

definition show_identity :: "u64 \<times> u64 \<Rightarrow> string" where
  "show_identity i = ''('' @ show_u64 (fst i) @ '', '' @ show_u64 (snd i) @ '')''"

definition namespace_identity :: "('n, 's) boot_env \<Rightarrow> string \<Rightarrow> 'n \<Rightarrow> firecracker_error + u64 \<times> u64" where
  "namespace_identity env path n = (case ig_identity (be_images env) path n of
     Inl e \<Rightarrow> Inl (FcInternal (''inspect network namespace '' @ path @ '': '' @ be_text env e)) | Inr i \<Rightarrow> Inr i)"

definition verify_process_network_namespace :: "('n, 's) boot_env \<Rightarrow> u32 \<Rightarrow> string \<Rightarrow> 'n \<Rightarrow> firecracker_error + unit" where
  "verify_process_network_namespace env pid namespace n =
     (let expected_path = network_namespace_path namespace in
      case namespace_identity env expected_path n of
        Inl e \<Rightarrow> Inl e
      | Inr expected \<Rightarrow> (case namespace_identity env (process_network_namespace_path pid) n of
          Inl e \<Rightarrow> Inl e
        | Inr actual \<Rightarrow>
            if fst expected = fst actual \<and> snd expected = snd actual then Inr ()
            else Inl (FcInternal (''process '' @ show_u32 pid @ '' network namespace '' @ show_identity actual @ '' does not match ''
                   @ expected_path @ '' '' @ show_identity expected))))"

subsection \<open>The jail\<close>

definition boot_instance_dir :: "string \<Rightarrow> string \<Rightarrow> string" where
  "boot_instance_dir base room_id = path_join (path_join base ''firecracker'') room_id"

definition boot_root_dir :: "string \<Rightarrow> string \<Rightarrow> string" where
  "boot_root_dir base room_id = path_join (boot_instance_dir base room_id) ''root''"

definition jail_names :: "string \<Rightarrow> 'n room_host \<Rightarrow> string list" where
  "jail_names instance_dir h = (case jails h instance_dir of None \<Rightarrow> [] | Some names \<Rightarrow> names)"

definition add_jail_name :: "string \<Rightarrow> string \<Rightarrow> 'n room_host \<Rightarrow> 'n room_host" where
  "add_jail_name instance_dir name h = h\<lparr>jails := (jails h)(instance_dir \<mapsto> name # filter (\<lambda>x. x \<noteq> name) (jail_names instance_dir h))\<rparr>"

definition bind_mount :: "('n, 's) boot_env \<Rightarrow> string \<Rightarrow> string \<Rightarrow> 'n \<Rightarrow> (firecracker_error + unit) \<times> 'n" where
  "bind_mount env source target n =
     (let label = ''mount --bind '' @ source @ '' -> '' @ target in
      case be_run env \<lparr>cmd_program = ''mount'', cmd_args = [''--bind'', source, target]\<rparr> n of
        (Inl e, n) \<Rightarrow> (Inl (FcJailPrepareFailed (label @ '': '' @ be_text env e)), n)
      | (Inr out, n) \<Rightarrow> if out_success out then (Inr (), n)
          else (Inl (FcJailPrepareFailed (label @ '' failed (need root?): '' @ out_stderr out)), n))"

definition create_mount_target :: "('n, 's) boot_env \<Rightarrow> string \<Rightarrow> string \<Rightarrow> 'n room_host \<Rightarrow> (firecracker_error + unit) \<times> 'n room_host" where
  "create_mount_target env instance_dir name h =
     (if name \<in> set (jail_names instance_dir h) then (Inr (), h)
      else case check_fault (be_io env) (CreateNew instance_dir name) of
        Inl e \<Rightarrow> (Inl (FcJailPrepareFailed (''create mount target '' @ path_join (path_join instance_dir ''root'') name @ '': '' @ be_text env e)), h)
      | Inr _ \<Rightarrow> (Inr (), add_jail_name instance_dir name h))"

text \<open>\<open>remove_dir_all\<close> of an instance directory, its error ignored.\<close>

definition remove_jail_dir :: "'n reap_env \<Rightarrow> string \<Rightarrow> 'n room_host \<Rightarrow> 'n room_host" where
  "remove_jail_dir env instance_dir h = (case jails h instance_dir of
     None \<Rightarrow> h
   | Some names \<Rightarrow> (case re_jail_left env instance_dir (net_state (clone_side h)) of
       Some left \<Rightarrow> h\<lparr>jails := (jails h)(instance_dir \<mapsto> filter (\<lambda>x. x \<in> set left) names)\<rparr>
     | None \<Rightarrow> h\<lparr>jails := (jails h)(instance_dir := None)\<rparr>))"

definition stage_jail_sync ::
  "('n, 's) boot_env \<Rightarrow> string \<Rightarrow> string \<Rightarrow> string \<Rightarrow> string \<Rightarrow> 'n room_host \<Rightarrow> (firecracker_error + unit) \<times> 'n room_host" where
  "stage_jail_sync env base room_id kern rootfs h =
     (let instance_dir = boot_instance_dir base room_id; jail_root = boot_root_dir base room_id;
          jail_kernel = path_join jail_root JAIL_KERNEL; jail_rootfs = path_join jail_root JAIL_ROOTFS in
      case check_fault (be_io env) (CreateDirAll jail_root) of
        Inl e \<Rightarrow> (Inl (FcJailPrepareFailed (''create jail root '' @ jail_root @ '': '' @ be_text env e)), h)
      | Inr _ \<Rightarrow>
          let h = h\<lparr>jails := (jails h)(instance_dir \<mapsto> jail_names instance_dir h)\<rparr> in
          and_then (create_mount_target env instance_dir JAIL_KERNEL h) (\<lambda>_ h.
          and_then (create_mount_target env instance_dir JAIL_ROOTFS h) (\<lambda>_ h.
          and_then (on_programs (bind_mount env kern jail_kernel) h) (\<lambda>_ h.
          case on_programs (bind_mount env rootfs jail_rootfs) h of
            (Inl e, h) \<Rightarrow>
              let h = snd (on_programs (unmount (be_reap env) jail_kernel) h)
              in (Inl e, remove_jail_dir (be_reap env) instance_dir h)
          | (Inr _, h) \<Rightarrow> (Inr (), h)))))"

record jail_layout =
  jl_instance_dir :: string
  jl_host_socket :: string

definition prepare_jail_layout ::
  "('n, 's) boot_env \<Rightarrow> string \<Rightarrow> string \<Rightarrow> string \<Rightarrow> string \<Rightarrow> 'n room_host \<Rightarrow> (firecracker_error + jail_layout) \<times> 'n room_host" where
  "prepare_jail_layout env base room_id kern rootfs h =
     (case be_canonicalize env kern (net_state (clone_side h)) of
        Inl e \<Rightarrow> (Inl (FcJailPrepareFailed (''kernel path '' @ kern @ '': '' @ be_text env e)), h)
      | Inr kern \<Rightarrow> (case be_canonicalize env rootfs (net_state (clone_side h)) of
          Inl e \<Rightarrow> (Inl (FcJailPrepareFailed (''rootfs path '' @ rootfs @ '': '' @ be_text env e)), h)
        | Inr rootfs \<Rightarrow>
            (case stage_jail_sync env base room_id kern rootfs h of
               (r, h) \<Rightarrow> (case be_lost_worker env ''jail'' of
                  Some e \<Rightarrow> (Inl (FcInternal (''spawn_blocking panicked: '' @ e)), h)
                | None \<Rightarrow> and_then (r, h) (\<lambda>_ h.
                    (Inr \<lparr>jl_instance_dir = boot_instance_dir base room_id,
                          jl_host_socket = path_join (boot_root_dir base room_id) JAIL_API_SOCK\<rparr>, h))))))"

definition stage_toolstore ::
  "('n, 's) boot_env \<Rightarrow> toolstore \<Rightarrow> string \<Rightarrow> bool \<Rightarrow> 'n room_host \<Rightarrow> (firecracker_error + unit) \<times> 'n room_host" where
  "stage_toolstore env t instance_dir require_scratch h =
     (let jail = path_join instance_dir ''root''; rootfs = path_join jail JAIL_ROOTFS; im = be_images env in
      and_then (map_err FcInternal (on_programs (validate_toolstore_image im rootfs) h)) (\<lambda>_ h.
      and_then (if require_scratch then map_err FcInternal (on_programs (validate_scratch_image im rootfs) h) else (Inr (), h)) (\<lambda>_ h.
      if JAIL_TOOLSTORE \<in> set (jail_names instance_dir h) then (Inl (FcInternal (be_text env AlreadyExists)), h)
      else case check_fault (be_io env) (CreateNew instance_dir JAIL_TOOLSTORE) of
        Inl e \<Rightarrow> (Inl (FcInternal (be_text env e)), h)
      | Inr _ \<Rightarrow> map_err FcInternal (on_programs (bind_into im t (path_join jail JAIL_TOOLSTORE)) (add_jail_name instance_dir JAIL_TOOLSTORE h)))))"

definition prepare_toolstore ::
  "('n, 's) boot_env \<Rightarrow> toolstore \<Rightarrow> string \<Rightarrow> bool \<Rightarrow> 'n room_host \<Rightarrow> (firecracker_error + unit) \<times> 'n room_host" where
  "prepare_toolstore env t instance_dir require_scratch h = (case toolstore_try_clone (be_images env) t of
     Inl e \<Rightarrow> (Inl (FcInternal (be_text env e)), h)
   | Inr t \<Rightarrow> (case stage_toolstore env t instance_dir require_scratch h of
       (r, h) \<Rightarrow> (case be_lost_worker env ''toolstore'' of
          Some e \<Rightarrow> (Inl (FcInternal (''toolstore worker failed: '' @ e)), h) | None \<Rightarrow> (r, h))))"

definition SCRATCH_FILE :: string where "SCRATCH_FILE = ''scratch.ext4''"

text \<open>Setting the length of the sparse file may fail (\<open>be_scratch_file\<close>).\<close>

definition prepare_scratch :: "('n, 's) boot_env \<Rightarrow> string \<Rightarrow> 'n room_host \<Rightarrow> (firecracker_error + unit) \<times> 'n room_host" where
  "prepare_scratch env instance_dir h =
     (let path = path_join (path_join instance_dir ''root'') SCRATCH_FILE in
      if SCRATCH_FILE \<in> set (jail_names instance_dir h) then (Inl (FcIo AlreadyExists), h)
      else case check_fault (be_io env) (CreateNew instance_dir SCRATCH_FILE) of
        Inl e \<Rightarrow> (Inl (FcIo e), h)
      | Inr _ \<Rightarrow>
          let h = add_jail_name instance_dir SCRATCH_FILE h in
          (case be_scratch_file env of
             Some e \<Rightarrow> (Inl (FcIo e), h)
           | None \<Rightarrow> (case on_programs (be_run env \<lparr>cmd_program = ''mkfs.ext4'', cmd_args = [''-q'', ''-F'', ''-m'', ''0'', path]\<rparr>) h of
               (Inl e, h) \<Rightarrow> (Inl (FcIo e), h)
             | (Inr out, h) \<Rightarrow>
                 if \<not> out_success out then (Inl (FcInternal (''format scratch disk: '' @ out_stderr out)), h)
                 else (case check_fault (be_io env) (SetPermissions instance_dir SCRATCH_FILE) of
                     Inl e \<Rightarrow> (Inl (FcIo e), h) | Inr _ \<Rightarrow> (Inr (), h)))))"

subsection \<open>The launch\<close>

record jailer_launch_plan =
  jp_jailer_binary :: string
  jp_jailer_args :: "string list"
  jp_firecracker_args :: "string list"
  jp_host_socket :: string
  jp_kernel_path_in_jail :: string
  jp_rootfs_path_in_jail :: string

definition build_jailer_launch_plan ::
  "string \<Rightarrow> string \<Rightarrow> string \<Rightarrow> string \<Rightarrow> u32 \<Rightarrow> u32 \<Rightarrow> jail_layout \<Rightarrow> string option \<Rightarrow> jailer_launch_plan" where
  "build_jailer_launch_plan jailer firecracker base room_id uid gid layout namespace =
     \<lparr>jp_jailer_binary = jailer,
      jp_jailer_args = [''--id'', room_id, ''--uid'', show_u32 uid, ''--gid'', show_u32 gid, ''--exec-file'', firecracker, ''--chroot-base-dir'', base]
        @ (case namespace of None \<Rightarrow> [] | Some ns \<Rightarrow> [''--netns'', network_namespace_path ns]),
      jp_firecracker_args = [''--api-sock'', JAIL_API_SOCK],
      jp_host_socket = jl_host_socket layout,
      jp_kernel_path_in_jail = slash # JAIL_KERNEL,
      jp_rootfs_path_in_jail = slash # JAIL_ROOTFS\<rparr>"

definition spawn_jailer :: "('n, 's) boot_env \<Rightarrow> jailer_launch_plan \<Rightarrow> 'n \<Rightarrow> (firecracker_error + u32) \<times> 'n" where
  "spawn_jailer env p n =
     map_err (\<lambda>e. if e = NotFound then FcJailerNotFound (jp_jailer_binary p) else FcIo e)
       (pe_spawn (be_procs env) \<lparr>cmd_program = jp_jailer_binary p, cmd_args = jp_jailer_args p @ [''--''] @ jp_firecracker_args p\<rparr> n)"

definition FIRECRACKER_LOG :: string where "FIRECRACKER_LOG = ''firecracker.log''"

definition open_log_file :: "('n, 's) boot_env \<Rightarrow> string \<Rightarrow> 'n room_host world \<Rightarrow> (firecracker_error + unit) \<times> 'n room_host world" where
  "open_log_file env room_dir' w = (case map_err FcIo (open_truncate (be_io env) room_dir' FIRECRACKER_LOG w) of
     (r, w) \<Rightarrow> (case be_lost_worker env ''log'' of Some e \<Rightarrow> (Inl (FcInternal (''spawn_blocking panicked: '' @ e)), w) | None \<Rightarrow> (r, w)))"

definition create_room_dir_0700 :: "io_env \<Rightarrow> string \<Rightarrow> 'h world \<Rightarrow> (io_error + unit) \<times> 'h world" where
  "create_room_dir_0700 io d w = (if dirs w d then (Inl AlreadyExists, w) else create_dir_all io d w)"

text \<open>The state base itself is the directory with the empty name.\<close>

definition prepare_room_dir :: "('n, 's) boot_env \<Rightarrow> string \<Rightarrow> 'n room_host world \<Rightarrow> (firecracker_error + unit) \<times> 'n room_host world" where
  "prepare_room_dir env room_dir' w =
     and_then (map_err FcIo (create_dir_all (be_io env) [] w)) (\<lambda>_ w.
     case map_err FcIo (create_room_dir_0700 (be_io env) room_dir' w) of
       (r, w) \<Rightarrow> (case be_lost_worker env ''room'' of Some e \<Rightarrow> (Inl (FcInternal (''spawn_blocking panicked: '' @ e)), w) | None \<Rightarrow> (r, w)))"

definition boot_meta :: "('n, 's) boot_env \<Rightarrow> boot_request \<Rightarrow> u32 option \<Rightarrow> 'n \<Rightarrow> room_meta" where
  "boot_meta env req pid n =
     (let pid_starttime = Option.bind pid (starttime_of ((be_io env)\<lparr>proc_stat := re_stat (be_reap env) n\<rparr>));
          build = (if br_base req then new_base else room_meta_new);
          m = build (br_room_id req) (rd_command (br_descriptor req)) pid pid_starttime (rd_keep (br_descriptor req)) (be_now env)
      in m\<lparr>rm_slot := br_slot req, rm_toolstore_sha256 := map_option ts_digest (br_toolstore req),
           rm_base_repo_sha := Option.bind (br_provisioning req) pp_base_repo_sha\<rparr>)"

definition write_room_meta ::
  "('n, 's) boot_env \<Rightarrow> string \<Rightarrow> boot_request \<Rightarrow> u32 option \<Rightarrow> 'n room_host world \<Rightarrow> (firecracker_error + unit) \<times> 'n room_host world" where
  "write_room_meta env room_dir' req pid w =
     (case write_atomic (be_meta_to_json env) (be_io env) room_dir' (boot_meta env req pid (world_machine w)) w of
        (Inr _, w) \<Rightarrow> (Inr (), w)
      | (Inl e, w) \<Rightarrow> if br_base req then (Inl (FcIo e), w) else (Inr (), w))"

subsection \<open>The API transport\<close>

definition api_command :: "string \<Rightarrow> string \<Rightarrow> string \<Rightarrow> string \<Rightarrow> string \<Rightarrow> command_spec" where
  "api_command socket m endpoint body max_time =
     \<lparr>cmd_program = ''curl'',
      cmd_args = [''--unix-socket'', socket, ''-X'', m, ''http://localhost'' @ endpoint, ''-H'', ''Content-Type: application/json'',
        ''-d'', body, ''--fail-with-body'', ''--silent'', ''--show-error'', ''--max-time'', max_time]\<rparr>"

definition millis_u64 :: "nat \<Rightarrow> u64" where
  "millis_u64 ms = (if ms < 2 ^ 64 then of_nat ms else -1)"

definition api_request :: "('n, 's) boot_env \<Rightarrow> string \<Rightarrow> string \<Rightarrow> string \<Rightarrow> json \<Rightarrow> 'n \<Rightarrow> (firecracker_error + unit) \<times> 'n" where
  "api_request env socket m endpoint body n =
     (let timeout = timeout_for_endpoint (be_config env) endpoint in
      case be_json env body of
        Inl e \<Rightarrow> (Inl (FcInternal (''transport: failed to serialize request body: '' @ e)), n)
      | Inr body_str \<Rightarrow> (case be_curl env (api_command socket m endpoint body_str (be_secs_text env timeout)) n of
          (Inl e, n) \<Rightarrow> (Inl (FcInternal (''transport: curl invocation failed: '' @ be_text env e)), n)
        | (Inr out, n) \<Rightarrow>
            if co_code out = Some 28 then (Inl (FcApiCallTimedOut endpoint (millis_u64 timeout)), n)
            else if co_code out \<noteq> Some 0 then
              (Inl (FcApiCallFailed m endpoint (case co_code out of None \<Rightarrow> -1 | Some c \<Rightarrow> c)
                 (''stderr='' @ co_stderr out @ '', stdout='' @ co_stdout out)), n)
            else (Inr (), n)))"

definition api_put :: "('n, 's) boot_env \<Rightarrow> string \<Rightarrow> string \<Rightarrow> json \<Rightarrow> 'n \<Rightarrow> (firecracker_error + unit) \<times> 'n" where
  "api_put env socket endpoint body n = api_request env socket ''PUT'' endpoint body n"

definition api_patch :: "('n, 's) boot_env \<Rightarrow> string \<Rightarrow> string \<Rightarrow> json \<Rightarrow> 'n \<Rightarrow> (firecracker_error + unit) \<times> 'n" where
  "api_patch env socket endpoint body n = api_request env socket ''PATCH'' endpoint body n"

subsection \<open>The machine's configuration\<close>

definition build_boot_args :: "network_config option \<Rightarrow> bool \<Rightarrow> bool \<Rightarrow> string" where
  "build_boot_args network readonly_rootfs base_mode =
     (let base = ''console=ttyS0 reboot=k panic=1 pci=off random.trust_cpu=on''
        @ (if readonly_rootfs then '' rootflags=noload init='' @ OVERLAY_INIT else [])
        @ (if base_mode then '' ipv6.disable=1 rooms.base=1'' else []) in
      case network of
        None \<Rightarrow> base
      | Some net \<Rightarrow> base @ '' ip='' @ nc_guest_ip net @ ''::'' @ nc_gateway_ip net @ '':'' @ prefix_to_netmask (nc_prefix net) @ ''::eth0:off'')"

definition rootfs_drive_payload :: "string \<Rightarrow> bool \<Rightarrow> json" where
  "rootfs_drive_payload rootfs readonly_rootfs =
     JObj [(''drive_id'', JStr ''rootfs''), (''path_on_host'', JStr rootfs), (''is_root_device'', JBool True),
           (''is_read_only'', JBool readonly_rootfs)]"

record vm_spec =
  vs_toolstore :: bool
  vs_resources :: resources
  vs_kernel :: string
  vs_rootfs_drive :: json
  vs_network :: "network_config option"
  vs_boot_args :: string
  vs_vsock :: bool

text \<open>The calls of \<open>configure_vm\<close> in their order.\<close>

definition vm_calls :: "vm_spec \<Rightarrow> (string \<times> json) list" where
  "vm_calls spec =
     [(''/boot-source'', JObj [(''kernel_image_path'', JStr (vs_kernel spec)), (''boot_args'', JStr (vs_boot_args spec))]),
      (''/drives/rootfs'', vs_rootfs_drive spec)]
     @ (if rs_disk_gib (vs_resources spec) \<noteq> None then
          [(''/drives/scratch'', JObj [(''drive_id'', JStr ''scratch''), (''path_on_host'', JStr ''/scratch.ext4''),
             (''is_root_device'', JBool False), (''is_read_only'', JBool False)])] else [])
     @ (if vs_toolstore spec then
          [(''/drives/toolstore'', JObj [(''drive_id'', JStr ''toolstore''), (''path_on_host'', JStr (slash # JAIL_TOOLSTORE)),
             (''is_root_device'', JBool False), (''is_read_only'', JBool True)])] else [])
     @ [(''/machine-config'', JObj [(''vcpu_count'', JNum (unat (rs_cpus (vs_resources spec)))),
           (''mem_size_mib'', JNum (unat (rs_memory_mib (vs_resources spec))))])]
     @ (case vs_network spec of None \<Rightarrow> []
        | Some net \<Rightarrow> [(''/network-interfaces/eth0'', JObj [(''iface_id'', JStr ''eth0''), (''host_dev_name'', JStr (nc_tap_name net))])])
     @ (if vs_vsock spec then
          [(''/vsock'', JObj [(''guest_cid'', JNum (unat GUEST_CID)), (''uds_path'', JStr (slash # UDS_NAME))])] else [])
     @ [(''/entropy'', JObj []), (''/actions'', JObj [(''action_type'', JStr ''InstanceStart'')])]"

fun put_all :: "('n, 's) boot_env \<Rightarrow> string \<Rightarrow> (string \<times> json) list \<Rightarrow> ('n, 's) boot_state \<Rightarrow> (firecracker_error + unit) \<times> ('n, 's) boot_state" where
  "put_all env socket [] b = (Inr (), b)"
| "put_all env socket ((endpoint, body) # calls) b =
     and_then (await_boot env (AtApi endpoint) (on_machine (api_put env socket endpoint body)) b) (\<lambda>_ b. put_all env socket calls b)"

definition configure_vm :: "('n, 's) boot_env \<Rightarrow> string \<Rightarrow> vm_spec \<Rightarrow> ('n, 's) boot_state \<Rightarrow> (firecracker_error + unit) \<times> ('n, 's) boot_state" where
  "configure_vm env socket spec b = put_all env socket (vm_calls spec) b"

definition boot_spec :: "boot_request \<Rightarrow> jailer_launch_plan \<Rightarrow> vm_spec" where
  "boot_spec req launch =
     (let disk = rs_disk_gib (br_resources req) \<noteq> None;
          boot_args = build_boot_args (br_network req) (br_readonly_rootfs req) (br_base req)
            @ (if disk then '' rooms.scratch=1'' else [])
            @ (if br_toolstore req \<noteq> None then '' rooms.toolstore='' @ (if disk then ''vdc'' else ''vdb'') else [])
      in \<lparr>vs_toolstore = br_toolstore req \<noteq> None, vs_resources = br_resources req, vs_kernel = jp_kernel_path_in_jail launch,
          vs_rootfs_drive = rootfs_drive_payload (jp_rootfs_path_in_jail launch) (br_readonly_rootfs req),
          vs_network = br_network req, vs_boot_args = boot_args, vs_vsock = br_secrets req \<noteq> None \<or> br_base req\<rparr>)"

definition configure_boot ::
  "('n, 's) boot_env \<Rightarrow> string \<Rightarrow> boot_request \<Rightarrow> jailer_launch_plan \<Rightarrow> ('n, 's) boot_state \<Rightarrow> (firecracker_error + unit) \<times> ('n, 's) boot_state" where
  "configure_boot env socket req launch b = configure_vm env socket (boot_spec req launch) b"

subsection \<open>Waiting for the API socket\<close>

definition read_log_tail :: "('n, 's) boot_env \<Rightarrow> 'n \<Rightarrow> string" where
  "read_log_tail env n = rev (take 512 (rev (be_log env n)))"

text \<open>One round of the loop: \<open>True\<close> when the socket accepts a connection, \<open>False\<close> after the pause.\<close>

definition poll_socket :: "('n, 's) boot_env \<Rightarrow> string \<Rightarrow> u32 \<Rightarrow> ('n, 's) boot_state \<Rightarrow> (firecracker_error + bool) \<times> ('n, 's) boot_state" where
  "poll_socket env socket child b = (case pe_try_wait (be_procs env) child (machine b) of
     Inl e \<Rightarrow> (Inl (FcIo e), b)
   | Inr (Some status) \<Rightarrow>
       (Inl (FcProcessExitedEarly (case es_code status of None \<Rightarrow> -1 | Some c \<Rightarrow> c) (read_log_tail env (machine b))), b)
   | Inr None \<Rightarrow>
       if be_connects env socket (machine b) then (Inr True, b)
       else on_machine (\<lambda>n. (Inr False, re_sleep (be_reap env) n)) b)"

fun wait_for_socket :: "('n, 's) boot_env \<Rightarrow> string \<Rightarrow> u32 \<Rightarrow> nat \<Rightarrow> ('n, 's) boot_state \<Rightarrow> (firecracker_error + unit) \<times> ('n, 's) boot_state" where
  "wait_for_socket env socket child 0 b = (Inl (FcApiSocketNeverAppeared (millis_u64 (api_socket_timeout (be_config env)))), b)"
| "wait_for_socket env socket child (Suc k) b =
     and_then (await_boot env (AtSocket k) (poll_socket env socket child) b)
       (\<lambda>accepts b. if accepts then (Inr (), b) else wait_for_socket env socket child k b)"

subsection \<open>What stands before the VMM\<close>

definition boot_witness :: "('n, 's) boot_env \<Rightarrow> boot_request \<Rightarrow> string \<Rightarrow> ('n, 's) boot_state \<Rightarrow> (firecracker_error + unit) \<times> ('n, 's) boot_state" where
  "boot_witness env req per_room_dir b =
     (if \<not> br_witness req then (Inr (), b)
      else case br_slot req of
        None \<Rightarrow> (Inl (FcInternal ''witness: requires a pool slot (the per-room tap); refusing to witness the shared tap''), b)
      | Some s \<Rightarrow> await_boot env AtWitness (\<lambda>b. case on_machine (capture_start (be_procs env) (slot_tap s) per_room_dir) b of
            (Inl e, b) \<Rightarrow> (Inl (FcInternal (''witness: '' @ e)), b)
          | (Inr c, b) \<Rightarrow> (Inr (), b\<lparr>bw_witness := Some c\<rparr>)) b)"

definition install_flat_egress :: "('n, 's) boot_env \<Rightarrow> string \<Rightarrow> egress_plan \<Rightarrow> 'n \<Rightarrow> (string + unit) \<times> 'n" where
  "install_flat_egress env tap policy n =
     (case install (re_poisoned (be_reap env)) (runner_iptables (be_text env) (be_run env)) tap policy n of
        Some r \<Rightarrow> r | None \<Rightarrow> (Inl ''egress installation does not end'', n))"

definition install_egress :: "('n, 's) boot_env \<Rightarrow> egress_plan \<Rightarrow> slot option \<Rightarrow> 'n \<Rightarrow> (firecracker_error + unit) \<times> 'n" where
  "install_egress env policy s n =
     (if \<not> plan_enforces policy then (Inr (), n)
      else case s of
        Some s \<Rightarrow> map_err (\<lambda>e. FcInternal (''egress: '' @ e)) (install_flat_egress env (slot_tap s) policy n)
      | None \<Rightarrow> (Inl (FcInternal ''egress: enforcement requires a pool slot (the per-room tap); refusing on the shared tap''), n))"

definition bind_secrets_listener :: "('n, 's) boot_env \<Rightarrow> boot_request \<Rightarrow> string \<Rightarrow> ('n, 's) boot_state \<Rightarrow> (firecracker_error + unit) \<times> ('n, 's) boot_state" where
  "bind_secrets_listener env req jail_root b = (case br_secrets req of
     None \<Rightarrow> (Inr (), b)
   | Some _ \<Rightarrow>
       let listen = listener_path jail_root in
       (case on_link (serve_one_shot (be_link env) True listen) b of
          (Inl e, b) \<Rightarrow> (Inl (FcInternal (''secrets: bind vsock listener '' @ listen @ '': '' @ be_text env e)), b)
        | (Inr _, b) \<Rightarrow> (Inr (), b\<lparr>bw_secrets := [listen]\<rparr>)))"

definition bind_provisioning_listener :: "('n, 's) boot_env \<Rightarrow> boot_request \<Rightarrow> string \<Rightarrow> ('n, 's) boot_state \<Rightarrow> (firecracker_error + unit) \<times> ('n, 's) boot_state" where
  "bind_provisioning_listener env req jail_root b = (case br_provisioning req of
     None \<Rightarrow> (Inr (), b)
   | Some _ \<Rightarrow>
       (case on_link (serve_provisioning (be_link env) True jail_root) b of
          (Inl e, b) \<Rightarrow> (Inl (FcInternal (''base provisioning: bind listeners in '' @ jail_root @ '': '' @ be_text env e)), b)
        | (Inr _, b) \<Rightarrow> (Inr (), b\<lparr>bw_provisioning := [listener_path_for jail_root PROVISION_PORT, listener_path_for jail_root QUIESCED_PORT]\<rparr>)))"

subsection \<open>The boot\<close>

definition spawn_vmm :: "('n, 's) boot_env \<Rightarrow> jailer_launch_plan \<Rightarrow> ('n, 's) boot_state \<Rightarrow> (firecracker_error + u32) \<times> ('n, 's) boot_state" where
  "spawn_vmm env launch b = (case on_machine (spawn_jailer env launch) b of
     (Inl e, b) \<Rightarrow> (Inl e, b)
   | (Inr child, b) \<Rightarrow> (Inr child, b\<lparr>bw_child := Some child, bw_guard := (bw_guard b)\<lparr>rg_child_pid := Some child\<rparr>\<rparr>))"

definition boot_block ::
  "('n, 's) boot_env \<Rightarrow> boot_request \<Rightarrow> string \<Rightarrow> string \<Rightarrow> string \<times> string \<times> u32 \<times> u32 \<Rightarrow> jail_layout \<Rightarrow> ('n, 's) boot_state
     \<Rightarrow> (firecracker_error + unit) \<times> ('n, 's) boot_state" where
  "boot_block env req state_dir base deps layout b =
     (let (fc, jailer, uid, gid) = deps; rid = br_room_id req; jail_root = boot_root_dir base rid;
          instance_dir = boot_instance_dir base rid; socket = path_join jail_root JAIL_API_SOCK;
          launch = build_jailer_launch_plan jailer fc base rid uid gid layout None in
      if jl_instance_dir layout \<noteq> instance_dir \<or> jl_host_socket layout \<noteq> socket
      then (Inl (FcInternal ''guard and staged jail layout paths diverged''), b)
      else
        and_then (await_boot env AtScratch (\<lambda>b. if rs_disk_gib (br_resources req) = None then (Inr (), b)
            else on_bw (on_host (prepare_scratch env instance_dir)) b) b) (\<lambda>_ b.
        and_then (case br_slot req of None \<Rightarrow> (Inr (), b) | Some s \<Rightarrow> on_machine (create_slot_tap env s None) b) (\<lambda>_ b.
        and_then (boot_witness env req (path_join state_dir rid) b) (\<lambda>_ b.
        and_then (on_machine (install_egress env (br_egress req) (br_slot req)) b) (\<lambda>_ b.
        and_then (bind_secrets_listener env req jail_root b) (\<lambda>_ b.
        and_then (bind_provisioning_listener env req jail_root b) (\<lambda>_ b.
        and_then (await_boot env AtLog (on_bw (open_log_file env rid)) b) (\<lambda>_ b.
        and_then (spawn_vmm env launch b) (\<lambda>child b.
        and_then (on_bw (write_room_meta env rid req (Some child)) b) (\<lambda>_ b.
        and_then (wait_for_socket env socket child (re_polls (be_reap env) (api_socket_timeout (be_config env))) b) (\<lambda>_ b.
        configure_boot env socket req launch b)))))))))))"

text \<open>The end of the boot block on an error or when it is dropped: its locals in reverse order, then the guard.\<close>

definition unwind_boot :: "('n, 's) boot_env \<Rightarrow> ('n, 's) boot_state \<Rightarrow> 'n room_host world \<times> 's link" where
  "unwind_boot env b =
     (let b = (case bw_child b of None \<Rightarrow> b | Some pid \<Rightarrow> snd (on_machine (\<lambda>n. ((), pe_kill (be_procs env) pid n)) b));
          l = delivery_drop (be_link env) (bw_secrets b) (delivery_drop (be_link env) (bw_provisioning b) (bw_link b));
          b = (case bw_witness b of None \<Rightarrow> b | Some c \<Rightarrow> snd (on_machine (\<lambda>n. ((), capture_drop (be_procs env) c n)) b))
      in (guard_drop (be_reap env) (bw_guard b) (bw_world b), l))"

record booted_vm =
  bv_witness :: "capture option"
  bv_secrets_delivery :: "string list"
  bv_provisioning_delivery :: "string list"
  bv_guard :: room_guard
  bv_child :: "u32 option"

text \<open>Up to the guard, the claim is held by a handle that frees it when dropped.\<close>

definition drop_pending :: "('n, 's) boot_env \<Rightarrow> boot_request \<Rightarrow> 'n room_host world \<Rightarrow> 'n room_host world" where
  "drop_pending env req w = (case br_slot req of None \<Rightarrow> w | Some s \<Rightarrow> snd (slot_free (be_io env) (slot_index s) (br_room_id req) w))"

definition before_guard ::
  "('n, 's) boot_env \<Rightarrow> boot_request \<Rightarrow> 'n room_host world \<Rightarrow> (firecracker_error + string \<times> string \<times> u32 \<times> u32) \<times> 'n room_host world" where
  "before_guard env req w =
     (case resources_validate (br_resources req) (br_readonly_rootfs req) (br_base req) of
        Inl e \<Rightarrow> (Inl e, w)
      | Inr _ \<Rightarrow>
          if br_toolstore req \<noteq> None \<and> \<not> br_readonly_rootfs req then (Inl (FcInternal ''toolstore requires a read-only room''), w)
          else
            and_then (await_boot env AtDependencies (on_host (on_programs (resolve_boot_dependencies env))) w) (\<lambda>deps w.
            and_then (prepare_room_dir env (br_room_id req) w) (\<lambda>_ w. (Inr deps, w))))"

definition boot_guard :: "('n, 's) boot_env \<Rightarrow> boot_request \<Rightarrow> string \<Rightarrow> room_guard" where
  "boot_guard env req base =
     (let instance_dir = boot_instance_dir base (br_room_id req);
          g = (guard_new (br_room_id req) instance_dir (be_config env))\<lparr>rg_jail_instance_dir := Some instance_dir\<rparr>
      in case br_slot req of
        Some s \<Rightarrow> set_slot \<lparr>sr_index = slot_index s, sr_tap = slot_tap s, sr_room_id = br_room_id req\<rparr> g
      | None \<Rightarrow> (case br_network req of None \<Rightarrow> g | Some net \<Rightarrow> g\<lparr>rg_tap_name := Some (nc_tap_name net)\<rparr>))"

definition guarded_boot ::
  "('n, 's) boot_env \<Rightarrow> boot_request \<Rightarrow> string \<Rightarrow> string \<Rightarrow> string \<times> string \<times> u32 \<times> u32 \<Rightarrow> ('n, 's) boot_state
     \<Rightarrow> (firecracker_error + unit) \<times> ('n, 's) boot_state" where
  "guarded_boot env req state_dir base deps b =
     (let rid = br_room_id req; instance_dir = boot_instance_dir base rid in
      and_then (on_bw (on_host (prepare_jail_layout env base rid (br_kernel req) (br_rootfs req))) b) (\<lambda>layout b.
      and_then (case br_toolstore req of None \<Rightarrow> (Inr (), b)
          | Some t \<Rightarrow> on_bw (on_host (prepare_toolstore env t instance_dir (rs_disk_gib (br_resources req) \<noteq> None))) b) (\<lambda>_ b.
      boot_block env req state_dir base deps layout b)))"

definition boot_with_cancellation ::
  "('n, 's) boot_env \<Rightarrow> boot_request \<Rightarrow> 'n room_host world \<Rightarrow> 's link \<Rightarrow> (firecracker_error + booted_vm) \<times> 'n room_host world \<times> 's link" where
  "boot_with_cancellation env req w l = (case resolved_state_base (be_home env) (be_config env) of
     None \<Rightarrow> (Inl FcHomeUnset, w, l)
   | Some state_dir \<Rightarrow> (case before_guard env req w of
       (Inl e, w) \<Rightarrow> (Inl e, drop_pending env req w, l)
     | (Inr deps, w) \<Rightarrow> (case chroot_base (be_home env) (be_config env) of
         None \<Rightarrow> (Inl FcHomeUnset, drop_pending env req w, l)
       | Some base \<Rightarrow>
           (case guarded_boot env req state_dir base deps
                   \<lparr>bw_world = w, bw_link = l, bw_guard = boot_guard env req base, bw_child = None, bw_witness = None,
                    bw_secrets = [], bw_provisioning = []\<rparr> of
              (Inl e, b) \<Rightarrow> (Inl e, unwind_boot env b)
            | (Inr _, b) \<Rightarrow>
                (Inr \<lparr>bv_witness = bw_witness b, bv_secrets_delivery = bw_secrets b, bv_provisioning_delivery = bw_provisioning b,
                      bv_guard = bw_guard b, bv_child = bw_child b\<rparr>, bw_world b, bw_link b)))))"

definition boot :: "('n, 's) boot_env \<Rightarrow> boot_request \<Rightarrow> 'n room_host world \<Rightarrow> 's link \<Rightarrow> (firecracker_error + booted_vm) \<times> 'n room_host world \<times> 's link" where
  "boot env req w l = boot_with_cancellation (env\<lparr>be_cancel := \<lambda>_. None\<rparr>) req w l"

subsection \<open>The booted machine\<close>

fun seal_text :: "illegal_seal \<Rightarrow> string" where
  "seal_text (IllegalSeal p) = ''illegal seal: only a provisioning base seals to neutral (was '' @ (case p of
     None \<Rightarrow> ''None'' | Some Provisioning \<Rightarrow> ''Some(Provisioning)'' | Some Neutral \<Rightarrow> ''Some(Neutral)'' | Some Tainted \<Rightarrow> ''Some(Tainted)'') @ '')''"

definition seal_base :: "('n, 's) boot_env \<Rightarrow> booted_vm \<Rightarrow> 'n room_host world \<Rightarrow> (firecracker_error + provenance) \<times> 'n room_host world" where
  "seal_base env vm w =
     (let d = rg_room_dir (bv_guard vm) in
      case room_read (be_meta_from_json env) (be_io env) d w of
        Inl e \<Rightarrow> (Inl (FcIo e), w)
      | Inr None \<Rightarrow> (Inl (FcInternal ''base room.json disappeared before seal''), w)
      | Inr (Some m) \<Rightarrow> (case seal m of
          (Inl e, _) \<Rightarrow> (Inl (FcInternal (seal_text e)), w)
        | (Inr _, m) \<Rightarrow>
            and_then (map_err FcIo (write_atomic (be_meta_to_json env) (be_io env) d m w)) (\<lambda>_ w.
            (case rm_provenance m of
               None \<Rightarrow> Inl (FcInternal ''sealed base lost its persisted provenance'')
             | Some p \<Rightarrow> Inr p, w))))"

text \<open>Dropping the machine: its fields in their order of declaration. The child's handle kills what is left of the process.\<close>

definition vm_drop :: "('n, 's) boot_env \<Rightarrow> booted_vm \<Rightarrow> 'n room_host world \<Rightarrow> 's link \<Rightarrow> 'n room_host world \<times> 's link" where
  "vm_drop env vm w l =
     (let w = (case bv_witness vm of None \<Rightarrow> w | Some c \<Rightarrow> snd (on_host (on_programs (\<lambda>n. ((), capture_drop (be_procs env) c n))) w));
          l = delivery_drop (be_link env) (bv_provisioning_delivery vm) (delivery_drop (be_link env) (bv_secrets_delivery vm) l);
          w = guard_drop (be_reap env) (bv_guard vm) w
      in (case bv_child vm of None \<Rightarrow> w | Some pid \<Rightarrow> snd (on_host (on_programs (\<lambda>n. ((), pe_kill (be_procs env) pid n))) w), l))"

definition shutdown :: "('n, 's) boot_env \<Rightarrow> booted_vm \<Rightarrow> 'n room_host world \<Rightarrow> 's link \<Rightarrow> 'n room_host world \<times> 's link" where
  "shutdown env vm w l =
     (let (g, w) = (if rg_suppress_cleanup (bv_guard vm) then (bv_guard vm, w)
            else guard_cleanup (be_reap env) (bv_guard vm) (case bv_child vm of None \<Rightarrow> w
              | Some pid \<Rightarrow> snd (on_host (on_programs (\<lambda>n. ((), pe_kill (be_procs env) pid n))) w)))
      in vm_drop env (vm\<lparr>bv_guard := g\<lparr>rg_dismiss := True\<rparr>\<rparr>) w l)"

subsection \<open>What a boot may change\<close>

text \<open>Jails other than the room's own, and all owner markers, stay as they are.\<close>

definition jail_frame :: "string \<Rightarrow> 'n room_host \<Rightarrow> 'n room_host \<Rightarrow> bool" where
  "jail_frame j h h' \<longleftrightarrow> (\<forall>i. i \<noteq> j \<longrightarrow> jails h' i = jails h i) \<and> markers (clone_side h') = markers (clone_side h)"

text \<open>Before the handover only the room's own directory and jail change, and of the guard only the pid it is to kill.\<close>

definition boot_frame :: "string \<Rightarrow> string \<Rightarrow> ('n, 's) boot_state \<Rightarrow> ('n, 's) boot_state \<Rightarrow> bool" where
  "boot_frame rid j b b' \<longleftrightarrow> touched ({rid} \<times> UNIV) {} {j} (bw_world b) (bw_world b')
     \<and> markers (clone_side (host (bw_world b'))) = markers (clone_side (host (bw_world b)))
     \<and> (bw_guard b')\<lparr>rg_child_pid := None\<rparr> = (bw_guard b)\<lparr>rg_child_pid := None\<rparr>"

interpretation jail_frame: step_frame "jail_frame j" for j
  by unfold_locales (auto simp: jail_frame_def)

interpretation boot_frame: step_frame "boot_frame rid j" for rid j
  by unfold_locales (auto simp: boot_frame_def intro: world_frame.trans)

lemmas jail_steps = jail_frame.chain jail_frame.mapped jail_frame.cond jail_frame.on_sum jail_frame.on_option jail_frame.on_pair
lemmas boot_steps = boot_frame.chain boot_frame.mapped boot_frame.cond boot_frame.on_sum boot_frame.on_option boot_frame.on_pair

named_theorems staging \<open>what the steps of the boot may change\<close>

lemma jail_primitives [staging]:
  "jail_frame j h h" "jail_frame j h h' \<Longrightarrow> jail_frame j h (snd (r, h'))" "jail_frame j h h' \<Longrightarrow> jail_frame j h (snd (on_programs f h'))"
  "jail_frame j h h' \<Longrightarrow> jail_frame j h (add_jail_name j name h')" "jail_frame j h h' \<Longrightarrow> jail_frame j h (remove_jail_dir env j h')"
  "jail_frame j h h' \<Longrightarrow> jail_frame j h (h'\<lparr>jails := (jails h')(j := x)\<rparr>)"
  "jail_frame j h h' \<Longrightarrow> jail_frame j h (snd (create_mount_target env' j name h'))"
  by (auto simp: jail_frame_def on_programs_def add_jail_name_def remove_jail_dir_def create_mount_target_def split: prod.splits option.splits sum.splits)

lemma boot_primitives [staging]:
  "boot_frame rid j b b"
  "jail_frame j (host (bw_world b)) (snd (f (host (bw_world b)))) \<Longrightarrow> boot_frame rid j b (snd (on_bw (on_host f) b))"
  "boot_frame rid j b (snd (on_machine g b))" "boot_frame rid j b (snd (on_link k b))"
  "boot_frame rid j b (b\<lparr>bw_child := c, bw_guard := (bw_guard b)\<lparr>rg_child_pid := p\<rparr>\<rparr>)" "boot_frame rid j b (b\<lparr>bw_witness := v\<rparr>)"
  "boot_frame rid j b (b\<lparr>bw_secrets := s\<rparr>)" "boot_frame rid j b (b\<lparr>bw_provisioning := s\<rparr>)"
  by (auto simp: boot_frame_def jail_frame_def touched_def on_bw_def on_host_def on_machine_def on_programs_def on_link_def split: prod.splits)

lemma boot_await [staging]: "(\<And>b. boot_frame rid j b (snd (f b))) \<Longrightarrow> boot_frame rid j b (snd (await_boot env pt f b))"
  by (auto simp: await_boot_def intro: staging split: option.splits cancel.splits)

lemma jail_staging [staging]:
  "jail_frame (boot_instance_dir base rid) h (snd (stage_jail_sync env base rid kern rootfs h))"
  "jail_frame (boot_instance_dir base rid) h (snd (prepare_jail_layout env base rid kern rootfs h))"
  "jail_frame j h (snd (stage_toolstore env t j req h))" "jail_frame j h (snd (prepare_toolstore env t j req h))"
  "jail_frame j h (snd (prepare_scratch env j h))"
proof -
  let ?j = "boot_instance_dir base rid"
  show sj: "jail_frame ?j h (snd (stage_jail_sync env base rid kern rootfs h))" for kern rootfs h
    unfolding stage_jail_sync_def Let_def by (intro jail_frame.on_sum jail_frame.chain jail_frame.branch staging)
  show "jail_frame ?j h (snd (prepare_jail_layout env base rid kern rootfs h))"
    unfolding prepare_jail_layout_def
    by (intro jail_frame.on_sum jail_frame.on_option jail_frame.chain jail_frame.after sj staging)
  show st: "jail_frame j h (snd (stage_toolstore env t j req h))" for t h
    unfolding stage_toolstore_def Let_def by (intro jail_steps staging)
  show "jail_frame j h (snd (prepare_toolstore env t j req h))"
    unfolding prepare_toolstore_def by (intro jail_frame.on_sum jail_frame.on_option jail_frame.after st staging)
  show "jail_frame j h (snd (prepare_scratch env j h))"
    unfolding prepare_scratch_def Let_def by (intro jail_frame.cond jail_frame.on_sum jail_frame.on_option jail_frame.branch staging)
qed

lemma boot_files [staging]:
  "boot_frame rid j b (snd (on_bw (open_log_file env rid) b))" "boot_frame rid j b (snd (on_bw (write_room_meta env rid req pid) b))"
proof -
  have t: "touched ({rid} \<times> UNIV) {} {j} w (snd (write_atomic ser io rid m w))" for ser io m and w :: "'a room_host world"
    unfolding write_atomic_def fs_write_def by (intro world_frame.on_sum world_frame.chain frames) auto
  have h: "host (snd (write_atomic ser io rid m w)) = host w" for ser io m and w :: "'a room_host world"
    by (auto simp: write_atomic_def fs_write_def fs_defs and_then_def split: sum.splits prod.splits)
  show "boot_frame rid j b (snd (on_bw (open_log_file env rid) b))"
    by (auto simp: boot_frame_def on_bw_def open_log_file_def map_err_def touched_def fs_defs split: sum.splits prod.splits option.splits if_splits)
  have "snd (write_room_meta env rid req pid w) = snd (write_atomic (be_meta_to_json env) (be_io env) rid (boot_meta env req pid (world_machine w)) w)" for w
    by (auto simp: write_room_meta_def split: prod.splits sum.splits)
  then show "boot_frame rid j b (snd (on_bw (write_room_meta env rid req pid) b))"
    using t[of "bw_world b"] h[of _ _ _ "bw_world b"]
    by (simp add: boot_frame_def on_bw_def case_prod_beta)
qed

lemma boot_waits [staging]:
  "boot_frame rid j b (snd (put_all env socket calls b))" "boot_frame rid j b (snd (wait_for_socket env socket child k b))"
proof -
  have p: "boot_frame rid j b (snd (poll_socket env socket child b))" for b
    unfolding poll_socket_def by (intro boot_frame.on_sum boot_frame.on_option boot_frame.cond staging) (simp add: boot_frame.refl)+
  show "boot_frame rid j b (snd (put_all env socket calls b))"
    by (induction env socket calls b rule: put_all.induct) (auto intro!: boot_frame.chain staging)
  show "boot_frame rid j b (snd (wait_for_socket env socket child k b))"
    by (induction k arbitrary: b) (auto intro!: boot_frame.chain boot_frame.cond staging p)
qed

lemma boot_listeners [staging]:
  "boot_frame rid j b (snd (bind_secrets_listener env req root b))" "boot_frame rid j b (snd (bind_provisioning_listener env req root b))"
  "boot_frame rid j b (snd (boot_witness env req d b))" "boot_frame rid j b (snd (spawn_vmm env launch b))"
  unfolding bind_secrets_listener_def bind_provisioning_listener_def boot_witness_def spawn_vmm_def Let_def
  by (intro boot_frame.on_option boot_frame.cond boot_frame.branch staging; simp add: staging)+

lemma boot_block_frame [staging]:
  "boot_frame (br_room_id req) (boot_instance_dir base (br_room_id req)) b (snd (boot_block env req sd base deps layout b))"
  unfolding boot_block_def Let_def configure_boot_def configure_vm_def
  by (intro boot_steps staging) (auto intro: staging)

lemma guarded_boot_frame:
  "boot_frame (br_room_id req) (boot_instance_dir base (br_room_id req)) b (snd (guarded_boot env req sd base deps b))"
  unfolding guarded_boot_def Let_def by (intro boot_steps staging) (simp add: staging)

subsection \<open>A boot that fails\<close>





lemma boot_guard_fields:
  "rg_room_dir (boot_guard env req base) = br_room_id req" "rg_socket (boot_guard env req base) = boot_instance_dir base (br_room_id req)"
  "rg_jail_instance_dir (boot_guard env req base) = Some (boot_instance_dir base (br_room_id req))"
  "rg_slot_release (boot_guard env req base) =
     map_option (\<lambda>s. \<lparr>sr_index = slot_index s, sr_tap = slot_tap s, sr_room_id = br_room_id req\<rparr>) (br_slot req)"
  "br_slot req = Some s \<Longrightarrow> rg_tap_name (boot_guard env req base) = Some (slot_tap s)"
  by (auto simp: boot_guard_def guard_new_def set_slot_def Let_def split: option.splits)

lemma kept_guard_fields:
  assumes "g\<lparr>rg_child_pid := None\<rparr> = (boot_guard env req base)\<lparr>rg_child_pid := None\<rparr>"
  shows "rg_room_dir g = br_room_id req" "rg_socket g = boot_instance_dir base (br_room_id req)"
    "rg_jail_instance_dir g = Some (boot_instance_dir base (br_room_id req))"
    "rg_slot_release g = map_option (\<lambda>s. \<lparr>sr_index = slot_index s, sr_tap = slot_tap s, sr_room_id = br_room_id req\<rparr>) (br_slot req)"
    "br_slot req = Some s \<Longrightarrow> rg_tap_name g = Some (slot_tap s)"
  using arg_cong[OF assms, of rg_room_dir] arg_cong[OF assms, of rg_socket] arg_cong[OF assms, of rg_jail_instance_dir]
    arg_cong[OF assms, of rg_slot_release] arg_cong[OF assms, of rg_tap_name] by (simp_all add: boot_guard_fields)


subsection \<open>A boot that succeeds\<close>

text \<open>Once the VMM runs and its record is written, the boot only talks to it.\<close>

definition same_room :: "('n, 's) boot_state \<Rightarrow> ('n, 's) boot_state \<Rightarrow> bool" where
  "same_room b b' \<longleftrightarrow> files (bw_world b') = files (bw_world b) \<and> bw_guard b' = bw_guard b \<and> bw_child b' = bw_child b"

interpretation same_room: step_frame same_room
  by unfold_locales (auto simp: same_room_def)

lemma same_room_steps:
  "same_room b b" "same_room b (snd (on_machine f b))"
  "(\<And>b. same_room b (snd (k b))) \<Longrightarrow> same_room b (snd (await_boot env pt k b))"
  by (auto simp: same_room_def await_boot_def on_machine_def on_bw_def on_host_def on_programs_def split: prod.splits option.splits cancel.splits)

lemma same_room_waits:
  "same_room b (snd (put_all env socket calls b))" "same_room b (snd (wait_for_socket env socket child k b))"
proof -
  have p: "same_room b (snd (poll_socket env socket child b))" for b
    unfolding poll_socket_def by (intro same_room.on_sum same_room.on_option same_room.cond same_room_steps) (simp_all add: same_room_steps)
  show "same_room b (snd (put_all env socket calls b))"
    by (induction env socket calls b rule: put_all.induct) (auto intro!: same_room.chain same_room_steps)
  show "same_room b (snd (wait_for_socket env socket child k b))"
    by (induction k arbitrary: b) (auto intro!: same_room.chain same_room.cond same_room_steps p)
qed

lemma boot_success:
  assumes "boot_with_cancellation env req w l = (Inr vm, w', l')" "br_base req"
  obtains n child json where "bv_child vm = Some child" "be_meta_to_json env (boot_meta env req (Some child) n) = Inr json"
    "files w' (br_room_id req, ROOM_META_FILE) = Some json" "rg_room_dir (bv_guard vm) = br_room_id req" "rg_child_pid (bv_guard vm) = Some child"
proof -
  obtain sd w1 deps base b where r: "before_guard env req w = (Inr deps, w1)"
    and q: "guarded_boot env req sd base deps \<lparr>bw_world = w1, bw_link = l, bw_guard = boot_guard env req base, bw_child = None, bw_witness = None,
                    bw_secrets = [], bw_provisioning = []\<rparr> = (Inr (), b)"
    and vm: "vm = \<lparr>bv_witness = bw_witness b, bv_secrets_delivery = bw_secrets b, bv_provisioning_delivery = bw_provisioning b,
                      bv_guard = bw_guard b, bv_child = bw_child b\<rparr>" "w' = bw_world b"
    using assms(1) by (auto simp: boot_with_cancellation_def split: option.splits sum.splits prod.splits)
  have "boot_frame (br_room_id req) (boot_instance_dir base (br_room_id req)) \<lparr>bw_world = w1, bw_link = l, bw_guard = boot_guard env req base, bw_child = None, bw_witness = None,
                    bw_secrets = [], bw_provisioning = []\<rparr> b" using guarded_boot_frame q by (metis snd_conv)
  then have g: "rg_room_dir (bw_guard b) = br_room_id req" by (auto simp: boot_frame_def dest: kept_guard_fields(1))
  obtain fc jailer uid gid where d: "deps = (fc, jailer, uid, gid)" by (metis surj_pair)
  obtain launch child b1 b2 b3 b4 socket polls where s: "spawn_vmm env launch b1 = (Inr child, b2)"
    and m: "on_bw (write_room_meta env (br_room_id req) req (Some child)) b2 = (Inr (), b3)"
    and t: "wait_for_socket env socket child polls b3 = (Inr (), b4)" "configure_boot env socket req launch b4 = (Inr (), b)"
    using q by (auto simp: guarded_boot_def boot_block_def d Let_def and_then_Inr split: if_splits)
  have same: "same_room b3 b" using same_room_waits t by (metis (no_types, lifting) configure_boot_def configure_vm_def same_room.trans snd_conv)
  have c: "bw_child b2 = Some child" "rg_child_pid (bw_guard b2) = Some child" using s by (auto simp: spawn_vmm_def split: prod.splits sum.splits)
  obtain v where v: "write_room_meta env (br_room_id req) req (Some child) (bw_world b2) = (Inr (), v)" "b3 = b2\<lparr>bw_world := v\<rparr>"
    using m by (auto simp: on_bw_def split: prod.splits)
  then have "write_atomic (be_meta_to_json env) (be_io env) (br_room_id req) (boot_meta env req (Some child) (world_machine (bw_world b2))) (bw_world b2) = (Inr (), v)"
    using assms(2) by (auto simp: write_room_meta_def split: prod.splits sum.splits)
  then obtain json where "be_meta_to_json env (boot_meta env req (Some child) (world_machine (bw_world b2))) = Inr json"
    "files v (br_room_id req, ROOM_META_FILE) = Some json"
    by (auto simp: write_atomic_def and_then_Inr split: sum.splits dest!: fs_write_ok rename_file_ok)
  then show thesis using that[of child "world_machine (bw_world b2)" json] same c v(2) vm g by (auto simp: same_room_def)
qed

lemma seal_base_result:
  assumes "seal_base env vm w = (Inr p, w')" "files w (rg_room_dir (bv_guard vm), ROOM_META_FILE) = Some json" "be_meta_from_json env json = Inr m"
  shows "rm_provenance m = Some Provisioning \<and> p = Neutral
    \<and> (\<exists>json'. be_meta_to_json env (m\<lparr>rm_provenance := Some Neutral\<rparr>) = Inr json' \<and> files w' (rg_room_dir (bv_guard vm), ROOM_META_FILE) = Some json')"
proof -
  have "room_read (be_meta_from_json env) (be_io env) (rg_room_dir (bv_guard vm)) w = Inr (Some m)"
    using assms by (auto simp: seal_base_def room_read_def read_to_string_def Let_def split: sum.splits option.splits io_error.splits)
  then obtain pr where pr: "rm_provenance m = Some Provisioning" "p = Neutral"
    and wa: "write_atomic (be_meta_to_json env) (be_io env) (rg_room_dir (bv_guard vm)) (m\<lparr>rm_provenance := Some Neutral\<rparr>) w = (Inr (), w')"
    using assms(1) by (auto simp: seal_base_def seal_def provenance_seal_def map_err_def and_then_Inr Let_def split: option.splits provenance.splits prod.splits sum.splits)
  from wa show ?thesis using pr by (auto simp: write_atomic_def and_then_Inr split: sum.splits dest!: fs_write_ok rename_file_ok)
qed

text \<open>C30. A base that has booted is on record before anyone can use it: its \<open>room.json\<close> names its room, its slot and the pid its guard will
  kill, pins the tool store and the repository revision it was admitted with, and its provenance is \<open>Provisioning\<close>. Sealing takes it to
  \<open>Neutral\<close>, durably and with nothing else changed, and never succeeds a second time.\<close>

theorem booted_base_seals_once:
  assumes "boot_with_cancellation env req w l = (Inr vm, w', l')" and "br_base req" and "no_faults io"
    and json: "\<And>m json. be_meta_to_json env m = Inr json \<Longrightarrow> be_meta_from_json env json = Inr m"
  shows "\<exists>m. room_read (be_meta_from_json env) io (br_room_id req) w' = Inr (Some m)
    \<and> rm_id m = br_room_id req \<and> rm_provenance m = Some Provisioning \<and> rm_slot m = br_slot req
    \<and> rm_pid m \<noteq> None \<and> rm_pid m = bv_child vm \<and> rm_pid m = rg_child_pid (bv_guard vm)
    \<and> rm_toolstore_sha256 m = map_option ts_digest (br_toolstore req) \<and> rm_base_repo_sha m = Option.bind (br_provisioning req) pp_base_repo_sha
    \<and> (\<forall>p w2. seal_base env vm w' = (Inr p, w2) \<longrightarrow>
         p = Neutral \<and> room_read (be_meta_from_json env) io (br_room_id req) w2 = Inr (Some (m\<lparr>rm_provenance := Some Neutral\<rparr>))
         \<and> (\<forall>q. fst (seal_base env vm w2) \<noteq> Inr q))"
proof -
  obtain n child j where b: "bv_child vm = Some child" "be_meta_to_json env (boot_meta env req (Some child) n) = Inr j"
    "files w' (br_room_id req, ROOM_META_FILE) = Some j" "rg_room_dir (bv_guard vm) = br_room_id req" "rg_child_pid (bv_guard vm) = Some child"
    by (rule boot_success[OF assms(1,2)])
  let ?m = "boot_meta env req (Some child) n"
  have m: "rm_id ?m = br_room_id req" "rm_provenance ?m = Some Provisioning" "rm_slot ?m = br_slot req" "rm_pid ?m = Some child"
    "rm_toolstore_sha256 ?m = map_option ts_digest (br_toolstore req)" "rm_base_repo_sha ?m = Option.bind (br_provisioning req) pp_base_repo_sha"
    using assms(2) by (simp_all add: boot_meta_def Let_def new_base_def room_meta_new_def)
  have rd: "room_read (be_meta_from_json env) io (br_room_id req) v = Inr (Some k)"
    if "files v (br_room_id req, ROOM_META_FILE) = Some t" "be_meta_to_json env k = Inr t" for v k t
    using that assms(3) json[OF that(2)] by (simp add: room_read_def)
  have "p = Neutral \<and> room_read (be_meta_from_json env) io (br_room_id req) w2 = Inr (Some (?m\<lparr>rm_provenance := Some Neutral\<rparr>))
      \<and> (\<forall>q. fst (seal_base env vm w2) \<noteq> Inr q)" if s: "seal_base env vm w' = (Inr p, w2)" for p w2
  proof -
    from seal_base_result[OF s _ json[OF b(2)]] b(3,4) obtain t where t: "p = Neutral"
      "be_meta_to_json env (?m\<lparr>rm_provenance := Some Neutral\<rparr>) = Inr t" "files w2 (br_room_id req, ROOM_META_FILE) = Some t" by auto
    have "fst (seal_base env vm w2) \<noteq> Inr q" for q
    proof
      assume "fst (seal_base env vm w2) = Inr q"
      then have "seal_base env vm w2 = (Inr q, snd (seal_base env vm w2))" by (simp add: prod_eq_iff)
      from seal_base_result[OF this _ json[OF t(2)]] t(3) b(4) show False by simp
    qed
    then show ?thesis using t rd by blast
  qed
  then show ?thesis using m b rd[OF b(3,2)] by (intro exI[of _ ?m]) (simp add: m)
qed

subsection \<open>The order of the API calls\<close>

definition api_ok :: "io_error + curl_output \<Rightarrow> bool" where
  "api_ok r = (case r of Inl _ \<Rightarrow> False | Inr out \<Rightarrow> co_code out = Some 0)"

text \<open>The command that carries a call.\<close>

definition carries :: "('n, 's) boot_env \<Rightarrow> string \<Rightarrow> string \<times> json \<Rightarrow> command_spec \<Rightarrow> bool" where
  "carries env socket call c \<longleftrightarrow> (\<exists>body. be_json env (snd call) = Inr body
     \<and> c = api_command socket ''PUT'' (fst call) body (be_secs_text env (timeout_for_endpoint (be_config env) (fst call))))"

lemma api_put_sent:
  assumes "\<And>c n. sent (snd (be_curl env c n)) = sent n @ [(c, api_ok (fst (be_curl env c n)))]" "api_put env socket e body n = (r, n')"
  shows "r \<noteq> Inr () \<and> sent n' = sent n \<or> (\<exists>c. carries env socket (e, body) c \<and> sent n' = sent n @ [(c, r = Inr ())])"
proof (cases "be_json env body")
  case (Inr t)
  let ?c = "api_command socket ''PUT'' e t (be_secs_text env (timeout_for_endpoint (be_config env) e))"
  obtain q m where q: "be_curl env ?c n = (q, m)" by fastforce
  show ?thesis using assms(1)[of ?c n] assms(2) Inr q
    by (auto simp: api_put_def api_request_def Let_def carries_def api_ok_def split: sum.splits if_splits)
qed (use assms in \<open>auto simp: api_put_def api_request_def\<close>)

lemma put_sent:
  assumes "\<And>c n. sent (snd (be_curl env c n)) = sent n @ [(c, api_ok (fst (be_curl env c n)))]"
    "await_boot env pt (on_machine (api_put env socket e body)) b = (r, b')"
  shows "r \<noteq> Inr () \<and> sent (machine b') = sent (machine b)
    \<or> (\<exists>c ok. carries env socket (e, body) c \<and> sent (machine b') = sent (machine b) @ [(c, ok)] \<and> (r = Inr () \<longrightarrow> ok))"
proof -
  obtain q n where q: "api_put env socket e body (machine b) = (q, n)" by fastforce
  have m: "fst (on_machine (api_put env socket e body) b) = q" "machine (snd (on_machine (api_put env socket e body) b)) = n"
    using q by (auto simp: on_machine_def on_bw_def on_host_def on_programs_def)
  show ?thesis using api_put_sent[of sent env, OF assms(1) q] assms(2) m
    by (auto simp: await_boot_def boot_cancelled_def split: option.splits cancel.splits)
qed

lemma put_all_sent:
  assumes log: "\<And>c n. sent (snd (be_curl env c n)) = sent n @ [(c, api_ok (fst (be_curl env c n)))]"
  shows "put_all env socket calls b = (r, b') \<Longrightarrow> \<exists>log. sent (machine b') = sent (machine b) @ log
      \<and> list_all2 (carries env socket) (take (length log) calls) (map fst log) \<and> list_all snd (butlast log)
      \<and> (r = Inr () \<longrightarrow> length log = length calls \<and> list_all snd log)"
proof (induction calls arbitrary: b)
  case (Cons call calls)
  obtain e body where c: "call = (e, body)" by fastforce
  obtain q b1 where q: "await_boot env (AtApi e) (on_machine (api_put env socket e body)) b = (q, b1)" by fastforce
  note p = put_sent[of sent env, OF log q]
  show ?case
  proof (cases "q = Inr ()")
    case True
    then obtain d where d: "carries env socket (e, body) d" "sent (machine b1) = sent (machine b) @ [(d, True)]" using p by auto
    have "put_all env socket calls b1 = (r, b')" using Cons.prems q True c by simp
    from Cons.IH[OF this] obtain log where l: "sent (machine b') = sent (machine b1) @ log"
      "list_all2 (carries env socket) (take (length log) calls) (map fst log)" "list_all snd (butlast log)"
      "r = Inr () \<longrightarrow> length log = length calls \<and> list_all snd log" by blast
    then show ?thesis using d c by (intro exI[of _ "(d, True) # log"]) auto
  next
    case False
    then have r: "r \<noteq> Inr ()" "b' = b1" using Cons.prems q c by (cases q; simp)+
    from p False consider "sent (machine b1) = sent (machine b)" | d ok where "carries env socket (e, body) d" "sent (machine b1) = sent (machine b) @ [(d, ok)]" by auto
    then show ?thesis
    proof cases
      case 1
      then show ?thesis using r by (intro exI[of _ "[]"]) simp
    next
      case (2 d ok)
      then show ?thesis using r c by (intro exI[of _ "[(d, ok)]"]) simp
    qed
  qed
qed simp

text \<open>C31. The machine is configured in the order of \<open>vm_calls\<close> and started last: whatever call fails or is cancelled, the commands sent to the
  VMM carry an initial part of the calls, all but the last of them were answered with success, and a success means that all of them were.
  The one call of \<open>/actions\<close>, \<open>InstanceStart\<close>, comes after every other.\<close>

theorem instance_starts_last:
  assumes "\<And>c n. sent (snd (be_curl env c n)) = sent n @ [(c, api_ok (fst (be_curl env c n)))]"
    and "configure_boot env socket req launch b = (r, b')"
  shows "(\<exists>log. sent (machine b') = sent (machine b) @ log
      \<and> list_all2 (carries env socket) (take (length log) (vm_calls (boot_spec req launch))) (map fst log) \<and> list_all snd (butlast log)
      \<and> (r = Inr () \<longrightarrow> length log = length (vm_calls (boot_spec req launch)) \<and> list_all snd log))
    \<and> last (vm_calls (boot_spec req launch)) = (''/actions'', JObj [(''action_type'', JStr ''InstanceStart'')])
    \<and> ''/actions'' \<notin> fst ` set (butlast (vm_calls (boot_spec req launch)))"
proof (intro conjI)
  show "\<exists>log. sent (machine b') = sent (machine b) @ log
      \<and> list_all2 (carries env socket) (take (length log) (vm_calls (boot_spec req launch))) (map fst log) \<and> list_all snd (butlast log)
      \<and> (r = Inr () \<longrightarrow> length log = length (vm_calls (boot_spec req launch)) \<and> list_all snd log)"
    by (rule put_all_sent[of sent env, OF assms(1)]) (use assms(2) in \<open>simp add: configure_boot_def configure_vm_def\<close>)
qed (auto simp: vm_calls_def butlast_append split: option.splits)

subsection \<open>A booted base\<close>

text \<open>A host on which everything succeeds and that remembers the calls of the VMM's API.\<close>

type_synonym demo_machine = "(command_spec \<times> bool) list"

definition demo_boot_reap :: "demo_machine reap_env" where
  "demo_boot_reap = \<lparr>re_io = demo_env, re_text = (\<lambda>_. []), re_poisoned = False,
     re_run = (\<lambda>c n. (Inr \<lparr>out_success = True, out_stdout = (if cmd_program c = ''id'' then ''0'' else if cmd_program c = ''getent'' then ''fc:x:7:8'' else []),
        out_stderr = []\<rparr>, n)),
     re_jail_left = (\<lambda>_ _. None), re_room_left = (\<lambda>_. None), re_stat = (\<lambda>_ _. Inl NotFound), re_sleep = (\<lambda>n. n), re_polls = (\<lambda>_. 3)\<rparr>"

definition demo_boot_images :: "demo_machine image_env" where
  "demo_boot_images = \<lparr>ig_reap = demo_boot_reap,
     ig_inode = \<lparr>ie_text = (\<lambda>_. []), ie_open = (\<lambda>_ _. Inr ()), ie_metadata = (\<lambda>_ _. Inl NotFound),
       ie_ops = (\<lambda>_. \<lparr>fo_immutable = 16, fo_get = (\<lambda>f. (Inr 0, f)), fo_set = (\<lambda>_ f. (Inr (), f)), fo_sync = (\<lambda>f. (Inr (), f))\<rparr>)\<rparr>,
     ig_exists = (\<lambda>_ _. True), ig_len = (\<lambda>_ _. Inl NotFound), ig_bytes = (\<lambda>_ _. Inl NotFound), ig_identity = (\<lambda>_ _. Inl NotFound),
     ig_manifest_file = (\<lambda>_ _. Inl NotFound), ig_manifest = (\<lambda>_. None), ig_sha256 = (\<lambda>_. []), ig_held = (\<lambda>p _. p), ig_dup_fails = None,
     ig_arch = X86_64\<rparr>"

definition demo_boot_procs :: "demo_machine proc_env" where
  "demo_boot_procs = \<lparr>pe_reap = demo_boot_reap, pe_spawn = (\<lambda>_ n. (Inr 7, n)), pe_try_wait = (\<lambda>_ _. Inr None), pe_wait = (\<lambda>_ n. (None, n)),
     pe_child_id = (\<lambda>p _. Some p), pe_kill = (\<lambda>_ n. n), pe_settle = (\<lambda>n. n), pe_unlink = (\<lambda>_ n. n), pe_len = (\<lambda>_ _. None),
     pe_path_var = Some ''/bin'', pe_executable = (\<lambda>_. True)\<rparr>"

definition demo_slot :: slot where
  "demo_slot = \<lparr>slot_index = 1, slot_tap = ''tap-fc1'', slot_gateway = (172, 16, 0, 5), slot_guest = (172, 16, 0, 6), slot_prefix = 30\<rparr>"

definition demo_boot_request :: boot_request where
  "demo_boot_request = \<lparr>br_toolstore = None, br_resources = default_resources, br_kernel = ''/k'', br_rootfs = ''/r'', br_network = None,
     br_slot = Some demo_slot, br_room_id = demo_owner, br_readonly_rootfs = True, br_descriptor = \<lparr>rd_command = None, rd_keep = False\<rparr>,
     br_witness = False, br_secrets = None, br_provisioning = None, br_egress = PlanObserve, br_base = True\<rparr>"

definition demo_base_meta :: "provenance \<Rightarrow> room_meta" where
  "demo_base_meta p = (room_meta_new demo_owner None (Some 7) None False 0)\<lparr>rm_provenance := Some p, rm_slot := Some demo_slot\<rparr>"

definition demo_boot_env :: "(demo_machine, string) boot_env" where
  "demo_boot_env = \<lparr>be_images = demo_boot_images, be_procs = demo_boot_procs, be_link = demo_link_env, be_home = None,
     be_config = default_config\<lparr>state_base := Some ''/s''\<rparr>, be_kvm_opens = (\<lambda>_. True), be_is_file = (\<lambda>_ _. True), be_canonicalize = (\<lambda>p _. Inr p),
     be_json = (\<lambda>_. Inr ''{}''), be_secs_text = (\<lambda>_. ''30''),
     be_curl = (\<lambda>c n. (Inr \<lparr>co_code = Some 0, co_stdout = [], co_stderr = []\<rparr>, n @ [(c, True)])),
     be_connects = (\<lambda>_ _. True), be_log = (\<lambda>_. []),
     be_meta_to_json = (\<lambda>m. if m = demo_base_meta Provisioning then Inr ''p'' else if m = demo_base_meta Neutral then Inr ''n'' else Inl []),
     be_meta_from_json = (\<lambda>t. if t = ''p'' then Inr (demo_base_meta Provisioning) else if t = ''n'' then Inr (demo_base_meta Neutral) else Inl []),
     be_now = 0, be_scratch_file = None, be_lost_worker = (\<lambda>_. None), be_cancel = (\<lambda>_. None)\<rparr>"

definition demo_boot_world :: "demo_machine room_host world" where
  "demo_boot_world = \<lparr>dirs = (\<lambda>d. d = ''slots''),
     files = (\<lambda>p. if p = (''slots'', ''1'') then Some (claim_text demo_owner demo_me) else None),
     host = \<lparr>jails = (\<lambda>_. None), clone_side = \<lparr>markers = Map.empty, net_state = []\<rparr>\<rparr>\<rparr>"

definition demo_boot_link :: "string link" where
  "demo_boot_link = \<lparr>lk_peer = [], lk_bound = (\<lambda>_. False), lk_log = [], lk_progress = None\<rparr>"

lemma demo_boot_parts:
  "be_reap demo_boot_env = demo_boot_reap" "be_io demo_boot_env = demo_env" "be_procs demo_boot_env = demo_boot_procs"
  "be_cancel demo_boot_env pt = None" "be_lost_worker demo_boot_env s = None" "re_io demo_boot_reap = demo_env" "be_is_file demo_boot_env p n = True"
  "be_kvm_opens demo_boot_env n = True" "ig_exists (be_images demo_boot_env) p n = True" "be_canonicalize demo_boot_env p n = Inr p"
  "be_connects demo_boot_env p n = True" "pe_path_var demo_boot_procs = Some ''/bin''" "pe_spawn demo_boot_procs c n = (Inr 7, n)"
  "pe_try_wait demo_boot_procs k n = Inr None" "re_polls demo_boot_reap ms = 3" "be_json demo_boot_env j = Inr ''{}''" "be_home demo_boot_env = None"
  "be_config demo_boot_env = default_config\<lparr>state_base := Some ''/s''\<rparr>"
  "be_curl demo_boot_env c n = (Inr \<lparr>co_code = Some 0, co_stdout = [], co_stderr = []\<rparr>, n @ [(c, True)])"
  by (simp_all add: demo_boot_env_def demo_boot_images_def demo_boot_reap_def demo_boot_procs_def)

lemma demo_before_guard:
  "\<exists>deps w. before_guard demo_boot_env demo_boot_request demo_boot_world = (Inr deps, w)"
proof -
  have run: "be_run demo_boot_env c n = (Inr \<lparr>out_success = True,
      out_stdout = (if cmd_program c = ''id'' then ''0'' else if cmd_program c = ''getent'' then ''fc:x:7:8'' else []), out_stderr = []\<rparr>, n)" for c n
    by (simp add: demo_boot_parts(1) demo_boot_reap_def)
  have root: "ensure_root demo_boot_env n = (Inr (), n)" for n by (simp add: ensure_root_def run trim_def is_whitespace_def)
  have bin: "resolve_binary_on_path demo_boot_env b f n = Inr (path_join ''/bin'' b)" if "b \<in> {''firecracker'', ''jailer''}" for b f n
    using that by (auto simp: resolve_binary_on_path_def demo_boot_parts has_root_def components_def slash_def component_of_def List.map_filter_def)
  have "parse_getent_passwd ''fc:x:7:8'' = Some (7, 8)"
    by (simp add: parse_getent_passwd_def lines.simps  trim_def is_whitespace_def parse_u32_def parse_uint_def is_ascii_digit_def digits_val_def digit_val_def)
  then have ids: "lookup_firecracker_ids demo_boot_env n = (Inr (7, 8), n)" for n by (simp add: lookup_firecracker_ids_def run)
  have d: "resolve_boot_dependencies demo_boot_env n = (Inr (path_join ''/bin'' ''firecracker'', path_join ''/bin'' ''jailer'', 7, 8), n)" for n
    by (simp add: resolve_boot_dependencies_def root check_kvm_def demo_boot_parts resolve_firecracker_binary_def resolve_jailer_binary_def
        default_config_def bin ids)
  have "\<exists>w. prepare_room_dir demo_boot_env demo_owner w0 = (Inr (), w)" if "\<not> dirs w0 demo_owner" for w0 :: "demo_machine room_host world"
    using that by (auto simp: prepare_room_dir_def demo_boot_parts create_room_dir_0700_def create_dir_all_def map_err_def check_fault_def demo_env_def
        demo_owner_def split: option.splits)
  moreover have "\<not> dirs (snd (on_host (on_programs f) demo_boot_world)) demo_owner" for f :: "demo_machine \<Rightarrow> (firecracker_error + _) \<times> demo_machine"
    by (simp add: on_host_def demo_boot_world_def demo_owner_def case_prod_beta)
  ultimately obtain w where "prepare_room_dir demo_boot_env demo_owner (snd (on_host (on_programs (resolve_boot_dependencies demo_boot_env)) demo_boot_world)) = (Inr (), w)"
    by metis
  then show ?thesis
    by (simp add: before_guard_def demo_boot_request_def resources_validate_def default_resources_def await_boot_def demo_boot_parts on_host_def on_programs_def d)
qed

text \<open>On that host every step of the boot succeeds and keeps the room's directory.\<close>

definition succeeds :: "(firecracker_error + 'a) \<times> ('n, 's) boot_state \<Rightarrow> bool" where
  "succeeds r \<longleftrightarrow> \<not> isl (fst r) \<and> dirs (bw_world (snd r)) demo_owner"

lemma succeeds_chain: "succeeds r \<Longrightarrow> (\<And>a b. r = (Inr a, b) \<Longrightarrow> dirs (bw_world b) demo_owner \<Longrightarrow> succeeds (k a b)) \<Longrightarrow> succeeds (and_then r k)"
  by (cases r; cases "fst r") (auto simp: succeeds_def)

lemma succeeds_steps:
  "dirs (bw_world b) demo_owner \<Longrightarrow> \<not> isl (fst (f (machine b))) \<Longrightarrow> succeeds (on_machine f b)"
  "dirs (bw_world b) demo_owner \<Longrightarrow> \<not> isl (fst (g (host (bw_world b)))) \<Longrightarrow> succeeds (on_bw (on_host g) b)"
  "dirs (bw_world b) demo_owner \<Longrightarrow> succeeds (Inr a, b)" "succeeds (k b) \<Longrightarrow> succeeds (await_boot demo_boot_env pt k b)"
  by (auto simp: succeeds_def on_machine_def on_bw_def on_host_def on_programs_def await_boot_def demo_boot_parts split: prod.splits)

lemma demo_layout:
  "\<exists>h'. prepare_jail_layout demo_boot_env base rid k r h = (Inr \<lparr>jl_instance_dir = boot_instance_dir base rid,
     jl_host_socket = path_join (boot_root_dir base rid) JAIL_API_SOCK\<rparr>, h')"
proof -
  have m: "\<exists>h'. create_mount_target demo_boot_env d name h = (Inr (), h')" for d name h
    by (auto simp: create_mount_target_def demo_boot_parts check_fault_def demo_env_def)
  have b: "on_programs (bind_mount demo_boot_env s t) h = (Inr (), h)" for s t h
    by (simp add: on_programs_def bind_mount_def demo_boot_parts demo_boot_reap_def Let_def)
  have "\<exists>h'. stage_jail_sync demo_boot_env base rid k r h = (Inr (), h')"
  proof -
    define h1 where "h1 = h\<lparr>jails := (jails h)(boot_instance_dir base rid \<mapsto> jail_names (boot_instance_dir base rid) h)\<rparr>"
    obtain h2 where h2: "create_mount_target demo_boot_env (boot_instance_dir base rid) JAIL_KERNEL h1 = (Inr (), h2)" using m by blast
    obtain h3 where h3: "create_mount_target demo_boot_env (boot_instance_dir base rid) JAIL_ROOTFS h2 = (Inr (), h3)" using m by blast
    show ?thesis by (simp add: stage_jail_sync_def Let_def demo_boot_parts check_fault_def demo_env_def h1_def[symmetric] h2 h3 b)
  qed
  then show ?thesis by (auto simp: prepare_jail_layout_def demo_boot_parts)
qed

lemma demo_guarded_boot:
  assumes "dirs (bw_world b) demo_owner"
  shows "succeeds (guarded_boot demo_boot_env demo_boot_request sd base deps b)"
proof -
  note req = demo_boot_request_def default_resources_def
  have sel: "br_room_id demo_boot_request = demo_owner" "rs_disk_gib (br_resources demo_boot_request) = None" "br_slot demo_boot_request = Some demo_slot"
    "\<not> br_witness demo_boot_request" "br_egress demo_boot_request = PlanObserve" "br_secrets demo_boot_request = None" "br_provisioning demo_boot_request = None"
    "br_toolstore demo_boot_request = None" "br_kernel demo_boot_request = ''/k''" "br_rootfs demo_boot_request = ''/r''" by (simp_all add: req)
  have tap: "run_tap_commands demo_boot_env cs n = (Inr (), n)" for cs n
    by (induction cs) (simp_all add: run_tap_command_def demo_boot_parts demo_boot_reap_def)
  have log: "succeeds (on_bw (open_log_file demo_boot_env demo_owner) b)" if "dirs (bw_world b) demo_owner" for b
    using that by (auto simp: succeeds_def on_bw_def open_log_file_def demo_boot_parts open_truncate_def check_fault_def demo_env_def map_err_def)
  have puts: "succeeds (put_all demo_boot_env socket calls b)" if "dirs (bw_world b) demo_owner" for socket calls b
    using that
  proof (induction calls arbitrary: b)
    case (Cons c cs)
    show ?case using Cons.prems
      by (cases c) (auto intro!: succeeds_chain succeeds_steps Cons.IH simp: api_put_def api_request_def demo_boot_parts Let_def)
  qed (simp add: succeeds_steps)
  have socket: "succeeds (wait_for_socket demo_boot_env socket child (re_polls (be_reap demo_boot_env) ms) b)" if "dirs (bw_world b) demo_owner" for socket child ms b
    using that by (simp add: numeral_3_eq_3 poll_socket_def await_boot_def demo_boot_parts succeeds_steps)
  have meta: "boot_meta demo_boot_env demo_boot_request (Some 7) n = demo_base_meta Provisioning" for n
    by (simp add: boot_meta_def req Let_def new_base_def room_meta_new_def demo_base_meta_def starttime_of_def demo_boot_parts demo_boot_reap_def demo_boot_env_def demo_boot_images_def)
  have stored: "succeeds (on_bw (write_room_meta demo_boot_env demo_owner demo_boot_request (Some 7)) b)" if "dirs (bw_world b) demo_owner" for b
    using that by (simp add: succeeds_def on_bw_def write_room_meta_def meta demo_boot_parts)
      (simp add: demo_boot_env_def write_atomic_def fs_write_def fs_defs check_fault_def demo_env_def)
  have spawn: "succeeds (spawn_vmm demo_boot_env launch b)" if "dirs (bw_world b) demo_owner" for launch b
    using that by (auto simp: succeeds_def spawn_vmm_def on_machine_def on_bw_def on_host_def on_programs_def spawn_jailer_def demo_boot_parts map_err_def)
  have pid: "child = 7" if "spawn_vmm demo_boot_env launch b = (Inr child, b')" for launch b b' child
    using that by (auto simp: spawn_vmm_def on_machine_def on_bw_def on_host_def on_programs_def spawn_jailer_def demo_boot_parts map_err_def)
  have block: "succeeds (boot_block demo_boot_env demo_boot_request sd base deps \<lparr>jl_instance_dir = boot_instance_dir base demo_owner,
      jl_host_socket = path_join (boot_root_dir base demo_owner) JAIL_API_SOCK\<rparr> b)" if "dirs (bw_world b) demo_owner" for b
    using that
    by (simp add: boot_block_def Let_def case_prod_beta sel boot_witness_def bind_secrets_listener_def
        bind_provisioning_listener_def install_egress_def plan_enforces_def)
      (auto intro!: succeeds_chain succeeds_steps log spawn puts stored socket dest!: pid simp: tap create_slot_tap_def configure_boot_def configure_vm_def install_egress_def plan_enforces_def)
  obtain b1 where l: "on_bw (on_host (prepare_jail_layout demo_boot_env base demo_owner ''/k'' ''/r'')) b = (Inr \<lparr>jl_instance_dir = boot_instance_dir base demo_owner,
      jl_host_socket = path_join (boot_root_dir base demo_owner) JAIL_API_SOCK\<rparr>, b1)" "dirs (bw_world b1) demo_owner"
    using demo_layout[of base demo_owner "''/k''" "''/r''" "host (bw_world b)"] assms by (auto simp: on_bw_def on_host_def)
  show ?thesis using block[OF l(2)] by (simp add: guarded_boot_def sel l)
qed

lemma prepare_room_dir_ok: "prepare_room_dir env d w = (Inr (), w') \<Longrightarrow> dirs w' d"
  by (cases "check_fault (be_io env) (CreateDirAll [])"; cases "check_fault (be_io env) (CreateDirAll d)")
    (auto simp: prepare_room_dir_def create_room_dir_0700_def create_dir_all_def map_err_def split: if_splits option.splits)

lemma demo_boot_succeeds: "\<exists>vm w' l'. boot_with_cancellation demo_boot_env demo_boot_request demo_boot_world demo_boot_link = (Inr vm, w', l')"
proof -
  obtain deps w where w: "before_guard demo_boot_env demo_boot_request demo_boot_world = (Inr deps, w)" using demo_before_guard by blast
  then obtain w1 where "prepare_room_dir demo_boot_env demo_owner w1 = (Inr (), w)"
    by (auto simp: before_guard_def and_then_Inr demo_boot_request_def split: sum.splits if_splits)
  then have d: "dirs w demo_owner" by (rule prepare_room_dir_ok)
  define b where "b = \<lparr>bw_world = w, bw_link = demo_boot_link, bw_guard = boot_guard demo_boot_env demo_boot_request ''/s/jailer'', bw_child = None, bw_witness = None,
                    bw_secrets = [], bw_provisioning = []\<rparr>"
  have "succeeds (guarded_boot demo_boot_env demo_boot_request ''/s'' ''/s/jailer'' deps b)" by (rule demo_guarded_boot) (simp add: b_def d)
  then obtain b' where "guarded_boot demo_boot_env demo_boot_request ''/s'' ''/s/jailer'' deps b = (Inr (), b')"
    by (cases "guarded_boot demo_boot_env demo_boot_request ''/s'' ''/s/jailer'' deps b"; cases "fst (guarded_boot demo_boot_env demo_boot_request ''/s'' ''/s/jailer'' deps b)")
      (auto simp: succeeds_def)
  moreover have "resolved_state_base (be_home demo_boot_env) (be_config demo_boot_env) = Some ''/s''"
    "chroot_base (be_home demo_boot_env) (be_config demo_boot_env) = Some ''/s/jailer''"
    by (simp_all add: demo_boot_parts resolved_state_base_def chroot_base_def default_config_def path_join_def has_root_def slash_def)
  ultimately show ?thesis using w by (simp add: boot_with_cancellation_def b_def)
qed

lemma demo_json: "be_meta_to_json demo_boot_env m = Inr j \<Longrightarrow> be_meta_from_json demo_boot_env j = Inr m"
  by (auto simp: demo_boot_env_def split: if_splits)

theorem booted_base_seals_once_witness:
  "\<exists>vm w' l' m. boot_with_cancellation demo_boot_env demo_boot_request demo_boot_world demo_boot_link = (Inr vm, w', l')
     \<and> room_read (be_meta_from_json demo_boot_env) demo_env demo_owner w' = Inr (Some m) \<and> rm_provenance m = Some Provisioning
     \<and> rm_slot m = Some demo_slot"
proof -
  obtain vm w' l' where b: "boot_with_cancellation demo_boot_env demo_boot_request demo_boot_world demo_boot_link = (Inr vm, w', l')"
    using demo_boot_succeeds by blast
  have "br_base demo_boot_request" "br_room_id demo_boot_request = demo_owner" "br_slot demo_boot_request = Some demo_slot"
    by (simp_all add: demo_boot_request_def)
  then show ?thesis using booted_base_seals_once[OF b _ demo_no_faults demo_json] b by fastforce
qed

theorem instance_starts_last_witness:
  "\<exists>log. machine (snd (configure_boot demo_boot_env ''/a'' demo_boot_request
      (build_jailer_launch_plan ''/j'' ''/f'' ''/b'' demo_owner 7 8 \<lparr>jl_instance_dir = [], jl_host_socket = ''/a''\<rparr> None)
      \<lparr>bw_world = demo_boot_world, bw_link = demo_boot_link, bw_guard = boot_guard demo_boot_env demo_boot_request ''/b'', bw_child = None,
       bw_witness = None, bw_secrets = [], bw_provisioning = []\<rparr>)) = log \<and> list_all snd (butlast log)"
proof -
  let ?launch = "build_jailer_launch_plan ''/j'' ''/f'' ''/b'' demo_owner 7 8 \<lparr>jl_instance_dir = [], jl_host_socket = ''/a''\<rparr> None"
  let ?b = "\<lparr>bw_world = demo_boot_world, bw_link = demo_boot_link, bw_guard = boot_guard demo_boot_env demo_boot_request ''/b'', bw_child = None,
       bw_witness = None, bw_secrets = [], bw_provisioning = []\<rparr> :: (demo_machine, string) boot_state"
  have h: "id (snd (be_curl demo_boot_env c n)) = id n @ [(c, api_ok (fst (be_curl demo_boot_env c n)))]" for c n
    by (simp add: demo_boot_parts api_ok_def)
  obtain r b' where r: "configure_boot demo_boot_env ''/a'' demo_boot_request ?launch ?b = (r, b')" by fastforce
  show ?thesis using instance_starts_last[of id demo_boot_env, OF h r] r by (auto simp: demo_boot_world_def)
qed

lemma demo_missing_kernel:
  "\<exists>e w' l'. boot_with_cancellation (demo_boot_env\<lparr>be_canonicalize := \<lambda>_ _. Inl NotFound\<rparr>) demo_boot_request demo_boot_world demo_boot_link = (Inl e, w', l')"
proof -
  let ?env = "demo_boot_env\<lparr>be_canonicalize := \<lambda>_ _. Inl NotFound\<rparr>"
  have l: "fst (prepare_jail_layout ?env base rid k r h) \<noteq> Inr x" for base rid k r h x by (simp add: prepare_jail_layout_def)
  have "fst (guarded_boot ?env demo_boot_request sd base deps b) \<noteq> Inr ()" for sd base deps b
    using l by (auto simp: guarded_boot_def Let_def and_then_def on_bw_def on_host_def split: prod.splits sum.splits) (metis fst_conv)
  then have "fst (boot_with_cancellation ?env demo_boot_request demo_boot_world demo_boot_link) \<noteq> Inr vm" for vm
    by (auto simp: boot_with_cancellation_def split: option.splits prod.splits sum.splits) (metis fst_conv)
  then show ?thesis
    by (cases "boot_with_cancellation ?env demo_boot_request demo_boot_world demo_boot_link"; cases "fst (boot_with_cancellation ?env demo_boot_request demo_boot_world demo_boot_link)") auto
qed




subsection \<open>Bounds\<close>

text \<open>The netmask of a prefix has exactly its upper bits set, for every byte; above 32 it saturates.\<close>

lemma prefix_mask_bits: "bit (prefix_mask p) i \<longleftrightarrow> 32 - min (unat p) 32 \<le> i \<and> i < 32"
  by (auto simp: prefix_mask_def Let_def bit_simps)

text \<open>Admitted resources bound what a room may take of the host, and the scratch disk's size in bytes, computed in 64 bits, does not wrap.\<close>

lemma admitted_resources:
  assumes "resources_validate r readonly base = Inr ()"
  shows "1 \<le> rs_cpus r" "rs_cpus r \<le> 32" "rs_cpus r = 1 \<or> rs_cpus r mod 2 = 0" "128 \<le> rs_memory_mib r" "rs_memory_mib r \<le> 65536"
    "rs_disk_gib r = Some gib \<Longrightarrow> readonly \<and> \<not> base \<and> unat (ucast gib * 1024 * 1024 * 1024 :: u64) = unat gib * 1024 * 1024 * 1024 \<and> 0 < unat gib"
proof -
  have r: "1 \<le> rs_cpus r \<and> rs_cpus r \<le> 32" "rs_cpus r \<le> 1 \<or> rs_cpus r mod 2 = 0" "128 \<le> rs_memory_mib r \<and> rs_memory_mib r \<le> 65536"
    "\<And>gib. rs_disk_gib r = Some gib \<Longrightarrow> 1 \<le> gib \<and> gib \<le> 1024 \<and> readonly \<and> \<not> base"
    using assms by (auto simp: resources_validate_def not_less split: if_splits option.splits)
  then show "1 \<le> rs_cpus r" "rs_cpus r \<le> 32" "rs_cpus r = 1 \<or> rs_cpus r mod 2 = 0" "128 \<le> rs_memory_mib r" "rs_memory_mib r \<le> 65536" by auto
  assume "rs_disk_gib r = Some gib"
  from r(4)[OF this] have g: "1 \<le> unat gib" "unat gib \<le> 1024" "readonly \<and> \<not> base" by (auto simp: word_le_nat_alt)
  then show "readonly \<and> \<not> base \<and> unat (ucast gib * 1024 * 1024 * 1024 :: u64) = unat gib * 1024 * 1024 * 1024 \<and> 0 < unat gib"
    by (simp add: unat_word_ariths unsigned_ucast_eq take_bit_eq_mod)
qed

end
