(* ===== verification/Collected.thy ===== *)
theory Collected
  imports Config
begin

text \<open>
  The result of a run and the artifact directory it is collected into (\<open>src/src/artifacts.rs\<close>, the first and the last part): the
  versioned \<open>result.json\<close> and the loader that reads it back and follows its references. The directory was written by the
  guest. The file system answers through an environment: which paths are files, their contents, and their canonical paths; \<open>serde_json\<close>
  is a parameter.
\<close>

subsection \<open>Results\<close>

definition RESULT_SCHEMA_VERSION :: u32 where "RESULT_SCHEMA_VERSION = 1"
definition RESULT_JSON :: string where "RESULT_JSON = ''result.json''"
definition STDOUT_LOG :: string where "STDOUT_LOG = ''logs/stdout.log''"
definition STDERR_LOG :: string where "STDERR_LOG = ''logs/stderr.log''"

datatype run_status = Succeeded | RunFailed | TimedOut | Cancelled

record result_json =
  rj_schema_version :: u32
  rj_status :: run_status
  rj_exit_code :: int
  rj_started_at :: datetime
  rj_ended_at :: datetime
  rj_summary_path :: "string option"
  rj_patch_path :: "string option"
  rj_events_path :: "string option"
  rj_pushed_branch :: "string option"
  rj_command :: "string list"

definition status_from_exit_code :: "int \<Rightarrow> run_status" where
  "status_from_exit_code exit_code = (if exit_code = 0 then Succeeded else RunFailed)"

definition from_exec :: "int \<Rightarrow> run_status \<Rightarrow> datetime \<Rightarrow> datetime \<Rightarrow> string list \<Rightarrow> result_json" where
  "from_exec exit_code st started_at ended_at command =
     \<lparr>rj_schema_version = RESULT_SCHEMA_VERSION, rj_status = st, rj_exit_code = exit_code, rj_started_at = started_at, rj_ended_at = ended_at,
      rj_summary_path = None, rj_patch_path = None, rj_events_path = None, rj_pushed_branch = None, rj_command = command\<rparr>"

subsection \<open>Loading\<close>

datatype artifacts_error =
    MissingRequired string
  | UnsupportedSchemaVersion u32
  | DanglingReference string
  | UnsafeReference string
  | InvalidJson string
  | ArtifactIo string string

fun artifacts_error_text :: "artifacts_error \<Rightarrow> string" where
  "artifacts_error_text (MissingRequired path) = ''missing required artifact: '' @ path"
| "artifacts_error_text (UnsupportedSchemaVersion version) = ''unsupported result.json schema_version: '' @ show_nat (unat version)"
| "artifacts_error_text (DanglingReference path) = ''result.json references missing file: '' @ path"
| "artifacts_error_text (UnsafeReference path) = ''result.json reference escapes the artifact dir: '' @ path"
| "artifacts_error_text (InvalidJson detail) = ''invalid result.json: '' @ detail"
| "artifacts_error_text (ArtifactIo path message) = ''read '' @ path @ '': '' @ message"

record out_env =
  oe_text :: "io_error \<Rightarrow> string"
  oe_is_file :: "string \<Rightarrow> bool"
  oe_read :: "string \<Rightarrow> io_error + string"
  oe_canonicalize :: "string \<Rightarrow> io_error + string"
  oe_result_json :: "string \<Rightarrow> string + result_json"

record runner_artifacts =
  ra_result :: result_json
  ra_summary :: "string option"
  ra_patch :: "string option"
  ra_events :: "string option"
  ra_stdout :: string
  ra_stderr :: string

definition ensure_exists :: "out_env \<Rightarrow> string \<Rightarrow> string \<Rightarrow> artifacts_error + unit" where
  "ensure_exists env path label = (if oe_is_file env path then Inr () else Inl (MissingRequired label))"

definition artifact_io :: "out_env \<Rightarrow> string \<Rightarrow> io_error \<Rightarrow> artifacts_error" where
  "artifact_io env path e = ArtifactIo path (oe_text env e)"

definition parse_result_json :: "out_env \<Rightarrow> string \<Rightarrow> artifacts_error + result_json" where
  "parse_result_json env raw = (case oe_result_json env raw of
     Inl e \<Rightarrow> Inl (InvalidJson e)
   | Inr r \<Rightarrow> if rj_schema_version r \<noteq> RESULT_SCHEMA_VERSION then Inl (UnsupportedSchemaVersion (rj_schema_version r)) else Inr r)"

definition safe_component :: "path_component \<Rightarrow> bool" where
  "safe_component c = (case c of NormalComponent _ \<Rightarrow> True | CurDir \<Rightarrow> True | _ \<Rightarrow> False)"

definition safe_join :: "string \<Rightarrow> string \<Rightarrow> artifacts_error + string" where
  "safe_join out_dir rel =
     (if has_root rel then Inl (UnsafeReference rel)
      else if \<not> list_all safe_component (components rel) then Inl (UnsafeReference rel)
      else Inr (path_join out_dir rel))"

definition ensure_inside_out_dir :: "out_env \<Rightarrow> string \<Rightarrow> string \<Rightarrow> string \<Rightarrow> artifacts_error + unit" where
  "ensure_inside_out_dir env out_dir path rel = (case oe_canonicalize env out_dir of
     Inl e \<Rightarrow> Inl (artifact_io env out_dir e)
   | Inr canonical_out \<Rightarrow> (case oe_canonicalize env path of
       Inl e \<Rightarrow> Inl (artifact_io env path e)
     | Inr canonical_target \<Rightarrow> if path_starts_with canonical_target canonical_out then Inr () else Inl (UnsafeReference rel)))"

definition validate_reference :: "out_env \<Rightarrow> string \<Rightarrow> string option \<Rightarrow> artifacts_error + unit" where
  "validate_reference env out_dir rel = (case rel of
     None \<Rightarrow> Inr ()
   | Some rel \<Rightarrow> (case safe_join out_dir rel of
       Inl e \<Rightarrow> Inl e
     | Inr path \<Rightarrow> if \<not> oe_is_file env path then Inl (DanglingReference rel) else ensure_inside_out_dir env out_dir path rel))"

definition read_optional_text :: "out_env \<Rightarrow> string \<Rightarrow> string option \<Rightarrow> artifacts_error + string option" where
  "read_optional_text env out_dir rel = (case rel of
     None \<Rightarrow> Inr None
   | Some rel \<Rightarrow> (case safe_join out_dir rel of
       Inl e \<Rightarrow> Inl e
     | Inr path \<Rightarrow> (case ensure_inside_out_dir env out_dir path rel of
         Inl e \<Rightarrow> Inl e
       | Inr _ \<Rightarrow> (case oe_read env path of Inl e \<Rightarrow> Inl (artifact_io env path e) | Inr c \<Rightarrow> Inr (Some c)))))"

definition sum_bind :: "'e + 'a \<Rightarrow> ('a \<Rightarrow> 'e + 'b) \<Rightarrow> 'e + 'b" where
  "sum_bind r k = (case r of Inl e \<Rightarrow> Inl e | Inr a \<Rightarrow> k a)"

definition load_artifacts :: "out_env \<Rightarrow> string \<Rightarrow> artifacts_error + runner_artifacts" where
  "load_artifacts env out_dir =
     (let result_path = path_join out_dir RESULT_JSON; stdout_path = path_join out_dir STDOUT_LOG; stderr_path = path_join out_dir STDERR_LOG in
      sum_bind (ensure_exists env result_path RESULT_JSON) (\<lambda>_.
      sum_bind (ensure_exists env stdout_path STDOUT_LOG) (\<lambda>_.
      sum_bind (ensure_exists env stderr_path STDERR_LOG) (\<lambda>_.
      sum_bind (case oe_read env result_path of Inl e \<Rightarrow> Inl (artifact_io env result_path e) | Inr raw \<Rightarrow> Inr raw) (\<lambda>raw.
      sum_bind (parse_result_json env raw) (\<lambda>result.
      sum_bind (validate_reference env out_dir (rj_summary_path result)) (\<lambda>_.
      sum_bind (validate_reference env out_dir (rj_patch_path result)) (\<lambda>_.
      sum_bind (validate_reference env out_dir (rj_events_path result)) (\<lambda>_.
      sum_bind (read_optional_text env out_dir (rj_summary_path result)) (\<lambda>summary.
      sum_bind (read_optional_text env out_dir (rj_patch_path result)) (\<lambda>patch.
      sum_bind (case rj_events_path result of Some rel \<Rightarrow> (case safe_join out_dir rel of Inl e \<Rightarrow> Inl e | Inr p \<Rightarrow> Inr (Some p)) | None \<Rightarrow> Inr None) (\<lambda>events.
      Inr \<lparr>ra_result = result, ra_summary = summary, ra_patch = patch, ra_events = events, ra_stdout = stdout_path, ra_stderr = stderr_path\<rparr>)))))))))))) "

subsection \<open>Nothing outside the directory is read\<close>

lemma sum_bind_Inr [simp]: "sum_bind r k = Inr b \<longleftrightarrow> (\<exists>a. r = Inr a \<and> k a = Inr b)"
  by (auto simp: sum_bind_def split: sum.splits)

text \<open>A reference stays inside: it is relative, climbs nowhere, and its canonical path is below the canonical directory.\<close>

definition inside :: "out_env \<Rightarrow> string \<Rightarrow> string \<Rightarrow> bool" where
  "inside env out_dir rel \<longleftrightarrow> \<not> has_root rel \<and> ParentDir \<notin> set (components rel)
     \<and> (\<exists>root target. oe_canonicalize env out_dir = Inr root \<and> oe_canonicalize env (path_join out_dir rel) = Inr target \<and> path_starts_with target root)"

lemma validated_inside: "validate_reference env out_dir (Some rel) = Inr () \<Longrightarrow> inside env out_dir rel"
  by (auto simp: validate_reference_def safe_join_def ensure_inside_out_dir_def inside_def list_all_iff safe_component_def
      split: sum.splits if_splits path_component.splits)

lemma read_optional: "read_optional_text env out_dir rel = Inr c \<Longrightarrow>
    c = (case rel of None \<Rightarrow> None | Some rel \<Rightarrow> (case oe_read env (path_join out_dir rel) of Inl _ \<Rightarrow> None | Inr t \<Rightarrow> Some t))"
  by (auto simp: read_optional_text_def safe_join_def split: option.splits sum.splits if_splits)

text \<open>C36. What the loader returns of a directory the guest wrote lies in that directory: the result has the supported version, every path it
  names is relative, without \<open>..\<close>, and resolves below the directory, and the texts are the contents of exactly these files.\<close>

theorem loaded_artifacts_inside:
  "case load_artifacts env out_dir of
     Inl _ \<Rightarrow> True
   | Inr a \<Rightarrow> rj_schema_version (ra_result a) = RESULT_SCHEMA_VERSION
       \<and> pred_option (inside env out_dir) (rj_summary_path (ra_result a)) \<and> pred_option (inside env out_dir) (rj_patch_path (ra_result a))
       \<and> pred_option (inside env out_dir) (rj_events_path (ra_result a))
       \<and> ra_events a = map_option (path_join out_dir) (rj_events_path (ra_result a))
       \<and> ra_summary a = Option.bind (rj_summary_path (ra_result a)) (\<lambda>rel. case oe_read env (path_join out_dir rel) of Inl _ \<Rightarrow> None | Inr t \<Rightarrow> Some t)
       \<and> ra_patch a = Option.bind (rj_patch_path (ra_result a)) (\<lambda>rel. case oe_read env (path_join out_dir rel) of Inl _ \<Rightarrow> None | Inr t \<Rightarrow> Some t)"
proof (cases "load_artifacts env out_dir")
  case (Inr a)
  then obtain result where r: "ra_result a = result" "rj_schema_version result = RESULT_SCHEMA_VERSION"
    "validate_reference env out_dir (rj_summary_path result) = Inr ()" "validate_reference env out_dir (rj_patch_path result) = Inr ()"
    "validate_reference env out_dir (rj_events_path result) = Inr ()" "read_optional_text env out_dir (rj_summary_path result) = Inr (ra_summary a)"
    "read_optional_text env out_dir (rj_patch_path result) = Inr (ra_patch a)"
    "(case rj_events_path result of Some rel \<Rightarrow> (case safe_join out_dir rel of Inl e \<Rightarrow> Inl e | Inr p \<Rightarrow> Inr (Some p)) | None \<Rightarrow> Inr None) = Inr (ra_events a)"
    by (auto simp: load_artifacts_def Let_def parse_result_json_def split: sum.splits if_splits)
  have v: "pred_option (inside env out_dir) rel" if "validate_reference env out_dir rel = Inr ()" for rel
    using that validated_inside by (cases rel) auto
  have e: "ra_events a = map_option (path_join out_dir) (rj_events_path result)"
    using r(8) by (auto simp: safe_join_def split: option.splits sum.splits if_splits)
  show ?thesis using v r(1-5) e read_optional[OF r(6)] read_optional[OF r(7)] Inr
    by (simp add: split: option.splits)
qed simp

end
