(* ===== verification/Runner.thy ===== *)
theory Runner
  imports Collected Images Capture Vsock Artifacts
begin

text \<open>
  Running commands in a guest over \<open>ssh\<close> (\<open>src/src/runner.rs\<close>): the argv of every host process, the readiness wait, the wrapper that
  brings back the exit code, the flows of the three runners, collecting the output directory, and building a base's provisioning input.

  \<open>ssh\<close>, \<open>ping\<close>, \<open>tar\<close>, \<open>git\<close> and \<open>chmod\<close> are run by the environment: it answers with an exit status and two texts, or the host fails to
  run the program. What the guest does is therefore arbitrary. An error is its outermost message. Durations are milliseconds.
  The shell that \<open>sshd\<close> starts is not part of the program; the reference lexer below states how a POSIX shell splits a command line, so that
  the quoting of untrusted text can be judged against it.
\<close>

subsection \<open>Requests and routes\<close>

definition GUEST_USER :: string where "GUEST_USER = ''rooms''"
definition SSH_PROBE_ATTEMPT_TIMEOUT :: nat where "SSH_PROBE_ATTEMPT_TIMEOUT = 75 * 1000"
definition SSH_AUXILIARY_CONNECT_TIMEOUT :: nat where "SSH_AUXILIARY_CONNECT_TIMEOUT = 5 * 1000"
definition CURSOR_RUNNER_JS :: string where "CURSOR_RUNNER_JS = ''/opt/rooms/cursor-runner/cursor-runner.js''"
definition WORKSPACE_UNWRITABLE_MARKER :: string where "WORKSPACE_UNWRITABLE_MARKER = ''ROOMS_WORKSPACE_UNWRITABLE''"

record cursor_meta =
  cm_base_sha :: string
  cm_model_id :: string

record cursor_request =
  cr_repo_url :: string
  cr_task_md :: string
  cr_meta :: cursor_meta
  cr_push_branch :: "string option"

datatype room_runner =
    CommandRunner string
  | RepositoryCommand string string string
  | CursorRunner cursor_request

datatype guest_signal = GuestReady | SshReady

record guest_target =
  gt_guest_ip :: string
  gt_netns :: "string option"

definition target_flat :: "string \<Rightarrow> guest_target" where
  "target_flat guest_ip = \<lparr>gt_guest_ip = guest_ip, gt_netns = None\<rparr>"

definition guest_command_argv :: "string \<Rightarrow> string list" where
  "guest_command_argv command = [''sh'', ''-c'', command]"

definition cursor_command_argv :: "string list" where
  "cursor_command_argv = [''node'', CURSOR_RUNNER_JS]"

definition command_argv :: "room_runner \<Rightarrow> string list" where
  "command_argv r = (case r of
     CommandRunner command \<Rightarrow> guest_command_argv command
   | RepositoryCommand command _ _ \<Rightarrow> guest_command_argv command
   | CursorRunner _ \<Rightarrow> cursor_command_argv)"

subsection \<open>Quoting\<close>

definition single_quote :: char where "single_quote = CHR 0x27"

definition escape_quote :: "char \<Rightarrow> string" where
  "escape_quote c = (if c = single_quote then [single_quote, CHR 0x5C, single_quote, single_quote] else [c])"

definition shell_single_quote :: "string \<Rightarrow> string" where
  "shell_single_quote s = [single_quote] @ concat (map escape_quote s) @ [single_quote]"

subsection \<open>Host processes\<close>

record guest_output =
  go_status :: exit_status
  go_stdout :: string
  go_stderr :: string

datatype feed_failure = FeedSpawn io_error | FeedWrite io_error | FeedClose io_error | FeedWait io_error

record 'n guest_env =
  ge_text :: "io_error \<Rightarrow> string"
  ge_debug :: "string \<Rightarrow> string"
  ge_duration_text :: "nat \<Rightarrow> string"
  ge_run :: "command_spec \<Rightarrow> string \<Rightarrow> 'n \<Rightarrow> (io_error + guest_output) \<times> 'n"
  ge_feed :: "command_spec \<Rightarrow> string \<Rightarrow> 'n \<Rightarrow> (feed_failure + guest_output) \<times> 'n"
  ge_git :: "string \<Rightarrow> string list \<Rightarrow> 'n \<Rightarrow> (io_error + guest_output) \<times> 'n"
  ge_limited :: "nat \<Rightarrow> command_spec \<Rightarrow> 'n \<Rightarrow> (io_error + guest_output) option \<times> 'n"
  ge_clock :: "'n \<Rightarrow> nat"
  ge_sleep :: "nat \<Rightarrow> 'n \<Rightarrow> 'n"
  ge_now :: "'n \<Rightarrow> datetime"
  ge_result_json :: "result_json \<Rightarrow> string + string"
  ge_meta_json :: "cursor_meta \<Rightarrow> string + string"
  ge_changeset_json :: "changeset \<Rightarrow> string + string"
  ge_var :: "string \<Rightarrow> string option"
  ge_create_dir :: "path_component list \<Rightarrow> 'n \<Rightarrow> (io_error + unit) \<times> 'n"
  ge_remove_dir_all :: "string \<Rightarrow> 'n \<Rightarrow> (io_error + unit) \<times> 'n"
  ge_write_file :: "string \<Rightarrow> string \<Rightarrow> 'n \<Rightarrow> (io_error + unit) \<times> 'n"
  ge_rename :: "string \<Rightarrow> string \<Rightarrow> 'n \<Rightarrow> (io_error + unit) \<times> 'n"
  ge_read :: "string \<Rightarrow> 'n \<Rightarrow> io_error + string"
  ge_exists :: "string \<Rightarrow> 'n \<Rightarrow> bool"
  ge_canonicalize :: "string \<Rightarrow> 'n \<Rightarrow> io_error + string"
  ge_temp :: "'n \<Rightarrow> string"

definition guest_process :: "guest_target \<Rightarrow> string \<Rightarrow> string list \<Rightarrow> command_spec" where
  "guest_process target program args = (case gt_netns target of
     None \<Rightarrow> \<lparr>cmd_program = program, cmd_args = args\<rparr>
   | Some netns \<Rightarrow> \<lparr>cmd_program = ''ip'', cmd_args = [''netns'', ''exec'', netns, program] @ args\<rparr>)"

definition ping_command :: "guest_target \<Rightarrow> command_spec" where
  "ping_command target = guest_process target ''ping'' [''-c'', ''1'', ''-W'', ''1'', gt_guest_ip target]"

definition connect_seconds :: "nat \<Rightarrow> nat" where
  "connect_seconds ms = max 1 (min (ms div 1000 + (if ms mod 1000 \<noteq> 0 then 1 else 0)) (2 ^ 64 - 1))"

definition ssh_connect_timeout_option :: "nat \<Rightarrow> string" where
  "ssh_connect_timeout_option ms = ''ConnectTimeout='' @ show_nat (connect_seconds ms)"

definition ssh_options :: "string \<Rightarrow> nat \<Rightarrow> string list" where
  "ssh_options key connect_timeout =
     [''-i'', key, ''-o'', ''BatchMode=yes'', ''-o'', ssh_connect_timeout_option connect_timeout, ''-o'', ''StrictHostKeyChecking=no'',
      ''-o'', ''UserKnownHostsFile=/dev/null'', ''-o'', ''LogLevel=ERROR'']"

definition ssh_probe_command :: "guest_target \<Rightarrow> string \<Rightarrow> nat \<Rightarrow> command_spec" where
  "ssh_probe_command target key connect_timeout =
     guest_process target ''ssh'' (ssh_options key connect_timeout @ [GUEST_USER @ ''@'' @ gt_guest_ip target, ''true''])"

definition GH_TOKEN_OPTION :: string where "GH_TOKEN_OPTION = ''SendEnv=GH_TOKEN''"

definition ssh_command :: "guest_target \<Rightarrow> string \<Rightarrow> string \<Rightarrow> bool \<Rightarrow> nat \<Rightarrow> command_spec" where
  "ssh_command target key remote forward_gh_token connect_timeout =
     guest_process target ''ssh'' (ssh_options key connect_timeout
       @ [''-o'', ''SendEnv=ANTHROPIC_API_KEY'', ''-o'', ''SendEnv=CLAUDE_CODE_OAUTH_TOKEN'', ''-o'', ''SendEnv=ANTHROPIC_AUTH_TOKEN'',
          ''-o'', ''SendEnv=CURSOR_API_KEY'']
       @ (if forward_gh_token then [''-o'', GH_TOKEN_OPTION] else [])
       @ [GUEST_USER @ ''@'' @ gt_guest_ip target, ''--'', remote])"

subsection \<open>Waiting for the guest\<close>

definition probe_ssh_once :: "'n guest_env \<Rightarrow> guest_target \<Rightarrow> string \<Rightarrow> nat \<Rightarrow> 'n \<Rightarrow> (firecracker_error + string option) \<times> 'n" where
  "probe_ssh_once env target key attempt n = (case ge_limited env attempt (ssh_probe_command target key attempt) n of
     (None, n) \<Rightarrow> (Inr (Some (''authenticated SSH attempt exceeded '' @ ge_duration_text env attempt)), n)
   | (Some (Inl e), n) \<Rightarrow> (Inl (FcInternal (''ssh probe spawn failed: '' @ ge_text env e)), n)
   | (Some (Inr out), n) \<Rightarrow> (Inr (if exit_success (go_status out) then None else Some (trim (go_stderr out))), n))"

text \<open>\<open>None\<close>: the deadline passed while the ping ran.\<close>

definition probe_ping :: "'n guest_env \<Rightarrow> guest_target \<Rightarrow> nat \<Rightarrow> 'n \<Rightarrow> bool option \<times> 'n" where
  "probe_ping env target remaining n = (case ge_limited env remaining (ping_command target) n of
     (None, n) \<Rightarrow> (None, n)
   | (Some (Inl _), n) \<Rightarrow> (Some False, n)
   | (Some (Inr out), n) \<Rightarrow> (Some (exit_success (go_status out)), n))"

definition ready_signals :: "bool \<Rightarrow> guest_signal list" where
  "ready_signals guest_seen = (if guest_seen then [] else [GuestReady]) @ [SshReady]"

definition unreachable :: "'n guest_env \<Rightarrow> guest_target \<Rightarrow> rooms_config \<Rightarrow> string \<Rightarrow> firecracker_error" where
  "unreachable env target c last_err =
     FcGuestUnreachable (''sshd at '' @ gt_guest_ip target @ '' did not accept connections within '' @ ge_duration_text env (guest_reach_timeout c)
       @ '' (last stderr: '' @ last_err @ '')'')"

text \<open>The body of the loop up to its pause: an end with its result, or the next \<open>guest_seen\<close>, message and signals.\<close>

definition ssh_round ::
  "'n guest_env \<Rightarrow> guest_target \<Rightarrow> string \<Rightarrow> rooms_config \<Rightarrow> bool \<Rightarrow> nat \<Rightarrow> bool \<Rightarrow> string \<Rightarrow> guest_signal list \<Rightarrow> 'n
     \<Rightarrow> ((firecracker_error + unit) + bool \<times> string) \<times> guest_signal list \<times> 'n" where
  "ssh_round env target key c ping deadline seen last_err obs n =
     (if deadline \<le> ge_clock env n then (Inl (Inl (unreachable env target c last_err)), obs, n)
      else let attempt = min (deadline - ge_clock env n) SSH_PROBE_ATTEMPT_TIMEOUT in
      case probe_ssh_once env target key attempt n of
        (Inl e, n) \<Rightarrow> (Inl (Inl e), obs, n)
      | (Inr None, n) \<Rightarrow> (Inl (Inr ()), obs @ ready_signals seen, n)
      | (Inr (Some stderr), n) \<Rightarrow>
          if ping \<and> \<not> seen then
            (case probe_ping env target (deadline - ge_clock env n) n of
               (None, n) \<Rightarrow> (Inl (Inl (unreachable env target c stderr)), obs, n)
             | (Some True, n) \<Rightarrow> (Inr (True, stderr), obs @ [GuestReady], n)
             | (Some False, n) \<Rightarrow> (Inr (False, stderr), obs, n))
          else (Inr (seen, stderr), obs, n))"

partial_function (option) ssh_rounds ::
  "'n guest_env \<Rightarrow> guest_target \<Rightarrow> string \<Rightarrow> rooms_config \<Rightarrow> bool \<Rightarrow> nat \<Rightarrow> bool \<Rightarrow> string \<Rightarrow> guest_signal list \<Rightarrow> 'n
     \<Rightarrow> ((firecracker_error + unit) \<times> guest_signal list \<times> 'n) option" where
  "ssh_rounds env target key c ping deadline seen last_err obs n =
     (case ssh_round env target key c ping deadline seen last_err obs n of
        (Inl r, obs, n) \<Rightarrow> Some (r, obs, n)
      | (Inr (seen, last_err), obs, n) \<Rightarrow>
          ssh_rounds env target key c ping deadline seen last_err obs
            (ge_sleep env (min (guest_reach_poll_interval c) (deadline - ge_clock env n)) n))"

definition wait_for_ssh_observed ::
  "'n guest_env \<Rightarrow> guest_target \<Rightarrow> string \<Rightarrow> rooms_config \<Rightarrow> bool \<Rightarrow> 'n \<Rightarrow> ((firecracker_error + unit) \<times> guest_signal list \<times> 'n) option" where
  "wait_for_ssh_observed env target key c ping n =
     ssh_rounds env target key c ping (ge_clock env n + guest_reach_timeout c) False [] [] n"

definition wait_for_ssh :: "'n guest_env \<Rightarrow> guest_target \<Rightarrow> string \<Rightarrow> rooms_config \<Rightarrow> 'n \<Rightarrow> ((firecracker_error + unit) \<times> 'n) option" where
  "wait_for_ssh env target key c n = map_option (\<lambda>(r, _, n). (r, n)) (wait_for_ssh_observed env target key c False n)"

subsection \<open>Exit codes\<close>

text \<open>\<open>i32::from_str\<close>.\<close>

definition parse_i32 :: "string \<Rightarrow> int option" where
  "parse_i32 s = (case s of
     [] \<Rightarrow> None
   | c # cs \<Rightarrow>
       if c = CHR ''-'' then
         (if cs \<noteq> [] \<and> list_all is_ascii_digit cs \<and> digits_val cs \<le> 2 ^ 31 then Some (- int (digits_val cs)) else None)
       else map_option int (parse_uint (2 ^ 31 - 1) s))"

definition EXIT_MARKER :: string where "EXIT_MARKER = ''EXIT=''"

definition parse_remote_exit_code :: "'n guest_env \<Rightarrow> string \<Rightarrow> string + int" where
  "parse_remote_exit_code env stdout = (case rev (List.map_filter (strip_prefix EXIT_MARKER) (lines stdout)) of
     [] \<Rightarrow> Inl (''guest stdout missing EXIT= marker; raw stdout: '' @ ge_debug env stdout)
   | marker # _ \<Rightarrow> (case parse_i32 (trim marker) of
       None \<Rightarrow> Inl (''EXIT= marker not numeric: '' @ ge_debug env marker @ ''; raw stdout: '' @ ge_debug env stdout)
     | Some code \<Rightarrow> Inr code))"

subsection \<open>Commands in the guest\<close>

record guest_exec_outcome =
  gx_exit_code :: int
  gx_status :: run_status
  gx_started_at :: datetime
  gx_ended_at :: datetime
  gx_post_run_error :: "string option"

text \<open>The state of a run: the machine, and the outcome the caller keeps when the rest is cancelled.\<close>

type_synonym 'n run_state = "'n \<times> guest_exec_outcome option"

definition in_run :: "('n \<Rightarrow> (string + 'a) \<times> 'n) \<Rightarrow> 'n run_state \<Rightarrow> (string + 'a) \<times> 'n run_state" where
  "in_run f s = (case f (fst s) of (r, n) \<Rightarrow> (r, (n, snd s)))"

definition wrapped_remote :: "string \<Rightarrow> string" where
  "wrapped_remote inner =
     ''if ! mkdir -p /workspace/out/logs; then echo '' @ WORKSPACE_UNWRITABLE_MARKER @ '' >&2; exit 1; fi; bash -c ''
     @ shell_single_quote inner @ '' > /workspace/out/logs/stdout.log 2> /workspace/out/logs/stderr.log; echo EXIT=$?''"

text \<open>In the first message the source has a dash outside ASCII.\<close>

definition run_wrapped :: "'n guest_env \<Rightarrow> guest_target \<Rightarrow> string \<Rightarrow> string \<Rightarrow> nat \<Rightarrow> 'n run_state \<Rightarrow> (string + guest_exec_outcome) \<times> 'n run_state" where
  "run_wrapped env target key inner connect_timeout s =
     (let started_at = ge_now env (fst s) in
      case ge_run env (ssh_command target key (wrapped_remote inner) False connect_timeout) [] (fst s) of
        (Inl _, n) \<Rightarrow> (Inl ''failed to spawn ssh; is openssh-client installed?'', (n, snd s))
      | (Inr out, n) \<Rightarrow>
          if str_contains WORKSPACE_UNWRITABLE_MARKER (go_stderr out) then
            (Inl (''guest /workspace is not writable by the runner user ('' @ GUEST_USER @ ''); the image must provide a rooms-owned /workspace ''
               @ ''- agent images built with scripts/build-rootfs-alpine.sh carry it, and scripts/bake-rootfs-ssh.sh provisions it into a stock image''), (n, snd s))
          else if \<not> list_ex (prefix EXIT_MARKER) (lines (go_stdout out)) then
            (Inl (''guest exec via SSH failed before wrapper completed (ssh exit '' @ es_text (go_status out) @ ''): '' @ go_stderr out), (n, snd s))
          else (case parse_remote_exit_code env (go_stdout out) of
              Inl e \<Rightarrow> (Inl e, (n, snd s))
            | Inr code \<Rightarrow>
                let x = \<lparr>gx_exit_code = code, gx_status = status_from_exit_code code, gx_started_at = started_at, gx_ended_at = ge_now env n,
                         gx_post_run_error = None\<rparr>
                in (Inr x, (n, Some x))))"

definition run_setup_ssh :: "'n guest_env \<Rightarrow> guest_target \<Rightarrow> string \<Rightarrow> string \<Rightarrow> string \<Rightarrow> nat \<Rightarrow> 'n \<Rightarrow> (string + unit) \<times> 'n" where
  "run_setup_ssh env target key remote what connect_timeout n =
     (case ge_run env (ssh_command target key remote False connect_timeout) [] n of
        (Inl _, n) \<Rightarrow> (Inl (''failed to spawn ssh for '' @ what), n)
      | (Inr out, n) \<Rightarrow>
          if exit_success (go_status out) then (Inr (), n)
          else (Inl (what @ '' failed (exit '' @ es_text (go_status out) @ ''): '' @ go_stderr out), n))"

definition write_guest_file ::
  "'n guest_env \<Rightarrow> guest_target \<Rightarrow> string \<Rightarrow> string \<Rightarrow> string \<Rightarrow> string \<Rightarrow> nat \<Rightarrow> 'n \<Rightarrow> (string + unit) \<times> 'n" where
  "write_guest_file env target key dir name contents connect_timeout n =
     (let remote = ''mkdir -p '' @ dir @ '' && cat > '' @ dir @ ''/'' @ name in
      case ge_feed env (ssh_command target key remote False connect_timeout) contents n of
        (Inl (FeedSpawn _), n) \<Rightarrow> (Inl (''spawn ssh to write '' @ name), n)
      | (Inl (FeedWrite _), n) \<Rightarrow> (Inl (''write '' @ name @ '' to ssh stdin''), n)
      | (Inl (FeedClose _), n) \<Rightarrow> (Inl (''close ssh stdin after '' @ name), n)
      | (Inl (FeedWait _), n) \<Rightarrow> (Inl (''wait on '' @ name @ '' ssh''), n)
      | (Inr out, n) \<Rightarrow>
          if exit_success (go_status out) then (Inr (), n)
          else (Inl (''write '' @ name @ '' via SSH failed (exit '' @ es_text (go_status out) @ ''): '' @ go_stderr out), n))"

definition write_guest_result_json_with_timeout ::
  "'n guest_env \<Rightarrow> guest_target \<Rightarrow> string \<Rightarrow> result_json \<Rightarrow> nat \<Rightarrow> 'n \<Rightarrow> (string + unit) \<times> 'n" where
  "write_guest_result_json_with_timeout env target key result connect_timeout n = (case ge_result_json env result of
     Inl _ \<Rightarrow> (Inl ''serialize result.json'', n)
   | Inr json \<Rightarrow> write_guest_file env target key ''/workspace/out'' ''result.json'' json connect_timeout n)"

definition write_guest_result_json :: "'n guest_env \<Rightarrow> guest_target \<Rightarrow> string \<Rightarrow> result_json \<Rightarrow> 'n \<Rightarrow> (string + unit) \<times> 'n" where
  "write_guest_result_json env target key result n = write_guest_result_json_with_timeout env target key result SSH_AUXILIARY_CONNECT_TIMEOUT n"

definition ensure_guest_artifact_skeleton :: "'n guest_env \<Rightarrow> guest_target \<Rightarrow> string \<Rightarrow> 'n \<Rightarrow> (string + unit) \<times> 'n" where
  "ensure_guest_artifact_skeleton env target key n =
     run_setup_ssh env target key ''mkdir -p /workspace/out/logs && touch /workspace/out/logs/stdout.log /workspace/out/logs/stderr.log''
       ''create cancelled-run artifact skeleton'' SSH_AUXILIARY_CONNECT_TIMEOUT n"

definition exec_in_guest_observed :: "'n guest_env \<Rightarrow> guest_target \<Rightarrow> string \<Rightarrow> string \<Rightarrow> rooms_config \<Rightarrow> 'n run_state \<Rightarrow> (string + guest_exec_outcome) \<times> 'n run_state" where
  "exec_in_guest_observed env target key command c s =
     (let timeout = guest_reach_timeout c in
      and_then (run_wrapped env target key command timeout s) (\<lambda>run s.
      let result = from_exec (gx_exit_code run) (gx_status run) (gx_started_at run) (gx_ended_at run) (guest_command_argv command) in
      and_then (in_run (write_guest_result_json_with_timeout env target key result timeout) s) (\<lambda>_ s. (Inr run, s))))"

subsection \<open>Repositories\<close>

definition resolve_base_command :: "string \<Rightarrow> string \<Rightarrow> string" where
  "resolve_base_command repo revision =
     (let repo = shell_single_quote repo; direct = shell_single_quote (revision @ ''^{commit}'');
          remote = shell_single_quote (''refs/remotes/origin/'' @ revision @ ''^{commit}'')
      in ''git -C '' @ repo @ '' rev-parse --verify --end-of-options '' @ direct @ '' 2>/dev/null || git -C '' @ repo
         @ '' rev-parse --verify --end-of-options '' @ remote)"

definition is_ascii_hexdigit :: "char \<Rightarrow> bool" where
  "is_ascii_hexdigit c \<longleftrightarrow> is_ascii_digit c \<or> ascii_lower c \<in> set ''abcdef''"

definition is_object_id :: "string \<Rightarrow> bool" where
  "is_object_id s \<longleftrightarrow> length s \<in> {40, 64} \<and> list_all is_ascii_hexdigit s"

definition double_quote :: char where "double_quote = CHR 0x22"

definition clone_remote :: "string \<Rightarrow> string \<Rightarrow> string" where
  "clone_remote repo_url base_sha =
     ''rm -rf /workspace/repo && git clone -- '' @ shell_single_quote repo_url @ '' /workspace/repo && base=$(''
     @ resolve_base_command ''/workspace/repo'' base_sha @ '') && git -C /workspace/repo checkout --detach '' @ double_quote # ''$base''
     @ double_quote # '' && git -C /workspace/repo rev-parse HEAD''"

definition clone_repo_in_guest :: "'n guest_env \<Rightarrow> guest_target \<Rightarrow> string \<Rightarrow> string \<Rightarrow> string \<Rightarrow> nat \<Rightarrow> 'n \<Rightarrow> (string + string) \<times> 'n" where
  "clone_repo_in_guest env target key repo_url base_sha connect_timeout n =
     (case ge_run env (ssh_command target key (clone_remote repo_url base_sha) False connect_timeout) [] n of
        (Inl e, n) \<Rightarrow> (Inl (ge_text env e), n)
      | (Inr out, n) \<Rightarrow>
          if \<not> exit_success (go_status out) then (Inl (''clone repo in guest failed: '' @ go_stderr out), n)
          else let base = trim (go_stdout out) in
            if is_object_id base then (Inr base, n) else (Inl ''invalid resolved repository base'', n))"

definition patch_remote :: "string \<Rightarrow> string" where
  "patch_remote pinned_base = ''mkdir -p /workspace/out && cd /workspace/repo && git add -A && git diff --binary --cached ''
     @ shell_single_quote pinned_base @ '' > /workspace/out/result.patch''"

definition generate_result_patch :: "'n guest_env \<Rightarrow> guest_target \<Rightarrow> string \<Rightarrow> string \<Rightarrow> nat \<Rightarrow> 'n \<Rightarrow> (string + unit) \<times> 'n" where
  "generate_result_patch env target key pinned_base connect_timeout n =
     run_setup_ssh env target key (patch_remote pinned_base) ''generate result.patch'' connect_timeout n"

definition exec_repository_command ::
  "'n guest_env \<Rightarrow> guest_target \<Rightarrow> string \<Rightarrow> string \<Rightarrow> string \<times> string \<Rightarrow> rooms_config \<Rightarrow> 'n run_state
     \<Rightarrow> (string + guest_exec_outcome) \<times> 'n run_state" where
  "exec_repository_command env target key command source c s =
     (let (repo, base) = source; timeout = guest_reach_timeout c in
      and_then (in_run (clone_repo_in_guest env target key repo base timeout) s) (\<lambda>pinned_base s.
      and_then (run_wrapped env target key (''cd /workspace/repo && bash -c '' @ shell_single_quote command) timeout s) (\<lambda>run s.
      case in_run (generate_result_patch env target key pinned_base timeout) s of (patch, s) \<Rightarrow>
      let result = (from_exec (gx_exit_code run) (gx_status run) (gx_started_at run) (gx_ended_at run) (guest_command_argv command))
            \<lparr>rj_patch_path := (case patch of Inl _ \<Rightarrow> None | Inr _ \<Rightarrow> Some ''result.patch'')\<rparr> in
      and_then (in_run (write_guest_result_json_with_timeout env target key result timeout) s) (\<lambda>_ s.
      (Inr (run\<lparr>gx_post_run_error := (case patch of Inl e \<Rightarrow> Some e | Inr _ \<Rightarrow> None)\<rparr>), s)))))"

subsection \<open>The cursor runner\<close>

definition stage_cursor_input :: "'n guest_env \<Rightarrow> guest_target \<Rightarrow> string \<Rightarrow> string \<Rightarrow> cursor_meta \<Rightarrow> nat \<Rightarrow> 'n \<Rightarrow> (string + unit) \<times> 'n" where
  "stage_cursor_input env target key task_md meta connect_timeout n =
     and_then (write_guest_file env target key ''/workspace/in'' ''task.md'' task_md connect_timeout n) (\<lambda>_ n.
     case ge_meta_json env meta of
       Inl _ \<Rightarrow> (Inl ''serialize meta.json'', n)
     | Inr json \<Rightarrow> write_guest_file env target key ''/workspace/in'' ''meta.json'' json connect_timeout n)"

definition in_quotes :: "string \<Rightarrow> string" where "in_quotes s = single_quote # s @ [single_quote]"

definition push_remote :: "string \<Rightarrow> string \<Rightarrow> string \<Rightarrow> string" where
  "push_remote repo_url branch pinned_base =
     ''set -e; cd /workspace/repo; git checkout -B '' @ shell_single_quote branch @ ''; git add -A; if ! git diff --cached --quiet; then ''
     @ ''git -c user.email=cursor@rooms.local -c user.name='' @ in_quotes ''rooms cursor agent'' @ '' commit -q -m '' @ in_quotes ''rooms cursor agent run''
     @ '' -m '' @ in_quotes ''Co-authored-by: Cursor <cursoragent@cursor.com>'' @ ''; fi; if [ '' @ double_quote # ''$(git rev-parse HEAD)'' @ double_quote # '' = ''
     @ shell_single_quote pinned_base @ '' ]; then exit 3; fi; git -c credential.helper=''
     @ in_quotes (''!f(){ echo username=x-access-token; echo '' @ double_quote # ''password=$GH_TOKEN'' @ double_quote # ''; }; f'')
     @ '' push '' @ shell_single_quote repo_url @ '' HEAD:'' @ shell_single_quote branch"

definition push_branch_in_guest ::
  "'n guest_env \<Rightarrow> guest_target \<Rightarrow> string \<Rightarrow> string \<Rightarrow> string \<Rightarrow> string \<Rightarrow> nat \<Rightarrow> 'n \<Rightarrow> (string + bool) \<times> 'n" where
  "push_branch_in_guest env target key repo_url branch pinned_base connect_timeout n =
     (case ge_run env (ssh_command target key (push_remote repo_url branch pinned_base) True connect_timeout) [] n of
        (Inl _, n) \<Rightarrow> (Inl ''failed to spawn ssh for push'', n)
      | (Inr out, n) \<Rightarrow>
          if es_code (go_status out) = Some 0 then (Inr True, n)
          else if es_code (go_status out) = Some 3 then (Inr False, n)
          else (Inl (''git push failed (exit '' @ es_text (go_status out) @ ''): '' @ go_stderr out), n))"

text \<open>The push step: only for a requested branch and only after an agent that succeeded.\<close>

definition push_step ::
  "'n guest_env \<Rightarrow> guest_target \<Rightarrow> string \<Rightarrow> cursor_request \<Rightarrow> string \<Rightarrow> nat \<Rightarrow> int \<Rightarrow> 'n run_state \<Rightarrow> (string + string option) \<times> 'n run_state" where
  "push_step env target key req pinned_base timeout exit_code s = (case cr_push_branch req of
     None \<Rightarrow> (Inr None, s)
   | Some branch \<Rightarrow>
       if exit_code \<noteq> 0 then (Inr None, s)
       else (case in_run (push_branch_in_guest env target key (cr_repo_url req) branch pinned_base timeout) s of
           (Inl e, s) \<Rightarrow> (Inl e, s)
         | (Inr pushed, s) \<Rightarrow> (Inr (if pushed then Some branch else None), s)))"

definition exec_cursor_in_guest_observed ::
  "'n guest_env \<Rightarrow> guest_target \<Rightarrow> string \<Rightarrow> cursor_request \<Rightarrow> rooms_config \<Rightarrow> 'n run_state \<Rightarrow> (string + guest_exec_outcome) \<times> 'n run_state" where
  "exec_cursor_in_guest_observed env target key req c s =
     (let timeout = guest_reach_timeout c in
      and_then (in_run (clone_repo_in_guest env target key (cr_repo_url req) (cm_base_sha (cr_meta req)) timeout) s) (\<lambda>pinned_base s.
      and_then (in_run (stage_cursor_input env target key (cr_task_md req) (cr_meta req) timeout) s) (\<lambda>_ s.
      and_then (run_wrapped env target key (''node '' @ CURSOR_RUNNER_JS @ '' < /dev/null'') timeout s) (\<lambda>run s.
      case in_run (generate_result_patch env target key pinned_base timeout) s of (patch, s) \<Rightarrow>
      (case push_step env target key req pinned_base timeout (gx_exit_code run) s of (pushed, s) \<Rightarrow>
      and_then (in_run (run_setup_ssh env target key ''mkdir -p /workspace/out && touch /workspace/out/events.ndjson /workspace/out/summary.md''
          ''ensure cursor output artifacts exist'' timeout) s) (\<lambda>_ s.
      let result = (from_exec (gx_exit_code run) (gx_status run) (gx_started_at run) (gx_ended_at run) cursor_command_argv)
            \<lparr>rj_summary_path := Some ''summary.md'', rj_events_path := Some ''events.ndjson'',
             rj_patch_path := (case patch of Inl _ \<Rightarrow> None | Inr _ \<Rightarrow> Some ''result.patch''),
             rj_pushed_branch := (case pushed of Inl _ \<Rightarrow> None | Inr b \<Rightarrow> b)\<rparr> in
      and_then (in_run (write_guest_result_json_with_timeout env target key result timeout) s) (\<lambda>_ s.
      (Inr (run\<lparr>gx_post_run_error := (case pushed of Inl e \<Rightarrow> Some e | Inr _ \<Rightarrow> None)\<rparr>), s))))))))"

definition exec_observed ::
  "'n guest_env \<Rightarrow> guest_target \<Rightarrow> string \<Rightarrow> room_runner \<Rightarrow> rooms_config \<Rightarrow> 'n \<Rightarrow> (string + guest_exec_outcome) \<times> 'n run_state" where
  "exec_observed env target key r c n = (case r of
     CommandRunner command \<Rightarrow> exec_in_guest_observed env target key command c (n, None)
   | RepositoryCommand command repo_url base_sha \<Rightarrow> exec_repository_command env target key command (repo_url, base_sha) c (n, None)
   | CursorRunner req \<Rightarrow> exec_cursor_in_guest_observed env target key req c (n, None))"

subsection \<open>Collecting the output\<close>

definition COLLECT_REMOTE :: string where
  "COLLECT_REMOTE = ''if [ ! -d /workspace/out ]; then exit 0; fi; if command -v sudo >/dev/null 2>&1 && sudo -n true 2>/dev/null; then ''
     @ ''exec sudo -n tar cf - -C /workspace/out .; fi; exec tar cf - -C /workspace/out .''"

definition path_ancestors :: "string \<Rightarrow> path_component list list" where
  "path_ancestors path = filter (\<lambda>p. p \<noteq> []) (rev (prefixes (components path)))"

text \<open>An ancestor is given by its components and displayed from them.\<close>

fun create_output_directories :: "'n guest_env \<Rightarrow> path_component list list \<Rightarrow> path_component list list \<times> 'n \<Rightarrow> (string + unit) \<times> path_component list list \<times> 'n" where
  "create_output_directories env [] s = (Inr (), s)"
| "create_output_directories env (d # ds) s = (case ge_create_dir env d (snd s) of
     (Inr _, n) \<Rightarrow> create_output_directories env ds (fst s @ [d], n)
   | (Inl AlreadyExists, n) \<Rightarrow> create_output_directories env ds (fst s, n)
   | (Inl _, n) \<Rightarrow> (Inl (''create output '' @ path_text d), (fst s, n)))"

definition create_output_directory :: "'n guest_env \<Rightarrow> string \<Rightarrow> path_component list list \<times> 'n \<Rightarrow> (string + unit) \<times> path_component list list \<times> 'n" where
  "create_output_directory env path s = create_output_directories env (rev (path_ancestors path)) s"

text \<open>A word of \<open>tar -tv\<close> that names an absolute path or climbs.\<close>

definition unsafe_token :: "string \<Rightarrow> bool" where
  "unsafe_token tok \<longleftrightarrow> prefix [slash] tok \<or> ''..'' \<in> set (split_on slash tok)"

definition tar_member_is_safe :: "string \<Rightarrow> bool" where
  "tar_member_is_safe line \<longleftrightarrow> (case line of c # _ \<Rightarrow> c = CHR ''-'' \<or> c = CHR ''d'' | [] \<Rightarrow> False)
     \<and> \<not> list_ex unsafe_token (split_whitespace line)"

definition run_host_tar :: "'n guest_env \<Rightarrow> string \<Rightarrow> string list \<Rightarrow> 'n \<Rightarrow> (string + guest_output) \<times> 'n" where
  "run_host_tar env archive args n = (case ge_feed env \<lparr>cmd_program = ''tar'', cmd_args = args\<rparr> archive n of
     (Inr out, n) \<Rightarrow> (Inr out, n)
   | (Inl (FeedSpawn _), n) \<Rightarrow> (Inl ''failed to spawn host tar'', n)
   | (Inl _, n) \<Rightarrow> (Inl ''failed to wait for host tar'', n))"

definition ensure_tar_regular_only :: "'n guest_env \<Rightarrow> string \<Rightarrow> 'n \<Rightarrow> (string + unit) \<times> 'n" where
  "ensure_tar_regular_only env archive n = (case run_host_tar env archive [''-tvf'', ''-''] n of
     (Inl e, n) \<Rightarrow> (Inl e, n)
   | (Inr listing, n) \<Rightarrow>
       if \<not> exit_success (go_status listing) then
         (Inl (''could not list guest tar (exit '' @ es_text (go_status listing) @ ''): '' @ go_stderr listing), n)
       else (case find (\<lambda>line. \<not> tar_member_is_safe line) (lines (go_stdout listing)) of
           Some line \<Rightarrow> (Inl (''refusing unsafe guest archive member: '' @ line), n) | None \<Rightarrow> (Inr (), n)))"

definition EXTRACT_ARGS :: "string list" where
  "EXTRACT_ARGS = [''--no-same-owner'', ''--no-same-permissions'', ''-xf'', ''-'', ''-C'']"

definition extract_archive :: "'n guest_env \<Rightarrow> string \<Rightarrow> string \<Rightarrow> 'n \<Rightarrow> (string + unit) \<times> 'n" where
  "extract_archive env archive host_dir n =
     and_then (ensure_tar_regular_only env archive n) (\<lambda>_ n.
     and_then (run_host_tar env archive (EXTRACT_ARGS @ [host_dir]) n) (\<lambda>extract n.
     if \<not> exit_success (go_status extract) then
       (Inl (''host tar extract failed (exit '' @ es_text (go_status extract) @ ''): '' @ go_stderr extract), n)
     else (case ge_run env \<lparr>cmd_program = ''chmod'', cmd_args = [''-R'', ''u+rwX,a-s'', ''--'', host_dir]\<rparr> [] n of
         (Inl e, n) \<Rightarrow> (Inl (ge_text env e), n)
       | (Inr modes, n) \<Rightarrow> if exit_success (go_status modes) then (Inr (), n)
           else (Inl ''normalize collected artifact permissions failed'', n))))"

definition collect_out_to_host_observed ::
  "'n guest_env \<Rightarrow> guest_target \<Rightarrow> string \<Rightarrow> string \<Rightarrow> 'n \<Rightarrow> (string + unit) \<times> path_component list list \<times> 'n" where
  "collect_out_to_host_observed env target key host_dir n = (case ge_remove_dir_all env host_dir n of
     (r, n) \<Rightarrow>
       if r \<noteq> Inr () \<and> r \<noteq> Inl NotFound then (Inl (''clear --out dir '' @ host_dir), [], n)
       else and_then (create_output_directory env host_dir ([], n)) (\<lambda>_ (created, n).
         case ge_run env (ssh_command target key COLLECT_REMOTE False SSH_AUXILIARY_CONNECT_TIMEOUT) [] n of
           (Inl _, n) \<Rightarrow> (Inl ''failed to run guest tar over ssh'', created, n)
         | (Inr out, n) \<Rightarrow>
             if \<not> exit_success (go_status out) then
               (Inl (''guest tar failed (exit '' @ es_text (go_status out) @ ''): '' @ go_stderr out), created, n)
             else if go_stdout out = [] then (Inr (), created, n)
             else (case extract_archive env (go_stdout out) host_dir n of (r, n) \<Rightarrow> (r, created, n))))"

definition return_artifact_ownership :: "'n guest_env \<Rightarrow> string list \<Rightarrow> bool \<Rightarrow> 'n \<Rightarrow> (string + unit) \<times> 'n" where
  "return_artifact_ownership env paths recursive n =
     (if paths = [] then (Inr (), n)
      else case (ge_var env ''SUDO_UID'', ge_var env ''SUDO_GID'') of
        (Some uid, Some gid) \<Rightarrow> (case (parse_u32 uid, parse_u32 gid) of
            (Some u, Some g) \<Rightarrow>
              (case ge_run env \<lparr>cmd_program = ''chown'', cmd_args = [if recursive then ''-hR'' else ''-h'', ''--'',
                      show_nat (unat u) @ '':'' @ show_nat (unat g)] @ paths\<rparr> [] n of
                 (Inl e, n) \<Rightarrow> (Inl (ge_text env e), n)
               | (Inr out, n) \<Rightarrow> if exit_success (go_status out) then (Inr (), n) else (Inl (''return --out ownership: '' @ go_stderr out), n))
          | _ \<Rightarrow> (Inl ''invalid digit found in string'', n))
      | _ \<Rightarrow> (Inr (), n))"

definition collect_out_to_host :: "'n guest_env \<Rightarrow> guest_target \<Rightarrow> string \<Rightarrow> string \<Rightarrow> 'n \<Rightarrow> (string + unit) \<times> 'n" where
  "collect_out_to_host env target key host_dir n = (case collect_out_to_host_observed env target key host_dir n of
     (result, created, n) \<Rightarrow>
       (case and_then (if components host_dir \<in> set created then return_artifact_ownership env [host_dir] True n else (Inr (), n)) (\<lambda>_ n.
          return_artifact_ownership env (map path_text (filter (\<lambda>p. p \<noteq> components host_dir) created)) False n) of
          (ownership, n) \<Rightarrow> (case result of Inl e \<Rightarrow> (Inl e, n) | Inr _ \<Rightarrow> (ownership, n))))"

text \<open>The temporary file has the artifact's name with \<open>.tmp\<close> appended.\<close>

definition write_host_artifact_atomic :: "'n guest_env \<Rightarrow> string \<Rightarrow> string \<Rightarrow> string \<Rightarrow> 'n \<Rightarrow> (string + unit) \<times> 'n" where
  "write_host_artifact_atomic env dir name contents n =
     (let final_path = path_join dir name; tmp_path = path_join dir (name @ ''.tmp'') in
      and_then (map_err (\<lambda>_. ''write '' @ tmp_path) (ge_write_file env tmp_path contents n)) (\<lambda>_ n.
      map_err (\<lambda>_. ''rename into '' @ final_path) (ge_rename env tmp_path final_path n)))"

definition bytes_of :: "string \<Rightarrow> bytes" where "bytes_of = map of_char"

definition backslash :: char where "backslash = CHR 0x5C"

definition ENUMERATE_OVERLAY :: string where
  "ENUMERATE_OVERLAY = ''sudo bash -c '' @ [single_quote] @ ''UP=/oldroot/mnt/upper; LOW=/oldroot'' @ [newline] @ ''if [ ! -d '' @ [double_quote] @ ''$UP'' @ [double_quote]
      @ '' ]; then printf NOOVERLAY; exit 0; fi'' @ [newline] @ ''find '' @ [double_quote] @ ''$UP'' @ [double_quote] @ '' '' @ [backslash]
      @ ''( -type f -o -type l -o -type b -o -type p -o -type s -o -type c '' @ [backslash] @ '') -print0 | while IFS= read -r -d '' @ [double_quote]
      @ [double_quote] @ '' p; do'' @ [newline] @ ''  rel=${p#'' @ [double_quote] @ ''$UP'' @ [double_quote] @ ''/}'' @ [newline] @ ''  if [ -c ''
      @ [double_quote] @ ''$p'' @ [double_quote] @ '' ] && [ '' @ [double_quote] @ ''$(stat -c %t '' @ [double_quote] @ ''$p'' @ [double_quote]
      @ '' 2>/dev/null)'' @ [double_quote] @ '' = 0 ] && [ '' @ [double_quote] @ ''$(stat -c %T '' @ [double_quote] @ ''$p'' @ [double_quote]
      @ '' 2>/dev/null)'' @ [double_quote] @ '' = 0 ]; then printf '' @ [double_quote] @ ''D'' @ [backslash] @ ''t%s'' @ [backslash] @ ''0'' @ [double_quote]
      @ '' '' @ [double_quote] @ ''$rel'' @ [double_quote] @ [newline] @ ''  elif [ -e '' @ [double_quote] @ ''$LOW/$rel'' @ [double_quote] @ '' ] || [ -L ''
      @ [double_quote] @ ''$LOW/$rel'' @ [double_quote] @ '' ]; then printf '' @ [double_quote] @ ''M'' @ [backslash] @ ''t%s'' @ [backslash] @ ''0''
      @ [double_quote] @ '' '' @ [double_quote] @ ''$rel'' @ [double_quote] @ [newline] @ ''  else printf '' @ [double_quote] @ ''A'' @ [backslash] @ ''t%s''
      @ [backslash] @ ''0'' @ [double_quote] @ '' '' @ [double_quote] @ ''$rel'' @ [double_quote] @ ''; fi'' @ [newline] @ ''done'' @ [single_quote]"

definition collect_changeset_to_host :: "'n guest_env \<Rightarrow> guest_target \<Rightarrow> string \<Rightarrow> string \<Rightarrow> 'n \<Rightarrow> (string + unit) \<times> 'n" where
  "collect_changeset_to_host env target key host_dir n =
     (case ge_run env (ssh_command target key ENUMERATE_OVERLAY False SSH_AUXILIARY_CONNECT_TIMEOUT) [] n of
        (Inl _, n) \<Rightarrow> (Inl ''failed to enumerate overlay over ssh'', n)
      | (Inr out, n) \<Rightarrow>
          if \<not> exit_success (go_status out) then
            (Inl (''guest overlay enumeration failed (exit '' @ es_text (go_status out) @ ''): '' @ go_stderr out), n)
          else (case ge_changeset_json env (parse_changeset_stream (bytes_of (go_stdout out))) of
              Inl _ \<Rightarrow> (Inl ''serialize changeset'', n)
            | Inr json \<Rightarrow> write_host_artifact_atomic env host_dir ''changeset.json'' json n))"

subsection \<open>The provisioning input of a base\<close>

definition CREDENTIAL_MARKERS :: "string list" where
  "CREDENTIAL_MARKERS = [''token='', ''password='', ''secret='', ''oauth='', ''api_key='', ''authorization:'', ''.netrc'', ''.ssh/'', ''.git-credentials'',
     ''credential.helper'', ''gh auth'']"

definition validate_neutral_warm :: "'n guest_env \<Rightarrow> string \<Rightarrow> firecracker_error + unit" where
  "validate_neutral_warm env command = (case find (\<lambda>marker. str_contains marker (map ascii_lower command)) CREDENTIAL_MARKERS of
     Some marker \<Rightarrow> Inl (FcInternal (''base warm-up refuses credential source marker '' @ ge_debug env marker @ ''; authenticated warm-up runs after restore''))
   | None \<Rightarrow> Inr ())"

definition repo_url_has_userinfo :: "string \<Rightarrow> bool" where
  "repo_url_has_userinfo repo = (case split_once_str ''://'' repo of
     None \<Rightarrow> False | Some (_, rest) \<Rightarrow> CHR ''@'' \<in> set (hd (split_on slash rest)))"

definition git_stdout :: "'n guest_env \<Rightarrow> string \<Rightarrow> string list \<Rightarrow> string \<Rightarrow> 'n \<Rightarrow> (firecracker_error + string) \<times> 'n" where
  "git_stdout env cwd args action n = (case ge_git env cwd args n of
     (Inl e, n) \<Rightarrow> (Inl (FcInternal (action @ '': '' @ ge_text env e)), n)
   | (Inr out, n) \<Rightarrow> if exit_success (go_status out) then (Inr (trim (go_stdout out)), n)
       else (Inl (FcInternal (action @ '': '' @ trim (go_stderr out))), n))"

definition run_git :: "'n guest_env \<Rightarrow> string \<Rightarrow> string list \<Rightarrow> string \<Rightarrow> 'n \<Rightarrow> (firecracker_error + unit) \<times> 'n" where
  "run_git env cwd args action n = and_then (git_stdout env cwd args action n) (\<lambda>_ n. (Inr (), n))"

definition bundle_pinned_head :: "'n guest_env \<Rightarrow> string \<Rightarrow> string \<Rightarrow> string \<Rightarrow> string \<Rightarrow> 'n \<Rightarrow> (firecracker_error + string) \<times> 'n" where
  "bundle_pinned_head env repo_dir staging revision bundle n =
     and_then (git_stdout env repo_dir [''rev-parse'', ''--verify'', ''--end-of-options'', revision @ ''^{commit}''] ''resolve --base-sha on host'' n) (\<lambda>commit n.
     if \<not> is_object_id commit then (Inl (FcInternal (''--base-sha '' @ revision @ '' did not resolve to a full commit id'')), n)
     else
       and_then (run_git env ''.'' [''clone'', ''--quiet'', ''--bare'', ''--shared'', ''--'', repo_dir, staging] ''stage pinned base repository'' n) (\<lambda>_ n.
       and_then (run_git env staging [''update-ref'', ''--no-deref'', ''HEAD'', commit] ''pin base repository HEAD'' n) (\<lambda>_ n.
       and_then (run_git env staging [''bundle'', ''create'', bundle, ''HEAD''] ''create pinned repository bundle'' n) (\<lambda>_ n. (Inr commit, n)))))"

text \<open>What runs while the temporary directory exists.\<close>

definition bundle_in :: "'n guest_env \<Rightarrow> string \<Rightarrow> string \<Rightarrow> string option \<Rightarrow> 'n \<Rightarrow> (firecracker_error + string \<times> string option) \<times> 'n" where
  "bundle_in env temp repo base_revision n =
     (let bundle_path = path_join temp ''repo.bundle''; mirror = path_join temp ''repo.git'' in
      and_then (if ge_exists env repo n then (map_sum FcIo id (ge_canonicalize env repo n), n)
          else and_then (run_git env ''.'' [''clone'', ''--mirror'', ''--'', repo, mirror] ''resolve base repository on host'' n) (\<lambda>_ n. (Inr mirror, n)))
        (\<lambda>repo_dir n.
      and_then (case base_revision of
          None \<Rightarrow> and_then (run_git env repo_dir [''bundle'', ''create'', bundle_path, ''--all''] ''create credential-free repository bundle'' n) (\<lambda>_ n. (Inr None, n))
        | Some revision \<Rightarrow> and_then (bundle_pinned_head env repo_dir (path_join temp ''pinned.git'') revision bundle_path n) (\<lambda>commit n. (Inr (Some commit), n)))
        (\<lambda>pinned n. (map_sum FcIo (\<lambda>contents. (contents, pinned)) (ge_read env bundle_path n), n))))"

definition create_repo_bundle :: "'n guest_env \<Rightarrow> string \<Rightarrow> string option \<Rightarrow> 'n \<Rightarrow> (firecracker_error + string \<times> string option) \<times> 'n" where
  "create_repo_bundle env repo base_revision n =
     (if repo_url_has_userinfo repo then (Inl (FcInternal ''base --repo URL must not embed credentials''), n)
      else let temp = ge_temp env n in
        and_then (map_err FcIo (ge_create_dir env (components temp) n)) (\<lambda>_ n.
        case bundle_in env temp repo base_revision n of (r, n) \<Rightarrow> (r, snd (ge_remove_dir_all env temp n))))"

definition prepare_base_provisioning ::
  "'n guest_env \<Rightarrow> string option \<Rightarrow> string option \<Rightarrow> string option \<Rightarrow> 'n \<Rightarrow> (firecracker_error + provisioning_payload) \<times> 'n" where
  "prepare_base_provisioning env repo base_revision warm n =
     (case (case warm of None \<Rightarrow> Inr () | Some command \<Rightarrow> validate_neutral_warm env command) of
        Inl e \<Rightarrow> (Inl e, n)
      | Inr _ \<Rightarrow> (case repo of
          None \<Rightarrow> if base_revision \<noteq> None then (Inl (FcInternal ''--base-sha requires --repo''), n) else (Inr (provisioning_new [] warm), n)
        | Some repo \<Rightarrow> and_then (create_repo_bundle env repo base_revision n) (\<lambda>(bundle, pinned) n.
            (Inr (case pinned of None \<Rightarrow> provisioning_new bundle warm | Some commit \<Rightarrow> pinned_to commit (provisioning_new bundle warm)), n))))"

subsection \<open>How a shell reads a command line\<close>

text \<open>Token recognition of a POSIX shell (2.2 and 2.3 of its specification): words are separated by blanks and operator characters,
  \<open>#\<close> at the start of a word begins a comment, a backslash quotes one character, single quotes quote everything, double quotes all but
  \<open>$\<close>, backquote, \<open>"\<close> and backslash. Each character of a word carries whether it is quoted: only unquoted ones are subject to expansion.
  \<open>None\<close> is a line that ends inside a quotation.\<close>

datatype shell_token = Word "(bool \<times> char) list" | Operator char

abbreviation backquote :: char where "backquote \<equiv> CHR 0x60"

definition is_operator :: "char \<Rightarrow> bool" where "is_operator c \<longleftrightarrow> c \<in> set ('';&|<>()'' @ [newline])"
definition is_blank :: "char \<Rightarrow> bool" where "is_blank c \<longleftrightarrow> c = space \<or> c = tab"
definition is_plain :: "char \<Rightarrow> bool" where
  "is_plain c \<longleftrightarrow> \<not> is_operator c \<and> \<not> is_blank c \<and> c \<notin> {single_quote, double_quote, backslash}"

fun flush :: "(bool \<times> char) list option \<Rightarrow> shell_token list" where
  "flush None = []" | "flush (Some w) = [Word w]"

fun extend :: "(bool \<times> char) list option \<Rightarrow> (bool \<times> char) list \<Rightarrow> (bool \<times> char) list option" where
  "extend None x = Some x" | "extend (Some w) x = Some (w @ x)"

datatype quotation = Unquoted | InSingle | InDouble | InComment

fun shell_tokens :: "quotation \<Rightarrow> (bool \<times> char) list option \<Rightarrow> string \<Rightarrow> shell_token list option" where
  "shell_tokens Unquoted w [] = Some (flush w)"
| "shell_tokens InComment w [] = Some (flush w)"
| "shell_tokens InSingle w [] = None"
| "shell_tokens InDouble w [] = None"
| "shell_tokens InComment w (c # s) = (if c = newline then map_option ((#) (Operator c)) (shell_tokens Unquoted None s) else shell_tokens InComment w s)"
| "shell_tokens InSingle w (c # s) = (if c = single_quote then shell_tokens Unquoted w s else shell_tokens InSingle (extend w [(True, c)]) s)"
| "shell_tokens InDouble w (c # s) =
     (if c = double_quote then shell_tokens Unquoted w s
      else if c = backslash then (case s of
          d # t \<Rightarrow> if d \<in> {CHR ''$'', backquote, double_quote, backslash} then shell_tokens InDouble (extend w [(True, d)]) t
            else shell_tokens InDouble (extend w [(True, c), (True, d)]) t
        | [] \<Rightarrow> None)
      else shell_tokens InDouble (extend w [(c \<noteq> CHR ''$'' \<and> c \<noteq> backquote, c)]) s)"
| "shell_tokens Unquoted w (c # s) =
     (if c = single_quote then shell_tokens InSingle (extend w []) s
      else if c = double_quote then shell_tokens InDouble (extend w []) s
      else if c = backslash then (case s of d # t \<Rightarrow> shell_tokens Unquoted (extend w [(True, d)]) t | [] \<Rightarrow> Some (flush (extend w [(True, c)])))
      else if is_blank c then map_option ((@) (flush w)) (shell_tokens Unquoted None s)
      else if is_operator c then map_option (\<lambda>ts. flush w @ Operator c # ts) (shell_tokens Unquoted None s)
      else if c = CHR ''#'' \<and> w = None then shell_tokens InComment None s
      else shell_tokens Unquoted (extend w [(False, c)]) s)"

abbreviation literal :: "string \<Rightarrow> (bool \<times> char) list" where "literal s \<equiv> map (Pair True) s"

lemma extend_extend [simp]: "extend (extend w x) y = extend w (x @ y)" by (cases w) auto

lemma quote_chars [simp]: "single_quote \<noteq> backslash" "backslash \<noteq> single_quote" "single_quote \<noteq> double_quote" "double_quote \<noteq> single_quote"
  "backslash \<noteq> double_quote" "double_quote \<noteq> backslash"
  by (simp_all add: single_quote_def backslash_def double_quote_def)

lemma escaped_chars: "shell_tokens InSingle (Some w) (concat (map escape_quote s) @ t) = shell_tokens InSingle (Some (w @ literal s)) t"
proof (induction s arbitrary: w)
  case (Cons c s)
  show ?case using Cons.IH[of "w @ [(True, c)]"] by (cases "c = single_quote") (simp_all add: escape_quote_def backslash_def[symmetric])
qed simp

text \<open>Quoted text is one word, whatever it contains, and the shell goes on behind it unquoted.\<close>

lemma shell_single_quote_word: "shell_tokens Unquoted w (shell_single_quote s @ t) = shell_tokens Unquoted (extend w (literal s)) t"
  by (cases w) (simp_all add: shell_single_quote_def escaped_chars)

lemma plain_char:
  "is_plain c \<Longrightarrow> c \<noteq> CHR ''#'' \<or> w \<noteq> None \<Longrightarrow> shell_tokens Unquoted w (c # t) = shell_tokens Unquoted (extend w [(False, c)]) t"
  by (auto simp: is_plain_def)

text \<open>Plain characters continue a word.\<close>

lemma plain_word: "list_all is_plain x \<Longrightarrow> shell_tokens Unquoted (Some w) (x @ t) = shell_tokens Unquoted (Some (w @ map (Pair False) x)) t"
proof (induction x arbitrary: w)
  case (Cons c x)
  then show ?case using Cons.IH[of "w @ [(False, c)]"] by (simp add: is_plain_def)
qed simp

definition bare :: "string \<Rightarrow> shell_token" where "bare s = Word (map (Pair False) s)"

lemmas token_simps = is_blank_def is_operator_def single_quote_def double_quote_def backslash_def

lemma wrapped_tokens:
  "shell_tokens Unquoted None (wrapped_remote inner) =
     Some (map bare [''if'', ''!'', ''mkdir'', ''-p'', ''/workspace/out/logs''] @ [Operator (CHR '';'')]
       @ map bare [''then'', ''echo'', WORKSPACE_UNWRITABLE_MARKER] @ map Operator ''>&'' @ [bare ''2'', Operator (CHR '';'')]
       @ map bare [''exit'', ''1''] @ [Operator (CHR '';''), bare ''fi'', Operator (CHR '';'')] @ map bare [''bash'', ''-c'']
       @ [Word (literal inner), Operator (CHR ''>''), bare ''/workspace/out/logs/stdout.log'', bare ''2'', Operator (CHR ''>''),
          bare ''/workspace/out/logs/stderr.log'', Operator (CHR '';''), bare ''echo'', bare ''EXIT=$?''])"
  unfolding wrapped_remote_def WORKSPACE_UNWRITABLE_MARKER_def
  by (simp add: token_simps shell_single_quote_word bare_def)

lemma patch_tokens:
  "shell_tokens Unquoted None (patch_remote base) =
     Some (map bare [''mkdir'', ''-p'', ''/workspace/out''] @ map Operator ''&&'' @ map bare [''cd'', ''/workspace/repo''] @ map Operator ''&&''
       @ map bare [''git'', ''add'', ''-A''] @ map Operator ''&&'' @ map bare [''git'', ''diff'', ''--binary'', ''--cached'']
       @ [Word (literal base), Operator (CHR ''>''), bare ''/workspace/out/result.patch''])"
  unfolding patch_remote_def by (simp add: token_simps shell_single_quote_word bare_def)

lemma clone_tokens:
  "shell_tokens Unquoted None (clone_remote url revision) =
     Some (map bare [''rm'', ''-rf'', ''/workspace/repo''] @ map Operator ''&&'' @ map bare [''git'', ''clone'', ''--''] @ [Word (literal url), bare ''/workspace/repo'']
       @ map Operator ''&&'' @ [bare ''base=$'', Operator (CHR ''(''), bare ''git'', bare ''-C'', Word (literal ''/workspace/repo'')]
       @ map bare [''rev-parse'', ''--verify'', ''--end-of-options''] @ [Word (literal (revision @ ''^{commit}'')), bare ''2'', Operator (CHR ''>''), bare ''/dev/null'']
       @ map Operator ''||'' @ [bare ''git'', bare ''-C'', Word (literal ''/workspace/repo'')] @ map bare [''rev-parse'', ''--verify'', ''--end-of-options'']
       @ [Word (literal (''refs/remotes/origin/'' @ revision @ ''^{commit}'')), Operator (CHR '')'')] @ map Operator ''&&''
       @ map bare [''git'', ''-C'', ''/workspace/repo'', ''checkout'', ''--detach''] @ [Word ((False, CHR ''$'') # literal ''base'')] @ map Operator ''&&''
       @ map bare [''git'', ''-C'', ''/workspace/repo'', ''rev-parse'', ''HEAD''])"
  unfolding clone_remote_def resolve_base_command_def Let_def by (simp add: token_simps shell_single_quote_word bare_def)

text \<open>What the push command does with the agent's changes, and the helper that hands git the token.\<close>

definition commit_tokens :: "shell_token list" where
  "commit_tokens =
     map bare [''git'', ''add'', ''-A''] @ [Operator (CHR '';'')] @ map bare [''if'', ''!'', ''git'', ''diff'', ''--cached'', ''--quiet''] @ [Operator (CHR '';'')]
     @ map bare [''then'', ''git'', ''-c'', ''user.email=cursor@rooms.local'', ''-c'']
     @ [Word (map (Pair False) ''user.name='' @ literal ''rooms cursor agent'')] @ map bare [''commit'', ''-q'', ''-m''] @ [Word (literal ''rooms cursor agent run''), bare ''-m'',
        Word (literal ''Co-authored-by: Cursor <cursoragent@cursor.com>''), Operator (CHR '';''), bare ''fi'', Operator (CHR '';'')]
     @ map bare [''if'', ''[''] @ [Word ((False, CHR ''$'') # literal ''(git rev-parse HEAD)'')]"

definition credential_helper :: string where
  "credential_helper = ''!f(){ echo username=x-access-token; echo '' @ double_quote # ''password=$GH_TOKEN'' @ double_quote # ''; }; f''"

lemma push_tokens:
  "shell_tokens Unquoted None (push_remote url branch base) =
     Some (map bare [''set'', ''-e''] @ [Operator (CHR '';'')] @ map bare [''cd'', ''/workspace/repo''] @ [Operator (CHR '';'')]
       @ map bare [''git'', ''checkout'', ''-B''] @ [Word (literal branch), Operator (CHR '';'')] @ commit_tokens
       @ [bare ''='', Word (literal base), bare '']'', Operator (CHR '';'')]
       @ map bare [''then'', ''exit'', ''3''] @ [Operator (CHR '';''), bare ''fi'', Operator (CHR '';'')] @ map bare [''git'', ''-c'']
       @ [Word (map (Pair False) ''credential.helper='' @ literal credential_helper)]
       @ [bare ''push'', Word (literal url), Word (map (Pair False) ''HEAD:'' @ literal branch)])"
  unfolding push_remote_def in_quotes_def commit_tokens_def credential_helper_def
  by (simp add: token_simps shell_single_quote_word shell_single_quote_word[where t = "[]", simplified] bare_def)

text \<open>C33. Untrusted text in a command line stays one argument. However the command, the repository URL, the revision or the branch is written, the
  shell in the guest reads the wrapper, the clone, the patch and the push command as one fixed list of tokens with that text in it as
  (the end of) a quoted word: nothing of it is expanded, ends the word or starts a command, and the tokens behind it are read as meant.\<close>

theorem untrusted_text_is_one_word:
  "(\<exists>a b. \<forall>inner. shell_tokens Unquoted None (wrapped_remote inner) = Some (a @ Word (literal inner) # b))
    \<and> (\<exists>a b c d. \<forall>url revision. shell_tokens Unquoted None (clone_remote url revision) =
         Some (a @ Word (literal url) # b @ Word (literal (revision @ ''^{commit}'')) # c @ Word (literal (''refs/remotes/origin/'' @ revision @ ''^{commit}'')) # d))
    \<and> (\<exists>a b. \<forall>base. shell_tokens Unquoted None (patch_remote base) = Some (a @ Word (literal base) # b))
    \<and> (\<exists>a b c. \<forall>url branch base. shell_tokens Unquoted None (push_remote url branch base) =
         Some (a @ Word (literal branch) # b @ Word (literal base) # c @ [Word (literal url), Word (map (Pair False) ''HEAD:'' @ literal branch)]))"
proof (intro conjI)
  let ?semi = "Operator (CHR '';'')" and ?and = "map Operator ''&&''"
  show "\<exists>a b. \<forall>inner. shell_tokens Unquoted None (wrapped_remote inner) = Some (a @ Word (literal inner) # b)"
    by (rule exI[of _ "map bare [''if'', ''!'', ''mkdir'', ''-p'', ''/workspace/out/logs''] @ [?semi]
       @ map bare [''then'', ''echo'', WORKSPACE_UNWRITABLE_MARKER] @ map Operator ''>&'' @ [bare ''2'', ?semi]
       @ map bare [''exit'', ''1''] @ [?semi, bare ''fi'', ?semi] @ map bare [''bash'', ''-c'']"]) (rule exI, simp add: wrapped_tokens)
  show "\<exists>a b. \<forall>base. shell_tokens Unquoted None (patch_remote base) = Some (a @ Word (literal base) # b)"
    by (rule exI[of _ "map bare [''mkdir'', ''-p'', ''/workspace/out''] @ ?and @ map bare [''cd'', ''/workspace/repo''] @ ?and
       @ map bare [''git'', ''add'', ''-A''] @ ?and @ map bare [''git'', ''diff'', ''--binary'', ''--cached'']"]) (rule exI, simp add: patch_tokens)
  show "\<exists>a b c d. \<forall>url revision. shell_tokens Unquoted None (clone_remote url revision) =
         Some (a @ Word (literal url) # b @ Word (literal (revision @ ''^{commit}'')) # c @ Word (literal (''refs/remotes/origin/'' @ revision @ ''^{commit}'')) # d)"
    by (rule exI[of _ "map bare [''rm'', ''-rf'', ''/workspace/repo''] @ ?and @ map bare [''git'', ''clone'', ''--'']"],
        rule exI[of _ "bare ''/workspace/repo'' # ?and @ [bare ''base=$'', Operator (CHR ''(''), bare ''git'', bare ''-C'', Word (literal ''/workspace/repo'')]
          @ map bare [''rev-parse'', ''--verify'', ''--end-of-options'']"],
        rule exI[of _ "[bare ''2'', Operator (CHR ''>''), bare ''/dev/null''] @ map Operator ''||'' @ [bare ''git'', bare ''-C'', Word (literal ''/workspace/repo'')]
          @ map bare [''rev-parse'', ''--verify'', ''--end-of-options'']"]) (rule exI, simp add: clone_tokens)
  show "\<exists>a b c. \<forall>url branch base. shell_tokens Unquoted None (push_remote url branch base) =
         Some (a @ Word (literal branch) # b @ Word (literal base) # c @ [Word (literal url), Word (map (Pair False) ''HEAD:'' @ literal branch)])"
    by (rule exI[of _ "map bare [''set'', ''-e''] @ [?semi] @ map bare [''cd'', ''/workspace/repo''] @ [?semi] @ map bare [''git'', ''checkout'', ''-B'']"],
        rule exI[of _ "[?semi] @ commit_tokens @ [bare ''='']"], rule exI) (simp add: push_tokens)
qed

subsection \<open>Readiness\<close>

lemma ssh_round_signals:
  assumes "ssh_round env target key c ping deadline seen last_err obs n = (r, obs', n')" and "obs = (if seen then [GuestReady] else [])"
  shows "case r of
      Inl (Inr _) \<Rightarrow> obs' = [GuestReady, SshReady]
    | Inl (Inl _) \<Rightarrow> obs' = obs
    | Inr (seen', _) \<Rightarrow> obs' = (if seen' then [GuestReady] else []) \<and> (ping \<or> seen' = seen)"
  using assms
  by (auto simp: ssh_round_def ready_signals_def Let_def split: if_splits prod.splits sum.splits option.splits bool.splits)

lemma ssh_round_clock:
  assumes "\<And>d cmd n. ge_clock env n \<le> ge_clock env (snd (ge_limited env d cmd n))"
    and "ssh_round env target key c ping deadline seen last_err obs n = (Inr x, obs', n')"
  shows "ge_clock env n \<le> ge_clock env n'" "ge_clock env n < deadline"
proof -
  have s: "ge_clock env n \<le> ge_clock env (snd (probe_ssh_once env target key a n))" for a n
    using assms(1)[of n a "ssh_probe_command target key a"] by (auto simp: probe_ssh_once_def split: prod.splits option.splits sum.splits)
  have p: "ge_clock env n \<le> ge_clock env (snd (probe_ping env target a n))" for a n
    using assms(1)[of n a "ping_command target"] by (auto simp: probe_ping_def split: prod.splits option.splits sum.splits)
  show "ge_clock env n < deadline" using assms(2) by (auto simp: ssh_round_def split: if_splits)
  obtain q n1 where q: "probe_ssh_once env target key (min (deadline - ge_clock env n) SSH_PROBE_ATTEMPT_TIMEOUT) n = (q, n1)" by fastforce
  have "ge_clock env n \<le> ge_clock env n1" using s[of n] q by (metis snd_conv)
  moreover have "ge_clock env n1 \<le> ge_clock env n'"
    using assms(2) q p[of n1 "deadline - ge_clock env n1"]
    by (auto simp: ssh_round_def Let_def split: if_splits prod.splits sum.splits option.splits bool.splits)
  ultimately show "ge_clock env n \<le> ge_clock env n'" by simp
qed

lemma ssh_rounds_end:
  assumes probe: "\<And>d cmd n. ge_clock env n \<le> ge_clock env (snd (ge_limited env d cmd n))"
    and sleep: "\<And>d n. ge_clock env n + d \<le> ge_clock env (ge_sleep env d n)" and poll: "0 < guest_reach_poll_interval c"
  shows "obs = (if seen then [GuestReady] else []) \<Longrightarrow>
    \<exists>r obs' n'. ssh_rounds env target key c ping deadline seen last_err obs n = Some (r, obs', n')
      \<and> (case r of Inr _ \<Rightarrow> obs' = [GuestReady, SshReady] | Inl _ \<Rightarrow> obs' = [] \<or> obs' = [GuestReady] \<and> (ping \<or> seen))"
proof (induction "if ge_clock env n < deadline then Suc (deadline - ge_clock env n) else 0" arbitrary: seen last_err obs n rule: less_induct)
  case less
  obtain x obs1 n1 where x: "ssh_round env target key c ping deadline seen last_err obs n = (x, obs1, n1)" by (metis surj_pair)
  note sig = ssh_round_signals[OF x less.prems]
  show ?case
  proof (cases x)
    case (Inl r)
    then have "ssh_rounds env target key c ping deadline seen last_err obs n = Some (r, obs1, n1)"
      by (subst ssh_rounds.simps) (simp add: x)
    then show ?thesis using sig Inl less.prems by (cases r) auto
  next
    case (Inr y)
    obtain seen1 err1 where y: "y = (seen1, err1)" by fastforce
    let ?n = "ge_sleep env (min (guest_reach_poll_interval c) (deadline - ge_clock env n1)) n1"
    have eq: "ssh_rounds env target key c ping deadline seen last_err obs n = ssh_rounds env target key c ping deadline seen1 err1 obs1 ?n"
      by (subst ssh_rounds.simps) (simp add: x Inr y)
    have cl: "ge_clock env n \<le> ge_clock env n1" "ge_clock env n < deadline" using ssh_round_clock[OF probe, of target key c ping deadline seen last_err obs n y obs1 n1] x Inr by auto
    have "ge_clock env n < ge_clock env ?n \<or> \<not> ge_clock env ?n < deadline"
      using sleep[of n1 "min (guest_reach_poll_interval c) (deadline - ge_clock env n1)"] cl poll by (auto simp: min_def split: if_splits)
    then have m: "(if ge_clock env ?n < deadline then Suc (deadline - ge_clock env ?n) else 0) < (if ge_clock env n < deadline then Suc (deadline - ge_clock env n) else 0)"
      using cl by auto
    have o: "obs1 = (if seen1 then [GuestReady] else [])" "ping \<or> seen1 = seen" using sig Inr y by auto
    from less.hyps[OF m o(1), of err1] obtain r obs2 n2 where
      r: "ssh_rounds env target key c ping deadline seen1 err1 obs1 ?n = Some (r, obs2, n2)"
      "case r of Inr _ \<Rightarrow> obs2 = [GuestReady, SshReady] | Inl _ \<Rightarrow> obs2 = [] \<or> obs2 = [GuestReady] \<and> (ping \<or> seen1)" by blast
    show ?thesis using r eq o(2) by (intro exI[of _ r] exI[of _ obs2] exI[of _ n2]) (cases r; auto)
  qed
qed

text \<open>C34. The readiness wait returns. On a host whose clock passes while the program sleeps, it ends with success or an error, under every answer of
  \<open>ssh\<close> and \<open>ping\<close>; success has reported exactly \<open>GuestReady\<close> and then \<open>SshReady\<close>, an error at most \<open>GuestReady\<close>, and that only when
  the wait also pings. (The doc comment of \<open>wait_for_ssh_observed\<close> says that nothing is observed on timeout; with a ping that
  was answered before the deadline the code has already reported \<open>GuestReady\<close>.)\<close>

theorem readiness_wait_ends:
  assumes "\<And>d cmd n. ge_clock env n \<le> ge_clock env (snd (ge_limited env d cmd n))"
    and "\<And>d n. ge_clock env n + d \<le> ge_clock env (ge_sleep env d n)" and "0 < guest_reach_poll_interval c"
  shows "\<exists>r obs n'. wait_for_ssh_observed env target key c ping n = Some (r, obs, n')
    \<and> (case r of Inr _ \<Rightarrow> obs = [GuestReady, SshReady] | Inl _ \<Rightarrow> obs = [] \<or> obs = [GuestReady] \<and> ping)"
proof -
  from ssh_rounds_end[of env c "[]" False target key ping "ge_clock env n + guest_reach_timeout c" "[]" n, OF assms]
  obtain r obs n' where "ssh_rounds env target key c ping (ge_clock env n + guest_reach_timeout c) False [] [] n = Some (r, obs, n')"
    "case r of Inr _ \<Rightarrow> obs = [GuestReady, SshReady] | Inl _ \<Rightarrow> obs = [] \<or> obs = [GuestReady] \<and> (ping \<or> False)" by auto
  then show ?thesis unfolding wait_for_ssh_observed_def by (intro exI[of _ r] exI[of _ obs] exI[of _ n']) (cases r; auto)
qed

subsection \<open>Which commands carry the push token\<close>

definition plain_ssh :: "guest_target \<Rightarrow> string \<Rightarrow> command_spec \<Rightarrow> bool" where
  "plain_ssh target key c \<longleftrightarrow> (\<exists>remote t. c = ssh_command target key remote False t)"

text \<open>A command runs in the target's namespace when it has one.\<close>

definition routed :: "guest_target \<Rightarrow> command_spec \<Rightarrow> bool" where
  "routed target c = (case gt_netns target of
     None \<Rightarrow> cmd_program c = ''ssh''
   | Some netns \<Rightarrow> cmd_program c = ''ip'' \<and> take 4 (cmd_args c) = [''netns'', ''exec'', netns, ''ssh''])"

lemma ssh_command_routed: "routed target (ssh_command target key remote b t)"
  by (auto simp: routed_def ssh_command_def guest_process_def split: option.splits)

lemma plain_ssh_routed: "list_all (plain_ssh target key) log \<Longrightarrow> list_all (routed target) log"
  by (auto simp: list_all_iff plain_ssh_def ssh_command_routed)

text \<open>Between two states only plain commands were sent; \<open>sent\<close> observes the commands that have been run.\<close>

definition plain_log :: "('n \<Rightarrow> command_spec list) \<Rightarrow> guest_target \<Rightarrow> string \<Rightarrow> 'n \<Rightarrow> 'n \<Rightarrow> bool" where
  "plain_log sent target key n n' \<longleftrightarrow> (\<exists>log. sent n' = sent n @ log \<and> list_all (plain_ssh target key) log)"

interpretation plain_log: step_frame "plain_log sent target key" for sent target key
proof
  fix w v u assume "plain_log sent target key w v" "plain_log sent target key v u"
  then show "plain_log sent target key w u" unfolding plain_log_def by (metis append.assoc list_all_append)
qed (simp add: plain_log_def)

definition run_log :: "('n \<Rightarrow> command_spec list) \<Rightarrow> guest_target \<Rightarrow> string \<Rightarrow> 'n run_state \<Rightarrow> 'n run_state \<Rightarrow> bool" where
  "run_log sent target key s s' \<longleftrightarrow> plain_log sent target key (fst s) (fst s')"

interpretation run_log: step_frame "run_log sent target key" for sent target key
  by unfold_locales (auto simp: run_log_def intro: plain_log.refl plain_log.trans)

locale ssh_log =
  fixes env :: "'n guest_env" and sent :: "'n \<Rightarrow> command_spec list"
  assumes run: "sent (snd (ge_run env c i n)) = sent n @ [c]" and feed: "sent (snd (ge_feed env c i n)) = sent n @ [c]"
begin

lemma plain_run: "plain_log sent target key n (snd (ge_run env (ssh_command target key remote False t) i n))"
  by (auto simp: plain_log_def run plain_ssh_def)

lemma plain_feed: "plain_log sent target key n (snd (ge_feed env (ssh_command target key remote False t) i n))"
  by (auto simp: plain_log_def feed plain_ssh_def)

lemma plain_setup: "plain_log sent target key n (snd (run_setup_ssh env target key remote what t n))"
  using plain_run[of target key n remote t "[]"] by (auto simp: run_setup_ssh_def split: prod.splits sum.splits)

lemma plain_write: "plain_log sent target key n (snd (write_guest_file env target key dir name contents t n))"
  using plain_feed[of target key n "''mkdir -p '' @ dir @ '' && cat > '' @ dir @ ''/'' @ name" t contents]
  by (auto simp: write_guest_file_def Let_def split: prod.splits sum.splits feed_failure.splits)

lemma plain_result: "plain_log sent target key n (snd (write_guest_result_json_with_timeout env target key result t n))"
  unfolding write_guest_result_json_with_timeout_def by (intro plain_log.on_sum plain_write) (simp add: plain_log.refl)

lemma plain_clone: "plain_log sent target key n (snd (clone_repo_in_guest env target key url revision t n))"
  using plain_run[of target key n "clone_remote url revision" t "[]"] by (auto simp: clone_repo_in_guest_def Let_def split: prod.splits sum.splits)

lemma plain_patch: "plain_log sent target key n (snd (generate_result_patch env target key base t n))"
  by (simp add: generate_result_patch_def plain_setup)

lemma plain_stage: "plain_log sent target key n (snd (stage_cursor_input env target key task meta t n))"
  unfolding stage_cursor_input_def by (intro plain_log.chain plain_log.on_sum plain_write) (simp add: plain_log.refl)

lemma in_run_log: "(\<And>n. plain_log sent target key n (snd (f n))) \<Longrightarrow> run_log sent target key s (snd (in_run f s))"
  by (auto simp: run_log_def in_run_def split: prod.splits) (metis snd_conv)

lemma wrapped_log: "run_log sent target key s (snd (run_wrapped env target key inner t s))"
  using plain_run[of target key "fst s" "wrapped_remote inner" t "[]"]
  by (auto simp: run_log_def run_wrapped_def Let_def split: prod.splits sum.splits)

lemmas logs = in_run_log wrapped_log plain_setup plain_result plain_clone plain_patch plain_stage

lemma command_log: "run_log sent target key s (snd (exec_in_guest_observed env target key command c s))"
  unfolding exec_in_guest_observed_def Let_def by (intro run_log.chain logs) (simp add: run_log.refl)

lemma repository_log: "run_log sent target key s (snd (exec_repository_command env target key command source c s))"
  by (cases source) (simp add: exec_repository_command_def Let_def, intro run_log.chain run_log.after logs, simp add: run_log.refl)

text \<open>The cursor flow sends plain commands up to its push step, at most one push command, and plain commands after it.\<close>

lemma push_step_log:
  assumes "push_step env target key req base t code s = (r, s')"
  shows "s' = s \<or> (\<exists>branch. cr_push_branch req = Some branch \<and> code = 0 \<and> snd s' = snd s
    \<and> sent (fst s') = sent (fst s) @ [ssh_command target key (push_remote (cr_repo_url req) branch base) True t])"
proof -
  have "sent (snd (push_branch_in_guest env target key url branch base t n)) = sent n @ [ssh_command target key (push_remote url branch base) True t]" for url branch n
    using run[of "ssh_command target key (push_remote url branch base) True t" "[]" n]
    by (auto simp: push_branch_in_guest_def split: prod.splits sum.splits)
  then show ?thesis using assms
    by (auto simp: push_step_def in_run_def split: option.splits if_splits prod.splits sum.splits) (metis snd_conv)+
qed

lemma wrapped_completed: "run_wrapped env target key inner t s = (Inr x, s') \<Longrightarrow> snd s' = Some x"
  by (auto simp: run_wrapped_def Let_def split: prod.splits sum.splits if_splits)

lemma in_run_completed: "snd (snd (in_run f s)) = snd s"
  by (simp add: in_run_def case_prod_beta)

end

definition push_log :: "('n \<Rightarrow> command_spec list) \<Rightarrow> guest_target \<Rightarrow> string \<Rightarrow> cursor_request \<Rightarrow> 'n run_state \<Rightarrow> 'n run_state \<Rightarrow> bool" where
  "push_log sent target key req s s' \<longleftrightarrow> (\<exists>branch base t before after x. cr_push_branch req = Some branch \<and> snd s' = Some x \<and> gx_exit_code x = 0
     \<and> is_object_id base \<and> list_all (plain_ssh target key) before \<and> list_all (plain_ssh target key) after
     \<and> sent (fst s') = sent (fst s) @ before @ ssh_command target key (push_remote (cr_repo_url req) branch base) True t # after)"

lemma clone_object_id: "clone_repo_in_guest env target key url revision t n = (Inr base, n') \<Longrightarrow> is_object_id base"
  by (auto simp: clone_repo_in_guest_def Let_def split: prod.splits sum.splits if_splits)

lemma in_run_result: "in_run f s = (r, s') \<Longrightarrow> snd s' = snd s"
  by (auto simp: in_run_def split: prod.splits)

context ssh_log
begin

lemma in_run_logged: "in_run f s = (r, s') \<Longrightarrow> (\<And>n. plain_log sent target key n (snd (f n))) \<Longrightarrow> run_log sent target key s s'"
  using in_run_log[of target key f s] by simp

lemma wrapped_logged: "run_wrapped env target key inner t s = (r, s') \<Longrightarrow> run_log sent target key s s'"
  using wrapped_log[of target key s inner t] by simp

lemma cursor_log:
  assumes "exec_cursor_in_guest_observed env target key req c s = (q, s')"
  shows "run_log sent target key s s' \<or> push_log sent target key req s s'"
proof -
  let ?t = "guest_reach_timeout c" and ?R = "run_log sent target key"
  obtain r1 s1 where 1: "in_run (clone_repo_in_guest env target key (cr_repo_url req) (cm_base_sha (cr_meta req)) ?t) s = (r1, s1)" by (rule prod.exhaust)
  have R1: "?R s s1" by (rule in_run_logged[OF 1 plain_clone])
  show ?thesis
  proof (cases r1)
    case (Inl e)
    then show ?thesis using assms 1 R1 by (simp add: exec_cursor_in_guest_observed_def Let_def)
  next
    case b: (Inr base)
    obtain r2 s2 where 2: "in_run (stage_cursor_input env target key (cr_task_md req) (cr_meta req) ?t) s1 = (r2, s2)" by (rule prod.exhaust)
    have R2: "?R s s2" by (rule run_log.trans[OF R1 in_run_logged[OF 2 plain_stage]])
    show ?thesis
    proof (cases r2)
      case (Inl e)
      then show ?thesis using assms 1 b 2 R2 by (simp add: exec_cursor_in_guest_observed_def Let_def)
    next
      case (Inr u)
      obtain r3 s3 where 3: "run_wrapped env target key (''node '' @ CURSOR_RUNNER_JS @ '' < /dev/null'') ?t s2 = (r3, s3)" by (rule prod.exhaust)
      have R3: "?R s s3" by (rule run_log.trans[OF R2 wrapped_logged[OF 3]])
      show ?thesis
      proof (cases r3)
        case (Inl e)
        then show ?thesis using assms 1 b 2 Inr 3 R3 by (simp add: exec_cursor_in_guest_observed_def Let_def)
      next
        case x: (Inr x)
        obtain r4 s4 where 4: "in_run (generate_result_patch env target key base ?t) s3 = (r4, s4)" by (rule prod.exhaust)
        have R4: "?R s s4" by (rule run_log.trans[OF R3 in_run_logged[OF 4 plain_patch]])
        obtain r5 s5 where 5: "push_step env target key req base ?t (gx_exit_code x) s4 = (r5, s5)" by (rule prod.exhaust)
        have done4: "snd s4 = Some x" using wrapped_completed[of target key _ ?t s2 x s3] 3 x in_run_result[OF 4] by simp
        define rest where "rest result = and_then (in_run (run_setup_ssh env target key ''mkdir -p /workspace/out && touch /workspace/out/events.ndjson /workspace/out/summary.md''
          ''ensure cursor output artifacts exist'' ?t) s5) (\<lambda>_ s.
          and_then (in_run (write_guest_result_json_with_timeout env target key result ?t) s) (\<lambda>_ s.
          (Inr (x\<lparr>gx_post_run_error := (case r5 of Inl e \<Rightarrow> Some e | Inr _ \<Rightarrow> None)\<rparr>), s)))" for result
        have "\<exists>result. rest result = (q, s')"
          using assms 1 b 2 Inr 3 x 4 5 by (simp add: exec_cursor_in_guest_observed_def Let_def rest_def) blast
        then obtain result where rest: "rest result = (q, s')" by blast
        have "?R s5 (snd (rest result))" unfolding rest_def by (intro run_log.chain in_run_log plain_setup plain_result) (simp add: run_log.refl)
        then have R5: "?R s5 s'" by (simp add: rest)
        have done5: "snd s' = snd s5" using rest unfolding rest_def
          by (auto simp: and_then_def split: prod.splits sum.splits dest!: in_run_result)
        from push_step_log[OF 5] show ?thesis
        proof
          assume "s5 = s4"
          then show ?thesis using R4 R5 run_log.trans by blast
        next
          assume "\<exists>branch. cr_push_branch req = Some branch \<and> gx_exit_code x = 0 \<and> snd s5 = snd s4
            \<and> sent (fst s5) = sent (fst s4) @ [ssh_command target key (push_remote (cr_repo_url req) branch base) True ?t]"
          then obtain branch where p: "cr_push_branch req = Some branch" "gx_exit_code x = 0" "snd s5 = snd s4"
            "sent (fst s5) = sent (fst s4) @ [ssh_command target key (push_remote (cr_repo_url req) branch base) True ?t]" by blast
          obtain l1 l2 where l: "sent (fst s4) = sent (fst s) @ l1" "list_all (plain_ssh target key) l1" "sent (fst s') = sent (fst s5) @ l2" "list_all (plain_ssh target key) l2"
            using R4 R5 by (auto simp: run_log_def plain_log_def)
          have "is_object_id base" using 1 b by (auto simp: in_run_def split: prod.splits dest: clone_object_id)
          then have "push_log sent target key req s s'" unfolding push_log_def using p l done4 done5
            by (intro exI[of _ branch] exI[of _ base] exI[of _ ?t] exI[of _ l1] exI[of _ l2] exI[of _ x]) simp
          then show ?thesis by blast
        qed
      qed
    qed
  qed
qed

end

text \<open>The environment that also keeps a list of the commands it has run.\<close>

definition logging :: "command_spec \<Rightarrow> ('n \<Rightarrow> 'a \<times> 'n) \<Rightarrow> 'n \<times> command_spec list \<Rightarrow> 'a \<times> 'n \<times> command_spec list" where
  "logging c f s = (case f (fst s) of (r, n) \<Rightarrow> (r, n, snd s @ [c]))"

definition silently :: "('n \<Rightarrow> 'a \<times> 'n) \<Rightarrow> 'n \<times> command_spec list \<Rightarrow> 'a \<times> 'n \<times> command_spec list" where
  "silently f s = (case f (fst s) of (r, n) \<Rightarrow> (r, n, snd s))"

definition logged :: "'n guest_env \<Rightarrow> ('n \<times> command_spec list) guest_env" where
  "logged env =
     \<lparr>ge_text = ge_text env, ge_debug = ge_debug env, ge_duration_text = ge_duration_text env,
      ge_run = (\<lambda>c i. logging c (ge_run env c i)), ge_feed = (\<lambda>c i. logging c (ge_feed env c i)),
      ge_git = (\<lambda>d args. logging \<lparr>cmd_program = ''git'', cmd_args = args\<rparr> (ge_git env d args)), ge_limited = (\<lambda>d c. logging c (ge_limited env d c)),
      ge_clock = ge_clock env \<circ> fst, ge_sleep = (\<lambda>d s. (ge_sleep env d (fst s), snd s)), ge_now = ge_now env \<circ> fst,
      ge_result_json = ge_result_json env, ge_meta_json = ge_meta_json env, ge_changeset_json = ge_changeset_json env, ge_var = ge_var env,
      ge_create_dir = (\<lambda>d. silently (ge_create_dir env d)), ge_remove_dir_all = (\<lambda>d. silently (ge_remove_dir_all env d)),
      ge_write_file = (\<lambda>p t. silently (ge_write_file env p t)), ge_rename = (\<lambda>a b. silently (ge_rename env a b)),
      ge_read = (\<lambda>p s. ge_read env p (fst s)), ge_exists = (\<lambda>p s. ge_exists env p (fst s)), ge_canonicalize = (\<lambda>p s. ge_canonicalize env p (fst s)),
      ge_temp = ge_temp env \<circ> fst\<rparr>"

interpretation logged: ssh_log "logged env" snd for env
  by unfold_locales (simp_all add: logged_def logging_def case_prod_beta)

text \<open>A command forwards the push token when an \<open>-o\<close> of its arguments is followed by the option that sends \<open>GH_TOKEN\<close>.\<close>

definition forwards_gh_token :: "command_spec \<Rightarrow> bool" where
  "forwards_gh_token c \<longleftrightarrow> (''-o'', ''SendEnv=GH_TOKEN'') \<in> set (zip (cmd_args c) (tl (cmd_args c)))"

lemma ssh_command_forwards: "forwards_gh_token (ssh_command target key remote b t) \<longleftrightarrow> b"
  by (auto simp: forwards_gh_token_def ssh_command_def guest_process_def ssh_options_def ssh_connect_timeout_option_def GH_TOKEN_OPTION_def
      GUEST_USER_def split: option.splits)

lemma plain_forwards_nothing: "list_all (plain_ssh target key) log \<Longrightarrow> list_all (\<lambda>c. \<not> forwards_gh_token c) log"
  by (induction log) (auto simp: plain_ssh_def ssh_command_forwards)

text \<open>C32. The push token leaves the host at most once, and only to push. Whatever the guest answers, every command of a run goes through the
  target's namespace when it has one, and none of them has the ssh option that forwards \<open>GH_TOKEN\<close>, except one in a cursor run that asked for a
  branch and whose agent exited with 0: there exactly one command has it, the push of that branch, which compares against the full object id
  resolved before the agent ran.\<close>

theorem push_token_only_for_push:
  "case exec_observed (logged env) target key r c (n, []) of (q, s') \<Rightarrow>
     list_all (routed target) (snd (fst s'))
     \<and> (list_all (\<lambda>c. \<not> forwards_gh_token c) (snd (fst s'))
        \<or> (\<exists>req branch base t before after x. r = CursorRunner req \<and> cr_push_branch req = Some branch \<and> snd s' = Some x \<and> gx_exit_code x = 0
             \<and> is_object_id base
             \<and> snd (fst s') = before @ ssh_command target key (push_remote (cr_repo_url req) branch base) True t # after
             \<and> forwards_gh_token (ssh_command target key (push_remote (cr_repo_url req) branch base) True t)
             \<and> list_all (\<lambda>c. \<not> forwards_gh_token c) (before @ after)))"
proof -
  obtain q s' where e: "exec_observed (logged env) target key r c (n, []) = (q, s')" by (rule prod.exhaust)
  let ?s = "((n, []), None) :: ('a \<times> command_spec list) run_state"
  have "run_log snd target key ?s s' \<or> (case r of CursorRunner req \<Rightarrow> push_log snd target key req ?s s' | _ \<Rightarrow> False)"
  proof (cases r)
    case (CommandRunner command)
    then show ?thesis using e logged.command_log[of target key ?s env command c] by (simp add: exec_observed_def)
  next
    case (RepositoryCommand command url base)
    then show ?thesis using e logged.repository_log[of target key ?s env command "(url, base)" c] by (simp add: exec_observed_def)
  next
    case (CursorRunner req)
    then show ?thesis using e logged.cursor_log[of env target key req c ?s q s'] by (simp add: exec_observed_def)
  qed
  then show ?thesis
  proof
    assume "run_log snd target key ?s s'"
    then have "list_all (plain_ssh target key) (snd (fst s'))" by (auto simp: run_log_def plain_log_def)
    then show ?thesis using e plain_ssh_routed plain_forwards_nothing by simp
  next
    assume "case r of CursorRunner req \<Rightarrow> push_log snd target key req ?s s' | _ \<Rightarrow> False"
    then obtain req where r: "r = CursorRunner req" and p: "push_log snd target key req ?s s'" by (cases r) auto
    from p obtain branch base t before after x where
      o: "cr_push_branch req = Some branch" "snd s' = Some x" "gx_exit_code x = 0" "is_object_id base"
        "list_all (plain_ssh target key) (before @ after)"
        "snd (fst s') = before @ ssh_command target key (push_remote (cr_repo_url req) branch base) True t # after"
      unfolding push_log_def by (simp add: list_all_append) metis
    have routed: "list_all (routed target) (snd (fst s'))" using plain_ssh_routed[OF o(5)] unfolding o(6) by (simp add: ssh_command_routed)
    have "\<exists>req branch base t before after x. r = CursorRunner req \<and> cr_push_branch req = Some branch \<and> snd s' = Some x \<and> gx_exit_code x = 0
             \<and> is_object_id base
             \<and> snd (fst s') = before @ ssh_command target key (push_remote (cr_repo_url req) branch base) True t # after
             \<and> forwards_gh_token (ssh_command target key (push_remote (cr_repo_url req) branch base) True t)
             \<and> list_all (\<lambda>c. \<not> forwards_gh_token c) (before @ after)"
      by (intro exI conjI) (rule r o(1-4,6) plain_forwards_nothing[OF o(5)] ssh_command_forwards[THEN iffD2, OF TrueI])+
    with routed show ?thesis unfolding e prod.case by (intro conjI disjI2)
  qed
qed

subsection \<open>What the collector extracts\<close>















text \<open>A host on which every probe runs into its limit.\<close>

definition demo_guest :: "nat guest_env" where
  "demo_guest =
     \<lparr>ge_text = (\<lambda>_. ''I/O error''), ge_debug = id, ge_duration_text = show_nat,
      ge_run = (\<lambda>_ _ n. (Inl NotFound, n)), ge_feed = (\<lambda>_ _ n. (Inl (FeedSpawn NotFound), n)), ge_git = (\<lambda>_ _ n. (Inl NotFound, n)),
      ge_limited = (\<lambda>d _ n. (None, n + d)), ge_clock = id, ge_sleep = (\<lambda>d n. n + d), ge_now = int,
      ge_result_json = (\<lambda>_. Inr []), ge_meta_json = (\<lambda>_. Inr []), ge_changeset_json = (\<lambda>_. Inr []), ge_var = (\<lambda>_. None),
      ge_create_dir = (\<lambda>_ n. (Inr (), n)), ge_remove_dir_all = (\<lambda>_ n. (Inr (), n)), ge_write_file = (\<lambda>_ _ n. (Inr (), n)),
      ge_rename = (\<lambda>_ _ n. (Inr (), n)), ge_read = (\<lambda>_ _. Inl NotFound), ge_exists = (\<lambda>_ _. False), ge_canonicalize = (\<lambda>p _. Inr p),
      ge_temp = (\<lambda>_. ''/tmp/rooms'')\<rparr>"

theorem readiness_wait_ends_witness:
  "\<exists>r obs n'. wait_for_ssh_observed demo_guest (target_flat ''172.16.0.2'') ''/k/id'' default_config True 0 = Some (r, obs, n')
    \<and> (case r of Inr _ \<Rightarrow> obs = [GuestReady, SshReady] | Inl _ \<Rightarrow> obs = [] \<or> obs = [GuestReady] \<and> True)"
proof (rule readiness_wait_ends)
  show "ge_clock demo_guest n \<le> ge_clock demo_guest (snd (ge_limited demo_guest d cmd n))"
    and "ge_clock demo_guest n + d \<le> ge_clock demo_guest (ge_sleep demo_guest d n)" for d cmd n by (simp_all add: demo_guest_def)
  show "0 < guest_reach_poll_interval default_config" by (simp add: default_config_def)
qed

end
