(* ===== verification/Restore_Launch.thy ===== *)
theory Restore_Launch
  imports Boot
begin

text \<open>
  Launching the process of a restore (\<open>src/src/firecracker.rs\<close>, Unix build): the jail staged from a snapshot, the jailer spawned behind a
  pipe it waits on, the room's record, and the steps of the inert process (\<open>RestoreLaunch\<close>). Until the barrier is
  released the child has not executed the jailer.

  An error after the guard exists drops what the function owns in the order of the source: the pipe, the child (whose handle kills it),
  then the guard. An error before it leaves the staged directories to the caller.
\<close>

record restore_spawn_request =
  sq_room_id :: string
  sq_rootfs :: string
  sq_host_vmstate :: string
  sq_host_mem :: string
  sq_toolstore :: "toolstore option"
  sq_descriptor :: room_descriptor
  sq_snapshot_id :: string
  sq_network_namespace :: "string option"

record restore_launch =
  rl_child :: u32
  rl_barrier :: bool
  rl_guard :: room_guard
  rl_socket :: string
  rl_network_namespace :: "string option"

record lstat =
  st_regular :: bool
  st_uid :: u32
  st_mode :: u32

text \<open>What the launch asks of the host beyond a boot. A copy that fails says whether it has created its target.\<close>

record ('n, 's) launch_env =
  la_boot :: "('n, 's) boot_env"
  la_lstat :: "string \<Rightarrow> 'n \<Rightarrow> io_error + lstat"
  la_copy :: "string \<Rightarrow> string \<Rightarrow> 'n \<Rightarrow> (io_error \<times> bool + unit) \<times> 'n"
  la_chmod :: "string \<Rightarrow> u32 \<Rightarrow> 'n \<Rightarrow> (io_error + unit) \<times> 'n"
  la_chown :: "string \<Rightarrow> u32 \<Rightarrow> u32 \<Rightarrow> 'n \<Rightarrow> (io_error + unit) \<times> 'n"
  la_go :: "'n \<Rightarrow> (io_error + unit) \<times> 'n"
  la_flush :: "'n \<Rightarrow> (io_error + unit) \<times> 'n"

abbreviation la_text :: "('n, 's) launch_env \<Rightarrow> io_error \<Rightarrow> string" where "la_text env \<equiv> be_text (la_boot env)"
abbreviation la_reap :: "('n, 's) launch_env \<Rightarrow> 'n reap_env" where "la_reap env \<equiv> be_reap (la_boot env)"

subsection \<open>Staging\<close>

fun show_octal :: "nat \<Rightarrow> string" where
  "show_octal n = (if n < 8 then show_nat n else show_octal (n div 8) @ show_nat (n mod 8))"

declare show_octal.simps [simp del]

definition ensure_owned_private :: "('n, 's) launch_env \<Rightarrow> string \<Rightarrow> u32 \<Rightarrow> 'n \<Rightarrow> string + unit" where
  "ensure_owned_private env path fc_uid n = (case la_lstat env path n of
     Inl e \<Rightarrow> Inl (''stat '' @ path @ '': '' @ la_text env e)
   | Inr st \<Rightarrow>
       if \<not> st_regular st then Inl (path @ '' is not a regular file'')
       else if st_uid st \<noteq> fc_uid then
         Inl (path @ '' is not owned by the firecracker uid '' @ show_u32 fc_uid @ '' (uid '' @ show_u32 (st_uid st) @ ''); re-collect the snapshot'')
       else if st_mode st AND 63 \<noteq> 0 then
         Inl (path @ '' grants group/other access (mode '' @ show_octal (unat (st_mode st AND 4095)) @ ''); the memory file must stay private'')
       else Inr ())"

definition remount_readonly :: "('n, 's) launch_env \<Rightarrow> string \<Rightarrow> 'n \<Rightarrow> (firecracker_error + unit) \<times> 'n" where
  "remount_readonly env target n = (case be_run (la_boot env) \<lparr>cmd_program = ''mount'', cmd_args = [''-o'', ''remount,ro,bind'', target]\<rparr> n of
     (Inl e, n) \<Rightarrow> (Inl (FcIo e), n)
   | (Inr out, n) \<Rightarrow> if out_success out then (Inr (), n)
       else (Inl (FcJailPrepareFailed (''remount '' @ target @ '' read-only: '' @ trim (out_stderr out))), n))"

text \<open>The copy creates its target in the jail; the mode is \<open>0o600\<close>.\<close>

definition copy_owned_private ::
  "('n, 's) launch_env \<Rightarrow> string \<Rightarrow> string \<Rightarrow> string \<Rightarrow> u32 \<Rightarrow> u32 \<Rightarrow> 'n room_host \<Rightarrow> (io_error + unit) \<times> 'n room_host" where
  "copy_owned_private env source instance_dir name uid gid h =
     (let target = path_join (path_join instance_dir ''root'') name in
      case on_programs (la_copy env source target) h of
        (Inl (e, created), h) \<Rightarrow> (Inl e, if created then add_jail_name instance_dir name h else h)
      | (Inr _, h) \<Rightarrow>
          and_then (on_programs (la_chmod env target 0x180) (add_jail_name instance_dir name h)) (\<lambda>_ h.
          on_programs (la_chown env target uid gid) h))"

definition create_named_target ::
  "('n, 's) launch_env \<Rightarrow> string \<Rightarrow> string \<Rightarrow> string \<Rightarrow> 'n room_host \<Rightarrow> (firecracker_error + unit) \<times> 'n room_host" where
  "create_named_target env what instance_dir name h =
     (if name \<in> set (jail_names instance_dir h) then (Inr (), h)
      else case check_fault (be_io (la_boot env)) (CreateNew instance_dir name) of
        Inl e \<Rightarrow> (Inl (FcJailPrepareFailed (''create '' @ what @ '' mount target: '' @ la_text env e)), h)
      | Inr _ \<Rightarrow> (Inr (), add_jail_name instance_dir name h))"

definition stage_restore_toolstore ::
  "('n, 's) launch_env \<Rightarrow> string \<Rightarrow> toolstore option \<Rightarrow> 'n room_host \<Rightarrow> (firecracker_error + unit) \<times> 'n room_host" where
  "stage_restore_toolstore env instance_dir ts h = (case ts of
     None \<Rightarrow> (Inr (), h)
   | Some t \<Rightarrow>
       if JAIL_TOOLSTORE \<in> set (jail_names instance_dir h) then
         (Inl (FcJailPrepareFailed (''create toolstore mount target: '' @ la_text env AlreadyExists)), h)
       else (case check_fault (be_io (la_boot env)) (CreateNew instance_dir JAIL_TOOLSTORE) of
           Inl e \<Rightarrow> (Inl (FcJailPrepareFailed (''create toolstore mount target: '' @ la_text env e)), h)
         | Inr _ \<Rightarrow> map_err (\<lambda>e. FcJailPrepareFailed (''stage toolstore: '' @ e))
             (on_programs (bind_into (be_images (la_boot env)) t (path_join (path_join instance_dir ''root'') JAIL_TOOLSTORE))
               (add_jail_name instance_dir JAIL_TOOLSTORE h))))"

definition stage_restore_jail_inner ::
  "('n, 's) launch_env \<Rightarrow> string \<Rightarrow> restore_spawn_request \<Rightarrow> u32 \<Rightarrow> u32 \<Rightarrow> 'n room_host \<Rightarrow> (firecracker_error + unit) \<times> 'n room_host" where
  "stage_restore_jail_inner env instance_dir req uid gid h =
     (let bo = la_boot env; jail_root = path_join instance_dir ''root'' in
      case check_fault (be_io bo) (CreateDirAll jail_root) of
        Inl e \<Rightarrow> (Inl (FcJailPrepareFailed (''create jail root '' @ jail_root @ '': '' @ la_text env e)), h)
      | Inr _ \<Rightarrow>
          let h = h\<lparr>jails := (jails h)(instance_dir \<mapsto> jail_names instance_dir h)\<rparr> in
          and_then (create_named_target env ''rootfs'' instance_dir JAIL_ROOTFS h) (\<lambda>_ h.
          case be_canonicalize bo (sq_rootfs req) (net_state (clone_side h)) of
            Inl e \<Rightarrow> (Inl (FcJailPrepareFailed (''rootfs path '' @ sq_rootfs req @ '': '' @ la_text env e)), h)
          | Inr rootfs \<Rightarrow>
              and_then (on_programs (bind_mount bo rootfs (path_join jail_root JAIL_ROOTFS)) h) (\<lambda>_ h.
              and_then (on_programs (remount_readonly env (path_join jail_root JAIL_ROOTFS)) h) (\<lambda>_ h.
              and_then (map_err (\<lambda>e. FcJailPrepareFailed (''stage vmstate: '' @ la_text env e))
                  (copy_owned_private env (sq_host_vmstate req) instance_dir SNAPSHOT_VMSTATE_FILE uid gid h)) (\<lambda>_ h.
              case ensure_owned_private env (sq_host_mem req) uid (net_state (clone_side h)) of
                Inl e \<Rightarrow> (Inl (FcJailPrepareFailed e), h)
              | Inr _ \<Rightarrow>
                  and_then (create_named_target env ''mem'' instance_dir SNAPSHOT_MEM_FILE h) (\<lambda>_ h.
                  and_then (on_programs (bind_mount bo (sq_host_mem req) (path_join jail_root SNAPSHOT_MEM_FILE)) h) (\<lambda>_ h.
                  stage_restore_toolstore env instance_dir (sq_toolstore req) h)))))))"

definition stage_restore_jail ::
  "('n, 's) launch_env \<Rightarrow> string \<Rightarrow> restore_spawn_request \<Rightarrow> u32 \<Rightarrow> u32 \<Rightarrow> 'n room_host \<Rightarrow> (firecracker_error + unit) \<times> 'n room_host" where
  "stage_restore_jail env instance_dir req uid gid h =
     (case stage_restore_jail_inner env instance_dir req uid gid h of
        (Inr _, h) \<Rightarrow> (Inr (), h)
      | (Inl e, h) \<Rightarrow>
          let h = fold (\<lambda>name h. snd (on_programs (unmount (la_reap env) (path_join (path_join instance_dir ''root'') name)) h))
                [JAIL_ROOTFS, SNAPSHOT_MEM_FILE, JAIL_TOOLSTORE] h
          in (Inl e, remove_jail_dir (la_reap env) instance_dir h))"

subsection \<open>The spawn\<close>

definition BARRIER_SCRIPT :: string where
  "BARRIER_SCRIPT = ''IFS= read -r _go || exit 1; exec '' @ [CHR 0x22] @ ''$0'' @ [CHR 0x22] @ '' '' @ [CHR 0x22] @ ''$@'' @ [CHR 0x22]"

definition spawn_barriered_jailer :: "('n, 's) launch_env \<Rightarrow> jailer_launch_plan \<Rightarrow> 'n \<Rightarrow> (firecracker_error + u32) \<times> 'n" where
  "spawn_barriered_jailer env p n =
     map_err FcIo (pe_spawn (be_procs (la_boot env)) \<lparr>cmd_program = ''/bin/sh'',
       cmd_args = [''-c'', BARRIER_SCRIPT, jp_jailer_binary p] @ jp_jailer_args p @ [''--''] @ jp_firecracker_args p\<rparr> n)"

definition restore_meta :: "('n, 's) launch_env \<Rightarrow> restore_spawn_request \<Rightarrow> u32 option \<Rightarrow> 'n \<Rightarrow> room_meta" where
  "restore_meta env req pid n =
     (let pid_starttime = Option.bind pid (starttime_of ((be_io (la_boot env))\<lparr>proc_stat := re_stat (la_reap env) n\<rparr>))
      in (room_meta_new (sq_room_id req) (rd_command (sq_descriptor req)) pid pid_starttime (rd_keep (sq_descriptor req)) (be_now (la_boot env)))
           \<lparr>rm_snapshot_lineage := Some (sq_snapshot_id req), rm_toolstore_sha256 := map_option ts_digest (sq_toolstore req)\<rparr>)"

definition kill_child :: "('n, 's) launch_env \<Rightarrow> u32 \<Rightarrow> 'n room_host world \<Rightarrow> 'n room_host world" where
  "kill_child env pid w = snd (on_host (on_programs (\<lambda>n. ((), pe_kill (be_procs (la_boot env)) pid n))) w)"

text \<open>From the guard to the launch.\<close>

definition launch_guarded ::
  "('n, 's) launch_env \<Rightarrow> restore_spawn_request \<Rightarrow> string \<Rightarrow> string \<times> string \<times> u32 \<times> u32 \<Rightarrow> room_guard \<Rightarrow> 'n room_host world
     \<Rightarrow> (firecracker_error + restore_launch) \<times> 'n room_host world" where
  "launch_guarded env req base deps g w =
     (let (fc, jailer, uid, gid) = deps; bo = la_boot env; rid = sq_room_id req; instance_dir = boot_instance_dir base rid;
          socket = path_join (boot_root_dir base rid) JAIL_API_SOCK;
          plan' = build_jailer_launch_plan jailer fc base rid uid gid \<lparr>jl_instance_dir = instance_dir, jl_host_socket = socket\<rparr>
            (sq_network_namespace req) in
      case open_log_file bo rid w of
        (Inl e, w) \<Rightarrow> (Inl e, guard_drop (la_reap env) g w)
      | (Inr _, w) \<Rightarrow> (case on_host (on_programs (spawn_barriered_jailer env plan')) w of
          (Inl e, w) \<Rightarrow> (Inl e, guard_drop (la_reap env) g w)
        | (Inr child, w) \<Rightarrow>
            let g = g\<lparr>rg_child_pid := Some child\<rparr> in
            (case write_atomic (be_meta_to_json bo) (be_io bo) rid (restore_meta env req (Some child) (world_machine w)) w of
               (Inl e, w) \<Rightarrow> (Inl (FcIo e), guard_drop (la_reap env) g (kill_child env child w))
             | (Inr _, w) \<Rightarrow>
                 (Inr \<lparr>rl_child = child, rl_barrier = True, rl_guard = g, rl_socket = socket,
                       rl_network_namespace = sq_network_namespace req\<rparr>, w))))"

definition spawn_restore ::
  "('n, 's) launch_env \<Rightarrow> restore_spawn_request \<Rightarrow> 'n room_host world \<Rightarrow> (firecracker_error + restore_launch) \<times> 'n room_host world" where
  "spawn_restore env req w =
     (let bo = la_boot env; rid = sq_room_id req in
      and_then (on_host (on_programs (resolve_boot_dependencies bo)) w) (\<lambda>deps w.
      case resolved_state_base (be_home bo) (be_config bo) of
        None \<Rightarrow> (Inl FcHomeUnset, w)
      | Some _ \<Rightarrow>
          and_then (prepare_room_dir bo rid w) (\<lambda>_ w.
          case chroot_base (be_home bo) (be_config bo) of
            None \<Rightarrow> (Inl FcHomeUnset, w)
          | Some base \<Rightarrow>
              let instance_dir = boot_instance_dir base rid; uid = fst (snd (snd deps)); gid = snd (snd (snd deps)) in
              and_then (on_host (stage_restore_jail env instance_dir req uid gid) w) (\<lambda>_ w.
              launch_guarded env req base deps ((guard_new rid instance_dir (be_config bo))\<lparr>rg_jail_instance_dir := Some instance_dir\<rparr>) w))))"

subsection \<open>The inert process\<close>

definition release_barrier :: "('n, 's) launch_env \<Rightarrow> restore_launch \<Rightarrow> 'n \<Rightarrow> (firecracker_error + restore_launch) \<times> 'n" where
  "release_barrier env la n =
     (if \<not> rl_barrier la then (Inl (FcInternal ''restore barrier already released''), n)
      else and_then (map_err FcIo (la_go env n)) (\<lambda>_ n.
        and_then (map_err FcIo (la_flush env n)) (\<lambda>_ n. (Inr (la\<lparr>rl_barrier := False\<rparr>), n))))"

definition wait_api :: "('n, 's) launch_env \<Rightarrow> restore_launch \<Rightarrow> ('n, 's) boot_state \<Rightarrow> (firecracker_error + unit) \<times> ('n, 's) boot_state" where
  "wait_api env la b =
     (let bo = (la_boot env)\<lparr>be_cancel := \<lambda>_. None\<rparr>
      in wait_for_socket bo (rl_socket la) (rl_child la) (re_polls (la_reap env) (api_socket_timeout (be_config bo))) b)"

definition attach_leased_slot :: "('n, 's) launch_env \<Rightarrow> restore_launch \<Rightarrow> slot \<Rightarrow> 'n \<Rightarrow> (firecracker_error + unit) \<times> 'n" where
  "attach_leased_slot env la s n = create_slot_tap (la_boot env) s (rl_network_namespace la) n"

definition launch_pid :: "('n, 's) launch_env \<Rightarrow> restore_launch \<Rightarrow> 'n \<Rightarrow> u32 option" where
  "launch_pid env la n = pe_child_id (be_procs (la_boot env)) (rl_child la) n"

definition into_booted :: "restore_launch \<Rightarrow> capture option \<Rightarrow> booted_vm" where
  "into_booted la w =
     \<lparr>bv_witness = w, bv_secrets_delivery = [], bv_provisioning_delivery = [], bv_guard = rl_guard la, bv_child = Some (rl_child la)\<rparr>"

end
