(* ===== verification/Restore_Source.thy ===== *)
theory Restore_Source
  imports Restore_Launch Snapshot_Exec
begin

text \<open>
  The source of a restore (\<open>src/src/restore_exec.rs\<close>, Linux build): the stamps of the files that decide a restore, the preparation
  that checks them once and binds them to a plan, their revalidation, the comparison with what is staged in the jail, and where the output of
  a restore may lie.

  An open file is named by a handle the environment gives; the kind and the stamp of a path, and those behind a handle, are the
  environment's answers at a moment of the machine, so a file may be replaced between any two of them. An \<open>anyhow\<close> error is its text.
\<close>

datatype restore_source_kind = SourceDirectory | SourceRegularNonEmpty

record stamped_restore_path =
  stp_label :: string
  stp_path :: string
  stp_kind :: restore_source_kind
  stp_stamp :: file_identity

type_synonym restore_source_identity = "stamped_restore_path list"

record ('n, 's) source_env =
  so_launch :: "('n, 's) launch_env"
  so_snap :: "'n snap_env"
  so_flags :: "'n \<Rightarrow> string \<Rightarrow> u32"
  so_lstat :: "string \<Rightarrow> 'n \<Rightarrow> io_error + file_kind \<times> file_identity"
  so_fstat :: "string \<Rightarrow> 'n \<Rightarrow> io_error + file_kind \<times> file_identity"
  so_open :: "string \<Rightarrow> 'n \<Rightarrow> io_error + string"
  so_seek :: "string \<Rightarrow> 'n \<Rightarrow> io_error option"
  so_read :: "string \<Rightarrow> 'n \<Rightarrow> io_error + string"
  so_sha256 :: "string \<Rightarrow> 'n \<Rightarrow> io_error + string"
  so_is_dir :: "string \<Rightarrow> 'n \<Rightarrow> bool"
  so_occupied :: "string \<Rightarrow> 'n \<Rightarrow> io_error + bool"

abbreviation so_boot :: "('n, 's) source_env \<Rightarrow> ('n, 's) boot_env" where "so_boot env \<equiv> la_boot (so_launch env)"
abbreviation so_images :: "('n, 's) source_env \<Rightarrow> 'n image_env" where "so_images env \<equiv> be_images (so_boot env)"
abbreviation so_inode :: "('n, 's) source_env \<Rightarrow> 'n inode_env" where "so_inode env \<equiv> ig_inode (so_images env)"
abbreviation so_text :: "('n, 's) source_env \<Rightarrow> io_error \<Rightarrow> string" where "so_text env \<equiv> be_text (so_boot env)"

definition on_world :: "('n \<Rightarrow> 'a \<times> 'n) \<Rightarrow> 'n room_host world \<Rightarrow> 'a \<times> 'n room_host world" where
  "on_world f w = on_host (on_programs f) w"

text \<open>The flags of the inodes are part of the machine.\<close>

definition in_snapshots :: "('n, 's) source_env \<Rightarrow> ('n snap_world \<Rightarrow> 'a \<times> 'n snap_world) \<Rightarrow> 'n room_host world \<Rightarrow> 'a \<times> 'n room_host world" where
  "in_snapshots env f w = (case f \<lparr>sw = w, sw_flags = so_flags env (world_machine w)\<rparr> of (r, x) \<Rightarrow> (r, sw x))"

subsection \<open>Stamps\<close>

definition kind_fits :: "restore_source_kind \<Rightarrow> file_kind \<Rightarrow> file_identity \<Rightarrow> bool" where
  "kind_fits kind k i = (case kind of SourceDirectory \<Rightarrow> k = Directory | SourceRegularNonEmpty \<Rightarrow> k = RegularFile \<and> fi_len i \<noteq> 0)"

definition stamp_capture :: "('n, 's) source_env \<Rightarrow> string \<Rightarrow> string \<Rightarrow> restore_source_kind \<Rightarrow> 'n \<Rightarrow> string + stamped_restore_path" where
  "stamp_capture env label path kind n = (case so_lstat env path n of
     Inl e \<Rightarrow> Inl (''prepared restore source '' @ label @ '' '' @ path @ '': '' @ so_text env e)
   | Inr (k, i) \<Rightarrow>
       if \<not> kind_fits kind k i
       then Inl (''prepared restore source '' @ label @ '' is empty, symlinked, or has the wrong type: '' @ path)
       else Inr \<lparr>stp_label = label, stp_path = path, stp_kind = kind, stp_stamp = i\<rparr>)"

definition recapture :: "('n, 's) source_env \<Rightarrow> stamped_restore_path \<Rightarrow> 'n \<Rightarrow> string + stamped_restore_path" where
  "recapture env p n = stamp_capture env (stp_label p) (stp_path p) (stp_kind p) n"

fun capture_all :: "('n, 's) source_env \<Rightarrow> (string \<times> string \<times> restore_source_kind) list \<Rightarrow> 'n \<Rightarrow> string + restore_source_identity" where
  "capture_all env [] n = Inr []"
| "capture_all env ((label, path, kind) # rest) n = (case stamp_capture env label path kind n of
     Inl e \<Rightarrow> Inl e
   | Inr p \<Rightarrow> map_sum id (\<lambda>ps. p # ps) (capture_all env rest n))"

definition restore_sources :: "string \<Rightarrow> string \<Rightarrow> (string \<times> string \<times> restore_source_kind) list" where
  "restore_sources snapshot_dir img =
     [(''snapshot directory'', snapshot_dir, SourceDirectory), (''backing image'', img, SourceRegularNonEmpty),
      (''snapshot metadata'', path_join snapshot_dir SNAPSHOT_META_FILE, SourceRegularNonEmpty),
      (''snapshot vmstate'', path_join snapshot_dir SNAPSHOT_VMSTATE_FILE, SourceRegularNonEmpty),
      (''snapshot memory'', path_join snapshot_dir SNAPSHOT_MEM_FILE, SourceRegularNonEmpty)]"

definition identity_capture :: "('n, 's) source_env \<Rightarrow> string \<Rightarrow> string \<Rightarrow> 'n \<Rightarrow> string + restore_source_identity" where
  "identity_capture env snapshot_dir img n = capture_all env (restore_sources snapshot_dir img) n"

definition assert_same :: "restore_source_identity \<Rightarrow> restore_source_identity \<Rightarrow> string \<Rightarrow> string + unit" where
  "assert_same expected current reason =
     (if length expected \<noteq> length current then Inl (''prepared restore source set '' @ reason)
      else case find (\<lambda>(e, f). e \<noteq> f) (zip expected current) of
        None \<Rightarrow> Inr ()
      | Some (e, _) \<Rightarrow> Inl (''prepared restore source '' @ stp_label e @ '' '' @ stp_path e @ '': '' @ reason))"

definition stamped :: "restore_source_identity \<Rightarrow> string \<Rightarrow> string + stamped_restore_path" where
  "stamped ident label = (case find (\<lambda>p. stp_label p = label) ident of
     None \<Rightarrow> Inl (''prepared restore source set lost '' @ label) | Some p \<Rightarrow> Inr p)"

definition assert_open :: "('n, 's) source_env \<Rightarrow> restore_source_identity \<Rightarrow> string \<Rightarrow> string \<Rightarrow> 'n \<Rightarrow> string + unit" where
  "assert_open env ident label handle n = (case stamped ident label of
     Inl e \<Rightarrow> Inl e
   | Inr expected \<Rightarrow> (case so_fstat env handle n of
       Inl e \<Rightarrow> Inl (so_text env e)
     | Inr (_, observed) \<Rightarrow>
         if stp_stamp expected \<noteq> observed
         then Inl (''prepared restore source '' @ label @ '' '' @ stp_path expected @ '' differs from its open inode'') else Inr ()))"

definition assert_staged_bind :: "('n, 's) source_env \<Rightarrow> restore_source_identity \<Rightarrow> string \<Rightarrow> string \<Rightarrow> 'n \<Rightarrow> string + unit" where
  "assert_staged_bind env ident label staged n = (case stamped ident label of
     Inl e \<Rightarrow> Inl e
   | Inr expected \<Rightarrow> (case so_lstat env staged n of
       Inl e \<Rightarrow> Inl (''inspect staged '' @ label @ '' '' @ staged @ '': '' @ so_text env e)
     | Inr (k, observed) \<Rightarrow>
         if k \<noteq> RegularFile \<or> fi_len observed = 0 then Inl (''staged '' @ label @ '' '' @ staged @ '' is empty or not regular'')
         else if stp_stamp expected \<noteq> observed
         then Inl (''staged '' @ label @ '' '' @ staged @ '' is not the prepared immutable source inode'') else Inr ()))"

fun identity_revalidate :: "('n, 's) source_env \<Rightarrow> restore_source_identity \<Rightarrow> 'n \<Rightarrow> string + unit" where
  "identity_revalidate env [] n = Inr ()"
| "identity_revalidate env (expected # rest) n = (case recapture env expected n of
     Inl e \<Rightarrow> Inl e
   | Inr found \<Rightarrow>
       if found \<noteq> expected
       then Inl (''prepared restore source '' @ stp_label expected @ '' '' @ stp_path expected @ '' changed after preparation'')
       else identity_revalidate env rest n)"

definition MAX_META_BYTES :: nat where "MAX_META_BYTES = 1024 * 1024"

definition read_snapshot_meta :: "('n, 's) source_env \<Rightarrow> string \<Rightarrow> string \<Rightarrow> 'n \<Rightarrow> string + snapshot_meta" where
  "read_snapshot_meta env handle meta_path n = (case so_fstat env handle n of
     Inl e \<Rightarrow> Inl (''snapshot metadata '' @ meta_path @ '': '' @ so_text env e)
   | Inr (_, i) \<Rightarrow>
       if MAX_META_BYTES < unat (fi_len i)
       then Inl (''snapshot metadata '' @ meta_path @ '' exceeds the '' @ show_nat MAX_META_BYTES @ '' byte limit'')
       else (case so_seek env handle n of
           Some e \<Rightarrow> Inl (so_text env e)
         | None \<Rightarrow> (case so_read env handle n of
             Inl e \<Rightarrow> Inl (''snapshot metadata '' @ meta_path @ '': '' @ so_text env e)
           | Inr bytes \<Rightarrow> (case xe_meta_from_json (so_snap env) bytes of
               Inl e \<Rightarrow> Inl e
             | Inr m \<Rightarrow> if \<not> is_valid_room_id (sm_snapshot_id m) \<or> \<not> is_valid_room_id (sm_base_room_id m)
                 then Inl ''snapshot metadata carries an invalid id'' else Inr m))))"

subsection \<open>Preparing\<close>

fun require_each :: "('n, 's) source_env \<Rightarrow> (string \<times> string) list \<Rightarrow> 'n \<Rightarrow> (string + unit) \<times> 'n" where
  "require_each env [] n = (Inr (), n)"
| "require_each env ((path, label) # rest) n = and_then (inode_require (so_inode env) path label n) (\<lambda>_ n. require_each env rest n)"

definition require_immutable_restore_source :: "('n, 's) source_env \<Rightarrow> string \<Rightarrow> string \<Rightarrow> 'n \<Rightarrow> (string + unit) \<times> 'n" where
  "require_immutable_restore_source env snapshot_dir img n = require_each env
     [(img, ''backing image''), (snapshot_dir, ''snapshot directory''), (path_join snapshot_dir SNAPSHOT_META_FILE, ''snapshot metadata''),
      (path_join snapshot_dir SNAPSHOT_VMSTATE_FILE, ''snapshot vmstate''), (path_join snapshot_dir SNAPSHOT_MEM_FILE, ''snapshot memory'')] n"

definition open_prepared_regular :: "('n, 's) source_env \<Rightarrow> string \<Rightarrow> string \<Rightarrow> bool \<Rightarrow> 'n \<Rightarrow> (string + string) \<times> 'n" where
  "open_prepared_regular env path label immutable n =
     (if immutable then and_then (open_regular (so_inode env) path label n) (\<lambda>_ n. (Inr (ig_held (so_images env) path n), n))
      else case so_open env path n of
        Inl e \<Rightarrow> (Inl (''open '' @ label @ '' '' @ path @ '': '' @ so_text env e), n)
      | Inr handle \<Rightarrow> (case so_fstat env handle n of
          Inl e \<Rightarrow> (Inl (''inspect '' @ label @ '' '' @ path @ '': '' @ so_text env e), n)
        | Inr (k, i) \<Rightarrow>
            if k \<noteq> RegularFile \<or> fi_len i = 0 then (Inl (label @ '' '' @ path @ '' is empty or not a regular file''), n)
            else (Inr handle, n)))"

definition sha256_open_file :: "('n, 's) source_env \<Rightarrow> string \<Rightarrow> 'n \<Rightarrow> string + string" where
  "sha256_open_file env handle n = (case so_seek env handle n of
     Some e \<Rightarrow> Inl (so_text env e)
   | None \<Rightarrow> map_sum (so_text env) (\<lambda>hex. ''sha256:'' @ hex) (so_sha256 env handle n))"

definition rootfs_compat_hash ::
  "('n, 's) source_env \<Rightarrow> string \<Rightarrow> snapshot_meta \<Rightarrow> string \<Rightarrow> restore_source_identity \<Rightarrow> bool \<Rightarrow> 'n room_host world
     \<Rightarrow> (string + string) \<times> 'n room_host world" where
  "rootfs_compat_hash env snapshot_dir m image_guard source immutable w =
     and_then (if immutable then
         (case (stamped source ''snapshot directory'', stamped source ''snapshot metadata'', stamped source ''backing image'') of
            (Inl e, _, _) \<Rightarrow> (Inl e, w)
          | (_, Inl e, _) \<Rightarrow> (Inl e, w)
          | (_, _, Inl e) \<Rightarrow> (Inl e, w)
          | (Inr d, Inr t, Inr i) \<Rightarrow>
              in_snapshots env (attested_rootfs_hash (so_snap env) snapshot_dir m (stp_stamp d) (stp_stamp t) (stp_stamp i)) w)
       else (Inr None, w)) (\<lambda>attested w.
     case attested of
       Some hash \<Rightarrow> (Inr hash, w)
     | None \<Rightarrow> (sha256_open_file env image_guard (world_machine w), w))"

fun provenance_debug :: "provenance \<Rightarrow> string" where
  "provenance_debug Provisioning = ''Provisioning''" | "provenance_debug Neutral = ''Neutral''" | "provenance_debug Tainted = ''Tainted''"

fun restore_error_text :: "restore_error \<Rightarrow> string" where
  "restore_error_text (UnsupportedSchema found) = ''unsupported snapshot schema version '' @ show_u32 found @ ''; this build supports v1 and v2''"
| "restore_error_text (ToolstoreSchemaMismatch found) =
     ''snapshot schema v'' @ show_u32 found @ '' disagrees with its toolstore field; refusing malformed metadata''"
| "restore_error_text ToolstoreRequired = ''snapshot was frozen with a toolstore; pass --toolstore with the same sealed store''"
| "restore_error_text ToolstoreUnexpected =
     ''snapshot was frozen without a toolstore; --toolstore would add a device its machine never had''"
| "restore_error_text ToolstoreMismatch = ''supplied toolstore differs from the one frozen into the snapshot''"
| "restore_error_text (SnapshotIncompatible field) =
     ''snapshot incompatible with host: '' @ compat_field_as_str field @ '' mismatch; re-snapshot on this host''"
| "restore_error_text (NotNeutralSnapshot found) =
     ''refusing to restore a non-neutral snapshot (provenance: '' @ provenance_debug found
     @ ''); its metadata does not attest a sealed neutral base''"

record prepared_restore_source =
  prs_snapshot_dir :: string
  prs_image :: string
  prs_meta :: snapshot_meta
  prs_ops :: "restore_op list"
  prs_identity :: restore_source_identity
  prs_vmstate_hash :: string
  prs_image_guard :: string
  prs_toolstore_dir :: "string option"
  prs_toolstore :: "toolstore option"

abbreviation so_index :: "('n, 's) source_env \<Rightarrow> intent_index" where "so_index env \<equiv> xe_index (so_snap env)"

definition optional_candidate :: "('n, 's) source_env \<Rightarrow> string option \<Rightarrow> string + string option" where
  "optional_candidate env path = (case path of None \<Rightarrow> Inr None | Some p \<Rightarrow> map_sum id Some (canonical_candidate (so_index env) p))"

definition open_toolstore :: "('n, 's) source_env \<Rightarrow> string option \<Rightarrow> 'n \<Rightarrow> (string + toolstore option) \<times> 'n" where
  "open_toolstore env dir n = (case dir of
     None \<Rightarrow> (Inr None, n) | Some d \<Rightarrow> and_then (toolstore_open (so_images env) d n) (\<lambda>t n. (Inr (Some t), n)))"

text \<open>The three handles against a set of stamps, and their flags again.\<close>

definition assert_handles :: "('n, 's) source_env \<Rightarrow> restore_source_identity \<Rightarrow> string \<Rightarrow> string \<Rightarrow> string \<Rightarrow> 'n \<Rightarrow> (string + unit) \<times> 'n" where
  "assert_handles env ident image_guard meta_guard vmstate_guard n =
     and_then (assert_open env ident ''backing image'' image_guard n, n) (\<lambda>_ n.
     and_then (assert_open env ident ''snapshot metadata'' meta_guard n, n) (\<lambda>_ n.
     (assert_open env ident ''snapshot vmstate'' vmstate_guard n, n)))"

definition require_handles :: "('n, 's) source_env \<Rightarrow> string \<Rightarrow> string \<Rightarrow> string \<Rightarrow> 'n \<Rightarrow> (string + unit) \<times> 'n" where
  "require_handles env img meta_path vmstate_path n =
     and_then (require_file (so_inode env) img ''backing image'' n) (\<lambda>_ n.
     and_then (require_file (so_inode env) meta_path ''snapshot metadata'' n) (\<lambda>_ n.
     require_file (so_inode env) vmstate_path ''snapshot vmstate'' n))"

definition prepare_opened ::
  "('n, 's) source_env \<Rightarrow> string \<Rightarrow> string \<Rightarrow> string option \<Rightarrow> toolstore option \<Rightarrow> bool \<Rightarrow> 'n room_host world
     \<Rightarrow> (string + prepared_restore_source) \<times> 'n room_host world" where
  "prepare_opened env snapshot_dir img ts_dir ts immutable w =
     (let meta_path = path_join snapshot_dir SNAPSHOT_META_FILE; vmstate_path = path_join snapshot_dir SNAPSHOT_VMSTATE_FILE in
      and_then (identity_capture env snapshot_dir img (world_machine w), w) (\<lambda>captured w.
      and_then (on_world (open_prepared_regular env img ''backing image'' immutable) w) (\<lambda>image_guard w.
      and_then (on_world (open_prepared_regular env meta_path ''snapshot metadata'' immutable) w) (\<lambda>meta_guard w.
      and_then (on_world (open_prepared_regular env vmstate_path ''snapshot vmstate'' immutable) w) (\<lambda>vmstate_guard w.
      and_then (on_world (assert_handles env captured image_guard meta_guard vmstate_guard) w) (\<lambda>_ w.
      and_then (read_snapshot_meta env meta_guard meta_path (world_machine w), w) (\<lambda>m w.
      and_then (sha256_open_file env vmstate_guard (world_machine w), w) (\<lambda>vmstate_hash w.
      and_then (in_snapshots env (firecracker_version (so_snap env)) w) (\<lambda>host_fc w.
      and_then (rootfs_compat_hash env snapshot_dir m image_guard captured immutable w) (\<lambda>rootfs_hash w.
      and_then (map_sum restore_error_text id (plan_restore m host_fc rootfs_hash (map_option ts_digest ts)), w) (\<lambda>p w.
      and_then (identity_capture env snapshot_dir img (world_machine w), w) (\<lambda>ident w.
      and_then (assert_same captured ident ''changed while being prepared'', w) (\<lambda>_ w.
      and_then (on_world (assert_handles env ident image_guard meta_guard vmstate_guard) w) (\<lambda>_ w.
      and_then (if immutable then on_world (require_handles env img meta_path vmstate_path) w else (Inr (), w)) (\<lambda>_ w.
      (Inr \<lparr>prs_snapshot_dir = snapshot_dir, prs_image = img, prs_meta = m, prs_ops = rp_ops p, prs_identity = ident,
            prs_vmstate_hash = vmstate_hash, prs_image_guard = image_guard, prs_toolstore_dir = ts_dir, prs_toolstore = ts\<rparr>, w))))))))))))))))"

definition prepare_restore_inner ::
  "('n, 's) source_env \<Rightarrow> string \<Rightarrow> string \<Rightarrow> string option \<Rightarrow> bool \<Rightarrow> 'n room_host world
     \<Rightarrow> (string + prepared_restore_source) \<times> 'n room_host world" where
  "prepare_restore_inner env snapshot_dir img ts_path immutable w =
     and_then (canonical_candidate (so_index env) snapshot_dir, w) (\<lambda>snapshot_dir w.
     and_then (canonical_candidate (so_index env) img, w) (\<lambda>img w.
     and_then (optional_candidate env ts_path, w) (\<lambda>ts_dir w.
     and_then (on_world (open_toolstore env ts_dir) w) (\<lambda>ts w.
     and_then (if immutable then on_world (require_immutable_restore_source env snapshot_dir img) w else (Inr (), w)) (\<lambda>_ w.
     prepare_opened env snapshot_dir img ts_dir ts immutable w)))))"

definition prepare_restore ::
  "('n, 's) source_env \<Rightarrow> string \<Rightarrow> string \<Rightarrow> string option \<Rightarrow> 'n room_host world \<Rightarrow> (string + prepared_restore_source) \<times> 'n room_host world" where
  "prepare_restore env snapshot_dir img ts_path w = prepare_restore_inner env snapshot_dir img ts_path True w"

subsection \<open>Revalidation\<close>

definition source_revalidate :: "('n, 's) source_env \<Rightarrow> prepared_restore_source \<Rightarrow> 'n \<Rightarrow> (string + unit) \<times> 'n" where
  "source_revalidate env p n =
     and_then (require_immutable_restore_source env (prs_snapshot_dir p) (prs_image p) n) (\<lambda>_ n.
     and_then (case prs_toolstore p of None \<Rightarrow> (Inr (), n) | Some t \<Rightarrow> require_sealed (so_images env) t n) (\<lambda>_ n.
     and_then (require_file (so_inode env) (prs_image p) ''backing image'' n) (\<lambda>_ n.
     and_then (assert_open env (prs_identity p) ''backing image'' (prs_image_guard p) n, n) (\<lambda>_ n.
     (identity_revalidate env (prs_identity p) n, n)))))"

definition verify_staged_vmstate :: "('n, 's) source_env \<Rightarrow> prepared_restore_source \<Rightarrow> string \<Rightarrow> 'n \<Rightarrow> string + unit" where
  "verify_staged_vmstate env p path n = (case so_open env path n of
     Inl e \<Rightarrow> Inl (''open staged snapshot vmstate '' @ path @ '': '' @ so_text env e)
   | Inr handle \<Rightarrow> (case sha256_open_file env handle n of
       Inl e \<Rightarrow> Inl e
     | Inr hash \<Rightarrow> if hash \<noteq> prs_vmstate_hash p
         then Inl (''staged snapshot vmstate '' @ path @ '' differs from the prepared immutable source'') else Inr ()))"

definition verify_staged :: "('n, 's) source_env \<Rightarrow> prepared_restore_source \<Rightarrow> string \<Rightarrow> 'n \<Rightarrow> (string + unit) \<times> 'n" where
  "verify_staged env p jail_root n =
     and_then (assert_staged_bind env (prs_identity p) ''backing image'' (path_join jail_root JAIL_ROOTFS) n, n) (\<lambda>_ n.
     and_then (assert_staged_bind env (prs_identity p) ''snapshot memory'' (path_join jail_root SNAPSHOT_MEM_FILE) n, n) (\<lambda>_ n.
     and_then (case prs_toolstore p of None \<Rightarrow> (Inr (), n)
         | Some t \<Rightarrow> verify_attachment (so_images env) t (path_join jail_root JAIL_TOOLSTORE) n) (\<lambda>_ n.
     (verify_staged_vmstate env p (path_join jail_root SNAPSHOT_VMSTATE_FILE) n, n))))"

end
