(* ===== verification/Restore_Drive.thy ===== *)
theory Restore_Drive
  imports Restore_Source Restore_Exec
begin

text \<open>
  Driving a restore (\<open>src/src/restore_exec.rs\<close>): the request checked against the prepared source, the durable intent, the launch, the lease of
  the frozen slot, the plan's operations up to the guest's acknowledgement, and the one abort path. The transaction runs on the
  state record of a boot: world, vsock link, the launch's guard and child, the capture, and in \<open>bw_secrets\<close> the listener of the resume nudge
  while it is armed. What the guest's side of the acknowledgement does, its silence included, is the peer of the vsock link; whether the task that serves it is
  lost is the environment's choice.
\<close>

definition RESUME_ENTROPY_BYTES :: nat where "RESUME_ENTROPY_BYTES = 64"

record restore_request =
  rq_room_id :: string
  rq_snapshot_dir :: string
  rq_image :: string
  rq_toolstore :: "string option"
  rq_target_slot :: "u8 option"
  rq_label :: "string option"
  rq_keep :: bool
  rq_witness :: bool
  rq_egress :: egress_plan
  rq_secrets :: "string option"
  rq_out_dir :: "string option"
  rq_ack_timeout :: nat
  rq_clone_net :: "clone_net option"

record restored =
  rd_vm :: booted_vm
  rd_slot :: slot
  rd_room_id :: string
  rd_snapshot_id :: string
  rd_clone_net :: "clone_net option"
  rd_toolstore_sha256 :: "string option"
  rd_base_repo_sha :: "string option"

text \<open>\<open>/dev/urandom\<close> gives the requested number of bytes or an error; the two challenges of the nudge are fresh identifiers.\<close>

record ('n, 's) drive_env =
  dv_source :: "('n, 's) source_env"
  dv_intent_json :: "restore_intent \<Rightarrow> string"
  dv_entropy :: "nat \<Rightarrow> io_error + string"
  dv_challenges :: "string \<times> string"
  dv_task_lost :: bool

abbreviation dv_launch :: "('n, 's) drive_env \<Rightarrow> ('n, 's) launch_env" where "dv_launch env \<equiv> so_launch (dv_source env)"
abbreviation dv_boot :: "('n, 's) drive_env \<Rightarrow> ('n, 's) boot_env" where "dv_boot env \<equiv> la_boot (dv_launch env)"
abbreviation dv_reap :: "('n, 's) drive_env \<Rightarrow> 'n reap_env" where "dv_reap env \<equiv> be_reap (dv_boot env)"
abbreviation dv_io :: "('n, 's) drive_env \<Rightarrow> io_env" where "dv_io env \<equiv> be_io (dv_boot env)"
abbreviation dv_text :: "('n, 's) drive_env \<Rightarrow> io_error \<Rightarrow> string" where "dv_text env \<equiv> be_text (dv_boot env)"
abbreviation dv_home :: "('n, 's) drive_env \<Rightarrow> string option" where "dv_home env \<equiv> be_home (dv_boot env)"
abbreviation dv_config :: "('n, 's) drive_env \<Rightarrow> rooms_config" where "dv_config env \<equiv> be_config (dv_boot env)"

abbreviation fc_text :: "('n, 's) drive_env \<Rightarrow> firecracker_error \<Rightarrow> string" where "fc_text env \<equiv> firecracker_error_text (dv_text env)"

subsection \<open>Where the output may lie\<close>

text \<open>The ancestors of an absolute path without the path itself, longest first.\<close>

definition proper_ancestors :: "string \<Rightarrow> string list" where
  "proper_ancestors path = map path_text (rev (tl (butlast (prefixes (components path)))))"

fun named_overlap :: "string \<Rightarrow> (string \<times> string) list \<Rightarrow> (string \<times> string) option" where
  "named_overlap out [] = None"
| "named_overlap out ((name, root) # rest) = (if overlaps out root then Some (name, root) else named_overlap out rest)"

fun pending_overlap :: "('n, 's) drive_env \<Rightarrow> string \<Rightarrow> string list \<Rightarrow> string + unit" where
  "pending_overlap env out [] = Inr ()"
| "pending_overlap env out (p # ps) = (case canonical_candidate (so_index (dv_source env)) p of
     Inl e \<Rightarrow> Inl e
   | Inr c \<Rightarrow>
       if overlaps out c then Inl (''restore output '' @ out @ '' overlaps a pending snapshot transaction's output '' @ p)
       else pending_overlap env out ps)"

definition check_empty_output :: "('n, 's) drive_env \<Rightarrow> string \<Rightarrow> 'n \<Rightarrow> string + unit" where
  "check_empty_output env out n =
     (let so = dv_source env in
      if \<not> ig_exists (so_images so) out n then Inr ()
      else if \<not> so_is_dir so out n then Inl (''restore output is not a directory: '' @ out)
      else case so_occupied so out n of
        Inl e \<Rightarrow> Inl (dv_text env e)
      | Inr True \<Rightarrow> Inl (''refusing non-empty restore output '' @ out @ '' (must be empty or absent)'')
      | Inr False \<Rightarrow> Inr ())"

definition check_output_roots :: "('n, 's) drive_env \<Rightarrow> string \<Rightarrow> string \<Rightarrow> string \<Rightarrow> string + unit" where
  "check_output_roots env out img snapshot_dir =
     (let ix = so_index (dv_source env) in
      case resolved_state_base (dv_home env) (dv_config env) of
        None \<Rightarrow> Inl ''HOME unset; cannot locate rooms state''
      | Some state \<Rightarrow> (case chroot_base (dv_home env) (dv_config env) of
          None \<Rightarrow> Inl ''cannot resolve jailer chroot base''
        | Some base \<Rightarrow> (case canonical_candidate ix state of
            Inl e \<Rightarrow> Inl e
          | Inr state \<Rightarrow> (case canonical_candidate ix (path_join base ''firecracker'') of
              Inl e \<Rightarrow> Inl e
            | Inr instances \<Rightarrow>
                (case named_overlap out [(''backing image'', img), (''rooms state base'', state), (''jail instance root'', instances),
                        (''snapshot directory'', snapshot_dir)] of
                   Some (name, root) \<Rightarrow> Inl (''restore output '' @ out @ '' overlaps the '' @ name @ '' '' @ root)
                 | None \<Rightarrow> Inr ())))))"

definition validate_output_disjoint :: "('n, 's) drive_env \<Rightarrow> string option \<Rightarrow> string \<Rightarrow> string \<Rightarrow> 'n room_host world \<Rightarrow> string + unit" where
  "validate_output_disjoint env out_dir img snapshot_dir w = (case out_dir of
     None \<Rightarrow> Inr ()
   | Some out \<Rightarrow> (case canonical_candidate (so_index (dv_source env)) out of
       Inl e \<Rightarrow> Inl e
     | Inr out \<Rightarrow> (case check_empty_output env out (world_machine w) of
         Inl e \<Rightarrow> Inl e
       | Inr _ \<Rightarrow> (case check_output_roots env out img snapshot_dir of
           Inl e \<Rightarrow> Inl e
         | Inr _ \<Rightarrow>
             (case find (\<lambda>a. ig_exists (so_images (dv_source env)) (path_join a SNAPSHOT_META_FILE) (world_machine w)) (proper_ancestors out) of
                Some a \<Rightarrow> Inl (''restore output '' @ out @ '' lies inside snapshot directory '' @ a)
              | None \<Rightarrow> (case pending_output_dirs (so_index (dv_source env)) (dv_home env) (dv_config env) (dv_io env) w of
                  Inl e \<Rightarrow> Inl e | Inr ps \<Rightarrow> pending_overlap env out ps))))))"

definition validate_prepared_request_paths ::
  "('n, 's) drive_env \<Rightarrow> restore_request \<Rightarrow> prepared_restore_source \<Rightarrow> 'n room_host world \<Rightarrow> string + unit" where
  "validate_prepared_request_paths env req p w =
     (let ix = so_index (dv_source env) in
      case canonical_candidate ix (rq_image req) of
        Inl e \<Rightarrow> Inl e
      | Inr img \<Rightarrow>
          if \<not> path_eq img (prs_image p) then Inl (''restore request image '' @ img @ '' differs from prepared image '' @ prs_image p)
          else (case canonical_candidate ix (rq_snapshot_dir req) of
              Inl e \<Rightarrow> Inl e
            | Inr dir \<Rightarrow>
                if \<not> path_eq dir (prs_snapshot_dir p)
                then Inl (''restore request snapshot '' @ dir @ '' differs from prepared snapshot '' @ prs_snapshot_dir p)
                else (case optional_candidate (dv_source env) (rq_toolstore req) of
                    Inl e \<Rightarrow> Inl e
                  | Inr t \<Rightarrow>
                      if \<not> rel_option path_eq t (prs_toolstore_dir p) then Inl ''restore request toolstore differs from the prepared toolstore''
                      else validate_output_disjoint env (rq_out_dir req) (prs_image p) (prs_snapshot_dir p) w)))"

subsection \<open>The lease\<close>

definition as_text :: "('n, 's) drive_env \<Rightarrow> (firecracker_error + 'a) \<times> 'b \<Rightarrow> (string + 'a) \<times> 'b" where
  "as_text env r = map_err (fc_text env) r"

definition verify_clone_custody ::
  "('n, 's) drive_env \<Rightarrow> restore_launch \<Rightarrow> slot \<Rightarrow> clone_net option \<Rightarrow> 'n \<Rightarrow> (string + unit) \<times> 'n" where
  "verify_clone_custody env la s net n = (case net of
     None \<Rightarrow> (Inr (), n)
   | Some net \<Rightarrow> (case launch_pid (dv_launch env) la n of
       None \<Rightarrow> (Inl ''restore process has no pid at custody boundary'', n)
     | Some pid \<Rightarrow> (case verify_process_network_namespace (dv_boot env) pid (cn_netns net) n of
         Inl e \<Rightarrow> (Inl (fc_text env e), n)
       | Inr _ \<Rightarrow>
           and_then (as_text env (verify_tap_in_namespace (dv_boot env) (cn_netns net) (slot_tap s) n)) (\<lambda>_ n.
           map_err (clone_net_error_text (dv_text env)) (verify_host_veth (be_run (dv_boot env)) net n)))))"

definition spawned_intent :: "('n, 's) drive_env \<Rightarrow> restore_intent \<Rightarrow> restore_launch \<Rightarrow> 'n \<Rightarrow> restore_intent" where
  "spawned_intent env i la n =
     (let pid = launch_pid (dv_launch env) la n
      in i\<lparr>ri_pid := pid, ri_pid_starttime := Option.bind pid (starttime_of ((dv_io env)\<lparr>proc_stat := re_stat (dv_reap env) n\<rparr>)),
           ri_boundary := Spawned\<rparr>)"

definition verify_launch_namespace :: "('n, 's) drive_env \<Rightarrow> restore_launch \<Rightarrow> clone_net option \<Rightarrow> 'n \<Rightarrow> string + unit" where
  "verify_launch_namespace env la net n = (case net of
     None \<Rightarrow> Inr ()
   | Some net \<Rightarrow> (case launch_pid (dv_launch env) la n of
       None \<Rightarrow> Inl ''restore process has no pid after API readiness''
     | Some pid \<Rightarrow> map_sum (fc_text env) id (verify_process_network_namespace (dv_boot env) pid (cn_netns net) n)))"

definition take_lease :: "('n, 's) drive_env \<Rightarrow> restore_intent \<Rightarrow> clone_net option \<Rightarrow> 'n room_host world \<Rightarrow> (string + slot) \<times> 'n room_host world" where
  "take_lease env i net w = (case resolved_state_base (dv_home env) (dv_config env) of
     None \<Rightarrow> (Inl ''HOME unset; cannot locate rooms state'', w)
   | Some _ \<Rightarrow> map_err (slot_error_text (dv_text env))
       ((if net \<noteq> None then lease_clone else lease) (dv_io env) (ri_slot_index i) (ri_snapshot_id i) (ri_room_id i) w))"

definition write_intent :: "('n, 's) drive_env \<Rightarrow> restore_intent \<Rightarrow> 'n room_host world \<Rightarrow> (string + unit) \<times> 'n room_host world" where
  "write_intent env i w = map_err (dv_text env) (write_intent_atomic (dv_intent_json env) (dv_io env) i w)"

definition establish_lease ::
  "('n, 's) drive_env \<Rightarrow> restore_intent \<Rightarrow> restore_launch \<Rightarrow> clone_net option \<Rightarrow> ('n, 's) boot_state
     \<Rightarrow> (string + slot \<times> restore_launch) \<times> ('n, 's) boot_state" where
  "establish_lease env i la net b =
     (let i = spawned_intent env i la (machine b) in
      and_then (on_bw (write_intent env i) b) (\<lambda>_ b.
      and_then (as_text env (on_machine (release_barrier (dv_launch env) la) b)) (\<lambda>la b.
      and_then (as_text env (wait_api (dv_launch env) la b)) (\<lambda>_ b.
      and_then (verify_launch_namespace env la net (machine b), b) (\<lambda>_ b.
      and_then (on_bw (take_lease env i net) b) (\<lambda>s b.
      and_then (on_bw (write_intent env (i\<lparr>ri_boundary := Leased\<rparr>)) b) (\<lambda>_ b.
      and_then (on_bw (record_slot_on_room (dv_text env) (be_meta_from_json (dv_boot env)) (be_meta_to_json (dv_boot env)) (dv_io env)
          (ri_room_id i) s net) b) (\<lambda>_ b.
      and_then (as_text env (on_machine (attach_leased_slot (dv_launch env) la s) b)) (\<lambda>_ b.
      and_then (on_machine (verify_clone_custody env la s net) b) (\<lambda>_ b. (Inr (s, la), b)))))))))))"

subsection \<open>The operations of the plan\<close>

definition build_resume_payload :: "('n, 's) drive_env \<Rightarrow> string \<Rightarrow> string option \<Rightarrow> string + resume_payload" where
  "build_resume_payload env room_id secrets = (case dv_entropy env RESUME_ENTROPY_BYTES of
     Inl e \<Rightarrow> Inl (dv_text env e)
   | Inr entropy \<Rightarrow> Inr (resume_payload_new (fst (dv_challenges env)) (snd (dv_challenges env)) room_id entropy
       (case secrets of None \<Rightarrow> secrets_encode [] | Some s \<Rightarrow> s)))"

definition start_witness :: "('n, 's) drive_env \<Rightarrow> clone_net option \<Rightarrow> slot \<Rightarrow> string \<Rightarrow> ('n, 's) boot_state \<Rightarrow> (string + unit) \<times> ('n, 's) boot_state" where
  "start_witness env net s room_dir' b =
     (case on_machine (case net of
          Some net \<Rightarrow> start_in_namespace (be_procs (dv_boot env)) (cn_netns net) (slot_tap s) room_dir'
        | None \<Rightarrow> capture_start (be_procs (dv_boot env)) (slot_tap s) room_dir') b of
        (Inl e, b) \<Rightarrow> (Inl (''witness: '' @ e), b)
      | (Inr c, b) \<Rightarrow> (Inr (), b\<lparr>bw_witness := Some c\<rparr>))"

text \<open>The policy of a clone, or of a flat room that enforces one. A transaction that does not end has no answer.\<close>

definition clone_transaction :: "((string + unit) \<times> 'n) option \<Rightarrow> 'n \<Rightarrow> (string + unit) \<times> 'n" where
  "clone_transaction r n = (case r of Some x \<Rightarrow> x | None \<Rightarrow> (Inl ''egress transaction does not end'', n))"

definition install_custody_policy :: "('n, 's) drive_env \<Rightarrow> restore_request \<Rightarrow> clone_net option \<Rightarrow> slot \<Rightarrow> 'n \<Rightarrow> (string + unit) \<times> 'n" where
  "install_custody_policy env req net s n = (case net of
     Some net \<Rightarrow> clone_transaction (install_clone (re_poisoned (dv_reap env)) (runner_iptables (dv_text env) (be_run (dv_boot env)))
         (cn_veth_host net) (rq_egress req) n) n
   | None \<Rightarrow> if plan_enforces (rq_egress req) then install_flat_egress (dv_boot env) (slot_tap s) (rq_egress req) n else (Inr (), n))"

definition verify_clone_policy :: "('n, 's) drive_env \<Rightarrow> restore_request \<Rightarrow> clone_net option \<Rightarrow> 'n \<Rightarrow> (string + unit) \<times> 'n" where
  "verify_clone_policy env req net n = (case net of
     Some net \<Rightarrow> if plan_enforces (rq_egress req)
       then clone_transaction (verify_clone (re_poisoned (dv_reap env)) (runner_iptables (dv_text env) (be_run (dv_boot env)))
         (cn_veth_host net) (rq_egress req) n) n else (Inr (), n)
   | None \<Rightarrow> (Inr (), n))"

definition arm_resume ::
  "('n, 's) drive_env \<Rightarrow> string \<Rightarrow> string option \<Rightarrow> string \<Rightarrow> ('n, 's) boot_state \<Rightarrow> (string + resume_payload) \<times> ('n, 's) boot_state" where
  "arm_resume env room_id secrets jail_root b =
     and_then (build_resume_payload env room_id secrets, b) (\<lambda>p b.
     and_then (map_err (dv_text env) (on_link (serve_resume (be_link (dv_boot env)) True jail_root) b)) (\<lambda>_ b.
     (Inr p, b\<lparr>bw_secrets := [listener_path_for jail_root RESUME_PORT]\<rparr>)))"

definition load_body :: "string \<Rightarrow> string \<Rightarrow> json" where
  "load_body snapshot_path mem_backend_path =
     JObj [(''snapshot_path'', JStr snapshot_path),
           (''mem_backend'', JObj [(''backend_type'', JStr ''File''), (''backend_path'', JStr mem_backend_path)]),
           (''resume_vm'', JBool False)]"

definition resume_guest ::
  "('n, 's) drive_env \<Rightarrow> restore_request \<Rightarrow> restore_launch \<Rightarrow> clone_net option \<Rightarrow> prepared_restore_source \<Rightarrow> slot \<Rightarrow> string \<Rightarrow> 'n
     \<Rightarrow> (string + unit) \<times> 'n" where
  "resume_guest env req la net p s jail_root n =
     and_then (verify_clone_custody env la s net n) (\<lambda>_ n.
     and_then (verify_clone_policy env req net n) (\<lambda>_ n.
     and_then (verify_staged (dv_source env) p jail_root n) (\<lambda>_ n.
     and_then (source_revalidate (dv_source env) p n) (\<lambda>_ n.
     as_text env (api_patch (dv_boot env) (rl_socket la) ''/vm'' (JObj [(''state'', JStr ''Resumed'')]) n)))))"

text \<open>The nudge is served by a task of its own; waiting for it consumes the listener.\<close>

definition await_nudge ::
  "('n, 's) drive_env \<Rightarrow> restore_request \<Rightarrow> string \<Rightarrow> resume_payload option \<Rightarrow> ('n, 's) boot_state \<Rightarrow> (string + unit) \<times> ('n, 's) boot_state" where
  "await_nudge env req jail_root delivery b = (case delivery of
     None \<Rightarrow> (Inl ''resume nudge was never armed'', b)
   | Some p \<Rightarrow>
       (case on_link (serve_resume_inner (be_link (dv_boot env)) (listener_path_for jail_root RESUME_PORT) p) b of
          (r, b) \<Rightarrow>
            let answer = (if dv_task_lost env then TaskLost else task_outcome r);
                acked = await_acked (rp_room_id p) (rq_ack_timeout req div 1000) (bw_link b) answer
            in (map_sum (\<lambda>e. ''resume hygiene ack: '' @ e) id acked,
                b\<lparr>bw_link := delivery_drop (be_link (dv_boot env)) (bw_secrets b) (bw_link b), bw_secrets := []\<rparr>)))"

fun drive_ops ::
  "('n, 's) drive_env \<Rightarrow> restore_request \<Rightarrow> restore_launch \<Rightarrow> clone_net option \<Rightarrow> prepared_restore_source \<Rightarrow> slot \<Rightarrow> string \<Rightarrow> string
     \<Rightarrow> restore_op list \<Rightarrow> resume_payload option \<Rightarrow> ('n, 's) boot_state \<Rightarrow> (string + unit) \<times> ('n, 's) boot_state" where
  "drive_ops env req la net p s jail_root room_dir' [] delivery b = (Inr (), b)"
| "drive_ops env req la net p s jail_root room_dir' (InstallCustody # ops) delivery b =
     and_then (if rq_witness req then start_witness env net s room_dir' b else (Inr (), b)) (\<lambda>_ b.
     and_then (on_machine (install_custody_policy env req net s) b) (\<lambda>_ b.
     drive_ops env req la net p s jail_root room_dir' ops delivery b))"
| "drive_ops env req la net p s jail_root room_dir' (LoadSnapshot snapshot_path mem_backend_path # ops) delivery b =
     and_then (arm_resume env (rq_room_id req) (rq_secrets req) jail_root b) (\<lambda>payload b.
     and_then (as_text env (on_machine (api_put (dv_boot env) (rl_socket la) ''/snapshot/load'' (load_body snapshot_path mem_backend_path)) b)) (\<lambda>_ b.
     drive_ops env req la net p s jail_root room_dir' ops (Some payload) b))"
| "drive_ops env req la net p s jail_root room_dir' (ResumeVm # ops) delivery b =
     and_then (on_machine (resume_guest env req la net p s jail_root) b) (\<lambda>_ b.
     drive_ops env req la net p s jail_root room_dir' ops delivery b)"
| "drive_ops env req la net p s jail_root room_dir' (ApplyHygieneNudgeAndAwaitAck # ops) delivery b =
     and_then (await_nudge env req jail_root delivery b) (\<lambda>_ b.
     drive_ops env req la net p s jail_root room_dir' ops None b)"

definition drive_to_ready ::
  "('n, 's) drive_env \<Rightarrow> restore_request \<Rightarrow> restore_intent \<Rightarrow> restore_launch \<Rightarrow> clone_net option \<Rightarrow> prepared_restore_source \<Rightarrow> ('n, 's) boot_state
     \<Rightarrow> (string + slot \<times> restore_launch) \<times> ('n, 's) boot_state" where
  "drive_to_ready env req i la net p b =
     and_then (establish_lease env i la net b) (\<lambda>(s, la) b.
     case jail_root_dir (dv_home env) (dv_config env) (ri_room_id i) of
       None \<Rightarrow> (Inl ''cannot resolve jail root'', b)
     | Some jail_root \<Rightarrow> (case room_dir (dv_home env) (dv_config env) (ri_room_id i) of
         None \<Rightarrow> (Inl ''cannot resolve room dir'', b)
       | Some room_dir' \<Rightarrow>
           and_then (as_text env (on_machine (lookup_firecracker_ids (dv_boot env)) b)) (\<lambda>_ b.
           and_then (drive_ops env req la net p s jail_root room_dir' (prs_ops p) None b) (\<lambda>_ b. (Inr (s, la), b)))))"

subsection \<open>The transaction\<close>

definition finish_for :: "('n, 's) drive_env \<Rightarrow> restore_intent \<Rightarrow> 'n room_host world \<Rightarrow> (string + unit) \<times> 'n room_host world" where
  "finish_for env i w = finish_teardown (dv_reap env) (dv_home env) (dv_config env) (ri_room_id i) (ri_snapshot_id i) (ri_slot_index i) (ri_clone_net_index i) w"

definition clean_pre_spawn :: "('n, 's) drive_env \<Rightarrow> restore_intent \<Rightarrow> 'n room_host world \<Rightarrow> 'n room_host world" where
  "clean_pre_spawn env i w = snd (finish_for env i w)"

definition abort_launch :: "('n, 's) drive_env \<Rightarrow> restore_launch \<Rightarrow> restore_intent \<Rightarrow> 'n room_host world \<Rightarrow> 'n room_host world" where
  "abort_launch env la i w =
     (let w = snd (guard_cleanup (dv_reap env) (rl_guard la) w);
          w = kill_child (dv_launch env) (rl_child la) w
      in snd (finish_for env i w))"

text \<open>An error drops the armed listener and then the capture.\<close>

definition drop_drive :: "('n, 's) drive_env \<Rightarrow> ('n, 's) boot_state \<Rightarrow> 'n room_host world \<times> 's link" where
  "drop_drive env b =
     (let l = delivery_drop (be_link (dv_boot env)) (bw_secrets b) (bw_link b);
          b = (case bw_witness b of None \<Rightarrow> b | Some c \<Rightarrow> snd (on_machine (\<lambda>n. ((), capture_drop (be_procs (dv_boot env)) c n)) b))
      in (bw_world b, l))"

definition planned_intent :: "restore_request \<Rightarrow> prepared_restore_source \<Rightarrow> u8 \<Rightarrow> clone_net option \<Rightarrow> restore_intent" where
  "planned_intent req p idx net =
     \<lparr>ri_schema_version = INTENT_SCHEMA_VERSION, ri_room_id = rq_room_id req, ri_snapshot_id = sm_snapshot_id (prs_meta p), ri_slot_index = idx,
      ri_tap = ''tap-fc'' @ show_u8 idx, ri_snapshot_dir = prs_snapshot_dir p, ri_image = prs_image p,
      ri_clone_net_index = map_option cn_index net, ri_pid = None, ri_pid_starttime = None, ri_boundary = PreSpawn\<rparr>"

definition spawn_request :: "restore_request \<Rightarrow> prepared_restore_source \<Rightarrow> clone_net option \<Rightarrow> restore_spawn_request" where
  "spawn_request req p net =
     \<lparr>sq_room_id = rq_room_id req, sq_rootfs = prs_image p, sq_host_vmstate = path_join (prs_snapshot_dir p) SNAPSHOT_VMSTATE_FILE,
      sq_host_mem = path_join (prs_snapshot_dir p) SNAPSHOT_MEM_FILE, sq_toolstore = prs_toolstore p,
      sq_descriptor = \<lparr>rd_command = rq_label req, rd_keep = rq_keep req\<rparr>, sq_snapshot_id = sm_snapshot_id (prs_meta p),
      sq_network_namespace = map_option cn_netns net\<rparr>"

text \<open>What is checked before anything durable exists: the intent the transaction starts with and the clone's network.\<close>

definition admit_restore ::
  "('n, 's) drive_env \<Rightarrow> restore_request \<Rightarrow> prepared_restore_source \<Rightarrow> 'n room_host world
     \<Rightarrow> (string + restore_intent \<times> clone_net option) \<times> 'n room_host world" where
  "admit_restore env req p w =
     (if \<not> is_valid_room_id (rq_room_id req) then (Inl ''restore room id is invalid'', w)
      else case validate_prepared_request_paths env req p w of
        Inl e \<Rightarrow> (Inl e, w)
      | Inr _ \<Rightarrow> (case sm_slot_index (prs_meta p) of
          None \<Rightarrow> (Inl ''snapshot metadata carries no frozen slot'', w)
        | Some idx \<Rightarrow>
            if (case rq_target_slot req of None \<Rightarrow> False | Some t \<Rightarrow> t \<noteq> idx) then
              (Inl (''--slot '' @ show_u8 (the (rq_target_slot req)) @ '' differs from the snapshot's frozen slot '' @ show_u8 idx
                 @ ''; a restore must reclaim the exact frozen slot''), w)
            else (case resolved_state_base (dv_home env) (dv_config env) of
                None \<Rightarrow> (Inl ''HOME unset; cannot locate rooms state'', w)
              | Some _ \<Rightarrow> (case canonical_clone_net (dv_text env) (dv_io env) (rq_room_id req) (rq_clone_net req) w of
                  Inl e \<Rightarrow> (Inl e, w)
                | Inr net \<Rightarrow>
                    and_then (on_world (source_revalidate (dv_source env) p) w) (\<lambda>_ w. (Inr (planned_intent req p idx net, net), w))))))"

definition launch_state :: "restore_launch \<Rightarrow> 'n room_host world \<Rightarrow> 's link \<Rightarrow> ('n, 's) boot_state" where
  "launch_state la w l =
     \<lparr>bw_world = w, bw_link = l, bw_guard = rl_guard la, bw_child = Some (rl_child la), bw_witness = None, bw_secrets = [], bw_provisioning = []\<rparr>"

definition run_launched ::
  "('n, 's) drive_env \<Rightarrow> restore_request \<Rightarrow> prepared_restore_source \<Rightarrow> restore_intent \<Rightarrow> clone_net option \<Rightarrow> restore_launch \<Rightarrow> 'n room_host world
     \<Rightarrow> 's link \<Rightarrow> (string + restored) \<times> 'n room_host world \<times> 's link" where
  "run_launched env req p i net la w l = (case jail_root_dir (dv_home env) (dv_config env) (rq_room_id req) of
     None \<Rightarrow> (Inl ''cannot resolve jail root'', guard_drop (dv_reap env) (rl_guard la) (kill_child (dv_launch env) (rl_child la) w), l)
   | Some jail_root \<Rightarrow>
       (case on_world (\<lambda>n. and_then (verify_staged (dv_source env) p jail_root n) (\<lambda>_ n. source_revalidate (dv_source env) p n)) w of
          (Inl e, w) \<Rightarrow> (Inl e, abort_launch env la i w, l)
        | (Inr _, w) \<Rightarrow> (case drive_to_ready env req i la net p (launch_state la w l) of
            (Inl e, b) \<Rightarrow> (case drop_drive env b of (w, l) \<Rightarrow> (Inl e, abort_launch env la i w, l))
          | (Inr (s, la), b) \<Rightarrow>
              (Inr \<lparr>rd_vm = into_booted la (bw_witness b), rd_slot = s, rd_room_id = rq_room_id req, rd_snapshot_id = sm_snapshot_id (prs_meta p),
                    rd_clone_net = net, rd_toolstore_sha256 = sm_toolstore_sha256 (prs_meta p), rd_base_repo_sha = sm_base_repo_sha (prs_meta p)\<rparr>,
               bw_world b, bw_link b))))"

definition restore_prepared ::
  "('n, 's) drive_env \<Rightarrow> restore_request \<Rightarrow> prepared_restore_source \<Rightarrow> 'n room_host world \<Rightarrow> 's link
     \<Rightarrow> (string + restored) \<times> 'n room_host world \<times> 's link" where
  "restore_prepared env req p w l = (case admit_restore env req p w of
     (Inl e, w) \<Rightarrow> (Inl e, w, l)
   | (Inr (i, net), w) \<Rightarrow> (case map_err (dv_text env) (create_intent_exclusive (dv_intent_json env) (dv_io env) i w) of
       (Inl e, w) \<Rightarrow> (Inl e, w, l)
     | (Inr _, w) \<Rightarrow> (case on_world (source_revalidate (dv_source env) p) w of
         (Inl e, w) \<Rightarrow> (Inl e, clean_pre_spawn env i w, l)
       | (Inr _, w) \<Rightarrow> (case spawn_restore (dv_launch env) (spawn_request req p net) w of
           (Inl e, w) \<Rightarrow> (Inl (fc_text env e), clean_pre_spawn env i w, l)
         | (Inr la, w) \<Rightarrow> run_launched env req p i net la w l))))"

definition restore ::
  "('n, 's) drive_env \<Rightarrow> restore_request \<Rightarrow> 'n room_host world \<Rightarrow> 's link \<Rightarrow> (string + restored) \<times> 'n room_host world \<times> 's link" where
  "restore env req w l =
     (if \<not> is_valid_room_id (rq_room_id req) then (Inl ''restore room id is invalid'', w, l)
      else case prepare_restore (dv_source env) (rq_snapshot_dir req) (rq_image req) (rq_toolstore req) w of
        (Inl e, w) \<Rightarrow> (Inl e, w, l)
      | (Inr p, w) \<Rightarrow> restore_prepared env req p w l)"

subsection \<open>What the steps of a restore may change\<close>

text \<open>Only files of the given directories change; directories, jails and programs freely.\<close>

definition files_within :: "string set \<Rightarrow> 'n room_host world \<Rightarrow> 'n room_host world \<Rightarrow> bool" where
  "files_within D w w' \<longleftrightarrow> (\<forall>p. fst p \<notin> D \<longrightarrow> files w' p = files w p)"

interpretation files_within: step_frame "files_within D" for D
  by unfold_locales (auto simp: files_within_def)

named_theorems restore_frames \<open>what the steps of a restore may change\<close>

lemma files_within_primitives [restore_frames]:
  "files_within D w w" "files_within D w w' \<Longrightarrow> files_within D w (snd (r, w'))" "files_within D w (snd (on_host f w))"
  by (auto simp: files_within_def on_host_def split: prod.splits)

lemma room_files_within [restore_frames]:
  "rid \<in> D \<Longrightarrow> files_within D w (snd (write_atomic ser io rid m w))"
  "rid \<in> D \<Longrightarrow> files_within D w (snd (open_log_file env rid w))"
  "rid \<in> D \<Longrightarrow> files_within D w (snd (prepare_room_dir env rid w))"
  by (auto simp: files_within_def open_log_file_def write_atomic_def fs_write_def prepare_room_dir_def create_room_dir_0700_def map_err_def and_then_def
      fs_defs split: sum.splits prod.splits option.splits if_splits)



text \<open>The same frame on the state of a drive.\<close>

definition drive_within :: "string set \<Rightarrow> ('n, 's) boot_state \<Rightarrow> ('n, 's) boot_state \<Rightarrow> bool" where
  "drive_within D b b' \<longleftrightarrow> files_within D (bw_world b) (bw_world b')"

interpretation drive_within: step_frame "drive_within D" for D
  by unfold_locales (auto simp: drive_within_def files_within_def)

lemma drive_within_primitives [restore_frames]:
  "drive_within D b b" "drive_within D b b' \<Longrightarrow> drive_within D b (snd (r, b'))"
  "drive_within D b (snd (on_machine f b))" "drive_within D b (snd (on_link g b))"
  "drive_within D b (b\<lparr>bw_witness := c\<rparr>)" "drive_within D b (b\<lparr>bw_secrets := s\<rparr>)" "drive_within D b (b\<lparr>bw_link := l, bw_secrets := s\<rparr>)"
  "files_within D (bw_world b) (snd (h (bw_world b))) \<Longrightarrow> drive_within D b (snd (on_bw h b))"
  "drive_within D b (snd (wait_api env' la b))"
  using same_room_waits(2)[of b]
  by (auto simp: drive_within_def files_within_def on_machine_def on_bw_def on_host_def on_link_def wait_api_def Let_def same_room_def split: prod.splits)

lemma as_text_within [restore_frames]: "drive_within D b (snd r) \<Longrightarrow> drive_within D b (snd (as_text env r))"
  unfolding as_text_def by (rule drive_within.mapped)

lemma drive_steps_within [restore_frames]:
  "drive_within D b (snd (start_witness env net s rd b))"
  "drive_within D b (snd (arm_resume env rid sec jr b))"
  "drive_within D b (snd (await_nudge env req jr delivery b))"
  unfolding start_witness_def arm_resume_def await_nudge_def Let_def
  by (intro drive_within.branch drive_within.chain drive_within.mapped drive_within.on_option drive_within.after restore_frames; simp?)+

lemma drive_ops_within [restore_frames]: "drive_within D b (snd (drive_ops env req la net p s jr rd ops delivery b))"
  by (induction env req la net p s jr rd ops delivery b rule: drive_ops.induct) (auto intro!: drive_within.chain restore_frames)
lemma take_lease_within [restore_frames]:
  assumes "SLOTS_DIR \<in> D"
  shows "files_within D w (snd (take_lease env i net w))"
proof -
  have r: "files_within D w (snd (rewrite_slot_atomic io k body w))" for io k body
  proof -
    obtain q w' where q: "rewrite_atomic io SLOTS_DIR k body w = (q, w')" by fastforce
    have "files w' p = files w p" if "fst p \<notin> D" for p
    proof -
      have "p \<noteq> (SLOTS_DIR, tmp_name k) \<and> p \<noteq> (SLOTS_DIR, show_u8 k)" using that assms by auto
      then show ?thesis using rewrite_atomic_effect[OF q] by blast
    qed
    then show ?thesis using q by (cases q) (auto simp: rewrite_slot_atomic_def map_err_def files_within_def)
  qed
  have c: "files_within D w (snd (and_then (rewrite_slot_atomic io k body w) (\<lambda>_ v. (Inr x, v))))" for io k body and x :: slot
    using r by (simp add: snd_and_then_pure)
  have "files_within D w (snd (lease io k s r w))" "files_within D w (snd (lease_clone io k s r w))" for io k s r
    by (auto simp: lease_def lease_clone_def snd_sync_then c restore_frames split: sum.splits option.splits slot_token.splits)
  then show ?thesis
    unfolding take_lease_def by (intro files_within.on_option files_within.mapped restore_frames) simp
qed

lemma record_slot_within [restore_frames]:
  "rid \<in> D \<Longrightarrow> files_within D w (snd (record_slot_on_room tx fs ts io rid sl net w))"
  unfolding record_slot_on_room_def by (intro files_within.on_sum files_within.on_option files_within.mapped restore_frames)

subsection \<open>The tombstone\<close>

abbreviation intent_key :: "string \<Rightarrow> string \<times> string" where "intent_key rid \<equiv> (RESTORE_INTENTS_DIR, restore_intent_name rid)"




lemma write_intent_effect:
  assumes "write_intent env i w = (r, w')"
  shows "files_within {RESTORE_INTENTS_DIR} w w'"
    and "files w' (intent_key (ri_room_id i)) = files w (intent_key (ri_room_id i)) \<or> files w' (intent_key (ri_room_id i)) = Some (dv_intent_json env i)"
    and "r = Inr () \<Longrightarrow> files w' (intent_key (ri_room_id i)) = Some (dv_intent_json env i)"
proof -
  have "restore_intent_tmp (ri_room_id i) \<noteq> restore_intent_name (ri_room_id i)"
  proof
    assume "restore_intent_tmp (ri_room_id i) = restore_intent_name (ri_room_id i)"
    then have "last (restore_intent_tmp (ri_room_id i)) = last (restore_intent_name (ri_room_id i))" by simp
    then show False by (simp add: restore_intent_tmp_def restore_intent_name_def)
  qed
  then have "files_within {RESTORE_INTENTS_DIR} w w'
    \<and> (files w' (intent_key (ri_room_id i)) = files w (intent_key (ri_room_id i)) \<and> r \<noteq> Inr ()
       \<or> files w' (intent_key (ri_room_id i)) = Some (dv_intent_json env i))"
    using assms by (auto simp: write_intent_def write_intent_atomic_def files_within_def map_err_def Let_def and_then_def fs_defs sync_dir_def
        split: sum.splits option.splits prod.splits if_splits)
  then show "files_within {RESTORE_INTENTS_DIR} w w'"
    and "files w' (intent_key (ri_room_id i)) = files w (intent_key (ri_room_id i)) \<or> files w' (intent_key (ri_room_id i)) = Some (dv_intent_json env i)"
    and "r = Inr () \<Longrightarrow> files w' (intent_key (ri_room_id i)) = Some (dv_intent_json env i)" by auto
qed

lemma spawned_intent_fields [simp]:
  "ri_room_id (spawned_intent env i la n) = ri_room_id i" "ri_snapshot_id (spawned_intent env i la n) = ri_snapshot_id i"
  "ri_slot_index (spawned_intent env i la n) = ri_slot_index i" "ri_clone_net_index (spawned_intent env i la n) = ri_clone_net_index i"
  by (simp_all add: spawned_intent_def Let_def)




lemma admit_restore_ok:
  assumes "admit_restore env req p w = (Inr (i, net), w1)"
  obtains idx where "sm_slot_index (prs_meta p) = Some idx" "i = planned_intent req p idx net" "is_id_shaped (rq_room_id req)"
    "rq_target_slot req = None \<or> rq_target_slot req = Some idx" "files w1 = files w" "on_world (source_revalidate (dv_source env) p) w = (Inr (), w1)"
  using assms by (auto simp: admit_restore_def and_then_Inr valid_room_id on_world_def on_host_def
      split: if_splits sum.splits option.splits prod.splits)


lemma spawn_restore_guard:
  assumes "spawn_restore env req w = (Inr la, w')"
  shows "rg_room_dir (rl_guard la) = sq_room_id req" "rl_barrier la" "rl_network_namespace la = sq_network_namespace req"
proof -
  have "rg_room_dir (rl_guard la) = rg_room_dir g \<and> rl_barrier la \<and> rl_network_namespace la = sq_network_namespace req" if "launch_guarded env req base deps g v = (Inr la, w')" for base deps g v
    using that by (cases deps) (auto simp: launch_guarded_def Let_def split: sum.splits prod.splits)
  then show "rg_room_dir (rl_guard la) = sq_room_id req" "rl_barrier la" "rl_network_namespace la = sq_network_namespace req"
    using assms by (fastforce simp: spawn_restore_def Let_def and_then_Inr guard_new_def split: option.splits)+
qed




subsection \<open>A restore that succeeds\<close>

text \<open>A stamped path is at this moment of the machine what it was when it was stamped.\<close>

definition stamp_holds :: "('n, 's) source_env \<Rightarrow> 'n \<Rightarrow> stamped_restore_path \<Rightarrow> bool" where
  "stamp_holds env n sp = (case so_lstat env (stp_path sp) n of
     Inl _ \<Rightarrow> False | Inr (k, i) \<Rightarrow> i = stp_stamp sp \<and> kind_fits (stp_kind sp) k i)"

text \<open>The jail holds the very inode the preparation stamped under a label.\<close>

definition staged_inode :: "('n, 's) source_env \<Rightarrow> prepared_restore_source \<Rightarrow> string \<Rightarrow> string \<Rightarrow> 'n \<Rightarrow> bool" where
  "staged_inode env p label staged n = (case stamped (prs_identity p) label of
     Inl _ \<Rightarrow> False | Inr sp \<Rightarrow> so_lstat env staged n = Inr (RegularFile, stp_stamp sp))"

lemma recapture_same: "recapture env sp n = Inr sp \<longleftrightarrow> stamp_holds env n sp"
  by (cases sp) (auto simp: recapture_def stamp_capture_def stamp_holds_def split: sum.splits prod.splits)

lemma source_revalidate_ok:
  assumes "source_revalidate env p n = (Inr (), n')"
  shows "list_all (stamp_holds env n') (prs_identity p)"
proof -
  have "identity_revalidate env ident v = Inr () \<Longrightarrow> list_all (stamp_holds env v) ident" for ident v
    by (induction env ident v rule: identity_revalidate.induct) (auto simp: recapture_same split: sum.splits if_splits)
  then show ?thesis using assms by (auto simp: source_revalidate_def and_then_Inr)
qed

lemma verify_staged_ok:
  assumes "verify_staged env p jr n = (Inr (), n')"
  shows "staged_inode env p ''backing image'' (path_join jr JAIL_ROOTFS) n" "staged_inode env p ''snapshot memory'' (path_join jr SNAPSHOT_MEM_FILE) n"
    "verify_staged_vmstate env p (path_join jr SNAPSHOT_VMSTATE_FILE) n' = Inr ()"
  using assms by (auto simp: verify_staged_def and_then_Inr staged_inode_def assert_staged_bind_def split: sum.splits if_splits prod.splits)

lemma capture_all_labels: "capture_all env xs n = Inr ident \<Longrightarrow> map (\<lambda>sp. (stp_label sp, stp_path sp, stp_kind sp)) ident = xs"
proof (induction xs arbitrary: ident)
  case (Cons x xs)
  then show ?case by (cases x; cases "capture_all env xs n") (auto simp: stamp_capture_def split: sum.splits if_splits prod.splits)
qed simp

lemma prepare_restore_ok:
  assumes "prepare_restore env sd img ts w = (Inr p, w')"
  shows "is_id_shaped (sm_snapshot_id (prs_meta p))"
    "map (\<lambda>sp. (stp_label sp, stp_path sp, stp_kind sp)) (prs_identity p) = restore_sources (prs_snapshot_dir p) (prs_image p)"
    "\<exists>fc hash. plan_restore (prs_meta p) fc hash (map_option ts_digest (prs_toolstore p)) = Inr \<lparr>rp_ops = prs_ops p\<rparr>"
proof -
  obtain sd' img' ts_dir t v where o: "prepare_opened env sd' img' ts_dir t True v = (Inr p, w')"
    using assms by (auto simp: prepare_restore_def prepare_restore_inner_def and_then_Inr)
  obtain mg mp n m fc h pl n' ident where m: "read_snapshot_meta env mg mp n = Inr m"
    and pl: "map_sum restore_error_text id (plan_restore m fc h (map_option ts_digest t)) = Inr pl"
    and c: "identity_capture env sd' img' n' = Inr ident"
    and p: "prs_meta p = m" "prs_ops p = rp_ops pl" "prs_identity p = ident" "prs_snapshot_dir p = sd'" "prs_image p = img'" "prs_toolstore p = t"
    using o by (auto simp: prepare_opened_def Let_def and_then_Inr)
  show "is_id_shaped (sm_snapshot_id (prs_meta p))"
    using m p by (auto simp: read_snapshot_meta_def valid_room_id split: sum.splits if_splits option.splits prod.splits)
  show "map (\<lambda>sp. (stp_label sp, stp_path sp, stp_kind sp)) (prs_identity p) = restore_sources (prs_snapshot_dir p) (prs_image p)"
    using c p capture_all_labels by (simp add: identity_capture_def)
  show "\<exists>fc hash. plan_restore (prs_meta p) fc hash (map_option ts_digest (prs_toolstore p)) = Inr \<lparr>rp_ops = prs_ops p\<rparr>"
    using pl p by (cases "plan_restore m fc h (map_option ts_digest t)"; cases pl) auto
qed

lemma lease_clone_ok:
  assumes run: "lease_clone env i s r w = (Inr sl, w')"
  shows "\<exists>ls. slot_state w' i = Some (TokCloneLeases s ls) \<and> r \<in> set ls" "sl = derive i"
proof -
  obtain c where c: "locked_slot env i w = Inr (Some c)" and ids: "is_id_shaped s" "is_id_shaped r"
    using run by (auto simp: lease_clone_def split: sum.splits option.splits if_splits)
  note st = locked_slot_state(1)[OF c]
  consider u where "parse_token c = TokReserved s" "rewrite_slot_atomic env i (clone_leases_token s [r]) w = (Inr u, w')"
    | ls k where "parse_token c = TokCloneLeases s ls" "binary_search ls r = Inr k" "w' = w"
    | ls k u where "parse_token c = TokCloneLeases s ls" "binary_search ls r = Inl k" "length ls \<noteq> MAX_CLONE_LEASES"
        "rewrite_slot_atomic env i (clone_leases_token s (insert_at k r ls)) w = (Inr u, w')"
    using run c by (auto simp: lease_clone_def chain_simps split: slot_token.splits if_splits sum.splits)
  then show "\<exists>ls. slot_state w' i = Some (TokCloneLeases s ls) \<and> r \<in> set ls"
  proof cases
    case 1
    have "parse_token (clone_leases_token s [r]) = TokCloneLeases s [r]"
      using ids by (simp add: parse_clone_leases_token canonical_lessees_def MAX_CLONE_LEASES_def)
    then show ?thesis using rewrite_slot_ok 1 by fastforce
  next
    case 2
    then have "sorted_wrt (<) ls" using parse_token_clone_canonical by (auto simp: canonical_lessees_def)
    then show ?thesis using 2 st binary_search_member[of ls r] by auto
  next
    case 3
    have "canonical_lessees ls" using parse_token_clone_canonical 3(1) by blast
    note ins = canonical_insert[OF this 3(2,3) ids(2)]
    show ?thesis using rewrite_slot_ok[OF 3(4)] parse_clone_leases_token[OF ids(1) ins(3)] ins(2) by simp
  qed
  show "sl = derive i" using run c by (auto simp: lease_clone_def chain_simps split: slot_token.splits if_splits sum.splits)
qed

lemma take_lease_ok:
  assumes "take_lease env i net w = (Inr s, w')" "is_id_shaped (ri_snapshot_id i)" "is_id_shaped (ri_room_id i)"
  shows "holds_lease w' (ri_slot_index i) (ri_snapshot_id i) (ri_room_id i)" "s = derive (ri_slot_index i)"
proof -
  have lk: "(if net \<noteq> None then lease_clone else lease) (dv_io env) (ri_slot_index i) (ri_snapshot_id i) (ri_room_id i) w = (Inr s, w')"
    using assms(1) by (auto simp: take_lease_def map_err_def split: option.splits sum.splits prod.splits if_splits)
  have d: "sl = derive k" if "lease io k x r v = (Inr sl, v')" for io k x r v v' sl
    using that by (auto simp: lease_def chain_simps split: if_splits sum.splits option.splits slot_token.splits)
  have "holds_lease w' (ri_slot_index i) (ri_snapshot_id i) (ri_room_id i) \<and> s = derive (ri_slot_index i)"
  proof (cases net)
    case None
    then have l: "lease (dv_io env) (ri_slot_index i) (ri_snapshot_id i) (ri_room_id i) w = (Inr s, w')" using lk by simp
    then show ?thesis using lease_ok[OF l assms(2,3)] d by (simp add: holds_lease_def)
  next
    case (Some n)
    then have "lease_clone (dv_io env) (ri_slot_index i) (ri_snapshot_id i) (ri_room_id i) w = (Inr s, w')" using lk by simp
    from lease_clone_ok[OF this] show ?thesis by (auto simp: holds_lease_def)
  qed
  then show "holds_lease w' (ri_slot_index i) (ri_snapshot_id i) (ri_room_id i)" "s = derive (ri_slot_index i)" by auto
qed
lemma establish_lease_ok:
  assumes est: "establish_lease env i la net b = (Inr (s, la'), b')" and ids: "is_id_shaped (ri_snapshot_id i)" "is_id_shaped (ri_room_id i)"
  shows "holds_lease (bw_world b') (ri_slot_index i) (ri_snapshot_id i) (ri_room_id i)" "s = derive (ri_slot_index i)"
    "\<exists>pid st. files (bw_world b') (intent_key (ri_room_id i)) = Some (dv_intent_json env (i\<lparr>ri_pid := pid, ri_pid_starttime := st, ri_boundary := Leased\<rparr>))"
proof -
  define i' where "i' = spawned_intent env i la (machine b)"
  obtain b1 b2 b3 b4 b5 where t: "on_bw (take_lease env i' net) b1 = (Inr s, b2)"
    and wi: "on_bw (write_intent env (i'\<lparr>ri_boundary := Leased\<rparr>)) b2 = (Inr (), b3)"
    and r: "on_bw (record_slot_on_room (dv_text env) (be_meta_from_json (dv_boot env)) (be_meta_to_json (dv_boot env)) (dv_io env)
          (ri_room_id i) s net) b3 = (Inr (), b4)"
    and a: "as_text env (on_machine (attach_leased_slot (dv_launch env) la' s) b4) = (Inr (), b5)"
    and c: "on_machine (verify_clone_custody env la' s net) b5 = (Inr (), b')"
    using est unfolding establish_lease_def Let_def i'_def[symmetric] and_then_Inr by (auto simp: i'_def)
  obtain w where w: "take_lease env i' net (bw_world b1) = (Inr s, w)" "bw_world b2 = w" using t by (auto simp: on_bw_def split: prod.splits)
  note lk = take_lease_ok[OF w(1)]
  obtain v where v: "write_intent env (i'\<lparr>ri_boundary := Leased\<rparr>) w = (Inr (), v)" "bw_world b3 = v" using wi w by (auto simp: on_bw_def split: prod.splits)
  note wr = write_intent_effect[OF v(1)]
  have "drive_within {ri_room_id i} b3 b4" using r by (metis drive_within_primitives(8) insertI1 record_slot_within snd_conv)
  moreover have "drive_within {ri_room_id i} b4 b5" using a by (metis as_text_within drive_within_primitives(3) snd_conv)
  moreover have "drive_within {ri_room_id i} b5 b'" using c by (metis drive_within_primitives(3) snd_conv)
  ultimately have "drive_within {ri_room_id i} b3 b'" by (meson drive_within.trans)
  then have same: "fst p \<noteq> ri_room_id i \<Longrightarrow> files (bw_world b') p = files v p" for p using v(2) by (cases p) (simp add: drive_within_def files_within_def)
  have "slot_state (bw_world b') = slot_state w"
    using same intent_dir_names ids(2) wr(1) by (auto simp: slot_state_def files_within_def)
  then show "holds_lease (bw_world b') (ri_slot_index i) (ri_snapshot_id i) (ri_room_id i)" "s = derive (ri_slot_index i)"
    using lk ids by (simp_all add: holds_lease_def i'_def)
  have "files (bw_world b') (intent_key (ri_room_id i)) = Some (dv_intent_json env (i'\<lparr>ri_boundary := Leased\<rparr>))"
    using same intent_dir_names(1)[OF ids(2)] wr(3) by (simp add: i'_def)
  then show "\<exists>pid st. files (bw_world b') (intent_key (ri_room_id i)) = Some (dv_intent_json env (i\<lparr>ri_pid := pid, ri_pid_starttime := st, ri_boundary := Leased\<rparr>))"
    by (auto simp: i'_def spawned_intent_def Let_def)
qed
text \<open>The guest ran only after the last look at the source and at the jail, and its nudge was acknowledged.\<close>

definition resumed_from_prepared :: "('n, 's) drive_env \<Rightarrow> string \<Rightarrow> prepared_restore_source \<Rightarrow> string \<Rightarrow> bool" where
  "resumed_from_prepared env room p jr \<longleftrightarrow>
     (\<exists>n0 n1 n2 n3 socket. verify_staged (dv_source env) p jr n0 = (Inr (), n1) \<and> source_revalidate (dv_source env) p n1 = (Inr (), n2)
        \<and> staged_inode (dv_source env) p ''backing image'' (path_join jr JAIL_ROOTFS) n0
        \<and> staged_inode (dv_source env) p ''snapshot memory'' (path_join jr SNAPSHOT_MEM_FILE) n0
        \<and> verify_staged_vmstate (dv_source env) p (path_join jr SNAPSHOT_VMSTATE_FILE) n1 = Inr ()
        \<and> list_all (stamp_holds (dv_source env) n2) (prs_identity p)
        \<and> api_patch (dv_boot env) socket ''/vm'' (JObj [(''state'', JStr ''Resumed'')]) n2 = (Inr (), n3))
     \<and> (\<exists>payload l l'. rp_room_id payload = room
        \<and> serve_resume_inner (be_link (dv_boot env)) (listener_path_for jr RESUME_PORT) payload l = (Inr (), l'))"

lemma as_text_Inr [simp]: "as_text env r = (Inr a, v) \<longleftrightarrow> r = (Inr a, v)"
  by (cases r; cases "fst r") (auto simp: as_text_def map_err_def)

lemma drive_ops_ok:
  assumes "drive_ops env req la net p s jr rd [InstallCustody, LoadSnapshot vs ms, ResumeVm, ApplyHygieneNudgeAndAwaitAck] None b = (Inr (), b')"
  shows "resumed_from_prepared env (rq_room_id req) p jr"
proof -
  obtain b1 b2 b3 b4 payload where a: "arm_resume env (rq_room_id req) (rq_secrets req) jr b1 = (Inr payload, b2)"
    and r: "on_machine (resume_guest env req la net p s jr) b3 = (Inr (), b4)" and n: "await_nudge env req jr (Some payload) b4 = (Inr (), b')"
    using assms by (auto simp: and_then_Inr)
  have "rp_room_id payload = rq_room_id req"
    using a by (auto simp: arm_resume_def and_then_Inr build_resume_payload_def resume_payload_new_def split: sum.splits)
  moreover obtain l where "serve_resume_inner (be_link (dv_boot env)) (listener_path_for jr RESUME_PORT) payload (bw_link b4) = (Inr (), l)"
    using n by (auto simp: await_nudge_def Let_def on_link_def await_acked_def task_outcome_def split: prod.splits sum.splits if_splits task_answer.splits stop.splits)
  moreover obtain n' n'' where "resume_guest env req la net p s jr n' = (Inr (), n'')"
    using r by (auto simp: on_machine_def on_bw_def on_host_def on_programs_def split: prod.splits)
  then obtain n0 n1 n2 n3 where "verify_staged (dv_source env) p jr n0 = (Inr (), n1)" "source_revalidate (dv_source env) p n1 = (Inr (), n2)"
      "api_patch (dv_boot env) (rl_socket la) ''/vm'' (JObj [(''state'', JStr ''Resumed'')]) n2 = (Inr (), n3)"
    by (auto simp: resume_guest_def and_then_Inr)
  ultimately show ?thesis unfolding resumed_from_prepared_def using verify_staged_ok source_revalidate_ok by metis
qed

text \<open>What a successful restore has done. The snapshot attests a neutral base, and the room runs in the exact slot the snapshot froze and holds
  its lease; the durable intent says so. The guest was resumed only after the staged inodes, the memory file and the state file were
  those of the preparation and every prepared path still was what it had been, with nothing between that last look and the resume; and the
  guest acknowledged the nudge for this room.\<close>

theorem restored_room_is_the_frozen_one:
  assumes run: "restore env req w l = (Inr d, w', l')"
  shows "\<exists>p idx i jr. rd_room_id d = rq_room_id req \<and> rd_snapshot_id d = sm_snapshot_id (prs_meta p) \<and> sm_provenance (prs_meta p) = Neutral
    \<and> sm_slot_index (prs_meta p) = Some idx \<and> rd_slot d = derive idx \<and> holds_lease w' idx (rd_snapshot_id d) (rd_room_id d)
    \<and> files w' (RESTORE_INTENTS_DIR, restore_intent_name (rd_room_id d)) = Some (dv_intent_json env i)
    \<and> ri_boundary i = Leased \<and> ri_room_id i = rd_room_id d \<and> ri_snapshot_id i = rd_snapshot_id d \<and> ri_slot_index i = idx
    \<and> map (\<lambda>sp. (stp_label sp, stp_path sp, stp_kind sp)) (prs_identity p) = restore_sources (prs_snapshot_dir p) (prs_image p)
    \<and> jail_root_dir (dv_home env) (dv_config env) (rq_room_id req) = Some jr \<and> resumed_from_prepared env (rq_room_id req) p jr"
proof -
  obtain p v where p: "prepare_restore (dv_source env) (rq_snapshot_dir req) (rq_image req) (rq_toolstore req) w = (Inr p, v)"
    and rp: "restore_prepared env req p v l = (Inr d, w', l')"
    using run by (auto simp: restore_def split: if_splits prod.splits sum.splits)
  note P = prepare_restore_ok[OF p]
  obtain fc h where pl: "plan_restore (prs_meta p) fc h (map_option ts_digest (prs_toolstore p)) = Inr \<lparr>rp_ops = prs_ops p\<rparr>" using P(3) by blast
  then have ops: "prs_ops p = [InstallCustody, LoadSnapshot (''/'' @ SNAPSHOT_VMSTATE_FILE) (''/'' @ SNAPSHOT_MEM_FILE), ResumeVm, ApplyHygieneNudgeAndAwaitAck]"
    and neutral: "sm_provenance (prs_meta p) = Neutral"
    by (auto simp: plan_restore_def split: sum.splits if_splits)
  obtain i net v1 la v4 where ad: "admit_restore env req p v = (Inr (i, net), v1)"
    and rl: "run_launched env req p i net la v4 l = (Inr d, w', l')" using rp by (auto simp: restore_prepared_def map_err_def split: prod.splits sum.splits)
  obtain idx where i: "sm_slot_index (prs_meta p) = Some idx" "i = planned_intent req p idx net" "is_id_shaped (rq_room_id req)"
    using admit_restore_ok[OF ad] by metis
  then have f: "ri_room_id i = rq_room_id req" "ri_snapshot_id i = sm_snapshot_id (prs_meta p)" "ri_slot_index i = idx" by (simp_all add: planned_intent_def)
  obtain s la' b v5 where dr: "drive_to_ready env req i la net p (launch_state la v5 l) = (Inr (s, la'), b)"
    and d: "rd_slot d = s" "rd_room_id d = rq_room_id req" "rd_snapshot_id d = sm_snapshot_id (prs_meta p)" "w' = bw_world b"
    using rl by (auto simp: run_launched_def split: option.splits prod.splits sum.splits)
  obtain b1 b2 jr rd where e: "establish_lease env i la net (launch_state la v5 l) = (Inr (s, la'), b1)"
    and jr: "jail_root_dir (dv_home env) (dv_config env) (ri_room_id i) = Some jr"
    and dw: "drive_within {} b1 b2" and o: "drive_ops env req la' net p s jr rd (prs_ops p) None b2 = (Inr (), b)"
    using dr by (auto simp: drive_to_ready_def and_then_Inr split: option.splits prod.splits) (metis drive_within_primitives(3) snd_conv)
  have "drive_within {} b2 b" using drive_ops_within[of "{}" b2 env req la' net p s jr rd "prs_ops p" None] unfolding o by simp
  from drive_within.trans[OF dw this] have same: "files w' = files (bw_world b1)"
    using d(4) by (auto simp: drive_within_def files_within_def fun_eq_iff)
  have st: "slot_state w' = slot_state (bw_world b1)" using same by (simp add: slot_state_def fun_eq_iff)
  note E = establish_lease_ok[OF e, unfolded f, OF P(1) i(3)]
  obtain pid st where j: "files (bw_world b1) (intent_key (rq_room_id req)) = Some (dv_intent_json env (i\<lparr>ri_pid := pid, ri_pid_starttime := st, ri_boundary := Leased\<rparr>))"
    using E(3) by blast
  have res: "resumed_from_prepared env (rq_room_id req) p jr" by (rule drive_ops_ok[OF o[unfolded ops]])
  show ?thesis
    by (rule exI[of _ p], rule exI[of _ idx], rule exI[of _ "i\<lparr>ri_pid := pid, ri_pid_starttime := st, ri_boundary := Leased\<rparr>"], rule exI[of _ jr])
      (use d E(1,2) j res same st f neutral i(1) jr P(2) in \<open>simp add: holds_lease_def\<close>)
qed

text \<open>A host with one state on which everything succeeds, and a guest that plays its part.\<close>

definition demo_stamp :: file_identity where
  "demo_stamp = \<lparr>fi_device = 1, fi_inode = 2, fi_len = 1, fi_mode = 0, fi_mtime = 0, fi_mtime_nsec = 0, fi_ctime = 0, fi_ctime_nsec = 0\<rparr>"

definition demo_frozen :: snapshot_meta where
  "demo_frozen = \<lparr>sm_schema_version = 1, sm_snapshot_id = demo_owner, sm_created_at = 0, sm_fc_version = ''v1'', sm_rootfs_hash = ''sha256:h'',
     sm_base_room_id = demo_owner, sm_slot_index = Some 1, sm_guest_ip = None, sm_base_repo_sha = None, sm_toolstore_sha256 = None,
     sm_provenance = Neutral\<rparr>"

definition demo_quiet_reap :: "unit reap_env" where
  "demo_quiet_reap = \<lparr>re_io = demo_env, re_text = (\<lambda>_. []), re_poisoned = False,
     re_run = (\<lambda>c n. (Inr \<lparr>out_success = True, out_stdout = (if cmd_program c = ''id'' then ''0'' else if cmd_program c = ''getent'' then ''fc:x:7:8'' else ''v1''),
        out_stderr = []\<rparr>, n)),
     re_jail_left = (\<lambda>_ _. None), re_room_left = (\<lambda>_. None), re_stat = (\<lambda>_ _. Inl NotFound), re_sleep = (\<lambda>n. n), re_polls = (\<lambda>_. 3)\<rparr>"

definition demo_sealed_images :: "unit image_env" where
  "demo_sealed_images = \<lparr>ig_reap = demo_quiet_reap,
     ig_inode = \<lparr>ie_text = (\<lambda>_. []), ie_open = (\<lambda>_ _. Inr ()), ie_metadata = (\<lambda>_ _. Inr (RegularFile, 1)),
       ie_ops = (\<lambda>_. \<lparr>fo_immutable = 16, fo_get = (\<lambda>f. (Inr 16, f)), fo_set = (\<lambda>_ f. (Inr (), f)), fo_sync = (\<lambda>f. (Inr (), f))\<rparr>)\<rparr>,
     ig_exists = (\<lambda>_ _. True), ig_len = (\<lambda>_ _. Inl NotFound), ig_bytes = (\<lambda>_ _. Inl NotFound), ig_identity = (\<lambda>_ _. Inl NotFound),
     ig_manifest_file = (\<lambda>_ _. Inl NotFound), ig_manifest = (\<lambda>_. None), ig_sha256 = (\<lambda>_. []), ig_held = (\<lambda>p _. p), ig_dup_fails = None,
     ig_arch = X86_64\<rparr>"

definition demo_quiet_procs :: "unit proc_env" where
  "demo_quiet_procs = \<lparr>pe_reap = demo_quiet_reap, pe_spawn = (\<lambda>_ n. (Inr 7, n)), pe_try_wait = (\<lambda>_ _. Inr None), pe_wait = (\<lambda>_ n. (None, n)),
     pe_child_id = (\<lambda>p _. Some p), pe_kill = (\<lambda>_ n. n), pe_settle = (\<lambda>n. n), pe_unlink = (\<lambda>_ n. n), pe_len = (\<lambda>_ _. None),
     pe_path_var = Some ''/bin'', pe_executable = (\<lambda>_. True)\<rparr>"

definition demo_launch_env :: "(unit, string) launch_env" where
  "demo_launch_env = \<lparr>la_boot = \<lparr>be_images = demo_sealed_images, be_procs = demo_quiet_procs, be_link = demo_link_env, be_home = None,
     be_config = demo_config, be_kvm_opens = (\<lambda>_. True), be_is_file = (\<lambda>_ _. True), be_canonicalize = (\<lambda>p _. Inr p),
     be_json = (\<lambda>_. Inr ''{}''), be_secs_text = (\<lambda>_. ''30''), be_curl = (\<lambda>_ n. (Inr \<lparr>co_code = Some 0, co_stdout = [], co_stderr = []\<rparr>, n)),
     be_connects = (\<lambda>_ _. True), be_log = (\<lambda>_. []), be_meta_to_json = (\<lambda>_. Inr ''m''),
     be_meta_from_json = (\<lambda>_. Inr (room_meta_new demo_owner None (Some 7) None False 0)),
     be_now = 0, be_scratch_file = None, be_lost_worker = (\<lambda>_. None), be_cancel = (\<lambda>_. None)\<rparr>,
     la_lstat = (\<lambda>_ _. Inr \<lparr>st_regular = True, st_uid = 7, st_mode = 0x180\<rparr>), la_copy = (\<lambda>_ _ n. (Inr (), n)), la_chmod = (\<lambda>_ _ n. (Inr (), n)),
     la_chown = (\<lambda>_ _ _ n. (Inr (), n)), la_go = (\<lambda>n. (Inr (), n)), la_flush = (\<lambda>n. (Inr (), n))\<rparr>"

definition demo_snap_env :: "unit snap_env" where
  "demo_snap_env = \<lparr>xe_reap = demo_quiet_reap, xe_home = None, xe_config = demo_config,
     xe_index = \<lparr>ix_exists = (\<lambda>_. True), ix_canonicalize = Inr, ix_cwd = Inr ''/'', ix_entries = Inl NotFound, ix_from_json = (\<lambda>_. Inl []),
       ix_try_lock = (\<lambda>_. Inr True), ix_text = (\<lambda>_. [])\<rparr>,
     xe_from_slice = (\<lambda>_. Inl []), xe_to_json = (\<lambda>_. Inl []), xe_meta_to_json = (\<lambda>_. Inl []), xe_meta_from_json = (\<lambda>_. Inr demo_frozen),
     xe_attestation_to_json = (\<lambda>_. Inl []), xe_attestation_from_json = (\<lambda>_. Inl []), xe_irregular = (\<lambda>_. False), xe_ids = Inr (7, 8),
     xe_api = (\<lambda>_ _ _ _ n. (Inr (), n)), xe_created = (\<lambda>_. (None, None)), xe_flag_get = (\<lambda>_ _. None), xe_flag_set = (\<lambda>_ _ f. (None, f)),
     xe_flag_sync = (\<lambda>_ _. None), xe_identity = (\<lambda>_ _. Inr demo_stamp), xe_sha256 = (\<lambda>_. Inr ''h''), xe_jail_entries = (\<lambda>_. Inl NotFound),
     xe_attestation_entries = Inl NotFound, xe_occupied = (\<lambda>_. Inr False), xe_out_key = id, xe_new_id = demo_owner, xe_fresh_id = demo_owner, xe_now = 0\<rparr>"

definition demo_drive_env :: "(unit, string) drive_env" where
  "demo_drive_env = \<lparr>dv_source = \<lparr>so_launch = demo_launch_env, so_snap = demo_snap_env, so_flags = (\<lambda>_ _. 16),
       so_lstat = (\<lambda>p _. Inr (if p = ''/sd'' then Directory else RegularFile, demo_stamp)), so_fstat = (\<lambda>_ _. Inr (RegularFile, demo_stamp)),
       so_open = (\<lambda>p _. Inr p), so_seek = (\<lambda>_ _. None), so_read = (\<lambda>_ _. Inr ''{}''), so_sha256 = (\<lambda>_ _. Inr ''h''), so_is_dir = (\<lambda>_ _. True),
       so_occupied = (\<lambda>_ _. Inr False)\<rparr>,
     dv_intent_json = (\<lambda>i. boundary_label (ri_boundary i)), dv_entropy = (\<lambda>_. Inr ''e''), dv_challenges = (''c1'', ''c2''), dv_task_lost = False\<rparr>"

definition demo_restore_request :: restore_request where
  "demo_restore_request = \<lparr>rq_room_id = demo_owner, rq_snapshot_dir = ''/sd'', rq_image = ''/img'', rq_toolstore = None, rq_target_slot = None,
     rq_label = None, rq_keep = False, rq_witness = False, rq_egress = PlanObserve, rq_secrets = None, rq_out_dir = None, rq_ack_timeout = 30000,
     rq_clone_net = None\<rparr>"

definition demo_frozen_world :: "unit room_host world" where
  "demo_frozen_world = \<lparr>dirs = (\<lambda>d. d = ''slots''),
     files = (\<lambda>p. if p = (''slots'', ''1'') then Some (reservation_token demo_owner) else None),
     host = \<lparr>jails = Map.empty, clone_side = \<lparr>markers = Map.empty, net_state = ()\<rparr>\<rparr>\<rparr>"

definition demo_nudge :: resume_payload where
  "demo_nudge = resume_payload_new ''c1'' ''c2'' demo_owner ''e'' (secrets_encode [])"

definition demo_guest_link :: "string link" where
  "demo_guest_link = \<lparr>lk_peer = resume_answers demo_nudge, lk_bound = (\<lambda>_. False), lk_log = [], lk_progress = None\<rparr>"
lemma quiet_programs: "on_programs f (h :: unit room_host) = (fst (f ()), h)"
  by (auto simp: on_programs_def split: prod.splits)

lemma quiet_machine:
  fixes w :: "unit room_host world" and b :: "(unit, 's) boot_state"
  shows "on_host (on_programs f) w = (fst (f ()), w)" "on_machine f b = (fst (f ()), b)" "on_world f w = (fst (f ()), w)"
  by (simp_all add: on_host_def quiet_programs on_machine_def on_bw_def on_world_def)

lemmas demo_drive_parts = demo_drive_env_def demo_launch_env_def demo_snap_env_def demo_sealed_images_def demo_quiet_procs_def demo_quiet_reap_def
  demo_restore_request_def demo_config_def

definition demo_prepared :: prepared_restore_source where
  "demo_prepared = \<lparr>prs_snapshot_dir = ''/sd'', prs_image = ''/img'', prs_meta = demo_frozen,
     prs_ops = [InstallCustody, LoadSnapshot (''/'' @ SNAPSHOT_VMSTATE_FILE) (''/'' @ SNAPSHOT_MEM_FILE), ResumeVm, ApplyHygieneNudgeAndAwaitAck],
     prs_identity = map (\<lambda>(l, p, k). \<lparr>stp_label = l, stp_path = p, stp_kind = k, stp_stamp = demo_stamp\<rparr>) (restore_sources ''/sd'' ''/img''),
     prs_vmstate_hash = ''sha256:h'', prs_image_guard = ''/img'', prs_toolstore_dir = None, prs_toolstore = None\<rparr>"

lemma demo_candidates:
  "canonical_candidate (so_index (dv_source demo_drive_env)) ''/sd'' = Inr ''/sd''" "canonical_candidate (so_index (dv_source demo_drive_env)) ''/img'' = Inr ''/img''"
proof -
  have "has_root ''/sd''" "has_root ''/img''" "path_text (components ''/sd'') = ''/sd''" "path_text (components ''/img'') = ''/img''" by code_simp+
  then show "canonical_candidate (so_index (dv_source demo_drive_env)) ''/sd'' = Inr ''/sd''"
    "canonical_candidate (so_index (dv_source demo_drive_env)) ''/img'' = Inr ''/img''"
    by (simp_all add: canonical_candidate_def demo_drive_env_def demo_snap_env_def canonical_loop.simps)
qed

lemma demo_sources: "restore_sources ''/sd'' ''/img'' =
  [(''snapshot directory'', ''/sd'', SourceDirectory), (''backing image'', ''/img'', SourceRegularNonEmpty),
   (''snapshot metadata'', ''/sd/snapshot.json'', SourceRegularNonEmpty), (''snapshot vmstate'', ''/sd/snapshot.vmstate'', SourceRegularNonEmpty),
   (''snapshot memory'', ''/sd/snapshot.mem'', SourceRegularNonEmpty)]"
  by code_simp

lemma demo_stamped:
  "identity_capture (dv_source demo_drive_env) ''/sd'' ''/img'' () = Inr (prs_identity demo_prepared)"
  "identity_revalidate (dv_source demo_drive_env) (prs_identity demo_prepared) () = Inr ()"
  by (simp_all add: identity_capture_def demo_sources demo_prepared_def demo_drive_env_def recapture_def stamp_capture_def kind_fits_def demo_stamp_def)

lemma demo_sealed:
  "inode_require (so_inode (dv_source demo_drive_env)) p label () = (Inr (), ())" "require_file (so_inode (dv_source demo_drive_env)) p label () = (Inr (), ())"
  "open_regular (so_inode (dv_source demo_drive_env)) p label () = (Inr (), ())"
  "require_immutable_restore_source (dv_source demo_drive_env) sd img () = (Inr (), ())"
  by (simp_all add: require_immutable_restore_source_def inode_require_def require_file_def open_regular_def open_inode_def inode_metadata_def require_with_ops_def inspect_flags_def
      demo_drive_env_def demo_launch_env_def demo_sealed_images_def map_err_def)

lemma demo_open:
  "assert_open (dv_source demo_drive_env) (prs_identity demo_prepared) ''backing image'' h () = Inr ()"
  "assert_open (dv_source demo_drive_env) (prs_identity demo_prepared) ''snapshot metadata'' h () = Inr ()"
  "assert_open (dv_source demo_drive_env) (prs_identity demo_prepared) ''snapshot vmstate'' h () = Inr ()"
  "assert_staged_bind (dv_source demo_drive_env) (prs_identity demo_prepared) ''backing image'' (path_join jr JAIL_ROOTFS) () = Inr ()"
  "assert_staged_bind (dv_source demo_drive_env) (prs_identity demo_prepared) ''snapshot memory'' (path_join jr SNAPSHOT_MEM_FILE) () = Inr ()"
proof -
  have "last (path_join jr JAIL_ROOTFS) = CHR ''s''" "last (path_join jr SNAPSHOT_MEM_FILE) = CHR ''m''"
    by (auto simp: path_join_def JAIL_ROOTFS_def SNAPSHOT_MEM_FILE_def)
  moreover have "x \<noteq> ''/sd''" if "last x \<noteq> CHR ''d''" for x using that by auto
  ultimately have "path_join jr JAIL_ROOTFS \<noteq> ''/sd''" "path_join jr SNAPSHOT_MEM_FILE \<noteq> ''/sd''" by simp_all
  then show "assert_open (dv_source demo_drive_env) (prs_identity demo_prepared) ''backing image'' h () = Inr ()"
    "assert_open (dv_source demo_drive_env) (prs_identity demo_prepared) ''snapshot metadata'' h () = Inr ()"
    "assert_open (dv_source demo_drive_env) (prs_identity demo_prepared) ''snapshot vmstate'' h () = Inr ()"
    "assert_staged_bind (dv_source demo_drive_env) (prs_identity demo_prepared) ''backing image'' (path_join jr JAIL_ROOTFS) () = Inr ()"
    "assert_staged_bind (dv_source demo_drive_env) (prs_identity demo_prepared) ''snapshot memory'' (path_join jr SNAPSHOT_MEM_FILE) () = Inr ()"
    by (simp_all add: assert_open_def assert_staged_bind_def stamped_def demo_prepared_def demo_sources demo_drive_env_def demo_stamp_def)
qed

lemma demo_revalidates: "source_revalidate (dv_source demo_drive_env) demo_prepared () = (Inr (), ())"
  using demo_stamped(2) demo_open(1) by (simp add: source_revalidate_def demo_sealed and_then_def) (simp add: demo_prepared_def demo_sealed)
lemma demo_staged: "verify_staged (dv_source demo_drive_env) demo_prepared jr () = (Inr (), ())"
  using demo_open(4,5)[of jr]
  by (simp add: verify_staged_def verify_staged_vmstate_def sha256_open_file_def demo_drive_env_def) (simp add: demo_prepared_def)

lemma demo_prepares:
  "prepare_restore (dv_source demo_drive_env) ''/sd'' ''/img'' None demo_frozen_world = (Inr demo_prepared, demo_frozen_world)"
proof -
  let ?e = "dv_source demo_drive_env"
  have meta: "read_snapshot_meta ?e h mp () = Inr demo_frozen" for h mp
    by (simp add: read_snapshot_meta_def demo_drive_env_def demo_snap_env_def demo_stamp_def MAX_META_BYTES_def demo_frozen_def valid_room_id demo_owner_shaped)
  have opened: "open_prepared_regular ?e p lab True () = (Inr p, ())" for p lab
    by (simp add: open_prepared_regular_def demo_sealed) (simp add: demo_drive_env_def demo_launch_env_def demo_sealed_images_def)
  have sha: "sha256_open_file ?e h () = Inr ''sha256:h''" for h by (simp add: sha256_open_file_def demo_drive_env_def)
  have fc: "in_snapshots ?e (firecracker_version (so_snap ?e)) demo_frozen_world = (Inr ''v1'', demo_frozen_world)"
  proof -
    have "version_line ''v1'' = ''v1''" by code_simp
    then show ?thesis
      by (simp add: in_snapshots_def firecracker_version_def on_state_def quiet_machine)
        (simp add: demo_drive_env_def demo_snap_env_def demo_quiet_reap_def demo_config_def default_config_def)
  qed
  have root: "rootfs_compat_hash ?e ''/sd'' demo_frozen ''/img'' (prs_identity demo_prepared) True demo_frozen_world = (Inr ''sha256:h'', demo_frozen_world)"
  proof -
    have "snapshot_attestations_dir None demo_config \<noteq> None" by (simp add: snapshot_attestations_dir_def resolved_state_base_def demo_config_def)
    moreover have "\<not> dirs demo_frozen_world SNAPSHOT_ATTESTATIONS_DIR" by (simp add: demo_frozen_world_def SNAPSHOT_ATTESTATIONS_DIR_def)
    ultimately have "attested_rootfs_hash (so_snap ?e) ''/sd'' demo_frozen d t i \<lparr>sw = demo_frozen_world, sw_flags = so_flags ?e ()\<rparr>
        = (Inr None, \<lparr>sw = demo_frozen_world, sw_flags = so_flags ?e ()\<rparr>)" for d t i
      by (auto simp: attested_rootfs_hash_def Let_def demo_drive_env_def demo_snap_env_def)
    then show ?thesis
      by (simp add: rootfs_compat_hash_def in_snapshots_def sha stamped_def demo_prepared_def demo_sources)
  qed
  have plan: "plan_restore demo_frozen ''v1'' ''sha256:h'' None = Inr \<lparr>rp_ops = prs_ops demo_prepared\<rparr>"
    by (simp add: plan_restore_def check_compat_def check_schema_def check_toolstore_def demo_frozen_def schema_defs demo_prepared_def)
  have same: "assert_same x x r = Inr ()" for x r
    by (auto simp: assert_same_def find_None_iff set_zip split: option.splits dest!: find_Some_iff[THEN iffD1])
  show ?thesis
    by (simp add: prepare_restore_def prepare_restore_inner_def demo_candidates optional_candidate_def open_toolstore_def quiet_machine demo_sealed
        prepare_opened_def Let_def demo_stamped opened assert_handles_def require_handles_def demo_open meta sha fc root plan same)
      (simp add: demo_prepared_def)
qed
lemma demo_admits:
  "admit_restore demo_drive_env demo_restore_request demo_prepared w
     = (Inr (planned_intent demo_restore_request demo_prepared 1 None, None), w)"
proof -
  have "path_eq ''/img'' ''/img''" "path_eq ''/sd'' ''/sd''" by code_simp+
  then have "validate_prepared_request_paths demo_drive_env demo_restore_request demo_prepared w = Inr ()"
    using demo_candidates
    by (simp add: validate_prepared_request_paths_def Let_def validate_output_disjoint_def optional_candidate_def demo_restore_request_def demo_prepared_def)
  moreover have "resolved_state_base (dv_home demo_drive_env) (dv_config demo_drive_env) = Some ''/s''"
    by (simp add: demo_drive_env_def demo_launch_env_def resolved_state_base_def demo_config_def)
  moreover have "sm_slot_index (prs_meta demo_prepared) = Some 1" by (simp add: demo_prepared_def demo_frozen_def)
  ultimately show ?thesis
    by (simp add: admit_restore_def quiet_machine demo_revalidates canonical_clone_net_def demo_restore_request_def valid_room_id demo_owner_shaped)
qed

lemma demo_intent_created:
  "create_intent_exclusive (dv_intent_json demo_drive_env) (dv_io demo_drive_env) (planned_intent demo_restore_request demo_prepared 1 None) demo_frozen_world
     = (Inr (), demo_frozen_world\<lparr>dirs := (dirs demo_frozen_world)(RESTORE_INTENTS_DIR := True),
          files := (files demo_frozen_world)(intent_key demo_owner \<mapsto> ''pre_spawn'')\<rparr>)"
  by (simp add: create_intent_exclusive_def Let_def demo_drive_env_def demo_launch_env_def demo_sealed_images_def demo_quiet_reap_def fs_defs sync_dir_def
      planned_intent_def demo_restore_request_def demo_frozen_world_def boundary_label_def RESTORE_INTENTS_DIR_def)
lemma demo_env_parts:
  "so_launch (dv_source demo_drive_env) = demo_launch_env" "be_reap (la_boot demo_launch_env) = demo_quiet_reap"
  "re_io demo_quiet_reap = demo_env" "be_home (la_boot demo_launch_env) = None" "be_config (la_boot demo_launch_env) = demo_config"
  "be_procs (la_boot demo_launch_env) = demo_quiet_procs" "be_is_file (la_boot demo_launch_env) p n" "be_kvm_opens (la_boot demo_launch_env) n"
  "be_canonicalize (la_boot demo_launch_env) p n = Inr p" "be_meta_to_json (la_boot demo_launch_env) m = Inr ''m''" "pe_spawn demo_quiet_procs c n = (Inr 7, n)"
  "pe_path_var demo_quiet_procs = Some ''/bin''" "pe_executable demo_quiet_procs p"
  "ig_exists (be_images (la_boot demo_launch_env)) p n" "be_lost_worker (la_boot demo_launch_env) s = None" "be_link (la_boot demo_launch_env) = demo_link_env"
  "la_go demo_launch_env n = (Inr (), n)" "la_flush demo_launch_env n = (Inr (), n)" "be_connects (la_boot demo_launch_env) p n"
  "pe_try_wait demo_quiet_procs k n = Inr None" "re_polls demo_quiet_reap ms = 3"
  "be_meta_from_json (la_boot demo_launch_env) t = Inr (room_meta_new demo_owner None (Some 7) None False 0)"
  by (simp_all add: demo_drive_env_def demo_launch_env_def demo_sealed_images_def demo_quiet_reap_def demo_quiet_procs_def)

lemma demo_quiet_run:
  "re_run demo_quiet_reap c n = (Inr \<lparr>out_success = True, out_stdout = (if cmd_program c = ''id'' then ''0'' else if cmd_program c = ''getent'' then ''fc:x:7:8'' else ''v1''),
     out_stderr = []\<rparr>, n)"
  by (simp add: demo_quiet_reap_def)

lemma demo_quiet_ids: "lookup_firecracker_ids (la_boot demo_launch_env) n = (Inr (7, 8), n)"
proof -
  have "parse_getent_passwd ''fc:x:7:8'' = Some (7, 8)"
    by (simp add: parse_getent_passwd_def lines.simps trim_def is_whitespace_def parse_u32_def parse_uint_def is_ascii_digit_def digits_val_def digit_val_def)
  then show ?thesis by (simp add: lookup_firecracker_ids_def demo_env_parts demo_quiet_run)
qed

lemma demo_quiet_dependencies:
  "resolve_boot_dependencies (la_boot demo_launch_env) n = (Inr (path_join ''/bin'' ''firecracker'', path_join ''/bin'' ''jailer'', 7, 8), n)"
proof -
  have root: "ensure_root (la_boot demo_launch_env) n = (Inr (), n)" for n by (simp add: ensure_root_def demo_env_parts demo_quiet_run trim_def is_whitespace_def)
  have bin: "resolve_binary_on_path (la_boot demo_launch_env) b f n = Inr (path_join ''/bin'' b)" if "b \<in> {''firecracker'', ''jailer''}" for b f n
    using that by (auto simp: resolve_binary_on_path_def demo_env_parts has_root_def components_def slash_def component_of_def List.map_filter_def)
  show ?thesis
    by (simp add: resolve_boot_dependencies_def root check_kvm_def demo_env_parts resolve_firecracker_binary_def resolve_jailer_binary_def
        demo_config_def default_config_def bin demo_quiet_ids)
qed

lemma demo_staging:
  "\<exists>h'. stage_restore_jail demo_launch_env j (spawn_request demo_restore_request demo_prepared None) 7 8 h = (Inr (), h')"
proof -
  note env = demo_env_parts demo_quiet_run quiet_programs
  have n: "\<exists>h'. create_named_target demo_launch_env what j name h = (Inr (), h')" for what name h by (simp add: create_named_target_def env)
  have b: "bind_mount (la_boot demo_launch_env) s t m = (Inr (), m)" for s t m by (simp add: bind_mount_def env Let_def)
  have r: "remount_readonly demo_launch_env t m = (Inr (), m)" for t m by (simp add: remount_readonly_def env)
  have c: "\<exists>h'. copy_owned_private demo_launch_env s j name 7 8 h = (Inr (), h')" for s name h
    by (simp add: copy_owned_private_def quiet_programs) (simp add: demo_launch_env_def quiet_programs)
  have o: "ensure_owned_private demo_launch_env p 7 m = Inr ()" for p m by (simp add: ensure_owned_private_def demo_launch_env_def)
  define h1 where "h1 = h\<lparr>jails := (jails h)(j \<mapsto> jail_names j h)\<rparr>"
  obtain h2 where h2: "create_named_target demo_launch_env ''rootfs'' j JAIL_ROOTFS h1 = (Inr (), h2)" using n by blast
  obtain h3 where h3: "copy_owned_private demo_launch_env (sq_host_vmstate (spawn_request demo_restore_request demo_prepared None)) j SNAPSHOT_VMSTATE_FILE 7 8 h2 = (Inr (), h3)"
    using c by blast
  obtain h4 where h4: "create_named_target demo_launch_env ''mem'' j SNAPSHOT_MEM_FILE h3 = (Inr (), h4)" using n by blast
  have "stage_restore_jail_inner demo_launch_env j (spawn_request demo_restore_request demo_prepared None) 7 8 h = (Inr (), h4)"
    using h3 by (simp add: stage_restore_jail_inner_def Let_def env h1_def[symmetric] h2 b r o h4 map_err_def)
      (simp add: stage_restore_toolstore_def spawn_request_def demo_prepared_def)
  then show ?thesis by (simp add: stage_restore_jail_def)
qed
text \<open>What the files of the demo host look like when the room is launched.\<close>

definition demo_launchable :: "unit room_host world \<Rightarrow> bool" where
  "demo_launchable w \<longleftrightarrow> dirs w SLOTS_DIR \<and> dirs w RESTORE_INTENTS_DIR
     \<and> files w (SLOTS_DIR, ''1'') = Some (reservation_token demo_owner)"

lemma demo_spawns:
  assumes "demo_launchable w" "\<not> dirs w demo_owner"
  shows "\<exists>la w'. spawn_restore demo_launch_env (spawn_request demo_restore_request demo_prepared None) w = (Inr la, w')
    \<and> demo_launchable w' \<and> dirs w' demo_owner \<and> files w' (demo_owner, ROOM_META_FILE) = Some ''m''"
proof -
  let ?r = "spawn_request demo_restore_request demo_prepared None"
  have rid: "sq_room_id ?r = demo_owner" by (simp add: spawn_request_def demo_restore_request_def)
  obtain base where base: "resolved_state_base None demo_config = Some ''/s''" "chroot_base None demo_config = Some base"
    by (simp add: chroot_base_def resolved_state_base_def demo_config_def default_config_def)
  obtain w1 where w1: "prepare_room_dir (la_boot demo_launch_env) demo_owner w = (Inr (), w1)" "dirs w1 demo_owner" "demo_launchable w1"
    using assms by (auto simp: prepare_room_dir_def create_room_dir_0700_def create_dir_all_def demo_env_parts map_err_def demo_launchable_def demo_owner_def
        split: option.splits sum.splits)
  obtain h where h: "stage_restore_jail demo_launch_env (boot_instance_dir base demo_owner) ?r 7 8 (host w1) = (Inr (), h)" using demo_staging by blast
  define w2 where "w2 = w1\<lparr>host := h\<rparr>"
  have w2: "dirs w2 demo_owner" "demo_launchable w2" using w1 by (simp_all add: w2_def demo_launchable_def)
  obtain w3 where w3: "open_log_file (la_boot demo_launch_env) demo_owner w2 = (Inr (), w3)" "dirs w3 demo_owner" "demo_launchable w3"
    using w2 by (auto simp: open_log_file_def open_truncate_def demo_env_parts map_err_def demo_launchable_def SLOTS_DIR_def demo_owner_def)
  obtain w4 where w4: "write_atomic (be_meta_to_json (la_boot demo_launch_env)) demo_env demo_owner m w3 = (Inr (), w4)" "dirs w4 demo_owner"
     "demo_launchable w4" "files w4 (demo_owner, ROOM_META_FILE) = Some ''m''" for m
    using w3 by (auto simp: write_atomic_def fs_write_def fs_defs demo_env_parts demo_launchable_def SLOTS_DIR_def demo_owner_def)
  show ?thesis
    by (simp add: spawn_restore_def Let_def demo_env_parts quiet_machine demo_quiet_dependencies base rid w1 on_host_def h w2_def[symmetric]
        launch_guarded_def w3 quiet_programs spawn_barriered_jailer_def map_err_def w4)
qed
lemma demo_api: "api_put (la_boot demo_launch_env) s e j n = (Inr (), n)" "api_patch (la_boot demo_launch_env) s e j n = (Inr (), n)"
  by (simp_all add: api_put_def api_patch_def api_request_def Let_def demo_launch_env_def)

lemma demo_leases:
  assumes "demo_launchable (bw_world b)" "dirs (bw_world b) demo_owner" "files (bw_world b) (demo_owner, ROOM_META_FILE) = Some ''m''" "rl_barrier la" "rl_network_namespace la = None"
  shows "\<exists>la' b'. establish_lease demo_drive_env (planned_intent demo_restore_request demo_prepared 1 None) la None b = (Inr (derive 1, la'), b')
    \<and> bw_link b' = bw_link b"
proof -
  define i where "i = spawned_intent demo_drive_env (planned_intent demo_restore_request demo_prepared 1 None) la ()"
  have i: "ri_room_id i = demo_owner" "ri_slot_index i = 1" "ri_snapshot_id i = demo_owner"
    by (simp_all add: i_def planned_intent_def demo_restore_request_def demo_prepared_def demo_frozen_def)
  have room: "ri_room_id (planned_intent demo_restore_request demo_prepared 1 None) = demo_owner" by (simp add: planned_intent_def demo_restore_request_def)
  have wr: "\<exists>w'. write_intent demo_drive_env k w = (Inr (), w') \<and> dirs w' = dirs w \<and> (\<forall>q. fst q \<noteq> RESTORE_INTENTS_DIR \<longrightarrow> files w' q = files w q)"
    if "dirs w RESTORE_INTENTS_DIR" for k w
    using that by (auto simp: write_intent_def write_intent_atomic_def Let_def fs_defs demo_env_parts map_err_def sync_dir_def)
  note ne = intent_dir_names(1)[OF demo_owner_shaped] intent_dir_names(2)
  obtain w1 where w1: "write_intent demo_drive_env i (bw_world b) = (Inr (), w1)" "dirs w1 = dirs (bw_world b)"
      "\<forall>q. fst q \<noteq> RESTORE_INTENTS_DIR \<longrightarrow> files w1 q = files (bw_world b) q"
    using wr[of "bw_world b" i] assms(1) by (auto simp: demo_launchable_def)
  have d1: "demo_launchable w1" "dirs w1 demo_owner" "files w1 (demo_owner, ROOM_META_FILE) = Some ''m''"
    using w1 assms ne by (auto simp: demo_launchable_def)
  have api: "wait_api demo_launch_env l c = (Inr (), c)" for l c
    by (simp add: wait_api_def Let_def demo_env_parts eval_nat_numeral await_boot_def poll_socket_def)
  have ready: "slot_ready demo_env 1 w1" using d1(1) by (simp add: slot_ready_def demo_launchable_def MAX_SLOT_def word_le_nat_alt word_less_nat_alt)
  obtain w2 where w2: "rewrite_slot_atomic demo_env 1 (lease_token demo_owner demo_owner) w1 = (Inr (), w2)" using slot_ready_rewrite[OF ready] by blast
  have t: "take_lease demo_drive_env i None w1 = (Inr (derive 1), w2)"
    using slot_ready_locked[OF ready] d1(1) w2
    by (simp add: take_lease_def demo_env_parts i resolved_state_base_def demo_config_def lease_def map_err_def demo_launchable_def parse_reservation_token)
  obtain x where "rewrite_atomic demo_env SLOTS_DIR 1 (lease_token demo_owner demo_owner) w1 = (x, w2)"
    using w2 by (auto simp: rewrite_slot_atomic_def map_err_def split: prod.splits sum.splits)
  from rewrite_atomic_effect[OF this] have d2: "dirs w2 = dirs w1" "files w2 (demo_owner, ROOM_META_FILE) = Some ''m''" using d1(3) ne by auto
  obtain w3 where w3: "write_intent demo_drive_env (i\<lparr>ri_boundary := Leased\<rparr>) w2 = (Inr (), w3)" "dirs w3 = dirs w2"
      "files w3 (demo_owner, ROOM_META_FILE) = Some ''m''"
    using wr[of w2 "i\<lparr>ri_boundary := Leased\<rparr>"] d1(1) d2 ne by (auto simp: demo_launchable_def)
  obtain w4 where "write_atomic (be_meta_to_json (la_boot demo_launch_env)) demo_env demo_owner
      ((room_meta_new demo_owner None (Some 7) None False 0)\<lparr>rm_slot := Some (derive 1), rm_clone_net_index := None\<rparr>) w3 = (Inr (), w4)"
    using w3(2) d2(1) d1(2) by (auto simp: write_atomic_def fs_write_def fs_defs demo_env_parts)
  then have w4: "record_slot_on_room (dv_text demo_drive_env) (be_meta_from_json (la_boot demo_launch_env)) (be_meta_to_json (la_boot demo_launch_env))
      demo_env demo_owner (derive 1) None w3 = (Inr (), w4)"
    using w3(3) by (simp add: record_slot_on_room_def room_read_def read_to_string_def map_err_def demo_env_parts)
  have tap: "create_slot_tap (la_boot demo_launch_env) s None n = (Inr (), n)" for s n
    by (simp add: create_slot_tap_def slot_tap_plan_def run_tap_command_def demo_env_parts demo_quiet_run Let_def)
  have la: "rl_network_namespace la = None" by (rule assms(5))
  show ?thesis
    using w1(1) t w3(1) w4
    by (simp add: establish_lease_def Let_def i_def[symmetric] on_bw_def as_text_def map_err_def quiet_machine release_barrier_def assms(4) demo_env_parts api
        verify_launch_namespace_def i room attach_leased_slot_def la tap verify_clone_custody_def)
qed
lemma demo_drives:
  assumes "demo_launchable w" "dirs w demo_owner" "files w (demo_owner, ROOM_META_FILE) = Some ''m''" "rl_barrier la" "rl_network_namespace la = None"
  shows "\<exists>la' b'. drive_to_ready demo_drive_env demo_restore_request (planned_intent demo_restore_request demo_prepared 1 None) la None demo_prepared
      (launch_state la w demo_guest_link) = (Inr (derive 1, la'), b')"
proof -
  obtain la' b where e: "establish_lease demo_drive_env (planned_intent demo_restore_request demo_prepared 1 None) la None (launch_state la w demo_guest_link)
      = (Inr (derive 1, la'), b)" "bw_link b = demo_guest_link"
    using demo_leases[of "launch_state la w demo_guest_link" la] assms by (auto simp: launch_state_def)
  obtain jr rd where dirs: "jail_root_dir None demo_config demo_owner = Some jr" "room_dir None demo_config demo_owner = Some rd"
    by (simp add: jail_root_dir_def jail_instance_dir_def room_dir_def chroot_base_def resolved_state_base_def demo_config_def default_config_def)
  define p where "p = listener_path_for jr RESUME_PORT"
  define l where "l = demo_guest_link\<lparr>lk_bound := (lk_bound demo_guest_link)(p := True)\<rparr>"
  have arm: "arm_resume demo_drive_env demo_owner None jr b = (Inr demo_nudge, b\<lparr>bw_link := l, bw_secrets := [p]\<rparr>)"
    using e(2) by (simp add: arm_resume_def build_resume_payload_def on_link_def serve_resume_def bind_owned_def bind_socket_def unlink_socket_def chown_socket_def
        demo_env_parts map_err_def l_def p_def[symmetric] demo_guest_link_def)
      (simp add: demo_drive_env_def demo_nudge_def demo_link_env_def)
  have "fst (serve_resume_inner demo_link_env p demo_nudge l) = Inr ()"
    by (rule obedient_guest_resumes[OF demo_scripted]) (simp_all add: l_def demo_guest_link_def demo_nudge_def resume_payload_new_def line_text_def)
  then obtain l' where serve: "serve_resume_inner demo_link_env p demo_nudge l = (Inr (), l')" by (metis prod.collapse)
  have room: "ri_room_id (planned_intent demo_restore_request demo_prepared 1 None) = demo_owner" "rq_room_id demo_restore_request = demo_owner"
    by (simp_all add: planned_intent_def demo_restore_request_def)
  have req: "rq_witness demo_restore_request = False" "rq_egress demo_restore_request = PlanObserve" "rq_secrets demo_restore_request = None"
    "prs_ops demo_prepared = [InstallCustody, LoadSnapshot (''/'' @ SNAPSHOT_VMSTATE_FILE) (''/'' @ SNAPSHOT_MEM_FILE), ResumeVm, ApplyHygieneNudgeAndAwaitAck]"
    by (simp_all add: demo_restore_request_def demo_prepared_def)
  have nudge: "\<exists>b''. await_nudge demo_drive_env demo_restore_request jr (Some demo_nudge) (b\<lparr>bw_link := l, bw_secrets := [p]\<rparr>) = (Inr (), b'')"
    using serve by (simp add: await_nudge_def on_link_def demo_env_parts p_def[symmetric] Let_def task_outcome_def await_acked_def) (simp add: demo_drive_env_def)
  then show ?thesis
    by (auto simp: drive_to_ready_def e dirs demo_env_parts room req as_text_def map_err_def quiet_machine demo_quiet_ids install_custody_policy_def plan_enforces_def
        arm demo_api resume_guest_def verify_clone_custody_def verify_clone_policy_def demo_staged demo_revalidates)
qed

theorem restored_room_is_the_frozen_one_witness:
  "\<exists>d w' l'. restore demo_drive_env demo_restore_request demo_frozen_world demo_guest_link = (Inr d, w', l')
    \<and> holds_lease w' 1 demo_owner demo_owner \<and> rd_slot d = derive 1"
proof -
  define w where "w = demo_frozen_world\<lparr>dirs := (dirs demo_frozen_world)(RESTORE_INTENTS_DIR := True),
          files := (files demo_frozen_world)(intent_key demo_owner \<mapsto> ''pre_spawn'')\<rparr>"
  have w: "demo_launchable w" "\<not> dirs w demo_owner"
    by (simp_all add: w_def demo_launchable_def demo_frozen_world_def SLOTS_DIR_def RESTORE_INTENTS_DIR_def demo_owner_def)
  obtain la w1 where sp: "spawn_restore demo_launch_env (spawn_request demo_restore_request demo_prepared None) w = (Inr la, w1)"
    and w1: "demo_launchable w1" "dirs w1 demo_owner" "files w1 (demo_owner, ROOM_META_FILE) = Some ''m''" using demo_spawns[OF w] by blast
  have la: "rl_barrier la" "rl_network_namespace la = None" using spawn_restore_guard[OF sp] by (simp_all add: spawn_request_def)
  obtain la' b where dr: "drive_to_ready demo_drive_env demo_restore_request (planned_intent demo_restore_request demo_prepared 1 None) la None demo_prepared
      (launch_state la w1 demo_guest_link) = (Inr (derive 1, la'), b)" using demo_drives[OF w1 la] by blast
  obtain jr where jr: "jail_root_dir None demo_config demo_owner = Some jr"
    by (simp add: jail_root_dir_def jail_instance_dir_def chroot_base_def resolved_state_base_def demo_config_def default_config_def)
  have req: "rq_room_id demo_restore_request = demo_owner" "rq_snapshot_dir demo_restore_request = ''/sd''" "rq_image demo_restore_request = ''/img''"
    "rq_toolstore demo_restore_request = None" by (simp_all add: demo_restore_request_def)
  have c: "create_intent_exclusive (dv_intent_json demo_drive_env) demo_env (planned_intent demo_restore_request demo_prepared 1 None) demo_frozen_world = (Inr (), w)"
    using demo_intent_created by (simp add: demo_env_parts w_def)
  obtain d w' l' where r: "restore demo_drive_env demo_restore_request demo_frozen_world demo_guest_link = (Inr d, w', l')"
    and d: "rd_slot d = derive 1" "rd_snapshot_id d = demo_owner" "rd_room_id d = demo_owner"
    by (simp add: restore_def req valid_room_id demo_owner_shaped demo_prepares restore_prepared_def demo_admits c map_err_def
        quiet_machine demo_revalidates demo_env_parts sp run_launched_def jr demo_staged dr) (simp add: demo_prepared_def demo_frozen_def)
  have "derive x = derive 1 \<Longrightarrow> x = 1" for x using arg_cong[of "derive x" "derive 1" slot_index] by (simp add: derive_def Let_def)
  then show ?thesis using r d restored_room_is_the_frozen_one[OF r] by metis
qed



end
