(* ===== verification/Spec2Isabelle.thy ===== *)
theory Spec2Isabelle
  imports Restore Matrix Registry Egress_Audit Snapshot_Safety Boot Runner Restore_Drive
begin

text \<open>
  A verification development of rooms, a runner that gives each untrusted command its own Firecracker micro-VM
  (\<open>src/src/*.rs\<close>). A room is a directory below the state base, a jail below the chroot base, a network slot (a tap
  device and a firewall chain) and a VMM process. A room can be frozen into a snapshot, and a snapshot restored into
  clones, each of which has a network namespace of its own. The program keeps no daemon: every invocation finds the
  state of the host in files and must leave it so that the next one, after a crash too, can tell what is in use.

  \<^bold>\<open>The host.\<close> Two theories give the language, one the machine.
  \<^item> \<open>Rust_Prelude\<close>, \<open>Rust_Numbers\<close>: strings (lists of ASCII characters), splitting and trimming, results as sums
    (\<open>Inl\<close> the error), the state passing chains of fallible steps, integer parsing and printing, saturating and checked
    arithmetic. Unsigned machine integers are naturals or words with their bounds written out.
  \<^item> \<open>Host_FS\<close>: files, directories, processes and the observable host resources. Every operation takes an
    environment that says which system calls fail and what other processes do meanwhile; the theorems quantify over it.
    A path below the state base is written relative to it.

  \<^bold>\<open>The components\<close>, in the order in which they are built on each other.
  \<^item> \<open>Room\<close> (\<open>room.rs\<close>): the metadata of a room, liveness by process id and start time, and the one-way ladder from a
    base through sealed to tainted that decides whether the room may be frozen.
  \<^item> \<open>Indexed_Claim\<close> (\<open>indexed_claim.rs\<close>): crash-safe claims on a pool of indexed resources by atomic creation of a file.
    The locale \<open>exclusive_holder\<close> states what one holder at a time means, \<open>index_allocator\<close> extends it with grants; both are
    interpreted on the histories of the claim operations.
  \<^item> \<open>Slot\<close> (\<open>slot.rs\<close>): network slots, which are claims, reservations of a snapshot, flat leases or clone lease sets. Each
    critical section refines one transition of an abstract slot machine.
  \<^item> \<open>Config\<close> (\<open>config.rs\<close>): the path layout. \<open>Inode_Seal\<close> (\<open>inode_seal.rs\<close>): immutable inodes, over the interface
    \<open>inode_flags\<close>.
  \<^item> \<open>Snapshot\<close> (\<open>snapshot.rs\<close>), \<open>Restore\<close> (\<open>restore.rs\<close>), \<open>Matrix\<close> (\<open>matrix.rs\<close>): the policies as pure data.
  \<^item> \<open>Isolation\<close> (\<open>isolation.rs\<close>, \<open>veth_isolation.rs\<close>): predicates on firewall dumps, related to the verdict a packet gets
    when the chain is traversed. \<open>Egress\<close> (\<open>egress.rs\<close>) and \<open>Egress_Enforcement\<close>: the outbound policy, the chains made
    for it, and what an accepted chain enforces. \<open>Artifacts\<close> (\<open>artifacts.rs\<close>) and \<open>Egress_Audit\<close> (\<open>egress_audit.rs\<close>): the
    parsers of untrusted bytes and the scoring of exfiltration attempts.
  \<^item> \<open>Clone_Net\<close> (\<open>clonenet.rs\<close>): namespaces and veth pairs of clones, their creation in stages, rollback and release.
    The relation \<open>reached_by\<close> says which external commands a network was reached by; it shows here, for the guard and for the
    teardown of a restore that nothing but a room's own tap, rules and namespace is touched, and in which order.
  \<^item> \<open>Teardown\<close> (\<open>firecracker.rs\<close>): termination of a verified process, the jail's unmounting, the guard that cleans up.
  \<^item> \<open>Restore_Exec\<close> (\<open>restore_exec.rs\<close>): the durable intents of a restore and its terminal teardown.
  \<^item> \<open>Snapshot_Index\<close>, \<open>Snapshot_Exec\<close> and \<open>Snapshot_Safety\<close> (\<open>snapshot_exec.rs\<close>): the snapshot transaction, its durable
    boundaries and its recovery. \<open>boundary_true\<close> says what a recorded boundary claims of the world; every stage that returns an intent
    makes its boundary true, so the record never runs ahead of the facts. Safety rests on the locale \<open>step_frame\<close>, interpreted for each part of the state that a
    step must leave alone.
  \<^item> \<open>Step_Frame\<close> and \<open>Host_Frame\<close>: the locale \<open>step_frame\<close>, a preorder that a chain of fallible steps stays in, and its first
    interpretation, the files, directories and jails a step may change.
  \<^item> \<open>Vsock\<close> (\<open>vsock.rs\<close>): the delivery of secrets, the provisioning of a base and the resume handshake, as runs against a peer
    that answers as it likes; every run follows a transcript.
  \<^item> \<open>Images\<close> (\<open>rootfs.rs\<close>, \<open>toolstore.rs\<close>) and \<open>Capture\<close> (\<open>witness.rs\<close>): admission of images and toolchain disks, and the
    capture of a room's traffic.
  \<^item> \<open>Boot\<close> (\<open>firecracker.rs\<close>, \<open>transport.rs\<close>): booting a room, cancellation at every wait, the unwinding of a failed boot, sealing
    and shutdown.
  \<^item> \<open>Restore_Launch\<close> (\<open>firecracker.rs\<close>), \<open>Restore_Source\<close> and \<open>Restore_Drive\<close> (\<open>restore_exec.rs\<close>): the jail of a restore and its
    process behind a barrier; the stamps that bind the files of a snapshot to a plan; the transaction from its admission over the
    durable intent, the lease and the operations of the plan to the guest's acknowledgement or the abort. A failed restore leaves its
    intent or nothing; a successful one runs in the slot the snapshot froze, resumed only from the files that were prepared.
  \<^item> \<open>Collected\<close> (\<open>artifacts.rs\<close>) and \<open>Runner\<close> (\<open>runner.rs\<close>): the result a guest leaves and its loader; the readiness wait, the
    commands sent over ssh and the shell words a POSIX lexer reads in them, the push of a branch, the collection of the output and
    the provisioning input of a base. The locale \<open>ssh_log\<close> carries what is known of the commands a run sends.
  \<^item> \<open>Registry\<close> (\<open>registry.rs\<close>): listing, garbage collection and \<open>rooms kill\<close>; the locale \<open>sweep_frame\<close> carries what every
    sweep spares.

  \<^bold>\<open>Choices.\<close> Code outside the repository is a parameter with its documented behaviour as named hypotheses:
  \<open>serde_json\<close>, \<open>sha2\<close>, the kernel's answers, \<open>iptables\<close> and \<open>ip\<close>, name resolution, the VMM's API. An error message of the
  operating system is a parameter of the environment, so each error branch keeps its text. A failure in the environment
  is fixed for the length of one operation. Loops whose end depends on the host are \<open>partial_function (option)\<close>
  with a lemma that they end (the deletion of rules from a documented firewall) or take the number of polls the source
  derives from its deadline; no definition needs fuel that the source does not have.

  \<^bold>\<open>Not modelled.\<close> The command line (\<open>main.rs\<close>) parses arguments with a library, composes the operations above and formats
  reports; the host doctor (\<open>doctor.rs\<close>) probes the host and formats a report, which the preflight gate (\<open>preflight.rs\<close>) reads; the
  lifecycle stream (\<open>lifecycle.rs\<close>) is file output. Process output is text: the errors of reading it as UTF-8 are left out.
\<close>

end
